(* ===== verification/Exchange_Prelude.thy ===== *)
theory Exchange_Prelude
  imports Main "HOL-Library.Signed_Division"
begin

text \<open>
  Shared vocabulary of the development: the exceptions of the C++ code as values, the
  exception-and-state computations that the service's member functions become, the bounds of
  the machine integers the code computes with, and the facts about SQL tables (lists of rows
  with a key column) that every component uses.

  A computation of type \<open>('s, 'a) svc\<close> takes the state and returns either an exception or a
  result, together with the state it leaves behind. A C++ exception does not undo earlier
  effects by itself, so the state survives an error; the RAII class \<open>Transaction\<close> of
  src/database.cpp, whose destructor rolls back, is the combinator \<open>transactionS\<close>.
\<close>

named_theorems svc_simps
named_theorems svc_defs
named_theorems svc_runs

section \<open>Exceptions and computations\<close>

datatype error =
    Runtime_Error string
  | Database_Error string
  | User_Error string
  | Invalid_Argument string
  | Overflow_Error string

type_synonym 'a result = "error + 'a"

type_synonym ('s, 'a) svc = "'s \<Rightarrow> 'a result \<times> 's"

definition returnS :: "'a \<Rightarrow> ('s, 'a) svc" where
  "returnS x s = (Inr x, s)"

definition throwS :: "error \<Rightarrow> ('s, 'a) svc" where
  "throwS e s = (Inl e, s)"

definition bindS :: "('s, 'a) svc \<Rightarrow> ('a \<Rightarrow> ('s, 'b) svc) \<Rightarrow> ('s, 'b) svc" where
  "bindS m f s = (case m s of (Inl e, s') \<Rightarrow> (Inl e, s') | (Inr x, s') \<Rightarrow> f x s')"

definition throwIf :: "bool \<Rightarrow> error \<Rightarrow> ('s, unit) svc" where
  "throwIf b e = (if b then throwS e else returnS ())"

definition whenS :: "bool \<Rightarrow> ('s, unit) svc \<Rightarrow> ('s, unit) svc" where
  "whenS b m = (if b then m else returnS ())"

text \<open>A \<open>SELECT\<close> reads the state; a writing statement replaces it.\<close>

definition queryS :: "('s \<Rightarrow> 'a) \<Rightarrow> ('s, 'a) svc" where
  "queryS f s = (Inr (f s), s)"

definition executeS :: "('s \<Rightarrow> 's) \<Rightarrow> ('s, unit) svc" where
  "executeS g s = (Inr (), g s)"

text \<open>A statement that the server may reject (a \<open>CHECK\<close>, a column's range).\<close>

definition executeIfS :: "('s \<Rightarrow> bool) \<Rightarrow> error \<Rightarrow> ('s \<Rightarrow> 's) \<Rightarrow> ('s, unit) svc" where
  "executeIfS ok e g s = (if ok s then (Inr (), g s) else (Inl e, s))"

text \<open>An UPDATE that also reports how many rows its WHERE matched (\<open>affectedRows\<close>).\<close>

definition updateS :: "('s \<Rightarrow> bool) \<Rightarrow> error \<Rightarrow> ('s \<Rightarrow> nat) \<Rightarrow> ('s \<Rightarrow> 's) \<Rightarrow> ('s, nat) svc" where
  "updateS ok e cnt g s = (if ok s then (Inr (cnt s), g s) else (Inl e, s))"

definition liftS :: "'a result \<Rightarrow> ('s, 'a) svc" where
  "liftS r s = (r, s)"

text \<open>The \<open>Transaction\<close> guard: commit on success, roll back when an exception leaves the scope.\<close>

definition transactionS :: "('s, 'a) svc \<Rightarrow> ('s, 'a) svc" where
  "transactionS m s = (case m s of (Inl e, s') \<Rightarrow> (Inl e, s) | (Inr x, s') \<Rightarrow> (Inr x, s'))"

fun mapS :: "('x \<Rightarrow> ('s, unit) svc) \<Rightarrow> 'x list \<Rightarrow> ('s, unit) svc" where
  "mapS f [] = returnS ()"
| "mapS f (x # xs) = bindS (f x) (\<lambda>_. mapS f xs)"

lemma not_isl_fst: "\<not> isl (fst p) \<longleftrightarrow> (\<exists>x s'. p = (Inr x, s'))"
  by (cases p; cases "fst p") auto

lemma returnS_Inr [svc_simps]: "returnS x s = (Inr y, s') \<longleftrightarrow> y = x \<and> s' = s"
  by (auto simp: returnS_def)

lemma throwS_Inr [svc_simps]: "throwS e s = (Inr y, s') \<longleftrightarrow> False"
  by (simp add: throwS_def)

lemma bindS_Inr [svc_simps]:
  "bindS m f s = (Inr y, s') \<longleftrightarrow> (\<exists>x s1. m s = (Inr x, s1) \<and> f x s1 = (Inr y, s'))"
  by (auto simp: bindS_def split: prod.splits sum.splits)

lemma bindS_step: "m s = (Inr x, s1) \<Longrightarrow> bindS m f s = f x s1"
  by (simp add: bindS_def)

lemma bindS_InrE:
  assumes "bindS m f s = (Inr y, s')"
  obtains x s1 where "m s = (Inr x, s1)" "f x s1 = (Inr y, s')"
  using assms by (auto simp: bindS_Inr)

lemma throwIf_Inr [svc_simps]: "throwIf b e s = (Inr y, s') \<longleftrightarrow> \<not> b \<and> s' = s"
  by (auto simp: throwIf_def throwS_def returnS_def)

lemma whenS_Inr [svc_simps]:
  "whenS b m s = (Inr y, s') \<longleftrightarrow> (if b then m s = (Inr y, s') else s' = s)"
  by (auto simp: whenS_def returnS_def)

lemma queryS_Inr [svc_simps]: "queryS f s = (Inr y, s') \<longleftrightarrow> y = f s \<and> s' = s"
  by (auto simp: queryS_def)

lemma executeS_Inr [svc_simps]: "executeS g s = (Inr y, s') \<longleftrightarrow> s' = g s"
  by (auto simp: executeS_def)

lemma executeIfS_Inr [svc_simps]: "executeIfS ok e g s = (Inr y, s') \<longleftrightarrow> ok s \<and> s' = g s"
  by (auto simp: executeIfS_def)

lemma updateS_Inr [svc_simps]:
  "updateS ok e cnt g s = (Inr y, s') \<longleftrightarrow> ok s \<and> y = cnt s \<and> s' = g s"
  by (auto simp: updateS_def)

lemma liftS_Inr [svc_simps]: "liftS r s = (Inr y, s') \<longleftrightarrow> r = Inr y \<and> s' = s"
  by (auto simp: liftS_def)

lemma transactionS_Inr [svc_simps]:
  "transactionS m s = (Inr y, s') \<longleftrightarrow> m s = (Inr y, s')"
  by (auto simp: transactionS_def split: prod.splits sum.splits)

lemma transactionS_Inl [svc_simps]:
  "transactionS m s = (Inl e, s') \<longleftrightarrow> s' = s \<and> (\<exists>s1. m s = (Inl e, s1))"
  by (auto simp: transactionS_def split: prod.splits sum.splits)

lemmas svc_evals [svc_defs] =
  returnS_def throwS_def bindS_def throwIf_def whenS_def queryS_def executeS_def
  executeIfS_def updateS_def liftS_def transactionS_def

text \<open>Running one statement of a composed computation.\<close>

lemma bindS_runs [svc_runs]:
  "bindS (queryS f) g s = g (f s) s" "bindS (executeS u) k s = k () (u s)" "bindS (returnS x) g' s = g' x s"
  "bindS (throwIf b e) k s = (if b then (Inl e, s) else k () s)"
  "bindS (liftS r) g'' s = (case r of Inl e \<Rightarrow> (Inl e, s) | Inr x \<Rightarrow> g'' x s)"
  "bindS (throwS e) g s = (Inl e, s)"
  by (simp_all add: bindS_def queryS_def executeS_def returnS_def throwIf_def throwS_def liftS_def split: sum.split)

definition ignore :: "('s, 'a) svc \<Rightarrow> ('s, unit) svc" where
  "ignore m = bindS m (\<lambda>_. returnS ())"

text \<open>\<open>try\<close> with a handler for every exception.\<close>

definition catchS :: "('s, 'a) svc \<Rightarrow> (error \<Rightarrow> ('s, 'a) svc) \<Rightarrow> ('s, 'a) svc" where
  "catchS m h s = (case m s of (Inl e, s') \<Rightarrow> h e s' | (Inr x, s') \<Rightarrow> (Inr x, s'))"

text \<open>\<open>std::exception::what\<close>\<close>

fun what :: "error \<Rightarrow> string" where
  "what (Runtime_Error t) = t"
| "what (Database_Error t) = t"
| "what (User_Error t) = t"
| "what (Invalid_Argument t) = t"
| "what (Overflow_Error t) = t"

text \<open>A caught error is only logged.\<close>

definition logged_only :: "('s, 'a) svc \<Rightarrow> ('s, unit) svc" where
  "logged_only m = catchS (ignore m) (\<lambda>_. returnS ())"

text \<open>A run of a composed computation, whatever its outcome.\<close>

lemma bindS_E:
  assumes "bindS m f s = (r, s')"
  obtains e where "m s = (Inl e, s')" "r = Inl e" | x s1 where "m s = (Inr x, s1)" "f x s1 = (r, s')"
  using assms by (cases "m s"; cases "fst (m s)") (auto simp: bindS_def)

lemma throwIf_E: "throwIf b e s = (r, s') \<Longrightarrow> s' = s \<and> r = (if b then Inl e else Inr ())"
  by (auto simp: throwIf_def throwS_def returnS_def)

subsection \<open>Pure results\<close>

definition bindR :: "'a result \<Rightarrow> ('a \<Rightarrow> 'b result) \<Rightarrow> 'b result" where
  "bindR r f = (case r of Inl e \<Rightarrow> Inl e | Inr x \<Rightarrow> f x)"

lemma bindR_simps [simp]: "bindR (Inl e) f = Inl e" "bindR (Inr x) f = f x"
  by (simp_all add: bindR_def)

lemma bindR_Inr: "bindR r f = Inr y \<longleftrightarrow> (\<exists>x. r = Inr x \<and> f x = Inr y)"
  by (cases r) simp_all

lemma bindR_InrE: "bindR r f = Inr y \<Longrightarrow> (\<And>x. r = Inr x \<Longrightarrow> f x = Inr y \<Longrightarrow> P) \<Longrightarrow> P"
  by (cases r) simp_all

subsection \<open>Preservation of an invariant\<close>

text \<open>
  \<open>keeps I m\<close>: whether \<open>m\<close> succeeds or throws, it leaves a state with \<open>I\<close>. Inside a
  transaction only the successful runs count, since a failing one is rolled back.
\<close>

definition keeps :: "('s \<Rightarrow> bool) \<Rightarrow> ('s, 'a) svc \<Rightarrow> bool" where
  "keeps I m \<longleftrightarrow> (\<forall>s. I s \<longrightarrow> I (snd (m s)))"

lemma keepsI: "(\<And>s r s'. I s \<Longrightarrow> m s = (r, s') \<Longrightarrow> I s') \<Longrightarrow> keeps I m"
  unfolding keeps_def by (metis prod.collapse)

lemma keepsD: "keeps I m \<Longrightarrow> I s \<Longrightarrow> m s = (r, s') \<Longrightarrow> I s'"
  by (auto simp: keeps_def)

lemma keeps_transactionS:
  assumes "\<And>s x s'. I s \<Longrightarrow> m s = (Inr x, s') \<Longrightarrow> I s'"
  shows "keeps I (transactionS m)"
  using assms by (auto simp: keeps_def transactionS_def split: prod.splits sum.splits)

lemma keeps_bindS:
  assumes "keeps I m" and "\<And>x. keeps I (f x)"
  shows "keeps I (bindS m f)"
  using assms by (fastforce simp: keeps_def bindS_def split: prod.splits sum.splits)

lemma keeps_returnS: "keeps I (returnS x)"
  by (simp add: keeps_def returnS_def)

lemma keeps_throwS: "keeps I (throwS e)"
  by (simp add: keeps_def throwS_def)

lemma keeps_throwIf: "keeps I (throwIf b e)"
  by (simp add: keeps_def throwIf_def throwS_def returnS_def)

lemma keeps_queryS: "keeps I (queryS f)"
  by (simp add: keeps_def queryS_def)

lemma keeps_liftS: "keeps I (liftS r)"
  by (simp add: keeps_def liftS_def)

lemmas keeps_intros = keeps_bindS keeps_returnS keeps_throwS keeps_throwIf keeps_queryS keeps_liftS

section \<open>Machine integers\<close>

text \<open>
  \<open>Cents\<close> and unit amounts are \<open>std::int64_t\<close>, quantities are \<open>int\<close>; ids are positive
  \<open>std::uint64_t\<close> that MySQL's AUTO_INCREMENT hands out. They are modelled by \<open>int\<close> and
  \<open>nat\<close>; where the code guards against overflow the bound is written out.
\<close>

type_synonym Cents = int
type_synonym Id = nat

definition int64_max :: int where "int64_max = 9223372036854775807"
definition int64_min :: int where "int64_min = - 9223372036854775808"
definition int32_max :: int where "int32_max = 2147483647"
definition int32_min :: int where "int32_min = - 2147483648"

lemma int64_max_pos [simp]: "0 < int64_max" "0 \<le> int64_max"
  by (simp_all add: int64_max_def)

lemma sdiv_nonneg_eq_div: "0 \<le> a \<Longrightarrow> 0 < b \<Longrightarrow> a sdiv b = a div (b::int)"
  by (cases "a = 0") (simp_all add: signed_divide_int_def sgn_if)

lemma smod_nonneg_eq_mod: "0 \<le> a \<Longrightarrow> 0 < b \<Longrightarrow> a smod b = a mod (b::int)"
  by (cases "a = 0") (simp_all add: signed_modulo_int_def sgn_if)

section \<open>Tables\<close>

text \<open>
  A table is the list of its rows in insertion order. \<open>upd_where P g\<close> is
  \<open>UPDATE ... SET g WHERE P\<close>, \<open>count_where P\<close> the number of rows a statement matches (the
  connection is opened with \<open>CLIENT_FOUND_ROWS\<close>, so this is what \<open>affectedRows\<close> returns for
  an UPDATE), \<open>find P\<close> the row of a \<open>SELECT\<close> by primary key.
\<close>

definition upd_where :: "('r \<Rightarrow> bool) \<Rightarrow> ('r \<Rightarrow> 'r) \<Rightarrow> 'r list \<Rightarrow> 'r list" where
  "upd_where P g xs = map (\<lambda>r. if P r then g r else r) xs"

definition del_where :: "('r \<Rightarrow> bool) \<Rightarrow> 'r list \<Rightarrow> 'r list" where
  "del_where P xs = filter (\<lambda>r. \<not> P r) xs"

definition count_where :: "('r \<Rightarrow> bool) \<Rightarrow> 'r list \<Rightarrow> nat" where
  "count_where P xs = length (filter P xs)"

text \<open>AUTO_INCREMENT: an id above every id of the table.\<close>

definition fresh_id :: "('r \<Rightarrow> Id) \<Rightarrow> 'r list \<Rightarrow> Id" where
  "fresh_id key xs = Suc (foldr (\<lambda>r m. max (key r) m) xs 0)"

lemma fresh_id_gt: "r \<in> set xs \<Longrightarrow> key r < fresh_id key xs"
  unfolding fresh_id_def by (induction xs) (auto simp: less_Suc_eq_le)

lemma fresh_id_neq: "r \<in> set xs \<Longrightarrow> key r \<noteq> fresh_id key xs"
  by (drule fresh_id_gt [of r xs key]) simp

lemma fresh_id_notin [simp]: "fresh_id key xs \<notin> key ` set xs"
  by (metis fresh_id_neq imageE)

lemma fresh_id_pos [simp]: "0 < fresh_id key xs"
  by (simp add: fresh_id_def)

lemma upd_where_Nil [simp]: "upd_where P g [] = []"
  by (simp add: upd_where_def)

lemma upd_where_Cons [simp]:
  "upd_where P g (x # xs) = (if P x then g x else x) # upd_where P g xs"
  by (simp add: upd_where_def)

lemma upd_where_append [simp]: "upd_where P g (xs @ ys) = upd_where P g xs @ upd_where P g ys"
  by (simp add: upd_where_def)

lemma length_upd_where [simp]: "length (upd_where P g xs) = length xs"
  by (simp add: upd_where_def)

lemma upd_where_no_match: "(\<And>r. r \<in> set xs \<Longrightarrow> \<not> P r) \<Longrightarrow> upd_where P g xs = xs"
  by (induction xs) auto

lemma in_upd_where:
  "r \<in> set (upd_where P g xs) \<longleftrightarrow> (\<exists>r0 \<in> set xs. r = (if P r0 then g r0 else r0))"
  by (auto simp: upd_where_def)

lemma map_upd_where:
  "(\<And>r. P r \<Longrightarrow> f (g r) = f r) \<Longrightarrow> map f (upd_where P g xs) = map f xs"
  by (simp add: upd_where_def)

lemma sum_list_upd_where_same:
  fixes f :: "'r \<Rightarrow> int"
  assumes "\<And>r. r \<in> set xs \<Longrightarrow> P r \<Longrightarrow> f (g r) = f r"
  shows "(\<Sum>r\<leftarrow>upd_where P g xs. f r) = (\<Sum>r\<leftarrow>xs. f r)"
  using assms by (induction xs) auto

text \<open>The effect of an UPDATE by primary key on a sum over the table.\<close>

lemma sum_list_upd_key:
  fixes f :: "'r \<Rightarrow> int"
  assumes "distinct (map key xs)" and "r \<in> set xs" and "key r = i"
  shows "(\<Sum>x\<leftarrow>upd_where (\<lambda>x. key x = i) g xs. f x) = (\<Sum>x\<leftarrow>xs. f x) - f r + f (g r)"
  using assms
proof (induction xs)
  case Nil
  then show ?case by simp
next
  case (Cons y ys)
  show ?case
  proof (cases "r = y")
    case True
    with Cons.prems have "\<And>x. x \<in> set ys \<Longrightarrow> key x \<noteq> i" by (auto simp: image_iff)
    then have "upd_where (\<lambda>x. key x = i) g ys = ys" by (intro upd_where_no_match) auto
    with True Cons.prems show ?thesis by simp
  next
    case False
    with Cons.prems have "key y \<noteq> i" by (auto simp: image_iff)
    with False Cons show ?thesis by simp
  qed
qed

lemma distinct_key_eq:
  "distinct (map key xs) \<Longrightarrow> r \<in> set xs \<Longrightarrow> r' \<in> set xs \<Longrightarrow> key r = key r' \<Longrightarrow> r = r'"
  by (auto simp: distinct_map inj_on_def)

lemma find_key_in: "find P xs = Some r \<Longrightarrow> r \<in> set xs \<and> P r"
  by (induction xs) (auto split: if_splits)

lemma find_NoneD: "find P xs = None \<Longrightarrow> r \<in> set xs \<Longrightarrow> \<not> P r"
  by (auto simp: find_None_iff)

lemma find_key_distinct:
  "distinct (map key xs) \<Longrightarrow> r \<in> set xs \<Longrightarrow> find (\<lambda>x. key x = key r) xs = Some r"
  by (induction xs) (auto simp: image_iff)

lemma filter_key:
  assumes "distinct (map f xs)" and "a \<in> set xs"
  shows "filter (\<lambda>x. f x = f a) xs = [a]"
  using assms by (induction xs) (auto simp: filter_empty_conv, metis image_eqI)

lemma find_append: "find P (xs @ ys) = (case find P xs of None \<Rightarrow> find P ys | Some r \<Rightarrow> Some r)"
  by (induction xs) auto

lemma find_upd_where_key:
  assumes "\<And>r. key (g r) = key r"
  shows "find (\<lambda>x. key x = i) (upd_where (\<lambda>x. key x = j) g xs) =
    (if i = j then map_option g (find (\<lambda>x. key x = i) xs) else find (\<lambda>x. key x = i) xs)"
  using assms by (induction xs) auto

lemma find_upd_where_other:
  assumes "\<And>r. P r \<Longrightarrow> Q (g r) = Q r" and "\<And>r. P r \<Longrightarrow> \<not> Q r"
  shows "find Q (upd_where P g xs) = find Q xs"
  using assms by (induction xs) auto

lemma count_where_pos_iff: "0 < count_where P xs \<longleftrightarrow> (\<exists>r \<in> set xs. P r)"
  by (auto simp: count_where_def filter_empty_conv)

lemma count_where_key:
  "distinct (map key xs) \<Longrightarrow>
    count_where (\<lambda>x. key x = i) xs = (if find (\<lambda>x. key x = i) xs = None then 0 else 1)"
proof (induction xs)
  case Nil
  then show ?case by (simp add: count_where_def)
next
  case (Cons y ys)
  show ?case
  proof (cases "key y = i")
    case True
    with Cons.prems have "filter (\<lambda>x. key x = i) ys = []"
      by (auto simp: filter_empty_conv image_iff)
    with True show ?thesis by (simp add: count_where_def)
  next
    case False
    with Cons show ?thesis by (simp add: count_where_def)
  qed
qed

text \<open>An UPDATE by primary key with a further condition on the row.\<close>

lemma upd_where_key_cond:
  assumes "distinct (map key xs)" and "find (\<lambda>x. key x = i) xs = Some r"
  shows "upd_where (\<lambda>x. key x = i \<and> Q x) g xs = (if Q r then upd_where (\<lambda>x. key x = i) g xs else xs)"
    and "count_where (\<lambda>x. key x = i \<and> Q x) xs = (if Q r then 1 else 0)"
proof -
  note R = find_key_in [OF assms(2)]
  have only: "key x = i \<and> Q x \<longleftrightarrow> key x = i \<and> Q r" if "x \<in> set xs" for x
    using distinct_key_eq [OF assms(1) that conjunct1 [OF R]] R by auto
  have "upd_where (\<lambda>x. key x = i \<and> Q x) g xs = upd_where (\<lambda>x. key x = i \<and> Q r) g xs"
    unfolding upd_where_def by (rule map_cong [OF refl]) (simp only: only)
  then show "upd_where (\<lambda>x. key x = i \<and> Q x) g xs = (if Q r then upd_where (\<lambda>x. key x = i) g xs else xs)"
    by (simp add: upd_where_no_match)
  have "filter (\<lambda>x. key x = i \<and> Q x) xs = filter (\<lambda>x. key x = i \<and> Q r) xs"
    by (rule filter_cong [OF refl]) (rule only)
  then show "count_where (\<lambda>x. key x = i \<and> Q x) xs = (if Q r then 1 else 0)"
    using count_where_key [OF assms(1), of i] assms(2) by (simp add: count_where_def)
qed

lemma upd_where_key_missing:
  assumes "find (\<lambda>x. key x = i) xs = None"
  shows "upd_where (\<lambda>x. key x = i \<and> Q x) g xs = xs" and "count_where (\<lambda>x. key x = i \<and> Q x) xs = 0"
  using assms by (auto simp: find_None_iff count_where_def filter_empty_conv intro!: upd_where_no_match)

lemma sum_list_nonneg_member:
  fixes f :: "'r \<Rightarrow> int"
  assumes "\<And>r. r \<in> set xs \<Longrightarrow> 0 \<le> f r" and "x \<in> set xs"
  shows "f x \<le> (\<Sum>r\<leftarrow>xs. f r)"
  using assms
proof (induction xs)
  case Nil
  then show ?case by simp
next
  case (Cons y ys)
  have "0 \<le> (\<Sum>r\<leftarrow>ys. f r)" using Cons.prems by (intro sum_list_nonneg) auto
  with Cons show ?case by fastforce
qed

text \<open>Rows inserted one after the other, each under a fresh key.\<close>

definition add_rows :: "('r \<Rightarrow> Id) \<Rightarrow> (Id \<Rightarrow> 'v \<Rightarrow> 'r) \<Rightarrow> 'r list \<Rightarrow> 'v list \<Rightarrow> 'r list" where
  "add_rows key mk xs vs = foldl (\<lambda>xs v. xs @ [mk (fresh_id key xs) v]) xs vs"

lemma add_rows_Nil [simp]: "add_rows key mk xs [] = xs"
  by (simp add: add_rows_def)

lemma add_rows_Cons:
  "add_rows key mk xs (v # vs) = add_rows key mk (xs @ [mk (fresh_id key xs) v]) vs"
  by (simp add: add_rows_def)

lemma add_rows_append:
  "add_rows key mk xs (vs @ ws) = add_rows key mk (add_rows key mk xs vs) ws"
  by (simp add: add_rows_def)

lemma add_rows_step: "add_rows key mk (add_rows key mk xs [v]) vs = add_rows key mk xs (v # vs)"
  by (simp add: add_rows_def)

lemma add_rows_distinct:
  "(\<And>i v. key (mk i v) = i) \<Longrightarrow> distinct (map key xs) \<Longrightarrow> distinct (map key (add_rows key mk xs vs))"
proof (induction vs arbitrary: xs)
  case Nil
  then show ?case by simp
next
  case (Cons v vs)
  have "distinct (map key (xs @ [mk (fresh_id key xs) v]))"
    using Cons.prems by (auto simp: fresh_id_neq)
  with Cons show ?case by (simp add: add_rows_Cons)
qed

lemma add_rows_map:
  "(\<And>i v. h (mk i v) = g v) \<Longrightarrow> map h (add_rows key mk xs vs) = map h xs @ map g vs"
  by (induction vs arbitrary: xs) (simp_all add: add_rows_Cons)

lemma add_rows_extends: "\<exists>ys. add_rows key mk xs vs = xs @ ys"
proof (induction vs arbitrary: xs)
  case (Cons v vs)
  then show ?case by (metis add_rows_Cons append.assoc)
qed simp

lemma sum_list_if_eq:
  fixes c :: int
  shows "distinct xs \<Longrightarrow> (\<Sum>x\<leftarrow>xs. if x = a then c else 0) = (if a \<in> set xs then c else 0)"
  by (induction xs) auto

end
