(* ===== verification/Domain.thy ===== *)
theory Domain
  imports Exchange_Prelude "HOL-Library.Word"
begin

text \<open>
  The vocabulary of include/endstone_exchange/domain.hpp: enumerations as datatypes with the
  source's constructors, structs as records whose fields carry a prefix of their struct (record
  fields are global names in HOL), and the \<open>toSql\<close> renderings.
\<close>

type_synonym byte = "8 word"

datatype TargetKind = Block | Actor
datatype Side = Buy | Sell
datatype OrderType = Limit | Market
datatype DeliveryClaimStatus = ClaimPrepared | ClaimApplied | ClaimCanceled
datatype SellEscrowStatus = EscrowPrepared | EscrowTagged | EscrowOrdered | EscrowCanceled
datatype EconomyTransferDirection = Deposit | Withdraw
datatype EconomyTransferStatus =
  TransferPrepared | TransferExternalApplied | TransferCompleted | TransferFailed | TransferBlocked
datatype FrameListingStatus =
  FrameActive | FramePaid | FrameDropped | FrameClaimed | FrameCanceled

text \<open>The \<open>status\<close> column of \<open>exchange_orders\<close> has no C++ enumeration of its own.\<close>

datatype OrderStatus = OrderOpen | OrderPartial | OrderFilled | OrderCanceled

record ItemPrototype =
  item_type :: string
  item_data :: int
  item_nbt :: "byte list"
  item_name :: string

record Market =
  m_id :: Id
  m_book_id :: Id
  m_target_key :: string
  m_target_kind :: TargetKind
  m_dimension :: string
  m_block_x :: "int option"
  m_block_y :: "int option"
  m_block_z :: "int option"
  m_actor_id :: "int option"
  m_item :: ItemPrototype
  m_active :: bool
  m_created_by :: string

record PriceLevel =
  level_price :: Cents
  level_quantity :: int

record OrderBook =
  bids :: "PriceLevel list"
  asks :: "PriceLevel list"
  last_price :: "Cents option"

record OrderRequest =
  rq_market :: Id
  rq_uuid :: string
  rq_name :: string
  rq_side :: Side
  rq_type :: OrderType
  rq_price :: Cents
  rq_quantity :: int

record ExecutionResult =
  ex_order :: Id
  ex_requested :: int
  ex_filled :: int
  ex_open :: int
  ex_gross :: Cents
  ex_balance :: Cents

record OpenOrder =
  oo_id :: Id
  oo_market :: Id
  oo_item :: ItemPrototype
  oo_side :: Side
  oo_price :: Cents
  oo_remaining :: int

record Delivery =
  dv_id :: Id
  dv_market :: Id
  dv_item :: ItemPrototype
  dv_quantity :: int
  dv_claimed :: int
  dv_reserved :: int
  dv_reason :: string

record DeliveryClaim =
  dc_id :: Id
  dc_delivery :: Id
  dc_item :: ItemPrototype
  dc_quantity :: int
  dc_applied :: int
  dc_status :: DeliveryClaimStatus
  dc_cleaned :: bool

record SellEscrow =
  se_id :: Id
  se_market :: Id
  se_item :: ItemPrototype
  se_uuid :: string
  se_name :: string
  se_type :: OrderType
  se_price :: Cents
  se_requested :: int
  se_tagged :: int
  se_receipts :: int
  se_status :: SellEscrowStatus
  se_order :: "Id option"
  se_cleaned :: bool

record EconomyTransfer =
  et_id :: Id
  et_key :: string
  et_uuid :: string
  et_name :: string
  et_direction :: EconomyTransferDirection
  et_amount_cents :: Cents
  et_amount_units :: int
  et_status :: EconomyTransferStatus
  et_before :: "int option"
  et_after :: "int option"
  et_attempts :: int
  et_error :: string

record AccountBalance =
  ab_uuid :: string
  ab_name :: string
  ab_balance :: Cents

record FrameListing =
  fl_id :: Id
  fl_target_key :: string
  fl_dimension :: string
  fl_x :: int
  fl_y :: int
  fl_z :: int
  fl_seller_uuid :: string
  fl_seller_name :: string
  fl_price :: Cents
  fl_item :: ItemPrototype
  fl_status :: FrameListingStatus
  fl_buyer_uuid :: "string option"
  fl_buyer_name :: "string option"

record FramePurchaseResult =
  fp_listing :: FrameListing
  fp_buyer_balance :: Cents
  fp_seller_balance :: Cents

fun toSql_TargetKind :: "TargetKind \<Rightarrow> string" where
  "toSql_TargetKind kind = (if kind = Block then ''BLOCK'' else ''ACTOR'')"

fun toSql_Side :: "Side \<Rightarrow> string" where
  "toSql_Side side = (if side = Buy then ''BUY'' else ''SELL'')"

fun toSql_OrderType :: "OrderType \<Rightarrow> string" where
  "toSql_OrderType t = (if t = Limit then ''LIMIT'' else ''MARKET'')"

fun toSql_Direction :: "EconomyTransferDirection \<Rightarrow> string" where
  "toSql_Direction d = (if d = Deposit then ''DEPOSIT'' else ''WITHDRAW'')"

text \<open>
  \<open>checkedProduct\<close> of src/exchange_service.cpp: the product of a price and a quantity, refused
  where it would leave \<open>std::int64_t\<close>. The division is by a positive quantity.
\<close>

definition checkedProduct :: "Cents \<Rightarrow> int \<Rightarrow> Cents result" where
  "checkedProduct price quantity =
    (if price < 0 \<or> quantity < 0 \<or> (quantity \<noteq> 0 \<and> price > int64_max sdiv quantity)
     then Inl (Runtime_Error ''price multiplied by quantity is too large'')
     else Inr (price * quantity))"

lemma le_div_iff_mult_le: "0 < q \<Longrightarrow> p \<le> m div q \<longleftrightarrow> p * q \<le> (m::int)"
proof
  assume q: "0 < q" and le: "p \<le> m div q"
  from le q have "p * q \<le> m div q * q" by (simp add: mult_right_mono)
  also have "\<dots> \<le> m" using q by (simp add: minus_mod_eq_div_mult [symmetric])
  finally show "p * q \<le> m" .
next
  assume q: "0 < q" and le: "p * q \<le> m"
  then have "p * q div q \<le> m div q" by (intro zdiv_mono1) auto
  with q show "p \<le> m div q" by simp
qed

lemma checkedProduct_iff:
  "checkedProduct p q = Inr c \<longleftrightarrow> 0 \<le> p \<and> 0 \<le> q \<and> p * q \<le> int64_max \<and> c = p * q"
proof (cases "0 < q")
  case True
  then have "p > int64_max sdiv q \<longleftrightarrow> \<not> p * q \<le> int64_max"
    by (simp add: sdiv_nonneg_eq_div le_div_iff_mult_le [symmetric] not_le)
  with True show ?thesis by (auto simp: checkedProduct_def)
next
  case False
  then show ?thesis by (auto simp: checkedProduct_def)
qed

lemma checkedProduct_bounds:
  "checkedProduct p q = Inr c \<Longrightarrow> c = p * q \<and> 0 \<le> c \<and> c \<le> int64_max"
  by (auto simp: checkedProduct_iff)

lemma checkedProduct_Inl:
  "checkedProduct p q = Inl e \<Longrightarrow> p < 0 \<or> q < 0 \<or> p * q > int64_max"
  using checkedProduct_iff [of p q "p * q"] by (cases "checkedProduct p q") (auto simp: not_le [symmetric])

end
