(* ===== verification/Store.thy ===== *)
theory Store
  imports Domain
begin

text \<open>
  The MySQL schema that \<open>Database::migrate\<close> of src/database.cpp leaves behind (all ten
  versions): one record per table, one list of rows per table in the state \<open>db\<close>. Columns that
  no query of the program reads (creation and bookkeeping timestamps, \<open>updated_at\<close> of every
  table but the accounts) are left out; a nullable timestamp that is only tested for NULL
  (\<open>cleaned_at\<close>) is a boolean. \<open>db_now\<close> is the server's clock, the value of
  \<open>CURRENT_TIMESTAMP(6)\<close>.
\<close>

record account_row =
  a_uuid :: string
  a_name :: string
  a_balance :: Cents
  a_updated :: nat

record book_row =
  b_id :: Id
  b_type :: string
  b_data :: int
  b_nbt :: "byte list"
  b_name :: string
  b_hash :: string

record market_row =
  mk_id :: Id
  mk_book :: Id
  mk_target :: string
  mk_kind :: TargetKind
  mk_dimension :: string
  mk_x :: "int option"
  mk_y :: "int option"
  mk_z :: "int option"
  mk_actor :: "int option"
  mk_item :: ItemPrototype
  mk_active :: bool
  mk_reopenable :: bool
  mk_created_by :: string

record order_row =
  o_id :: Id
  o_market :: Id
  o_player :: string
  o_side :: Side
  o_type :: OrderType
  o_price :: Cents
  o_original :: int
  o_remaining :: int
  o_reserved :: Cents
  o_status :: OrderStatus

record trade_row =
  t_id :: Id
  t_market :: Id
  t_buy :: Id
  t_sell :: Id
  t_buyer :: string
  t_seller :: string
  t_price :: Cents
  t_quantity :: int

record delivery_row =
  d_id :: Id
  d_player :: string
  d_market :: Id
  d_quantity :: int
  d_claimed :: int
  d_reserved :: int
  d_reason :: string

record binding_row =
  bd_target :: string
  bd_market :: Id

record claim_row =
  c_id :: Id
  c_delivery :: Id
  c_player :: string
  c_quantity :: int
  c_applied :: int
  c_status :: DeliveryClaimStatus
  c_cleaned :: bool

record escrow_row =
  e_id :: Id
  e_market :: Id
  e_player :: string
  e_name :: string
  e_type :: OrderType
  e_price :: Cents
  e_requested :: int
  e_tagged :: int
  e_receipts :: int
  e_status :: SellEscrowStatus
  e_order :: "Id option"
  e_cleaned :: bool

record ledger_row =
  l_player :: string
  l_delta :: Cents
  l_reason :: string
  l_ref_type :: "string option"
  l_ref_id :: "Id option"

record transfer_row =
  x_id :: Id
  x_key :: string
  x_player :: string
  x_name :: string
  x_direction :: EconomyTransferDirection
  x_cents :: Cents
  x_units :: int
  x_status :: EconomyTransferStatus
  x_before :: "int option"
  x_after :: "int option"
  x_attempts :: int
  x_error :: "string option"

record listing_row =
  f_id :: Id
  f_target :: string
  f_dimension :: string
  f_x :: int
  f_y :: int
  f_z :: int
  f_seller :: string
  f_seller_name :: string
  f_price :: Cents
  f_item :: ItemPrototype
  f_status :: FrameListingStatus
  f_buyer :: "string option"
  f_buyer_name :: "string option"

record frame_binding_row =
  fb_target :: string
  fb_listing :: Id

record db =
  accounts :: "account_row list"
  books :: "book_row list"
  markets :: "market_row list"
  orders :: "order_row list"
  trades :: "trade_row list"
  deliveries :: "delivery_row list"
  bindings :: "binding_row list"
  claims :: "claim_row list"
  escrows :: "escrow_row list"
  ledger :: "ledger_row list"
  transfers :: "transfer_row list"
  listings :: "listing_row list"
  frame_bindings :: "frame_binding_row list"
  db_now :: nat

type_synonym 'a dbm = "(db, 'a) svc"

definition empty_db :: db where
  "empty_db = \<lparr>accounts = [], books = [], markets = [], orders = [], trades = [],
     deliveries = [], bindings = [], claims = [], escrows = [], ledger = [], transfers = [],
     listings = [], frame_bindings = [], db_now = 0\<rparr>"

text \<open>The members of \<open>ExchangeService\<close> that are configuration.\<close>

record service_config =
  initial_balance_cents :: Cents
  max_order_quantity :: int

subsection \<open>SELECTs by primary key\<close>

definition account_of :: "db \<Rightarrow> string \<Rightarrow> account_row option" where
  "account_of s u = find (\<lambda>a. a_uuid a = u) (accounts s)"

definition market_of :: "db \<Rightarrow> Id \<Rightarrow> market_row option" where
  "market_of s i = find (\<lambda>m. mk_id m = i) (markets s)"

definition book_of :: "db \<Rightarrow> Id \<Rightarrow> book_row option" where
  "book_of s i = find (\<lambda>b. b_id b = i) (books s)"

definition order_of :: "db \<Rightarrow> Id \<Rightarrow> order_row option" where
  "order_of s i = find (\<lambda>x. o_id x = i) (orders s)"

definition delivery_of :: "db \<Rightarrow> Id \<Rightarrow> delivery_row option" where
  "delivery_of s i = find (\<lambda>d. d_id d = i) (deliveries s)"

definition claim_of :: "db \<Rightarrow> Id \<Rightarrow> claim_row option" where
  "claim_of s i = find (\<lambda>c. c_id c = i) (claims s)"

definition escrow_of :: "db \<Rightarrow> Id \<Rightarrow> escrow_row option" where
  "escrow_of s i = find (\<lambda>e. e_id e = i) (escrows s)"

definition transfer_of :: "db \<Rightarrow> Id \<Rightarrow> transfer_row option" where
  "transfer_of s i = find (\<lambda>x. x_id x = i) (transfers s)"

definition listing_of :: "db \<Rightarrow> Id \<Rightarrow> listing_row option" where
  "listing_of s i = find (\<lambda>x. f_id x = i) (listings s)"

text \<open>
  The join \<open>JOIN exchange_markets m ON m.id=o.market_id ... m.book_id\<close>: the book of a
  market, if the market exists.
\<close>

definition book_id_of :: "db \<Rightarrow> Id \<Rightarrow> Id option" where
  "book_id_of s mkt = map_option mk_book (market_of s mkt)"

definition on_book :: "db \<Rightarrow> Id \<Rightarrow> Id \<Rightarrow> bool" where
  "on_book s b mkt \<longleftrightarrow> book_id_of s mkt = Some b"

text \<open>\<open>status IN ('OPEN','PARTIAL')\<close>, and the rows the order book consists of.\<close>

definition open_status :: "OrderStatus \<Rightarrow> bool" where
  "open_status st \<longleftrightarrow> st = OrderOpen \<or> st = OrderPartial"

definition resting :: "order_row \<Rightarrow> bool" where
  "resting x \<longleftrightarrow> o_type x = Limit \<and> open_status (o_status x)"

lemma lookups_markets [simp]:
  "market_of (s\<lparr>accounts := a\<rparr>) = market_of s" "market_of (s\<lparr>orders := os\<rparr>) = market_of s"
  "market_of (s\<lparr>trades := t\<rparr>) = market_of s" "market_of (s\<lparr>deliveries := d\<rparr>) = market_of s"
  "market_of (s\<lparr>ledger := l\<rparr>) = market_of s" "market_of (s\<lparr>claims := c\<rparr>) = market_of s"
  "market_of (s\<lparr>escrows := e\<rparr>) = market_of s" "market_of (s\<lparr>transfers := x\<rparr>) = market_of s"
  "market_of (s\<lparr>listings := f\<rparr>) = market_of s" "market_of (s\<lparr>bindings := b\<rparr>) = market_of s"
  "market_of (s\<lparr>frame_bindings := fb\<rparr>) = market_of s" "market_of (s\<lparr>books := bk\<rparr>) = market_of s"
  by (simp_all add: market_of_def fun_eq_iff)

lemma lookups_on_book [simp]:
  "on_book (s\<lparr>accounts := a\<rparr>) = on_book s" "on_book (s\<lparr>orders := os\<rparr>) = on_book s"
  "on_book (s\<lparr>trades := t\<rparr>) = on_book s" "on_book (s\<lparr>deliveries := d\<rparr>) = on_book s"
  "on_book (s\<lparr>ledger := l\<rparr>) = on_book s" "on_book (s\<lparr>claims := c\<rparr>) = on_book s"
  "on_book (s\<lparr>escrows := e\<rparr>) = on_book s" "on_book (s\<lparr>transfers := x\<rparr>) = on_book s"
  "on_book (s\<lparr>listings := f\<rparr>) = on_book s" "on_book (s\<lparr>bindings := b\<rparr>) = on_book s"
  "on_book (s\<lparr>frame_bindings := fb\<rparr>) = on_book s" "on_book (s\<lparr>books := bk\<rparr>) = on_book s"
  by (simp_all add: on_book_def book_id_of_def fun_eq_iff)

lemma on_book_cong: "markets s = markets s' \<Longrightarrow> on_book s = on_book s'"
  by (simp add: on_book_def book_id_of_def market_of_def fun_eq_iff)

section \<open>Keyed tables\<close>

text \<open>
  What the components rely on of a table with an AUTO_INCREMENT key: an UPDATE that leaves the
  key alone keeps the keys, an INSERT under a fresh key keeps them distinct. Every table's
  update functions are interpretations.
\<close>

locale keyed_update =
  fixes key :: "'r \<Rightarrow> 'k" and upd :: "'r \<Rightarrow> 'r"
  assumes key_upd: "key (upd r) = key r"
begin

lemma map_key [simp]: "map key (upd_where P upd xs) = map key xs"
  by (rule map_upd_where) (rule key_upd)

lemma distinct_upd: "distinct (map key xs) \<Longrightarrow> distinct (map key (upd_where P upd xs))"
  by simp

lemma find_upd:
  "find (\<lambda>x. key x = i) (upd_where (\<lambda>x. key x = j) upd xs) =
    (if i = j then map_option upd (find (\<lambda>x. key x = i) xs) else find (\<lambda>x. key x = i) xs)"
  by (rule find_upd_where_key) (rule key_upd)

lemma set_upd_key:
  assumes "distinct (map key xs)" and "r \<in> set xs"
  shows "set (upd_where (\<lambda>x. key x = key r) upd xs) = insert (upd r) (set xs - {r})"
proof -
  have eq: "key x = key r \<longleftrightarrow> x = r" if "x \<in> set xs" for x
    using distinct_key_eq [OF assms(1) that assms(2)] by auto
  have "set (upd_where (\<lambda>x. key x = key r) upd xs) = (\<lambda>x. if x = r then upd x else x) ` set xs"
    unfolding upd_where_def set_map by (rule image_cong) (simp_all add: eq)
  also have "\<dots> = insert (upd r) (set xs - {r})" using assms(2) by auto
  finally show ?thesis .
qed

end

end
