(* ===== verification/Accounts.thy ===== *)
theory Accounts
  imports Store "HOL-Library.List_Lexorder" "HOL-Library.Char_ord" "HOL-Library.Product_Lexorder"
begin

text \<open>
  Accounts and the balance ledger of src/exchange_service.cpp: \<open>ensureAccount\<close>, \<open>balance\<close>,
  \<open>positiveBalances\<close>, \<open>addBalance\<close>, and the private \<open>lockedBalance\<close>, \<open>credit\<close>, \<open>debit\<close>,
  \<open>recordBalanceChange\<close> that every other component moves money with. The invariant is the one
  docs/architecture.md states: for every player the ledger sums to the balance.
\<close>

section \<open>Operations\<close>

definition account_missing :: error where
  "account_missing = Runtime_Error ''exchange account does not exist''"

definition balance_out_of_range :: error where
  "balance_out_of_range = Database_Error ''database statement failed: BIGINT value is out of range''"

definition foreign_key_failed :: error where
  "foreign_key_failed = Database_Error ''database statement failed: foreign key constraint''"

definition recordBalanceChange ::
  "string \<Rightarrow> Cents \<Rightarrow> string \<Rightarrow> string \<Rightarrow> Id option \<Rightarrow> unit dbm" where
  "recordBalanceChange u delta reason ref_type ref_id =
    bindS (throwIf (reason = []) (Runtime_Error ''balance ledger reason must not be empty'')) (\<lambda>_.
    executeIfS (\<lambda>s. account_of s u \<noteq> None) foreign_key_failed
      (\<lambda>s. s\<lparr>ledger := ledger s @
        [\<lparr>l_player = u, l_delta = delta, l_reason = reason,
          l_ref_type = (if ref_type = [] then None else Some ref_type), l_ref_id = ref_id\<rparr>]\<rparr>))"

text \<open>
  \<open>SET balance_cents=balance_cents+d\<close>; \<open>updated_at\<close> is \<open>ON UPDATE CURRENT_TIMESTAMP(6)\<close>, which
  MySQL applies when the row changes.
\<close>

definition add_to_balance :: "nat \<Rightarrow> Cents \<Rightarrow> account_row \<Rightarrow> account_row" where
  "add_to_balance now d a =
    (if d = 0 then a else a\<lparr>a_balance := a_balance a + d, a_updated := now\<rparr>)"

definition rename_account :: "nat \<Rightarrow> string \<Rightarrow> account_row \<Rightarrow> account_row" where
  "rename_account now n a = (if a_name a = n then a else a\<lparr>a_name := n, a_updated := now\<rparr>)"

definition lockedBalance :: "string \<Rightarrow> Cents dbm" where
  "lockedBalance u =
    bindS (queryS (\<lambda>s. account_of s u)) (\<lambda>row.
    case row of None \<Rightarrow> throwS account_missing | Some a \<Rightarrow> returnS (a_balance a))"

definition credit :: "string \<Rightarrow> Cents \<Rightarrow> string \<Rightarrow> string \<Rightarrow> Id option \<Rightarrow> unit dbm" where
  "credit u amount reason ref_type ref_id =
    bindS (throwIf (amount < 0) (Runtime_Error ''cannot credit a negative amount'')) (\<lambda>_.
    if amount = 0 then returnS ()
    else
      bindS (updateS
        (\<lambda>s. \<forall>a \<in> set (accounts s). a_uuid a = u \<longrightarrow> a_balance a + amount \<le> int64_max)
        balance_out_of_range
        (\<lambda>s. count_where (\<lambda>a. a_uuid a = u) (accounts s))
        (\<lambda>s. s\<lparr>accounts :=
          upd_where (\<lambda>a. a_uuid a = u) (add_to_balance (db_now s) amount) (accounts s)\<rparr>)) (\<lambda>affected.
      bindS (throwIf (affected \<noteq> 1) (Runtime_Error ''credit target account does not exist'')) (\<lambda>_.
      recordBalanceChange u amount reason ref_type ref_id)))"

definition debit :: "string \<Rightarrow> Cents \<Rightarrow> string \<Rightarrow> string \<Rightarrow> Id option \<Rightarrow> unit dbm" where
  "debit u amount reason ref_type ref_id =
    bindS (throwIf (amount < 0) (Runtime_Error ''cannot debit a negative amount'')) (\<lambda>_.
    if amount = 0 then returnS ()
    else
      bindS (updateS (\<lambda>s. True) balance_out_of_range
        (\<lambda>s. count_where (\<lambda>a. a_uuid a = u \<and> a_balance a \<ge> amount) (accounts s))
        (\<lambda>s. s\<lparr>accounts :=
          upd_where (\<lambda>a. a_uuid a = u \<and> a_balance a \<ge> amount)
            (add_to_balance (db_now s) (- amount)) (accounts s)\<rparr>)) (\<lambda>affected.
      bindS (throwIf (affected \<noteq> 1) (Runtime_Error ''insufficient exchange balance'')) (\<lambda>_.
      recordBalanceChange u (- amount) reason ref_type ref_id)))"

text \<open>
  \<open>INSERT IGNORE\<close> inserts nothing where the key exists or where the row would violate
  \<open>CHECK (balance_cents >= 0)\<close>; \<open>affectedRows\<close> then is 0.
\<close>

definition ensureAccount :: "service_config \<Rightarrow> string \<Rightarrow> string \<Rightarrow> unit dbm" where
  "ensureAccount cfg u n =
    bindS (throwIf (u = []) (Runtime_Error ''player UUID must not be empty'')) (\<lambda>_.
    transactionS (
      bindS (updateS (\<lambda>s. True) foreign_key_failed
        (\<lambda>s. if account_of s u = None \<and> 0 \<le> initial_balance_cents cfg then 1 else 0)
        (\<lambda>s. if account_of s u = None \<and> 0 \<le> initial_balance_cents cfg
          then s\<lparr>accounts := accounts s @
            [\<lparr>a_uuid = u, a_name = n, a_balance = initial_balance_cents cfg, a_updated = db_now s\<rparr>]\<rparr>
          else s)) (\<lambda>affected.
      if affected = 1
      then recordBalanceChange u (initial_balance_cents cfg) ''ACCOUNT_OPENED'' [] None
      else executeS (\<lambda>s. s\<lparr>accounts :=
        upd_where (\<lambda>a. a_uuid a = u) (rename_account (db_now s) n) (accounts s)\<rparr>))))"

definition balance :: "string \<Rightarrow> Cents dbm" where
  "balance u =
    bindS (queryS (\<lambda>s. account_of s u)) (\<lambda>row.
    case row of None \<Rightarrow> throwS account_missing | Some a \<Rightarrow> returnS (a_balance a))"

definition positiveBalances :: "int \<Rightarrow> AccountBalance list dbm" where
  "positiveBalances limit =
    bindS (throwIf (limit \<le> 0 \<or> limit > 100)
      (Runtime_Error ''positive-balance query limit must be between 1 and 100'')) (\<lambda>_.
    bindS (queryS (\<lambda>s. take (nat limit)
      (sort_key (\<lambda>a. (a_updated a, a_uuid a)) (filter (\<lambda>a. a_balance a \<ge> 100) (accounts s))))) (\<lambda>rows.
    returnS (map (\<lambda>a. \<lparr>ab_uuid = a_uuid a, ab_name = a_name a, ab_balance = a_balance a\<rparr>) rows)))"

definition addBalance :: "service_config \<Rightarrow> string \<Rightarrow> string \<Rightarrow> Cents \<Rightarrow> Cents dbm" where
  "addBalance cfg u n delta =
    bindS (ensureAccount cfg u n) (\<lambda>_.
    transactionS (
      bindS (lockedBalance u) (\<lambda>current.
      bindS (throwIf (delta < - current) (Runtime_Error ''balance cannot become negative'')) (\<lambda>_.
      bindS (throwIf (delta > 0 \<and> current > int64_max - delta)
        (Runtime_Error ''balance is too large'')) (\<lambda>_.
      bindS (executeS (\<lambda>s. s\<lparr>accounts :=
        upd_where (\<lambda>a. a_uuid a = u) (add_to_balance (db_now s) delta) (accounts s)\<rparr>)) (\<lambda>_.
      bindS (recordBalanceChange u delta ''ADMIN_ADJUSTMENT'' [] None) (\<lambda>_.
      returnS (current + delta))))))))"

section \<open>The account and ledger invariant\<close>

definition balance_of :: "db \<Rightarrow> string \<Rightarrow> Cents" where
  "balance_of s u = (case account_of s u of None \<Rightarrow> 0 | Some a \<Rightarrow> a_balance a)"

definition ledger_sum :: "db \<Rightarrow> string \<Rightarrow> Cents" where
  "ledger_sum s u = (\<Sum>l\<leftarrow>ledger s. if l_player l = u then l_delta l else 0)"

definition total_balance :: "db \<Rightarrow> Cents" where
  "total_balance s = (\<Sum>a\<leftarrow>accounts s. a_balance a)"

definition accounts_ok :: "db \<Rightarrow> bool" where
  "accounts_ok s \<longleftrightarrow> distinct (map a_uuid (accounts s)) \<and>
    (\<forall>a \<in> set (accounts s). 0 \<le> a_balance a \<and> a_balance a \<le> int64_max)"

definition ledger_ok :: "db \<Rightarrow> bool" where
  "ledger_ok s \<longleftrightarrow> (\<forall>u. ledger_sum s u = balance_of s u)"

definition money_ok :: "db \<Rightarrow> bool" where
  "money_ok s \<longleftrightarrow> accounts_ok s \<and> ledger_ok s"

text \<open>\<open>money_only s s'\<close>: nothing but accounts and ledger differs, and no account is gone.\<close>

definition money_only :: "db \<Rightarrow> db \<Rightarrow> bool" where
  "money_only s s' \<longleftrightarrow> books s' = books s \<and> markets s' = markets s \<and> orders s' = orders s \<and>
    trades s' = trades s \<and> deliveries s' = deliveries s \<and> bindings s' = bindings s \<and>
    claims s' = claims s \<and> escrows s' = escrows s \<and> transfers s' = transfers s \<and>
    listings s' = listings s \<and> frame_bindings s' = frame_bindings s \<and> db_now s' = db_now s \<and>
    set (map a_uuid (accounts s)) \<subseteq> set (map a_uuid (accounts s'))"

lemma money_onlyD:
  assumes "money_only s s'"
  shows "books s' = books s" "markets s' = markets s" "orders s' = orders s"
    "trades s' = trades s" "deliveries s' = deliveries s" "bindings s' = bindings s"
    "claims s' = claims s" "escrows s' = escrows s" "transfers s' = transfers s"
    "listings s' = listings s" "frame_bindings s' = frame_bindings s" "db_now s' = db_now s"
    "set (map a_uuid (accounts s)) \<subseteq> set (map a_uuid (accounts s'))"
  using assms by (simp_all add: money_only_def)

lemma money_only_refl [simp]: "money_only s s"
  by (simp add: money_only_def)

lemma money_only_trans: "money_only s s1 \<Longrightarrow> money_only s1 s2 \<Longrightarrow> money_only s s2"
  by (auto simp: money_only_def)

subsection \<open>Tables that hold no money\<close>

lemma account_of_other [simp]:
  "account_of (s\<lparr>books := v_books\<rparr>) = account_of s"
  "account_of (s\<lparr>markets := v_markets\<rparr>) = account_of s"
  "account_of (s\<lparr>orders := v_orders\<rparr>) = account_of s"
  "account_of (s\<lparr>trades := v_trades\<rparr>) = account_of s"
  "account_of (s\<lparr>deliveries := v_deliveries\<rparr>) = account_of s"
  "account_of (s\<lparr>bindings := v_bindings\<rparr>) = account_of s"
  "account_of (s\<lparr>claims := v_claims\<rparr>) = account_of s"
  "account_of (s\<lparr>escrows := v_escrows\<rparr>) = account_of s"
  "account_of (s\<lparr>transfers := v_transfers\<rparr>) = account_of s"
  "account_of (s\<lparr>listings := v_listings\<rparr>) = account_of s"
  "account_of (s\<lparr>frame_bindings := v_frame_bindings\<rparr>) = account_of s"
  by (simp_all add: account_of_def fun_eq_iff)

lemma balance_of_other [simp]:
  "balance_of (s\<lparr>books := v_books\<rparr>) = balance_of s"
  "balance_of (s\<lparr>markets := v_markets\<rparr>) = balance_of s"
  "balance_of (s\<lparr>orders := v_orders\<rparr>) = balance_of s"
  "balance_of (s\<lparr>trades := v_trades\<rparr>) = balance_of s"
  "balance_of (s\<lparr>deliveries := v_deliveries\<rparr>) = balance_of s"
  "balance_of (s\<lparr>bindings := v_bindings\<rparr>) = balance_of s"
  "balance_of (s\<lparr>claims := v_claims\<rparr>) = balance_of s"
  "balance_of (s\<lparr>escrows := v_escrows\<rparr>) = balance_of s"
  "balance_of (s\<lparr>transfers := v_transfers\<rparr>) = balance_of s"
  "balance_of (s\<lparr>listings := v_listings\<rparr>) = balance_of s"
  "balance_of (s\<lparr>frame_bindings := v_frame_bindings\<rparr>) = balance_of s"
  by (simp_all add: balance_of_def fun_eq_iff)

lemma total_balance_other [simp]:
  "total_balance (s\<lparr>books := v_books\<rparr>) = total_balance s"
  "total_balance (s\<lparr>markets := v_markets\<rparr>) = total_balance s"
  "total_balance (s\<lparr>orders := v_orders\<rparr>) = total_balance s"
  "total_balance (s\<lparr>trades := v_trades\<rparr>) = total_balance s"
  "total_balance (s\<lparr>deliveries := v_deliveries\<rparr>) = total_balance s"
  "total_balance (s\<lparr>bindings := v_bindings\<rparr>) = total_balance s"
  "total_balance (s\<lparr>claims := v_claims\<rparr>) = total_balance s"
  "total_balance (s\<lparr>escrows := v_escrows\<rparr>) = total_balance s"
  "total_balance (s\<lparr>transfers := v_transfers\<rparr>) = total_balance s"
  "total_balance (s\<lparr>listings := v_listings\<rparr>) = total_balance s"
  "total_balance (s\<lparr>frame_bindings := v_frame_bindings\<rparr>) = total_balance s"
  by (simp_all add: total_balance_def)

lemma accounts_ok_other [simp]:
  "accounts_ok (s\<lparr>books := v_books\<rparr>) = accounts_ok s"
  "accounts_ok (s\<lparr>markets := v_markets\<rparr>) = accounts_ok s"
  "accounts_ok (s\<lparr>orders := v_orders\<rparr>) = accounts_ok s"
  "accounts_ok (s\<lparr>trades := v_trades\<rparr>) = accounts_ok s"
  "accounts_ok (s\<lparr>deliveries := v_deliveries\<rparr>) = accounts_ok s"
  "accounts_ok (s\<lparr>bindings := v_bindings\<rparr>) = accounts_ok s"
  "accounts_ok (s\<lparr>claims := v_claims\<rparr>) = accounts_ok s"
  "accounts_ok (s\<lparr>escrows := v_escrows\<rparr>) = accounts_ok s"
  "accounts_ok (s\<lparr>transfers := v_transfers\<rparr>) = accounts_ok s"
  "accounts_ok (s\<lparr>listings := v_listings\<rparr>) = accounts_ok s"
  "accounts_ok (s\<lparr>frame_bindings := v_frame_bindings\<rparr>) = accounts_ok s"
  by (simp_all add: accounts_ok_def)

lemma ledger_ok_other [simp]:
  "ledger_ok (s\<lparr>books := v_books\<rparr>) = ledger_ok s"
  "ledger_ok (s\<lparr>markets := v_markets\<rparr>) = ledger_ok s"
  "ledger_ok (s\<lparr>orders := v_orders\<rparr>) = ledger_ok s"
  "ledger_ok (s\<lparr>trades := v_trades\<rparr>) = ledger_ok s"
  "ledger_ok (s\<lparr>deliveries := v_deliveries\<rparr>) = ledger_ok s"
  "ledger_ok (s\<lparr>bindings := v_bindings\<rparr>) = ledger_ok s"
  "ledger_ok (s\<lparr>claims := v_claims\<rparr>) = ledger_ok s"
  "ledger_ok (s\<lparr>escrows := v_escrows\<rparr>) = ledger_ok s"
  "ledger_ok (s\<lparr>transfers := v_transfers\<rparr>) = ledger_ok s"
  "ledger_ok (s\<lparr>listings := v_listings\<rparr>) = ledger_ok s"
  "ledger_ok (s\<lparr>frame_bindings := v_frame_bindings\<rparr>) = ledger_ok s"
  by (simp_all add: ledger_ok_def ledger_sum_def)

lemma money_ok_other [simp]:
  "money_ok (s\<lparr>books := v_books\<rparr>) = money_ok s"
  "money_ok (s\<lparr>markets := v_markets\<rparr>) = money_ok s"
  "money_ok (s\<lparr>orders := v_orders\<rparr>) = money_ok s"
  "money_ok (s\<lparr>trades := v_trades\<rparr>) = money_ok s"
  "money_ok (s\<lparr>deliveries := v_deliveries\<rparr>) = money_ok s"
  "money_ok (s\<lparr>bindings := v_bindings\<rparr>) = money_ok s"
  "money_ok (s\<lparr>claims := v_claims\<rparr>) = money_ok s"
  "money_ok (s\<lparr>escrows := v_escrows\<rparr>) = money_ok s"
  "money_ok (s\<lparr>transfers := v_transfers\<rparr>) = money_ok s"
  "money_ok (s\<lparr>listings := v_listings\<rparr>) = money_ok s"
  "money_ok (s\<lparr>frame_bindings := v_frame_bindings\<rparr>) = money_ok s"
  by (simp_all add: money_ok_def)

subsection \<open>Looking accounts up\<close>

interpretation add_balance: keyed_update a_uuid "add_to_balance now d" for now d
  by unfold_locales (simp add: add_to_balance_def)

interpretation rename: keyed_update a_uuid "rename_account now n" for now n
  by unfold_locales (simp add: rename_account_def)

lemma add_to_balance_balance [simp]: "a_balance (add_to_balance now d a) = a_balance a + d"
  by (simp add: add_to_balance_def)

lemma rename_account_balance [simp]: "a_balance (rename_account now n a) = a_balance a"
  by (simp add: rename_account_def)

lemma account_of_Some: "account_of s u = Some a \<Longrightarrow> a \<in> set (accounts s) \<and> a_uuid a = u"
  unfolding account_of_def by (rule find_key_in)

lemma account_exists_iff: "account_of s u \<noteq> None \<longleftrightarrow> u \<in> set (map a_uuid (accounts s))"
  by (auto simp: account_of_def find_None_iff)

lemma account_of_unique:
  "accounts_ok s \<Longrightarrow> a \<in> set (accounts s) \<Longrightarrow> account_of s (a_uuid a) = Some a"
  unfolding account_of_def accounts_ok_def by (blast intro: find_key_distinct)

lemma total_balance_member:
  "accounts_ok s \<Longrightarrow> balance_of s u \<le> total_balance s"
  unfolding balance_of_def total_balance_def
  by (auto split: option.splits dest!: account_of_Some simp: accounts_ok_def
      intro!: sum_list_nonneg sum_list_nonneg_member)

lemma ledger_sum_append:
  "ledger_sum (s\<lparr>ledger := ledger s @ [l]\<rparr>) u =
    ledger_sum s u + (if l_player l = u then l_delta l else 0)"
  by (simp add: ledger_sum_def)

text \<open>The one state change behind \<open>credit\<close>, \<open>debit\<close> and \<open>addBalance\<close>: move a balance, log it.\<close>

definition move_balance :: "string \<Rightarrow> Cents \<Rightarrow> ledger_row \<Rightarrow> db \<Rightarrow> db" where
  "move_balance u d l s = s\<lparr>accounts :=
     upd_where (\<lambda>a. a_uuid a = u) (add_to_balance (db_now s) d) (accounts s),
     ledger := ledger s @ [l]\<rparr>"

lemma account_of_move:
  "account_of (move_balance u d l s) v =
    (if v = u then map_option (add_to_balance (db_now s) d) (account_of s u) else account_of s v)"
  by (auto simp: account_of_def move_balance_def add_balance.find_upd)

lemma move_balance_ok:
  assumes ok: "money_ok s" and acc: "account_of s u = Some a"
    and rng: "0 \<le> a_balance a + d" "a_balance a + d \<le> int64_max"
    and l: "l_player l = u" "l_delta l = d"
  shows "money_ok (move_balance u d l s)"
    and "money_only s (move_balance u d l s)"
    and "balance_of (move_balance u d l s) = (balance_of s)(u := balance_of s u + d)"
    and "total_balance (move_balance u d l s) = total_balance s + d"
proof -
  let ?s' = "move_balance u d l s"
  from acc have a: "a \<in> set (accounts s)" "a_uuid a = u" by (auto dest: account_of_Some)
  from ok have dist: "distinct (map a_uuid (accounts s))" by (simp add: money_ok_def accounts_ok_def)
  show frame: "money_only s ?s'" by (simp add: money_only_def move_balance_def)
  show bal: "balance_of ?s' = (balance_of s)(u := balance_of s u + d)"
    using acc by (auto simp: balance_of_def account_of_move fun_eq_iff split: option.splits)
  show "total_balance ?s' = total_balance s + d"
    using sum_list_upd_key [OF dist a, of a_balance] by (simp add: total_balance_def move_balance_def)
  have "set (accounts ?s') = insert (add_to_balance (db_now s) d a) (set (accounts s) - {a})"
    using add_balance.set_upd_key [OF dist a(1)] a(2) by (simp add: move_balance_def)
  then have "accounts_ok ?s'"
    using ok rng dist by (auto simp: money_ok_def accounts_ok_def move_balance_def)
  moreover have "ledger_sum ?s' v = balance_of ?s' v" for v
    using ok l bal
    by (auto simp: money_ok_def ledger_ok_def ledger_sum_def move_balance_def)
  ultimately show "money_ok ?s'" by (simp add: money_ok_def ledger_ok_def)
qed

subsection \<open>What the operations do\<close>

lemma account_of_append_ledger [simp]:
  "account_of (s\<lparr>ledger := l\<rparr>) = account_of s"
  by (simp add: account_of_def fun_eq_iff)

lemma recordBalanceChange_Inr:
  "recordBalanceChange u d r rt ri s = (Inr x, s') \<longleftrightarrow>
    r \<noteq> [] \<and> account_of s u \<noteq> None \<and>
    s' = s\<lparr>ledger := ledger s @ [\<lparr>l_player = u, l_delta = d, l_reason = r,
          l_ref_type = (if rt = [] then None else Some rt), l_ref_id = ri\<rparr>]\<rparr>"
  by (auto simp: recordBalanceChange_def svc_simps)

lemma lockedBalance_Inr [svc_simps]:
  "lockedBalance u s = (Inr b, s') \<longleftrightarrow> s' = s \<and> account_of s u \<noteq> None \<and> b = balance_of s u"
  by (auto simp: lockedBalance_def svc_simps balance_of_def split: option.splits)

lemma balance_eq_lockedBalance: "balance = lockedBalance"
  by (simp add: balance_def lockedBalance_def fun_eq_iff)

definition ledger_entry :: "string \<Rightarrow> Cents \<Rightarrow> string \<Rightarrow> string \<Rightarrow> Id option \<Rightarrow> ledger_row" where
  "ledger_entry u d r rt ri = \<lparr>l_player = u, l_delta = d, l_reason = r,
     l_ref_type = (if rt = [] then None else Some rt), l_ref_id = ri\<rparr>"

lemma count_account:
  "distinct (map a_uuid (accounts s)) \<Longrightarrow>
    count_where (\<lambda>a. a_uuid a = u) (accounts s) = (if account_of s u = None then 0 else 1)"
  unfolding account_of_def by (rule count_where_key)

lemma count_debit:
  assumes "distinct (map a_uuid (accounts s))"
  shows "count_where (\<lambda>a. a_uuid a = u \<and> a_balance a \<ge> m) (accounts s) =
    (case account_of s u of None \<Rightarrow> 0 | Some a \<Rightarrow> if a_balance a \<ge> m then 1 else 0)"
  using assms unfolding account_of_def
proof (induction "accounts s" arbitrary: s)
  case Nil
  then show ?case by (simp add: count_where_def)
next
  case (Cons y ys)
  have tl: "count_where (\<lambda>a. a_uuid a = u \<and> a_balance a \<ge> m) ys =
    (case find (\<lambda>a. a_uuid a = u) ys of None \<Rightarrow> 0 | Some a \<Rightarrow> if a_balance a \<ge> m then 1 else 0)"
    using Cons.hyps(1) [of "s\<lparr>accounts := ys\<rparr>"] Cons.hyps(2) [symmetric] Cons.prems by simp
  have none: "count_where (\<lambda>a. a_uuid a = u \<and> a_balance a \<ge> m) ys = 0" if "a_uuid y = u"
    using Cons.prems Cons.hyps(2) [symmetric] that
    by (auto simp: count_where_def filter_empty_conv image_iff)
  show ?case
    using tl none by (auto simp: Cons.hyps(2) [symmetric] count_where_def)
qed

lemma credit_Inr:
  assumes "accounts_ok s"
  shows "credit u m r rt ri s = (Inr x, s') \<longleftrightarrow>
    (m = 0 \<and> s' = s) \<or>
    (0 < m \<and> r \<noteq> [] \<and> account_of s u \<noteq> None \<and> balance_of s u + m \<le> int64_max \<and>
     s' = move_balance u m (ledger_entry u m r rt ri) s)"
proof -
  from assms have dist: "distinct (map a_uuid (accounts s))" by (simp add: accounts_ok_def)
  have rng: "(\<forall>a \<in> set (accounts s). a_uuid a = u \<longrightarrow> a_balance a + m \<le> int64_max) \<longleftrightarrow>
      balance_of s u + m \<le> int64_max" if "account_of s u \<noteq> None"
    using that account_of_unique [OF assms]
    by (fastforce simp: balance_of_def dest: account_of_Some split: option.splits)
  have other: "account_of (s\<lparr>accounts := upd_where (\<lambda>a. a_uuid a = u) (add_to_balance n m) (accounts s)\<rparr>) u
      = map_option (add_to_balance n m) (account_of s u)" for n
    by (simp add: account_of_def add_balance.find_upd)
  show ?thesis
    by (auto simp: credit_def svc_simps recordBalanceChange_Inr count_account [OF dist] other rng
        move_balance_def ledger_entry_def split: if_splits)
qed

lemma upd_debit_where:
  assumes "accounts_ok s" and "account_of s u = Some a" and "a_balance a \<ge> m"
  shows "upd_where (\<lambda>a. a_uuid a = u \<and> a_balance a \<ge> m) g (accounts s) =
    upd_where (\<lambda>a. a_uuid a = u) g (accounts s)"
proof -
  have "x = a" if "x \<in> set (accounts s)" "a_uuid x = u" for x
    using account_of_unique [OF assms(1) that(1)] assms(2) that(2) by simp
  then show ?thesis using assms(3) by (auto simp: upd_where_def)
qed

lemma debit_Inr:
  assumes ok: "accounts_ok s"
  shows "debit u m r rt ri s = (Inr x, s') \<longleftrightarrow>
    (m = 0 \<and> s' = s) \<or>
    (0 < m \<and> r \<noteq> [] \<and> account_of s u \<noteq> None \<and> m \<le> balance_of s u \<and>
     s' = move_balance u (- m) (ledger_entry u (- m) r rt ri) s)"
proof -
  from ok have dist: "distinct (map a_uuid (accounts s))" by (simp add: accounts_ok_def)
  have acc: "account_of (s\<lparr>accounts := upd_where (\<lambda>a. a_uuid a = u) g (accounts s)\<rparr>) u
      = map_option g (account_of s u)" if "\<And>a. a_uuid (g a) = a_uuid a" for g
    using that by (simp add: account_of_def find_upd_where_key)
  show ?thesis
  proof (cases "\<exists>a. account_of s u = Some a \<and> m \<le> a_balance a")
    case True
    then obtain a where a: "account_of s u = Some a" "m \<le> a_balance a" by blast
    then have upd: "upd_where (\<lambda>a. a_uuid a = u \<and> m \<le> a_balance a) g (accounts s) =
        upd_where (\<lambda>a. a_uuid a = u) g (accounts s)" for g
      using upd_debit_where [OF ok] by blast
    have key: "a_uuid (add_to_balance n d b) = a_uuid b" for n d b
      by (rule add_balance.key_upd)
    from a show ?thesis
      by (auto simp: debit_def svc_simps recordBalanceChange_Inr count_debit [OF dist] upd
          acc [OF key] balance_of_def move_balance_def ledger_entry_def split: if_splits)
  next
    case False
    then show ?thesis
      by (auto simp: debit_def svc_simps recordBalanceChange_Inr count_debit [OF dist]
          balance_of_def split: if_splits option.splits)
  qed
qed

lemma money_ok_accounts_ok: "money_ok s \<Longrightarrow> accounts_ok s"
  by (simp add: money_ok_def)

lemma balance_of_range:
  assumes "accounts_ok s"
  shows "0 \<le> balance_of s u" "balance_of s u \<le> int64_max"
  using assms by (auto simp: balance_of_def accounts_ok_def dest!: account_of_Some split: option.splits)

lemma credit_effect:
  assumes ok: "money_ok s" and run: "credit u m r rt ri s = (Inr x, s')"
  shows "0 \<le> m" "money_ok s'" "money_only s s'"
    "balance_of s' = (balance_of s)(u := balance_of s u + m)"
    "total_balance s' = total_balance s + m"
proof -
  consider "m = 0" "s' = s" |
    a where "0 < m" "account_of s u = Some a" "a_balance a + m \<le> int64_max"
      "s' = move_balance u m (ledger_entry u m r rt ri) s"
    using run credit_Inr [OF money_ok_accounts_ok [OF ok]] by (auto simp: balance_of_def)
  then have "0 \<le> m \<and> money_ok s' \<and> money_only s s' \<and>
    balance_of s' = (balance_of s)(u := balance_of s u + m) \<and> total_balance s' = total_balance s + m"
  proof cases
    case 1
    then show ?thesis using ok by simp
  next
    case (2 a)
    from 2 ok have "0 \<le> a_balance a"
      by (auto simp: money_ok_def accounts_ok_def dest!: account_of_Some)
    with 2 have rng: "0 \<le> a_balance a + m" by simp
    note mv = move_balance_ok [OF ok 2(2) rng 2(3), of "ledger_entry u m r rt ri"]
    show ?thesis using 2 mv by (simp add: ledger_entry_def)
  qed
  then show "0 \<le> m" "money_ok s'" "money_only s s'"
    "balance_of s' = (balance_of s)(u := balance_of s u + m)"
    "total_balance s' = total_balance s + m" by auto
qed

lemma debit_effect:
  assumes ok: "money_ok s" and run: "debit u m r rt ri s = (Inr x, s')"
  shows "0 \<le> m" "m \<le> balance_of s u" "money_ok s'" "money_only s s'"
    "balance_of s' = (balance_of s)(u := balance_of s u - m)"
    "total_balance s' = total_balance s - m"
proof -
  consider "m = 0" "s' = s" |
    a where "0 < m" "account_of s u = Some a" "m \<le> a_balance a"
      "s' = move_balance u (- m) (ledger_entry u (- m) r rt ri) s"
    using run debit_Inr [OF money_ok_accounts_ok [OF ok]] by (auto simp: balance_of_def)
  then have "0 \<le> m \<and> m \<le> balance_of s u \<and> money_ok s' \<and> money_only s s' \<and>
    balance_of s' = (balance_of s)(u := balance_of s u - m) \<and> total_balance s' = total_balance s - m"
  proof cases
    case 1
    then show ?thesis using ok balance_of_range [OF money_ok_accounts_ok [OF ok]] by simp
  next
    case (2 a)
    from 2 ok have "a_balance a \<le> int64_max"
      by (auto simp: money_ok_def accounts_ok_def dest!: account_of_Some)
    with 2 have rng: "0 \<le> a_balance a + - m" "a_balance a + - m \<le> int64_max" by auto
    note mv = move_balance_ok [OF ok 2(2) rng, of "ledger_entry u (- m) r rt ri"]
    show ?thesis using 2 mv by (simp add: ledger_entry_def balance_of_def)
  qed
  then show "0 \<le> m" "m \<le> balance_of s u" "money_ok s'" "money_only s s'"
    "balance_of s' = (balance_of s)(u := balance_of s u - m)"
    "total_balance s' = total_balance s - m" by auto
qed

lemma money_only_exists: "money_only s s' \<Longrightarrow> account_of s u \<noteq> None \<Longrightarrow> account_of s' u \<noteq> None"
  unfolding money_only_def account_exists_iff by blast

subsection \<open>The interface the other components use\<close>

text \<open>
  What order matching, economy transfers and frame sales rely on: an account book on which
  credits and debits are exact, never leave the invariant, touch nothing else, and change the
  total by exactly their amount.
\<close>

locale cash_book =
  fixes wf :: "'s \<Rightarrow> bool"
    and frame :: "'s \<Rightarrow> 's \<Rightarrow> bool"
    and bal :: "'s \<Rightarrow> 'u \<Rightarrow> int"
    and total :: "'s \<Rightarrow> int"
    and cr :: "'u \<Rightarrow> int \<Rightarrow> 'r \<Rightarrow> ('s, unit) svc"
    and db :: "'u \<Rightarrow> int \<Rightarrow> 'r \<Rightarrow> ('s, unit) svc"
  assumes frame_trans: "frame s s1 \<Longrightarrow> frame s1 s2 \<Longrightarrow> frame s s2"
    and cr_law: "wf s \<Longrightarrow> cr u m r s = (Inr x, s') \<Longrightarrow>
      0 \<le> m \<and> wf s' \<and> frame s s' \<and> bal s' = (bal s)(u := bal s u + m) \<and> total s' = total s + m"
    and db_law: "wf s \<Longrightarrow> db u m r s = (Inr x, s') \<Longrightarrow>
      0 \<le> m \<and> m \<le> bal s u \<and> wf s' \<and> frame s s' \<and> bal s' = (bal s)(u := bal s u - m) \<and>
      total s' = total s - m"
begin

text \<open>Paying: the amount leaves one account and arrives in the other, and no money is made.\<close>

lemma payment:
  assumes "wf s" and "bindS (db a m r1) (\<lambda>_. cr b m r2) s = (Inr x, s')"
  shows "wf s' \<and> frame s s' \<and> total s' = total s \<and> 0 \<le> m \<and> m \<le> bal s a \<and>
    bal s' = (let f = (bal s)(a := bal s a - m) in f(b := f b + m))"
proof -
  from assms(2) obtain y s1 where d: "db a m r1 s = (Inr y, s1)" and c: "cr b m r2 s1 = (Inr x, s')"
    by (auto simp: svc_simps)
  note D = db_law [OF assms(1) d]
  then have "wf s1" by simp
  note C = cr_law [OF this c]
  show ?thesis using C D frame_trans by (auto simp: Let_def)
qed

lemma payment_distinct:
  assumes "wf s" and "bindS (db a m r1) (\<lambda>_. cr b m r2) s = (Inr x, s')" and "a \<noteq> b"
  shows "bal s' a = bal s a - m" "bal s' b = bal s b + m"
    and "c \<noteq> a \<Longrightarrow> c \<noteq> b \<Longrightarrow> bal s' c = bal s c"
  using payment [OF assms(1,2)] assms(3) by (auto simp: Let_def)

end

interpretation cash: cash_book money_ok money_only balance_of total_balance
  "\<lambda>u m (r, rt, ri). credit u m r rt ri" "\<lambda>u m (r, rt, ri). debit u m r rt ri"
proof (unfold_locales, goal_cases)
  case (1 s s1 s2)
  then show ?case by (rule money_only_trans)
next
  case (2 s u m r x s')
  then show ?case by (cases r) (simp add: credit_effect)
next
  case (3 s u m r x s')
  then show ?case by (cases r) (simp add: debit_effect)
qed

subsection \<open>Opening accounts and adjusting balances\<close>

definition open_account :: "service_config \<Rightarrow> string \<Rightarrow> string \<Rightarrow> db \<Rightarrow> db" where
  "open_account cfg u n s = s\<lparr>accounts := accounts s @
      [\<lparr>a_uuid = u, a_name = n, a_balance = initial_balance_cents cfg, a_updated = db_now s\<rparr>],
    ledger := ledger s @ [ledger_entry u (initial_balance_cents cfg) ''ACCOUNT_OPENED'' [] None]\<rparr>"

definition touch_account :: "string \<Rightarrow> string \<Rightarrow> db \<Rightarrow> db" where
  "touch_account u n s =
    s\<lparr>accounts := upd_where (\<lambda>a. a_uuid a = u) (rename_account (db_now s) n) (accounts s)\<rparr>"

lemma ensureAccount_Inr:
  "ensureAccount cfg u n s = (Inr x, s') \<longleftrightarrow> u \<noteq> [] \<and>
    s' = (if account_of s u = None \<and> 0 \<le> initial_balance_cents cfg
          then open_account cfg u n s else touch_account u n s)"
  by (auto simp: ensureAccount_def svc_simps recordBalanceChange_Inr open_account_def
      touch_account_def account_of_def find_append ledger_entry_def split: if_splits option.splits)

lemma ensureAccount_Inl:
  "ensureAccount cfg u n s = (Inl e, s') \<Longrightarrow> s' = s"
proof -
  assume "ensureAccount cfg u n s = (Inl e, s')"
  then show "s' = s"
    by (cases "u = []") (auto simp: ensureAccount_def svc_simps bindS_def throwIf_def throwS_def
        returnS_def)
qed

lemma open_account_ok:
  assumes ok: "money_ok s" and new: "account_of s u = None"
    and ini: "0 \<le> initial_balance_cents cfg" "initial_balance_cents cfg \<le> int64_max"
  shows "money_ok (open_account cfg u n s)" "money_only s (open_account cfg u n s)"
    "balance_of (open_account cfg u n s) = (balance_of s)(u := initial_balance_cents cfg)"
    "total_balance (open_account cfg u n s) = total_balance s + initial_balance_cents cfg"
proof -
  let ?s' = "open_account cfg u n s"
  from new have fresh: "u \<notin> set (map a_uuid (accounts s))"
    using account_exists_iff [of s u] by blast
  show "money_only s ?s'" by (auto simp: money_only_def open_account_def)
  show bal: "balance_of ?s' = (balance_of s)(u := initial_balance_cents cfg)"
    using new by (auto simp: balance_of_def open_account_def account_of_def find_append fun_eq_iff
        split: option.splits)
  show "total_balance ?s' = total_balance s + initial_balance_cents cfg"
    by (simp add: total_balance_def open_account_def)
  have "accounts_ok ?s'"
    using ok ini fresh by (auto simp: money_ok_def accounts_ok_def open_account_def)
  moreover have "ledger_sum ?s' v = balance_of ?s' v" for v
    using ok new bal
    by (auto simp: money_ok_def ledger_ok_def ledger_sum_def open_account_def ledger_entry_def
        balance_of_def split: option.splits)
  ultimately show "money_ok ?s'" by (simp add: money_ok_def ledger_ok_def)
qed

lemma touch_account_ok:
  assumes ok: "money_ok s"
  shows "money_ok (touch_account u n s)" "money_only s (touch_account u n s)"
    "balance_of (touch_account u n s) = balance_of s"
    "total_balance (touch_account u n s) = total_balance s"
proof -
  let ?s' = "touch_account u n s"
  have uuids: "map a_uuid (accounts ?s') = map a_uuid (accounts s)"
    by (simp add: touch_account_def)
  then show "money_only s ?s'" by (simp add: money_only_def touch_account_def del: set_map)
  have acc: "account_of ?s' v =
      (if v = u then map_option (rename_account (db_now s) n) (account_of s u) else account_of s v)" for v
    by (auto simp: account_of_def touch_account_def rename.find_upd)
  show bal: "balance_of ?s' = balance_of s"
    by (auto simp: balance_of_def acc fun_eq_iff split: option.splits)
  show "total_balance ?s' = total_balance s"
    unfolding total_balance_def touch_account_def
    by (simp add: sum_list_upd_where_same)
  have "accounts_ok ?s'"
    using ok uuids by (auto simp: money_ok_def accounts_ok_def in_upd_where touch_account_def)
  then show "money_ok ?s'"
    using ok bal by (simp add: money_ok_def ledger_ok_def ledger_sum_def touch_account_def)
qed

text \<open>The configuration that \<open>Config::validate\<close> admits.\<close>

definition config_ok :: "service_config \<Rightarrow> bool" where
  "config_ok cfg \<longleftrightarrow> 0 \<le> initial_balance_cents cfg \<and> initial_balance_cents cfg \<le> int64_max \<and>
    0 < max_order_quantity cfg \<and> max_order_quantity cfg \<le> int32_max"

lemma ensureAccount_effect:
  assumes "config_ok cfg" and "money_ok s" and "ensureAccount cfg u n s = (r, s')"
  shows "money_ok s'" "money_only s s'"
    "r = Inr x \<Longrightarrow> account_of s' u \<noteq> None"
    "r = Inr x \<Longrightarrow> total_balance s' =
      total_balance s + (if account_of s u = None then initial_balance_cents cfg else 0)"
    "r = Inr x \<Longrightarrow> balance_of s' =
      (balance_of s)(u := if account_of s u = None then initial_balance_cents cfg else balance_of s u)"
proof -
  have ini: "0 \<le> initial_balance_cents cfg" "initial_balance_cents cfg \<le> int64_max"
    using assms(1) by (auto simp: config_ok_def)
  have "money_ok s' \<and> money_only s s' \<and> (\<forall>x. r = Inr x \<longrightarrow> account_of s' u \<noteq> None \<and>
     total_balance s' = total_balance s + (if account_of s u = None then initial_balance_cents cfg else 0) \<and>
     balance_of s' = (balance_of s)(u := if account_of s u = None then initial_balance_cents cfg
        else balance_of s u))"
  proof (cases r)
    case (Inl e)
    with assms show ?thesis using ensureAccount_Inl by fastforce
  next
    case (Inr y)
    show ?thesis
    proof (cases "account_of s u = None")
      case True
      then show ?thesis
        using assms(2,3) Inr ini open_account_ok [OF assms(2) True ini]
        by (auto simp: ensureAccount_Inr open_account_def account_of_def find_append)
    next
      case False
      then have "account_of (touch_account u n s) u \<noteq> None"
        using money_only_exists [OF touch_account_ok(2) [OF assms(2)]] by blast
      with False show ?thesis
        using assms(3) Inr touch_account_ok [OF assms(2)] by (auto simp: ensureAccount_Inr)
    qed
  qed
  then show "money_ok s'" "money_only s s'"
    "r = Inr x \<Longrightarrow> account_of s' u \<noteq> None"
    "r = Inr x \<Longrightarrow> total_balance s' =
      total_balance s + (if account_of s u = None then initial_balance_cents cfg else 0)"
    "r = Inr x \<Longrightarrow> balance_of s' =
      (balance_of s)(u := if account_of s u = None then initial_balance_cents cfg else balance_of s u)"
    by blast+
qed

text \<open>\<open>addBalance\<close>: the account is opened first, in a transaction of its own.\<close>

lemma addBalance_body_Inr:
  assumes ok: "money_ok s"
    and run: "bindS (lockedBalance u) (\<lambda>current.
      bindS (throwIf (delta < - current) (Runtime_Error ''balance cannot become negative'')) (\<lambda>_.
      bindS (throwIf (delta > 0 \<and> current > int64_max - delta)
        (Runtime_Error ''balance is too large'')) (\<lambda>_.
      bindS (executeS (\<lambda>s. s\<lparr>accounts :=
        upd_where (\<lambda>a. a_uuid a = u) (add_to_balance (db_now s) delta) (accounts s)\<rparr>)) (\<lambda>_.
      bindS (recordBalanceChange u delta ''ADMIN_ADJUSTMENT'' [] None) (\<lambda>_.
      returnS (current + delta)))))) s = (Inr b, s')"
  shows "money_ok s'" "money_only s s'" "b = balance_of s u + delta" "0 \<le> b" "b \<le> int64_max"
    "balance_of s' = (balance_of s)(u := b)" "total_balance s' = total_balance s + delta"
proof -
  from run obtain a where acc: "account_of s u = Some a" and lo: "- a_balance a \<le> delta"
    and hi: "delta > 0 \<longrightarrow> a_balance a \<le> int64_max - delta" and b: "b = a_balance a + delta"
    and s': "s' = move_balance u delta (ledger_entry u delta ''ADMIN_ADJUSTMENT'' [] None) s"
    by (auto simp: svc_simps recordBalanceChange_Inr move_balance_def ledger_entry_def balance_of_def
        not_less)
  from acc ok have "0 \<le> a_balance a" "a_balance a \<le> int64_max"
    by (auto simp: money_ok_def accounts_ok_def dest!: account_of_Some)
  with lo hi have rng: "0 \<le> a_balance a + delta" "a_balance a + delta \<le> int64_max" by linarith+
  note mv = move_balance_ok [OF ok acc rng, of "ledger_entry u delta ''ADMIN_ADJUSTMENT'' [] None"]
  show "money_ok s'" "money_only s s'" "b = balance_of s u + delta" "0 \<le> b" "b \<le> int64_max"
    "balance_of s' = (balance_of s)(u := b)" "total_balance s' = total_balance s + delta"
    using mv b s' acc rng by (simp_all add: ledger_entry_def balance_of_def)
qed

lemma addBalance_keeps:
  assumes "config_ok cfg"
  shows "keeps money_ok (addBalance cfg u n delta)"
  unfolding addBalance_def
  by (intro keeps_bindS keeps_transactionS)
    (auto intro: keepsI dest: addBalance_body_Inr(1) ensureAccount_effect(1) [OF assms])

lemma ensureAccount_keeps: "config_ok cfg \<Longrightarrow> keeps money_ok (ensureAccount cfg u n)"
  by (rule keepsI) (rule ensureAccount_effect(1))

end
