(* ===== verification/Orders.thy ===== *)
theory Orders
  imports Accounts
begin

text \<open>
  The order book and the matching engine of src/exchange_service.cpp: \<open>validateRequest\<close>,
  \<open>lockActiveBook\<close>, \<open>addDelivery\<close>, \<open>placeBuy\<close>, \<open>placeSell\<close>, \<open>placeSellLocked\<close>,
  \<open>placeOrder\<close>, \<open>cancelOrder\<close>, \<open>openOrders\<close>, \<open>orderBook\<close>, \<open>topOfBooks\<close> and
  \<open>buyFundingRequired\<close>. The operations are here; their correctness is in Matching, Conservation
  and Service.
\<close>

section \<open>Small steps\<close>

definition validateRequest :: "service_config \<Rightarrow> OrderRequest \<Rightarrow> unit result" where
  "validateRequest cfg r =
    (if rq_market r = 0 \<or> rq_uuid r = [] \<or> rq_name r = []
     then Inl (Runtime_Error ''order identity is incomplete'')
     else if rq_quantity r \<le> 0 \<or> rq_quantity r > max_order_quantity cfg
     then Inl (Runtime_Error ''order quantity is outside the configured range'')
     else if rq_type r = Limit \<and> rq_price r \<le> 0
     then Inl (Runtime_Error ''limit-order price must be positive'')
     else if rq_type r = Limit
     then (case checkedProduct (rq_price r) (rq_quantity r) of Inl e \<Rightarrow> Inl e | Inr c \<Rightarrow> Inr ())
     else Inr ())"

definition market_missing :: error where
  "market_missing = Runtime_Error ''market does not exist''"

definition market_inactive :: error where
  "market_inactive = Runtime_Error ''market is not active''"

definition lockActiveBook :: "Id \<Rightarrow> Id dbm" where
  "lockActiveBook mkt =
    bindS (queryS (\<lambda>s. market_of s mkt)) (\<lambda>identity.
    case identity of None \<Rightarrow> throwS market_missing
    | Some m0 \<Rightarrow>
      bindS (queryS (\<lambda>s. book_of s (mk_book m0))) (\<lambda>book.
      bindS (throwIf (book = None) (Runtime_Error ''market order book does not exist'')) (\<lambda>_.
      bindS (queryS (\<lambda>s. market_of s mkt)) (\<lambda>market.
      case market of None \<Rightarrow> throwS market_inactive
      | Some m \<Rightarrow>
        bindS (throwIf (\<not> mk_active m) market_inactive) (\<lambda>_.
        bindS (throwIf (mk_book m \<noteq> mk_book m0)
          (Runtime_Error ''market order-book identity changed unexpectedly'')) (\<lambda>_.
        returnS (mk_book m0)))))))"

definition addDelivery :: "string \<Rightarrow> Id \<Rightarrow> int \<Rightarrow> string \<Rightarrow> unit dbm" where
  "addDelivery u mkt qty reason =
    (if qty \<le> 0 then returnS ()
     else executeS (\<lambda>s. s\<lparr>deliveries := deliveries s @
       [\<lparr>d_id = fresh_id d_id (deliveries s), d_player = u, d_market = mkt, d_quantity = qty,
         d_claimed = 0, d_reserved = 0, d_reason = reason\<rparr>]\<rparr>))"

definition orderStatus :: "int \<Rightarrow> int \<Rightarrow> OrderStatus" where
  "orderStatus remaining filled =
    (if remaining = 0 then OrderFilled else if filled > 0 then OrderPartial else OrderOpen)"

definition marketStatus :: "int \<Rightarrow> int \<Rightarrow> OrderStatus" where
  "marketStatus filled quantity =
    (if filled = quantity then OrderFilled else if filled > 0 then OrderPartial else OrderCanceled)"

text \<open>\<open>INSERT INTO exchange_orders ... VALUES (..., 'OPEN')\<close> and \<open>lastInsertId\<close>.\<close>

definition new_order :: "Id \<Rightarrow> OrderRequest \<Rightarrow> Side \<Rightarrow> Cents \<Rightarrow> order_row" where
  "new_order i r side reserved = \<lparr>o_id = i, o_market = rq_market r, o_player = rq_uuid r,
     o_side = side, o_type = rq_type r, o_price = (if rq_type r = Limit then rq_price r else 0),
     o_original = rq_quantity r, o_remaining = rq_quantity r, o_reserved = reserved,
     o_status = OrderOpen\<rparr>"

definition insertOrder :: "OrderRequest \<Rightarrow> Side \<Rightarrow> Cents \<Rightarrow> Id dbm" where
  "insertOrder r side reserved =
    bindS (queryS (\<lambda>s. fresh_id o_id (orders s))) (\<lambda>i.
    bindS (executeS (\<lambda>s. s\<lparr>orders := orders s @ [new_order i r side reserved]\<rparr>)) (\<lambda>_.
    returnS i))"

definition set_fill :: "int \<Rightarrow> OrderStatus \<Rightarrow> order_row \<Rightarrow> order_row" where
  "set_fill remaining st x = x\<lparr>o_remaining := remaining, o_status := st\<rparr>"

definition set_fill_reserved :: "int \<Rightarrow> Cents \<Rightarrow> OrderStatus \<Rightarrow> order_row \<Rightarrow> order_row" where
  "set_fill_reserved remaining reserved st x =
    x\<lparr>o_remaining := remaining, o_reserved := reserved, o_status := st\<rparr>"

definition updateOrder :: "Id \<Rightarrow> (order_row \<Rightarrow> order_row) \<Rightarrow> unit dbm" where
  "updateOrder i g = executeS (\<lambda>s. s\<lparr>orders := upd_where (\<lambda>x. o_id x = i) g (orders s)\<rparr>)"

definition insertTrade :: "Id \<Rightarrow> Id \<Rightarrow> Id \<Rightarrow> string \<Rightarrow> string \<Rightarrow> Cents \<Rightarrow> int \<Rightarrow> unit dbm" where
  "insertTrade mkt buy sell buyer seller price qty =
    executeS (\<lambda>s. s\<lparr>trades := trades s @ [\<lparr>t_id = fresh_id t_id (trades s), t_market = mkt,
      t_buy = buy, t_sell = sell, t_buyer = buyer, t_seller = seller, t_price = price,
      t_quantity = qty\<rparr>]\<rparr>)"

section \<open>The counter side of the book\<close>

text \<open>The open limit orders of one side on one book, the order of another player.\<close>

definition opposite :: "db \<Rightarrow> Id \<Rightarrow> Side \<Rightarrow> string \<Rightarrow> order_row list" where
  "opposite s book side u = filter (\<lambda>x. on_book s book (o_market x) \<and> o_side x = side \<and>
     o_type x = Limit \<and> open_status (o_status x) \<and> o_player x \<noteq> u) (orders s)"

definition matching_asks :: "db \<Rightarrow> Id \<Rightarrow> OrderRequest \<Rightarrow> order_row list" where
  "matching_asks s book r = sort_key (\<lambda>x. (o_price x, o_id x))
     (filter (\<lambda>x. rq_type r = Limit \<longrightarrow> o_price x \<le> rq_price r) (opposite s book Sell (rq_uuid r)))"

definition matching_bids :: "db \<Rightarrow> Id \<Rightarrow> OrderRequest \<Rightarrow> order_row list" where
  "matching_bids s book r = sort_key (\<lambda>x. (- o_price x, o_id x))
     (filter (\<lambda>x. rq_type r = Limit \<longrightarrow> o_price x \<ge> rq_price r) (opposite s book Buy (rq_uuid r)))"

section \<open>Placing a buy order\<close>

text \<open>What the loop does with one ask once the fill is decided; the result is the cost.\<close>

definition fill_ask :: "OrderRequest \<Rightarrow> Id \<Rightarrow> order_row \<Rightarrow> int \<Rightarrow> Cents dbm" where
  "fill_ask r oid ask fill =
    bindS (updateOrder (o_id ask)
      (set_fill (o_remaining ask - fill)
        (if o_remaining ask - fill = 0 then OrderFilled else OrderPartial))) (\<lambda>_.
    bindS (liftS (checkedProduct (o_price ask) fill)) (\<lambda>cost.
    bindS (credit (o_player ask) cost ''TRADE_PROCEEDS'' ''ORDER'' (Some (o_id ask))) (\<lambda>_.
    bindS (addDelivery (rq_uuid r) (rq_market r) fill ''TRADE_BUY'') (\<lambda>_.
    bindS (insertTrade (rq_market r) oid (o_id ask) (rq_uuid r) (o_player ask) (o_price ask) fill) (\<lambda>_.
    returnS cost)))))"

text \<open>The loop over the asks; its variables are \<open>remaining\<close>, \<open>filled_total\<close>, \<open>gross\<close> and
  \<open>available_balance\<close>.\<close>

fun buy_loop ::
  "OrderRequest \<Rightarrow> Id \<Rightarrow> order_row list \<Rightarrow> int \<Rightarrow> int \<Rightarrow> Cents \<Rightarrow> Cents \<Rightarrow> (int \<times> int \<times> Cents) dbm"
where
  "buy_loop r oid [] remaining filled gross avail = returnS (remaining, filled, gross)"
| "buy_loop r oid (ask # rest) remaining filled gross avail =
    (if remaining = 0 then returnS (remaining, filled, gross)
     else
       let fill0 = min remaining (o_remaining ask) in
       if rq_type r = Market
       then
         let fill = min fill0 (avail sdiv o_price ask) in
         if fill \<le> 0 then returnS (remaining, filled, gross)
         else
           bindS (liftS (checkedProduct (o_price ask) fill)) (\<lambda>cost.
           bindS (debit (rq_uuid r) cost ''MARKET_BUY_TRADE'' ''ORDER'' (Some oid)) (\<lambda>_.
           bindS (fill_ask r oid ask fill) (\<lambda>cost'.
           buy_loop r oid rest (remaining - fill) (filled + fill) (gross + cost') (avail - cost))))
       else
         bindS (liftS (checkedProduct (rq_price r - o_price ask) fill0)) (\<lambda>refund.
         bindS (whenS (refund > 0)
           (credit (rq_uuid r) refund ''PRICE_IMPROVEMENT_REFUND'' ''ORDER'' (Some oid))) (\<lambda>_.
         bindS (fill_ask r oid ask fill0) (\<lambda>cost'.
         buy_loop r oid rest (remaining - fill0) (filled + fill0) (gross + cost') (avail + refund)))))"

definition insufficient_balance :: error where
  "insufficient_balance = Runtime_Error ''insufficient exchange balance''"

definition placeBuy :: "OrderRequest \<Rightarrow> ExecutionResult dbm" where
  "placeBuy r = transactionS (
    bindS (lockActiveBook (rq_market r)) (\<lambda>book.
    bindS (lockedBalance (rq_uuid r)) (\<lambda>available.
    bindS (if rq_type r = Limit
           then bindS (liftS (checkedProduct (rq_price r) (rq_quantity r))) (\<lambda>reserved.
                bindS (throwIf (available < reserved) insufficient_balance) (\<lambda>_. returnS reserved))
           else returnS 0) (\<lambda>reserved.
    bindS (insertOrder r Buy reserved) (\<lambda>oid.
    bindS (whenS (reserved > 0)
      (debit (rq_uuid r) reserved ''BUY_ORDER_RESERVE'' ''ORDER'' (Some oid))) (\<lambda>_.
    bindS (queryS (\<lambda>s. matching_asks s book r)) (\<lambda>asks.
    bindS (buy_loop r oid asks (rq_quantity r) 0 0
      (if reserved > 0 then available - reserved else available)) (\<lambda>(remaining, filled, gross).
    bindS (if rq_type r = Limit then liftS (checkedProduct (rq_price r) remaining) else returnS 0)
      (\<lambda>current_reserved.
    bindS (updateOrder oid (set_fill_reserved (if rq_type r = Limit then remaining else 0)
      current_reserved
      (if rq_type r = Market then marketStatus filled (rq_quantity r)
       else orderStatus remaining filled))) (\<lambda>_.
    bindS (lockedBalance (rq_uuid r)) (\<lambda>final.
    returnS \<lparr>ex_order = oid, ex_requested = rq_quantity r, ex_filled = filled,
      ex_open = (if rq_type r = Limit then remaining else 0), ex_gross = gross,
      ex_balance = final\<rparr>)))))))))))"

section \<open>Placing a sell order\<close>

definition fill_bid :: "OrderRequest \<Rightarrow> Id \<Rightarrow> order_row \<Rightarrow> int \<Rightarrow> Cents dbm" where
  "fill_bid r oid bid fill =
    bindS (liftS (checkedProduct (o_price bid) fill)) (\<lambda>cost.
    bindS (throwIf (o_reserved bid - cost < 0)
      (Runtime_Error ''buy-order reserve invariant failed'')) (\<lambda>_.
    bindS (updateOrder (o_id bid)
      (set_fill_reserved (o_remaining bid - fill) (o_reserved bid - cost)
        (if o_remaining bid - fill = 0 then OrderFilled else OrderPartial))) (\<lambda>_.
    bindS (liftS (checkedProduct (o_price bid) fill)) (\<lambda>proceeds.
    bindS (credit (rq_uuid r) proceeds ''TRADE_PROCEEDS'' ''ORDER'' (Some oid)) (\<lambda>_.
    bindS (addDelivery (o_player bid) (rq_market r) fill ''TRADE_BUY'') (\<lambda>_.
    bindS (insertTrade (rq_market r) (o_id bid) oid (o_player bid) (rq_uuid r) (o_price bid) fill) (\<lambda>_.
    returnS proceeds)))))))"

fun sell_loop ::
  "OrderRequest \<Rightarrow> Id \<Rightarrow> order_row list \<Rightarrow> int \<Rightarrow> int \<Rightarrow> Cents \<Rightarrow> (int \<times> int \<times> Cents) dbm"
where
  "sell_loop r oid [] remaining filled gross = returnS (remaining, filled, gross)"
| "sell_loop r oid (bid # rest) remaining filled gross =
    (if remaining = 0 then returnS (remaining, filled, gross)
     else
       let fill = min remaining (o_remaining bid) in
       bindS (fill_bid r oid bid fill) (\<lambda>proceeds.
       sell_loop r oid rest (remaining - fill) (filled + fill) (gross + proceeds)))"

definition placeSellLocked :: "OrderRequest \<Rightarrow> ExecutionResult dbm" where
  "placeSellLocked r =
    bindS (lockActiveBook (rq_market r)) (\<lambda>book.
    bindS (lockedBalance (rq_uuid r)) (\<lambda>_.
    bindS (insertOrder r Sell 0) (\<lambda>oid.
    bindS (queryS (\<lambda>s. matching_bids s book r)) (\<lambda>bids.
    bindS (sell_loop r oid bids (rq_quantity r) 0 0) (\<lambda>(remaining, filled, gross).
    bindS (whenS (rq_type r = Market \<and> remaining > 0)
      (addDelivery (rq_uuid r) (rq_market r) remaining ''MARKET_REMAINDER'')) (\<lambda>_.
    bindS (updateOrder oid (set_fill (if rq_type r = Limit then remaining else 0)
      (if rq_type r = Market then marketStatus filled (rq_quantity r)
       else orderStatus remaining filled))) (\<lambda>_.
    bindS (lockedBalance (rq_uuid r)) (\<lambda>final.
    returnS \<lparr>ex_order = oid, ex_requested = rq_quantity r, ex_filled = filled,
      ex_open = (if rq_type r = Limit then remaining else 0), ex_gross = gross,
      ex_balance = final\<rparr>))))))))"

definition placeSell :: "OrderRequest \<Rightarrow> ExecutionResult dbm" where
  "placeSell r = transactionS (placeSellLocked r)"

definition placeOrder :: "service_config \<Rightarrow> OrderRequest \<Rightarrow> ExecutionResult dbm" where
  "placeOrder cfg r =
    bindS (liftS (validateRequest cfg r)) (\<lambda>_.
    bindS (ensureAccount cfg (rq_uuid r) (rq_name r)) (\<lambda>_.
    if rq_side r = Buy then placeBuy r else placeSell r))"

section \<open>Canceling\<close>

text \<open>
  Giving an open order's stake back: the reserve of a buy order, the unsold items of a sell
  order. \<open>cancelOrder\<close> and \<open>retireMarket\<close> both do this, under different reasons.
\<close>

definition close_order :: "order_row \<Rightarrow> string \<Rightarrow> string \<Rightarrow> unit dbm" where
  "close_order x refund_reason delivery_reason =
    bindS (if o_side x = Buy
           then credit (o_player x) (o_reserved x) refund_reason ''ORDER'' (Some (o_id x))
           else whenS (o_remaining x > 0)
             (addDelivery (o_player x) (o_market x) (o_remaining x) delivery_reason)) (\<lambda>_.
    updateOrder (o_id x) (set_fill_reserved 0 0 OrderCanceled))"

definition cancelOrder :: "Id \<Rightarrow> string \<Rightarrow> bool \<Rightarrow> unit dbm" where
  "cancelOrder oid u administrator = transactionS (
    bindS (queryS (\<lambda>s. order_of s oid)) (\<lambda>row.
    case row of None \<Rightarrow> throwS (Runtime_Error ''order does not exist'')
    | Some x \<Rightarrow>
      bindS (throwIf (\<not> administrator \<and> o_player x \<noteq> u)
        (Runtime_Error ''cannot cancel another player's order'')) (\<lambda>_.
      bindS (throwIf (o_type x \<noteq> Limit \<or> \<not> open_status (o_status x))
        (Runtime_Error ''order is not open'')) (\<lambda>_.
      close_order x ''ORDER_CANCEL_REFUND'' ''ORDER_CANCELED''))))"

section \<open>Reading the book\<close>

definition openOrders :: "string \<Rightarrow> OpenOrder list dbm" where
  "openOrders u = queryS (\<lambda>s.
    List.map_filter (\<lambda>x. map_option (\<lambda>m. \<lparr>oo_id = o_id x, oo_market = o_market x,
        oo_item = mk_item m, oo_side = o_side x, oo_price = o_price x,
        oo_remaining = o_remaining x\<rparr>) (market_of s (o_market x)))
      (rev (sort_key o_id (filter (\<lambda>x. o_player x = u \<and> o_type x = Limit \<and>
        open_status (o_status x)) (orders s)))))"

text \<open>\<open>cellInt\<close> refuses a value outside \<open>int\<close>.\<close>

definition cellInt_of :: "int \<Rightarrow> int result" where
  "cellInt_of v = (if v < int32_min \<or> v > int32_max
     then Inl (Database_Error ''database integer is outside int range'') else Inr v)"

fun collect :: "'a result list \<Rightarrow> 'a list result" where
  "collect [] = Inr []"
| "collect (x # xs) =
    (case x of Inl e \<Rightarrow> Inl e
     | Inr v \<Rightarrow> (case collect xs of Inl e \<Rightarrow> Inl e | Inr vs \<Rightarrow> Inr (v # vs)))"

definition book_rows :: "db \<Rightarrow> Id \<Rightarrow> Side \<Rightarrow> order_row list" where
  "book_rows s book side = filter (\<lambda>x. on_book s book (o_market x) \<and> o_side x = side \<and>
     o_type x = Limit \<and> open_status (o_status x)) (orders s)"

text \<open>\<open>SELECT price, SUM(remaining) ... GROUP BY price\<close>: the groups, ordered by price.\<close>

definition price_groups :: "order_row list \<Rightarrow> (Cents \<times> int) list" where
  "price_groups rows = map (\<lambda>p. (p, \<Sum>x\<leftarrow>filter (\<lambda>x. o_price x = p) rows. o_remaining x))
     (sort (remdups (map o_price rows)))"

definition to_level :: "Cents \<times> int \<Rightarrow> PriceLevel result" where
  "to_level g = (case cellInt_of (snd g) of Inl e \<Rightarrow> Inl e
     | Inr q \<Rightarrow> Inr \<lparr>level_price = fst g, level_quantity = q\<rparr>)"

definition book_trades :: "db \<Rightarrow> Id \<Rightarrow> trade_row list" where
  "book_trades s book = sort_key t_id (filter (\<lambda>t. on_book s book (t_market t)) (trades s))"

definition last_trade_price :: "db \<Rightarrow> Id \<Rightarrow> Cents option" where
  "last_trade_price s book =
    (case rev (book_trades s book) of [] \<Rightarrow> None | t # _ \<Rightarrow> Some (t_price t))"

definition orderBook :: "Id \<Rightarrow> int \<Rightarrow> OrderBook dbm" where
  "orderBook mkt depth =
    bindS (throwIf (depth \<le> 0 \<or> depth > 50)
      (Runtime_Error ''order-book depth must be between 1 and 50'')) (\<lambda>_.
    bindS (queryS (\<lambda>s. book_id_of s mkt)) (\<lambda>b.
    case b of None \<Rightarrow> throwS market_missing
    | Some book \<Rightarrow>
      bindS (queryS (\<lambda>s. take (nat depth) (rev (price_groups (book_rows s book Buy))))) (\<lambda>bid_groups.
      bindS (liftS (collect (map to_level bid_groups))) (\<lambda>bid_levels.
      bindS (queryS (\<lambda>s. take (nat depth) (price_groups (book_rows s book Sell)))) (\<lambda>ask_groups.
      bindS (liftS (collect (map to_level ask_groups))) (\<lambda>ask_levels.
      queryS (\<lambda>s. \<lparr>bids = bid_levels, asks = ask_levels,
        last_price = last_trade_price s book\<rparr>)))))))"

text \<open>
  \<open>topOfBooks\<close> reads many markets in one go: the rows at the extreme price of each side, summed
  and clamped by \<open>LEAST(..., 2147483647)\<close>. The result is a map over the requested ids.
\<close>

definition best_level :: "(Cents list \<Rightarrow> Cents) \<Rightarrow> order_row list \<Rightarrow> PriceLevel list" where
  "best_level best rows = (if rows = [] then []
    else let p = best (map o_price rows) in
      [\<lparr>level_price = p, level_quantity =
         min (\<Sum>x\<leftarrow>filter (\<lambda>x. o_price x = p) rows. o_remaining x) int32_max\<rparr>])"

definition list_max :: "Cents list \<Rightarrow> Cents" where
  "list_max xs = foldr max (tl xs) (hd xs)"

definition list_min :: "Cents list \<Rightarrow> Cents" where
  "list_min xs = foldr min (tl xs) (hd xs)"

definition empty_book :: OrderBook where
  "empty_book = \<lparr>bids = [], asks = [], last_price = None\<rparr>"

definition top_of_book :: "db \<Rightarrow> Id \<Rightarrow> OrderBook" where
  "top_of_book s book = \<lparr>bids = best_level list_max (book_rows s book Buy),
     asks = best_level list_min (book_rows s book Sell), last_price = last_trade_price s book\<rparr>"

definition idList_check :: "Id list \<Rightarrow> unit result" where
  "idList_check ids = (if ids = [] then Inl (Runtime_Error ''market id list must not be empty'')
     else if 0 \<in> set ids then Inl (Runtime_Error ''market id must be positive'') else Inr ())"

definition topOfBooks :: "Id list \<Rightarrow> (Id \<rightharpoonup> OrderBook) dbm" where
  "topOfBooks ids =
    (if ids = [] then returnS Map.empty
     else
       bindS (liftS (idList_check ids)) (\<lambda>_.
       bindS (queryS (\<lambda>s. remdups (map mk_book (filter (\<lambda>m. mk_id m \<in> set ids) (markets s))))) (\<lambda>book_ids.
       if book_ids = [] then returnS (\<lambda>i. if i \<in> set ids then Some empty_book else None)
       else
         bindS (liftS (idList_check book_ids)) (\<lambda>_.
         queryS (\<lambda>s i. if i \<in> set ids
           then Some (case book_id_of s i of None \<Rightarrow> empty_book | Some b \<Rightarrow> top_of_book s b)
           else None)))))"

section \<open>Funding a buy order\<close>

fun funding_loop :: "order_row list \<Rightarrow> int \<Rightarrow> Cents \<Rightarrow> Cents result" where
  "funding_loop [] remaining required = Inr required"
| "funding_loop (ask # rest) remaining required =
    (if remaining = 0 then Inr required
     else
       let fill = min remaining (o_remaining ask) in
       (case checkedProduct (o_price ask) fill of Inl e \<Rightarrow> Inl e
        | Inr cost \<Rightarrow>
          if required > int64_max - cost
          then Inl (Runtime_Error ''market-buy funding is too large'')
          else funding_loop rest (remaining - fill) (required + cost)))"

definition buyFundingRequired :: "service_config \<Rightarrow> OrderRequest \<Rightarrow> Cents dbm" where
  "buyFundingRequired cfg r =
    bindS (liftS (validateRequest cfg r)) (\<lambda>_.
    bindS (throwIf (rq_side r \<noteq> Buy)
      (Runtime_Error ''only buy orders require currency funding'')) (\<lambda>_.
    bindS (queryS (\<lambda>s. market_of s (rq_market r))) (\<lambda>market.
    case market of None \<Rightarrow> throwS market_inactive
    | Some m \<Rightarrow>
      bindS (throwIf (\<not> mk_active m) market_inactive) (\<lambda>_.
      if rq_type r = Limit then liftS (checkedProduct (rq_price r) (rq_quantity r))
      else
        bindS (queryS (\<lambda>s. matching_asks s (mk_book m) r)) (\<lambda>asks.
        liftS (funding_loop asks (rq_quantity r) 0))))))"

end
