(* ===== verification/Matching.thy ===== *)
theory Matching
  imports Orders
begin

text \<open>
  What the matching loops of \<open>placeBuy\<close> and \<open>placeSellLocked\<close> do, in closed form. The decisions
  of a loop are a pure function of the fetched rows, its plan: which order is filled by how
  much. \<open>buy_loop_effect\<close> and \<open>sell_loop_effect\<close> say that a loop that returns has executed
  exactly its plan: the order rows, the accounts, the deliveries and the trades are those the
  plan prescribes. Priority, conservation and the invariants are then facts about plans.
\<close>

section \<open>Plans\<close>

type_synonym plan = "(order_row \<times> int) list"

fun buy_plan :: "OrderRequest \<Rightarrow> order_row list \<Rightarrow> int \<Rightarrow> Cents \<Rightarrow> plan" where
  "buy_plan r [] n avail = []"
| "buy_plan r (a # rest) n avail =
    (if n = 0 then []
     else if rq_type r = Market
     then (let f = min (min n (o_remaining a)) (avail sdiv o_price a) in
       if f \<le> 0 then [] else (a, f) # buy_plan r rest (n - f) (avail - o_price a * f))
     else (let f = min n (o_remaining a) in (a, f) # buy_plan r rest (n - f) avail))"

fun sell_plan :: "order_row list \<Rightarrow> int \<Rightarrow> plan" where
  "sell_plan [] n = []"
| "sell_plan (b # rest) n =
    (if n = 0 then [] else (b, min n (o_remaining b)) # sell_plan rest (n - min n (o_remaining b)))"

definition plan_quantity :: "plan \<Rightarrow> int" where
  "plan_quantity p = (\<Sum>(a, f)\<leftarrow>p. f)"

definition plan_value :: "plan \<Rightarrow> Cents" where
  "plan_value p = (\<Sum>(a, f)\<leftarrow>p. o_price a * f)"

definition plan_value_of :: "string \<Rightarrow> plan \<Rightarrow> Cents" where
  "plan_value_of u p = (\<Sum>(a, f)\<leftarrow>p. if o_player a = u then o_price a * f else 0)"

lemma plan_sums_Nil [simp]:
  "plan_quantity [] = 0" "plan_value [] = 0" "plan_value_of u [] = 0"
  by (simp_all add: plan_quantity_def plan_value_def plan_value_of_def)

lemma plan_sums_Cons [simp]:
  "plan_quantity ((a, f) # p) = f + plan_quantity p"
  "plan_value ((a, f) # p) = o_price a * f + plan_value p"
  "plan_value_of u ((a, f) # p) = (if o_player a = u then o_price a * f else 0) + plan_value_of u p"
  by (simp_all add: plan_quantity_def plan_value_def plan_value_of_def)

text \<open>The fills of a plan on the order rows.\<close>

definition ask_fill :: "int \<Rightarrow> order_row \<Rightarrow> order_row" where
  "ask_fill f x = set_fill (o_remaining x - f)
     (if o_remaining x - f = 0 then OrderFilled else OrderPartial) x"

definition bid_fill :: "int \<Rightarrow> order_row \<Rightarrow> order_row" where
  "bid_fill f x = set_fill_reserved (o_remaining x - f) (o_reserved x - o_price x * f)
     (if o_remaining x - f = 0 then OrderFilled else OrderPartial) x"

definition plan_fills :: "plan \<Rightarrow> Id \<Rightarrow> int option" where
  "plan_fills p = map_of (map (\<lambda>(a, f). (o_id a, f)) p)"

definition fill_row :: "(int \<Rightarrow> order_row \<Rightarrow> order_row) \<Rightarrow> plan \<Rightarrow> order_row \<Rightarrow> order_row" where
  "fill_row upd p x = (case plan_fills p (o_id x) of None \<Rightarrow> x | Some f \<Rightarrow> upd f x)"

lemma fill_row_Nil [simp]: "fill_row upd [] = id"
  by (simp add: fill_row_def plan_fills_def fun_eq_iff)

lemma fill_fields [simp]:
  "o_id (ask_fill f x) = o_id x" "o_id (bid_fill f x) = o_id x"
  "o_market (ask_fill f x) = o_market x" "o_market (bid_fill f x) = o_market x"
  "o_player (ask_fill f x) = o_player x" "o_player (bid_fill f x) = o_player x"
  "o_side (ask_fill f x) = o_side x" "o_side (bid_fill f x) = o_side x"
  "o_type (ask_fill f x) = o_type x" "o_type (bid_fill f x) = o_type x"
  "o_price (ask_fill f x) = o_price x" "o_price (bid_fill f x) = o_price x"
  "o_original (ask_fill f x) = o_original x" "o_original (bid_fill f x) = o_original x"
  "o_remaining (ask_fill f x) = o_remaining x - f" "o_remaining (bid_fill f x) = o_remaining x - f"
  "o_reserved (ask_fill f x) = o_reserved x"
  "o_reserved (bid_fill f x) = o_reserved x - o_price x * f"
  by (simp_all add: ask_fill_def bid_fill_def set_fill_def set_fill_reserved_def)

lemma fill_status [simp]:
  "o_status (ask_fill f x) = (if o_remaining x = f then OrderFilled else OrderPartial)"
  "o_status (bid_fill f x) = (if o_remaining x = f then OrderFilled else OrderPartial)"
  by (simp_all add: ask_fill_def bid_fill_def set_fill_def set_fill_reserved_def)

lemma plan_fills_Cons:
  "plan_fills ((a, f) # p) i = (if i = o_id a then Some f else plan_fills p i)"
  by (simp add: plan_fills_def)

lemma plan_fills_None: "plan_fills p i = None \<longleftrightarrow> i \<notin> (o_id \<circ> fst) ` set p"
  by (auto simp: plan_fills_def map_of_eq_None_iff image_image split_beta image_iff)

lemma plan_fills_Some: "plan_fills p i = Some f \<Longrightarrow> \<exists>a. (a, f) \<in> set p \<and> o_id a = i"
  by (auto simp: plan_fills_def dest!: map_of_SomeD)

text \<open>The plan's orders are rows of the table, each once, and no fill exceeds what is left.\<close>

definition plan_for :: "plan \<Rightarrow> order_row list \<Rightarrow> bool" where
  "plan_for p os \<longleftrightarrow> fst ` set p \<subseteq> set os \<and> distinct (map (o_id \<circ> fst) p) \<and>
    (\<forall>(a, f) \<in> set p. 0 < f \<and> f \<le> o_remaining a)"

lemma plan_for_Nil [simp]: "plan_for [] os"
  by (simp add: plan_for_def)

lemma plan_for_Cons: "plan_for ((a, f) # p) os \<longleftrightarrow>
    a \<in> set os \<and> 0 < f \<and> f \<le> o_remaining a \<and> o_id a \<notin> (o_id \<circ> fst) ` set p \<and> plan_for p os"
  by (auto simp: plan_for_def)

lemma plan_fills_row:
  assumes "plan_for p os" and "distinct (map o_id os)" and "x \<in> set os" and "plan_fills p (o_id x) = Some f"
  shows "(x, f) \<in> set p"
proof -
  from plan_fills_Some [OF assms(4)] obtain a where a: "(a, f) \<in> set p" "o_id a = o_id x" by blast
  with assms(1) have "a \<in> set os" by (force simp: plan_for_def)
  with assms(2,3) a(2) have "a = x" by (metis distinct_key_eq)
  with a show ?thesis by simp
qed

lemma plan_fills_mem:
  "plan_for p os \<Longrightarrow> (a, f) \<in> set p \<Longrightarrow> plan_fills p (o_id a) = Some f"
  by (induction p) (auto simp: plan_fills_Cons plan_for_Cons rev_image_eqI split: prod.splits)

text \<open>A sum over the table after a plan: each filled row contributes its change.\<close>

lemma sum_fill_rows:
  fixes h :: "order_row \<Rightarrow> int"
  assumes "plan_for p os" and "distinct (map o_id os)"
  shows "(\<Sum>x\<leftarrow>map (fill_row upd p) os. h x) =
    (\<Sum>x\<leftarrow>os. h x) + (\<Sum>(a, f)\<leftarrow>p. h (upd f a) - h a)"
  using assms
proof (induction p)
  case Nil
  then show ?case by (simp add: id_def)
next
  case (Cons af p)
  obtain a f where af: "af = (a, f)" by fastforce
  from Cons.prems af have a: "a \<in> set os" and notin: "plan_fills p (o_id a) = None" and "plan_for p os"
    by (auto simp: plan_for_Cons plan_fills_None)
  have row: "h (fill_row upd (af # p) x) =
      h (fill_row upd p x) + (if x = a then h (upd f a) - h a else 0)" if "x \<in> set os" for x
    using notin distinct_key_eq [OF Cons.prems(2) that a]
    by (auto simp: fill_row_def af plan_fills_Cons)
  have single: "(\<Sum>x\<leftarrow>os. if x = a then c else 0) = c" for c :: int
    using Cons.prems(2) a by (simp add: sum_list_if_eq distinct_map)
  have "(\<Sum>x\<leftarrow>map (fill_row upd (af # p)) os. h x) =
      (\<Sum>x\<leftarrow>os. h (fill_row upd p x) + (if x = a then h (upd f a) - h a else 0))"
    by (simp add: row cong: map_cong)
  also have "\<dots> = (\<Sum>x\<leftarrow>os. h (fill_row upd p x)) + (h (upd f a) - h a)"
    by (simp add: sum_list_addf single)
  finally show ?case
    using Cons.IH [OF \<open>plan_for p os\<close> Cons.prems(2)] by (simp add: af o_def)
qed

section \<open>Properties of the plans\<close>

text \<open>One step of a plan, as a disjunction a proof can split on.\<close>

lemma buy_plan_step:
  "buy_plan r (a # rest) n av = [] \<or>
   (\<exists>f av'. buy_plan r (a # rest) n av = (a, f) # buy_plan r rest (n - f) av' \<and> n \<noteq> 0 \<and>
     f \<le> n \<and> f \<le> o_remaining a \<and>
     (rq_type r = Market \<longrightarrow> 0 < f \<and> f \<le> av sdiv o_price a \<and> av' = av - o_price a * f) \<and>
     (rq_type r \<noteq> Market \<longrightarrow> f = min n (o_remaining a) \<and> av' = av))"
  by (auto simp: Let_def)

declare buy_plan.simps(2) [simp del]

lemma buy_plan_orders: "(x, f) \<in> set (buy_plan r as n av) \<Longrightarrow> x \<in> set as"
proof (induction as arbitrary: n av)
  case Nil
  then show ?case by simp
next
  case (Cons a as)
  from buy_plan_step [of r a as n av] show ?case
  proof (elim disjE exE conjE)
    fix g av'
    assume "buy_plan r (a # as) n av = (a, g) # buy_plan r as (n - g) av'"
    with Cons.prems Cons.IH [of "n - g" av'] show ?thesis by auto
  qed (use Cons.prems in simp)
qed

lemma sell_plan_orders: "(x, f) \<in> set (sell_plan as n) \<Longrightarrow> x \<in> set as"
  by (induction as n rule: sell_plan.induct) (auto split: if_splits)

lemma buy_plan_ids:
  "i \<notin> o_id ` set as \<Longrightarrow> i \<notin> (o_id \<circ> fst) ` set (buy_plan r as n av)"
  by (auto dest: buy_plan_orders)

lemma sell_plan_ids: "i \<notin> o_id ` set as \<Longrightarrow> i \<notin> (o_id \<circ> fst) ` set (sell_plan as n)"
  by (auto dest: sell_plan_orders)

lemma buy_plan_for:
  assumes "set as \<subseteq> set os" and "distinct (map o_id as)" and "\<forall>a \<in> set as. 0 < o_remaining a"
    and "0 \<le> n"
  shows "plan_for (buy_plan r as n av) os"
  using assms
proof (induction as arbitrary: n av)
  case Nil
  then show ?case by simp
next
  case (Cons a as)
  have notin: "o_id a \<notin> (o_id \<circ> fst) ` set (buy_plan r as k v)" for k v
    by (rule buy_plan_ids) (use Cons.prems(2) in auto)
  from buy_plan_step [of r a as n av] show ?case
  proof (elim disjE exE conjE)
    fix f av'
    assume eq: "buy_plan r (a # as) n av = (a, f) # buy_plan r as (n - f) av'" and "n \<noteq> 0"
      and f: "f \<le> n" "f \<le> o_remaining a" and mk: "rq_type r = Market \<longrightarrow> 0 < f \<and> f \<le> av sdiv o_price a \<and> av' = av - o_price a * f"
      and lim: "rq_type r \<noteq> Market \<longrightarrow> f = min n (o_remaining a) \<and> av' = av"
    then have "0 < f" using Cons.prems(3,4) by (cases "rq_type r") auto
    with f eq notin Cons show ?thesis by (simp add: plan_for_Cons)
  qed simp
qed

lemma sell_plan_for:
  assumes "set as \<subseteq> set os" and "distinct (map o_id as)" and "\<forall>a \<in> set as. 0 < o_remaining a"
    and "0 \<le> n"
  shows "plan_for (sell_plan as n) os"
  using assms
proof (induction as n rule: sell_plan.induct)
  case (1 n)
  then show ?case by simp
next
  case (2 b rest n)
  have notin: "o_id b \<notin> (o_id \<circ> fst) ` set (sell_plan rest k)" for k
    by (rule sell_plan_ids) (use "2.prems"(2) in auto)
  show ?case
    using "2.IH" "2.prems" notin by (auto simp: plan_for_Cons)
qed

lemma plan_for_quantity_nonneg: "plan_for p os \<Longrightarrow> 0 \<le> plan_quantity p"
  by (induction p) (auto simp: plan_for_Cons split: prod.splits)

lemma buy_plan_quantity:
  "0 \<le> n \<Longrightarrow> plan_quantity (buy_plan r as n av) \<le> n"
proof (induction as arbitrary: n av)
  case Nil
  then show ?case by simp
next
  case (Cons a as)
  from buy_plan_step [of r a as n av] show ?case
  proof (elim disjE exE conjE)
    fix f av'
    assume "buy_plan r (a # as) n av = (a, f) # buy_plan r as (n - f) av'" and "f \<le> n"
    with Cons.IH [of "n - f" av'] show ?thesis by simp
  qed (use Cons.prems in simp)
qed

lemma sell_plan_quantity:
  "0 \<le> n \<Longrightarrow> \<forall>a \<in> set as. 0 < o_remaining a \<Longrightarrow> plan_quantity (sell_plan as n) \<le> n"
  by (induction as n rule: sell_plan.induct) auto

text \<open>A limit order's plan ignores the balance and is the greedy one of the sell side.\<close>

lemma buy_plan_limit: "rq_type r \<noteq> Market \<Longrightarrow> buy_plan r as n av = sell_plan as n"
  by (induction as arbitrary: n) (auto simp: Let_def buy_plan.simps(2))

text \<open>A greedy plan that leaves a remainder has exhausted every order it was offered.\<close>

lemma sell_plan_exhausts:
  assumes "plan_quantity (sell_plan as n) < n" and "0 \<le> n" and "\<forall>a \<in> set as. 0 < o_remaining a"
  shows "sell_plan as n = map (\<lambda>a. (a, o_remaining a)) as"
  using assms
proof (induction as n rule: sell_plan.induct)
  case (1 n)
  then show ?case by simp
next
  case (2 b rest n)
  show ?case
  proof (cases "n \<le> o_remaining b")
    case True
    have "sell_plan rest 0 = []" by (cases rest) auto
    with True "2.prems" show ?thesis by (simp split: if_splits)
  next
    case False
    with 2 show ?thesis by (simp split: if_splits)
  qed
qed

text \<open>
  Priority: a plan fills a prefix of the rows it is offered completely, and at most one further
  row in part. For a market purchase this needs the rows in ascending order of price, since the
  plan stops at the first price the balance cannot pay.
\<close>

definition full_then_one :: "order_row list \<Rightarrow> plan \<Rightarrow> bool" where
  "full_then_one as p \<longleftrightarrow> (\<exists>pre rest. as = pre @ rest \<and>
    (p = map (\<lambda>a. (a, o_remaining a)) pre \<or>
     (\<exists>a f rest'. rest = a # rest' \<and> p = map (\<lambda>a. (a, o_remaining a)) pre @ [(a, f)])))"

lemma full_then_one_Nil: "full_then_one as []"
  unfolding full_then_one_def by (intro exI [of _ "[]"] exI [of _ as]) simp

lemma full_then_one_single: "full_then_one (a # as) [(a, f)]"
  unfolding full_then_one_def by (intro exI [of _ "[]"] exI [of _ "a # as"]) simp

lemma full_then_one_Cons:
  assumes "full_then_one as p"
  shows "full_then_one (a # as) ((a, o_remaining a) # p)"
proof -
  from assms obtain pre rest where as: "as = pre @ rest" and
    p: "p = map (\<lambda>a. (a, o_remaining a)) pre \<or>
     (\<exists>a f rest'. rest = a # rest' \<and> p = map (\<lambda>a. (a, o_remaining a)) pre @ [(a, f)])"
    unfolding full_then_one_def by blast
  show ?thesis
    unfolding full_then_one_def by (intro exI [of _ "a # pre"] exI [of _ rest]) (use as p in auto)
qed

lemma sell_plan_zero [simp]: "sell_plan as 0 = []"
  by (cases as) auto

lemma sell_plan_priority: "full_then_one as (sell_plan as n)"
proof (induction as n rule: sell_plan.induct)
  case (1 n)
  then show ?case by (simp add: full_then_one_Nil)
next
  case (2 b rest n)
  show ?case
  proof (cases "n \<noteq> 0 \<and> o_remaining b \<le> n")
    case True
    with 2 show ?thesis by (simp add: full_then_one_Cons)
  next
    case False
    then show ?thesis by (auto simp: full_then_one_Nil full_then_one_single min_def)
  qed
qed

lemma buy_plan_broke:
  assumes "rq_type r = Market" and "0 \<le> av" and "\<forall>a \<in> set as. av < o_price a"
  shows "buy_plan r as n av = []"
proof (cases as)
  case (Cons a rest)
  with assms have "av sdiv o_price a = 0" by (simp add: sdiv_nonneg_eq_div div_pos_pos_trivial)
  with assms Cons show ?thesis by (simp add: buy_plan.simps(2) Let_def)
qed simp

lemma buy_plan_market_priority:
  assumes "rq_type r = Market" and "sorted (map o_price as)" and "\<forall>a \<in> set as. 0 < o_price a"
    and "0 \<le> av"
  shows "full_then_one as (buy_plan r as n av)"
  using assms
proof (induction as arbitrary: n av)
  case Nil
  then show ?case by (simp add: full_then_one_Nil)
next
  case (Cons a as)
  define f where "f = min (min n (o_remaining a)) (av sdiv o_price a)"
  have price: "0 < o_price a" using Cons.prems by simp
  have quot: "av sdiv o_price a = av div o_price a"
    using Cons.prems price by (simp add: sdiv_nonneg_eq_div)
  show ?case
  proof (cases "n = 0 \<or> f \<le> 0")
    case True
    then show ?thesis using Cons.prems(1)
      by (auto simp: buy_plan.simps(2) Let_def f_def full_then_one_Nil)
  next
    case False
    have plan: "buy_plan r (a # as) n av = (a, f) # buy_plan r as (n - f) (av - o_price a * f)"
      using False Cons.prems(1) by (simp add: buy_plan.simps(2) Let_def f_def)
    have "f * o_price a \<le> av"
      using price le_div_iff_mult_le [of "o_price a" f av] quot by (simp add: f_def)
    then have av': "0 \<le> av - o_price a * f" by (simp add: mult.commute)
    consider "f = o_remaining a" | "f = n" | "f = av div o_price a" using quot unfolding f_def by linarith
    then show ?thesis
    proof cases
      case 1
      then show ?thesis unfolding plan
        using Cons.IH [OF Cons.prems(1) _ _ av', of "n - f"] Cons.prems full_then_one_Cons by simp
    next
      case 2
      have "buy_plan r as 0 w = []" for w by (cases as) (simp_all add: buy_plan.simps(2))
      with 2 show ?thesis unfolding plan by (simp add: full_then_one_single)
    next
      case 3
      then have "av - o_price a * f = av mod o_price a" by (simp add: minus_mult_div_eq_mod)
      then have "av - o_price a * f < o_price a" using price by simp
      then have "buy_plan r as (n - f) (av - o_price a * f) = []"
        using Cons.prems av' by (intro buy_plan_broke) auto
      then show ?thesis unfolding plan by (simp add: full_then_one_single)
    qed
  qed
qed

lemma full_then_one_before:
  assumes "full_then_one as p" and "sorted (map k as)" and "(a, f) \<in> set p" and "y \<in> set as"
    and "k y < k a"
  shows "(y, o_remaining y) \<in> set p"
proof -
  from assms(1) obtain pre rest where as: "as = pre @ rest" and
    p: "p = map (\<lambda>a. (a, o_remaining a)) pre \<or>
     (\<exists>a f rest'. rest = a # rest' \<and> p = map (\<lambda>a. (a, o_remaining a)) pre @ [(a, f)])"
    unfolding full_then_one_def by blast
  have "y \<in> set pre"
  proof (rule ccontr)
    assume "y \<notin> set pre"
    with assms(4) as have y: "y \<in> set rest" by simp
    from p assms(3) consider "a \<in> set pre" | rest' where "rest = a # rest'" by auto
    then have "k a \<le> k y"
      using assms(2) y by cases (auto simp: as sorted_append)
    with assms(5) show False by simp
  qed
  with p show ?thesis by auto
qed

section \<open>The loops execute their plans\<close>

text \<open>The tables that matching does not touch.\<close>

definition trade_frame :: "db \<Rightarrow> db \<Rightarrow> bool" where
  "trade_frame s s' \<longleftrightarrow> books s' = books s \<and> markets s' = markets s \<and> bindings s' = bindings s \<and>
    claims s' = claims s \<and> escrows s' = escrows s \<and> transfers s' = transfers s \<and>
    listings s' = listings s \<and> frame_bindings s' = frame_bindings s \<and> db_now s' = db_now s \<and>
    set (map a_uuid (accounts s)) \<subseteq> set (map a_uuid (accounts s'))"

lemma trade_frame_refl [simp]: "trade_frame s s"
  by (simp add: trade_frame_def)

lemma trade_frame_trans: "trade_frame s s1 \<Longrightarrow> trade_frame s1 s2 \<Longrightarrow> trade_frame s s2"
  by (auto simp: trade_frame_def)

lemma money_only_trade_frame: "money_only s s' \<Longrightarrow> trade_frame s s'"
  by (simp add: money_only_def trade_frame_def)

definition trade_delivery :: "string \<Rightarrow> Id \<Rightarrow> string \<times> Id \<times> int \<Rightarrow> delivery_row" where
  "trade_delivery reason i = (\<lambda>(u, mkt, qty). \<lparr>d_id = i, d_player = u, d_market = mkt,
     d_quantity = qty, d_claimed = 0, d_reserved = 0, d_reason = reason\<rparr>)"

definition mk_trade :: "Id \<Rightarrow> Id \<times> Id \<times> Id \<times> string \<times> string \<times> Cents \<times> int \<Rightarrow> trade_row" where
  "mk_trade i = (\<lambda>(mkt, buy, sell, buyer, seller, price, qty). \<lparr>t_id = i, t_market = mkt,
     t_buy = buy, t_sell = sell, t_buyer = buyer, t_seller = seller, t_price = price,
     t_quantity = qty\<rparr>)"

definition buy_trades :: "OrderRequest \<Rightarrow> Id \<Rightarrow> plan \<Rightarrow>
    (Id \<times> Id \<times> Id \<times> string \<times> string \<times> Cents \<times> int) list" where
  "buy_trades r oid p = map (\<lambda>(a, f).
     (rq_market r, oid, o_id a, rq_uuid r, o_player a, o_price a, f)) p"

definition sell_trades :: "OrderRequest \<Rightarrow> Id \<Rightarrow> plan \<Rightarrow>
    (Id \<times> Id \<times> Id \<times> string \<times> string \<times> Cents \<times> int) list" where
  "sell_trades r oid p = map (\<lambda>(b, f).
     (rq_market r, o_id b, oid, o_player b, rq_uuid r, o_price b, f)) p"

lemma addDelivery_Inr:
  "addDelivery u mkt q reason s = (Inr x, s') \<longleftrightarrow>
    s' = (if q \<le> 0 then s else s\<lparr>deliveries :=
      add_rows d_id (trade_delivery reason) (deliveries s) [(u, mkt, q)]\<rparr>)"
  by (auto simp: addDelivery_def svc_simps add_rows_Cons trade_delivery_def)

lemma fill_ask_effect:
  assumes ok: "money_ok s" and run: "fill_ask r oid a f s = (Inr c, s')" and f: "0 < f"
  shows "c = o_price a * f" "money_ok s'" "total_balance s' = total_balance s + o_price a * f"
    "balance_of s' = (balance_of s)(o_player a := balance_of s (o_player a) + o_price a * f)"
    "orders s' = upd_where (\<lambda>x. o_id x = o_id a) (set_fill (o_remaining a - f)
        (if o_remaining a - f = 0 then OrderFilled else OrderPartial)) (orders s)"
    "deliveries s' = add_rows d_id (trade_delivery ''TRADE_BUY'') (deliveries s)
        [(rq_uuid r, rq_market r, f)]"
    "trades s' = add_rows t_id mk_trade (trades s) (buy_trades r oid [(a, f)])"
    "trade_frame s s'"
proof -
  let ?s1 = "s\<lparr>orders := upd_where (\<lambda>x. o_id x = o_id a) (set_fill (o_remaining a - f)
        (if o_remaining a - f = 0 then OrderFilled else OrderPartial)) (orders s)\<rparr>"
  from run obtain s2 where c: "c = o_price a * f"
    and cr: "credit (o_player a) c ''TRADE_PROCEEDS'' ''ORDER'' (Some (o_id a)) ?s1 = (Inr (), s2)"
    and s': "s' = s2\<lparr>deliveries := add_rows d_id (trade_delivery ''TRADE_BUY'') (deliveries s2)
        [(rq_uuid r, rq_market r, f)],
      trades := add_rows t_id mk_trade (trades s2) (buy_trades r oid [(a, f)])\<rparr>"
    using f by (auto simp: fill_ask_def updateOrder_def insertTrade_def svc_simps checkedProduct_iff
        addDelivery_Inr add_rows_Cons mk_trade_def buy_trades_def)
  note C = credit_effect [OF _ cr] and M = money_onlyD [OF credit_effect(3) [OF _ cr]]
  show "c = o_price a * f" by (rule c)
  show "money_ok s'" "total_balance s' = total_balance s + o_price a * f"
    "balance_of s' = (balance_of s)(o_player a := balance_of s (o_player a) + o_price a * f)"
    "orders s' = upd_where (\<lambda>x. o_id x = o_id a) (set_fill (o_remaining a - f)
        (if o_remaining a - f = 0 then OrderFilled else OrderPartial)) (orders s)"
    "deliveries s' = add_rows d_id (trade_delivery ''TRADE_BUY'') (deliveries s)
        [(rq_uuid r, rq_market r, f)]"
    "trades s' = add_rows t_id mk_trade (trades s) (buy_trades r oid [(a, f)])"
    using C M ok s' c by simp_all
  show "trade_frame s s'" using M ok s' by (simp add: trade_frame_def)
qed

text \<open>Composing one fill with the plan of the rest.\<close>

lemma fill_row_compose:
  assumes "plan_fills p (o_id a) = None" and "\<And>f x. o_id (upd f x) = o_id x"
  shows "map (fill_row upd p) (map (fill_row upd [(a, f)]) os) = map (fill_row upd ((a, f) # p)) os"
proof -
  have "fill_row upd p (fill_row upd [(a, f)] x) = fill_row upd ((a, f) # p) x" for x
    using assms plan_fills_Cons [of a f "[]"] plan_fills_Cons [of a f p]
    by (cases "o_id x = o_id a") (simp_all add: fill_row_def plan_fills_def)
  then show ?thesis by simp
qed

lemma upd_where_fill_row:
  assumes "distinct (map o_id os)" and "a \<in> set os" and "g a = upd f a"
  shows "upd_where (\<lambda>x. o_id x = o_id a) g os = map (fill_row upd [(a, f)]) os"
  unfolding upd_where_def using assms(3) distinct_key_eq [OF assms(1) _ assms(2)]
  by (intro map_cong) (auto simp: fill_row_def plan_fills_def)

lemma map_o_id_fill_row [simp]:
  "map o_id (map (fill_row ask_fill p) os) = map o_id os"
  "map o_id (map (fill_row bid_fill p) os) = map o_id os"
  by (auto simp: fill_row_def split: option.splits)

lemma fill_row_other: "plan_fills p (o_id x) = None \<Longrightarrow> fill_row upd p x = x"
  by (simp add: fill_row_def)

lemma single_fill_keeps_rest:
  assumes "set (a # as) \<subseteq> set os" and "distinct (map o_id (a # as))"
  shows "set as \<subseteq> set (map (fill_row upd [(a, f)]) os)"
proof
  fix x
  assume x: "x \<in> set as"
  with assms have "o_id x \<noteq> o_id a" "x \<in> set os" by (auto simp: image_iff)
  moreover from this have "fill_row upd [(a, f)] x = x" by (simp add: fill_row_def plan_fills_def)
  ultimately show "x \<in> set (map (fill_row upd [(a, f)]) os)" by (metis image_eqI set_map)
qed

text \<open>
  The effect of the buy loop. \<open>plan_pay r p\<close> is what the loop adds to the sum of all balances:
  nothing for a market order, which pays from the buyer's balance, and the reserve that the fills
  free for a limit order.
\<close>

definition plan_pay :: "OrderRequest \<Rightarrow> plan \<Rightarrow> Cents" where
  "plan_pay r p = (if rq_type r = Market then 0 else rq_price r * plan_quantity p)"

text \<open>What the buyer's balance gains from the fills (a refund), or loses (a market purchase).\<close>

definition plan_refund :: "OrderRequest \<Rightarrow> plan \<Rightarrow> Cents" where
  "plan_refund r p =
    (if rq_type r = Market then - plan_value p else rq_price r * plan_quantity p - plan_value p)"

definition buy_effect :: "OrderRequest \<Rightarrow> Id \<Rightarrow> plan \<Rightarrow> db \<Rightarrow> db \<Rightarrow> bool" where
  "buy_effect r oid p s s' \<longleftrightarrow> money_ok s' \<and>
    total_balance s' = total_balance s + plan_pay r p \<and>
    (\<forall>u. balance_of s' u = balance_of s u + plan_value_of u p +
      (if u = rq_uuid r then plan_refund r p else 0)) \<and>
    orders s' = map (fill_row ask_fill p) (orders s) \<and>
    deliveries s' = add_rows d_id (trade_delivery ''TRADE_BUY'') (deliveries s)
      (map (\<lambda>(a, f). (rq_uuid r, rq_market r, f)) p) \<and>
    trades s' = add_rows t_id mk_trade (trades s) (buy_trades r oid p) \<and>
    trade_frame s s'"

lemma buy_effect_Nil: "money_ok s \<Longrightarrow> buy_effect r oid [] s s"
  by (simp add: buy_effect_def plan_pay_def plan_refund_def buy_trades_def)

lemma buy_effect_compose:
  assumes "buy_effect r oid [(a, f)] s s1" and "buy_effect r oid p s1 s'"
    and "plan_fills p (o_id a) = None"
  shows "buy_effect r oid ((a, f) # p) s s'"
proof -
  have "orders s' = map (fill_row ask_fill ((a, f) # p)) (orders s)"
    using assms fill_row_compose [of p a ask_fill f] by (simp add: buy_effect_def)
  moreover have "trades s' = add_rows t_id mk_trade (trades s) (buy_trades r oid ((a, f) # p))"
    using assms(1,2) by (simp add: buy_effect_def buy_trades_def add_rows_step)
  moreover have "deliveries s' = add_rows d_id (trade_delivery ''TRADE_BUY'') (deliveries s)
      (map (\<lambda>(a, f). (rq_uuid r, rq_market r, f)) ((a, f) # p))"
    using assms(1,2) by (simp add: buy_effect_def add_rows_step)
  moreover have "trade_frame s s'" using assms trade_frame_trans by (auto simp: buy_effect_def)
  moreover have "balance_of s' u = balance_of s u + plan_value_of u ((a, f) # p) +
      (if u = rq_uuid r then plan_refund r ((a, f) # p) else 0)" for u
  proof -
    have "balance_of s1 u = balance_of s u + plan_value_of u [(a, f)] +
        (if u = rq_uuid r then plan_refund r [(a, f)] else 0)"
      and "balance_of s' u = balance_of s1 u + plan_value_of u p +
        (if u = rq_uuid r then plan_refund r p else 0)"
      using assms(1,2) unfolding buy_effect_def by blast+
    then show ?thesis by (simp add: plan_refund_def distrib_left)
  qed
  moreover have "total_balance s' = total_balance s + plan_pay r ((a, f) # p)"
    using assms(1,2) unfolding buy_effect_def plan_pay_def by (auto simp: distrib_left)
  moreover have "money_ok s'" using assms(2) by (simp add: buy_effect_def)
  ultimately show ?thesis unfolding buy_effect_def by blast
qed

text \<open>One iteration for a market order and for a limit order.\<close>

lemma buy_step_market:
  assumes ok: "money_ok s" and mk: "rq_type r = Market" and f: "0 < f"
    and row: "distinct (map o_id (orders s))" "a \<in> set (orders s)"
    and d: "debit (rq_uuid r) (o_price a * f) ''MARKET_BUY_TRADE'' ''ORDER'' (Some oid) s = (Inr (), s1)"
    and fa: "fill_ask r oid a f s1 = (Inr c, s2)"
  shows "buy_effect r oid [(a, f)] s s2 \<and> c = o_price a * f"
proof -
  note D = debit_effect [OF ok d] and M = money_onlyD [OF debit_effect(4) [OF ok d]]
  note F = fill_ask_effect [OF D(3) fa f]
  have "orders s2 = map (fill_row ask_fill [(a, f)]) (orders s)"
    using F(5) M(3) upd_where_fill_row [OF row, of _ ask_fill f] by (simp add: ask_fill_def)
  then show ?thesis
    using D F M mk trade_frame_trans [OF money_only_trade_frame [OF D(4)] F(8)]
    by (simp add: buy_effect_def plan_pay_def plan_refund_def)
qed

lemma buy_step_limit:
  assumes ok: "money_ok s" and lim: "rq_type r \<noteq> Market" and f: "0 < f"
    and row: "distinct (map o_id (orders s))" "a \<in> set (orders s)"
    and refund: "refund = (rq_price r - o_price a) * f" "0 \<le> refund"
    and c: "whenS (refund > 0)
      (credit (rq_uuid r) refund ''PRICE_IMPROVEMENT_REFUND'' ''ORDER'' (Some oid)) s = (Inr (), s1)"
    and fa: "fill_ask r oid a f s1 = (Inr cost, s2)"
  shows "buy_effect r oid [(a, f)] s s2 \<and> cost = o_price a * f"
proof -
  have C: "money_ok s1 \<and> money_only s s1 \<and> total_balance s1 = total_balance s + refund \<and>
      balance_of s1 = (balance_of s)(rq_uuid r := balance_of s (rq_uuid r) + refund)"
    using c refund(2) credit_effect [OF ok] ok by (auto simp: svc_simps split: if_splits)
  note M = money_onlyD [OF conjunct1 [OF conjunct2 [OF C]]]
  note F = fill_ask_effect [OF conjunct1 [OF C] fa f]
  have "orders s2 = map (fill_row ask_fill [(a, f)]) (orders s)"
    using F(5) M(3) upd_where_fill_row [OF row, of _ ask_fill f] by (simp add: ask_fill_def)
  moreover have "trade_frame s s2"
    using C F(8) money_only_trade_frame trade_frame_trans by blast
  ultimately show ?thesis
    using C F M lim refund
    by (simp add: buy_effect_def plan_pay_def plan_refund_def algebra_simps)
qed

text \<open>
  The first row of a loop that returned: either the loop stops there, and so does the plan, or
  it executes the plan's first fill and goes on with the rest.
\<close>

definition buy_proceeds :: "OrderRequest \<Rightarrow> Id \<Rightarrow> order_row \<Rightarrow> order_row list \<Rightarrow> int \<Rightarrow> int \<Rightarrow> Cents \<Rightarrow>
    Cents \<Rightarrow> db \<Rightarrow> int \<times> int \<times> Cents \<Rightarrow> db \<Rightarrow> bool" where
  "buy_proceeds r oid a as n fl gr av s res s' \<longleftrightarrow> (\<exists>f av' s1.
     buy_plan r (a # as) n av = (a, f) # buy_plan r as (n - f) av' \<and> 0 < f \<and> f \<le> n \<and>
     buy_effect r oid [(a, f)] s s1 \<and>
     buy_loop r oid as (n - f) (fl + f) (gr + o_price a * f) av' s1 = (Inr res, s'))"

lemma buy_loop_Cons_market:
  assumes ok: "money_ok s" and mk: "rq_type r = Market"
    and row: "distinct (map o_id (orders s))" "a \<in> set (orders s)" and n: "n \<noteq> 0"
    and run: "buy_loop r oid (a # as) n fl gr av s = (Inr res, s')"
  shows "(buy_plan r (a # as) n av = [] \<and> res = (n, fl, gr) \<and> s' = s) \<or>
    buy_proceeds r oid a as n fl gr av s res s'"
proof -
  define f where "f = min (min n (o_remaining a)) (av sdiv o_price a)"
  show ?thesis
  proof (cases "f \<le> 0")
    case True
    then show ?thesis using run n mk
      by (simp add: svc_simps buy_plan.simps(2) f_def Let_def)
  next
    case False
    with run n mk obtain s1 s2 c where
      d: "debit (rq_uuid r) (o_price a * f) ''MARKET_BUY_TRADE'' ''ORDER'' (Some oid) s = (Inr (), s1)"
      and fa: "fill_ask r oid a f s1 = (Inr c, s2)"
      and rest: "buy_loop r oid as (n - f) (fl + f) (gr + c) (av - o_price a * f) s2 = (Inr res, s')"
      by (auto simp: svc_simps checkedProduct_iff Let_def f_def)
    have "buy_effect r oid [(a, f)] s s2 \<and> c = o_price a * f"
      by (rule buy_step_market [OF ok mk _ row d fa]) (use False in simp)
    moreover have "buy_plan r (a # as) n av = (a, f) # buy_plan r as (n - f) (av - o_price a * f)"
      using False n mk by (simp add: buy_plan.simps(2) f_def Let_def)
    ultimately show ?thesis
      using rest False unfolding buy_proceeds_def by (auto simp: f_def)
  qed
qed

lemma buy_loop_Cons_limit:
  assumes ok: "money_ok s" and lim: "rq_type r \<noteq> Market"
    and row: "distinct (map o_id (orders s))" "a \<in> set (orders s)"
    and n: "0 < n" "0 < o_remaining a"
    and run: "buy_loop r oid (a # as) n fl gr av s = (Inr res, s')"
  shows "buy_proceeds r oid a as n fl gr av s res s'"
proof -
  define f where "f = min n (o_remaining a)"
  have f: "0 < f" "f \<le> n" using n by (simp_all add: f_def)
  from run n lim obtain refund s1 s2 c where
    refund: "refund = (rq_price r - o_price a) * f" "0 \<le> refund"
    and w: "whenS (refund > 0)
      (credit (rq_uuid r) refund ''PRICE_IMPROVEMENT_REFUND'' ''ORDER'' (Some oid)) s = (Inr (), s1)"
    and fa: "fill_ask r oid a f s1 = (Inr c, s2)"
    and rest: "buy_loop r oid as (n - f) (fl + f) (gr + c) (av + refund) s2 = (Inr res, s')"
    by (auto simp: bindS_Inr liftS_Inr checkedProduct_iff Let_def f_def)
  have "buy_effect r oid [(a, f)] s s2 \<and> c = o_price a * f"
    by (rule buy_step_limit [OF ok lim f(1) row refund w fa])
  moreover have "buy_plan r (a # as) n av = (a, f) # buy_plan r as (n - f) (av + refund)"
    using n lim by (simp add: buy_plan.simps(2) f_def Let_def buy_plan_limit)
  ultimately show ?thesis using rest f unfolding buy_proceeds_def by blast
qed

lemma buy_loop_Cons:
  assumes "money_ok s" and "distinct (map o_id (orders s))" and "a \<in> set (orders s)"
    and "0 \<le> n" and "0 < o_remaining a"
    and "buy_loop r oid (a # as) n fl gr av s = (Inr res, s')"
  shows "(buy_plan r (a # as) n av = [] \<and> res = (n, fl, gr) \<and> s' = s) \<or>
    buy_proceeds r oid a as n fl gr av s res s'"
proof (cases "n = 0")
  case True
  with assms(6) show ?thesis by (simp add: svc_simps buy_plan.simps(2))
next
  case n: False
  show ?thesis
  proof (cases "rq_type r = Market")
    case True
    show ?thesis by (rule buy_loop_Cons_market [OF assms(1) True assms(2,3) n assms(6)])
  next
    case False
    from n assms(4) have "0 < n" by simp
    from buy_loop_Cons_limit [OF assms(1) False assms(2,3) this assms(5,6)] show ?thesis ..
  qed
qed

theorem buy_loop_effect:
  assumes "money_ok s" and "distinct (map o_id (orders s))" and "set as \<subseteq> set (orders s)"
    and "distinct (map o_id as)" and "\<forall>a \<in> set as. 0 < o_remaining a" and "0 \<le> n"
    and "buy_loop r oid as n fl gr av s = (Inr (n', fl', gr'), s')"
  shows "n' = n - plan_quantity (buy_plan r as n av) \<and>
    fl' = fl + plan_quantity (buy_plan r as n av) \<and> gr' = gr + plan_value (buy_plan r as n av) \<and>
    buy_effect r oid (buy_plan r as n av) s s'"
  using assms
proof (induction as arbitrary: n fl gr av s)
  case Nil
  then show ?case by (simp add: svc_simps buy_effect_Nil)
next
  case (Cons a as)
  from Cons.prems have "a \<in> set (orders s)" "0 < o_remaining a" by auto
  from buy_loop_Cons [OF Cons.prems(1,2) this(1) Cons.prems(6) this(2) Cons.prems(7)]
  show ?case
  proof
    assume "buy_plan r (a # as) n av = [] \<and> (n', fl', gr') = (n, fl, gr) \<and> s' = s"
    then show ?case using Cons.prems(1) by (simp add: buy_effect_Nil)
  next
    assume "buy_proceeds r oid a as n fl gr av s (n', fl', gr') s'"
    then obtain f av' s1 where
      plan: "buy_plan r (a # as) n av = (a, f) # buy_plan r as (n - f) av'"
      and f: "0 < f" "f \<le> n" and eff: "buy_effect r oid [(a, f)] s s1"
      and run: "buy_loop r oid as (n - f) (fl + f) (gr + o_price a * f) av' s1 =
        (Inr (n', fl', gr'), s')"
      unfolding buy_proceeds_def by blast
    have os: "orders s1 = map (fill_row ask_fill [(a, f)]) (orders s)" and "money_ok s1"
      using eff by (simp_all add: buy_effect_def)
    have sub: "set as \<subseteq> set (orders s1)"
      unfolding os by (rule single_fill_keeps_rest) (use Cons.prems in auto)
    have dist: "distinct (map o_id (orders s1))"
      unfolding os using Cons.prems(2) by (simp del: map_map)
    have none: "plan_fills (buy_plan r as (n - f) av') (o_id a) = None"
      unfolding plan_fills_None by (rule buy_plan_ids) (use Cons.prems(4) in auto)
    show ?case
      using Cons.IH [OF \<open>money_ok s1\<close> dist sub _ _ _ run] Cons.prems(4,5) f(2)
        buy_effect_compose [OF eff _ none] by (simp add: plan)
  qed
qed


subsection \<open>The sell loop\<close>

definition sell_effect :: "OrderRequest \<Rightarrow> Id \<Rightarrow> plan \<Rightarrow> db \<Rightarrow> db \<Rightarrow> bool" where
  "sell_effect r oid p s s' \<longleftrightarrow> money_ok s' \<and>
    total_balance s' = total_balance s + plan_value p \<and>
    (\<forall>u. balance_of s' u = balance_of s u + (if u = rq_uuid r then plan_value p else 0)) \<and>
    orders s' = map (fill_row bid_fill p) (orders s) \<and>
    deliveries s' = add_rows d_id (trade_delivery ''TRADE_BUY'') (deliveries s)
      (map (\<lambda>(b, f). (o_player b, rq_market r, f)) p) \<and>
    trades s' = add_rows t_id mk_trade (trades s) (sell_trades r oid p) \<and>
    trade_frame s s'"

lemma sell_effect_Nil: "money_ok s \<Longrightarrow> sell_effect r oid [] s s"
  by (simp add: sell_effect_def sell_trades_def)

lemma sell_effect_compose:
  assumes "sell_effect r oid [(b, f)] s s1" and "sell_effect r oid p s1 s'"
    and "plan_fills p (o_id b) = None"
  shows "sell_effect r oid ((b, f) # p) s s'"
proof -
  have "orders s' = map (fill_row bid_fill ((b, f) # p)) (orders s)"
    using assms fill_row_compose [of p b bid_fill f] by (simp add: sell_effect_def)
  moreover have "trades s' = add_rows t_id mk_trade (trades s) (sell_trades r oid ((b, f) # p))"
    using assms(1,2) by (simp add: sell_effect_def sell_trades_def add_rows_step)
  moreover have "deliveries s' = add_rows d_id (trade_delivery ''TRADE_BUY'') (deliveries s)
      (map (\<lambda>(b, f). (o_player b, rq_market r, f)) ((b, f) # p))"
    using assms(1,2) by (simp add: sell_effect_def add_rows_step)
  moreover have "trade_frame s s'" using assms trade_frame_trans by (auto simp: sell_effect_def)
  moreover have "balance_of s' u = balance_of s u + (if u = rq_uuid r then plan_value ((b, f) # p) else 0)" for u
  proof -
    have "balance_of s1 u = balance_of s u + (if u = rq_uuid r then plan_value [(b, f)] else 0)"
      and "balance_of s' u = balance_of s1 u + (if u = rq_uuid r then plan_value p else 0)"
      using assms(1,2) unfolding sell_effect_def by blast+
    then show ?thesis by simp
  qed
  moreover have "total_balance s' = total_balance s + plan_value ((b, f) # p)"
    using assms(1,2) unfolding sell_effect_def by simp
  moreover have "money_ok s'" using assms(2) by (simp add: sell_effect_def)
  ultimately show ?thesis unfolding sell_effect_def by blast
qed

lemma fill_bid_effect:
  assumes ok: "money_ok s" and run: "fill_bid r oid b f s = (Inr c, s')" and f: "0 < f"
    and row: "distinct (map o_id (orders s))" "b \<in> set (orders s)"
  shows "c = o_price b * f \<and> o_price b * f \<le> o_reserved b \<and> sell_effect r oid [(b, f)] s s'"
proof -
  let ?s1 = "s\<lparr>orders := upd_where (\<lambda>x. o_id x = o_id b)
        (set_fill_reserved (o_remaining b - f) (o_reserved b - o_price b * f)
        (if o_remaining b - f = 0 then OrderFilled else OrderPartial)) (orders s)\<rparr>"
  from run obtain s2 where c: "c = o_price b * f" and res: "o_price b * f \<le> o_reserved b"
    and cr: "credit (rq_uuid r) c ''TRADE_PROCEEDS'' ''ORDER'' (Some oid) ?s1 = (Inr (), s2)"
    and s': "s' = s2\<lparr>deliveries := add_rows d_id (trade_delivery ''TRADE_BUY'') (deliveries s2)
        [(o_player b, rq_market r, f)],
      trades := add_rows t_id mk_trade (trades s2) (sell_trades r oid [(b, f)])\<rparr>"
    using f by (auto simp: fill_bid_def updateOrder_def insertTrade_def svc_simps checkedProduct_iff
        addDelivery_Inr add_rows_Cons mk_trade_def sell_trades_def)
  have ok1: "money_ok ?s1" using ok by simp
  note C = credit_effect [OF ok1 cr] and M = money_onlyD [OF credit_effect(3) [OF ok1 cr]]
  have "orders s' = map (fill_row bid_fill [(b, f)]) (orders s)"
    using M(3) s' upd_where_fill_row [OF row, of _ bid_fill f] by (simp add: bid_fill_def)
  moreover have "trade_frame s s'" using M s' by (simp add: trade_frame_def)
  ultimately show ?thesis using C M c res s' by (simp add: sell_effect_def)
qed

theorem sell_loop_effect:
  assumes "money_ok s" and "distinct (map o_id (orders s))" and "set bs \<subseteq> set (orders s)"
    and "distinct (map o_id bs)" and "\<forall>b \<in> set bs. 0 < o_remaining b" and "0 \<le> n"
    and "sell_loop r oid bs n fl gr s = (Inr (n', fl', gr'), s')"
  shows "n' = n - plan_quantity (sell_plan bs n) \<and>
    fl' = fl + plan_quantity (sell_plan bs n) \<and> gr' = gr + plan_value (sell_plan bs n) \<and>
    sell_effect r oid (sell_plan bs n) s s'"
  using assms
proof (induction bs arbitrary: n fl gr s)
  case Nil
  then show ?case by (simp add: svc_simps sell_effect_Nil)
next
  case (Cons b bs)
  show ?case
  proof (cases "n = 0")
    case True
    with Cons.prems show ?thesis by (simp add: svc_simps sell_effect_Nil)
  next
    case False
    define f where "f = min n (o_remaining b)"
    with False Cons.prems have f: "0 < f" "f \<le> n" by auto
    from Cons.prems(7) False obtain c s1 where fb: "fill_bid r oid b f s = (Inr c, s1)"
      and run: "sell_loop r oid bs (n - f) (fl + f) (gr + c) s1 = (Inr (n', fl', gr'), s')"
      by (auto simp: svc_simps Let_def f_def)
    have "b \<in> set (orders s)" using Cons.prems by simp
    note F = fill_bid_effect [OF Cons.prems(1) fb f(1) Cons.prems(2) this]
    then have eff: "sell_effect r oid [(b, f)] s s1" and c: "c = o_price b * f" by simp_all
    have os: "orders s1 = map (fill_row bid_fill [(b, f)]) (orders s)" and "money_ok s1"
      using eff by (simp_all add: sell_effect_def)
    have sub: "set bs \<subseteq> set (orders s1)"
      unfolding os by (rule single_fill_keeps_rest) (use Cons.prems in auto)
    have dist: "distinct (map o_id (orders s1))"
      unfolding os using Cons.prems(2) by (simp del: map_map)
    have none: "plan_fills (sell_plan bs (n - f)) (o_id b) = None"
      unfolding plan_fills_None by (rule sell_plan_ids) (use Cons.prems(4) in auto)
    show ?thesis
      using Cons.IH [OF \<open>money_ok s1\<close> dist sub _ _ _ run] Cons.prems(4,5) f(2)
        sell_effect_compose [OF eff _ none] False by (simp add: c f_def [symmetric])
  qed
qed

end
