(* ===== verification/Placement.thy ===== *)
theory Placement
  imports Matching
begin

text \<open>
  What an accepted order does to the database, in closed form: \<open>placeBuy_effect\<close> and
  \<open>placeSellLocked_effect\<close> give every table after the call from the tables before it and the
  plan of the order; \<open>cancelOrder_effect\<close> does it for a cancellation. The well-formedness of
  the order table, \<open>orders_ok\<close>, is what they need of the state.
\<close>

section \<open>Well-formed orders\<close>

text \<open>
  The \<open>CHECK\<close> constraints of \<open>exchange_orders\<close>, and what the engine adds to them: only a
  resting order holds a remainder or a reserve, and a resting buy order's reserve is exactly the
  price of what it still wants.
\<close>

definition order_ok :: "order_row \<Rightarrow> bool" where
  "order_ok x \<longleftrightarrow> 0 < o_original x \<and> o_original x \<le> int32_max \<and>
    0 \<le> o_remaining x \<and> o_remaining x \<le> o_original x \<and>
    (o_type x = Limit \<longrightarrow> 0 < o_price x) \<and>
    (resting x \<longleftrightarrow> 0 < o_remaining x) \<and>
    o_reserved x = (if o_side x = Buy then o_price x * o_remaining x else 0)"

text \<open>The foreign keys of an order.\<close>

definition order_refs :: "db \<Rightarrow> order_row \<Rightarrow> bool" where
  "order_refs s x \<longleftrightarrow> account_of s (o_player x) \<noteq> None \<and> market_of s (o_market x) \<noteq> None"

definition orders_ok :: "db \<Rightarrow> bool" where
  "orders_ok s \<longleftrightarrow> distinct (map o_id (orders s)) \<and>
    (\<forall>x \<in> set (orders s). order_ok x \<and> order_refs s x)"

lemma orders_okD:
  assumes "orders_ok s"
  shows "distinct (map o_id (orders s))"
    and "x \<in> set (orders s) \<Longrightarrow> order_ok x"
    and "x \<in> set (orders s) \<Longrightarrow> order_refs s x"
  using assms by (simp_all add: orders_ok_def)

lemma resting_remaining: "order_ok x \<Longrightarrow> resting x \<Longrightarrow> 0 < o_remaining x"
  by (simp add: order_ok_def)

section \<open>The rows the loops are given\<close>

lemma matching_asks_set:
  "x \<in> set (matching_asks s b r) \<longleftrightarrow> x \<in> set (orders s) \<and> on_book s b (o_market x) \<and>
    o_side x = Sell \<and> resting x \<and> o_player x \<noteq> rq_uuid r \<and>
    (rq_type r = Limit \<longrightarrow> o_price x \<le> rq_price r)"
  by (auto simp: matching_asks_def opposite_def resting_def)

lemma matching_bids_set:
  "x \<in> set (matching_bids s b r) \<longleftrightarrow> x \<in> set (orders s) \<and> on_book s b (o_market x) \<and>
    o_side x = Buy \<and> resting x \<and> o_player x \<noteq> rq_uuid r \<and>
    (rq_type r = Limit \<longrightarrow> rq_price r \<le> o_price x)"
  by (auto simp: matching_bids_def opposite_def resting_def)

lemma distinct_sort_filter: "distinct (map key xs) \<Longrightarrow> distinct (map key (sort_key k (filter P xs)))"
  by (auto simp: distinct_map intro: inj_on_subset)

lemma matching_distinct:
  assumes "distinct (map o_id (orders s))"
  shows "distinct (map o_id (matching_asks s b r))" "distinct (map o_id (matching_bids s b r))"
  using assms unfolding matching_asks_def matching_bids_def opposite_def filter_filter
  by (rule distinct_sort_filter)+

lemma matching_append_own:
  assumes "o_player x = rq_uuid r" and "orders s' = orders s @ [x]" and "markets s' = markets s"
  shows "matching_asks s' b r = matching_asks s b r" "matching_bids s' b r = matching_bids s b r"
  using assms on_book_cong [OF assms(3)]
  by (simp_all add: matching_asks_def matching_bids_def opposite_def)

lemma matching_cong:
  assumes "orders s' = orders s" and "markets s' = markets s"
  shows "matching_asks s' b r = matching_asks s b r" "matching_bids s' b r = matching_bids s b r"
  using assms on_book_cong [OF assms(2)]
  by (simp_all add: matching_asks_def matching_bids_def opposite_def)

lemma matching_positive:
  assumes "orders_ok s"
  shows "\<forall>x \<in> set (matching_asks s b r). 0 < o_remaining x"
    "\<forall>x \<in> set (matching_bids s b r). 0 < o_remaining x"
  using assms resting_remaining orders_okD(2)
  by (auto simp: matching_asks_set matching_bids_set)

lemma trade_frame_orders [simp]:
  "trade_frame (s\<lparr>orders := os\<rparr>) s' = trade_frame s s'"
  "trade_frame s (s'\<lparr>orders := os\<rparr>) = trade_frame s s'"
  "trade_frame s (s'\<lparr>deliveries := ds\<rparr>) = trade_frame s s'"
  by (simp_all add: trade_frame_def)

section \<open>The new row\<close>

lemma lockActiveBook_Inr:
  "lockActiveBook mkt s = (Inr b, s') \<longleftrightarrow> s' = s \<and>
    (\<exists>m. market_of s mkt = Some m \<and> mk_active m \<and> mk_book m = b \<and> book_of s b \<noteq> None)"
  by (auto simp: lockActiveBook_def svc_simps split: option.splits)

lemma insertOrder_Inr:
  "insertOrder r side res s = (Inr i, s') \<longleftrightarrow> i = fresh_id o_id (orders s) \<and>
    s' = s\<lparr>orders := orders s @ [new_order i r side res]\<rparr>"
  by (auto simp: insertOrder_def svc_simps)

lemma new_order_fields [simp]:
  "o_id (new_order i r sd res) = i" "o_market (new_order i r sd res) = rq_market r"
  "o_player (new_order i r sd res) = rq_uuid r" "o_side (new_order i r sd res) = sd"
  "o_type (new_order i r sd res) = rq_type r"
  "o_price (new_order i r sd res) = (if rq_type r = Limit then rq_price r else 0)"
  "o_original (new_order i r sd res) = rq_quantity r"
  "o_remaining (new_order i r sd res) = rq_quantity r"
  "o_reserved (new_order i r sd res) = res" "o_status (new_order i r sd res) = OrderOpen"
  by (simp_all add: new_order_def)

lemma set_fill_fields [simp]:
  "o_id (set_fill_reserved n v st x) = o_id x" "o_id (set_fill n st x) = o_id x"
  "o_market (set_fill_reserved n v st x) = o_market x" "o_market (set_fill n st x) = o_market x"
  "o_player (set_fill_reserved n v st x) = o_player x" "o_player (set_fill n st x) = o_player x"
  "o_side (set_fill_reserved n v st x) = o_side x" "o_side (set_fill n st x) = o_side x"
  "o_type (set_fill_reserved n v st x) = o_type x" "o_type (set_fill n st x) = o_type x"
  "o_price (set_fill_reserved n v st x) = o_price x" "o_price (set_fill n st x) = o_price x"
  "o_original (set_fill_reserved n v st x) = o_original x" "o_original (set_fill n st x) = o_original x"
  "o_remaining (set_fill_reserved n v st x) = n" "o_remaining (set_fill n st x) = n"
  "o_reserved (set_fill_reserved n v st x) = v" "o_reserved (set_fill n st x) = o_reserved x"
  "o_status (set_fill_reserved n v st x) = st" "o_status (set_fill n st x) = st"
  by (simp_all add: set_fill_reserved_def set_fill_def)

interpretation order_fill: keyed_update o_id "set_fill n st" for n st
  by unfold_locales simp

interpretation order_fill_reserved: keyed_update o_id "set_fill_reserved n v st" for n v st
  by unfold_locales simp

text \<open>The taker's own row after the loop.\<close>

definition taker_row :: "OrderRequest \<Rightarrow> Side \<Rightarrow> Id \<Rightarrow> int \<Rightarrow> order_row" where
  "taker_row r side i filled = (let n = rq_quantity r - filled in
     set_fill_reserved (if rq_type r = Limit then n else 0)
       (if rq_type r = Limit \<and> side = Buy then rq_price r * n else 0)
       (if rq_type r = Market then marketStatus filled (rq_quantity r) else orderStatus n filled)
       (new_order i r side 0))"

lemma taker_row_fields [simp]:
  "o_id (taker_row r sd i k) = i" "o_market (taker_row r sd i k) = rq_market r"
  "o_player (taker_row r sd i k) = rq_uuid r" "o_side (taker_row r sd i k) = sd"
  "o_type (taker_row r sd i k) = rq_type r"
  "o_price (taker_row r sd i k) = (if rq_type r = Limit then rq_price r else 0)"
  "o_original (taker_row r sd i k) = rq_quantity r"
  "o_remaining (taker_row r sd i k) = (if rq_type r = Limit then rq_quantity r - k else 0)"
  "o_reserved (taker_row r sd i k) =
    (if rq_type r = Limit \<and> sd = Buy then rq_price r * (rq_quantity r - k) else 0)"
  "o_status (taker_row r sd i k) = (if rq_type r = Market then marketStatus k (rq_quantity r)
     else orderStatus (rq_quantity r - k) k)"
  by (simp_all add: taker_row_def Let_def)

lemma upd_last_row:
  assumes "map o_id xs = map o_id ys" and "i = fresh_id o_id ys" and "o_id x = i"
  shows "upd_where (\<lambda>y. o_id y = i) g (xs @ [x]) = xs @ [g x]"
proof -
  have "set (map o_id xs) = set (map o_id ys)" using assms(1) by simp
  then have "i \<notin> o_id ` set xs" using assms(2) by simp
  then have "upd_where (\<lambda>y. o_id y = i) g xs = xs" by (intro upd_where_no_match) auto
  with assms(3) show ?thesis by simp
qed

lemma fill_rows_append_fresh:
  assumes "plan_for p (orders s)" and "o_id x = fresh_id o_id (orders s)"
  shows "map (fill_row upd p) (orders s @ [x]) = map (fill_row upd p) (orders s) @ [x]"
proof -
  have "plan_fills p (o_id x) = None"
    unfolding plan_fills_None
  proof
    assume "o_id x \<in> (o_id \<circ> fst) ` set p"
    then obtain af where "af \<in> set p" "o_id x = o_id (fst af)" by auto
    with assms(1) have "o_id x \<in> o_id ` set (orders s)" by (auto simp: plan_for_def)
    with assms(2) show False by simp
  qed
  then show ?thesis by (simp add: fill_row_def)
qed


section \<open>Placing a buy order\<close>

definition buy_reserve :: "OrderRequest \<Rightarrow> Cents" where
  "buy_reserve r = (if rq_type r = Limit then rq_price r * rq_quantity r else 0)"

text \<open>The plan of a buy order: the asks it is offered, and the balance it may spend.\<close>

definition buy_plan_of :: "db \<Rightarrow> Id \<Rightarrow> OrderRequest \<Rightarrow> plan" where
  "buy_plan_of s b r = buy_plan r (matching_asks s b r) (rq_quantity r)
     (balance_of s (rq_uuid r) - buy_reserve r)"

definition bought :: "OrderRequest \<Rightarrow> plan \<Rightarrow> db \<Rightarrow> db \<Rightarrow> ExecutionResult \<Rightarrow> bool" where
  "bought r p s s' res \<longleftrightarrow> (let i = fresh_id o_id (orders s); k = plan_quantity p; u = rq_uuid r in
     money_ok s' \<and> trade_frame s s' \<and>
     (\<forall>v. balance_of s' v = balance_of s v + plan_value_of v p +
       (if v = u then plan_refund r p - buy_reserve r else 0)) \<and>
     total_balance s' = total_balance s + plan_pay r p - buy_reserve r \<and>
     orders s' = map (fill_row ask_fill p) (orders s) @ [taker_row r Buy i k] \<and>
     deliveries s' = add_rows d_id (trade_delivery ''TRADE_BUY'') (deliveries s)
       (map (\<lambda>(a, f). (u, rq_market r, f)) p) \<and>
     trades s' = add_rows t_id mk_trade (trades s) (buy_trades r i p) \<and>
     res = \<lparr>ex_order = i, ex_requested = rq_quantity r, ex_filled = k,
       ex_open = (if rq_type r = Limit then rq_quantity r - k else 0), ex_gross = plan_value p,
       ex_balance = balance_of s' u\<rparr>)"

lemma reserve_step:
  assumes ok: "money_ok s"
    and run: "whenS (v > 0) (debit u v rs rt ri) s = (Inr (), s')" and v: "0 \<le> v"
  shows "money_ok s' \<and> money_only s s' \<and> balance_of s' = (balance_of s)(u := balance_of s u - v) \<and>
    total_balance s' = total_balance s - v"
  using run v ok debit_effect [OF ok] by (auto simp: svc_simps split: if_splits)

lemma taker_row_update_buy:
  "set_fill_reserved (if rq_type r = Limit then rq_quantity r - k else 0)
     (if rq_type r = Limit then rq_price r * (rq_quantity r - k) else 0)
     (if rq_type r = Market then marketStatus k (rq_quantity r)
      else orderStatus (rq_quantity r - k) k) (new_order i r Buy res) = taker_row r Buy i k"
  by (simp add: taker_row_def Let_def new_order_def set_fill_reserved_def)

lemma taker_row_update_sell:
  "set_fill (if rq_type r = Limit then rq_quantity r - k else 0)
     (if rq_type r = Market then marketStatus k (rq_quantity r)
      else orderStatus (rq_quantity r - k) k) (new_order i r Sell 0) = taker_row r Sell i k"
  by (simp add: taker_row_def Let_def new_order_def set_fill_reserved_def set_fill_def)

lemma OrderType_cases: "t \<noteq> Limit \<longleftrightarrow> t = Market" "t \<noteq> Market \<longleftrightarrow> t = Limit"
  by (cases t; simp)+

lemma reserve_choice:
  assumes "(if rq_type r = Limit
     then bindS (liftS (checkedProduct (rq_price r) (rq_quantity r))) (\<lambda>v.
          bindS (throwIf (available < v) insufficient_balance) (\<lambda>_. returnS v))
     else returnS 0) s = (Inr v, s')"
  shows "s' = s \<and> v = buy_reserve r \<and> 0 \<le> v \<and> (rq_type r = Limit \<longrightarrow> v \<le> available)"
  using assms by (auto simp: svc_simps checkedProduct_iff buy_reserve_def split: if_splits)

lemma final_reserve:
  assumes "(if rq_type r = Limit then liftS (checkedProduct (rq_price r) n) else returnS 0) s =
    (Inr v, s')"
  shows "s' = s \<and> v = (if rq_type r = Limit then rq_price r * n else 0)"
  using assms by (auto simp: svc_simps checkedProduct_iff split: if_splits)

lemma placeBuy_run:
  assumes "placeBuy r s = (Inr res, s')"
  obtains b s1 s2 n k g i where
    "lockActiveBook (rq_market r) s = (Inr b, s)"
    "account_of s (rq_uuid r) \<noteq> None" "i = fresh_id o_id (orders s)"
    "0 \<le> buy_reserve r" "rq_type r = Limit \<longrightarrow> buy_reserve r \<le> balance_of s (rq_uuid r)"
    "whenS (buy_reserve r > 0) (debit (rq_uuid r) (buy_reserve r) ''BUY_ORDER_RESERVE'' ''ORDER''
        (Some i)) (s\<lparr>orders := orders s @ [new_order i r Buy (buy_reserve r)]\<rparr>) = (Inr (), s1)"
    "buy_loop r i (matching_asks s1 b r) (rq_quantity r) 0 0
      (balance_of s (rq_uuid r) - buy_reserve r) s1 = (Inr (n, k, g), s2)"
    "s' = s2\<lparr>orders := upd_where (\<lambda>x. o_id x = i)
      (set_fill_reserved (if rq_type r = Limit then n else 0)
        (if rq_type r = Limit then rq_price r * n else 0)
        (if rq_type r = Market then marketStatus k (rq_quantity r) else orderStatus n k)) (orders s2)\<rparr>"
    "res = \<lparr>ex_order = i, ex_requested = rq_quantity r, ex_filled = k,
      ex_open = (if rq_type r = Limit then n else 0), ex_gross = g,
      ex_balance = balance_of s' (rq_uuid r)\<rparr>"
proof -
  let ?u = "rq_uuid r"
  let ?st = "\<lambda>n k. if rq_type r = Market then marketStatus k (rq_quantity r) else orderStatus n k"
  from assms obtain b v s0 i s3 s1 n k g s2 where
    b: "lockActiveBook (rq_market r) s = (Inr b, s)" and acc: "account_of s ?u \<noteq> None"
    and v: "(if rq_type r = Limit
     then bindS (liftS (checkedProduct (rq_price r) (rq_quantity r))) (\<lambda>v.
          bindS (throwIf (balance_of s ?u < v) insufficient_balance) (\<lambda>_. returnS v))
     else returnS 0) s = (Inr v, s0)"
    and i: "insertOrder r Buy v s0 = (Inr i, s3)"
    and d: "whenS (v > 0) (debit ?u v ''BUY_ORDER_RESERVE'' ''ORDER'' (Some i)) s3 = (Inr (), s1)"
    and l: "buy_loop r i (matching_asks s1 b r) (rq_quantity r) 0 0
      (if v > 0 then balance_of s ?u - v else balance_of s ?u) s1 = (Inr (n, k, g), s2)"
    and rest: "bindS (if rq_type r = Limit then liftS (checkedProduct (rq_price r) n) else returnS 0)
        (\<lambda>current_reserved.
      bindS (updateOrder i (set_fill_reserved (if rq_type r = Limit then n else 0)
        current_reserved (?st n k))) (\<lambda>_.
      bindS (lockedBalance ?u) (\<lambda>final.
      returnS \<lparr>ex_order = i, ex_requested = rq_quantity r, ex_filled = k,
        ex_open = (if rq_type r = Limit then n else 0), ex_gross = g, ex_balance = final\<rparr>))) s2 =
      (Inr res, s')"
    unfolding placeBuy_def transactionS_Inr
    by (elim bindS_InrE) (clarsimp simp only: lockActiveBook_Inr lockedBalance_Inr queryS_Inr prod.case
        split: prod.splits, blast)
  from rest obtain w s4 where
    w: "(if rq_type r = Limit then liftS (checkedProduct (rq_price r) n) else returnS 0) s2 =
      (Inr w, s4)"
    and "bindS (updateOrder i (set_fill_reserved (if rq_type r = Limit then n else 0) w (?st n k)))
      (\<lambda>_. bindS (lockedBalance ?u) (\<lambda>final.
      returnS \<lparr>ex_order = i, ex_requested = rq_quantity r, ex_filled = k,
        ex_open = (if rq_type r = Limit then n else 0), ex_gross = g, ex_balance = final\<rparr>)) s4 =
      (Inr res, s')"
    by (rule bindS_InrE)
  then have s': "s' = s4\<lparr>orders := upd_where (\<lambda>x. o_id x = i)
      (set_fill_reserved (if rq_type r = Limit then n else 0) w (?st n k)) (orders s4)\<rparr>"
    and res: "res = \<lparr>ex_order = i, ex_requested = rq_quantity r, ex_filled = k,
      ex_open = (if rq_type r = Limit then n else 0), ex_gross = g,
      ex_balance = balance_of s' ?u\<rparr>"
    by (auto simp: svc_simps updateOrder_def)
  note V = reserve_choice [OF v] and W = final_reserve [OF w]
  show thesis
  proof (rule that [OF b acc])
    show "i = fresh_id o_id (orders s)" using i V by (simp add: insertOrder_Inr)
    show "whenS (buy_reserve r > 0) (debit (rq_uuid r) (buy_reserve r) ''BUY_ORDER_RESERVE'' ''ORDER''
        (Some i)) (s\<lparr>orders := orders s @ [new_order i r Buy (buy_reserve r)]\<rparr>) = (Inr (), s1)"
      using d i V by (simp add: insertOrder_Inr)
    show "buy_loop r i (matching_asks s1 b r) (rq_quantity r) 0 0
      (balance_of s (rq_uuid r) - buy_reserve r) s1 = (Inr (n, k, g), s2)"
      using l V by (auto split: if_splits)
  qed (use V W s' res in auto)
qed


lemma plan_buy_for:
  assumes "orders_ok s" and "0 \<le> rq_quantity r"
  shows "plan_for (buy_plan_of s b r) (orders s)"
  unfolding buy_plan_of_def
proof (rule buy_plan_for)
  show "distinct (map o_id (matching_asks s b r))"
    using orders_okD(1) [OF assms(1)] by (rule matching_distinct)
qed (use assms matching_positive(1) [OF assms(1)] in \<open>auto simp: matching_asks_set\<close>)

text \<open>The whole call: the state before, the plan, the state after.\<close>

lemma placeBuy_effect:
  assumes ok: "money_ok s" "orders_ok s" and q: "0 < rq_quantity r"
    and run: "placeBuy r s = (Inr res, s')"
  obtains b where "lockActiveBook (rq_market r) s = (Inr b, s)"
    "account_of s (rq_uuid r) \<noteq> None" "0 \<le> buy_reserve r"
    "rq_type r = Limit \<longrightarrow> buy_reserve r \<le> balance_of s (rq_uuid r)"
    "bought r (buy_plan_of s b r) s s' res"
proof -
  let ?u = "rq_uuid r"
  from run obtain b s1 s2 n k g i where b: "lockActiveBook (rq_market r) s = (Inr b, s)"
    and acc: "account_of s ?u \<noteq> None" and i: "i = fresh_id o_id (orders s)"
    and res0: "0 \<le> buy_reserve r" and lim: "rq_type r = Limit \<longrightarrow> buy_reserve r \<le> balance_of s ?u"
    and d: "whenS (buy_reserve r > 0) (debit ?u (buy_reserve r) ''BUY_ORDER_RESERVE'' ''ORDER''
        (Some i)) (s\<lparr>orders := orders s @ [new_order i r Buy (buy_reserve r)]\<rparr>) = (Inr (), s1)"
    and l: "buy_loop r i (matching_asks s1 b r) (rq_quantity r) 0 0
      (balance_of s ?u - buy_reserve r) s1 = (Inr (n, k, g), s2)"
    and s': "s' = s2\<lparr>orders := upd_where (\<lambda>x. o_id x = i)
      (set_fill_reserved (if rq_type r = Limit then n else 0)
        (if rq_type r = Limit then rq_price r * n else 0)
        (if rq_type r = Market then marketStatus k (rq_quantity r) else orderStatus n k)) (orders s2)\<rparr>"
    and res: "res = \<lparr>ex_order = i, ex_requested = rq_quantity r, ex_filled = k,
      ex_open = (if rq_type r = Limit then n else 0), ex_gross = g,
      ex_balance = balance_of s' ?u\<rparr>"
    by (rule placeBuy_run)
  let ?x = "new_order i r Buy (buy_reserve r)" and ?p = "buy_plan_of s b r"
  have R: "money_ok s1 \<and> money_only (s\<lparr>orders := orders s @ [?x]\<rparr>) s1 \<and>
      balance_of s1 = (balance_of s)(?u := balance_of s ?u - buy_reserve r) \<and>
      total_balance s1 = total_balance s - buy_reserve r"
    using reserve_step [OF _ d res0] ok(1) by simp
  note M = money_onlyD [OF conjunct1 [OF conjunct2 [OF R]]]
  have asks: "matching_asks s1 b r = matching_asks s b r"
    by (rule matching_append_own(1) [of ?x]) (use M in simp_all)
  have os1: "orders s1 = orders s @ [?x]" using M by simp
  have dist: "distinct (map o_id (orders s1))"
    using orders_okD(1) [OF ok(2)] by (auto simp: os1 i fresh_id_neq)
  have sub: "set (matching_asks s b r) \<subseteq> set (orders s1)" by (auto simp: os1 matching_asks_set)
  from buy_loop_effect [OF conjunct1 [OF R] dist sub matching_distinct(1) [OF orders_okD(1) [OF ok(2)]]
      matching_positive(1) [OF ok(2)] _ l [unfolded asks]] q
  have n: "n = rq_quantity r - plan_quantity ?p" and k: "k = plan_quantity ?p"
    and g: "g = plan_value ?p" and E: "buy_effect r i ?p s1 s2"
    by (simp_all add: buy_plan_of_def)
  have pf: "plan_for ?p (orders s)" by (rule plan_buy_for) (use ok q in auto)
  have os2: "orders s2 = map (fill_row ask_fill ?p) (orders s) @ [?x]"
    using E fill_rows_append_fresh [OF pf, of ?x ask_fill] by (simp add: buy_effect_def os1 i)
  have last: "upd_where (\<lambda>x. o_id x = i) h (map (fill_row ask_fill ?p) (orders s) @ [?x]) =
      map (fill_row ask_fill ?p) (orders s) @ [h ?x]" for h
    by (rule upd_last_row) (simp_all add: i del: map_map)
  have "orders s' = map (fill_row ask_fill ?p) (orders s) @ [taker_row r Buy i k]"
    by (simp only: s' os2 n k last taker_row_update_buy) simp
  moreover have "trade_frame s s'"
    using E R s' money_only_trade_frame trade_frame_trans by (fastforce simp: buy_effect_def)
  ultimately have "bought r ?p s s' res"
    using E R M s' res n k g i by (auto simp: bought_def buy_effect_def Let_def)
  with b acc res0 lim that show thesis by blast
qed


section \<open>Placing a sell order\<close>

definition sell_plan_of :: "db \<Rightarrow> Id \<Rightarrow> OrderRequest \<Rightarrow> plan" where
  "sell_plan_of s b r = sell_plan (matching_bids s b r) (rq_quantity r)"

text \<open>What a market order could not sell goes back to its owner as a delivery.\<close>

definition remainder_delivery :: "OrderRequest \<Rightarrow> int \<Rightarrow> (string \<times> Id \<times> int) list" where
  "remainder_delivery r k = (if rq_type r = Market \<and> k < rq_quantity r
     then [(rq_uuid r, rq_market r, rq_quantity r - k)] else [])"

definition sold :: "OrderRequest \<Rightarrow> plan \<Rightarrow> db \<Rightarrow> db \<Rightarrow> ExecutionResult \<Rightarrow> bool" where
  "sold r p s s' res \<longleftrightarrow> (let i = fresh_id o_id (orders s); k = plan_quantity p; u = rq_uuid r in
     money_ok s' \<and> trade_frame s s' \<and>
     (\<forall>v. balance_of s' v = balance_of s v + (if v = u then plan_value p else 0)) \<and>
     total_balance s' = total_balance s + plan_value p \<and>
     orders s' = map (fill_row bid_fill p) (orders s) @ [taker_row r Sell i k] \<and>
     deliveries s' = add_rows d_id (trade_delivery ''MARKET_REMAINDER'')
       (add_rows d_id (trade_delivery ''TRADE_BUY'') (deliveries s)
         (map (\<lambda>(b, f). (o_player b, rq_market r, f)) p)) (remainder_delivery r k) \<and>
     trades s' = add_rows t_id mk_trade (trades s) (sell_trades r i p) \<and>
     res = \<lparr>ex_order = i, ex_requested = rq_quantity r, ex_filled = k,
       ex_open = (if rq_type r = Limit then rq_quantity r - k else 0), ex_gross = plan_value p,
       ex_balance = balance_of s' u\<rparr>)"

lemma plan_sell_for:
  assumes "orders_ok s" and "0 \<le> rq_quantity r"
  shows "plan_for (sell_plan_of s b r) (orders s)"
  unfolding sell_plan_of_def
proof (rule sell_plan_for)
  show "distinct (map o_id (matching_bids s b r))"
    using orders_okD(1) [OF assms(1)] by (rule matching_distinct)
qed (use assms matching_positive(2) [OF assms(1)] in \<open>auto simp: matching_bids_set\<close>)

lemma remainder_step:
  "whenS (c \<and> n > 0) (addDelivery u mkt n reason) s = (Inr x, s') \<longleftrightarrow>
    s' = (if c \<and> n > 0 then s\<lparr>deliveries :=
      add_rows d_id (trade_delivery reason) (deliveries s) [(u, mkt, n)]\<rparr> else s)"
  by (auto simp: whenS_Inr addDelivery_Inr)

lemma placeSellLocked_run:
  assumes "placeSellLocked r s = (Inr res, s')"
  obtains b s1 s2 n k g i where "lockActiveBook (rq_market r) s = (Inr b, s)"
    "account_of s (rq_uuid r) \<noteq> None" "i = fresh_id o_id (orders s)"
    "s1 = s\<lparr>orders := orders s @ [new_order i r Sell 0]\<rparr>"
    "sell_loop r i (matching_bids s1 b r) (rq_quantity r) 0 0 s1 = (Inr (n, k, g), s2)"
    "s' = (if rq_type r = Market \<and> n > 0
       then s2\<lparr>deliveries := add_rows d_id (trade_delivery ''MARKET_REMAINDER'') (deliveries s2)
              [(rq_uuid r, rq_market r, n)]\<rparr> else s2)
      \<lparr>orders := upd_where (\<lambda>x. o_id x = i) (set_fill (if rq_type r = Limit then n else 0)
        (if rq_type r = Market then marketStatus k (rq_quantity r) else orderStatus n k)) (orders s2)\<rparr>"
    "res = \<lparr>ex_order = i, ex_requested = rq_quantity r, ex_filled = k,
      ex_open = (if rq_type r = Limit then n else 0), ex_gross = g,
      ex_balance = balance_of s' (rq_uuid r)\<rparr>"
proof -
  let ?u = "rq_uuid r"
  let ?st = "\<lambda>n k. if rq_type r = Market then marketStatus k (rq_quantity r) else orderStatus n k"
  from assms obtain b i s1 n k g s2 where
    b: "lockActiveBook (rq_market r) s = (Inr b, s)" and acc: "account_of s ?u \<noteq> None"
    and i: "insertOrder r Sell 0 s = (Inr i, s1)"
    and l: "sell_loop r i (matching_bids s1 b r) (rq_quantity r) 0 0 s1 = (Inr (n, k, g), s2)"
    and rest: "bindS (whenS (rq_type r = Market \<and> n > 0)
        (addDelivery (rq_uuid r) (rq_market r) n ''MARKET_REMAINDER'')) (\<lambda>_.
      bindS (updateOrder i (set_fill (if rq_type r = Limit then n else 0) (?st n k))) (\<lambda>_.
      bindS (lockedBalance ?u) (\<lambda>final.
      returnS \<lparr>ex_order = i, ex_requested = rq_quantity r, ex_filled = k,
        ex_open = (if rq_type r = Limit then n else 0), ex_gross = g, ex_balance = final\<rparr>))) s2 =
      (Inr res, s')"
    unfolding placeSellLocked_def
    by (elim bindS_InrE) (clarsimp simp only: lockActiveBook_Inr lockedBalance_Inr queryS_Inr prod.case
        split: prod.splits, blast)
  define s3 where "s3 = (if rq_type r = Market \<and> n > 0
       then s2\<lparr>deliveries := add_rows d_id (trade_delivery ''MARKET_REMAINDER'') (deliveries s2)
              [(rq_uuid r, rq_market r, n)]\<rparr> else s2)"
  then have os: "orders s3 = orders s2" by simp
  from rest have "bindS (updateOrder i (set_fill (if rq_type r = Limit then n else 0) (?st n k))) (\<lambda>_.
      bindS (lockedBalance ?u) (\<lambda>final.
      returnS \<lparr>ex_order = i, ex_requested = rq_quantity r, ex_filled = k,
        ex_open = (if rq_type r = Limit then n else 0), ex_gross = g, ex_balance = final\<rparr>)) s3 =
      (Inr res, s')"
    by (elim bindS_InrE) (auto simp: remainder_step s3_def bindS_Inr)
  then have s': "s' = s3\<lparr>orders := upd_where (\<lambda>x. o_id x = i)
      (set_fill (if rq_type r = Limit then n else 0) (?st n k)) (orders s2)\<rparr>"
    and res: "res = \<lparr>ex_order = i, ex_requested = rq_quantity r, ex_filled = k,
      ex_open = (if rq_type r = Limit then n else 0), ex_gross = g,
      ex_balance = balance_of s' ?u\<rparr>"
    using os by (auto simp: bindS_Inr lockedBalance_Inr returnS_Inr updateOrder_def executeS_Inr)
  show thesis
    by (rule that [OF b acc _ _ l s' [unfolded s3_def] res]) (use i in \<open>simp_all add: insertOrder_Inr\<close>)
qed

lemma placeSellLocked_effect:
  assumes ok: "money_ok s" "orders_ok s" and q: "0 < rq_quantity r"
    and run: "placeSellLocked r s = (Inr res, s')"
  obtains b where "lockActiveBook (rq_market r) s = (Inr b, s)"
    "account_of s (rq_uuid r) \<noteq> None" "sold r (sell_plan_of s b r) s s' res"
proof -
  let ?u = "rq_uuid r"
  from run obtain b s1 s2 n k g i where b: "lockActiveBook (rq_market r) s = (Inr b, s)"
    and acc: "account_of s ?u \<noteq> None" and i: "i = fresh_id o_id (orders s)"
    and s1: "s1 = s\<lparr>orders := orders s @ [new_order i r Sell 0]\<rparr>"
    and l: "sell_loop r i (matching_bids s1 b r) (rq_quantity r) 0 0 s1 = (Inr (n, k, g), s2)"
    and s': "s' = (if rq_type r = Market \<and> n > 0
       then s2\<lparr>deliveries := add_rows d_id (trade_delivery ''MARKET_REMAINDER'') (deliveries s2)
              [(rq_uuid r, rq_market r, n)]\<rparr> else s2)
      \<lparr>orders := upd_where (\<lambda>x. o_id x = i) (set_fill (if rq_type r = Limit then n else 0)
        (if rq_type r = Market then marketStatus k (rq_quantity r) else orderStatus n k)) (orders s2)\<rparr>"
    and res: "res = \<lparr>ex_order = i, ex_requested = rq_quantity r, ex_filled = k,
      ex_open = (if rq_type r = Limit then n else 0), ex_gross = g,
      ex_balance = balance_of s' ?u\<rparr>"
    by (rule placeSellLocked_run)
  let ?x = "new_order i r Sell 0" and ?p = "sell_plan_of s b r"
  have bids: "matching_bids s1 b r = matching_bids s b r"
    by (rule matching_append_own(2) [of ?x]) (simp_all add: s1)
  have os1: "orders s1 = orders s @ [?x]" by (simp add: s1)
  have ok1: "money_ok s1" using ok(1) by (simp add: s1)
  have dist: "distinct (map o_id (orders s1))"
    using orders_okD(1) [OF ok(2)] by (auto simp: os1 i fresh_id_neq)
  have sub: "set (matching_bids s b r) \<subseteq> set (orders s1)" by (auto simp: os1 matching_bids_set)
  from sell_loop_effect [OF ok1 dist sub matching_distinct(2) [OF orders_okD(1) [OF ok(2)]]
      matching_positive(2) [OF ok(2)] _ l [unfolded bids]] q
  have n: "n = rq_quantity r - plan_quantity ?p" and k: "k = plan_quantity ?p"
    and g: "g = plan_value ?p" and E: "sell_effect r i ?p s1 s2"
    by (simp_all add: sell_plan_of_def)
  have pf: "plan_for ?p (orders s)" by (rule plan_sell_for) (use ok q in auto)
  have os2: "orders s2 = map (fill_row bid_fill ?p) (orders s) @ [?x]"
    using E fill_rows_append_fresh [OF pf, of ?x bid_fill] by (simp add: sell_effect_def os1 i)
  have last: "upd_where (\<lambda>x. o_id x = i) h (map (fill_row bid_fill ?p) (orders s) @ [?x]) =
      map (fill_row bid_fill ?p) (orders s) @ [h ?x]" for h
    by (rule upd_last_row) (simp_all add: i del: map_map)
  have os': "orders s' = map (fill_row bid_fill ?p) (orders s) @ [taker_row r Sell i k]"
    by (simp only: s' os2 n k last taker_row_update_sell) simp
  have "trade_frame s s'" using E s' by (simp add: sell_effect_def s1)
  moreover have "deliveries s' = add_rows d_id (trade_delivery ''MARKET_REMAINDER'') (deliveries s2)
      (remainder_delivery r k)"
    using s' n k by (simp add: remainder_delivery_def)
  moreover have "balance_of s' = balance_of s2" "total_balance s' = total_balance s2"
    "money_ok s' = money_ok s2" "trades s' = trades s2"
    using s' by simp_all
  ultimately have "sold r ?p s s' res"
    using E os' res n k g i s1 by (simp add: sold_def sell_effect_def Let_def)
  with b acc that show thesis by blast
qed

section \<open>Canceling an order\<close>

text \<open>What \<open>close_order\<close> leaves of the row, and what it pays and delivers.\<close>

definition closed_row :: "order_row \<Rightarrow> order_row" where
  "closed_row = set_fill_reserved 0 0 OrderCanceled"

definition closed :: "order_row \<Rightarrow> string \<Rightarrow> db \<Rightarrow> db \<Rightarrow> bool" where
  "closed x reason s s' \<longleftrightarrow> money_ok s' \<and> trade_frame s s' \<and> trades s' = trades s \<and>
    balance_of s' = (balance_of s)(o_player x := balance_of s (o_player x) + o_reserved x) \<and>
    total_balance s' = total_balance s + o_reserved x \<and>
    orders s' = upd_where (\<lambda>y. o_id y = o_id x) closed_row (orders s) \<and>
    deliveries s' = add_rows d_id (trade_delivery reason) (deliveries s)
      (if o_side x = Sell \<and> 0 < o_remaining x then [(o_player x, o_market x, o_remaining x)] else [])"

lemma close_order_effect:
  assumes ok: "money_ok s" and x: "order_ok x"
    and run: "close_order x refund reason s = (Inr z, s')"
  shows "closed x reason s s'"
proof (cases "o_side x = Buy")
  case True
  with run obtain s1 where c: "credit (o_player x) (o_reserved x) refund ''ORDER'' (Some (o_id x)) s
      = (Inr (), s1)"
    and s': "s' = s1\<lparr>orders := upd_where (\<lambda>y. o_id y = o_id x) closed_row (orders s1)\<rparr>"
    by (auto simp: close_order_def svc_simps updateOrder_def closed_row_def)
  note C = credit_effect [OF ok c] and M = money_onlyD [OF credit_effect(3) [OF ok c]]
  show ?thesis
    using C M s' True money_only_trade_frame [OF C(3)] by (simp add: closed_def)
next
  case False
  have "o_side x = Sell" "o_reserved x = 0"
    using x False by (cases "o_side x"; simp add: order_ok_def)+
  note x = this
  let ?ds = "add_rows d_id (trade_delivery reason) (deliveries s)
      (if 0 < o_remaining x then [(o_player x, o_market x, o_remaining x)] else [])"
  from run x(1) have "s' = s\<lparr>deliveries := ?ds,
      orders := upd_where (\<lambda>y. o_id y = o_id x) closed_row (orders s)\<rparr>"
    by (cases "0 < o_remaining x")
      (auto simp: close_order_def bindS_Inr whenS_Inr updateOrder_def executeS_Inr closed_row_def
        addDelivery_Inr)
  with ok x show ?thesis by (simp add: closed_def)
qed

lemma cancelOrder_effect:
  assumes ok: "money_ok s" "orders_ok s" and run: "cancelOrder i u administrator s = (Inr z, s')"
  obtains x where "x \<in> set (orders s)" "o_id x = i" "resting x" "administrator \<or> o_player x = u"
    "closed x ''ORDER_CANCELED'' s s'"
proof -
  from run obtain x where x: "order_of s i = Some x" "administrator \<or> o_player x = u" "resting x"
    and c: "close_order x ''ORDER_CANCEL_REFUND'' ''ORDER_CANCELED'' s = (Inr z, s')"
    unfolding cancelOrder_def resting_def
    by (auto simp: transactionS_Inr bindS_Inr throwIf_Inr queryS_Inr throwS_Inr split: option.splits)
  have "x \<in> set (orders s)" "o_id x = i" using x(1) unfolding order_of_def by (auto dest: find_key_in)
  with x close_order_effect [OF ok(1) orders_okD(2) [OF ok(2)] c] that show thesis by blast
qed

end
