(* ===== verification/Conservation.thy ===== *)
theory Conservation
  imports Placement
begin

text \<open>
  The invariants of trading: the order table stays well formed, the money of an exchange (free
  balances and the reserves of buy orders) and the items of a book (what sell orders offer and
  what deliveries still owe) are conserved, and a book is never left crossed. Each is shown for
  a purchase, a sale and a cancellation from their closed forms in Placement, and then for the
  operations.
\<close>

section \<open>The order table stays well formed\<close>

definition request_ok :: "OrderRequest \<Rightarrow> bool" where
  "request_ok r \<longleftrightarrow> 0 < rq_quantity r \<and> rq_quantity r \<le> int32_max \<and>
    (rq_type r = Limit \<longrightarrow> 0 < rq_price r)"

lemma validateRequest_ok:
  assumes "config_ok cfg" and "validateRequest cfg r = Inr ()"
  shows "request_ok r" "rq_uuid r \<noteq> []" "rq_name r \<noteq> []" "rq_market r \<noteq> 0"
    "rq_quantity r \<le> max_order_quantity cfg"
    "rq_type r = Limit \<Longrightarrow> rq_price r * rq_quantity r \<le> int64_max"
  using assms
  by (auto simp: validateRequest_def request_ok_def config_ok_def checkedProduct_iff not_le
      split: if_splits sum.splits)

lemma ask_fill_ok:
  "order_ok x \<Longrightarrow> 0 < f \<Longrightarrow> f \<le> o_remaining x \<Longrightarrow> o_side x = Sell \<Longrightarrow> order_ok (ask_fill f x)"
  by (auto simp: order_ok_def resting_def open_status_def)

lemma bid_fill_ok:
  "order_ok x \<Longrightarrow> 0 < f \<Longrightarrow> f \<le> o_remaining x \<Longrightarrow> o_side x = Buy \<Longrightarrow> order_ok (bid_fill f x)"
  by (auto simp: order_ok_def resting_def open_status_def right_diff_distrib)

lemma closed_row_ok: "order_ok x \<Longrightarrow> order_ok (closed_row x)"
  by (auto simp: order_ok_def resting_def open_status_def closed_row_def)

lemma taker_row_ok:
  "request_ok r \<Longrightarrow> 0 \<le> k \<Longrightarrow> k \<le> rq_quantity r \<Longrightarrow> order_ok (taker_row r sd i k)"
  by (cases "rq_type r")
    (auto simp: order_ok_def request_ok_def resting_def open_status_def orderStatus_def)

text \<open>The plans fill one side only, and no more than what was asked for.\<close>

definition plan_side :: "Side \<Rightarrow> plan \<Rightarrow> bool" where
  "plan_side sd p \<longleftrightarrow> (\<forall>(a, f) \<in> set p. o_side a = sd)"

lemma buy_plan_facts:
  assumes "orders_ok s" and "request_ok r"
  shows "plan_for (buy_plan_of s b r) (orders s)" "plan_side Sell (buy_plan_of s b r)"
    "0 \<le> plan_quantity (buy_plan_of s b r)" "plan_quantity (buy_plan_of s b r) \<le> rq_quantity r"
proof -
  have q: "0 \<le> rq_quantity r" using assms(2) by (simp add: request_ok_def)
  show pf: "plan_for (buy_plan_of s b r) (orders s)" by (rule plan_buy_for [OF assms(1) q])
  then show "0 \<le> plan_quantity (buy_plan_of s b r)" by (rule plan_for_quantity_nonneg)
  show "plan_quantity (buy_plan_of s b r) \<le> rq_quantity r"
    unfolding buy_plan_of_def by (rule buy_plan_quantity [OF q])
  show "plan_side Sell (buy_plan_of s b r)"
    by (auto simp: plan_side_def buy_plan_of_def matching_asks_set dest: buy_plan_orders)
qed

lemma sell_plan_facts:
  assumes "orders_ok s" and "request_ok r"
  shows "plan_for (sell_plan_of s b r) (orders s)" "plan_side Buy (sell_plan_of s b r)"
    "0 \<le> plan_quantity (sell_plan_of s b r)" "plan_quantity (sell_plan_of s b r) \<le> rq_quantity r"
proof -
  have q: "0 \<le> rq_quantity r" using assms(2) by (simp add: request_ok_def)
  show pf: "plan_for (sell_plan_of s b r) (orders s)" by (rule plan_sell_for [OF assms(1) q])
  then show "0 \<le> plan_quantity (sell_plan_of s b r)" by (rule plan_for_quantity_nonneg)
  show "plan_quantity (sell_plan_of s b r) \<le> rq_quantity r"
    unfolding sell_plan_of_def by (rule sell_plan_quantity [OF q matching_positive(2) [OF assms(1)]])
  show "plan_side Buy (sell_plan_of s b r)"
    by (auto simp: plan_side_def sell_plan_of_def matching_bids_set dest: sell_plan_orders)
qed

lemma fill_row_ok:
  assumes "plan_for p os" and "distinct (map o_id os)" and "plan_side sd p" and "x \<in> set os"
    and "order_ok x"
    and upd: "\<And>f. 0 < f \<Longrightarrow> f \<le> o_remaining x \<Longrightarrow> o_side x = sd \<Longrightarrow> order_ok (upd f x)"
  shows "order_ok (fill_row upd p x)"
proof (cases "plan_fills p (o_id x)")
  case (Some f)
  from plan_fills_row [OF assms(1,2,4) this] have "(x, f) \<in> set p" .
  with assms(1,3) have "0 < f" "f \<le> o_remaining x" "o_side x = sd"
    by (auto simp: plan_for_def plan_side_def)
  with upd Some show ?thesis by (simp add: fill_row_def)
qed (use assms(5) in \<open>simp add: fill_row_def\<close>)

lemma fill_row_fields [simp]:
  "o_player (fill_row ask_fill p x) = o_player x" "o_player (fill_row bid_fill p x) = o_player x"
  "o_market (fill_row ask_fill p x) = o_market x" "o_market (fill_row bid_fill p x) = o_market x"
  "o_side (fill_row ask_fill p x) = o_side x" "o_side (fill_row bid_fill p x) = o_side x"
  "o_type (fill_row ask_fill p x) = o_type x" "o_type (fill_row bid_fill p x) = o_type x"
  "o_price (fill_row ask_fill p x) = o_price x" "o_price (fill_row bid_fill p x) = o_price x"
  "o_id (fill_row ask_fill p x) = o_id x" "o_id (fill_row bid_fill p x) = o_id x"
  "o_reserved (fill_row ask_fill p x) = o_reserved x"
  by (simp_all add: fill_row_def split: option.splits)

lemma trade_frame_refs:
  assumes "trade_frame s s'"
  shows "account_of s u \<noteq> None \<Longrightarrow> account_of s' u \<noteq> None" "market_of s' = market_of s"
    "on_book s' = on_book s"
  using assms on_book_cong [of s' s]
  by (auto simp: trade_frame_def account_exists_iff market_of_def fun_eq_iff simp del: not_None_eq)

lemma order_refs_frame:
  assumes "trade_frame s s'" and "order_refs s x" and "o_player y = o_player x"
    and "o_market y = o_market x"
  shows "order_refs s' y"
  unfolding order_refs_def assms(3,4) trade_frame_refs(2) [OF assms(1)]
  using assms(2) trade_frame_refs(1) [OF assms(1)] by (simp add: order_refs_def del: not_None_eq)

lemma orders_ok_append:
  assumes ok: "orders_ok s" and fr: "trade_frame s s'"
    and os: "orders s' = map g (orders s) @ [x]"
    and g: "\<And>y. o_id (g y) = o_id y" "\<And>y. o_player (g y) = o_player y" "\<And>y. o_market (g y) = o_market y"
    and okg: "\<And>y. y \<in> set (orders s) \<Longrightarrow> order_ok (g y)"
    and x: "o_id x = fresh_id o_id (orders s)" "order_ok x" "order_refs s x"
  shows "orders_ok s'"
proof -
  have "map o_id (orders s') = map o_id (orders s) @ [fresh_id o_id (orders s)]"
    using g(1) x(1) by (simp add: os)
  with orders_okD(1) [OF ok] have "distinct (map o_id (orders s'))" by (simp add: fresh_id_notin)
  moreover have "order_ok y \<and> order_refs s' y" if "y \<in> set (orders s')" for y
    using that okg x g by (auto simp: os intro: order_refs_frame [OF fr orders_okD(3) [OF ok]]
        order_refs_frame [OF fr x(3)])
  ultimately show ?thesis by (simp add: orders_ok_def)
qed

lemma bought_orders_ok:
  assumes "orders_ok s" and "request_ok r" and "bought r (buy_plan_of s b r) s s' res"
    and "account_of s (rq_uuid r) \<noteq> None" and "market_of s (rq_market r) \<noteq> None"
  shows "orders_ok s'"
proof -
  note P = buy_plan_facts [OF assms(1,2), of b]
  have fr: "trade_frame s s'"
    and os: "orders s' = map (fill_row ask_fill (buy_plan_of s b r)) (orders s) @
      [taker_row r Buy (fresh_id o_id (orders s)) (plan_quantity (buy_plan_of s b r))]"
    using assms(3) by (simp_all add: bought_def Let_def)
  show ?thesis
  proof (rule orders_ok_append [OF assms(1) fr os])
    fix y assume y: "y \<in> set (orders s)"
    show "order_ok (fill_row ask_fill (buy_plan_of s b r) y)"
      by (rule fill_row_ok [OF P(1) orders_okD(1) [OF assms(1)] P(2) y])
        (use ask_fill_ok orders_okD(2) [OF assms(1) y] in auto)
  qed (use assms P taker_row_ok in \<open>auto simp: order_refs_def\<close>)
qed

lemma sold_orders_ok:
  assumes "orders_ok s" and "request_ok r" and "sold r (sell_plan_of s b r) s s' res"
    and "account_of s (rq_uuid r) \<noteq> None" and "market_of s (rq_market r) \<noteq> None"
  shows "orders_ok s'"
proof -
  note P = sell_plan_facts [OF assms(1,2), of b]
  have fr: "trade_frame s s'"
    and os: "orders s' = map (fill_row bid_fill (sell_plan_of s b r)) (orders s) @
      [taker_row r Sell (fresh_id o_id (orders s)) (plan_quantity (sell_plan_of s b r))]"
    using assms(3) by (simp_all add: sold_def Let_def)
  show ?thesis
  proof (rule orders_ok_append [OF assms(1) fr os])
    fix y assume y: "y \<in> set (orders s)"
    show "order_ok (fill_row bid_fill (sell_plan_of s b r) y)"
      by (rule fill_row_ok [OF P(1) orders_okD(1) [OF assms(1)] P(2) y])
        (use bid_fill_ok orders_okD(2) [OF assms(1) y] in auto)
  qed (use assms P taker_row_ok in \<open>auto simp: order_refs_def\<close>)
qed

lemma closed_row_fields [simp]:
  "o_id (closed_row x) = o_id x" "o_player (closed_row x) = o_player x"
  "o_market (closed_row x) = o_market x" "o_side (closed_row x) = o_side x"
  "o_remaining (closed_row x) = 0" "o_reserved (closed_row x) = 0"
  "o_price (closed_row x) = o_price x" "o_status (closed_row x) = OrderCanceled"
  "\<not> resting (closed_row x)"
  by (simp_all add: closed_row_def resting_def open_status_def)

interpretation order_close: keyed_update o_id closed_row
  by unfold_locales simp

lemma closed_orders_ok:
  assumes "orders_ok s" and "closed x reason s s'"
  shows "orders_ok s'"
proof -
  have os: "orders s' = upd_where (\<lambda>y. o_id y = o_id x) closed_row (orders s)" and fr: "trade_frame s s'"
    using assms(2) by (simp_all add: closed_def)
  have "distinct (map o_id (orders s'))" using assms(1) by (simp add: os orders_ok_def)
  moreover have "order_ok y \<and> order_refs s' y" if "y \<in> set (orders s')" for y
    using that orders_okD(2) [OF assms(1)] closed_row_ok
    by (auto simp: os in_upd_where intro: order_refs_frame [OF fr orders_okD(3) [OF assms(1)]])
  ultimately show ?thesis by (simp add: orders_ok_def)
qed


section \<open>Money is conserved\<close>

definition reserved_total :: "db \<Rightarrow> Cents" where
  "reserved_total s = (\<Sum>x\<leftarrow>orders s. o_reserved x)"

definition money_supply :: "db \<Rightarrow> Cents" where
  "money_supply s = total_balance s + reserved_total s"

lemma sum_list_plan_uminus:
  fixes h :: "order_row \<Rightarrow> int \<Rightarrow> int"
  shows "(\<Sum>(a, f)\<leftarrow>p. - h a f) = - (\<Sum>(a, f)\<leftarrow>p. h a f)"
  by (induction p) auto

lemma fills_reserved:
  assumes "plan_for p os" and "distinct (map o_id os)"
  shows "(\<Sum>x\<leftarrow>map (fill_row ask_fill p) os. o_reserved x) = (\<Sum>x\<leftarrow>os. o_reserved x)"
    and "(\<Sum>x\<leftarrow>map (fill_row bid_fill p) os. o_reserved x) = (\<Sum>x\<leftarrow>os. o_reserved x) - plan_value p"
  using sum_fill_rows [OF assms, of o_reserved ask_fill] sum_fill_rows [OF assms, of o_reserved bid_fill]
    sum_list_plan_uminus [of "\<lambda>a f. o_price a * f" p]
  by (simp_all add: plan_value_def split_def)

lemma bought_money_supply:
  assumes "orders_ok s" and "request_ok r" and "bought r (buy_plan_of s b r) s s' res"
  shows "money_supply s' = money_supply s"
proof -
  note P = buy_plan_facts [OF assms(1,2), of b]
  from assms(3) have "total_balance s' = total_balance s + plan_pay r (buy_plan_of s b r) - buy_reserve r"
    and os: "orders s' = map (fill_row ask_fill (buy_plan_of s b r)) (orders s) @
      [taker_row r Buy (fresh_id o_id (orders s)) (plan_quantity (buy_plan_of s b r))]"
    by (simp_all add: bought_def Let_def)
  then show ?thesis
    using fills_reserved(1) [OF P(1) orders_okD(1) [OF assms(1)]]
    by (cases "rq_type r")
      (simp_all add: money_supply_def reserved_total_def plan_pay_def buy_reserve_def algebra_simps
        del: map_map)
qed

lemma sold_money_supply:
  assumes "orders_ok s" and "request_ok r" and "sold r (sell_plan_of s b r) s s' res"
  shows "money_supply s' = money_supply s"
proof -
  note P = sell_plan_facts [OF assms(1,2), of b]
  from assms(3) have "total_balance s' = total_balance s + plan_value (sell_plan_of s b r)"
    and os: "orders s' = map (fill_row bid_fill (sell_plan_of s b r)) (orders s) @
      [taker_row r Sell (fresh_id o_id (orders s)) (plan_quantity (sell_plan_of s b r))]"
    by (simp_all add: sold_def Let_def)
  then show ?thesis
    using fills_reserved(2) [OF P(1) orders_okD(1) [OF assms(1)]]
    by (simp add: money_supply_def reserved_total_def del: map_map)
qed

lemma closed_money_supply:
  assumes "orders_ok s" and "x \<in> set (orders s)" and "closed x reason s s'"
  shows "money_supply s' = money_supply s"
proof -
  from assms(3) have "total_balance s' = total_balance s + o_reserved x"
    and "orders s' = upd_where (\<lambda>y. o_id y = o_id x) closed_row (orders s)"
    by (simp_all add: closed_def)
  then show ?thesis
    using sum_list_upd_key [OF orders_okD(1) [OF assms(1)] assms(2) refl, of o_reserved closed_row]
    by (simp add: money_supply_def reserved_total_def)
qed

section \<open>Items are conserved\<close>

text \<open>
  The items of a book the exchange holds: the remainders of its sell orders (only a resting
  order has one) and what its deliveries have not yet handed out.
\<close>

definition offered_on :: "(Id \<Rightarrow> bool) \<Rightarrow> order_row \<Rightarrow> int" where
  "offered_on on x = (if on (o_market x) \<and> o_side x = Sell then o_remaining x else 0)"

definition owed_on :: "(Id \<Rightarrow> bool) \<Rightarrow> delivery_row \<Rightarrow> int" where
  "owed_on on d = (if on (d_market d) then d_quantity d - d_claimed d else 0)"

definition items_offered :: "db \<Rightarrow> Id \<Rightarrow> int" where
  "items_offered s b = (\<Sum>x\<leftarrow>orders s. offered_on (on_book s b) x)"

definition items_owed :: "db \<Rightarrow> Id \<Rightarrow> int" where
  "items_owed s b = (\<Sum>d\<leftarrow>deliveries s. owed_on (on_book s b) d)"

definition items_held :: "db \<Rightarrow> Id \<Rightarrow> int" where
  "items_held s b = items_offered s b + items_owed s b"

lemma sum_add_rows:
  fixes h :: "'r \<Rightarrow> int"
  assumes "\<And>i v. h (mk i v) = g v"
  shows "(\<Sum>x\<leftarrow>add_rows key mk xs vs. h x) = (\<Sum>x\<leftarrow>xs. h x) + (\<Sum>v\<leftarrow>vs. g v)"
  using add_rows_map [of h mk g key xs vs, OF assms] by simp

lemma owed_add_deliveries:
  "(\<Sum>d\<leftarrow>add_rows d_id (trade_delivery reason) ds vs. owed_on on d) =
    (\<Sum>d\<leftarrow>ds. owed_on on d) + (\<Sum>(u, m, q)\<leftarrow>vs. if on m then q else 0)"
  by (rule sum_add_rows) (auto simp: trade_delivery_def owed_on_def)

lemma delivered_quantity:
  "(\<Sum>(u, m, q)\<leftarrow>map (\<lambda>(a, f). (w a, mkt, f)) p. if on m then q else 0) =
    (if on mkt then plan_quantity p else 0)"
  by (induction p) auto

lemma offered_ask_fills:
  assumes "plan_for p os" and "distinct (map o_id os)" and "plan_side Sell p"
    and "\<forall>(a, f) \<in> set p. on (o_market a) = c"
  shows "(\<Sum>x\<leftarrow>map (fill_row ask_fill p) os. offered_on on x) =
    (\<Sum>x\<leftarrow>os. offered_on on x) - (if c then plan_quantity p else 0)"
proof -
  have "(\<Sum>(a, f)\<leftarrow>p. offered_on on (ask_fill f a) - offered_on on a) = - (if c then plan_quantity p else 0)"
    using assms(3,4) by (induction p) (auto simp: offered_on_def plan_side_def)
  then show ?thesis using sum_fill_rows [OF assms(1,2), of "offered_on on" ask_fill] by simp
qed

lemma offered_bid_fills:
  assumes "plan_for p os" and "distinct (map o_id os)" and "plan_side Buy p"
  shows "(\<Sum>x\<leftarrow>map (fill_row bid_fill p) os. offered_on on x) = (\<Sum>x\<leftarrow>os. offered_on on x)"
proof -
  have "(\<Sum>(a, f)\<leftarrow>p. offered_on on (bid_fill f a) - offered_on on a) = 0"
    using assms(3) by (induction p) (auto simp: offered_on_def plan_side_def)
  then show ?thesis using sum_fill_rows [OF assms(1,2), of "offered_on on" bid_fill] by simp
qed

lemma on_book_unique: "on_book s b m \<Longrightarrow> on_book s b' m \<longleftrightarrow> b' = b"
  by (auto simp: on_book_def)

lemma bought_items_held:
  assumes "orders_ok s" and "request_ok r" and "bought r (buy_plan_of s b r) s s' res"
    and "on_book s b (rq_market r)"
  shows "items_held s' b' = items_held s b'"
proof -
  note P = buy_plan_facts [OF assms(1,2), of b]
  let ?p = "buy_plan_of s b r" and ?on = "on_book s b'"
  from assms(3) have fr: "trade_frame s s'"
    and os: "orders s' = map (fill_row ask_fill ?p) (orders s) @
      [taker_row r Buy (fresh_id o_id (orders s)) (plan_quantity ?p)]"
    and ds: "deliveries s' = add_rows d_id (trade_delivery ''TRADE_BUY'') (deliveries s)
      (map (\<lambda>(a, f). (rq_uuid r, rq_market r, f)) ?p)"
    by (simp_all add: bought_def Let_def)
  have "\<forall>(a, f) \<in> set ?p. ?on (o_market a) = ?on (rq_market r)"
    using assms(4) on_book_unique by (auto simp: buy_plan_of_def matching_asks_set dest!: buy_plan_orders)
  from offered_ask_fills [OF P(1) orders_okD(1) [OF assms(1)] P(2) this]
  show ?thesis
    using delivered_quantity [of ?on "\<lambda>_. rq_uuid r" "rq_market r" ?p]
    by (simp add: items_held_def items_offered_def items_owed_def os ds owed_add_deliveries
        trade_frame_refs(3) [OF fr] offered_on_def del: map_map)
qed

lemma sold_items_held:
  assumes "orders_ok s" and "request_ok r" and "sold r (sell_plan_of s b r) s s' res"
    and "on_book s b (rq_market r)"
  shows "items_held s' b' = items_held s b' + (if b' = b then rq_quantity r else 0)"
proof -
  note P = sell_plan_facts [OF assms(1,2), of b]
  let ?p = "sell_plan_of s b r" and ?on = "on_book s b'"
  from assms(3) have fr: "trade_frame s s'"
    and os: "orders s' = map (fill_row bid_fill ?p) (orders s) @
      [taker_row r Sell (fresh_id o_id (orders s)) (plan_quantity ?p)]"
    and ds: "deliveries s' = add_rows d_id (trade_delivery ''MARKET_REMAINDER'')
      (add_rows d_id (trade_delivery ''TRADE_BUY'') (deliveries s)
        (map (\<lambda>(b, f). (o_player b, rq_market r, f)) ?p)) (remainder_delivery r (plan_quantity ?p))"
    by (simp_all add: sold_def Let_def)
  have "?on (rq_market r) = (b' = b)" using assms(4) on_book_unique by blast
  moreover have "(\<Sum>(u, m, q)\<leftarrow>remainder_delivery r (plan_quantity ?p). if ?on m then q else 0) =
      (if ?on (rq_market r) \<and> rq_type r = Market then rq_quantity r - plan_quantity ?p else 0)"
    using P(4) by (simp add: remainder_delivery_def)
  ultimately show ?thesis
    using delivered_quantity [of ?on o_player "rq_market r" ?p]
      offered_bid_fills [OF P(1) orders_okD(1) [OF assms(1)] P(2), of ?on]
    by (cases "rq_type r") (simp_all add: items_held_def items_offered_def items_owed_def os ds
        owed_add_deliveries trade_frame_refs(3) [OF fr] offered_on_def del: map_map)
qed

lemma closed_items_held:
  assumes "orders_ok s" and "x \<in> set (orders s)" and "closed x reason s s'"
  shows "items_held s' b = items_held s b"
proof -
  let ?on = "on_book s b"
  from assms(3) have fr: "trade_frame s s'"
    and os: "orders s' = upd_where (\<lambda>y. o_id y = o_id x) closed_row (orders s)"
    and ds: "deliveries s' = add_rows d_id (trade_delivery reason) (deliveries s)
      (if o_side x = Sell \<and> 0 < o_remaining x then [(o_player x, o_market x, o_remaining x)] else [])"
    by (simp_all add: closed_def)
  have "0 \<le> o_remaining x" using orders_okD(2) [OF assms(1,2)] by (simp add: order_ok_def)
  then show ?thesis
    using sum_list_upd_key [OF orders_okD(1) [OF assms(1)] assms(2) refl, of "offered_on ?on" closed_row]
    by (auto simp: items_held_def items_offered_def items_owed_def os ds
        owed_add_deliveries trade_frame_refs(3) [OF fr] offered_on_def)
qed

section \<open>A book is never left crossed\<close>

definition uncrossed :: "db \<Rightarrow> bool" where
  "uncrossed s \<longleftrightarrow> (\<forall>x \<in> set (orders s). \<forall>y \<in> set (orders s). \<forall>b.
     resting x \<and> resting y \<and> o_side x = Buy \<and> o_side y = Sell \<and> o_player x \<noteq> o_player y \<and>
     on_book s b (o_market x) \<and> on_book s b (o_market y) \<longrightarrow> o_price x < o_price y)"

lemma uncrossedD:
  "uncrossed s \<Longrightarrow> x \<in> set (orders s) \<Longrightarrow> y \<in> set (orders s) \<Longrightarrow> resting x \<Longrightarrow> resting y \<Longrightarrow>
    o_side x = Buy \<Longrightarrow> o_side y = Sell \<Longrightarrow> o_player x \<noteq> o_player y \<Longrightarrow>
    on_book s b (o_market x) \<Longrightarrow> on_book s b (o_market y) \<Longrightarrow> o_price x < o_price y"
  unfolding uncrossed_def by blast

text \<open>A limit order that keeps a remainder has used every order it could match up.\<close>

lemma exhausted_not_resting:
  assumes p: "p = sell_plan as n" and short: "plan_quantity p < n" and n: "0 \<le> n"
    and pos: "\<forall>a \<in> set as. 0 < o_remaining a" and x: "x \<in> set as"
    and d: "distinct (map o_id as)" and ok: "order_ok (fill_row upd p x)"
    and upd: "\<And>f x. o_remaining (upd f x) = o_remaining x - f"
  shows "\<not> resting (fill_row upd p x)"
proof -
  have "p = map (\<lambda>a. (a, o_remaining a)) as"
    unfolding p by (rule sell_plan_exhausts) (use p short n pos in auto)
  with x d have "plan_fills p (o_id x) = Some (o_remaining x)"
    by (simp add: plan_fills_def o_def map_of_eq_Some_iff)
  then have "o_remaining (fill_row upd p x) = 0" by (simp add: fill_row_def upd)
  with ok show ?thesis by (simp add: order_ok_def)
qed

lemma fill_row_resting:
  assumes "plan_for p os" and "distinct (map o_id os)" and "x \<in> set os" and "order_ok x"
    and "resting (fill_row upd p x)"
  shows "resting x"
proof (cases "plan_fills p (o_id x)")
  case (Some f)
  from plan_fills_row [OF assms(1,2,3) this] assms(1) have "0 < f" "f \<le> o_remaining x"
    by (auto simp: plan_for_def)
  with assms(4) show ?thesis by (simp add: order_ok_def)
qed (use assms(5) in \<open>simp add: fill_row_def\<close>)


lemma bought_uncrossed:
  assumes "orders_ok s" and "request_ok r" and "uncrossed s"
    and "bought r (buy_plan_of s b r) s s' res" and b: "on_book s b (rq_market r)"
    and ok': "orders_ok s'"
  shows "uncrossed s'"
  unfolding uncrossed_def
proof (intro ballI allI impI, elim conjE)
  note P = buy_plan_facts [OF assms(1,2), of b]
  let ?p = "buy_plan_of s b r" and ?i = "fresh_id o_id (orders s)"
  from assms(4) have fr: "trade_frame s s'" and os: "orders s' = map (fill_row ask_fill ?p) (orders s) @
      [taker_row r Buy ?i (plan_quantity ?p)]"
    by (simp_all add: bought_def Let_def)
  fix x y b'
  assume x: "x \<in> set (orders s')" "resting x" "o_side x = Buy" "on_book s' b' (o_market x)"
    and y: "y \<in> set (orders s')" "resting y" "o_side y = Sell" "on_book s' b' (o_market y)"
    and ne: "o_player x \<noteq> o_player y"
  have on: "on_book s' = on_book s" by (rule trade_frame_refs(3) [OF fr])
  from y(1,3) obtain y0 where y0: "y0 \<in> set (orders s)" "y = fill_row ask_fill ?p y0" by (auto simp: os)
  have ry0: "resting y0"
    using fill_row_resting [OF P(1) orders_okD(1) [OF assms(1)] y0(1)] orders_okD(2) [OF assms(1) y0(1)]
      y(2) y0(2) by blast
  from x(1) consider x0 where "x0 \<in> set (orders s)" "x = fill_row ask_fill ?p x0"
    | "x = taker_row r Buy ?i (plan_quantity ?p)" by (auto simp: os)
  then show "o_price x < o_price y"
  proof cases
    case (1 x0)
    have "resting x0"
      using fill_row_resting [OF P(1) orders_okD(1) [OF assms(1)] 1(1)] orders_okD(2) [OF assms(1) 1(1)]
        x(2) 1(2) by blast
    then show ?thesis
      using uncrossedD [OF assms(3) 1(1) y0(1) _ ry0, of b'] 1(2) y0(2) x y ne on by simp
  next
    case 2
    then have lim: "rq_type r = Limit" and px: "o_price x = rq_price r" and "b' = b"
      using x on_book_unique [OF b] by (auto simp: resting_def on)
    have n: "plan_quantity ?p < rq_quantity r"
      using orders_okD(2) [OF ok' x(1)] x(2) lim unfolding 2 by (simp add: order_ok_def)
    show ?thesis
    proof (rule ccontr)
      assume "\<not> o_price x < o_price y"
      then have ask: "y0 \<in> set (matching_asks s b r)"
        using y0 y ry0 ne 2 px \<open>b' = b\<close> by (simp add: matching_asks_set on)
      have "\<not> resting (fill_row ask_fill ?p y0)"
      proof (rule exhausted_not_resting [OF _ n _ matching_positive(1) [OF assms(1)] ask])
        show "?p = sell_plan (matching_asks s b r) (rq_quantity r)"
          using lim by (simp add: buy_plan_of_def buy_plan_limit)
        show "distinct (map o_id (matching_asks s b r))"
          by (rule matching_distinct(1) [OF orders_okD(1) [OF assms(1)]])
        show "order_ok (fill_row ask_fill ?p y0)" using orders_okD(2) [OF ok' y(1)] y0(2) by simp
      qed (use assms(2) in \<open>simp_all add: request_ok_def\<close>)
      with y(2) y0(2) show False by simp
    qed
  qed
qed

lemma sold_uncrossed:
  assumes "orders_ok s" and "request_ok r" and "uncrossed s"
    and "sold r (sell_plan_of s b r) s s' res" and b: "on_book s b (rq_market r)"
    and ok': "orders_ok s'"
  shows "uncrossed s'"
  unfolding uncrossed_def
proof (intro ballI allI impI, elim conjE)
  note P = sell_plan_facts [OF assms(1,2), of b]
  let ?p = "sell_plan_of s b r" and ?i = "fresh_id o_id (orders s)"
  from assms(4) have fr: "trade_frame s s'" and os: "orders s' = map (fill_row bid_fill ?p) (orders s) @
      [taker_row r Sell ?i (plan_quantity ?p)]"
    by (simp_all add: sold_def Let_def)
  fix x y b'
  assume x: "x \<in> set (orders s')" "resting x" "o_side x = Buy" "on_book s' b' (o_market x)"
    and y: "y \<in> set (orders s')" "resting y" "o_side y = Sell" "on_book s' b' (o_market y)"
    and ne: "o_player x \<noteq> o_player y"
  have on: "on_book s' = on_book s" by (rule trade_frame_refs(3) [OF fr])
  from x(1,3) obtain x0 where x0: "x0 \<in> set (orders s)" "x = fill_row bid_fill ?p x0" by (auto simp: os)
  have rx0: "resting x0"
    using fill_row_resting [OF P(1) orders_okD(1) [OF assms(1)] x0(1)] orders_okD(2) [OF assms(1) x0(1)]
      x(2) x0(2) by blast
  from y(1) consider y0 where "y0 \<in> set (orders s)" "y = fill_row bid_fill ?p y0"
    | "y = taker_row r Sell ?i (plan_quantity ?p)" by (auto simp: os)
  then show "o_price x < o_price y"
  proof cases
    case (1 y0)
    have "resting y0"
      using fill_row_resting [OF P(1) orders_okD(1) [OF assms(1)] 1(1)] orders_okD(2) [OF assms(1) 1(1)]
        y(2) 1(2) by blast
    then show ?thesis
      using uncrossedD [OF assms(3) x0(1) 1(1) rx0, of b'] 1(2) x0(2) x y ne on by simp
  next
    case 2
    then have lim: "rq_type r = Limit" and py: "o_price y = rq_price r" and "b' = b"
      using y on_book_unique [OF b] by (auto simp: resting_def on)
    have n: "plan_quantity ?p < rq_quantity r"
      using orders_okD(2) [OF ok' y(1)] y(2) lim unfolding 2 by (simp add: order_ok_def)
    show ?thesis
    proof (rule ccontr)
      assume "\<not> o_price x < o_price y"
      then have bid: "x0 \<in> set (matching_bids s b r)"
        using x0 x rx0 ne 2 py \<open>b' = b\<close> by (simp add: matching_bids_set on)
      have "\<not> resting (fill_row bid_fill ?p x0)"
      proof (rule exhausted_not_resting [OF _ n _ matching_positive(2) [OF assms(1)] bid])
        show "?p = sell_plan (matching_bids s b r) (rq_quantity r)"
          by (simp add: sell_plan_of_def)
        show "distinct (map o_id (matching_bids s b r))"
          by (rule matching_distinct(2) [OF orders_okD(1) [OF assms(1)]])
        show "order_ok (fill_row bid_fill ?p x0)" using orders_okD(2) [OF ok' x(1)] x0(2) by simp
      qed (use assms(2) in \<open>simp_all add: request_ok_def\<close>)
      with x(2) x0(2) show False by simp
    qed
  qed
qed

lemma closed_uncrossed:
  assumes "uncrossed s" and "closed x reason s s'"
  shows "uncrossed s'"
proof -
  from assms(2) have fr: "trade_frame s s'"
    and os: "orders s' = upd_where (\<lambda>y. o_id y = o_id x) closed_row (orders s)"
    by (simp_all add: closed_def)
  have old: "y \<in> set (orders s)" if "y \<in> set (orders s')" "resting y" for y
    using that by (auto simp: os in_upd_where split: if_splits)
  show ?thesis
    using uncrossedD [OF assms(1) old old] by (auto simp: uncrossed_def trade_frame_refs(3) [OF fr])
qed

end
