(* ===== verification/Example_State.thy ===== *)
theory Example_State
  imports Conservation
begin

text \<open>
  A small concrete exchange at which the theorems are instantiated: one book with two targets,
  four players, two resting asks, a resting bid and an order of the taker's own. With it come
  the executable forms of the invariants that quantify over all strings or all books.
\<close>

section \<open>Executable forms of the invariants\<close>

lemma sum_if_absent:
  fixes h :: "'r \<Rightarrow> int"
  shows "u \<notin> key ` set xs \<Longrightarrow> (\<Sum>x\<leftarrow>xs. if key x = u then h x else 0) = 0"
  by (induction xs) auto

lemma ledger_ok_check:
  assumes "\<forall>u \<in> set (map l_player (ledger s) @ map a_uuid (accounts s)). ledger_sum s u = balance_of s u"
  shows "ledger_ok s"
proof -
  have "ledger_sum s u = balance_of s u" if "u \<notin> set (map l_player (ledger s) @ map a_uuid (accounts s))" for u
  proof -
    from that have "account_of s u = None" by (auto simp: account_of_def find_None_iff)
    moreover have "ledger_sum s u = 0"
      unfolding ledger_sum_def by (rule sum_if_absent) (use that in simp)
    ultimately show ?thesis by (simp add: balance_of_def)
  qed
  with assms show ?thesis unfolding ledger_ok_def by blast
qed

definition crossing :: "db \<Rightarrow> order_row \<Rightarrow> order_row \<Rightarrow> bool" where
  "crossing s x y \<longleftrightarrow> resting x \<and> resting y \<and> o_side x = Buy \<and> o_side y = Sell \<and>
    o_player x \<noteq> o_player y \<and> book_id_of s (o_market x) = book_id_of s (o_market y) \<and>
    o_price y \<le> o_price x"

lemma uncrossed_check:
  assumes "\<not> (\<exists>x \<in> set (orders s). \<exists>y \<in> set (orders s). crossing s x y)"
  shows "uncrossed s"
  unfolding uncrossed_def
proof (intro ballI allI impI, elim conjE, rule ccontr)
  fix x y b
  assume "x \<in> set (orders s)" "y \<in> set (orders s)" "resting x" "resting y" "o_side x = Buy"
    "o_side y = Sell" "o_player x \<noteq> o_player y" "on_book s b (o_market x)" "on_book s b (o_market y)"
    "\<not> o_price x < o_price y"
  then have "crossing s x y" by (simp add: crossing_def on_book_def)
  with assms \<open>x \<in> set (orders s)\<close> \<open>y \<in> set (orders s)\<close> show False by blast
qed

section \<open>The example\<close>

definition demo_cfg :: service_config where
  "demo_cfg = \<lparr>initial_balance_cents = 1000, max_order_quantity = 100\<rparr>"

definition demo_item :: ItemPrototype where
  "demo_item = \<lparr>item_type = ''minecraft:stone'', item_data = 0, item_nbt = [], item_name = ''Stone''\<rparr>"

definition demo_market :: "Id \<Rightarrow> market_row" where
  "demo_market i = \<lparr>mk_id = i, mk_book = 1, mk_target = (if i = 1 then ''frame1'' else ''frame2''), mk_kind = Block,
     mk_dimension = ''Overworld'', mk_x = Some (int i), mk_y = Some 64, mk_z = Some 0, mk_actor = None,
     mk_item = demo_item, mk_active = True, mk_reopenable = False, mk_created_by = ''admin''\<rparr>"

definition demo_account :: "string \<Rightarrow> Cents \<Rightarrow> account_row" where
  "demo_account u b = \<lparr>a_uuid = u, a_name = u, a_balance = b, a_updated = 0\<rparr>"

definition demo_order :: "Id \<Rightarrow> string \<Rightarrow> Side \<Rightarrow> Cents \<Rightarrow> int \<Rightarrow> order_row" where
  "demo_order i u sd p q = \<lparr>o_id = i, o_market = 1, o_player = u, o_side = sd, o_type = Limit,
     o_price = p, o_original = q, o_remaining = q, o_reserved = (if sd = Buy then p * q else 0),
     o_status = OrderOpen\<rparr>"

definition demo_db :: db where
  "demo_db = empty_db
    \<lparr>accounts := [demo_account ''alice'' 1000, demo_account ''bob'' 200, demo_account ''carol'' 300,
       demo_account ''dave'' 420],
     ledger := [ledger_entry ''alice'' 1000 ''ACCOUNT_OPENED'' [] None,
       ledger_entry ''bob'' 200 ''ACCOUNT_OPENED'' [] None,
       ledger_entry ''carol'' 300 ''ACCOUNT_OPENED'' [] None,
       ledger_entry ''dave'' 500 ''ACCOUNT_OPENED'' [] None,
       ledger_entry ''dave'' (-80) ''BUY_ORDER_RESERVE'' ''ORDER'' (Some 3)],
     books := [\<lparr>b_id = 1, b_type = ''minecraft:stone'', b_data = 0, b_nbt = [], b_name = ''Stone'',
       b_hash = ''h''\<rparr>],
     markets := [demo_market 1, demo_market 2],
     bindings := [\<lparr>bd_target = ''frame1'', bd_market = 1\<rparr>, \<lparr>bd_target = ''frame2'', bd_market = 2\<rparr>],
     orders := [demo_order 1 ''bob'' Sell 30 5, demo_order 2 ''carol'' Sell 25 2,
       demo_order 3 ''dave'' Buy 20 4, demo_order 4 ''alice'' Sell 40 1]\<rparr>"

text \<open>Alice buys through the second target of the book; a market sale by Carol.\<close>

definition demo_buy :: OrderRequest where
  "demo_buy = \<lparr>rq_market = 2, rq_uuid = ''alice'', rq_name = ''alice'', rq_side = Buy, rq_type = Limit,
     rq_price = 30, rq_quantity = 4\<rparr>"

definition demo_sell :: OrderRequest where
  "demo_sell = \<lparr>rq_market = 1, rq_uuid = ''carol'', rq_name = ''carol'', rq_side = Sell,
     rq_type = Market, rq_price = 0, rq_quantity = 6\<rparr>"

lemma demo_cfg_ok: "config_ok demo_cfg"
  by (simp add: config_ok_def demo_cfg_def int64_max_def int32_max_def)

lemma demo_money_ok: "money_ok demo_db"
  unfolding money_ok_def
proof
  show "accounts_ok demo_db" unfolding accounts_ok_def by code_simp
  show "ledger_ok demo_db" by (rule ledger_ok_check) code_simp
qed

lemma demo_orders_ok: "orders_ok demo_db"
  unfolding orders_ok_def by code_simp

lemma demo_uncrossed: "uncrossed demo_db"
  by (rule uncrossed_check) code_simp

end
