(* ===== verification/Trading.thy ===== *)
theory Trading
  imports Example_State
begin

text \<open>
  The correctness of order entry and cancellation as their callers see it: what \<open>placeOrder\<close>,
  \<open>placeSell\<close> and \<open>cancelOrder\<close> do to balances, items, the book and the trade log, for every
  accepted and every refused request. The theorems rest on the closed forms of Placement and the
  conservation lemmas of Conservation.
\<close>

section \<open>The trading invariant\<close>

definition trading_ok :: "db \<Rightarrow> bool" where
  "trading_ok s \<longleftrightarrow> money_ok s \<and> orders_ok s \<and> uncrossed s"

lemma trading_okD: "trading_ok s \<Longrightarrow> money_ok s" "trading_ok s \<Longrightarrow> orders_ok s" "trading_ok s \<Longrightarrow> uncrossed s"
  by (simp_all add: trading_ok_def)

lemma orders_same:
  assumes "orders s' = orders s" and "trade_frame s s'"
  shows "orders_ok s \<Longrightarrow> orders_ok s'" "uncrossed s \<Longrightarrow> uncrossed s'"
  using assms(1) order_refs_frame [OF assms(2)] trade_frame_refs(3) [OF assms(2)]
  by (auto simp: orders_ok_def uncrossed_def)

lemma money_only_trading:
  assumes "money_only s s'" and "money_ok s'" and "trading_ok s"
  shows "trading_ok s'"
  using assms orders_same [OF _ money_only_trade_frame [OF assms(1)]] money_onlyD(3) [OF assms(1)]
  by (simp add: trading_ok_def)

lemma money_only_supply:
  assumes "money_only s s'"
  shows "money_supply s' = money_supply s + (total_balance s' - total_balance s)"
    "items_held s' b = items_held s b"
  using money_onlyD [OF assms] trade_frame_refs(3) [OF money_only_trade_frame [OF assms]]
  by (simp_all add: money_supply_def reserved_total_def items_held_def items_offered_def items_owed_def)

lemma lockActiveBook_on_book:
  "lockActiveBook m s = (Inr b, s') \<Longrightarrow> on_book s b m \<and> market_of s m \<noteq> None"
  by (auto simp: lockActiveBook_Inr on_book_def book_id_of_def)

lemma placeBuy_trading:
  assumes ok: "trading_ok s" and r: "request_ok r" and run: "placeBuy r s = (Inr res, s')"
  shows "trading_ok s'" "money_supply s' = money_supply s" "items_held s' b' = items_held s b'"
proof -
  have q: "0 < rq_quantity r" using r by (simp add: request_ok_def)
  from placeBuy_effect [OF trading_okD(1,2) [OF ok] q run] obtain b where
    b: "lockActiveBook (rq_market r) s = (Inr b, s)" and acc: "account_of s (rq_uuid r) \<noteq> None"
    and E: "bought r (buy_plan_of s b r) s s' res" by blast
  note on = lockActiveBook_on_book [OF b]
  have os: "orders_ok s'"
    by (rule bought_orders_ok [OF trading_okD(2) [OF ok] r E acc]) (use on in simp)
  have "uncrossed s'"
    by (rule bought_uncrossed [OF trading_okD(2) [OF ok] r trading_okD(3) [OF ok] E _ os])
      (use on in simp)
  with os E show "trading_ok s'" by (simp add: trading_ok_def bought_def Let_def)
  show "money_supply s' = money_supply s" by (rule bought_money_supply [OF trading_okD(2) [OF ok] r E])
  show "items_held s' b' = items_held s b'"
    by (rule bought_items_held [OF trading_okD(2) [OF ok] r E]) (use on in simp)
qed

lemma placeSellLocked_trading:
  assumes ok: "trading_ok s" and r: "request_ok r" and run: "placeSellLocked r s = (Inr res, s')"
  shows "trading_ok s'" "money_supply s' = money_supply s"
    "items_held s' b' = items_held s b' + (if on_book s b' (rq_market r) then rq_quantity r else 0)"
proof -
  have q: "0 < rq_quantity r" using r by (simp add: request_ok_def)
  from placeSellLocked_effect [OF trading_okD(1,2) [OF ok] q run] obtain b where
    b: "lockActiveBook (rq_market r) s = (Inr b, s)" and acc: "account_of s (rq_uuid r) \<noteq> None"
    and E: "sold r (sell_plan_of s b r) s s' res" by blast
  note on = lockActiveBook_on_book [OF b]
  have os: "orders_ok s'"
    by (rule sold_orders_ok [OF trading_okD(2) [OF ok] r E acc]) (use on in simp)
  have "uncrossed s'"
    by (rule sold_uncrossed [OF trading_okD(2) [OF ok] r trading_okD(3) [OF ok] E _ os])
      (use on in simp)
  with os E show "trading_ok s'" by (simp add: trading_ok_def sold_def Let_def)
  show "money_supply s' = money_supply s" by (rule sold_money_supply [OF trading_okD(2) [OF ok] r E])
  show "items_held s' b' = items_held s b' + (if on_book s b' (rq_market r) then rq_quantity r else 0)"
    using sold_items_held [OF trading_okD(2) [OF ok] r E, of b'] on on_book_unique by auto
qed

lemma cancelOrder_trading:
  assumes ok: "trading_ok s" and run: "cancelOrder i u administrator s = (Inr z, s')"
  shows "trading_ok s'" "money_supply s' = money_supply s" "items_held s' b = items_held s b"
proof -
  from cancelOrder_effect [OF trading_okD(1,2) [OF ok] run] obtain x where
    x: "x \<in> set (orders s)" and E: "closed x ''ORDER_CANCELED'' s s'" by blast
  show "trading_ok s'"
    using E closed_orders_ok [OF trading_okD(2) [OF ok] E] closed_uncrossed [OF trading_okD(3) [OF ok] E]
    by (simp add: trading_ok_def closed_def)
  show "money_supply s' = money_supply s" by (rule closed_money_supply [OF trading_okD(2) [OF ok] x E])
  show "items_held s' b = items_held s b" by (rule closed_items_held [OF trading_okD(2) [OF ok] x E])
qed

section \<open>Order entry in full\<close>

lemma placeOrder_run:
  assumes "config_ok cfg" and ok: "trading_ok s" and run: "placeOrder cfg r s = (Inr res, s')"
  obtains s1 where "request_ok r" "rq_uuid r \<noteq> []" "ensureAccount cfg (rq_uuid r) (rq_name r) s = (Inr (), s1)"
    "money_only s s1" "trading_ok s1" "account_of s1 (rq_uuid r) \<noteq> None"
    "money_supply s1 =
      money_supply s + (if account_of s (rq_uuid r) = None then initial_balance_cents cfg else 0)"
    "if rq_side r = Buy then placeBuy r s1 = (Inr res, s') else placeSellLocked r s1 = (Inr res, s')"
proof -
  from run obtain s1 where v: "validateRequest cfg r = Inr ()"
    and e: "ensureAccount cfg (rq_uuid r) (rq_name r) s = (Inr (), s1)"
    and p: "if rq_side r = Buy then placeBuy r s1 = (Inr res, s') else placeSellLocked r s1 = (Inr res, s')"
    by (auto simp: placeOrder_def bindS_Inr liftS_Inr placeSell_def transactionS_Inr split: if_splits)
  note E = ensureAccount_effect [OF assms(1) trading_okD(1) [OF ok] e]
  note V = validateRequest_ok [OF assms(1) v]
  show thesis
  proof (rule that [OF V(1,2) e E(2) money_only_trading [OF E(2,1) ok] E(3) [OF refl] _ p])
    show "money_supply s1 =
      money_supply s + (if account_of s (rq_uuid r) = None then initial_balance_cents cfg else 0)"
      using money_only_supply(1) [OF E(2)] E(4) [OF refl] by simp
  qed
qed

text \<open>A refused order leaves the tables alone: at most the player's account has been opened.\<close>

lemma placeOrder_refused_state:
  assumes "placeOrder cfg r s = (Inl e, s')"
  shows "s' = s \<or> (\<exists>s1. ensureAccount cfg (rq_uuid r) (rq_name r) s = (Inr (), s1) \<and> s' = s1)"
proof (cases "validateRequest cfg r")
  case (Inl e')
  with assms show ?thesis by (simp add: placeOrder_def bindS_def liftS_def)
next
  case (Inr v)
  show ?thesis
  proof (cases "ensureAccount cfg (rq_uuid r) (rq_name r) s")
    case (Pair x s1)
    show ?thesis
    proof (cases x)
      case (Inl e1)
      with Pair Inr assms ensureAccount_Inl [of cfg "rq_uuid r" "rq_name r" s e1 s1] show ?thesis
        by (simp add: placeOrder_def bindS_def liftS_def)
    next
      case (Inr y)
      have "(if rq_side r = Buy then placeBuy r else placeSell r) s1 = (Inl e, s')"
        using assms Pair Inr \<open>validateRequest cfg r = Inr v\<close>
        by (simp add: placeOrder_def bindS_def liftS_def)
      then have "s' = s1"
        by (auto simp: placeBuy_def placeSell_def transactionS_Inl split: if_splits)
      with Pair Inr show ?thesis by simp
    qed
  qed
qed


section \<open>The trades of an order\<close>

definition new_trades :: "db \<Rightarrow> db \<Rightarrow> trade_row list" where
  "new_trades s s' = drop (length (trades s)) (trades s')"

definition trade_info :: "trade_row \<Rightarrow> Id \<times> Id \<times> Id \<times> string \<times> string \<times> Cents \<times> int" where
  "trade_info t = (t_market t, t_buy t, t_sell t, t_buyer t, t_seller t, t_price t, t_quantity t)"

lemma new_trades_info:
  assumes "trades s' = add_rows t_id mk_trade (trades s) vs"
  shows "map trade_info (new_trades s s') = vs"
proof -
  have "map trade_info (trades s') = map trade_info (trades s) @ map (\<lambda>v. v) vs"
    unfolding assms by (rule add_rows_map) (auto simp: trade_info_def mk_trade_def)
  then have "drop (length (trades s)) (map trade_info (trades s')) = vs" by simp
  then show ?thesis by (simp add: new_trades_def drop_map)
qed

lemma sum_trades:
  fixes h :: "Id \<times> Id \<times> Id \<times> string \<times> string \<times> Cents \<times> int \<Rightarrow> int"
  assumes "map trade_info ts = vs"
  shows "(\<Sum>t\<leftarrow>ts. h (trade_info t)) = (\<Sum>v\<leftarrow>vs. h v)"
  unfolding assms [symmetric] by (simp add: o_def)

lemma trade_sums:
  assumes "map trade_info ts = map (\<lambda>(a, f). (m, bf a, sf a, br a, sr a, o_price a, f)) p"
  shows "(\<Sum>t\<leftarrow>ts. t_quantity t) = plan_quantity p"
    and "(\<Sum>t\<leftarrow>ts. t_price t * t_quantity t) = plan_value p"
    and "(\<Sum>t\<leftarrow>ts. if t_seller t = u then t_price t * t_quantity t else 0) =
      (\<Sum>(a, f)\<leftarrow>p. if sr a = u then o_price a * f else 0)"
proof -
  show "(\<Sum>t\<leftarrow>ts. t_quantity t) = plan_quantity p"
    using sum_trades [OF assms, of "\<lambda>(m, b, s, br, sr, pr, q). q"]
    by (simp add: trade_info_def plan_quantity_def o_def case_prod_unfold)
  show "(\<Sum>t\<leftarrow>ts. t_price t * t_quantity t) = plan_value p"
    using sum_trades [OF assms, of "\<lambda>(m, b, s, br, sr, pr, q). pr * q"]
    by (simp add: trade_info_def plan_value_def o_def case_prod_unfold)
  show "(\<Sum>t\<leftarrow>ts. if t_seller t = u then t_price t * t_quantity t else 0) =
      (\<Sum>(a, f)\<leftarrow>p. if sr a = u then o_price a * f else 0)"
    using sum_trades [OF assms, of "\<lambda>(m, b, s, br, sr, pr, q). if sr = u then pr * q else 0"]
    by (simp add: trade_info_def o_def case_prod_unfold cong: if_cong)
qed

lemma trade_from_plan:
  assumes "map trade_info ts = map (\<lambda>(a, f). (m, bf a, sf a, br a, sr a, o_price a, f)) p"
    and "t \<in> set ts"
  obtains a f where "(a, f) \<in> set p" "t_market t = m" "t_buy t = bf a" "t_sell t = sf a"
    "t_buyer t = br a" "t_seller t = sr a" "t_price t = o_price a" "t_quantity t = f"
proof -
  from assms(2) have "trade_info t \<in> set (map trade_info ts)" by simp
  then obtain a f where "(a, f) \<in> set p"
    "trade_info t = (m, bf a, sf a, br a, sr a, o_price a, f)"
    unfolding assms(1) by auto
  then show thesis by (intro that [of a f]) (simp_all add: trade_info_def)
qed

text \<open>The resting orders a request may trade with, and which of two it must use first.\<close>

definition eligible :: "db \<Rightarrow> OrderRequest \<Rightarrow> order_row \<Rightarrow> bool" where
  "eligible s r x \<longleftrightarrow> x \<in> set (orders s) \<and> resting x \<and> o_side x \<noteq> rq_side r \<and>
    o_player x \<noteq> rq_uuid r \<and> book_id_of s (o_market x) = book_id_of s (rq_market r) \<and>
    (rq_type r = Limit \<longrightarrow>
      (if rq_side r = Buy then o_price x \<le> rq_price r else rq_price r \<le> o_price x))"

definition before :: "Side \<Rightarrow> order_row \<Rightarrow> order_row \<Rightarrow> bool" where
  "before sd x y \<longleftrightarrow> (if sd = Buy then o_price x < o_price y else o_price y < o_price x) \<or>
    (o_price x = o_price y \<and> o_id x < o_id y)"

text \<open>What both sides of \<open>placeOrder\<close> have in common, as the properties need it.\<close>

definition executed :: "OrderRequest \<Rightarrow> (int \<Rightarrow> order_row \<Rightarrow> order_row) \<Rightarrow> order_row list \<Rightarrow>
    plan \<Rightarrow> db \<Rightarrow> db \<Rightarrow> ExecutionResult \<Rightarrow> bool" where
  "executed r upd rows p s s' res \<longleftrightarrow> (let i = fresh_id o_id (orders s); u = rq_uuid r in
     (\<forall>x. x \<in> set rows \<longleftrightarrow> eligible s r x) \<and> distinct (map o_id rows) \<and>
     (\<exists>k. (\<forall>x \<in> set rows. \<forall>y \<in> set rows. before (rq_side r) x y \<longleftrightarrow> k x < (k y :: int \<times> nat)) \<and>
       sorted (map k rows)) \<and>
     full_then_one rows p \<and> plan_for p (orders s) \<and> (\<forall>(a, f) \<in> set p. a \<in> set rows) \<and>
     plan_quantity p \<le> rq_quantity r \<and>
     orders s' = map (fill_row upd p) (orders s) @ [taker_row r (rq_side r) i (plan_quantity p)] \<and>
     map trade_info (new_trades s s') = (if rq_side r = Buy then buy_trades r i p else sell_trades r i p) \<and>
     (\<forall>v. balance_of s' v = balance_of s v + (if rq_side r = Buy then plan_value_of v p else 0) +
       (if v = u then if rq_side r = Buy then plan_refund r p - buy_reserve r else plan_value p else 0)) \<and>
     res = \<lparr>ex_order = i, ex_requested = rq_quantity r, ex_filled = plan_quantity p,
       ex_open = (if rq_type r = Limit then rq_quantity r - plan_quantity p else 0),
       ex_gross = plan_value p, ex_balance = balance_of s' u\<rparr>)"

lemma sort_key_sorted: "sorted (map k (sort_key k xs))"
  by (rule sorted_sort_key)

lemma eligible_asks:
  "rq_side r = Buy \<Longrightarrow> on_book s b (rq_market r) \<Longrightarrow>
    x \<in> set (matching_asks s b r) \<longleftrightarrow> eligible s r x"
  by (cases "o_side x") (auto simp: matching_asks_set eligible_def on_book_def)

lemma eligible_bids:
  "rq_side r = Sell \<Longrightarrow> on_book s b (rq_market r) \<Longrightarrow>
    x \<in> set (matching_bids s b r) \<longleftrightarrow> eligible s r x"
  by (cases "o_side x") (auto simp: matching_bids_set eligible_def on_book_def)

lemma buy_executed:
  assumes ok: "trading_ok s" and r: "request_ok r" and side: "rq_side r = Buy"
    and run: "placeBuy r s = (Inr res, s')"
  shows "\<exists>rows p. executed r ask_fill rows p s s' res"
proof -
  have q: "0 < rq_quantity r" using r by (simp add: request_ok_def)
  note O = trading_okD(2) [OF ok]
  from placeBuy_effect [OF trading_okD(1) [OF ok] O q run] obtain b where
    b: "lockActiveBook (rq_market r) s = (Inr b, s)" and E: "bought r (buy_plan_of s b r) s s' res"
    and lim: "rq_type r = Limit \<longrightarrow> buy_reserve r \<le> balance_of s (rq_uuid r)" by blast
  note on = conjunct1 [OF lockActiveBook_on_book [OF b]] and P = buy_plan_facts [OF O r, of b]
  let ?rows = "matching_asks s b r" and ?k = "\<lambda>x. (o_price x, o_id x)"
  have sorted: "sorted (map ?k ?rows)" unfolding matching_asks_def by (rule sort_key_sorted)
  then have prices: "sorted (map o_price ?rows)"
    unfolding sorted_map by (rule sorted_wrt_mono_rel [rotated]) (auto simp: less_eq_prod_def)
  have pos: "\<forall>a \<in> set ?rows. 0 < o_price a"
    using orders_okD(2) [OF O] by (auto simp: matching_asks_set order_ok_def resting_def)
  have full: "full_then_one ?rows (buy_plan_of s b r)"
  proof (cases "rq_type r = Market")
    case True
    then show ?thesis unfolding buy_plan_of_def
      using buy_plan_market_priority [OF True prices pos]
        balance_of_range(1) [OF money_ok_accounts_ok [OF trading_okD(1) [OF ok]]]
      by (simp add: buy_reserve_def)
  next
    case False
    then show ?thesis unfolding buy_plan_of_def by (simp add: buy_plan_limit sell_plan_priority)
  qed
  have mem: "\<forall>(a, f) \<in> set (buy_plan_of s b r). a \<in> set ?rows"
    by (auto simp: buy_plan_of_def dest: buy_plan_orders)
  have "map trade_info (new_trades s s') = buy_trades r (fresh_id o_id (orders s)) (buy_plan_of s b r)"
    by (rule new_trades_info) (use E in \<open>simp add: bought_def Let_def\<close>)
  moreover have "before Buy x y \<longleftrightarrow> ?k x < ?k y" for x y
    by (auto simp: before_def less_prod_def)
  ultimately have "executed r ask_fill ?rows (buy_plan_of s b r) s s' res"
    using E full P mem side sorted matching_distinct(1) [OF orders_okD(1) [OF O]] eligible_asks [OF side on]
    unfolding executed_def bought_def Let_def by (auto intro!: exI [of _ ?k])
  then show ?thesis by blast
qed

lemma sell_executed:
  assumes ok: "trading_ok s" and r: "request_ok r" and side: "rq_side r = Sell"
    and run: "placeSellLocked r s = (Inr res, s')"
  shows "\<exists>rows p. executed r bid_fill rows p s s' res"
proof -
  have q: "0 < rq_quantity r" using r by (simp add: request_ok_def)
  note O = trading_okD(2) [OF ok]
  from placeSellLocked_effect [OF trading_okD(1) [OF ok] O q run] obtain b where
    b: "lockActiveBook (rq_market r) s = (Inr b, s)" and E: "sold r (sell_plan_of s b r) s s' res"
    by blast
  note on = conjunct1 [OF lockActiveBook_on_book [OF b]] and P = sell_plan_facts [OF O r, of b]
  let ?rows = "matching_bids s b r" and ?k = "\<lambda>x. (- o_price x, o_id x)"
  have sorted: "sorted (map ?k ?rows)" unfolding matching_bids_def by (rule sort_key_sorted)
  have full: "full_then_one ?rows (sell_plan_of s b r)"
    unfolding sell_plan_of_def by (rule sell_plan_priority)
  have mem: "\<forall>(a, f) \<in> set (sell_plan_of s b r). a \<in> set ?rows"
    by (auto simp: sell_plan_of_def dest: sell_plan_orders)
  have "map trade_info (new_trades s s') = sell_trades r (fresh_id o_id (orders s)) (sell_plan_of s b r)"
    by (rule new_trades_info) (use E in \<open>simp add: sold_def Let_def\<close>)
  moreover have "before Sell x y \<longleftrightarrow> ?k x < ?k y" for x y
    by (auto simp: before_def less_prod_def)
  ultimately have "executed r bid_fill ?rows (sell_plan_of s b r) s s' res"
    using E full P mem side sorted matching_distinct(2) [OF orders_okD(1) [OF O]] eligible_bids [OF side on]
    unfolding executed_def sold_def Let_def by (auto intro!: exI [of _ ?k])
  then show ?thesis by blast
qed


lemma placeOrder_keeps:
  assumes "config_ok cfg" and "trading_ok s" and "placeOrder cfg r s = (Inr res, s')"
  shows "trading_ok s'"
proof -
  from placeOrder_run [OF assms] obtain s1 where "request_ok r" "trading_ok s1"
    and "if rq_side r = Buy then placeBuy r s1 = (Inr res, s') else placeSellLocked r s1 = (Inr res, s')"
    by metis
  then show ?thesis by (cases "rq_side r = Buy") (auto dest: placeBuy_trading(1) placeSellLocked_trading(1))
qed

definition maker_fill :: "Side \<Rightarrow> int \<Rightarrow> order_row \<Rightarrow> order_row" where
  "maker_fill sd = (if sd = Buy then ask_fill else bid_fill)"

definition opening_balance :: "service_config \<Rightarrow> db \<Rightarrow> string \<Rightarrow> Cents" where
  "opening_balance cfg s u =
    (if account_of s u = None then initial_balance_cents cfg else balance_of s u)"

lemma Side_cases: "sd \<noteq> Buy \<longleftrightarrow> sd = Sell"
  by (cases sd) auto

lemma placeOrder_executed:
  assumes "config_ok cfg" and "trading_ok s" and "placeOrder cfg r s = (Inr res, s')"
  obtains s1 rows p where "executed r (maker_fill (rq_side r)) rows p s1 s' res"
    "request_ok r" "orders s1 = orders s" "trades s1 = trades s" "trading_ok s1"
    "\<And>x. eligible s1 r x \<longleftrightarrow> eligible s r x"
    "balance_of s1 = (balance_of s)(rq_uuid r := opening_balance cfg s (rq_uuid r))"
proof -
  from placeOrder_run [OF assms] obtain s1 where r: "request_ok r"
    and e: "ensureAccount cfg (rq_uuid r) (rq_name r) s = (Inr (), s1)"
    and fr: "money_only s s1" and ok: "trading_ok s1"
    and run: "if rq_side r = Buy then placeBuy r s1 = (Inr res, s') else placeSellLocked r s1 = (Inr res, s')"
    by metis
  have bal: "balance_of s1 = (balance_of s)(rq_uuid r := opening_balance cfg s (rq_uuid r))"
    unfolding opening_balance_def
    by (rule ensureAccount_effect(5) [OF assms(1) trading_okD(1) [OF assms(2)] e refl])
  note M = money_onlyD [OF fr]
  have el: "eligible s1 r x \<longleftrightarrow> eligible s r x" for x
    using M by (simp add: eligible_def book_id_of_def market_of_def)
  have "\<exists>rows p. executed r (maker_fill (rq_side r)) rows p s1 s' res"
    using run buy_executed [OF ok r] sell_executed [OF ok r]
    by (cases "rq_side r") (auto simp: maker_fill_def)
  with that r M ok el bal show thesis by blast
qed

lemma executed_filled:
  assumes ex: "executed r upd rows p s s' res" and ok: "orders_ok s" and x: "x \<in> set (orders s)"
    and f: "(x, f) \<in> set p" and upd: "\<And>f x. o_id (upd f x) = o_id x"
  shows "order_of s' (o_id x) = Some (upd f x)"
proof -
  from ex have pf: "plan_for p (orders s)"
    and os: "orders s' = map (fill_row upd p) (orders s) @ [taker_row r (rq_side r)
        (fresh_id o_id (orders s)) (plan_quantity p)]" by (simp_all add: executed_def Let_def)
  have "plan_fills p (o_id x) = Some f" by (rule plan_fills_mem [OF pf f])
  then have row: "fill_row upd p x = upd f x" by (simp add: fill_row_def)
  have ids: "o_id (fill_row upd p z) = o_id z" for z
    by (simp add: fill_row_def upd split: option.splits)
  have d: "distinct (map o_id (map (fill_row upd p) (orders s)))"
    using orders_okD(1) [OF ok] by (simp add: o_def ids)
  have "fill_row upd p x \<in> set (map (fill_row upd p) (orders s))" using x by simp
  from find_key_distinct [OF d this]
  have "find (\<lambda>z. o_id z = o_id x) (map (fill_row upd p) (orders s)) = Some (upd f x)"
    by (simp only: row upd)
  then show ?thesis unfolding order_of_def os find_append by simp
qed

lemma maker_fill_fields [simp]:
  "o_id (maker_fill sd f x) = o_id x" "o_remaining (maker_fill sd f x) = o_remaining x - f"
  "o_player (maker_fill sd f x) = o_player x" "o_price (maker_fill sd f x) = o_price x"
  by (simp_all add: maker_fill_def)

lemma executed_trades:
  assumes "executed r upd rows p s s' res" and "t \<in> set (new_trades s s')"
  obtains a f where "(a, f) \<in> set p" "eligible s r a" "t_market t = rq_market r"
    "(if rq_side r = Buy then t_sell t else t_buy t) = o_id a"
    "(if rq_side r = Buy then t_buy t else t_sell t) = ex_order res"
    "(if rq_side r = Buy then t_seller t else t_buyer t) = o_player a"
    "(if rq_side r = Buy then t_buyer t else t_seller t) = rq_uuid r"
    "t_price t = o_price a" "t_quantity t = f" "0 < f" "f \<le> o_remaining a"
proof -
  have info: "map trade_info (new_trades s s') = map (\<lambda>(a, f). (rq_market r,
      if rq_side r = Buy then ex_order res else o_id a, if rq_side r = Buy then o_id a else ex_order res,
      if rq_side r = Buy then rq_uuid r else o_player a, if rq_side r = Buy then o_player a else rq_uuid r,
      o_price a, f)) p"
    using assms(1) by (auto simp: executed_def Let_def buy_trades_def sell_trades_def)
  from trade_from_plan [OF info assms(2)] obtain a f where af: "(a, f) \<in> set p"
    and t: "t_market t = rq_market r"
    "t_buy t = (if rq_side r = Buy then ex_order res else o_id a)"
    "t_sell t = (if rq_side r = Buy then o_id a else ex_order res)"
    "t_buyer t = (if rq_side r = Buy then rq_uuid r else o_player a)"
    "t_seller t = (if rq_side r = Buy then o_player a else rq_uuid r)"
    "t_price t = o_price a" "t_quantity t = f" by blast
  from assms(1) af have "a \<in> set rows" "0 < f" "f \<le> o_remaining a"
    by (auto simp: executed_def Let_def plan_for_def)
  moreover from this(1) assms(1) have "eligible s r a" by (auto simp: executed_def Let_def)
  ultimately show thesis using that [OF af] t by simp
qed


lemma executed_trade_sums:
  assumes ex: "executed r upd rows p s s' res"
  shows "(\<Sum>t\<leftarrow>new_trades s s'. t_quantity t) = plan_quantity p"
    "(\<Sum>t\<leftarrow>new_trades s s'. t_price t * t_quantity t) = plan_value p"
    "rq_side r = Buy \<Longrightarrow> (\<Sum>t\<leftarrow>new_trades s s'. if t_seller t = u then t_price t * t_quantity t else 0) =
      plan_value_of u p"
proof -
  have buy: "map trade_info (new_trades s s') = buy_trades r (ex_order res) p" if "rq_side r = Buy"
    using ex that by (auto simp: executed_def Let_def)
  have sell: "map trade_info (new_trades s s') = sell_trades r (ex_order res) p" if "rq_side r \<noteq> Buy"
    using ex that by (auto simp: executed_def Let_def)
  show "(\<Sum>t\<leftarrow>new_trades s s'. t_quantity t) = plan_quantity p"
    by (cases "rq_side r = Buy")
      (use trade_sums(1) [OF buy [unfolded buy_trades_def]]
        trade_sums(1) [OF sell [unfolded sell_trades_def]] in auto)
  show "(\<Sum>t\<leftarrow>new_trades s s'. t_price t * t_quantity t) = plan_value p"
    by (cases "rq_side r = Buy")
      (use trade_sums(2) [OF buy [unfolded buy_trades_def]]
        trade_sums(2) [OF sell [unfolded sell_trades_def]] in auto)
  show "(\<Sum>t\<leftarrow>new_trades s s'. if t_seller t = u then t_price t * t_quantity t else 0) =
      plan_value_of u p" if "rq_side r = Buy"
    using trade_sums(3) [OF buy [OF that, unfolded buy_trades_def]] by (simp add: plan_value_of_def)
qed

lemma plan_value_of_self:
  "\<forall>(a, f) \<in> set p. o_player a \<noteq> u \<Longrightarrow> plan_value_of u p = 0"
  by (induction p) auto


section \<open>Properties\<close>

lemma demo_trading_ok: "trading_ok demo_db"
  by (simp add: trading_ok_def demo_money_ok demo_orders_ok demo_uncrossed)

definition demo_bought :: db where
  "demo_bought = snd (placeOrder demo_cfg demo_buy demo_db)"

definition demo_buy_result :: ExecutionResult where
  "demo_buy_result = \<lparr>ex_order = 5, ex_requested = 4, ex_filled = 4, ex_open = 0, ex_gross = 110,
     ex_balance = 890\<rparr>"

lemma demo_buy_run: "placeOrder demo_cfg demo_buy demo_db = (Inr demo_buy_result, demo_bought)"
proof -
  have "fst (placeOrder demo_cfg demo_buy demo_db) = Inr demo_buy_result" by code_simp
  then show ?thesis unfolding demo_bought_def by (metis prod.collapse)
qed

definition demo_sold :: db where
  "demo_sold = snd (placeOrder demo_cfg demo_sell demo_db)"

definition demo_sell_result :: ExecutionResult where
  "demo_sell_result = \<lparr>ex_order = 5, ex_requested = 6, ex_filled = 4, ex_open = 0, ex_gross = 80,
     ex_balance = 380\<rparr>"

lemma demo_sell_run: "placeOrder demo_cfg demo_sell demo_db = (Inr demo_sell_result, demo_sold)"
proof -
  have "fst (placeOrder demo_cfg demo_sell demo_db) = Inr demo_sell_result" by code_simp
  then show ?thesis unfolding demo_sold_def by (metis prod.collapse)
qed



text \<open>
  C2: An accepted order makes and destroys neither money nor items. The sum of all balances and
  all reserves changes only by the opening balance of a new player, and the items a book holds
  (resting sell orders and undelivered deliveries) grow by exactly what a seller hands in.
\<close>

theorem placeOrder_conserves:
  assumes "config_ok cfg" and "trading_ok s" and "placeOrder cfg r s = (Inr res, s')"
  shows "money_supply s' =
      money_supply s + (if account_of s (rq_uuid r) = None then initial_balance_cents cfg else 0) \<and>
    items_held s' b =
      items_held s b + (if rq_side r = Sell \<and> on_book s b (rq_market r) then rq_quantity r else 0)"
proof -
  from placeOrder_run [OF assms] obtain s1 where r: "request_ok r" and fr: "money_only s s1"
    and ok: "trading_ok s1" and m: "money_supply s1 =
      money_supply s + (if account_of s (rq_uuid r) = None then initial_balance_cents cfg else 0)"
    and run: "if rq_side r = Buy then placeBuy r s1 = (Inr res, s') else placeSellLocked r s1 = (Inr res, s')"
    by metis
  have h: "items_held s1 b = items_held s b" by (rule money_only_supply(2) [OF fr])
  have on: "on_book s1 = on_book s" by (rule trade_frame_refs(3) [OF money_only_trade_frame [OF fr]])
  from run m h on placeBuy_trading(2,3) [OF ok r] placeSellLocked_trading(2,3) [OF ok r]
  show ?thesis by (cases "rq_side r") simp_all
qed

theorem placeOrder_conserves_witness:
  "money_supply demo_sold = money_supply demo_db \<and> items_held demo_sold 1 = items_held demo_db 1 + 6"
proof -
  have "account_of demo_db (rq_uuid demo_sell) \<noteq> None" "rq_side demo_sell = Sell" "rq_quantity demo_sell = 6"
    "on_book demo_db 1 (rq_market demo_sell)" by code_simp+
  then show ?thesis
    using placeOrder_conserves [OF demo_cfg_ok demo_trading_ok demo_sell_run, of 1] by auto
qed


text \<open>
  C3: Price-time priority. Whenever an order trades with a resting order \<open>y\<close>, every resting order
  it could have traded with that comes before \<open>y\<close> (a better price, or the same price and an
  earlier id) has been filled completely.
\<close>

theorem price_time_priority:
  assumes "config_ok cfg" and "trading_ok s" and "placeOrder cfg r s = (Inr res, s')"
    and "eligible s r x" and "y \<in> set (orders s)" and "before (rq_side r) x y"
    and "t \<in> set (new_trades s s')" and "o_id y = (if rq_side r = Buy then t_sell t else t_buy t)"
  shows "\<exists>x'. order_of s' (o_id x) = Some x' \<and> o_remaining x' = 0 \<and> \<not> resting x'"
proof -
  from placeOrder_executed [OF assms(1-3)] obtain s1 rows p where
    ex: "executed r (maker_fill (rq_side r)) rows p s1 s' res" and os: "orders s1 = orders s"
    and ts: "trades s1 = trades s" and ok: "trading_ok s1"
    and el: "\<And>x. eligible s1 r x \<longleftrightarrow> eligible s r x" by metis
  note O = trading_okD(2) [OF ok]
  have "t \<in> set (new_trades s1 s')" using assms(7) ts by (simp add: new_trades_def)
  from executed_trades [OF ex this] obtain a f where af: "(a, f) \<in> set p" "eligible s1 r a"
    and t: "(if rq_side r = Buy then t_sell t else t_buy t) = o_id a" by metis
  have "a = y"
    using distinct_key_eq [OF orders_okD(1) [OF O], of a y] af(2) assms(5,8) t os
    by (simp add: eligible_def)
  from ex obtain k where rows: "\<And>z. z \<in> set rows \<longleftrightarrow> eligible s1 r z"
    and k: "\<forall>x \<in> set rows. \<forall>y \<in> set rows. before (rq_side r) x y \<longleftrightarrow> k x < (k y :: int \<times> nat)"
      "sorted (map k rows)" and full: "full_then_one rows p"
    unfolding executed_def Let_def by blast
  have "k x < k a" using k(1) rows el assms(4,6) af(2) \<open>a = y\<close> by simp
  then have "(x, o_remaining x) \<in> set p"
    using full_then_one_before [OF full k(2) af(1)] rows el assms(4) by simp
  from executed_filled [OF ex O _ this] have x': "order_of s' (o_id x) =
      Some (maker_fill (rq_side r) (o_remaining x) x)"
    using assms(4) os by (simp add: eligible_def)
  then show ?thesis by (simp add: maker_fill_def resting_def open_status_def)
qed

theorem price_time_priority_witness:
  "\<exists>x'. order_of demo_bought 2 = Some x' \<and> o_remaining x' = 0 \<and> \<not> resting x'"
proof -
  let ?x = "demo_order 2 ''carol'' Sell 25 2" and ?y = "demo_order 1 ''bob'' Sell 30 5"
  let ?t = "mk_trade 2 (2, 5, 1, ''alice'', ''bob'', 30, 2)"
  have "eligible demo_db demo_buy ?x" "?y \<in> set (orders demo_db)" "before (rq_side demo_buy) ?x ?y"
    "?t \<in> set (new_trades demo_db demo_bought)"
    "o_id ?y = (if rq_side demo_buy = Buy then t_sell ?t else t_buy ?t)" by code_simp+
  from price_time_priority [OF demo_cfg_ok demo_trading_ok demo_buy_run this]
  show ?thesis by (simp add: demo_order_def)
qed

text \<open>
  C6: The trades an accepted order logs account for its result. Their quantities sum to what was
  filled and their values to the gross amount; each is at the resting order's price, within the
  request's limit, for a positive quantity, never with oneself; and what is neither filled nor
  left open (a market order's remainder) is the rest of the request.
\<close>

theorem trades_match_result:
  assumes "config_ok cfg" and "trading_ok s" and "placeOrder cfg r s = (Inr res, s')"
  shows "(\<Sum>t\<leftarrow>new_trades s s'. t_quantity t) = ex_filled res \<and>
    (\<Sum>t\<leftarrow>new_trades s s'. t_price t * t_quantity t) = ex_gross res \<and>
    0 \<le> ex_filled res \<and> ex_filled res \<le> rq_quantity r \<and>
    ex_open res = (if rq_type r = Limit then rq_quantity r - ex_filled res else 0) \<and>
    (\<forall>t \<in> set (new_trades s s'). t_buyer t \<noteq> t_seller t \<and> 0 < t_quantity t \<and>
      (\<exists>x. eligible s r x \<and> t_price t = o_price x \<and> t_quantity t \<le> o_remaining x \<and>
        o_id x = (if rq_side r = Buy then t_sell t else t_buy t)))"
proof -
  from placeOrder_executed [OF assms(1-3)] obtain s1 rows p where
    ex: "executed r (maker_fill (rq_side r)) rows p s1 s' res"
    and ts: "trades s1 = trades s" and el: "\<And>x. eligible s1 r x \<longleftrightarrow> eligible s r x" by metis
  have new: "new_trades s1 s' = new_trades s s'" by (simp add: new_trades_def ts)
  have each: "t_buyer t \<noteq> t_seller t \<and> 0 < t_quantity t \<and>
      (\<exists>x. eligible s r x \<and> t_price t = o_price x \<and> t_quantity t \<le> o_remaining x \<and>
        o_id x = (if rq_side r = Buy then t_sell t else t_buy t))" if "t \<in> set (new_trades s s')" for t
  proof -
    from executed_trades [OF ex that [folded new]] obtain a f where a: "eligible s1 r a"
      "(if rq_side r = Buy then t_sell t else t_buy t) = o_id a"
      "(if rq_side r = Buy then t_seller t else t_buyer t) = o_player a"
      "(if rq_side r = Buy then t_buyer t else t_seller t) = rq_uuid r"
      "t_price t = o_price a" "t_quantity t = f" "0 < f" "f \<le> o_remaining a" by blast
    then have "o_player a \<noteq> rq_uuid r" by (simp add: eligible_def)
    with a el show ?thesis by (auto split: if_splits)
  qed
  have "0 \<le> plan_quantity p" "plan_quantity p \<le> rq_quantity r"
    using ex by (auto simp: executed_def Let_def plan_for_quantity_nonneg)
  moreover have "ex_filled res = plan_quantity p" "ex_gross res = plan_value p"
    "ex_open res = (if rq_type r = Limit then rq_quantity r - plan_quantity p else 0)"
    using ex by (simp_all add: executed_def Let_def)
  ultimately show ?thesis using executed_trade_sums(1,2) [OF ex] each by (simp add: new)
qed

theorem trades_match_result_witness:
  "(\<Sum>t\<leftarrow>new_trades demo_db demo_bought. t_price t * t_quantity t) = 110 \<and>
   filter (\<lambda>t. t_buyer t = t_seller t) (new_trades demo_db demo_bought) = []"
  using trades_match_result [OF demo_cfg_ok demo_trading_ok demo_buy_run]
  by (simp add: demo_buy_result_def filter_empty_conv)

text \<open>
  C7: What an accepted order does to every balance. The taker pays the gross amount of the trades
  plus the reserve of what stays open (so a price improvement is refunded), or receives the gross
  amount; the maker of every ask receives the proceeds of its trades, the maker of a bid paid
  when it placed the bid; the reported balance is the taker's balance and is never negative.
\<close>

theorem placeOrder_balances:
  assumes "config_ok cfg" and "trading_ok s" and "placeOrder cfg r s = (Inr res, s')"
  shows "balance_of s' (rq_uuid r) = ex_balance res \<and> 0 \<le> ex_balance res \<and>
    ex_balance res = opening_balance cfg s (rq_uuid r) +
      (if rq_side r = Buy then - ex_gross res - (if rq_type r = Limit then rq_price r * ex_open res else 0)
       else ex_gross res) \<and>
    (v = rq_uuid r \<or> balance_of s' v = balance_of s v +
      (\<Sum>t\<leftarrow>new_trades s s'. if rq_side r = Buy \<and> t_seller t = v then t_price t * t_quantity t else 0))"
proof -
  from placeOrder_executed [OF assms(1-3)] obtain s1 rows p where
    ex: "executed r (maker_fill (rq_side r)) rows p s1 s' res"
    and ts: "trades s1 = trades s"
    and bal: "balance_of s1 = (balance_of s)(rq_uuid r := opening_balance cfg s (rq_uuid r))" by metis
  let ?u = "rq_uuid r"
  have new: "new_trades s1 s' = new_trades s s'" by (simp add: new_trades_def ts)
  from ex have "\<forall>(a, f) \<in> set p. o_player a \<noteq> ?u"
    by (fastforce simp: executed_def Let_def eligible_def)
  then have self: "plan_value_of ?u p = 0" by (rule plan_value_of_self)
  have res: "ex_balance res = balance_of s' ?u" "ex_gross res = plan_value p"
    "ex_open res = (if rq_type r = Limit then rq_quantity r - plan_quantity p else 0)"
    and B: "\<And>v. balance_of s' v = balance_of s1 v + (if rq_side r = Buy then plan_value_of v p else 0) +
       (if v = ?u then if rq_side r = Buy then plan_refund r p - buy_reserve r else plan_value p else 0)"
    using ex by (simp_all add: executed_def Let_def)
  have "trading_ok s'" by (rule placeOrder_keeps [OF assms])
  then have "0 \<le> balance_of s' ?u"
    using balance_of_range(1) [OF money_ok_accounts_ok [OF trading_okD(1)]] by blast
  moreover have "balance_of s' ?u = opening_balance cfg s ?u +
      (if rq_side r = Buy then - ex_gross res - (if rq_type r = Limit then rq_price r * ex_open res else 0)
       else ex_gross res)"
    using B [of ?u] self bal res(2,3)
    by (cases "rq_type r"; cases "rq_side r") (simp_all add: plan_refund_def buy_reserve_def right_diff_distrib)
  moreover have "balance_of s' v = balance_of s v +
      (\<Sum>t\<leftarrow>new_trades s s'. if rq_side r = Buy \<and> t_seller t = v then t_price t * t_quantity t else 0)"
    if "v \<noteq> ?u"
    using B [of v] that bal executed_trade_sums(3) [OF ex, of v] by (simp add: new)
  ultimately show ?thesis using res(1) by auto
qed

theorem placeOrder_balances_witness:
  "balance_of demo_bought ''alice'' = 1000 - 110 \<and> balance_of demo_bought ''bob'' = 200 + 60"
proof -
  have s: "(\<Sum>t\<leftarrow>new_trades demo_db demo_bought.
      if rq_side demo_buy = Buy \<and> t_seller t = ''bob'' then t_price t * t_quantity t else 0) = 60"
    "balance_of demo_db ''bob'' = 200" "rq_uuid demo_buy = ''alice''" by code_simp+
  from placeOrder_balances [OF demo_cfg_ok demo_trading_ok demo_buy_run, of "''bob''"] s
  show ?thesis by (simp add: demo_buy_result_def)
qed

end
