(* ===== verification/Progress.thy ===== *)
theory Progress
  imports Trading "HOL-Library.Multiset"
begin

text \<open>
  Requests that must succeed do succeed. Every internal check of the matching engine (the
  overflow checks of \<open>checkedProduct\<close> and of the BIGINT columns, the balance check of \<open>debit\<close>,
  the reserve check of \<open>placeSellLocked\<close>) is shown to pass in every state with the trading
  invariant whose money fits a signed 64-bit integer, so that acceptance depends only on what
  the request says. The loops run over the fetched rows and so always end.
\<close>

section \<open>The money primitives\<close>

lemma credit_total:
  assumes "money_ok s" and "account_of s u \<noteq> None" and "0 \<le> m" and "total_balance s + m \<le> int64_max"
    and "r \<noteq> []"
  shows "\<exists>s'. credit u m r rt ri s = (Inr (), s')"
proof -
  have "balance_of s u + m \<le> int64_max"
    using total_balance_member [OF money_ok_accounts_ok [OF assms(1)], of u] assms(4) by simp
  then show ?thesis
    using assms credit_Inr [OF money_ok_accounts_ok [OF assms(1)]] by (cases "m = 0") auto
qed

lemma debit_total:
  assumes "money_ok s" and "account_of s u \<noteq> None" and "0 \<le> m" and "m \<le> balance_of s u" and "r \<noteq> []"
  shows "\<exists>s'. debit u m r rt ri s = (Inr (), s')"
  using assms debit_Inr [OF money_ok_accounts_ok [OF assms(1)]] by (cases "m = 0") auto

lemma total_balance_range:
  assumes "money_ok s" and "account_of s u \<noteq> None" and "debit u m r rt ri s = (Inr (), s')"
  shows "total_balance s' + m = total_balance s"
  using debit_effect(6) [OF assms(1,3)] by simp

lemma trade_frame_account: "trade_frame s s' \<Longrightarrow> account_of s u \<noteq> None \<Longrightarrow> account_of s' u \<noteq> None"
  by (rule trade_frame_refs(1))

lemma reserved_nonneg:
  assumes "order_ok x"
  shows "0 \<le> o_reserved x"
proof -
  from assms have "0 < o_remaining x \<longrightarrow> 0 < o_price x" "0 \<le> o_remaining x"
    by (auto simp: order_ok_def resting_def)
  then have "0 \<le> o_price x * o_remaining x" by (cases "o_remaining x = 0") auto
  with assms show ?thesis by (simp add: order_ok_def)
qed

section \<open>The buy loop\<close>

lemma fill_ask_total:
  assumes ok: "money_ok s" and acc: "account_of s (o_player a) \<noteq> None" and p: "0 \<le> o_price a" "0 < f"
    and cap: "total_balance s + o_price a * f \<le> int64_max"
  shows "\<exists>s'. fill_ask r i a f s = (Inr (o_price a * f), s')"
proof -
  let ?s1 = "s\<lparr>orders := upd_where (\<lambda>x. o_id x = o_id a) (set_fill (o_remaining a - f)
        (if o_remaining a - f = 0 then OrderFilled else OrderPartial)) (orders s)\<rparr>"
  have "0 \<le> total_balance s"
    using ok by (auto simp: total_balance_def money_ok_def accounts_ok_def intro!: sum_list_nonneg)
  then have "o_price a * f \<le> int64_max" using cap by simp
  then have cp: "checkedProduct (o_price a) f = Inr (o_price a * f)" using p by (simp add: checkedProduct_iff)
  have "\<exists>s2. credit (o_player a) (o_price a * f) ''TRADE_PROCEEDS'' ''ORDER'' (Some (o_id a)) ?s1 = (Inr (), s2)"
    by (rule credit_total) (use ok acc p cap in simp_all)
  then show ?thesis using cp
    by (auto simp: fill_ask_def updateOrder_def insertTrade_def svc_evals addDelivery_def)
qed

definition buy_ready :: "OrderRequest \<Rightarrow> order_row list \<Rightarrow> int \<Rightarrow> Cents \<Rightarrow> db \<Rightarrow> bool" where
  "buy_ready r as n av s \<longleftrightarrow> money_ok s \<and> account_of s (rq_uuid r) \<noteq> None \<and> 0 \<le> n \<and>
    (\<forall>a \<in> set as. account_of s (o_player a) \<noteq> None \<and> o_player a \<noteq> rq_uuid r \<and> 0 < o_price a \<and>
      0 < o_remaining a \<and> (rq_type r \<noteq> Market \<longrightarrow> o_price a \<le> rq_price r)) \<and>
    (if rq_type r = Market then av = balance_of s (rq_uuid r) \<and> total_balance s \<le> int64_max
     else 0 \<le> rq_price r \<and> total_balance s + rq_price r * n \<le> int64_max)"

lemma buy_ready_step_market:
  assumes rdy: "buy_ready r (a # as) n av s" and mk: "rq_type r = Market" and f: "0 < f" "f \<le> n"
    "f \<le> av sdiv o_price a"
  shows "\<exists>s1 s2. checkedProduct (o_price a) f = Inr (o_price a * f) \<and>
    debit (rq_uuid r) (o_price a * f) ''MARKET_BUY_TRADE'' ''ORDER'' (Some i) s = (Inr (), s1) \<and>
    fill_ask r i a f s1 = (Inr (o_price a * f), s2) \<and> buy_ready r as (n - f) (av - o_price a * f) s2"
proof -
  let ?u = "rq_uuid r" and ?c = "o_price a * f"
  from rdy mk have ok: "money_ok s" and acc: "account_of s ?u \<noteq> None" "account_of s (o_player a) \<noteq> None"
    and ne: "o_player a \<noteq> ?u" and price: "0 < o_price a" and av: "av = balance_of s ?u"
    and cap: "total_balance s \<le> int64_max"
    by (auto simp: buy_ready_def simp del: not_None_eq)
  have "0 \<le> av" "av \<le> int64_max" using av balance_of_range [OF money_ok_accounts_ok [OF ok]] by simp_all
  then have cost: "?c \<le> av"
    using f(3) price le_div_iff_mult_le [of "o_price a" f av] by (simp add: sdiv_nonneg_eq_div mult.commute)
  have c0: "0 \<le> ?c" using price f(1) by simp
  have cp: "checkedProduct (o_price a) f = Inr ?c"
    using price f(1) cost \<open>av \<le> int64_max\<close> by (simp add: checkedProduct_iff)
  obtain s1 where d: "debit ?u ?c ''MARKET_BUY_TRADE'' ''ORDER'' (Some i) s = (Inr (), s1)"
    using debit_total [OF ok acc(1) c0] cost av by blast
  note D = debit_effect [OF ok d] and fr1 = money_only_trade_frame [OF debit_effect(4) [OF ok d]]
  have "\<exists>s2. fill_ask r i a f s1 = (Inr ?c, s2)"
    by (rule fill_ask_total) (use D trade_frame_account [OF fr1 acc(2)] price f cap in simp_all)
  then obtain s2 where fa: "fill_ask r i a f s1 = (Inr ?c, s2)" ..
  note F = fill_ask_effect [OF D(3) fa f(1)]
  have fr: "trade_frame s s2" by (rule trade_frame_trans [OF fr1 F(8)])
  have "balance_of s2 ?u = av - ?c" using F(4) D(5) av ne by simp
  moreover have "\<forall>x \<in> set as. account_of s2 (o_player x) \<noteq> None"
    using rdy trade_frame_account [OF fr] by (simp add: buy_ready_def del: not_None_eq)
  ultimately have "buy_ready r as (n - f) (av - ?c) s2"
    using rdy mk F(2,3) D(6) f(2) trade_frame_account [OF fr acc(1)]
    by (simp add: buy_ready_def del: not_None_eq)
  with cp d fa show ?thesis by blast
qed

lemma buy_ready_step_limit:
  assumes rdy: "buy_ready r (a # as) n av s" and lim: "rq_type r \<noteq> Market" and f: "0 < f" "f \<le> n"
  shows "\<exists>s1 s2. checkedProduct (rq_price r - o_price a) f = Inr ((rq_price r - o_price a) * f) \<and>
    whenS ((rq_price r - o_price a) * f > 0) (credit (rq_uuid r) ((rq_price r - o_price a) * f)
      ''PRICE_IMPROVEMENT_REFUND'' ''ORDER'' (Some i)) s = (Inr (), s1) \<and>
    fill_ask r i a f s1 = (Inr (o_price a * f), s2) \<and> buy_ready r as (n - f) av' s2"
proof -
  let ?u = "rq_uuid r" and ?d = "(rq_price r - o_price a) * f"
  from rdy lim have ok: "money_ok s" and acc: "account_of s ?u \<noteq> None" "account_of s (o_player a) \<noteq> None"
    and price: "0 < o_price a" "o_price a \<le> rq_price r"
    and cap: "total_balance s + rq_price r * n \<le> int64_max"
    by (auto simp: buy_ready_def simp del: not_None_eq)
  have split: "?d + o_price a * f = rq_price r * f" by (simp add: algebra_simps)
  have mono: "rq_price r * f \<le> rq_price r * n" using price f by (intro mult_left_mono) auto
  have d0: "0 \<le> ?d" "0 \<le> o_price a * f" using price f by simp_all
  have t0: "0 \<le> total_balance s"
    using ok by (auto simp: total_balance_def money_ok_def accounts_ok_def intro!: sum_list_nonneg)
  have capd: "total_balance s + ?d + o_price a * f \<le> int64_max" using cap split mono by linarith
  then have "?d \<le> int64_max" using t0 d0 by linarith
  then have cp: "checkedProduct (rq_price r - o_price a) f = Inr ?d"
    using price f by (simp add: checkedProduct_iff)
  have "\<exists>s1. credit ?u ?d ''PRICE_IMPROVEMENT_REFUND'' ''ORDER'' (Some i) s = (Inr (), s1)"
    by (rule credit_total [OF ok acc(1) d0(1)]) (use capd d0 in simp_all)
  then have "\<exists>s1. whenS (?d > 0) (credit ?u ?d ''PRICE_IMPROVEMENT_REFUND'' ''ORDER'' (Some i)) s =
      (Inr (), s1)" by (cases "?d > 0") (simp_all add: whenS_def returnS_def)
  then obtain s1 where w: "whenS (?d > 0) (credit ?u ?d ''PRICE_IMPROVEMENT_REFUND'' ''ORDER'' (Some i)) s
      = (Inr (), s1)" ..
  have R: "money_ok s1 \<and> money_only s s1 \<and> total_balance s1 = total_balance s + ?d"
    using w credit_effect [OF ok] ok d0(1) by (auto simp: whenS_Inr split: if_splits)
  note fr1 = money_only_trade_frame [OF conjunct1 [OF conjunct2 [OF R]]]
  have "\<exists>s2. fill_ask r i a f s1 = (Inr (o_price a * f), s2)"
    by (rule fill_ask_total) (use R trade_frame_account [OF fr1 acc(2)] price f capd in simp_all)
  then obtain s2 where fa: "fill_ask r i a f s1 = (Inr (o_price a * f), s2)" ..
  note F = fill_ask_effect [OF conjunct1 [OF R] fa f(1)]
  have fr: "trade_frame s s2" by (rule trade_frame_trans [OF fr1 F(8)])
  have "total_balance s2 + rq_price r * (n - f) = total_balance s + rq_price r * n"
    using F(3) R split by (simp add: right_diff_distrib)
  moreover have "\<forall>x \<in> set as. account_of s2 (o_player x) \<noteq> None"
    using rdy trade_frame_account [OF fr] by (simp add: buy_ready_def del: not_None_eq)
  ultimately have "buy_ready r as (n - f) av' s2"
    using rdy lim F(2) f(2) cap trade_frame_account [OF fr acc(1)]
    by (simp add: buy_ready_def del: not_None_eq)
  with cp w fa show ?thesis by blast
qed

lemma buy_loop_total:
  "buy_ready r as n av s \<Longrightarrow> \<exists>x s'. buy_loop r i as n fl gr av s = (Inr x, s')"
proof (induction as arbitrary: n fl gr av s)
  case Nil
  then show ?case by (simp add: returnS_def)
next
  case (Cons a as)
  have pos: "0 \<le> n" "0 < o_remaining a" using Cons.prems by (simp_all add: buy_ready_def)
  show ?case
  proof (cases "n = 0")
    case True
    then show ?thesis by (simp add: returnS_def)
  next
    case n: False
    show ?thesis
    proof (cases "rq_type r = Market")
      case mk: True
      define f where "f = min (min n (o_remaining a)) (av sdiv o_price a)"
      show ?thesis
      proof (cases "f \<le> 0")
        case True
        then show ?thesis using n mk by (simp add: Let_def f_def returnS_def)
      next
        case False
        then have f: "0 < f" "f \<le> n" "f \<le> av sdiv o_price a" by (simp_all add: f_def not_le)
        from buy_ready_step_market [OF Cons.prems mk f] obtain s1 s2 where
          "checkedProduct (o_price a) f = Inr (o_price a * f)"
          "debit (rq_uuid r) (o_price a * f) ''MARKET_BUY_TRADE'' ''ORDER'' (Some i) s = (Inr (), s1)"
          "fill_ask r i a f s1 = (Inr (o_price a * f), s2)"
          and rdy: "buy_ready r as (n - f) (av - o_price a * f) s2" by blast
        then show ?thesis
          using n mk False Cons.IH [OF rdy] by (simp add: Let_def bindS_def liftS_def f_def [symmetric])
      qed
    next
      case lim: False
      define f where "f = min n (o_remaining a)"
      have f: "0 < f" "f \<le> n" using n pos by (simp_all add: f_def)
      from buy_ready_step_limit [OF Cons.prems lim f] obtain s1 s2 where
        "checkedProduct (rq_price r - o_price a) f = Inr ((rq_price r - o_price a) * f)"
        "whenS ((rq_price r - o_price a) * f > 0) (credit (rq_uuid r) ((rq_price r - o_price a) * f)
          ''PRICE_IMPROVEMENT_REFUND'' ''ORDER'' (Some i)) s = (Inr (), s1)"
        "fill_ask r i a f s1 = (Inr (o_price a * f), s2)"
        and rdy: "buy_ready r as (n - f) (av + (rq_price r - o_price a) * f) s2" by blast
      then show ?thesis
        using n lim Cons.IH [OF rdy] by (simp add: Let_def bindS_def liftS_def f_def [symmetric])
    qed
  qed
qed


section \<open>The sell loop\<close>

definition bids_value :: "order_row list \<Rightarrow> Cents" where
  "bids_value bs = (\<Sum>b\<leftarrow>bs. o_price b * o_remaining b)"

definition sell_ready :: "OrderRequest \<Rightarrow> order_row list \<Rightarrow> int \<Rightarrow> db \<Rightarrow> bool" where
  "sell_ready r bs n s \<longleftrightarrow> money_ok s \<and> account_of s (rq_uuid r) \<noteq> None \<and> 0 \<le> n \<and>
    (\<forall>b \<in> set bs. 0 < o_price b \<and> 0 < o_remaining b \<and> o_reserved b = o_price b * o_remaining b) \<and>
    total_balance s + bids_value bs \<le> int64_max"

lemma sell_ready_step:
  assumes rdy: "sell_ready r (b # bs) n s" and f: "0 < f" "f \<le> n" "f \<le> o_remaining b"
  shows "\<exists>s1. fill_bid r i b f s = (Inr (o_price b * f), s1) \<and> sell_ready r bs (n - f) s1"
proof -
  let ?u = "rq_uuid r" and ?c = "o_price b * f"
  let ?s1 = "s\<lparr>orders := upd_where (\<lambda>x. o_id x = o_id b)
        (set_fill_reserved (o_remaining b - f) (o_reserved b - ?c)
        (if o_remaining b - f = 0 then OrderFilled else OrderPartial)) (orders s)\<rparr>"
  from rdy have ok: "money_ok s" and acc: "account_of s ?u \<noteq> None"
    and b: "0 < o_price b" "o_reserved b = o_price b * o_remaining b"
    and cap: "total_balance s + (o_price b * o_remaining b + bids_value bs) \<le> int64_max"
    by (simp_all add: sell_ready_def bids_value_def del: not_None_eq)
  have le: "?c \<le> o_price b * o_remaining b" using b f by (intro mult_left_mono) auto
  have "\<forall>b \<in> set bs. 0 \<le> o_price b * o_remaining b" using rdy by (auto simp: sell_ready_def)
  then have "0 \<le> bids_value bs" unfolding bids_value_def by (intro sum_list_nonneg) auto
  then have capc: "total_balance s + ?c \<le> int64_max" using cap le by linarith
  have t0: "0 \<le> total_balance s"
    using ok by (auto simp: total_balance_def money_ok_def accounts_ok_def intro!: sum_list_nonneg)
  have c0: "0 \<le> ?c" using b f by simp
  have cp: "checkedProduct (o_price b) f = Inr ?c" using b f t0 capc by (simp add: checkedProduct_iff)
  have "\<exists>s2. credit ?u ?c ''TRADE_PROCEEDS'' ''ORDER'' (Some i) ?s1 = (Inr (), s2)"
    by (rule credit_total) (use ok acc c0 capc in simp_all)
  then obtain s2 where c: "credit ?u ?c ''TRADE_PROCEEDS'' ''ORDER'' (Some i) ?s1 = (Inr (), s2)" ..
  have ok1: "money_ok ?s1" using ok by simp
  note C = credit_effect [OF ok1 c] and M = money_onlyD [OF credit_effect(3) [OF ok1 c]]
  define s3 where "s3 = s2\<lparr>deliveries := add_rows d_id (trade_delivery ''TRADE_BUY'') (deliveries s2)
        [(o_player b, rq_market r, f)],
      trades := add_rows t_id mk_trade (trades s2) (sell_trades r i [(b, f)])\<rparr>"
  have "fill_bid r i b f s = (Inr ?c, s3)"
    using cp c le b f
    by (simp add: fill_bid_def updateOrder_def insertTrade_def svc_evals addDelivery_def s3_def
        add_rows_Cons trade_delivery_def mk_trade_def sell_trades_def)
  moreover have "account_of s2 ?u \<noteq> None"
    using money_only_exists [OF C(3), of ?u] acc by (simp del: not_None_eq)
  moreover have "total_balance s2 + bids_value bs \<le> int64_max" using C(5) cap le by simp
  ultimately have "fill_bid r i b f s = (Inr ?c, s3) \<and> sell_ready r bs (n - f) s3"
    using rdy C(2) f(2) by (simp add: sell_ready_def s3_def del: not_None_eq)
  then show ?thesis by blast
qed

lemma sell_loop_total:
  "sell_ready r bs n s \<Longrightarrow> \<exists>x s'. sell_loop r i bs n fl gr s = (Inr x, s')"
proof (induction bs arbitrary: n fl gr s)
  case Nil
  then show ?case by (simp add: returnS_def)
next
  case (Cons b bs)
  show ?case
  proof (cases "n = 0")
    case True
    then show ?thesis by (simp add: returnS_def)
  next
    case False
    define f where "f = min n (o_remaining b)"
    have f: "0 < f" "f \<le> n" "f \<le> o_remaining b"
      using False Cons.prems by (auto simp: f_def sell_ready_def)
    from sell_ready_step [OF Cons.prems f] obtain s1 where
      "fill_bid r i b f s = (Inr (o_price b * f), s1)" "sell_ready r bs (n - f) s1" by blast
    then show ?thesis
      using False Cons.IH by (simp add: Let_def bindS_def f_def [symmetric])
  qed
qed

section \<open>Placing orders\<close>

lemma placeBuy_total:
  assumes ok: "trading_ok s" and r: "request_ok r" and cap: "total_balance s \<le> int64_max"
    and lk: "lockActiveBook (rq_market r) s = (Inr b, s)" and acc: "account_of s (rq_uuid r) \<noteq> None"
    and lim: "rq_type r = Limit \<longrightarrow> rq_price r * rq_quantity r \<le> balance_of s (rq_uuid r)"
  shows "\<exists>res s'. placeBuy r s = (Inr res, s')"
proof -
  let ?u = "rq_uuid r" and ?v = "buy_reserve r" and ?i = "fresh_id o_id (orders s)"
  let ?s0 = "s\<lparr>orders := orders s @ [new_order ?i r Buy ?v]\<rparr>"
  have v: "0 \<le> ?v" "?v \<le> balance_of s ?u"
    using r lim balance_of_range [OF money_ok_accounts_ok [OF trading_okD(1) [OF ok]]]
    by (auto simp: buy_reserve_def request_ok_def)
  have ok0: "money_ok ?s0" using trading_okD(1) [OF ok] by simp
  obtain s1 where "debit ?u ?v ''BUY_ORDER_RESERVE'' ''ORDER'' (Some ?i) ?s0 = (Inr (), s1)"
    using debit_total [OF ok0 _ v(1)] acc v(2) by fastforce
  then have "\<exists>s1. whenS (?v > 0) (debit ?u ?v ''BUY_ORDER_RESERVE'' ''ORDER'' (Some ?i)) ?s0 = (Inr (), s1)"
    by (cases "?v > 0") (auto simp: whenS_def returnS_def)
  then obtain s1 where d: "whenS (?v > 0) (debit ?u ?v ''BUY_ORDER_RESERVE'' ''ORDER'' (Some ?i)) ?s0
      = (Inr (), s1)" ..
  have R: "money_ok s1 \<and> money_only ?s0 s1 \<and> balance_of s1 = (balance_of s)(?u := balance_of s ?u - ?v) \<and>
      total_balance s1 = total_balance s - ?v" using reserve_step [OF ok0 d v(1)] by simp
  have fr: "trade_frame s s1" using R money_only_trade_frame by fastforce
  have asks: "matching_asks s1 b r = matching_asks s b r"
    by (rule matching_append_own(1) [of "new_order ?i r Buy ?v"]) (use R money_onlyD [of ?s0 s1] in simp_all)
  have "account_of s (o_player x) \<noteq> None \<and> o_player x \<noteq> ?u \<and> 0 < o_price x \<and> 0 < o_remaining x \<and>
      (rq_type r \<noteq> Market \<longrightarrow> o_price x \<le> rq_price r)" if "x \<in> set (matching_asks s b r)" for x
    using that orders_okD(2,3) [OF trading_okD(2) [OF ok], of x] OrderType_cases
    by (auto simp: matching_asks_set order_ok_def order_refs_def resting_def)
  then have rdy: "buy_ready r (matching_asks s b r) (rq_quantity r) (balance_of s ?u - ?v) s1"
    using R r cap trade_frame_account [OF fr] acc v
    by (cases "rq_type r") (auto simp: buy_ready_def buy_reserve_def request_ok_def simp del: not_None_eq)
  from buy_loop_total [OF this] obtain n k g s2 where
    l: "buy_loop r ?i (matching_asks s b r) (rq_quantity r) 0 0 (balance_of s ?u - ?v) s1 = (Inr (n, k, g), s2)"
    by (metis prod_cases3)
  have os1: "orders s1 = orders s @ [new_order ?i r Buy ?v]" using R money_onlyD(3) [of ?s0 s1] by simp
  have dist: "distinct (map o_id (orders s1))"
    using orders_okD(1) [OF trading_okD(2) [OF ok]] by (simp add: os1)
  have sub: "set (matching_asks s b r) \<subseteq> set (orders s1)" by (auto simp: os1 matching_asks_set)
  have q: "0 \<le> rq_quantity r" using r by (simp add: request_ok_def)
  from buy_loop_effect [OF conjunct1 [OF R] dist sub
      matching_distinct(1) [OF orders_okD(1) [OF trading_okD(2) [OF ok]]]
      matching_positive(1) [OF trading_okD(2) [OF ok]] q l]
  have n: "n = rq_quantity r - plan_quantity (buy_plan_of s b r)"
    and fr2: "trade_frame s1 s2" by (simp_all add: buy_plan_of_def buy_effect_def)
  have "0 \<le> n" "n \<le> rq_quantity r"
    using n buy_plan_facts(3,4) [OF trading_okD(2) [OF ok] r, of b] by simp_all
  then have "rq_type r = Limit \<Longrightarrow> 0 \<le> rq_price r * n \<and> rq_price r * n \<le> rq_price r * rq_quantity r"
    using r by (auto simp: request_ok_def intro!: mult_left_mono)
  note mono = this
  have cp: "checkedProduct (rq_price r) n = Inr (rq_price r * n)"
      "checkedProduct (rq_price r) (rq_quantity r) = Inr ?v" if lim: "rq_type r = Limit"
  proof -
    have "?v = rq_price r * rq_quantity r" using lim by (simp add: buy_reserve_def)
    moreover have "?v \<le> int64_max"
      using v balance_of_range(2) [OF money_ok_accounts_ok [OF trading_okD(1) [OF ok]], of ?u] by simp
    moreover have "rq_price r * n \<le> int64_max" using mono [OF lim] calculation by linarith
    ultimately show "checkedProduct (rq_price r) n = Inr (rq_price r * n)"
      "checkedProduct (rq_price r) (rq_quantity r) = Inr ?v"
      using \<open>0 \<le> n\<close> r lim by (simp_all add: checkedProduct_iff request_ok_def)
  qed
  have acc2: "account_of (s2\<lparr>orders := os\<rparr>) ?u \<noteq> None" for os
    using trade_frame_account [OF trade_frame_trans [OF fr fr2] acc] by simp
  have asks1: "matching_asks s1 b r = matching_asks s b r" by (rule asks)
  have lb: "lockedBalance ?u z = (Inr (balance_of z ?u), z)" if "account_of z ?u \<noteq> None" for z
    using that by (simp add: lockedBalance_Inr)
  have avail: "(if ?v > 0 then balance_of s ?u - ?v else balance_of s ?u) = balance_of s ?u - ?v"
    using v(1) by simp
  have reserve: "(if rq_type r = Limit
     then bindS (liftS (checkedProduct (rq_price r) (rq_quantity r))) (\<lambda>v.
          bindS (throwIf (balance_of s ?u < v) insufficient_balance) (\<lambda>_. returnS v))
     else returnS 0) s = (Inr ?v, s)"
    using cp(2) v(2) by (auto simp: svc_evals buy_reserve_def)
  have final: "(if rq_type r = Limit then liftS (checkedProduct (rq_price r) n) else returnS 0) s2 =
      (Inr (if rq_type r = Limit then rq_price r * n else 0), s2)"
    using cp(1) by (auto simp: svc_evals)
  have ins: "insertOrder r Buy ?v s = (Inr ?i, ?s0)" by (simp add: insertOrder_Inr)
  have upd: "updateOrder ?i g s2 = (Inr (), s2\<lparr>orders := upd_where (\<lambda>x. o_id x = ?i) g (orders s2)\<rparr>)" for g
    by (simp add: updateOrder_def executeS_def)
  show ?thesis
    unfolding placeBuy_def transactionS_Inr
    by (simp only: bindS_def lk lb [OF acc] reserve ins d queryS_def asks1 avail l final upd
        lb [OF acc2] prod.case sum.case) (simp add: returnS_def)
qed


lemma sum_sublist_le:
  fixes h :: "'r \<Rightarrow> int"
  assumes "\<And>x. x \<in> set xs \<Longrightarrow> 0 \<le> h x"
  shows "(\<Sum>x\<leftarrow>sort_key k (filter P xs). h x) \<le> (\<Sum>x\<leftarrow>xs. h x)"
proof -
  have "(\<Sum>x\<leftarrow>sort_key k (filter P xs). h x) = (\<Sum>x\<leftarrow>filter P xs. h x)"
    using sum_mset_sum_list [of "map h (sort_key k (filter P xs))"]
      sum_mset_sum_list [of "map h (filter P xs)"] by (metis mset_map mset_sort)
  also have "\<dots> \<le> (\<Sum>x\<leftarrow>xs. h x)" using assms by (induction xs) (auto intro: add_increasing)
  finally show ?thesis .
qed

lemma placeSellLocked_total:
  assumes ok: "trading_ok s" and r: "request_ok r" and cap: "money_supply s \<le> int64_max"
    and lk: "lockActiveBook (rq_market r) s = (Inr b, s)" and acc: "account_of s (rq_uuid r) \<noteq> None"
  shows "\<exists>res s'. placeSellLocked r s = (Inr res, s')"
proof -
  let ?u = "rq_uuid r" and ?i = "fresh_id o_id (orders s)"
  let ?s1 = "s\<lparr>orders := orders s @ [new_order ?i r Sell 0]\<rparr>"
  note O = trading_okD(2) [OF ok]
  have bids: "matching_bids ?s1 b r = matching_bids s b r"
    by (rule matching_append_own(2) [of "new_order ?i r Sell 0"]) simp_all
  have res: "\<And>x. x \<in> set (orders s) \<Longrightarrow> 0 \<le> o_reserved x"
    using orders_okD(2) [OF O] by (rule reserved_nonneg)
  have each: "0 < o_price x \<and> 0 < o_remaining x \<and> o_reserved x = o_price x * o_remaining x"
    if "x \<in> set (matching_bids s b r)" for x
    using that orders_okD(2) [OF O, of x] by (auto simp: matching_bids_set order_ok_def resting_def)
  then have "bids_value (matching_bids s b r) = (\<Sum>x\<leftarrow>matching_bids s b r. o_reserved x)"
    unfolding bids_value_def by (intro arg_cong [where f = sum_list] map_cong) auto
  also have "\<dots> \<le> reserved_total s"
    unfolding matching_bids_def opposite_def filter_filter reserved_total_def
    by (rule sum_sublist_le) (rule res)
  finally have "total_balance s + bids_value (matching_bids s b r) \<le> int64_max"
    using cap by (simp add: money_supply_def)
  then have rdy: "sell_ready r (matching_bids s b r) (rq_quantity r) ?s1"
    using each trading_okD(1) [OF ok] r acc by (auto simp: sell_ready_def request_ok_def)
  from sell_loop_total [OF this] obtain n k g s2 where
    l: "sell_loop r ?i (matching_bids s b r) (rq_quantity r) 0 0 ?s1 = (Inr (n, k, g), s2)"
    by (metis prod_cases3)
  have dist: "distinct (map o_id (orders ?s1))" using orders_okD(1) [OF O] by simp
  have sub: "set (matching_bids s b r) \<subseteq> set (orders ?s1)" by (auto simp: matching_bids_set)
  have q: "0 \<le> rq_quantity r" using r by (simp add: request_ok_def)
  have ok1: "money_ok ?s1" using trading_okD(1) [OF ok] by simp
  from sell_loop_effect [OF ok1 dist sub matching_distinct(2) [OF orders_okD(1) [OF O]]
      matching_positive(2) [OF O] q l]
  have fr: "trade_frame s s2" by (simp add: sell_effect_def)
  define s3 where "s3 = snd (whenS (rq_type r = Market \<and> n > 0)
      (addDelivery ?u (rq_market r) n ''MARKET_REMAINDER'') s2)"
  have rem: "whenS (rq_type r = Market \<and> n > 0)
      (addDelivery ?u (rq_market r) n ''MARKET_REMAINDER'') s2 = (Inr (), s3)"
    by (simp add: s3_def whenS_def addDelivery_def returnS_def executeS_def)
  have "account_of s3 ?u \<noteq> None"
    using rem trade_frame_account [OF fr acc] by (auto simp: remainder_step simp del: not_None_eq)
  then have acc2: "account_of (s3\<lparr>orders := os\<rparr>) ?u \<noteq> None" for os by simp
  have lb: "lockedBalance ?u z = (Inr (balance_of z ?u), z)" if "account_of z ?u \<noteq> None" for z
    using that by (simp add: lockedBalance_Inr)
  have ins: "insertOrder r Sell 0 s = (Inr ?i, ?s1)" by (simp add: insertOrder_Inr)
  have upd: "updateOrder ?i h s3 = (Inr (), s3\<lparr>orders := upd_where (\<lambda>x. o_id x = ?i) h (orders s3)\<rparr>)" for h
    by (simp add: updateOrder_def executeS_def)
  show ?thesis
    unfolding placeSellLocked_def
    by (simp only: bindS_def lk lb [OF acc] ins queryS_def bids l rem upd lb [OF acc2] prod.case
        sum.case) (simp add: returnS_def)
qed

text \<open>The conditions under which a request is accepted, and no others.\<close>

definition acceptable :: "service_config \<Rightarrow> db \<Rightarrow> OrderRequest \<Rightarrow> bool" where
  "acceptable cfg s r \<longleftrightarrow> validateRequest cfg r = Inr () \<and>
    (case market_of s (rq_market r) of None \<Rightarrow> False
     | Some m \<Rightarrow> mk_active m \<and> book_of s (mk_book m) \<noteq> None) \<and>
    (rq_side r = Buy \<and> rq_type r = Limit \<longrightarrow>
      rq_price r * rq_quantity r \<le> opening_balance cfg s (rq_uuid r))"

lemma acceptable_lock:
  "(case market_of s m of None \<Rightarrow> False | Some k \<Rightarrow> mk_active k \<and> book_of s (mk_book k) \<noteq> None) \<longleftrightarrow>
    (\<exists>b. lockActiveBook m s = (Inr b, s))"
  by (auto simp: lockActiveBook_Inr split: option.splits)

lemma money_only_lock: "money_only s s1 \<Longrightarrow> lockActiveBook m s1 = (Inr b, s1) \<longleftrightarrow> lockActiveBook m s = (Inr b, s)"
  by (simp add: lockActiveBook_Inr market_of_def book_of_def money_only_def)

lemma placeOrder_total:
  assumes "config_ok cfg" and "trading_ok s"
    and "money_supply s + initial_balance_cents cfg \<le> int64_max"
  shows "(\<exists>res s'. placeOrder cfg r s = (Inr res, s')) \<longleftrightarrow> acceptable cfg s r"
proof (cases "validateRequest cfg r")
  case (Inl e)
  then show ?thesis by (simp add: acceptable_def placeOrder_def bindS_def liftS_def)
next
  case (Inr v)
  then have v: "validateRequest cfg r = Inr ()" by simp
  let ?u = "rq_uuid r"
  note V = validateRequest_ok [OF assms(1) v]
  obtain s1 where e: "ensureAccount cfg ?u (rq_name r) s = (Inr (), s1)"
    using V(2) by (simp add: ensureAccount_Inr)
  note E = ensureAccount_effect [OF assms(1) trading_okD(1) [OF assms(2)] e]
  have ok1: "trading_ok s1" by (rule money_only_trading [OF E(2,1) assms(2)])
  have acc: "account_of s1 ?u \<noteq> None" by (rule E(3) [OF refl])
  have bal: "balance_of s1 ?u = opening_balance cfg s ?u" using E(5) [OF refl] by (simp add: opening_balance_def)
  have "0 \<le> initial_balance_cents cfg" using assms(1) by (simp add: config_ok_def)
  then have cap: "money_supply s1 \<le> int64_max"
    using money_only_supply(1) [OF E(2)] E(4) [OF refl] assms(3) by (simp split: if_splits)
  have "0 \<le> reserved_total s1"
    unfolding reserved_total_def using orders_okD(2) [OF trading_okD(2) [OF ok1]]
    by (intro sum_list_nonneg) (auto intro: reserved_nonneg)
  then have capb: "total_balance s1 \<le> int64_max" using cap by (simp add: money_supply_def)
  have run: "placeOrder cfg r s = (if rq_side r = Buy then placeBuy r s1 else placeSell r s1)"
    by (simp add: placeOrder_def bindS_def liftS_def v e)
  have acceptable: "acceptable cfg s r \<longleftrightarrow> (\<exists>b. lockActiveBook (rq_market r) s1 = (Inr b, s1)) \<and>
      (rq_side r = Buy \<and> rq_type r = Limit \<longrightarrow> rq_price r * rq_quantity r \<le> balance_of s1 ?u)"
    unfolding acceptable_def acceptable_lock money_only_lock [OF E(2)] bal using v by blast
  show ?thesis
  proof
    assume "\<exists>res s'. placeOrder cfg r s = (Inr res, s')"
    then obtain res s' where "(if rq_side r = Buy then placeBuy r s1 else placeSell r s1) = (Inr res, s')"
      unfolding run by blast
    then show "acceptable cfg s r"
      unfolding acceptable by (cases "rq_side r = Buy")
        (auto simp: placeSell_def transactionS_Inr buy_reserve_def elim!: placeBuy_run placeSellLocked_run)
  next
    assume "acceptable cfg s r"
    then obtain b where b: "lockActiveBook (rq_market r) s1 = (Inr b, s1)"
      and lim: "rq_side r = Buy \<Longrightarrow> rq_type r = Limit \<longrightarrow> rq_price r * rq_quantity r \<le> balance_of s1 ?u"
      unfolding acceptable by blast
    show "\<exists>res s'. placeOrder cfg r s = (Inr res, s')"
      unfolding run using placeBuy_total [OF ok1 V(1) capb b acc] lim
        placeSellLocked_total [OF ok1 V(1) cap b acc]
      by (cases "rq_side r = Buy") (auto simp: placeSell_def transactionS_Inr)
  qed
qed

text \<open>
  C8: In every state of the trading invariant whose money, with one opening balance more, fits a
  signed 64-bit integer, \<open>placeOrder\<close> succeeds exactly on the acceptable requests: those that pass
  \<open>validateRequest\<close>, name an active market whose book exists and, for a limit purchase, are
  covered by the balance. No internal check of the engine can fail and the matching loops end.
\<close>

theorem placeOrder_succeeds_iff:
  assumes "config_ok cfg" and "trading_ok s"
    and "money_supply s + initial_balance_cents cfg \<le> int64_max"
  shows "(\<exists>res s'. placeOrder cfg r s = (Inr res, s')) \<longleftrightarrow> acceptable cfg s r"
  by (rule placeOrder_total [OF assms])

theorem placeOrder_succeeds_witness:
  "\<not> (\<exists>res s'. placeOrder demo_cfg (demo_buy\<lparr>rq_quantity := 40\<rparr>) demo_db = (Inr res, s'))"
proof -
  have "money_supply demo_db + initial_balance_cents demo_cfg \<le> int64_max" by code_simp
  moreover have "\<not> acceptable demo_cfg demo_db (demo_buy\<lparr>rq_quantity := 40\<rparr>)" by code_simp
  ultimately show ?thesis
    using placeOrder_succeeds_iff [OF demo_cfg_ok demo_trading_ok] by blast
qed


section \<open>Canceling\<close>

lemma order_of_closed:
  assumes "order_of s i = Some x" and "closed x reason s s'"
  shows "order_of s' i = Some (closed_row x)"
proof -
  have "o_id x = i" using assms(1) unfolding order_of_def by (auto dest: find_key_in)
  with assms show ?thesis
    by (simp add: closed_def order_of_def order_close.find_upd)
qed

lemma cancelOrder_Inl: "cancelOrder i u administrator s = (Inl e, s') \<Longrightarrow> s' = s"
  by (simp add: cancelOrder_def transactionS_Inl)

text \<open>
  C9: Canceling keeps the trading invariant, the money and the items. A refused cancellation
  changes nothing; an accepted one was asked for by the owner or an administrator and about a
  resting order, pays the whole reserve back to the owner (the price of what the order still
  wanted) or delivers the unsold items to the owner, and leaves the order canceled with nothing
  remaining and nothing reserved.
\<close>

theorem cancelOrder_settles:
  assumes "trading_ok s" and "cancelOrder i u administrator s = (res, s')"
  shows "trading_ok s' \<and> money_supply s' = money_supply s \<and> items_held s' b = items_held s b \<and>
    (case res of Inl e \<Rightarrow> s' = s
     | Inr _ \<Rightarrow> (\<exists>x. order_of s i = Some x \<and> resting x \<and> (o_player x = u \<or> administrator) \<and>
         order_of s' i = Some (closed_row x) \<and>
         balance_of s' = (balance_of s)(o_player x := balance_of s (o_player x) +
           (if o_side x = Buy then o_price x * o_remaining x else 0)) \<and>
         deliveries s' = deliveries s @ (if o_side x = Buy then []
           else [trade_delivery ''ORDER_CANCELED'' (fresh_id d_id (deliveries s))
             (o_player x, o_market x, o_remaining x)])))"
proof (cases res)
  case (Inl e)
  with assms show ?thesis using cancelOrder_Inl by fastforce
next
  case (Inr z)
  note run = assms(2) [unfolded Inr]
  note T = cancelOrder_trading [OF assms(1) run]
  from cancelOrder_effect [OF trading_okD(1,2) [OF assms(1)] run] obtain x where
    x: "x \<in> set (orders s)" "o_id x = i" "resting x" "administrator \<or> o_player x = u"
    and C: "closed x ''ORDER_CANCELED'' s s'" by blast
  note ok = orders_okD(2) [OF trading_okD(2) [OF assms(1)] x(1)]
  have o: "order_of s i = Some x"
    using find_key_distinct [OF orders_okD(1) [OF trading_okD(2) [OF assms(1)]] x(1)] x(2)
    by (simp add: order_of_def)
  have res: "o_reserved x = (if o_side x = Buy then o_price x * o_remaining x else 0)"
    and rem: "0 < o_remaining x" using ok x(3) by (simp_all add: order_ok_def)
  have "deliveries s' = deliveries s @ (if o_side x = Buy then []
           else [trade_delivery ''ORDER_CANCELED'' (fresh_id d_id (deliveries s))
             (o_player x, o_market x, o_remaining x)])"
    using C rem Side_cases [of "o_side x"] by (auto simp: closed_def add_rows_Cons)
  then show ?thesis
    using T(1,2) T(3) [of b] o x(3,4) order_of_closed [OF o C] C res by (auto simp: Inr closed_def)
qed

theorem cancelOrder_settles_witness:
  "order_of (snd (cancelOrder 3 ''dave'' False demo_db)) 3 =
     Some (closed_row (demo_order 3 ''dave'' Buy 20 4)) \<and>
   balance_of (snd (cancelOrder 3 ''dave'' False demo_db)) ''dave'' = 500"
proof -
  let ?s' = "snd (cancelOrder 3 ''dave'' False demo_db)"
  have "fst (cancelOrder 3 ''dave'' False demo_db) = Inr ()" by code_simp
  then have run: "cancelOrder 3 ''dave'' False demo_db = (Inr (), ?s')" by (metis prod.collapse)
  have o: "order_of demo_db 3 = Some (demo_order 3 ''dave'' Buy 20 4)"
    and b: "balance_of demo_db ''dave'' = 420" by code_simp+
  from cancelOrder_settles [OF demo_trading_ok run, of 1] o b show ?thesis
    by (auto simp: demo_order_def)
qed

text \<open>
  A cancellation succeeds exactly for a resting order of the caller's own, or for any resting
  order when an administrator asks; in particular a second cancellation of the same order, or one
  of a filled order, always fails and an allowed one never does.
\<close>

theorem cancelOrder_succeeds_iff:
  assumes "trading_ok s" and "money_supply s \<le> int64_max"
  shows "(\<exists>s'. cancelOrder i u administrator s = (Inr (), s')) \<longleftrightarrow>
    (case order_of s i of None \<Rightarrow> False | Some x \<Rightarrow> resting x \<and> (administrator \<or> o_player x = u))"
proof (cases "order_of s i")
  case None
  then show ?thesis by (simp add: cancelOrder_def transactionS_Inr bindS_def queryS_def throwS_def)
next
  case (Some x)
  then have x: "x \<in> set (orders s)" unfolding order_of_def by (auto dest: find_key_in)
  note O = trading_okD(2) [OF assms(1)]
  have close: "\<exists>s'. close_order x ''ORDER_CANCEL_REFUND'' ''ORDER_CANCELED'' s = (Inr (), s')"
  proof (cases "o_side x = Buy")
    case True
    have "o_reserved x \<le> reserved_total s" unfolding reserved_total_def
      by (rule sum_list_nonneg_member [OF reserved_nonneg x]) (use orders_okD(2) [OF O] in simp)
    then have "\<exists>s'. credit (o_player x) (o_reserved x) ''ORDER_CANCEL_REFUND'' ''ORDER'' (Some (o_id x)) s =
        (Inr (), s')"
      using assms(2) orders_okD(2,3) [OF O x]
      by (intro credit_total [OF trading_okD(1) [OF assms(1)]])
        (auto simp: money_supply_def order_refs_def reserved_nonneg)
    with True show ?thesis by (auto simp: close_order_def bindS_def updateOrder_def executeS_def)
  next
    case False
    then show ?thesis
      by (auto simp: close_order_def bindS_def updateOrder_def executeS_def whenS_def addDelivery_def
          returnS_def)
  qed
  have "(\<exists>s'. cancelOrder i u administrator s = (Inr (), s')) \<longleftrightarrow>
      (administrator \<or> o_player x = u) \<and> resting x \<and>
      (\<exists>s'. close_order x ''ORDER_CANCEL_REFUND'' ''ORDER_CANCELED'' s = (Inr (), s'))"
    unfolding cancelOrder_def transactionS_Inr
    by (auto simp: bindS_Inr queryS_Inr throwIf_Inr Some resting_def)
  with close Some show ?thesis by auto
qed

theorem cancelOrder_succeeds_witness:
  "\<not> (\<exists>s'. cancelOrder 3 ''alice'' False demo_db = (Inr (), s'))"
proof -
  have "money_supply demo_db \<le> int64_max" by code_simp
  moreover have "\<not> (case order_of demo_db 3 of None \<Rightarrow> False
      | Some x \<Rightarrow> resting x \<and> (False \<or> o_player x = ''alice''))" by code_simp
  ultimately show ?thesis using cancelOrder_succeeds_iff [OF demo_trading_ok] by blast
qed

end
