(* ===== verification/Market_Data.thy ===== *)
theory Market_Data
  imports Progress
begin

text \<open>
  What a player sees before trading: the order book (\<open>orderBook\<close>, \<open>topOfBooks\<close>) and the money a
  purchase needs (\<open>buyFundingRequired\<close>). The book is shown to be the open orders aggregated by
  price, the two readings to agree, and the funding to be enough for the purchase it was computed
  for.
\<close>

section \<open>Funding\<close>

lemma order_ok_resting: "order_ok x \<Longrightarrow> resting x \<Longrightarrow> 0 < o_remaining x \<and> 0 < o_price x"
  by (auto simp: order_ok_def resting_def)

lemma funding_loop_plan:
  "funding_loop as n req = Inr c \<Longrightarrow> c = req + plan_value (sell_plan as n)"
  by (induction as n req rule: funding_loop.induct)
    (auto simp: checkedProduct_iff Let_def split: if_splits sum.splits)

lemma sell_plan_value_nonneg:
  "\<forall>a \<in> set as. 0 < o_remaining a \<and> 0 < o_price a \<Longrightarrow> 0 \<le> n \<Longrightarrow> 0 \<le> plan_value (sell_plan as n)"
  by (induction as n rule: sell_plan.induct) auto

lemma sell_plan_total:
  "\<forall>a \<in> set as. 0 < o_remaining a \<Longrightarrow> 0 \<le> n \<Longrightarrow>
    plan_quantity (sell_plan as n) = min n (\<Sum>a\<leftarrow>as. o_remaining a)"
proof (induction as n rule: sell_plan.induct)
  case (1 n)
  then show ?case by simp
next
  case (2 b rest n)
  have "0 \<le> (\<Sum>a\<leftarrow>rest. o_remaining a)" using "2.prems" by (intro sum_list_nonneg) auto
  with 2 show ?case by (auto simp: min_def)
qed

lemma buy_plan_funded:
  assumes "rq_type r = Market" and "\<forall>a \<in> set as. 0 < o_remaining a \<and> 0 < o_price a" and "0 \<le> n"
    and "plan_value (sell_plan as n) \<le> av"
  shows "buy_plan r as n av = sell_plan as n"
  using assms(2-)
proof (induction as arbitrary: n av)
  case Nil
  then show ?case by simp
next
  case (Cons a as)
  show ?case
  proof (cases "n = 0")
    case True
    then show ?thesis by (simp add: buy_plan.simps(2))
  next
    case False
    define f where "f = min n (o_remaining a)"
    have f: "0 < f" "f \<le> n" using False Cons.prems by (auto simp: f_def)
    have price: "0 < o_price a" using Cons.prems by simp
    have plan: "sell_plan (a # as) n = (a, f) # sell_plan as (n - f)" using False by (simp add: f_def)
    have rest: "0 \<le> plan_value (sell_plan as (n - f))"
      using Cons.prems f by (intro sell_plan_value_nonneg) auto
    have cost: "o_price a * f \<le> av" using Cons.prems(3) rest unfolding plan by simp
    moreover have "0 \<le> o_price a * f" using price f by simp
    ultimately have "f \<le> av sdiv o_price a"
      using price le_div_iff_mult_le [of "o_price a" f av] by (simp add: sdiv_nonneg_eq_div mult.commute)
    then have "min f (av sdiv o_price a) = f" by simp
    then have "buy_plan r (a # as) n av = (a, f) # buy_plan r as (n - f) (av - o_price a * f)"
      using False f(1) assms(1) unfolding buy_plan.simps(2) f_def [symmetric] by (simp add: Let_def)
    also have "buy_plan r as (n - f) (av - o_price a * f) = sell_plan as (n - f)"
      using Cons.prems f plan by (intro Cons.IH) auto
    finally show ?thesis by (simp only: plan)
  qed
qed

lemma plan_value_le:
  "(\<And>a f. (a, f) \<in> set p \<Longrightarrow> o_price a \<le> c \<and> 0 < f) \<Longrightarrow> plan_value p \<le> c * plan_quantity p"
proof (induction p)
  case (Cons af p)
  obtain a f where af: "af = (a, f)" by fastforce
  with Cons.prems have "o_price a * f \<le> c * f" by (intro mult_right_mono) (auto intro: less_imp_le)
  with Cons af show ?case by (auto simp: distrib_left intro!: add_mono)
qed simp

lemma buyFundingRequired_Inr:
  "buyFundingRequired cfg r s = (Inr need, s') \<Longrightarrow>
    s' = s \<and> validateRequest cfg r = Inr () \<and> rq_side r = Buy \<and>
    (\<exists>m. market_of s (rq_market r) = Some m \<and> mk_active m \<and>
      (if rq_type r = Limit then need = rq_price r * rq_quantity r
       else need = plan_value (sell_plan (matching_asks s (mk_book m) r) (rq_quantity r))))"
  unfolding buyFundingRequired_def
  by (auto simp: bindS_Inr liftS_Inr throwIf_Inr queryS_Inr throwS_Inr checkedProduct_iff
      dest: funding_loop_plan split: option.splits if_splits)

text \<open>The number of items an order could buy, over all orders it could trade with.\<close>

definition available_to :: "db \<Rightarrow> OrderRequest \<Rightarrow> int" where
  "available_to s r = (\<Sum>x\<leftarrow>filter (eligible s r) (orders s). o_remaining x)"

lemma sum_sort_key:
  fixes h :: "'r \<Rightarrow> int"
  shows "(\<Sum>x\<leftarrow>sort_key k xs. h x) = (\<Sum>x\<leftarrow>xs. h x)"
  using sum_mset_sum_list [of "map h (sort_key k xs)"] sum_mset_sum_list [of "map h xs"]
  by (metis mset_map mset_sort)

lemma available_asks:
  assumes "rq_side r = Buy" and "on_book s b (rq_market r)"
  shows "available_to s r = (\<Sum>x\<leftarrow>matching_asks s b r. o_remaining x)"
proof -
  have "filter (eligible s r) (orders s) =
      filter (\<lambda>x. rq_type r = Limit \<longrightarrow> o_price x \<le> rq_price r) (opposite s b Sell (rq_uuid r))"
    unfolding opposite_def filter_filter
    by (rule filter_cong [OF refl]) (use eligible_asks [OF assms] in \<open>auto simp: matching_asks_def opposite_def\<close>)
  then show ?thesis by (simp add: available_to_def matching_asks_def sum_sort_key)
qed

lemma limit_cost:
  assumes "orders_ok s" and "request_ok r" and "rq_type r = Limit"
  shows "plan_value (buy_plan_of s b r) \<le> rq_price r * rq_quantity r"
proof -
  note P = buy_plan_facts [OF assms(1,2), of b]
  have "o_price a \<le> rq_price r \<and> 0 < f" if "(a, f) \<in> set (buy_plan_of s b r)" for a f
  proof
    show "o_price a \<le> rq_price r"
      using that assms(3) by (auto simp: buy_plan_of_def matching_asks_set dest!: buy_plan_orders)
    show "0 < f" using that P(1) by (auto simp: plan_for_def)
  qed
  then have "plan_value (buy_plan_of s b r) \<le> rq_price r * plan_quantity (buy_plan_of s b r)"
    by (rule plan_value_le)
  also have "\<dots> \<le> rq_price r * rq_quantity r"
    using P(4) assms(2,3) by (intro mult_left_mono) (auto simp: request_ok_def)
  finally show ?thesis .
qed

text \<open>
  C10: A player whose balance covers what \<open>buyFundingRequired\<close> returned can make the purchase, and
  it costs at most that. A market purchase then is not cut short by the balance: it costs exactly
  the computed amount and fills the whole quantity, or everything the book offers.
\<close>

theorem funding_suffices:
  assumes "config_ok cfg" and "trading_ok s"
    and "money_supply s + initial_balance_cents cfg \<le> int64_max"
    and "buyFundingRequired cfg r s = (Inr need, s0)" and "need \<le> opening_balance cfg s (rq_uuid r)"
    and "market_of s (rq_market r) = Some m" and "book_of s (mk_book m) \<noteq> None"
  shows "\<exists>res s'. placeOrder cfg r s = (Inr res, s') \<and> ex_gross res \<le> need \<and>
    (rq_type r = Market \<longrightarrow> ex_gross res = need \<and> ex_filled res = min (rq_quantity r) (available_to s r))"
proof -
  from buyFundingRequired_Inr [OF assms(4)] assms(6) have v: "validateRequest cfg r = Inr ()"
    and side: "rq_side r = Buy" and act: "mk_active m"
    and need: "if rq_type r = Limit then need = rq_price r * rq_quantity r
       else need = plan_value (sell_plan (matching_asks s (mk_book m) r) (rq_quantity r))" by auto
  note V = validateRequest_ok [OF assms(1) v]
  have "acceptable cfg s r"
    using v assms(5-7) act need by (auto simp: acceptable_def)
  with placeOrder_total [OF assms(1-3)] obtain res s' where run: "placeOrder cfg r s = (Inr res, s')" by blast
  from placeOrder_run [OF assms(1,2) run] obtain s1 where
    e: "ensureAccount cfg (rq_uuid r) (rq_name r) s = (Inr (), s1)" and fr: "money_only s s1"
    and ok1: "trading_ok s1" and buy: "placeBuy r s1 = (Inr res, s')" using side by metis
  have bal: "balance_of s1 (rq_uuid r) = opening_balance cfg s (rq_uuid r)"
    using ensureAccount_effect(5) [OF assms(1) trading_okD(1) [OF assms(2)] e refl]
    by (simp add: opening_balance_def)
  have q: "0 < rq_quantity r" using V(1) by (simp add: request_ok_def)
  from placeBuy_effect [OF trading_okD(1,2) [OF ok1] q buy] obtain b where
    b: "lockActiveBook (rq_market r) s1 = (Inr b, s1)" and E: "bought r (buy_plan_of s1 b r) s1 s' res"
    and res0: "0 \<le> buy_reserve r" by blast
  have bm: "b = mk_book m" using b assms(6) unfolding money_only_lock [OF fr] by (simp add: lockActiveBook_Inr)
  have asks: "matching_asks s1 b r = matching_asks s b r"
    by (rule matching_cong(1)) (use money_onlyD [OF fr] in simp_all)
  have pos: "\<forall>a \<in> set (matching_asks s b r). 0 < o_remaining a \<and> 0 < o_price a"
    using orders_okD(2) [OF trading_okD(2) [OF assms(2)]] order_ok_resting
    by (auto simp: matching_asks_set)
  have res: "ex_gross res = plan_value (buy_plan_of s1 b r)" "ex_filled res = plan_quantity (buy_plan_of s1 b r)"
    using E by (simp_all add: bought_def Let_def)
  show ?thesis
  proof (cases "rq_type r = Market")
    case True
    then have "buy_plan_of s1 b r = sell_plan (matching_asks s b r) (rq_quantity r)"
      unfolding buy_plan_of_def asks using need assms(5) bal q pos bm
      by (intro buy_plan_funded) (simp_all add: buy_reserve_def)
    moreover have "on_book s b (rq_market r)" using assms(6) bm by (simp add: on_book_def book_id_of_def)
    ultimately have "ex_gross res = need \<and> ex_filled res = min (rq_quantity r) (available_to s r)"
      using res need True bm q pos sell_plan_total [of "matching_asks s b r" "rq_quantity r"]
        available_asks [OF side] by simp
    with run show ?thesis by auto
  next
    case False
    then have lim: "rq_type r = Limit" by (simp add: OrderType_cases)
    show ?thesis using limit_cost [OF trading_okD(2) [OF ok1] V(1) lim, of b] run res need lim by auto
  qed
qed


definition demo_market_buy :: OrderRequest where
  "demo_market_buy = demo_buy\<lparr>rq_type := Market, rq_quantity := 9\<rparr>"

theorem funding_suffices_witness:
  "\<exists>res s'. placeOrder demo_cfg demo_market_buy demo_db = (Inr res, s') \<and> ex_gross res = 200 \<and> ex_filled res = 7"
proof -
  have f: "buyFundingRequired demo_cfg demo_market_buy demo_db = (Inr 200, demo_db)"
  proof -
    have "fst (buyFundingRequired demo_cfg demo_market_buy demo_db) = Inr 200" by code_simp
    then have "buyFundingRequired demo_cfg demo_market_buy demo_db =
        (Inr 200, snd (buyFundingRequired demo_cfg demo_market_buy demo_db))" by (metis prod.collapse)
    then show ?thesis using buyFundingRequired_Inr by metis
  qed
  have h: "money_supply demo_db + initial_balance_cents demo_cfg \<le> int64_max"
    "200 \<le> opening_balance demo_cfg demo_db (rq_uuid demo_market_buy)"
    "market_of demo_db (rq_market demo_market_buy) = Some (demo_market 2)"
    "book_of demo_db (mk_book (demo_market 2)) \<noteq> None"
    "rq_type demo_market_buy = Market" "available_to demo_db demo_market_buy = 7"
    "rq_quantity demo_market_buy = 9" by code_simp+
  from funding_suffices [OF demo_cfg_ok demo_trading_ok h(1) f h(2,3,4)] h(5-7) show ?thesis by auto
qed

section \<open>The order book\<close>

definition level_total :: "order_row list \<Rightarrow> Cents \<Rightarrow> int" where
  "level_total rows p = (\<Sum>x\<leftarrow>filter (\<lambda>x. o_price x = p) rows. o_remaining x)"

definition prices_of :: "order_row list \<Rightarrow> Cents list" where
  "prices_of rows = sort (remdups (map o_price rows))"

lemma price_groups_eq: "price_groups rows = map (\<lambda>p. (p, level_total rows p)) (prices_of rows)"
  by (simp add: price_groups_def level_total_def prices_of_def)

lemma prices_of_set [simp]: "set (prices_of rows) = o_price ` set rows"
  by (simp add: prices_of_def)

lemma prices_of_strict: "sorted_wrt (<) (prices_of rows)"
  by (simp add: prices_of_def strict_sorted_iff)

lemma collect_map_Inr [simp]: "collect (map Inr vs) = Inr vs"
  by (induction vs) simp_all

lemma collect_InrD: "collect rs = Inr vs \<Longrightarrow> rs = map Inr vs"
  by (induction rs arbitrary: vs) (auto split: sum.splits)

lemma collect_Inr: "collect rs = Inr vs \<longleftrightarrow> rs = map Inr vs"
  using collect_InrD by auto

lemma to_level_Inr: "to_level g = Inr l \<longleftrightarrow>
    l = \<lparr>level_price = fst g, level_quantity = snd g\<rparr> \<and> int32_min \<le> snd g \<and> snd g \<le> int32_max"
  by (auto simp: to_level_def cellInt_of_def)

definition levels :: "order_row list \<Rightarrow> Cents list \<Rightarrow> PriceLevel list" where
  "levels rows ps = map (\<lambda>p. \<lparr>level_price = p, level_quantity = level_total rows p\<rparr>) ps"

lemma collect_levels:
  assumes "collect (map to_level (map (\<lambda>p. (p, level_total rows p)) ps)) = Inr ls"
  shows "ls = levels rows ps \<and> (\<forall>p \<in> set ps. level_total rows p \<le> int32_max)"
  using assms unfolding collect_Inr
proof (induction ps arbitrary: ls)
  case Nil
  then show ?case by (simp add: levels_def)
next
  case (Cons p ps)
  then obtain l ls' where "ls = l # ls'" by (cases ls) auto
  with Cons show ?case by (auto simp: levels_def to_level_Inr)
qed

lemma orderBook_Inr:
  assumes "orderBook mkt depth s = (Inr ob, s')"
  obtains b where "s' = s" "0 < depth" "depth \<le> 50" "book_id_of s mkt = Some b"
    "bids ob = levels (book_rows s b Buy) (take (nat depth) (rev (prices_of (book_rows s b Buy))))"
    "asks ob = levels (book_rows s b Sell) (take (nat depth) (prices_of (book_rows s b Sell)))"
    "\<forall>l \<in> set (bids ob) \<union> set (asks ob). level_quantity l \<le> int32_max"
    "last_price ob = last_trade_price s b"
proof -
  from assms obtain b bl al where b: "s' = s" "0 < depth" "depth \<le> 50" "book_id_of s mkt = Some b"
    and bl: "collect (map to_level (take (nat depth) (rev (price_groups (book_rows s b Buy))))) = Inr bl"
    and al: "collect (map to_level (take (nat depth) (price_groups (book_rows s b Sell)))) = Inr al"
    and ob: "ob = \<lparr>bids = bl, asks = al, last_price = last_trade_price s b\<rparr>"
    unfolding orderBook_def
    by (auto simp: bindS_Inr throwIf_Inr queryS_Inr liftS_Inr throwS_Inr split: option.splits)
  from bl al have "collect (map to_level (map (\<lambda>p. (p, level_total (book_rows s b Buy) p))
      (take (nat depth) (rev (prices_of (book_rows s b Buy)))))) = Inr bl"
    and "collect (map to_level (map (\<lambda>p. (p, level_total (book_rows s b Sell) p))
      (take (nat depth) (prices_of (book_rows s b Sell))))) = Inr al"
    by (simp_all only: price_groups_eq take_map rev_map)
  from this [THEN collect_levels] show thesis
    by (intro that [OF b]) (auto simp: ob levels_def)
qed


lemma book_rows_set: "x \<in> set (book_rows s b sd) \<longleftrightarrow>
    x \<in> set (orders s) \<and> on_book s b (o_market x) \<and> o_side x = sd \<and> resting x"
  by (auto simp: book_rows_def resting_def)

lemma sum_by_key:
  fixes h :: "'r \<Rightarrow> int"
  shows "set (map k rows) \<subseteq> set ps \<Longrightarrow> distinct ps \<Longrightarrow>
    (\<Sum>p\<leftarrow>ps. \<Sum>x\<leftarrow>filter (\<lambda>x. k x = p) rows. h x) = (\<Sum>x\<leftarrow>rows. h x)"
proof (induction rows)
  case Nil
  then show ?case by simp
next
  case (Cons y rows)
  have "(\<Sum>p\<leftarrow>ps. \<Sum>x\<leftarrow>filter (\<lambda>x. k x = p) (y # rows). h x) =
      (\<Sum>p\<leftarrow>ps. (if p = k y then h y else 0) + (\<Sum>x\<leftarrow>filter (\<lambda>x. k x = p) rows. h x))"
    by (intro arg_cong [where f = sum_list] map_cong) auto
  also have "\<dots> = h y + (\<Sum>x\<leftarrow>rows. h x)"
    using Cons by (simp add: sum_list_addf sum_list_if_eq)
  finally show ?case by simp
qed

text \<open>What a list of levels must be to show the best \<open>depth\<close> prices of one side of a book.\<close>

definition shows_best :: "(Cents \<Rightarrow> Cents \<Rightarrow> bool) \<Rightarrow> order_row list \<Rightarrow> nat \<Rightarrow> PriceLevel list \<Rightarrow> bool" where
  "shows_best better rows depth ls \<longleftrightarrow> length ls \<le> depth \<and>
    sorted_wrt better (map level_price ls) \<and>
    (\<forall>l \<in> set ls. level_quantity l = level_total rows (level_price l) \<and> 0 < level_quantity l) \<and>
    (\<forall>x \<in> set rows. o_price x \<in> set (map level_price ls) \<or>
      (length ls = depth \<and> (\<forall>l \<in> set ls. better (level_price l) (o_price x))))"

lemma shows_best_take:
  assumes "sorted_wrt better ps" and "set ps = o_price ` set rows" and "\<forall>x \<in> set rows. 0 < o_remaining x"
  shows "shows_best better rows d (levels rows (take d ps))"
proof -
  have prices: "map level_price (levels rows (take d ps)) = take d ps" by (simp add: levels_def o_def)
  have pos: "0 < level_total rows p" if "p \<in> set ps" for p
  proof -
    from that assms(2) obtain x where x: "x \<in> set (filter (\<lambda>x. o_price x = p) rows)" by auto
    then have "0 < o_remaining x" using assms(3) by simp
    moreover have "o_remaining x \<le> level_total rows p"
      unfolding level_total_def
      by (rule sum_list_nonneg_member) (use assms(3) x in \<open>auto intro: less_imp_le\<close>)
    ultimately show ?thesis by simp
  qed
  have rest: "o_price x \<in> set (take d ps) \<or> (length (take d ps) = d \<and> (\<forall>p \<in> set (take d ps). better p (o_price x)))"
    if "x \<in> set rows" for x
  proof -
    have "o_price x \<in> set ps" using that assms(2) by simp
    then have "o_price x \<in> set (take d ps) \<or> o_price x \<in> set (drop d ps)"
      by (metis append_take_drop_id set_append UnE)
    moreover have "\<forall>p \<in> set (take d ps). \<forall>q \<in> set (drop d ps). better p q"
      using assms(1) by (metis append_take_drop_id sorted_wrt_append)
    moreover have "length (take d ps) = d" if "q \<in> set (drop d ps)" for q
      using that by (cases "d \<le> length ps") auto
    ultimately show ?thesis by (cases "o_price x \<in> set (take d ps)") auto
  qed
  have "length (levels rows (take d ps)) = length (take d ps)" by (simp add: levels_def)
  moreover have "\<forall>l \<in> set (levels rows (take d ps)).
      level_quantity l = level_total rows (level_price l) \<and> 0 < level_quantity l"
    using pos in_set_takeD by (fastforce simp: levels_def)
  moreover have "(\<forall>l \<in> set (levels rows (take d ps)). better (level_price l) q) \<longleftrightarrow>
      (\<forall>p \<in> set (take d ps). better p q)" for q by (auto simp: levels_def)
  ultimately show ?thesis
    unfolding shows_best_def prices using rest assms(1) by (auto simp: sorted_wrt_take)
qed

text \<open>
  C11: The order book of a market is the aggregate of the resting orders of its book. Each side
  shows the best \<open>depth\<close> prices in strict order (bids falling, asks rising), each with the total
  quantity resting at that price; an order whose price is not shown is worse than every level
  shown, and then all \<open>depth\<close> levels are in use.
\<close>

theorem orderBook_aggregates:
  assumes "trading_ok s" and "orderBook mkt depth s = (Inr ob, s')"
  shows "s' = s \<and> (\<exists>b. book_id_of s mkt = Some b \<and>
    shows_best (>) (book_rows s b Buy) (nat depth) (bids ob) \<and>
    shows_best (<) (book_rows s b Sell) (nat depth) (asks ob) \<and>
    last_price ob = last_trade_price s b)"
proof -
  from orderBook_Inr [OF assms(2)] obtain b where b: "s' = s" "book_id_of s mkt = Some b"
    "bids ob = levels (book_rows s b Buy) (take (nat depth) (rev (prices_of (book_rows s b Buy))))"
    "asks ob = levels (book_rows s b Sell) (take (nat depth) (prices_of (book_rows s b Sell)))"
    "last_price ob = last_trade_price s b" by metis
  have pos: "\<forall>x \<in> set (book_rows s b sd). 0 < o_remaining x" for sd
    using orders_okD(2) [OF trading_okD(2) [OF assms(1)]] order_ok_resting by (auto simp: book_rows_set)
  have rev: "sorted_wrt (>) (rev (prices_of rows))" for rows
    using prices_of_strict [of rows] by (simp add: sorted_wrt_rev)
  show ?thesis
    using b shows_best_take [OF rev _ pos, where d = "nat depth"] shows_best_take [OF prices_of_strict _ pos, where d = "nat depth"]
    by simp
qed

theorem orderBook_aggregates_witness:
  "shows_best (<) (book_rows demo_db 1 Sell) 2 (asks (\<lparr>bids = [\<lparr>level_price = 20, level_quantity = 4\<rparr>],
     asks = [\<lparr>level_price = 25, level_quantity = 2\<rparr>, \<lparr>level_price = 30, level_quantity = 5\<rparr>],
     last_price = None\<rparr>))"
proof -
  let ?ob = "\<lparr>bids = [\<lparr>level_price = 20, level_quantity = 4\<rparr>],
     asks = [\<lparr>level_price = 25, level_quantity = 2\<rparr>, \<lparr>level_price = 30, level_quantity = 5\<rparr>],
     last_price = None\<rparr>"
  have "fst (orderBook 2 2 demo_db) = Inr ?ob" by code_simp
  then have "orderBook 2 2 demo_db = (Inr ?ob, snd (orderBook 2 2 demo_db))" by (metis prod.collapse)
  from orderBook_aggregates [OF demo_trading_ok this] obtain b where "book_id_of demo_db 2 = Some b"
    "shows_best (<) (book_rows demo_db b Sell) (nat 2) (asks ?ob)" by blast
  moreover have "book_id_of demo_db 2 = Some 1" by code_simp
  ultimately show ?thesis by simp
qed

section \<open>The two readings agree\<close>

lemma foldr_max_Max: "foldr max xs x = Max (insert x (set xs))" for x :: int
  by (induction xs) (simp_all add: insert_commute)

lemma foldr_min_Min: "foldr min xs x = Min (insert x (set xs))" for x :: int
  by (induction xs) (simp_all add: insert_commute)

lemma list_max_Max: "xs \<noteq> [] \<Longrightarrow> list_max xs = Max (set xs)"
  by (cases xs) (simp_all add: list_max_def foldr_max_Max)

lemma list_min_Min: "xs \<noteq> [] \<Longrightarrow> list_min xs = Min (set xs)"
  by (cases xs) (simp_all add: list_min_def foldr_min_Min)

lemma strict_sorted_ends:
  fixes ps :: "int list"
  assumes "sorted_wrt (<) ps" and "ps \<noteq> []"
  shows "hd ps = Min (set ps)" "last ps = Max (set ps)"
proof -
  from assms obtain p qs where ps: "ps = p # qs" by (cases ps) auto
  then show "hd ps = Min (set ps)"
    using assms(1) by (intro Min_eqI [symmetric]) (auto intro: less_imp_le)
  from assms(2) obtain rs q where qs: "ps = rs @ [q]" by (metis append_butlast_last_id)
  then show "last ps = Max (set ps)"
    using assms(1) by (intro Max_eqI [symmetric]) (auto simp: sorted_wrt_append intro: less_imp_le)
qed

lemma best_level_eq:
  assumes "best = list_max \<and> ps = rev (prices_of rows) \<or> best = list_min \<and> ps = prices_of rows"
    and "\<forall>l \<in> set (levels rows (take 1 ps)). level_quantity l \<le> int32_max"
  shows "best_level best rows = levels rows (take 1 ps)"
proof (cases "rows = []")
  case True
  with assms(1) have "ps = []" by (auto simp: prices_of_def)
  with True show ?thesis by (simp add: best_level_def levels_def)
next
  case False
  then have ne: "prices_of rows \<noteq> []" "map o_price rows \<noteq> []"
    using prices_of_set [of rows] by (metis empty_set image_is_empty set_empty, simp)
  obtain p qs where ps: "ps = p # qs" using assms(1) ne(1) by (cases ps) auto
  have "best (map o_price rows) = p"
    using assms(1)
  proof
    assume "best = list_max \<and> ps = rev (prices_of rows)"
    moreover from this ps have "p = last (prices_of rows)" by (metis hd_rev list.sel(1))
    ultimately show ?thesis
      using strict_sorted_ends(2) [OF prices_of_strict ne(1)] list_max_Max [OF ne(2)] by simp
  next
    assume "best = list_min \<and> ps = prices_of rows"
    moreover from this ps have "p = hd (prices_of rows)" by (metis list.sel(1))
    ultimately show ?thesis
      using strict_sorted_ends(1) [OF prices_of_strict ne(1)] list_min_Min [OF ne(2)] by simp
  qed
  moreover have "level_total rows p \<le> int32_max" using assms(2) ps by (simp add: levels_def)
  ultimately show ?thesis
    using False ps by (simp add: best_level_def levels_def level_total_def Let_def)
qed

lemma topOfBooks_Inr:
  assumes "topOfBooks ids s = (Inr f, s')" and "mkt \<in> set ids" and "book_id_of s mkt = Some b"
  shows "s' = s \<and> f mkt = Some (top_of_book s b)"
proof -
  from assms(3) obtain m where m: "m \<in> set (markets s)" "mk_id m = mkt"
    unfolding book_id_of_def market_of_def by (auto dest: find_key_in)
  then have "remdups (map mk_book (filter (\<lambda>m. mk_id m \<in> set ids) (markets s))) \<noteq> []"
    using assms(2) by (auto simp: filter_empty_conv)
  with assms show ?thesis
    by (auto simp: topOfBooks_def bindS_Inr liftS_Inr queryS_Inr split: if_splits)
qed

text \<open>
  The two ways the plugin reads the best prices agree: whenever \<open>orderBook\<close> with depth 1
  returns for a market, the entry of that market in the map that \<open>topOfBooks\<close> returns for any
  list of markets containing it is the same order book.
\<close>

theorem topOfBooks_agrees:
  assumes "orderBook mkt 1 s = (Inr ob, s1)" and "topOfBooks ids s = (Inr f, s2)" and "mkt \<in> set ids"
  shows "f mkt = Some ob"
proof -
  from orderBook_Inr [OF assms(1)] obtain b where b: "book_id_of s mkt = Some b"
    and ob: "bids ob = levels (book_rows s b Buy) (take 1 (rev (prices_of (book_rows s b Buy))))"
    "asks ob = levels (book_rows s b Sell) (take 1 (prices_of (book_rows s b Sell)))"
    "last_price ob = last_trade_price s b"
    and le: "\<forall>l \<in> set (bids ob) \<union> set (asks ob). level_quantity l \<le> int32_max"
    by (metis nat_one_as_int nat_int)
  have "top_of_book s b = ob"
    using ob le best_level_eq [of list_max "rev (prices_of (book_rows s b Buy))" "book_rows s b Buy"]
      best_level_eq [of list_min "prices_of (book_rows s b Sell)" "book_rows s b Sell"]
    by (intro OrderBook.equality) (simp_all add: top_of_book_def)
  with topOfBooks_Inr [OF assms(2,3) b] show ?thesis by simp
qed

theorem topOfBooks_agrees_witness:
  "(case topOfBooks [1, 2] demo_db of (Inr f, s') \<Rightarrow> f 2 | _ \<Rightarrow> None) =
    Some \<lparr>bids = [\<lparr>level_price = 20, level_quantity = 4\<rparr>], asks = [\<lparr>level_price = 25, level_quantity = 2\<rparr>],
      last_price = None\<rparr>"
proof -
  let ?ob = "\<lparr>bids = [\<lparr>level_price = 20, level_quantity = 4\<rparr>], asks = [\<lparr>level_price = 25, level_quantity = 2\<rparr>],
      last_price = None\<rparr>"
  have "fst (orderBook 2 1 demo_db) = Inr ?ob" by code_simp
  then have o: "orderBook 2 1 demo_db = (Inr ?ob, snd (orderBook 2 1 demo_db))" by (metis prod.collapse)
  have "(case fst (topOfBooks [1, 2] demo_db) of Inr f \<Rightarrow> True | Inl e \<Rightarrow> False)" by code_simp
  then obtain f where t: "topOfBooks [1, 2] demo_db = (Inr f, snd (topOfBooks [1, 2] demo_db))"
    by (metis old.sum.simps(5) prod.collapse sumE)
  have "f 2 = Some ?ob" by (rule topOfBooks_agrees [OF o t]) simp
  then show ?thesis by (subst t) simp
qed

end
