(* ===== verification/Text.thy ===== *)
theory Text
  imports Store "HOL-Library.Char_ord"
begin

text \<open>
  Numbers as text: the decimal rendering of \<open>std::to_string\<close>, \<open>std::format\<close> and of MySQL's result
  cells, and the parsers of the C++ standard library the program reads them with (\<open>std::stoll\<close>,
  \<open>std::stoull\<close>, \<open>std::from_chars\<close>). A parser's result is the value with the number of characters
  consumed.
\<close>

section \<open>Digits\<close>

definition char_code :: "char \<Rightarrow> nat" where
  "char_code c = of_char c"

definition is_digit :: "char \<Rightarrow> bool" where
  "is_digit c \<longleftrightarrow> 48 \<le> char_code c \<and> char_code c \<le> 57"

text \<open>\<open>std::isspace\<close> in the C locale.\<close>

definition is_space :: "char \<Rightarrow> bool" where
  "is_space c \<longleftrightarrow> char_code c = 32 \<or> (9 \<le> char_code c \<and> char_code c \<le> 13)"

definition digit_char :: "nat \<Rightarrow> char" where
  "digit_char d = char_of (48 + d)"

definition digit_value :: "char \<Rightarrow> nat" where
  "digit_value c = char_code c - 48"

lemma char_code_digit [simp]: "d < 10 \<Longrightarrow> char_code (digit_char d) = 48 + d"
  by (simp add: char_code_def digit_char_def)

lemma is_digit_digit [simp]: "d < 10 \<Longrightarrow> is_digit (digit_char d)"
  by (simp add: is_digit_def)

lemma digit_value_digit [simp]: "d < 10 \<Longrightarrow> digit_value (digit_char d) = d"
  by (simp add: digit_value_def)

fun dec_nat :: "nat \<Rightarrow> string" where
  "dec_nat n = (if n < 10 then [digit_char n] else dec_nat (n div 10) @ [digit_char (n mod 10)])"

definition dec :: "int \<Rightarrow> string" where
  "dec n = (if n < 0 then CHR ''-'' # dec_nat (nat (- n)) else dec_nat (nat n))"

definition digits_value :: "string \<Rightarrow> nat" where
  "digits_value cs = foldl (\<lambda>v c. 10 * v + digit_value c) 0 cs"

declare dec_nat.simps [simp del]

lemma digits_value_snoc: "digits_value (cs @ [c]) = 10 * digits_value cs + digit_value c"
  by (simp add: digits_value_def)

lemma dec_nat_value [simp]: "digits_value (dec_nat n) = n"
proof (induction n rule: dec_nat.induct)
  case (1 n)
  show ?case
  proof (cases "n < 10")
    case True
    then show ?thesis by (simp add: dec_nat.simps [of n] digits_value_def)
  next
    case False
    with 1 show ?thesis by (simp add: dec_nat.simps [of n] digits_value_snoc)
  qed
qed

lemma dec_nat_digits: "c \<in> set (dec_nat n) \<Longrightarrow> is_digit c"
proof (induction n rule: dec_nat.induct)
  case (1 n)
  then show ?case by (cases "n < 10") (auto simp: dec_nat.simps [of n])
qed

lemma dec_nat_nonempty [simp]: "dec_nat n \<noteq> []"
  by (subst dec_nat.simps) simp

lemma dec_nat_inj: "dec_nat m = dec_nat n \<Longrightarrow> m = n"
  by (metis dec_nat_value)

lemma char_codes [simp]:
  "char_code CHR ''-'' = 45" "char_code CHR ''+'' = 43" "char_code CHR '':'' = 58"
  "char_code CHR '' '' = 32" "char_code CHR ''.'' = 46" "char_code CHR ''_'' = 95"
  by (simp_all add: char_code_def)

lemma not_digits [simp]:
  "\<not> is_digit CHR ''-''" "\<not> is_digit CHR ''+''" "\<not> is_digit CHR '':''" "\<not> is_digit CHR '' ''"
  "\<not> is_digit CHR ''.''" "\<not> is_digit CHR ''_''"
  by (simp_all add: is_digit_def)

lemma is_digit_not_space: "is_digit c \<Longrightarrow> \<not> is_space c"
  by (simp add: is_digit_def is_space_def)

lemma takeWhile_dec_nat: "takeWhile is_digit (dec_nat n @ rest) =
    dec_nat n @ takeWhile is_digit rest" "dropWhile is_digit (dec_nat n @ rest) = dropWhile is_digit rest"
  using dec_nat_digits [of _ n] by (auto simp: takeWhile_append2 dropWhile_append2)

lemma takeWhile_dec_nat_all [simp]:
  "takeWhile is_digit (dec_nat n) = dec_nat n" "dropWhile is_digit (dec_nat n) = []"
  using takeWhile_dec_nat [of n "[]"] by simp_all

lemma dec_nat_Cons: obtains c cs where "dec_nat n = c # cs" "is_digit c"
  by (metis dec_nat_digits dec_nat_nonempty list.exhaust list.set_intros(1))

lemma dec_inj: "dec m = dec n \<Longrightarrow> m = n"
proof -
  assume eq: "dec m = dec n"
  have neg: "CHR ''-'' # xs \<noteq> dec_nat k" for xs k
    by (metis dec_nat_digits list.set_intros(1) not_digits(1))
  show "m = n"
    using eq neg [of "dec_nat (nat (- m))" "nat n"] neg [of "dec_nat (nat (- n))" "nat m"]
    by (auto simp: dec_def eq_nat_nat_iff dest!: dec_nat_inj split: if_splits)
qed

lemma dec_chars: "c \<in> set (dec n) \<Longrightarrow> is_digit c \<or> c = CHR ''-''"
  by (auto simp: dec_def dec_nat_digits split: if_splits)

section \<open>Parsing\<close>

text \<open>
  \<open>std::stoll\<close> and \<open>std::stoull\<close>: leading white space, an optional sign, digits; what follows is not
  looked at. \<open>stoull\<close> negates modulo $2^{64}$ when the sign is a minus.
\<close>

definition signed_part :: "string \<Rightarrow> bool \<times> string" where
  "signed_part s = (case dropWhile is_space s of
     c # cs \<Rightarrow> if c = CHR ''-'' then (True, cs) else if c = CHR ''+'' then (False, cs) else (False, c # cs)
   | [] \<Rightarrow> (False, []))"

definition stoll :: "string \<Rightarrow> (int \<times> nat) result" where
  "stoll s = (let (neg, u) = signed_part s; ds = takeWhile is_digit u in
     if ds = [] then Inl (Invalid_Argument ''stoll'')
     else let v = (if neg then - int (digits_value ds) else int (digits_value ds)) in
       if v < int64_min \<or> v > int64_max then Inl (Overflow_Error ''stoll'')
       else Inr (v, length s - length (dropWhile is_digit u)))"

definition stoull :: "string \<Rightarrow> (nat \<times> nat) result" where
  "stoull s = (let (neg, u) = signed_part s; ds = takeWhile is_digit u in
     if ds = [] then Inl (Invalid_Argument ''stoull'')
     else let v = digits_value ds in
       if v \<ge> 2 ^ 64 then Inl (Overflow_Error ''stoull'')
       else Inr (if neg \<and> v \<noteq> 0 then 2 ^ 64 - v else v, length s - length (dropWhile is_digit u)))"

lemma signed_part_dec_nat: "signed_part (dec_nat n) = (False, dec_nat n)"
proof -
  obtain c cs where c: "dec_nat n = c # cs" "is_digit c" by (rule dec_nat_Cons)
  then have "\<not> is_space c" "c \<noteq> CHR ''-''" "c \<noteq> CHR ''+''" using is_digit_not_space by auto
  with c show ?thesis by (simp add: signed_part_def)
qed

lemma signed_part_neg: "signed_part (CHR ''-'' # cs) = (True, cs)"
  by (simp add: signed_part_def is_space_def)

lemma stoll_dec:
  assumes "int64_min \<le> n" and "n \<le> int64_max"
  shows "stoll (dec n) = Inr (n, length (dec n))"
  using assms by (auto simp: stoll_def dec_def signed_part_dec_nat signed_part_neg Let_def)

lemma stoull_dec_nat:
  "n < 2 ^ 64 \<Longrightarrow> stoull (dec_nat n) = Inr (n, length (dec_nat n))"
  by (simp add: stoull_def signed_part_dec_nat Let_def)

text \<open>
  \<open>std::from_chars\<close> for an integer: no white space, a minus sign for signed types only, digits;
  the value must lie in the target's range.
\<close>

definition from_chars :: "bool \<Rightarrow> int \<Rightarrow> int \<Rightarrow> string \<Rightarrow> (int \<times> string) result" where
  "from_chars sg lo hi s = (let (neg, u) = (case s of c # cs \<Rightarrow>
         if sg \<and> c = CHR ''-'' then (True, cs) else (False, s) | [] \<Rightarrow> (False, []));
       ds = takeWhile is_digit u in
     if ds = [] then Inl (Invalid_Argument ''from_chars'')
     else let v = (if neg then - int (digits_value ds) else int (digits_value ds)) in
       if v < lo \<or> v > hi then Inl (Overflow_Error ''from_chars'')
       else Inr (v, dropWhile is_digit u))"

lemma from_chars_dec:
  assumes "lo \<le> n" and "n \<le> hi" and "0 \<le> n \<or> sg" and "\<And>c cs. rest = c # cs \<Longrightarrow> \<not> is_digit c"
  shows "from_chars sg lo hi (dec n @ rest) = Inr (n, rest)"
proof -
  have rest: "takeWhile is_digit rest = []" "dropWhile is_digit rest = rest"
    using assms(4) by (cases rest; simp)+
  show ?thesis
  proof (cases "n < 0")
    case True
    with assms rest show ?thesis
      by (simp add: from_chars_def dec_def takeWhile_dec_nat Let_def)
  next
    case False
    obtain c cs where c: "dec_nat (nat n) = c # cs" "is_digit c" by (rule dec_nat_Cons)
    then have "c \<noteq> CHR ''-''" by auto
    then have "(case dec_nat (nat n) @ rest of c # cs \<Rightarrow>
         if sg \<and> c = CHR ''-'' then (True, cs) else (False, dec_nat (nat n) @ rest) | [] \<Rightarrow> (False, []))
       = (False, dec_nat (nat n) @ rest)" by (simp add: c)
    with False assms rest show ?thesis
      by (simp add: from_chars_def dec_def takeWhile_dec_nat Let_def)
  qed
qed

section \<open>UTF-8\<close>

text \<open>The bytes of a source literal outside ASCII, from its code points.\<close>

definition utf8_char :: "int \<Rightarrow> string" where
  "utf8_char c = (if c < 128 then [char_of c]
     else if c < 2048 then [char_of (192 + c div 64), char_of (128 + c mod 64)]
     else if c < 65536 then [char_of (224 + c div 4096), char_of (128 + c div 64 mod 64), char_of (128 + c mod 64)]
     else [char_of (240 + c div 262144), char_of (128 + c div 4096 mod 64), char_of (128 + c div 64 mod 64),
       char_of (128 + c mod 64)])"

definition utf8 :: "int list \<Rightarrow> string" where
  "utf8 cs = concat (map utf8_char cs)"

section \<open>Bytes and characters\<close>

text \<open>A \<open>std::string\<close> is a sequence of bytes; here the two views of it.\<close>

definition byte_of_char :: "char \<Rightarrow> byte" where
  "byte_of_char c = word_of_nat (char_code c)"

definition char_of_byte :: "byte \<Rightarrow> char" where
  "char_of_byte b = char_of (unat b)"

lemma char_code_lt: "char_code c < 256"
  by (simp add: char_code_def)

lemma char_of_byte_inverse [simp]: "byte_of_char (char_of_byte b) = b"
proof -
  have "unat b < 256" using unsigned_less [of b] by simp
  then show ?thesis by (simp add: byte_of_char_def char_of_byte_def char_code_def)
qed

lemma byte_of_char_inverse [simp]: "char_of_byte (byte_of_char c) = c"
proof -
  have "unat (word_of_nat (char_code c) :: byte) = char_code c"
    using char_code_lt [of c] by (simp add: unat_of_nat)
  then show ?thesis by (simp add: byte_of_char_def char_of_byte_def char_code_def)
qed

end
