(* ===== verification/Bytes.thy ===== *)
theory Bytes
  imports Text "HOL-Library.Word"
begin

text \<open>
  The byte stream under both binary formats of the plugin (src/nbt_codec.cpp, src/structure_reader.cpp):
  a reader is a computation on the bytes that are left, a writer one on the bytes written so far. Both
  formats are little-endian. What reader and writer promise each other is the locale \<open>wire\<close>.
\<close>

section \<open>Reading and writing\<close>

type_synonym 'a reader = "(byte list, 'a) svc"
type_synonym writer = "(byte list, unit) svc"

definition push_bytes :: "byte list \<Rightarrow> writer" where
  "push_bytes bs = executeS (\<lambda>out. out @ bs)"

text \<open>\<open>require(count)\<close>, then the next \<open>count\<close> bytes.\<close>

definition take_bytes :: "error \<Rightarrow> nat \<Rightarrow> byte list reader" where
  "take_bytes e n bs = (if n > length bs then (Inl e, bs) else (Inr (take n bs), drop n bs))"

text \<open>\<open>integral\<close> of the writer, \<open>(raw >> (i * 8)) & 0xff\<close> for each byte, and of the reader, the loop
  \<open>raw |= byte << (i * 8)\<close>. A signed value is its bit pattern (\<open>std::bit_cast\<close>).\<close>

definition le_bytes :: "'a::len word \<Rightarrow> byte list" where
  "le_bytes raw = map (\<lambda>i. ucast (and (drop_bit (i * 8) raw) 0xff)) [0..<LENGTH('a) div 8]"

primrec le_loop :: "nat \<Rightarrow> byte list \<Rightarrow> 'a::len word \<Rightarrow> 'a word" where
  "le_loop i [] raw = raw"
| "le_loop i (b # bs) raw = le_loop (Suc i) bs (or raw (push_bit (i * 8) (ucast b)))"

definition integral :: "error \<Rightarrow> 'a::len word reader" where
  "integral e = bindS (take_bytes e (LENGTH('a) div 8)) (\<lambda>bs. returnS (le_loop 0 bs 0))"

text \<open>A counted loop that collects what each round reads.\<close>

primrec read_many :: "nat \<Rightarrow> 'a reader \<Rightarrow> 'a list reader" where
  "read_many 0 r = returnS []"
| "read_many (Suc n) r = bindS r (\<lambda>x. bindS (read_many n r) (\<lambda>xs. returnS (x # xs)))"

section \<open>What a reader and its writer promise each other\<close>

locale wire =
  fixes ok :: "'a \<Rightarrow> bool" and enc :: "'a \<Rightarrow> byte list" and dec :: "'a reader"
  assumes reads_back: "ok x \<Longrightarrow> dec (enc x @ rest) = (Inr x, rest)"
begin

lemma reads_back_all: "ok x \<Longrightarrow> dec (enc x) = (Inr x, [])"
  using reads_back [of x "[]"] by simp

lemma many:
  "list_all ok xs \<Longrightarrow> read_many (length xs) dec (concat (map enc xs) @ rest) = (Inr xs, rest)"
  by (induction xs) (simp_all add: reads_back bindS_def returnS_def)

lemma then_reads: "ok x \<Longrightarrow> bindS dec f (enc x @ rest) = f x rest"
  by (simp add: bindS_def reads_back)

lemma distinguishes: "ok x \<Longrightarrow> ok y \<Longrightarrow> enc x @ rest = enc y @ rest' \<longleftrightarrow> x = y \<and> rest = rest'"
  by (metis reads_back Pair_inject sum.inject(2))

end

text \<open>
  A streaming reader only looks at a prefix of its input: what follows the part it used is left
  untouched, and more input after a success changes nothing.
\<close>

definition streaming :: "'a reader \<Rightarrow> bool" where
  "streaming r \<longleftrightarrow> (\<forall>bs x rest. r bs = (Inr x, rest) \<longrightarrow>
     length rest \<le> length bs \<and> (\<forall>ys. r (bs @ ys) = (Inr x, rest @ ys)))"

named_theorems stream

lemma streamingD:
  "streaming r \<Longrightarrow> r bs = (Inr x, rest) \<Longrightarrow> r (bs @ ys) = (Inr x, rest @ ys)"
  "streaming r \<Longrightarrow> r bs = (Inr x, rest) \<Longrightarrow> length rest \<le> length bs"
  unfolding streaming_def by blast+

lemma streamingI:
  assumes "\<And>bs x rest. r bs = (Inr x, rest) \<Longrightarrow> length rest \<le> length bs"
    and "\<And>bs x rest ys. r bs = (Inr x, rest) \<Longrightarrow> r (bs @ ys) = (Inr x, rest @ ys)"
  shows "streaming r"
  using assms unfolding streaming_def by blast

lemma streaming_returnS [stream]: "streaming (returnS x)"
  by (simp add: streaming_def returnS_def)

lemma streaming_throwS [stream]: "streaming (throwS e)"
  by (simp add: streaming_def throwS_def)

lemma streaming_throwIf [stream]: "streaming (throwIf c e)"
  by (simp add: throwIf_def streaming_returnS streaming_throwS)

lemma streaming_take_bytes [stream]: "streaming (take_bytes e n)"
  by (auto simp: streaming_def take_bytes_def split: if_splits)

lemma streaming_bindS [stream]:
  assumes "streaming m" and "\<And>x. streaming (f x)"
  shows "streaming (bindS m f)"
proof (rule streamingI)
  fix bs y rest
  assume "bindS m f bs = (Inr y, rest)"
  then obtain x bs' where *: "m bs = (Inr x, bs')" "f x bs' = (Inr y, rest)" by (auto simp: bindS_Inr)
  show "length rest \<le> length bs"
    using streamingD(2) [OF assms(1) *(1)] streamingD(2) [OF assms(2) *(2)] by simp
  show "bindS m f (bs @ ys) = (Inr y, rest @ ys)" for ys
    using streamingD(1) [OF assms(1) *(1)] streamingD(1) [OF assms(2) *(2)] by (simp add: bindS_def)
qed

lemma streaming_integral [stream]: "streaming (integral e)"
  unfolding integral_def by (intro stream)

lemma streaming_read_many [stream]: "streaming r \<Longrightarrow> streaming (read_many n r)"
  by (induction n) (simp_all add: stream)

text \<open>\<open>r'\<close> succeeds wherever \<open>r\<close> does, in the same way.\<close>

definition extends :: "'a reader \<Rightarrow> 'a reader \<Rightarrow> bool" where
  "extends r r' \<longleftrightarrow> (\<forall>bs x rest. r bs = (Inr x, rest) \<longrightarrow> r' bs = (Inr x, rest))"

named_theorems more_fuel

lemma extendsD: "extends r r' \<Longrightarrow> r bs = (Inr x, rest) \<Longrightarrow> r' bs = (Inr x, rest)"
  unfolding extends_def by blast

lemma extends_refl [more_fuel]: "extends r r"
  by (simp add: extends_def)

lemma extends_throwS [more_fuel]: "extends (throwS e) r"
  by (simp add: extends_def throwS_def)

lemma extends_bindS [more_fuel]:
  "extends m m' \<Longrightarrow> (\<And>x. extends (f x) (f' x)) \<Longrightarrow> extends (bindS m f) (bindS m' f')"
  unfolding extends_def by (fastforce simp: bindS_def split: prod.splits sum.splits)

lemma extends_read_many [more_fuel]: "extends r r' \<Longrightarrow> extends (read_many n r) (read_many n r')"
  by (induction n) (simp_all add: more_fuel)

text \<open>The exceptions a reader can throw on inputs shorter than a bound.\<close>

definition errors_in :: "error set \<Rightarrow> nat \<Rightarrow> 'a reader \<Rightarrow> bool" where
  "errors_in E L r \<longleftrightarrow> (\<forall>bs e rest. length bs < L \<longrightarrow> r bs = (Inl e, rest) \<longrightarrow> e \<in> E)"

named_theorems raises

lemma errors_inD: "errors_in E L r \<Longrightarrow> length bs < L \<Longrightarrow> r bs = (Inl e, rest) \<Longrightarrow> e \<in> E"
  unfolding errors_in_def by blast

lemma errors_in_fst: "errors_in E L r \<Longrightarrow> length bs < L \<Longrightarrow> fst (r bs) = Inl e \<Longrightarrow> e \<in> E"
  by (cases "r bs") (auto dest: errors_inD)

lemma errors_returnS [raises]: "errors_in E L (returnS x)"
  by (simp add: errors_in_def returnS_def)

lemma errors_throwS [raises]: "e \<in> E \<Longrightarrow> errors_in E L (throwS e)"
  by (simp add: errors_in_def throwS_def)

lemma errors_throwIf [raises]: "e \<in> E \<Longrightarrow> errors_in E L (throwIf c e)"
  by (simp add: throwIf_def errors_returnS errors_throwS)

lemma errors_take_bytes [raises]: "e \<in> E \<Longrightarrow> errors_in E L (take_bytes e n)"
  by (simp add: errors_in_def take_bytes_def)

lemma errors_bindS [raises]:
  assumes "errors_in E L m" and "\<And>x. errors_in E L (f x)" and "streaming m"
  shows "errors_in E L (bindS m f)"
  unfolding errors_in_def
proof (intro allI impI)
  fix bs e rest
  assume bs: "length bs < L" and run: "bindS m f bs = (Inl e, rest)"
  show "e \<in> E"
  proof (cases "fst (m bs)")
    case (Inl e')
    with run have "m bs = (Inl e, rest)" by (cases "m bs") (simp add: bindS_def)
    then show ?thesis by (rule errors_inD [OF assms(1) bs])
  next
    case (Inr x)
    then obtain bs' where m: "m bs = (Inr x, bs')" by (cases "m bs") simp
    with run have "f x bs' = (Inl e, rest)" by (simp add: bindS_def)
    moreover have "length bs' < L" using streamingD(2) [OF assms(3) m] bs by simp
    ultimately show ?thesis using errors_inD [OF assms(2)] by blast
  qed
qed

lemma errors_query [raises]: "(\<And>x. errors_in E L (f x)) \<Longrightarrow> errors_in E L (bindS (queryS q) f)"
  by (simp add: errors_in_def bindS_def queryS_def)

lemma errors_integral [raises]: "e \<in> E \<Longrightarrow> errors_in E L (integral e)"
  unfolding integral_def by (intro raises stream)

lemma errors_read_many [raises]: "errors_in E L r \<Longrightarrow> streaming r \<Longrightarrow> errors_in E L (read_many n r)"
  by (induction n) (simp_all add: raises stream)

text \<open>A reader that starts with a byte hands a shorter input to what follows.\<close>

lemma errors_after_byte:
  assumes "e \<in> E" and "\<And>b. errors_in E L (f b)"
  shows "errors_in E (Suc L) (bindS (integral e :: byte reader) f)"
  unfolding errors_in_def
proof (intro allI impI)
  fix bs err rest
  assume bs: "length bs < Suc L" and run: "bindS (integral e :: byte reader) f bs = (Inl err, rest)"
  show "err \<in> E"
  proof (cases bs)
    case Nil
    with run assms(1) show ?thesis by (simp add: integral_def bindS_def take_bytes_def)
  next
    case (Cons b bs')
    with run have "f b bs' = (Inl err, rest)"
      by (simp add: integral_def bindS_def take_bytes_def returnS_def)
    with assms(2) bs Cons errors_inD show ?thesis by fastforce
  qed
qed

section \<open>Machine words\<close>

lemma bit_le_loop:
  fixes raw :: "'a::len word"
  shows "bit (le_loop i bs raw) n \<longleftrightarrow> n < LENGTH('a) \<and>
    (bit raw n \<or> (i * 8 \<le> n \<and> n div 8 - i < length bs \<and> bit (bs ! (n div 8 - i)) (n mod 8)))"
proof (induction bs arbitrary: i raw)
  case Nil
  then show ?case by (auto dest: bit_imp_le_length)
next
  case (Cons b bs)
  have at_i: "n div 8 = i \<longleftrightarrow> i * 8 \<le> n \<and> n - i * 8 < 8" "n div 8 = i \<Longrightarrow> n mod 8 = n - i * 8"
    by (auto simp: minus_div_mult_eq_mod intro: div_nat_eqI)
  have after_i: "Suc i * 8 \<le> n \<longleftrightarrow> Suc i \<le> n div 8" "i * 8 \<le> n \<longleftrightarrow> i \<le> n div 8"
    by (simp_all add: less_eq_div_iff_mult_less_eq)
  have "bit b (n - i * 8) \<Longrightarrow> n - i * 8 < 8" using bit_imp_le_length [of b] by auto
  then have shifted: "bit (push_bit (i * 8) (ucast b :: 'a word)) n \<longleftrightarrow>
      n < LENGTH('a) \<and> n div 8 = i \<and> bit b (n mod 8)"
    using at_i by (auto simp: bit_push_bit_iff bit_ucast_iff)
  have idx: "i * 8 \<le> n \<and> n div 8 - i < length (b # bs) \<and> bit ((b # bs) ! (n div 8 - i)) (n mod 8) \<longleftrightarrow>
      (n div 8 = i \<and> bit b (n mod 8)) \<or>
      (Suc i * 8 \<le> n \<and> n div 8 - Suc i < length bs \<and> bit (bs ! (n div 8 - Suc i)) (n mod 8))"
  proof (cases "n div 8 - i")
    case (Suc k)
    then have "n div 8 - Suc i = k" "Suc i \<le> n div 8" by simp_all
    with Suc show ?thesis unfolding after_i by auto
  qed (auto simp: after_i)
  show ?case unfolding le_loop.simps Cons.IH bit_or_iff shifted idx by blast
qed

lemma length_le_bytes [simp]: "length (le_bytes (w :: 'a::len word)) = LENGTH('a) div 8"
  by (simp add: le_bytes_def)

lemma le_loop_le_bytes:
  fixes w :: "'a::len word"
  assumes "8 dvd LENGTH('a)"
  shows "le_loop 0 (le_bytes w) 0 = w"
proof (rule bit_word_eqI)
  fix n
  assume n: "n < LENGTH('a)"
  then have i: "n div 8 < LENGTH('a) div 8" using assms by (simp add: div_less_iff_less_mult dvd_div_mult_self)
  have m: "n div 8 * 8 + n mod 8 = n" "n mod 8 < 8" by presburger+
  have "bit (0xff :: 'a word) (n mod 8) \<longleftrightarrow> n mod 8 < LENGTH('a)"
  proof -
    have "(0xff :: 'a word) = mask 8" by (simp add: mask_eq_exp_minus_1)
    show ?thesis unfolding \<open>0xff = mask 8\<close> bit_mask_iff using m(2) by simp
  qed
  then have "bit (le_bytes w ! (n div 8)) (n mod 8) \<longleftrightarrow> bit w n \<and> n mod 8 < LENGTH('a)"
    using i m by (auto simp: le_bytes_def bit_ucast_iff bit_and_iff bit_drop_bit_eq)
  moreover have "n mod 8 < LENGTH('a)" using n m by linarith
  ultimately have "bit (le_bytes w ! (n div 8)) (n mod 8) \<longleftrightarrow> bit w n" by blast
  with n i show "bit (le_loop 0 (le_bytes w) (0 :: 'a word)) n \<longleftrightarrow> bit w n" by (simp add: bit_le_loop)
qed

lemma integral_reads_back:
  fixes w :: "'a::len word"
  assumes "8 dvd LENGTH('a)"
  shows "integral e (le_bytes w @ rest) = (Inr w, rest)"
  by (simp add: integral_def bindS_def take_bytes_def returnS_def le_loop_le_bytes assms)

interpretation byte_wire: wire "\<lambda>_. True" le_bytes "integral e :: 8 word reader" for e
  by unfold_locales (simp add: integral_reads_back)

interpretation short_wire: wire "\<lambda>_. True" le_bytes "integral e :: 16 word reader" for e
  by unfold_locales (simp add: integral_reads_back)

interpretation int_wire: wire "\<lambda>_. True" le_bytes "integral e :: 32 word reader" for e
  by unfold_locales (simp add: integral_reads_back)

interpretation long_wire: wire "\<lambda>_. True" le_bytes "integral e :: 64 word reader" for e
  by unfold_locales (simp add: integral_reads_back)

lemma le_bytes_byte [simp]: "le_bytes (b :: byte) = [b]"
proof -
  have "0xff = (mask 8 :: byte)" by (simp add: mask_eq_exp_minus_1)
  then have "and b 0xff = take_bit 8 b" by (simp only: take_bit_eq_mask)
  then show ?thesis by (simp add: le_bytes_def take_bit_word_eq_self)
qed

lemma byte_reads [simp]: "bindS (integral e) f ((b :: byte) # rest) = f b rest"
  using byte_wire.then_reads [of e f b rest] by simp

end
