(* ===== verification/Nbt_Codec.thy ===== *)
theory Nbt_Codec
  imports Bytes
begin

text \<open>
  The plugin's own binary form of item NBT data (src/nbt_codec.cpp), in which items are stored in the
  database and compared. The tag classes belong to the host API: a tag is here the value it holds, the
  byte that stands for a tag type (\<open>endstone::nbt::Type\<close>) and the insertion into a compound
  (\<open>insert_or_assign\<close>) are parameters. A compound is the list of its entries in iteration order.
\<close>

section \<open>Tags\<close>

datatype tag_type = TEnd | TByte | TShort | TInt | TLong | TFloat | TDouble | TByteArray | TString | TList
  | TCompound | TIntArray

datatype tag =
    EndTag
  | ByteTag byte
  | ShortTag "16 word"
  | IntTag "32 word"
  | LongTag "64 word"
  | FloatTag "32 word"
  | DoubleTag "64 word"
  | StringTag string
  | ByteArrayTag "byte list"
  | IntArrayTag "32 word list"
  | ListTag "tag list"
  | CompoundTag "(string \<times> tag) list"

type_synonym compound = "(string \<times> tag) list"
type_synonym type_code = "tag_type \<Rightarrow> byte"
type_synonym assign = "string \<Rightarrow> tag \<Rightarrow> compound \<Rightarrow> compound"

fun type_of_tag :: "tag \<Rightarrow> tag_type" where
  "type_of_tag EndTag = TEnd"
| "type_of_tag (ByteTag _) = TByte"
| "type_of_tag (ShortTag _) = TShort"
| "type_of_tag (IntTag _) = TInt"
| "type_of_tag (LongTag _) = TLong"
| "type_of_tag (FloatTag _) = TFloat"
| "type_of_tag (DoubleTag _) = TDouble"
| "type_of_tag (StringTag _) = TString"
| "type_of_tag (ByteArrayTag _) = TByteArray"
| "type_of_tag (IntArrayTag _) = TIntArray"
| "type_of_tag (ListTag _) = TList"
| "type_of_tag (CompoundTag _) = TCompound"

definition all_types :: "tag_type list" where
  "all_types = [TEnd, TByte, TShort, TInt, TLong, TFloat, TDouble, TString, TByteArray, TIntArray, TList,
     TCompound]"

section \<open>The writer\<close>

definition write_size :: "nat \<Rightarrow> writer" where
  "write_size n = push_bytes (le_bytes (word_of_nat n :: 32 word))"

definition write_string :: "string \<Rightarrow> writer" where
  "write_string v =
    bindS (throwIf (int (length v) > 4294967295) (Runtime_Error ''NBT string is too large'')) (\<lambda>_.
    bindS (write_size (length v)) (\<lambda>_. push_bytes (map byte_of_char v)))"

lemma mapS_cong [fundef_cong]:
  "xs = ys \<Longrightarrow> (\<And>x. x \<in> set ys \<Longrightarrow> f x = g x) \<Longrightarrow> mapS f xs = mapS g ys"
  by (induction xs arbitrary: ys) auto

function write_payload :: "type_code \<Rightarrow> tag \<Rightarrow> writer" where
  "write_payload code EndTag = returnS ()"
| "write_payload code (ByteTag v) = push_bytes (le_bytes v)"
| "write_payload code (ShortTag v) = push_bytes (le_bytes v)"
| "write_payload code (IntTag v) = push_bytes (le_bytes v)"
| "write_payload code (LongTag v) = push_bytes (le_bytes v)"
| "write_payload code (FloatTag v) = push_bytes (le_bytes v)"
| "write_payload code (DoubleTag v) = push_bytes (le_bytes v)"
| "write_payload code (StringTag v) = write_string v"
| "write_payload code (ByteArrayTag v) = bindS (write_size (length v)) (\<lambda>_. push_bytes v)"
| "write_payload code (IntArrayTag v) =
    bindS (write_size (length v)) (\<lambda>_. mapS (\<lambda>x. push_bytes (le_bytes x)) v)"
| "write_payload code (ListTag v) = bindS (write_size (length v)) (\<lambda>_.
    mapS (\<lambda>x. bindS (push_bytes (le_bytes (code (type_of_tag x)))) (\<lambda>_. write_payload code x)) v)"
| "write_payload code (CompoundTag v) = bindS (write_size (length v)) (\<lambda>_.
    mapS (\<lambda>(k, x). bindS (write_string k) (\<lambda>_.
      bindS (push_bytes (le_bytes (code (type_of_tag x)))) (\<lambda>_. write_payload code x))) v)"
  by pat_completeness auto

lemma size_entry: "(k, x) \<in> set v \<Longrightarrow> size x < Suc (size_list (size_prod (\<lambda>_. 0) size) v)"
  by (induction v) auto

termination write_payload
  by (relation "measure (\<lambda>(code, t). size t)") (auto simp: size_entry less_Suc_eq_le size_list_estimation')

definition write_tag :: "type_code \<Rightarrow> tag \<Rightarrow> writer" where
  "write_tag code t = bindS (push_bytes (le_bytes (code (type_of_tag t)))) (\<lambda>_. write_payload code t)"

definition nbt_header :: "byte list" where
  "nbt_header = map byte_of_char ''EXNB'' @ [1]"

definition encode :: "type_code \<Rightarrow> compound \<Rightarrow> byte list result" where
  "encode code v = (case bindS (push_bytes nbt_header) (\<lambda>_. write_tag code (CompoundTag v)) [] of
     (Inl e, out) \<Rightarrow> Inl e | (Inr _, out) \<Rightarrow> Inr out)"

section \<open>The reader\<close>

definition truncated_nbt :: error where
  "truncated_nbt = Runtime_Error ''truncated encoded NBT''"

definition large_nbt :: error where
  "large_nbt = Runtime_Error ''encoded NBT container is too large''"

definition unknown_nbt :: error where
  "unknown_nbt = Runtime_Error ''unknown encoded NBT type''"

definition read_length :: "32 word reader" where
  "read_length = bindS (integral truncated_nbt) (\<lambda>v.
    bindS (throwIf (v > 16 * 1024 * 1024) large_nbt) (\<lambda>_. returnS v))"

definition read_string :: "string reader" where
  "read_string = bindS read_length (\<lambda>n.
    bindS (take_bytes truncated_nbt (unat n)) (\<lambda>bs. returnS (map char_of_byte bs)))"

text \<open>The recursion of \<open>tag\<close> is bounded by a fuel, of which the length of the input is enough; running
  out of it is an error of its own that the code does not have.\<close>

definition out_of_fuel :: error where
  "out_of_fuel = Invalid_Argument ''fuel''"

definition type_with_code :: "type_code \<Rightarrow> byte \<Rightarrow> tag_type option" where
  "type_with_code code b = find (\<lambda>t. code t = b) all_types"

text \<open>
  The arguments of \<open>value.insert_or_assign(string(), tag())\<close> are evaluated in an order that C++ leaves
  open; \<open>key_first\<close> says which one the compiler chose.
\<close>

definition read_entry :: "bool \<Rightarrow> string reader \<Rightarrow> tag reader \<Rightarrow> (string \<times> tag) reader" where
  "read_entry key_first rs rt =
    (if key_first then bindS rs (\<lambda>k. bindS rt (\<lambda>v. returnS (k, v)))
     else bindS rt (\<lambda>v. bindS rs (\<lambda>k. returnS (k, v))))"

primrec read_entries :: "assign \<Rightarrow> (string \<times> tag) reader \<Rightarrow> nat \<Rightarrow> compound \<Rightarrow> compound reader" where
  "read_entries assign r 0 value = returnS value"
| "read_entries assign r (Suc n) value = bindS r (\<lambda>(k, v). read_entries assign r n (assign k v value))"

text \<open>The cases of \<open>tag\<close> after the type byte; \<open>rt\<close> is the recursive call.\<close>

fun read_payload :: "assign \<Rightarrow> bool \<Rightarrow> tag reader \<Rightarrow> tag_type \<Rightarrow> tag reader" where
  "read_payload assign kf rt TEnd = returnS EndTag"
| "read_payload assign kf rt TByte = bindS (integral truncated_nbt) (\<lambda>v. returnS (ByteTag v))"
| "read_payload assign kf rt TShort = bindS (integral truncated_nbt) (\<lambda>v. returnS (ShortTag v))"
| "read_payload assign kf rt TInt = bindS (integral truncated_nbt) (\<lambda>v. returnS (IntTag v))"
| "read_payload assign kf rt TLong = bindS (integral truncated_nbt) (\<lambda>v. returnS (LongTag v))"
| "read_payload assign kf rt TFloat = bindS (integral truncated_nbt) (\<lambda>v. returnS (FloatTag v))"
| "read_payload assign kf rt TDouble = bindS (integral truncated_nbt) (\<lambda>v. returnS (DoubleTag v))"
| "read_payload assign kf rt TString = bindS read_string (\<lambda>v. returnS (StringTag v))"
| "read_payload assign kf rt TByteArray = bindS read_length (\<lambda>k.
    bindS (take_bytes truncated_nbt (unat k)) (\<lambda>bs. returnS (ByteArrayTag bs)))"
| "read_payload assign kf rt TIntArray = bindS read_length (\<lambda>k.
    bindS (read_many (unat k) (integral truncated_nbt)) (\<lambda>v. returnS (IntArrayTag v)))"
| "read_payload assign kf rt TList = bindS read_length (\<lambda>k.
    bindS (read_many (unat k) rt) (\<lambda>v. returnS (ListTag v)))"
| "read_payload assign kf rt TCompound = bindS read_length (\<lambda>k.
    bindS (read_entries assign (read_entry kf read_string rt) (unat k) []) (\<lambda>v. returnS (CompoundTag v)))"

primrec read_tag :: "type_code \<Rightarrow> assign \<Rightarrow> bool \<Rightarrow> nat \<Rightarrow> tag reader" where
  "read_tag code assign kf 0 bs = throwS out_of_fuel bs"
| "read_tag code assign kf (Suc n) bs = bindS (integral truncated_nbt) (\<lambda>b.
    case type_with_code code b of None \<Rightarrow> throwS unknown_nbt
    | Some ty \<Rightarrow> read_payload assign kf (read_tag code assign kf n) ty) bs"

lemma read_tag_eqs:
  "read_tag code assign kf 0 = throwS out_of_fuel"
  "read_tag code assign kf (Suc n) = bindS (integral truncated_nbt) (\<lambda>b.
    case type_with_code code b of None \<Rightarrow> throwS unknown_nbt
    | Some ty \<Rightarrow> read_payload assign kf (read_tag code assign kf n) ty)"
  by (simp_all add: fun_eq_iff)

definition header_byte :: "byte \<Rightarrow> unit reader" where
  "header_byte b = bindS (integral truncated_nbt) (\<lambda>v.
    throwIf (v \<noteq> b) (Runtime_Error ''invalid encoded NBT header''))"

definition bad_root :: error where
  "bad_root = Runtime_Error ''invalid encoded NBT root''"

definition decode :: "type_code \<Rightarrow> assign \<Rightarrow> bool \<Rightarrow> byte list \<Rightarrow> compound result" where
  "decode code assign kf bytes =
    (if bytes = [] then Inr []
     else fst (bindS (mapS header_byte nbt_header) (\<lambda>_.
       bindS (read_tag code assign kf (Suc (length bytes))) (\<lambda>t.
       bindS (queryS (\<lambda>rest. rest = [])) (\<lambda>finished.
       case t of CompoundTag v \<Rightarrow> if finished then returnS v else throwS bad_root
       | _ \<Rightarrow> throwS bad_root))) bytes))"

section \<open>The format\<close>

definition size_bytes :: "nat \<Rightarrow> byte list" where
  "size_bytes n = le_bytes (word_of_nat n :: 32 word)"

definition string_bytes :: "string \<Rightarrow> byte list" where
  "string_bytes v = size_bytes (length v) @ map byte_of_char v"

function payload_bytes :: "type_code \<Rightarrow> tag \<Rightarrow> byte list" where
  "payload_bytes code EndTag = []"
| "payload_bytes code (ByteTag v) = le_bytes v"
| "payload_bytes code (ShortTag v) = le_bytes v"
| "payload_bytes code (IntTag v) = le_bytes v"
| "payload_bytes code (LongTag v) = le_bytes v"
| "payload_bytes code (FloatTag v) = le_bytes v"
| "payload_bytes code (DoubleTag v) = le_bytes v"
| "payload_bytes code (StringTag v) = string_bytes v"
| "payload_bytes code (ByteArrayTag v) = size_bytes (length v) @ v"
| "payload_bytes code (IntArrayTag v) = size_bytes (length v) @ concat (map le_bytes v)"
| "payload_bytes code (ListTag v) =
    size_bytes (length v) @ concat (map (\<lambda>x. code (type_of_tag x) # payload_bytes code x) v)"
| "payload_bytes code (CompoundTag v) = size_bytes (length v) @
    concat (map (\<lambda>(k, x). string_bytes k @ code (type_of_tag x) # payload_bytes code x) v)"
  by pat_completeness auto
termination payload_bytes
  by (relation "measure (\<lambda>(code, t). size t)") (auto simp: size_entry less_Suc_eq_le size_list_estimation')

definition tag_bytes :: "type_code \<Rightarrow> tag \<Rightarrow> byte list" where
  "tag_bytes code t = code (type_of_tag t) # payload_bytes code t"

definition entry_bytes :: "type_code \<Rightarrow> string \<times> tag \<Rightarrow> byte list" where
  "entry_bytes code e = string_bytes (fst e) @ tag_bytes code (snd e)"

definition small :: "nat \<Rightarrow> bool" where
  "small n \<longleftrightarrow> n \<le> 16 * 1024 * 1024"

text \<open>What the reader accepts back: containers of at most 16 Mi entries, and the keys of each compound in
  an order its container can have (\<open>canon\<close>).\<close>

function fits :: "(string list \<Rightarrow> bool) \<Rightarrow> tag \<Rightarrow> bool" where
  "fits canon (StringTag v) = small (length v)"
| "fits canon (ByteArrayTag v) = small (length v)"
| "fits canon (IntArrayTag v) = small (length v)"
| "fits canon (ListTag v) = (small (length v) \<and> list_all (fits canon) v)"
| "fits canon (CompoundTag v) = (small (length v) \<and> canon (map fst v) \<and>
    list_all (\<lambda>(k, x). small (length k) \<and> fits canon x) v)"
| "fits canon EndTag = True"
| "fits canon (ByteTag v) = True"
| "fits canon (ShortTag v) = True"
| "fits canon (IntTag v) = True"
| "fits canon (LongTag v) = True"
| "fits canon (FloatTag v) = True"
| "fits canon (DoubleTag v) = True"
  by pat_completeness auto
termination fits
  by (relation "measure (\<lambda>(canon, t). size t)") (auto simp: size_entry less_Suc_eq_le size_list_estimation')

lemma tag_induct [case_names Leaf List Compound]:
  assumes leaf: "\<And>t. type_of_tag t \<noteq> TList \<Longrightarrow> type_of_tag t \<noteq> TCompound \<Longrightarrow> P t"
    and list: "\<And>v. (\<And>x. x \<in> set v \<Longrightarrow> P x) \<Longrightarrow> P (ListTag v)"
    and compound: "\<And>v. (\<And>k x. (k, x) \<in> set v \<Longrightarrow> P x) \<Longrightarrow> P (CompoundTag v)"
  shows "P t"
proof (induction t rule: measure_induct_rule [of size])
  case (less t)
  show ?case
  proof (cases t)
    case (ListTag v)
    have "size x < size t" if "x \<in> set v" for x
      using that ListTag by (simp add: less_Suc_eq_le size_list_estimation')
    with less list ListTag show ?thesis by blast
  next
    case (CompoundTag v)
    have "size x < size t" if "(k, x) \<in> set v" for k x
      using size_entry [OF that] CompoundTag by simp
    with less compound CompoundTag show ?thesis by blast
  qed (auto intro: leaf)
qed

section \<open>The writer writes the format\<close>

lemma push_bytes_simps [simp]:
  "push_bytes bs out = (Inr (), out @ bs)"
  "bindS (push_bytes bs) f out = f () (out @ bs)"
  by (simp_all add: push_bytes_def bindS_def executeS_def)

lemma write_size_simps [simp]:
  "write_size n out = (Inr (), out @ size_bytes n)" "bindS (write_size n) f out = f () (out @ size_bytes n)"
  by (simp_all add: write_size_def size_bytes_def)

lemma small_range: "small n \<Longrightarrow> n < 2 ^ 32" "small n \<Longrightarrow> n \<le> 4294967295"
  by (simp_all add: small_def)

lemma write_string_small: "small (length v) \<Longrightarrow> write_string v out = (Inr (), out @ string_bytes v)"
  using small_range(2) [of "length v"]
  by (simp add: write_string_def string_bytes_def throwIf_def bindS_def returnS_def)

lemma mapS_push:
  "(\<And>x out. x \<in> set xs \<Longrightarrow> f x out = (Inr (), out @ g x)) \<Longrightarrow> mapS f xs out = (Inr (), out @ concat (map g xs))"
  by (induction xs arbitrary: out) (simp_all add: returnS_def bindS_def)

lemma write_payload_bytes: "fits canon t \<Longrightarrow> write_payload code t out = (Inr (), out @ payload_bytes code t)"
proof (induction t arbitrary: out rule: tag_induct)
  case (Leaf t)
  then show ?case by (cases t) (simp_all add: returnS_def write_string_small mapS_push)
next
  case (List v)
  then have "write_payload code x out = (Inr (), out @ payload_bytes code x)" if "x \<in> set v" for x out
    using that by (auto simp: list_all_iff)
  then show ?case
    by (simp, subst mapS_push [where g = "\<lambda>x. code (type_of_tag x) # payload_bytes code x"]) simp_all
next
  case (Compound v)
  then have "write_payload code x out = (Inr (), out @ payload_bytes code x)" "small (length k)"
    if "(k, x) \<in> set v" for k x out
    using that by (auto simp: list_all_iff)
  then show ?case
    by (simp, subst mapS_push [where g = "\<lambda>(k, x). string_bytes k @ code (type_of_tag x) # payload_bytes code x"])
      (auto simp: bindS_def write_string_small)
qed

lemma encode_bytes:
  assumes "fits canon (CompoundTag v)"
  shows "encode code v = Inr (nbt_header @ tag_bytes code (CompoundTag v))"
  using write_payload_bytes [OF assms, of code]
  by (simp add: encode_def write_tag_def tag_bytes_def del: write_payload.simps payload_bytes.simps)

section \<open>The reader reads the format\<close>

lemma unat_small: "small n \<Longrightarrow> unat (word_of_nat n :: 32 word) = n"
  using small_range(1) by (simp add: unat_of_nat)

lemma read_length_size:
  assumes n: "small n"
  shows "bindS read_length f (size_bytes n @ rest) = f (word_of_nat n) rest"
proof -
  have "\<not> 16 * 1024 * 1024 < (word_of_nat n :: 32 word)"
    by (simp add: word_less_nat_alt unat_small n) (use n in \<open>simp add: small_def\<close>)
  then show ?thesis
    by (simp add: read_length_def size_bytes_def bindS_def throwIf_def returnS_def int_wire.reads_back)
qed

lemma take_bytes_front [simp]: "n = length bs \<Longrightarrow> take_bytes e n (bs @ rest) = (Inr bs, rest)"
  by (simp add: take_bytes_def)

lemma map_char_byte [simp]: "map char_of_byte (map byte_of_char v) = v"
  by (simp add: o_def)

interpretation string_wire: wire "\<lambda>v. small (length v)" string_bytes read_string
proof
  fix v :: string and rest assume "small (length v)"
  then show "read_string (string_bytes v @ rest) = (Inr v, rest)"
    by (simp add: read_string_def string_bytes_def read_length_size unat_small) (simp add: bindS_def returnS_def o_def)
qed

lemma read_entries_many:
  "read_entries assign r n acc = bindS (read_many n r) (\<lambda>es. returnS (fold (\<lambda>(k, v). assign k v) es acc))"
  by (induction n arbitrary: acc) (auto simp: bindS_def returnS_def fun_eq_iff split: sum.splits prod.splits)

text \<open>A container whose entries come in a canonical order is rebuilt by inserting them one by one.\<close>

definition rebuilds :: "assign \<Rightarrow> (string list \<Rightarrow> bool) \<Rightarrow> bool" where
  "rebuilds assign canon \<longleftrightarrow> (\<forall>ks k. canon (ks @ [k]) \<longrightarrow> canon ks) \<and>
    (\<forall>acc k v. canon (map fst acc @ [k]) \<longrightarrow> assign k v acc = acc @ [(k, v)])"

lemma rebuilds_fold:
  assumes "rebuilds assign canon"
  shows "canon (map fst es) \<Longrightarrow> fold (\<lambda>(k, v). assign k v) es [] = es"
proof (induction es rule: rev_induct)
  case (snoc e es)
  then have "canon (map fst es)" using assms unfolding rebuilds_def by (metis map_append list.simps(8,9))
  with snoc assms show ?case by (cases e) (simp add: rebuilds_def)
qed simp

lemma type_with_code: "inj code \<Longrightarrow> type_with_code code (code t) = Some t"
  by (cases t) (simp_all add: type_with_code_def all_types_def inj_eq)

lemma read_tag_type:
  "inj code \<Longrightarrow> read_tag code assign kf (Suc n) (code ty # bs) = read_payload assign kf (read_tag code assign kf n) ty bs"
  by (simp add: type_with_code)

lemma read_leaf:
  assumes "fits canon t" and "type_of_tag t \<noteq> TList" "type_of_tag t \<noteq> TCompound"
  shows "read_payload assign kf rt (type_of_tag t) (payload_bytes code t @ rest) = (Inr t, rest)"
  using assms by (cases t) (simp_all add: returnS_def byte_wire.then_reads short_wire.then_reads
      int_wire.then_reads long_wire.then_reads string_wire.then_reads read_length_size unat_small
      int_wire.many bindS_def [of "take_bytes _ _"] bindS_def [of "read_many _ _"] list_all_iff)

lemma read_tag_bytes:
  assumes inj: "inj code" and reb: "rebuilds assign canon"
  shows "fits canon t \<Longrightarrow> length (tag_bytes code t) \<le> n \<Longrightarrow>
    read_tag code assign True n (tag_bytes code t @ rest) = (Inr t, rest)"
proof (induction t arbitrary: n rest rule: tag_induct)
  case (Leaf t)
  then obtain m where "n = Suc m" by (cases n) (simp_all add: tag_bytes_def)
  with Leaf read_leaf show ?case by (simp add: tag_bytes_def read_tag_type [OF inj] del: read_tag.simps)
next
  case (List v)
  then obtain m where n: "n = Suc m" by (cases n) (simp_all add: tag_bytes_def)
  have sub: "wire (\<lambda>x. x \<in> set v) (tag_bytes code) (read_tag code assign True m)"
  proof
    fix x rest assume x: "x \<in> set v"
    have "length (tag_bytes code x) \<le> length (concat (map (tag_bytes code) v))"
      using member_le_sum_list [of "length (tag_bytes code x)" "map (length \<circ> tag_bytes code) v"] x
      by (simp add: length_concat o_def)
    also have "\<dots> \<le> m" using List.prems(2) n by (simp add: tag_bytes_def [abs_def])
    finally show "read_tag code assign True m (tag_bytes code x @ rest) = (Inr x, rest)"
      using List x by (auto simp: list_all_iff)
  qed
  have "read_many (length v) (read_tag code assign True m) (concat (map (tag_bytes code) v) @ rest) = (Inr v, rest)"
    by (rule wire.many [OF sub]) (simp add: list_all_iff)
  with List.prems show ?case
    by (simp add: n tag_bytes_def [abs_def] read_tag_type [OF inj] read_length_size unat_small
        bindS_def [of "read_many _ _"] returnS_def del: read_tag.simps)
next
  case (Compound v)
  then obtain m where n: "n = Suc m" by (cases n) (simp_all add: tag_bytes_def)
  have sub: "wire (\<lambda>e. e \<in> set v) (entry_bytes code) (read_entry True read_string (read_tag code assign True m))"
  proof
    fix e rest assume e: "e \<in> set v"
    have "length (entry_bytes code e) \<le> length (concat (map (entry_bytes code) v))"
      using member_le_sum_list [of "length (entry_bytes code e)" "map (length \<circ> entry_bytes code) v"] e
      by (simp add: length_concat o_def)
    also have "\<dots> \<le> m" using Compound.prems(2) n by (simp add: tag_bytes_def entry_bytes_def [abs_def] case_prod_unfold)
    finally have "length (tag_bytes code (snd e)) \<le> m" by (simp add: entry_bytes_def)
    moreover have "fits canon (snd e)" "small (length (fst e))"
      using Compound.prems(1) e by (auto simp: list_all_iff)
    ultimately show "read_entry True read_string (read_tag code assign True m) (entry_bytes code e @ rest) = (Inr e, rest)"
      using Compound.IH [of "fst e" "snd e"] e
      by (simp add: entry_bytes_def read_entry_def string_wire.then_reads) (simp add: bindS_def returnS_def)
  qed
  have "read_many (length v) (read_entry True read_string (read_tag code assign True m))
      (concat (map (entry_bytes code) v) @ rest) = (Inr v, rest)"
    by (rule wire.many [OF sub]) (simp add: list_all_iff)
  moreover have "fold (\<lambda>(k, v). assign k v) v [] = v"
    using rebuilds_fold [OF reb] Compound.prems(1) by simp
  ultimately show ?case using Compound.prems
    by (simp add: n tag_bytes_def [abs_def] read_tag_type [OF inj] read_length_size unat_small read_entries_many
        entry_bytes_def [abs_def] case_prod_unfold bindS_def [of "read_many _ _"] returnS_def del: read_tag.simps)
      (simp add: bindS_def returnS_def)
qed

section \<open>What the reader does with other input\<close>

lemma streaming_read_length [stream]: "streaming read_length"
  unfolding read_length_def by (intro stream)

lemma streaming_read_string [stream]: "streaming read_string"
  unfolding read_string_def by (intro stream)

lemma streaming_read_entry [stream]: "streaming rs \<Longrightarrow> streaming rt \<Longrightarrow> streaming (read_entry kf rs rt)"
  by (simp add: read_entry_def stream)

lemma streaming_read_payload [stream]: "streaming rt \<Longrightarrow> streaming (read_payload assign kf rt ty)"
  by (cases ty) (simp_all add: read_entries_many stream)

lemma streaming_read_tag [stream]: "streaming (read_tag code assign kf n)"
  by (induction n) (auto simp: read_tag_eqs simp del: read_tag.simps intro!: stream split: option.splits)

lemma extends_read_payload: "extends rt rt' \<Longrightarrow> extends (read_payload assign kf rt ty) (read_payload assign kf rt' ty)"
  by (cases ty) (simp_all add: read_entries_many read_entry_def more_fuel)

lemma extends_read_tag: "extends (read_tag code assign kf n) (read_tag code assign kf (n + k))"
proof (induction n)
  case (Suc n)
  then show ?case
    by (auto simp: read_tag_eqs simp del: read_tag.simps intro!: more_fuel extends_read_payload split: option.splits)
qed (simp add: read_tag_eqs more_fuel)

definition nbt_errors :: "error set" where
  "nbt_errors = {truncated_nbt, large_nbt, unknown_nbt, Runtime_Error ''invalid encoded NBT header'', bad_root}"

lemma nbt_errors_in [simp]:
  "truncated_nbt \<in> nbt_errors" "large_nbt \<in> nbt_errors" "unknown_nbt \<in> nbt_errors" "bad_root \<in> nbt_errors"
  "Runtime_Error ''invalid encoded NBT header'' \<in> nbt_errors"
  by (simp_all add: nbt_errors_def)

lemma errors_read_length [raises]: "errors_in nbt_errors L read_length"
  unfolding read_length_def by (intro raises stream) simp_all

lemma errors_read_string [raises]: "errors_in nbt_errors L read_string"
  unfolding read_string_def by (intro raises stream) simp_all

lemma errors_read_payload:
  assumes "errors_in nbt_errors L rt" and "streaming rt"
  shows "errors_in nbt_errors L (read_payload assign kf rt ty)"
  using assms by (cases ty) (auto simp: read_entries_many read_entry_def intro!: raises stream)

text \<open>Fuel \<open>n\<close> is enough for every input shorter than \<open>n\<close>: out of fuel is not among the errors.\<close>

lemma errors_read_tag: "errors_in nbt_errors n (read_tag code assign kf n)"
proof (induction n)
  case (Suc n)
  then show ?case
    by (auto simp: read_tag_eqs simp del: read_tag.simps intro!: errors_after_byte errors_read_payload raises stream
        split: option.splits)
qed (simp add: errors_in_def)

lemma header_reads:
  "mapS header_byte hs (hs @ rest) = (Inr (), rest)"
  by (induction hs) (simp_all add: header_byte_def bindS_def throwIf_def returnS_def
      byte_wire.reads_back [of truncated_nbt, simplified])

lemma streaming_header [stream]: "streaming (mapS header_byte hs)"
  by (induction hs) (auto simp: header_byte_def intro!: stream)

lemma errors_header [raises]: "errors_in nbt_errors L (mapS header_byte hs)"
  by (induction hs) (auto simp: header_byte_def intro!: raises stream)

lemma decode_Inr:
  assumes "bs \<noteq> []"
  shows "decode code assign kf bs = Inr v \<longleftrightarrow>
    bindS (mapS header_byte nbt_header) (\<lambda>_. read_tag code assign kf (Suc (length bs))) bs =
      (Inr (CompoundTag v), [])"
  using assms
  by (auto simp: decode_def bindS_def queryS_def returnS_def throwS_def
      split: prod.splits sum.splits tag.splits if_splits)

lemma nbt_header_nonempty: "nbt_header \<noteq> []"
  by (simp add: nbt_header_def)

lemma decode_bytes:
  assumes "inj code" and "rebuilds assign canon" and "fits canon (CompoundTag v)"
  shows "decode code assign True (nbt_header @ tag_bytes code (CompoundTag v)) = Inr v"
  using read_tag_bytes [OF assms, of "Suc (length (nbt_header @ tag_bytes code (CompoundTag v)))" "[]"]
  by (subst decode_Inr) (simp_all add: header_reads bindS_def nbt_header_nonempty del: read_tag.simps)

lemma decode_no_extension:
  assumes "decode code assign kf bs = Inr v" and "bs \<noteq> []" and "ys \<noteq> []"
  shows "decode code assign kf (bs @ ys) \<noteq> Inr v'"
proof
  let ?R = "\<lambda>n. bindS (mapS header_byte nbt_header) (\<lambda>_. read_tag code assign kf n)"
  have "?R (Suc (length bs)) bs = (Inr (CompoundTag v), [])"
    using assms(1) unfolding decode_Inr [OF assms(2)] .
  moreover have "streaming (?R (Suc (length bs)))" by (intro stream)
  ultimately have "?R (Suc (length bs)) (bs @ ys) = (Inr (CompoundTag v), ys)"
    using streamingD(1) by fastforce
  moreover have "extends (?R (Suc (length bs))) (?R (Suc (length (bs @ ys))))"
    using extends_read_tag [of code assign kf "Suc (length bs)" "length ys"] by (intro more_fuel) simp
  ultimately have run: "?R (Suc (length (bs @ ys))) (bs @ ys) = (Inr (CompoundTag v), ys)" by (rule extendsD [rotated])
  assume "decode code assign kf (bs @ ys) = Inr v'"
  moreover have "bs @ ys \<noteq> []" using assms(2) by simp
  ultimately have "?R (Suc (length (bs @ ys))) (bs @ ys) = (Inr (CompoundTag v'), [])"
    unfolding decode_Inr [OF \<open>bs @ ys \<noteq> []\<close>] by blast
  with run assms(3) show False by simp
qed

section \<open>Properties\<close>

text \<open>A container to instantiate the theorems with: new keys at the end, known ones overwritten in place.\<close>

primrec assign_entry :: assign where
  "assign_entry k v [] = [(k, v)]"
| "assign_entry k v (e # es) = (if fst e = k then (k, v) # es else e # assign_entry k v es)"

fun demo_code :: type_code where
  "demo_code TEnd = 0" | "demo_code TByte = 1" | "demo_code TShort = 2" | "demo_code TInt = 3"
| "demo_code TLong = 4" | "demo_code TFloat = 5" | "demo_code TDouble = 6" | "demo_code TByteArray = 7"
| "demo_code TString = 8" | "demo_code TList = 9" | "demo_code TCompound = 10" | "demo_code TIntArray = 11"

definition demo_nbt :: compound where
  "demo_nbt = [(''ench'', ListTag [CompoundTag [(''id'', ShortTag 9), (''lvl'', ShortTag 5)]]),
     (''Damage'', IntTag 0), (''name'', StringTag ''Pick''), (''raw'', ByteArrayTag [0, 255])]"

lemma demo_code_inj: "inj demo_code"
proof (rule injI)
  fix x y assume "demo_code x = demo_code y"
  then show "x = y" by (cases x; cases y) simp_all
qed

lemma assign_entry_rebuilds: "rebuilds assign_entry distinct"
proof -
  have "assign_entry k v acc = acc @ [(k, v)]" if "k \<notin> fst ` set acc" for k v acc
    using that by (induction acc) auto
  then show ?thesis by (simp add: rebuilds_def)
qed

lemma demo_nbt_fits: "fits distinct (CompoundTag demo_nbt)"
  by (simp add: demo_nbt_def small_def)

text \<open>
  C25: Stored items come back unchanged: a compound whose containers and strings hold at most 16 Mi
  entries is encoded without error, and decoding the bytes gives exactly the compound, for any
  one-to-one numbering of the tag types and any container that keeps the entries in a canonical order
  (if the compiler evaluates the key of an entry before its value).
\<close>

theorem nbt_roundtrip:
  assumes "inj code" and "rebuilds assign canon" and "fits canon (CompoundTag v)"
  shows "\<exists>bs. encode code v = Inr bs \<and> decode code assign True bs = Inr v"
  using encode_bytes [OF assms(3), of code] decode_bytes [OF assms] by blast

theorem nbt_roundtrip_witness:
  "\<exists>bs. encode demo_code demo_nbt = Inr bs \<and> decode demo_code assign_entry True bs = Inr demo_nbt"
  by (rule nbt_roundtrip [OF demo_code_inj assign_entry_rebuilds demo_nbt_fits])

text \<open>
  C26: Of an encoding every proper non-empty prefix, and the encoding with anything after it, is refused
  with an exception. The one prefix that is not refused is the empty one: no bytes stand for no NBT data and
  are read as the empty compound, so an encoding of which nothing is left goes unnoticed.
\<close>

theorem nbt_rejects_damaged:
  assumes "inj code" and "rebuilds assign canon" and "fits canon (CompoundTag v)" and "encode code v = Inr bs"
  shows "(\<forall>k < length bs. decode code assign True (take k bs) = Inr [] \<and> k = 0 \<or>
      isl (decode code assign True (take k bs)) \<and> 0 < k) \<and>
    (\<forall>b ys. isl (decode code assign True (bs @ b # ys)))"
proof -
  have bs: "bs = nbt_header @ tag_bytes code (CompoundTag v)" using encode_bytes [OF assms(3), of code] assms(4) by simp
  have dec: "decode code assign True bs = Inr v" using decode_bytes [OF assms(1-3)] bs by simp
  have "isl (decode code assign True (take k bs))" if k: "0 < k" "k < length bs" for k
  proof (cases "decode code assign True (take k bs)")
    case (Inr w)
    have "take k bs \<noteq> []" "drop k bs \<noteq> []" using k by auto
    from decode_no_extension [OF Inr this, of v] dec show ?thesis by simp
  qed simp
  moreover have "isl (decode code assign True (bs @ b # ys))" for b ys
    using decode_no_extension [OF dec, of "b # ys"] bs
    by (cases "decode code assign True (bs @ b # ys)") (auto simp: nbt_header_def)
  moreover have "decode code assign True (take 0 bs) = Inr []" by (simp add: decode_def)
  ultimately show ?thesis by (metis gr0I)
qed

theorem nbt_rejects_damaged_witness:
  "\<exists>bs. encode demo_code demo_nbt = Inr bs \<and> decode demo_code assign_entry True (take 0 bs) = Inr [] \<and> isl (decode demo_code assign_entry True (take 40 bs)) \<and>
    isl (decode demo_code assign_entry True (bs @ [0]))"
proof -
  have "(case encode demo_code demo_nbt of Inr bs \<Rightarrow> 40 < length bs | Inl e \<Rightarrow> False)" by code_simp
  then obtain bs where bs: "encode demo_code demo_nbt = Inr bs" "40 < length bs" by (auto split: sum.splits)
  note R = nbt_rejects_damaged [OF demo_code_inj assign_entry_rebuilds demo_nbt_fits bs(1)]
  from R bs(2) have "decode demo_code assign_entry True (take 0 bs) = Inr []" "isl (decode demo_code assign_entry True (take 40 bs))"
    by (auto dest: spec [of _ 0] spec [of _ 40])
  with R bs(1) show ?thesis by blast
qed

text \<open>
  C27: Decoding always comes back, whatever the bytes, the numbering and the container: with a compound
  or with one of the five exceptions of the source; the recursion never runs out of fuel.
\<close>

theorem decode_returns:
  "\<exists>r \<in> range Inr \<union> Inl ` nbt_errors. decode code assign kf bs = r"
proof -
  have "errors_in nbt_errors (Suc (length bs)) (bindS (mapS header_byte nbt_header) (\<lambda>_.
       bindS (read_tag code assign kf (Suc (length bs))) (\<lambda>t.
       bindS (queryS (\<lambda>rest. rest = [])) (\<lambda>finished.
       case t of CompoundTag v \<Rightarrow> if finished then returnS v else throwS bad_root
       | _ \<Rightarrow> throwS bad_root))))"
    (is "errors_in _ _ ?m")
    by (intro raises stream errors_read_tag) (auto intro!: raises split: tag.splits)
  note E = this
  have "e \<in> nbt_errors" if "fst (?m bs) = Inl e" for e
    by (rule errors_in_fst [OF E, of bs e, OF lessI that])
  then show ?thesis by (cases "fst (?m bs)") (auto simp: decode_def)
qed

text \<open>The order in which the arguments of \<open>insert_or_assign\<close> are evaluated matters: value first, the
  reader does not understand what the writer wrote.\<close>

definition demo_bytes :: "byte list" where
  "demo_bytes = [69, 88, 78, 66, 1, 10, 1, 0, 0, 0, 1, 0, 0, 0, 97, 1, 7]"

lemma value_first_fails:
  "encode demo_code [(''a'', ByteTag 7)] = Inr demo_bytes"
  "decode demo_code assign_entry True demo_bytes = Inr [(''a'', ByteTag 7)]"
  "decode demo_code assign_entry False demo_bytes = Inl large_nbt"
  by code_simp+

end
