(* ===== verification/Structure_Reader.thy ===== *)
theory Structure_Reader
  imports Nbt_Codec
begin

text \<open>
  Reading the item out of a saved structure, first half of src/structure_reader.cpp: the NBT format of
  Bedrock's mcstructure files and the search for the framed item in the tree it holds.
\<close>

section \<open>BedrockNbtReader\<close>

definition truncated_structure :: error where
  "truncated_structure = Runtime_Error ''truncated mcstructure NBT''"

definition bad_length :: error where
  "bad_length = Runtime_Error ''invalid mcstructure NBT container length''"

definition unsupported :: "byte \<Rightarrow> error" where
  "unsupported ty = Runtime_Error (''unsupported mcstructure NBT type '' @ dec (uint ty))"

definition bedrock_string :: "string reader" where
  "bedrock_string = bindS (integral truncated_structure :: 16 word reader) (\<lambda>n.
    bindS (take_bytes truncated_structure (unat n)) (\<lambda>bs. returnS (map char_of_byte bs)))"

definition container_length :: "nat reader" where
  "container_length = bindS (integral truncated_structure :: 32 word reader) (\<lambda>n.
    bindS (throwIf (sint n < 0 \<or> sint n > 16 * 1024 * 1024) bad_length) (\<lambda>_. returnS (unat n)))"

text \<open>The loop of \<open>compound\<close>: it ends at the type byte 0; each round takes a byte, which bounds it.\<close>

primrec read_fields :: "assign \<Rightarrow> (byte \<Rightarrow> tag reader) \<Rightarrow> nat \<Rightarrow> compound \<Rightarrow> compound reader" where
  "read_fields assign rt 0 value bs = throwS out_of_fuel bs"
| "read_fields assign rt (Suc n) value bs = bindS (integral truncated_structure) (\<lambda>ty.
    if ty = 0 then returnS value
    else bindS bedrock_string (\<lambda>name. bindS (rt ty) (\<lambda>v.
      read_fields assign rt n (assign name v value)))) bs"

definition structure_payload :: "assign \<Rightarrow> nat \<Rightarrow> (byte \<Rightarrow> tag reader) \<Rightarrow> byte \<Rightarrow> tag reader" where
  "structure_payload assign n rt ty =
    (if ty = 0 then returnS EndTag
     else if ty = 1 then bindS (integral truncated_structure) (\<lambda>v. returnS (ByteTag v))
     else if ty = 2 then bindS (integral truncated_structure) (\<lambda>v. returnS (ShortTag v))
     else if ty = 3 then bindS (integral truncated_structure) (\<lambda>v. returnS (IntTag v))
     else if ty = 4 then bindS (integral truncated_structure) (\<lambda>v. returnS (LongTag v))
     else if ty = 5 then bindS (integral truncated_structure) (\<lambda>v. returnS (FloatTag v))
     else if ty = 6 then bindS (integral truncated_structure) (\<lambda>v. returnS (DoubleTag v))
     else if ty = 7 then bindS container_length (\<lambda>k.
       bindS (take_bytes truncated_structure k) (\<lambda>bs. returnS (ByteArrayTag bs)))
     else if ty = 8 then bindS bedrock_string (\<lambda>v. returnS (StringTag v))
     else if ty = 9 then bindS (integral truncated_structure) (\<lambda>element. bindS container_length (\<lambda>k.
       bindS (read_many k (rt element)) (\<lambda>v. returnS (ListTag v))))
     else if ty = 10 then bindS (read_fields assign rt n []) (\<lambda>v. returnS (CompoundTag v))
     else if ty = 11 then bindS container_length (\<lambda>k.
       bindS (read_many k (integral truncated_structure)) (\<lambda>v. returnS (IntArrayTag v)))
     else if ty = 12 then bindS container_length (\<lambda>k.
       bindS (read_many k (bindS (integral truncated_structure) (\<lambda>v. returnS (LongTag v))))
         (\<lambda>v. returnS (ListTag v)))
     else throwS (unsupported ty))"

primrec read_structure :: "assign \<Rightarrow> nat \<Rightarrow> byte \<Rightarrow> tag reader" where
  "read_structure assign 0 ty bs = throwS out_of_fuel bs"
| "read_structure assign (Suc n) ty bs = structure_payload assign (Suc n) (read_structure assign n) ty bs"

definition structure_root :: "assign \<Rightarrow> byte list \<Rightarrow> compound result" where
  "structure_root assign bytes = fst (bindS (integral truncated_structure) (\<lambda>ty.
    bindS (throwIf (ty \<noteq> 10) (Runtime_Error ''mcstructure root is not an NBT compound'')) (\<lambda>_.
    bindS bedrock_string (\<lambda>_.
    bindS (read_structure assign (Suc (length bytes)) ty) (\<lambda>t.
    case t of CompoundTag v \<Rightarrow> returnS v
    | _ \<Rightarrow> throwS (Runtime_Error ''mcstructure has an invalid NBT root''))))) bytes)"

section \<open>Finding the item\<close>

definition numeric :: "tag \<Rightarrow> int option" where
  "numeric t = (case t of ByteTag v \<Rightarrow> Some (uint v) | ShortTag v \<Rightarrow> Some (sint v)
     | IntTag v \<Rightarrow> Some (sint v) | LongTag v \<Rightarrow> Some (sint v) | _ \<Rightarrow> None)"

record CapturedFrameItem =
  cf_type :: string
  cf_data :: int
  cf_nbt :: compound

text \<open>\<open>static_cast<int>\<close> of a 64-bit integer.\<close>

definition to_int :: "int \<Rightarrow> int" where
  "to_int v = sint (word_of_int v :: 32 word)"

definition numeric_or_0 :: "tag option \<Rightarrow> int" where
  "numeric_or_0 t = (case Option.bind t numeric of None \<Rightarrow> 0 | Some v \<Rightarrow> v)"

definition itemFromCompound :: "compound \<Rightarrow> CapturedFrameItem option" where
  "itemFromCompound c = (case map_of c ''Item'' of
     Some (CompoundTag item) \<Rightarrow> (case map_of item ''Name'' of
       Some (StringTag ty) \<Rightarrow>
         if numeric_or_0 (map_of item ''Count'') \<le> 0 \<or> ty = [] \<or> ty = ''minecraft:air'' then None
         else Some \<lparr>cf_type = ty, cf_data = to_int (numeric_or_0 (map_of item ''Damage'')),
           cf_nbt = (case map_of item ''tag'' of Some (CompoundTag nbt) \<Rightarrow> nbt | _ \<Rightarrow> [])\<rparr>
     | _ \<Rightarrow> None)
   | _ \<Rightarrow> None)"

text \<open>\<open>for (value : values) if (const auto nested = f(value)) return nested;\<close>\<close>

fun first_found :: "('a \<Rightarrow> 'b option result) \<Rightarrow> 'a list \<Rightarrow> 'b option result" where
  "first_found f [] = Inr None"
| "first_found f (x # xs) = (case f x of Inl e \<Rightarrow> Inl e | Inr (Some r) \<Rightarrow> Inr (Some r)
     | Inr None \<Rightarrow> first_found f xs)"

lemma first_found_cong [fundef_cong]:
  "xs = ys \<Longrightarrow> (\<And>x. x \<in> set ys \<Longrightarrow> f x = g x) \<Longrightarrow> first_found f xs = first_found g ys"
  by (induction xs arbitrary: ys) (auto split: sum.splits option.splits)

definition too_deep :: error where
  "too_deep = Runtime_Error ''mcstructure NBT nesting is too deep''"

function findItem :: "tag \<Rightarrow> nat \<Rightarrow> CapturedFrameItem option result" where
  "findItem t depth =
    (if depth > 32 then Inl too_deep
     else case t of
       CompoundTag c \<Rightarrow> (case itemFromCompound c of Some item \<Rightarrow> Inr (Some item)
         | None \<Rightarrow> first_found (\<lambda>(key, value). findItem value (depth + 1)) c)
     | ListTag v \<Rightarrow> first_found (\<lambda>value. findItem value (depth + 1)) v
     | _ \<Rightarrow> Inr None)"
  by pat_completeness auto
termination findItem
  by (relation "measure (\<lambda>(t, depth). 33 - depth)") auto

declare findItem.simps [simp del]

text \<open>\<open>readItemFrame\<close>, on the bytes of the file.\<close>

definition item_in_structure :: "assign \<Rightarrow> byte list \<Rightarrow> CapturedFrameItem option result" where
  "item_in_structure assign bytes =
    (case structure_root assign bytes of Inl e \<Rightarrow> Inl e | Inr c \<Rightarrow> findItem (CompoundTag c) 0)"

definition MaxCaptureBytes :: int where
  "MaxCaptureBytes = 64 * 1024 * 1024"

definition readFile :: "string \<Rightarrow> byte list option \<Rightarrow> byte list result" where
  "readFile path content = (case content of
     None \<Rightarrow> Inl (Runtime_Error (''cannot open structure data: '' @ path))
   | Some bytes \<Rightarrow> if bytes = [] \<or> int (length bytes) > MaxCaptureBytes
       then Inl (Runtime_Error (''invalid structure data size: '' @ path)) else Inr bytes)"

definition readItemFrame :: "assign \<Rightarrow> string \<Rightarrow> byte list option \<Rightarrow> CapturedFrameItem option result" where
  "readItemFrame assign path content =
    (case readFile path content of Inl e \<Rightarrow> Inl e | Inr bytes \<Rightarrow> item_in_structure assign bytes)"

section \<open>The reader always returns\<close>

definition structure_errors :: "error set" where
  "structure_errors = {truncated_structure, bad_length, Runtime_Error ''mcstructure root is not an NBT compound'',
     Runtime_Error ''mcstructure has an invalid NBT root''} \<union> range unsupported"

lemma structure_errors_in [simp]:
  "truncated_structure \<in> structure_errors" "bad_length \<in> structure_errors" "unsupported ty \<in> structure_errors"
  "Runtime_Error ''mcstructure root is not an NBT compound'' \<in> structure_errors"
  "Runtime_Error ''mcstructure has an invalid NBT root'' \<in> structure_errors"
  by (simp_all add: structure_errors_def)

lemma read_fields_eqs:
  "read_fields assign rt 0 acc = throwS out_of_fuel"
  "read_fields assign rt (Suc n) acc = bindS (integral truncated_structure) (\<lambda>ty.
    if ty = 0 then returnS acc
    else bindS bedrock_string (\<lambda>name. bindS (rt ty) (\<lambda>v. read_fields assign rt n (assign name v acc))))"
  by (simp_all add: fun_eq_iff)

lemma read_structure_eqs:
  "read_structure assign 0 ty = throwS out_of_fuel"
  "read_structure assign (Suc n) ty = structure_payload assign (Suc n) (read_structure assign n) ty"
  by (simp_all add: fun_eq_iff)

lemma streaming_bedrock [stream]: "streaming bedrock_string" "streaming container_length"
  by (simp_all add: bedrock_string_def container_length_def stream)

lemma errors_bedrock [raises]: "errors_in structure_errors L bedrock_string" "errors_in structure_errors L container_length"
  by (simp_all add: bedrock_string_def container_length_def raises stream)

lemma streaming_read_fields [stream]:
  "(\<And>ty. streaming (rt ty)) \<Longrightarrow> streaming (read_fields assign rt n acc)"
  by (induction n arbitrary: acc) (auto simp: read_fields_eqs simp del: read_fields.simps intro!: stream)

lemma streaming_payload [stream]: "(\<And>ty. streaming (rt ty)) \<Longrightarrow> streaming (structure_payload assign n rt ty)"
  unfolding structure_payload_def by (auto intro!: stream)

lemma streaming_read_structure [stream]: "streaming (read_structure assign n ty)"
  by (induction n arbitrary: ty) (simp_all add: read_structure_eqs stream del: read_structure.simps)

lemma errors_less: "errors_in E L r \<Longrightarrow> L' \<le> L \<Longrightarrow> errors_in E L' r"
  unfolding errors_in_def by (meson less_le_trans)

lemma errors_read_fields:
  assumes "\<And>ty. errors_in structure_errors L (rt ty)" and "\<And>ty. streaming (rt ty)"
  shows "n \<le> Suc L \<Longrightarrow> errors_in structure_errors n (read_fields assign rt n acc)"
proof (induction n arbitrary: acc)
  case (Suc n)
  have "errors_in structure_errors n (rt ty)" for ty by (rule errors_less [OF assms(1)]) (use Suc.prems in simp)
  with Suc assms(2) show ?case
    by (auto simp: read_fields_eqs simp del: read_fields.simps intro!: errors_after_byte raises stream)
qed (simp add: errors_in_def)

lemma errors_payload:
  assumes rt: "\<And>ty. errors_in structure_errors L (rt ty)" "\<And>ty. streaming (rt ty)"
  shows "errors_in structure_errors (Suc L) (structure_payload assign (Suc L) rt ty)"
proof -
  have "errors_in structure_errors (Suc L) (read_fields assign rt (Suc L) [])"
    by (rule errors_read_fields [OF rt]) simp_all
  moreover have "errors_in structure_errors (Suc L) (bindS (integral truncated_structure) (\<lambda>element.
      bindS container_length (\<lambda>k. bindS (read_many k (rt element)) (\<lambda>v. returnS (ListTag v)))))"
    by (rule errors_after_byte) (auto intro!: raises stream rt)
  ultimately show ?thesis unfolding structure_payload_def by (auto intro!: raises stream rt)
qed

lemma errors_read_structure: "errors_in structure_errors n (read_structure assign n ty)"
proof (induction n arbitrary: ty)
  case (Suc n)
  then show ?case by (simp only: read_structure_eqs) (rule errors_payload, assumption, rule stream)
qed (simp add: errors_in_def)

lemma structure_root_errors: "structure_root assign bytes = Inl e \<Longrightarrow> e \<in> structure_errors"
proof -
  assume *: "structure_root assign bytes = Inl e"
  have "errors_in structure_errors (Suc (length bytes)) (bindS (integral truncated_structure) (\<lambda>ty.
    bindS (throwIf (ty \<noteq> 10) (Runtime_Error ''mcstructure root is not an NBT compound'')) (\<lambda>_.
    bindS bedrock_string (\<lambda>_.
    bindS (read_structure assign (Suc (length bytes)) ty) (\<lambda>t.
    case t of CompoundTag v \<Rightarrow> returnS v
    | _ \<Rightarrow> throwS (Runtime_Error ''mcstructure has an invalid NBT root''))))))"
    by (intro raises stream errors_read_structure) (auto intro!: raises split: tag.splits)
  from errors_in_fst [OF this, of bytes e, OF lessI *[unfolded structure_root_def]] show ?thesis .
qed

section \<open>The search, as a walk over the tree\<close>

fun children :: "tag \<Rightarrow> tag list" where
  "children (ListTag v) = v"
| "children (CompoundTag c) = map snd c"
| "children _ = []"

lemma children_smaller: "x \<in> set (children t) \<Longrightarrow> size x < size t"
  by (cases t) (auto simp: size_entry less_Suc_eq_le size_list_estimation')

text \<open>All nodes of a tag with their depths, parents before children, children in order.\<close>

function nodes :: "nat \<Rightarrow> tag \<Rightarrow> (nat \<times> tag) list" where
  "nodes d t = (d, t) # concat (map (nodes (Suc d)) (children t))"
  by pat_completeness auto
termination nodes
  by (relation "measure (\<lambda>(d, t). size t)") (auto simp: children_smaller)

declare nodes.simps [simp del]

fun visit :: "nat \<times> tag \<Rightarrow> CapturedFrameItem option result" where
  "visit (d, t) = (if d > 32 then Inl too_deep
     else Inr (case t of CompoundTag c \<Rightarrow> itemFromCompound c | _ \<Rightarrow> None))"

lemma first_found_append: "first_found f (xs @ ys) =
    (case first_found f xs of Inl e \<Rightarrow> Inl e | Inr (Some r) \<Rightarrow> Inr (Some r) | Inr None \<Rightarrow> first_found f ys)"
  by (induction xs) (auto split: sum.splits option.splits)

lemma first_found_concat: "first_found f (concat (map g xs)) = first_found (\<lambda>x. first_found f (g x)) xs"
  by (induction xs) (simp_all add: first_found_append split: sum.splits option.splits)

lemma first_found_map: "first_found f (map g xs) = first_found (\<lambda>x. f (g x)) xs"
  by (induction xs) (simp_all split: sum.splits option.splits)

lemma findItem_step: "findItem t d = (case visit (d, t) of Inl e \<Rightarrow> Inl e | Inr (Some r) \<Rightarrow> Inr (Some r)
    | Inr None \<Rightarrow> first_found (\<lambda>x. findItem x (Suc d)) (children t))"
  by (subst findItem.simps) (cases t; simp add: first_found_map case_prod_unfold split: option.splits)

lemma findItem_walk: "findItem t d = first_found visit (nodes d t)"
proof (induction t arbitrary: d rule: measure_induct_rule [of size])
  case (less t)
  have "first_found (\<lambda>x. findItem x (Suc d)) (children t) =
      first_found (\<lambda>x. first_found visit (nodes (Suc d) x)) (children t)"
    by (rule first_found_cong [OF refl]) (simp add: less children_smaller)
  then show ?case
    unfolding findItem_step [of t d] nodes.simps [of d t] first_found.simps first_found_concat
    by (simp split: option.splits)
qed

lemma first_found_Inr: "first_found f xs = Inr None \<longleftrightarrow> (\<forall>x \<in> set xs. f x = Inr None)"
  by (induction xs) (auto split: sum.splits option.splits)

lemma first_found_split: "first_found f xs = Inr (Some r) \<Longrightarrow>
    \<exists>ys x zs. xs = ys @ x # zs \<and> f x = Inr (Some r) \<and> (\<forall>y \<in> set ys. f y = Inr None)"
proof (induction xs)
  case (Cons a xs)
  then consider "f a = Inr (Some r)" | "f a = Inr None" "first_found f xs = Inr (Some r)"
    by (auto split: sum.splits option.splits)
  then show ?case
  proof cases
    case 1
    then show ?thesis by (intro exI [of _ "[]"] exI [of _ a] exI [of _ xs]) simp
  next
    case 2
    with Cons.IH obtain ys x zs where "xs = ys @ x # zs" "f x = Inr (Some r)" "\<forall>y \<in> set ys. f y = Inr None" by blast
    with 2 show ?thesis by (intro exI [of _ "a # ys"] exI [of _ x] exI [of _ zs]) simp
  qed
qed simp

lemma first_found_Some: "first_found f xs = Inr (Some r) \<longleftrightarrow>
    (\<exists>ys x zs. xs = ys @ x # zs \<and> f x = Inr (Some r) \<and> (\<forall>y \<in> set ys. f y = Inr None))"
proof
  assume "\<exists>ys x zs. xs = ys @ x # zs \<and> f x = Inr (Some r) \<and> (\<forall>y \<in> set ys. f y = Inr None)"
  then obtain ys x zs where "xs = ys @ x # zs" "f x = Inr (Some r)" "first_found f ys = Inr None"
    unfolding first_found_Inr by blast
  then show "first_found f xs = Inr (Some r)" by (simp add: first_found_append)
qed (rule first_found_split)

section \<open>Properties\<close>

text \<open>
  The search for the framed item is the walk over all nodes of the tree, parents before children
  and siblings in order: it returns the item of the first compound that holds one, reports that there
  is none only when no node holds one, and refuses the tree when it gets below depth 32 first.
\<close>

theorem findItem_preorder:
  "(findItem t 0 = Inr (Some r) \<longleftrightarrow> (\<exists>ys x zs. nodes 0 t = ys @ x # zs \<and> visit x = Inr (Some r) \<and>
      list_all (\<lambda>y. visit y = Inr None) ys)) \<and>
    (findItem t 0 = Inr None \<longleftrightarrow> list_all (\<lambda>y. visit y = Inr None) (nodes 0 t))"
  by (simp add: findItem_walk first_found_Some first_found_Inr list_all_iff)

end
