(* ===== verification/Level_Db.thy ===== *)
theory Level_Db
  imports Structure_Reader "HOL-Library.List_Lexorder" "HOL-Library.Char_ord"
begin

text \<open>
  Finding a just saved structure in the write-ahead logs of the world's LevelDB, second half of
  src/structure_reader.cpp: the log files are cut into 32 KiB blocks of record fragments, a record is a
  batch of puts and deletes, and the last one for the wanted key counts. The formats' writers, which
  belong to LevelDB, are written down here as the specification the reader is proved against.
\<close>

section \<open>Write batches\<close>

fun read_var :: "nat \<Rightarrow> 32 word \<Rightarrow> byte list \<Rightarrow> (32 word \<times> byte list) option" where
  "read_var shift result [] = None"
| "read_var shift result (b # rest) =
    (if \<not> shift < 35 \<or> (shift = 28 \<and> and b 0xf0 \<noteq> 0) then None
     else let result' = or result (push_bit shift (ucast (and b 0x7f))) in
       if and b 0x80 = 0 then Some (result', rest) else read_var (shift + 7) result' rest)"

definition readVarUint32 :: "byte list \<Rightarrow> (32 word \<times> byte list) option" where
  "readVarUint32 bytes = read_var 0 0 bytes"

definition littleUint32 :: "byte list \<Rightarrow> nat \<Rightarrow> 32 word result" where
  "littleUint32 bytes position =
    (if position > length bytes \<or> length bytes - position < 4
     then Inl (Runtime_Error ''truncated LevelDB write batch'')
     else Inr (or (or (or (ucast (bytes ! position)) (push_bit 8 (ucast (bytes ! (position + 1)))))
       (push_bit 16 (ucast (bytes ! (position + 2))))) (push_bit 24 (ucast (bytes ! (position + 3))))))"

text \<open>\<open>value\<close> and \<open>seen\<close>: what the logs say of the wanted key so far.\<close>

type_synonym found = "byte list option \<times> bool"

text \<open>A size-prefixed part of the rest of the record, or nothing if it is cut off.\<close>

definition sized_part :: "byte list \<Rightarrow> (byte list \<times> byte list) option" where
  "sized_part bs = (case readVarUint32 bs of None \<Rightarrow> None
     | Some (n, rest) \<Rightarrow> if unat n > length rest then None else Some (take (unat n) rest, drop (unat n) rest))"

primrec batch_loop :: "nat \<Rightarrow> string \<Rightarrow> byte list \<Rightarrow> found \<Rightarrow> found" where
  "batch_loop 0 wanted bs acc = acc"
| "batch_loop (Suc n) wanted bs acc = (case bs of [] \<Rightarrow> acc | tag # bs1 \<Rightarrow>
    (case sized_part bs1 of None \<Rightarrow> acc | Some (key, bs2) \<Rightarrow>
      if tag = 0 then batch_loop n wanted bs2 (if map char_of_byte key = wanted then (None, True) else acc)
      else if tag \<noteq> 1 then acc
      else (case sized_part bs2 of None \<Rightarrow> acc | Some (v, bs3) \<Rightarrow>
        batch_loop n wanted bs3 (if map char_of_byte key = wanted then (Some v, True) else acc))))"

definition inspectWriteBatch :: "string \<Rightarrow> byte list \<Rightarrow> found \<Rightarrow> found result" where
  "inspectWriteBatch wanted record acc =
    (if length record < 12 then Inr acc
     else case littleUint32 record 8 of Inl e \<Rightarrow> Inl e
       | Inr count \<Rightarrow> Inr (batch_loop (unat count) wanted (drop 12 record) acc))"

section \<open>Log files\<close>

definition LevelDbLogBlockBytes :: nat where
  "LevelDbLogBlockBytes = 32 * 1024"

definition LevelDbLogHeaderBytes :: nat where
  "LevelDbLogHeaderBytes = 7"

text \<open>The record under construction: \<open>fragmented\<close> and \<open>collecting\<close>.\<close>

definition fragment_step :: "string \<Rightarrow> byte \<Rightarrow> byte list \<Rightarrow> byte list \<times> bool \<times> found \<Rightarrow> (byte list \<times> bool \<times> found) result"
where
  "fragment_step wanted ty fragment st = (case st of (fragmented, collecting, acc) \<Rightarrow>
    let fits = collecting \<and> int (length fragmented + length fragment) \<le> MaxCaptureBytes in
    if ty = 1 then (case inspectWriteBatch wanted fragment acc of Inl e \<Rightarrow> Inl e
      | Inr acc' \<Rightarrow> Inr ([], False, acc'))
    else if ty = 2 then Inr (fragment, True, acc)
    else if ty = 3 then Inr (if fits then (fragmented @ fragment, True, acc) else ([], False, acc))
    else if ty = 4 then
      (if fits then (case inspectWriteBatch wanted (fragmented @ fragment) acc of Inl e \<Rightarrow> Inl e
         | Inr acc' \<Rightarrow> Inr ([], False, acc'))
       else Inr ([], False, acc))
    else Inr ([], False, acc))"

definition block_remaining :: "nat \<Rightarrow> nat" where
  "block_remaining position = LevelDbLogBlockBytes - position mod LevelDbLogBlockBytes"

lemma block_remaining_pos [simp]: "0 < block_remaining position"
  by (simp add: block_remaining_def LevelDbLogBlockBytes_def)

function log_loop :: "string \<Rightarrow> byte list \<Rightarrow> nat \<Rightarrow> byte list \<times> bool \<times> found \<Rightarrow> found result" where
  "log_loop wanted bytes position st =
    (if \<not> position + LevelDbLogHeaderBytes \<le> length bytes then Inr (snd (snd st))
     else if block_remaining position < LevelDbLogHeaderBytes
     then log_loop wanted bytes (position + block_remaining position) st
     else
       let n = unat (bytes ! (position + 4)) + unat (bytes ! (position + 5)) * 256;
         ty = bytes ! (position + 6) in
       if n = 0 \<and> ty = 0
       then log_loop wanted bytes (position + block_remaining position) ([], False, snd (snd st))
       else if n > block_remaining position - LevelDbLogHeaderBytes \<or>
         n > length bytes - position - LevelDbLogHeaderBytes
       then Inr (snd (snd st))
       else (case fragment_step wanted ty (take n (drop (position + LevelDbLogHeaderBytes) bytes)) st of
         Inl e \<Rightarrow> Inl e
       | Inr st' \<Rightarrow> log_loop wanted bytes (position + LevelDbLogHeaderBytes + n) st'))"
  by pat_completeness auto
termination log_loop
  by (relation "measure (\<lambda>(wanted, bytes, position, st). length bytes - position)")
    (auto simp: LevelDbLogHeaderBytes_def intro: diff_less_mono2)

declare log_loop.simps [simp del]

text \<open>An empty file is passed over; \<open>None\<close> is a file that cannot be opened.\<close>

definition inspectLevelDbLog :: "string \<Rightarrow> string \<times> byte list option \<Rightarrow> found \<Rightarrow> found result" where
  "inspectLevelDbLog wanted file acc =
    (if snd file = Some [] then Inr acc
     else case readFile (fst file) (snd file) of Inl e \<Rightarrow> Inl e
       | Inr bytes \<Rightarrow> log_loop wanted bytes 0 ([], False, acc))"

fun inspect_logs :: "string \<Rightarrow> (string \<times> byte list option) list \<Rightarrow> found \<Rightarrow> found result" where
  "inspect_logs wanted [] acc = Inr acc"
| "inspect_logs wanted (f # fs) acc =
    (case inspectLevelDbLog wanted f acc of Inl e \<Rightarrow> Inl e | Inr acc' \<Rightarrow> inspect_logs wanted fs acc')"

text \<open>The directory listing is an input: the error message of the iteration, or the regular files ending
  in \<open>.log\<close> with their contents.\<close>

definition readItemFrameFromLevelDbLogs ::
  "assign \<Rightarrow> string + (string \<times> byte list option) list \<Rightarrow> string \<Rightarrow> CapturedFrameItem option result"
where
  "readItemFrameFromLevelDbLogs assign listing structure_name = (case listing of
     Inl message \<Rightarrow> Inl (Runtime_Error (''cannot enumerate world LevelDB logs: '' @ message))
   | Inr files \<Rightarrow>
     (case inspect_logs (''structuretemplate_'' @ structure_name) (sort_key fst files) (None, False) of
        Inl e \<Rightarrow> Inl e
      | Inr (Some v, True) \<Rightarrow> item_in_structure assign v
      | _ \<Rightarrow> Inl (Runtime_Error ''saved structure was not found in the world LevelDB log'')))"

section \<open>What LevelDB writes\<close>

function var_bytes :: "32 word \<Rightarrow> byte list" where
  "var_bytes w = (if w < 128 then [ucast w] else or (ucast (and w 0x7f)) 0x80 # var_bytes (drop_bit 7 w))"
  by pat_completeness auto
termination var_bytes
proof (relation "measure unat")
  fix w :: "32 word" assume "\<not> w < 128"
  then have "128 \<le> unat w" by (simp add: word_less_nat_alt)
  then show "(drop_bit 7 w, w) \<in> measure unat" by (simp add: drop_bit_eq_div unat_div)
qed simp

declare var_bytes.simps [simp del]

datatype batch_op = Put string "byte list" | Delete string

definition sized_bytes :: "byte list \<Rightarrow> byte list" where
  "sized_bytes bs = var_bytes (word_of_nat (length bs)) @ bs"

fun op_bytes :: "batch_op \<Rightarrow> byte list" where
  "op_bytes (Put k v) = 1 # sized_bytes (map byte_of_char k) @ sized_bytes v"
| "op_bytes (Delete k) = 0 # sized_bytes (map byte_of_char k)"

text \<open>A batch starts with its 8-byte sequence number and the number of its operations.\<close>

definition batch_bytes :: "byte list \<Rightarrow> batch_op list \<Rightarrow> byte list" where
  "batch_bytes sequence ops =
    sequence @ le_bytes (word_of_nat (length ops) :: 32 word) @ concat (map op_bytes ops)"

fun apply_op :: "string \<Rightarrow> batch_op \<Rightarrow> found \<Rightarrow> found" where
  "apply_op wanted (Put k v) acc = (if k = wanted then (Some v, True) else acc)"
| "apply_op wanted (Delete k) acc = (if k = wanted then (None, True) else acc)"

fun op_fits :: "batch_op \<Rightarrow> bool" where
  "op_fits (Put k v) = (length k < 2 ^ 32 \<and> length v < 2 ^ 32)"
| "op_fits (Delete k) = (length k < 2 ^ 32)"

lemma bit_7f: "bit (0x7f :: byte) n \<longleftrightarrow> n < 7"
proof -
  have "(0x7f :: byte) = mask 7" by (simp add: mask_eq_exp_minus_1)
  then show ?thesis by (simp only: bit_mask_iff) auto
qed

lemma bit_80: "bit (0x80 :: byte) n \<longleftrightarrow> n = 7"
proof -
  have "(0x80 :: byte) = push_bit 7 1" by simp
  then show ?thesis by (simp only: bit_push_bit_iff bit_1_iff) auto
qed

lemma small_bits: "w < (128 :: 32 word) \<Longrightarrow> bit w n \<Longrightarrow> n < 7"
proof (rule ccontr)
  assume w: "w < (128 :: 32 word)" and n: "bit w n" "\<not> n < 7"
  have "and w (mask 7) = w" by (rule less_mask_eq) (use w in simp)
  with n show False by (metis bit_and_iff bit_mask_iff)
qed

text \<open>One round: seven more bits of the number.\<close>

lemma var_round:
  fixes w :: "32 word"
  shows "or (take_bit s w) (push_bit s (ucast (and (ucast (drop_bit s w) :: byte) 0x7f))) = take_bit (s + 7) w"
proof (rule bit_word_eqI)
  fix n
  have "s \<le> n \<Longrightarrow> n - s < 7 \<longleftrightarrow> n < s + 7" by linarith
  then show "bit (or (take_bit s w) (push_bit s (ucast (and (ucast (drop_bit s w) :: byte) 0x7f)))) n =
      bit (take_bit (s + 7) w) n"
    unfolding bit_or_iff bit_take_bit_iff bit_push_bit_iff bit_ucast_iff bit_and_iff bit_7f bit_drop_bit_eq
    using bit_imp_le_length [of w n] by auto
qed

lemma last_group:
  fixes w :: "32 word"
  assumes "drop_bit s w < 128"
  shows "and (ucast (drop_bit s w) :: byte) 0x80 = 0" "take_bit (s + 7) w = w"
proof -
  note small = small_bits [OF assms]
  show "and (ucast (drop_bit s w) :: byte) 0x80 = 0"
  proof (rule bit_word_eqI)
    fix n
    have "\<not> bit (drop_bit s w) 7" using small [of 7] by blast
    then show "bit (and (ucast (drop_bit s w) :: byte) 0x80) n = bit (0 :: byte) n"
      unfolding bit_and_iff bit_80 bit_ucast_iff by auto
  qed
  have "n < s + 7" if "bit w n" for n
    using small [of "n - s"] that by (cases "s \<le> n") (auto simp: bit_drop_bit_eq)
  then show "take_bit (s + 7) w = w"
    by (intro bit_word_eqI) (auto simp: bit_take_bit_iff)
qed

lemma top_group: "drop_bit 28 (w :: 32 word) < 128" "and (ucast (drop_bit 28 (w :: 32 word)) :: byte) 0xf0 = 0"
proof -
  have top: "\<not> bit (drop_bit 28 w) n" if "4 \<le> n" for n
    using that bit_imp_le_length [of w "28 + n"] by (auto simp: bit_drop_bit_eq)
  have "and (drop_bit 28 w) (mask 7) = drop_bit 28 w"
  proof (rule bit_word_eqI)
    fix n show "bit (and (drop_bit 28 w) (mask 7)) n = bit (drop_bit 28 w) n"
      using top [of n] unfolding bit_and_iff bit_mask_iff by (cases "n < 7") auto
  qed
  then have "uint (drop_bit 28 w) < 2 ^ 7" by (simp only: mask_eq_iff)
  then show "drop_bit 28 w < 128" by (simp add: word_less_def)
  have "bit (0xf0 :: byte) n \<Longrightarrow> 4 \<le> n" for n
  proof (rule ccontr)
    assume "bit (0xf0 :: byte) n" "\<not> 4 \<le> n"
    moreover have "(0xf0 :: byte) = push_bit 4 15" by simp
    ultimately show False by (simp only: bit_push_bit_iff) simp
  qed
  with top show "and (ucast (drop_bit 28 w) :: byte) 0xf0 = 0"
    by (intro bit_word_eqI) (auto simp: bit_and_iff bit_ucast_iff)
qed

lemma group_byte:
  fixes x :: "32 word"
  shows "and (or (ucast (and x 0x7f)) 0x80 :: byte) 0x7f = and (ucast x) 0x7f"
    "and (or (ucast (and x 0x7f)) 0x80 :: byte) 0x80 \<noteq> 0"
proof -
  have m: "bit (0x7f :: 32 word) n \<longleftrightarrow> n < 7" for n
  proof -
    have "(0x7f :: 32 word) = mask 7" by (simp add: mask_eq_exp_minus_1)
    then show ?thesis by (simp only: bit_mask_iff) auto
  qed
  show "and (or (ucast (and x 0x7f)) 0x80 :: byte) 0x7f = and (ucast x) 0x7f"
    by (rule bit_word_eqI) (unfold bit_and_iff bit_or_iff bit_ucast_iff bit_7f bit_80 m, auto)
  have "bit (and (or (ucast (and x 0x7f)) 0x80 :: byte) 0x80) 7"
    unfolding bit_and_iff bit_or_iff bit_80 by simp
  then show "and (or (ucast (and x 0x7f)) 0x80 :: byte) 0x80 \<noteq> 0" by auto
qed

lemma read_var_bytes:
  assumes "s \<in> {0, 7, 14, 21, 28}"
  shows "read_var s (take_bit s w) (var_bytes (drop_bit s w) @ rest) = Some (w, rest)"
  using assms
proof (induction "28 - s" arbitrary: s rule: less_induct)
  case less
  have s: "s < 35" using less.prems by auto
  show ?case
  proof (cases "drop_bit s w < 128")
    case True
    with s last_group [OF True] top_group(2) [of w] show ?thesis
      by (subst var_bytes.simps) (simp add: var_round Let_def)
  next
    case False
    then have "s \<noteq> 28" using top_group(1) by blast
    with less.prems have s': "s + 7 \<in> {0, 7, 14, 21, 28}" "28 - (s + 7) < 28 - s" by auto
    from less.hyps [OF s'(2,1)] False s \<open>s \<noteq> 28\<close> show ?thesis
      by (subst var_bytes.simps) (simp only: if_False append_Cons read_var.simps group_byte var_round Let_def
          drop_bit_drop_bit add.commute [of 7] simp_thms)
  qed
qed

interpretation varint: wire "\<lambda>_. True" var_bytes
  "\<lambda>bs. case readVarUint32 bs of None \<Rightarrow> (Inl truncated_structure, bs) | Some (w, rest) \<Rightarrow> (Inr w, rest)"
  by unfold_locales (use read_var_bytes [of 0] in \<open>simp add: readVarUint32_def\<close>)

lemma sized_part_bytes:
  assumes "length bs < 2 ^ 32"
  shows "sized_part (sized_bytes bs @ rest) = Some (bs, rest)"
proof -
  have "unat (word_of_nat (length bs) :: 32 word) = length bs" using assms by (simp add: unat_of_nat)
  then show ?thesis
    using read_var_bytes [of 0 "word_of_nat (length bs)"]
    by (simp add: sized_part_def sized_bytes_def readVarUint32_def)
qed

lemma batch_loop_bytes:
  "list_all op_fits ops \<Longrightarrow>
    batch_loop (length ops) wanted (concat (map op_bytes ops) @ rest) acc = fold (apply_op wanted) ops acc"
proof (induction ops arbitrary: acc)
  case (Cons op ops)
  then show ?case by (cases op) (simp_all add: sized_part_bytes o_def)
qed simp

lemma littleUint32_loop:
  assumes "length pre = position" and "length four = 4"
  shows "littleUint32 (pre @ four @ rest) position = Inr (le_loop 0 four 0)"
proof -
  obtain a b c d where "four = [a, b, c, d]" using assms(2) by (auto simp: numeral_eq_Suc length_Suc_conv)
  with assms(1) show ?thesis by (simp add: littleUint32_def nth_append numeral_eq_Suc or.assoc)
qed

lemma inspectWriteBatch_bytes:
  assumes "length sequence = 8" and "list_all op_fits ops" and "length ops < 2 ^ 32"
  shows "inspectWriteBatch wanted (batch_bytes sequence ops) acc = Inr (fold (apply_op wanted) ops acc)"
proof -
  let ?n = "word_of_nat (length ops) :: 32 word"
  have "littleUint32 (sequence @ le_bytes ?n @ concat (map op_bytes ops)) 8 = Inr ?n"
    using littleUint32_loop [OF assms(1), of "le_bytes ?n"] by (simp add: le_loop_le_bytes)
  moreover have "unat ?n = length ops" using assms(3) by (simp add: unat_of_nat)
  ultimately show ?thesis
    using batch_loop_bytes [OF assms(2), of wanted "[]"] assms(1)
    by (simp add: inspectWriteBatch_def batch_bytes_def)
qed

lemma batch_never_throws: "\<exists>acc'. inspectWriteBatch wanted record acc = Inr acc'"
  by (cases "length record < 12") (auto simp: inspectWriteBatch_def littleUint32_def)

text \<open>
  The log writer of LevelDB: a record goes into the rest of the current block, or is cut into a first,
  middle and last fragments over several blocks; a rest too short for a header is filled with zeros.
  The four checksum bytes, which the reader skips, are a parameter.
\<close>

definition fragment_bytes :: "(byte \<Rightarrow> byte list \<Rightarrow> byte list) \<Rightarrow> byte \<Rightarrow> byte list \<Rightarrow> byte list" where
  "fragment_bytes crc ty data =
    crc ty data @ [word_of_nat (length data mod 256), word_of_nat (length data div 256), ty] @ data"

function record_bytes :: "(byte \<Rightarrow> byte list \<Rightarrow> byte list) \<Rightarrow> nat \<Rightarrow> bool \<Rightarrow> byte list \<Rightarrow> byte list" where
  "record_bytes crc position begin_of_record data =
    (let left = block_remaining position; room = left - LevelDbLogHeaderBytes in
     if left < LevelDbLogHeaderBytes
     then replicate left 0 @ record_bytes crc (position + left) begin_of_record data
     else if length data \<le> room then fragment_bytes crc (if begin_of_record then 1 else 4) data
     else fragment_bytes crc (if begin_of_record then 2 else 3) (take room data) @
       record_bytes crc (position + left) False (drop room data))"
  by pat_completeness auto

lemma next_block [simp]: "block_remaining (position + block_remaining position) = 32768"
proof -
  have m: "position mod 32768 < 32768" "position div 32768 * 32768 + position mod 32768 = position" by simp_all
  have LB: "LevelDbLogBlockBytes = 32768" by (simp add: LevelDbLogBlockBytes_def)
  have "position + block_remaining position = Suc (position div 32768) * 32768"
    using m unfolding block_remaining_def LB mult_Suc by linarith
  then show ?thesis unfolding block_remaining_def [of "position + _"] LB by simp
qed

termination record_bytes
  by (relation "measure (\<lambda>(crc, position, first, data). 2 * length data + (if block_remaining position \<le> 7 then 1 else 0))")
    (auto simp: LevelDbLogHeaderBytes_def)

declare record_bytes.simps [simp del]

fun log_bytes :: "(byte \<Rightarrow> byte list \<Rightarrow> byte list) \<Rightarrow> nat \<Rightarrow> byte list list \<Rightarrow> byte list" where
  "log_bytes crc position [] = []"
| "log_bytes crc position (r # rs) =
    (let out = record_bytes crc position True r in out @ log_bytes crc (position + length out) rs)"

lemma record_length: "(\<And>ty d. length (crc ty d) = 4) \<Longrightarrow> 7 \<le> length (record_bytes crc position first data)"
  by (induction crc position first data rule: record_bytes.induct)
    (subst record_bytes.simps, force simp: Let_def fragment_bytes_def LevelDbLogHeaderBytes_def)

text \<open>Reading one fragment, and passing over the zeros at the end of a block.\<close>

lemma log_fragment:
  assumes crc: "\<And>ty d. length (crc ty d) = 4" and bytes: "bytes = pre @ fragment_bytes crc ty data @ post"
    and pos: "position = length pre" and room: "7 \<le> block_remaining position" "length data \<le> block_remaining position - 7"
    and ty: "ty \<noteq> 0"
  shows "log_loop wanted bytes position st = (case fragment_step wanted ty data st of Inl e \<Rightarrow> Inl e
     | Inr st' \<Rightarrow> log_loop wanted bytes (position + 7 + length data) st')"
proof -
  have "block_remaining position \<le> 32768" by (simp add: block_remaining_def LevelDbLogBlockBytes_def)
  then have d: "length data < 256 * 256" using room by linarith
  then have "length data div 256 < 256" by (simp add: less_mult_imp_div_less)
  then have n: "unat (word_of_nat (length data mod 256) :: byte) + unat (word_of_nat (length data div 256) :: byte) * 256 = length data"
    by (simp add: unat_of_nat)
  have "drop position bytes = fragment_bytes crc ty data @ post" using bytes pos by simp
  then have idx: "bytes ! (position + k) = (fragment_bytes crc ty data @ post) ! k" "position + k \<le> length bytes"
    if "k < 7 + length data" for k
    using that crc bytes pos by (auto simp: nth_append fragment_bytes_def)
  have at: "bytes ! (position + 4) = word_of_nat (length data mod 256)" "bytes ! (position + 5) = word_of_nat (length data div 256)"
    "bytes ! (position + 6) = ty" "take (length data) (drop (position + 7) bytes) = data"
    "length bytes = position + 7 + length data + length post"
    using idx(1) [of 4] idx(1) [of 5] idx(1) [of 6] crc bytes pos
    by (simp_all add: fragment_bytes_def nth_append)
  show ?thesis
    using room ty by (subst log_loop.simps) (simp add: LevelDbLogHeaderBytes_def at n Let_def split: sum.splits)
qed

lemma log_padding:
  assumes "block_remaining position < 7" and "position + 7 \<le> length bytes"
  shows "log_loop wanted bytes position st = log_loop wanted bytes (position + block_remaining position) st"
  using assms by (subst log_loop.simps) (simp add: LevelDbLogHeaderBytes_def)

lemma log_record:
  "(\<And>ty d. length (crc ty d) = 4) \<Longrightarrow> position = length pre \<Longrightarrow> bytes = pre @ record_bytes crc position first data @ post \<Longrightarrow>
    int (length bytes) \<le> MaxCaptureBytes \<Longrightarrow> first \<or> collecting \<and> length fragmented \<le> position \<Longrightarrow>
    inspectWriteBatch wanted (if first then data else fragmented @ data) acc = Inr acc' \<Longrightarrow>
    log_loop wanted bytes position (fragmented, collecting, acc) =
      log_loop wanted bytes (position + length (record_bytes crc position first data)) ([], False, acc')"
proof (induction crc position first data arbitrary: pre fragmented collecting rule: record_bytes.induct)
  case (1 crc position first data)
  let ?left = "block_remaining position"
  note crc = "1.prems"(1) and pos = "1.prems"(2) and bytes = "1.prems"(3) and cap = "1.prems"(4)
    and st = "1.prems"(5) and run = "1.prems"(6)
  consider (pad) "?left < 7" | (whole) "\<not> ?left < 7" "length data \<le> ?left - 7"
    | (part) "\<not> ?left < 7" "\<not> length data \<le> ?left - 7" by blast
  then show ?case
  proof cases
    case pad
    then have rec: "record_bytes crc position first data =
        replicate ?left 0 @ record_bytes crc (position + ?left) first data"
      by (subst record_bytes.simps) (simp add: LevelDbLogHeaderBytes_def Let_def)
    have "7 \<le> length (record_bytes crc (position + ?left) first data)" by (rule record_length [OF crc])
    then have "position + 7 \<le> length bytes" using bytes pos rec by simp
    with log_padding [OF pad] have "log_loop wanted bytes position (fragmented, collecting, acc) =
        log_loop wanted bytes (position + ?left) (fragmented, collecting, acc)" by blast
    also have "\<dots> = log_loop wanted bytes (position + ?left + length (record_bytes crc (position + ?left) first data))
        ([], False, acc')"
      by (rule "1.IH"(1) [OF refl refl _ crc, where pre = "pre @ replicate ?left 0"])
        (use pad pos bytes cap st run rec in \<open>auto simp: LevelDbLogHeaderBytes_def\<close>)
    finally show ?thesis using rec by (simp add: add.assoc)
  next
    case whole
    then have rec: "record_bytes crc position first data = fragment_bytes crc (if first then 1 else 4) data"
      by (subst record_bytes.simps) (simp add: LevelDbLogHeaderBytes_def Let_def)
    have cap': "int (length fragmented + length data) \<le> MaxCaptureBytes" if "\<not> first"
      using that st cap bytes pos rec by (simp add: fragment_bytes_def)
    have "fragment_step wanted (if first then 1 else 4) data (fragmented, collecting, acc) = Inr ([], False, acc')"
      using run st cap' by (simp add: fragment_step_def split: if_splits)
    moreover have "length (record_bytes crc position first data) = 7 + length data"
      using crc by (simp add: rec fragment_bytes_def)
    ultimately show ?thesis
      using log_fragment [OF crc bytes [unfolded rec] pos, of wanted "(fragmented, collecting, acc)"] whole
      by (simp add: add.assoc)
  next
    case part
    let ?d = "take (?left - 7) data" and ?ty = "if first then 2 else 3 :: byte"
    have rec: "record_bytes crc position first data = fragment_bytes crc ?ty ?d @
        record_bytes crc (position + ?left) False (drop (?left - 7) data)"
      using part by (subst record_bytes.simps) (simp add: LevelDbLogHeaderBytes_def Let_def)
    have b: "bytes = pre @ fragment_bytes crc ?ty ?d @
        record_bytes crc (position + ?left) False (drop (?left - 7) data) @ post" using bytes rec by simp
    have len: "length (fragment_bytes crc ?ty ?d) = ?left" using part crc by (simp add: fragment_bytes_def)
    have cap': "int (length fragmented + length ?d) \<le> MaxCaptureBytes" if "\<not> first"
      using that st cap bytes pos rec len part by simp
    let ?frag = "if first then ?d else fragmented @ ?d"
    have "fragment_step wanted ?ty ?d (fragmented, collecting, acc) = Inr (?frag, True, acc)"
      using st cap' by (auto simp: fragment_step_def Let_def)
    then have "log_loop wanted bytes position (fragmented, collecting, acc) =
        log_loop wanted bytes (position + ?left) (?frag, True, acc)"
      using log_fragment [OF crc b pos, of wanted "(fragmented, collecting, acc)"] part by simp
    also have "\<dots> = log_loop wanted bytes (position + ?left +
        length (record_bytes crc (position + ?left) False (drop (?left - 7) data))) ([], False, acc')"
      by (rule "1.IH"(2) [OF refl refl, unfolded LevelDbLogHeaderBytes_def, OF part crc,
            where pre = "pre @ fragment_bytes crc ?ty ?d"])
        (use part pos b cap st run len in \<open>auto split: if_splits\<close>)
    finally show ?thesis using rec len by (simp add: add.assoc)
  qed
qed

text \<open>A record that was cut off while it was written is passed over: no later fragment of it is complete.\<close>

lemma log_cut_fragment:
  assumes crc: "\<And>ty d. length (crc ty d) = 4" and bytes: "bytes = pre @ take m (fragment_bytes crc ty data)"
    and pos: "position = length pre" and room: "7 \<le> block_remaining position" "length data \<le> block_remaining position - 7"
    and m: "m < 7 + length data" and ty: "ty \<noteq> 0"
  shows "log_loop wanted bytes position st = Inr (snd (snd st))"
proof (cases "m < 7")
  case True
  then show ?thesis using bytes pos by (subst log_loop.simps) (simp add: LevelDbLogHeaderBytes_def)
next
  case False
  have "block_remaining position \<le> 32768" by (simp add: block_remaining_def LevelDbLogBlockBytes_def)
  then have d: "length data < 256 * 256" using room by linarith
  then have "length data div 256 < 256" by (simp add: less_mult_imp_div_less)
  then have n: "unat (word_of_nat (length data mod 256) :: byte) + unat (word_of_nat (length data div 256) :: byte) * 256 = length data"
    by (simp add: unat_of_nat)
  have "m - 7 < length data" using m False by linarith
  have len: "length bytes = position + m" using bytes pos m crc by (simp add: fragment_bytes_def)
  have idx: "bytes ! (position + k) = fragment_bytes crc ty data ! k" if "k < m" for k
    using that bytes pos by (simp add: nth_append)
  have at: "bytes ! (position + 4) = word_of_nat (length data mod 256)" "bytes ! (position + 5) = word_of_nat (length data div 256)"
    "bytes ! (position + 6) = ty"
    using idx [of 4] idx [of 5] idx [of 6] crc False by (simp_all add: fragment_bytes_def nth_append)
  show ?thesis
    using room ty m False \<open>m - 7 < length data\<close> by (subst log_loop.simps) (simp add: LevelDbLogHeaderBytes_def at n len Let_def)
qed

lemma log_cut:
  "(\<And>ty d. length (crc ty d) = 4) \<Longrightarrow> position = length pre \<Longrightarrow> bytes = pre @ take m (record_bytes crc position first data) \<Longrightarrow>
    m < length (record_bytes crc position first data) \<Longrightarrow> log_loop wanted bytes position st = Inr (snd (snd st))"
proof (induction crc position first data arbitrary: pre m st rule: record_bytes.induct)
  case (1 crc position first data)
  let ?left = "block_remaining position"
  note crc = "1.prems"(1) and pos = "1.prems"(2) and bytes = "1.prems"(3) and m = "1.prems"(4)
  consider (pad) "?left < 7" | (whole) "\<not> ?left < 7" "length data \<le> ?left - 7"
    | (part) "\<not> ?left < 7" "\<not> length data \<le> ?left - 7" by blast
  then show ?case
  proof cases
    case pad
    let ?rest = "record_bytes crc (position + ?left) first data"
    have rec: "record_bytes crc position first data = replicate ?left 0 @ ?rest"
      using pad by (subst record_bytes.simps) (simp add: LevelDbLogHeaderBytes_def Let_def)
    show ?thesis
    proof (cases "position + 7 \<le> length bytes")
      case True
      then have "?left < m" using pad bytes pos m by simp
      have "log_loop wanted bytes (position + ?left) st = Inr (snd (snd st))"
        by (rule "1.IH"(1) [OF refl refl _ crc, where pre = "pre @ replicate ?left 0" and m = "m - ?left"])
          (use pad pos bytes m rec \<open>?left < m\<close> in \<open>auto simp: LevelDbLogHeaderBytes_def\<close>)
      with log_padding [OF pad True] show ?thesis by simp
    next
      case False
      then show ?thesis by (subst log_loop.simps) (simp add: LevelDbLogHeaderBytes_def)
    qed
  next
    case whole
    then have rec: "record_bytes crc position first data = fragment_bytes crc (if first then 1 else 4) data"
      by (subst record_bytes.simps) (simp add: LevelDbLogHeaderBytes_def Let_def)
    show ?thesis
      by (rule log_cut_fragment [OF crc bytes [unfolded rec] pos]) (use whole m rec crc in \<open>auto simp: fragment_bytes_def\<close>)
  next
    case part
    let ?d = "take (?left - 7) data" and ?ty = "if first then 2 else 3 :: byte"
    let ?rest = "record_bytes crc (position + ?left) False (drop (?left - 7) data)"
    have rec: "record_bytes crc position first data = fragment_bytes crc ?ty ?d @ ?rest"
      using part by (subst record_bytes.simps) (simp add: LevelDbLogHeaderBytes_def Let_def)
    have len: "length (fragment_bytes crc ?ty ?d) = ?left" using part crc by (simp add: fragment_bytes_def)
    show ?thesis
    proof (cases "m < ?left")
      case True
      have b: "bytes = pre @ take m (fragment_bytes crc ?ty ?d)" using bytes rec len True by simp
      show ?thesis by (rule log_cut_fragment [OF crc b pos]) (use part True in auto)
    next
      case False
      have b: "bytes = pre @ fragment_bytes crc ?ty ?d @ take (m - ?left) ?rest" using bytes rec len False by simp
      obtain st' where st': "fragment_step wanted ?ty ?d st = Inr st'" "snd (snd st') = snd (snd st)"
        by (cases st; cases first) (auto simp: fragment_step_def Let_def)
      have "log_loop wanted bytes (position + ?left) st' = Inr (snd (snd st'))"
        by (rule "1.IH"(2) [OF refl refl, unfolded LevelDbLogHeaderBytes_def, OF part crc,
              where pre = "pre @ fragment_bytes crc ?ty ?d" and m = "m - ?left"])
          (use part pos b m rec len False in auto)
      then show ?thesis using log_fragment [OF crc b pos, of wanted st] part st' by simp
    qed
  qed
qed

section \<open>Whole logs\<close>

definition batch_ok :: "byte list \<times> batch_op list \<Rightarrow> bool" where
  "batch_ok b \<longleftrightarrow> length (fst b) = 8 \<and> list_all op_fits (snd b) \<and> length (snd b) < 2 ^ 32"

definition log_file :: "(byte \<Rightarrow> byte list \<Rightarrow> byte list) \<Rightarrow> (byte list \<times> batch_op list) list \<Rightarrow> byte list" where
  "log_file crc bs = log_bytes crc 0 (map (\<lambda>b. batch_bytes (fst b) (snd b)) bs)"

lemma log_batches:
  assumes crc: "\<And>ty d. length (crc ty d) = 4"
  shows "list_all batch_ok bs \<Longrightarrow> out = log_bytes crc (length pre) (map (\<lambda>b. batch_bytes (fst b) (snd b)) bs) \<Longrightarrow>
    int (length (pre @ out @ post)) \<le> MaxCaptureBytes \<Longrightarrow>
    log_loop wanted (pre @ out @ post) (length pre) ([], False, acc) =
      log_loop wanted (pre @ out @ post) (length (pre @ out)) ([], False, fold (apply_op wanted) (concat (map snd bs)) acc)"
proof (induction bs arbitrary: pre acc out)
  case Nil
  then show ?case by simp
next
  case (Cons b bs)
  let ?r = "batch_bytes (fst b) (snd b)" and ?rs = "map (\<lambda>b. batch_bytes (fst b) (snd b)) bs"
  let ?one = "record_bytes crc (length pre) True ?r" and ?acc = "fold (apply_op wanted) (snd b) acc"
  let ?out = "log_bytes crc (length (pre @ ?one)) ?rs"
  have out: "out = ?one @ ?out" using Cons.prems(2) by (simp add: Let_def)
  have "inspectWriteBatch wanted ?r acc = Inr ?acc"
    using Cons.prems(1) by (intro inspectWriteBatch_bytes) (simp_all add: batch_ok_def)
  then have "log_loop wanted (pre @ out @ post) (length pre) ([], False, acc) =
      log_loop wanted (pre @ out @ post) (length pre + length ?one) ([], False, ?acc)"
    using Cons.prems(3) by (intro log_record [OF crc refl, where post = "?out @ post"]) (simp_all add: out)
  also have "\<dots> = log_loop wanted (pre @ out @ post) (length (pre @ out))
      ([], False, fold (apply_op wanted) (concat (map snd bs)) ?acc)"
    using Cons.IH [of ?out "pre @ ?one" ?acc] Cons.prems(1,3) by (simp add: out add.assoc)
  finally show ?case by simp
qed

text \<open>A log that ends with a batch of which only \<open>m\<close> bytes have been written.\<close>

definition log_image :: "(byte \<Rightarrow> byte list \<Rightarrow> byte list) \<Rightarrow> (byte list \<times> batch_op list) list \<Rightarrow>
    ((byte list \<times> batch_op list) \<times> nat) option \<Rightarrow> byte list" where
  "log_image crc bs torn = (case torn of None \<Rightarrow> log_file crc bs
     | Some (b, m) \<Rightarrow> take (length (log_file crc bs) + m) (log_file crc (bs @ [b])))"

definition cut_ok :: "(byte \<Rightarrow> byte list \<Rightarrow> byte list) \<Rightarrow> (byte list \<times> batch_op list) list \<Rightarrow>
    ((byte list \<times> batch_op list) \<times> nat) option \<Rightarrow> bool" where
  "cut_ok crc bs torn \<longleftrightarrow> (case torn of None \<Rightarrow> True
     | Some (b, m) \<Rightarrow> length (log_file crc bs) + m < length (log_file crc (bs @ [b])))"

lemma log_bytes_snoc:
  "log_bytes crc position (rs @ [r]) =
    log_bytes crc position rs @ record_bytes crc (position + length (log_bytes crc position rs)) True r"
  by (induction rs arbitrary: position) (simp_all add: Let_def add.assoc)

lemma log_image_parts:
  assumes "cut_ok crc bs torn"
  obtains "log_image crc bs torn = log_file crc bs"
  | m r where "log_image crc bs torn = log_file crc bs @ take m (record_bytes crc (length (log_file crc bs)) True r)"
    "m < length (record_bytes crc (length (log_file crc bs)) True r)"
proof (cases torn)
  case None
  with that(1) show thesis by (simp add: log_image_def)
next
  case (Some c)
  then show thesis using that(2) assms
    by (cases c) (auto simp: log_image_def cut_ok_def log_file_def log_bytes_snoc)
qed

lemma inspect_log_image:
  assumes crc: "\<And>ty d. length (crc ty d) = 4" and bs: "list_all batch_ok bs" and torn: "cut_ok crc bs torn"
    and cap: "int (length (log_image crc bs torn)) \<le> MaxCaptureBytes"
  shows "inspectLevelDbLog wanted (path, Some (log_image crc bs torn)) acc = Inr (fold (apply_op wanted) (concat (map snd bs)) acc)"
proof (cases "log_image crc bs torn = []")
  case True
  have "bs = []"
  proof (rule ccontr)
    assume "bs \<noteq> []"
    then obtain b bs' where Cons: "bs = b # bs'" by (cases bs) auto
    have "7 \<le> length (record_bytes crc 0 True (batch_bytes (fst b) (snd b)))" by (rule record_length [OF crc])
    then have "log_file crc bs \<noteq> []" using Cons by (auto simp: log_file_def Let_def)
    with True show False by (cases rule: log_image_parts [OF torn]) auto
  qed
  with True show ?thesis by (simp add: inspectLevelDbLog_def)
next
  case False
  let ?acc = "fold (apply_op wanted) (concat (map snd bs)) acc" and ?f = "log_file crc bs"
  from False cap have "inspectLevelDbLog wanted (path, Some (log_image crc bs torn)) acc =
      log_loop wanted (log_image crc bs torn) 0 ([], False, acc)" by (simp add: inspectLevelDbLog_def readFile_def)
  also have "\<dots> = log_loop wanted (log_image crc bs torn) (length ?f) ([], False, ?acc)"
  proof -
    obtain post where "log_image crc bs torn = ?f @ post" by (cases rule: log_image_parts [OF torn]) auto
    with log_batches [OF crc bs, where pre = "[]" and out = ?f and post = post and wanted = wanted and acc = acc] cap
    show ?thesis by (simp add: log_file_def)
  qed
  also have "\<dots> = Inr ?acc"
  proof (cases rule: log_image_parts [OF torn])
    case 1
    then show ?thesis by (subst log_loop.simps) (simp add: LevelDbLogHeaderBytes_def)
  next
    case (2 m r)
    from log_cut [OF crc refl 2] show ?thesis by simp
  qed
  finally show ?thesis .
qed

fun op_key :: "batch_op \<Rightarrow> string" where
  "op_key (Put k v) = k"
| "op_key (Delete k) = k"

text \<open>What is stored under a key after some operations: the last put, unless a delete followed.\<close>

definition last_saved :: "string \<Rightarrow> batch_op list \<Rightarrow> byte list option" where
  "last_saved wanted ops = (case filter (\<lambda>p. op_key p = wanted) (rev ops) of Put k v # _ \<Rightarrow> Some v | _ \<Rightarrow> None)"

lemma fold_ops: "fold (apply_op wanted) ops (None, False) = (last_saved wanted ops, wanted \<in> op_key ` set ops)"
proof (induction ops rule: rev_induct)
  case (snoc p ops)
  then show ?case by (cases p) (auto simp: last_saved_def)
qed (simp add: last_saved_def)

lemma last_saved_seen: "last_saved wanted ops = Some v \<Longrightarrow> wanted \<in> op_key ` set ops"
proof -
  assume "last_saved wanted ops = Some v"
  then obtain p where "p \<in> set (filter (\<lambda>p. op_key p = wanted) (rev ops))"
    unfolding last_saved_def by (cases "filter (\<lambda>p. op_key p = wanted) (rev ops)") auto
  then show ?thesis by auto
qed

lemma sort_key_map:
  assumes "\<And>x y. x \<in> set xs \<Longrightarrow> y \<in> set xs \<Longrightarrow> f (g x) \<le> f (g y) \<longleftrightarrow> h x \<le> h y"
  shows "sort_key f (map g xs) = map g (sort_key h xs)"
  using assms
proof (induction xs)
  case (Cons x xs)
  have "insort_key f (g x) (map g ys) = map g (insort_key h x ys)" if "set ys \<subseteq> set xs" for ys
    using that Cons.prems by (induction ys) auto
  from this [of "sort_key h xs"] Cons show ?case by simp
qed simp

section \<open>The names of the logs\<close>

text \<open>LevelDB names its logs by number, with at least six decimal digits.\<close>

fun digits :: "nat \<Rightarrow> nat \<Rightarrow> string" where
  "digits 0 n = []"
| "digits (Suc w) n = char_of (48 + n div 10 ^ w) # digits w (n mod 10 ^ w)"

fun number_width :: "nat \<Rightarrow> nat" where
  "number_width n = (if n < 10 then 1 else Suc (number_width (n div 10)))"

definition log_name :: "string \<Rightarrow> nat \<Rightarrow> string" where
  "log_name dir n = dir @ digits (max 6 (number_width n)) n @ ''.log''"

declare number_width.simps [simp del]

lemma number_width_le: "n < 10 ^ Suc w \<Longrightarrow> number_width n \<le> Suc w"
proof (induction w arbitrary: n)
  case (Suc w)
  then have "n div 10 < 10 ^ Suc w" by (simp add: less_mult_imp_div_less)
  from Suc.IH [OF this] show ?case by (subst number_width.simps) simp
qed (simp add: number_width.simps)

lemma digits_numeral: "digits (numeral w) n =
    char_of (48 + n div 10 ^ pred_numeral w) # digits (pred_numeral w) (n mod 10 ^ pred_numeral w)"
  by (simp add: numeral_eq_Suc)

lemma digits_less:
  "a < b \<Longrightarrow> b < 10 ^ w \<Longrightarrow> digits w a @ rest < digits w b @ rest"
proof (induction w arbitrary: a b)
  case (Suc w)
  have q: "a div 10 ^ w \<le> b div 10 ^ w" "b div 10 ^ w < 10"
    using Suc.prems by (auto intro: div_le_mono simp: less_mult_imp_div_less)
  show ?case
  proof (cases "a div 10 ^ w = b div 10 ^ w")
    case True
    have "a = b div 10 ^ w * 10 ^ w + a mod 10 ^ w" using True div_mult_mod_eq [of a "10 ^ w"] by simp
    then have "a mod 10 ^ w < b mod 10 ^ w" using Suc.prems(1) div_mult_mod_eq [of b "10 ^ w"] by linarith
    with True Suc.IH [of "a mod 10 ^ w" "b mod 10 ^ w"] show ?thesis by simp
  next
    case False
    then have "(char_of (48 + a div 10 ^ w) :: char) < char_of (48 + b div 10 ^ w)"
      using q by (simp add: less_char_def)
    then show ?thesis by simp
  qed
qed simp

lemma prefix_less: "(dir @ xs < dir @ ys) = (xs < (ys :: string))"
  by (induction dir) simp_all

text \<open>Up to there the order of the names is the order of the numbers; then it is not.\<close>

lemma log_name_le:
  assumes "a < 10 ^ 6" and "b < 10 ^ 6"
  shows "log_name dir a \<le> log_name dir b \<longleftrightarrow> a \<le> b"
proof -
  have six: "max 6 (number_width n) = 6" if "n < 10 ^ 6" for n
    using number_width_le [of n 5] that by simp
  have "log_name dir n < log_name dir m" if "n < m" "n < 10 ^ 6" "m < 10 ^ 6" for n m
    unfolding log_name_def six [OF that(2)] six [OF that(3)] prefix_less by (rule digits_less) (use that in simp_all)
  from this [of a b] this [of b a] assms show ?thesis
    by (cases a b rule: linorder_cases) (auto simp: less_le_not_le)
qed

lemma log_names_disordered: "log_name dir 1000000 < log_name dir 999999"
proof -
  have "number_width 1000000 = 7" "number_width 999999 = 6" by (simp_all add: number_width.simps)
  then show ?thesis unfolding log_name_def prefix_less by (simp add: digits_numeral less_char_def)
qed

text \<open>A log of the world: its number, the batches in it, and what was begun after them.\<close>

record world_log =
  wl_number :: nat
  wl_batches :: "(byte list \<times> batch_op list) list"
  wl_cut :: "((byte list \<times> batch_op list) \<times> nat) option"

definition world_file :: "(byte \<Rightarrow> byte list \<Rightarrow> byte list) \<Rightarrow> string \<Rightarrow> world_log \<Rightarrow> string \<times> byte list option" where
  "world_file crc dir l = (log_name dir (wl_number l), Some (log_image crc (wl_batches l) (wl_cut l)))"

definition world_log_ok :: "(byte \<Rightarrow> byte list \<Rightarrow> byte list) \<Rightarrow> world_log \<Rightarrow> bool" where
  "world_log_ok crc l \<longleftrightarrow> wl_number l < 10 ^ 6 \<and> list_all batch_ok (wl_batches l) \<and> cut_ok crc (wl_batches l) (wl_cut l) \<and>
     int (length (log_image crc (wl_batches l) (wl_cut l))) \<le> MaxCaptureBytes"

text \<open>All operations in the order in which they were logged: by the numbers of the logs.\<close>

definition all_ops :: "world_log list \<Rightarrow> batch_op list" where
  "all_ops logs = concat (map (\<lambda>l. concat (map snd (wl_batches l))) (sort_key wl_number logs))"

lemma inspect_logs_files:
  assumes "\<And>ty d. length (crc ty d) = 4"
  shows "list_all (world_log_ok crc) logs \<Longrightarrow> inspect_logs wanted (map (world_file crc dir) logs) acc =
      Inr (fold (apply_op wanted) (concat (map (\<lambda>l. concat (map snd (wl_batches l))) logs)) acc)"
  by (induction logs arbitrary: acc) (simp_all add: inspect_log_image [OF assms] world_file_def world_log_ok_def)

section \<open>Properties\<close>

text \<open>The log with the higher number counts, and what it was cut off in does not.\<close>

definition demo_logs :: "world_log list" where
  "demo_logs =
    [\<lparr>wl_number = 10, wl_batches = [(replicate 8 0, [Put ''structuretemplate_a'' [10, 0, 0, 0], Delete ''b''])],
       wl_cut = Some ((replicate 8 2, [Put ''structuretemplate_a'' [2]]), 9)\<rparr>,
     \<lparr>wl_number = 9, wl_batches = [(replicate 8 1, [Put ''structuretemplate_a'' [1]])], wl_cut = None\<rparr>]"

text \<open>
  C28: A structure is read from exactly the bytes that were saved last. The logs are as LevelDB writes them: named
  by number with six digits, cut into blocks and fragments, with well-formed batches, each up to 64 MiB,
  and possibly cut off in the middle of the record being written, which then does not count. The
  checksums can be any bytes: the reader skips them. Reading the structure's item gives what the bytes hold
  that were saved last in the order of the logs' numbers, and fails if it was never saved or deleted since.
\<close>

theorem level_db_reads_last_saved:
  assumes "\<And>ty d. length (crc ty d) = 4" and "list_all (world_log_ok crc) logs"
  shows "readItemFrameFromLevelDbLogs assign (Inr (map (world_file crc dir) logs)) name =
    (case last_saved (''structuretemplate_'' @ name) (all_ops logs) of
       None \<Rightarrow> Inl (Runtime_Error ''saved structure was not found in the world LevelDB log'')
     | Some v \<Rightarrow> item_in_structure assign v)"
proof -
  let ?w = "''structuretemplate_'' @ name"
  have "list_all (world_log_ok crc) (sort_key wl_number logs)" using assms(2) by (simp add: list_all_iff)
  moreover have "sort_key fst (map (world_file crc dir) logs) = map (world_file crc dir) (sort_key wl_number logs)"
    by (rule sort_key_map) (use assms(2) in \<open>auto simp: world_file_def log_name_le list_all_iff world_log_ok_def\<close>)
  ultimately have "inspect_logs ?w (sort_key fst (map (world_file crc dir) logs)) (None, False) =
      Inr (last_saved ?w (all_ops logs), ?w \<in> op_key ` set (all_ops logs))"
    using inspect_logs_files [OF assms(1)] by (simp only: all_ops_def fold_ops)
  then show ?thesis using last_saved_seen [of ?w "all_ops logs"]
    by (auto simp: readItemFrameFromLevelDbLogs_def split: option.splits)
qed

theorem level_db_reads_last_saved_witness:
  "readItemFrameFromLevelDbLogs assign_entry (Inr (map (world_file (\<lambda>ty d. replicate 4 0) ''db/'') demo_logs)) ''a'' = Inr None"
proof -
  let ?crc = "\<lambda>ty d. replicate 4 0 :: byte list"
  have image: "record_bytes ?crc position True r = fragment_bytes ?crc 1 r"
    if "position < 1000" "length r < 1000" for position r
  proof -
    have "block_remaining position = 32768 - position" using that(1) by (simp add: block_remaining_def LevelDbLogBlockBytes_def)
    then have "\<not> block_remaining position < 7" "length r \<le> block_remaining position - 7" using that by linarith+
    then show ?thesis by (simp add: record_bytes.simps [of _ position] LevelDbLogHeaderBytes_def Let_def)
  qed
  have one: "length (log_file ?crc [b]) = 7 + length (batch_bytes (fst b) (snd b))"
    if "length (batch_bytes (fst b) (snd b)) < 100" for b
    using that by (simp add: log_file_def image fragment_bytes_def Let_def)
  have two: "length (log_file ?crc [b, c]) = 14 + length (batch_bytes (fst b) (snd b)) + length (batch_bytes (fst c) (snd c))"
    if "length (batch_bytes (fst b) (snd b)) < 100" "length (batch_bytes (fst c) (snd c)) < 100" for b c
    using that by (simp add: log_file_def image fragment_bytes_def Let_def)
  have "list_all (\<lambda>b. 9 < length (batch_bytes (fst b) (snd b)) \<and> length (batch_bytes (fst b) (snd b)) < 100)
    [(replicate 8 0, [Put ''structuretemplate_a'' [10, 0, 0, 0], Delete ''b'']), (replicate 8 1, [Put ''structuretemplate_a'' [1]]),
     (replicate 8 2, [Put ''structuretemplate_a'' [2]])]" by code_simp
  then have sizes: "9 < length (batch_bytes (replicate 8 0) [Put ''structuretemplate_a'' [10, 0, 0, 0], Delete ''b''])"
    "length (batch_bytes (replicate 8 0) [Put ''structuretemplate_a'' [10, 0, 0, 0], Delete ''b'']) < 100"
    "length (batch_bytes (replicate 8 1) [Put ''structuretemplate_a'' [1]]) < 100"
    "9 < length (batch_bytes (replicate 8 2) [Put ''structuretemplate_a'' [2]])"
    "length (batch_bytes (replicate 8 2) [Put ''structuretemplate_a'' [2]]) < 100" by (simp_all only: list.pred_inject fst_conv snd_conv)
  have "list_all (world_log_ok ?crc) demo_logs"
    using sizes by (simp add: demo_logs_def world_log_ok_def batch_ok_def cut_ok_def log_image_def one two MaxCaptureBytes_def)
  moreover have "last_saved (''structuretemplate_'' @ ''a'') (all_ops demo_logs) = Some [10, 0, 0, 0]" by code_simp
  moreover have "item_in_structure assign_entry [10, 0, 0, 0] = Inr None" by code_simp
  ultimately show ?thesis
    using level_db_reads_last_saved [of ?crc demo_logs assign_entry "''db/''" "''a''"] by simp
qed

end
