(* ===== verification/Rows.thy ===== *)
theory Rows
  imports Text Orders
begin

text \<open>
  Reading the server's answers: the cells of a \<open>QueryRow\<close> are nullable strings, which
  \<open>cellString\<close>, \<open>cellInt64\<close>, \<open>cellInt\<close> (src/database.cpp) and the \<open>...FromRow\<close> functions
  (src/exchange_service.cpp) turn into the structs of domain.hpp. The rendering of a table row as
  the cells its \<open>SELECT\<close> lists is modelled too, and reading is shown to be its inverse; this is
  what lets the other theories work with typed rows.
\<close>

type_synonym QueryRow = "string option list"

section \<open>Cells\<close>

definition cellString :: "QueryRow \<Rightarrow> nat \<Rightarrow> string result" where
  "cellString row i =
    (case (if i < length row then row ! i else None) of
       None \<Rightarrow> Inl (Database_Error ''database returned an unexpected NULL value'')
     | Some v \<Rightarrow> Inr v)"

definition cellInt64 :: "QueryRow \<Rightarrow> nat \<Rightarrow> int result" where
  "cellInt64 row i =
    bindR (cellString row i) (\<lambda>v.
    bindR (stoll v) (\<lambda>(n, consumed).
    if consumed \<noteq> length v then Inl (Database_Error ''database returned a non-integer value'')
    else Inr n))"

definition cellInt :: "QueryRow \<Rightarrow> nat \<Rightarrow> int result" where
  "cellInt row i = bindR (cellInt64 row i) cellInt_of"

definition optionalInt64 :: "QueryRow \<Rightarrow> nat \<Rightarrow> int option result" where
  "optionalInt64 row i =
    (if i \<ge> length row \<or> row ! i = None then Inr None
     else bindR (cellInt64 row i) (\<lambda>v. Inr (Some v)))"

definition optionalString :: "QueryRow \<Rightarrow> nat \<Rightarrow> string option result" where
  "optionalString row i =
    (if i \<ge> length row \<or> row ! i = None then Inr None
     else bindR (cellString row i) (\<lambda>v. Inr (Some v)))"

definition bytesFromCell :: "QueryRow \<Rightarrow> nat \<Rightarrow> byte list result" where
  "bytesFromCell row i = bindR (cellString row i) (\<lambda>v. Inr (map byte_of_char v))"

text \<open>\<open>static_cast<Id>\<close> and \<open>static_cast<int>\<close> of a 64-bit value.\<close>

definition id_cast :: "int \<Rightarrow> Id" where
  "id_cast v = nat (v mod 2 ^ 64)"

definition int_cast :: "int \<Rightarrow> int" where
  "int_cast v = (v + 2 ^ 31) mod 2 ^ 32 - 2 ^ 31"

section \<open>Statuses\<close>

definition deliveryClaimStatus :: "string \<Rightarrow> DeliveryClaimStatus result" where
  "deliveryClaimStatus s =
    (if s = ''PREPARED'' then Inr ClaimPrepared
     else if s = ''APPLIED'' then Inr ClaimApplied
     else if s = ''CANCELED'' then Inr ClaimCanceled
     else Inl (Runtime_Error ''delivery claim has an unknown status''))"

definition sellEscrowStatus :: "string \<Rightarrow> SellEscrowStatus result" where
  "sellEscrowStatus s =
    (if s = ''PREPARED'' then Inr EscrowPrepared
     else if s = ''TAGGED'' then Inr EscrowTagged
     else if s = ''ORDERED'' then Inr EscrowOrdered
     else if s = ''CANCELED'' then Inr EscrowCanceled
     else Inl (Runtime_Error ''sell escrow has an unknown status''))"

definition economyTransferStatus :: "string \<Rightarrow> EconomyTransferStatus result" where
  "economyTransferStatus s =
    (if s = ''PREPARED'' then Inr TransferPrepared
     else if s = ''EXTERNAL_APPLIED'' then Inr TransferExternalApplied
     else if s = ''COMPLETED'' then Inr TransferCompleted
     else if s = ''FAILED'' then Inr TransferFailed
     else if s = ''BLOCKED'' then Inr TransferBlocked
     else Inl (Runtime_Error ''economy transfer has an unknown status''))"

definition frameListingStatus :: "string \<Rightarrow> FrameListingStatus result" where
  "frameListingStatus s =
    (if s = ''ACTIVE'' then Inr FrameActive
     else if s = ''PAID'' then Inr FramePaid
     else if s = ''DROPPED'' then Inr FrameDropped
     else if s = ''CLAIMED'' then Inr FrameClaimed
     else if s = ''CANCELED'' then Inr FrameCanceled
     else Inl (Runtime_Error ''frame listing has an unknown status''))"

text \<open>The literals of the \<open>ENUM\<close> columns.\<close>

fun claim_status_sql :: "DeliveryClaimStatus \<Rightarrow> string" where
  "claim_status_sql ClaimPrepared = ''PREPARED''"
| "claim_status_sql ClaimApplied = ''APPLIED''"
| "claim_status_sql ClaimCanceled = ''CANCELED''"

fun escrow_status_sql :: "SellEscrowStatus \<Rightarrow> string" where
  "escrow_status_sql EscrowPrepared = ''PREPARED''"
| "escrow_status_sql EscrowTagged = ''TAGGED''"
| "escrow_status_sql EscrowOrdered = ''ORDERED''"
| "escrow_status_sql EscrowCanceled = ''CANCELED''"

fun transfer_status_sql :: "EconomyTransferStatus \<Rightarrow> string" where
  "transfer_status_sql TransferPrepared = ''PREPARED''"
| "transfer_status_sql TransferExternalApplied = ''EXTERNAL_APPLIED''"
| "transfer_status_sql TransferCompleted = ''COMPLETED''"
| "transfer_status_sql TransferFailed = ''FAILED''"
| "transfer_status_sql TransferBlocked = ''BLOCKED''"

fun listing_status_sql :: "FrameListingStatus \<Rightarrow> string" where
  "listing_status_sql FrameActive = ''ACTIVE''"
| "listing_status_sql FramePaid = ''PAID''"
| "listing_status_sql FrameDropped = ''DROPPED''"
| "listing_status_sql FrameClaimed = ''CLAIMED''"
| "listing_status_sql FrameCanceled = ''CANCELED''"

lemma status_roundtrips [simp]:
  "deliveryClaimStatus (claim_status_sql cs) = Inr cs"
  "sellEscrowStatus (escrow_status_sql es) = Inr es"
  "economyTransferStatus (transfer_status_sql ts) = Inr ts"
  "frameListingStatus (listing_status_sql ls) = Inr ls"
  by (cases cs; cases es; cases ts; cases ls;
      simp add: deliveryClaimStatus_def sellEscrowStatus_def economyTransferStatus_def frameListingStatus_def)+

section \<open>Rows\<close>

definition itemFromCells :: "QueryRow \<Rightarrow> nat \<Rightarrow> ItemPrototype result" where
  "itemFromCells row i =
    bindR (cellString row i) (\<lambda>ty. bindR (cellInt row (i + 1)) (\<lambda>d.
    bindR (bytesFromCell row (i + 2)) (\<lambda>nbt. bindR (cellString row (i + 3)) (\<lambda>n.
    Inr \<lparr>item_type = ty, item_data = d, item_nbt = nbt, item_name = n\<rparr>))))"

definition deliveryClaimFromRow :: "QueryRow \<Rightarrow> DeliveryClaim result" where
  "deliveryClaimFromRow row =
    bindR (cellInt64 row 0) (\<lambda>i. bindR (cellInt64 row 1) (\<lambda>dl. bindR (itemFromCells row 2) (\<lambda>item.
    bindR (cellInt row 6) (\<lambda>q. bindR (cellInt row 7) (\<lambda>ap. bindR (cellString row 8) (\<lambda>st0.
    bindR (deliveryClaimStatus st0) (\<lambda>st. bindR (cellInt row 9) (\<lambda>cl.
    Inr \<lparr>dc_id = id_cast i, dc_delivery = id_cast dl, dc_item = item, dc_quantity = q,
      dc_applied = ap, dc_status = st, dc_cleaned = (cl \<noteq> 0)\<rparr>))))))))"

definition sellEscrowFromRow :: "QueryRow \<Rightarrow> SellEscrow result" where
  "sellEscrowFromRow row =
    bindR (optionalInt64 row 14) (\<lambda>oid. bindR (cellInt64 row 0) (\<lambda>i. bindR (cellInt64 row 1) (\<lambda>m.
    bindR (itemFromCells row 2) (\<lambda>item. bindR (cellString row 6) (\<lambda>u. bindR (cellString row 7) (\<lambda>n.
    bindR (cellString row 8) (\<lambda>ty. bindR (cellInt64 row 9) (\<lambda>p. bindR (cellInt row 10) (\<lambda>rq.
    bindR (cellInt row 11) (\<lambda>tg. bindR (cellInt row 12) (\<lambda>rc. bindR (cellString row 13) (\<lambda>st0.
    bindR (sellEscrowStatus st0) (\<lambda>st. bindR (cellInt row 15) (\<lambda>cl.
    Inr \<lparr>se_id = id_cast i, se_market = id_cast m, se_item = item, se_uuid = u, se_name = n,
      se_type = (if ty = ''LIMIT'' then Limit else Market), se_price = p, se_requested = rq,
      se_tagged = tg, se_receipts = rc, se_status = st, se_order = map_option id_cast oid,
      se_cleaned = (cl \<noteq> 0)\<rparr>))))))))))))))"

definition marketFromRow :: "QueryRow \<Rightarrow> Market result" where
  "marketFromRow row =
    bindR (cellInt64 row 0) (\<lambda>i. bindR (cellInt64 row 1) (\<lambda>b. bindR (cellString row 2) (\<lambda>t.
    bindR (cellString row 3) (\<lambda>k. bindR (cellString row 4) (\<lambda>dim. bindR (optionalInt64 row 5) (\<lambda>x.
    bindR (optionalInt64 row 6) (\<lambda>y. bindR (optionalInt64 row 7) (\<lambda>z. bindR (optionalInt64 row 8) (\<lambda>ac.
    bindR (itemFromCells row 9) (\<lambda>item. bindR (cellInt row 13) (\<lambda>act. bindR (cellString row 14) (\<lambda>cb.
    Inr \<lparr>m_id = id_cast i, m_book_id = id_cast b, m_target_key = t,
      m_target_kind = (if k = ''BLOCK'' then Block else Actor), m_dimension = dim,
      m_block_x = map_option int_cast x, m_block_y = map_option int_cast y,
      m_block_z = map_option int_cast z, m_actor_id = ac, m_item = item, m_active = (act \<noteq> 0),
      m_created_by = cb\<rparr>))))))))))))"

definition economyTransferFromRow :: "QueryRow \<Rightarrow> EconomyTransfer result" where
  "economyTransferFromRow row =
    bindR (cellInt64 row 0) (\<lambda>i. bindR (cellString row 1) (\<lambda>k. bindR (cellString row 2) (\<lambda>u.
    bindR (cellString row 3) (\<lambda>n. bindR (cellString row 4) (\<lambda>d. bindR (cellInt64 row 5) (\<lambda>c.
    bindR (cellInt64 row 6) (\<lambda>un. bindR (cellString row 7) (\<lambda>st0. bindR (economyTransferStatus st0) (\<lambda>st.
    bindR (optionalInt64 row 8) (\<lambda>bf. bindR (optionalInt64 row 9) (\<lambda>af. bindR (cellInt row 10) (\<lambda>at.
    bindR (cellString row 11) (\<lambda>er.
    Inr \<lparr>et_id = id_cast i, et_key = k, et_uuid = u, et_name = n,
      et_direction = (if d = ''DEPOSIT'' then Deposit else Withdraw), et_amount_cents = c,
      et_amount_units = un, et_status = st, et_before = bf, et_after = af, et_attempts = at,
      et_error = er\<rparr>)))))))))))))"

definition frameListingFromRow :: "QueryRow \<Rightarrow> FrameListing result" where
  "frameListingFromRow row =
    bindR (cellInt64 row 0) (\<lambda>i. bindR (cellString row 1) (\<lambda>t. bindR (cellString row 2) (\<lambda>dim.
    bindR (cellInt row 3) (\<lambda>x. bindR (cellInt row 4) (\<lambda>y. bindR (cellInt row 5) (\<lambda>z.
    bindR (cellString row 6) (\<lambda>su. bindR (cellString row 7) (\<lambda>sn. bindR (cellInt64 row 8) (\<lambda>p.
    bindR (itemFromCells row 9) (\<lambda>item. bindR (cellString row 13) (\<lambda>st0.
    bindR (frameListingStatus st0) (\<lambda>st. bindR (optionalString row 14) (\<lambda>bu.
    bindR (optionalString row 15) (\<lambda>bn.
    Inr \<lparr>fl_id = id_cast i, fl_target_key = t, fl_dimension = dim, fl_x = x, fl_y = y, fl_z = z,
      fl_seller_uuid = su, fl_seller_name = sn, fl_price = p, fl_item = item, fl_status = st,
      fl_buyer_uuid = bu, fl_buyer_name = bn\<rparr>))))))))))))))"


section \<open>Rendering\<close>

text \<open>The cells of a \<open>SELECT\<close> over a typed row, in the order of its column list.\<close>

definition int_cell :: "int \<Rightarrow> string option" where
  "int_cell v = Some (dec v)"

definition id_cell :: "Id \<Rightarrow> string option" where
  "id_cell i = Some (dec (int i))"

definition bool_cell :: "bool \<Rightarrow> string option" where
  "bool_cell b = Some (dec (if b then 1 else 0))"

definition item_cells :: "ItemPrototype \<Rightarrow> QueryRow" where
  "item_cells p = [Some (item_type p), int_cell (item_data p), Some (map char_of_byte (item_nbt p)),
     Some (item_name p)]"

definition market_cells :: "market_row \<Rightarrow> QueryRow" where
  "market_cells m = [id_cell (mk_id m), id_cell (mk_book m), Some (mk_target m),
     Some (toSql_TargetKind (mk_kind m)), Some (mk_dimension m), map_option dec (mk_x m),
     map_option dec (mk_y m), map_option dec (mk_z m), map_option dec (mk_actor m)] @
     item_cells (mk_item m) @ [bool_cell (mk_active m), Some (mk_created_by m)]"

definition market_view :: "market_row \<Rightarrow> Market" where
  "market_view m = \<lparr>m_id = mk_id m, m_book_id = mk_book m, m_target_key = mk_target m,
     m_target_kind = mk_kind m, m_dimension = mk_dimension m, m_block_x = mk_x m,
     m_block_y = mk_y m, m_block_z = mk_z m, m_actor_id = mk_actor m, m_item = mk_item m,
     m_active = mk_active m, m_created_by = mk_created_by m\<rparr>"

definition claim_cells :: "claim_row \<Rightarrow> ItemPrototype \<Rightarrow> QueryRow" where
  "claim_cells c item = [id_cell (c_id c), id_cell (c_delivery c)] @ item_cells item @
     [int_cell (c_quantity c), int_cell (c_applied c), Some (claim_status_sql (c_status c)),
      bool_cell (c_cleaned c)]"

definition claim_view :: "claim_row \<Rightarrow> ItemPrototype \<Rightarrow> DeliveryClaim" where
  "claim_view c item = \<lparr>dc_id = c_id c, dc_delivery = c_delivery c, dc_item = item,
     dc_quantity = c_quantity c, dc_applied = c_applied c, dc_status = c_status c,
     dc_cleaned = c_cleaned c\<rparr>"

definition escrow_cells :: "escrow_row \<Rightarrow> ItemPrototype \<Rightarrow> QueryRow" where
  "escrow_cells e item = [id_cell (e_id e), id_cell (e_market e)] @ item_cells item @
     [Some (e_player e), Some (e_name e), Some (toSql_OrderType (e_type e)), int_cell (e_price e),
      int_cell (e_requested e), int_cell (e_tagged e), int_cell (e_receipts e),
      Some (escrow_status_sql (e_status e)), map_option (\<lambda>i. dec (int i)) (e_order e),
      bool_cell (e_cleaned e)]"

definition escrow_view :: "escrow_row \<Rightarrow> ItemPrototype \<Rightarrow> SellEscrow" where
  "escrow_view e item = \<lparr>se_id = e_id e, se_market = e_market e, se_item = item,
     se_uuid = e_player e, se_name = e_name e, se_type = e_type e, se_price = e_price e,
     se_requested = e_requested e, se_tagged = e_tagged e, se_receipts = e_receipts e,
     se_status = e_status e, se_order = e_order e, se_cleaned = e_cleaned e\<rparr>"

definition transfer_cells :: "transfer_row \<Rightarrow> QueryRow" where
  "transfer_cells x = [id_cell (x_id x), Some (x_key x), Some (x_player x), Some (x_name x),
     Some (toSql_Direction (x_direction x)), int_cell (x_cents x), int_cell (x_units x),
     Some (transfer_status_sql (x_status x)), map_option dec (x_before x), map_option dec (x_after x),
     int_cell (x_attempts x), Some (case x_error x of None \<Rightarrow> [] | Some e \<Rightarrow> e)]"

definition transfer_view :: "transfer_row \<Rightarrow> EconomyTransfer" where
  "transfer_view x = \<lparr>et_id = x_id x, et_key = x_key x, et_uuid = x_player x, et_name = x_name x,
     et_direction = x_direction x, et_amount_cents = x_cents x, et_amount_units = x_units x,
     et_status = x_status x, et_before = x_before x, et_after = x_after x,
     et_attempts = x_attempts x, et_error = (case x_error x of None \<Rightarrow> [] | Some e \<Rightarrow> e)\<rparr>"

definition listing_cells :: "listing_row \<Rightarrow> QueryRow" where
  "listing_cells f = [id_cell (f_id f), Some (f_target f), Some (f_dimension f), int_cell (f_x f),
     int_cell (f_y f), int_cell (f_z f), Some (f_seller f), Some (f_seller_name f),
     int_cell (f_price f)] @ item_cells (f_item f) @
     [Some (listing_status_sql (f_status f)), f_buyer f, f_buyer_name f]"

definition listing_view :: "listing_row \<Rightarrow> FrameListing" where
  "listing_view f = \<lparr>fl_id = f_id f, fl_target_key = f_target f, fl_dimension = f_dimension f,
     fl_x = f_x f, fl_y = f_y f, fl_z = f_z f, fl_seller_uuid = f_seller f,
     fl_seller_name = f_seller_name f, fl_price = f_price f, fl_item = f_item f,
     fl_status = f_status f, fl_buyer_uuid = f_buyer f, fl_buyer_name = f_buyer_name f\<rparr>"

subsection \<open>Reading back\<close>

definition in_int64 :: "int \<Rightarrow> bool" where
  "in_int64 v \<longleftrightarrow> int64_min \<le> v \<and> v \<le> int64_max"

definition in_int32 :: "int \<Rightarrow> bool" where
  "in_int32 v \<longleftrightarrow> int32_min \<le> v \<and> v \<le> int32_max"

text \<open>The column ranges: ids and BIGINT columns are read as \<open>std::int64_t\<close>, INT columns as \<open>int\<close>.\<close>

definition id_ok :: "Id \<Rightarrow> bool" where
  "id_ok i \<longleftrightarrow> int i \<le> int64_max"

lemma in_int32_64: "in_int32 v \<Longrightarrow> in_int64 v"
  by (simp add: in_int32_def in_int64_def int32_min_def int32_max_def int64_min_def int64_max_def)

lemma cellString_at: "i < length row \<Longrightarrow> row ! i = Some v \<Longrightarrow> cellString row i = Inr v"
  by (simp add: cellString_def)

lemma cellInt64_at: "i < length row \<Longrightarrow> row ! i = int_cell v \<Longrightarrow> in_int64 v \<Longrightarrow> cellInt64 row i = Inr v"
  by (simp add: cellInt64_def cellString_at int_cell_def in_int64_def stoll_dec)

lemma cellInt_at: "i < length row \<Longrightarrow> row ! i = int_cell v \<Longrightarrow> in_int32 v \<Longrightarrow> cellInt row i = Inr v"
  by (simp add: cellInt_def cellInt64_at in_int32_64) (simp add: cellInt_of_def in_int32_def)

lemma id_at:
  "i < length row \<Longrightarrow> row ! i = id_cell k \<Longrightarrow> id_ok k \<Longrightarrow> cellInt64 row i = Inr (int k)"
  by (rule cellInt64_at) (auto simp: id_cell_def int_cell_def id_ok_def in_int64_def int64_min_def)

lemma bool_at: "i < length row \<Longrightarrow> row ! i = bool_cell b \<Longrightarrow> cellInt row i = Inr (if b then 1 else 0)"
  by (rule cellInt_at) (auto simp: bool_cell_def int_cell_def in_int32_def int32_min_def int32_max_def)

lemma optionalInt64_at:
  "i < length row \<Longrightarrow> row ! i = map_option dec v \<Longrightarrow> (\<And>w. v = Some w \<Longrightarrow> in_int64 w) \<Longrightarrow>
    optionalInt64 row i = Inr v"
  by (cases v) (simp_all add: optionalInt64_def cellInt64_at int_cell_def)

lemma optionalString_at: "i < length row \<Longrightarrow> row ! i = v \<Longrightarrow> optionalString row i = Inr v"
  by (cases v) (simp_all add: optionalString_def cellString_at)

lemma id_cast_id [simp]: "id_ok k \<Longrightarrow> id_cast (int k) = k"
  by (simp add: id_cast_def id_ok_def int64_max_def)

lemma int_cast_id [simp]: "in_int32 v \<Longrightarrow> int_cast v = v"
  by (simp add: int_cast_def in_int32_def int32_min_def int32_max_def)

lemma itemFromCells_at:
  assumes "i + 3 < length row" and "take 4 (drop i row) = item_cells p" and "in_int32 (item_data p)"
  shows "itemFromCells row i = Inr p"
proof -
  have at: "row ! (i + k) = item_cells p ! k" if "k < 4" for k
    using assms(1,2) that by (metis nth_take nth_drop add.commute le_add1 less_imp_le_nat linorder_not_le
        order.strict_trans2 trans_le_add1)
  have "cellString row i = Inr (item_type p)" "cellInt row (i + 1) = Inr (item_data p)"
    "bytesFromCell row (i + 2) = Inr (item_nbt p)" "cellString row (i + 3) = Inr (item_name p)"
    using assms(1,3) at [of 0] at [of 1] at [of 2] at [of 3]
    by (auto simp: item_cells_def cellString_at bytesFromCell_def cellInt_at o_def numeral_3_eq_3 numeral_2_eq_2)
  then show ?thesis by (simp add: itemFromCells_def)
qed


definition market_row_ok :: "market_row \<Rightarrow> bool" where
  "market_row_ok m \<longleftrightarrow> id_ok (mk_id m) \<and> id_ok (mk_book m) \<and> in_int32 (item_data (mk_item m)) \<and>
    pred_option in_int32 (mk_x m) \<and> pred_option in_int32 (mk_y m) \<and> pred_option in_int32 (mk_z m) \<and>
    pred_option in_int64 (mk_actor m)"

definition escrow_row_ok :: "escrow_row \<Rightarrow> bool" where
  "escrow_row_ok e \<longleftrightarrow> id_ok (e_id e) \<and> id_ok (e_market e) \<and> pred_option id_ok (e_order e) \<and>
    in_int64 (e_price e) \<and> in_int32 (e_requested e) \<and> in_int32 (e_tagged e) \<and> in_int32 (e_receipts e)"

definition claim_row_ok :: "claim_row \<Rightarrow> bool" where
  "claim_row_ok c \<longleftrightarrow> id_ok (c_id c) \<and> id_ok (c_delivery c) \<and> in_int32 (c_quantity c) \<and> in_int32 (c_applied c)"

definition transfer_row_ok :: "transfer_row \<Rightarrow> bool" where
  "transfer_row_ok x \<longleftrightarrow> id_ok (x_id x) \<and> in_int64 (x_cents x) \<and> in_int64 (x_units x) \<and>
    pred_option in_int64 (x_before x) \<and> pred_option in_int64 (x_after x) \<and> in_int32 (x_attempts x)"

definition listing_row_ok :: "listing_row \<Rightarrow> bool" where
  "listing_row_ok f \<longleftrightarrow> id_ok (f_id f) \<and> in_int32 (f_x f) \<and> in_int32 (f_y f) \<and> in_int32 (f_z f) \<and>
    in_int64 (f_price f) \<and> in_int32 (item_data (f_item f))"

lemma map_option_cast [simp]:
  "pred_option in_int32 v \<Longrightarrow> map_option int_cast v = v"
  by (cases v) simp_all

lemma int32_option_64: "pred_option in_int32 v \<Longrightarrow> v = Some w \<Longrightarrow> in_int64 w"
  by (simp add: in_int32_64)

lemma marketFromRow_cells:
  assumes "market_row_ok m"
  shows "marketFromRow (market_cells m) = Inr (market_view m)"
proof -
  let ?row = "market_cells m"
  note defs = market_cells_def item_cells_def
  have len: "length ?row = 15" by (simp add: defs)
  have "cellInt64 ?row 0 = Inr (int (mk_id m))" "cellInt64 ?row 1 = Inr (int (mk_book m))"
    using assms by (auto intro!: id_at simp: defs market_row_ok_def)
  moreover have "cellString ?row 2 = Inr (mk_target m)" "cellString ?row 3 = Inr (toSql_TargetKind (mk_kind m))"
    "cellString ?row 4 = Inr (mk_dimension m)" "cellString ?row 14 = Inr (mk_created_by m)"
    by (simp_all add: cellString_def defs)
  moreover have "optionalInt64 ?row 5 = Inr (mk_x m)" "optionalInt64 ?row 6 = Inr (mk_y m)"
    "optionalInt64 ?row 7 = Inr (mk_z m)" "optionalInt64 ?row 8 = Inr (mk_actor m)"
    using assms by (auto intro!: optionalInt64_at simp: defs market_row_ok_def in_int32_64)
  moreover have "itemFromCells ?row 9 = Inr (mk_item m)"
    using assms by (intro itemFromCells_at) (simp_all add: defs market_row_ok_def)
  moreover have "cellInt ?row 13 = Inr (if mk_active m then 1 else 0)"
    by (rule bool_at) (simp_all add: defs)
  ultimately show ?thesis
    using assms by (cases "mk_kind m") (auto simp: marketFromRow_def market_view_def market_row_ok_def)
qed

lemma deliveryClaimFromRow_cells:
  assumes "claim_row_ok c" and "in_int32 (item_data item)"
  shows "deliveryClaimFromRow (claim_cells c item) = Inr (claim_view c item)"
proof -
  let ?row = "claim_cells c item"
  note defs = claim_cells_def item_cells_def
  have "cellInt64 ?row 0 = Inr (int (c_id c))" "cellInt64 ?row 1 = Inr (int (c_delivery c))"
    using assms by (auto intro!: id_at simp: defs claim_row_ok_def)
  moreover have "cellInt ?row 6 = Inr (c_quantity c)" "cellInt ?row 7 = Inr (c_applied c)"
    using assms by (auto intro!: cellInt_at simp: defs claim_row_ok_def)
  moreover have "cellString ?row 8 = Inr (claim_status_sql (c_status c))"
    by (simp add: cellString_def defs)
  moreover have "itemFromCells ?row 2 = Inr item"
    using assms by (intro itemFromCells_at) (simp_all add: defs)
  moreover have "cellInt ?row 9 = Inr (if c_cleaned c then 1 else 0)"
    by (rule bool_at) (simp_all add: defs)
  ultimately show ?thesis
    using assms by (auto simp: deliveryClaimFromRow_def claim_view_def claim_row_ok_def)
qed

lemma sellEscrowFromRow_cells:
  assumes "escrow_row_ok e" and "in_int32 (item_data item)"
  shows "sellEscrowFromRow (escrow_cells e item) = Inr (escrow_view e item)"
proof -
  let ?row = "escrow_cells e item"
  note defs = escrow_cells_def item_cells_def
  have "cellInt64 ?row 0 = Inr (int (e_id e))" "cellInt64 ?row 1 = Inr (int (e_market e))"
    using assms by (auto intro!: id_at simp: defs escrow_row_ok_def)
  moreover have "cellInt ?row 10 = Inr (e_requested e)" "cellInt ?row 11 = Inr (e_tagged e)"
    "cellInt ?row 12 = Inr (e_receipts e)" "cellInt64 ?row 9 = Inr (e_price e)"
    using assms by (auto intro!: cellInt_at cellInt64_at simp: defs escrow_row_ok_def)
  moreover have "cellString ?row 6 = Inr (e_player e)" "cellString ?row 7 = Inr (e_name e)"
    "cellString ?row 8 = Inr (toSql_OrderType (e_type e))"
    "cellString ?row 13 = Inr (escrow_status_sql (e_status e))"
    by (simp_all add: cellString_def defs)
  moreover have "itemFromCells ?row 2 = Inr item"
    using assms by (intro itemFromCells_at) (simp_all add: defs)
  moreover have "optionalInt64 ?row 14 = Inr (map_option int (e_order e))"
    using assms by (intro optionalInt64_at)
      (auto simp: defs escrow_row_ok_def option.map_comp o_def id_ok_def in_int64_def int64_min_def)
  moreover have "map_option id_cast (map_option int (e_order e)) = e_order e"
    using assms by (cases "e_order e") (simp_all add: escrow_row_ok_def)
  moreover have "cellInt ?row 15 = Inr (if e_cleaned e then 1 else 0)"
    by (rule bool_at) (simp_all add: defs)
  ultimately show ?thesis
    using assms by (cases "e_type e") (auto simp: sellEscrowFromRow_def escrow_view_def escrow_row_ok_def)
qed

lemma economyTransferFromRow_cells:
  assumes "transfer_row_ok x"
  shows "economyTransferFromRow (transfer_cells x) = Inr (transfer_view x)"
proof -
  let ?row = "transfer_cells x"
  note defs = transfer_cells_def
  have "cellInt64 ?row 0 = Inr (int (x_id x))"
    using assms by (auto intro!: id_at simp: defs transfer_row_ok_def)
  moreover have "cellInt64 ?row 5 = Inr (x_cents x)" "cellInt64 ?row 6 = Inr (x_units x)"
    "cellInt ?row 10 = Inr (x_attempts x)"
    using assms by (auto intro!: cellInt_at cellInt64_at simp: defs transfer_row_ok_def)
  moreover have "cellString ?row 1 = Inr (x_key x)" "cellString ?row 2 = Inr (x_player x)"
    "cellString ?row 3 = Inr (x_name x)" "cellString ?row 4 = Inr (toSql_Direction (x_direction x))"
    "cellString ?row 7 = Inr (transfer_status_sql (x_status x))"
    "cellString ?row 11 = Inr (case x_error x of None \<Rightarrow> [] | Some e \<Rightarrow> e)"
    by (simp_all add: cellString_def defs)
  moreover have "optionalInt64 ?row 8 = Inr (x_before x)" "optionalInt64 ?row 9 = Inr (x_after x)"
    using assms by (auto intro!: optionalInt64_at simp: defs transfer_row_ok_def)
  ultimately show ?thesis
    using assms by (cases "x_direction x")
      (auto simp: economyTransferFromRow_def transfer_view_def transfer_row_ok_def)
qed

lemma frameListingFromRow_cells:
  assumes "listing_row_ok f"
  shows "frameListingFromRow (listing_cells f) = Inr (listing_view f)"
proof -
  let ?row = "listing_cells f"
  note defs = listing_cells_def item_cells_def
  have "cellInt64 ?row 0 = Inr (int (f_id f))"
    using assms by (auto intro!: id_at simp: defs listing_row_ok_def)
  moreover have "cellInt ?row 3 = Inr (f_x f)" "cellInt ?row 4 = Inr (f_y f)" "cellInt ?row 5 = Inr (f_z f)"
    "cellInt64 ?row 8 = Inr (f_price f)"
    using assms by (auto intro!: cellInt_at cellInt64_at simp: defs listing_row_ok_def)
  moreover have "cellString ?row 1 = Inr (f_target f)" "cellString ?row 2 = Inr (f_dimension f)"
    "cellString ?row 6 = Inr (f_seller f)" "cellString ?row 7 = Inr (f_seller_name f)"
    "cellString ?row 13 = Inr (listing_status_sql (f_status f))"
    "optionalString ?row 14 = Inr (f_buyer f)" "optionalString ?row 15 = Inr (f_buyer_name f)"
    by (auto simp: cellString_def defs intro!: optionalString_at)
  moreover have "itemFromCells ?row 9 = Inr (f_item f)"
    using assms by (intro itemFromCells_at) (simp_all add: defs listing_row_ok_def)
  ultimately show ?thesis
    using assms by (auto simp: frameListingFromRow_def listing_view_def listing_row_ok_def)
qed

end
