(* ===== verification/Markets.thy ===== *)
theory Markets
  imports Progress Rows
begin

text \<open>
  Opening and closing markets: \<open>activateMarket\<close>, \<open>closeMarket\<close>, \<open>retireMarket\<close>, \<open>findMarket\<close>,
  \<open>findMarketByTarget\<close> and \<open>activeMarkets\<close> of src/exchange_service.cpp. A world target is bound to at
  most one active market; all markets on the same item share one order book, found by a
  fingerprint of the item that the server hashes with SHA-256. The hash is a parameter \<open>sha\<close> of
  the operations: nothing is assumed of it, since the code compares the item after the lookup.
\<close>

section \<open>Operations\<close>

text \<open>
  \<open>CONCAT(CHAR_LENGTH(type),':',type,':',data,':',OCTET_LENGTH(nbt),':',nbt)\<close>, the text that is
  hashed.
\<close>

definition item_fingerprint :: "ItemPrototype \<Rightarrow> string" where
  "item_fingerprint p = dec_nat (length (item_type p)) @ '':'' @ item_type p @ '':'' @
     dec (item_data p) @ '':'' @ dec_nat (length (item_nbt p)) @ '':'' @
     map char_of_byte (item_nbt p)"

definition same_item :: "ItemPrototype \<Rightarrow> book_row \<Rightarrow> bool" where
  "same_item p b \<longleftrightarrow> b_type b = item_type p \<and> b_data b = item_data p \<and> b_nbt b = item_nbt p"

definition duplicate_entry :: error where
  "duplicate_entry = Database_Error ''database statement failed: duplicate entry''"

text \<open>\<open>INSERT ... ON DUPLICATE KEY UPDATE id=LAST_INSERT_ID(id)\<close> and \<open>lastInsertId\<close>.\<close>

definition upsertBook :: "(string \<Rightarrow> string) \<Rightarrow> ItemPrototype \<Rightarrow> Id dbm" where
  "upsertBook sha p =
    bindS (queryS (\<lambda>s. find (\<lambda>b. b_hash b = sha (item_fingerprint p)) (books s))) (\<lambda>existing.
    case existing of Some b \<Rightarrow> returnS (b_id b)
    | None \<Rightarrow>
      bindS (queryS (\<lambda>s. fresh_id b_id (books s))) (\<lambda>i.
      bindS (executeS (\<lambda>s. s\<lparr>books := books s @ [\<lparr>b_id = i, b_type = item_type p,
        b_data = item_data p, b_nbt = item_nbt p, b_name = item_name p,
        b_hash = sha (item_fingerprint p)\<rparr>]\<rparr>)) (\<lambda>_.
      returnS i)))"

definition bindTarget :: "string \<Rightarrow> Id \<Rightarrow> unit dbm" where
  "bindTarget target i =
    executeIfS (\<lambda>s. \<forall>b \<in> set (bindings s). bd_target b \<noteq> target \<and> bd_market b \<noteq> i) duplicate_entry
      (\<lambda>s. s\<lparr>bindings := bindings s @ [\<lparr>bd_target = target, bd_market = i\<rparr>]\<rparr>)"

definition set_active :: "bool \<Rightarrow> bool \<Rightarrow> market_row \<Rightarrow> market_row" where
  "set_active act reopen m = m\<lparr>mk_active := act, mk_reopenable := reopen\<rparr>"

definition updateMarket :: "Id \<Rightarrow> (market_row \<Rightarrow> market_row) \<Rightarrow> unit dbm" where
  "updateMarket i g = executeS (\<lambda>s. s\<lparr>markets := upd_where (\<lambda>m. mk_id m = i) g (markets s)\<rparr>)"

definition resumable_markets :: "db \<Rightarrow> Id \<Rightarrow> Market \<Rightarrow> market_row list" where
  "resumable_markets s b m = filter (\<lambda>r. mk_target r = m_target_key m \<and> mk_kind r = m_target_kind m \<and>
     \<not> mk_active r \<and> mk_reopenable r \<and> mk_book r = b) (markets s)"

definition new_market :: "Id \<Rightarrow> Id \<Rightarrow> Market \<Rightarrow> market_row" where
  "new_market i b m = \<lparr>mk_id = i, mk_book = b, mk_target = m_target_key m, mk_kind = m_target_kind m,
     mk_dimension = m_dimension m, mk_x = m_block_x m, mk_y = m_block_y m, mk_z = m_block_z m,
     mk_actor = m_actor_id m, mk_item = m_item m, mk_active = True, mk_reopenable = False,
     mk_created_by = m_created_by m\<rparr>"

definition findMarket :: "Id \<Rightarrow> Market option dbm" where
  "findMarket i = queryS (\<lambda>s. map_option market_view (market_of s i))"

text \<open>The rows of \<open>exchange_target_bindings b JOIN exchange_markets m ON m.id=b.market_id\<close>.\<close>

definition bound_markets :: "db \<Rightarrow> (binding_row \<times> market_row) list" where
  "bound_markets s = List.map_filter (\<lambda>b. map_option (Pair b) (market_of s (bd_market b))) (bindings s)"

definition findMarketByTarget :: "string \<Rightarrow> Market option dbm" where
  "findMarketByTarget target = queryS (\<lambda>s.
    case filter (\<lambda>(b, m). bd_target b = target \<and> mk_active m) (bound_markets s) of
      [] \<Rightarrow> None | (b, m) # _ \<Rightarrow> Some (market_view m))"

definition activeMarkets :: "Market list dbm" where
  "activeMarkets = queryS (\<lambda>s. map market_view (sort_key mk_id
    (filter mk_active (map snd (bound_markets s)))))"

text \<open>The transaction of \<open>activateMarket\<close>; its result is the id of the market.\<close>

definition activate_body :: "(string \<Rightarrow> string) \<Rightarrow> Market \<Rightarrow> Id dbm" where
  "activate_body sha m =
    bindS (queryS (\<lambda>s. filter (\<lambda>b. bd_target b = m_target_key m) (bindings s))) (\<lambda>existing.
    bindS (throwIf (existing \<noteq> []) (Runtime_Error ''target already has an active market'')) (\<lambda>_.
    bindS (upsertBook sha (m_item m)) (\<lambda>book_id.
    bindS (queryS (\<lambda>s. filter (\<lambda>b. b_id b = book_id \<and> same_item (m_item m) b) (books s))) (\<lambda>book.
    bindS (throwIf (book = []) (Runtime_Error ''item order-book fingerprint collision'')) (\<lambda>_.
    bindS (queryS (\<lambda>s. rev (sort_key mk_id (resumable_markets s book_id m)))) (\<lambda>resumable.
    case resumable of r # _ \<Rightarrow>
      bindS (updateMarket (mk_id r) (set_active True False)) (\<lambda>_.
      bindS (bindTarget (m_target_key m) (mk_id r)) (\<lambda>_. returnS (mk_id r)))
    | [] \<Rightarrow>
      bindS (queryS (\<lambda>s. fresh_id mk_id (markets s))) (\<lambda>i.
      bindS (executeS (\<lambda>s. s\<lparr>markets := markets s @ [new_market i book_id m]\<rparr>)) (\<lambda>_.
      bindS (bindTarget (m_target_key m) i) (\<lambda>_. returnS i)))))))))"

definition activateMarket :: "(string \<Rightarrow> string) \<Rightarrow> Market \<Rightarrow> Market dbm" where
  "activateMarket sha m =
    bindS (throwIf (m_target_key m = [] \<or> m_dimension m = [] \<or> item_type (m_item m) = [] \<or>
        item_name (m_item m) = [] \<or> m_created_by m = [])
      (Runtime_Error ''market activation data is incomplete'')) (\<lambda>_.
    bindS (transactionS (activate_body sha m)) (\<lambda>i.
    bindS (findMarket i) (\<lambda>activated.
    case activated of None \<Rightarrow> throwS (Runtime_Error ''activated market could not be reloaded'')
    | Some a \<Rightarrow> returnS a)))"

text \<open>A DELETE that reports how many rows it removed.\<close>

definition deleteBindings :: "(binding_row \<Rightarrow> bool) \<Rightarrow> nat dbm" where
  "deleteBindings P = updateS (\<lambda>s. True) duplicate_entry (\<lambda>s. count_where P (bindings s))
     (\<lambda>s. s\<lparr>bindings := del_where P (bindings s)\<rparr>)"

definition binding_missing :: error where
  "binding_missing = Runtime_Error ''active market target binding is missing''"

definition closeMarket :: "Id \<Rightarrow> unit dbm" where
  "closeMarket i = transactionS (
    bindS (queryS (\<lambda>s. market_of s i)) (\<lambda>market.
    case market of None \<Rightarrow> throwS market_missing
    | Some m \<Rightarrow>
      if \<not> mk_active m
      then bindS (deleteBindings (\<lambda>b. bd_market b = i)) (\<lambda>_. returnS ())
      else
        bindS (deleteBindings (\<lambda>b. bd_target b = mk_target m \<and> bd_market b = i)) (\<lambda>affected.
        bindS (throwIf (affected \<noteq> 1) binding_missing) (\<lambda>_.
        updateMarket i (set_active False True)))))"

definition retireMarket :: "Id \<Rightarrow> unit dbm" where
  "retireMarket i = transactionS (
    bindS (queryS (\<lambda>s. market_of s i)) (\<lambda>identity.
    case identity of None \<Rightarrow> throwS market_missing
    | Some m0 \<Rightarrow>
      bindS (queryS (\<lambda>s. book_of s (mk_book m0))) (\<lambda>book.
      bindS (throwIf (book = None) (Runtime_Error ''market order book does not exist'')) (\<lambda>_.
      bindS (queryS (\<lambda>s. market_of s i)) (\<lambda>market.
      case market of None \<Rightarrow> throwS market_missing
      | Some m \<Rightarrow>
        bindS (throwIf (mk_book m \<noteq> mk_book m0)
          (Runtime_Error ''market order-book identity changed unexpectedly'')) (\<lambda>_.
        bindS (queryS (\<lambda>s. filter (\<lambda>x. o_market x = i \<and> o_type x = Limit \<and> open_status (o_status x))
          (orders s))) (\<lambda>open_rows.
        bindS (mapS (\<lambda>x. close_order x ''MARKET_CLOSE_REFUND'' ''MARKET_CLOSED'') open_rows) (\<lambda>_.
        bindS (deleteBindings (\<lambda>b. bd_target b = mk_target m \<and> bd_market b = i)) (\<lambda>affected.
        bindS (throwIf (mk_active m \<and> affected \<noteq> 1) binding_missing) (\<lambda>_.
        updateMarket i (set_active False False)))))))))))"

section \<open>The fingerprint identifies the item\<close>

lemma separator_split:
  assumes "xs @ CHR '':'' # ys = xs' @ CHR '':'' # ys'" and "CHR '':'' \<notin> set xs" and "CHR '':'' \<notin> set xs'"
  shows "xs = xs' \<and> ys = ys'"
  using assms by (induction xs arbitrary: xs') (case_tac xs'; auto)+

lemma no_colon [simp]: "CHR '':'' \<notin> set (dec_nat n)" "CHR '':'' \<notin> set (dec v)"
  using dec_nat_digits [of "CHR '':''" n] dec_chars [of "CHR '':''" v] by auto

lemma map_char_of_byte_inj: "map char_of_byte xs = map char_of_byte ys \<Longrightarrow> xs = ys"
  by (metis (no_types, lifting) char_of_byte_inverse inj_onI list.inj_map_strong)

lemma item_fingerprint_inj:
  assumes "item_fingerprint p = item_fingerprint q"
  shows "item_type p = item_type q \<and> item_data p = item_data q \<and> item_nbt p = item_nbt q"
proof -
  have "dec_nat (length (item_type p)) = dec_nat (length (item_type q)) \<and>
    item_type p @ CHR '':'' # dec (item_data p) @ CHR '':'' # dec_nat (length (item_nbt p)) @ CHR '':'' #
      map char_of_byte (item_nbt p) =
    item_type q @ CHR '':'' # dec (item_data q) @ CHR '':'' # dec_nat (length (item_nbt q)) @ CHR '':'' #
      map char_of_byte (item_nbt q)"
    using assms by (intro separator_split) (simp_all add: item_fingerprint_def)
  then have ty: "item_type p = item_type q"
    and r: "dec (item_data p) @ CHR '':'' # dec_nat (length (item_nbt p)) @ CHR '':'' # map char_of_byte (item_nbt p) =
      dec (item_data q) @ CHR '':'' # dec_nat (length (item_nbt q)) @ CHR '':'' # map char_of_byte (item_nbt q)"
    using dec_nat_inj by auto
  from separator_split [OF r] have d: "dec (item_data p) = dec (item_data q)"
    and n: "dec_nat (length (item_nbt p)) @ CHR '':'' # map char_of_byte (item_nbt p) =
      dec_nat (length (item_nbt q)) @ CHR '':'' # map char_of_byte (item_nbt q)" by simp_all
  from separator_split [OF n] show ?thesis using ty d dec_inj map_char_of_byte_inj by auto
qed


section \<open>The invariant\<close>

definition book_item :: "book_row \<Rightarrow> ItemPrototype" where
  "book_item b = \<lparr>item_type = b_type b, item_data = b_data b, item_nbt = b_nbt b, item_name = b_name b\<rparr>"

definition books_ok :: "(string \<Rightarrow> string) \<Rightarrow> db \<Rightarrow> bool" where
  "books_ok sha s \<longleftrightarrow> distinct (map b_id (books s)) \<and> distinct (map b_hash (books s)) \<and>
    (\<forall>b \<in> set (books s). b_hash b = sha (item_fingerprint (book_item b)))"

definition market_booked :: "db \<Rightarrow> market_row \<Rightarrow> bool" where
  "market_booked s m \<longleftrightarrow> (\<exists>b \<in> set (books s). b_id b = mk_book m \<and> same_item (mk_item m) b)"

definition bound_to :: "db \<Rightarrow> string \<Rightarrow> Id \<Rightarrow> bool" where
  "bound_to s t i \<longleftrightarrow> \<lparr>bd_target = t, bd_market = i\<rparr> \<in> set (bindings s)"

text \<open>
  Bindings and active markets are in step: a target is bound to one market, and exactly the
  active markets are bound, each to its own target.
\<close>

definition bindings_ok :: "db \<Rightarrow> bool" where
  "bindings_ok s \<longleftrightarrow> distinct (map bd_target (bindings s)) \<and>
    (\<forall>m \<in> set (markets s). mk_active m \<longleftrightarrow> bound_to s (mk_target m) (mk_id m)) \<and>
    (\<forall>b \<in> set (bindings s). \<exists>m \<in> set (markets s). mk_id m = bd_market b \<and> mk_target m = bd_target b)"

text \<open>A closed market waits to be resumed; there is never a choice of which one.\<close>

definition live :: "market_row \<Rightarrow> bool" where
  "live m \<longleftrightarrow> mk_active m \<or> mk_reopenable m"

definition place_of :: "market_row \<Rightarrow> string \<times> TargetKind \<times> Id" where
  "place_of m = (mk_target m, mk_kind m, mk_book m)"

definition live_unique :: "db \<Rightarrow> bool" where
  "live_unique s \<longleftrightarrow> (\<forall>m \<in> set (markets s). \<forall>m' \<in> set (markets s).
     live m \<and> live m' \<and> place_of m = place_of m' \<longrightarrow> m = m')"

definition markets_ok :: "(string \<Rightarrow> string) \<Rightarrow> db \<Rightarrow> bool" where
  "markets_ok sha s \<longleftrightarrow> distinct (map mk_id (markets s)) \<and> books_ok sha s \<and>
    (\<forall>m \<in> set (markets s). market_booked s m \<and> \<not> (mk_active m \<and> mk_reopenable m)) \<and> bindings_ok s \<and>
    live_unique s"

lemma markets_okD:
  assumes "markets_ok sha s"
  shows "distinct (map mk_id (markets s))" "books_ok sha s" "bindings_ok s"
    "m \<in> set (markets s) \<Longrightarrow> market_booked s m"
    "m \<in> set (markets s) \<Longrightarrow> mk_active m \<Longrightarrow> \<not> mk_reopenable m" "live_unique s"
  using assms by (auto simp: markets_ok_def)

lemma books_ok_cong: "books s' = books s \<Longrightarrow> books_ok sha s' = books_ok sha s"
  by (simp add: books_ok_def)

lemma market_of_Some: "market_of s i = Some m \<Longrightarrow> m \<in> set (markets s) \<and> mk_id m = i"
  unfolding market_of_def by (rule find_key_in)

lemma market_of_unique:
  "distinct (map mk_id (markets s)) \<Longrightarrow> m \<in> set (markets s) \<Longrightarrow> market_of s (mk_id m) = Some m"
  unfolding market_of_def by (rule find_key_distinct)

text \<open>Books identify items, although nothing is assumed of the hash.\<close>

lemma item_fingerprint_cong:
  "same_item p b \<Longrightarrow> item_fingerprint (book_item b) = item_fingerprint p"
  by (simp add: same_item_def item_fingerprint_def book_item_def)

lemma same_book_iff:
  assumes "markets_ok sha s" and "m \<in> set (markets s)" and "m' \<in> set (markets s)"
  shows "mk_book m = mk_book m' \<longleftrightarrow> item_type (mk_item m) = item_type (mk_item m') \<and>
    item_data (mk_item m) = item_data (mk_item m') \<and> item_nbt (mk_item m) = item_nbt (mk_item m')"
proof -
  note B = markets_okD(2) [OF assms(1), unfolded books_ok_def]
  from markets_okD(4) [OF assms(1,2)] obtain b where b: "b \<in> set (books s)" "b_id b = mk_book m"
    "same_item (mk_item m) b" by (auto simp: market_booked_def)
  from markets_okD(4) [OF assms(1,3)] obtain b' where b': "b' \<in> set (books s)" "b_id b' = mk_book m'"
    "same_item (mk_item m') b'" by (auto simp: market_booked_def)
  show ?thesis
  proof
    assume "mk_book m = mk_book m'"
    then have "b = b'" using distinct_key_eq [of b_id "books s" b b'] B b b' by simp
    then show "item_type (mk_item m) = item_type (mk_item m') \<and>
        item_data (mk_item m) = item_data (mk_item m') \<and> item_nbt (mk_item m) = item_nbt (mk_item m')"
      using b b' by (simp add: same_item_def)
  next
    assume "item_type (mk_item m) = item_type (mk_item m') \<and>
        item_data (mk_item m) = item_data (mk_item m') \<and> item_nbt (mk_item m) = item_nbt (mk_item m')"
    then have "b_hash b = b_hash b'"
      using B b b' item_fingerprint_cong [OF b(3)] item_fingerprint_cong [OF b'(3)]
      by (simp add: item_fingerprint_def)
    then have "b = b'" using distinct_key_eq [of b_hash "books s" b b'] B b b' by simp
    with b b' show "mk_book m = mk_book m'" by simp
  qed
qed

subsection \<open>What a market operation leaves of the rest\<close>

definition market_frame :: "db \<Rightarrow> db \<Rightarrow> bool" where
  "market_frame s s' \<longleftrightarrow> accounts s' = accounts s \<and> ledger s' = ledger s \<and> orders s' = orders s \<and>
    trades s' = trades s \<and> deliveries s' = deliveries s \<and> claims s' = claims s \<and>
    escrows s' = escrows s \<and> transfers s' = transfers s \<and> listings s' = listings s \<and>
    frame_bindings s' = frame_bindings s \<and> db_now s' = db_now s \<and>
    (\<forall>i m. market_of s i = Some m \<longrightarrow> (\<exists>m'. market_of s' i = Some m' \<and> mk_book m' = mk_book m \<and>
      mk_item m' = mk_item m \<and> mk_target m' = mk_target m))"

lemma market_frame_refl [simp]: "market_frame s s"
  by (simp add: market_frame_def)

lemma market_frame_trans: "market_frame s s1 \<Longrightarrow> market_frame s1 s2 \<Longrightarrow> market_frame s s2"
  unfolding market_frame_def by (metis (no_types, lifting))

lemma market_frame_on_book:
  "market_frame s s' \<Longrightarrow> market_of s i \<noteq> None \<Longrightarrow> on_book s' b i = on_book s b i"
  unfolding market_frame_def on_book_def book_id_of_def by fastforce

lemma market_frame_money_ok: "market_frame s s' \<Longrightarrow> money_ok s' = money_ok s"
  by (simp add: market_frame_def money_ok_def accounts_ok_def ledger_ok_def ledger_sum_def balance_of_def
      account_of_def)

lemma market_frame_trading:
  assumes fr: "market_frame s s'" and ok: "trading_ok s"
  shows "trading_ok s'" "money_supply s' = money_supply s"
proof -
  have os: "orders s' = orders s" and acc: "account_of s' = account_of s"
    using fr by (simp_all add: market_frame_def account_of_def fun_eq_iff)
  have refs: "market_of s (o_market x) \<noteq> None \<and> market_of s' (o_market x) \<noteq> None \<and>
      account_of s (o_player x) \<noteq> None" if "x \<in> set (orders s)" for x
    using orders_okD(3) [OF trading_okD(2) [OF ok] that] fr unfolding market_frame_def order_refs_def
    by fastforce
  have "orders_ok s'"
    using trading_okD(2) [OF ok] refs by (simp add: orders_ok_def os order_refs_def acc del: not_None_eq)
  moreover have "uncrossed s'"
    unfolding uncrossed_def os
    using uncrossedD [OF trading_okD(3) [OF ok]] refs market_frame_on_book [OF fr] by blast
  ultimately show "trading_ok s'"
    using trading_okD(1) [OF ok] market_frame_money_ok [OF fr] by (simp add: trading_ok_def)
  show "money_supply s' = money_supply s"
    using fr by (simp add: money_supply_def total_balance_def reserved_total_def market_frame_def)
qed

interpretation market_update: keyed_update mk_id "set_active act reopen" for act reopen
  by unfold_locales (simp add: set_active_def)

lemma set_active_fields [simp]:
  "mk_id (set_active a r m) = mk_id m" "mk_book (set_active a r m) = mk_book m"
  "mk_item (set_active a r m) = mk_item m" "mk_target (set_active a r m) = mk_target m"
  "mk_kind (set_active a r m) = mk_kind m"
  "mk_active (set_active a r m) = a" "mk_reopenable (set_active a r m) = r"
  by (simp_all add: set_active_def)

lemma market_frame_set_active:
  "market_frame s (s\<lparr>markets := upd_where (\<lambda>m. mk_id m = i) (set_active a r) (markets s), bindings := bs\<rparr>)"
  by (auto simp: market_frame_def market_of_def market_update.find_upd)

lemma market_frame_add:
  assumes "mk_id m = fresh_id mk_id (markets s)"
  shows "market_frame s (s\<lparr>books := bk, markets := markets s @ [m], bindings := bs\<rparr>)"
  by (auto simp: market_frame_def market_of_def find_append)


section \<open>Activating\<close>

lemma bindTarget_Inr:
  "bindTarget t i s = (Inr x, s') \<longleftrightarrow>
    (\<forall>b \<in> set (bindings s). bd_target b \<noteq> t \<and> bd_market b \<noteq> i) \<and>
    s' = s\<lparr>bindings := bindings s @ [\<lparr>bd_target = t, bd_market = i\<rparr>]\<rparr>"
  by (auto simp: bindTarget_def svc_simps)

lemma upsertBook_effect:
  assumes ok: "books_ok sha s" and run: "upsertBook sha p s = (Inr i, s')"
  shows "books_ok sha s'" "\<exists>bk. s' = s\<lparr>books := books s @ bk\<rparr>"
proof -
  let ?h = "sha (item_fingerprint p)"
  consider "s' = s" | "find (\<lambda>b. b_hash b = ?h) (books s) = None"
      "s' = s\<lparr>books := books s @ [\<lparr>b_id = fresh_id b_id (books s), b_type = item_type p,
        b_data = item_data p, b_nbt = item_nbt p, b_name = item_name p, b_hash = ?h\<rparr>]\<rparr>"
    using run by (auto simp: upsertBook_def svc_simps split: option.splits)
  then have "books_ok sha s' \<and> (\<exists>bk. s' = s\<lparr>books := books s @ bk\<rparr>)"
  proof cases
    case 1
    then show ?thesis using ok by (intro conjI exI [of _ "[]"]) simp_all
  next
    case 2
    from 2(1) have "?h \<notin> set (map b_hash (books s))" by (auto simp: find_None_iff)
    with ok 2 show ?thesis
      by (auto simp: books_ok_def fresh_id_neq item_fingerprint_def book_item_def)
  qed
  then show "books_ok sha s'" "\<exists>bk. s' = s\<lparr>books := books s @ bk\<rparr>" by auto
qed

text \<open>
  A successful activation either resumes the latest closed market of the target on the same item
  or creates a market under a fresh id; both bind the target.
\<close>

definition activated :: "Market \<Rightarrow> Id \<Rightarrow> db \<Rightarrow> db \<Rightarrow> bool" where
  "activated m i s s' \<longleftrightarrow> (\<exists>b bk. \<exists>k \<in> set (books s @ bk). b_id k = b \<and> same_item (m_item m) k \<and>
     (\<forall>bd \<in> set (bindings s). bd_target bd \<noteq> m_target_key m \<and> bd_market bd \<noteq> i) \<and>
     ((\<exists>r \<in> set (resumable_markets s b m). mk_id r = i \<and> s' = s\<lparr>books := books s @ bk,
         markets := upd_where (\<lambda>x. mk_id x = i) (set_active True False) (markets s),
         bindings := bindings s @ [\<lparr>bd_target = m_target_key m, bd_market = i\<rparr>]\<rparr>) \<or>
      (resumable_markets s b m = [] \<and> i = fresh_id mk_id (markets s) \<and>
       s' = s\<lparr>books := books s @ bk, markets := markets s @ [new_market i b m],
         bindings := bindings s @ [\<lparr>bd_target = m_target_key m, bd_market = i\<rparr>]\<rparr>)))"

lemma resumable_books [simp]: "resumable_markets (s\<lparr>books := bk\<rparr>) b m = resumable_markets s b m"
  by (simp add: resumable_markets_def)

lemma activate_body_effect:
  assumes ok: "books_ok sha s" and run: "activate_body sha m s = (Inr i, s')"
  shows "activated m i s s' \<and> books_ok sha s'"
proof -
  from run obtain b s1 where free: "\<forall>bd \<in> set (bindings s). bd_target bd \<noteq> m_target_key m"
    and u: "upsertBook sha (m_item m) s = (Inr b, s1)"
    and found: "filter (\<lambda>k. b_id k = b \<and> same_item (m_item m) k) (books s1) \<noteq> []"
    and rest: "(case rev (sort_key mk_id (resumable_markets s1 b m)) of r # _ \<Rightarrow>
      bindS (updateMarket (mk_id r) (set_active True False)) (\<lambda>_.
      bindS (bindTarget (m_target_key m) (mk_id r)) (\<lambda>_. returnS (mk_id r)))
    | [] \<Rightarrow>
      bindS (queryS (\<lambda>s. fresh_id mk_id (markets s))) (\<lambda>i.
      bindS (executeS (\<lambda>s. s\<lparr>markets := markets s @ [new_market i b m]\<rparr>)) (\<lambda>_.
      bindS (bindTarget (m_target_key m) i) (\<lambda>_. returnS i)))) s1 = (Inr i, s')"
    unfolding activate_body_def
    by (elim bindS_InrE) (auto simp: queryS_Inr throwIf_Inr filter_empty_conv)
  from upsertBook_effect [OF ok u] obtain bk where s1: "s1 = s\<lparr>books := books s @ bk\<rparr>"
    and ok1: "books_ok sha s1" by blast
  from found obtain k where k: "k \<in> set (books s @ bk)" "b_id k = b" "same_item (m_item m) k"
    by (auto simp: filter_empty_conv s1)
  have res: "resumable_markets s1 b m = resumable_markets s b m" by (simp add: s1)
  show ?thesis
  proof (cases "rev (sort_key mk_id (resumable_markets s b m))")
    case Nil
    then have none: "resumable_markets s b m = []"
      by (metis length_0_conv length_rev length_sort)
    from rest Nil have i: "i = fresh_id mk_id (markets s)"
      and nb: "\<forall>bd \<in> set (bindings s). bd_market bd \<noteq> i"
      and s': "s' = s\<lparr>books := books s @ bk, markets := markets s @ [new_market i b m],
         bindings := bindings s @ [\<lparr>bd_target = m_target_key m, bd_market = i\<rparr>]\<rparr>"
      by (auto simp: res s1 bindS_Inr queryS_Inr executeS_Inr bindTarget_Inr returnS_Inr)
    have "activated m i s s'"
      unfolding activated_def using k free i nb s' none by blast
    moreover have "books_ok sha s'" using ok1 books_ok_cong [of s' s1] by (simp add: s' s1)
    ultimately show ?thesis ..
  next
    case (Cons r rs)
    then have "r \<in> set (resumable_markets s b m)"
      by (metis list.set_intros(1) set_rev set_sort)
    moreover from rest Cons have i: "i = mk_id r"
      and nb: "\<forall>bd \<in> set (bindings s). bd_market bd \<noteq> i"
      and s': "s' = s\<lparr>books := books s @ bk,
         markets := upd_where (\<lambda>x. mk_id x = i) (set_active True False) (markets s),
         bindings := bindings s @ [\<lparr>bd_target = m_target_key m, bd_market = i\<rparr>]\<rparr>"
      by (auto simp: res s1 bindS_Inr updateMarket_def executeS_Inr bindTarget_Inr returnS_Inr)
    ultimately have "activated m i s s'"
      unfolding activated_def using k free by blast
    moreover have "books_ok sha s'" using ok1 books_ok_cong [of s' s1] by (simp add: s' s1)
    ultimately show ?thesis ..
  qed
qed

lemma market_booked_more:
  "market_booked s m \<Longrightarrow> books s' = books s @ bk \<Longrightarrow> mk_book m' = mk_book m \<Longrightarrow>
    mk_item m' = mk_item m \<Longrightarrow> market_booked s' m'"
  by (auto simp: market_booked_def)

lemma activated_resumed:
  assumes ok: "markets_ok sha s" and r: "r \<in> set (resumable_markets s b m)"
    and free: "\<forall>bd \<in> set (bindings s). bd_target bd \<noteq> m_target_key m \<and> bd_market bd \<noteq> mk_id r"
    and bk: "books_ok sha s'"
    and s': "s' = s\<lparr>books := books s @ k, markets := upd_where (\<lambda>x. mk_id x = mk_id r) (set_active True False) (markets s),
         bindings := bindings s @ [\<lparr>bd_target = m_target_key m, bd_market = mk_id r\<rparr>]\<rparr>"
  shows "markets_ok sha s'"
proof -
  note M = markets_okD [OF ok]
  have rm: "r \<in> set (markets s)" "mk_target r = m_target_key m" using r by (auto simp: resumable_markets_def)
  have set': "set (markets s') = insert (set_active True False r) (set (markets s) - {r})"
    using market_update.set_upd_key [OF M(1) rm(1)] by (simp add: s')
  have bks: "books s' = books s @ k" by (simp add: s')
  have other: "mk_id x \<noteq> mk_id r" if "x \<in> set (markets s) - {r}" for x
    using distinct_key_eq [OF M(1), of x r] that rm(1) by auto
  have bound': "bound_to s' t i \<longleftrightarrow> bound_to s t i \<or> (t = m_target_key m \<and> i = mk_id r)" for t i
    by (auto simp: bound_to_def s')
  have B: "distinct (map bd_target (bindings s))"
      "\<And>m. m \<in> set (markets s) \<Longrightarrow> mk_active m \<longleftrightarrow> bound_to s (mk_target m) (mk_id m)"
      "\<And>b. b \<in> set (bindings s) \<Longrightarrow> \<exists>m \<in> set (markets s). mk_id m = bd_market b \<and> mk_target m = bd_target b"
    using M(3) by (auto simp: bindings_ok_def)
  have "bindings_ok s'"
    unfolding bindings_ok_def
  proof (intro conjI ballI)
    show "distinct (map bd_target (bindings s'))" using B(1) free by (auto simp: s')
    fix x assume "x \<in> set (markets s')"
    then show "mk_active x \<longleftrightarrow> bound_to s' (mk_target x) (mk_id x)"
      using B(2) other rm by (auto simp: set' bound')
  next
    fix bd assume "bd \<in> set (bindings s')"
    then consider "bd \<in> set (bindings s)" | "bd = \<lparr>bd_target = m_target_key m, bd_market = mk_id r\<rparr>"
      by (auto simp: s')
    then show "\<exists>x \<in> set (markets s'). mk_id x = bd_market bd \<and> mk_target x = bd_target bd"
    proof cases
      case 1
      from B(3) [OF 1] obtain x where x: "x \<in> set (markets s)" "mk_id x = bd_market bd" "mk_target x = bd_target bd"
        by blast
      have "x \<noteq> r" using free 1 x(3) rm(2) by auto
      with x show ?thesis by (auto simp: set')
    qed (use rm in \<open>simp add: set'\<close>)
  qed
  moreover have booked: "market_booked s' x" if "x \<in> set (markets s)" for x
    by (rule market_booked_more [OF M(4) [OF that] bks]) simp_all
  have booked_r: "market_booked s' (set_active True False r)"
    by (rule market_booked_more [OF M(4) [OF rm(1)] bks]) simp_all
  have "market_booked s' x \<and> \<not> (mk_active x \<and> mk_reopenable x)" if "x \<in> set (markets s')" for x
    using that M(5) booked booked_r by (auto simp: set')
  moreover have "live_unique s'"
    using M(6) rm(1) r by (auto simp: live_unique_def set' live_def place_of_def resumable_markets_def)
  moreover have "distinct (map mk_id (markets s'))" using M(1) by (simp add: s')
  ultimately show ?thesis using bk by (simp add: markets_ok_def)
qed

lemma activated_new:
  assumes ok: "markets_ok sha s" and none: "resumable_markets s b m = []" and i: "i = fresh_id mk_id (markets s)"
    and free: "\<forall>bd \<in> set (bindings s). bd_target bd \<noteq> m_target_key m \<and> bd_market bd \<noteq> i"
    and bk: "books_ok sha s'" and kb: "kb \<in> set (books s @ k)" "b_id kb = b" "same_item (m_item m) kb"
    and s': "s' = s\<lparr>books := books s @ k, markets := markets s @ [new_market i b m],
         bindings := bindings s @ [\<lparr>bd_target = m_target_key m, bd_market = i\<rparr>]\<rparr>"
  shows "markets_ok sha s'"
proof -
  note M = markets_okD [OF ok]
  have fresh: "mk_id x \<noteq> i" if "x \<in> set (markets s)" for x
    using that by (simp add: i fresh_id_neq)
  have bks: "books s' = books s @ k" by (simp add: s')
  have ms: "set (markets s') = insert (new_market i b m) (set (markets s))" by (simp add: s')
  have bound': "bound_to s' t j \<longleftrightarrow> bound_to s t j \<or> (t = m_target_key m \<and> j = i)" for t j
    by (auto simp: bound_to_def s')
  have B: "distinct (map bd_target (bindings s))"
      "\<And>m. m \<in> set (markets s) \<Longrightarrow> mk_active m \<longleftrightarrow> bound_to s (mk_target m) (mk_id m)"
      "\<And>b. b \<in> set (bindings s) \<Longrightarrow> \<exists>m \<in> set (markets s). mk_id m = bd_market b \<and> mk_target m = bd_target b"
    using M(3) by (auto simp: bindings_ok_def)
  have "bindings_ok s'"
    unfolding bindings_ok_def
  proof (intro conjI ballI)
    show "distinct (map bd_target (bindings s'))" using B(1) free by (auto simp: s')
    fix x assume "x \<in> set (markets s')"
    then show "mk_active x \<longleftrightarrow> bound_to s' (mk_target x) (mk_id x)"
      using B(2) fresh by (auto simp: bound' ms new_market_def)
  next
    fix bd assume "bd \<in> set (bindings s')"
    then show "\<exists>x \<in> set (markets s'). mk_id x = bd_market bd \<and> mk_target x = bd_target bd"
      using B(3) by (fastforce simp: s' new_market_def)
  qed
  moreover have "market_booked s' x \<and> \<not> (mk_active x \<and> mk_reopenable x)" if "x \<in> set (markets s')" for x
    using that M(4,5) kb market_booked_more [OF _ bks]
    by (auto simp: ms new_market_def market_booked_def bks)
  moreover have fresh_place: "\<not> (live x \<and> place_of x = place_of (new_market i b m))"
    if "x \<in> set (markets s)" for x
  proof
    assume x: "live x \<and> place_of x = place_of (new_market i b m)"
    then have "\<not> mk_active x"
      using B(2) [OF that] free by (auto simp: bound_to_def place_of_def new_market_def)
    with x that none show False
      by (auto simp: live_def place_of_def new_market_def resumable_markets_def filter_empty_conv)
  qed
  then have fresh_place': "\<not> (live x \<and> place_of (new_market i b m) = place_of x)"
    if "x \<in> set (markets s)" for x using that by metis
  have "live_unique s'" using M(6) fresh_place fresh_place' by (auto simp: live_unique_def ms)
  moreover have "distinct (map mk_id (markets s'))" using M(1) fresh by (auto simp: s' new_market_def)
  ultimately show ?thesis using bk by (simp add: markets_ok_def)
qed

lemma activated_effect:
  assumes ok: "markets_ok sha s" and act: "activated m i s s'" and bk: "books_ok sha s'"
  shows "markets_ok sha s'" "market_frame s s'"
    "\<exists>x. market_of s' i = Some x \<and> mk_active x \<and> mk_target x = m_target_key m \<and> mk_kind x = m_target_kind m \<and>
      item_type (mk_item x) = item_type (m_item m) \<and> item_data (mk_item x) = item_data (m_item m) \<and>
      item_nbt (mk_item x) = item_nbt (m_item m)"
    "bound_to s' (m_target_key m) i"
proof -
  from act obtain b k kb where kb: "kb \<in> set (books s @ k)" "b_id kb = b" "same_item (m_item m) kb"
    and free: "\<forall>bd \<in> set (bindings s). bd_target bd \<noteq> m_target_key m \<and> bd_market bd \<noteq> i"
    and cs: "(\<exists>r \<in> set (resumable_markets s b m). mk_id r = i \<and> s' = s\<lparr>books := books s @ k,
         markets := upd_where (\<lambda>x. mk_id x = i) (set_active True False) (markets s),
         bindings := bindings s @ [\<lparr>bd_target = m_target_key m, bd_market = i\<rparr>]\<rparr>) \<or>
      (resumable_markets s b m = [] \<and> i = fresh_id mk_id (markets s) \<and>
       s' = s\<lparr>books := books s @ k, markets := markets s @ [new_market i b m],
         bindings := bindings s @ [\<lparr>bd_target = m_target_key m, bd_market = i\<rparr>]\<rparr>)"
    unfolding activated_def by blast
  have "markets_ok sha s' \<and> market_frame s s' \<and>
    (\<exists>x. market_of s' i = Some x \<and> mk_active x \<and> mk_target x = m_target_key m \<and> mk_kind x = m_target_kind m \<and>
      mk_book x = b \<and> mk_id x = i) \<and> bound_to s' (m_target_key m) i"
    using cs
  proof (elim disjE bexE conjE)
    fix r assume r: "r \<in> set (resumable_markets s b m)" "mk_id r = i"
      and s': "s' = s\<lparr>books := books s @ k, markets := upd_where (\<lambda>x. mk_id x = i) (set_active True False) (markets s),
         bindings := bindings s @ [\<lparr>bd_target = m_target_key m, bd_market = i\<rparr>]\<rparr>"
    have "market_frame s (s\<lparr>books := books s @ k\<rparr>)" by (simp add: market_frame_def)
    moreover have "market_frame (s\<lparr>books := books s @ k\<rparr>) s'"
      using market_frame_set_active [of "s\<lparr>books := books s @ k\<rparr>"] by (simp add: s')
    ultimately have "market_frame s s'" by (rule market_frame_trans)
    moreover have rm: "r \<in> set (markets s)" "mk_target r = m_target_key m" "mk_kind r = m_target_kind m" "mk_book r = b"
      using r by (auto simp: resumable_markets_def)
    have "market_of s' i = Some (set_active True False r)"
      using market_of_unique [OF markets_okD(1) [OF ok] rm(1)] r(2)
      by (simp add: s' market_of_def market_update.find_upd)
    moreover have "bound_to s' (m_target_key m) i" by (simp add: s' bound_to_def)
    ultimately show ?thesis
      using activated_resumed [OF ok r(1) _ bk] free s' rm r(2) by simp
  next
    assume none: "resumable_markets s b m = []" and i: "i = fresh_id mk_id (markets s)"
      and s': "s' = s\<lparr>books := books s @ k, markets := markets s @ [new_market i b m],
         bindings := bindings s @ [\<lparr>bd_target = m_target_key m, bd_market = i\<rparr>]\<rparr>"
    have "market_frame s s'"
      using market_frame_add [of "new_market i b m" s,
          where bs = "bindings s @ [\<lparr>bd_target = m_target_key m, bd_market = i\<rparr>]" and bk = "books s @ k"] i by (simp add: s' new_market_def)
    moreover have "find (\<lambda>x. mk_id x = i) (markets s) = None"
      using i by (auto simp: find_None_iff fresh_id_neq)
    then have "market_of s' i = Some (new_market i b m)"
      by (simp add: s' market_of_def find_append new_market_def)
    moreover have "bound_to s' (m_target_key m) i" by (simp add: s' bound_to_def)
    ultimately show ?thesis
      using activated_new [OF ok none i free bk kb s'] by (simp add: new_market_def)
  qed
  then obtain x where mok: "markets_ok sha s'" and fr: "market_frame s s'"
    and x: "market_of s' i = Some x" "mk_active x" "mk_target x = m_target_key m" "mk_kind x = m_target_kind m"
      "mk_book x = b" and bd: "bound_to s' (m_target_key m) i" by blast
  show "markets_ok sha s'" "market_frame s s'" "bound_to s' (m_target_key m) i" by (fact mok fr bd)+
  have "x \<in> set (markets s')" using x(1) by (simp add: market_of_Some)
  with markets_okD(4) [OF mok] obtain kx where kx: "kx \<in> set (books s')" "b_id kx = b" "same_item (mk_item x) kx"
    using x(5) by (auto simp: market_booked_def)
  have "books s' = books s @ k" using cs by auto
  then have "kx = kb"
    using distinct_key_eq [of b_id "books s'" kx kb] kx kb bk by (simp add: books_ok_def)
  then show "\<exists>x. market_of s' i = Some x \<and> mk_active x \<and> mk_target x = m_target_key m \<and> mk_kind x = m_target_kind m \<and>
      item_type (mk_item x) = item_type (m_item m) \<and> item_data (mk_item x) = item_data (m_item m) \<and>
      item_nbt (mk_item x) = item_nbt (m_item m)"
    using x kx(3) kb(3) by (auto simp: same_item_def)
qed


section \<open>Closing and retiring\<close>

definition unbind :: "string \<Rightarrow> Id \<Rightarrow> binding_row \<Rightarrow> bool" where
  "unbind t i b \<longleftrightarrow> bd_target b = t \<and> bd_market b = i"

definition deactivated :: "market_row \<Rightarrow> bool \<Rightarrow> db \<Rightarrow> db" where
  "deactivated m reopen s = s\<lparr>
     markets := upd_where (\<lambda>x. mk_id x = mk_id m) (set_active False reopen) (markets s),
     bindings := del_where (unbind (mk_target m) (mk_id m)) (bindings s)\<rparr>"

lemma in_del_where [simp]: "x \<in> set (del_where P xs) \<longleftrightarrow> x \<in> set xs \<and> \<not> P x"
  by (simp add: del_where_def)

lemma distinct_del_where: "distinct (map key xs) \<Longrightarrow> distinct (map key (del_where P xs))"
  by (induction xs) (auto simp: del_where_def)

lemma binding_eq: "b = \<lparr>bd_target = t, bd_market = i\<rparr> \<longleftrightarrow> bd_target b = t \<and> bd_market b = i"
  by (cases b) simp

lemma bound_to_row: "b \<in> set (bindings s) \<Longrightarrow> bound_to s (bd_target b) (bd_market b)"
  by (cases b) (simp add: bound_to_def)

lemma deactivated_ok:
  assumes ok: "markets_ok sha s" and m: "m \<in> set (markets s)" and reopen: "reopen \<Longrightarrow> mk_active m"
  shows "markets_ok sha (deactivated m reopen s)" "market_frame s (deactivated m reopen s)"
    "market_of (deactivated m reopen s) (mk_id m) = Some (set_active False reopen m)"
    "bd \<in> set (bindings (deactivated m reopen s)) \<Longrightarrow> bd_market bd \<noteq> mk_id m"
proof -
  let ?s' = "deactivated m reopen s"
  note M = markets_okD [OF ok]
  have set': "set (markets ?s') = insert (set_active False reopen m) (set (markets s) - {m})"
    using market_update.set_upd_key [OF M(1) m] by (simp add: deactivated_def)
  have other: "mk_id x \<noteq> mk_id m" if "x \<in> set (markets s) - {m}" for x
    using distinct_key_eq [OF M(1), of x m] that m by auto
  have bs: "bindings ?s' = del_where (unbind (mk_target m) (mk_id m)) (bindings s)" by (simp add: deactivated_def)
  have bound': "bound_to ?s' t i \<longleftrightarrow> bound_to s t i \<and> \<not> (t = mk_target m \<and> i = mk_id m)" for t i
    by (auto simp: bound_to_def bs unbind_def)
  have B: "distinct (map bd_target (bindings s))"
      "\<And>m. m \<in> set (markets s) \<Longrightarrow> mk_active m \<longleftrightarrow> bound_to s (mk_target m) (mk_id m)"
      "\<And>b. b \<in> set (bindings s) \<Longrightarrow> \<exists>m \<in> set (markets s). mk_id m = bd_market b \<and> mk_target m = bd_target b"
    using M(3) by (auto simp: bindings_ok_def)
  have own: "unbind (mk_target m) (mk_id m) b" if "b \<in> set (bindings s)" "bd_market b = mk_id m" for b
  proof -
    from B(3) [OF that(1)] obtain y where y: "y \<in> set (markets s)" "mk_id y = bd_market b"
      "mk_target y = bd_target b" by blast
    then have "y = m" using other [of y] that(2) by auto
    with y show ?thesis by (simp add: unbind_def)
  qed
  have "bindings_ok ?s'"
    unfolding bindings_ok_def
  proof (intro conjI ballI)
    show "distinct (map bd_target (bindings ?s'))" unfolding bs by (rule distinct_del_where [OF B(1)])
    fix x assume "x \<in> set (markets ?s')"
    then show "mk_active x \<longleftrightarrow> bound_to ?s' (mk_target x) (mk_id x)"
      using B(2) other by (auto simp: set' bound')
  next
    fix b assume b: "b \<in> set (bindings ?s')"
    then obtain x where x: "x \<in> set (markets s)" "mk_id x = bd_market b" "mk_target x = bd_target b"
      using B(3) by (auto simp: bs)
    moreover have "x \<noteq> m" using b own x by (auto simp: bs)
    ultimately show "\<exists>x \<in> set (markets ?s'). mk_id x = bd_market b \<and> mk_target x = bd_target b"
      by (auto simp: set')
  qed
  moreover have bks: "books ?s' = books s @ []" by (simp add: deactivated_def)
  have booked: "market_booked ?s' x" if "x \<in> set (markets s)" for x
    by (rule market_booked_more [OF M(4) [OF that] bks]) simp_all
  have booked_m: "market_booked ?s' (set_active False reopen m)"
    by (rule market_booked_more [OF M(4) [OF m] bks]) simp_all
  have "market_booked ?s' x \<and> \<not> (mk_active x \<and> mk_reopenable x)" if "x \<in> set (markets ?s')" for x
    using that M(5) booked booked_m by (auto simp: set')
  moreover have "live_unique ?s'"
    using M(6) m reopen by (auto simp: live_unique_def set' live_def place_of_def)
  moreover have "distinct (map mk_id (markets ?s'))" using M(1) by (simp add: deactivated_def)
  moreover have "books_ok sha ?s'" using M(2) books_ok_cong [of ?s' s] bks by simp
  ultimately show "markets_ok sha ?s'" by (simp add: markets_ok_def)
  show "market_frame s ?s'" unfolding deactivated_def by (rule market_frame_set_active)
  show "market_of ?s' (mk_id m) = Some (set_active False reopen m)"
    using market_of_unique [OF M(1) m]
    by (simp add: deactivated_def market_of_def market_update.find_upd)
  show "bd_market bd \<noteq> mk_id m" if "bd \<in> set (bindings ?s')"
    using that own by (auto simp: bs)
qed

lemma on_book_deactivated:
  "on_book (s\<lparr>markets := upd_where (\<lambda>x. mk_id x = i) (set_active a r) (markets s)\<rparr>) = on_book s"
  by (auto simp: fun_eq_iff on_book_def book_id_of_def market_of_def market_update.find_upd)

lemma closeMarket_Inr:
  assumes ok: "markets_ok sha s" and run: "closeMarket i s = (Inr x, s')"
  obtains m where "market_of s i = Some m" "s' = (if mk_active m then deactivated m True s else s)"
proof -
  from run obtain m where m: "market_of s i = Some m"
    and s': "s' = (if mk_active m then deactivated m True s
      else s\<lparr>bindings := del_where (\<lambda>b. bd_market b = i) (bindings s)\<rparr>)"
    by (auto simp: closeMarket_def transactionS_Inr bindS_Inr queryS_Inr throwS_Inr returnS_Inr throwIf_Inr
        deleteBindings_def updateS_Inr updateMarket_def executeS_Inr deactivated_def unbind_def [abs_def]
        dest!: market_of_Some split: option.splits if_splits)
  note mm = market_of_Some [OF m]
  have "del_where (\<lambda>b. bd_market b = i) (bindings s) = bindings s" if "\<not> mk_active m"
  proof -
    have "bd_market b \<noteq> i" if b: "b \<in> set (bindings s)" for b
    proof
      assume i: "bd_market b = i"
      from markets_okD(3) [OF ok] b obtain y where y: "y \<in> set (markets s)" "mk_id y = bd_market b"
        "mk_target y = bd_target b" by (auto simp: bindings_ok_def)
      then have "y = m" using distinct_key_eq [OF markets_okD(1) [OF ok], of y m] mm i by simp
      moreover have "bound_to s (mk_target y) (mk_id y)" using b y bound_to_row [OF b] by simp
      ultimately show False
        using markets_okD(3) [OF ok] y(1) \<open>\<not> mk_active m\<close> by (simp add: bindings_ok_def)
    qed
    then show ?thesis by (auto simp: del_where_def filter_id_conv)
  qed
  with m s' that show thesis by auto
qed

text \<open>Closing every resting order of a market.\<close>

definition closes :: "Id list \<Rightarrow> order_row list \<Rightarrow> order_row list" where
  "closes ids os = map (\<lambda>y. if o_id y \<in> set ids then closed_row y else y) os"

lemma close_all_effect:
  assumes "trading_ok s" and "set rows \<subseteq> set (orders s)" and "distinct (map o_id rows)"
    and "mapS (\<lambda>x. close_order x refund reason) rows s = (Inr u, s')"
  shows "trading_ok s' \<and> money_supply s' = money_supply s \<and> items_held s' b = items_held s b \<and>
    trade_frame s s' \<and> orders s' = closes (map o_id rows) (orders s)"
  using assms
proof (induction rows arbitrary: s)
  case Nil
  then show ?case by (simp add: returnS_Inr closes_def)
next
  case (Cons x rows)
  from Cons.prems(4) obtain z s1 where c: "close_order x refund reason s = (Inr z, s1)"
    and rest: "mapS (\<lambda>x. close_order x refund reason) rows s1 = (Inr u, s')"
    by (auto simp: bindS_Inr)
  note T = trading_okD [OF Cons.prems(1)]
  have x: "x \<in> set (orders s)" using Cons.prems(2) by simp
  have C: "closed x reason s s1" by (rule close_order_effect [OF T(1) orders_okD(2) [OF T(2) x] c])
  have ok1: "trading_ok s1"
    using C closed_orders_ok [OF T(2) C] closed_uncrossed [OF T(3) C] by (simp add: trading_ok_def closed_def)
  have os1: "orders s1 = upd_where (\<lambda>y. o_id y = o_id x) closed_row (orders s)" and fr: "trade_frame s s1"
    using C by (simp_all add: closed_def)
  have "set rows \<subseteq> set (orders s1)"
  proof
    fix y assume y: "y \<in> set rows"
    then have "o_id y \<noteq> o_id x" "y \<in> set (orders s)" using Cons.prems(2,3) by (auto simp: image_iff)
    then show "y \<in> set (orders s1)" by (force simp: os1 in_upd_where)
  qed
  from Cons.IH [OF ok1 this _ rest] Cons.prems(3)
  have IH: "trading_ok s' \<and> money_supply s' = money_supply s1 \<and> items_held s' b = items_held s1 b \<and>
    trade_frame s1 s' \<and> orders s' = closes (map o_id rows) (orders s1)" by simp
  moreover have "closes (map o_id rows) (orders s1) = closes (map o_id (x # rows)) (orders s)"
    unfolding os1 closes_def upd_where_def by (auto simp: closed_row_def set_fill_reserved_def)
  ultimately show ?case
    using closed_money_supply [OF T(2) x C] closed_items_held [OF T(2) x C, of b] trade_frame_trans [OF fr] by auto
qed

lemma retireMarket_Inr:
  assumes run: "retireMarket i s = (Inr u, s')"
  obtains m rows s1 where "market_of s i = Some m"
    "rows = filter (\<lambda>x. o_market x = i \<and> resting x) (orders s)"
    "mapS (\<lambda>x. close_order x ''MARKET_CLOSE_REFUND'' ''MARKET_CLOSED'') rows s = (Inr (), s1)"
    "s' = deactivated m False s1"
proof -
  from run obtain m where m: "market_of s i = Some m"
    and run2: "bindS (mapS (\<lambda>x. close_order x ''MARKET_CLOSE_REFUND'' ''MARKET_CLOSED'')
        (filter (\<lambda>x. o_market x = i \<and> o_type x = Limit \<and> open_status (o_status x)) (orders s))) (\<lambda>_.
        bindS (deleteBindings (\<lambda>b. bd_target b = mk_target m \<and> bd_market b = i)) (\<lambda>affected.
        bindS (throwIf (mk_active m \<and> affected \<noteq> 1) binding_missing) (\<lambda>_.
        updateMarket i (set_active False False)))) s = (Inr u, s')"
    unfolding retireMarket_def transactionS_Inr
    by (elim bindS_InrE) (auto simp: queryS_Inr throwIf_Inr throwS_Inr bindS_Inr split: option.splits)
  then obtain s1 where "mapS (\<lambda>x. close_order x ''MARKET_CLOSE_REFUND'' ''MARKET_CLOSED'')
      (filter (\<lambda>x. o_market x = i \<and> resting x) (orders s)) s = (Inr (), s1)"
    and "s' = deactivated m False s1"
    using market_of_Some [OF m]
    by (auto simp: bindS_Inr deleteBindings_def updateS_Inr throwIf_Inr updateMarket_def executeS_Inr
        deactivated_def unbind_def [abs_def] resting_def [abs_def])
  with m that show thesis by blast
qed


section \<open>Properties\<close>

lemma activateMarket_run:
  assumes ok: "markets_ok sha s" and run: "activateMarket sha m s = (Inr a, s')"
  obtains i x where "activated m i s s'" "books_ok sha s'" "market_of s' i = Some x" "a = market_view x"
proof -
  from run obtain i where b: "activate_body sha m s = (Inr i, s')"
    and f: "findMarket i s' = (Inr (Some a), s')"
    by (auto simp: activateMarket_def bindS_Inr throwIf_Inr transactionS_Inr findMarket_def queryS_Inr
        throwS_Inr returnS_Inr split: option.splits)
  from activate_body_effect [OF markets_okD(2) [OF ok] b]
  have act: "activated m i s s'" "books_ok sha s'" by simp_all
  from f have "map_option market_view (market_of s' i) = Some a"
    by (simp add: findMarket_def queryS_def)
  then obtain x where "market_of s' i = Some x" "a = market_view x" by auto
  with act that show thesis by blast
qed

lemma bound_markets_mem:
  "(b, m) \<in> set (bound_markets s) \<longleftrightarrow> b \<in> set (bindings s) \<and> market_of s (bd_market b) = Some m"
  by (auto simp: bound_markets_def List.map_filter_def image_iff split: option.splits)

lemma findMarketByTarget_bound:
  assumes ok: "markets_ok sha s" and b: "bound_to s t i" and m: "market_of s i = Some x"
  shows "findMarketByTarget t s = (Inr (Some (market_view x)), s)"
proof -
  note B = markets_okD(3) [OF ok, unfolded bindings_ok_def] and mx = market_of_Some [OF m]
  have "\<lparr>bd_target = t, bd_market = i\<rparr> \<in> set (bindings s)" using b by (simp add: bound_to_def)
  moreover have "mk_target x = t"
  proof -
    from B calculation obtain y where "y \<in> set (markets s)" "mk_id y = i" "mk_target y = t" by force
    then show ?thesis using distinct_key_eq [OF markets_okD(1) [OF ok], of x y] mx by simp
  qed
  then have "mk_active x" using B mx b by simp
  ultimately have mem: "(\<lparr>bd_target = t, bd_market = i\<rparr>, x) \<in>
      set (filter (\<lambda>(b, m). bd_target b = t \<and> mk_active m) (bound_markets s))"
    using m by (simp add: bound_markets_mem)
  have only: "y = x" if "(b, y) \<in> set (filter (\<lambda>(b, m). bd_target b = t \<and> mk_active m) (bound_markets s))" for b y
  proof -
    from that have "b \<in> set (bindings s)" "bd_target b = t" "market_of s (bd_market b) = Some y"
      by (simp_all add: bound_markets_mem)
    moreover from this have "b = \<lparr>bd_target = t, bd_market = i\<rparr>"
      using distinct_key_eq [of bd_target "bindings s" b] B b by (simp add: bound_to_def)
    ultimately show ?thesis using m by simp
  qed
  obtain bh mh tl where "filter (\<lambda>(b, m). bd_target b = t \<and> mk_active m) (bound_markets s) = (bh, mh) # tl"
    using mem by (metis list.exhaust list.set_cases surj_pair)
  with only [of bh mh] show ?thesis by (simp add: findMarketByTarget_def queryS_def)
qed

text \<open>
  Activating a market, on success, keeps the market tables consistent (each target bound to at
  most one market, exactly the active markets bound, every market's book carrying its item), keeps
  the trading invariant and the money, and returns an active market of the requested target and
  item, which from then on is what \<open>findMarketByTarget\<close> finds.
\<close>

theorem activateMarket_binds:
  assumes "markets_ok sha s" and "trading_ok s" and "activateMarket sha m s = (Inr a, s')"
  shows "markets_ok sha s' \<and> trading_ok s' \<and> money_supply s' = money_supply s \<and> m_active a \<and>
    m_target_key a = m_target_key m \<and> m_target_kind a = m_target_kind m \<and>
    item_type (m_item a) = item_type (m_item m) \<and> item_data (m_item a) = item_data (m_item m) \<and>
    item_nbt (m_item a) = item_nbt (m_item m) \<and>
    findMarketByTarget (m_target_key m) s' = (Inr (Some a), s')"
proof -
  from activateMarket_run [OF assms(1,3)] obtain i x where act: "activated m i s s'" "books_ok sha s'"
    and x: "market_of s' i = Some x" "a = market_view x" by blast
  note A = activated_effect [OF assms(1) act]
  have "findMarketByTarget (m_target_key m) s' = (Inr (Some a), s')"
    using findMarketByTarget_bound [OF A(1) A(4) x(1)] x(2) by simp
  with A(1,3) x market_frame_trading [OF A(2) assms(2)] show ?thesis
    by (auto simp: market_view_def)
qed

definition demo_sha :: "string \<Rightarrow> string" where
  "demo_sha x = (if x = item_fingerprint demo_item then ''h'' else x)"

lemma demo_markets_ok: "markets_ok demo_sha demo_db"
  unfolding markets_ok_def books_ok_def bindings_ok_def live_unique_def market_booked_def by code_simp

definition demo_activation :: Market where
  "demo_activation = \<lparr>m_id = 0, m_book_id = 0, m_target_key = ''frame3'', m_target_kind = Block,
     m_dimension = ''Overworld'', m_block_x = Some 3, m_block_y = Some 64, m_block_z = Some 0,
     m_actor_id = None, m_item = demo_item, m_active = True, m_created_by = ''admin''\<rparr>"

definition demo_opened :: "Market \<times> db" where
  "demo_opened = (case activateMarket demo_sha demo_activation demo_db of (Inr a, s') \<Rightarrow> (a, s'))"

lemma demo_activate_run:
  "\<exists>a. activateMarket demo_sha demo_activation demo_db = (Inr a, snd (activateMarket demo_sha demo_activation demo_db))
    \<and> m_id a = 3 \<and> m_book_id a = 1"
proof -
  have "(case fst (activateMarket demo_sha demo_activation demo_db) of Inr a \<Rightarrow> m_id a = 3 \<and> m_book_id a = 1
    | Inl e \<Rightarrow> False)" by code_simp
  then obtain a where "fst (activateMarket demo_sha demo_activation demo_db) = Inr a" "m_id a = 3 \<and> m_book_id a = 1"
    by (auto split: sum.splits)
  then show ?thesis by (metis prod.collapse)
qed

theorem activateMarket_binds_witness:
  "\<exists>a s'. activateMarket demo_sha demo_activation demo_db = (Inr a, s') \<and> m_id a = 3 \<and> m_book_id a = 1 \<and>
    findMarketByTarget ''frame3'' s' = (Inr (Some a), s')"
proof -
  from demo_activate_run obtain a where
    a: "activateMarket demo_sha demo_activation demo_db = (Inr a, snd (activateMarket demo_sha demo_activation demo_db))"
    "m_id a = 3 \<and> m_book_id a = 1" by blast
  from activateMarket_binds [OF demo_markets_ok demo_trading_ok a(1)] a(2)
  have "findMarketByTarget (m_target_key demo_activation) (snd (activateMarket demo_sha demo_activation demo_db)) =
      (Inr (Some a), snd (activateMarket demo_sha demo_activation demo_db))" by blast
  moreover have "m_target_key demo_activation = ''frame3''" by (simp add: demo_activation_def)
  ultimately show ?thesis using a by (simp only:) blast
qed

text \<open>
  C12: Orders of different targets meet exactly when the targets trade the same item: after an
  activation, the new market shares its order book with another market if and only if both are
  about the same item type, data value and NBT bytes. The proof assumes nothing of the hash.
\<close>

theorem activateMarket_book_iff_item:
  assumes "markets_ok sha s" and "activateMarket sha m s = (Inr a, s')" and "x \<in> set (markets s')"
  shows "mk_book x = m_book_id a \<longleftrightarrow> item_type (mk_item x) = item_type (m_item m) \<and>
    item_data (mk_item x) = item_data (m_item m) \<and> item_nbt (mk_item x) = item_nbt (m_item m)"
proof -
  from activateMarket_run [OF assms(1,2)] obtain i y where act: "activated m i s s'" "books_ok sha s'"
    and y: "market_of s' i = Some y" "a = market_view y" by blast
  note A = activated_effect [OF assms(1) act]
  have "y \<in> set (markets s')" using y(1) by (simp add: market_of_Some)
  from same_book_iff [OF A(1) assms(3) this] A(3) y show ?thesis
    by (auto simp: market_view_def)
qed

theorem activateMarket_book_iff_item_witness:
  "\<exists>a s'. activateMarket demo_sha demo_activation demo_db = (Inr a, s') \<and> mk_book (demo_market 1) = m_book_id a"
proof -
  from demo_activate_run obtain a where
    a: "activateMarket demo_sha demo_activation demo_db = (Inr a, snd (activateMarket demo_sha demo_activation demo_db))"
    by blast
  have "demo_market 1 \<in> set (markets (snd (activateMarket demo_sha demo_activation demo_db)))" by code_simp
  from activateMarket_book_iff_item [OF demo_markets_ok a this]
  have "mk_book (demo_market 1) = m_book_id a" by (simp add: demo_market_def demo_activation_def)
  with a show ?thesis by blast
qed

text \<open>Closing frees the target and leaves a market that can be resumed.\<close>

lemma closing_frees:
  assumes ok: "markets_ok sha s" and x: "market_of s i = Some x" "mk_active x" and run: "closeMarket i s = (Inr (), s1)"
  shows "s1 = deactivated x True s" "market_of s1 i = Some (set_active False True x)" "markets_ok sha s1"
    "findMarketByTarget (mk_target x) s1 = (Inr None, s1)"
proof -
  note mx = market_of_Some [OF x(1)] and B = markets_okD(3) [OF ok, unfolded bindings_ok_def]
  from closeMarket_Inr [OF ok run] x show s1: "s1 = deactivated x True s" by auto
  note D = deactivated_ok [OF ok, of x True, folded s1]
  show "market_of s1 i = Some (set_active False True x)" using D(3) mx x(2) by simp
  show "markets_ok sha s1" using D(1) mx x(2) by simp
  have "\<not> bound_to s1 (mk_target x) j" for j
  proof
    assume "bound_to s1 (mk_target x) j"
    then have "bound_to s (mk_target x) j" "j \<noteq> i"
      using mx by (auto simp: bound_to_def s1 deactivated_def unbind_def)
    moreover have "bound_to s (mk_target x) i" using B mx x(2) by simp
    ultimately show False
      using B distinct_key_eq [of bd_target "bindings s"
          "\<lparr>bd_target = mk_target x, bd_market = j\<rparr>" "\<lparr>bd_target = mk_target x, bd_market = i\<rparr>"]
      by (simp add: bound_to_def)
  qed
  then have "filter (\<lambda>(b, m). bd_target b = mk_target x \<and> mk_active m) (bound_markets s1) = []"
    using bound_to_row by (fastforce simp: filter_empty_conv bound_markets_mem)
  then show "findMarketByTarget (mk_target x) s1 = (Inr None, s1)" by (simp add: findMarketByTarget_def queryS_def)
qed

text \<open>The book of a market is the one its item is found to have.\<close>

lemma book_of_item:
  assumes ok: "markets_ok sha s" and x: "x \<in> set (markets s)"
    and kb: "kb \<in> set (books s @ k)" "same_item p kb" and new: "books_ok sha s'" "books s' = books s @ k"
    and item: "item_type p = item_type (mk_item x)" "item_data p = item_data (mk_item x)" "item_nbt p = item_nbt (mk_item x)"
  shows "mk_book x = b_id kb"
proof -
  from markets_okD(4) [OF ok x] obtain kx where kx: "kx \<in> set (books s)" "b_id kx = mk_book x"
    "same_item (mk_item x) kx" by (auto simp: market_booked_def)
  have "b_hash kx = b_hash kb"
    using new kx kb item_fingerprint_cong [OF kx(3)] item_fingerprint_cong [OF kb(2)] item
    by (simp add: books_ok_def item_fingerprint_def)
  moreover have "distinct (map b_hash (books s'))" using new(1) by (simp add: books_ok_def)
  ultimately have "kx = kb"
    by (intro distinct_key_eq [of b_hash "books s'" kx kb]) (use kx(1) kb(1) new(2) in auto)
  with kx show ?thesis by simp
qed

text \<open>
  C13: Closing a market and activating the same item on the same target again resumes the very same
  market, with its orders, so that nothing a player had resting there is lost.
\<close>

theorem close_reopen_resumes:
  assumes "markets_ok sha s" and "market_of s i = Some x" and "mk_active x"
    and "closeMarket i s = (Inr (), s1)" and "activateMarket sha m s1 = (Inr a, s2)"
    and "m_target_key m = mk_target x" and "m_target_kind m = mk_kind x"
    and "item_type (m_item m) = item_type (mk_item x)" and "item_data (m_item m) = item_data (mk_item x)"
    and "item_nbt (m_item m) = item_nbt (mk_item x)"
  shows "m_id a = i \<and> market_of s2 i = Some x \<and> orders s2 = orders s \<and>
    findMarketByTarget (mk_target x) s1 = (Inr None, s1)"
proof -
  note C = closing_frees [OF assms(1-4)]
  have xm: "set_active False True x \<in> set (markets s1)" using C(2) by (simp add: market_of_Some)
  from activateMarket_run [OF C(3) assms(5)] obtain j y where act: "activated m j s1 s2" "books_ok sha s2"
    and y: "market_of s2 j = Some y" "a = market_view y" by blast
  have os: "orders s2 = orders s"
    using activated_effect(2) [OF C(3) act] by (simp add: market_frame_def C(1) deactivated_def)
  from act(1) obtain b k kb where kb: "kb \<in> set (books s1 @ k)" "b_id kb = b" "same_item (m_item m) kb"
    and cs: "(\<exists>r \<in> set (resumable_markets s1 b m). mk_id r = j \<and> s2 = s1\<lparr>books := books s1 @ k,
         markets := upd_where (\<lambda>x. mk_id x = j) (set_active True False) (markets s1),
         bindings := bindings s1 @ [\<lparr>bd_target = m_target_key m, bd_market = j\<rparr>]\<rparr>) \<or>
      (resumable_markets s1 b m = [] \<and> j = fresh_id mk_id (markets s1) \<and>
       s2 = s1\<lparr>books := books s1 @ k, markets := markets s1 @ [new_market j b m],
         bindings := bindings s1 @ [\<lparr>bd_target = m_target_key m, bd_market = j\<rparr>]\<rparr>)"
    unfolding activated_def by blast
  have "books s2 = books s1 @ k" using cs by auto
  then have bk: "mk_book x = b"
    using book_of_item [OF C(3) xm kb(1,3) act(2)] assms(8-10) kb(2) by simp
  then have "set_active False True x \<in> set (resumable_markets s1 b m)"
    using xm assms(6,7) by (simp add: resumable_markets_def)
  with cs obtain r where r: "r \<in> set (resumable_markets s1 b m)" "mk_id r = j"
    and s2: "markets s2 = upd_where (\<lambda>x. mk_id x = j) (set_active True False) (markets s1)" by auto
  have "r = set_active False True x"
    using markets_okD(6) [OF C(3)] r(1) xm assms(6,7) bk
    by (auto simp: live_unique_def live_def place_of_def resumable_markets_def)
  then have ji: "j = i" using r(2) market_of_Some [OF assms(2)] by simp
  have "set_active True False (set_active False True x) = x"
    using markets_okD(5) [OF assms(1) _ assms(3)] market_of_Some [OF assms(2)] assms(3) by (simp add: set_active_def)
  then have "market_of s2 i = Some x"
    using C(2) by (simp add: s2 ji market_of_def market_update.find_upd)
  moreover have "m_id a = i" using y ji market_of_Some [OF y(1)] by (simp add: market_view_def)
  ultimately show ?thesis using os C(4) by simp
qed


theorem close_reopen_resumes_witness:
  "\<exists>s1 a s2. closeMarket 2 demo_db = (Inr (), s1) \<and>
    activateMarket demo_sha (market_view (demo_market 2)) s1 = (Inr a, s2) \<and> m_id a = 2 \<and>
    market_of s2 2 = Some (demo_market 2)"
proof -
  let ?m = "market_view (demo_market 2)" and ?s1 = "snd (closeMarket 2 demo_db)"
  have "fst (closeMarket 2 demo_db) = Inr ()" by code_simp
  then have c: "closeMarket 2 demo_db = (Inr (), ?s1)" by (metis prod.collapse)
  have "(case fst (activateMarket demo_sha ?m ?s1) of Inr a \<Rightarrow> True | Inl e \<Rightarrow> False)" by code_simp
  then obtain a where "fst (activateMarket demo_sha ?m ?s1) = Inr a" by (auto split: sum.splits)
  then have r: "activateMarket demo_sha ?m ?s1 = (Inr a, snd (activateMarket demo_sha ?m ?s1))"
    by (metis prod.collapse)
  have m: "market_of demo_db 2 = Some (demo_market 2)" "mk_active (demo_market 2)" by code_simp+
  from close_reopen_resumes [OF demo_markets_ok m c r] c r show ?thesis
    by (auto simp: market_view_def)
qed

lemma filter_map_cleared:
  assumes "\<And>x. P x \<Longrightarrow> \<not> P (f x)"
  shows "filter P (map (\<lambda>x. if P x then f x else x) xs) = []"
  using assms by (induction xs) auto

lemma closes_filter:
  assumes "distinct (map o_id xs)"
  shows "closes (map o_id (filter P xs)) xs = map (\<lambda>x. if P x then closed_row x else x) xs"
proof -
  have "o_id x \<in> set (map o_id (filter P xs)) \<longleftrightarrow> P x" if "x \<in> set xs" for x
    using that distinct_key_eq [OF assms that] by auto
  then show ?thesis unfolding closes_def by (intro map_cong) auto
qed

text \<open>
  C14: Retiring a market gives everything back: no order of the market stays open (each is canceled,
  with nothing remaining and nothing reserved), while the orders of other markets are untouched;
  money and items are conserved, the trading invariant and the market tables stay consistent, and
  the market can be neither found through its target nor resumed.
\<close>

theorem retireMarket_settles:
  assumes "markets_ok sha s" and "trading_ok s" and "retireMarket i s = (Inr (), s')"
  shows "markets_ok sha s' \<and> trading_ok s' \<and> money_supply s' = money_supply s \<and>
    items_held s' b = items_held s b \<and>
    orders s' = map (\<lambda>x. if o_market x = i \<and> resting x then closed_row x else x) (orders s) \<and>
    filter (\<lambda>x. o_market x = i \<and> resting x) (orders s') = [] \<and>
    map_option live (market_of s' i) = Some False \<and>
    (\<forall>bd \<in> set (bindings s'). bd_market bd \<noteq> i)"
proof -
  from retireMarket_Inr [OF assms(3)] obtain m rows s1 where m: "market_of s i = Some m"
    and rows: "rows = filter (\<lambda>x. o_market x = i \<and> resting x) (orders s)"
    and c: "mapS (\<lambda>x. close_order x ''MARKET_CLOSE_REFUND'' ''MARKET_CLOSED'') rows s = (Inr (), s1)"
    and s': "s' = deactivated m False s1" by blast
  note O = trading_okD(2) [OF assms(2)]
  have dist: "distinct (map o_id rows)" using orders_okD(1) [OF O] by (simp add: rows distinct_map_filter)
  have sub: "set rows \<subseteq> set (orders s)" by (auto simp: rows)
  note C = close_all_effect [OF assms(2) sub dist c]
  have ok1: "trading_ok s1" and fr: "trade_frame s s1" using C by simp_all
  have mok1: "markets_ok sha s1"
    using assms(1) fr by (simp add: trade_frame_def markets_ok_def books_ok_def bindings_ok_def
        live_unique_def market_booked_def bound_to_def)
  have m1: "m \<in> set (markets s1)" "mk_id m = i" using market_of_Some [OF m] fr by (simp_all add: trade_frame_def)
  note D = deactivated_ok [OF mok1 m1(1), of False, folded s']
  have fr': "market_frame s1 s'" using D(2) by simp
  note T = market_frame_trading [OF fr' ok1]
  have "closes (map o_id rows) (orders s) =
      map (\<lambda>x. if o_market x = i \<and> resting x then closed_row x else x) (orders s)"
    unfolding rows by (rule closes_filter [OF orders_okD(1) [OF O]])
  then have os: "orders s' = map (\<lambda>x. if o_market x = i \<and> resting x then closed_row x else x) (orders s)"
    using C fr' by (simp add: market_frame_def)
  have "filter (\<lambda>x. o_market x = i \<and> resting x) (orders s') = []"
    unfolding os by (rule filter_map_cleared) simp
  moreover have items: "items_held s' b = items_held s1 b"
    using s' by (simp add: deactivated_def items_held_def items_offered_def items_owed_def on_book_deactivated)
  moreover have "markets_ok sha s'" "market_of s' i = Some (set_active False False m)"
      "\<forall>bd \<in> set (bindings s'). bd_market bd \<noteq> i" using D(1,3,4) m1(2) by simp_all
  moreover have "trading_ok s'" "money_supply s' = money_supply s" "items_held s1 b = items_held s b"
    using T C by simp_all
  ultimately show ?thesis using os by (simp add: live_def)
qed


theorem retireMarket_settles_witness:
  "map_option live (market_of (snd (retireMarket 1 demo_db)) 1) = Some False \<and>
    money_supply (snd (retireMarket 1 demo_db)) = money_supply demo_db"
proof -
  have "fst (retireMarket 1 demo_db) = Inr ()" by code_simp
  then have "retireMarket 1 demo_db = (Inr (), snd (retireMarket 1 demo_db))" by (metis prod.collapse)
  from retireMarket_settles [OF demo_markets_ok demo_trading_ok this] show ?thesis by blast
qed

end
