(* ===== verification/Deliveries.thy ===== *)
theory Deliveries
  imports Markets
begin

text \<open>
  Items the exchange owes to players and the two-phase hand-over of src/exchange_service.cpp:
  \<open>prepareDeliveryClaim\<close> reserves a quantity of a delivery before the plugin touches the player's
  inventory, \<open>completeDeliveryClaim\<close> books what arrived there, \<open>markDeliveryClaimCleaned\<close> records
  that the receipts are gone. A server that stops between two of the steps finds the claim in
  \<open>unfinishedDeliveryClaims\<close> when it is back and repeats the step, so every step can be repeated.
\<close>

section \<open>Operations\<close>

text \<open>The joins of the queries: a delivery with its market, a claim with its delivery's market.\<close>

definition delivery_join :: "db \<Rightarrow> delivery_row \<Rightarrow> (delivery_row \<times> market_row) option" where
  "delivery_join s d = map_option (Pair d) (market_of s (d_market d))"

definition claim_join :: "db \<Rightarrow> claim_row \<Rightarrow> (claim_row \<times> market_row) option" where
  "claim_join s c = (case delivery_of s (c_delivery c) of None \<Rightarrow> None
     | Some d \<Rightarrow> map_option (Pair c) (market_of s (d_market d)))"

definition delivery_view :: "delivery_row \<Rightarrow> ItemPrototype \<Rightarrow> Delivery" where
  "delivery_view d item = \<lparr>dv_id = d_id d, dv_market = d_market d, dv_item = item,
     dv_quantity = d_quantity d, dv_claimed = d_claimed d, dv_reserved = d_reserved d,
     dv_reason = d_reason d\<rparr>"

definition pendingDeliveries :: "string \<Rightarrow> Delivery list dbm" where
  "pendingDeliveries u = queryS (\<lambda>s.
    map (\<lambda>(d, m). delivery_view d (mk_item m)) (List.map_filter (delivery_join s)
      (sort_key d_id (filter (\<lambda>d. d_player d = u \<and> d_claimed d + d_reserved d < d_quantity d)
        (deliveries s)))))"

definition unfinished_claim :: "claim_row \<Rightarrow> bool" where
  "unfinished_claim c \<longleftrightarrow> c_status c = ClaimPrepared \<or> (c_status c = ClaimApplied \<and> \<not> c_cleaned c)"

definition unfinishedDeliveryClaims :: "string \<Rightarrow> DeliveryClaim list dbm" where
  "unfinishedDeliveryClaims u = queryS (\<lambda>s.
    map (\<lambda>(c, m). claim_view c (mk_item m)) (List.map_filter (claim_join s)
      (sort_key c_id (filter (\<lambda>c. c_player c = u \<and> unfinished_claim c) (claims s)))))"

definition findDeliveryClaim :: "Id \<Rightarrow> string \<Rightarrow> DeliveryClaim option dbm" where
  "findDeliveryClaim i u = queryS (\<lambda>s.
    case find (\<lambda>c. c_id c = i \<and> c_player c = u) (claims s) of None \<Rightarrow> None
    | Some c \<Rightarrow> map_option (\<lambda>(c, m). claim_view c (mk_item m)) (claim_join s c))"

definition reserve_more :: "int \<Rightarrow> delivery_row \<Rightarrow> delivery_row" where
  "reserve_more q d = d\<lparr>d_reserved := d_reserved d + q\<rparr>"

definition settle_reserve :: "int \<Rightarrow> int \<Rightarrow> delivery_row \<Rightarrow> delivery_row" where
  "settle_reserve delivered prepared d =
    d\<lparr>d_claimed := d_claimed d + delivered, d_reserved := d_reserved d - prepared\<rparr>"

definition updateDelivery :: "Id \<Rightarrow> (delivery_row \<Rightarrow> delivery_row) \<Rightarrow> unit dbm" where
  "updateDelivery i g =
    executeS (\<lambda>s. s\<lparr>deliveries := upd_where (\<lambda>d. d_id d = i) g (deliveries s)\<rparr>)"

definition new_claim :: "Id \<Rightarrow> Id \<Rightarrow> string \<Rightarrow> int \<Rightarrow> claim_row" where
  "new_claim i dly u q = \<lparr>c_id = i, c_delivery = dly, c_player = u, c_quantity = q, c_applied = 0,
     c_status = ClaimPrepared, c_cleaned = False\<rparr>"

definition unreserved :: "delivery_row \<Rightarrow> int" where
  "unreserved d = d_quantity d - d_claimed d - d_reserved d"

definition prepareDeliveryClaim :: "Id \<Rightarrow> string \<Rightarrow> int \<Rightarrow> DeliveryClaim dbm" where
  "prepareDeliveryClaim i u quantity =
    bindS (throwIf (quantity \<le> 0 \<or> u = [])
      (Runtime_Error ''delivery claim data is incomplete'')) (\<lambda>_.
    transactionS (
      bindS (queryS (\<lambda>s. Option.bind (delivery_of s i) (delivery_join s))) (\<lambda>row.
      case row of None \<Rightarrow> throwS (Runtime_Error ''delivery does not exist'')
      | Some (d, m) \<Rightarrow>
        bindS (throwIf (d_player d \<noteq> u)
          (Runtime_Error ''delivery belongs to another player'')) (\<lambda>_.
        bindS (throwIf (unreserved d \<le> 0)
          (Runtime_Error ''delivery has no unreserved quantity'')) (\<lambda>_.
        let prepared = min quantity (unreserved d) in
        bindS (queryS (\<lambda>s. fresh_id c_id (claims s))) (\<lambda>cid.
        bindS (executeS (\<lambda>s. s\<lparr>claims := claims s @ [new_claim cid i u prepared]\<rparr>)) (\<lambda>_.
        bindS (updateDelivery i (reserve_more prepared)) (\<lambda>_.
        returnS \<lparr>dc_id = cid, dc_delivery = i, dc_item = mk_item m, dc_quantity = prepared,
          dc_applied = 0, dc_status = ClaimPrepared, dc_cleaned = False\<rparr>))))))))"

text \<open>The two UPDATEs of a completed claim.\<close>

definition finish_claim :: "int \<Rightarrow> claim_row \<Rightarrow> claim_row" where
  "finish_claim delivered c = (if delivered = 0
     then c\<lparr>c_applied := 0, c_status := ClaimCanceled, c_cleaned := True\<rparr>
     else c\<lparr>c_applied := delivered, c_status := ClaimApplied\<rparr>)"

definition updateClaim :: "Id \<Rightarrow> (claim_row \<Rightarrow> claim_row) \<Rightarrow> unit dbm" where
  "updateClaim i g = executeS (\<lambda>s. s\<lparr>claims := upd_where (\<lambda>c. c_id c = i) g (claims s)\<rparr>)"

definition completeDeliveryClaim :: "Id \<Rightarrow> int \<Rightarrow> unit dbm" where
  "completeDeliveryClaim i delivered =
    bindS (throwIf (delivered < 0)
      (Runtime_Error ''delivered quantity must not be negative'')) (\<lambda>_.
    transactionS (
      bindS (queryS (\<lambda>s. claim_of s i)) (\<lambda>claim.
      case claim of None \<Rightarrow> throwS (Runtime_Error ''delivery claim does not exist'')
      | Some c \<Rightarrow>
        if c_status c \<noteq> ClaimPrepared
        then if (c_status c = ClaimApplied \<and> c_applied c = delivered) \<or>
                (c_status c = ClaimCanceled \<and> delivered = 0)
             then returnS ()
             else throwS (Runtime_Error ''delivery claim was already completed differently'')
        else
          bindS (throwIf (delivered > c_quantity c)
            (Runtime_Error ''delivered quantity exceeds prepared claim'')) (\<lambda>_.
          bindS (queryS (\<lambda>s. delivery_of s (c_delivery c))) (\<lambda>delivery.
          case delivery of None \<Rightarrow> throwS (Runtime_Error ''delivery for claim does not exist'')
          | Some d \<Rightarrow>
            bindS (throwIf (d_reserved d < c_quantity c \<or> d_claimed d + delivered > d_quantity d)
              (Runtime_Error ''delivery reservation invariant failed'')) (\<lambda>_.
            bindS (updateDelivery (c_delivery c) (settle_reserve delivered (c_quantity c))) (\<lambda>_.
            updateClaim i (finish_claim delivered))))))))"

definition clean_claim :: "claim_row \<Rightarrow> claim_row" where
  "clean_claim c = c\<lparr>c_cleaned := True\<rparr>"

definition markDeliveryClaimCleaned :: "Id \<Rightarrow> unit dbm" where
  "markDeliveryClaimCleaned i =
    bindS (updateS (\<lambda>s. True) foreign_key_failed
      (\<lambda>s. count_where (\<lambda>c. c_id c = i \<and> c_status c = ClaimApplied) (claims s))
      (\<lambda>s. s\<lparr>claims := upd_where (\<lambda>c. c_id c = i \<and> c_status c = ClaimApplied) clean_claim
         (claims s)\<rparr>)) (\<lambda>affected.
    throwIf (affected \<noteq> 1) (Runtime_Error ''applied delivery claim does not exist''))"

section \<open>The invariant\<close>

definition delivery_ok :: "delivery_row \<Rightarrow> bool" where
  "delivery_ok d \<longleftrightarrow> 0 < d_quantity d \<and> d_quantity d \<le> int32_max \<and> 0 \<le> d_claimed d \<and>
    0 \<le> d_reserved d \<and> d_claimed d + d_reserved d \<le> d_quantity d"

definition claim_ok :: "claim_row \<Rightarrow> bool" where
  "claim_ok c \<longleftrightarrow> 0 < c_quantity c \<and> (case c_status c of
       ClaimPrepared \<Rightarrow> c_applied c = 0 \<and> \<not> c_cleaned c
     | ClaimApplied \<Rightarrow> 0 < c_applied c \<and> c_applied c \<le> c_quantity c
     | ClaimCanceled \<Rightarrow> c_applied c = 0 \<and> c_cleaned c)"

text \<open>What the claims on a delivery hold back, and what they have handed over.\<close>

definition held_by :: "claim_row list \<Rightarrow> Id \<Rightarrow> int" where
  "held_by cs i = (\<Sum>c\<leftarrow>cs. if c_delivery c = i \<and> c_status c = ClaimPrepared then c_quantity c else 0)"

definition applied_by :: "claim_row list \<Rightarrow> Id \<Rightarrow> int" where
  "applied_by cs i = (\<Sum>c\<leftarrow>cs. if c_delivery c = i then c_applied c else 0)"

definition accounted :: "claim_row list \<Rightarrow> delivery_row \<Rightarrow> bool" where
  "accounted cs d \<longleftrightarrow> d_reserved d = held_by cs (d_id d) \<and> d_claimed d = applied_by cs (d_id d)"

definition claim_owned :: "delivery_row list \<Rightarrow> claim_row \<Rightarrow> bool" where
  "claim_owned ds c \<longleftrightarrow> (\<exists>d \<in> set ds. d_id d = c_delivery c \<and> d_player d = c_player c)"

definition deliveries_ok :: "db \<Rightarrow> bool" where
  "deliveries_ok s \<longleftrightarrow> distinct (map d_id (deliveries s)) \<and> distinct (map c_id (claims s)) \<and>
    (\<forall>d \<in> set (deliveries s). delivery_ok d \<and> market_of s (d_market d) \<noteq> None \<and> accounted (claims s) d) \<and>
    (\<forall>c \<in> set (claims s). claim_ok c \<and> claim_owned (deliveries s) c)"

lemma deliveries_okD:
  assumes "deliveries_ok s"
  shows "distinct (map d_id (deliveries s))" "distinct (map c_id (claims s))"
    "d \<in> set (deliveries s) \<Longrightarrow> delivery_ok d" "d \<in> set (deliveries s) \<Longrightarrow> market_of s (d_market d) \<noteq> None"
    "d \<in> set (deliveries s) \<Longrightarrow> accounted (claims s) d"
    "c \<in> set (claims s) \<Longrightarrow> claim_ok c" "c \<in> set (claims s) \<Longrightarrow> claim_owned (deliveries s) c"
  using assms unfolding deliveries_ok_def by blast+

interpretation reserve_more: keyed_update d_id "reserve_more q" for q
  by unfold_locales (simp add: reserve_more_def)

interpretation settle_reserve: keyed_update d_id "settle_reserve n q" for n q
  by unfold_locales (simp add: settle_reserve_def)

interpretation finish_claim: keyed_update c_id "finish_claim n" for n
  by unfold_locales (simp add: finish_claim_def)

interpretation clean_claim: keyed_update c_id clean_claim
  by unfold_locales (simp add: clean_claim_def)

lemma delivery_update_fields [simp]:
  "d_id (reserve_more q d) = d_id d" "d_player (reserve_more q d) = d_player d"
  "d_market (reserve_more q d) = d_market d" "d_quantity (reserve_more q d) = d_quantity d"
  "d_claimed (reserve_more q d) = d_claimed d" "d_reserved (reserve_more q d) = d_reserved d + q"
  "d_id (settle_reserve n q d) = d_id d" "d_player (settle_reserve n q d) = d_player d"
  "d_market (settle_reserve n q d) = d_market d" "d_quantity (settle_reserve n q d) = d_quantity d"
  "d_claimed (settle_reserve n q d) = d_claimed d + n" "d_reserved (settle_reserve n q d) = d_reserved d - q"
  by (simp_all add: reserve_more_def settle_reserve_def)

lemma claim_update_fields [simp]:
  "c_id (new_claim i dly u q) = i" "c_delivery (new_claim i dly u q) = dly"
  "c_player (new_claim i dly u q) = u" "c_quantity (new_claim i dly u q) = q"
  "c_status (new_claim i dly u q) = ClaimPrepared" "c_applied (new_claim i dly u q) = 0"
  "c_id (finish_claim n c) = c_id c" "c_delivery (finish_claim n c) = c_delivery c"
  "c_player (finish_claim n c) = c_player c" "c_quantity (finish_claim n c) = c_quantity c"
  "c_applied (finish_claim n c) = n"
  "c_status (finish_claim n c) = (if n = 0 then ClaimCanceled else ClaimApplied)"
  "c_id (clean_claim c) = c_id c" "c_delivery (clean_claim c) = c_delivery c"
  "c_player (clean_claim c) = c_player c" "c_quantity (clean_claim c) = c_quantity c"
  "c_applied (clean_claim c) = c_applied c" "c_status (clean_claim c) = c_status c"
  "c_cleaned (clean_claim c) = True"
  by (simp_all add: new_claim_def finish_claim_def clean_claim_def)

lemma delivery_of_Some: "delivery_of s i = Some d \<Longrightarrow> d \<in> set (deliveries s) \<and> d_id d = i"
  unfolding delivery_of_def by (rule find_key_in)

lemma claim_of_Some: "claim_of s i = Some c \<Longrightarrow> c \<in> set (claims s) \<and> c_id c = i"
  unfolding claim_of_def by (rule find_key_in)

lemma delivery_of_unique:
  "deliveries_ok s \<Longrightarrow> d \<in> set (deliveries s) \<Longrightarrow> delivery_of s (d_id d) = Some d"
  unfolding delivery_of_def by (rule find_key_distinct) (rule deliveries_okD(1))

lemma delivery_joined:
  assumes "deliveries_ok s" and "d \<in> set (deliveries s)"
  obtains m where "delivery_join s d = Some (d, m)" "market_of s (d_market d) = Some m"
  using deliveries_okD(4) [OF assms] by (auto simp: delivery_join_def)

lemma claim_joined:
  assumes "deliveries_ok s" and "c \<in> set (claims s)"
  obtains d m where "delivery_of s (c_delivery c) = Some d" "claim_join s c = Some (c, m)"
proof -
  from deliveries_okD(7) [OF assms] obtain d where d: "d \<in> set (deliveries s)" "d_id d = c_delivery c"
    by (auto simp: claim_owned_def)
  from delivery_of_unique [OF assms(1) d(1)] d(2) have "delivery_of s (c_delivery c) = Some d" by simp
  moreover from delivery_joined [OF assms(1) d(1)] obtain m where "market_of s (d_market d) = Some m" .
  ultimately show thesis by (intro that [of d m]) (simp_all add: claim_join_def)
qed

lemma held_by_append [simp]: "held_by (cs @ cs') i = held_by cs i + held_by cs' i"
  by (simp add: held_by_def)

lemma applied_by_append [simp]: "applied_by (cs @ cs') i = applied_by cs i + applied_by cs' i"
  by (simp add: applied_by_def)

lemma sums_finish:
  assumes "distinct (map c_id cs)" and "c \<in> set cs" and "c_status c = ClaimPrepared" and "c_applied c = 0"
  shows "held_by (upd_where (\<lambda>x. c_id x = c_id c) (finish_claim n) cs) i =
      held_by cs i - (if c_delivery c = i then c_quantity c else 0)"
    and "applied_by (upd_where (\<lambda>x. c_id x = c_id c) (finish_claim n) cs) i =
      applied_by cs i + (if c_delivery c = i then n else 0)"
  using assms(3,4)
  by (simp_all add: held_by_def applied_by_def sum_list_upd_key [OF assms(1,2) refl])

lemma sums_clean:
  "held_by (upd_where P clean_claim cs) i = held_by cs i"
  "applied_by (upd_where P clean_claim cs) i = applied_by cs i"
  unfolding held_by_def applied_by_def by (rule sum_list_upd_where_same, simp)+

lemma claim_owned_upd:
  assumes "\<And>d. d_id (g d) = d_id d" and "\<And>d. d_player (g d) = d_player d"
  shows "claim_owned (upd_where P g ds) c = claim_owned ds c"
proof -
  have owned: "claim_owned xs c \<longleftrightarrow> (c_delivery c, c_player c) \<in> set (map (\<lambda>d. (d_id d, d_player d)) xs)" for xs
    unfolding claim_owned_def set_map image_iff by (metis prod.inject)
  have "map (\<lambda>d. (d_id d, d_player d)) (upd_where P g ds) = map (\<lambda>d. (d_id d, d_player d)) ds"
    by (rule map_upd_where) (simp add: assms)
  then show ?thesis by (simp only: owned)
qed

lemma owed_upd:
  assumes "distinct (map d_id ds)" and "d \<in> set ds" and "d_market (g d) = d_market d"
    and "d_quantity (g d) = d_quantity d"
  shows "(\<Sum>x\<leftarrow>upd_where (\<lambda>x. d_id x = d_id d) g ds. owed_on on x) =
    (\<Sum>x\<leftarrow>ds. owed_on on x) - (if on (d_market d) then d_claimed (g d) - d_claimed d else 0)"
  by (simp add: sum_list_upd_key [OF assms(1,2) refl]) (simp add: owed_on_def assms(3,4))

section \<open>Preparing\<close>

text \<open>A prepared claim is possible exactly when something of the player's own delivery is free.\<close>

definition claimable :: "db \<Rightarrow> Id \<Rightarrow> string \<Rightarrow> int \<Rightarrow> bool" where
  "claimable s i u q \<longleftrightarrow> 0 < q \<and> u \<noteq> [] \<and>
    (case delivery_of s i of None \<Rightarrow> False | Some d \<Rightarrow> d_player d = u \<and> 0 < unreserved d)"

definition prepared_state :: "Id \<Rightarrow> string \<Rightarrow> int \<Rightarrow> db \<Rightarrow> db" where
  "prepared_state i u q s = s\<lparr>claims := claims s @ [new_claim (fresh_id c_id (claims s)) i u q],
     deliveries := upd_where (\<lambda>d. d_id d = i) (reserve_more q) (deliveries s)\<rparr>"

lemma prepareDeliveryClaim_eq:
  assumes ok: "deliveries_ok s"
  shows "prepareDeliveryClaim i u q s = (case delivery_of s i of
      Some d \<Rightarrow> if claimable s i u q
        then (Inr \<lparr>dc_id = fresh_id c_id (claims s), dc_delivery = i,
            dc_item = mk_item (the (market_of s (d_market d))), dc_quantity = min q (unreserved d),
            dc_applied = 0, dc_status = ClaimPrepared, dc_cleaned = False\<rparr>,
          prepared_state i u (min q (unreserved d)) s)
        else prepareDeliveryClaim i u q s
    | None \<Rightarrow> prepareDeliveryClaim i u q s)"
proof (cases "delivery_of s i")
  case (Some d)
  from delivery_joined [OF ok] delivery_of_Some [OF Some] obtain m where
    m: "delivery_join s d = Some (d, m)" "market_of s (d_market d) = Some m" by blast
  show ?thesis
  proof (cases "claimable s i u q")
    case True
    with Some have "\<not> q \<le> 0" "u \<noteq> []" "d_player d = u" "\<not> unreserved d \<le> 0"
      by (auto simp: claimable_def)
    with Some m True show ?thesis
      by (simp add: prepareDeliveryClaim_def svc_evals updateDelivery_def prepared_state_def Let_def)
  qed (simp add: Some)
qed simp

lemma prepareDeliveryClaim_Inr:
  assumes "prepareDeliveryClaim i u q s = (Inr r, s')"
  shows "claimable s i u q"
  using assms
  by (auto simp: prepareDeliveryClaim_def claimable_def svc_simps Let_def delivery_join_def bind_eq_Some_conv
      split: option.splits)

lemma prepareDeliveryClaim_Inl:
  "prepareDeliveryClaim i u q s = (Inl e, s') \<Longrightarrow> s' = s"
  by (auto simp: prepareDeliveryClaim_def bindS_def throwIf_def throwS_def returnS_def transactionS_Inl
      split: if_splits)

lemma prepared_state_ok:
  assumes ok: "deliveries_ok s" and d: "delivery_of s i = Some d" "d_player d = u"
    and q: "0 < q" "q \<le> unreserved d"
  shows "deliveries_ok (prepared_state i u q s)" (is "deliveries_ok ?s'")
    and "items_owed (prepared_state i u q s) b = items_owed s b"
proof -
  note D = delivery_of_Some [OF d(1)]
  note dist = deliveries_okD(1,2) [OF ok]
  let ?ds = "deliveries ?s'" and ?cs = "claims ?s'" and ?i = "fresh_id c_id (claims s)"
  have ds: "set ?ds = insert (reserve_more q d) (set (deliveries s) - {d})"
    using reserve_more.set_upd_key [OF dist(1), of d q] D by (simp add: prepared_state_def)
  have del: "delivery_ok x \<and> market_of ?s' (d_market x) \<noteq> None \<and> accounted ?cs x" if "x \<in> set ?ds" for x
  proof -
    from that ds have "x = reserve_more q d \<or> (x \<in> set (deliveries s) \<and> d_id x \<noteq> i)"
      using distinct_key_eq [OF dist(1), of x d] D by auto
    then show ?thesis
    proof
      assume "x = reserve_more q d"
      then show ?thesis
        using deliveries_okD(3-5) [OF ok conjunct1 [OF D]] D q
        by (simp add: delivery_ok_def unreserved_def accounted_def prepared_state_def held_by_def applied_by_def)
    next
      assume "x \<in> set (deliveries s) \<and> d_id x \<noteq> i"
      then show ?thesis using deliveries_okD(3-5) [OF ok, of x]
        by (simp add: accounted_def prepared_state_def held_by_def applied_by_def)
    qed
  qed
  have owned: "claim_owned ?ds c \<longleftrightarrow> claim_owned (deliveries s) c" for c
    unfolding prepared_state_def by (simp add: claim_owned_upd)
  have "claim_ok c \<and> claim_owned ?ds c" if "c \<in> set ?cs" for c
  proof -
    from that have "c \<in> set (claims s) \<or> c = new_claim ?i i u q" by (auto simp: prepared_state_def)
    then show ?thesis
    proof
      assume "c \<in> set (claims s)"
      then show ?thesis using deliveries_okD(6,7) [OF ok] by (simp add: owned)
    next
      assume "c = new_claim ?i i u q"
      moreover have "claim_owned (deliveries s) c" using calculation D d by (auto simp: claim_owned_def)
      ultimately show ?thesis using q by (simp add: owned claim_ok_def new_claim_def)
    qed
  qed
  moreover have "distinct (map c_id ?cs)" "distinct (map d_id ?ds)"
    using dist by (auto simp: prepared_state_def fresh_id_neq)
  ultimately show "deliveries_ok ?s'" using del unfolding deliveries_ok_def by blast
  have "on_book ?s' b = on_book s b" by (simp add: prepared_state_def)
  then show "items_owed ?s' b = items_owed s b"
    using owed_upd [OF dist(1) conjunct1 [OF D], of "reserve_more q" "on_book s b"] D
    by (simp add: items_owed_def prepared_state_def)
qed

section \<open>Completing\<close>

definition completed_state :: "claim_row \<Rightarrow> int \<Rightarrow> db \<Rightarrow> db" where
  "completed_state c n s = s\<lparr>
     deliveries := upd_where (\<lambda>d. d_id d = c_delivery c) (settle_reserve n (c_quantity c)) (deliveries s),
     claims := upd_where (\<lambda>x. c_id x = c_id c) (finish_claim n) (claims s)\<rparr>"

lemma held_by_ge:
  assumes "\<And>x. x \<in> set cs \<Longrightarrow> claim_ok x" and "c \<in> set cs" and "c_status c = ClaimPrepared"
  shows "c_quantity c \<le> held_by cs (c_delivery c)"
  using sum_list_nonneg_member
    [of cs "\<lambda>x. if c_delivery x = c_delivery c \<and> c_status x = ClaimPrepared then c_quantity x else 0" c] assms
  by (fastforce simp: held_by_def claim_ok_def split: if_splits)

lemma prepared_claim_facts:
  assumes ok: "deliveries_ok s" and c: "c \<in> set (claims s)" "c_status c = ClaimPrepared"
  obtains d where "delivery_of s (c_delivery c) = Some d" "c_quantity c \<le> d_reserved d"
    "d_claimed d + c_quantity c \<le> d_quantity d" "c_applied c = 0" "0 < c_quantity c" "d_player d = c_player c"
proof -
  from claim_joined [OF ok c(1)] obtain d m where d: "delivery_of s (c_delivery c) = Some d" by blast
  note D = delivery_of_Some [OF d]
  from deliveries_okD(5) [OF ok conjunct1 [OF D]] held_by_ge [OF deliveries_okD(6) [OF ok] c] D
  have r: "c_quantity c \<le> d_reserved d" by (simp add: accounted_def)
  from deliveries_okD(7) [OF ok c(1)] obtain d' where "d' \<in> set (deliveries s)" "d_id d' = c_delivery c"
    "d_player d' = c_player c" by (auto simp: claim_owned_def)
  then have "d_player d = c_player c" using distinct_key_eq [OF deliveries_okD(1) [OF ok], of d d'] D by simp
  with r that d deliveries_okD(3) [OF ok conjunct1 [OF D]] deliveries_okD(6) [OF ok c(1)] c(2) show thesis
    by (auto simp: delivery_ok_def claim_ok_def)
qed

lemma completed_state_ok:
  assumes ok: "deliveries_ok s" and c: "c \<in> set (claims s)" "c_status c = ClaimPrepared"
    and n: "0 \<le> n" "n \<le> c_quantity c" and d: "delivery_of s (c_delivery c) = Some d"
  shows "deliveries_ok (completed_state c n s)" (is "deliveries_ok ?s'")
    and "items_owed (completed_state c n s) b =
      items_owed s b - (if on_book s b (d_market d) then n else 0)"
    and "claim_of (completed_state c n s) (c_id c) = Some (finish_claim n c)"
    and "delivery_of (completed_state c n s) (c_delivery c) = Some (settle_reserve n (c_quantity c) d)"
proof -
  note D = delivery_of_Some [OF d]
  note dist = deliveries_okD(1,2) [OF ok]
  from prepared_claim_facts [OF ok c] d have F: "c_quantity c \<le> d_reserved d"
    "d_claimed d + c_quantity c \<le> d_quantity d" "c_applied c = 0" "0 < c_quantity c" by auto
  let ?ds = "deliveries ?s'" and ?cs = "claims ?s'"
  have ds: "set ?ds = insert (settle_reserve n (c_quantity c) d) (set (deliveries s) - {d})"
    using settle_reserve.set_upd_key [OF dist(1), of d n "c_quantity c"] D by (simp add: completed_state_def)
  have cs: "set ?cs = insert (finish_claim n c) (set (claims s) - {c})"
    using finish_claim.set_upd_key [OF dist(2) c(1), of n] by (simp add: completed_state_def)
  have sums: "held_by ?cs i = held_by (claims s) i - (if c_delivery c = i then c_quantity c else 0)"
    "applied_by ?cs i = applied_by (claims s) i + (if c_delivery c = i then n else 0)" for i
    using sums_finish [OF dist(2) c F(3)] by (simp_all add: completed_state_def)
  have mk: "market_of ?s' = market_of s" by (simp add: completed_state_def)
  have del: "delivery_ok x \<and> market_of ?s' (d_market x) \<noteq> None \<and> accounted ?cs x" if "x \<in> set ?ds" for x
  proof -
    from that ds have "x = settle_reserve n (c_quantity c) d \<or> (x \<in> set (deliveries s) \<and> d_id x \<noteq> c_delivery c)"
      using distinct_key_eq [OF dist(1), of x d] D by auto
    then show ?thesis
    proof
      assume "x = settle_reserve n (c_quantity c) d"
      then show ?thesis
        using deliveries_okD(3-5) [OF ok conjunct1 [OF D]] D F n
        by (simp add: delivery_ok_def accounted_def sums mk)
    next
      assume "x \<in> set (deliveries s) \<and> d_id x \<noteq> c_delivery c"
      then show ?thesis using deliveries_okD(3-5) [OF ok, of x] by (simp add: accounted_def sums mk)
    qed
  qed
  have owned: "claim_owned ?ds x \<longleftrightarrow> claim_owned (deliveries s) x" for x
    unfolding completed_state_def by (simp add: claim_owned_upd)
  have "claim_ok x \<and> claim_owned ?ds x" if "x \<in> set ?cs" for x
  proof -
    from that cs have "x = finish_claim n c \<or> x \<in> set (claims s)" by auto
    then show ?thesis
    proof
      assume "x = finish_claim n c"
      then show ?thesis using deliveries_okD(6,7) [OF ok c(1)] n F
        by (simp add: owned claim_ok_def) (simp add: claim_owned_def finish_claim_def)
    next
      assume "x \<in> set (claims s)"
      then show ?thesis using deliveries_okD(6,7) [OF ok] by (simp add: owned)
    qed
  qed
  moreover have "distinct (map c_id ?cs)" "distinct (map d_id ?ds)"
    using dist by (simp_all add: completed_state_def)
  ultimately show "deliveries_ok ?s'" using del unfolding deliveries_ok_def by blast
  have "on_book ?s' b = on_book s b" by (simp add: completed_state_def)
  then show "items_owed ?s' b = items_owed s b - (if on_book s b (d_market d) then n else 0)"
    using owed_upd [OF dist(1) conjunct1 [OF D], of "settle_reserve n (c_quantity c)" "on_book s b"] D
    by (simp add: items_owed_def completed_state_def)
  show "claim_of ?s' (c_id c) = Some (finish_claim n c)"
    using find_key_distinct [OF dist(2) c(1)] by (simp add: claim_of_def completed_state_def finish_claim.find_upd)
  show "delivery_of ?s' (c_delivery c) = Some (settle_reserve n (c_quantity c) d)"
    using d by (simp add: delivery_of_def completed_state_def settle_reserve.find_upd)
qed

lemma completeDeliveryClaim_prepared:
  assumes ok: "deliveries_ok s" and c: "claim_of s i = Some c" "c_status c = ClaimPrepared"
  shows "completeDeliveryClaim i n s =
    (if n < 0 then (Inl (Runtime_Error ''delivered quantity must not be negative''), s)
     else if c_quantity c < n then (Inl (Runtime_Error ''delivered quantity exceeds prepared claim''), s)
     else (Inr (), completed_state c n s))"
proof -
  note C = claim_of_Some [OF c(1)]
  from prepared_claim_facts [OF ok conjunct1 [OF C] c(2)] obtain d where
    d: "delivery_of s (c_delivery c) = Some d" "c_quantity c \<le> d_reserved d"
    "d_claimed d + c_quantity c \<le> d_quantity d" by blast
  show ?thesis
    using c d C
    by (auto simp: completeDeliveryClaim_def svc_evals updateDelivery_def updateClaim_def completed_state_def)
qed

lemma completeDeliveryClaim_done:
  assumes "claim_of s i = Some c" and "c_status c \<noteq> ClaimPrepared"
  shows "completeDeliveryClaim i n s =
    (if n < 0 then (Inl (Runtime_Error ''delivered quantity must not be negative''), s)
     else if (c_status c = ClaimApplied \<and> c_applied c = n) \<or> (c_status c = ClaimCanceled \<and> n = 0)
     then (Inr (), s)
     else (Inl (Runtime_Error ''delivery claim was already completed differently''), s))"
  using assms by (auto simp: completeDeliveryClaim_def svc_evals)

lemma completeDeliveryClaim_missing:
  "claim_of s i = None \<Longrightarrow> completeDeliveryClaim i n s =
    (Inl (Runtime_Error (if n < 0 then ''delivered quantity must not be negative''
       else ''delivery claim does not exist'')), s)"
  by (simp add: completeDeliveryClaim_def svc_evals)

lemma markDeliveryClaimCleaned_eq:
  assumes ok: "deliveries_ok s"
  shows "markDeliveryClaimCleaned i s = (case claim_of s i of
      Some c \<Rightarrow> if c_status c = ClaimApplied
        then (Inr (), s\<lparr>claims := upd_where (\<lambda>x. c_id x = i) clean_claim (claims s)\<rparr>)
        else (Inl (Runtime_Error ''applied delivery claim does not exist''), s)
    | None \<Rightarrow> (Inl (Runtime_Error ''applied delivery claim does not exist''), s))"
proof (cases "claim_of s i")
  case None
  from upd_where_key_missing [OF None [unfolded claim_of_def]] None show ?thesis
    by (simp add: markDeliveryClaimCleaned_def svc_evals)
next
  case (Some c)
  from upd_where_key_cond [OF deliveries_okD(2) [OF ok] Some [unfolded claim_of_def], of "\<lambda>c. c_status c = ClaimApplied"]
    Some show ?thesis by (simp add: markDeliveryClaimCleaned_def svc_evals)
qed

section \<open>Recovery and trading\<close>

lemma map_filter_join:
  "(\<And>x. x \<in> set xs \<Longrightarrow> \<exists>m. f x = Some (x, m)) \<Longrightarrow> map fst (List.map_filter f xs) = xs"
proof (induction xs)
  case Nil
  then show ?case by (simp add: map_filter_simps)
next
  case (Cons x xs)
  from Cons.prems [of x] obtain m where "f x = Some (x, m)" by auto
  with Cons show ?case by (simp add: map_filter_simps)
qed

lemma unfinished_ids:
  assumes ok: "deliveries_ok s"
  shows "\<exists>xs. unfinishedDeliveryClaims u s = (Inr xs, s) \<and>
    map dc_id xs = map c_id (sort_key c_id (filter (\<lambda>c. c_player c = u \<and> unfinished_claim c) (claims s)))"
proof -
  let ?cs = "sort_key c_id (filter (\<lambda>c. c_player c = u \<and> unfinished_claim c) (claims s))"
  have "\<exists>m. claim_join s c = Some (c, m)" if "c \<in> set ?cs" for c
    using claim_joined [OF ok, of c] that by auto
  from map_filter_join [of ?cs "claim_join s", OF this]
  have "map fst (List.map_filter (claim_join s) ?cs) = ?cs" by simp
  then have "map c_id (map fst (List.map_filter (claim_join s) ?cs)) = map c_id ?cs" by simp
  then show ?thesis
    by (simp add: unfinishedDeliveryClaims_def queryS_def claim_view_def case_prod_unfold o_def)
qed

lemma unfinished_mem:
  assumes "deliveries_ok s"
  obtains xs where "unfinishedDeliveryClaims u s = (Inr xs, s)"
    "dc_id ` set xs = c_id ` {c \<in> set (claims s). c_player c = u \<and> unfinished_claim c}"
proof -
  from unfinished_ids [OF assms, of u] obtain xs where
    xs: "unfinishedDeliveryClaims u s = (Inr xs, s)"
    "map dc_id xs = map c_id (sort_key c_id (filter (\<lambda>c. c_player c = u \<and> unfinished_claim c) (claims s)))"
    by blast
  from arg_cong [OF xs(2), of set] have "dc_id ` set xs =
      c_id ` {c \<in> set (claims s). c_player c = u \<and> unfinished_claim c}" by simp
  with xs(1) show thesis by (rule that)
qed

lemma cleaned_ok:
  assumes ok: "deliveries_ok s" and c: "claim_of s i = Some c" "c_status c = ClaimApplied"
  shows "deliveries_ok (s\<lparr>claims := upd_where (\<lambda>x. c_id x = i) clean_claim (claims s)\<rparr>)"
proof -
  note C = claim_of_Some [OF c(1)]
  have "set (upd_where (\<lambda>x. c_id x = i) clean_claim (claims s)) = insert (clean_claim c) (set (claims s) - {c})"
    using clean_claim.set_upd_key [OF deliveries_okD(2) [OF ok] conjunct1 [OF C]] C by simp
  moreover have "claim_ok (clean_claim c)" "claim_owned (deliveries s) (clean_claim c)"
    using deliveries_okD(6,7) [OF ok conjunct1 [OF C]] c(2) by (auto simp: claim_ok_def claim_owned_def)
  ultimately show ?thesis
    using ok by (auto simp: deliveries_ok_def accounted_def sums_clean simp del: not_None_eq)
qed

lemma deliveries_ok_frame:
  assumes "deliveries_ok s" and "deliveries s' = deliveries s" and "claims s' = claims s"
    and "\<And>i. market_of s i \<noteq> None \<Longrightarrow> market_of s' i \<noteq> None"
  shows "deliveries_ok s'"
  using assms unfolding deliveries_ok_def by metis

lemma no_claims:
  "(\<And>c. c \<in> set cs \<Longrightarrow> c_delivery c \<noteq> i) \<Longrightarrow> held_by cs i = 0 \<and> applied_by cs i = 0"
  unfolding held_by_def applied_by_def by (induction cs) auto

text \<open>New deliveries: what order entry and cancellation append.\<close>

lemma delivery_appended_ok:
  assumes ok: "deliveries_ok s" and mk: "market_of s m \<noteq> None" and q: "0 < q" "q \<le> int32_max"
  shows "deliveries_ok (s\<lparr>deliveries := deliveries s @ [trade_delivery reason (fresh_id d_id (deliveries s)) (u, m, q)]\<rparr>)"
proof -
  let ?d = "trade_delivery reason (fresh_id d_id (deliveries s)) (u, m, q)"
  have d: "d_id ?d = fresh_id d_id (deliveries s)" "d_quantity ?d = q" "d_claimed ?d = 0" "d_reserved ?d = 0"
    "d_market ?d = m" by (simp_all add: trade_delivery_def)
  have none: "c_delivery c \<noteq> d_id ?d" if "c \<in> set (claims s)" for c
    using deliveries_okD(7) [OF ok that] fresh_id_neq [of _ "deliveries s" d_id] by (auto simp: claim_owned_def d)
  have h: "held_by (claims s) (d_id ?d) = 0" and a: "applied_by (claims s) (d_id ?d) = 0"
    using none by (simp_all add: no_claims)
  have "accounted (claims s) ?d" using h a d by (simp add: accounted_def)
  moreover have "delivery_ok ?d" using q d by (simp add: delivery_ok_def)
  moreover have "distinct (map d_id (deliveries s @ [?d]))"
    using deliveries_okD(1) [OF ok] by (auto simp: d fresh_id_neq)
  ultimately show ?thesis
    using ok mk d(5) by (auto simp: deliveries_ok_def claim_owned_def simp del: not_None_eq)
qed

lemma deliveries_added_ok:
  assumes "deliveries_ok s"
    and "\<forall>(u, m, q) \<in> set vs. market_of s m \<noteq> None \<and> 0 < q \<and> q \<le> int32_max"
  shows "deliveries_ok (s\<lparr>deliveries := add_rows d_id (trade_delivery reason) (deliveries s) vs\<rparr>)"
  using assms
proof (induction vs arbitrary: s)
  case Nil
  then show ?case by simp
next
  case (Cons v vs)
  obtain u m q where v: "v = (u, m, q)" by (cases v)
  let ?s = "s\<lparr>deliveries := deliveries s @ [trade_delivery reason (fresh_id d_id (deliveries s)) v]\<rparr>"
  have "deliveries_ok ?s" unfolding v
    using Cons.prems v by (intro delivery_appended_ok) (auto simp del: not_None_eq)
  moreover have "\<forall>(u, m, q) \<in> set vs. market_of ?s m \<noteq> None \<and> 0 < q \<and> q \<le> int32_max"
    using Cons.prems(2) by simp
  ultimately have "deliveries_ok (?s\<lparr>deliveries := add_rows d_id (trade_delivery reason) (deliveries ?s) vs\<rparr>)"
    by (rule Cons.IH)
  then show ?case by (simp add: add_rows_Cons)
qed

lemma deliveries_ok_traded:
  assumes ok: "deliveries_ok s" and fr: "trade_frame s s'"
    and ds: "deliveries s' = add_rows d_id (trade_delivery reason) (deliveries s) vs"
    and vs: "\<forall>(u, m, q) \<in> set vs. market_of s m \<noteq> None \<and> 0 < q \<and> q \<le> int32_max"
  shows "deliveries_ok s'"
  by (rule deliveries_ok_frame [OF deliveries_added_ok [OF ok vs, of reason]])
    (use fr ds in \<open>simp_all add: trade_frame_def market_of_def\<close>)

section \<open>Properties\<close>

definition demo_owed :: db where
  "demo_owed = demo_db\<lparr>deliveries := [\<lparr>d_id = 1, d_player = ''alice'', d_market = 2, d_quantity = 9,
       d_claimed = 2, d_reserved = 3, d_reason = ''TRADE_BUY''\<rparr>],
     claims := [\<lparr>c_id = 1, c_delivery = 1, c_player = ''alice'', c_quantity = 5, c_applied = 2,
         c_status = ClaimApplied, c_cleaned = True\<rparr>,
       new_claim 2 1 ''alice'' 3]\<rparr>"

lemma demo_owed_ok: "deliveries_ok demo_owed"
  unfolding deliveries_ok_def claim_owned_def by code_simp

text \<open>
  A delivery claim is prepared exactly for a positive quantity of the player's own delivery
  that is not fully reserved, and reserves the smaller of the wish and what is free under a new
  claim; refused or not, reservations and claims stay in balance and nothing owed is lost.
\<close>

theorem prepareDeliveryClaim_reserves:
  assumes "deliveries_ok s" and "prepareDeliveryClaim i u q s = (res, s')"
  shows "deliveries_ok s' \<and> items_owed s' b = items_owed s b \<and>
    (case res of Inl e \<Rightarrow> s' = s \<and> \<not> claimable s i u q
     | Inr r \<Rightarrow> claimable s i u q \<and> claim_of s (dc_id r) = None \<and>
         claim_of s' (dc_id r) = Some (new_claim (dc_id r) i u (dc_quantity r)) \<and>
         map_option (\<lambda>d. min q (unreserved d)) (delivery_of s i) = Some (dc_quantity r) \<and>
         delivery_of s' i = map_option (reserve_more (dc_quantity r)) (delivery_of s i))"
proof (cases res)
  case (Inl e)
  have "\<not> claimable s i u q"
  proof
    assume c: "claimable s i u q"
    then obtain d where "delivery_of s i = Some d" by (auto simp: claimable_def split: option.splits)
    with prepareDeliveryClaim_eq [OF assms(1), of i u q] c assms(2) Inl show False by simp
  qed
  moreover have "s' = s" by (rule prepareDeliveryClaim_Inl) (use assms(2) Inl in simp)
  ultimately show ?thesis using assms(1) Inl by simp
next
  case (Inr r)
  note c = prepareDeliveryClaim_Inr [OF assms(2) [unfolded Inr]]
  then obtain d where d: "delivery_of s i = Some d" "d_player d = u" "0 < unreserved d" "0 < q"
    by (auto simp: claimable_def split: option.splits)
  let ?q = "min q (unreserved d)" and ?i = "fresh_id c_id (claims s)"
  have run: "s' = prepared_state i u ?q s" "dc_id r = ?i" "dc_quantity r = ?q"
    using prepareDeliveryClaim_eq [OF assms(1), of i u q] c d assms(2) Inr by simp_all
  have "find (\<lambda>c. c_id c = ?i) (claims s) = None" by (auto simp: find_None_iff fresh_id_neq)
  then have "claim_of s ?i = None" "claim_of s' ?i = Some (new_claim ?i i u ?q)"
    by (simp_all add: claim_of_def run(1) prepared_state_def find_append)
  moreover have "delivery_of s' i = Some (reserve_more ?q d)"
    using d(1) by (simp add: delivery_of_def run(1) prepared_state_def reserve_more.find_upd)
  ultimately show ?thesis
    using prepared_state_ok [OF assms(1) d(1,2), of ?q] d c Inr run by simp
qed

theorem prepareDeliveryClaim_reserves_witness:
  "\<exists>r s'. prepareDeliveryClaim 1 ''alice'' 10 demo_owed = (Inr r, s') \<and> deliveries_ok s' \<and>
    items_owed s' 1 = 7 \<and> claimable demo_owed 1 ''alice'' 10"
proof -
  let ?p = "prepareDeliveryClaim 1 ''alice'' 10 demo_owed"
  have "\<not> isl (fst ?p)" by code_simp
  then obtain r where "fst ?p = Inr r" by (metis sum.collapse(2))
  then have "?p = (Inr r, snd ?p)" by (metis prod.collapse)
  moreover from prepareDeliveryClaim_reserves [OF demo_owed_ok this, of 1]
  have "deliveries_ok (snd ?p) \<and> items_owed (snd ?p) 1 = items_owed demo_owed 1 \<and> claimable demo_owed 1 ''alice'' 10"
    by simp
  moreover have "items_owed demo_owed 1 = 7" by code_simp
  ultimately show ?thesis by metis
qed

text \<open>
  C15: Completing a prepared claim succeeds for every quantity up to the prepared one (the two
  internal checks never fail), books exactly the delivered items, and may be repeated: the same
  call again changes nothing, a call with another quantity is refused without effect.
\<close>

theorem completeDeliveryClaim_once:
  assumes "deliveries_ok s" and "claim_of s i = Some c" and "c_status c = ClaimPrepared"
    and "0 \<le> n" and "n \<le> c_quantity c" and "delivery_of s (c_delivery c) = Some d"
  shows "\<exists>s'. completeDeliveryClaim i n s = (Inr (), s') \<and> deliveries_ok s' \<and>
    claim_of s' i = Some (finish_claim n c) \<and>
    delivery_of s' (c_delivery c) = Some (settle_reserve n (c_quantity c) d) \<and>
    items_owed s' b = items_owed s b - (if on_book s b (d_market d) then n else 0) \<and>
    completeDeliveryClaim i n s' = (Inr (), s') \<and>
    (k \<noteq> n \<longrightarrow> isl (fst (completeDeliveryClaim i k s')) \<and> snd (completeDeliveryClaim i k s') = s')"
proof -
  note C = claim_of_Some [OF assms(2)]
  let ?s = "completed_state c n s"
  note S = completed_state_ok [OF assms(1) conjunct1 [OF C] assms(3,4,5,6)]
  have run: "completeDeliveryClaim i n s = (Inr (), ?s)"
    using completeDeliveryClaim_prepared [OF assms(1,2,3), of n] assms(4,5) by simp
  have c': "claim_of ?s i = Some (finish_claim n c)" using S(3) C by simp
  have "c_status (finish_claim n c) \<noteq> ClaimPrepared" by simp
  note again = completeDeliveryClaim_done [OF c' this]
  have "completeDeliveryClaim i n ?s = (Inr (), ?s)" using assms(4) by (simp add: again)
  moreover have "k \<noteq> n \<longrightarrow> isl (fst (completeDeliveryClaim i k ?s)) \<and> snd (completeDeliveryClaim i k ?s) = ?s"
    by (auto simp: again)
  ultimately show ?thesis using run S(1,2,4) c' by blast
qed

theorem completeDeliveryClaim_once_witness:
  "\<exists>s'. completeDeliveryClaim 2 1 demo_owed = (Inr (), s') \<and> deliveries_ok s' \<and>
    items_owed s' 1 = 6 \<and> completeDeliveryClaim 2 1 s' = (Inr (), s')"
proof -
  have "claim_of demo_owed 2 = Some (new_claim 2 1 ''alice'' 3)"
    "c_status (new_claim 2 1 ''alice'' 3) = ClaimPrepared"
    "(1::int) \<le> c_quantity (new_claim 2 1 ''alice'' 3)"
    "delivery_of demo_owed (c_delivery (new_claim 2 1 ''alice'' 3)) = Some \<lparr>d_id = 1, d_player = ''alice'',
       d_market = 2, d_quantity = 9, d_claimed = 2, d_reserved = 3, d_reason = ''TRADE_BUY''\<rparr>"
    by code_simp+
  moreover have "on_book demo_owed 1 2" "items_owed demo_owed 1 = 7" by code_simp+
  ultimately show ?thesis
    using completeDeliveryClaim_once [OF demo_owed_ok, of 2 "new_claim 2 1 ''alice'' 3" 1 _ 1 0] by auto
qed

text \<open>
  A claim is listed for recovery from the moment it is prepared until its receipts are cleaned:
  the player finds it among the unfinished claims after preparing and after completing it, and no
  longer after the cleaning, which succeeds; the claim itself stays on record as applied.
\<close>

theorem claim_recoverable_until_cleaned:
  assumes "deliveries_ok s" and "prepareDeliveryClaim i u q s = (Inr r, s1)"
    and "0 < n" and "n \<le> dc_quantity r"
  shows "\<exists>s2 s3 l1 l2 l3. completeDeliveryClaim (dc_id r) n s1 = (Inr (), s2) \<and>
    markDeliveryClaimCleaned (dc_id r) s2 = (Inr (), s3) \<and> deliveries_ok s3 \<and>
    unfinishedDeliveryClaims u s1 = (Inr l1, s1) \<and> dc_id r \<in> dc_id ` set l1 \<and>
    unfinishedDeliveryClaims u s2 = (Inr l2, s2) \<and> dc_id r \<in> dc_id ` set l2 \<and>
    unfinishedDeliveryClaims u s3 = (Inr l3, s3) \<and> dc_id r \<notin> dc_id ` set l3 \<and>
    map_option (\<lambda>c. (c_status c, c_applied c, c_cleaned c)) (claim_of s3 (dc_id r)) =
      Some (ClaimApplied, n, True)"
proof -
  note c = prepareDeliveryClaim_Inr [OF assms(2)]
  then obtain d where d: "delivery_of s i = Some d" "d_player d = u" "0 < unreserved d" "0 < q"
    by (auto simp: claimable_def split: option.splits)
  let ?q = "min q (unreserved d)" and ?i = "fresh_id c_id (claims s)"
  have run: "s1 = prepared_state i u ?q s" "dc_id r = ?i" "dc_quantity r = ?q"
    using prepareDeliveryClaim_eq [OF assms(1), of i u q] c d assms(2) by simp_all
  let ?c = "new_claim ?i i u ?q"
  have ok1: "deliveries_ok s1" unfolding run(1)
    by (rule prepared_state_ok(1) [OF assms(1) d(1,2)]) (use d in auto)
  have mem1: "?c \<in> set (claims s1)" by (simp add: run(1) prepared_state_def)
  then have c1: "claim_of s1 ?i = Some ?c"
    using find_key_distinct [OF deliveries_okD(2) [OF ok1], of ?c] by (simp add: claim_of_def)
  let ?s2 = "completed_state ?c n s1"
  from claim_joined [OF ok1 mem1] obtain d1 where d1: "delivery_of s1 (c_delivery ?c) = Some d1" by blast
  have st: "c_status ?c = ClaimPrepared" and nq: "0 \<le> n" "n \<le> c_quantity ?c"
    using assms(3,4) run(3) by simp_all
  note S2 = completed_state_ok [OF ok1 mem1 st nq d1]
  have run2: "completeDeliveryClaim ?i n s1 = (Inr (), ?s2)"
    using completeDeliveryClaim_prepared [OF ok1 c1 st, of n] nq by (simp add: not_less)
  have c2: "claim_of ?s2 ?i = Some (finish_claim n ?c)" using S2(3) by simp
  have ap: "c_status (finish_claim n ?c) = ClaimApplied" using assms(3) by simp
  let ?s3 = "?s2\<lparr>claims := upd_where (\<lambda>x. c_id x = ?i) clean_claim (claims ?s2)\<rparr>"
  have run3: "markDeliveryClaimCleaned ?i ?s2 = (Inr (), ?s3)"
    using markDeliveryClaimCleaned_eq [OF S2(1), of ?i] c2 ap by simp
  note ok3 = cleaned_ok [OF S2(1) c2 ap]
  have c3: "claim_of ?s3 ?i = Some (clean_claim (finish_claim n ?c))"
    using c2 by (simp add: claim_of_def clean_claim.find_upd)
  obtain l1 where l1: "unfinishedDeliveryClaims u s1 = (Inr l1, s1)"
    "dc_id ` set l1 = c_id ` {c \<in> set (claims s1). c_player c = u \<and> unfinished_claim c}"
    by (rule unfinished_mem [OF ok1])
  obtain l2 where l2: "unfinishedDeliveryClaims u ?s2 = (Inr l2, ?s2)"
    "dc_id ` set l2 = c_id ` {c \<in> set (claims ?s2). c_player c = u \<and> unfinished_claim c}"
    by (rule unfinished_mem [OF S2(1)])
  obtain l3 where l3: "unfinishedDeliveryClaims u ?s3 = (Inr l3, ?s3)"
    "dc_id ` set l3 = c_id ` {c \<in> set (claims ?s3). c_player c = u \<and> unfinished_claim c}"
    by (rule unfinished_mem [OF ok3])
  have "unfinished_claim ?c" "unfinished_claim (finish_claim n ?c)"
    using assms(3) by (simp_all add: unfinished_claim_def new_claim_def finish_claim_def)
  then have "?i \<in> dc_id ` set l1" "?i \<in> dc_id ` set l2"
    using mem1 claim_of_Some [OF c2] unfolding l1(2) l2(2) by force+
  moreover have "?i \<notin> dc_id ` set l3"
  proof
    assume "?i \<in> dc_id ` set l3"
    then obtain x where "x \<in> set (claims ?s3)" "c_id x = ?i" "unfinished_claim x" unfolding l3(2) by auto
    then have "x = clean_claim (finish_claim n ?c)"
      using distinct_key_eq [OF deliveries_okD(2) [OF ok3], of x "clean_claim (finish_claim n ?c)"]
        claim_of_Some [OF c3] by simp
    with \<open>unfinished_claim x\<close> ap show False by (simp add: unfinished_claim_def)
  qed
  moreover have "map_option (\<lambda>c. (c_status c, c_applied c, c_cleaned c)) (claim_of ?s3 ?i) =
      Some (ClaimApplied, n, True)" using c3 ap by simp
  ultimately show ?thesis
    unfolding run(2) using run2 run3 ok3 l1(1) l2(1) l3(1) by blast
qed

theorem claim_recoverable_until_cleaned_witness:
  "\<exists>r s1 s2 s3. prepareDeliveryClaim 1 ''alice'' 2 demo_owed = (Inr r, s1) \<and>
    completeDeliveryClaim (dc_id r) 2 s1 = (Inr (), s2) \<and>
    markDeliveryClaimCleaned (dc_id r) s2 = (Inr (), s3) \<and> deliveries_ok s3"
proof -
  let ?p = "prepareDeliveryClaim 1 ''alice'' 2 demo_owed"
  have "(case fst ?p of Inl e \<Rightarrow> False | Inr r \<Rightarrow> 2 \<le> dc_quantity r)" by code_simp
  then obtain r where r: "fst ?p = Inr r" "2 \<le> dc_quantity r" by (auto split: sum.splits)
  then have "?p = (Inr r, snd ?p)" by (metis prod.collapse)
  from claim_recoverable_until_cleaned [OF demo_owed_ok this, of 2] r(2) this show ?thesis by fastforce
qed

end
