(* ===== verification/Trade_Log.thy ===== *)
theory Trade_Log
  imports Deliveries
begin

text \<open>
  What order entry and cancellation leave behind besides the book: the identity of the orders, the
  trade log and the deliveries they append. The components that keep references into these tables
  (escrows, delivery claims) rest on these facts.
\<close>

section \<open>Orders and trades\<close>

text \<open>What of an order never changes after it was placed.\<close>

definition order_identity :: "order_row \<Rightarrow> Id \<times> Id \<times> string \<times> Side \<times> OrderType \<times> Cents \<times> int" where
  "order_identity x = (o_id x, o_market x, o_player x, o_side x, o_type x, o_price x, o_original x)"

definition orders_extend :: "db \<Rightarrow> db \<Rightarrow> bool" where
  "orders_extend s s' \<longleftrightarrow>
    (\<exists>new. map order_identity (orders s') = map order_identity (orders s) @ new)"

text \<open>The foreign keys of the trades.\<close>

definition trades_ok :: "db \<Rightarrow> bool" where
  "trades_ok s \<longleftrightarrow> distinct (map t_id (trades s)) \<and>
    (\<forall>t \<in> set (trades s). t_buy t \<in> o_id ` set (orders s) \<and> t_sell t \<in> o_id ` set (orders s))"

lemma trades_okD:
  assumes "trades_ok s"
  shows "distinct (map t_id (trades s))"
    "t \<in> set (trades s) \<Longrightarrow> t_buy t \<in> o_id ` set (orders s)"
    "t \<in> set (trades s) \<Longrightarrow> t_sell t \<in> o_id ` set (orders s)"
  using assms unfolding trades_ok_def by blast+

lemma orders_extend_same: "orders s' = orders s \<Longrightarrow> orders_extend s s'"
  by (simp add: orders_extend_def)

lemma orders_extend_trans: "orders_extend s s1 \<Longrightarrow> orders_extend s1 s2 \<Longrightarrow> orders_extend s s2"
  unfolding orders_extend_def by (metis append.assoc)

lemma orders_extend_identity:
  "orders_extend s s' \<Longrightarrow> order_identity ` set (orders s) \<subseteq> order_identity ` set (orders s')"
  unfolding orders_extend_def by (metis list.set_map set_append Un_upper1)

lemma ids_of_identity: "o_id ` A = fst ` order_identity ` A"
  by (simp add: order_identity_def image_image)

lemma orders_extend_ids: "orders_extend s s' \<Longrightarrow> o_id ` set (orders s) \<subseteq> o_id ` set (orders s')"
  unfolding ids_of_identity by (rule image_mono) (rule orders_extend_identity)

lemma orders_extend_fill:
  assumes "orders s' = map g (orders s) @ ys" and "\<And>x. order_identity (g x) = order_identity x"
  shows "orders_extend s s'"
  using assms by (simp add: orders_extend_def o_def)

lemma fill_row_identity:
  "order_identity (fill_row ask_fill p x) = order_identity x"
  "order_identity (fill_row bid_fill p x) = order_identity x"
  by (simp_all add: order_identity_def fill_row_def ask_fill_def bid_fill_def set_fill_def
      set_fill_reserved_def split: option.splits)

lemma add_rows_member:
  "x \<in> set (add_rows key mk xs vs) \<Longrightarrow> x \<in> set xs \<or> (\<exists>i. \<exists>v \<in> set vs. x = mk i v)"
  by (induction vs arbitrary: xs) (fastforce simp: add_rows_Cons)+

lemma trades_ok_added:
  assumes "trades_ok s" and "orders_extend s s'" and "trades s' = add_rows t_id mk_trade (trades s) vs"
    and "\<And>m b sl u v p q. (m, b, sl, u, v, p, q) \<in> set vs \<Longrightarrow>
      b \<in> o_id ` set (orders s') \<and> sl \<in> o_id ` set (orders s')"
  shows "trades_ok s'"
  unfolding trades_ok_def
proof (intro conjI ballI)
  show "distinct (map t_id (trades s'))"
    unfolding assms(3) by (rule add_rows_distinct [OF _ trades_okD(1) [OF assms(1)]]) (auto simp: mk_trade_def)
  fix t assume t: "t \<in> set (trades s')"
  note sub = subsetD [OF orders_extend_ids [OF assms(2)]]
  from add_rows_member [OF t [unfolded assms(3)]]
  consider "t \<in> set (trades s)" | i v where "v \<in> set vs" "t = mk_trade i v" by blast
  then have "t_buy t \<in> o_id ` set (orders s') \<and> t_sell t \<in> o_id ` set (orders s')"
  proof cases
    case 1
    then show ?thesis using trades_okD(2,3) [OF assms(1)] sub by blast
  next
    case 2
    obtain m b sl u w p q where "v = (m, b, sl, u, w, p, q)" by (cases v)
    with 2 assms(4) show ?thesis by (simp add: mk_trade_def)
  qed
  then show "t_buy t \<in> o_id ` set (orders s')" "t_sell t \<in> o_id ` set (orders s')" by simp_all
qed

lemma plan_delivery_range:
  assumes "orders_ok s" and "plan_for p (orders s)" and "(a, f) \<in> set p"
  shows "0 < f" "f \<le> int32_max" "o_id a \<in> o_id ` set (orders s)"
proof -
  from assms(2,3) have a: "a \<in> set (orders s)" "0 < f" "f \<le> o_remaining a" by (auto simp: plan_for_def)
  with orders_okD(2) [OF assms(1) a(1)] show "0 < f" "f \<le> int32_max" "o_id a \<in> o_id ` set (orders s)"
    by (auto simp: order_ok_def)
qed

section \<open>What placing and canceling append\<close>

text \<open>The three effects in one: the log grows, references stay valid, deliveries stay in balance.\<close>

definition logged :: "db \<Rightarrow> db \<Rightarrow> bool" where
  "logged s s' \<longleftrightarrow> trade_frame s s' \<and> orders_extend s s' \<and>
    (trades_ok s \<longrightarrow> trades_ok s') \<and> (deliveries_ok s \<longrightarrow> deliveries_ok s')"

lemma logged_money_only: "money_only s s' \<Longrightarrow> logged s s'"
  unfolding logged_def
  by (auto simp: money_only_trade_frame money_onlyD trades_ok_def market_of_def intro: orders_extend_same
      elim: deliveries_ok_frame)

lemma logged_trans: "logged s s1 \<Longrightarrow> logged s1 s2 \<Longrightarrow> logged s s2"
  unfolding logged_def using trade_frame_trans orders_extend_trans by blast

lemma sold_logged:
  assumes ok: "orders_ok s" and r: "request_ok r" and E: "sold r (sell_plan_of s b r) s s' res"
    and mk: "market_of s (rq_market r) \<noteq> None"
  shows "logged s s'"
proof -
  let ?p = "sell_plan_of s b r" and ?i = "fresh_id o_id (orders s)"
  note P = sell_plan_facts [OF ok r, of b] and R = plan_delivery_range [OF ok sell_plan_facts(1) [OF ok r]]
  have fr: "trade_frame s s'"
    and os: "orders s' = map (fill_row bid_fill ?p) (orders s) @ [taker_row r Sell ?i (plan_quantity ?p)]"
    and ts: "trades s' = add_rows t_id mk_trade (trades s) (sell_trades r ?i ?p)"
    and ds: "deliveries s' = add_rows d_id (trade_delivery ''MARKET_REMAINDER'')
       (add_rows d_id (trade_delivery ''TRADE_BUY'') (deliveries s)
         (map (\<lambda>(b, f). (o_player b, rq_market r, f)) ?p)) (remainder_delivery r (plan_quantity ?p))"
    using E by (simp_all add: sold_def Let_def)
  have ext: "orders_extend s s'" by (rule orders_extend_fill [OF os]) (rule fill_row_identity)
  have "o_id ` set (orders s') = o_id ` set (orders s) \<union> {?i}" by (auto simp: os image_iff)
  then have "trades_ok s \<Longrightarrow> trades_ok s'"
    using R by (intro trades_ok_added [OF _ ext ts]) (auto simp: sell_trades_def)
  moreover have "deliveries_ok s'" if d: "deliveries_ok s"
  proof -
    let ?s1 = "s\<lparr>deliveries := add_rows d_id (trade_delivery ''TRADE_BUY'') (deliveries s)
         (map (\<lambda>(b, f). (o_player b, rq_market r, f)) ?p)\<rparr>"
    have "deliveries_ok ?s1" by (rule deliveries_added_ok [OF d]) (use R mk in auto)
    then have "deliveries_ok (?s1\<lparr>deliveries := add_rows d_id (trade_delivery ''MARKET_REMAINDER'')
        (deliveries ?s1) (remainder_delivery r (plan_quantity ?p))\<rparr>)"
      by (rule deliveries_added_ok) (use P r mk in \<open>auto simp: remainder_delivery_def request_ok_def\<close>)
    then show ?thesis
      by (rule deliveries_ok_frame) (use fr ds in \<open>simp_all add: trade_frame_def market_of_def\<close>)
  qed
  ultimately show ?thesis using fr ext by (simp add: logged_def)
qed

lemma bought_logged:
  assumes ok: "orders_ok s" and r: "request_ok r" and E: "bought r (buy_plan_of s b r) s s' res"
    and mk: "market_of s (rq_market r) \<noteq> None"
  shows "logged s s'"
proof -
  let ?p = "buy_plan_of s b r" and ?i = "fresh_id o_id (orders s)"
  note R = plan_delivery_range [OF ok buy_plan_facts(1) [OF ok r]]
  have fr: "trade_frame s s'"
    and os: "orders s' = map (fill_row ask_fill ?p) (orders s) @ [taker_row r Buy ?i (plan_quantity ?p)]"
    and ts: "trades s' = add_rows t_id mk_trade (trades s) (buy_trades r ?i ?p)"
    and ds: "deliveries s' = add_rows d_id (trade_delivery ''TRADE_BUY'') (deliveries s)
       (map (\<lambda>(a, f). (rq_uuid r, rq_market r, f)) ?p)"
    using E by (simp_all add: bought_def Let_def)
  have ext: "orders_extend s s'" by (rule orders_extend_fill [OF os]) (rule fill_row_identity)
  have "o_id ` set (orders s') = o_id ` set (orders s) \<union> {?i}" by (auto simp: os image_iff)
  then have "trades_ok s \<Longrightarrow> trades_ok s'"
    using R by (intro trades_ok_added [OF _ ext ts]) (auto simp: buy_trades_def)
  moreover have "deliveries_ok s \<Longrightarrow> deliveries_ok s'"
    by (rule deliveries_ok_traded [OF _ fr ds]) (use R mk in auto)
  ultimately show ?thesis using fr ext by (simp add: logged_def)
qed

lemma closed_logged:
  assumes ok: "orders_ok s" and x: "x \<in> set (orders s)" and E: "closed x reason s s'"
  shows "logged s s'"
proof -
  have fr: "trade_frame s s'" and os: "orders s' = upd_where (\<lambda>y. o_id y = o_id x) closed_row (orders s)"
    and ts: "trades s' = trades s"
    and ds: "deliveries s' = add_rows d_id (trade_delivery reason) (deliveries s)
      (if o_side x = Sell \<and> 0 < o_remaining x then [(o_player x, o_market x, o_remaining x)] else [])"
    using E by (simp_all add: closed_def)
  have "map order_identity (orders s') = map order_identity (orders s)"
    unfolding os by (rule map_upd_where) (simp add: order_identity_def closed_row_def set_fill_reserved_def)
  then have ext: "orders_extend s s'" by (simp add: orders_extend_def)
  have "trades_ok s \<Longrightarrow> trades_ok s'"
    by (rule trades_ok_added [OF _ ext, of "[]"]) (simp_all add: ts)
  moreover have "deliveries_ok s \<Longrightarrow> deliveries_ok s'"
    by (rule deliveries_ok_traded [OF _ fr ds])
      (use orders_okD(2,3) [OF ok x] in \<open>auto simp: order_ok_def order_refs_def simp del: not_None_eq\<close>)
  ultimately show ?thesis using fr ext by (simp add: logged_def)
qed

end
