(* ===== verification/Sell_Escrow.thy ===== *)
theory Sell_Escrow
  imports Trade_Log
begin

text \<open>
  The sell escrow of src/exchange_service.cpp: the plugin takes items out of an inventory in two
  steps (tag them, remove them), so a sale is a little state machine of its own. It is PREPARED by
  \<open>prepareSellEscrow\<close>, TAGGED by \<open>markSellEscrowTagged\<close> once the items carry its marker, ORDERED by
  \<open>executeSellEscrow\<close>, which places the order in the same transaction, and cleaned by
  \<open>markSellEscrowCleaned\<close>; a prepared one can still be CANCELED. A crash between two steps is
  survived by repeating the step.
\<close>

section \<open>Operations\<close>

definition new_escrow :: "Id \<Rightarrow> OrderRequest \<Rightarrow> escrow_row" where
  "new_escrow i r = \<lparr>e_id = i, e_market = rq_market r, e_player = rq_uuid r, e_name = rq_name r,
     e_type = rq_type r, e_price = (if rq_type r = Limit then rq_price r else 0),
     e_requested = rq_quantity r, e_tagged = 0, e_receipts = 0, e_status = EscrowPrepared,
     e_order = None, e_cleaned = False\<rparr>"

definition prepareSellEscrow :: "service_config \<Rightarrow> OrderRequest \<Rightarrow> SellEscrow dbm" where
  "prepareSellEscrow cfg r =
    bindS (liftS (validateRequest cfg r)) (\<lambda>_.
    bindS (throwIf (rq_side r \<noteq> Sell) (Runtime_Error ''sell escrow requires a sell order'')) (\<lambda>_.
    bindS (ensureAccount cfg (rq_uuid r) (rq_name r)) (\<lambda>_.
    transactionS (
      bindS (queryS (\<lambda>s. market_of s (rq_market r))) (\<lambda>market.
      case market of None \<Rightarrow> throwS market_inactive
      | Some m \<Rightarrow>
        bindS (throwIf (\<not> mk_active m) market_inactive) (\<lambda>_.
        bindS (queryS (\<lambda>s. fresh_id e_id (escrows s))) (\<lambda>i.
        bindS (executeS (\<lambda>s. s\<lparr>escrows := escrows s @ [new_escrow i r]\<rparr>)) (\<lambda>_.
        returnS \<lparr>se_id = i, se_market = rq_market r, se_item = mk_item m, se_uuid = rq_uuid r,
          se_name = rq_name r, se_type = rq_type r,
          se_price = (if rq_type r = Limit then rq_price r else 0), se_requested = rq_quantity r,
          se_tagged = 0, se_receipts = 0, se_status = EscrowPrepared, se_order = None,
          se_cleaned = False\<rparr>))))))))"

definition escrow_missing :: error where
  "escrow_missing = Runtime_Error ''sell escrow does not exist''"

definition updateEscrow :: "Id \<Rightarrow> (escrow_row \<Rightarrow> escrow_row) \<Rightarrow> unit dbm" where
  "updateEscrow i g = executeS (\<lambda>s. s\<lparr>escrows := upd_where (\<lambda>e. e_id e = i) g (escrows s)\<rparr>)"

definition set_tagged :: "int \<Rightarrow> int \<Rightarrow> escrow_row \<Rightarrow> escrow_row" where
  "set_tagged tagged receipts e =
    e\<lparr>e_tagged := tagged, e_receipts := receipts, e_status := EscrowTagged\<rparr>"

definition markSellEscrowTagged :: "Id \<Rightarrow> int \<Rightarrow> int \<Rightarrow> unit dbm" where
  "markSellEscrowTagged i tagged receipts =
    bindS (throwIf (tagged \<le> 0 \<or> receipts \<le> 0)
      (Runtime_Error ''tagged sell escrow quantities must be positive'')) (\<lambda>_.
    transactionS (
      bindS (queryS (\<lambda>s. escrow_of s i)) (\<lambda>row.
      case row of None \<Rightarrow> throwS escrow_missing
      | Some e \<Rightarrow>
        bindS (throwIf (tagged < e_requested e)
          (Runtime_Error ''tagged sell quantity is smaller than the order'')) (\<lambda>_.
        if e_status e = EscrowTagged \<and> e_tagged e = tagged \<and> e_receipts e = receipts then returnS ()
        else
          bindS (throwIf (e_status e \<noteq> EscrowPrepared)
            (Runtime_Error ''sell escrow is not waiting for item tags'')) (\<lambda>_.
          updateEscrow i (set_tagged tagged receipts))))))"

text \<open>\<open>cellInt64\<close> of a sum: a value outside \<open>std::int64_t\<close> is refused by \<open>std::stoll\<close>.\<close>

definition cellInt64_of :: "int \<Rightarrow> int result" where
  "cellInt64_of v = (if v < int64_min \<or> v > int64_max then Inl (Overflow_Error ''stoll'') else Inr v)"

definition sold_quantity :: "db \<Rightarrow> Id \<Rightarrow> int" where
  "sold_quantity s i = (\<Sum>t\<leftarrow>filter (\<lambda>t. t_sell t = i) (trades s). t_quantity t)"

definition sold_gross :: "db \<Rightarrow> Id \<Rightarrow> Cents" where
  "sold_gross s i = (\<Sum>t\<leftarrow>filter (\<lambda>t. t_sell t = i) (trades s). t_price t * t_quantity t)"

text \<open>
  The answer for an escrow that has already become an order, read back from the order and its
  trades. The code dereferences \<open>order_id\<close> without a test; for a NULL its behaviour is undefined,
  here an error, which \<open>escrows_ok\<close> below excludes.
\<close>

definition replay_order :: "escrow_row \<Rightarrow> ExecutionResult dbm" where
  "replay_order e =
    (case e_order e of None \<Rightarrow> throwS (Runtime_Error ''bad optional access'')
     | Some oid \<Rightarrow>
       bindS (queryS (\<lambda>s. order_of s oid)) (\<lambda>order.
       case order of None \<Rightarrow> throwS (Runtime_Error ''ordered sell escrow has no order'')
       | Some x \<Rightarrow>
         bindS (queryS (\<lambda>s. sold_quantity s oid)) (\<lambda>q.
         bindS (liftS (cellInt_of q)) (\<lambda>filled.
         bindS (lockedBalance (e_player e)) (\<lambda>final.
         bindS (queryS (\<lambda>s. sold_gross s oid)) (\<lambda>g.
         bindS (liftS (cellInt64_of g)) (\<lambda>gross.
         returnS \<lparr>ex_order = oid, ex_requested = o_original x, ex_filled = filled,
           ex_open = o_remaining x, ex_gross = gross, ex_balance = final\<rparr>)))))))"

definition escrow_request :: "escrow_row \<Rightarrow> OrderRequest" where
  "escrow_request e = \<lparr>rq_market = e_market e, rq_uuid = e_player e, rq_name = e_name e,
     rq_side = Sell, rq_type = e_type e, rq_price = e_price e, rq_quantity = e_requested e\<rparr>"

definition set_ordered :: "Id \<Rightarrow> escrow_row \<Rightarrow> escrow_row" where
  "set_ordered oid e = e\<lparr>e_status := EscrowOrdered, e_order := Some oid\<rparr>"

definition executeSellEscrow :: "Id \<Rightarrow> ExecutionResult dbm" where
  "executeSellEscrow i = transactionS (
    bindS (queryS (\<lambda>s. escrow_of s i)) (\<lambda>row.
    case row of None \<Rightarrow> throwS escrow_missing
    | Some e \<Rightarrow>
      if e_status e = EscrowOrdered then replay_order e
      else
        bindS (throwIf (e_status e \<noteq> EscrowTagged)
          (Runtime_Error ''sell escrow is not ready to become an order'')) (\<lambda>_.
        bindS (placeSellLocked (escrow_request e)) (\<lambda>result.
        bindS (whenS (e_tagged e > e_requested e)
          (addDelivery (e_player e) (e_market e) (e_tagged e - e_requested e) ''ESCROW_EXCESS'')) (\<lambda>_.
        bindS (updateEscrow i (set_ordered (ex_order result))) (\<lambda>_.
        returnS result))))))"

definition set_canceled :: "escrow_row \<Rightarrow> escrow_row" where
  "set_canceled e = e\<lparr>e_status := EscrowCanceled, e_cleaned := True\<rparr>"

definition cancelSellEscrow :: "Id \<Rightarrow> unit dbm" where
  "cancelSellEscrow i = transactionS (
    bindS (queryS (\<lambda>s. escrow_of s i)) (\<lambda>row.
    case row of None \<Rightarrow> throwS escrow_missing
    | Some e \<Rightarrow>
      if e_status e = EscrowCanceled then returnS ()
      else
        bindS (throwIf (e_status e \<noteq> EscrowPrepared)
          (Runtime_Error ''only a prepared sell escrow can be canceled'')) (\<lambda>_.
        updateEscrow i set_canceled)))"

definition set_cleaned :: "escrow_row \<Rightarrow> escrow_row" where
  "set_cleaned e = e\<lparr>e_cleaned := True\<rparr>"

definition markSellEscrowCleaned :: "Id \<Rightarrow> unit dbm" where
  "markSellEscrowCleaned i =
    bindS (updateS (\<lambda>s. True) foreign_key_failed
      (\<lambda>s. count_where (\<lambda>e. e_id e = i \<and> e_status e = EscrowOrdered) (escrows s))
      (\<lambda>s. s\<lparr>escrows := upd_where (\<lambda>e. e_id e = i \<and> e_status e = EscrowOrdered) set_cleaned
         (escrows s)\<rparr>)) (\<lambda>affected.
    throwIf (affected \<noteq> 1) (Runtime_Error ''ordered sell escrow does not exist''))"

definition escrow_join :: "db \<Rightarrow> escrow_row \<Rightarrow> (escrow_row \<times> market_row) option" where
  "escrow_join s e = map_option (Pair e) (market_of s (e_market e))"

definition unfinished_escrow :: "escrow_row \<Rightarrow> bool" where
  "unfinished_escrow e \<longleftrightarrow> e_status e \<noteq> EscrowCanceled \<and> \<not> e_cleaned e"

definition unfinishedSellEscrows :: "string \<Rightarrow> SellEscrow list dbm" where
  "unfinishedSellEscrows u = queryS (\<lambda>s.
    map (\<lambda>(e, m). escrow_view e (mk_item m)) (List.map_filter (escrow_join s)
      (sort_key e_id (filter (\<lambda>e. e_player e = u \<and> unfinished_escrow e) (escrows s)))))"

definition findSellEscrow :: "Id \<Rightarrow> string \<Rightarrow> SellEscrow option dbm" where
  "findSellEscrow i u = queryS (\<lambda>s.
    case find (\<lambda>e. e_id e = i \<and> e_player e = u) (escrows s) of None \<Rightarrow> None
    | Some e \<Rightarrow> map_option (\<lambda>(e, m). escrow_view e (mk_item m)) (escrow_join s e))"

section \<open>The invariant\<close>

definition escrow_ordered :: "order_row list \<Rightarrow> escrow_row \<Rightarrow> Id \<Rightarrow> bool" where
  "escrow_ordered os e i \<longleftrightarrow> (i, e_market e, e_player e, Sell, e_type e, e_price e, e_requested e)
     \<in> order_identity ` set os"

definition escrow_ok :: "order_row list \<Rightarrow> escrow_row \<Rightarrow> bool" where
  "escrow_ok os e \<longleftrightarrow> request_ok (escrow_request e) \<and> (e_type e = Market \<longrightarrow> e_price e = 0) \<and>
    (case e_status e of
       EscrowPrepared \<Rightarrow> e_tagged e = 0 \<and> e_receipts e = 0 \<and> e_order e = None \<and> \<not> e_cleaned e
     | EscrowTagged \<Rightarrow> e_requested e \<le> e_tagged e \<and> e_tagged e \<le> int32_max \<and> 0 < e_receipts e \<and>
         e_order e = None \<and> \<not> e_cleaned e
     | EscrowOrdered \<Rightarrow> e_requested e \<le> e_tagged e \<and> 0 < e_receipts e \<and>
         pred_option (escrow_ordered os e) (e_order e) \<and> e_order e \<noteq> None
     | EscrowCanceled \<Rightarrow> e_tagged e = 0 \<and> e_receipts e = 0 \<and> e_order e = None \<and> e_cleaned e)"

definition escrow_refs :: "db \<Rightarrow> escrow_row \<Rightarrow> bool" where
  "escrow_refs s e \<longleftrightarrow> account_of s (e_player e) \<noteq> None \<and> market_of s (e_market e) \<noteq> None"

text \<open>\<open>order_id ... UNIQUE\<close>: no order belongs to two escrows.\<close>

definition escrow_unique :: "escrow_row list \<Rightarrow> bool" where
  "escrow_unique es \<longleftrightarrow> (\<forall>e \<in> set es. \<forall>e' \<in> set es.
     e_order e \<noteq> None \<and> e_order e = e_order e' \<longrightarrow> e_id e = e_id e')"

definition escrows_ok :: "db \<Rightarrow> bool" where
  "escrows_ok s \<longleftrightarrow> distinct (map e_id (escrows s)) \<and> escrow_unique (escrows s) \<and>
    (\<forall>e \<in> set (escrows s). escrow_ok (orders s) e \<and> escrow_refs s e)"

lemma escrows_okD:
  assumes "escrows_ok s"
  shows "distinct (map e_id (escrows s))" "escrow_unique (escrows s)"
    "e \<in> set (escrows s) \<Longrightarrow> escrow_ok (orders s) e" "e \<in> set (escrows s) \<Longrightarrow> escrow_refs s e"
  using assms unfolding escrows_ok_def by blast+

interpretation set_tagged: keyed_update e_id "set_tagged t n" for t n
  by unfold_locales (simp add: set_tagged_def)

interpretation set_ordered: keyed_update e_id "set_ordered oid" for oid
  by unfold_locales (simp add: set_ordered_def)

interpretation set_canceled: keyed_update e_id set_canceled
  by unfold_locales (simp add: set_canceled_def)

interpretation set_cleaned: keyed_update e_id set_cleaned
  by unfold_locales (simp add: set_cleaned_def)

lemma escrow_of_Some: "escrow_of s i = Some e \<Longrightarrow> e \<in> set (escrows s) \<and> e_id e = i"
  unfolding escrow_of_def by (rule find_key_in)

lemma escrow_ordered_mono:
  "order_identity ` set os \<subseteq> order_identity ` set os' \<Longrightarrow> escrow_ordered os e i \<Longrightarrow> escrow_ordered os' e i"
  by (auto simp: escrow_ordered_def)

lemma escrow_ok_extend:
  assumes "orders_extend s s'" and "escrow_ok (orders s) e"
  shows "escrow_ok (orders s') e"
  using assms(2) escrow_ordered_mono [OF orders_extend_identity [OF assms(1)]]
  by (cases "e_order e") (auto simp: escrow_ok_def split: SellEscrowStatus.splits)

lemma escrow_refs_frame: "trade_frame s s' \<Longrightarrow> escrow_refs s e \<Longrightarrow> escrow_refs s' e"
  using trade_frame_refs(1,2) [of s s'] by (simp add: escrow_refs_def del: not_None_eq)

lemma escrows_ok_logged:
  assumes "escrows_ok s" and "logged s s'"
  shows "escrows_ok s'"
proof -
  have "trade_frame s s'" "orders_extend s s'" "escrows s' = escrows s"
    using assms(2) by (simp_all add: logged_def trade_frame_def)
  with assms(1) escrow_ok_extend [of s s'] escrow_refs_frame [of s s'] show ?thesis
    by (simp add: escrows_ok_def)
qed

text \<open>One row moves on.\<close>

lemma escrow_updated_ok:
  assumes ok: "escrows_ok s" and e: "escrow_of s i = Some e"
    and keep: "\<And>x. e_id (g x) = e_id x" "e_player (g e) = e_player e" "e_market (g e) = e_market e"
    and g: "escrow_ok (orders s) (g e)"
    and fresh: "e_order (g e) = e_order e \<or> (\<forall>e' \<in> set (escrows s). e_order e' \<noteq> e_order (g e))"
  shows "escrows_ok (s\<lparr>escrows := upd_where (\<lambda>x. e_id x = i) g (escrows s)\<rparr>)" (is "escrows_ok ?s'")
proof -
  note E = escrow_of_Some [OF e] and dist = escrows_okD(1) [OF ok]
  have only: "x = e" if "x \<in> set (escrows s)" "e_id x = i" for x
    using distinct_key_eq [OF dist that(1), of e] E that by simp
  have mem: "x = g e \<or> x \<in> set (escrows s)" if "x \<in> set (escrows ?s')" for x
    using that only by (auto simp: in_upd_where split: if_splits)
  have "distinct (map e_id (escrows ?s'))" using dist keep(1) by (simp add: map_upd_where)
  moreover have "escrow_unique (escrows ?s')"
    unfolding escrow_unique_def
  proof (intro ballI impI, elim conjE)
    fix x y assume x: "x \<in> set (escrows ?s')" and y: "y \<in> set (escrows ?s')"
      and o: "e_order x \<noteq> None" "e_order x = e_order y"
    from escrows_okD(2) [OF ok] have U: "\<And>a b. a \<in> set (escrows s) \<Longrightarrow> b \<in> set (escrows s) \<Longrightarrow>
      e_order a \<noteq> None \<Longrightarrow> e_order a = e_order b \<Longrightarrow> e_id a = e_id b" unfolding escrow_unique_def by blast
    from mem [OF x] mem [OF y] show "e_id x = e_id y"
      using U [of x y] U [of e y] U [of x e] o fresh keep(1) E by metis
  qed
  moreover have "escrow_ok (orders ?s') x \<and> escrow_refs ?s' x" if "x \<in> set (escrows ?s')" for x
  proof -
    have "escrow_refs ?s' y = escrow_refs s y" for y by (simp add: escrow_refs_def account_of_def)
    moreover have "escrow_refs s (g e) = escrow_refs s e" by (simp add: escrow_refs_def keep)
    ultimately show ?thesis using mem [OF that] g escrows_okD(3,4) [OF ok] E by auto
  qed
  ultimately show ?thesis unfolding escrows_ok_def by blast
qed

text \<open>Nothing outside the escrow table changes, so the other components do not notice.\<close>

lemma escrows_only [simp]:
  "trading_ok (s\<lparr>escrows := es\<rparr>) = trading_ok s" "money_supply (s\<lparr>escrows := es\<rparr>) = money_supply s"
  "items_held (s\<lparr>escrows := es\<rparr>) b = items_held s b" "trades_ok (s\<lparr>escrows := es\<rparr>) = trades_ok s"
  "deliveries_ok (s\<lparr>escrows := es\<rparr>) = deliveries_ok s"
  "sold_quantity (s\<lparr>escrows := es\<rparr>) i = sold_quantity s i" "sold_gross (s\<lparr>escrows := es\<rparr>) i = sold_gross s i"
  "order_of (s\<lparr>escrows := es\<rparr>) i = order_of s i"
  by (simp_all add: trading_ok_def orders_ok_def order_refs_def uncrossed_def money_supply_def
      reserved_total_def items_held_def items_offered_def items_owed_def trades_ok_def deliveries_ok_def
      sold_quantity_def sold_gross_def order_of_def)

lemma escrow_of_updated:
  assumes "\<And>x. e_id (g x) = e_id x" and "escrow_of s i = Some e"
  shows "escrow_of (s\<lparr>escrows := upd_where (\<lambda>x. e_id x = i) g (escrows s)\<rparr>) i = Some (g e)"
  using assms(2) by (simp add: escrow_of_def find_upd_where_key [of e_id g, OF assms(1)])

section \<open>Becoming an order\<close>

lemma addDelivery_logged:
  assumes "addDelivery u m q reason s = (Inr x, s')" and "market_of s m \<noteq> None" and "q \<le> int32_max"
  shows "logged s s'" "trading_ok s \<Longrightarrow> trading_ok s'" "money_supply s' = money_supply s"
    "0 \<le> q \<Longrightarrow> items_held s' b = items_held s b + (if on_book s b m then q else 0)"
    "trades s' = trades s" "orders s' = orders s" "accounts s' = accounts s" "escrows s' = escrows s"
proof -
  have s': "s' = (if q \<le> 0 then s else s\<lparr>deliveries :=
      add_rows d_id (trade_delivery reason) (deliveries s) [(u, m, q)]\<rparr>)"
    using assms(1) by (simp add: addDelivery_Inr)
  show same: "trades s' = trades s" "orders s' = orders s" "accounts s' = accounts s" "escrows s' = escrows s"
    by (simp_all add: s')
  have fr: "trade_frame s s'" by (simp add: s')
  have "deliveries_ok s \<Longrightarrow> deliveries_ok s'"
    using deliveries_added_ok [of s "[(u, m, q)]" reason] assms(2,3) by (auto simp: s' simp del: not_None_eq)
  moreover have "trades_ok s \<Longrightarrow> trades_ok s'" by (simp add: trades_ok_def same)
  ultimately show "logged s s'" using fr by (simp add: logged_def orders_extend_same same)
  show "trading_ok s \<Longrightarrow> trading_ok s'"
    by (simp add: s' trading_ok_def orders_ok_def order_refs_def uncrossed_def)
  show "money_supply s' = money_supply s" by (simp add: s' money_supply_def reserved_total_def)
  show "0 \<le> q \<Longrightarrow> items_held s' b = items_held s b + (if on_book s b m then q else 0)"
    by (auto simp: s' items_held_def items_offered_def items_owed_def owed_add_deliveries)
qed

text \<open>What \<open>placeSellLocked\<close> does for an escrow, and what the log says about it afterwards.\<close>

lemma placeSellLocked_logged:
  assumes ok: "trading_ok s" and r: "request_ok r" and run: "placeSellLocked r s = (Inr res, s')"
  shows "logged s s'"
proof -
  have q: "0 < rq_quantity r" using r by (simp add: request_ok_def)
  from placeSellLocked_effect [OF trading_okD(1,2) [OF ok] q run] obtain b where
    b: "lockActiveBook (rq_market r) s = (Inr b, s)" and E: "sold r (sell_plan_of s b r) s s' res" by blast
  from sold_logged [OF trading_okD(2) [OF ok] r E] lockActiveBook_on_book [OF b] show ?thesis by simp
qed

lemma filter_sells_new:
  assumes tr: "trades_ok s" and ts: "trades s' = trades s @ ts"
    and info: "map trade_info ts = sell_trades r (fresh_id o_id (orders s)) p"
  shows "filter (\<lambda>t. t_sell t = fresh_id o_id (orders s)) (trades s') = ts"
proof -
  have "t_sell t \<noteq> fresh_id o_id (orders s)" if "t \<in> set (trades s)" for t
    using trades_okD(3) [OF tr that] fresh_id_neq [of _ "orders s" o_id] by force
  then have "filter (\<lambda>t. t_sell t = fresh_id o_id (orders s)) (trades s) = []" by (simp add: filter_empty_conv)
  moreover have "t_sell t = fresh_id o_id (orders s)" if "t \<in> set ts" for t
  proof -
    from that have "trade_info t \<in> set (map trade_info ts)" by simp
    then show ?thesis unfolding info by (auto simp: sell_trades_def trade_info_def)
  qed
  ultimately show ?thesis by (simp add: ts)
qed

lemma placed_sell_log:
  assumes ok: "trading_ok s" and tr: "trades_ok s" and r: "request_ok r" and side: "rq_side r = Sell"
    and run: "placeSellLocked r s = (Inr res, s')"
  shows "sold_quantity s' (ex_order res) = ex_filled res" "sold_gross s' (ex_order res) = ex_gross res"
    "ex_order res = fresh_id o_id (orders s)" "ex_requested res = rq_quantity r"
    "\<exists>x. order_of s' (ex_order res) = Some x \<and> o_original x = rq_quantity r \<and> o_remaining x = ex_open res \<and>
      order_identity x = (ex_order res, rq_market r, rq_uuid r, Sell, rq_type r,
        if rq_type r = Limit then rq_price r else 0, rq_quantity r)"
    "0 \<le> ex_filled res" "ex_filled res \<le> int32_max" "int64_min \<le> ex_gross res" "ex_gross res \<le> int64_max"
    "ex_balance res = balance_of s' (rq_uuid r)" "account_of s' (rq_uuid r) \<noteq> None"
proof -
  note keep = placeSellLocked_trading [OF ok r run]
  from sell_executed [OF ok r side run] obtain rows p where E: "executed r bid_fill rows p s s' res" by blast
  let ?i = "fresh_id o_id (orders s)"
  have info: "map trade_info (new_trades s s') = sell_trades r ?i p"
    and res: "res = \<lparr>ex_order = ?i, ex_requested = rq_quantity r, ex_filled = plan_quantity p,
       ex_open = (if rq_type r = Limit then rq_quantity r - plan_quantity p else 0),
       ex_gross = plan_value p, ex_balance = balance_of s' (rq_uuid r)\<rparr>"
    and os: "orders s' = map (fill_row bid_fill p) (orders s) @ [taker_row r Sell ?i (plan_quantity p)]"
    and bal: "balance_of s' (rq_uuid r) = balance_of s (rq_uuid r) + plan_value p"
    and pl: "plan_for p (orders s)" "plan_quantity p \<le> rq_quantity r"
    using E side by (simp_all add: executed_def Let_def)
  have q: "0 < rq_quantity r" "rq_quantity r \<le> int32_max" using r by (simp_all add: request_ok_def)
  from placeSellLocked_effect [OF trading_okD(1,2) [OF ok] q(1) run] obtain b where
    b: "account_of s (rq_uuid r) \<noteq> None" "sold r (sell_plan_of s b r) s s' res" by blast
  then have fr: "trade_frame s s'" and tl: "\<exists>vs. trades s' = add_rows t_id mk_trade (trades s) vs"
    by (auto simp: sold_def Let_def)
  from tl add_rows_extends [of t_id mk_trade "trades s"] have ts: "trades s' = trades s @ new_trades s s'"
    by (metis new_trades_def append_eq_conv_conj)
  note F = filter_sells_new [OF tr ts info]
  show "sold_quantity s' (ex_order res) = ex_filled res" "sold_gross s' (ex_order res) = ex_gross res"
    using trade_sums(1,2) [OF info [unfolded sell_trades_def]] F
    by (simp_all add: res sold_quantity_def sold_gross_def)
  show "ex_order res = ?i" "ex_requested res = rq_quantity r" by (simp_all add: res)
  have "find (\<lambda>x. o_id x = ?i) (map (fill_row bid_fill p) (orders s)) = None"
    by (auto simp: find_None_iff fresh_id_neq)
  then have "order_of s' ?i = Some (taker_row r Sell ?i (plan_quantity p))"
    by (simp add: order_of_def os find_append)
  then show "\<exists>x. order_of s' (ex_order res) = Some x \<and> o_original x = rq_quantity r \<and> o_remaining x = ex_open res \<and>
      order_identity x = (ex_order res, rq_market r, rq_uuid r, Sell, rq_type r,
        if rq_type r = Limit then rq_price r else 0, rq_quantity r)"
    by (auto simp: res order_identity_def taker_row_def set_fill_reserved_def Let_def new_order_def)
  have "0 \<le> plan_quantity p" by (rule plan_for_quantity_nonneg [OF pl(1)])
  with q pl show "0 \<le> ex_filled res" "ex_filled res \<le> int32_max" by (simp_all add: res)
  note rng = balance_of_range [OF money_ok_accounts_ok [OF trading_okD(1) [OF ok]], of "rq_uuid r"]
    balance_of_range [OF money_ok_accounts_ok [OF trading_okD(1) [OF keep(1)]], of "rq_uuid r"]
  with bal show "int64_min \<le> ex_gross res" "ex_gross res \<le> int64_max"
    by (auto simp: res int64_min_def int64_max_def)
  show "ex_balance res = balance_of s' (rq_uuid r)" by (simp add: res)
  show "account_of s' (rq_uuid r) \<noteq> None" by (rule trade_frame_refs(1) [OF fr b(1)])
qed

lemma lockedBalance_eq: "account_of s u \<noteq> None \<Longrightarrow> lockedBalance u s = (Inr (balance_of s u), s)"
  by (auto simp: lockedBalance_def svc_evals balance_of_def)

lemma replay_order_eq:
  assumes "e_order e = Some i" and "order_of s i = Some x" and "account_of s (e_player e) \<noteq> None"
    and "0 \<le> sold_quantity s i" "sold_quantity s i \<le> int32_max"
    and "int64_min \<le> sold_gross s i" "sold_gross s i \<le> int64_max"
  shows "replay_order e s = (Inr \<lparr>ex_order = i, ex_requested = o_original x, ex_filled = sold_quantity s i,
    ex_open = o_remaining x, ex_gross = sold_gross s i, ex_balance = balance_of s (e_player e)\<rparr>, s)"
proof -
  have "cellInt_of (sold_quantity s i) = Inr (sold_quantity s i)" "cellInt64_of (sold_gross s i) = Inr (sold_gross s i)"
    using assms(4-7) by (auto simp: cellInt_of_def cellInt64_of_def int32_min_def)
  moreover note lockedBalance_eq [OF assms(3)]
  ultimately show ?thesis using assms(1,2) by (simp add: replay_order_def bindS_def queryS_def liftS_def returnS_def)
qed

lemma executeSellEscrow_tagged:
  assumes e: "escrow_of s i = Some e" "e_status e = EscrowTagged"
    and run: "executeSellEscrow i s = (Inr res, s')"
  obtains s1 s2 where "placeSellLocked (escrow_request e) s = (Inr res, s1)"
    "addDelivery (e_player e) (e_market e) (e_tagged e - e_requested e) ''ESCROW_EXCESS'' s1 = (Inr (), s2)"
    "s' = s2\<lparr>escrows := upd_where (\<lambda>x. e_id x = i) (set_ordered (ex_order res)) (escrows s2)\<rparr>"
proof -
  from run e obtain s1 s2 where p: "placeSellLocked (escrow_request e) s = (Inr res, s1)"
    and w: "whenS (e_tagged e > e_requested e)
      (addDelivery (e_player e) (e_market e) (e_tagged e - e_requested e) ''ESCROW_EXCESS'') s1 = (Inr (), s2)"
    and u: "s' = s2\<lparr>escrows := upd_where (\<lambda>x. e_id x = i) (set_ordered (ex_order res)) (escrows s2)\<rparr>"
    by (auto simp: executeSellEscrow_def svc_simps updateEscrow_def)
  from w have "addDelivery (e_player e) (e_market e) (e_tagged e - e_requested e) ''ESCROW_EXCESS'' s1 = (Inr (), s2)"
    by (auto simp: addDelivery_Inr whenS_Inr)
  with p u show thesis by (intro that)
qed

definition sale_ok :: "db \<Rightarrow> bool" where
  "sale_ok s \<longleftrightarrow> trading_ok s \<and> trades_ok s \<and> deliveries_ok s \<and> escrows_ok s"

lemma sale_okD:
  "sale_ok s \<Longrightarrow> trading_ok s" "sale_ok s \<Longrightarrow> trades_ok s" "sale_ok s \<Longrightarrow> deliveries_ok s" "sale_ok s \<Longrightarrow> escrows_ok s"
  by (simp_all add: sale_ok_def)

lemma sale_ok_logged: "sale_ok s \<Longrightarrow> logged s s' \<Longrightarrow> trading_ok s' \<Longrightarrow> sale_ok s'"
  using escrows_ok_logged by (auto simp: sale_ok_def logged_def)

lemma escrow_tagged_facts:
  assumes "escrows_ok s" and "escrow_of s i = Some e" and "e_status e = EscrowTagged"
  shows "request_ok (escrow_request e)" "e_requested e \<le> e_tagged e" "e_tagged e \<le> int32_max"
    "0 < e_receipts e" "e_order e = None" "\<not> e_cleaned e" "escrow_refs s e" "e_type e = Market \<Longrightarrow> e_price e = 0"
  using escrows_okD(3,4) [OF assms(1) conjunct1 [OF escrow_of_Some [OF assms(2)]]] assms(3)
  by (simp_all add: escrow_ok_def)

text \<open>The successful execution in one lemma: everything it changes, and that it can be replayed.\<close>

lemma executed_escrow:
  assumes ok: "sale_ok s" and e: "escrow_of s i = Some e" "e_status e = EscrowTagged"
    and run: "executeSellEscrow i s = (Inr res, s')"
  shows "sale_ok s'" "money_supply s' = money_supply s"
    "items_held s' b = items_held s b + (if on_book s b (e_market e) then e_tagged e else 0)"
    "escrow_of s' i = Some (set_ordered (ex_order res) e)" "order_of s (ex_order res) = None"
    "ex_requested res = e_requested e" "executeSellEscrow i s' = (Inr res, s')"
proof -
  note T = escrow_tagged_facts [OF sale_okD(4) [OF ok] e]
  let ?r = "escrow_request e"
  have side: "rq_side ?r = Sell" by (simp add: escrow_request_def)
  from executeSellEscrow_tagged [OF e run] obtain s1 s2 where p: "placeSellLocked ?r s = (Inr res, s1)"
    and a: "addDelivery (e_player e) (e_market e) (e_tagged e - e_requested e) ''ESCROW_EXCESS'' s1 = (Inr (), s2)"
    and s': "s' = s2\<lparr>escrows := upd_where (\<lambda>x. e_id x = i) (set_ordered (ex_order res)) (escrows s2)\<rparr>" .
  note P = placeSellLocked_trading [OF sale_okD(1) [OF ok] T(1) p]
  note L = placeSellLocked_logged [OF sale_okD(1) [OF ok] T(1) p]
  note log = placed_sell_log [OF sale_okD(1,2) [OF ok] T(1) side p]
  have fr: "trade_frame s s1" using L by (simp add: logged_def)
  have mk1: "market_of s1 (e_market e) \<noteq> None" using T(7) trade_frame_refs(2) [OF fr] by (simp add: escrow_refs_def)
  have q: "0 \<le> e_tagged e - e_requested e" "e_tagged e - e_requested e \<le> int32_max"
    using T(2,3) T(1) by (simp_all add: request_ok_def escrow_request_def)
  note A = addDelivery_logged [OF a mk1 q(2)]
  have L2: "logged s s2" by (rule logged_trans [OF L A(1)])
  have ok2: "sale_ok s2" by (rule sale_ok_logged [OF ok L2]) (rule A(2) [OF P(1)])
  have e2: "escrow_of s2 i = Some e" using e(1) fr A(8) by (simp add: escrow_of_def trade_frame_def)
  obtain x where x: "order_of s1 (ex_order res) = Some x" "o_original x = rq_quantity ?r"
    "o_remaining x = ex_open res"
    "order_identity x = (ex_order res, rq_market ?r, rq_uuid ?r, Sell, rq_type ?r,
        if rq_type ?r = Limit then rq_price ?r else 0, rq_quantity ?r)" using log(5) by blast
  have x2: "order_of s2 (ex_order res) = Some x" using x(1) A(6) by (simp add: order_of_def)
  then have xm: "x \<in> set (orders s2)" unfolding order_of_def by (simp add: find_key_in)
  have price: "e_type e \<noteq> Limit \<longrightarrow> e_price e = 0" using T(8) by (cases "e_type e") simp_all
  have "escrow_ordered (orders s2) e (ex_order res)"
    unfolding escrow_ordered_def using x(4) price xm
    by (intro image_eqI [OF _ xm]) (simp add: escrow_request_def)
  then have ordered: "escrow_ok (orders s2) (set_ordered (ex_order res) e)"
    using T(1,2,4,8) by (simp add: escrow_ok_def set_ordered_def escrow_request_def escrow_ordered_def)
  have "e_order e' \<noteq> Some (ex_order res)" if e': "e' \<in> set (escrows s2)" for e'
  proof
    assume o: "e_order e' = Some (ex_order res)"
    have "e' \<in> set (escrows s)" using e' fr A(8) by (simp add: trade_frame_def)
    from escrows_okD(3) [OF sale_okD(4) [OF ok] this] o
    have "escrow_ordered (orders s) e' (ex_order res)" by (auto simp: escrow_ok_def split: SellEscrowStatus.splits)
    then obtain y where "y \<in> set (orders s)" "o_id y = ex_order res"
      by (auto simp: escrow_ordered_def order_identity_def)
    then show False using log(3) fresh_id_neq [of y "orders s" o_id] by simp
  qed
  then have "escrows_ok s'" unfolding s'
    using ordered by (intro escrow_updated_ok [OF sale_okD(4) [OF ok2] e2]) (simp_all add: set_ordered_def)
  with ok2 show "sale_ok s'" by (simp add: sale_ok_def s')
  show "money_supply s' = money_supply s" using P(2) A(3) by (simp add: s')
  have "on_book s1 b (e_market e) = on_book s b (e_market e)" using trade_frame_refs(3) [OF fr] by simp
  then show "items_held s' b = items_held s b + (if on_book s b (e_market e) then e_tagged e else 0)"
    using P(3) [of b] A(4) [OF q(1), of b] by (simp add: s' escrow_request_def)
  have e': "escrow_of s' i = Some (set_ordered (ex_order res) e)"
    unfolding s' by (rule escrow_of_updated [OF _ e2]) (simp add: set_ordered_def)
  then show "escrow_of s' i = Some (set_ordered (ex_order res) e)" .
  show "order_of s (ex_order res) = None" using log(3) by (auto simp: order_of_def find_None_iff fresh_id_neq)
  show "ex_requested res = e_requested e" using log(4) by (simp add: escrow_request_def)
  have sums: "sold_quantity s' (ex_order res) = ex_filled res" "sold_gross s' (ex_order res) = ex_gross res"
    using log(1,2) A(5) by (simp_all add: s' sold_quantity_def sold_gross_def)
  have acc: "account_of s' (e_player e) \<noteq> None" "balance_of s' (e_player e) = ex_balance res"
    using log(10,11) A(7) by (simp_all add: s' account_of_def balance_of_def escrow_request_def)
  have "replay_order (set_ordered (ex_order res) e) s' = (Inr res, s')"
    using replay_order_eq [of "set_ordered (ex_order res) e" "ex_order res" s' x] x2 acc log(4,6-9) sums x(2,3)
    by (simp add: set_ordered_def s' escrow_request_def)
  then show "executeSellEscrow i s' = (Inr res, s')"
    using e' by (simp add: executeSellEscrow_def svc_evals set_ordered_def)
qed

section \<open>The other steps\<close>

definition taggable :: "escrow_row \<Rightarrow> int \<Rightarrow> int \<Rightarrow> bool" where
  "taggable e t n \<longleftrightarrow> 0 < t \<and> 0 < n \<and> e_requested e \<le> t \<and>
    (e_status e = EscrowPrepared \<or> (e_status e = EscrowTagged \<and> e_tagged e = t \<and> e_receipts e = n))"

definition with_escrow :: "Id \<Rightarrow> (escrow_row \<Rightarrow> escrow_row) \<Rightarrow> db \<Rightarrow> db" where
  "with_escrow i g s = s\<lparr>escrows := upd_where (\<lambda>e. e_id e = i) g (escrows s)\<rparr>"

lemma upd_where_id:
  assumes "\<And>x. x \<in> set xs \<Longrightarrow> P x \<Longrightarrow> g x = x"
  shows "upd_where P g xs = xs"
  using assms by (induction xs) auto

lemma with_escrow_same:
  assumes "escrows_ok s" and "escrow_of s i = Some e" and "g e = e"
  shows "with_escrow i g s = s"
proof -
  note E = escrow_of_Some [OF assms(2)]
  have "upd_where (\<lambda>x. e_id x = i) g (escrows s) = escrows s"
  proof (rule upd_where_id)
    fix x assume "x \<in> set (escrows s)" "e_id x = i"
    then have "x = e" using distinct_key_eq [OF escrows_okD(1) [OF assms(1)], of x e] E by simp
    then show "g x = x" by (simp add: assms(3))
  qed
  then show ?thesis by (simp add: with_escrow_def)
qed

lemma markSellEscrowTagged_eq:
  assumes ok: "escrows_ok s" and e: "escrow_of s i = Some e"
  shows "if taggable e t n then markSellEscrowTagged i t n s = (Inr (), with_escrow i (set_tagged t n) s)
    else \<exists>err. markSellEscrowTagged i t n s = (Inl err, s)"
proof (cases "e_status e = EscrowTagged \<and> e_tagged e = t \<and> e_receipts e = n")
  case True
  then have "set_tagged t n e = e" by (cases e) (simp add: set_tagged_def)
  from with_escrow_same [of s i e "set_tagged t n", OF ok e this] True e show ?thesis
    by (auto simp: markSellEscrowTagged_def taggable_def svc_evals)
next
  case False
  then show ?thesis
    using e by (auto simp: markSellEscrowTagged_def taggable_def svc_evals updateEscrow_def with_escrow_def)
qed

lemma tagged_ok:
  assumes ok: "escrows_ok s" and e: "escrow_of s i = Some e" and t: "taggable e t n" "t \<le> int32_max"
  shows "escrows_ok (with_escrow i (set_tagged t n) s)"
  unfolding with_escrow_def
  by (rule escrow_updated_ok [OF ok e])
    (use t escrows_okD(3) [OF ok conjunct1 [OF escrow_of_Some [OF e]]] in
      \<open>auto simp: set_tagged_def taggable_def escrow_ok_def escrow_request_def\<close>)

lemma canceled_ok:
  assumes ok: "escrows_ok s" and e: "escrow_of s i = Some e" "e_status e = EscrowPrepared"
  shows "escrows_ok (with_escrow i set_canceled s)"
  unfolding with_escrow_def
  by (rule escrow_updated_ok [OF ok e(1)])
    (use e(2) escrows_okD(3) [OF ok conjunct1 [OF escrow_of_Some [OF e(1)]]] in
      \<open>auto simp: set_canceled_def escrow_ok_def escrow_request_def\<close>)

lemma cleaned_escrow_ok:
  assumes ok: "escrows_ok s" and e: "escrow_of s i = Some e" "e_status e = EscrowOrdered"
  shows "escrows_ok (with_escrow i set_cleaned s)"
  unfolding with_escrow_def
  by (rule escrow_updated_ok [OF ok e(1)])
    (use e(2) escrows_okD(3) [OF ok conjunct1 [OF escrow_of_Some [OF e(1)]]] in
      \<open>auto simp: set_cleaned_def escrow_ok_def escrow_request_def escrow_ordered_def\<close>)

lemma cancelSellEscrow_eq:
  assumes "escrow_of s i = Some e"
  shows "if e_status e = EscrowPrepared then cancelSellEscrow i s = (Inr (), with_escrow i set_canceled s)
    else if e_status e = EscrowCanceled then cancelSellEscrow i s = (Inr (), s)
    else cancelSellEscrow i s = (Inl (Runtime_Error ''only a prepared sell escrow can be canceled''), s)"
  using assms by (simp add: cancelSellEscrow_def svc_evals updateEscrow_def with_escrow_def)

lemma markSellEscrowCleaned_eq:
  assumes ok: "escrows_ok s" and e: "escrow_of s i = Some e"
  shows "markSellEscrowCleaned i s = (if e_status e = EscrowOrdered then (Inr (), with_escrow i set_cleaned s)
    else (Inl (Runtime_Error ''ordered sell escrow does not exist''), s))"
  using upd_where_key_cond [OF escrows_okD(1) [OF ok] e [unfolded escrow_of_def], of "\<lambda>e. e_status e = EscrowOrdered"]
  by (simp add: markSellEscrowCleaned_def svc_evals with_escrow_def)

lemma with_escrow_sale:
  "escrows_ok (with_escrow i g s) \<Longrightarrow> sale_ok s \<Longrightarrow> sale_ok (with_escrow i g s)"
  "money_supply (with_escrow i g s) = money_supply s" "items_held (with_escrow i g s) b = items_held s b"
  "on_book (with_escrow i g s) = on_book s" "market_of (with_escrow i g s) = market_of s"
  "book_of (with_escrow i g s) = book_of s"
  by (simp_all add: with_escrow_def sale_ok_def book_of_def fun_eq_iff)

lemma escrow_of_with:
  assumes "\<And>x. e_id (g x) = e_id x" and "escrow_of s i = Some e"
  shows "escrow_of (with_escrow i g s) i = Some (g e)"
  unfolding with_escrow_def by (rule escrow_of_updated [OF assms])

lemma executeSellEscrow_total:
  assumes ok: "sale_ok s" and e: "escrow_of s i = Some e" "e_status e = EscrowTagged"
    and lk: "lockActiveBook (e_market e) s = (Inr b, s)" and cap: "money_supply s \<le> int64_max"
  shows "\<exists>res s'. executeSellEscrow i s = (Inr res, s')"
proof -
  note T = escrow_tagged_facts [OF sale_okD(4) [OF ok] e]
  have "account_of s (rq_uuid (escrow_request e)) \<noteq> None" "lockActiveBook (rq_market (escrow_request e)) s = (Inr b, s)"
    using T(7) lk by (simp_all add: escrow_refs_def escrow_request_def del: not_None_eq)
  from placeSellLocked_total [OF sale_okD(1) [OF ok] T(1) cap this(2,1)] obtain res s1 where
    p: "placeSellLocked (escrow_request e) s = (Inr res, s1)" by blast
  then show ?thesis using e
    by (auto simp: executeSellEscrow_def svc_evals updateEscrow_def addDelivery_def)
qed

lemma escrow_unfinished_mem:
  assumes "escrows_ok s"
  obtains xs where "unfinishedSellEscrows u s = (Inr xs, s)"
    "se_id ` set xs = e_id ` {e \<in> set (escrows s). e_player e = u \<and> unfinished_escrow e}"
proof -
  let ?es = "sort_key e_id (filter (\<lambda>e. e_player e = u \<and> unfinished_escrow e) (escrows s))"
  have "\<exists>m. escrow_join s e = Some (e, m)" if "e \<in> set ?es" for e
    using escrows_okD(4) [OF assms, of e] that by (auto simp: escrow_join_def escrow_refs_def)
  from map_filter_join [of ?es "escrow_join s", OF this]
  have eq: "map fst (List.map_filter (escrow_join s) ?es) = ?es" by simp
  show thesis
  proof (rule that)
    show "unfinishedSellEscrows u s = (Inr (map (\<lambda>(e, m). escrow_view e (mk_item m))
        (List.map_filter (escrow_join s) ?es)), s)"
      by (simp add: unfinishedSellEscrows_def queryS_def)
    have "se_id ` set (map (\<lambda>(e, m). escrow_view e (mk_item m)) (List.map_filter (escrow_join s) ?es)) =
        e_id ` set (map fst (List.map_filter (escrow_join s) ?es))"
      by (simp add: escrow_view_def image_image case_prod_unfold)
    also have "\<dots> = e_id ` {e \<in> set (escrows s). e_player e = u \<and> unfinished_escrow e}" by (simp add: eq)
    finally show "se_id ` set (map (\<lambda>(e, m). escrow_view e (mk_item m)) (List.map_filter (escrow_join s) ?es)) =
        e_id ` {e \<in> set (escrows s). e_player e = u \<and> unfinished_escrow e}" .
  qed
qed

lemma listed_iff:
  assumes "escrows_ok s" and "escrow_of s i = Some e" and "unfinishedSellEscrows u s = (Inr xs, s)"
  shows "i \<in> se_id ` set xs \<longleftrightarrow> e_player e = u \<and> unfinished_escrow e"
proof -
  obtain ys where ys: "unfinishedSellEscrows u s = (Inr ys, s)"
    "se_id ` set ys = e_id ` {e \<in> set (escrows s). e_player e = u \<and> unfinished_escrow e}"
    by (rule escrow_unfinished_mem [OF assms(1)])
  have "xs = ys" using ys(1) assms(3) by simp
  note E = escrow_of_Some [OF assms(2)]
  show ?thesis unfolding \<open>xs = ys\<close> ys(2)
  proof
    assume "i \<in> e_id ` {e \<in> set (escrows s). e_player e = u \<and> unfinished_escrow e}"
    then obtain x where x: "x \<in> set (escrows s)" "e_id x = i" "e_player x = u" "unfinished_escrow x" by blast
    then have "x = e" using distinct_key_eq [OF escrows_okD(1) [OF assms(1)] x(1), of e] E by simp
    with x show "e_player e = u \<and> unfinished_escrow e" by simp
  next
    assume "e_player e = u \<and> unfinished_escrow e"
    with E show "i \<in> e_id ` {e \<in> set (escrows s). e_player e = u \<and> unfinished_escrow e}" by blast
  qed
qed

text \<open>The only unfinished escrow stays the only one while its row changes.\<close>

lemma filter_upd_where:
  "(\<And>x. x \<in> set xs \<Longrightarrow> Q x \<Longrightarrow> P (g x) = P x) \<Longrightarrow> filter P (upd_where Q g xs) = upd_where Q g (filter P xs)"
  by (induction xs) auto

lemma listed_one:
  assumes ok: "escrows_ok s" and l: "unfinishedSellEscrows u s = (Inr [x], s)" and e: "escrow_of s (se_id x) = Some e"
    and g: "e_id (g e) = e_id e" "e_player (g e) = e_player e" "e_market (g e) = e_market e" "unfinished_escrow (g e)"
  shows "\<exists>m. market_of s (e_market e) = Some m \<and> x = escrow_view e (mk_item m) \<and>
    unfinishedSellEscrows u (with_escrow (se_id x) g s) = (Inr [escrow_view (g e) (mk_item m)], with_escrow (se_id x) g s)"
proof -
  let ?P = "\<lambda>e. e_player e = u \<and> unfinished_escrow e" and ?k = "se_id x"
  note E = escrow_of_Some [OF e]
  have u: "?P e" using listed_iff [OF ok e l] by simp
  obtain m where m: "market_of s (e_market e) = Some m" using escrows_okD(4) [OF ok, of e] E by (auto simp: escrow_refs_def)
  have "\<exists>m. escrow_join s y = Some (y, m)" if "y \<in> set (sort_key e_id (filter ?P (escrows s)))" for y
    using escrows_okD(4) [OF ok, of y] that by (auto simp: escrow_join_def escrow_refs_def)
  from map_filter_join [of _ "escrow_join s", OF this]
  have "map fst (List.map_filter (escrow_join s) (sort_key e_id (filter ?P (escrows s)))) = sort_key e_id (filter ?P (escrows s))" .
  from arg_cong [OF this, of length]
  have "length (filter ?P (escrows s)) = length (List.map_filter (escrow_join s) (sort_key e_id (filter ?P (escrows s))))"
    by simp
  moreover have "length (List.map_filter (escrow_join s) (sort_key e_id (filter ?P (escrows s)))) = 1"
    using l by (auto simp: unfinishedSellEscrows_def queryS_def)
  ultimately have "length (filter ?P (escrows s)) = Suc 0" by simp
  then obtain y where y: "filter ?P (escrows s) = [y]" unfolding length_Suc_conv by blast
  have "e \<in> set (filter ?P (escrows s))" using E u by simp
  with y have one: "filter ?P (escrows s) = [e]" by simp
  have same: "y = e" if "y \<in> set (escrows s)" "e_id y = ?k" for y
    using distinct_key_eq [OF escrows_okD(1) [OF ok] that(1), of e] E that(2) by simp
  have "filter ?P (upd_where (\<lambda>y. e_id y = ?k) g (escrows s)) = upd_where (\<lambda>y. e_id y = ?k) g (filter ?P (escrows s))"
    by (rule filter_upd_where) (use same g u in auto)
  then have "filter ?P (escrows (with_escrow ?k g s)) = [g e]" using one E by (simp add: with_escrow_def)
  moreover have "escrow_join (with_escrow ?k g s) (g e) = Some (g e, m)" using m g(3) by (simp add: escrow_join_def with_escrow_def market_of_def)
  ultimately have "unfinishedSellEscrows u (with_escrow ?k g s) = (Inr [escrow_view (g e) (mk_item m)], with_escrow ?k g s)"
    by (simp add: unfinishedSellEscrows_def queryS_def List.map_filter_simps)
  moreover have "x = escrow_view e (mk_item m)"
    using l one m by (simp add: unfinishedSellEscrows_def queryS_def List.map_filter_simps escrow_join_def)
  ultimately show ?thesis using m by blast
qed

section \<open>Preparing\<close>

lemma escrow_unique_append:
  assumes "escrow_unique es" and "e_order e = None"
  shows "escrow_unique (es @ [e])"
  unfolding escrow_unique_def
proof (intro ballI impI, elim conjE)
  fix x y assume xy: "x \<in> set (es @ [e])" "y \<in> set (es @ [e])" "e_order x \<noteq> None" "e_order x = e_order y"
  then have "x \<noteq> e" "y \<noteq> e" using assms(2) by metis+
  with xy have "x \<in> set es" "y \<in> set es" by simp_all
  with assms(1) xy(3,4) show "e_id x = e_id y" unfolding escrow_unique_def by blast
qed

lemma escrow_appended_ok:
  assumes ok: "escrows_ok s" and r: "request_ok r" and refs: "account_of s (rq_uuid r) \<noteq> None"
    "market_of s (rq_market r) \<noteq> None"
  shows "escrows_ok (s\<lparr>escrows := escrows s @ [new_escrow (fresh_id e_id (escrows s)) r]\<rparr>)" (is "escrows_ok ?s'")
proof -
  let ?e = "new_escrow (fresh_id e_id (escrows s)) r"
  have e: "e_order ?e = None" "escrow_ok (orders s) ?e" "e_player ?e = rq_uuid r" "e_market ?e = rq_market r"
    using r by (auto simp: new_escrow_def escrow_ok_def request_ok_def escrow_request_def)
  have "escrow_refs ?s' x = escrow_refs s x" for x by (simp add: escrow_refs_def account_of_def)
  moreover have "escrow_refs s ?e" using refs by (simp add: escrow_refs_def e del: not_None_eq)
  moreover have "distinct (map e_id (escrows ?s'))"
    using escrows_okD(1) [OF ok] by (auto simp: new_escrow_def fresh_id_neq)
  moreover have "escrow_unique (escrows ?s')"
    using escrow_unique_append [OF escrows_okD(2) [OF ok] e(1)] by simp
  ultimately show ?thesis using ok e(2) by (simp add: escrows_ok_def)
qed

definition prepared_sale :: "service_config \<Rightarrow> OrderRequest \<Rightarrow> db \<Rightarrow> SellEscrow \<Rightarrow> db \<Rightarrow> bool" where
  "prepared_sale cfg r s x s' \<longleftrightarrow> (\<exists>s1. ensureAccount cfg (rq_uuid r) (rq_name r) s = (Inr (), s1) \<and>
     s' = s1\<lparr>escrows := escrows s1 @ [new_escrow (fresh_id e_id (escrows s1)) r]\<rparr> \<and>
     x = escrow_view (new_escrow (fresh_id e_id (escrows s1)) r) (mk_item (the (market_of s1 (rq_market r)))))"

lemma prepareSellEscrow_Inr:
  assumes "config_ok cfg" and "money_ok s"
  shows "prepareSellEscrow cfg r s = (Inr x, s') \<longleftrightarrow> validateRequest cfg r = Inr () \<and> rq_side r = Sell \<and>
    map_option mk_active (market_of s (rq_market r)) = Some True \<and> prepared_sale cfg r s x s'"
proof (cases "ensureAccount cfg (rq_uuid r) (rq_name r) s")
  case (Pair z s1)
  show ?thesis
  proof (cases z)
    case Inl
    with Pair show ?thesis by (simp add: prepareSellEscrow_def svc_simps prepared_sale_def)
  next
    case (Inr y)
    with Pair have e: "ensureAccount cfg (rq_uuid r) (rq_name r) s = (Inr (), s1)" by simp
    have mk: "market_of s = market_of s1"
      using money_onlyD(2) [OF ensureAccount_effect(2) [OF assms e]] by (simp add: market_of_def fun_eq_iff)
    show ?thesis
      by (cases "market_of s1 (rq_market r)")
        (auto simp: prepareSellEscrow_def svc_simps prepared_sale_def escrow_view_def new_escrow_def mk e)
  qed
qed

lemma prepared_sale_facts:
  assumes cfg: "config_ok cfg" and ok: "sale_ok s" and v: "validateRequest cfg r = Inr ()"
    and mk: "market_of s (rq_market r) \<noteq> None" and p: "prepared_sale cfg r s x s'"
  shows "sale_ok s'" "escrow_of s' (se_id x) = Some (new_escrow (se_id x) r)" "escrow_of s (se_id x) = None"
    "money_supply s' = money_supply s + (if account_of s (rq_uuid r) = None then initial_balance_cents cfg else 0)"
    "items_held s' b = items_held s b" "on_book s' = on_book s"
    "lockActiveBook (rq_market r) s' = (Inr b, s') \<longleftrightarrow> lockActiveBook (rq_market r) s = (Inr b, s)"
proof -
  from p obtain s1 where e: "ensureAccount cfg (rq_uuid r) (rq_name r) s = (Inr (), s1)"
    and s': "s' = s1\<lparr>escrows := escrows s1 @ [new_escrow (fresh_id e_id (escrows s1)) r]\<rparr>"
    and x: "se_id x = fresh_id e_id (escrows s1)"
    by (auto simp: prepared_sale_def escrow_view_def new_escrow_def)
  note E = ensureAccount_effect [OF cfg trading_okD(1) [OF sale_okD(1) [OF ok]] e]
  have "sale_ok s1"
    by (rule sale_ok_logged [OF ok logged_money_only [OF E(2)]]) (rule money_only_trading [OF E(2,1) sale_okD(1) [OF ok]])
  moreover have "market_of s1 (rq_market r) \<noteq> None" using mk money_onlyD(2) [OF E(2)] by (simp add: market_of_def)
  ultimately show "sale_ok s'"
    using escrow_appended_ok [OF sale_okD(4) validateRequest_ok(1) [OF cfg v] E(3) [OF refl]]
    by (simp add: sale_ok_def s')
  have "find (\<lambda>e. e_id e = fresh_id e_id (escrows s1)) (escrows s1) = None"
    by (auto simp: find_None_iff fresh_id_neq)
  then show "escrow_of s' (se_id x) = Some (new_escrow (se_id x) r)" "escrow_of s (se_id x) = None"
    using money_onlyD(8) [OF E(2)] by (simp_all add: escrow_of_def s' x find_append new_escrow_def)
  show "money_supply s' = money_supply s + (if account_of s (rq_uuid r) = None then initial_balance_cents cfg else 0)"
    using money_only_supply(1) [OF E(2)] E(4) [OF refl] by (simp add: s')
  show "items_held s' b = items_held s b" using money_only_supply(2) [OF E(2)] by (simp add: s')
  show "on_book s' = on_book s" using on_book_cong [OF money_onlyD(2) [OF E(2)]] by (simp add: s')
  show "lockActiveBook (rq_market r) s' = (Inr b, s') \<longleftrightarrow> lockActiveBook (rq_market r) s = (Inr b, s)"
    using money_onlyD(1,2) [OF E(2)] by (simp add: lockActiveBook_Inr market_of_def book_of_def s')
qed

section \<open>The steps of a sale\<close>

text \<open>From the prepared escrow on, every step of a sale succeeds.\<close>

lemma sale_steps:
  assumes ok: "sale_ok s" and e: "escrow_of s i = Some (new_escrow i r)" and q: "request_ok r"
    and lk: "lockActiveBook (rq_market r) s = (Inr b, s)" and cap: "money_supply s \<le> int64_max"
    and t: "rq_quantity r \<le> t" "t \<le> int32_max" "0 < n"
  obtains s2 res s3 s4 where "markSellEscrowTagged i t n s = (Inr (), s2)"
    "executeSellEscrow i s2 = (Inr res, s3)" "markSellEscrowCleaned i s3 = (Inr (), s4)"
    "sale_ok s4" "items_held s4 b = items_held s b + t" "money_supply s4 = money_supply s"
    "\<forall>u l. unfinishedSellEscrows u s4 = (Inr l, s4) \<longrightarrow> i \<notin> se_id ` set l"
proof -
  let ?e = "new_escrow i r" and ?f = "set_tagged t n"
  have mk: "on_book s b (rq_market r)"
    using lk by (auto simp: lockActiveBook_Inr on_book_def book_id_of_def)
  have tg: "taggable ?e t n" using t q by (simp add: taggable_def new_escrow_def request_ok_def)
  let ?s2 = "with_escrow i ?f s"
  have r2: "markSellEscrowTagged i t n s = (Inr (), ?s2)"
    using markSellEscrowTagged_eq [OF sale_okD(4) [OF ok] e, of t n] tg by simp
  have ok2: "sale_ok ?s2"
    by (rule with_escrow_sale(1) [OF tagged_ok [OF sale_okD(4) [OF ok] e tg t(2)] ok])
  have e2: "escrow_of ?s2 i = Some (?f ?e)" by (rule escrow_of_with [OF _ e]) (simp add: set_tagged_def)
  have st2: "e_status (?f ?e) = EscrowTagged" "e_market (?f ?e) = rq_market r" "e_tagged (?f ?e) = t"
    by (simp_all add: set_tagged_def new_escrow_def)
  have lk2: "lockActiveBook (e_market (?f ?e)) ?s2 = (Inr b, ?s2)"
    using lk st2(2) by (simp add: lockActiveBook_Inr with_escrow_sale)
  have cap2: "money_supply ?s2 \<le> int64_max" using cap by (simp add: with_escrow_sale)
  from executeSellEscrow_total [OF ok2 e2 st2(1) lk2 cap2] obtain res s3 where
    r3: "executeSellEscrow i ?s2 = (Inr res, s3)" by blast
  note X = executed_escrow(1,2,4) [OF ok2 e2 st2(1) r3] executed_escrow(3) [OF ok2 e2 st2(1) r3, of b]
  let ?s4 = "with_escrow i set_cleaned s3" and ?e3 = "set_ordered (ex_order res) (?f ?e)"
  have st3: "e_status ?e3 = EscrowOrdered" by (simp add: set_ordered_def)
  have r4: "markSellEscrowCleaned i s3 = (Inr (), ?s4)"
    using markSellEscrowCleaned_eq [OF sale_okD(4) [OF X(1)] X(3)] st3 by simp
  have ok4: "sale_ok ?s4"
    by (rule with_escrow_sale(1) [OF cleaned_escrow_ok [OF sale_okD(4) [OF X(1)] X(3) st3] X(1)])
  have e4: "escrow_of ?s4 i = Some (set_cleaned ?e3)" by (rule escrow_of_with [OF _ X(3)]) (simp add: set_cleaned_def)
  have "\<not> unfinished_escrow (set_cleaned ?e3)" by (simp add: unfinished_escrow_def set_cleaned_def)
  then have "i \<notin> se_id ` set l" if "unfinishedSellEscrows u ?s4 = (Inr l, ?s4)" for u l
    using listed_iff [OF sale_okD(4) [OF ok4] e4 that] by blast
  moreover have "items_held ?s4 b = items_held s b + t" using X(4) mk st2(2,3) by (simp add: with_escrow_sale)
  moreover have "money_supply ?s4 = money_supply s" using X(2) by (simp add: with_escrow_sale)
  ultimately show thesis using that [OF r2 r3 r4 ok4] by blast
qed

text \<open>What the tagging of a prepared escrow does, and the repetition of an execution after the last step.\<close>

lemma sale_tagged:
  assumes ok: "sale_ok s" and e: "escrow_of s i = Some (new_escrow i r)" and q: "request_ok r"
    and t: "rq_quantity r \<le> t" "t \<le> int32_max" "0 < n"
  defines "s2 \<equiv> with_escrow i (set_tagged t n) s"
  shows "markSellEscrowTagged i t n s = (Inr (), s2)" "sale_ok s2" "escrow_of s2 i = Some (set_tagged t n (new_escrow i r))"
    "items_held s2 b = items_held s b" "money_supply s2 = money_supply s"
proof -
  have tg: "taggable (new_escrow i r) t n" using t q by (simp add: taggable_def new_escrow_def request_ok_def)
  show "markSellEscrowTagged i t n s = (Inr (), s2)"
    using markSellEscrowTagged_eq [OF sale_okD(4) [OF ok] e, of t n] tg by (simp add: s2_def)
  show "sale_ok s2"
    unfolding s2_def by (rule with_escrow_sale(1) [OF tagged_ok [OF sale_okD(4) [OF ok] e tg t(2)] ok])
  show "escrow_of s2 i = Some (set_tagged t n (new_escrow i r))"
    unfolding s2_def by (rule escrow_of_with [OF _ e]) (simp add: set_tagged_def)
  show "items_held s2 b = items_held s b" "money_supply s2 = money_supply s" by (simp_all add: s2_def with_escrow_sale)
qed

lemma sale_replays:
  assumes ok: "sale_ok s" and e: "escrow_of s i = Some e" "e_status e = EscrowTagged"
    and x: "executeSellEscrow i s = (Inr res, s3)" and c: "markSellEscrowCleaned i s3 = (Inr (), s4)"
  shows "executeSellEscrow i s4 = (Inr res, s4)"
proof -
  note X = executed_escrow(1,4,7) [OF ok e x]
  let ?e3 = "set_ordered (ex_order res) e"
  have st: "e_status ?e3 = EscrowOrdered" by (simp add: set_ordered_def)
  have s4: "s4 = with_escrow i set_cleaned s3"
    using markSellEscrowCleaned_eq [OF sale_okD(4) [OF X(1)] X(2)] st c by simp
  have e4: "escrow_of s4 i = Some (set_cleaned ?e3)" unfolding s4 by (rule escrow_of_with [OF _ X(2)]) (simp add: set_cleaned_def)
  have "replay_order ?e3 s3 = (Inr res, s3)" using X(2,3) st by (auto simp: executeSellEscrow_def svc_evals split: prod.splits sum.splits)
  then have "replay_order (set_cleaned ?e3) s4 = (Inr res, s4)"
    unfolding s4 with_escrow_def
    by (auto simp: replay_order_def svc_simps set_cleaned_def order_of_def sold_quantity_def sold_gross_def lockedBalance_def
        account_of_def split: option.splits)
  with e4 st show ?thesis by (simp add: executeSellEscrow_def svc_evals set_cleaned_def)
qed

text \<open>Nothing executes a canceled escrow.\<close>

lemma executeSellEscrow_canceled:
  assumes "escrow_of s i = Some e" and "e_status e = EscrowCanceled"
  shows "executeSellEscrow i s = (Inl (Runtime_Error ''sell escrow is not ready to become an order''), s)"
  using assms by (simp add: executeSellEscrow_def svc_evals)

lemma prepared_sale_view:
  assumes "config_ok cfg" and "sale_ok s" and "prepared_sale cfg r s x s'"
  shows "se_id x = fresh_id e_id (escrows s)" "Some (se_item x) = map_option mk_item (market_of s (rq_market r)) \<or>
    market_of s (rq_market r) = None" "se_requested x = rq_quantity r" "se_status x = EscrowPrepared"
proof -
  from assms(3) obtain s1 where e: "ensureAccount cfg (rq_uuid r) (rq_name r) s = (Inr (), s1)"
    and x: "x = escrow_view (new_escrow (fresh_id e_id (escrows s1)) r) (mk_item (the (market_of s1 (rq_market r))))"
    by (auto simp: prepared_sale_def)
  note E = ensureAccount_effect [OF assms(1) trading_okD(1) [OF sale_okD(1) [OF assms(2)]] e]
  have "escrows s1 = escrows s" "market_of s1 = market_of s"
    using money_onlyD(8,2) [OF E(2)] by (simp_all add: market_of_def fun_eq_iff)
  then show "se_id x = fresh_id e_id (escrows s)" "Some (se_item x) = map_option mk_item (market_of s (rq_market r)) \<or>
      market_of s (rq_market r) = None" "se_requested x = rq_quantity r" "se_status x = EscrowPrepared"
    by (auto simp: x escrow_view_def new_escrow_def)
qed

text \<open>The only unfinished escrow of a player is the one just prepared, if there was none before.\<close>

lemma prepared_listed:
  assumes cfg: "config_ok cfg" and ok: "sale_ok s" and p: "prepared_sale cfg r s x s'"
    and mk: "market_of s (rq_market r) \<noteq> None" and none: "unfinishedSellEscrows (rq_uuid r) s = (Inr [], s)"
  shows "unfinishedSellEscrows (rq_uuid r) s' = (Inr [x], s')"
proof -
  from p obtain s1 where e: "ensureAccount cfg (rq_uuid r) (rq_name r) s = (Inr (), s1)"
    and s': "s' = s1\<lparr>escrows := escrows s1 @ [new_escrow (fresh_id e_id (escrows s1)) r]\<rparr>"
    and x: "x = escrow_view (new_escrow (fresh_id e_id (escrows s1)) r) (mk_item (the (market_of s1 (rq_market r))))"
    by (auto simp: prepared_sale_def)
  note E = ensureAccount_effect [OF cfg trading_okD(1) [OF sale_okD(1) [OF ok]] e]
  have same: "escrows s1 = escrows s" "markets s1 = markets s" using money_onlyD(8,2) [OF E(2)] by simp_all
  obtain xs where xs: "unfinishedSellEscrows (rq_uuid r) s = (Inr xs, s)"
    "se_id ` set xs = e_id ` {e \<in> set (escrows s). e_player e = rq_uuid r \<and> unfinished_escrow e}"
    by (rule escrow_unfinished_mem [OF sale_okD(4) [OF ok]])
  have "xs = []" using xs(1) none by simp
  with xs(2) have old: "filter (\<lambda>e. e_player e = rq_uuid r \<and> unfinished_escrow e) (escrows s1) = []"
    by (auto simp: filter_empty_conv same)
  obtain m where m: "market_of s1 (rq_market r) = Some m" using mk by (auto simp: market_of_def same)
  have m': "market_of s' (rq_market r) = Some m" using m by (simp add: s' market_of_def)
  let ?e = "new_escrow (fresh_id e_id (escrows s1)) r"
  have "filter (\<lambda>e. e_player e = rq_uuid r \<and> unfinished_escrow e) (escrows s') = [?e]"
    using old by (simp add: s' new_escrow_def unfinished_escrow_def)
  moreover have "escrow_join s' ?e = Some (?e, m)" using m' by (simp add: escrow_join_def new_escrow_def)
  ultimately show ?thesis by (simp add: unfinishedSellEscrows_def queryS_def x m List.map_filter_simps)
qed

section \<open>Properties\<close>

definition demo_sale_row :: escrow_row where
  "demo_sale_row = \<lparr>e_id = 1, e_market = 1, e_player = ''carol'', e_name = ''carol'', e_type = Market,
     e_price = 0, e_requested = 6, e_tagged = 8, e_receipts = 2, e_status = EscrowTagged,
     e_order = None, e_cleaned = False\<rparr>"

definition demo_sale :: db where
  "demo_sale = demo_owed\<lparr>escrows := [demo_sale_row]\<rparr>"

lemma demo_sale_ok: "sale_ok demo_sale"
proof -
  have "trading_ok demo_sale"
    using demo_trading_ok by (simp add: demo_sale_def demo_owed_def trading_ok_def orders_ok_def order_refs_def uncrossed_def)
  moreover have "deliveries_ok demo_sale" using demo_owed_ok by (simp add: demo_sale_def)
  moreover have "trades_ok demo_sale" unfolding trades_ok_def by code_simp
  moreover have "escrows_ok demo_sale" unfolding escrows_ok_def escrow_unique_def by code_simp
  ultimately show ?thesis by (simp add: sale_ok_def)
qed

lemma demo_sale_escrow: "escrow_of demo_sale 1 = Some demo_sale_row" "e_status demo_sale_row = EscrowTagged"
  by code_simp+

lemma demo_sale_run: "\<exists>res s'. executeSellEscrow 1 demo_sale = (Inr res, s')"
proof -
  have "\<not> isl (fst (executeSellEscrow 1 demo_sale))" by code_simp
  then show ?thesis by (metis prod.collapse sum.collapse(2))
qed

text \<open>
  C16: A tagged sell escrow becomes an order exactly once: the execution enters the order and every
  tagged item (the excess over the order as a delivery), keeps all invariants and the money, and
  links the escrow to its new order; calling it again returns the very same result and changes
  nothing.
\<close>

theorem executeSellEscrow_once:
  assumes "sale_ok s" and "escrow_of s i = Some e" and "e_status e = EscrowTagged"
    and "executeSellEscrow i s = (Inr res, s')"
  shows "sale_ok s' \<and> money_supply s' = money_supply s \<and>
    items_held s' b = items_held s b + (if on_book s b (e_market e) then e_tagged e else 0) \<and>
    order_of s (ex_order res) = None \<and> escrow_of s' i = Some (set_ordered (ex_order res) e) \<and>
    ex_requested res = e_requested e \<and> executeSellEscrow i s' = (Inr res, s')"
  using executed_escrow(1,2,4-7) [OF assms] executed_escrow(3) [OF assms, of b] by simp

theorem executeSellEscrow_once_witness:
  "\<exists>res s'. executeSellEscrow 1 demo_sale = (Inr res, s') \<and> items_held s' 1 = items_held demo_sale 1 + 8 \<and>
    executeSellEscrow 1 s' = (Inr res, s')"
proof -
  have "on_book demo_sale 1 (e_market demo_sale_row)" "e_tagged demo_sale_row = 8" by code_simp+
  moreover from demo_sale_run obtain res s' where run: "executeSellEscrow 1 demo_sale = (Inr res, s')" by blast
  ultimately show ?thesis
    using executeSellEscrow_once [OF demo_sale_ok demo_sale_escrow run, of 1] run by metis
qed

text \<open>
  Tagging and canceling follow the escrow's state machine: tagging succeeds exactly for positive
  counts that cover the order, on a prepared escrow or as a repetition of the same tagging, and
  canceling exactly on a prepared or already canceled one; a refused step changes nothing, a
  successful one changes only this row, and once tagged an escrow cannot be canceled any more.
\<close>

theorem escrow_tag_or_cancel:
  assumes "sale_ok s" and "escrow_of s i = Some e" and "t \<le> int32_max"
    and "markSellEscrowTagged i t n s = (rt, s1)" and "cancelSellEscrow i s = (rc, s2)"
  shows "(if taggable e t n then rt = Inr () \<and> s1 = with_escrow i (set_tagged t n) s \<and>
        escrow_of s1 i = Some (set_tagged t n e) \<and> snd (cancelSellEscrow i s1) = s1 \<and>
        isl (fst (cancelSellEscrow i s1)) \<and> markSellEscrowTagged i t n s1 = (Inr (), s1)
      else isl rt \<and> s1 = s) \<and> sale_ok s1 \<and>
    (if e_status e = EscrowPrepared \<or> e_status e = EscrowCanceled
      then rc = Inr () \<and> map_option e_status (escrow_of s2 i) = Some EscrowCanceled \<and>
        cancelSellEscrow i s2 = (Inr (), s2)
      else isl rc \<and> s2 = s) \<and> sale_ok s2"
proof -
  note ok = sale_okD(4) [OF assms(1)]
  note tag = markSellEscrowTagged_eq [OF ok assms(2), of t n, unfolded assms(4)]
  note can = cancelSellEscrow_eq [OF assms(2), unfolded assms(5)]
  have T: "(if taggable e t n then rt = Inr () \<and> s1 = with_escrow i (set_tagged t n) s \<and>
        escrow_of s1 i = Some (set_tagged t n e) \<and> snd (cancelSellEscrow i s1) = s1 \<and>
        isl (fst (cancelSellEscrow i s1)) \<and> markSellEscrowTagged i t n s1 = (Inr (), s1)
      else isl rt \<and> s1 = s) \<and> sale_ok s1"
  proof (cases "taggable e t n")
    case True
    with tag have s1: "rt = Inr ()" "s1 = with_escrow i (set_tagged t n) s" by auto
    have ok1: "sale_ok s1" unfolding s1
      by (rule with_escrow_sale(1) [OF tagged_ok [OF ok assms(2) True assms(3)] assms(1)])
    have e1: "escrow_of s1 i = Some (set_tagged t n e)"
      unfolding s1 by (rule escrow_of_with [OF _ assms(2)]) (simp add: set_tagged_def)
    have tg: "taggable (set_tagged t n e) t n" using True by (simp add: taggable_def set_tagged_def)
    have "with_escrow i (set_tagged t n) s1 = s1"
      by (rule with_escrow_same [OF sale_okD(4) [OF ok1] e1]) (simp add: set_tagged_def)
    with markSellEscrowTagged_eq [OF sale_okD(4) [OF ok1] e1, of t n] tg
    have "markSellEscrowTagged i t n s1 = (Inr (), s1)" by simp
    with cancelSellEscrow_eq [OF e1] True s1 ok1 e1 show ?thesis by (simp add: set_tagged_def)
  next
    case False
    with tag have "isl rt" "s1 = s" by auto
    with False assms(1) show ?thesis by simp
  qed
  have C: "(if e_status e = EscrowPrepared \<or> e_status e = EscrowCanceled
      then rc = Inr () \<and> map_option e_status (escrow_of s2 i) = Some EscrowCanceled \<and>
        cancelSellEscrow i s2 = (Inr (), s2)
      else isl rc \<and> s2 = s) \<and> sale_ok s2"
  proof (cases "e_status e = EscrowPrepared")
    case True
    with can have s2: "rc = Inr ()" "s2 = with_escrow i set_canceled s" by auto
    have ok2: "sale_ok s2" unfolding s2
      by (rule with_escrow_sale(1) [OF canceled_ok [OF ok assms(2) True] assms(1)])
    have e2: "escrow_of s2 i = Some (set_canceled e)"
      unfolding s2 by (rule escrow_of_with [OF _ assms(2)]) (simp add: set_canceled_def)
    from cancelSellEscrow_eq [OF e2] True s2 ok2 e2 show ?thesis by (simp add: set_canceled_def)
  next
    case False
    with can assms(1,2) show ?thesis
      by (cases "e_status e = EscrowCanceled") (auto simp: cancelSellEscrow_eq [OF assms(2)])
  qed
  from T C show ?thesis by blast
qed

theorem escrow_tag_or_cancel_witness:
  "isl (fst (cancelSellEscrow 1 demo_sale)) \<and> isl (fst (markSellEscrowTagged 1 5 1 demo_sale)) \<and>
    snd (markSellEscrowTagged 1 5 1 demo_sale) = demo_sale"
proof -
  have "\<not> taggable demo_sale_row 5 1" "(5::int) \<le> int32_max" by code_simp+
  with escrow_tag_or_cancel [OF demo_sale_ok demo_sale_escrow(1), of 5 1, OF _ prod.collapse [symmetric]
      prod.collapse [symmetric]] demo_sale_escrow(2) show ?thesis by simp
qed

text \<open>
  A sale can always be carried through: for every valid sell request on an active market with a
  book, preparing, tagging enough items, executing and cleaning succeed one after the other (as long
  as the money in circulation fits 64 bits); in the end all tagged items are in the exchange, the
  money is unchanged but for an opening balance, and the escrow is no longer listed for recovery.
\<close>

theorem sale_goes_through:
  assumes "config_ok cfg" and "sale_ok s" and "validateRequest cfg r = Inr ()" and "rq_side r = Sell"
    and "lockActiveBook (rq_market r) s = (Inr b, s)"
    and "money_supply s + initial_balance_cents cfg \<le> int64_max"
    and "rq_quantity r \<le> t" and "t \<le> int32_max" and "0 < n"
  shows "\<exists>x s1 s2 res s3 s4 l. prepareSellEscrow cfg r s = (Inr x, s1) \<and>
    markSellEscrowTagged (se_id x) t n s1 = (Inr (), s2) \<and>
    executeSellEscrow (se_id x) s2 = (Inr res, s3) \<and> markSellEscrowCleaned (se_id x) s3 = (Inr (), s4) \<and>
    sale_ok s4 \<and> items_held s4 b = items_held s b + t \<and>
    money_supply s4 =
      money_supply s + (if account_of s (rq_uuid r) = None then initial_balance_cents cfg else 0) \<and>
    unfinishedSellEscrows (rq_uuid r) s4 = (Inr l, s4) \<and> se_id x \<notin> se_id ` set l"
proof -
  have ini: "0 \<le> initial_balance_cents cfg" using assms(1) by (simp add: config_ok_def)
  from assms(5) have mk: "map_option mk_active (market_of s (rq_market r)) = Some True"
    "market_of s (rq_market r) \<noteq> None" "on_book s b (rq_market r)"
    by (auto simp: lockActiveBook_Inr on_book_def book_id_of_def)
  obtain s0 where "ensureAccount cfg (rq_uuid r) (rq_name r) s = (Inr (), s0)"
    using validateRequest_ok(2) [OF assms(1,3)] by (simp add: ensureAccount_Inr)
  then obtain x s1 where ps: "prepared_sale cfg r s x s1" unfolding prepared_sale_def by blast
  have r1: "prepareSellEscrow cfg r s = (Inr x, s1)"
    using prepareSellEscrow_Inr [OF assms(1) trading_okD(1) [OF sale_okD(1) [OF assms(2)]]] assms(3,4) mk(1) ps
    by blast
  note P = prepared_sale_facts(1-4,6) [OF assms(1,2,3) mk(2) ps] prepared_sale_facts(5,7) [OF assms(1,2,3) mk(2) ps, of b]
  note q = validateRequest_ok(1) [OF assms(1,3)]
  have lk1: "lockActiveBook (rq_market r) s1 = (Inr b, s1)" using P(7) assms(5) by blast
  have cap: "money_supply s1 \<le> int64_max" using P(4) assms(6) ini by (simp split: if_splits)
  obtain s2 res s3 s4 where steps: "markSellEscrowTagged (se_id x) t n s1 = (Inr (), s2)"
    "executeSellEscrow (se_id x) s2 = (Inr res, s3)" "markSellEscrowCleaned (se_id x) s3 = (Inr (), s4)"
    "sale_ok s4" "items_held s4 b = items_held s1 b + t" "money_supply s4 = money_supply s1"
    "\<forall>u l. unfinishedSellEscrows u s4 = (Inr l, s4) \<longrightarrow> se_id x \<notin> se_id ` set l"
    by (rule sale_steps [OF P(1,2) q lk1 cap assms(7-9)])
  obtain l where l: "unfinishedSellEscrows (rq_uuid r) s4 = (Inr l, s4)"
    by (rule escrow_unfinished_mem [OF sale_okD(4) [OF steps(4)]])
  show ?thesis using r1 steps(1-6) steps(7) [rule_format, OF l] l P(4,6) by auto
qed

theorem sale_goes_through_witness:
  "\<exists>x s1 s2 res s3. prepareSellEscrow demo_cfg demo_sell demo_sale = (Inr x, s1) \<and>
    markSellEscrowTagged (se_id x) 9 2 s1 = (Inr (), s2) \<and> executeSellEscrow (se_id x) s2 = (Inr res, s3)"
proof -
  have "validateRequest demo_cfg demo_sell = Inr ()" "rq_side demo_sell = Sell"
    "money_supply demo_sale + initial_balance_cents demo_cfg \<le> int64_max" "rq_quantity demo_sell \<le> 9"
    "(9::int) \<le> int32_max" by code_simp+
  moreover have "lockActiveBook (rq_market demo_sell) demo_sale = (Inr 1, demo_sale)"
  proof -
    have "case market_of demo_sale (rq_market demo_sell) of None \<Rightarrow> False
      | Some m \<Rightarrow> mk_active m \<and> mk_book m = 1 \<and> book_of demo_sale 1 \<noteq> None" by code_simp
    then show ?thesis by (auto simp: lockActiveBook_Inr split: option.splits)
  qed
  ultimately show ?thesis
    using sale_goes_through [OF demo_cfg_ok demo_sale_ok, of demo_sell 1 9 2] by simp metis
qed

end
