(* ===== verification/Transfers.thy ===== *)
theory Transfers
  imports Sell_Escrow
begin

text \<open>
  Transfers between the exchange's accounts and the external economy (UMoney), of
  src/exchange_service.cpp. The external balance cannot take part in a database transaction, so a
  transfer is a durable state machine: PREPARED before the external call, EXTERNAL_APPLIED after it,
  COMPLETED when the exchange has booked it; FAILED when the external side refused, BLOCKED when its
  outcome is unknown. A withdrawal is debited when it is prepared and refunded when it fails, a
  deposit is credited when it completes.
\<close>

section \<open>Operations\<close>

definition updateTransfer :: "Id \<Rightarrow> (transfer_row \<Rightarrow> transfer_row) \<Rightarrow> unit dbm" where
  "updateTransfer i g = executeS (\<lambda>s. s\<lparr>transfers := upd_where (\<lambda>x. x_id x = i) g (transfers s)\<rparr>)"

definition findEconomyTransfer :: "Id \<Rightarrow> EconomyTransfer option dbm" where
  "findEconomyTransfer i = queryS (\<lambda>s. map_option transfer_view (transfer_of s i))"

definition new_transfer :: "Id \<Rightarrow> string \<Rightarrow> string \<Rightarrow> string \<Rightarrow> EconomyTransferDirection \<Rightarrow> Cents \<Rightarrow> int \<Rightarrow>
    int option \<Rightarrow> transfer_row" where
  "new_transfer i key u n dir cents units baseline = \<lparr>x_id = i, x_key = key, x_player = u, x_name = n,
     x_direction = dir, x_cents = cents, x_units = units, x_status = TransferPrepared,
     x_before = baseline, x_after = None, x_attempts = 0, x_error = None\<rparr>"

text \<open>
  \<open>key\<close> is the value MySQL's \<open>UUID()\<close> returns for this insert; the column is UNIQUE, a value that
  was used before is refused.
\<close>

definition reserveTransfer :: "string \<Rightarrow> string \<Rightarrow> string \<Rightarrow> EconomyTransferDirection \<Rightarrow> Cents \<Rightarrow>
    int \<Rightarrow> int option \<Rightarrow> Id dbm" where
  "reserveTransfer key u n dir cents units baseline = transactionS (
    bindS (queryS (\<lambda>s. fresh_id x_id (transfers s))) (\<lambda>i.
    bindS (executeIfS (\<lambda>s. key \<notin> x_key ` set (transfers s)) duplicate_entry
      (\<lambda>s. s\<lparr>transfers := transfers s @ [new_transfer i key u n dir cents units baseline]\<rparr>)) (\<lambda>_.
    bindS (whenS (dir = Withdraw)
      (debit u cents ''UMONEY_WITHDRAW_RESERVED'' ''ECONOMY_TRANSFER'' (Some i))) (\<lambda>_.
    returnS i))))"

definition prepareEconomyTransfer :: "service_config \<Rightarrow> string \<Rightarrow> string \<Rightarrow> string \<Rightarrow>
    EconomyTransferDirection \<Rightarrow> Cents \<Rightarrow> int \<Rightarrow> int option \<Rightarrow> EconomyTransfer dbm" where
  "prepareEconomyTransfer cfg key u n dir cents units baseline =
    bindS (throwIf (u = [] \<or> n = []) (Runtime_Error ''economy transfer identity is incomplete'')) (\<lambda>_.
    bindS (throwIf (cents \<le> 0 \<or> units \<le> 0)
      (Runtime_Error ''economy transfer amount must be positive'')) (\<lambda>_.
    bindS (ensureAccount cfg u n) (\<lambda>_.
    bindS (reserveTransfer key u n dir cents units baseline) (\<lambda>i.
    bindS (findEconomyTransfer i) (\<lambda>transfer.
    case transfer of None \<Rightarrow> throwS (Runtime_Error ''prepared economy transfer could not be reloaded'')
    | Some t \<Rightarrow> returnS t)))))"

definition pending_status :: "EconomyTransferStatus \<Rightarrow> bool" where
  "pending_status st \<longleftrightarrow> st = TransferPrepared \<or> st = TransferExternalApplied"

definition pendingEconomyTransfers :: "int \<Rightarrow> EconomyTransfer list dbm" where
  "pendingEconomyTransfers limit =
    bindS (throwIf (limit \<le> 0 \<or> limit > 100)
      (Runtime_Error ''economy transfer query limit must be between 1 and 100'')) (\<lambda>_.
    queryS (\<lambda>s. map transfer_view (take (nat limit)
      (sort_key x_id (filter (\<lambda>x. pending_status (x_status x)) (transfers s))))))"

text \<open>\<open>error.substr(0, 500)\<close>\<close>

definition safe_error :: "string \<Rightarrow> string" where
  "safe_error e = take 500 e"

definition attempt_failed :: "string \<Rightarrow> transfer_row \<Rightarrow> transfer_row" where
  "attempt_failed e x = x\<lparr>x_attempts := x_attempts x + 1, x_error := Some (safe_error e)\<rparr>"

definition transfer_missing :: error where
  "transfer_missing = Runtime_Error ''prepared economy transfer does not exist''"

definition recordEconomyTransferAttempt :: "Id \<Rightarrow> string \<Rightarrow> unit dbm" where
  "recordEconomyTransferAttempt i e =
    bindS (updateS (\<lambda>s. True) foreign_key_failed
      (\<lambda>s. count_where (\<lambda>x. x_id x = i \<and> x_status x = TransferPrepared) (transfers s))
      (\<lambda>s. s\<lparr>transfers := upd_where (\<lambda>x. x_id x = i \<and> x_status x = TransferPrepared)
         (attempt_failed e) (transfers s)\<rparr>)) (\<lambda>affected.
    if affected \<noteq> 1
    then
      bindS (findEconomyTransfer i) (\<lambda>transfer.
      throwIf (case transfer of None \<Rightarrow> True | Some t \<Rightarrow> et_status t = TransferFailed) transfer_missing)
    else returnS ())"

definition unknown_transfer :: error where
  "unknown_transfer = Runtime_Error ''economy transfer does not exist''"

definition set_applied :: "int \<Rightarrow> transfer_row \<Rightarrow> transfer_row" where
  "set_applied after x = x\<lparr>x_status := TransferExternalApplied, x_after := Some after,
     x_attempts := x_attempts x + 1, x_error := None\<rparr>"

definition markEconomyTransferExternalApplied :: "Id \<Rightarrow> int \<Rightarrow> unit dbm" where
  "markEconomyTransferExternalApplied i after = transactionS (
    bindS (queryS (\<lambda>s. transfer_of s i)) (\<lambda>row.
    case row of None \<Rightarrow> throwS unknown_transfer
    | Some x \<Rightarrow>
      bindS (throwIf (x_status x = TransferFailed \<or> x_status x = TransferBlocked)
        (Runtime_Error ''failed or blocked economy transfer cannot be applied'')) (\<lambda>_.
      whenS (x_status x = TransferPrepared) (updateTransfer i (set_applied after)))))"

definition set_completed :: "transfer_row \<Rightarrow> transfer_row" where
  "set_completed x = x\<lparr>x_status := TransferCompleted, x_error := None\<rparr>"

definition completeEconomyTransfer :: "Id \<Rightarrow> Cents dbm" where
  "completeEconomyTransfer i = transactionS (
    bindS (queryS (\<lambda>s. transfer_of s i)) (\<lambda>row.
    case row of None \<Rightarrow> throwS unknown_transfer
    | Some x \<Rightarrow>
      bindS (throwIf (x_status x = TransferFailed)
        (Runtime_Error ''failed economy transfer cannot be completed'')) (\<lambda>_.
      if x_status x = TransferCompleted then lockedBalance (x_player x)
      else
        bindS (throwIf (x_status x \<noteq> TransferExternalApplied)
          (Runtime_Error ''economy transfer external operation is not applied'')) (\<lambda>_.
        bindS (whenS (x_direction x = Deposit)
          (credit (x_player x) (x_cents x) ''UMONEY_DEPOSIT'' ''ECONOMY_TRANSFER'' (Some i))) (\<lambda>_.
        bindS (updateTransfer i set_completed) (\<lambda>_.
        lockedBalance (x_player x)))))))"

definition set_failed :: "string \<Rightarrow> transfer_row \<Rightarrow> transfer_row" where
  "set_failed e x = x\<lparr>x_status := TransferFailed, x_attempts := x_attempts x + 1,
     x_error := Some (safe_error e)\<rparr>"

definition failEconomyTransfer :: "Id \<Rightarrow> string \<Rightarrow> Cents dbm" where
  "failEconomyTransfer i e = transactionS (
    bindS (queryS (\<lambda>s. transfer_of s i)) (\<lambda>row.
    case row of None \<Rightarrow> throwS unknown_transfer
    | Some x \<Rightarrow>
      bindS (throwIf (x_status x = TransferExternalApplied \<or> x_status x = TransferCompleted \<or>
          x_status x = TransferBlocked)
        (Runtime_Error ''applied economy transfer cannot be failed'')) (\<lambda>_.
      bindS (whenS (x_status x = TransferPrepared)
        (bindS (whenS (x_direction x = Withdraw)
          (credit (x_player x) (x_cents x) ''UMONEY_WITHDRAW_REFUND'' ''ECONOMY_TRANSFER'' (Some i))) (\<lambda>_.
        updateTransfer i (set_failed e)))) (\<lambda>_.
      lockedBalance (x_player x)))))"

definition set_blocked :: "string \<Rightarrow> transfer_row \<Rightarrow> transfer_row" where
  "set_blocked e x = x\<lparr>x_status := TransferBlocked, x_attempts := x_attempts x + 1,
     x_error := Some (safe_error e)\<rparr>"

definition blockEconomyTransfer :: "Id \<Rightarrow> string \<Rightarrow> unit dbm" where
  "blockEconomyTransfer i e =
    bindS (updateS (\<lambda>s. True) foreign_key_failed
      (\<lambda>s. count_where (\<lambda>x. x_id x = i \<and> x_status x = TransferPrepared) (transfers s))
      (\<lambda>s. s\<lparr>transfers := upd_where (\<lambda>x. x_id x = i \<and> x_status x = TransferPrepared)
         (set_blocked e) (transfers s)\<rparr>)) (\<lambda>affected.
    throwIf (affected \<noteq> 1) transfer_missing)"

definition pendingEconomyTransferCount :: "int dbm" where
  "pendingEconomyTransferCount =
    bindS (queryS (\<lambda>s. count_where
      (\<lambda>x. pending_status (x_status x) \<or> x_status x = TransferBlocked) (transfers s))) (\<lambda>n.
    liftS (cellInt_of (int n)))"

text \<open>The five sub-selects of \<open>economyBackingDeficit\<close>.\<close>

definition open_reserves :: "db \<Rightarrow> Cents" where
  "open_reserves s = (\<Sum>x\<leftarrow>filter (\<lambda>x. open_status (o_status x)) (orders s). o_reserved x)"

definition transfer_sum :: "EconomyTransferDirection \<Rightarrow> EconomyTransferStatus list \<Rightarrow> db \<Rightarrow> Cents" where
  "transfer_sum dir sts s =
    (\<Sum>x\<leftarrow>filter (\<lambda>x. x_direction x = dir \<and> x_status x \<in> set sts) (transfers s). x_cents x)"

definition backing_deficit :: "db \<Rightarrow> Cents" where
  "backing_deficit s = total_balance s + open_reserves s +
     transfer_sum Withdraw [TransferPrepared, TransferBlocked] s -
     transfer_sum Deposit [TransferExternalApplied, TransferCompleted] s +
     transfer_sum Withdraw [TransferExternalApplied, TransferCompleted] s"

definition economyBackingDeficit :: "Cents dbm" where
  "economyBackingDeficit = bindS (queryS backing_deficit) (\<lambda>v. liftS (cellInt64_of v))"

section \<open>The operations as one datatype\<close>

datatype transfer_op =
    Prepare string string string EconomyTransferDirection Cents int "int option"
  | Attempt Id string
  | Applied Id int
  | Complete Id
  | Fail Id string
  | Block_Transfer Id string

fun run_transfer :: "service_config \<Rightarrow> transfer_op \<Rightarrow> unit dbm" where
  "run_transfer cfg (Prepare key u n dir cents units baseline) =
     ignore (prepareEconomyTransfer cfg key u n dir cents units baseline)"
| "run_transfer cfg (Attempt i e) = recordEconomyTransferAttempt i e"
| "run_transfer cfg (Applied i after) = markEconomyTransferExternalApplied i after"
| "run_transfer cfg (Complete i) = ignore (completeEconomyTransfer i)"
| "run_transfer cfg (Fail i e) = ignore (failEconomyTransfer i e)"
| "run_transfer cfg (Block_Transfer i e) = blockEconomyTransfer i e"

section \<open>The invariant\<close>

definition transfers_ok :: "db \<Rightarrow> bool" where
  "transfers_ok s \<longleftrightarrow> distinct (map x_id (transfers s)) \<and> distinct (map x_key (transfers s)) \<and>
    (\<forall>x \<in> set (transfers s). 0 < x_cents x \<and> 0 < x_units x \<and> account_of s (x_player x) \<noteq> None)"

lemma transfers_okD:
  assumes "transfers_ok s"
  shows "distinct (map x_id (transfers s))" "distinct (map x_key (transfers s))"
    "x \<in> set (transfers s) \<Longrightarrow> 0 < x_cents x" "x \<in> set (transfers s) \<Longrightarrow> 0 < x_units x"
    "x \<in> set (transfers s) \<Longrightarrow> account_of s (x_player x) \<noteq> None"
  using assms unfolding transfers_ok_def by blast+

definition with_transfer :: "Id \<Rightarrow> (transfer_row \<Rightarrow> transfer_row) \<Rightarrow> db \<Rightarrow> db" where
  "with_transfer i g s = s\<lparr>transfers := upd_where (\<lambda>x. x_id x = i) g (transfers s)\<rparr>"

text \<open>The updates leave alone what identifies a transfer and what it is worth.\<close>

definition transfer_identity :: "transfer_row \<Rightarrow> Id \<times> string \<times> string \<times> string \<times> EconomyTransferDirection \<times> Cents \<times> int" where
  "transfer_identity x = (x_id x, x_key x, x_player x, x_name x, x_direction x, x_cents x, x_units x)"

lemma transfer_updates [simp]:
  "transfer_identity (attempt_failed e x) = transfer_identity x"
  "transfer_identity (set_applied n x) = transfer_identity x"
  "transfer_identity (set_completed x) = transfer_identity x"
  "transfer_identity (set_failed e x) = transfer_identity x"
  "transfer_identity (set_blocked e x) = transfer_identity x"
  "x_status (attempt_failed e x) = x_status x" "x_status (set_applied n x) = TransferExternalApplied"
  "x_status (set_completed x) = TransferCompleted" "x_status (set_failed e x) = TransferFailed"
  "x_status (set_blocked e x) = TransferBlocked"
  by (simp_all add: transfer_identity_def attempt_failed_def set_applied_def set_completed_def
      set_failed_def set_blocked_def)

lemma identityD:
  assumes "transfer_identity x = transfer_identity y"
  shows "x_id x = x_id y" "x_key x = x_key y" "x_player x = x_player y" "x_direction x = x_direction y"
    "x_cents x = x_cents y" "x_units x = x_units y"
  using assms by (simp_all add: transfer_identity_def)

lemma transfers_only [simp]:
  "sale_ok (s\<lparr>transfers := ts\<rparr>) = sale_ok s" "total_balance (s\<lparr>transfers := ts\<rparr>) = total_balance s"
  "open_reserves (s\<lparr>transfers := ts\<rparr>) = open_reserves s"
  by (simp_all add: sale_ok_def trading_ok_def orders_ok_def order_refs_def uncrossed_def trades_ok_def
      deliveries_ok_def escrows_ok_def escrow_refs_def open_reserves_def)

lemma transfer_of_Some: "transfer_of s i = Some x \<Longrightarrow> x \<in> set (transfers s) \<and> x_id x = i"
  unfolding transfer_of_def by (rule find_key_in)

locale transfer_update =
  fixes g :: "transfer_row \<Rightarrow> transfer_row"
  assumes same: "transfer_identity (g x) = transfer_identity x"
begin

lemma fields [simp]: "x_id (g x) = x_id x" "x_key (g x) = x_key x" "x_player (g x) = x_player x"
  "x_direction (g x) = x_direction x" "x_cents (g x) = x_cents x" "x_units (g x) = x_units x"
  by (rule identityD [OF same])+

lemma with_ok: "transfers_ok s \<Longrightarrow> transfers_ok (with_transfer i g s)"
  by (auto simp: transfers_ok_def with_transfer_def map_upd_where in_upd_where account_of_def)

lemma with_row:
  "transfer_of s i = Some x \<Longrightarrow> transfer_of (with_transfer i g s) j = (if j = i then Some (g x) else transfer_of s j)"
  by (auto simp: transfer_of_def with_transfer_def find_upd_where_key [of x_id g, OF fields(1)])

lemma with_sum:
  fixes h :: "transfer_row \<Rightarrow> int"
  assumes "transfers_ok s" and "transfer_of s i = Some x"
  shows "(\<Sum>y\<leftarrow>transfers (with_transfer i g s). h y) = (\<Sum>y\<leftarrow>transfers s. h y) - h x + h (g x)"
proof -
  note X = transfer_of_Some [OF assms(2)]
  from sum_list_upd_key [OF transfers_okD(1) [OF assms(1)] conjunct1 [OF X] conjunct2 [OF X], of h g]
  show ?thesis by (simp add: with_transfer_def)
qed

end

interpretation attempt_failed: transfer_update "attempt_failed e" for e by unfold_locales simp
interpretation set_applied: transfer_update "set_applied n" for n by unfold_locales simp
interpretation set_completed: transfer_update set_completed by unfold_locales simp
interpretation set_failed: transfer_update "set_failed e" for e by unfold_locales simp
interpretation set_blocked: transfer_update "set_blocked e" for e by unfold_locales simp

section \<open>What backs the exchange's money\<close>

text \<open>
  \<open>economyBackingDeficit\<close> is the money of the exchange that no applied deposit pays for. Between
  the external application of a deposit and its completion it is too small by the deposit, the
  money in flight; with that added back it becomes a sum over the transfers.
\<close>

definition in_flight :: "db \<Rightarrow> Cents" where
  "in_flight s = transfer_sum Deposit [TransferExternalApplied] s"

definition net_issue :: "db \<Rightarrow> Cents" where
  "net_issue s = backing_deficit s + in_flight s"

definition transfer_weight :: "transfer_row \<Rightarrow> Cents" where
  "transfer_weight x = (if x_direction x = Withdraw
     then if x_status x = TransferFailed then 0 else x_cents x
     else if x_status x = TransferCompleted then - x_cents x else 0)"

lemma transfer_sums:
  fixes xs :: "transfer_row list"
  defines "f dir sts \<equiv> (\<Sum>x\<leftarrow>filter (\<lambda>x. x_direction x = dir \<and> x_status x \<in> set sts) xs. x_cents x)"
  shows "f Withdraw [TransferPrepared, TransferBlocked] - f Deposit [TransferExternalApplied, TransferCompleted] +
    f Withdraw [TransferExternalApplied, TransferCompleted] + f Deposit [TransferExternalApplied] =
    (\<Sum>x\<leftarrow>xs. transfer_weight x)"
  unfolding f_def
proof (induction xs)
  case (Cons x xs)
  then show ?case by (cases "x_direction x"; cases "x_status x") (simp_all add: transfer_weight_def)
qed simp

lemma net_issue_eq: "net_issue s = total_balance s + open_reserves s + (\<Sum>x\<leftarrow>transfers s. transfer_weight x)"
  using transfer_sums [of "transfers s"]
  by (simp add: net_issue_def backing_deficit_def in_flight_def transfer_sum_def)

text \<open>With well-formed orders the open reserves are all reserves.\<close>

lemma open_reserves_eq:
  assumes "orders_ok s"
  shows "open_reserves s = reserved_total s"
proof -
  have "o_reserved x = 0" if "x \<in> set (orders s)" "\<not> open_status (o_status x)" for x
    using orders_okD(2) [OF assms that(1)] that(2) by (auto simp: order_ok_def resting_def)
  then have "(\<Sum>x\<leftarrow>filter (\<lambda>x. open_status (o_status x)) xs. o_reserved x) = (\<Sum>x\<leftarrow>xs. o_reserved x)"
    if "set xs \<subseteq> set (orders s)" for xs
    using that by (induction xs) auto
  then show ?thesis by (simp add: open_reserves_def reserved_total_def)
qed

section \<open>The effect of each operation\<close>

text \<open>Money moves on one account, then one transfer changes its row.\<close>

definition booked :: "Id \<Rightarrow> (transfer_row \<Rightarrow> transfer_row) \<Rightarrow> string \<Rightarrow> Cents \<Rightarrow> db \<Rightarrow> db \<Rightarrow> bool" where
  "booked i g u d s s' \<longleftrightarrow> (\<exists>s1. money_only s s1 \<and> money_ok s1 \<and>
     balance_of s1 = (balance_of s)(u := balance_of s u + d) \<and> total_balance s1 = total_balance s + d \<and>
     s' = with_transfer i g s1)"

lemma booked_zero: "money_ok s \<Longrightarrow> booked i g u 0 s (with_transfer i g s)"
  unfolding booked_def by (rule exI [of _ s]) simp

lemma credit_booked:
  assumes "money_ok s" and "credit u m r rt ri s = (Inr z, s1)"
  shows "booked i g u m s (with_transfer i g s1)"
  unfolding booked_def using credit_effect [OF assms] by (intro exI [of _ s1]) simp

lemma whenS_credit_booked:
  assumes "money_ok s" and "whenS c (credit u m r rt ri) s = (Inr z, s1)"
  shows "booked i g u (if c then m else 0) s (with_transfer i g s1)"
  using assms credit_booked [OF assms(1)] booked_zero [OF assms(1)] by (auto simp: whenS_Inr)

lemma complete_Inr:
  assumes "money_ok s" and "completeEconomyTransfer i s = (Inr b, s')"
  obtains x where "transfer_of s i = Some x"
    "(x_status x = TransferCompleted \<and> s' = s) \<or> (x_status x = TransferExternalApplied \<and>
      booked i set_completed (x_player x) (if x_direction x = Deposit then x_cents x else 0) s s')"
    "account_of s' (x_player x) \<noteq> None" "b = balance_of s' (x_player x)"
proof -
  from assms(2) obtain x where x: "transfer_of s i = Some x" "x_status x \<noteq> TransferFailed"
    "x_status x = TransferCompleted \<or> x_status x = TransferExternalApplied"
    by (auto simp: completeEconomyTransfer_def svc_simps split: option.splits if_splits)
  show thesis
  proof (cases "x_status x = TransferCompleted")
    case True
    with assms(2) x that show thesis
      by (auto simp: completeEconomyTransfer_def svc_simps lockedBalance_Inr simp del: not_None_eq)
  next
    case False
    with assms(2) x obtain s1 where w: "whenS (x_direction x = Deposit)
          (credit (x_player x) (x_cents x) ''UMONEY_DEPOSIT'' ''ECONOMY_TRANSFER'' (Some i)) s = (Inr (), s1)"
      and l: "s' = with_transfer i set_completed s1" "account_of s' (x_player x) \<noteq> None"
        "b = balance_of s' (x_player x)"
      by (auto simp: completeEconomyTransfer_def svc_simps lockedBalance_Inr updateTransfer_def with_transfer_def
          simp del: not_None_eq whenS_Inr)
    from whenS_credit_booked [OF assms(1) w, of i set_completed] False x l that show thesis by blast
  qed
qed

lemma fail_Inr:
  assumes "money_ok s" and "failEconomyTransfer i e s = (Inr b, s')"
  obtains x where "transfer_of s i = Some x"
    "(x_status x = TransferFailed \<and> s' = s) \<or> (x_status x = TransferPrepared \<and>
      booked i (set_failed e) (x_player x) (if x_direction x = Withdraw then x_cents x else 0) s s')"
    "account_of s' (x_player x) \<noteq> None" "b = balance_of s' (x_player x)"
proof -
  from assms(2) obtain x where x: "transfer_of s i = Some x"
    "x_status x = TransferFailed \<or> x_status x = TransferPrepared"
  proof -
    from assms(2) obtain x where "transfer_of s i = Some x"
      "\<not> (x_status x = TransferExternalApplied \<or> x_status x = TransferCompleted \<or> x_status x = TransferBlocked)"
      by (auto simp: failEconomyTransfer_def svc_simps split: option.splits)
    then show thesis using that EconomyTransferStatus.exhaust [of "x_status x"] by blast
  qed
  show thesis
  proof (cases "x_status x = TransferFailed")
    case True
    with assms(2) x that show thesis
      by (auto simp: failEconomyTransfer_def svc_simps lockedBalance_Inr simp del: not_None_eq)
  next
    case False
    with assms(2) x obtain s1 where w: "whenS (x_direction x = Withdraw)
          (credit (x_player x) (x_cents x) ''UMONEY_WITHDRAW_REFUND'' ''ECONOMY_TRANSFER'' (Some i)) s = (Inr (), s1)"
      and l: "s' = with_transfer i (set_failed e) s1" "account_of s' (x_player x) \<noteq> None"
        "b = balance_of s' (x_player x)"
      by (auto simp: failEconomyTransfer_def svc_simps whenS_def [of True] lockedBalance_Inr updateTransfer_def
          with_transfer_def simp del: not_None_eq whenS_Inr)
    from whenS_credit_booked [OF assms(1) w, of i "set_failed e"] False x l that show thesis by blast
  qed
qed

lemma applied_eq:
  assumes "transfer_of s i = Some x"
  shows "if x_status x = TransferPrepared then
      markEconomyTransferExternalApplied i n s = (Inr (), with_transfer i (set_applied n) s)
    else if x_status x = TransferExternalApplied \<or> x_status x = TransferCompleted then
      markEconomyTransferExternalApplied i n s = (Inr (), s)
    else isl (fst (markEconomyTransferExternalApplied i n s)) \<and>
      snd (markEconomyTransferExternalApplied i n s) = s"
  using assms by (cases "x_status x")
    (simp_all add: markEconomyTransferExternalApplied_def svc_evals updateTransfer_def with_transfer_def)

lemma attempt_state:
  assumes ok: "transfers_ok s" and x: "transfer_of s i = Some x"
  shows "snd (recordEconomyTransferAttempt i e s) =
      (if x_status x = TransferPrepared then with_transfer i (attempt_failed e) s else s)"
  using upd_where_key_cond [OF transfers_okD(1) [OF ok] x [unfolded transfer_of_def],
      of "\<lambda>x. x_status x = TransferPrepared"]
  by (simp add: recordEconomyTransferAttempt_def svc_evals with_transfer_def findEconomyTransfer_def)

lemma block_eq:
  assumes ok: "transfers_ok s" and x: "transfer_of s i = Some x"
  shows "blockEconomyTransfer i e s =
    (if x_status x = TransferPrepared then (Inr (), with_transfer i (set_blocked e) s)
     else (Inl transfer_missing, s))"
  using upd_where_key_cond [OF transfers_okD(1) [OF ok] x [unfolded transfer_of_def],
      of "\<lambda>x. x_status x = TransferPrepared"]
  by (simp add: blockEconomyTransfer_def svc_evals with_transfer_def)

lemma no_transfer:
  assumes "transfer_of s i = None"
  shows "snd (recordEconomyTransferAttempt i e s) = s" "blockEconomyTransfer i e s = (Inl transfer_missing, s)"
    "markEconomyTransferExternalApplied i n s = (Inl unknown_transfer, s)"
    "completeEconomyTransfer i s = (Inl unknown_transfer, s)" "failEconomyTransfer i e s = (Inl unknown_transfer, s)"
  using upd_where_key_missing [OF assms [unfolded transfer_of_def], where Q = "\<lambda>x. x_status x = TransferPrepared"] assms
  by (simp_all add: recordEconomyTransferAttempt_def blockEconomyTransfer_def svc_evals findEconomyTransfer_def
      markEconomyTransferExternalApplied_def completeEconomyTransfer_def failEconomyTransfer_def)

lemma complete_Inl: "completeEconomyTransfer i s = (Inl e, s') \<Longrightarrow> s' = s"
  by (simp add: completeEconomyTransfer_def transactionS_Inl)

lemma fail_Inl: "failEconomyTransfer i e s = (Inl err, s') \<Longrightarrow> s' = s"
  by (simp add: failEconomyTransfer_def transactionS_Inl)

text \<open>Preparing: a row, and for a withdrawal the debit.\<close>

definition grant :: "service_config \<Rightarrow> string \<Rightarrow> db \<Rightarrow> db \<Rightarrow> Cents" where
  "grant cfg u s s' =
    (if account_of s u = None \<and> account_of s' u \<noteq> None then initial_balance_cents cfg else 0)"

lemma ensureAccount_facts:
  assumes "config_ok cfg" and "money_ok s" and "ensureAccount cfg u n s = (r, s')"
  shows "money_ok s'" "money_only s s'" "total_balance s' = total_balance s + grant cfg u s s'"
proof -
  note E = ensureAccount_effect [OF assms]
  show "money_ok s'" "money_only s s'" by (fact E(1,2))+
  show "total_balance s' = total_balance s + grant cfg u s s'"
  proof (cases r)
    case (Inl e)
    with assms(3) have "s' = s" by (auto intro: ensureAccount_Inl)
    then show ?thesis by (auto simp: grant_def)
  next
    case (Inr x)
    with E(3,4) show ?thesis by (simp add: grant_def)
  qed
qed

lemma reserve_Inr:
  assumes ok: "money_ok s" and run: "reserveTransfer key u n dir cents units baseline s = (Inr i, s')"
  obtains s2 where "i = fresh_id x_id (transfers s)" "key \<notin> x_key ` set (transfers s)"
    "s2 = s\<lparr>transfers := transfers s @ [new_transfer i key u n dir cents units baseline]\<rparr>"
    "money_only s2 s'" "money_ok s'"
    "balance_of s' = (balance_of s)(u := balance_of s u - (if dir = Withdraw then cents else 0))"
    "total_balance s' = total_balance s - (if dir = Withdraw then cents else 0)"
    "dir = Withdraw \<Longrightarrow> cents \<le> balance_of s u"
    "transfer_of s' i = Some (new_transfer i key u n dir cents units baseline)"
proof -
  let ?s2 = "s\<lparr>transfers := transfers s @ [new_transfer i key u n dir cents units baseline]\<rparr>"
  from run have i: "i = fresh_id x_id (transfers s)" and k: "key \<notin> x_key ` set (transfers s)"
    and w: "whenS (dir = Withdraw) (debit u cents ''UMONEY_WITHDRAW_RESERVED'' ''ECONOMY_TRANSFER'' (Some i))
      ?s2 = (Inr (), s')"
    by (auto simp: reserveTransfer_def svc_simps simp del: whenS_Inr)
  have D: "money_only ?s2 s' \<and> money_ok s' \<and>
      balance_of s' = (balance_of s)(u := balance_of s u - (if dir = Withdraw then cents else 0)) \<and>
      total_balance s' = total_balance s - (if dir = Withdraw then cents else 0) \<and>
      (dir = Withdraw \<longrightarrow> cents \<le> balance_of s u)"
  proof (cases "dir = Withdraw")
    case True
    with w have "debit u cents ''UMONEY_WITHDRAW_RESERVED'' ''ECONOMY_TRANSFER'' (Some i) ?s2 = (Inr (), s')"
      by (simp add: whenS_Inr)
    from debit_effect [OF _ this] ok True show ?thesis by simp
  next
    case False
    with w ok show ?thesis by (simp add: whenS_Inr)
  qed
  have "transfers s' = transfers ?s2" using D by (simp add: money_only_def)
  moreover have "find (\<lambda>x. x_id x = i) (transfers s) = None"
    unfolding i by (auto simp: find_None_iff fresh_id_neq)
  ultimately have "transfer_of s' i = Some (new_transfer i key u n dir cents units baseline)"
    by (simp add: transfer_of_def find_append new_transfer_def)
  with D i k that [OF i k refl] show thesis by simp
qed

lemma prepare_cases:
  assumes cfg: "config_ok cfg" and ok: "money_ok s"
    and run: "prepareEconomyTransfer cfg key u n dir cents units baseline s = (r, s')"
  shows "(isl r \<and> (s' = s \<or> (\<exists>r1. ensureAccount cfg u n s = (r1, s')))) \<or>
    (\<exists>s1 i. 0 < cents \<and> 0 < units \<and> ensureAccount cfg u n s = (Inr (), s1) \<and>
      reserveTransfer key u n dir cents units baseline s1 = (Inr i, s') \<and>
      r = Inr (transfer_view (new_transfer i key u n dir cents units baseline)))"
proof (cases "u = [] \<or> n = [] \<or> cents \<le> 0 \<or> units \<le> 0")
  case True
  with run show ?thesis by (auto simp: prepareEconomyTransfer_def svc_evals split: if_splits)
next
  case False
  obtain r1 s1 where e: "ensureAccount cfg u n s = (r1, s1)" by fastforce
  obtain r2 s2 where t: "reserveTransfer key u n dir cents units baseline s1 = (r2, s2)" by fastforce
  show ?thesis
  proof (cases r1)
    case (Inl err)
    with False e run show ?thesis by (auto simp: prepareEconomyTransfer_def svc_evals)
  next
    case r1: (Inr z)
    show ?thesis
    proof (cases r2)
      case (Inl err)
      with t have "s2 = s1" by (auto simp: reserveTransfer_def transactionS_Inl)
      with False e t r1 Inl run show ?thesis by (auto simp: prepareEconomyTransfer_def svc_evals)
    next
      case (Inr i)
      have "money_ok s1" using ensureAccount_facts(1) [OF cfg ok] e by simp
      from reserve_Inr [OF this t [unfolded Inr]]
      have "transfer_of s2 i = Some (new_transfer i key u n dir cents units baseline)" by metis
      with False e t r1 Inr run show ?thesis
        by (auto simp: prepareEconomyTransfer_def svc_evals findEconomyTransfer_def)
    qed
  qed
qed

lemma money_only_sale_ok: "money_only s s' \<Longrightarrow> money_ok s' \<Longrightarrow> sale_ok s \<Longrightarrow> sale_ok s'"
  by (meson sale_ok_logged logged_money_only money_only_trading sale_okD(1))

lemma money_only_transfers_ok: "money_only s s' \<Longrightarrow> transfers_ok s \<Longrightarrow> transfers_ok s'"
  using trade_frame_refs(1) [OF money_only_trade_frame, of s s'] money_onlyD(9) [of s s']
  unfolding transfers_ok_def by (simp del: not_None_eq)

lemma money_only_net_issue:
  "money_only s s' \<Longrightarrow> net_issue s' = net_issue s + (total_balance s' - total_balance s)"
  by (simp add: net_issue_eq open_reserves_def money_onlyD)

context transfer_update
begin

lemma booked_facts:
  assumes "sale_ok s" and "transfers_ok s" and x: "transfer_of s i = Some x" and b: "booked i g u d s s'"
  shows "sale_ok s'" "transfers_ok s'" "net_issue s' = net_issue s + d + transfer_weight (g x) - transfer_weight x"
    "transfer_of s' j = (if j = i then Some (g x) else transfer_of s j)"
    "balance_of s' = (balance_of s)(u := balance_of s u + d)" "account_of s v \<noteq> None \<Longrightarrow> account_of s' v \<noteq> None"
proof -
  from b obtain s1 where m: "money_only s s1" "money_ok s1"
    and bal: "balance_of s1 = (balance_of s)(u := balance_of s u + d)" "total_balance s1 = total_balance s + d"
    and s': "s' = with_transfer i g s1" unfolding booked_def by blast
  have ok1: "sale_ok s1" "transfers_ok s1"
    using money_only_sale_ok [OF m assms(1)] money_only_transfers_ok [OF m(1) assms(2)] by simp_all
  have x1: "transfer_of s1 k = transfer_of s k" for k using money_onlyD(9) [OF m(1)] by (simp add: transfer_of_def)
  show "sale_ok s'" using ok1(1) by (simp add: s' with_transfer_def)
  show "transfers_ok s'" unfolding s' by (rule with_ok [OF ok1(2)])
  show "transfer_of s' j = (if j = i then Some (g x) else transfer_of s j)"
    using with_row [of s1 i x j] x x1 by (simp add: s')
  show "balance_of s' = (balance_of s)(u := balance_of s u + d)" using bal(1) by (simp add: s' with_transfer_def)
  show "account_of s v \<noteq> None \<Longrightarrow> account_of s' v \<noteq> None"
    using trade_frame_refs(1) [OF money_only_trade_frame [OF m(1)]] by (simp add: s' with_transfer_def)
  have "net_issue s' = net_issue s1 + transfer_weight (g x) - transfer_weight x"
    using with_sum [OF ok1(2), of i x transfer_weight] x x1 by (simp add: net_issue_eq s') (simp add: with_transfer_def)
  then show "net_issue s' = net_issue s + d + transfer_weight (g x) - transfer_weight x"
    using money_only_net_issue [OF m(1)] bal(2) by simp
qed

lemma with_facts:
  assumes "sale_ok s" and "transfers_ok s" and x: "transfer_of s i = Some x"
  shows "sale_ok (with_transfer i g s)" "transfers_ok (with_transfer i g s)"
    "net_issue (with_transfer i g s) = net_issue s + transfer_weight (g x) - transfer_weight x"
    "transfer_of (with_transfer i g s) j = (if j = i then Some (g x) else transfer_of s j)"
    "balance_of (with_transfer i g s) = balance_of s"
  using booked_facts [OF assms booked_zero [OF trading_okD(1) [OF sale_okD(1) [OF assms(1)]]]] by simp_all

end

lemma prepared_facts:
  assumes cfg: "config_ok cfg" and ok: "sale_ok s" "transfers_ok s"
    and run: "prepareEconomyTransfer cfg key u n dir cents units baseline s = (r, s')"
  shows "sale_ok s'" "transfers_ok s'" "net_issue s' = net_issue s + grant cfg u s s'"
    "transfer_of s j = Some x \<Longrightarrow> transfer_of s' j = Some x"
proof -
  note mok = trading_okD(1) [OF sale_okD(1) [OF ok(1)]]
  from prepare_cases [OF cfg mok run]
  have "sale_ok s' \<and> transfers_ok s' \<and> net_issue s' = net_issue s + grant cfg u s s' \<and>
      (transfer_of s j = Some x \<longrightarrow> transfer_of s' j = Some x)"
  proof (elim disjE conjE exE)
    fix r1 assume "ensureAccount cfg u n s = (r1, s')"
    note E = ensureAccount_facts [OF cfg mok this]
    from money_only_sale_ok [OF E(2,1) ok(1)] money_only_transfers_ok [OF E(2) ok(2)] money_only_net_issue [OF E(2)]
      E(3) money_onlyD(9) [OF E(2)] show ?thesis by (simp add: transfer_of_def)
  next
    assume "s' = s"
    with ok show ?thesis by (auto simp: grant_def)
  next
    fix s1 i assume c: "0 < cents" "0 < units" and e: "ensureAccount cfg u n s = (Inr (), s1)"
      and t: "reserveTransfer key u n dir cents units baseline s1 = (Inr i, s')"
    have "money_ok s1" by (rule ensureAccount_facts(1) [OF cfg mok e])
    from reserve_Inr [OF this t] obtain s2 where
      i: "i = fresh_id x_id (transfers s1)" and k: "key \<notin> x_key ` set (transfers s1)"
      and s2: "s2 = s1\<lparr>transfers := transfers s1 @ [new_transfer i key u n dir cents units baseline]\<rparr>"
      and m: "money_only s2 s'" "money_ok s'"
      and tot: "total_balance s' = total_balance s1 - (if dir = Withdraw then cents else 0)" by metis
    note E = ensureAccount_facts [OF cfg mok e]
    have acc: "account_of s1 u \<noteq> None" by (rule ensureAccount_effect(3) [OF cfg mok e refl])
    have ok1: "sale_ok s1" "transfers_ok s1"
      using money_only_sale_ok [OF E(2,1) ok(1)] money_only_transfers_ok [OF E(2) ok(2)] by simp_all
    have "transfers_ok s2"
      using ok1(2) c k acc unfolding transfers_ok_def
      by (auto simp: s2 new_transfer_def i fresh_id_neq simp del: not_None_eq)
    moreover have "sale_ok s2" using ok1(1) by (simp add: s2)
    ultimately have "sale_ok s'" "transfers_ok s'"
      using money_only_sale_ok [OF m] money_only_transfers_ok [OF m(1)] by simp_all
    moreover have "transfer_of s' j = Some x" if "transfer_of s j = Some x"
      using that money_onlyD(9) [OF m(1)] money_onlyD(9) [OF E(2)] by (simp add: transfer_of_def s2 find_append)
    moreover have "net_issue s' = net_issue s + grant cfg u s s'"
    proof -
      have "net_issue s2 = net_issue s1 + (if dir = Withdraw then cents else 0)"
        by (cases dir) (simp_all add: net_issue_eq s2 transfer_weight_def new_transfer_def open_reserves_def)
      moreover have "net_issue s' = net_issue s2 + (total_balance s' - total_balance s2)"
        by (rule money_only_net_issue [OF m(1)])
      moreover have "net_issue s1 = net_issue s + grant cfg u s s1"
        using money_only_net_issue [OF E(2)] E(3) by simp
      moreover have "grant cfg u s s' = grant cfg u s s1"
        using trade_frame_refs(1) [OF money_only_trade_frame [OF m(1)], of u] acc by (simp add: grant_def s2)
      ultimately show ?thesis using tot by (simp add: s2)
    qed
    ultimately show ?thesis by blast
  qed
  then show "sale_ok s'" "transfers_ok s'" "net_issue s' = net_issue s + grant cfg u s s'"
    "transfer_of s j = Some x \<Longrightarrow> transfer_of s' j = Some x" by blast+
qed

section \<open>The transfer state machine\<close>

inductive transfer_moves :: "EconomyTransferStatus \<Rightarrow> EconomyTransferStatus \<Rightarrow> bool" where
  stays: "transfer_moves st st"
| applies: "transfer_moves TransferPrepared TransferExternalApplied"
| fails: "transfer_moves TransferPrepared TransferFailed"
| blocks: "transfer_moves TransferPrepared TransferBlocked"
| completes: "transfer_moves TransferExternalApplied TransferCompleted"

declare transfer_moves.intros [intro]

inductive_cases settled_moves [elim!]:
  "transfer_moves TransferCompleted st" "transfer_moves TransferFailed st" "transfer_moves TransferBlocked st"

inductive_simps applied_moves: "transfer_moves TransferExternalApplied st"

text \<open>What one operation may do to a row.\<close>

definition follows :: "transfer_row \<Rightarrow> transfer_row \<Rightarrow> bool" where
  "follows x x' \<longleftrightarrow> transfer_identity x' = transfer_identity x \<and> transfer_moves (x_status x) (x_status x')"

lemma follows_refl [simp]: "follows x x"
  by (auto simp: follows_def)

text \<open>The target of an operation.\<close>

fun op_target :: "transfer_op \<Rightarrow> Id option" where
  "op_target (Prepare key u n dir cents units baseline) = None"
| "op_target (Attempt i e) = Some i"
| "op_target (Applied i after) = Some i"
| "op_target (Complete i) = Some i"
| "op_target (Fail i e) = Some i"
| "op_target (Block_Transfer i e) = Some i"

fun op_grant :: "service_config \<Rightarrow> transfer_op \<Rightarrow> db \<Rightarrow> db \<Rightarrow> Cents" where
  "op_grant cfg (Prepare key u n dir cents units baseline) s s' = grant cfg u s s'"
| "op_grant cfg op s s' = 0"

definition step_ok :: "Cents \<Rightarrow> db \<Rightarrow> db \<Rightarrow> bool" where
  "step_ok d s s' \<longleftrightarrow> sale_ok s' \<and> transfers_ok s' \<and> net_issue s' = net_issue s + d \<and>
    (\<forall>j x. transfer_of s j = Some x \<longrightarrow> (\<exists>x'. transfer_of s' j = Some x' \<and> follows x x'))"

lemma step_ok_refl: "sale_ok s \<Longrightarrow> transfers_ok s \<Longrightarrow> step_ok 0 s s"
  by (auto simp: step_ok_def)

context transfer_update
begin

lemma booked_step:
  assumes "sale_ok s" and "transfers_ok s" and "transfer_of s i = Some x" and "booked i g u d s s'"
    and "transfer_moves (x_status x) (x_status (g x))" and "transfer_weight (g x) = transfer_weight x - d"
  shows "step_ok 0 s s'"
  using booked_facts [OF assms(1-4)] assms(3,5,6) same by (auto simp: step_ok_def follows_def)

lemma with_step:
  assumes "sale_ok s" and "transfers_ok s" and "transfer_of s i = Some x"
    and "transfer_moves (x_status x) (x_status (g x))" and "transfer_weight (g x) = transfer_weight x"
  shows "step_ok 0 s (with_transfer i g s)"
  using with_facts [OF assms(1-3)] assms(3,4,5) same by (auto simp: step_ok_def follows_def)

end

lemma weights:
  "x_status x = TransferPrepared \<Longrightarrow> transfer_weight (set_applied n x) = transfer_weight x"
  "x_status x = TransferPrepared \<Longrightarrow> transfer_weight (set_blocked e x) = transfer_weight x"
  "transfer_weight (attempt_failed e x) = transfer_weight x"
  "x_status x = TransferExternalApplied \<Longrightarrow>
    transfer_weight (set_completed x) = transfer_weight x - (if x_direction x = Deposit then x_cents x else 0)"
  "x_status x = TransferPrepared \<Longrightarrow>
    transfer_weight (set_failed e x) = transfer_weight x - (if x_direction x = Withdraw then x_cents x else 0)"
  by (cases "x_direction x"; simp add: transfer_weight_def)+

lemma ignore_state: "ignore m s = (r, s') \<longleftrightarrow> (\<exists>q. m s = (q, s') \<and> r = map_sum id (\<lambda>_. ()) q)"
  by (cases "m s"; cases "fst (m s)") (auto simp: ignore_def bindS_def returnS_def)

lemma complete_step:
  assumes ok: "sale_ok s" "transfers_ok s" and run: "completeEconomyTransfer i s = (r, s')"
  shows "step_ok 0 s s'"
proof (cases r)
  case (Inl e)
  with run ok show ?thesis by (auto dest: complete_Inl intro: step_ok_refl)
next
  case (Inr b)
  note mok = trading_okD(1) [OF sale_okD(1) [OF ok(1)]]
  from complete_Inr [OF mok run [unfolded Inr]] obtain x where x: "transfer_of s i = Some x"
    "(x_status x = TransferCompleted \<and> s' = s) \<or> (x_status x = TransferExternalApplied \<and>
      booked i set_completed (x_player x) (if x_direction x = Deposit then x_cents x else 0) s s')" by metis
  from x(2) show ?thesis
  proof
    assume a: "x_status x = TransferExternalApplied \<and>
      booked i set_completed (x_player x) (if x_direction x = Deposit then x_cents x else 0) s s'"
    show ?thesis
      by (rule set_completed.booked_step [OF ok x(1) conjunct2 [OF a]])
        (use a weights(4) [of x] in auto)
  qed (use ok step_ok_refl in simp)
qed

lemma fail_step:
  assumes ok: "sale_ok s" "transfers_ok s" and run: "failEconomyTransfer i e s = (r, s')"
  shows "step_ok 0 s s'"
proof (cases r)
  case (Inl e)
  with run ok show ?thesis by (auto dest: fail_Inl intro: step_ok_refl)
next
  case (Inr b)
  note mok = trading_okD(1) [OF sale_okD(1) [OF ok(1)]]
  from fail_Inr [OF mok run [unfolded Inr]] obtain x where x: "transfer_of s i = Some x"
    "(x_status x = TransferFailed \<and> s' = s) \<or> (x_status x = TransferPrepared \<and>
      booked i (set_failed e) (x_player x) (if x_direction x = Withdraw then x_cents x else 0) s s')" by metis
  from x(2) show ?thesis
  proof
    assume a: "x_status x = TransferPrepared \<and>
      booked i (set_failed e) (x_player x) (if x_direction x = Withdraw then x_cents x else 0) s s'"
    show ?thesis
      by (rule set_failed.booked_step [OF ok x(1) conjunct2 [OF a]])
        (use a weights(5) [of x e] in auto)
  qed (use ok step_ok_refl in simp)
qed

lemma run_transfer_step:
  assumes cfg: "config_ok cfg" and ok: "sale_ok s" "transfers_ok s" and run: "run_transfer cfg op s = (r, s')"
  shows "step_ok (op_grant cfg op s s') s s'"
proof (cases op)
  case (Prepare key u n dir cents units baseline)
  with run obtain q where "prepareEconomyTransfer cfg key u n dir cents units baseline s = (q, s')"
    by (auto simp: ignore_state)
  from prepared_facts [OF cfg ok this] Prepare show ?thesis by (auto simp: step_ok_def)
next
  case (Attempt i e)
  show ?thesis
  proof (cases "transfer_of s i")
    case None
    with run Attempt no_transfer(1) [OF None, of e] ok show ?thesis by (simp add: step_ok_refl)
  next
    case (Some x)
    have "s' = (if x_status x = TransferPrepared then with_transfer i (attempt_failed e) s else s)"
      using attempt_state [OF ok(2) Some, of e] run Attempt by simp
    with Attempt attempt_failed.with_step [OF ok Some] weights(3) ok show ?thesis by (auto simp: step_ok_refl)
  qed
next
  case (Applied i n)
  show ?thesis
  proof (cases "transfer_of s i")
    case None
    with run Applied no_transfer(3) [OF None, of n] ok show ?thesis by (simp add: step_ok_refl)
  next
    case (Some x)
    have "s' = (if x_status x = TransferPrepared then with_transfer i (set_applied n) s else s)"
      using applied_eq [OF Some, of n] run Applied by (auto split: if_splits)
    moreover have "step_ok 0 s (with_transfer i (set_applied n) s)" if "x_status x = TransferPrepared"
      by (rule set_applied.with_step [OF ok Some]) (use that weights(1) in auto)
    ultimately show ?thesis using Applied ok by (simp add: step_ok_refl)
  qed
next
  case (Complete i)
  with run complete_step [OF ok, of i] show ?thesis by (auto simp: ignore_state)
next
  case (Fail i e)
  with run fail_step [OF ok, of i e] show ?thesis by (auto simp: ignore_state)
next
  case (Block_Transfer i e)
  show ?thesis
  proof (cases "transfer_of s i")
    case None
    with run Block_Transfer no_transfer(2) [OF None, of e] ok show ?thesis by (simp add: step_ok_refl)
  next
    case (Some x)
    have "s' = (if x_status x = TransferPrepared then with_transfer i (set_blocked e) s else s)"
      using block_eq [OF ok(2) Some, of e] run Block_Transfer by (simp split: if_splits)
    moreover have "step_ok 0 s (with_transfer i (set_blocked e) s)" if "x_status x = TransferPrepared"
      by (rule set_blocked.with_step [OF ok Some]) (use that weights(2) in auto)
    ultimately show ?thesis using Block_Transfer ok by (simp add: step_ok_refl)
  qed
qed

section \<open>Properties\<close>

definition demo_deposit :: transfer_row where
  "demo_deposit = (new_transfer 1 ''k1'' ''bob'' ''bob'' Deposit 700 7 None)\<lparr>x_status := TransferExternalApplied\<rparr>"

definition demo_withdrawal :: transfer_row where
  "demo_withdrawal = new_transfer 2 ''k2'' ''dave'' ''dave'' Withdraw 100 1 (Some 5)"

definition demo_transfers :: db where
  "demo_transfers = demo_sale\<lparr>transfers := [demo_deposit, demo_withdrawal]\<rparr>"

lemma demo_transfers_ok: "sale_ok demo_transfers" "transfers_ok demo_transfers"
proof -
  show "sale_ok demo_transfers" using demo_sale_ok by (simp add: demo_transfers_def)
  show "transfers_ok demo_transfers" unfolding transfers_ok_def by code_simp
qed

lemma demo_transfer_rows:
  "transfer_of demo_transfers 1 = Some demo_deposit" "transfer_of demo_transfers 2 = Some demo_withdrawal"
  by code_simp+

text \<open>
  C17: No transfer operation, whatever its outcome, makes or loses money: with the deposits in flight
  added, the deficit that \<open>economyBackingDeficit\<close> reports changes only by the opening balance of a
  player whose account the operation opened. The invariants of the service survive every operation.
\<close>

theorem transfers_conserve_backing:
  assumes "config_ok cfg" and "sale_ok s" and "transfers_ok s" and "run_transfer cfg op s = (r, s')"
  shows "sale_ok s' \<and> transfers_ok s' \<and>
    backing_deficit s' + in_flight s' = backing_deficit s + in_flight s + op_grant cfg op s s'"
  using run_transfer_step [OF assms] by (simp add: step_ok_def net_issue_def)

theorem transfers_conserve_backing_witness:
  "backing_deficit (snd (run_transfer demo_cfg (Complete 1) demo_transfers)) = backing_deficit demo_transfers + 700"
proof -
  let ?s' = "snd (run_transfer demo_cfg (Complete 1) demo_transfers)"
  have "in_flight ?s' = 0" "in_flight demo_transfers = 700" by code_simp+
  with transfers_conserve_backing [OF demo_cfg_ok demo_transfers_ok prod.collapse [symmetric], of "Complete 1"]
  show ?thesis by simp
qed

text \<open>
  C18: The durable state machine: under any operation a transfer keeps its identity and amounts and
  its status stays or makes one of the four moves PREPARED to EXTERNAL_APPLIED, FAILED or BLOCKED
  and EXTERNAL_APPLIED to COMPLETED; so a completed, failed or blocked one never changes status
  again, and no transfer disappears.
\<close>

theorem transfer_state_machine:
  assumes "config_ok cfg" and "sale_ok s" and "transfers_ok s" and "run_transfer cfg op s = (r, s')"
    and "transfer_of s i = Some x"
  shows "\<exists>x'. transfer_of s' i = Some x' \<and> transfer_identity x' = transfer_identity x \<and>
    transfer_moves (x_status x) (x_status x') \<and>
    (x_status x \<in> {TransferCompleted, TransferFailed, TransferBlocked} \<longrightarrow> x_status x' = x_status x)"
  using run_transfer_step [OF assms(1-4)] assms(5) by (fastforce simp: step_ok_def follows_def)

theorem transfer_state_machine_witness:
  "\<exists>x'. transfer_of (snd (run_transfer demo_cfg (Fail 2 ''offline'') demo_transfers)) 2 = Some x' \<and>
    x_cents x' = 100"
proof -
  from transfer_state_machine [OF demo_cfg_ok demo_transfers_ok prod.collapse [symmetric] demo_transfer_rows(2)]
  obtain x' where "transfer_of (snd (run_transfer demo_cfg (Fail 2 ''offline'') demo_transfers)) 2 = Some x'"
    "transfer_identity x' = transfer_identity demo_withdrawal" by blast
  moreover have "x_cents demo_withdrawal = 100" by code_simp
  ultimately show ?thesis by (metis identityD(5))
qed

text \<open>
  C19: Completing a transfer books it exactly once: a deposit that was externally applied is credited
  in full on the first completion and a withdrawal not at all; completing again returns the same
  balance and changes nothing, and the transfer can no longer be failed.
\<close>

theorem completeEconomyTransfer_once:
  assumes "sale_ok s" and "transfers_ok s" and "transfer_of s i = Some x"
    and "completeEconomyTransfer i s = (Inr b, s')"
  shows "balance_of s' = (balance_of s)(x_player x := balance_of s (x_player x) +
      (if x_direction x = Deposit \<and> x_status x = TransferExternalApplied then x_cents x else 0)) \<and>
    b = balance_of s' (x_player x) \<and> completeEconomyTransfer i s' = (Inr b, s') \<and>
    isl (fst (failEconomyTransfer i e s')) \<and> snd (failEconomyTransfer i e s') = s'"
proof -
  note mok = trading_okD(1) [OF sale_okD(1) [OF assms(1)]]
  obtain y where y: "transfer_of s i = Some y" and D:
    "(x_status y = TransferCompleted \<and> s' = s) \<or> (x_status y = TransferExternalApplied \<and>
      booked i set_completed (x_player y) (if x_direction y = Deposit then x_cents y else 0) s s')"
    "account_of s' (x_player y) \<noteq> None" "b = balance_of s' (x_player y)"
    by (rule complete_Inr [OF mok assms(4)])
  have "y = x" using y assms(3) by simp
  note C = D(1) [unfolded this] and acc = D(2,3) [unfolded this]
  have B: "balance_of s' = (balance_of s)(x_player x := balance_of s (x_player x) +
      (if x_direction x = Deposit \<and> x_status x = TransferExternalApplied then x_cents x else 0)) \<and>
    (\<exists>x'. transfer_of s' i = Some x' \<and> x_status x' = TransferCompleted \<and> x_player x' = x_player x)"
    using C set_completed.booked_facts(4,5) [OF assms(1-3), of "x_player x" _ s'] assms(3)
    by (auto simp: fun_eq_iff)
  then obtain x' where x': "transfer_of s' i = Some x'" "x_status x' = TransferCompleted" "x_player x' = x_player x"
    by blast
  have "completeEconomyTransfer i s' = (Inr b, s')"
    using x' lockedBalance_eq [OF acc(1)] acc(2) by (simp add: completeEconomyTransfer_def svc_evals)
  moreover have "isl (fst (failEconomyTransfer i e s')) \<and> snd (failEconomyTransfer i e s') = s'"
    using x' by (simp add: failEconomyTransfer_def svc_evals)
  ultimately show ?thesis using B acc(2) by blast
qed

theorem completeEconomyTransfer_once_witness:
  "\<exists>s'. completeEconomyTransfer 1 demo_transfers = (Inr 900, s') \<and> balance_of s' ''bob'' = 900 \<and>
    completeEconomyTransfer 1 s' = (Inr 900, s')"
proof -
  have "(case fst (completeEconomyTransfer 1 demo_transfers) of Inr b \<Rightarrow> b = 900 | Inl e \<Rightarrow> False)" by code_simp
  then have "completeEconomyTransfer 1 demo_transfers = (Inr 900, snd (completeEconomyTransfer 1 demo_transfers))"
    by (cases "completeEconomyTransfer 1 demo_transfers") (auto split: sum.splits)
  then obtain s' where run: "completeEconomyTransfer 1 demo_transfers = (Inr 900, s')" by blast
  have "x_player demo_deposit = ''bob''" by code_simp
  with completeEconomyTransfer_once [OF demo_transfers_ok demo_transfer_rows(1) run, of "[]"] run show ?thesis by auto
qed

text \<open>
  C20: A failed withdrawal gives the reserved amount back exactly once: the first failure of a prepared
  transfer refunds a withdrawal in full and a deposit not at all; failing again changes nothing, and
  the transfer can be neither applied, completed nor blocked afterwards.
\<close>

theorem failEconomyTransfer_once:
  assumes "sale_ok s" and "transfers_ok s" and "transfer_of s i = Some x"
    and "failEconomyTransfer i e s = (Inr b, s')"
  shows "balance_of s' = (balance_of s)(x_player x := balance_of s (x_player x) +
      (if x_direction x = Withdraw \<and> x_status x = TransferPrepared then x_cents x else 0)) \<and>
    b = balance_of s' (x_player x) \<and> failEconomyTransfer i e' s' = (Inr b, s') \<and>
    isl (fst (completeEconomyTransfer i s')) \<and> snd (completeEconomyTransfer i s') = s' \<and>
    isl (fst (markEconomyTransferExternalApplied i n s')) \<and>
    snd (markEconomyTransferExternalApplied i n s') = s' \<and>
    blockEconomyTransfer i e' s' = (Inl transfer_missing, s')"
proof -
  note mok = trading_okD(1) [OF sale_okD(1) [OF assms(1)]]
  obtain y where y: "transfer_of s i = Some y" and D:
    "(x_status y = TransferFailed \<and> s' = s) \<or> (x_status y = TransferPrepared \<and>
      booked i (set_failed e) (x_player y) (if x_direction y = Withdraw then x_cents y else 0) s s')"
    "account_of s' (x_player y) \<noteq> None" "b = balance_of s' (x_player y)"
    by (rule fail_Inr [OF mok assms(4)])
  have "y = x" using y assms(3) by simp
  note C = D(1) [unfolded this] and acc = D(2,3) [unfolded this]
  have B: "balance_of s' = (balance_of s)(x_player x := balance_of s (x_player x) +
      (if x_direction x = Withdraw \<and> x_status x = TransferPrepared then x_cents x else 0)) \<and> transfers_ok s' \<and>
    (\<exists>x'. transfer_of s' i = Some x' \<and> x_status x' = TransferFailed \<and> x_player x' = x_player x)"
    using C set_failed.booked_facts(2,4,5) [OF assms(1-3), of e "x_player x" _ s'] assms(2,3)
    by (auto simp: fun_eq_iff)
  then obtain x' where x': "transfer_of s' i = Some x'" "x_status x' = TransferFailed" "x_player x' = x_player x"
    and ok': "transfers_ok s'" by blast
  have "failEconomyTransfer i e' s' = (Inr b, s')"
    using x' lockedBalance_eq [OF acc(1)] acc(2) by (simp add: failEconomyTransfer_def svc_evals)
  moreover have "isl (fst (completeEconomyTransfer i s')) \<and> snd (completeEconomyTransfer i s') = s'"
    using x' by (simp add: completeEconomyTransfer_def svc_evals)
  moreover have "isl (fst (markEconomyTransferExternalApplied i n s')) \<and>
      snd (markEconomyTransferExternalApplied i n s') = s'"
    using applied_eq [OF x'(1), of n] x'(2) by simp
  moreover have "blockEconomyTransfer i e' s' = (Inl transfer_missing, s')"
    using block_eq [OF ok' x'(1), of e'] x'(2) by simp
  ultimately show ?thesis using B acc(2) by blast
qed

theorem failEconomyTransfer_once_witness:
  "\<exists>s'. failEconomyTransfer 2 ''offline'' demo_transfers = (Inr 520, s') \<and> balance_of s' ''dave'' = 520 \<and>
    failEconomyTransfer 2 ''again'' s' = (Inr 520, s')"
proof -
  have "(case fst (failEconomyTransfer 2 ''offline'' demo_transfers) of Inr b \<Rightarrow> b = 520 | Inl e \<Rightarrow> False)" by code_simp
  then obtain s' where run: "failEconomyTransfer 2 ''offline'' demo_transfers = (Inr 520, s')"
    by (cases "failEconomyTransfer 2 ''offline'' demo_transfers") (auto split: sum.splits)
  have "x_player demo_withdrawal = ''dave''" by code_simp
  with failEconomyTransfer_once [OF demo_transfers_ok demo_transfer_rows(2) run, of "''again''" 0] run
  show ?thesis by auto
qed

end
