(* ===== verification/Localization.thy ===== *)
theory Localization
  imports Text
begin

text \<open>
  The translated messages (src/localization.cpp, include/endstone_exchange/localization.hpp): the
  choice of a language, the lookup in the table of translations and the formatting of a message. The
  table, one text per message and language, is an argument of the operations; what the compiler checks of it
  (\<open>static_assert(complete())\<close>) is the predicate \<open>complete\<close>. The table of the source, which passes the
  check, is in Translation_Table. A message is its number in the
  enumeration, under its name there.
\<close>

section \<open>Languages and messages\<close>

datatype Language = SimplifiedChinese | English | TraditionalChinese | Japanese

type_synonym Message = nat

definition Message_Count :: Message where
  "Message_Count = 173"

abbreviation (input) "PluginNotReady \<equiv> 0 :: Message"
abbreviation (input) "CommandHelp \<equiv> 1 :: Message"
abbreviation (input) "Balance \<equiv> 2 :: Message"
abbreviation (input) "EconomyInsufficient \<equiv> 3 :: Message"
abbreviation (input) "EconomyAdminBalanceDisabled \<equiv> 4 :: Message"
abbreviation (input) "EconomyPlayerMissing \<equiv> 5 :: Message"
abbreviation (input) "EconomyStatus \<equiv> 6 :: Message"
abbreviation (input) "NoGivePermission \<equiv> 7 :: Message"
abbreviation (input) "PlayerOffline \<equiv> 8 :: Message"
abbreviation (input) "GiveUsage \<equiv> 9 :: Message"
abbreviation (input) "NoMarketPermission \<equiv> 10 :: Message"
abbreviation (input) "GaveExchanger \<equiv> 11 :: Message"
abbreviation (input) "ConsoleHint \<equiv> 12 :: Message"
abbreviation (input) "PlayerFormOnly \<equiv> 13 :: Message"
abbreviation (input) "PlayerClaimOnly \<equiv> 14 :: Message"
abbreviation (input) "AddBalanceUsage \<equiv> 15 :: Message"
abbreviation (input) "InvalidAmount \<equiv> 16 :: Message"
abbreviation (input) "AmountOutOfRange \<equiv> 17 :: Message"
abbreviation (input) "PlayerBalanceNow \<equiv> 18 :: Message"
abbreviation (input) "BalanceAdjusted \<equiv> 19 :: Message"
abbreviation (input) "StatusOk \<equiv> 20 :: Message"
abbreviation (input) "UnknownSubcommand \<equiv> 21 :: Message"
abbreviation (input) "CommandFailed \<equiv> 22 :: Message"
abbreviation (input) "UnexpectedError \<equiv> 23 :: Message"
abbreviation (input) "RecoveryCannotUse \<equiv> 24 :: Message"
abbreviation (input) "RecoveryCannotDrop \<equiv> 25 :: Message"
abbreviation (input) "HologramNotTarget \<equiv> 26 :: Message"
abbreviation (input) "BlockNoItem \<equiv> 27 :: Message"
abbreviation (input) "ObjectEnabled \<equiv> 28 :: Message"
abbreviation (input) "ActivationFailed \<equiv> 29 :: Message"
abbreviation (input) "Message_FrameCanceled \<equiv> 30 :: Message"
abbreviation (input) "WorldNotLoaded \<equiv> 31 :: Message"
abbreviation (input) "FrameReadFailed \<equiv> 32 :: Message"
abbreviation (input) "FrameReading \<equiv> 33 :: Message"
abbreviation (input) "FrameMissing \<equiv> 34 :: Message"
abbreviation (input) "FrameNoItem \<equiv> 35 :: Message"
abbreviation (input) "FrameEnabled \<equiv> 36 :: Message"
abbreviation (input) "FrameActivationFailed \<equiv> 37 :: Message"
abbreviation (input) "FrameSaleBusy \<equiv> 38 :: Message"
abbreviation (input) "FrameSaleReading \<equiv> 39 :: Message"
abbreviation (input) "FrameSaleMarketConflict \<equiv> 40 :: Message"
abbreviation (input) "FrameSaleOwnedByOther \<equiv> 41 :: Message"
abbreviation (input) "FrameSaleManageTitle \<equiv> 42 :: Message"
abbreviation (input) "FrameSaleManageContent \<equiv> 43 :: Message"
abbreviation (input) "FrameSaleChangePrice \<equiv> 44 :: Message"
abbreviation (input) "FrameSaleCancelButton \<equiv> 45 :: Message"
abbreviation (input) "FrameSaleCanceled \<equiv> 46 :: Message"
abbreviation (input) "FrameSalePriceTitle \<equiv> 47 :: Message"
abbreviation (input) "FrameSalePricePrompt \<equiv> 48 :: Message"
abbreviation (input) "FrameSaleListed \<equiv> 49 :: Message"
abbreviation (input) "FrameSaleBuyHint \<equiv> 50 :: Message"
abbreviation (input) "FrameSaleConfirmTitle \<equiv> 51 :: Message"
abbreviation (input) "FrameSaleConfirmContent \<equiv> 52 :: Message"
abbreviation (input) "FrameSaleConfirmButton \<equiv> 53 :: Message"
abbreviation (input) "FrameSaleDeclineButton \<equiv> 54 :: Message"
abbreviation (input) "FrameSaleSelfPurchase \<equiv> 55 :: Message"
abbreviation (input) "FrameSaleChanged \<equiv> 56 :: Message"
abbreviation (input) "FrameSaleUnavailable \<equiv> 57 :: Message"
abbreviation (input) "FrameSaleInsufficient \<equiv> 58 :: Message"
abbreviation (input) "FrameSalePaidBuyer \<equiv> 59 :: Message"
abbreviation (input) "FrameSalePaidSeller \<equiv> 60 :: Message"
abbreviation (input) "FrameSaleSettling \<equiv> 61 :: Message"
abbreviation (input) "FrameSaleProtected \<equiv> 62 :: Message"
abbreviation (input) "FrameSaleFailed \<equiv> 63 :: Message"
abbreviation (input) "ActorNoItem \<equiv> 64 :: Message"
abbreviation (input) "ActorEnabled \<equiv> 65 :: Message"
abbreviation (input) "MarketClosedPreserved \<equiv> 66 :: Message"
abbreviation (input) "MarketRemoved \<equiv> 67 :: Message"
abbreviation (input) "MarketCloseFailed \<equiv> 68 :: Message"
abbreviation (input) "TradePointClosed \<equiv> 69 :: Message"
abbreviation (input) "MatchingOrderGone \<equiv> 70 :: Message"
abbreviation (input) "BookWanted \<equiv> 71 :: Message"
abbreviation (input) "BookForSale \<equiv> 72 :: Message"
abbreviation (input) "TradeTitle \<equiv> 73 :: Message"
abbreviation (input) "CurrentTrade \<equiv> 74 :: Message"
abbreviation (input) "BalanceLabel \<equiv> 75 :: Message"
abbreviation (input) "SellableRequirements \<equiv> 76 :: Message"
abbreviation (input) "TradeOverviewAccount \<equiv> 77 :: Message"
abbreviation (input) "TradeOverviewRequirements \<equiv> 78 :: Message"
abbreviation (input) "ChooseTradeAction \<equiv> 79 :: Message"
abbreviation (input) "DirectBuySubtitle \<equiv> 80 :: Message"
abbreviation (input) "DirectSellSubtitle \<equiv> 81 :: Message"
abbreviation (input) "NoDirectBuy \<equiv> 82 :: Message"
abbreviation (input) "NoDirectSell \<equiv> 83 :: Message"
abbreviation (input) "OpenTradeFailed \<equiv> 84 :: Message"
abbreviation (input) "QuantityInput \<equiv> 85 :: Message"
abbreviation (input) "IntegerPlaceholder \<equiv> 86 :: Message"
abbreviation (input) "UnitPriceInput \<equiv> 87 :: Message"
abbreviation (input) "PricePlaceholder \<equiv> 88 :: Message"
abbreviation (input) "ContinueButton \<equiv> 89 :: Message"
abbreviation (input) "InvalidFormData \<equiv> 90 :: Message"
abbreviation (input) "InputInvalid \<equiv> 91 :: Message"
abbreviation (input) "OpenInputFailed \<equiv> 92 :: Message"
abbreviation (input) "ConfirmTitle \<equiv> 93 :: Message"
abbreviation (input) "QuantityValue \<equiv> 94 :: Message"
abbreviation (input) "UnitPriceValue \<equiv> 95 :: Message"
abbreviation (input) "MarketBuyExplanation \<equiv> 96 :: Message"
abbreviation (input) "MarketSellExplanation \<equiv> 97 :: Message"
abbreviation (input) "ReviewMaximumPayment \<equiv> 98 :: Message"
abbreviation (input) "ReviewExpectedIncome \<equiv> 99 :: Message"
abbreviation (input) "ReviewDirectBuy \<equiv> 100 :: Message"
abbreviation (input) "ReviewDirectSell \<equiv> 101 :: Message"
abbreviation (input) "AdjustQuantity \<equiv> 102 :: Message"
abbreviation (input) "ReenterQuantity \<equiv> 103 :: Message"
abbreviation (input) "AdjustPrice \<equiv> 104 :: Message"
abbreviation (input) "ReenterPrice \<equiv> 105 :: Message"
abbreviation (input) "ConfirmButton \<equiv> 106 :: Message"
abbreviation (input) "EditTradeButton \<equiv> 107 :: Message"
abbreviation (input) "BackActions \<equiv> 108 :: Message"
abbreviation (input) "OpenReviewFailed \<equiv> 109 :: Message"
abbreviation (input) "QuantityRangeInvalid \<equiv> 110 :: Message"
abbreviation (input) "PriceRangeInvalid \<equiv> 111 :: Message"
abbreviation (input) "QuantityField \<equiv> 112 :: Message"
abbreviation (input) "UnitPriceField \<equiv> 113 :: Message"
abbreviation (input) "WholeNumberRange \<equiv> 114 :: Message"
abbreviation (input) "PriceTooLarge \<equiv> 115 :: Message"
abbreviation (input) "PriceStep \<equiv> 116 :: Message"
abbreviation (input) "DeliveryReceived \<equiv> 117 :: Message"
abbreviation (input) "DeliveryReturned \<equiv> 118 :: Message"
abbreviation (input) "DeliveryPending \<equiv> 119 :: Message"
abbreviation (input) "OtherPlayerSelling \<equiv> 120 :: Message"
abbreviation (input) "OtherPlayerBuying \<equiv> 121 :: Message"
abbreviation (input) "OrderNoFill \<equiv> 122 :: Message"
abbreviation (input) "BuyVerb \<equiv> 123 :: Message"
abbreviation (input) "SellVerb \<equiv> 124 :: Message"
abbreviation (input) "OrderSaved \<equiv> 125 :: Message"
abbreviation (input) "OrderPartiallyFilled \<equiv> 126 :: Message"
abbreviation (input) "TradeCompleted \<equiv> 127 :: Message"
abbreviation (input) "OrderEnded \<equiv> 128 :: Message"
abbreviation (input) "TradeFailed \<equiv> 129 :: Message"
abbreviation (input) "OrdersTitle \<equiv> 130 :: Message"
abbreviation (input) "OrdersHeader \<equiv> 131 :: Message"
abbreviation (input) "NoOpenOrders \<equiv> 132 :: Message"
abbreviation (input) "OrderButton \<equiv> 133 :: Message"
abbreviation (input) "BuyColored \<equiv> 134 :: Message"
abbreviation (input) "SellColored \<equiv> 135 :: Message"
abbreviation (input) "Message_OrderCanceled \<equiv> 136 :: Message"
abbreviation (input) "CancelOrderFailed \<equiv> 137 :: Message"
abbreviation (input) "ReadOrdersFailed \<equiv> 138 :: Message"
abbreviation (input) "ClaimedItems \<equiv> 139 :: Message"
abbreviation (input) "ExchangerLore \<equiv> 140 :: Message"
abbreviation (input) "ExchangerMetaFailed \<equiv> 141 :: Message"
abbreviation (input) "ExchangerReceived \<equiv> 142 :: Message"
abbreviation (input) "ReceiptName \<equiv> 143 :: Message"
abbreviation (input) "ReceiptLore \<equiv> 144 :: Message"
abbreviation (input) "HologramWanted \<equiv> 145 :: Message"
abbreviation (input) "HologramForSale \<equiv> 146 :: Message"
abbreviation (input) "TradeActionLimitBuy \<equiv> 147 :: Message"
abbreviation (input) "TradeActionLimitSell \<equiv> 148 :: Message"
abbreviation (input) "TradeActionMarketBuy \<equiv> 149 :: Message"
abbreviation (input) "TradeActionMarketSell \<equiv> 150 :: Message"
abbreviation (input) "TradeActionFallback \<equiv> 151 :: Message"
abbreviation (input) "ItemEmptyText \<equiv> 152 :: Message"
abbreviation (input) "ItemEmpty \<equiv> 153 :: Message"
abbreviation (input) "ItemCountSuffix \<equiv> 154 :: Message"
abbreviation (input) "ItemDeepValue \<equiv> 155 :: Message"
abbreviation (input) "ItemListEntry \<equiv> 156 :: Message"
abbreviation (input) "ItemLabel \<equiv> 157 :: Message"
abbreviation (input) "ItemData \<equiv> 158 :: Message"
abbreviation (input) "NoneValue \<equiv> 159 :: Message"
abbreviation (input) "ItemCustomName \<equiv> 160 :: Message"
abbreviation (input) "ItemLore \<equiv> 161 :: Message"
abbreviation (input) "ItemEnchantments \<equiv> 162 :: Message"
abbreviation (input) "ItemDurabilityDamage \<equiv> 163 :: Message"
abbreviation (input) "ItemRepairCost \<equiv> 164 :: Message"
abbreviation (input) "ItemUnbreakable \<equiv> 165 :: Message"
abbreviation (input) "NoValue \<equiv> 166 :: Message"
abbreviation (input) "YesValue \<equiv> 167 :: Message"
abbreviation (input) "ItemOtherNone \<equiv> 168 :: Message"
abbreviation (input) "ItemOtherHeader \<equiv> 169 :: Message"
abbreviation (input) "ItemOtherMany \<equiv> 170 :: Message"
abbreviation (input) "UnknownEnchantment \<equiv> 171 :: Message"
abbreviation (input) "InventoryInsufficient \<equiv> 172 :: Message"

text \<open>An entry of \<open>Translations\<close>: a message and its four texts.\<close>

type_synonym catalogue = "(Message \<times> string list) list"

fun languageIndex :: "Language \<Rightarrow> nat" where
  "languageIndex SimplifiedChinese = 0"
| "languageIndex English = 1"
| "languageIndex TraditionalChinese = 2"
| "languageIndex Japanese = 3"

definition messageText :: "catalogue \<Rightarrow> Language \<Rightarrow> Message \<Rightarrow> string" where
  "messageText table language message = (case find (\<lambda>entry. fst entry = message) table of
     None \<Rightarrow> ''missing translation'' | Some entry \<Rightarrow> snd entry ! languageIndex language)"

fun placeholderCount :: "string \<Rightarrow> nat" where
  "placeholderCount [] = 0"
| "placeholderCount [c] = (if c = CHR ''{'' then 1 else 0)"
| "placeholderCount (c # d # cs) =
    (if c \<noteq> CHR ''{'' then placeholderCount (d # cs)
     else if d = CHR ''{'' then placeholderCount cs
     else Suc (placeholderCount (d # cs)))"

text \<open>The compile-time check: every message once, four non-empty texts with the same number of fields.\<close>

definition complete :: "catalogue \<Rightarrow> bool" where
  "complete table \<longleftrightarrow>
    list_all (\<lambda>(message, texts). message < Message_Count \<and> length texts = 4 \<and>
      list_all (\<lambda>t. t \<noteq> [] \<and> placeholderCount t = placeholderCount (hd texts)) texts) table \<and>
    list_all (\<lambda>message. length (filter (\<lambda>entry. fst entry = message) table) = 1) [0..<Message_Count]"

definition to_lower :: "char \<Rightarrow> char" where
  "to_lower c = (if 65 \<le> char_code c \<and> char_code c \<le> 90 then char_of (char_code c + 32) else c)"

definition starts_with :: "string \<Rightarrow> string \<Rightarrow> bool" where
  "starts_with s prefix \<longleftrightarrow> take (length prefix) s = prefix"

definition languageFromLocale :: "string \<Rightarrow> Language" where
  "languageFromLocale locale_name =
    (let normalized = map (\<lambda>c. if c = CHR ''-'' then CHR ''_'' else to_lower c) locale_name in
     if starts_with normalized ''zh_tw'' \<or> starts_with normalized ''zh_hk'' \<or> starts_with normalized ''zh_mo'' \<or>
       normalized = ''zh_hant'' then TraditionalChinese
     else if starts_with normalized ''zh'' then SimplifiedChinese
     else if starts_with normalized ''en'' then English
     else if starts_with normalized ''ja'' then Japanese
     else SimplifiedChinese)"

fun localeCode :: "Language \<Rightarrow> string" where
  "localeCode SimplifiedChinese = ''zh_CN''"
| "localeCode English = ''en_US''"
| "localeCode TraditionalChinese = ''zh_TW''"
| "localeCode Japanese = ''ja_JP''"

section \<open>Formatting\<close>

text \<open>\<open>std::vformat\<close> for automatic fields without a format specification, the only kind the texts have.\<close>

definition format_error :: error where
  "format_error = Runtime_Error ''format error''"

fun vformat :: "string \<Rightarrow> string list \<Rightarrow> string result" where
  "vformat [] args = Inr []"
| "vformat [c] args = (if c = CHR ''{'' \<or> c = CHR ''}'' then Inl format_error else Inr [c])"
| "vformat (c # d # cs) args =
    (if c = CHR ''{'' \<and> d = CHR ''{'' \<or> c = CHR ''}'' \<and> d = CHR ''}''
     then (case vformat cs args of Inl e \<Rightarrow> Inl e | Inr s \<Rightarrow> Inr (c # s))
     else if c = CHR ''{'' \<and> d = CHR ''}''
     then (case args of [] \<Rightarrow> Inl format_error | a # as \<Rightarrow>
       (case vformat cs as of Inl e \<Rightarrow> Inl e | Inr s \<Rightarrow> Inr (a @ s)))
     else if c = CHR ''{'' \<or> c = CHR ''}'' then Inl format_error
     else (case vformat (d # cs) args of Inl e \<Rightarrow> Inl e | Inr s \<Rightarrow> Inr (c # s)))"

definition tr :: "catalogue \<Rightarrow> Language \<Rightarrow> Message \<Rightarrow> string list \<Rightarrow> string result" where
  "tr table language message args = vformat (messageText table language message) args"

definition userError :: "string result \<Rightarrow> error" where
  "userError text = (case text of Inl e \<Rightarrow> e | Inr s \<Rightarrow> User_Error s)"

definition userFacingError :: "catalogue \<Rightarrow> Language \<Rightarrow> error \<Rightarrow> string result" where
  "userFacingError table language err =
    (case err of User_Error t \<Rightarrow> Inr t | _ \<Rightarrow> tr table language UnexpectedError [])"

section \<open>What the compile-time check gives\<close>

text \<open>A text whose only braces are whole fields and escapes.\<close>

fun plain_fields :: "string \<Rightarrow> bool" where
  "plain_fields [] \<longleftrightarrow> True"
| "plain_fields [c] \<longleftrightarrow> c \<noteq> CHR ''{'' \<and> c \<noteq> CHR ''}''"
| "plain_fields (c # d # cs) \<longleftrightarrow>
    (if c = CHR ''{'' then (d = CHR ''{'' \<or> d = CHR ''}'') \<and> plain_fields cs
     else if c = CHR ''}'' then d = CHR ''}'' \<and> plain_fields cs
     else plain_fields (d # cs))"

lemma vformat_succeeds:
  "plain_fields t \<Longrightarrow> (\<exists>s. vformat t args = Inr s) \<longleftrightarrow> placeholderCount t \<le> length args"
proof (induction t args rule: vformat.induct)
  case (3 c d cs args)
  have skip: "placeholderCount (CHR ''}'' # cs) = placeholderCount cs" by (cases cs) simp_all
  show ?case
  proof (cases "c = CHR ''{'' \<and> d = CHR ''}''")
    case True
    with 3 show ?thesis by (cases args) (auto simp: skip split: sum.splits)
  next
    case False
    with 3 skip show ?thesis by (auto split: sum.splits if_splits)
  qed
qed auto

lemma complete_entry:
  assumes "complete table" and "message < Message_Count"
  obtains texts where "find (\<lambda>entry. fst entry = message) table = Some (message, texts)" "length texts = 4"
    "\<And>t. t \<in> set texts \<Longrightarrow> t \<noteq> [] \<and> placeholderCount t = placeholderCount (hd texts)"
proof -
  have "length (filter (\<lambda>entry. fst entry = message) table) = 1"
    using assms by (simp add: complete_def list_all_iff)
  then have "filter (\<lambda>entry. fst entry = message) table \<noteq> []" by auto
  then obtain entry where e: "find (\<lambda>entry. fst entry = message) table = Some entry"
    by (cases "find (\<lambda>entry. fst entry = message) table") (auto simp: find_None_iff filter_empty_conv)
  then have "entry \<in> set table" "fst entry = message" by (auto simp: find_Some_iff)
  with e assms(1) that [of "snd entry"] show thesis
    by (cases entry) (fastforce simp: complete_def list_all_iff)
qed

lemma languageIndex_less [simp]: "languageIndex l < 4"
  by (cases l) simp_all

lemma complete_text:
  assumes "complete table" and "message < Message_Count"
  shows "messageText table l message \<noteq> []"
    "placeholderCount (messageText table l message) = placeholderCount (messageText table l' message)"
proof -
  obtain texts where *: "find (\<lambda>entry. fst entry = message) table = Some (message, texts)" "length texts = 4"
    "\<And>t. t \<in> set texts \<Longrightarrow> t \<noteq> [] \<and> placeholderCount t = placeholderCount (hd texts)"
    using complete_entry [OF assms] by blast
  then have "texts ! languageIndex k \<noteq> [] \<and> placeholderCount (texts ! languageIndex k) = placeholderCount (hd texts)" for k
    by simp
  then show "messageText table l message \<noteq> []"
    "placeholderCount (messageText table l message) = placeholderCount (messageText table l' message)"
    by (simp_all add: messageText_def *)
qed

lemma languageFromLocale_localeCode: "languageFromLocale (localeCode l) = l"
proof -
  have "list_all (\<lambda>l. languageFromLocale (localeCode l) = l) [SimplifiedChinese, English, TraditionalChinese, Japanese]"
    by code_simp
  then show ?thesis by (cases l) simp_all
qed

end
