(* ===== verification/Umoney_Bridge.thy ===== *)
theory Umoney_Bridge
  imports Transfers Localization
begin

text \<open>
  The bridge between the exchange's accounts and UMoney: the gateway to the UMoney plugin
  (src/umoney_gateway.cpp), the decision what a transfer still needs (\<open>decideUmoneyMutation\<close> of
  include/endstone_exchange/umoney_gateway.hpp) and the part of src/plugin.cpp that settles transfers:
  \<open>processEconomyTransfers\<close>, \<open>processEconomyTransfer\<close>, \<open>spendableBalance\<close>, \<open>fundDirectBalance\<close> and
  \<open>sweepDirectBalances\<close>. The UMoney plugin, the plugin manager and the file system are parameters
  over a world \<open>'w\<close>; the log is left out.
\<close>

section \<open>The gateway\<close>

datatype PyValue = PyNone | PyInt int | PyOther

datatype PyAttribute = Attribute_Missing | Attribute_Plain | Attribute_Callable

datatype PluginState = Plugin_Missing | Plugin_Disabled | Plugin_Enabled

text \<open>What the code calls outside: a file operation gives a descriptor or \<open>errno\<close>.\<close>

record 'w umoney =
  um_name :: string
  um_plugin :: "'w \<Rightarrow> PluginState"
  um_attribute :: "string \<Rightarrow> 'w \<Rightarrow> PyAttribute"
  um_get_player_money :: "string \<Rightarrow> ('w, PyValue) svc"
  um_change_player_money :: "string \<Rightarrow> int \<Rightarrow> ('w, unit) svc"
  um_open :: "string \<Rightarrow> 'w \<Rightarrow> (int + int) \<times> 'w"
  um_fsync :: "int \<Rightarrow> 'w \<Rightarrow> int option \<times> 'w"
  um_close :: "int \<Rightarrow> 'w \<Rightarrow> int option \<times> 'w"
  um_strerror :: "int \<Rightarrow> string"
  um_data_folder :: string

definition exactPythonInteger :: "PyValue \<Rightarrow> string \<Rightarrow> int result" where
  "exactPythonInteger v method_name = (case v of
     PyInt n \<Rightarrow> if n < int64_min \<or> n > int64_max
       then Inl (Overflow_Error (''UMoney '' @ method_name @ '' returned an integer outside int64'')) else Inr n
   | _ \<Rightarrow> Inl (Runtime_Error (''UMoney '' @ method_name @ '' returned a value that is not an integer'')))"

definition requireCallable :: "'w umoney \<Rightarrow> string \<Rightarrow> ('w, unit) svc" where
  "requireCallable um method_name =
    bindS (queryS (um_attribute um method_name)) (\<lambda>a. case a of
      Attribute_Missing \<Rightarrow> throwS (Runtime_Error (''UMoney plugin does not expose '' @ method_name))
    | Attribute_Plain \<Rightarrow> throwS (Runtime_Error (''UMoney attribute '' @ method_name @ '' is not callable''))
    | Attribute_Callable \<Rightarrow> returnS ())"

text \<open>\<open>std::system_error\<close> appends the text of the error number.\<close>

definition system_error :: "'w umoney \<Rightarrow> int \<Rightarrow> string \<Rightarrow> error" where
  "system_error um errno message = Runtime_Error (message @ '': '' @ um_strerror um errno)"

definition syncPath :: "'w umoney \<Rightarrow> string \<Rightarrow> string \<Rightarrow> ('w, unit) svc" where
  "syncPath um path label =
    bindS (\<lambda>w. case um_open um path w of (r, w') \<Rightarrow> (Inr r, w')) (\<lambda>opened. case opened of
      Inl errno \<Rightarrow> throwS (system_error um errno (''open UMoney '' @ label @ '' for durable sync''))
    | Inr descriptor \<Rightarrow>
      bindS (\<lambda>w. case um_fsync um descriptor w of (r, w') \<Rightarrow> (Inr r, w')) (\<lambda>synced. case synced of
        Some errno \<Rightarrow>
          bindS (\<lambda>w. case um_close um descriptor w of (r, w') \<Rightarrow> (Inr (), w')) (\<lambda>_.
          throwS (system_error um errno (''sync UMoney '' @ label)))
      | None \<Rightarrow>
          bindS (\<lambda>w. case um_close um descriptor w of (r, w') \<Rightarrow> (Inr r, w')) (\<lambda>closed. case closed of
            Some errno \<Rightarrow> throwS (system_error um errno (''close UMoney '' @ label @ '' after durable sync''))
          | None \<Rightarrow> returnS ())))"

definition syncUmoneyData :: "'w umoney \<Rightarrow> ('w, unit) svc" where
  "syncUmoneyData um =
    bindS (syncPath um (um_data_folder um @ ''/money.json'') ''money.json'') (\<lambda>_.
    syncPath um (um_data_folder um) ''data directory'')"

definition quoted :: "string \<Rightarrow> string" where
  "quoted t = [CHR 0x27] @ t @ [CHR 0x27]"

definition umoney_plugin :: "'w umoney \<Rightarrow> ('w, unit) svc" where
  "umoney_plugin um = bindS (queryS (um_plugin um)) (\<lambda>st. case st of
     Plugin_Missing \<Rightarrow> throwS (Runtime_Error (''UMoney plugin '' @ quoted (um_name um) @ '' is not loaded''))
   | Plugin_Disabled \<Rightarrow> throwS (Runtime_Error (''UMoney plugin '' @ quoted (um_name um) @ '' is not enabled''))
   | Plugin_Enabled \<Rightarrow> returnS ())"

definition gateway_validate :: "'w umoney \<Rightarrow> ('w, unit) svc" where
  "gateway_validate um =
    bindS (umoney_plugin um) (\<lambda>_.
    bindS (requireCallable um ''api_get_player_money'') (\<lambda>_.
    requireCallable um ''api_change_player_money''))"

definition gateway_balance :: "'w umoney \<Rightarrow> string \<Rightarrow> ('w, int option) svc" where
  "gateway_balance um n =
    bindS (umoney_plugin um) (\<lambda>_.
    bindS (requireCallable um ''api_get_player_money'') (\<lambda>_.
    bindS (um_get_player_money um n) (\<lambda>v.
    if v = PyNone then returnS None
    else bindS (liftS (exactPythonInteger v ''api_get_player_money'')) (\<lambda>b. returnS (Some b)))))"

definition gateway_change :: "'w umoney \<Rightarrow> string \<Rightarrow> int \<Rightarrow> ('w, unit) svc" where
  "gateway_change um n delta =
    bindS (throwIf (delta = 0) (Invalid_Argument ''UMoney balance delta cannot be zero'')) (\<lambda>_.
    bindS (umoney_plugin um) (\<lambda>_.
    bindS (requireCallable um ''api_change_player_money'') (\<lambda>_.
    bindS (um_change_player_money um n delta) (\<lambda>_.
    syncUmoneyData um))))"

section \<open>The decision\<close>

datatype UmoneyMutationDecision = Apply | AlreadyApplied | Conflict | Insufficient

definition UmoneyUnitCents :: Cents where
  "UmoneyUnitCents = 100"

definition decideUmoneyMutation :: "EconomyTransferDirection \<Rightarrow> int \<Rightarrow> int \<Rightarrow> int \<Rightarrow> UmoneyMutationDecision" where
  "decideUmoneyMutation direction amount baseline current =
    (let decide = (\<lambda>expected. if current = expected then AlreadyApplied
       else if current = baseline then Apply else Conflict) in
     if amount \<le> 0 then Conflict
     else if direction = Deposit
     then if baseline < amount then if current = baseline then Insufficient else Conflict
       else decide (baseline - amount)
     else if baseline > int64_max - amount then Conflict else decide (baseline + amount))"

section \<open>The plugin\<close>

text \<open>The members of \<open>ExchangePlugin\<close> the settlement uses, with the database and the world behind them.\<close>

record 'w plug =
  pl_ready :: bool
  pl_service :: bool
  pl_gateway :: bool
  pl_processing :: bool
  pl_db :: db
  pl_world :: 'w

definition on_db :: "'a dbm \<Rightarrow> ('w plug, 'a) svc" where
  "on_db m p = (case m (pl_db p) of (r, s) \<Rightarrow> (r, p\<lparr>pl_db := s\<rparr>))"

definition on_world :: "('w, 'a) svc \<Rightarrow> ('w plug, 'a) svc" where
  "on_world m p = (case m (pl_world p) of (r, w) \<Rightarrow> (r, p\<lparr>pl_world := w\<rparr>))"

definition give_up :: "bool \<Rightarrow> error \<Rightarrow> ('s, bool) svc" where
  "give_up throw_on_failure e = (if throw_on_failure then throwS e else returnS False)"

definition legacy_message :: string where
  "legacy_message = ''legacy transfer has no direct UMoney balance baseline''"

definition conflict_message :: "string \<Rightarrow> int \<Rightarrow> int \<Rightarrow> string" where
  "conflict_message kind baseline current =
     ''UMoney '' @ kind @ '': baseline='' @ dec baseline @ '', current='' @ dec current"

definition account_unknown :: error where
  "account_unknown = Runtime_Error ''UMoney player account does not exist''"

definition umoney_delta :: "EconomyTransfer \<Rightarrow> int" where
  "umoney_delta t = (if et_direction t = Deposit then - et_amount_units t else et_amount_units t)"

text \<open>The application of the delta and the check of its effect.\<close>

definition apply_delta :: "'w umoney \<Rightarrow> EconomyTransfer \<Rightarrow> int \<Rightarrow> ('w plug, int) svc" where
  "apply_delta um t baseline =
    bindS (on_world (gateway_change um (et_name t) (umoney_delta t))) (\<lambda>_.
    bindS (on_world (gateway_balance um (et_name t))) (\<lambda>reloaded.
    case reloaded of
      None \<Rightarrow> throwS (Runtime_Error ''UMoney player account disappeared after direct mutation'')
    | Some applied \<Rightarrow>
      if decideUmoneyMutation (et_direction t) (et_amount_units t) baseline applied \<noteq> AlreadyApplied
      then let message = conflict_message ''post-mutation balance mismatch'' baseline applied in
        bindS (on_db (blockEconomyTransfer (et_id t) message)) (\<lambda>_. throwS (Runtime_Error message))
      else returnS applied))"

text \<open>The body of the \<open>try\<close> block of \<open>processEconomyTransfer\<close>, and its handler.\<close>

definition settle_transfer :: "'w umoney \<Rightarrow> bool \<Rightarrow> EconomyTransfer \<Rightarrow> int \<Rightarrow> ('w plug, bool) svc" where
  "settle_transfer um throw_on_failure t baseline =
    bindS (on_world (gateway_balance um (et_name t))) (\<lambda>balance. case balance of
      None \<Rightarrow> throwS account_unknown
    | Some current \<Rightarrow>
      (let decision = decideUmoneyMutation (et_direction t) (et_amount_units t) baseline current in
       if decision = Insufficient
       then bindS (on_db (failEconomyTransfer (et_id t) ''insufficient UMoney balance'')) (\<lambda>_.
         give_up throw_on_failure (Runtime_Error ''insufficient UMoney balance''))
       else if decision = Conflict
       then let message = conflict_message ''balance conflict'' baseline current in
         bindS (on_db (blockEconomyTransfer (et_id t) message)) (\<lambda>_.
         give_up throw_on_failure (Runtime_Error message))
       else
         bindS (if decision = Apply then apply_delta um t baseline else returnS current) (\<lambda>applied.
         bindS (on_db (markEconomyTransferExternalApplied (et_id t) applied)) (\<lambda>_.
         bindS (on_db (completeEconomyTransfer (et_id t))) (\<lambda>_.
         returnS True)))))"

definition retry_later :: "bool \<Rightarrow> EconomyTransfer \<Rightarrow> error \<Rightarrow> ('w plug, bool) svc" where
  "retry_later throw_on_failure t e =
    bindS (on_db (findEconomyTransfer (et_id t))) (\<lambda>current.
    bindS (whenS (case current of None \<Rightarrow> False | Some c \<Rightarrow> et_status c = TransferPrepared)
      (on_db (recordEconomyTransferAttempt (et_id t) (what e)))) (\<lambda>_.
    give_up throw_on_failure e))"

definition processEconomyTransfer :: "'w umoney \<Rightarrow> bool \<Rightarrow> EconomyTransfer \<Rightarrow> ('w plug, bool) svc" where
  "processEconomyTransfer um throw_on_failure t =
    bindS (queryS (\<lambda>p. pl_service p \<and> pl_gateway p)) (\<lambda>available.
    if \<not> available then give_up throw_on_failure (Runtime_Error ''direct UMoney integration is unavailable'')
    else if et_status t = TransferCompleted then returnS True
    else if et_status t = TransferExternalApplied
    then bindS (on_db (completeEconomyTransfer (et_id t))) (\<lambda>_. returnS True)
    else if et_status t \<noteq> TransferPrepared then returnS False
    else (case et_before t of
      None \<Rightarrow> bindS (on_db (blockEconomyTransfer (et_id t) legacy_message)) (\<lambda>_.
        give_up throw_on_failure (Runtime_Error legacy_message))
    | Some baseline \<Rightarrow> catchS (settle_transfer um throw_on_failure t baseline) (retry_later throw_on_failure t)))"

definition spendableBalance :: "'w umoney \<Rightarrow> string \<Rightarrow> string \<Rightarrow> ('w plug, Cents) svc" where
  "spendableBalance um u n =
    bindS (on_db (balance u)) (\<lambda>exchange_balance.
    bindS (queryS pl_gateway) (\<lambda>gateway.
    if \<not> gateway then returnS exchange_balance
    else bindS (on_world (gateway_balance um n)) (\<lambda>external. case external of
      None \<Rightarrow> throwS account_unknown
    | Some units \<Rightarrow>
      bindS (throwIf (units > int64_max sdiv UmoneyUnitCents \<or> units < int64_min sdiv UmoneyUnitCents)
        (Overflow_Error ''UMoney balance is outside the supported range'')) (\<lambda>_.
      let cents = units * UmoneyUnitCents in
      bindS (throwIf (cents > int64_max - exchange_balance)
        (Overflow_Error ''combined UMoney balance is outside the supported range'')) (\<lambda>_.
      returnS (cents + exchange_balance))))))"

text \<open>\<open>uuid\<close> is the value the next \<open>UUID()\<close> of the database has; it makes the transfer's unique key.\<close>

definition prepare_transfer :: "service_config \<Rightarrow> (db \<Rightarrow> string) \<Rightarrow> string \<Rightarrow> string \<Rightarrow>
    EconomyTransferDirection \<Rightarrow> int \<Rightarrow> int \<Rightarrow> ('w plug, EconomyTransfer) svc" where
  "prepare_transfer cfg uuid u n direction units external =
    on_db (\<lambda>s. prepareEconomyTransfer cfg (uuid s) u n direction (units * UmoneyUnitCents) units (Some external) s)"

definition fundDirectBalance :: "service_config \<Rightarrow> catalogue \<Rightarrow> (db \<Rightarrow> string) \<Rightarrow> 'w umoney \<Rightarrow>
    string \<Rightarrow> string \<Rightarrow> Cents \<Rightarrow> Language \<Rightarrow> ('w plug, unit) svc" where
  "fundDirectBalance cfg table uuid um u n required language =
    bindS (queryS pl_gateway) (\<lambda>gateway.
    if \<not> gateway \<or> required \<le> 0 then returnS ()
    else bindS (on_db (balance u)) (\<lambda>current.
      if current \<ge> required then returnS ()
      else let shortage = required - current;
          units = shortage sdiv UmoneyUnitCents + (if shortage smod UmoneyUnitCents = 0 then 0 else 1) in
        bindS (throwIf (units \<le> 0 \<or> units > int64_max sdiv UmoneyUnitCents)
          (Overflow_Error ''required UMoney funding is outside the supported range'')) (\<lambda>_.
        bindS (on_world (gateway_balance um n)) (\<lambda>external. case external of
          None \<Rightarrow> throwS (userError (tr table language EconomyPlayerMissing []))
        | Some external_balance \<Rightarrow>
          bindS (throwIf (external_balance < units) (userError (tr table language EconomyInsufficient []))) (\<lambda>_.
          bindS (prepare_transfer cfg uuid u n Deposit units external_balance) (\<lambda>t.
          bindS (processEconomyTransfer um True t) (\<lambda>processed.
          bindS (if processed then on_db (balance u) else returnS 0) (\<lambda>funded.
          throwIf (\<not> processed \<or> funded < required)
            (Runtime_Error ''direct UMoney funding did not complete'')))))))))"

definition sweep_account :: "service_config \<Rightarrow> (db \<Rightarrow> string) \<Rightarrow> 'w umoney \<Rightarrow> AccountBalance \<Rightarrow> ('w plug, unit) svc" where
  "sweep_account cfg uuid um account =
    (let units = ab_balance account sdiv UmoneyUnitCents in
     if units \<le> 0 then returnS ()
     else logged_only (
       bindS (on_world (gateway_balance um (ab_name account))) (\<lambda>external. case external of
         None \<Rightarrow> returnS ()
       | Some external_balance \<Rightarrow>
         bindS (prepare_transfer cfg uuid (ab_uuid account) (ab_name account) Withdraw units external_balance) (\<lambda>t.
         ignore (processEconomyTransfer um False t)))))"

definition sweepDirectBalances :: "service_config \<Rightarrow> (db \<Rightarrow> string) \<Rightarrow> 'w umoney \<Rightarrow> ('w plug, unit) svc" where
  "sweepDirectBalances cfg uuid um =
    bindS (queryS pl_gateway) (\<lambda>gateway.
    if \<not> gateway then returnS ()
    else bindS (on_db (positiveBalances 100)) (\<lambda>accounts. mapS (sweep_account cfg uuid um) accounts))"

definition processEconomyTransfers :: "service_config \<Rightarrow> (db \<Rightarrow> string) \<Rightarrow> 'w umoney \<Rightarrow> ('w plug, unit) svc" where
  "processEconomyTransfers cfg uuid um =
    bindS (queryS (\<lambda>p. pl_ready p \<and> pl_service p \<and> pl_gateway p \<and> \<not> pl_processing p)) (\<lambda>start.
    if \<not> start then returnS ()
    else
      bindS (executeS (\<lambda>p. p\<lparr>pl_processing := True\<rparr>)) (\<lambda>_.
      bindS (logged_only (
        bindS (on_db (pendingEconomyTransfers 100)) (\<lambda>pending.
        mapS (\<lambda>t. logged_only (processEconomyTransfer um False t)) pending))) (\<lambda>_.
      bindS (logged_only (sweepDirectBalances cfg uuid um)) (\<lambda>_.
      executeS (\<lambda>p. p\<lparr>pl_processing := False\<rparr>)))))"

section \<open>What UMoney promises\<close>

text \<open>
  \<open>money w n\<close> is the balance of player \<open>n\<close> in the world \<open>w\<close>. Reading it and syncing files leave it
  alone; a change is atomic: it is made or not, and it is made when the call returns normally.
\<close>

definition umoney_laws :: "'w umoney \<Rightarrow> ('w \<Rightarrow> string \<Rightarrow> int) \<Rightarrow> bool" where
  "umoney_laws um money \<longleftrightarrow>
    (\<forall>n w. money (snd (um_get_player_money um n w)) = money w \<and>
      (\<forall>v. fst (um_get_player_money um n w) = Inr (PyInt v) \<longrightarrow> v = money w n)) \<and>
    (\<forall>n d w. money (snd (um_change_player_money um n d w)) = (money w)(n := money w n + d) \<or>
      money (snd (um_change_player_money um n d w)) = money w \<and> isl (fst (um_change_player_money um n d w))) \<and>
    (\<forall>path w. money (snd (um_open um path w)) = money w) \<and>
    (\<forall>fd w. money (snd (um_fsync um fd w)) = money w) \<and> (\<forall>fd w. money (snd (um_close um fd w)) = money w)"

lemma umoney_lawsD:
  assumes "umoney_laws um money"
  shows "um_get_player_money um n w = (r, w') \<Longrightarrow> money w' = money w"
    "um_get_player_money um n w = (Inr (PyInt v), w') \<Longrightarrow> v = money w n"
    "um_change_player_money um n d w = (Inl e, w') \<Longrightarrow> money w' = (money w)(n := money w n + d) \<or> money w' = money w"
    "um_change_player_money um n d w = (Inr z, w') \<Longrightarrow> money w' = (money w)(n := money w n + d)"
    "um_open um path w = (ro, w') \<Longrightarrow> money w' = money w" "um_fsync um fd w = (rc, w') \<Longrightarrow> money w' = money w"
    "um_close um fd w = (rc, w') \<Longrightarrow> money w' = money w"
  using assms unfolding umoney_laws_def by (metis fst_conv snd_conv isl_def sum.disc(2))+

lemma umoney_plugin_state: "umoney_plugin um w = (r, w') \<Longrightarrow> w' = w"
  by (auto simp: umoney_plugin_def svc_evals split: PluginState.splits)

lemma requireCallable_state: "requireCallable um a w = (r, w') \<Longrightarrow> w' = w"
  by (auto simp: requireCallable_def svc_evals split: PyAttribute.splits)

lemma syncPath_money:
  assumes "umoney_laws um money" and "syncPath um path label w = (r, w')"
  shows "money w' = money w"
  using assms(2) umoney_lawsD(5-7) [OF assms(1)]
  by (fastforce simp: syncPath_def svc_evals split: prod.splits sum.splits option.splits)

lemma syncUmoneyData_money:
  assumes "umoney_laws um money" and "syncUmoneyData um w = (r, w')"
  shows "money w' = money w"
  using assms(2) syncPath_money [OF assms(1)]
  by (fastforce simp: syncUmoneyData_def bindS_def split: prod.splits sum.splits)

lemma exactPythonInteger_Inr: "exactPythonInteger v a = Inr n \<longleftrightarrow> v = PyInt n \<and> in_int64 n"
  by (auto simp: exactPythonInteger_def in_int64_def split: PyValue.splits)

lemma gateway_balance_facts:
  assumes "umoney_laws um money" and "gateway_balance um n w = (r, w')"
  shows "money w' = money w" "r = Inr (Some v) \<Longrightarrow> v = money w n \<and> in_int64 v"
  using assms(2) umoney_lawsD(1,2) [OF assms(1)]
  by (fastforce simp: gateway_balance_def svc_evals exactPythonInteger_Inr
      dest: umoney_plugin_state requireCallable_state split: prod.splits sum.splits if_splits)+

lemma gateway_change_facts:
  assumes laws: "umoney_laws um money" and run: "gateway_change um n d w = (r, w')"
  shows "money w' = (money w)(n := money w n + d) \<or> money w' = money w \<and> isl r"
  using run unfolding gateway_change_def
proof (elim bindS_E, goal_cases)
  case (5 _ w0 _ w1 _ w2 z w3)
  have "w0 = w" "w1 = w0" "w2 = w1"
    using throwIf_E [OF 5(1)] umoney_plugin_state [OF 5(2)] requireCallable_state [OF 5(3)] by simp_all
  then show ?case using umoney_lawsD(4) [OF laws 5(4)] syncUmoneyData_money [OF laws 5(5)] by simp
next
  case (4 _ w0 _ w1 _ w2 e)
  have "w0 = w" "w1 = w0" "w2 = w1"
    using throwIf_E [OF 4(1)] umoney_plugin_state [OF 4(2)] requireCallable_state [OF 4(3)] by simp_all
  then show ?case using umoney_lawsD(3) [OF laws 4(4)] 4(5) by simp
qed (auto dest!: throwIf_E umoney_plugin_state requireCallable_state)

section \<open>Where the money of a transfer is\<close>

text \<open>
  Between the two ledgers a transfer itself may hold its amount: a deposit from the external change to
  its completion, a withdrawal from its preparation to the external change. The status alone does not
  tell which, as the external change is made before it is recorded; the external balance does.
\<close>

definition expected_after :: "transfer_row \<Rightarrow> int \<Rightarrow> int" where
  "expected_after x b = (if x_direction x = Deposit then b - x_units x else b + x_units x)"

definition held :: "transfer_row \<Rightarrow> EconomyTransferStatus \<Rightarrow> int \<Rightarrow> Cents" where
  "held x st v = (if x_direction x = Deposit
     then if st = TransferExternalApplied \<or> st = TransferPrepared \<and> x_before x \<noteq> Some v then x_cents x else 0
     else if (st = TransferPrepared \<or> st = TransferBlocked) \<and> x_before x = Some v then x_cents x else 0)"

text \<open>The external balance is the one before the transfer or the one after it, as the status says.\<close>

definition agrees :: "transfer_row \<Rightarrow> EconomyTransferStatus \<Rightarrow> int \<Rightarrow> bool" where
  "agrees x st v \<longleftrightarrow> (\<exists>b. x_before x = Some b \<and>
    (if st = TransferExternalApplied \<or> st = TransferCompleted then v = expected_after x b
     else v = b \<or> st = TransferPrepared \<and> v = expected_after x b \<and> (x_direction x = Deposit \<longrightarrow> x_units x \<le> b)))"

definition wealth :: "('w \<Rightarrow> string \<Rightarrow> int) \<Rightarrow> transfer_row \<Rightarrow> 'w plug \<Rightarrow> Cents" where
  "wealth money x p = balance_of (pl_db p) (x_player x) + UmoneyUnitCents * money (pl_world p) (x_name x) +
     held x (x_status x) (money (pl_world p) (x_name x))"

definition same_transfer :: "transfer_row \<Rightarrow> transfer_row \<Rightarrow> bool" where
  "same_transfer x x' \<longleftrightarrow> transfer_identity x' = transfer_identity x \<and> x_before x' = x_before x"

text \<open>The state that settling \<open>x\<close> from \<open>p0\<close> has reached: its row with status \<open>st\<close>, its external balance \<open>v\<close>.\<close>

definition bridge_at :: "('w \<Rightarrow> string \<Rightarrow> int) \<Rightarrow> transfer_row \<Rightarrow> 'w plug \<Rightarrow> EconomyTransferStatus \<Rightarrow> int \<Rightarrow> 'w plug \<Rightarrow> bool" where
  "bridge_at money x p0 st v p \<longleftrightarrow> sale_ok (pl_db p) \<and> transfers_ok (pl_db p) \<and>
    (\<exists>x'. transfer_of (pl_db p) (x_id x) = Some x' \<and> same_transfer x x' \<and> x_status x' = st) \<and>
    money (pl_world p) = (money (pl_world p0))(x_name x := v) \<and>
    (\<forall>u. u \<noteq> x_player x \<longrightarrow> balance_of (pl_db p) u = balance_of (pl_db p0) u) \<and>
    balance_of (pl_db p) (x_player x) + UmoneyUnitCents * v + held x st v = wealth money x p0"

lemma bridge_atD:
  assumes "bridge_at money x p0 st v p"
  shows "sale_ok (pl_db p)" "transfers_ok (pl_db p)" "money (pl_world p) = (money (pl_world p0))(x_name x := v)"
    "u \<noteq> x_player x \<Longrightarrow> balance_of (pl_db p) u = balance_of (pl_db p0) u"
    "balance_of (pl_db p) (x_player x) + UmoneyUnitCents * v + held x st v = wealth money x p0"
  using assms unfolding bridge_at_def by blast+

lemma bridge_at_row:
  assumes "bridge_at money x p0 st v p"
  obtains x' where "transfer_of (pl_db p) (x_id x) = Some x'" "same_transfer x x'" "x_status x' = st"
  using assms unfolding bridge_at_def by blast

lemma bridge_start:
  assumes "sale_ok (pl_db p)" and "transfers_ok (pl_db p)" and "transfer_of (pl_db p) (x_id x) = Some x"
  shows "bridge_at money x p (x_status x) (money (pl_world p) (x_name x)) p"
  using assms by (simp add: bridge_at_def wealth_def same_transfer_def)

lemma bridge_world:
  assumes "bridge_at money x p0 st v p" and "money w = money (pl_world p)"
  shows "bridge_at money x p0 st v (p\<lparr>pl_world := w\<rparr>)"
  using assms by (simp add: bridge_at_def)

lemma same_transferD:
  assumes "same_transfer x x'"
  shows "x_id x' = x_id x" "x_player x' = x_player x" "x_direction x' = x_direction x" "x_cents x' = x_cents x"
    "x_units x' = x_units x" "x_before x' = x_before x" "x_name x' = x_name x"
  using assms by (auto simp: same_transfer_def transfer_identity_def)

lemma same_transfer_updates [simp]:
  "same_transfer x (attempt_failed e x') = same_transfer x x'" "same_transfer x (set_applied n x') = same_transfer x x'"
  "same_transfer x (set_completed x') = same_transfer x x'" "same_transfer x (set_failed e x') = same_transfer x x'"
  "same_transfer x (set_blocked e x') = same_transfer x x'"
  by (simp_all add: same_transfer_def)
    (simp_all add: attempt_failed_def set_applied_def set_completed_def set_failed_def set_blocked_def)

definition whole_units :: "transfer_row \<Rightarrow> bool" where
  "whole_units x \<longleftrightarrow> 0 < x_units x \<and> x_cents x = UmoneyUnitCents * x_units x"

lemma bridge_change:
  assumes "bridge_at money x p0 TransferPrepared b p" and "x_before x = Some b" and "whole_units x"
    and "money w = (money (pl_world p))(x_name x := expected_after x b)"
  shows "bridge_at money x p0 TransferPrepared (expected_after x b) (p\<lparr>pl_world := w\<rparr>)"
  using assms
  by (cases "x_direction x") (auto simp: bridge_at_def held_def whole_units_def expected_after_def UmoneyUnitCents_def)

lemma bridge_mark:
  assumes at: "bridge_at money x p0 TransferPrepared v p" and x: "x_before x = Some b" "v = expected_after x b" "whole_units x"
    and run: "on_db (markEconomyTransferExternalApplied (x_id x) n) p = (r, p')"
  shows "r = Inr () \<and> bridge_at money x p0 TransferExternalApplied v p'"
proof -
  note D = bridge_atD [OF at]
  obtain x' where R: "transfer_of (pl_db p) (x_id x) = Some x'" "same_transfer x x'" "x_status x' = TransferPrepared"
    by (rule bridge_at_row [OF at])
  have "r = Inr ()" "p' = p\<lparr>pl_db := with_transfer (x_id x) (set_applied n) (pl_db p)\<rparr>"
    using applied_eq [OF R(1), of n] R(3) run by (auto simp: on_db_def)
  moreover have "held x TransferExternalApplied v = held x TransferPrepared v"
    using x by (auto simp: held_def expected_after_def whole_units_def)
  ultimately show ?thesis using D R set_applied.with_facts [OF D(1,2) R(1), of n]
    by (simp add: bridge_at_def)
qed

lemma bridge_complete:
  assumes at: "bridge_at money x p0 TransferExternalApplied v p"
    and run: "on_db (completeEconomyTransfer (x_id x)) p = (r, p')"
  shows "isl r \<and> p' = p \<or> \<not> isl r \<and> bridge_at money x p0 TransferCompleted v p'"
proof -
  note D = bridge_atD [OF at]
  obtain x' where R: "transfer_of (pl_db p) (x_id x) = Some x'" "same_transfer x x'" "x_status x' = TransferExternalApplied"
    by (rule bridge_at_row [OF at])
  obtain s' where c: "completeEconomyTransfer (x_id x) (pl_db p) = (r, s')" and p': "p' = p\<lparr>pl_db := s'\<rparr>"
    using run by (auto simp: on_db_def split: prod.splits)
  show ?thesis
  proof (cases r)
    case (Inl e)
    with c p' complete_Inl show ?thesis by fastforce
  next
    case (Inr b)
    obtain y where "transfer_of (pl_db p) (x_id x) = Some y" "(x_status y = TransferCompleted \<and> s' = pl_db p) \<or>
      (x_status y = TransferExternalApplied \<and>
        booked (x_id x) set_completed (x_player y) (if x_direction y = Deposit then x_cents y else 0) (pl_db p) s')"
      by (rule complete_Inr [OF trading_okD(1) [OF sale_okD(1) [OF D(1)]] c [unfolded Inr]])
    with R(1,3) have "booked (x_id x) set_completed (x_player x') (if x_direction x' = Deposit then x_cents x' else 0) (pl_db p) s'"
      by auto
    from set_completed.booked_facts [OF D(1,2) R(1) this] D R Inr same_transferD [OF R(2)] show ?thesis
      by (auto simp: bridge_at_def p' held_def)
  qed
qed

lemma bridge_fail:
  assumes at: "bridge_at money x p0 TransferPrepared b p" and x: "x_before x = Some b" "x_direction x = Deposit"
    and run: "on_db (failEconomyTransfer (x_id x) e) p = (r, p')"
  shows "isl r \<and> p' = p \<or> \<not> isl r \<and> bridge_at money x p0 TransferFailed b p'"
proof -
  note D = bridge_atD [OF at]
  obtain x' where R: "transfer_of (pl_db p) (x_id x) = Some x'" "same_transfer x x'" "x_status x' = TransferPrepared"
    by (rule bridge_at_row [OF at])
  obtain s' where c: "failEconomyTransfer (x_id x) e (pl_db p) = (r, s')" and p': "p' = p\<lparr>pl_db := s'\<rparr>"
    using run by (auto simp: on_db_def split: prod.splits)
  show ?thesis
  proof (cases r)
    case (Inl e')
    with c p' fail_Inl show ?thesis by fastforce
  next
    case (Inr c')
    obtain y where "transfer_of (pl_db p) (x_id x) = Some y" "(x_status y = TransferFailed \<and> s' = pl_db p) \<or>
      (x_status y = TransferPrepared \<and>
        booked (x_id x) (set_failed e) (x_player y) (if x_direction y = Withdraw then x_cents y else 0) (pl_db p) s')"
      by (rule fail_Inr [OF trading_okD(1) [OF sale_okD(1) [OF D(1)]] c [unfolded Inr]])
    with R(1,3) have "booked (x_id x) (set_failed e) (x_player x') (if x_direction x' = Withdraw then x_cents x' else 0) (pl_db p) s'"
      by auto
    from set_failed.booked_facts [OF D(1,2) R(1) this] D R Inr same_transferD [OF R(2)] x show ?thesis
      by (auto simp: bridge_at_def p' held_def)
  qed
qed

lemma bridge_block:
  assumes at: "bridge_at money x p0 TransferPrepared b p" and x: "x_before x = Some b"
    and run: "on_db (blockEconomyTransfer (x_id x) e) p = (r, p')"
  shows "r = Inr () \<and> bridge_at money x p0 TransferBlocked b p'"
proof -
  note D = bridge_atD [OF at]
  obtain x' where R: "transfer_of (pl_db p) (x_id x) = Some x'" "same_transfer x x'" "x_status x' = TransferPrepared"
    by (rule bridge_at_row [OF at])
  have "r = Inr ()" "p' = p\<lparr>pl_db := with_transfer (x_id x) (set_blocked e) (pl_db p)\<rparr>"
    using block_eq [OF D(2) R(1), of e] R(3) run by (auto simp: on_db_def)
  moreover have "held x TransferBlocked b = held x TransferPrepared b" using x by (simp add: held_def)
  ultimately show ?thesis using D R set_blocked.with_facts [OF D(1,2) R(1), of e] by (simp add: bridge_at_def)
qed

lemma bridge_attempt:
  assumes at: "bridge_at money x p0 TransferPrepared v p"
    and run: "on_db (recordEconomyTransferAttempt (x_id x) e) p = (r, p')"
  shows "bridge_at money x p0 TransferPrepared v p'"
proof -
  note D = bridge_atD [OF at]
  obtain x' where R: "transfer_of (pl_db p) (x_id x) = Some x'" "same_transfer x x'" "x_status x' = TransferPrepared"
    by (rule bridge_at_row [OF at])
  have "p' = p\<lparr>pl_db := with_transfer (x_id x) (attempt_failed e) (pl_db p)\<rparr>"
    using attempt_state [OF D(2) R(1), of e] R(3) run by (auto simp: on_db_def split: prod.splits)
  with D R attempt_failed.with_facts [OF D(1,2) R(1), of e] show ?thesis by (simp add: bridge_at_def)
qed

section \<open>Settling a transfer\<close>

lemma on_db_E:
  assumes "on_db m p = (r, p')"
  obtains s where "m (pl_db p) = (r, s)" "p' = p\<lparr>pl_db := s\<rparr>"
  using assms by (auto simp: on_db_def split: prod.splits)

lemma on_world_E:
  assumes "on_world m p = (r, p')"
  obtains w where "m (pl_world p) = (r, w)" "p' = p\<lparr>pl_world := w\<rparr>"
  using assms by (auto simp: on_world_def split: prod.splits)

lemma bridge_balance:
  assumes laws: "umoney_laws um money" and at: "bridge_at money x p0 st v p"
    and run: "on_world (gateway_balance um (x_name x)) p = (r, p')"
  shows "bridge_at money x p0 st v p' \<and> (\<forall>c. r = Inr (Some c) \<longrightarrow> c = v \<and> in_int64 c)"
proof -
  from run obtain w where g: "gateway_balance um (x_name x) (pl_world p) = (r, w)" and p': "p' = p\<lparr>pl_world := w\<rparr>"
    by (rule on_world_E)
  have "money (pl_world p) (x_name x) = v" using bridge_atD(3) [OF at] by simp
  with gateway_balance_facts [OF laws g] bridge_world [OF at, of w] p' show ?thesis by auto
qed

text \<open>Applying the delta: nothing fails after the change but the reading back, so no transfer is blocked here.\<close>

lemma bridge_apply:
  assumes laws: "umoney_laws um money" and at: "bridge_at money x p0 TransferPrepared b p"
    and x: "x_before x = Some b" "whole_units x"
    and dec: "decideUmoneyMutation (x_direction x) (x_units x) b b = Apply"
    and t: "t = transfer_view x'" "same_transfer x x'"
    and run: "apply_delta um t b p = (r, p')"
  shows "(isl r \<and> (\<exists>v. (v = b \<or> v = expected_after x b) \<and> bridge_at money x p0 TransferPrepared v p')) \<or>
    r = Inr (expected_after x b) \<and> bridge_at money x p0 TransferPrepared (expected_after x b) p'"
proof -
  note S = same_transferD [OF t(2)]
  have delta: "b + umoney_delta t = expected_after x b" "et_name t = x_name x"
    using S t by (auto simp: umoney_delta_def expected_after_def transfer_view_def)
  have change: "bridge_at money x p0 TransferPrepared (expected_after x b) q \<or>
      bridge_at money x p0 TransferPrepared b q \<and> isl rc"
    if "on_world (gateway_change um (et_name t) (umoney_delta t)) p = (rc, q)" for rc q
  proof -
    from that obtain w where g: "gateway_change um (x_name x) (umoney_delta t) (pl_world p) = (rc, w)"
      and q: "q = p\<lparr>pl_world := w\<rparr>" unfolding delta by (rule on_world_E)
    from gateway_change_facts [OF laws g] delta(1) bridge_atD(3) [OF at] show ?thesis
      using bridge_change [OF at x, of w] bridge_world [OF at, of w] q by fastforce
  qed
  from run [unfolded apply_delta_def] show ?thesis
  proof (elim bindS_E, goal_cases)
    case (1 e)
    with change [OF 1(1)] show ?case by auto
  next
    case (2 _ q e)
    with change [OF 2(1)] have "bridge_at money x p0 TransferPrepared (expected_after x b) q" by auto
    from bridge_balance [OF laws this] 2 delta(2) show ?case by auto
  next
    case (3 _ q c q')
    have "bridge_at money x p0 TransferPrepared (expected_after x b) q" using change [OF 3(1)] by auto
    from bridge_balance [OF laws this] 3(2) delta(2)
    have at': "bridge_at money x p0 TransferPrepared (expected_after x b) q'" and c: "\<forall>k. c = Some k \<longrightarrow> k = expected_after x b"
      by auto
    show ?case
    proof (cases c)
      case None
      with 3(3) at' show ?thesis by (auto simp: throwS_def)
    next
      case (Some k)
      have "decideUmoneyMutation (et_direction t) (et_amount_units t) b (expected_after x b) = AlreadyApplied"
        using dec S t by (auto simp: decideUmoneyMutation_def expected_after_def Let_def transfer_view_def split: if_splits)
      with 3(3) at' c Some show ?thesis by (auto simp: returnS_def)
    qed
  qed
qed

definition settled :: "('w \<Rightarrow> string \<Rightarrow> int) \<Rightarrow> transfer_row \<Rightarrow> 'w plug \<Rightarrow> bool result \<Rightarrow> 'w plug \<Rightarrow> bool" where
  "settled money x p0 r p \<longleftrightarrow> (\<exists>st v. bridge_at money x p0 st v p \<and> agrees x st v \<and>
     (r = Inr True \<longrightarrow> st = TransferCompleted))"

lemma settledI: "bridge_at money x p0 st v p \<Longrightarrow> agrees x st v \<Longrightarrow> (r = Inr True \<Longrightarrow> st = TransferCompleted) \<Longrightarrow> settled money x p0 r p"
  unfolding settled_def by blast

lemma give_up_settled:
  assumes "bridge_at money x p0 st v p" and "agrees x st v" and "give_up th e p = (r, p')"
  shows "settled money x p0 r p'"
  using assms by (auto simp: give_up_def throwS_def returnS_def split: if_splits intro: settledI)

lemma decide_cases:
  assumes "whole_units x" and "x_before x = Some b" and "agrees x TransferPrepared v" and "in_int64 v"
  shows "decideUmoneyMutation (x_direction x) (x_units x) b v = Insufficient \<Longrightarrow> v = b \<and> x_direction x = Deposit"
    "decideUmoneyMutation (x_direction x) (x_units x) b v = Conflict \<Longrightarrow> v = b"
    "decideUmoneyMutation (x_direction x) (x_units x) b v = Apply \<Longrightarrow> v = b"
    "decideUmoneyMutation (x_direction x) (x_units x) b v = AlreadyApplied \<Longrightarrow> v = expected_after x b"
  using assms
  by (cases "x_direction x"; auto simp: decideUmoneyMutation_def agrees_def expected_after_def whole_units_def
      in_int64_def Let_def split: if_splits)+

lemma bridge_finish:
  assumes at: "bridge_at money x p0 TransferPrepared v p" and x: "x_before x = Some b" "v = expected_after x b" "whole_units x"
    and run: "bindS (on_db (markEconomyTransferExternalApplied (x_id x) n)) (\<lambda>_.
      bindS (on_db (completeEconomyTransfer (x_id x))) (\<lambda>_. returnS True)) p = (r, p')"
  shows "settled money x p0 r p'"
  using run
proof (elim bindS_E, goal_cases)
  case (1 e)
  with bridge_mark [OF at x 1(1)] show ?case by simp
next
  case (2 _ q e)
  with bridge_mark [OF at x 2(1)] bridge_complete [OF _ 2(2), of money p0 v] x show ?case
    by (intro settledI [of money x p0 TransferExternalApplied v]) (auto simp: agrees_def)
next
  case (3 _ q _ q')
  with bridge_mark [OF at x 3(1)] bridge_complete [OF _ 3(2), of money p0 v] x show ?case
    by (intro settledI [of money x p0 TransferCompleted v]) (auto simp: agrees_def returnS_def)
qed

lemma settle_transfer_settled:
  assumes laws: "umoney_laws um money" and at: "bridge_at money x p0 TransferPrepared v p"
    and x: "x_before x = Some b" "whole_units x" "agrees x TransferPrepared v"
    and t: "t = transfer_view x'" "same_transfer x x'"
    and run: "settle_transfer um th t b p = (r, p')"
  shows "settled money x p0 r p'"
proof -
  note S = same_transferD [OF t(2)]
  have tv: "et_name t = x_name x" "et_id t = x_id x" "et_direction t = x_direction x" "et_amount_units t = x_units x"
    using S t by (simp_all add: transfer_view_def)
  from run [unfolded settle_transfer_def tv] show ?thesis
  proof (elim bindS_E, goal_cases)
    case (1 e)
    with bridge_balance [OF laws at 1(1)] x(3) show ?case by (auto intro: settledI)
  next
    case (2 bal q)
    note B = bridge_balance [OF laws at 2(1)]
    show ?case
    proof (cases bal)
      case None
      with 2(2) B x(3) show ?thesis by (auto simp: throwS_def intro: settledI)
    next
      case (Some c)
      with B have c: "c = v" "in_int64 v" and q: "bridge_at money x p0 TransferPrepared v q" by auto
      note D = decide_cases [OF x(2,1,3) c(2)]
      show ?thesis
      proof (cases "decideUmoneyMutation (x_direction x) (x_units x) b v")
        case Insufficient
        from 2(2) Some c(1) Insufficient have
          "bindS (on_db (failEconomyTransfer (x_id x) ''insufficient UMoney balance''))
            (\<lambda>_. give_up th (Runtime_Error ''insufficient UMoney balance'')) q = (r, p')" by simp
        then show ?thesis
        proof (elim bindS_E, goal_cases)
          case (1 e)
          with bridge_fail [OF q [unfolded conjunct1 [OF D(1) [OF Insufficient]]] x(1) _ 1(1)] D(1) [OF Insufficient] q x(3)
          show ?case by (auto intro: settledI)
        next
          case (2 _ q')
          with bridge_fail [OF q [unfolded conjunct1 [OF D(1) [OF Insufficient]]] x(1) _ 2(1)] D(1) [OF Insufficient] x(1)
          show ?case by (auto simp: agrees_def intro: give_up_settled)
        qed
      next
        case Conflict
        note v = D(2) [OF Conflict]
        from 2(2) Some c(1) Conflict have
          "bindS (on_db (blockEconomyTransfer (x_id x) (conflict_message ''balance conflict'' b v)))
            (\<lambda>_. give_up th (Runtime_Error (conflict_message ''balance conflict'' b v))) q = (r, p')" by (simp add: Let_def)
        then show ?thesis
        proof (elim bindS_E, goal_cases)
          case (1 e)
          with bridge_block [OF q [unfolded v] x(1) 1(1)] show ?case by simp
        next
          case (2 _ q')
          with bridge_block [OF q [unfolded v] x(1) 2(1)] x(1) show ?case by (auto simp: agrees_def intro: give_up_settled)
        qed
      next
        case AlreadyApplied
        from 2(2) Some c(1) AlreadyApplied bridge_finish [OF q x(1) D(4) [OF AlreadyApplied] x(2)] show ?thesis
          by (simp add: bindS_def returnS_def)
      next
        case Apply
        note v = D(3) [OF Apply]
        from 2(2) Some c(1) Apply have
          "bindS (apply_delta um t b) (\<lambda>applied. bindS (on_db (markEconomyTransferExternalApplied (x_id x) applied)) (\<lambda>_.
             bindS (on_db (completeEconomyTransfer (x_id x))) (\<lambda>_. returnS True))) q = (r, p')" by simp
        then show ?thesis
        proof (elim bindS_E [of "apply_delta um t b"], goal_cases)
          case (1 e)
          with bridge_apply [OF laws q [unfolded v] x(1,2) Apply [unfolded v] t 1(1)] obtain w where
            "w = b \<or> w = expected_after x b" "bridge_at money x p0 TransferPrepared w p'" by auto
          moreover from Apply this(1) x(1) have "agrees x TransferPrepared w"
            by (auto simp: agrees_def decideUmoneyMutation_def Let_def split: if_splits)
          ultimately show ?case using 1(2) by (auto intro: settledI)
        next
          case (2 n q')
          with bridge_apply [OF laws q [unfolded v] x(1,2) Apply [unfolded v] t 2(1)]
          have "bridge_at money x p0 TransferPrepared (expected_after x b) q'" by auto
          from bridge_finish [OF this x(1) refl x(2) 2(2)] show ?case .
        qed
      qed
    qed
  qed
qed

lemma retry_settled:
  assumes "settled money x p0 r0 p" and "et_id t = x_id x" and run: "retry_later th t e p = (r, p')"
  shows "settled money x p0 r p'"
proof -
  from assms(1) obtain st v where at: "bridge_at money x p0 st v p" and a: "agrees x st v" by (auto simp: settled_def)
  from at obtain x' where R: "transfer_of (pl_db p) (x_id x) = Some x'" "x_status x' = st" by (rule bridge_at_row)
  have find: "on_db (findEconomyTransfer (et_id t)) p = (Inr (Some (transfer_view x')), p)"
    using R assms(2) by (simp add: on_db_def findEconomyTransfer_def queryS_def)
  have view: "et_status (transfer_view x') = st" using R by (simp add: transfer_view_def)
  show ?thesis
  proof (cases "st = TransferPrepared")
    case True
    from run [unfolded retry_later_def] find True view assms(2)
    have "bindS (on_db (recordEconomyTransferAttempt (x_id x) (what e))) (\<lambda>_. give_up th e) p = (r, p')"
      by (simp add: bindS_def whenS_def)
    then show ?thesis
    proof (elim bindS_E, goal_cases)
      case (1 e')
      with bridge_attempt [OF at [unfolded True] 1(1)] a True show ?case by (auto intro: settledI)
    next
      case (2 _ q)
      with bridge_attempt [OF at [unfolded True] 2(1)] a True show ?case by (auto intro: give_up_settled)
    qed
  next
    case False
    with run [unfolded retry_later_def] find view have "give_up th e p = (r, p')"
      by (simp add: bindS_def whenS_def returnS_def)
    with at a show ?thesis by (rule give_up_settled)
  qed
qed

lemma process_settled:
  assumes laws: "umoney_laws um money" and ok: "sale_ok (pl_db p)" "transfers_ok (pl_db p)"
    and x: "transfer_of (pl_db p) i = Some x" "whole_units x" "agrees x (x_status x) (money (pl_world p) (x_name x))"
    and run: "processEconomyTransfer um th (transfer_view x) p = (r, p')"
  shows "settled money x p r p'"
proof -
  have i: "x_id x = i" using transfer_of_Some [OF x(1)] by simp
  note at = bridge_start [OF ok, of x money, unfolded i, OF x(1)]
  let ?v = "money (pl_world p) (x_name x)"
  have tv: "et_id (transfer_view x) = x_id x" "et_status (transfer_view x) = x_status x"
    "et_before (transfer_view x) = x_before x" by (simp_all add: transfer_view_def)
  obtain b where b: "x_before x = Some b" using x(3) by (auto simp: agrees_def)
  consider (off) "\<not> (pl_service p \<and> pl_gateway p)" | (complete) "x_status x = TransferExternalApplied" "pl_service p \<and> pl_gateway p"
    | (prepared) "x_status x = TransferPrepared" "pl_service p \<and> pl_gateway p"
    | (over) "x_status x \<noteq> TransferExternalApplied" "x_status x \<noteq> TransferPrepared" "pl_service p \<and> pl_gateway p" by blast
  then show ?thesis
  proof cases
    case off
    with run at x(3) show ?thesis by (auto simp: processEconomyTransfer_def bindS_def queryS_def intro: give_up_settled)
  next
    case over
    then have "r = Inr (x_status x = TransferCompleted)" "p' = p"
      using run tv by (auto simp: processEconomyTransfer_def bindS_def queryS_def returnS_def split: if_splits)
    with at x(3) show ?thesis by (auto intro: settledI)
  next
    case complete
    with run tv have "bindS (on_db (completeEconomyTransfer (x_id x))) (\<lambda>_. returnS True) p = (r, p')"
      by (simp add: processEconomyTransfer_def bindS_def queryS_def)
    then show ?thesis
    proof (elim bindS_E, goal_cases)
      case (1 e)
      with bridge_complete [OF at [unfolded complete(1)] 1(1)] at x(3) show ?case by (auto intro: settledI)
    next
      case (2 _ q)
      with bridge_complete [OF at [unfolded complete(1)] 2(1)] x(3) complete(1) show ?case
        by (intro settledI [of money x p TransferCompleted ?v]) (auto simp: agrees_def returnS_def)
    qed
  next
    case prepared
    note at' = at [unfolded prepared(1)] and ag = x(3) [unfolded prepared(1)]
    obtain r0 q where s: "settle_transfer um th (transfer_view x) b p = (r0, q)" by fastforce
    from settle_transfer_settled [OF laws at' b x(2) ag refl _ s] have "settled money x p r0 q"
      by (simp add: same_transfer_def)
    moreover have "case r0 of Inl e \<Rightarrow> retry_later th (transfer_view x) e q = (r, p') | Inr z \<Rightarrow> r = r0 \<and> p' = q"
      using run prepared tv b s
      by (auto simp: processEconomyTransfer_def bindS_def queryS_def catchS_def split: sum.splits)
    ultimately show ?thesis using retry_settled [OF _ tv(1)] by (auto split: sum.splits)
  qed
qed

end
