(* ===== verification/Umoney_Funding.thy ===== *)
theory Umoney_Funding
  imports Umoney_Bridge
begin

text \<open>
  What the settlement of src/plugin.cpp guarantees: no transfer loses or makes money whatever fails, and
  a purchase is funded when UMoney answers. A last example shows where the guarantee ends, with two
  transfers of one player under way at once.
\<close>

section \<open>When UMoney answers\<close>

definition umoney_up :: "'w umoney \<Rightarrow> ('w \<Rightarrow> string \<Rightarrow> int) \<Rightarrow> bool" where
  "umoney_up um money \<longleftrightarrow> umoney_laws um money \<and>
    (\<forall>w. um_plugin um w = Plugin_Enabled) \<and> (\<forall>a w. um_attribute um a w = Attribute_Callable) \<and>
    (\<forall>n w. fst (um_get_player_money um n w) = Inr (PyInt (money w n))) \<and>
    (\<forall>n d w. \<not> isl (fst (um_change_player_money um n d w))) \<and>
    (\<forall>path w. \<not> isl (fst (um_open um path w))) \<and> (\<forall>fd w. fst (um_fsync um fd w) = None) \<and>
    (\<forall>fd w. fst (um_close um fd w) = None)"

lemma umoney_upD:
  assumes "umoney_up um money"
  shows "umoney_laws um money" "umoney_plugin um w = (Inr (), w)" "requireCallable um a w = (Inr (), w)"
    "\<exists>w'. um_get_player_money um n w = (Inr (PyInt (money w n)), w')" "\<exists>w'. um_change_player_money um n d w = (Inr (), w')"
    "\<exists>fd w'. um_open um path w = (Inr fd, w')" "\<exists>w'. um_fsync um fd w = (None, w')" "\<exists>w'. um_close um fd w = (None, w')"
proof -
  note U = assms [unfolded umoney_up_def]
  show "umoney_laws um money" using U by blast
  show "umoney_plugin um w = (Inr (), w)" "requireCallable um a w = (Inr (), w)"
    using U by (simp_all add: umoney_plugin_def requireCallable_def svc_evals)
  show "\<exists>w'. um_get_player_money um n w = (Inr (PyInt (money w n)), w')" using U by (metis prod.collapse)
  show "\<exists>w'. um_change_player_money um n d w = (Inr (), w')" using U by (metis not_isl_fst old.unit.exhaust)
  show "\<exists>fd w'. um_open um path w = (Inr fd, w')" using U by (metis prod.collapse isl_def sum.exhaust)
  show "\<exists>w'. um_fsync um fd w = (None, w')" "\<exists>w'. um_close um fd w = (None, w')" using U by (metis prod.collapse)+
qed

lemma syncPath_up: "umoney_up um money \<Longrightarrow> \<exists>w'. syncPath um path label w = (Inr (), w')"
proof -
  assume U: "umoney_up um money"
  obtain fd w1 where 1: "um_open um path w = (Inr fd, w1)" using umoney_upD(6) [OF U] by blast
  obtain w2 where 2: "um_fsync um fd w1 = (None, w2)" using umoney_upD(7) [OF U] by blast
  obtain w3 where "um_close um fd w2 = (None, w3)" using umoney_upD(8) [OF U] by blast
  with 1 2 show ?thesis by (simp add: syncPath_def bindS_def returnS_def)
qed

lemma gateway_balance_up:
  assumes "umoney_up um money" and "in_int64 (money w n)"
  shows "\<exists>w'. gateway_balance um n w = (Inr (Some (money w n)), w')"
proof -
  obtain w' where "um_get_player_money um n w = (Inr (PyInt (money w n)), w')" using umoney_upD(4) [OF assms(1)] by blast
  with umoney_upD(2,3) [OF assms(1)] assms(2) show ?thesis
    by (simp add: gateway_balance_def bindS_def liftS_def exactPythonInteger_def in_int64_def returnS_def)
qed

lemma gateway_change_up:
  assumes "umoney_up um money" and "d \<noteq> 0"
  shows "\<exists>w'. gateway_change um n d w = (Inr (), w')"
proof -
  obtain w1 where 1: "um_change_player_money um n d w = (Inr (), w1)" using umoney_upD(5) [OF assms(1)] by blast
  obtain w2 where 2: "syncPath um (um_data_folder um @ ''/money.json'') ''money.json'' w1 = (Inr (), w2)"
    using syncPath_up [OF assms(1)] by blast
  obtain w3 where "syncPath um (um_data_folder um) ''data directory'' w2 = (Inr (), w3)"
    using syncPath_up [OF assms(1)] by blast
  with 1 2 umoney_upD(2,3) [OF assms(1)] assms(2) show ?thesis
    by (simp add: gateway_change_def syncUmoneyData_def bindS_def throwIf_def returnS_def)
qed

lemma complete_succeeds:
  assumes ok: "sale_ok s" "transfers_ok s" and x: "transfer_of s i = Some x" "x_status x = TransferExternalApplied"
    "x_direction x = Deposit" "balance_of s (x_player x) + x_cents x \<le> int64_max"
  shows "\<exists>b s'. completeEconomyTransfer i s = (Inr b, s')"
proof -
  have X: "x \<in> set (transfers s)" using transfer_of_Some [OF x(1)] by simp
  note acc = transfers_okD(5) [OF ok(2) X] and pos = transfers_okD(3) [OF ok(2) X]
  note mok = trading_okD(1) [OF sale_okD(1) [OF ok(1)]]
  obtain s1 where c: "credit (x_player x) (x_cents x) ''UMONEY_DEPOSIT'' ''ECONOMY_TRANSFER'' (Some i) s = (Inr (), s1)"
    using credit_Inr [OF money_ok_accounts_ok [OF mok]] acc pos x(4) by simp
  have m: "money_only s s1" by (rule credit_effect(3) [OF mok c])
  have "account_of (s1\<lparr>transfers := ts\<rparr>) (x_player x) \<noteq> None" for ts
    using trade_frame_refs(1) [OF money_only_trade_frame [OF m] acc] by (simp add: account_of_def)
  with x c show ?thesis
    by (simp add: completeEconomyTransfer_def bindS_def queryS_def throwIf_def whenS_def returnS_def transactionS_def
        updateTransfer_def executeS_def lockedBalance_eq)
qed

text \<open>A prepared deposit the player can pay for goes through.\<close>

lemma process_succeeds:
  assumes up: "umoney_up um money" and ok: "sale_ok (pl_db p)" "transfers_ok (pl_db p)" "pl_service p" "pl_gateway p"
    and x: "transfer_of (pl_db p) (x_id x) = Some x" "whole_units x" "x_status x = TransferPrepared" "x_direction x = Deposit"
    "x_before x = Some (money (pl_world p) (x_name x))"
    and b: "x_units x \<le> money (pl_world p) (x_name x)" "money (pl_world p) (x_name x) \<le> int64_max"
    and fits: "balance_of (pl_db p) (x_player x) + x_cents x \<le> int64_max"
  shows "\<exists>p'. processEconomyTransfer um th (transfer_view x) p = (Inr True, p')"
proof -
  let ?b = "money (pl_world p) (x_name x)"
  note laws = umoney_upD(1) [OF up]
  have pos: "0 < x_units x" using x(2) by (simp add: whole_units_def)
  have tv: "et_name (transfer_view x) = x_name x" "et_id (transfer_view x) = x_id x" "et_direction (transfer_view x) = Deposit"
    "et_amount_units (transfer_view x) = x_units x" "et_before (transfer_view x) = Some ?b"
    "et_status (transfer_view x) = TransferPrepared" "umoney_delta (transfer_view x) = - x_units x"
    using x by (simp_all add: transfer_view_def umoney_delta_def)
  have ib: "in_int64 ?b" using b pos by (simp add: in_int64_def int64_min_def)
  obtain w1 where w1: "gateway_balance um (x_name x) (pl_world p) = (Inr (Some ?b), w1)"
    using gateway_balance_up [OF up ib] by blast
  have m1: "money w1 = money (pl_world p)" by (rule gateway_balance_facts(1) [OF laws w1])
  obtain w2 where w2: "gateway_change um (x_name x) (- x_units x) w1 = (Inr (), w2)"
    using gateway_change_up [OF up] pos by fastforce
  have m2: "money w2 = (money (pl_world p))(x_name x := ?b - x_units x)"
    using gateway_change_facts [OF laws w2] m1 by auto
  then have "in_int64 (money w2 (x_name x))" using b pos by (simp add: in_int64_def int64_min_def)
  then obtain w3 where w3: "gateway_balance um (x_name x) w2 = (Inr (Some (?b - x_units x)), w3)"
    using gateway_balance_up [OF up, of w2 "x_name x"] m2 by auto
  have dec: "decideUmoneyMutation Deposit (x_units x) ?b ?b = Apply"
    "decideUmoneyMutation Deposit (x_units x) ?b (?b - x_units x) = AlreadyApplied"
    using b pos by (simp_all add: decideUmoneyMutation_def Let_def)
  let ?s = "with_transfer (x_id x) (set_applied (?b - x_units x)) (pl_db p)"
  have mark: "markEconomyTransferExternalApplied (x_id x) (?b - x_units x) (pl_db p) = (Inr (), ?s)"
    using applied_eq [OF x(1), of "?b - x_units x"] x(3) by simp
  note A = set_applied.with_facts [OF ok(1,2) x(1), of "?b - x_units x"]
  have "x_cents (set_applied (?b - x_units x) x) = x_cents x" "x_player (set_applied (?b - x_units x) x) = x_player x"
    "x_direction (set_applied (?b - x_units x) x) = Deposit" using x(4) by simp_all
  then obtain c s' where "completeEconomyTransfer (x_id x) ?s = (Inr c, s')"
    using complete_succeeds [OF A(1,2) A(4) [of "x_id x", simplified]] A(5) fits by auto
  with ok(3,4) tv w1 w2 w3 dec mark show ?thesis
    by (simp add: processEconomyTransfer_def catchS_def settle_transfer_def apply_delta_def bindS_def queryS_def
        returnS_def on_db_def on_world_def Let_def)
qed

lemma reserve_deposit:
  "reserveTransfer key u n Deposit cents units b s = (if key \<in> x_key ` set (transfers s) then (Inl duplicate_entry, s) else
     (Inr (fresh_id x_id (transfers s)),
      s\<lparr>transfers := transfers s @ [new_transfer (fresh_id x_id (transfers s)) key u n Deposit cents units b]\<rparr>))"
  by (simp add: reserveTransfer_def svc_evals)

text \<open>Preparing a deposit with a fresh key succeeds and moves no money.\<close>

lemma prepare_deposit:
  assumes cfg: "config_ok cfg" and ok: "sale_ok s" "transfers_ok s" and un: "u \<noteq> []" "n \<noteq> []" "account_of s u \<noteq> None"
    and pos: "0 < cents" "0 < units" and key: "key \<notin> x_key ` set (transfers s)"
  obtains i s' where "prepareEconomyTransfer cfg key u n Deposit cents units b s =
      (Inr (transfer_view (new_transfer i key u n Deposit cents units b)), s')"
    "sale_ok s'" "transfers_ok s'" "transfer_of s' i = Some (new_transfer i key u n Deposit cents units b)"
    "balance_of s' = balance_of s"
proof -
  note mok = trading_okD(1) [OF sale_okD(1) [OF ok(1)]]
  obtain s1 where e: "ensureAccount cfg u n s = (Inr (), s1)" using un(1) by (simp add: ensureAccount_Inr)
  have bal: "balance_of s1 = balance_of s"
    using ensureAccount_effect(5) [OF cfg mok e refl] un(3) by (simp add: fun_upd_idem)
  have tr: "transfers s1 = transfers s" by (rule money_onlyD(9) [OF ensureAccount_effect(2) [OF cfg mok e]])
  let ?i = "fresh_id x_id (transfers s)"
  let ?x = "new_transfer ?i key u n Deposit cents units b"
  let ?s' = "s1\<lparr>transfers := transfers s @ [?x]\<rparr>"
  have "find (\<lambda>x. x_id x = ?i) (transfers s) = None" by (auto simp: find_None_iff fresh_id_neq)
  then have row: "transfer_of ?s' ?i = Some ?x"
    by (simp add: transfer_of_def find_append new_transfer_def)
  have run: "prepareEconomyTransfer cfg key u n Deposit cents units b s = (Inr (transfer_view ?x), ?s')"
    using un pos e key row
    by (simp add: prepareEconomyTransfer_def bindS_def throwIf_def returnS_def reserve_deposit tr findEconomyTransfer_def queryS_def)
  note P = prepared_facts(1,2) [OF cfg ok run]
  show thesis by (rule that [OF run P row]) (simp add: bal)
qed

lemma round_up: "(d::int) div 100 + (if d mod 100 = 0 then 0 else 1) = (d + 99) div 100"
proof -
  define q r where "q = d div 100" and "r = d mod 100"
  then have d: "d = 100 * q + r" and r: "0 \<le> r" "r < 100" by simp_all
  have "(r + 99) div 100 = (if r = 0 then 0 else 1)"
    using r int_div_pos_eq [of "r + 99" 100 1 "r - 1"] by auto
  moreover have "(d + 99) div 100 = q + (r + 99) div 100" unfolding d by simp
  ultimately show ?thesis by (simp add: q_def [symmetric] r_def [symmetric])
qed

section \<open>Properties\<close>

text \<open>
  C34: Settling a transfer loses and makes no money, whatever fails on the way: as long as UMoney's
  changes are atomic and nobody else touches the two accounts, the player's money in both ledgers
  together with what the transfer holds stays the same, nobody else's money moves, the external balance
  is again the one the new status stands for, and True is only returned for a completed transfer. As
  the conditions hold again afterwards, this covers any number of retries and restarts.
\<close>

theorem processEconomyTransfer_exactly_once:
  assumes "umoney_laws um money" and "sale_ok (pl_db p)" and "transfers_ok (pl_db p)"
    and "transfer_of (pl_db p) i = Some x" and "whole_units x"
    and "agrees x (x_status x) (money (pl_world p) (x_name x))"
    and "processEconomyTransfer um th (transfer_view x) p = (r, p')"
  shows "\<exists>x'. transfer_of (pl_db p') i = Some x' \<and> same_transfer x x' \<and>
    agrees x' (x_status x') (money (pl_world p') (x_name x')) \<and> wealth money x' p' = wealth money x p \<and>
    (r = Inr True \<longrightarrow> x_status x' = TransferCompleted) \<and>
    (\<forall>n. n \<noteq> x_name x \<longrightarrow> money (pl_world p') n = money (pl_world p) n) \<and>
    (\<forall>u. u \<noteq> x_player x \<longrightarrow> balance_of (pl_db p') u = balance_of (pl_db p) u) \<and>
    sale_ok (pl_db p') \<and> transfers_ok (pl_db p')"
proof -
  have i: "x_id x = i" using transfer_of_Some [OF assms(4)] by simp
  from process_settled [OF assms] obtain st v where at: "bridge_at money x p st v p'" and a: "agrees x st v"
    and r: "r = Inr True \<Longrightarrow> st = TransferCompleted" by (auto simp: settled_def)
  from at obtain x' where R: "transfer_of (pl_db p') i = Some x'" "same_transfer x x'" "x_status x' = st"
    unfolding i [symmetric] by (rule bridge_at_row)
  note D = bridge_atD [OF at] and S = same_transferD [OF R(2)]
  have "agrees x' st v = agrees x st v" "held x' st v = held x st v"
    using S by (auto simp: agrees_def held_def expected_after_def)
  with D R S a r show ?thesis by (intro exI [of _ x']) (auto simp: wealth_def)
qed

lemma deposit_settles:
  assumes up: "umoney_up um money" and ok: "sale_ok (pl_db q)" "transfers_ok (pl_db q)"
    and on: "pl_service q" "pl_gateway q" and row: "transfer_of (pl_db q) (x_id x) = Some x"
    and x: "whole_units x" "x_status x = TransferPrepared" "x_direction x = Deposit" "x_cents x = 100 * x_units x"
      "x_before x = Some (money (pl_world q) (x_name x))"
    and b: "x_units x \<le> money (pl_world q) (x_name x)" "money (pl_world q) (x_name x) \<le> int64_max"
    and fits: "balance_of (pl_db q) (x_player x) + x_cents x \<le> int64_max"
  shows "\<exists>q'. processEconomyTransfer um th (transfer_view x) q = (Inr True, q') \<and>
    balance_of (pl_db q') = (balance_of (pl_db q))(x_player x := balance_of (pl_db q) (x_player x) + x_cents x) \<and>
    money (pl_world q') = (money (pl_world q))(x_name x := money (pl_world q) (x_name x) - x_units x) \<and>
    account_of (pl_db q') (x_player x) \<noteq> None"
proof -
  obtain q' where proc: "processEconomyTransfer um th (transfer_view x) q = (Inr True, q')"
    using process_succeeds [OF up ok on row x(1,2,3,5) b fits] by blast
  have ag: "agrees x (x_status x) (money (pl_world q) (x_name x))" using x by (simp add: agrees_def)
  from process_settled [OF umoney_upD(1) [OF up] ok row x(1) ag proc]
  obtain v where at: "bridge_at money x q TransferCompleted v q'" and "agrees x TransferCompleted v"
    by (auto simp: settled_def)
  then have v: "v = money (pl_world q) (x_name x) - x_units x" using x by (auto simp: agrees_def expected_after_def)
  note D = bridge_atD [OF at]
  have bu: "balance_of (pl_db q') (x_player x) = balance_of (pl_db q) (x_player x) + x_cents x"
    using D(5) x(2-5) by (simp add: v wealth_def held_def UmoneyUnitCents_def)
  obtain x' where x': "transfer_of (pl_db q') (x_id x) = Some x'" "same_transfer x x'"
    by (rule bridge_at_row [OF at])
  have "account_of (pl_db q') (x_player x) \<noteq> None"
    using transfers_okD(5) [OF D(2), of x'] transfer_of_Some [OF x'(1)] same_transferD(2) [OF x'(2)] by simp
  moreover have "balance_of (pl_db q') = (balance_of (pl_db q))(x_player x := balance_of (pl_db q) (x_player x) + x_cents x)"
    using D(4) bu by (auto simp: fun_eq_iff)
  ultimately show ?thesis using proc D(3) v by simp
qed

text \<open>
  C35: When UMoney answers and the player has enough there, \<open>fundDirectBalance\<close> succeeds: it moves the
  shortage, rounded up to whole units and not a unit more, from UMoney to the exchange, after which the
  required amount is there; with enough in the exchange it moves nothing. Nobody else's money moves.
\<close>

theorem funding_goes_through:
  assumes up: "umoney_up um money" and cfg: "config_ok cfg" and ok: "sale_ok (pl_db p)" "transfers_ok (pl_db p)"
    and on: "pl_service p" "pl_gateway p" and u: "account_of (pl_db p) u \<noteq> None" "u \<noteq> []" "n \<noteq> []"
    and uuid: "\<And>s. uuid s \<notin> x_key ` set (transfers s)"
    and k: "k = (max 0 (required - balance_of (pl_db p) u) + 99) div 100"
    and rich: "k \<le> money (pl_world p) n" "money (pl_world p) n \<le> int64_max" "in_int64 (money (pl_world p) n)"
    and fits: "balance_of (pl_db p) u + 100 * k \<le> int64_max"
  shows "\<exists>p'. fundDirectBalance cfg table uuid um u n required language p = (Inr (), p') \<and>
    required \<le> balance_of (pl_db p') u \<and>
    balance_of (pl_db p') = (balance_of (pl_db p))(u := balance_of (pl_db p) u + 100 * k) \<and>
    money (pl_world p') = (money (pl_world p))(n := money (pl_world p) n - k)"
proof -
  note mok = trading_okD(1) [OF sale_okD(1) [OF ok(1)]]
  have nonneg: "0 \<le> balance_of (pl_db p) u" by (rule balance_of_range(1) [OF money_ok_accounts_ok [OF mok]])
  have bal: "on_db (balance u) p = (Inr (balance_of (pl_db p) u), p)"
    using lockedBalance_eq [OF u(1)] by (simp add: on_db_def balance_eq_lockedBalance)
  show ?thesis
  proof (cases "required \<le> balance_of (pl_db p) u")
    case True
    then have "k = 0" by (simp add: k)
    moreover have "fundDirectBalance cfg table uuid um u n required language p = (Inr (), p)"
      using True bal by (simp add: fundDirectBalance_def bindS_def queryS_def returnS_def)
    ultimately show ?thesis using True by simp
  next
    case False
    let ?d = "required - balance_of (pl_db p) u"
    have d: "0 < ?d" "\<not> required \<le> 0" using False nonneg by auto
    have units: "?d sdiv UmoneyUnitCents + (if ?d smod UmoneyUnitCents = 0 then 0 else 1) = k"
      using d(1) round_up [of ?d] unfolding k UmoneyUnitCents_def
      by (simp only: sdiv_nonneg_eq_div smod_nonneg_eq_mod max_absorb2 less_imp_le zero_less_numeral)
    have kpos: "0 < k" "?d \<le> 100 * k" using d by (simp_all add: k)
    have kmax: "k \<le> int64_max sdiv UmoneyUnitCents"
      using fits nonneg by (simp add: sdiv_nonneg_eq_div UmoneyUnitCents_def)
    obtain w1 where w1: "gateway_balance um n (pl_world p) = (Inr (Some (money (pl_world p) n)), w1)"
      using gateway_balance_up [OF up rich(3)] by blast
    have m1: "money w1 = money (pl_world p)" by (rule gateway_balance_facts(1) [OF umoney_upD(1) [OF up] w1])
    obtain i s1 where prep: "prepareEconomyTransfer cfg (uuid (pl_db p)) u n Deposit (k * UmoneyUnitCents) k
          (Some (money (pl_world p) n)) (pl_db p) =
        (Inr (transfer_view (new_transfer i (uuid (pl_db p)) u n Deposit (k * UmoneyUnitCents) k (Some (money (pl_world p) n)))), s1)"
      and P: "sale_ok s1" "transfers_ok s1" "transfer_of s1 i = Some (new_transfer i (uuid (pl_db p)) u n Deposit
          (k * UmoneyUnitCents) k (Some (money (pl_world p) n)))" "balance_of s1 = balance_of (pl_db p)"
      by (rule prepare_deposit [OF cfg ok u(2,3,1) _ kpos(1) uuid, of "k * UmoneyUnitCents"])
        (use kpos in \<open>simp add: UmoneyUnitCents_def\<close>)
    let ?x = "new_transfer i (uuid (pl_db p)) u n Deposit (k * UmoneyUnitCents) k (Some (money (pl_world p) n))"
    let ?q = "p\<lparr>pl_world := w1, pl_db := s1\<rparr>"
    have x: "x_id ?x = i" "x_name ?x = n" "x_player ?x = u" "x_units ?x = k" "x_cents ?x = 100 * k" "whole_units ?x"
      "x_status ?x = TransferPrepared" "x_direction ?x = Deposit" "x_before ?x = Some (money (pl_world p) n)"
      using kpos by (simp_all add: new_transfer_def whole_units_def UmoneyUnitCents_def)
    from deposit_settles [of um money ?q ?x True] up P on x m1 rich(1,2) fits
    obtain p' where proc: "processEconomyTransfer um True (transfer_view ?x) ?q = (Inr True, p')"
      and B: "balance_of (pl_db p') = (balance_of (pl_db p))(u := balance_of (pl_db p) u + 100 * k)"
      and M: "money (pl_world p') = (money (pl_world p))(n := money (pl_world p) n - k)"
      and acc: "account_of (pl_db p') u \<noteq> None" by auto
    then have bu: "balance_of (pl_db p') u = balance_of (pl_db p) u + 100 * k" by simp
    from acc have bal': "on_db (balance u) p' = (Inr (balance_of (pl_db p) u + 100 * k), p')"
      using lockedBalance_eq bu by (simp add: on_db_def balance_eq_lockedBalance)
    have "fundDirectBalance cfg table uuid um u n required language p = (Inr (), p')"
      using d on bal units kpos kmax w1 prep proc bal' rich(1) False
      by (simp add: fundDirectBalance_def bindS_def queryS_def returnS_def throwIf_def Let_def on_world_def
          prepare_transfer_def on_db_def)
    with B M bu kpos(2) show ?thesis by auto
  qed
qed

section \<open>Examples\<close>

text \<open>
  A UMoney plugin whose accounts are a list of balances and whose next few changes fail; the witness
  of the properties, and the setting of the last example.
\<close>

type_synonym demo_world = "(string \<times> int) list \<times> nat"

definition demo_money :: "demo_world \<Rightarrow> string \<Rightarrow> int" where
  "demo_money w n = (case map_of (fst w) n of None \<Rightarrow> 0 | Some v \<Rightarrow> v)"

definition demo_change :: "string \<Rightarrow> int \<Rightarrow> (demo_world, unit) svc" where
  "demo_change n d w = (if snd w = 0 then (Inr (), ((n, demo_money w n + d) # fst w, 0))
     else (Inl (Runtime_Error ''python error''), (fst w, snd w - 1)))"

definition demo_umoney :: "demo_world umoney" where
  "demo_umoney = \<lparr>um_name = ''umoney'', um_plugin = (\<lambda>w. Plugin_Enabled), um_attribute = (\<lambda>a w. Attribute_Callable),
     um_get_player_money = (\<lambda>n w. (Inr (PyInt (demo_money w n)), w)), um_change_player_money = demo_change,
     um_open = (\<lambda>path w. (Inr 3, w)), um_fsync = (\<lambda>fd w. (None, w)), um_close = (\<lambda>fd w. (None, w)),
     um_strerror = (\<lambda>e. []), um_data_folder = ''plugins/umoney''\<rparr>"

lemma demo_umoney_laws: "umoney_laws demo_umoney demo_money"
  by (auto simp: umoney_laws_def demo_umoney_def demo_change_def demo_money_def fun_eq_iff)

definition demo_plug :: "demo_world plug" where
  "demo_plug = \<lparr>pl_ready = True, pl_service = True, pl_gateway = True, pl_processing = False,
     pl_db = demo_transfers, pl_world = ([(''dave'', 5), (''bob'', 20)], 1)\<rparr>"

theorem processEconomyTransfer_exactly_once_witness:
  "\<exists>r p'. processEconomyTransfer demo_umoney False (transfer_view demo_withdrawal) demo_plug = (r, p') \<and>
    (\<exists>x'. transfer_of (pl_db p') 2 = Some x' \<and> wealth demo_money x' p' = 420 + 500 + 100)"
proof -
  obtain r p' where run: "processEconomyTransfer demo_umoney False (transfer_view demo_withdrawal) demo_plug = (r, p')"
    by fastforce
  have db: "pl_db demo_plug = demo_transfers" by (simp add: demo_plug_def)
  have w: "whole_units demo_withdrawal" "wealth demo_money demo_withdrawal demo_plug = 420 + 500 + 100"
    by code_simp+
  have ag: "agrees demo_withdrawal (x_status demo_withdrawal) (demo_money (pl_world demo_plug) (x_name demo_withdrawal))"
    unfolding agrees_def by (rule exI [of _ 5]) code_simp
  from processEconomyTransfer_exactly_once [OF demo_umoney_laws, of demo_plug 2 demo_withdrawal, unfolded db, OF demo_transfers_ok
      demo_transfer_rows(2) w(1) ag run] run w(2) show ?thesis by metis
qed

definition demo_umoney_up :: "demo_world umoney" where
  "demo_umoney_up = demo_umoney\<lparr>um_change_player_money := (\<lambda>n d w. (Inr (), ((n, demo_money w n + d) # fst w, snd w)))\<rparr>"

lemma demo_umoney_up_up: "umoney_up demo_umoney_up demo_money"
  by (auto simp: umoney_up_def umoney_laws_def demo_umoney_up_def demo_umoney_def demo_money_def fun_eq_iff)

definition demo_uuid :: "db \<Rightarrow> string" where
  "demo_uuid s = replicate (Suc (sum_list (map (\<lambda>x. length (x_key x)) (transfers s)))) CHR ''k''"

lemma demo_uuid_fresh: "demo_uuid s \<notin> x_key ` set (transfers s)"
proof
  assume "demo_uuid s \<in> x_key ` set (transfers s)"
  then obtain x where x: "x \<in> set (transfers s)" "x_key x = demo_uuid s" by auto
  have "length (x_key x) \<le> sum_list (map (\<lambda>x. length (x_key x)) (transfers s))"
    by (rule member_le_sum_list) (use x(1) in simp_all)
  with x(2) show False by (simp add: demo_uuid_def)
qed

theorem funding_goes_through_witness:
  "\<exists>p'. fundDirectBalance demo_cfg [] demo_uuid demo_umoney_up ''bob'' ''bob'' 650 English demo_plug = (Inr (), p') \<and>
    balance_of (pl_db p') ''bob'' = 700 \<and> demo_money (pl_world p') ''bob'' = 15"
proof -
  have db: "pl_db demo_plug = demo_transfers" "pl_service demo_plug" "pl_gateway demo_plug" by (simp_all add: demo_plug_def)
  have c: "account_of demo_transfers ''bob'' \<noteq> None" "balance_of demo_transfers ''bob'' = 200"
    "demo_money (pl_world demo_plug) ''bob'' = 20" by code_simp+
  have k: "5 = (max 0 (650 - balance_of demo_transfers ''bob'') + 99) div 100" by (simp add: c(2))
  have rich: "5 \<le> demo_money (pl_world demo_plug) ''bob''" "demo_money (pl_world demo_plug) ''bob'' \<le> int64_max"
    "in_int64 (demo_money (pl_world demo_plug) ''bob'')" "balance_of demo_transfers ''bob'' + 100 * 5 \<le> int64_max"
    by (simp_all add: c int64_max_def int64_min_def in_int64_def)
  from funding_goes_through [OF demo_umoney_up_up demo_cfg_ok demo_transfers_ok [folded db(1)] db(2,3) c(1) [folded db(1)]
      _ _ demo_uuid_fresh k [folded db(1)] rich(1-3) rich(4) [folded db(1)], of "[]" English]
  obtain p' where "fundDirectBalance demo_cfg [] demo_uuid demo_umoney_up ''bob'' ''bob'' 650 English demo_plug = (Inr (), p')"
    "balance_of (pl_db p') = (balance_of demo_transfers)(''bob'' := balance_of demo_transfers ''bob'' + 100 * 5)"
    "demo_money (pl_world p') = (demo_money (pl_world demo_plug))(''bob'' := demo_money (pl_world demo_plug) ''bob'' - 5)"
    unfolding db(1) by fast
  then show ?thesis by (simp add: c)
qed

text \<open>
  Where the guarantee ends: two transfers of one player under way. Bob's first attempt to fund a purchase
  fails in UMoney and stays prepared with the baseline 20; his second attempt moves the same amount from
  the same baseline. The recovery then finds the balance its first transfer expected, takes it for applied
  and credits the deposit a second time: Bob ends with 500 cents more than he had, out of nothing.
\<close>

definition both_ledgers :: "demo_world plug \<Rightarrow> string \<Rightarrow> Cents" where
  "both_ledgers p u = balance_of (pl_db p) u + 100 * demo_money (pl_world p) u"

definition demo_fund :: "(demo_world plug, unit) svc" where
  "demo_fund = fundDirectBalance demo_cfg [] demo_uuid demo_umoney ''bob'' ''bob'' 650 English"

definition demo_twice :: "demo_world plug" where
  "demo_twice = snd (demo_fund (snd (demo_fund (demo_plug\<lparr>pl_db := demo_sale\<rparr>))))"

lemma second_attempt_credited_twice:
  "isl (fst (demo_fund (demo_plug\<lparr>pl_db := demo_sale\<rparr>)))"
  "both_ledgers (demo_plug\<lparr>pl_db := demo_sale\<rparr>) ''bob'' = 2200" "both_ledgers demo_twice ''bob'' = 2200"
  "both_ledgers (snd (processEconomyTransfers demo_cfg demo_uuid demo_umoney demo_twice)) ''bob'' = 2700"
  by code_simp+

end
