(* ===== verification/Trade_Form.thy ===== *)
theory Trade_Form
  imports Localization
begin

text \<open>
  The trade forms (src/trade_form.cpp, with the price rendering of src/market_display.cpp): what a player
  may do and sees, and how the answer of a form, a JSON array of strings, becomes quantities and prices.
\<close>

section \<open>Actions\<close>

datatype TradeAction = LimitBuy | LimitSell | MarketBuy | MarketSell

record TradeDraft =
  td_action :: TradeAction
  td_quantity :: int
  td_price :: Cents

definition tradeActionUsesPrice :: "TradeAction \<Rightarrow> bool" where
  "tradeActionUsesPrice action \<longleftrightarrow> action = LimitBuy \<or> action = LimitSell"

definition tradeActionSide :: "TradeAction \<Rightarrow> Side" where
  "tradeActionSide action = (if action = LimitBuy \<or> action = MarketBuy then Buy else Sell)"

definition tradeActionOrderType :: "TradeAction \<Rightarrow> OrderType" where
  "tradeActionOrderType action = (if tradeActionUsesPrice action then Limit else Market)"

fun tradeActionLabel :: "catalogue \<Rightarrow> TradeAction \<Rightarrow> Language \<Rightarrow> string" where
  "tradeActionLabel table LimitBuy language = messageText table language TradeActionLimitBuy"
| "tradeActionLabel table LimitSell language = messageText table language TradeActionLimitSell"
| "tradeActionLabel table MarketBuy language = messageText table language TradeActionMarketBuy"
| "tradeActionLabel table MarketSell language = messageText table language TradeActionMarketSell"

definition availableTradeActions :: "bool \<Rightarrow> bool \<Rightarrow> TradeAction list" where
  "availableTradeActions has_bids has_asks =
    (if has_asks then [MarketBuy] else []) @ (if has_bids then [MarketSell] else []) @ [LimitBuy, LimitSell]"

section \<open>Rendering\<close>

text \<open>The UTF-8 bytes of the three signs the texts use.\<close>

definition section_sign :: string where "section_sign = [CHR 0xC2, CHR 0xA7]"
definition middle_dot :: string where "middle_dot = [CHR 0xC2, CHR 0xB7]"
definition ellipsis :: string where "ellipsis = [CHR 0xE2, CHR 0x80, CHR 0xA6]"

definition new_line :: string where "new_line = [CHR 0x0A]"

definition formatUnitPrice :: "Cents \<Rightarrow> string" where
  "formatUnitPrice cents = dec (cents sdiv 100) @ ''u''"

definition formatCurrency :: "Cents \<Rightarrow> string" where
  "formatCurrency cents = (let magnitude = \<bar>cents\<bar>; whole = magnitude div 100; fraction = magnitude mod 100;
     sign = if cents < 0 then ''-'' else [] in
     if fraction = 0 then sign @ dec whole @ ''u''
     else sign @ dec whole @ ''.'' @ (if fraction < 10 then ''0'' else []) @ dec fraction @ ''u'')"

fun level_texts :: "PriceLevel list \<Rightarrow> string list" where
  "level_texts levels = map (\<lambda>l. formatUnitPrice (level_price l) @ '' x '' @ dec (level_quantity l)) levels"

fun join_with :: "string \<Rightarrow> string list \<Rightarrow> string" where
  "join_with sep [] = []"
| "join_with sep [x] = x"
| "join_with sep (x # y # xs) = x @ sep @ join_with sep (y # xs)"

definition level_separator :: string where
  "level_separator = ''  '' @ middle_dot @ ''  ''"

definition priceLevelsText :: "string \<Rightarrow> PriceLevel list \<Rightarrow> nat \<Rightarrow> string" where
  "priceLevelsText heading levels visible_levels = heading @ ''  '' @
    (if levels = [] then ''--''
     else let shown = min (length levels) (max visible_levels 1) in
       join_with level_separator (level_texts (take shown levels)) @
       (if length levels > shown then level_separator @ ellipsis else []))"

definition colored :: "char \<Rightarrow> string \<Rightarrow> string" where
  "colored code t = section_sign @ [code] @ t @ section_sign @ ''r''"

definition tradeOverviewText ::
  "catalogue \<Rightarrow> OrderBook \<Rightarrow> string \<Rightarrow> int \<Rightarrow> string \<Rightarrow> Language \<Rightarrow> nat \<Rightarrow> string result"
where
  "tradeOverviewText table book formatted_balance sellable_quantity item_requirements language visible_levels =
    (case tr table language TradeOverviewAccount [formatted_balance, dec sellable_quantity] of Inl e \<Rightarrow> Inl e
     | Inr account \<Rightarrow> Inr (
       priceLevelsText (colored CHR ''a'' (messageText table language HologramWanted)) (bids book) visible_levels @
       new_line @
       priceLevelsText (colored CHR ''c'' (messageText table language HologramForSale)) (asks book) visible_levels @
       new_line @ account @
       (if item_requirements = [] then []
        else new_line @ messageText table language TradeOverviewRequirements @ new_line @ item_requirements)))"

text \<open>A draft's total is within 64 bits: its price is at most \<open>price_max\<close>, its quantity at most
  \<open>max_order_quantity\<close>, and the configuration bounds their product.\<close>

definition tradeReviewText :: "catalogue \<Rightarrow> TradeDraft \<Rightarrow> Language \<Rightarrow> string result" where
  "tradeReviewText table draft language =
    (case tr table language QuantityValue [dec (td_quantity draft)] of Inl e \<Rightarrow> Inl e
     | Inr quantity \<Rightarrow>
       let head = colored CHR ''6'' (tradeActionLabel table (td_action draft) language) @ new_line @ quantity in
       if \<not> tradeActionUsesPrice (td_action draft)
       then Inr (head @ new_line @ messageText table language
         (if td_action draft = MarketBuy then ReviewDirectBuy else ReviewDirectSell))
       else (case tr table language UnitPriceValue [formatUnitPrice (td_price draft)] of Inl e \<Rightarrow> Inl e
         | Inr unit_price \<Rightarrow>
           (case tr table language
               (if tradeActionSide (td_action draft) = Buy then ReviewMaximumPayment else ReviewExpectedIncome)
               [formatUnitPrice (td_price draft * td_quantity draft)] of Inl e \<Rightarrow> Inl e
            | Inr total_text \<Rightarrow> Inr (head @ new_line @ unit_price @ new_line @ total_text))))"

section \<open>Parsing\<close>

definition trim :: "string \<Rightarrow> string" where
  "trim t = rev (dropWhile is_space (rev (dropWhile is_space t)))"

definition parseWholeNumber ::
  "catalogue \<Rightarrow> string \<Rightarrow> int \<Rightarrow> int \<Rightarrow> Message \<Rightarrow> Language \<Rightarrow> int result"
where
  "parseWholeNumber table raw minimum maximum field language =
    (let invalid = Inl (userError (tr table language WholeNumberRange
         [messageText table language field, dec minimum, dec maximum])) in
     case from_chars True int64_min int64_max (trim raw) of Inl e \<Rightarrow> invalid
     | Inr (v, rest) \<Rightarrow> if rest \<noteq> [] \<or> v < minimum \<or> v > maximum then invalid else Inr v)"

definition parseTradeQuantity :: "catalogue \<Rightarrow> string \<Rightarrow> int \<Rightarrow> Language \<Rightarrow> int result" where
  "parseTradeQuantity table t maximum language =
    (if maximum < 1 then Inl (userError (tr table language QuantityRangeInvalid []))
     else parseWholeNumber table t 1 maximum QuantityField language)"

definition parseTradePrice :: "catalogue \<Rightarrow> string \<Rightarrow> Cents \<Rightarrow> Cents \<Rightarrow> Cents \<Rightarrow> Language \<Rightarrow> Cents result" where
  "parseTradePrice table t minimum maximum step language =
    (if minimum \<le> 0 \<or> maximum < minimum \<or> step \<le> 0 \<or> minimum smod 100 \<noteq> 0 \<or> maximum smod 100 \<noteq> 0 \<or>
        step smod 100 \<noteq> 0
     then Inl (userError (tr table language PriceRangeInvalid []))
     else case parseWholeNumber table t (minimum sdiv 100) (maximum sdiv 100) UnitPriceField language of Inl e \<Rightarrow> Inl e
     | Inr units \<Rightarrow>
       if units > int64_max sdiv 100 then Inl (userError (tr table language PriceTooLarge []))
       else if (units * 100 - minimum) smod step \<noteq> 0
       then Inl (userError (tr table language PriceStep [dec (step sdiv 100)]))
       else Inr (units * 100))"

definition defaultTradePrice :: "Cents \<Rightarrow> Cents \<Rightarrow> Cents \<Rightarrow> Cents \<Rightarrow> Cents result" where
  "defaultTradePrice minimum maximum step reference =
    (if minimum \<le> 0 \<or> maximum < minimum \<or> step \<le> 0 then Inl (Runtime_Error ''invalid price range'')
     else
       let clamped = max minimum (min reference maximum);
         steps = (clamped - minimum) sdiv step; remainder = (clamped - minimum) smod step;
         steps' = (if remainder \<ge> step sdiv 2 + step smod 2 \<and> minimum + steps * step \<le> maximum - step
           then steps + 1 else steps) in
       Inr (minimum + steps' * step))"

text \<open>One JSON string after its opening quote: the decoded text and what follows the closing quote.\<close>

definition escape_value :: "char \<Rightarrow> char option" where
  "escape_value c = (if c = CHR 0x22 then Some CHR 0x22 else if c = CHR 0x5C then Some CHR 0x5C
     else if c = CHR ''/'' then Some CHR ''/'' else if c = CHR ''b'' then Some CHR 0x08
     else if c = CHR ''f'' then Some CHR 0x0C else if c = CHR ''n'' then Some CHR 0x0A
     else if c = CHR ''r'' then Some CHR 0x0D else if c = CHR ''t'' then Some CHR 0x09 else None)"

fun form_string :: "string \<Rightarrow> string \<Rightarrow> (string \<times> string) option" where
  "form_string [] acc = None"
| "form_string (c # cs) acc =
    (if c = CHR 0x22 then Some (acc, cs)
     else if char_code c < 32 then None
     else if c \<noteq> CHR 0x5C then form_string cs (acc @ [c])
     else (case cs of [] \<Rightarrow> None | d # ds \<Rightarrow>
       (case escape_value d of None \<Rightarrow> None | Some v \<Rightarrow> form_string ds (acc @ [v]))))"

definition skip_spaces :: "string \<Rightarrow> string" where
  "skip_spaces t = dropWhile is_space t"

lemma json_codes [simp]: "char_code CHR 0x5C = 92" "char_code CHR 0x22 = 34"
  by (simp_all add: char_code_def)

lemma form_string_shorter: "form_string t acc = Some (v, rest) \<Longrightarrow> length rest < length t"
proof (induction t acc rule: form_string.induct)
  case (2 c cs acc)
  show ?case
  proof (cases "c = CHR 0x22 \<or> char_code c < 32 \<or> c \<noteq> CHR 0x5C")
    case True
    with 2 show ?thesis by (cases "c = CHR 0x22"; cases "char_code c < 32") (simp_all add: less_SucI)
  next
    case False
    then have esc: "c = CHR 0x5C" by simp
    with "2.prems" obtain d ds where cs: "cs = d # ds" by (cases cs) simp_all
    with esc "2.prems" obtain w where w: "escape_value d = Some w" by (cases "escape_value d") simp_all
    with esc cs "2.prems" have "form_string ds (acc @ [w]) = Some (v, rest)" by simp
    with "2.IH"(2) [of d ds w] esc cs w show ?thesis by simp
  qed
qed simp

lemma skip_spaces_length: "length (skip_spaces t) \<le> length t"
  by (simp add: skip_spaces_def length_dropWhile_le)

function form_values :: "string \<Rightarrow> string list \<Rightarrow> string list option" where
  "form_values t values = (case t of [] \<Rightarrow> None | c # cs \<Rightarrow>
     if c \<noteq> CHR 0x22 then None
     else (case form_string cs [] of None \<Rightarrow> None | Some (v, rest) \<Rightarrow>
       (case skip_spaces rest of [] \<Rightarrow> None | d # ds \<Rightarrow>
         if d = CHR '']'' then (if skip_spaces ds = [] then Some (values @ [v]) else None)
         else if d \<noteq> CHR '','' then None
         else form_values (skip_spaces ds) (values @ [v]))))"
  by pat_completeness auto
termination form_values
proof (relation "measure (\<lambda>(t, values). length t)", goal_cases)
  case (2 t vs c cs x v rest d ds)
  then have "length rest < length cs" by (auto dest: form_string_shorter)
  moreover have "length (d # ds) \<le> length rest" using 2 skip_spaces_length by metis
  ultimately show ?case using 2 skip_spaces_length [of ds] by simp
qed simp

declare form_values.simps [simp del]

definition textFormValues :: "catalogue \<Rightarrow> string \<Rightarrow> Language \<Rightarrow> string list result" where
  "textFormValues table response language =
    (let invalid = Inl (userError (tr table language InvalidFormData [])) in
     case skip_spaces response of [] \<Rightarrow> invalid | c # cs \<Rightarrow>
       if c \<noteq> CHR ''['' then invalid
       else (case skip_spaces cs of
         d # ds \<Rightarrow> if d = CHR '']'' then (if skip_spaces ds = [] then Inr [] else invalid)
           else (case form_values (d # ds) [] of None \<Rightarrow> invalid | Some values \<Rightarrow> Inr values)
       | [] \<Rightarrow> invalid))"

section \<open>The JSON a form sends\<close>

definition json_char :: "char \<Rightarrow> string" where
  "json_char c = (if c = CHR 0x22 \<or> c = CHR 0x5C then [CHR 0x5C, c]
     else if c = CHR 0x08 then [CHR 0x5C, CHR ''b''] else if c = CHR 0x0C then [CHR 0x5C, CHR ''f'']
     else if c = CHR 0x0A then [CHR 0x5C, CHR ''n''] else if c = CHR 0x0D then [CHR 0x5C, CHR ''r'']
     else if c = CHR 0x09 then [CHR 0x5C, CHR ''t''] else [c])"

definition json_string :: "string \<Rightarrow> string" where
  "json_string v = CHR 0x22 # concat (map json_char v) @ [CHR 0x22]"

text \<open>The array, with the same white space around every token.\<close>

definition json_array :: "string \<Rightarrow> string list \<Rightarrow> string" where
  "json_array w vs =
    w @ ''['' @ w @ join_with (w @ '','' @ w) (map json_string vs) @ (if vs = [] then [] else w) @ '']'' @ w"

definition sendable :: "char \<Rightarrow> bool" where
  "sendable c \<longleftrightarrow> 32 \<le> char_code c \<or> c \<in> {CHR 0x08, CHR 0x09, CHR 0x0A, CHR 0x0C, CHR 0x0D}"

lemma form_char: "sendable c \<Longrightarrow> form_string (json_char c @ rest) acc = form_string rest (acc @ [c])"
  by (auto simp: json_char_def sendable_def escape_value_def)

lemma form_chars: "list_all sendable v \<Longrightarrow>
    form_string (concat (map json_char v) @ CHR 0x22 # rest) acc = Some (acc @ v, rest)"
  by (induction v arbitrary: acc) (simp_all add: form_char)

lemma skip_white: "list_all is_space w \<Longrightarrow> skip_spaces (w @ t) = skip_spaces t"
  by (induction w) (simp_all add: skip_spaces_def)

lemma token_codes [simp]:
  "\<not> is_space CHR 0x22" "\<not> is_space CHR ''[''" "\<not> is_space CHR '']''" "\<not> is_space CHR '',''"
  by (simp_all add: is_space_def char_code_def)

lemma skip_token [simp]: "\<not> is_space c \<Longrightarrow> skip_spaces (c # cs) = c # cs" "skip_spaces [] = []"
  by (simp_all add: skip_spaces_def)

lemma skip_white_all: "list_all is_space w \<Longrightarrow> skip_spaces w = []"
  using skip_white [of w "[]"] by simp

lemma form_values_json:
  assumes w: "list_all is_space w"
  shows "vs \<noteq> [] \<Longrightarrow> list_all (list_all sendable) vs \<Longrightarrow>
    form_values (join_with (w @ '','' @ w) (map json_string vs) @ w @ '']'' @ w) acc = Some (acc @ vs)"
proof (induction vs arbitrary: acc rule: induct_list012)
  case (2 v)
  then show ?case using w
    by (subst form_values.simps) (simp add: json_string_def form_chars skip_white skip_white_all)
next
  case (3 v v' vs)
  obtain t where t: "join_with (w @ '','' @ w) (map json_string (v' # vs)) = CHR 0x22 # t"
    by (cases vs) (simp_all add: json_string_def)
  have "form_values (CHR 0x22 # t @ w @ '']'' @ w) (acc @ [v]) = Some (acc @ v # v' # vs)"
    using 3 t by simp
  with 3(4) t w show ?case
    by (subst form_values.simps) (simp add: json_string_def form_chars skip_white)
qed simp

section \<open>The price grid\<close>

definition price_range :: "Cents \<Rightarrow> Cents \<Rightarrow> Cents \<Rightarrow> bool" where
  "price_range minimum maximum step \<longleftrightarrow> 0 < minimum \<and> minimum \<le> maximum \<and> 0 < step \<and> maximum \<le> int64_max \<and>
    100 dvd minimum \<and> 100 dvd maximum \<and> 100 dvd step"

definition on_grid :: "Cents \<Rightarrow> Cents \<Rightarrow> Cents \<Rightarrow> Cents \<Rightarrow> bool" where
  "on_grid minimum maximum step p \<longleftrightarrow> minimum \<le> p \<and> p \<le> maximum \<and> step dvd p - minimum"

lemma no_space: "(\<And>c. c \<in> set t \<Longrightarrow> \<not> is_space c) \<Longrightarrow> dropWhile is_space t = t"
  by (cases t) auto

lemma trim_dec: "trim (dec n) = dec n"
proof -
  have ns: "\<not> is_space c" if "c \<in> set (dec n)" for c
    using dec_chars [OF that] is_digit_not_space by (auto simp: is_space_def)
  then show ?thesis using no_space [of "dec n"] no_space [of "rev (dec n)"] by (simp add: trim_def)
qed

lemma parseWholeNumber_dec:
  assumes "lo \<le> n" "n \<le> hi" and "int64_min \<le> lo" "hi \<le> int64_max"
  shows "parseWholeNumber table (dec n) lo hi field l = Inr n"
  using assms from_chars_dec [of int64_min n int64_max True "[]"]
  by (simp add: parseWholeNumber_def trim_dec Let_def)

lemma price_rangeD:
  assumes "price_range minimum maximum step"
  shows "0 < minimum" "minimum \<le> maximum" "0 < step" "maximum \<le> int64_max" "minimum smod 100 = 0"
    "maximum smod 100 = 0" "step smod 100 = 0" "minimum sdiv 100 = minimum div 100" "maximum sdiv 100 = maximum div 100"
    "step sdiv 100 = step div 100" "100 * (minimum div 100) = minimum" "100 * (maximum div 100) = maximum"
  using assms
  by (auto simp: price_range_def smod_nonneg_eq_mod sdiv_nonneg_eq_div)

lemma parseTradePrice_grid:
  assumes r: "price_range minimum maximum step"
  shows "parseTradePrice table t minimum maximum step l = Inr p \<longleftrightarrow>
    (\<exists>units. parseWholeNumber table t (minimum div 100) (maximum div 100) UnitPriceField l = Inr units \<and>
      p = units * 100) \<and> on_grid minimum maximum step p"
proof -
  note R = price_rangeD [OF r]
  have bounds: "minimum \<le> units * 100 \<and> units * 100 \<le> maximum \<and> \<not> units > int64_max sdiv 100"
    if "parseWholeNumber table t (minimum div 100) (maximum div 100) UnitPriceField l = Inr units" for units
  proof -
    have u: "minimum div 100 \<le> units" "units \<le> maximum div 100"
      using that by (auto simp: parseWholeNumber_def Let_def split: sum.splits prod.splits if_splits)
    then have "minimum \<le> units * 100" "units * 100 \<le> maximum" using R(11,12) by linarith+
    moreover have "units \<le> int64_max div 100" using calculation(2) R(4) by linarith
    moreover have "int64_max sdiv 100 = int64_max div 100" by (simp add: sdiv_nonneg_eq_div int64_max_def)
    ultimately show ?thesis by simp
  qed
  have grid: "(units * 100 - minimum) smod step = 0 \<longleftrightarrow> step dvd units * 100 - minimum"
    if "minimum \<le> units * 100" for units
    using that R(3) by (simp add: smod_nonneg_eq_mod dvd_eq_mod_eq_0)
  show ?thesis
  proof (cases "parseWholeNumber table t (minimum div 100) (maximum div 100) UnitPriceField l")
    case (Inr units)
    with bounds [OF Inr] grid [of units] R show ?thesis
      by (auto simp: parseTradePrice_def on_grid_def)
  qed (use R in \<open>simp add: parseTradePrice_def\<close>)
qed

lemma nearest_step:
  fixes c lo K m st J hi p :: int
  assumes "c = lo + K + m" "0 \<le> m" "m < st" "J \<le> K \<or> K + st \<le> J" "lo + J \<le> hi"
    "p = (if st \<le> 2 * m \<and> lo + K \<le> hi - st then lo + K + st else lo + K)"
  shows "\<bar>p - c\<bar> \<le> \<bar>lo + J - c\<bar>"
  using assms by (auto split: if_splits)

lemma defaultTradePrice_nearest:
  assumes r: "price_range minimum maximum step"
  obtains p where "defaultTradePrice minimum maximum step reference = Inr p" "on_grid minimum maximum step p"
    "\<And>q. on_grid minimum maximum step q \<Longrightarrow>
      \<bar>p - max minimum (min reference maximum)\<bar> \<le> \<bar>q - max minimum (min reference maximum)\<bar>"
proof -
  note R = price_rangeD [OF r]
  define c where "c = max minimum (min reference maximum)"
  have c: "minimum \<le> c" "c \<le> maximum" using R(2) by (auto simp: c_def)
  define k where "k = (c - minimum) div step"
  define m where "m = (c - minimum) mod step"
  have km: "c = minimum + k * step + m" "0 \<le> m" "m < step" "0 \<le> k"
    using R(3) c by (simp_all add: k_def m_def pos_imp_zdiv_nonneg_iff)
  define k' where "k' = (if m \<ge> step div 2 + step mod 2 \<and> minimum + k * step \<le> maximum - step then k + 1 else k)"
  define p where "p = minimum + k' * step"
  have "defaultTradePrice minimum maximum step reference = Inr p"
    using R(1-3) c by (simp add: defaultTradePrice_def Let_def c_def [symmetric] sdiv_nonneg_eq_div smod_nonneg_eq_mod
        k_def [symmetric] m_def [symmetric] k'_def p_def)
  moreover have "on_grid minimum maximum step p"
    using km c R(3) by (auto simp: on_grid_def p_def k'_def algebra_simps)
  moreover have "\<bar>p - c\<bar> \<le> \<bar>q - c\<bar>" if "on_grid minimum maximum step q" for q
  proof -
    from that obtain j where q: "q = minimum + j * step" "q \<le> maximum"
      by (auto simp: on_grid_def dvd_def algebra_simps)
    have half: "m \<ge> step div 2 + step mod 2 \<longleftrightarrow> step \<le> 2 * m" by presburger
    have pk: "p = (if step \<le> 2 * m \<and> minimum + k * step \<le> maximum - step then minimum + k * step + step
        else minimum + k * step)"
      by (simp add: p_def k'_def half algebra_simps)
    have "j * step \<le> k * step \<or> k * step + step \<le> j * step"
    proof (cases "j \<le> k")
      case False
      then have "(k + 1) * step \<le> j * step" using R(3) by (intro mult_right_mono) simp_all
      then show ?thesis by (simp add: algebra_simps)
    qed (use R(3) in \<open>simp add: mult_right_mono\<close>)
    from nearest_step [OF km(1-3) this, of maximum p] pk q show ?thesis by simp
  qed
  ultimately show thesis using that unfolding c_def by blast
qed

section \<open>Properties\<close>

text \<open>
  A form's answer is understood: for every list of strings, however they are escaped in the JSON
  array and with any white space around its tokens, \<open>textFormValues\<close> returns exactly the strings.
\<close>

theorem textFormValues_json:
  assumes "list_all is_space w" and "list_all (list_all sendable) vs"
  shows "textFormValues table (json_array w vs) language = Inr vs"
proof (cases vs)
  case Nil
  with assms(1) show ?thesis by (simp add: textFormValues_def json_array_def skip_white skip_white_all)
next
  case (Cons v vs')
  obtain t where "join_with (w @ '','' @ w) (map json_string vs) = CHR 0x22 # t"
    unfolding Cons by (cases vs') (simp_all add: json_string_def)
  with form_values_json [OF assms(1) _ assms(2), of "[]"] Cons assms(1) show ?thesis
    by (simp add: textFormValues_def json_array_def skip_white Let_def)
qed

theorem textFormValues_json_witness:
  "textFormValues [] (json_array '' '' [''12'', [CHR 0x22, CHR 0x5C, CHR 0x0A], []]) English =
    Inr [''12'', [CHR 0x22, CHR 0x5C, CHR 0x0A], []]"
  by (rule textFormValues_json) code_simp+

text \<open>
  C30: The proposed price is one the form accepts: for a valid price range it lies on the grid of the
  range, no price of the grid is closer to the reference, and typing it in (in whole units) gives it
  back; the form accepts no price off the grid.
\<close>

theorem proposed_price_accepted:
  assumes "price_range minimum maximum step"
  shows "(\<exists>p. defaultTradePrice minimum maximum step reference = Inr p \<and> on_grid minimum maximum step p \<and>
      parseTradePrice table (dec (p div 100)) minimum maximum step language = Inr p \<and>
      (\<forall>q. on_grid minimum maximum step q \<longrightarrow>
        \<bar>p - max minimum (min reference maximum)\<bar> \<le> \<bar>q - max minimum (min reference maximum)\<bar>)) \<and>
    (parseTradePrice table t minimum maximum step language = Inr q' \<longrightarrow> on_grid minimum maximum step q')"
proof -
  note R = price_rangeD [OF assms]
  obtain p where p: "defaultTradePrice minimum maximum step reference = Inr p" "on_grid minimum maximum step p"
    "\<And>q. on_grid minimum maximum step q \<Longrightarrow>
      \<bar>p - max minimum (min reference maximum)\<bar> \<le> \<bar>q - max minimum (min reference maximum)\<bar>"
    using defaultTradePrice_nearest [OF assms] by blast
  have "100 dvd p - minimum + minimum"
    using p(2) assms by (intro dvd_add) (auto simp: on_grid_def price_range_def intro: dvd_trans)
  then have units: "p div 100 * 100 = p" by simp
  have "parseWholeNumber table (dec (p div 100)) (minimum div 100) (maximum div 100) UnitPriceField language = Inr (p div 100)"
  proof (rule parseWholeNumber_dec)
    show "minimum div 100 \<le> p div 100" "p div 100 \<le> maximum div 100"
      using p(2) by (auto simp: on_grid_def zdiv_mono1)
    show "int64_min \<le> minimum div 100" "maximum div 100 \<le> int64_max"
      using R(1,2,4) by (auto simp: int64_min_def)
  qed
  then have "parseTradePrice table (dec (p div 100)) minimum maximum step language = Inr p"
    using p(2) units by (subst parseTradePrice_grid [OF assms]) simp
  with p parseTradePrice_grid [OF assms] show ?thesis by blast
qed

theorem proposed_price_accepted_witness:
  "\<exists>p. defaultTradePrice 100 500000 300 1234 = Inr p \<and> parseTradePrice [] (dec (p div 100)) 100 500000 300 English = Inr p"
proof -
  have "price_range 100 500000 300" by (simp add: price_range_def int64_max_def)
  from conjunct1 [OF proposed_price_accepted [OF this, of 1234 "[]" English]] show ?thesis
    by (elim exE conjE) (intro exI conjI)
qed

end
