(* ===== verification/Config.thy ===== *)
theory Config
  imports Rows Trade_Form
begin

text \<open>
  The configuration file (src/config.cpp): a small TOML-like text of sections and \<open>key = value\<close> lines,
  the parsers of its values, the built-in defaults, and the validation that every loaded configuration
  passes. The content of the file is an input. Where the C++ would overflow a signed integer, which is
  undefined there, the model stops with an error of its own.
\<close>

section \<open>The configuration\<close>

record DatabaseConfig =
  db_host :: string
  db_port :: int
  db_user :: string
  db_password :: string
  db_name :: string
  db_connect_timeout_seconds :: int

record MarketConfig =
  mc_initial_balance_cents :: Cents
  mc_max_order_quantity :: int
  mc_price_min_cents :: Cents
  mc_price_max_cents :: Cents
  mc_price_step_cents :: Cents
  mc_order_book_depth :: int
  mc_hologram_refresh_ticks :: int
  mc_frame_capture_delay_ticks :: int
  mc_cleanup_structure_captures :: bool

record EconomyConfig =
  ec_provider :: string
  ec_umoney_plugin :: string
  ec_recovery_interval_ticks :: int

record Config =
  database_config :: DatabaseConfig
  market_config :: MarketConfig
  economy_config :: EconomyConfig

definition default_database :: DatabaseConfig where
  "default_database = \<lparr>db_host = ''127.0.0.1'', db_port = 3306, db_user = ''exchange'', db_password = [],
     db_name = ''endstone_exchange'', db_connect_timeout_seconds = 5\<rparr>"

definition default_market :: MarketConfig where
  "default_market = \<lparr>mc_initial_balance_cents = 1000000, mc_max_order_quantity = 640,
     mc_price_min_cents = 100, mc_price_max_cents = 500000, mc_price_step_cents = 100,
     mc_order_book_depth = 5, mc_hologram_refresh_ticks = 20, mc_frame_capture_delay_ticks = 80,
     mc_cleanup_structure_captures = True\<rparr>"

definition default_economy :: EconomyConfig where
  "default_economy = \<lparr>ec_provider = ''internal'', ec_umoney_plugin = ''umoney'', ec_recovery_interval_ticks = 100\<rparr>"

definition usesUmoney :: "EconomyConfig \<Rightarrow> bool" where
  "usesUmoney e \<longleftrightarrow> ec_provider e = ''umoney''"

section \<open>Values\<close>

fun unescape :: "bool \<Rightarrow> string \<Rightarrow> string result" where
  "unescape escaped [] =
    (if escaped then Inl (Runtime_Error ''unterminated escape in quoted configuration value'') else Inr [])"
| "unescape escaped (c # cs) =
    (if escaped then bindR (unescape False cs) (\<lambda>r. Inr ((if c = CHR ''n'' then CHR 0x0A
       else if c = CHR ''r'' then CHR 0x0D else if c = CHR ''t'' then CHR 0x09 else c) # r))
     else if c = CHR 0x5C then unescape True cs
     else bindR (unescape False cs) (\<lambda>r. Inr (c # r)))"

definition unquote :: "string \<Rightarrow> string result" where
  "unquote raw = (let v = trim raw in
     if 2 \<le> length v \<and> hd v = CHR 0x22 \<and> last v = CHR 0x22
     then unescape False (butlast (tl v)) else Inr v)"

text \<open>\<open>parseInteger<T>\<close>; the type \<open>T\<close> is given by its signedness and range.\<close>

definition parseInteger :: "bool \<Rightarrow> int \<Rightarrow> int \<Rightarrow> string \<Rightarrow> string \<Rightarrow> int result" where
  "parseInteger sg lo hi v key = (let invalid = Inl (Runtime_Error (''invalid integer for '' @ key)) in
     case from_chars sg lo hi (trim v) of Inl e \<Rightarrow> invalid
     | Inr (n, rest) \<Rightarrow> if rest \<noteq> [] then invalid else Inr n)"

definition parseBool :: "string \<Rightarrow> string \<Rightarrow> bool result" where
  "parseBool v key = (let t = map to_lower (trim v) in
     if t = ''true'' then Inr True else if t = ''false'' then Inr False
     else Inl (Runtime_Error (''invalid boolean for '' @ key)))"

definition signed_overflow :: error where
  "signed_overflow = Overflow_Error ''signed integer overflow''"

definition checked64 :: "int \<Rightarrow> int result" where
  "checked64 n = (if in_int64 n then Inr n else Inl signed_overflow)"

definition parseCents :: "string \<Rightarrow> string \<Rightarrow> Cents result" where
  "parseCents raw key = (case trim raw of
     [] \<Rightarrow> Inl (Runtime_Error (''empty money value for '' @ key))
   | c # cs \<Rightarrow>
     let negative = (c = CHR ''-''); v = (if c = CHR ''+'' \<or> c = CHR ''-'' then cs else c # cs);
       whole_text = takeWhile (\<lambda>x. x \<noteq> CHR ''.'') v; fraction = drop (length whole_text + 1) v in
     if whole_text = [] \<or> length fraction > 2 \<or> CHR ''.'' \<in> set fraction
     then Inl (Runtime_Error (''invalid money value for '' @ key))
     else
       bindR (parseInteger True int64_min int64_max whole_text key) (\<lambda>whole.
       bindR (parseInteger True int64_min int64_max (fraction @ replicate (2 - length fraction) CHR ''0'') key) (\<lambda>minor.
       bindR (checked64 (int64_max - minor)) (\<lambda>room.
       if whole > room sdiv 100 then Inl (Runtime_Error (''money value is too large for '' @ key))
       else bindR (checked64 (whole * 100)) (\<lambda>hundreds. bindR (checked64 (hundreds + minor)) (\<lambda>cents.
         if negative then checked64 (- cents) else Inr cents))))))"

section \<open>Lines\<close>

text \<open>The part of a line before the first \<open>#\<close> outside quotes.\<close>

fun strip_comment :: "bool \<Rightarrow> bool \<Rightarrow> string \<Rightarrow> string" where
  "strip_comment quoted escaped [] = []"
| "strip_comment quoted escaped (c # cs) =
    (if escaped then c # strip_comment quoted False cs
     else if c = CHR 0x5C \<and> quoted then c # strip_comment quoted True cs
     else if c = CHR 0x22 then c # strip_comment (\<not> quoted) False cs
     else if c = CHR ''#'' \<and> \<not> quoted then []
     else c # strip_comment quoted False cs)"

type_synonym settings = "string \<Rightarrow> string option"

definition parse_line :: "nat \<Rightarrow> string \<Rightarrow> string \<times> settings \<Rightarrow> (string \<times> settings) result" where
  "parse_line line_number raw st = (let (section_name, vs) = st; line = trim (strip_comment False False raw) in
     if line = [] then Inr (section_name, vs)
     else if hd line = CHR ''['' \<and> last line = CHR '']''
     then Inr (trim (butlast (tl line)), vs)
     else if CHR ''='' \<notin> set line
     then Inl (Runtime_Error (''invalid configuration line '' @ dec_nat line_number))
     else
       let key = trim (takeWhile (\<lambda>c. c \<noteq> CHR ''='') line); v = trim (tl (dropWhile (\<lambda>c. c \<noteq> CHR ''='') line)) in
       Inr (section_name, vs((if section_name = [] then [] else section_name @ ''.'') @ key \<mapsto> v)))"

fun parse_lines :: "nat \<Rightarrow> string list \<Rightarrow> string \<times> settings \<Rightarrow> settings result" where
  "parse_lines n [] st = Inr (snd st)"
| "parse_lines n (l # ls) st = bindR (parse_line (Suc n) l st) (parse_lines (Suc n) ls)"

text \<open>\<open>std::getline\<close> until the end of the file.\<close>

fun lines_of :: "string \<Rightarrow> string \<Rightarrow> string list" where
  "lines_of cur [] = (if cur = [] then [] else [rev cur])"
| "lines_of cur (c # cs) = (if c = CHR 0x0A then rev cur # lines_of [] cs else lines_of (c # cur) cs)"

section \<open>Loading\<close>

definition setting :: "settings \<Rightarrow> string \<Rightarrow> (string \<Rightarrow> string \<Rightarrow> 'a result) \<Rightarrow> 'a \<Rightarrow> 'a result" where
  "setting vs key parse fallback = (case vs key of None \<Rightarrow> Inr fallback | Some v \<Rightarrow> parse v key)"

abbreviation "string_of \<equiv> \<lambda>v (key :: string). unquote v"
abbreviation "uint_of \<equiv> parseInteger False 0 4294967295"
abbreviation "int_of \<equiv> parseInteger True int32_min int32_max"
abbreviation "uint64_of \<equiv> parseInteger False 0 18446744073709551615"

definition load_database :: "settings \<Rightarrow> DatabaseConfig result" where
  "load_database vs =
    bindR (setting vs ''database.host'' string_of (db_host default_database)) (\<lambda>host.
    bindR (setting vs ''database.port'' uint_of (db_port default_database)) (\<lambda>port.
    bindR (setting vs ''database.user'' string_of (db_user default_database)) (\<lambda>user.
    bindR (setting vs ''database.password'' string_of (db_password default_database)) (\<lambda>password.
    bindR (setting vs ''database.name'' string_of (db_name default_database)) (\<lambda>name.
    bindR (setting vs ''database.connect_timeout_seconds'' uint_of (db_connect_timeout_seconds default_database)) (\<lambda>timeout.
    Inr \<lparr>db_host = host, db_port = port, db_user = user, db_password = password, db_name = name,
      db_connect_timeout_seconds = timeout\<rparr>))))))"

definition load_market :: "settings \<Rightarrow> MarketConfig result" where
  "load_market vs =
    bindR (setting vs ''market.initial_balance'' parseCents (mc_initial_balance_cents default_market)) (\<lambda>initial.
    bindR (setting vs ''market.max_order_quantity'' int_of (mc_max_order_quantity default_market)) (\<lambda>quantity.
    bindR (setting vs ''market.price_min'' parseCents (mc_price_min_cents default_market)) (\<lambda>price_min.
    bindR (setting vs ''market.price_max'' parseCents (mc_price_max_cents default_market)) (\<lambda>price_max.
    bindR (setting vs ''market.price_step'' parseCents (mc_price_step_cents default_market)) (\<lambda>price_step.
    bindR (setting vs ''market.order_book_depth'' int_of (mc_order_book_depth default_market)) (\<lambda>depth.
    bindR (setting vs ''market.hologram_refresh_ticks'' uint64_of (mc_hologram_refresh_ticks default_market)) (\<lambda>refresh.
    bindR (setting vs ''market.frame_capture_delay_ticks'' uint64_of (mc_frame_capture_delay_ticks default_market)) (\<lambda>delay.
    bindR (setting vs ''market.cleanup_structure_captures'' parseBool (mc_cleanup_structure_captures default_market)) (\<lambda>cleanup.
    Inr \<lparr>mc_initial_balance_cents = initial, mc_max_order_quantity = quantity, mc_price_min_cents = price_min,
      mc_price_max_cents = price_max, mc_price_step_cents = price_step, mc_order_book_depth = depth,
      mc_hologram_refresh_ticks = refresh, mc_frame_capture_delay_ticks = delay,
      mc_cleanup_structure_captures = cleanup\<rparr>)))))))))"

definition load_economy :: "settings \<Rightarrow> EconomyConfig result" where
  "load_economy vs =
    bindR (setting vs ''economy.provider'' string_of (ec_provider default_economy)) (\<lambda>provider.
    bindR (setting vs ''economy.umoney_plugin'' string_of (ec_umoney_plugin default_economy)) (\<lambda>plugin.
    bindR (setting vs ''economy.recovery_interval_ticks'' uint64_of (ec_recovery_interval_ticks default_economy)) (\<lambda>interval.
    Inr \<lparr>ec_provider = map to_lower provider, ec_umoney_plugin = plugin, ec_recovery_interval_ticks = interval\<rparr>)))"

definition is_alnum :: "char \<Rightarrow> bool" where
  "is_alnum c \<longleftrightarrow> is_digit c \<or> 65 \<le> char_code c \<and> char_code c \<le> 90 \<or> 97 \<le> char_code c \<and> char_code c \<le> 122"

definition require :: "bool \<Rightarrow> string \<Rightarrow> unit result" where
  "require ok message = (if ok then Inr () else Inl (Runtime_Error message))"

definition validate_database :: "DatabaseConfig \<Rightarrow> unit result" where
  "validate_database d =
    bindR (require (\<not> (db_host d = [] \<or> db_user d = [] \<or> db_name d = []))
      ''database host, user, and name must not be empty'') (\<lambda>_.
    bindR (require (\<not> (db_port d = 0 \<or> db_port d > 65535 \<or> db_connect_timeout_seconds d = 0))
      ''database port or timeout is invalid'') (\<lambda>_.
    require (list_all (\<lambda>c. is_alnum c \<or> c = CHR ''_'') (db_name d))
      ''database name may contain only letters, digits, and underscores''))"

definition validate_market :: "MarketConfig \<Rightarrow> unit result" where
  "validate_market m =
    bindR (require (\<not> (mc_initial_balance_cents m < 0 \<or> mc_max_order_quantity m \<le> 0 \<or> mc_price_min_cents m \<le> 0 \<or>
        mc_price_max_cents m < mc_price_min_cents m \<or> mc_price_step_cents m \<le> 0 \<or>
        mc_order_book_depth m \<le> 0 \<or> mc_order_book_depth m > 50 \<or> mc_hologram_refresh_ticks m = 0 \<or>
        mc_frame_capture_delay_ticks m = 0))
      ''market limits are invalid'') (\<lambda>_.
    bindR (require (\<not> mc_price_max_cents m > int64_max sdiv mc_max_order_quantity m)
      ''maximum order value is too large'') (\<lambda>_.
    require (\<not> (mc_price_min_cents m smod 100 \<noteq> 0 \<or> mc_price_max_cents m smod 100 \<noteq> 0 \<or>
        mc_price_step_cents m smod 100 \<noteq> 0))
      ''prices must use whole u units''))"

definition validate_economy :: "MarketConfig \<Rightarrow> EconomyConfig \<Rightarrow> unit result" where
  "validate_economy m e =
    bindR (require (\<not> (ec_provider e \<noteq> ''internal'' \<and> ec_provider e \<noteq> ''umoney''))
      ''economy.provider must be internal or umoney'') (\<lambda>_.
    bindR (require (\<not> (ec_recovery_interval_ticks e = 0 \<or> ec_recovery_interval_ticks e > 72000))
      ''economy recovery interval is invalid'') (\<lambda>_.
    if usesUmoney e
    then bindR (require (\<not> (ec_umoney_plugin e = [] \<or> CHR 0x0D \<in> set (ec_umoney_plugin e) \<or> CHR 0x0A \<in> set (ec_umoney_plugin e)))
        ''economy.umoney_plugin must name a loaded plugin'') (\<lambda>_.
      require (mc_initial_balance_cents m = 0) ''UMoney mode requires market.initial_balance = 0'')
    else Inr ()))"

definition validate :: "Config \<Rightarrow> unit result" where
  "validate c =
    bindR (validate_database (database_config c)) (\<lambda>_.
    bindR (validate_market (market_config c)) (\<lambda>_.
    validate_economy (market_config c) (economy_config c)))"

definition load_config :: "string \<Rightarrow> string option \<Rightarrow> Config result" where
  "load_config path content = (case content of
     None \<Rightarrow> Inl (Runtime_Error (''configuration file does not exist: '' @ path))
   | Some t \<Rightarrow>
     bindR (parse_lines 0 (lines_of [] t) ([], \<lambda>_. None)) (\<lambda>vs.
     bindR (load_database vs) (\<lambda>d.
     bindR (load_market vs) (\<lambda>m.
     bindR (load_economy vs) (\<lambda>e.
     let config = \<lparr>database_config = d, market_config = m, economy_config = e\<rparr> in
     bindR (validate config) (\<lambda>_. Inr config))))))"

text \<open>The text \<open>writeTemplate\<close> writes.\<close>

definition template_lines :: "string list" where
  "template_lines =
    [''# Endstone Exchange configuration'',
     ''# Fill in the password locally. Do not commit this file.'',
     [],
     ''[database]'',
     ''host = '' @ [CHR 0x22] @ ''127.0.0.1'' @ [CHR 0x22],
     ''port = 3306'',
     ''user = '' @ [CHR 0x22] @ ''exchange'' @ [CHR 0x22],
     ''password = '' @ [CHR 0x22, CHR 0x22],
     ''name = '' @ [CHR 0x22] @ ''endstone_exchange'' @ [CHR 0x22],
     ''connect_timeout_seconds = 5'',
     [],
     ''[market]'',
     ''initial_balance = 10000.00'',
     ''max_order_quantity = 640'',
     ''price_min = 1'',
     ''price_max = 5000'',
     ''price_step = 1'',
     ''order_book_depth = 5'',
     ''hologram_refresh_ticks = 20'',
     ''frame_capture_delay_ticks = 80'',
     ''cleanup_structure_captures = true'',
     [],
     ''[economy]'',
     ''# UMoney mode calls the loaded UMoney plugin directly and requires initial_balance = 0.'',
     ''provider = '' @ [CHR 0x22] @ ''internal'' @ [CHR 0x22],
     ''umoney_plugin = '' @ [CHR 0x22] @ ''umoney'' @ [CHR 0x22],
     ''recovery_interval_ticks = 100'']"

definition config_template :: string where
  "config_template = concat (map (\<lambda>l. l @ [CHR 0x0A]) template_lines)"

lemma template_loads: "load_config path (Some config_template) =
    Inr \<lparr>database_config = default_database, market_config = default_market, economy_config = default_economy\<rparr>"
  by code_simp

section \<open>Ranges of the values\<close>

lemma require_Inr [simp]: "require ok message = Inr u \<longleftrightarrow> ok"
  by (simp add: require_def)

lemma from_chars_range: "from_chars sg lo hi t = Inr (n, rest) \<Longrightarrow> lo \<le> n \<and> n \<le> hi"
  by (auto simp: from_chars_def Let_def split: prod.splits if_splits)

lemma parseInteger_range: "parseInteger sg lo hi v key = Inr n \<Longrightarrow> lo \<le> n \<and> n \<le> hi"
  by (auto simp: parseInteger_def Let_def split: sum.splits prod.splits if_splits dest: from_chars_range)

lemma checked64_Inr: "checked64 n = Inr m \<longleftrightarrow> m = n \<and> in_int64 n"
  by (auto simp: checked64_def)

lemma parseCents_range: "parseCents raw key = Inr c \<Longrightarrow> in_int64 c"
  by (auto simp: parseCents_def Let_def bindR_Inr checked64_Inr split: list.splits if_splits)

lemma setting_cases:
  "setting vs key parse fallback = Inr x \<Longrightarrow> x = fallback \<or> (\<exists>v. parse v key = Inr x)"
  by (auto simp: setting_def split: option.splits)

lemma setting_range:
  assumes "setting vs key parse fallback = Inr x" and "Q fallback" and "\<And>v y. parse v key = Inr y \<Longrightarrow> Q y"
  shows "Q x"
  using setting_cases [OF assms(1)] assms(2,3) by blast

lemma load_market_settings:
  assumes "load_market vs = Inr m"
  shows "setting vs ''market.initial_balance'' parseCents (mc_initial_balance_cents default_market) =
      Inr (mc_initial_balance_cents m)"
    "setting vs ''market.price_max'' parseCents (mc_price_max_cents default_market) = Inr (mc_price_max_cents m)"
    "setting vs ''market.max_order_quantity'' int_of (mc_max_order_quantity default_market) = Inr (mc_max_order_quantity m)"
  using assms unfolding load_market_def
  by (elim bindR_InrE, clarify, simp only: MarketConfig.simps)+

lemma load_market_ranges:
  assumes "load_market vs = Inr m"
  shows "mc_initial_balance_cents m \<le> int64_max" "mc_price_max_cents m \<le> int64_max" "mc_max_order_quantity m \<le> int32_max"
proof -
  note S = load_market_settings [OF assms]
  show "mc_initial_balance_cents m \<le> int64_max"
    by (rule setting_range [OF S(1)]) (auto simp: default_market_def int64_max_def dest: parseCents_range [unfolded in_int64_def])
  show "mc_price_max_cents m \<le> int64_max"
    by (rule setting_range [OF S(2)]) (auto simp: default_market_def int64_max_def dest: parseCents_range [unfolded in_int64_def])
  show "mc_max_order_quantity m \<le> int32_max"
    by (rule setting_range [OF S(3)]) (auto simp: default_market_def int32_max_def dest: parseInteger_range)
qed

definition service_of :: "MarketConfig \<Rightarrow> service_config" where
  "service_of m = \<lparr>initial_balance_cents = mc_initial_balance_cents m, max_order_quantity = mc_max_order_quantity m\<rparr>"

lemma validate_market_safe:
  assumes v: "validate_market m = Inr u" and r: "mc_initial_balance_cents m \<le> int64_max"
    "mc_price_max_cents m \<le> int64_max" "mc_max_order_quantity m \<le> int32_max"
  shows "config_ok (service_of m)" "price_range (mc_price_min_cents m) (mc_price_max_cents m) (mc_price_step_cents m)"
    "0 \<le> p \<Longrightarrow> p \<le> mc_price_max_cents m \<Longrightarrow> 0 \<le> q \<Longrightarrow> q \<le> mc_max_order_quantity m \<Longrightarrow> p * q \<le> int64_max"
proof -
  have m: "0 \<le> mc_initial_balance_cents m" "0 < mc_max_order_quantity m" "0 < mc_price_min_cents m"
    "mc_price_min_cents m \<le> mc_price_max_cents m" "0 < mc_price_step_cents m"
    and cap: "mc_price_max_cents m \<le> int64_max sdiv mc_max_order_quantity m"
    and units: "mc_price_min_cents m smod 100 = 0" "mc_price_max_cents m smod 100 = 0" "mc_price_step_cents m smod 100 = 0"
    using v unfolding validate_market_def bindR_Inr by auto
  show "config_ok (service_of m)" using m r by (simp add: config_ok_def service_of_def)
  show "price_range (mc_price_min_cents m) (mc_price_max_cents m) (mc_price_step_cents m)"
    using m r units by (simp add: price_range_def smod_nonneg_eq_mod dvd_eq_mod_eq_0)
  have "int64_max sdiv mc_max_order_quantity m = int64_max div mc_max_order_quantity m"
    using m(2) by (simp add: sdiv_nonneg_eq_div int64_max_def)
  then have "mc_price_max_cents m * mc_max_order_quantity m \<le> int64_max"
    using cap m(2) le_div_iff_mult_le by simp
  moreover assume "0 \<le> p" "p \<le> mc_price_max_cents m" "0 \<le> q" "q \<le> mc_max_order_quantity m"
  then have "p * q \<le> mc_price_max_cents m * mc_max_order_quantity m" by (intro mult_mono) simp_all
  ultimately show "p * q \<le> int64_max" by simp
qed

section \<open>Properties\<close>

text \<open>
  C31: Whatever the file says, a configuration that loads is one the service is safe with: its opening
  balance and order limit are in range, the prices form a valid grid of whole units, no order within
  the limits has a total beyond 64 bits, the database name needs no quoting, and with UMoney no money
  is created for new players.
\<close>

theorem loaded_config_safe:
  assumes "load_config path content = Inr c"
  shows "config_ok (service_of (market_config c)) \<and>
    price_range (mc_price_min_cents (market_config c)) (mc_price_max_cents (market_config c))
      (mc_price_step_cents (market_config c)) \<and>
    (\<forall>p q. 0 \<le> p \<and> p \<le> mc_price_max_cents (market_config c) \<and> 0 \<le> q \<and> q \<le> mc_max_order_quantity (market_config c) \<longrightarrow>
      p * q \<le> int64_max) \<and>
    list_all (\<lambda>ch. is_alnum ch \<or> ch = CHR ''_'') (db_name (database_config c)) \<and>
    (usesUmoney (economy_config c) \<longrightarrow> mc_initial_balance_cents (market_config c) = 0)"
proof -
  from assms obtain vs where m: "load_market vs = Inr (market_config c)" and v: "validate c = Inr ()"
    by (auto simp: load_config_def bindR_Inr Let_def split: option.splits)
  from v have vm: "validate_market (market_config c) = Inr ()" and vd: "validate_database (database_config c) = Inr ()"
    and ve: "validate_economy (market_config c) (economy_config c) = Inr ()"
    by (auto simp: validate_def bindR_Inr)
  note S = validate_market_safe [OF vm load_market_ranges [OF m]]
  have "list_all (\<lambda>ch. is_alnum ch \<or> ch = CHR ''_'') (db_name (database_config c))"
    using vd by (simp add: validate_database_def bindR_Inr)
  moreover have "usesUmoney (economy_config c) \<longrightarrow> mc_initial_balance_cents (market_config c) = 0"
    using ve by (auto simp: validate_economy_def bindR_Inr split: if_splits)
  ultimately show ?thesis using S by blast
qed

theorem loaded_config_safe_witness:
  "load_config ''config.toml'' (Some config_template) =
     Inr \<lparr>database_config = default_database, market_config = default_market, economy_config = default_economy\<rparr> \<and>
   config_ok (service_of default_market) \<and> 500000 * 640 \<le> int64_max"
proof -
  note F = loaded_config_safe [OF template_loads [of "''config.toml''"]]
  have "config_ok (service_of default_market)" using F by simp
  moreover have "\<forall>p q. 0 \<le> p \<and> p \<le> mc_price_max_cents default_market \<and> 0 \<le> q \<and>
      q \<le> mc_max_order_quantity default_market \<longrightarrow> p * q \<le> int64_max" using F by simp
  from this [rule_format, of "mc_price_max_cents default_market" "mc_max_order_quantity default_market"]
  have "(500000 :: int) * 640 \<le> int64_max" by (simp add: default_market_def)
  ultimately show ?thesis using template_loads [of "''config.toml''"] by blast
qed

text \<open>Three amounts \<open>parseCents\<close> accepts or stumbles over although they are no numbers: two signs, a space
  and a sign among the decimals (the last one overflows the bound the code computes).\<close>

lemma parseCents_odd:
  "parseCents ''--5'' key = Inr 500" "parseCents ''1. 5'' key = Inr 105" "parseCents ''1.-5'' key = Inl signed_overflow"
  by code_simp+

end
