(* ===== verification/Hologram.thy ===== *)
theory Hologram
  imports Trade_Form Config
begin

text \<open>
  The floating label over a market: where it stands and what it says (src/market_display.cpp), and the
  packet that gives a client its name and size (src/hologram_packet.cpp).
\<close>

unbundle bit_operations_syntax

section \<open>Geometry\<close>

text \<open>The coordinates are \<open>float\<close>s, kept as bit patterns; \<open>near\<close> stands for the test
  \<open>std::fabs(left - right) <= tolerance\<close>.\<close>

record HologramAnchor =
  ha_dimension :: string
  ha_x :: "32 word"
  ha_y :: "32 word"
  ha_z :: "32 word"

record BlockOffset =
  bo_x :: int
  bo_y :: int
  bo_z :: int

definition checked32 :: "int \<Rightarrow> int result" where
  "checked32 n = (if in_int32 n then Inr n else Inl signed_overflow)"

text \<open>The two operations of \<open>(-block_coordinate) + 15\<close> are on \<open>int\<close> and may overflow.\<close>

definition blockToChunk :: "int \<Rightarrow> int result" where
  "blockToChunk block_coordinate =
    (if block_coordinate \<ge> 0 then Inr (block_coordinate sdiv 16)
     else bindR (checked32 (- block_coordinate)) (\<lambda>negated.
       bindR (checked32 (negated + 15)) (\<lambda>rounded. Inr (- (rounded sdiv 16)))))"

definition sameHologramAnchor :: "(32 word \<Rightarrow> 32 word \<Rightarrow> bool) \<Rightarrow> HologramAnchor \<Rightarrow> HologramAnchor \<Rightarrow> bool" where
  "sameHologramAnchor near left right \<longleftrightarrow> ha_dimension left = ha_dimension right \<and>
    near (ha_x left) (ha_x right) \<and> near (ha_y left) (ha_y right) \<and> near (ha_z left) (ha_z right)"

definition shouldRepositionHologram ::
  "(32 word \<Rightarrow> 32 word \<Rightarrow> bool) \<Rightarrow> TargetKind \<Rightarrow> HologramAnchor option \<Rightarrow> HologramAnchor \<Rightarrow> bool"
where
  "shouldRepositionHologram near target_kind previous_anchor current_anchor = (case previous_anchor of
     None \<Rightarrow> target_kind = Actor
   | Some previous \<Rightarrow> \<not> sameHologramAnchor near previous current_anchor)"

definition itemFrameSupportOffset :: "int \<Rightarrow> BlockOffset option" where
  "itemFrameSupportOffset facing_direction =
    (if facing_direction = 0 then Some \<lparr>bo_x = 0, bo_y = 1, bo_z = 0\<rparr>
     else if facing_direction = 1 then Some \<lparr>bo_x = 0, bo_y = -1, bo_z = 0\<rparr>
     else if facing_direction = 2 then Some \<lparr>bo_x = 0, bo_y = 0, bo_z = 1\<rparr>
     else if facing_direction = 3 then Some \<lparr>bo_x = 0, bo_y = 0, bo_z = -1\<rparr>
     else if facing_direction = 4 then Some \<lparr>bo_x = 1, bo_y = 0, bo_z = 0\<rparr>
     else if facing_direction = 5 then Some \<lparr>bo_x = -1, bo_y = 0, bo_z = 0\<rparr>
     else None)"

section \<open>Text\<close>

definition best_price :: "PriceLevel list \<Rightarrow> string" where
  "best_price levels = (case levels of [] \<Rightarrow> ''--'' | l # _ \<Rightarrow> formatUnitPrice (level_price l))"

definition best_quantity :: "PriceLevel list \<Rightarrow> int" where
  "best_quantity levels = (case levels of [] \<Rightarrow> 0 | l # _ \<Rightarrow> level_quantity l)"

definition marketHologramText :: "catalogue \<Rightarrow> Market \<Rightarrow> OrderBook \<Rightarrow> Language \<Rightarrow> string \<Rightarrow> string" where
  "marketHologramText table market book language localized_item_name =
    (let name = (if localized_item_name = [] then item_name (m_item market) else localized_item_name);
       row = (\<lambda>code message levels. colored code (messageText table language message @ '' '' @ best_price levels @
         '' x '' @ dec (best_quantity levels))) in
     colored CHR ''6'' name @ new_line @ row CHR ''a'' HologramWanted (bids book) @ new_line @
     row CHR ''c'' HologramForSale (asks book))"

section \<open>The packet\<close>

definition EntityDataScale :: "64 word" where "EntityDataScale = 38"
definition EntityDataName :: "64 word" where "EntityDataName = 4"
definition EntityDataWidth :: "64 word" where "EntityDataWidth = 53"
definition EntityDataHeight :: "64 word" where "EntityDataHeight = 54"
definition EntityDataAlwaysShowNameTag :: "64 word" where "EntityDataAlwaysShowNameTag = 81"
definition EntityDataTypeByte :: "64 word" where "EntityDataTypeByte = 0"
definition EntityDataTypeFloat :: "64 word" where "EntityDataTypeFloat = 3"
definition EntityDataTypeString :: "64 word" where "EntityDataTypeString = 4"

text \<open>The bit pattern of \<open>0.01F\<close>.\<close>

definition HologramScale :: "32 word" where "HologramScale = 0x3C23D70A"

lemma shifted: "unat (drop_bit 7 (v :: 64 word)) = unat v div 128"
proof -
  have "unat (drop_bit 7 v) = unat v div 2 ^ 7" by (rule trans [OF unat_drop_bit_eq drop_bit_eq_div])
  then show ?thesis by simp
qed

lemma shifted_smaller:
  assumes "drop_bit 7 (v :: 64 word) \<noteq> 0"
  shows "unat (drop_bit 7 v) < unat v"
proof -
  have "unat (drop_bit 7 v) \<noteq> 0" using assms by (simp only: unat_eq_0 not_False_eq_True)
  then show ?thesis unfolding shifted by simp
qed

function appendVarUint :: "64 word \<Rightarrow> byte list" where
  "appendVarUint v = (let b = ucast (and v 0x7f) :: byte; v' = drop_bit 7 v in
     if v' \<noteq> 0 then (or b 0x80) # appendVarUint v' else [b])"
  by pat_completeness auto
termination appendVarUint
  by (relation "measure unat") (auto intro: shifted_smaller)

declare appendVarUint.simps [simp del]

definition appendFloat :: "32 word \<Rightarrow> byte list" where
  "appendFloat bits = map (\<lambda>i. ucast (and (drop_bit (8 * i) bits) 0xff)) [0..<4]"

definition appendString :: "string \<Rightarrow> byte list" where
  "appendString v = appendVarUint (of_nat (length v)) @ map byte_of_char v"

definition appendFloatMetadata :: "64 word \<Rightarrow> 32 word \<Rightarrow> byte list" where
  "appendFloatMetadata key v = appendVarUint key @ appendVarUint EntityDataTypeFloat @ appendFloat v"

definition hologramAppearancePacket :: "64 word \<Rightarrow> string option \<Rightarrow> byte list" where
  "hologramAppearancePacket runtime_id name_tag =
    appendVarUint runtime_id @
    appendVarUint (if name_tag \<noteq> None then 5 else 4) @
    (case name_tag of None \<Rightarrow> []
     | Some name \<Rightarrow> appendVarUint EntityDataName @ appendVarUint EntityDataTypeString @ appendString name) @
    appendFloatMetadata EntityDataScale HologramScale @
    appendFloatMetadata EntityDataWidth 0 @
    appendFloatMetadata EntityDataHeight 0 @
    appendVarUint EntityDataAlwaysShowNameTag @ appendVarUint EntityDataTypeByte @ [1] @
    appendVarUint 0 @ appendVarUint 0 @ appendVarUint 0"

section \<open>What the geometry means\<close>

text \<open>A chunk is 16 blocks wide, also west and north of the origin. The arithmetic is defined except
  for the fifteen lowest coordinates.\<close>

lemma blockToChunk_floor:
  assumes "int32_min + 16 \<le> b" and "b \<le> int32_max"
  shows "blockToChunk b = Inr (b div 16)"
proof (cases "b \<ge> 0")
  case True
  then show ?thesis by (simp add: blockToChunk_def sdiv_nonneg_eq_div)
next
  case False
  have "b = 16 * (b div 16) + b mod 16" by simp
  then have "- b + 15 = 16 * (- (b div 16)) + (15 - b mod 16)" by linarith
  then have "(- b + 15) div 16 = - (b div 16)" by (rule int_div_pos_eq) (simp_all add: zle_diff1_eq [symmetric])
  then have "- ((- b + 15) div 16) = b div 16" by simp
  with False assms show ?thesis
    by (simp add: blockToChunk_def checked32_def in_int32_def int32_min_def int32_max_def sdiv_nonneg_eq_div)
qed

lemma blockToChunk_lowest: "blockToChunk int32_min = Inl signed_overflow"
  by (simp add: blockToChunk_def checked32_def in_int32_def int32_min_def int32_max_def)

text \<open>A label that stands where it was last put stays there.\<close>

lemma no_reposition:
  assumes "\<And>x. near x x"
  shows "\<not> shouldRepositionHologram near kind (Some anchor) anchor"
  using assms by (simp add: shouldRepositionHologram_def sameHologramAnchor_def)

section \<open>What a client reads\<close>

text \<open>A client reads a number by its groups of seven bits, the lowest first.\<close>

fun varint_value :: "byte list \<Rightarrow> (nat \<times> byte list) option" where
  "varint_value [] = None"
| "varint_value (b # bs) = (if unat b < 128 then Some (unat b, bs)
     else map_option (\<lambda>(n, rest). (unat b - 128 + 128 * n, rest)) (varint_value bs))"

lemma low_group: "unat (ucast (and v 0x7f :: 64 word) :: byte) = unat v mod 128"
proof -
  have "and v 0x7f = take_bit 7 v" by (simp add: take_bit_eq_mask mask_eq_exp_minus_1)
  moreover have "unat (take_bit 7 v) = unat v mod 128"
    by (rule trans [OF unsigned_take_bit_eq]) (simp_all add: take_bit_eq_mod)
  ultimately have low: "unat (and v 0x7f) = unat v mod 128" by simp
  have "unat (ucast (and v 0x7f) :: byte) = take_bit 8 (unat (and v 0x7f))"
    by (rule trans [OF unsigned_ucast_eq]) simp
  then show ?thesis unfolding low by (simp add: take_bit_eq_mod mod_mod_cancel)
qed

lemma marked_group:
  assumes "unat (b :: byte) < 128"
  shows "unat (or b 0x80) = unat b + 128"
proof -
  have "and b 0x80 = 0"
  proof (rule bit_word_eqI)
    fix n assume n: "n < LENGTH(8)"
    have "bit (0x80 :: byte) n \<longleftrightarrow> n = 7"
    proof -
      have "(0x80 :: byte) = push_bit 7 1" by simp
      then show ?thesis using n by (simp only: bit_push_bit_iff) (auto simp: bit_1_iff)
    qed
    moreover have "\<not> bit b 7"
    proof -
      have "take_bit 7 b = b" using assms
        by (intro iffD2 [OF word_unat_eq_iff]) (simp add: unsigned_take_bit_eq take_bit_nat_eq_self)
      then show ?thesis by (metis bit_take_bit_iff less_irrefl)
    qed
    ultimately show "bit (and b 0x80) n \<longleftrightarrow> bit (0 :: byte) n" by (auto simp: bit_and_iff)
  qed
  then have "or b 0x80 = b + 0x80" by (simp add: disjunctive_add_eq_or)
  then show ?thesis using assms by (simp add: unat_word_ariths)
qed

lemma varint_read: "varint_value (appendVarUint v @ rest) = Some (unat v, rest)"
proof (induction v rule: appendVarUint.induct)
  case (1 v)
  define b where "b = (ucast (and v 0x7f) :: byte)"
  have b: "unat b = unat v mod 128" by (simp only: b_def low_group)
  show ?case
  proof (cases "drop_bit 7 v = 0")
    case True
    then have "unat v div 128 = 0" unfolding shifted [symmetric] by (simp only: unsigned_0)
    then have "unat b < 128" "unat b = unat v" using b by (simp_all add: div_eq_0_iff)
    with True show ?thesis by (subst appendVarUint.simps) (simp add: b_def [symmetric])
  next
    case False
    have less: "unat b < 128" using b by simp
    from False 1 [OF refl refl] show ?thesis
      by (subst appendVarUint.simps) (simp add: b_def [symmetric] marked_group [OF less] b shifted)
  qed
qed

lemma string_read:
  assumes "length name < 2 ^ 64"
  obtains rest' where "varint_value (appendString name @ rest) = Some (length name, rest')"
    "map char_of_byte (take (length name) rest') = name" "drop (length name) rest' = rest"
  using assms by (simp add: appendString_def varint_read unat_of_nat comp_def)

text \<open>Two packets are equal only if they name the same entity and give it the same name.\<close>

lemma packet_injective:
  assumes "hologramAppearancePacket i (Some n) = hologramAppearancePacket j (Some m)"
    and "length n < 2 ^ 64" "length m < 2 ^ 64"
  shows "i = j \<and> n = m"
proof -
  have "varint_value (hologramAppearancePacket i (Some n)) = varint_value (hologramAppearancePacket j (Some m))"
    using assms(1) by simp
  then have ij: "unat i = unat j" by (simp add: hologramAppearancePacket_def varint_read)
  then have "i = j" by (simp add: word_unat_eq_iff)
  with assms(1) obtain r where "appendString n @ r = appendString m @ r"
    by (auto simp: hologramAppearancePacket_def)
  then have "appendString n = appendString m" by simp
  then have "varint_value (appendString n) = varint_value (appendString m)" by simp
  then have "map byte_of_char n = map byte_of_char m"
    by (simp add: appendString_def varint_read)
  moreover have "inj byte_of_char" by (rule inj_on_inverseI [of _ char_of_byte]) simp
  ultimately have "n = m" by (simp add: inj_map_eq_map)
  with \<open>i = j\<close> show ?thesis by simp
qed

end
