(* ===== verification/Interaction_Gate.thy ===== *)
theory Interaction_Gate
  imports Exchange_Prelude "HOL-Library.AList"
begin

text \<open>
  The gate that drops a player's second interaction within the cooldown (src/interaction_gate.cpp). The
  clock is \<open>std::chrono::steady_clock\<close>, here a number; the hash map is an association list with
  distinct keys.
\<close>

section \<open>The gate\<close>

record gate =
  cooldown :: int
  accepted_at :: "(string \<times> int) list"

definition InteractionGate :: "int \<Rightarrow> gate result" where
  "InteractionGate c = (if c \<le> 0 then Inl (Invalid_Argument ''interaction cooldown must be positive'')
     else Inr \<lparr>cooldown = c, accepted_at = []\<rparr>)"

definition accept :: "string \<Rightarrow> int \<Rightarrow> gate \<Rightarrow> bool \<times> gate" where
  "accept player_uuid now g =
    (if player_uuid = [] then (False, g)
     else if (case map_of (accepted_at g) player_uuid of None \<Rightarrow> False | Some previous \<Rightarrow> now - previous < cooldown g)
     then (False, g)
     else (True, g\<lparr>accepted_at := AList.update player_uuid now (accepted_at g)\<rparr>))"

definition clear_gate :: "gate \<Rightarrow> gate" where
  "clear_gate g = g\<lparr>accepted_at := []\<rparr>"

section \<open>At most one interaction in any cooldown\<close>

text \<open>The interactions let through in a run of arrivals, each a player and a time.\<close>

fun accepted :: "(string \<times> int) list \<Rightarrow> gate \<Rightarrow> (string \<times> int) list" where
  "accepted [] g = []"
| "accepted ((u, now) # arrivals) g = (case accept u now g of (ok, g') \<Rightarrow>
     (if ok then [(u, now)] else []) @ accepted arrivals g')"

lemma accept_keeps: "cooldown (snd (accept u now g)) = cooldown g"
  by (simp add: accept_def split: option.splits)

lemma accept_last:
  "map_of (accepted_at (snd (accept u now g))) w =
    (if w = u \<and> fst (accept u now g) then Some now else map_of (accepted_at g) w)"
  by (auto simp: accept_def update_conv split: option.splits)

lemma accept_waits:
  "fst (accept u now g) \<Longrightarrow> map_of (accepted_at g) u = Some previous \<Longrightarrow> previous + cooldown g \<le> now"
  by (auto simp: accept_def split: if_splits)

lemma accepted_after:
  assumes "(u, t) \<in> set (accepted arrivals g)" and "map_of (accepted_at g) u = Some previous" and "0 < cooldown g"
  shows "previous + cooldown g \<le> t"
  using assms
proof (induction arrivals g arbitrary: previous rule: accepted.induct)
  case (2 w now arrivals g)
  obtain ok g' where a: "accept w now g = (ok, g')" by (cases "accept w now g")
  have c: "cooldown g' = cooldown g" using accept_keeps [of w now g] a by simp
  show ?case
  proof (cases "ok \<and> (u, t) = (w, now)")
    case True
    then show ?thesis using accept_waits [of w now g previous] a "2.prems"(2) by simp
  next
    case False
    then have rest: "(u, t) \<in> set (accepted arrivals g')" using "2.prems"(1) a by (auto split: if_splits)
    show ?thesis
    proof (cases "u = w \<and> ok")
      case True
      then have "map_of (accepted_at g') u = Some now" using accept_last [of w now g u] a by simp
      then have "now + cooldown g' \<le> t" using "2.IH" [OF a [symmetric] rest] "2.prems"(3) c by simp
      moreover have "previous + cooldown g \<le> now"
        using True accept_waits [of w now g previous] a "2.prems"(2) by simp
      ultimately show ?thesis using "2.prems"(3) c by simp
    next
      case False
      then have "map_of (accepted_at g') u = Some previous"
        using accept_last [of w now g u] a "2.prems"(2) by auto
      then show ?thesis using "2.IH" [OF a [symmetric] rest] "2.prems"(3) c by simp
    qed
  qed
qed simp

text \<open>Two interactions of one player that were let through are at least a cooldown apart.\<close>

lemma accepted_apart:
  assumes "accepted arrivals g = xs @ (u, s) # ys" and "(u, t) \<in> set ys" and "0 < cooldown g"
  shows "s + cooldown g \<le> t"
  using assms
proof (induction arrivals g arbitrary: xs rule: accepted.induct)
  case (2 w now arrivals g)
  obtain ok g' where a: "accept w now g = (ok, g')" by (cases "accept w now g")
  have c: "cooldown g' = cooldown g" using accept_keeps [of w now g] a by simp
  show ?case
  proof (cases ok)
    case False
    then show ?thesis using "2.IH" [OF a [symmetric]] "2.prems" a c by simp
  next
    case True
    show ?thesis
    proof (cases xs)
      case Nil
      then have w: "w = u" "now = s" "ys = accepted arrivals g'" using "2.prems"(1) a True by simp_all
      then have "map_of (accepted_at g') u = Some s" using accept_last [of w now g u] a True by simp
      then show ?thesis using accepted_after [of u t arrivals g' s] w "2.prems"(2,3) c by simp
    next
      case (Cons x xs')
      then show ?thesis using "2.IH" [OF a [symmetric], of xs'] "2.prems" a True c by simp
    qed
  qed
qed simp

end
