(* ===== verification/Item_Identity.thy ===== *)
theory Item_Identity
  imports Nbt_Codec Localization "HOL-Library.Product_Lexorder"
begin

text \<open>
  When two items are the same (src/item_identity.cpp): \<open>matchesItemIdentity\<close>, by which inventories are
  searched, and \<open>describeItemRequirements\<close>, which tells the player what an item must be like. The NBT
  classes of the host, with their equality and the rendering of floating-point numbers, are parameters.
\<close>

section \<open>The host\<close>

record host =
  h_code :: type_code
  h_assign :: assign
  h_key_first :: bool
  h_equal :: "compound \<Rightarrow> compound \<Rightarrow> bool"
  h_format_float :: "32 word \<Rightarrow> string"
  h_format_double :: "64 word \<Rightarrow> string"

definition erase_key :: "string \<Rightarrow> compound \<Rightarrow> compound" where
  "erase_key k c = filter (\<lambda>e. fst e \<noteq> k) c"

definition decoded_nbt :: "host \<Rightarrow> ItemPrototype \<Rightarrow> compound result" where
  "decoded_nbt h prototype = (if item_nbt prototype = [] then Inr []
     else decode (h_code h) (h_assign h) (h_key_first h) (item_nbt prototype))"

definition matchesItemIdentity :: "host \<Rightarrow> ItemPrototype \<Rightarrow> string \<Rightarrow> int \<Rightarrow> compound \<Rightarrow> bool result" where
  "matchesItemIdentity h prototype type_name data nbt =
    bindR (decoded_nbt h prototype) (\<lambda>expected.
    Inr (type_name = item_type prototype \<and> data = item_data prototype \<and> h_equal h nbt expected))"

section \<open>Texts\<close>

definition MaxTextLength :: nat where "MaxTextLength = 120"
definition MaxListItems :: nat where "MaxListItems = 8"
definition MaxExtraLines :: nat where "MaxExtraLines = 6"

definition listSeparator :: "Language \<Rightarrow> string" where
  "listSeparator language = (if language = English then '', '' else utf8 [0x3001])"

definition descriptionSeparator :: "Language \<Rightarrow> string" where
  "descriptionSeparator language = (if language = English then ''; ''
     else if language = Japanese then utf8 [0x3001] else utf8 [0xFF1B])"

definition continuation_byte :: "char \<Rightarrow> bool" where
  "continuation_byte c \<longleftrightarrow> 128 \<le> char_code c \<and> char_code c < 192"

text \<open>The loop over \<open>byte_limit\<close>: back to the start of a UTF-8 character.\<close>

primrec cut_back :: "string \<Rightarrow> nat \<Rightarrow> nat" where
  "cut_back v 0 = 0"
| "cut_back v (Suc n) = (if Suc n < length v \<and> continuation_byte (v ! Suc n) then cut_back v n else Suc n)"

definition sanitizeText :: "catalogue \<Rightarrow> string \<Rightarrow> Language \<Rightarrow> string" where
  "sanitizeText table v language =
    (let byte_limit = cut_back v (min (length v) MaxTextLength);
       shown = map (\<lambda>c. if c = CHR 0x0D \<or> c = CHR 0x0A \<or> c = CHR 0x09 then CHR '' '' else c) (take byte_limit v) @
         (if byte_limit < length v then utf8 [0x2026] else []) in
     if shown = [] then messageText table language ItemEmptyText else shown)"

fun integerValue :: "tag \<Rightarrow> int option" where
  "integerValue (ByteTag v) = Some (uint v)"
| "integerValue (ShortTag v) = Some (sint v)"
| "integerValue (IntTag v) = Some (sint v)"
| "integerValue (LongTag v) = Some (sint v)"
| "integerValue _ = None"

definition enchantment_names :: "string list list" where
  "enchantment_names = [
    [utf8 [0x4FDD, 0x62A4], ''Protection'', utf8 [0x4FDD, 0x8B77], utf8 [0x30C0, 0x30E1, 0x30FC, 0x30B8, 0x8EFD, 0x6E1B]],
    [utf8 [0x706B, 0x7130, 0x4FDD, 0x62A4], ''Fire Protection'', utf8 [0x706B, 0x7130, 0x4FDD, 0x8B77], utf8 [0x706B, 0x708E, 0x8010, 0x6027]],
    [utf8 [0x6454, 0x843D, 0x7F13, 0x51B2], ''Feather Falling'', utf8 [0x6454, 0x843D, 0x7DE9, 0x885D], utf8 [0x843D, 0x4E0B, 0x8010, 0x6027]],
    [utf8 [0x7206, 0x70B8, 0x4FDD, 0x62A4], ''Blast Protection'', utf8 [0x7206, 0x70B8, 0x4FDD, 0x8B77], utf8 [0x7206, 0x767A, 0x8010, 0x6027]],
    [utf8 [0x5F39, 0x5C04, 0x7269, 0x4FDD, 0x62A4], ''Projectile Protection'', utf8 [0x5F48, 0x5C04, 0x7269, 0x4FDD, 0x8B77], utf8 [0x98DB, 0x3073, 0x9053, 0x5177, 0x8010, 0x6027]],
    [utf8 [0x8346, 0x68D8], ''Thorns'', utf8 [0x834A, 0x68D8], utf8 [0x68D8, 0x306E, 0x93A7]],
    [utf8 [0x6C34, 0x4E0B, 0x547C, 0x5438], ''Respiration'', utf8 [0x6C34, 0x4E0B, 0x547C, 0x5438], utf8 [0x6C34, 0x4E2D, 0x547C, 0x5438]],
    [utf8 [0x6DF1, 0x6D77, 0x63A2, 0x7D22, 0x8005], ''Depth Strider'', utf8 [0x6DF1, 0x6D77, 0x6F2B, 0x904A, 0x8005], utf8 [0x6C34, 0x4E2D, 0x6B69, 0x884C]],
    [utf8 [0x6C34, 0x4E0B, 0x901F, 0x6398], ''Aqua Affinity'', utf8 [0x6C34, 0x4E0B, 0x901F, 0x6398], utf8 [0x6C34, 0x4E2D, 0x63A1, 0x6398]],
    [utf8 [0x950B, 0x5229], ''Sharpness'', utf8 [0x92D2, 0x5229], utf8 [0x30C0, 0x30E1, 0x30FC, 0x30B8, 0x5897, 0x52A0]],
    [utf8 [0x4EA1, 0x7075, 0x6740, 0x624B], ''Smite'', utf8 [0x4E0D, 0x6B7B, 0x524B, 0x661F], utf8 [0x30A2, 0x30F3, 0x30C7, 0x30C3, 0x30C9, 0x7279, 0x52B9]],
    [utf8 [0x8282, 0x80A2, 0x6740, 0x624B], ''Bane of Arthropods'', utf8 [0x7BC0, 0x80A2, 0x524B, 0x661F], utf8 [0x866B, 0x7279, 0x52B9]],
    [utf8 [0x51FB, 0x9000], ''Knockback'', utf8 [0x64CA, 0x9000], utf8 [0x30CE, 0x30C3, 0x30AF, 0x30D0, 0x30C3, 0x30AF]],
    [utf8 [0x706B, 0x7130, 0x9644, 0x52A0], ''Fire Aspect'', utf8 [0x71C3, 0x71D2], utf8 [0x706B, 0x5C5E, 0x6027]],
    [utf8 [0x62A2, 0x593A], ''Looting'', utf8 [0x63A0, 0x596A], utf8 [0x30C9, 0x30ED, 0x30C3, 0x30D7, 0x5897, 0x52A0]],
    [utf8 [0x6548, 0x7387], ''Efficiency'', utf8 [0x6548, 0x7387], utf8 [0x52B9, 0x7387, 0x5F37, 0x5316]],
    [utf8 [0x7CBE, 0x51C6, 0x91C7, 0x96C6], ''Silk Touch'', utf8 [0x7D72, 0x7DA2, 0x4E4B, 0x89F8], utf8 [0x30B7, 0x30EB, 0x30AF, 0x30BF, 0x30C3, 0x30C1]],
    [utf8 [0x8010, 0x4E45], ''Unbreaking'', utf8 [0x8010, 0x4E45], utf8 [0x8010, 0x4E45, 0x529B]],
    [utf8 [0x65F6, 0x8FD0], ''Fortune'', utf8 [0x5E78, 0x904B], utf8 [0x5E78, 0x904B]],
    [utf8 [0x529B, 0x91CF], ''Power'', utf8 [0x5F37, 0x529B], utf8 [0x5C04, 0x6483, 0x30C0, 0x30E1, 0x30FC, 0x30B8, 0x5897, 0x52A0]],
    [utf8 [0x51B2, 0x51FB], ''Punch'', utf8 [0x885D, 0x64CA], utf8 [0x30D1, 0x30F3, 0x30C1]],
    [utf8 [0x706B, 0x77E2], ''Flame'', utf8 [0x706B, 0x7130], utf8 [0x30D5, 0x30EC, 0x30A4, 0x30E0]],
    [utf8 [0x65E0, 0x9650], ''Infinity'', utf8 [0x7121, 0x9650], utf8 [0x7121, 0x9650]],
    [utf8 [0x6D77, 0x4E4B, 0x7737, 0x987E], ''Luck of the Sea'', utf8 [0x6D77, 0x6D0B, 0x7684, 0x795D, 0x798F], utf8 [0x5B9D, 0x91E3, 0x308A]],
    [utf8 [0x9975, 0x9493], ''Lure'', utf8 [0x9B5A, 0x990C], utf8 [0x5165, 0x308C, 0x98DF, 0x3044]],
    [utf8 [0x51B0, 0x971C, 0x884C, 0x8005], ''Frost Walker'', utf8 [0x51B0, 0x971C, 0x884C, 0x8005], utf8 [0x6C37, 0x6E21, 0x308A]],
    [utf8 [0x7ECF, 0x9A8C, 0x4FEE, 0x8865], ''Mending'', utf8 [0x4FEE, 0x88DC], utf8 [0x4FEE, 0x7E55]],
    [utf8 [0x7ED1, 0x5B9A, 0x8BC5, 0x5492], ''Curse of Binding'', utf8 [0x7D81, 0x5B9A, 0x8A5B, 0x5492], utf8 [0x675F, 0x7E1B, 0x306E, 0x546A, 0x3044]],
    [utf8 [0x6D88, 0x5931, 0x8BC5, 0x5492], ''Curse of Vanishing'', utf8 [0x6D88, 0x5931, 0x8A5B, 0x5492], utf8 [0x6D88, 0x6EC5, 0x306E, 0x546A, 0x3044]],
    [utf8 [0x7A7F, 0x523A], ''Impaling'', utf8 [0x9B5A, 0x53C9], utf8 [0x6C34, 0x751F, 0x7279, 0x52B9]],
    [utf8 [0x6FC0, 0x6D41], ''Riptide'', utf8 [0x559A, 0x6F6E], utf8 [0x6FC0, 0x6D41]],
    [utf8 [0x5FE0, 0x8BDA], ''Loyalty'', utf8 [0x5FE0, 0x8AA0], utf8 [0x5FE0, 0x8AA0]],
    [utf8 [0x5F15, 0x96F7], ''Channeling'', utf8 [0x559A, 0x96F7], utf8 [0x53EC, 0x96F7]],
    [utf8 [0x591A, 0x91CD, 0x7BAD], ''Multishot'', utf8 [0x591A, 0x91CD, 0x5C04, 0x64CA], utf8 [0x62E1, 0x6563]],
    [utf8 [0x7A7F, 0x900F], ''Piercing'', utf8 [0x8CAB, 0x7A7F], utf8 [0x8CAB, 0x901A]],
    [utf8 [0x5FEB, 0x901F, 0x88C5, 0x586B], ''Quick Charge'', utf8 [0x5FEB, 0x901F, 0x88DD, 0x586B], utf8 [0x9AD8, 0x901F, 0x88C5, 0x586B]],
    [utf8 [0x7075, 0x9B42, 0x75BE, 0x884C], ''Soul Speed'', utf8 [0x9748, 0x9B42, 0x75BE, 0x8D70], utf8 [0x30BD, 0x30A6, 0x30EB, 0x30B9, 0x30D4, 0x30FC, 0x30C9]],
    [utf8 [0x8FC5, 0x6377, 0x6F5C, 0x884C], ''Swift Sneak'', utf8 [0x8FC5, 0x6377, 0x6F5B, 0x884C], utf8 [0x30B9, 0x30CB, 0x30FC, 0x30AF, 0x901F, 0x5EA6, 0x4E0A, 0x6607]],
    [utf8 [0x98CE, 0x7206], ''Wind Burst'', utf8 [0x98A8, 0x7206], utf8 [0x30A6, 0x30A3, 0x30F3, 0x30C9, 0x30D0, 0x30FC, 0x30B9, 0x30C8]],
    [utf8 [0x81F4, 0x5BC6], ''Density'', utf8 [0x7DFB, 0x5BC6], utf8 [0x91CD, 0x6483]],
    [utf8 [0x7834, 0x7532], ''Breach'', utf8 [0x7834, 0x7532], utf8 [0x9632, 0x5177, 0x8CAB, 0x901A]],
    [utf8 [0x7A81, 0x8FDB], ''Lunge'', utf8 [0x7A81, 0x9032], utf8 [0x7A81, 0x9032]]]"

definition enchantmentName :: "catalogue \<Rightarrow> int \<Rightarrow> Language \<Rightarrow> string result" where
  "enchantmentName table i language = (if 0 \<le> i \<and> i < int (length enchantment_names)
     then Inr (enchantment_names ! nat i ! languageIndex language)
     else tr table language UnknownEnchantment [dec i])"

definition nbt_names :: "(string \<times> string list) list" where
  "nbt_names = [
    (''CanPlaceOn'', [utf8 [0x53EF, 0x653E, 0x7F6E, 0x5728], ''Can be placed on'', utf8 [0x53EF, 0x653E, 0x7F6E, 0x5728], utf8 [0x8A2D, 0x7F6E, 0x53EF, 0x80FD, 0x306A, 0x30D6, 0x30ED, 0x30C3, 0x30AF]]),
    (''CanDestroy'', [utf8 [0x53EF, 0x7834, 0x574F, 0x65B9, 0x5757], ''Can break blocks'', utf8 [0x53EF, 0x7834, 0x58DE, 0x65B9, 0x584A], utf8 [0x7834, 0x58CA, 0x53EF, 0x80FD, 0x306A, 0x30D6, 0x30ED, 0x30C3, 0x30AF]]),
    (''chargedItem'', [utf8 [0x5F29, 0x4E2D, 0x88C5, 0x586B, 0x7269, 0x54C1], ''Loaded crossbow item'', utf8 [0x5F29, 0x4E2D, 0x88DD, 0x586B, 0x7269, 0x54C1], utf8 [0x30AF, 0x30ED, 0x30B9, 0x30DC, 0x30A6, 0x88C5, 0x586B, 0x7269]]),
    (''BlockEntityTag'', [utf8 [0x65B9, 0x5757, 0x5185, 0x5BB9], ''Block contents'', utf8 [0x65B9, 0x584A, 0x5167, 0x5BB9], utf8 [0x30D6, 0x30ED, 0x30C3, 0x30AF, 0x5185, 0x5BB9]]),
    (''EntityTag'', [utf8 [0x5B9E, 0x4F53, 0x5185, 0x5BB9], ''Entity contents'', utf8 [0x5BE6, 0x9AD4, 0x5167, 0x5BB9], utf8 [0x30A8, 0x30F3, 0x30C6, 0x30A3, 0x30C6, 0x30A3, 0x5185, 0x5BB9]]),
    (''Trim'', [utf8 [0x76D4, 0x7532, 0x7EB9, 0x9970], ''Armor trim'', utf8 [0x76D4, 0x7532, 0x7D0B, 0x98FE], utf8 [0x9632, 0x5177, 0x88C5, 0x98FE]]),
    (''Patterns'', [utf8 [0x65D7, 0x5E1C, 0x56FE, 0x6848], ''Banner patterns'', utf8 [0x65D7, 0x5E5F, 0x5716, 0x6848], utf8 [0x65D7, 0x306E, 0x6A21, 0x69D8]]),
    (''Items'', [utf8 [0x5185, 0x542B, 0x7269, 0x54C1], ''Contained items'', utf8 [0x5167, 0x542B, 0x7269, 0x54C1], utf8 [0x5185, 0x5305, 0x30A2, 0x30A4, 0x30C6, 0x30E0]]),
    (''pages'', [utf8 [0x4E66, 0x9875], ''Book pages'', utf8 [0x66F8, 0x9801], utf8 [0x672C, 0x306E, 0x30DA, 0x30FC, 0x30B8]]),
    (''author'', [utf8 [0x4F5C, 0x8005], ''Author'', utf8 [0x4F5C, 0x8005], utf8 [0x8457, 0x8005]]),
    (''title'', [utf8 [0x6807, 0x9898], ''Title'', utf8 [0x6A19, 0x984C], utf8 [0x30BF, 0x30A4, 0x30C8, 0x30EB]]),
    (''resolved'', [utf8 [0x4E66, 0x672C, 0x5DF2, 0x89E3, 0x6790], ''Book resolved'', utf8 [0x66F8, 0x672C, 0x5DF2, 0x89E3, 0x6790], utf8 [0x672C, 0x306E, 0x89E3, 0x6C7A, 0x72B6, 0x614B]]),
    (''map_uuid'', [utf8 [0x5730, 0x56FE, 0x7F16, 0x53F7], ''Map ID'', utf8 [0x5730, 0x5716, 0x7DE8, 0x865F], utf8 [0x5730, 0x56F3] @ ''ID'']),
    (''map_name_index'', [utf8 [0x5730, 0x56FE, 0x540D, 0x79F0, 0x7F16, 0x53F7], ''Map name ID'', utf8 [0x5730, 0x5716, 0x540D, 0x7A31, 0x7DE8, 0x865F], utf8 [0x5730, 0x56F3, 0x540D] @ ''ID'']),
    (''customColor'', [utf8 [0x81EA, 0x5B9A, 0x4E49, 0x989C, 0x8272], ''Custom color'', utf8 [0x81EA, 0x8A02, 0x984F, 0x8272], utf8 [0x30AB, 0x30B9, 0x30BF, 0x30E0, 0x8272]]),
    (''PotionId'', [utf8 [0x836F, 0x6C34, 0x7F16, 0x53F7], ''Potion ID'', utf8 [0x85E5, 0x6C34, 0x7DE8, 0x865F], utf8 [0x30DD, 0x30FC, 0x30B7, 0x30E7, 0x30F3] @ ''ID'']),
    (''Name'', [utf8 [0x7269, 0x54C1, 0x7C7B, 0x578B], ''Item type'', utf8 [0x7269, 0x54C1, 0x985E, 0x578B], utf8 [0x30A2, 0x30A4, 0x30C6, 0x30E0, 0x7A2E, 0x5225]]),
    (''Count'', [utf8 [0x6570, 0x91CF], ''Quantity'', utf8 [0x6578, 0x91CF], utf8 [0x6570, 0x91CF]]),
    (''Damage'', [utf8 [0x6570, 0x636E, 0x503C], ''Data value'', utf8 [0x8CC7, 0x6599, 0x503C], utf8 [0x30C7, 0x30FC, 0x30BF, 0x5024]]),
    (''tag'', [utf8 [0x7269, 0x54C1, 0x5C5E, 0x6027], ''Item properties'', utf8 [0x7269, 0x54C1, 0x5C6C, 0x6027], utf8 [0x30A2, 0x30A4, 0x30C6, 0x30E0, 0x5C5E, 0x6027]]),
    (''id'', [utf8 [0x7F16, 0x53F7], ''ID'', utf8 [0x7DE8, 0x865F], ''ID'']),
    (''lvl'', [utf8 [0x7B49, 0x7EA7], ''Level'', utf8 [0x7B49, 0x7D1A], utf8 [0x30EC, 0x30D9, 0x30EB]])]"

definition friendlyNbtKey :: "string \<Rightarrow> Language \<Rightarrow> string" where
  "friendlyNbtKey key language = (case find (\<lambda>entry. fst entry = key) nbt_names of
     None \<Rightarrow> key | Some entry \<Rightarrow> snd entry ! languageIndex language)"

fun scalarValue :: "host \<Rightarrow> catalogue \<Rightarrow> tag \<Rightarrow> Language \<Rightarrow> string" where
  "scalarValue h table EndTag language = messageText table language ItemEmpty"
| "scalarValue h table (ByteTag v) language = dec (uint v)"
| "scalarValue h table (ShortTag v) language = dec (sint v)"
| "scalarValue h table (IntTag v) language = dec (sint v)"
| "scalarValue h table (LongTag v) language = dec (sint v)"
| "scalarValue h table (FloatTag v) language = h_format_float h v"
| "scalarValue h table (DoubleTag v) language = h_format_double h v"
| "scalarValue h table (StringTag v) language = sanitizeText table v language"
| "scalarValue h table _ language = []"

definition join :: "string list \<Rightarrow> string \<Rightarrow> string" where
  "join vs separator = foldl (\<lambda>r v. (if r \<noteq> [] then r @ separator else r) @ v) [] vs"

text \<open>The end of \<open>arrayValue\<close> and \<open>inlineListValue\<close>: how many elements there are if some are not shown.\<close>

definition with_count :: "catalogue \<Rightarrow> nat \<Rightarrow> Language \<Rightarrow> string \<Rightarrow> string result" where
  "with_count table n language shown =
    bindR (if n > MaxListItems then tr table language ItemCountSuffix [dec (int n)] else Inr []) (\<lambda>suffix.
    Inr (if shown @ suffix = [] then messageText table language ItemEmpty else shown @ suffix))"

definition arrayValue :: "catalogue \<Rightarrow> int list \<Rightarrow> Language \<Rightarrow> string result" where
  "arrayValue table values language = with_count table (length values) language
     (join (map dec (take MaxListItems values)) (listSeparator language))"

definition inlineListValue :: "host \<Rightarrow> catalogue \<Rightarrow> tag list \<Rightarrow> Language \<Rightarrow> string result" where
  "inlineListValue h table tags language =
    (let shown = map (\<lambda>t. scalarValue h table t language) (take MaxListItems tags) in
     if [] \<in> set shown then Inr []
     else with_count table (length tags) language (join shown (listSeparator language)))"

section \<open>Other NBT data\<close>

text \<open>The lines so far and whether some were left out.\<close>

type_synonym 'a lines = "(string list \<times> bool, 'a) svc"

definition add_line :: "string \<Rightarrow> unit lines" where
  "add_line t = executeS (\<lambda>(ls, truncated). (ls @ [t], truncated))"

definition full :: "string list \<times> bool \<Rightarrow> bool" where
  "full st \<longleftrightarrow> length (fst st) \<ge> MaxExtraLines"

definition set_truncated :: "unit lines" where
  "set_truncated = executeS (\<lambda>(ls, _). (ls, True))"

fun until_full :: "('a \<Rightarrow> unit lines) \<Rightarrow> 'a list \<Rightarrow> unit lines" where
  "until_full f [] = returnS ()"
| "until_full f (x # xs) = bindS (queryS full) (\<lambda>stop.
    if stop then set_truncated else bindS (f x) (\<lambda>_. until_full f xs))"

definition colon :: "Language \<Rightarrow> string" where
  "colon language = (if language = English then '': '' else utf8 [0xFF1A])"

definition path_separator :: string where
  "path_separator = '' '' @ utf8 [0xB7] @ '' ''"

definition titled :: "string \<Rightarrow> Language \<Rightarrow> string \<Rightarrow> unit lines" where
  "titled path language v = add_line (path @ colon language @ v)"

text \<open>\<open>depth\<close> counts down from 8, where the code counts up to it.\<close>

primrec appendExtraTag :: "host \<Rightarrow> catalogue \<Rightarrow> Language \<Rightarrow> nat \<Rightarrow> string \<Rightarrow> tag \<Rightarrow> unit lines" where
  "appendExtraTag h table language 0 path tag = bindS (queryS full) (\<lambda>stop.
    if stop then set_truncated
    else bindS (liftS (tr table language ItemDeepValue [path])) add_line)"
| "appendExtraTag h table language (Suc depth) path tag = bindS (queryS full) (\<lambda>stop.
    if stop then set_truncated
    else let scalar = scalarValue h table tag language; empty = messageText table language ItemEmpty in
      if scalar \<noteq> [] then titled path language scalar
      else case tag of
        ByteArrayTag v \<Rightarrow> bindS (liftS (arrayValue table (map uint v) language)) (titled path language)
      | IntArrayTag v \<Rightarrow> bindS (liftS (arrayValue table (map sint v) language)) (titled path language)
      | ListTag v \<Rightarrow> bindS (liftS (inlineListValue h table v language)) (\<lambda>inline_value.
          if inline_value \<noteq> [] then titled path language inline_value
          else if v = [] then titled path language empty
          else until_full (\<lambda>(i, x). bindS (liftS (tr table language ItemListEntry [path, dec (int i + 1)]))
            (\<lambda>p. appendExtraTag h table language depth p x)) (zip [0..<length v] v))
      | CompoundTag v \<Rightarrow> if v = [] then titled path language empty
          else until_full (\<lambda>(key, x). appendExtraTag h table language depth
            (path @ path_separator @ friendlyNbtKey key language) x) v
      | _ \<Rightarrow> returnS ())"

section \<open>The description\<close>

definition styled :: "catalogue \<Rightarrow> string \<Rightarrow> Language \<Rightarrow> string" where
  "styled table v language = sanitizeText table v language @ utf8 [0xA7] @ ''r''"

definition put :: "string \<Rightarrow> tag \<Rightarrow> compound \<Rightarrow> compound" where
  "put k t c = map (\<lambda>e. if fst e = k then (k, t) else e) c"

text \<open>The strings of a list of string tags.\<close>

fun all_strings :: "tag list \<Rightarrow> string list option" where
  "all_strings [] = Some []"
| "all_strings (StringTag v # ts) = map_option (\<lambda>vs. v # vs) (all_strings ts)"
| "all_strings (_ # ts) = None"

text \<open>The part about \<open>display\<close>: custom name, lore, and what is left of the compound.\<close>

definition take_display :: "catalogue \<Rightarrow> Language \<Rightarrow> compound \<Rightarrow> string option \<times> string list \<times> compound" where
  "take_display table language nbt = (case map_of nbt ''display'' of
     Some (CompoundTag display) \<Rightarrow>
       let (name, display1) = (case map_of display ''Name'' of
             Some (StringTag v) \<Rightarrow> (Some (styled table v language), erase_key ''Name'' display)
           | _ \<Rightarrow> (None, display));
         (lore, display2) = (case map_of display1 ''Lore'' of
             Some (ListTag v) \<Rightarrow> (case all_strings v of
               Some vs \<Rightarrow> (map (\<lambda>t. styled table t language) vs, erase_key ''Lore'' display1)
             | None \<Rightarrow> ([], display1))
           | _ \<Rightarrow> ([], display1)) in
       (name, lore, if display2 = [] then erase_key ''display'' nbt else put ''display'' (CompoundTag display2) nbt)
   | _ \<Rightarrow> (None, [], nbt))"

fun enchantment :: "tag \<Rightarrow> (int \<times> int) option" where
  "enchantment (CompoundTag e) = (case (map_of e ''id'', map_of e ''lvl'') of
     (Some i, Some l) \<Rightarrow> (case (integerValue i, integerValue l) of
       (Some iv, Some lv) \<Rightarrow> if length e = 2 then Some (iv, lv mod 65536) else None
     | _ \<Rightarrow> None)
   | _ \<Rightarrow> None)"
| "enchantment _ = None"

definition take_enchantments :: "compound \<Rightarrow> (int \<times> int) list \<times> compound" where
  "take_enchantments nbt = (case map_of nbt ''ench'' of
     Some (ListTag v) \<Rightarrow> if list_all (\<lambda>t. enchantment t \<noteq> None) v
       then (map (\<lambda>t. the (enchantment t)) v, erase_key ''ench'' nbt) else ([], nbt)
   | _ \<Rightarrow> ([], nbt))"

text \<open>A number that is described by its own line unless it is zero.\<close>

definition take_number :: "string \<Rightarrow> (int \<Rightarrow> string result) \<Rightarrow> compound \<Rightarrow> (string list \<times> compound) result" where
  "take_number key describe nbt = (case map_of nbt key of None \<Rightarrow> Inr ([], nbt)
   | Some t \<Rightarrow> (case integerValue t of None \<Rightarrow> Inr ([], nbt)
     | Some v \<Rightarrow> bindR (if v \<noteq> 0 then bindR (describe v) (\<lambda>l. Inr [l]) else Inr []) (\<lambda>ls.
         Inr (ls, erase_key key nbt))))"

definition line_if :: "bool \<Rightarrow> string result \<Rightarrow> string list result" where
  "line_if b t = (if b then bindR t (\<lambda>l. Inr [l]) else Inr [])"

fun mapR :: "('a \<Rightarrow> 'b result) \<Rightarrow> 'a list \<Rightarrow> 'b list result" where
  "mapR f [] = Inr []"
| "mapR f (x # xs) = bindR (f x) (\<lambda>y. bindR (mapR f xs) (\<lambda>ys. Inr (y # ys)))"

definition enchantment_line :: "catalogue \<Rightarrow> Language \<Rightarrow> int \<times> int \<Rightarrow> string result" where
  "enchantment_line table language e =
    bindR (enchantmentName table (fst e) language) (\<lambda>name. Inr (name @ '' '' @ dec (snd e)))"

definition extra_lines :: "host \<Rightarrow> catalogue \<Rightarrow> Language \<Rightarrow> compound \<Rightarrow> string list result" where
  "extra_lines h table language nbt =
    (case until_full (\<lambda>(key, t). appendExtraTag h table language 8 (friendlyNbtKey key language) t) nbt ([], False) of
       (Inl e, _) \<Rightarrow> Inl e
     | (Inr _, (extra, truncated)) \<Rightarrow>
         Inr (if extra = [] then []
           else [messageText table language ItemOtherHeader] @ map (\<lambda>l. ''- '' @ l) extra @
             (if truncated then [messageText table language ItemOtherMany] else [])))"

definition describeItemRequirements :: "host \<Rightarrow> catalogue \<Rightarrow> ItemPrototype \<Rightarrow> Language \<Rightarrow> string result" where
  "describeItemRequirements h table prototype language =
    bindR (decoded_nbt h prototype) (\<lambda>nbt.
    bindR (line_if (item_data prototype \<noteq> 0) (tr table language ItemData [dec (item_data prototype)])) (\<lambda>data_line.
    let (display_name, lore, nbt1) = take_display table language nbt in
    bindR (line_if (display_name \<noteq> None) (tr table language ItemCustomName [the display_name])) (\<lambda>name_line.
    bindR (line_if (lore \<noteq> []) (tr table language ItemLore [join lore (descriptionSeparator language)])) (\<lambda>lore_line.
    let (enchantments, nbt2) = take_enchantments nbt1 in
    bindR (mapR (enchantment_line table language) (sort enchantments)) (\<lambda>enchantment_lines.
    bindR (line_if (enchantment_lines \<noteq> [])
      (tr table language ItemEnchantments [join enchantment_lines (listSeparator language)])) (\<lambda>enchantments_line.
    bindR (take_number ''Damage'' (\<lambda>v. tr table language ItemDurabilityDamage [dec v]) nbt2) (\<lambda>(damage_line, nbt3).
    bindR (take_number ''RepairCost'' (\<lambda>v. tr table language ItemRepairCost [dec v]) nbt3) (\<lambda>(cost_line, nbt4).
    bindR (take_number ''Unbreakable''
      (\<lambda>v. tr table language ItemUnbreakable [messageText table language YesValue]) nbt4) (\<lambda>(unbreakable_line, nbt5).
    bindR (extra_lines h table language nbt5) (\<lambda>extra.
    Inr (join (data_line @ name_line @ lore_line @ enchantments_line @ damage_line @ cost_line @ unbreakable_line @
      extra) [CHR 0x0A])))))))))))"

section \<open>Bounds\<close>

lemma cut_back_le: "cut_back v n \<le> n"
  by (induction n) (auto intro: le_SucI)

lemma sanitizeText_short: "length (sanitizeText table v language) \<le> max 123 (length (messageText table language ItemEmptyText))"
proof -
  have "cut_back v (min (length v) MaxTextLength) \<le> 120"
    using cut_back_le [of v "min (length v) MaxTextLength"] by (simp add: MaxTextLength_def)
  moreover have "length (utf8 [0x2026]) = 3" by (simp add: utf8_def utf8_char_def)
  ultimately show ?thesis by (auto simp: sanitizeText_def Let_def)
qed

end
