(* ===== verification/Inventory_Escrow.thy ===== *)
theory Inventory_Escrow
  imports Item_Identity "HOL-Library.Multiset" "HOL-Library.Sublist"
begin

text \<open>
  Items of a player on their way into and out of the exchange (src/inventory_escrow.cpp). Every stack that
  is being sold, has been delivered or was bought from a frame carries a marker in its NBT data with the
  id of the escrow, claim or listing, so that a crash between the inventory and the database can be
  repaired. The host's inventory is an interface \<open>inventory_api\<close> over a state \<open>'i\<close>; what it promises is
  \<open>inventory_laws\<close>.
\<close>

section \<open>Items and inventories\<close>

record ItemStack =
  is_type :: string
  is_data :: int
  is_amount :: int
  is_nbt :: compound

record 'i inventory_api =
  inv_size :: "'i \<Rightarrow> nat"
  inv_item :: "'i \<Rightarrow> nat \<Rightarrow> ItemStack option"
  inv_contents :: "'i \<Rightarrow> ItemStack option list"
  inv_set :: "nat \<Rightarrow> ItemStack \<Rightarrow> 'i \<Rightarrow> 'i"
  inv_clear :: "nat \<Rightarrow> 'i \<Rightarrow> 'i"
  inv_off :: "'i \<Rightarrow> ItemStack option"
  inv_set_off :: "ItemStack option \<Rightarrow> 'i \<Rightarrow> 'i"
  inv_add :: "ItemStack list \<Rightarrow> 'i \<Rightarrow> (int \<times> ItemStack) list \<times> 'i"
  item_stack_size :: "ItemStack \<Rightarrow> int"
  item_with_meta :: "string \<Rightarrow> string \<Rightarrow> ItemStack \<Rightarrow> ItemStack option"

section \<open>Markers\<close>

definition DeliveryClaimTag :: string where "DeliveryClaimTag = ''__endstone_exchange_claim''"
definition SellItemTag :: string where "SellItemTag = ''__endstone_exchange_sell_item''"
definition SellReceiptTag :: string where "SellReceiptTag = ''__endstone_exchange_sell_receipt''"
definition FrameSaleTag :: string where "FrameSaleTag = ''__endstone_exchange_frame_sale''"

definition markerId :: "compound \<Rightarrow> string \<Rightarrow> Id option" where
  "markerId nbt marker = (case map_of nbt marker of
     Some (StringTag v) \<Rightarrow> (case stoull v of
       Inr (i, consumed) \<Rightarrow> if consumed = length v then Some i else None
     | Inl _ \<Rightarrow> None)
   | _ \<Rightarrow> None)"

definition setMarker :: "host \<Rightarrow> ItemStack \<Rightarrow> string \<Rightarrow> Id \<Rightarrow> ItemStack" where
  "setMarker h item marker i =
     item\<lparr>is_nbt := h_assign h marker (StringTag (dec_nat i)) (is_nbt item)\<rparr>"

definition deliveryClaimId :: "ItemStack \<Rightarrow> Id option" where
  "deliveryClaimId item = markerId (is_nbt item) DeliveryClaimTag"

definition sellItemEscrowId :: "ItemStack \<Rightarrow> Id option" where
  "sellItemEscrowId item = markerId (is_nbt item) SellItemTag"

definition sellReceiptEscrowId :: "ItemStack \<Rightarrow> Id option" where
  "sellReceiptEscrowId item = markerId (is_nbt item) SellReceiptTag"

definition isInternalEscrowItem :: "ItemStack \<Rightarrow> bool" where
  "isInternalEscrowItem item \<longleftrightarrow>
     deliveryClaimId item \<noteq> None \<or> sellItemEscrowId item \<noteq> None \<or> sellReceiptEscrowId item \<noteq> None"

definition frameSaleItemId :: "compound \<Rightarrow> Id option" where
  "frameSaleItemId nbt = markerId nbt FrameSaleTag"

definition tagFrameSaleItem :: "host \<Rightarrow> compound \<Rightarrow> Id \<Rightarrow> compound" where
  "tagFrameSaleItem h nbt i = h_assign h FrameSaleTag (StringTag (dec_nat i)) nbt"

text \<open>The functions that change their argument return whether they did, and the argument.\<close>

definition clear_nbt_marker :: "string \<Rightarrow> compound \<Rightarrow> Id \<Rightarrow> bool \<times> compound" where
  "clear_nbt_marker marker nbt i = (if markerId nbt marker \<noteq> Some i then (False, nbt)
     else let nbt' = erase_key marker nbt in (markerId nbt' marker = None, nbt'))"

definition clear_item_marker :: "string \<Rightarrow> ItemStack \<Rightarrow> Id \<Rightarrow> bool \<times> ItemStack" where
  "clear_item_marker marker item i = (case clear_nbt_marker marker (is_nbt item) i of
     (False, _) \<Rightarrow> (False, item)
   | (True, nbt) \<Rightarrow> let item' = item\<lparr>is_nbt := nbt\<rparr> in (markerId (is_nbt item') marker = None, item'))"

abbreviation "clearDeliveryClaimTag_item \<equiv> clear_item_marker DeliveryClaimTag"
abbreviation "clearFrameSaleItemTag_item \<equiv> clear_item_marker FrameSaleTag"

section \<open>Stacks\<close>

definition originalNbt :: "host \<Rightarrow> ItemPrototype \<Rightarrow> compound result" where
  "originalNbt h prototype = decoded_nbt h prototype"

definition sampleItem :: "host \<Rightarrow> ItemPrototype \<Rightarrow> ItemStack result" where
  "sampleItem h prototype = bindR (originalNbt h prototype) (\<lambda>nbt.
     Inr \<lparr>is_type = item_type prototype, is_data = item_data prototype, is_amount = 1, is_nbt = nbt\<rparr>)"

definition sellReceipt :: "host \<Rightarrow> catalogue \<Rightarrow> 'i inventory_api \<Rightarrow> Id \<Rightarrow> Language \<Rightarrow> ItemStack result" where
  "sellReceipt h table api i language =
    (case item_with_meta api (messageText table language ReceiptName) (messageText table language ReceiptLore)
        \<lparr>is_type = ''minecraft:barrier'', is_data = 0, is_amount = 1, is_nbt = []\<rparr> of
      None \<Rightarrow> Inl (Runtime_Error ''cannot create sell escrow receipt'')
    | Some receipt \<Rightarrow> Inr (setMarker h receipt SellReceiptTag i))"

function split_loop :: "ItemStack \<Rightarrow> int \<Rightarrow> int \<Rightarrow> ItemStack list" where
  "split_loop sample stack_size remaining = (if remaining \<le> 0 \<or> stack_size \<le> 0 then []
     else let amount = min remaining stack_size in
       sample\<lparr>is_amount := amount\<rparr> # split_loop sample stack_size (remaining - amount))"
  by pat_completeness auto
termination split_loop
  by (relation "measure (\<lambda>(_, _, remaining). nat remaining)") auto

declare split_loop.simps [simp del]

definition splitStacks :: "host \<Rightarrow> 'i inventory_api \<Rightarrow> ItemPrototype \<Rightarrow> int \<Rightarrow> Id option \<Rightarrow> ItemStack list result" where
  "splitStacks h api prototype quantity claim = bindR (sampleItem h prototype) (\<lambda>sample.
     let sample' = (case claim of None \<Rightarrow> sample | Some i \<Rightarrow> setMarker h sample DeliveryClaimTag i) in
     Inr (split_loop sample' (max 1 (item_stack_size api sample')) quantity))"

definition itemCount :: "(int \<times> ItemStack) list \<Rightarrow> int" where
  "itemCount items = (\<Sum>(slot, item)\<leftarrow>items. is_amount item)"

section \<open>Reading an inventory\<close>

text \<open>The contents, then the item in the off hand.\<close>

definition inv_items :: "'i inventory_api \<Rightarrow> 'i \<Rightarrow> ItemStack list" where
  "inv_items api i = List.map_filter id (inv_contents api i @ [inv_off api i])"

definition marked_count :: "(ItemStack \<Rightarrow> Id option) \<Rightarrow> 'i inventory_api \<Rightarrow> Id \<Rightarrow> 'i \<Rightarrow> int" where
  "marked_count marker api k i = (\<Sum>item\<leftarrow>filter (\<lambda>item. marker item = Some k) (inv_items api i). is_amount item)"

definition taggedItemCount :: "'i inventory_api \<Rightarrow> Id \<Rightarrow> 'i \<Rightarrow> int" where
  "taggedItemCount = marked_count deliveryClaimId"

definition sellReceiptCount :: "'i inventory_api \<Rightarrow> Id \<Rightarrow> 'i \<Rightarrow> int" where
  "sellReceiptCount = marked_count sellReceiptEscrowId"

record TaggedSellItems =
  ts_quantity :: int
  ts_stacks :: int

definition taggedSellItems :: "'i inventory_api \<Rightarrow> Id \<Rightarrow> 'i \<Rightarrow> TaggedSellItems" where
  "taggedSellItems api k i = \<lparr>ts_quantity = marked_count sellItemEscrowId api k i,
     ts_stacks = int (length (filter (\<lambda>item. sellItemEscrowId item = Some k) (inv_items api i)))\<rparr>"

record InternalEscrowMarkers =
  em_delivery_claim_ids :: "Id list"
  em_sell_item_escrow_ids :: "Id list"
  em_sell_receipt_escrow_ids :: "Id list"

text \<open>The ids of a \<open>std::set\<close>: sorted, each once.\<close>

definition marker_ids :: "(ItemStack \<Rightarrow> Id option) \<Rightarrow> 'i inventory_api \<Rightarrow> 'i \<Rightarrow> Id list" where
  "marker_ids marker api i = sort (remdups (List.map_filter marker (inv_items api i)))"

definition internalEscrowMarkers :: "'i inventory_api \<Rightarrow> 'i \<Rightarrow> InternalEscrowMarkers" where
  "internalEscrowMarkers api i = \<lparr>em_delivery_claim_ids = marker_ids deliveryClaimId api i,
     em_sell_item_escrow_ids = marker_ids sellItemEscrowId api i,
     em_sell_receipt_escrow_ids = marker_ids sellReceiptEscrowId api i\<rparr>"

definition item_matches :: "host \<Rightarrow> ItemPrototype \<Rightarrow> ItemStack \<Rightarrow> bool result" where
  "item_matches h prototype item = matchesItemIdentity h prototype (is_type item) (is_data item) (is_nbt item)"

fun sellable_loop :: "host \<Rightarrow> ItemPrototype \<Rightarrow> ItemStack list \<Rightarrow> int \<Rightarrow> int result" where
  "sellable_loop h prototype [] available = Inr available"
| "sellable_loop h prototype (item # items) available =
    (if isInternalEscrowItem item then sellable_loop h prototype items available
     else bindR (item_matches h prototype item) (\<lambda>m.
       sellable_loop h prototype items (if m then available + is_amount item else available)))"

definition sellableItemCount :: "host \<Rightarrow> 'i inventory_api \<Rightarrow> ItemPrototype \<Rightarrow> 'i \<Rightarrow> int result" where
  "sellableItemCount h api prototype i = sellable_loop h prototype (inv_items api i) 0"

section \<open>Changing an inventory\<close>

text \<open>The loop over the slots that hold an item, then the off hand.\<close>

definition for_items :: "'i inventory_api \<Rightarrow> (nat \<Rightarrow> ItemStack \<Rightarrow> ('i, unit) svc) \<Rightarrow> (ItemStack \<Rightarrow> ('i, unit) svc) \<Rightarrow>
    ('i, unit) svc" where
  "for_items api f g =
    bindS (queryS (inv_size api)) (\<lambda>n.
    bindS (mapS (\<lambda>slot. bindS (queryS (\<lambda>i. inv_item api i slot)) (\<lambda>item. case item of
       None \<Rightarrow> returnS () | Some item \<Rightarrow> f slot item)) [0..<n]) (\<lambda>_.
    bindS (queryS (inv_off api)) (\<lambda>item. case item of None \<Rightarrow> returnS () | Some item \<Rightarrow> g item)))"

definition removeMarked :: "(ItemStack \<Rightarrow> Id option) \<Rightarrow> 'i inventory_api \<Rightarrow> Id \<Rightarrow> ('i, unit) svc" where
  "removeMarked marker api k = for_items api
     (\<lambda>slot item. whenS (marker item = Some k) (executeS (inv_clear api slot)))
     (\<lambda>item. whenS (marker item = Some k) (executeS (inv_set_off api None)))"

definition removeDeliveryClaimItems :: "'i inventory_api \<Rightarrow> Id \<Rightarrow> ('i, unit) svc" where
  "removeDeliveryClaimItems = removeMarked deliveryClaimId"

definition removeTaggedSellItems :: "'i inventory_api \<Rightarrow> Id \<Rightarrow> ('i, unit) svc" where
  "removeTaggedSellItems = removeMarked sellItemEscrowId"

definition removeSellReceipts :: "'i inventory_api \<Rightarrow> Id \<Rightarrow> ('i, unit) svc" where
  "removeSellReceipts = removeMarked sellReceiptEscrowId"

definition clearDeliveryClaimTag :: "'i inventory_api \<Rightarrow> Id \<Rightarrow> ('i, unit) svc" where
  "clearDeliveryClaimTag api k = for_items api
     (\<lambda>slot item. let (cleared, item') = clearDeliveryClaimTag_item item k in
       whenS cleared (bindS (executeS (inv_clear api slot)) (\<lambda>_. executeS (inv_set api slot item'))))
     (\<lambda>item. let (cleared, item') = clearDeliveryClaimTag_item item k in
       whenS cleared (bindS (executeS (inv_set_off api None)) (\<lambda>_. executeS (inv_set_off api (Some item')))))"

definition restoreTaggedSellItems :: "host \<Rightarrow> 'i inventory_api \<Rightarrow> Id \<Rightarrow> ItemPrototype \<Rightarrow> ('i, unit) svc" where
  "restoreTaggedSellItems h api k prototype =
    bindS (liftS (originalNbt h prototype)) (\<lambda>nbt.
    for_items api
     (\<lambda>slot item. whenS (sellItemEscrowId item = Some k) (executeS (inv_set api slot (item\<lparr>is_nbt := nbt\<rparr>))))
     (\<lambda>item. whenS (sellItemEscrowId item = Some k) (executeS (inv_set_off api (Some (item\<lparr>is_nbt := nbt\<rparr>))))))"

definition replaceTaggedSellItemsWithReceipts ::
    "host \<Rightarrow> catalogue \<Rightarrow> 'i inventory_api \<Rightarrow> Id \<Rightarrow> Language \<Rightarrow> ('i, unit) svc" where
  "replaceTaggedSellItemsWithReceipts h table api k language = for_items api
     (\<lambda>slot item. whenS (sellItemEscrowId item = Some k)
       (bindS (liftS (sellReceipt h table api k language)) (\<lambda>receipt. executeS (inv_set api slot receipt))))
     (\<lambda>item. whenS (sellItemEscrowId item = Some k)
       (bindS (liftS (sellReceipt h table api k language)) (\<lambda>receipt. executeS (inv_set_off api (Some receipt)))))"

section \<open>Tagging what is sold\<close>

text \<open>A slot number, or nothing for the off hand (\<open>OffHandSlot\<close>).\<close>

type_synonym candidate = "nat option \<times> ItemStack"

definition slot_items :: "'i inventory_api \<Rightarrow> 'i \<Rightarrow> candidate list" where
  "slot_items api i = List.map_filter (\<lambda>slot. map_option (\<lambda>item. (Some slot, item)) (inv_item api i slot))
       [0..<inv_size api i] @
     (case inv_off api i of None \<Rightarrow> [] | Some item \<Rightarrow> [(None, item)])"

record gathered =
  g_same_type :: int
  g_available :: int
  g_candidates :: "candidate list"

fun gather :: "host \<Rightarrow> ItemPrototype \<Rightarrow> candidate list \<Rightarrow> gathered \<Rightarrow> gathered result" where
  "gather h prototype [] g = Inr g"
| "gather h prototype ((slot, item) # rest) g =
    (if isInternalEscrowItem item then gather h prototype rest g
     else
       let g1 = (if is_type item = item_type prototype then g\<lparr>g_same_type := g_same_type g + is_amount item\<rparr> else g) in
       bindR (item_matches h prototype item) (\<lambda>m.
       gather h prototype rest (if m then g1\<lparr>g_available := g_available g1 + is_amount item,
         g_candidates := g_candidates g1 @ [(slot, item)]\<rparr> else g1)))"

fun tag_loop :: "host \<Rightarrow> 'i inventory_api \<Rightarrow> int \<Rightarrow> Id \<Rightarrow> candidate list \<Rightarrow> TaggedSellItems \<Rightarrow> ('i, TaggedSellItems) svc" where
  "tag_loop h api requested k [] r = returnS r"
| "tag_loop h api requested k ((slot, item) # rest) r =
    (if ts_quantity r \<ge> requested then returnS r
     else let item' = setMarker h item SellItemTag k in
       bindS (executeS (case slot of None \<Rightarrow> inv_set_off api (Some item') | Some n \<Rightarrow> inv_set api n item')) (\<lambda>_.
       tag_loop h api requested k rest \<lparr>ts_quantity = ts_quantity r + is_amount item, ts_stacks = ts_stacks r + 1\<rparr>))"

text \<open>\<open>std::sort\<close> leaves the order of stacks of one size open; the model keeps them in slot order.\<close>

definition tagSellItems :: "host \<Rightarrow> catalogue \<Rightarrow> 'i inventory_api \<Rightarrow> ItemPrototype \<Rightarrow> int \<Rightarrow> Id \<Rightarrow> Language \<Rightarrow> string \<Rightarrow>
    ('i, TaggedSellItems) svc" where
  "tagSellItems h table api prototype requested k language localized_name =
    bindS (throwIf (requested \<le> 0) (Runtime_Error ''sell escrow quantity must be positive'')) (\<lambda>_.
    bindS (queryS (slot_items api)) (\<lambda>items.
    bindS (liftS (gather h prototype items \<lparr>g_same_type = 0, g_available = 0, g_candidates = []\<rparr>)) (\<lambda>g.
    bindS (if g_available g < requested
      then let name = (if localized_name = [] then item_name prototype else localized_name) in
        bindS (liftS (describeItemRequirements h table prototype language)) (\<lambda>requirements.
        throwS (userError (tr table language InventoryInsufficient [dec (g_same_type g), name, dec (g_available g),
          dec requested, if requirements = [] then [] else [CHR 0x0A] @ requirements])))
      else returnS ()) (\<lambda>_.
    tag_loop h api requested k (sort_key (\<lambda>c. is_amount (snd c)) (g_candidates g))
      \<lparr>ts_quantity = 0, ts_stacks = 0\<rparr>))))"

section \<open>What the host promises\<close>

text \<open>The slots and the off hand as one list; reading and writing are by position in it.\<close>

definition inv_view :: "'i inventory_api \<Rightarrow> 'i \<Rightarrow> ItemStack option list" where
  "inv_view api i = map (inv_item api i) [0..<inv_size api i] @ [inv_off api i]"

text \<open>
  A replacement that changes only the NBT data of the stack in its place can be ignored, as the source notes
  where it clears a claim's marker; every other write takes effect. A prompt inventory ignores none.
\<close>

definition only_nbt :: "ItemStack option \<Rightarrow> ItemStack option \<Rightarrow> bool" where
  "only_nbt x y \<longleftrightarrow> (case (x, y) of
     (Some a, Some b) \<Rightarrow> is_type b = is_type a \<and> is_data b = is_data a \<and> is_amount b = is_amount a
   | _ \<Rightarrow> False)"

definition replaced :: "ItemStack option list \<Rightarrow> nat \<Rightarrow> ItemStack option \<Rightarrow> ItemStack option list \<Rightarrow> bool" where
  "replaced v n y v' \<longleftrightarrow> v' = v[n := y] \<or> only_nbt (v ! n) y \<and> v' = v"

definition inventory_laws :: "'i inventory_api \<Rightarrow> bool" where
  "inventory_laws api \<longleftrightarrow>
    (\<forall>i. inv_contents api i = map (inv_item api i) [0..<inv_size api i]) \<and>
    (\<forall>i n x. n < inv_size api i \<longrightarrow> replaced (inv_view api i) n (Some x) (inv_view api (inv_set api n x i))) \<and>
    (\<forall>i n. n < inv_size api i \<longrightarrow> inv_view api (inv_clear api n i) = (inv_view api i)[n := None]) \<and>
    (\<forall>i x. replaced (inv_view api i) (inv_size api i) x (inv_view api (inv_set_off api x i)))"

definition prompt :: "'i inventory_api \<Rightarrow> bool" where
  "prompt api \<longleftrightarrow>
    (\<forall>i n x. n < inv_size api i \<longrightarrow> inv_view api (inv_set api n x i) = (inv_view api i)[n := Some x]) \<and>
    (\<forall>i x. inv_view api (inv_set_off api x i) = (inv_view api i)[inv_size api i := x])"

lemma inventory_lawsD:
  assumes "inventory_laws api"
  shows "inv_contents api i = map (inv_item api i) [0..<inv_size api i]"
    "n < inv_size api i \<Longrightarrow> replaced (inv_view api i) n (Some y) (inv_view api (inv_set api n y i))"
    "n < inv_size api i \<Longrightarrow> inv_view api (inv_clear api n i) = (inv_view api i)[n := None]"
    "replaced (inv_view api i) (inv_size api i) x (inv_view api (inv_set_off api x i))"
  using assms unfolding inventory_laws_def by blast+

lemma promptD:
  assumes "prompt api"
  shows "n < inv_size api i \<Longrightarrow> inv_view api (inv_set api n y i) = (inv_view api i)[n := Some y]"
    "inv_view api (inv_set_off api x i) = (inv_view api i)[inv_size api i := x]"
  using assms unfolding prompt_def by blast+

lemma replaced_length: "replaced v n y v' \<Longrightarrow> length v' = length v"
  by (auto simp: replaced_def)

text \<open>Emptying a place, filling an empty one, and putting another kind of item takes effect.\<close>

lemma replaced_sure:
  "replaced v n None v' \<longleftrightarrow> v' = v[n := None]"
  "v ! n = None \<Longrightarrow> replaced v n y v' \<longleftrightarrow> v' = v[n := y]"
  "v ! n = Some a \<Longrightarrow> is_type b \<noteq> is_type a \<Longrightarrow> replaced v n (Some b) v' \<longleftrightarrow> v' = v[n := Some b]"
  by (auto simp: replaced_def only_nbt_def split: option.splits)

lemma length_view [simp]: "length (inv_view api i) = Suc (inv_size api i)"
  by (simp add: inv_view_def)

lemma view_slot [simp]: "n < inv_size api i \<Longrightarrow> inv_view api i ! n = inv_item api i n"
  by (simp add: inv_view_def nth_append)

lemma view_off [simp]: "inv_view api i ! inv_size api i = inv_off api i"
  by (simp add: inv_view_def nth_append)

lemma view_size: "inv_view api i' = v \<Longrightarrow> length v = Suc (inv_size api i) \<Longrightarrow> inv_size api i' = inv_size api i"
  using length_view [of api i'] by simp

lemma inv_items_view: "inventory_laws api \<Longrightarrow> inv_items api i = List.map_filter id (inv_view api i)"
  by (simp add: inv_items_def inv_view_def inventory_lawsD(1))

section \<open>The loops\<close>

definition map_items :: "(ItemStack \<Rightarrow> ItemStack option) \<Rightarrow> ItemStack option list \<Rightarrow> ItemStack option list" where
  "map_items r v = map (\<lambda>x. case x of None \<Rightarrow> None | Some item \<Rightarrow> r item) v"

text \<open>What becomes of an item, as a relation; \<open>becomes\<close> is that for every place.\<close>

definition becomes :: "(ItemStack \<Rightarrow> ItemStack option \<Rightarrow> bool) \<Rightarrow> ItemStack option \<Rightarrow> ItemStack option \<Rightarrow> bool" where
  "becomes R x y \<longleftrightarrow> (case x of None \<Rightarrow> y = None | Some item \<Rightarrow> R item y)"

lemma becomes_simps [simp]: "becomes R None y \<longleftrightarrow> y = None" "becomes R (Some item) y \<longleftrightarrow> R item y"
  by (simp_all add: becomes_def)

lemma map_items_nth: "n < length v \<Longrightarrow> map_items r v ! n = (case v ! n of None \<Rightarrow> None | Some item \<Rightarrow> r item)"
  by (simp add: map_items_def)

lemma becomes_map_items: "list_all2 (becomes (\<lambda>item y. y = r item)) v v' \<longleftrightarrow> v' = map_items r v"
  by (induction v arbitrary: v') (auto simp: map_items_def list_all2_Cons1 becomes_def split: option.splits)

text \<open>A body that puts something related to \<open>item\<close> where it finds \<open>item\<close>.\<close>

definition puts :: "'i inventory_api \<Rightarrow> (ItemStack \<Rightarrow> ItemStack option \<Rightarrow> bool) \<Rightarrow> (nat \<Rightarrow> ItemStack \<Rightarrow> ('i, unit) svc) \<Rightarrow>
    (ItemStack \<Rightarrow> ('i, unit) svc) \<Rightarrow> bool" where
  "puts api R f g \<longleftrightarrow>
    (\<forall>i n item. n < inv_size api i \<longrightarrow> inv_item api i n = Some item \<longrightarrow>
      (\<exists>i' y. f n item i = (Inr (), i') \<and> inv_view api i' = (inv_view api i)[n := y] \<and> R item y)) \<and>
    (\<forall>i item. inv_off api i = Some item \<longrightarrow>
      (\<exists>i' y. g item i = (Inr (), i') \<and> inv_view api i' = (inv_view api i)[inv_size api i := y] \<and> R item y))"

lemma slot_loop:
  assumes "puts api R f g" and "a \<le> inv_size api i"
  shows "\<exists>i'. mapS (\<lambda>slot. bindS (queryS (\<lambda>i. inv_item api i slot)) (\<lambda>item. case item of
        None \<Rightarrow> returnS () | Some item \<Rightarrow> f slot item)) [a..<inv_size api i] i = (Inr (), i') \<and>
      inv_size api i' = inv_size api i \<and> inv_off api i' = inv_off api i \<and>
      (\<forall>m < inv_size api i. if m < a then inv_item api i' m = inv_item api i m
        else becomes R (inv_item api i m) (inv_item api i' m))"
  using assms(2)
proof (induction "inv_size api i - a" arbitrary: a i)
  case 0
  then show ?case by (simp add: returnS_def)
next
  case (Suc k)
  let ?n = "inv_size api i" and ?v = "inv_view api i"
  let ?body = "\<lambda>slot. bindS (queryS (\<lambda>i. inv_item api i slot)) (\<lambda>item. case item of
        None \<Rightarrow> returnS () | Some item \<Rightarrow> f slot item)"
  have a: "a < ?n" using Suc by simp
  obtain i1 y where i1: "?body a i = (Inr (), i1)" "inv_view api i1 = ?v[a := y]" "becomes R (inv_item api i a) y"
  proof (cases "inv_item api i a")
    case None
    with a that [of i None] show thesis
      by (simp add: bindS_def queryS_def returnS_def) (metis list_update_id view_slot)
  next
    case (Some item)
    with assms(1) a obtain i' y where "f a item i = (Inr (), i')" "inv_view api i' = ?v[a := y]" "R item y"
      unfolding puts_def by blast
    with Some a that [of i' y] show thesis by (simp add: bindS_def queryS_def)
  qed
  have n1: "inv_size api i1 = ?n" by (rule view_size [OF i1(2)]) simp
  have at: "inv_view api i1 ! m = ?v[a := y] ! m" for m by (simp add: i1(2))
  have off1: "inv_off api i1 = inv_off api i"
    using at [of ?n] a view_off [of api i1] n1 by simp
  have item1: "inv_item api i1 m = (if m = a then y else inv_item api i m)" if "m < ?n" for m
    using at [of m] that a view_slot [of m api i1] n1 by (simp add: nth_list_update)
  have "k = inv_size api i1 - Suc a" "Suc a \<le> inv_size api i1" using Suc.hyps(2) n1 a by simp_all
  from Suc.hyps(1) [OF this] obtain i' where
    i': "mapS ?body [Suc a..<?n] i1 = (Inr (), i')" "inv_size api i' = ?n" "inv_off api i' = inv_off api i1"
      "\<And>m. m < ?n \<Longrightarrow> if m < Suc a then inv_item api i' m = inv_item api i1 m
        else becomes R (inv_item api i1 m) (inv_item api i' m)" using n1 by auto
  have "mapS ?body [a..<?n] i = (Inr (), i')"
    using i1(1) i'(1) a by (simp add: upt_conv_Cons bindS_step)
  moreover have "if m < a then inv_item api i' m = inv_item api i m else becomes R (inv_item api i m) (inv_item api i' m)"
    if "m < ?n" for m
    using i'(4) [OF that] item1 [OF that] i1(3) by (cases "m < a"; cases "m = a") simp_all
  ultimately show ?case using i'(2,3) off1 by auto
qed

lemma for_items_view:
  assumes "puts api R f g"
  shows "\<exists>i'. for_items api f g i = (Inr (), i') \<and> list_all2 (becomes R) (inv_view api i) (inv_view api i')"
proof -
  let ?n = "inv_size api i"
  obtain i1 where i1: "mapS (\<lambda>slot. bindS (queryS (\<lambda>i. inv_item api i slot)) (\<lambda>item. case item of
        None \<Rightarrow> returnS () | Some item \<Rightarrow> f slot item)) [0..<?n] i = (Inr (), i1)"
    "inv_size api i1 = ?n" "inv_off api i1 = inv_off api i"
    "\<And>m. m < ?n \<Longrightarrow> becomes R (inv_item api i m) (inv_item api i1 m)"
    using slot_loop [OF assms, of 0 i] by auto
  have v: "inv_view api j = map (inv_item api j) [0..<?n] @ [inv_off api j]" if "inv_size api j = ?n" for j
    by (simp add: inv_view_def that)
  have slots: "list_all2 (becomes R) (map (inv_item api i) [0..<?n]) (map (inv_item api i1) [0..<?n])"
    using i1(4) by (simp add: list_all2_conv_all_nth)
  show ?thesis
  proof (cases "inv_off api i")
    case None
    with i1 slots v [OF refl] v [OF i1(2)] show ?thesis
      by (simp add: for_items_def bindS_def queryS_def returnS_def list_all2_appendI)
  next
    case (Some item)
    with assms i1(2,3) obtain i2 y where "g item i1 = (Inr (), i2)" "inv_view api i2 = (inv_view api i1)[?n := y]" "R item y"
      unfolding puts_def by metis
    with Some i1 slots v [OF refl] v [OF i1(2)] show ?thesis
      by (simp add: for_items_def bindS_def queryS_def list_update_append list_all2_appendI)
  qed
qed

section \<open>What the operations do\<close>

lemma map_items_if:
  "map_items (\<lambda>item. if c item then r item else Some item) v =
    map (\<lambda>x. case x of None \<Rightarrow> None | Some item \<Rightarrow> if c item then r item else Some item) v"
  by (simp add: map_items_def)

text \<open>A body that acts on the items with a property only.\<close>

lemma puts_when:
  assumes "puts api R f g"
  shows "puts api (\<lambda>item y. if c item then R item y else y = Some item) (\<lambda>n item. whenS (c item) (f n item))
    (\<lambda>item. whenS (c item) (g item))"
  unfolding puts_def
proof (intro conjI allI impI)
  fix i n item
  assume n: "n < inv_size api i" "inv_item api i n = Some item"
  then have same: "(inv_view api i)[n := Some item] = inv_view api i" by (metis list_update_id view_slot)
  show "\<exists>i' y. whenS (c item) (f n item) i = (Inr (), i') \<and>
      inv_view api i' = (inv_view api i)[n := y] \<and> (if c item then R item y else y = Some item)"
  proof (cases "c item")
    case True
    with assms n show ?thesis unfolding puts_def whenS_def by auto
  qed (use same in \<open>simp add: whenS_def returnS_def\<close>)
next
  fix i item
  assume n: "inv_off api i = Some item"
  then have same: "(inv_view api i)[inv_size api i := Some item] = inv_view api i" by (metis list_update_id view_off)
  show "\<exists>i' y. whenS (c item) (g item) i = (Inr (), i') \<and>
      inv_view api i' = (inv_view api i)[inv_size api i := y] \<and> (if c item then R item y else y = Some item)"
  proof (cases "c item")
    case True
    with assms n show ?thesis unfolding puts_def whenS_def by auto
  qed (use same in \<open>simp add: whenS_def returnS_def\<close>)
qed

lemma puts_clear:
  assumes "inventory_laws api"
  shows "puts api (\<lambda>_ y. y = None) (\<lambda>n item. executeS (inv_clear api n)) (\<lambda>item. executeS (inv_set_off api None))"
  using inventory_lawsD(3) [OF assms] inventory_lawsD(4) [OF assms, of _ None]
  by (auto simp: puts_def executeS_def replaced_sure)

text \<open>A replacement takes effect, or only the NBT data would have changed.\<close>

definition written :: "(ItemStack \<Rightarrow> ItemStack) \<Rightarrow> ItemStack \<Rightarrow> ItemStack option \<Rightarrow> bool" where
  "written u item y \<longleftrightarrow> y = Some (u item) \<or> only_nbt (Some item) (Some (u item)) \<and> y = Some item"

lemma replaced_written:
  "replaced v n (Some (u item)) v' \<Longrightarrow> v ! n = Some item \<Longrightarrow> \<exists>y. v' = v[n := y] \<and> written u item y"
  unfolding replaced_def written_def by (metis list_update_id)

lemma puts_set:
  assumes "inventory_laws api"
  shows "puts api (written u) (\<lambda>n item. executeS (inv_set api n (u item))) (\<lambda>item. executeS (inv_set_off api (Some (u item))))"
  unfolding puts_def
proof (intro conjI allI impI)
  fix i n item
  assume "n < inv_size api i" "inv_item api i n = Some item"
  then show "\<exists>i' y. executeS (inv_set api n (u item)) i = (Inr (), i') \<and> inv_view api i' = (inv_view api i)[n := y] \<and> written u item y"
    using replaced_written [of "inv_view api i" n u item "inv_view api (inv_set api n (u item) i)"] inventory_lawsD(2) [OF assms]
    by (simp add: executeS_def)
next
  fix i item
  assume "inv_off api i = Some item"
  then show "\<exists>i' y. executeS (inv_set_off api (Some (u item))) i = (Inr (), i') \<and>
      inv_view api i' = (inv_view api i)[inv_size api i := y] \<and> written u item y"
    using replaced_written [of "inv_view api i" "inv_size api i" u item "inv_view api (inv_set_off api (Some (u item)) i)"]
      inventory_lawsD(4) [OF assms] by (simp add: executeS_def)
qed

lemma puts_prompt:
  "prompt api \<Longrightarrow> puts api (\<lambda>item y. y = Some (u item)) (\<lambda>n item. executeS (inv_set api n (u item)))
    (\<lambda>item. executeS (inv_set_off api (Some (u item))))"
  by (auto simp: puts_def executeS_def promptD)

lemma bindS_liftS: "bindS (liftS (Inr x)) f = f x"
  by (simp add: fun_eq_iff bindS_def liftS_def)

definition without_marked :: "(ItemStack \<Rightarrow> Id option) \<Rightarrow> Id \<Rightarrow> ItemStack option list \<Rightarrow> ItemStack option list" where
  "without_marked marker k = map_items (\<lambda>item. if marker item = Some k then None else Some item)"

lemma for_items_map:
  "puts api (\<lambda>item y. y = r item) f g \<Longrightarrow> \<exists>i'. for_items api f g i = (Inr (), i') \<and> inv_view api i' = map_items r (inv_view api i)"
  using for_items_view [of api "\<lambda>item y. y = r item" f g i] by (simp add: becomes_map_items)

lemma puts_when_fun:
  assumes "puts api (\<lambda>item y. y = r item) f g"
  shows "puts api (\<lambda>item y. y = (if c item then r item else Some item)) (\<lambda>n item. whenS (c item) (f n item))
    (\<lambda>item. whenS (c item) (g item))"
proof -
  have "(\<lambda>item y. if c item then y = r item else y = Some item) = (\<lambda>item y. y = (if c item then r item else Some item))"
    by (simp add: fun_eq_iff)
  with puts_when [OF assms, of c] show ?thesis by simp
qed

lemma removeMarked_view:
  assumes "inventory_laws api"
  shows "\<exists>i'. removeMarked marker api k i = (Inr (), i') \<and> inv_view api i' = without_marked marker k (inv_view api i)"
  unfolding removeMarked_def without_marked_def by (rule for_items_map [OF puts_when_fun [OF puts_clear [OF assms]]])

lemma restore_view:
  assumes "inventory_laws api" and "originalNbt h prototype = Inr nbt"
  shows "\<exists>i'. restoreTaggedSellItems h api k prototype i = (Inr (), i') \<and> list_all2
    (becomes (\<lambda>item y. if sellItemEscrowId item = Some k then y = Some (item\<lparr>is_nbt := nbt\<rparr>) \<or> y = Some item else y = Some item))
    (inv_view api i) (inv_view api i')"
proof -
  obtain i' where "restoreTaggedSellItems h api k prototype i = (Inr (), i')" "list_all2
      (becomes (\<lambda>item y. if sellItemEscrowId item = Some k then written (\<lambda>item. item\<lparr>is_nbt := nbt\<rparr>) item y else y = Some item))
      (inv_view api i) (inv_view api i')"
    using for_items_view [OF puts_when [OF puts_set [OF assms(1), of "\<lambda>item. item\<lparr>is_nbt := nbt\<rparr>"],
        of "\<lambda>item. sellItemEscrowId item = Some k"], of i] assms(2)
    by (auto simp: restoreTaggedSellItems_def bindS_def liftS_def)
  then show ?thesis by (auto simp: written_def becomes_def elim!: list_all2_mono split: option.splits if_splits)
qed

lemma restore_view_prompt:
  assumes "prompt api" and "originalNbt h prototype = Inr nbt"
  shows "\<exists>i'. restoreTaggedSellItems h api k prototype i = (Inr (), i') \<and>
    inv_view api i' = map_items (\<lambda>item. if sellItemEscrowId item = Some k then Some (item\<lparr>is_nbt := nbt\<rparr>) else Some item) (inv_view api i)"
  using for_items_map [OF puts_when_fun [OF puts_prompt [OF assms(1), of "\<lambda>item. item\<lparr>is_nbt := nbt\<rparr>"]]] assms(2)
  by (simp add: restoreTaggedSellItems_def bindS_def liftS_def)

text \<open>A receipt is another kind of item than what was sold, so putting it takes effect.\<close>

lemma replace_view:
  assumes "inventory_laws api" and "sellReceipt h table api k language = Inr receipt"
    and "\<And>item. Some item \<in> set (inv_view api i) \<Longrightarrow> sellItemEscrowId item = Some k \<Longrightarrow> is_type item \<noteq> is_type receipt"
  shows "\<exists>i'. replaceTaggedSellItemsWithReceipts h table api k language i = (Inr (), i') \<and>
    inv_view api i' = map_items (\<lambda>item. if sellItemEscrowId item = Some k then Some receipt else Some item) (inv_view api i)"
proof -
  obtain i' where i': "replaceTaggedSellItemsWithReceipts h table api k language i = (Inr (), i')" "list_all2
      (becomes (\<lambda>item y. if sellItemEscrowId item = Some k then written (\<lambda>_. receipt) item y else y = Some item))
      (inv_view api i) (inv_view api i')"
    unfolding replaceTaggedSellItemsWithReceipts_def assms(2) bindS_liftS
    using for_items_view [OF puts_when [OF puts_set [OF assms(1), of "\<lambda>_. receipt"],
        of "\<lambda>item. sellItemEscrowId item = Some k"], of i] by blast
  have "becomes (\<lambda>item y. y = (if sellItemEscrowId item = Some k then Some receipt else Some item)) x y"
    if "x \<in> set (inv_view api i)" "becomes (\<lambda>item y. if sellItemEscrowId item = Some k then written (\<lambda>_. receipt) item y else y = Some item) x y"
    for x y
  proof (cases x)
    case (Some item)
    have "is_type item \<noteq> is_type receipt" if "sellItemEscrowId item = Some k"
      using \<open>x \<in> set (inv_view api i)\<close> that Some assms(3) by blast
    with that(2) Some show ?thesis by (auto simp: written_def only_nbt_def split: if_splits)
  qed (use that(2) in simp)
  then have "list_all2 (becomes (\<lambda>item y. y = (if sellItemEscrowId item = Some k then Some receipt else Some item)))
      (inv_view api i) (inv_view api i')"
    using i'(2) by (auto elim!: list.rel_mono_strong)
  then show ?thesis using i'(1) unfolding becomes_map_items by blast
qed

lemma map_of_erase: "map_of (erase_key k c) j = (if j = k then None else map_of c j)"
  by (induction c) (auto simp: erase_key_def)

lemma markerId_erase: "markerId (erase_key marker c) marker = None"
  by (simp add: markerId_def map_of_erase)

lemma clear_item_marker_eq:
  "clear_item_marker marker item k = (if markerId (is_nbt item) marker = Some k
     then (True, item\<lparr>is_nbt := erase_key marker (is_nbt item)\<rparr>) else (False, item))"
  by (simp add: clear_item_marker_def clear_nbt_marker_def markerId_erase Let_def)

text \<open>Emptying the place first makes any replacement take effect.\<close>

lemma puts_rewrite:
  assumes "inventory_laws api"
  shows "puts api (\<lambda>item y. y = Some (u item)) (\<lambda>n item. bindS (executeS (inv_clear api n)) (\<lambda>_. executeS (inv_set api n (u item))))
    (\<lambda>item. bindS (executeS (inv_set_off api None)) (\<lambda>_. executeS (inv_set_off api (Some (u item)))))"
proof -
  have "inv_view api (inv_set api n x (inv_clear api n i)) = (inv_view api i)[n := Some x]" if n: "n < inv_size api i" for n x i
  proof -
    note c = inventory_lawsD(3) [OF assms n]
    then have "inv_size api (inv_clear api n i) = inv_size api i" by (rule view_size) simp
    with inventory_lawsD(2) [OF assms, of n "inv_clear api n i" x] n c show ?thesis
      by (simp add: replaced_sure)
  qed
  moreover have "inv_view api (inv_set_off api x (inv_set_off api None i)) = (inv_view api i)[inv_size api i := x]" for x i
  proof -
    have c: "inv_view api (inv_set_off api None i) = (inv_view api i)[inv_size api i := None]"
      using inventory_lawsD(4) [OF assms, of i None] by (simp add: replaced_sure)
    then have "inv_size api (inv_set_off api None i) = inv_size api i" by (rule view_size) simp
    with inventory_lawsD(4) [OF assms, of "inv_set_off api None i" x] c show ?thesis by (simp add: replaced_sure)
  qed
  ultimately show ?thesis by (auto simp: puts_def executeS_def bindS_def)
qed

lemma clear_claim_view:
  assumes "inventory_laws api"
  shows "\<exists>i'. clearDeliveryClaimTag api k i = (Inr (), i') \<and> inv_view api i' = map_items
    (\<lambda>item. if deliveryClaimId item = Some k then Some (item\<lparr>is_nbt := erase_key DeliveryClaimTag (is_nbt item)\<rparr>) else Some item)
    (inv_view api i)"
proof -
  have "clearDeliveryClaimTag api k = for_items api
     (\<lambda>slot item. whenS (deliveryClaimId item = Some k) (bindS (executeS (inv_clear api slot))
       (\<lambda>_. executeS (inv_set api slot (item\<lparr>is_nbt := erase_key DeliveryClaimTag (is_nbt item)\<rparr>)))))
     (\<lambda>item. whenS (deliveryClaimId item = Some k) (bindS (executeS (inv_set_off api None))
       (\<lambda>_. executeS (inv_set_off api (Some (item\<lparr>is_nbt := erase_key DeliveryClaimTag (is_nbt item)\<rparr>))))))"
    unfolding clearDeliveryClaimTag_def
    by (rule arg_cong2 [where f = "for_items api"])
      (auto simp: fun_eq_iff clear_item_marker_eq deliveryClaimId_def whenS_def)
  then show ?thesis using for_items_map [OF puts_when_fun [OF puts_rewrite [OF assms]]] by auto
qed

section \<open>Counting\<close>

definition amounts :: "(ItemStack \<Rightarrow> bool) \<Rightarrow> ItemStack option list \<Rightarrow> int" where
  "amounts c v = (\<Sum>x\<leftarrow>v. case x of None \<Rightarrow> 0 | Some item \<Rightarrow> if c item then is_amount item else 0)"

definition stacks :: "(ItemStack \<Rightarrow> bool) \<Rightarrow> ItemStack option list \<Rightarrow> int" where
  "stacks c v = (\<Sum>x\<leftarrow>v. case x of None \<Rightarrow> 0 | Some item \<Rightarrow> if c item then 1 else 0)"

lemma sum_map_filter: "(\<Sum>x\<leftarrow>filter c (List.map_filter id v). is_amount x) = amounts c v"
  by (induction v) (auto simp: amounts_def List.map_filter_simps split: option.splits)

lemma length_map_filter: "int (length (filter c (List.map_filter id v))) = stacks c v"
  by (induction v) (auto simp: stacks_def List.map_filter_simps split: option.splits)

lemma marked_count_view: "inventory_laws api \<Longrightarrow> marked_count marker api k i = amounts (\<lambda>item. marker item = Some k) (inv_view api i)"
  by (simp add: marked_count_def inv_items_view sum_map_filter)

lemma taggedSellItems_view: "inventory_laws api \<Longrightarrow> taggedSellItems api k i =
    \<lparr>ts_quantity = amounts (\<lambda>item. sellItemEscrowId item = Some k) (inv_view api i),
     ts_stacks = stacks (\<lambda>item. sellItemEscrowId item = Some k) (inv_view api i)\<rparr>"
  by (simp add: taggedSellItems_def marked_count_view inv_items_view length_map_filter)

lemma without_marked_none [simp]:
  "amounts (\<lambda>item. marker item = Some k) (without_marked marker k v) = 0"
  "stacks (\<lambda>item. marker item = Some k) (without_marked marker k v) = 0"
  by (induction v) (auto simp: amounts_def stacks_def without_marked_def map_items_def split: option.splits)

section \<open>Which items can be sold\<close>

definition host_laws :: "host \<Rightarrow> bool" where
  "host_laws h \<longleftrightarrow> (\<forall>k v c. map_of (h_assign h k v c) = (map_of c)(k \<mapsto> v))"

lemma markerId_setMarker:
  assumes "host_laws h" and "k < 2 ^ 64"
  shows "markerId (is_nbt (setMarker h item marker k)) m = (if m = marker then Some k else markerId (is_nbt item) m)"
  using assms by (simp add: markerId_def setMarker_def host_laws_def stoull_dec_nat)

lemma setMarker_same [simp]:
  "is_type (setMarker h item marker k) = is_type item" "is_data (setMarker h item marker k) = is_data item"
  "is_amount (setMarker h item marker k) = is_amount item"
  by (simp_all add: setMarker_def)

definition sellable :: "host \<Rightarrow> ItemPrototype \<Rightarrow> ItemStack \<Rightarrow> bool" where
  "sellable h prototype item \<longleftrightarrow> \<not> isInternalEscrowItem item \<and> item_matches h prototype item = Inr True"

lemma item_matches_eq:
  assumes "decoded_nbt h prototype = Inr nbt"
  shows "item_matches h prototype item =
    Inr (is_type item = item_type prototype \<and> is_data item = item_data prototype \<and> h_equal h (is_nbt item) nbt)"
  using assms by (simp add: item_matches_def matchesItemIdentity_def)

lemma sellable_loop_eq:
  assumes "decoded_nbt h prototype = Inr nbt"
  shows "sellable_loop h prototype items n = Inr (n + (\<Sum>x\<leftarrow>filter (sellable h prototype) items. is_amount x))"
  by (induction items arbitrary: n) (auto simp: item_matches_eq [OF assms] sellable_def)

lemma sellableItemCount_view:
  assumes "inventory_laws api" and "decoded_nbt h prototype = Inr nbt"
  shows "sellableItemCount h api prototype i = Inr (amounts (sellable h prototype) (inv_view api i))"
  by (simp add: sellableItemCount_def sellable_loop_eq [OF assms(2)] inv_items_view [OF assms(1)] sum_map_filter)

lemma gather_eq:
  assumes "decoded_nbt h prototype = Inr nbt"
  shows "\<exists>t. gather h prototype items g = Inr \<lparr>g_same_type = t,
    g_available = g_available g + (\<Sum>c\<leftarrow>filter (\<lambda>c. sellable h prototype (snd c)) items. is_amount (snd c)),
    g_candidates = g_candidates g @ filter (\<lambda>c. sellable h prototype (snd c)) items\<rparr>"
proof (induction items arbitrary: g)
  case Nil
  show ?case by (cases g) simp
next
  case (Cons c items)
  obtain slot item where c: "c = (slot, item)" by (cases c)
  show ?case
  proof (cases "isInternalEscrowItem item")
    case True
    with Cons c show ?thesis by (simp add: sellable_def)
  next
    case False
    note m = item_matches_eq [OF assms, of item]
    let ?g1 = "if is_type item = item_type prototype then g\<lparr>g_same_type := g_same_type g + is_amount item\<rparr> else g"
    have g1: "g_available ?g1 = g_available g" "g_candidates ?g1 = g_candidates g" by simp_all
    show ?thesis
    proof (cases "sellable h prototype item")
      case True
      with False c Cons [of "?g1\<lparr>g_available := g_available ?g1 + is_amount item, g_candidates := g_candidates ?g1 @ [(slot, item)]\<rparr>"] g1
      show ?thesis by (simp add: sellable_def add_ac Let_def del: if_split)
    next
      case no: False
      with False m have "item_matches h prototype item = Inr False" by (auto simp: sellable_def)
      with False no c Cons [of ?g1] g1 show ?thesis by (simp add: Let_def del: if_split)
    qed
  qed
qed

section \<open>Candidates and positions\<close>

definition position :: "nat \<Rightarrow> nat option \<Rightarrow> nat" where
  "position sz slot = (case slot of None \<Rightarrow> sz | Some n \<Rightarrow> n)"

definition placed :: "nat \<Rightarrow> ItemStack option list \<Rightarrow> candidate \<Rightarrow> bool" where
  "placed sz v c \<longleftrightarrow> (case fst c of None \<Rightarrow> True | Some n \<Rightarrow> n < sz) \<and> v ! position sz (fst c) = Some (snd c)"

lemma placed_le: "placed sz v c \<Longrightarrow> position sz (fst c) \<le> sz"
  by (auto simp: placed_def position_def split: option.splits)

lemma slot_items_placed: "c \<in> set (slot_items api i) \<Longrightarrow> placed (inv_size api i) (inv_view api i) c"
  by (auto simp: slot_items_def List.map_filter_def placed_def position_def split: option.splits)

lemma distinct_map_filter: "distinct xs \<Longrightarrow> (\<And>x. x \<in> set xs \<Longrightarrow> f x \<noteq> None \<Longrightarrow> g (the (f x)) = x) \<Longrightarrow>
    distinct (map g (List.map_filter f xs))"
  by (induction xs) (fastforce simp: List.map_filter_def)+

lemma slot_items_distinct: "distinct (map (\<lambda>c. position (inv_size api i) (fst c)) (slot_items api i))"
proof -
  let ?g = "\<lambda>c :: candidate. position (inv_size api i) (fst c)"
  define l where "l = List.map_filter (\<lambda>slot. map_option (\<lambda>item. (Some slot, item)) (inv_item api i slot)) [0..<inv_size api i]"
  have d: "distinct (map ?g l)"
    unfolding l_def by (rule distinct_map_filter) (auto simp: position_def)
  have less: "?g c < inv_size api i" if "c \<in> set l" for c
    using that by (auto simp: l_def List.map_filter_def position_def)
  have "inv_size api i \<notin> ?g ` set l"
  proof
    assume "inv_size api i \<in> ?g ` set l"
    then obtain c where "c \<in> set l" "?g c = inv_size api i" by (elim imageE) simp
    with less show False by fastforce
  qed
  moreover have "slot_items api i = l @ (case inv_off api i of None \<Rightarrow> [] | Some item \<Rightarrow> [(None, item)])"
    by (simp add: slot_items_def l_def)
  ultimately show ?thesis using d
    by (cases "inv_off api i") (simp_all add: position_def [of _ None])
qed

lemma slot_items_amounts:
  "(\<Sum>c\<leftarrow>filter (\<lambda>c. P (snd c)) (slot_items api i). is_amount (snd c)) = amounts P (inv_view api i)"
proof -
  have "(\<Sum>c\<leftarrow>filter (\<lambda>c. P (snd c)) (List.map_filter (\<lambda>slot. map_option (\<lambda>item. (Some slot, item)) (inv_item api i slot)) xs).
      is_amount (snd c)) = amounts P (map (inv_item api i) xs)" for xs :: "nat list"
    by (induction xs) (auto simp: amounts_def List.map_filter_simps split: option.splits)
  then show ?thesis
    by (simp add: slot_items_def inv_view_def) (auto simp: amounts_def split: option.splits)
qed

section \<open>The tagging loop\<close>

definition write_all :: "host \<Rightarrow> Id \<Rightarrow> nat \<Rightarrow> candidate list \<Rightarrow> ItemStack option list \<Rightarrow> ItemStack option list" where
  "write_all h k sz cs v = foldl (\<lambda>v c. v[position sz (fst c) := Some (setMarker h (snd c) SellItemTag k)]) v cs"

lemma write_all_simps [simp]:
  "write_all h k sz [] v = v"
  "write_all h k sz (c # cs) v = write_all h k sz cs (v[position sz (fst c) := Some (setMarker h (snd c) SellItemTag k)])"
  "length (write_all h k sz cs v) = length v"
  by (simp_all add: write_all_def) (induction cs arbitrary: v; simp)

lemma subseq_facts:
  assumes "subseq xs ys"
  shows "set xs \<subseteq> set ys" "distinct ys \<Longrightarrow> distinct xs"
proof -
  have "set xs \<subseteq> set ys \<and> (distinct ys \<longrightarrow> distinct xs)"
    using assms by (induction rule: list_emb.induct) auto
  then show "set xs \<subseteq> set ys" "distinct ys \<Longrightarrow> distinct xs" by blast+
qed

text \<open>Of the candidates the loop goes through, those are marked whose replacement takes effect.\<close>

lemma tag_loop_run:
  assumes laws: "inventory_laws api"
  shows "inv_size api i = sz \<Longrightarrow> \<forall>c \<in> set cs. case fst c of None \<Rightarrow> True | Some n \<Rightarrow> n < sz \<Longrightarrow>
    \<exists>n ws i'. n \<le> length cs \<and> subseq ws (take n cs) \<and> (prompt api \<longrightarrow> ws = take n cs) \<and> tag_loop h api requested k cs r i =
        (Inr \<lparr>ts_quantity = ts_quantity r + (\<Sum>c\<leftarrow>take n cs. is_amount (snd c)), ts_stacks = ts_stacks r + int n\<rparr>, i') \<and>
      (n = length cs \<or> requested \<le> ts_quantity r + (\<Sum>c\<leftarrow>take n cs. is_amount (snd c))) \<and>
      inv_view api i' = write_all h k sz ws (inv_view api i)"
proof (induction cs arbitrary: i r)
  case Nil
  show ?case by (intro exI [of _ 0] exI [of _ "[]"] exI [of _ i]) (cases r, simp add: returnS_def)
next
  case (Cons c cs)
  obtain slot item where c: "c = (slot, item)" by (cases c)
  show ?case
  proof (cases "ts_quantity r \<ge> requested")
    case True
    with c show ?thesis by (intro exI [of _ 0] exI [of _ "[]"] exI [of _ i]) (cases r, simp add: returnS_def)
  next
    case False
    let ?item = "setMarker h item SellItemTag k"
    obtain i1 where i1: "(case slot of None \<Rightarrow> inv_set_off api (Some ?item) | Some n \<Rightarrow> inv_set api n ?item) i = i1" by blast
    have "replaced (inv_view api i) (position sz slot) (Some ?item) (inv_view api i1)"
      using i1 Cons.prems c inventory_lawsD(2,4) [OF laws] by (auto simp: position_def split: option.splits)
    note rep = this
    then have v1: "inv_view api i1 = (inv_view api i)[position sz slot := Some ?item] \<or> inv_view api i1 = inv_view api i"
      by (auto simp: replaced_def)
    have sz1: "inv_size api i1 = sz" using replaced_length [OF rep] Cons.prems(1) by simp
    have v1p: "inv_view api i1 = (inv_view api i)[position sz slot := Some ?item]" if "prompt api"
      using i1 Cons.prems c promptD [OF that] by (auto simp: position_def split: option.splits)
    from Cons.IH [OF sz1, of "\<lparr>ts_quantity = ts_quantity r + is_amount item, ts_stacks = ts_stacks r + 1\<rparr>"] Cons.prems(2)
    obtain n ws i' where IH: "n \<le> length cs" "subseq ws (take n cs)" "prompt api \<longrightarrow> ws = take n cs" "tag_loop h api requested k cs \<lparr>ts_quantity = ts_quantity r + is_amount item, ts_stacks = ts_stacks r + 1\<rparr> i1 =
        (Inr \<lparr>ts_quantity = ts_quantity r + is_amount item + (\<Sum>c\<leftarrow>take n cs. is_amount (snd c)), ts_stacks = ts_stacks r + 1 + int n\<rparr>, i')"
      "n = length cs \<or> requested \<le> ts_quantity r + is_amount item + (\<Sum>c\<leftarrow>take n cs. is_amount (snd c))"
      "inv_view api i' = write_all h k sz ws (inv_view api i1)" by auto
    have "tag_loop h api requested k (c # cs) r i = tag_loop h api requested k cs
        \<lparr>ts_quantity = ts_quantity r + is_amount item, ts_stacks = ts_stacks r + 1\<rparr> i1"
      using False i1 by (simp add: c bindS_def executeS_def Let_def)
    note run = this
    obtain ws' where ws': "inv_view api i' = write_all h k sz ws' (inv_view api i)" "subseq ws' (c # take n cs)"
      "prompt api \<longrightarrow> ws' = c # take n cs"
    proof (cases "inv_view api i1 = (inv_view api i)[position sz slot := Some ?item]")
      case True
      with IH(2,3,6) that [of "c # ws"] show thesis by (simp add: c)
    next
      case no: False
      with v1 v1p IH(2,6) that [of ws] show thesis by (auto intro: subseq_Cons')
    qed
    with IH(1,4,5) run show ?thesis by (intro exI [of _ "Suc n"] exI [of _ ws'] exI [of _ i']) (auto simp: c add_ac)
  qed
qed

text \<open>What the written stacks change of a weighted sum over the inventory, and at each position.\<close>

lemma sum_update:
  fixes f :: "'a \<Rightarrow> int"
  shows "n < length v \<Longrightarrow> (\<Sum>x\<leftarrow>v[n := y]. f x) = (\<Sum>x\<leftarrow>v. f x) - f (v ! n) + f y"
  by (induction v arbitrary: n) (auto split: nat.splits)

lemma write_all_sum:
  fixes f :: "ItemStack option \<Rightarrow> int"
  assumes "\<And>c. c \<in> set cs \<Longrightarrow> f (Some (setMarker h (snd c) SellItemTag k)) = f (Some (snd c)) + d c"
  shows "distinct (map (\<lambda>c. position sz (fst c)) cs) \<Longrightarrow> \<forall>c \<in> set cs. placed sz v c \<Longrightarrow> length v = Suc sz \<Longrightarrow>
    (\<Sum>x\<leftarrow>write_all h k sz cs v. f x) = (\<Sum>x\<leftarrow>v. f x) + (\<Sum>c\<leftarrow>cs. d c)"
  using assms
proof (induction cs arbitrary: v)
  case (Cons c cs)
  let ?p = "position sz (fst c)" and ?y = "Some (setMarker h (snd c) SellItemTag k)"
  have p: "?p < length v" "v ! ?p = Some (snd c)"
    using Cons.prems placed_le [of sz v c] by (auto simp: placed_def)
  have "\<forall>e \<in> set cs. placed sz (v[?p := ?y]) e"
  proof
    fix e assume "e \<in> set cs"
    then have "position sz (fst e) \<noteq> ?p" "placed sz v e" using Cons.prems(1,2) by auto (metis image_eqI)
    then show "placed sz (v[?p := ?y]) e" by (simp add: placed_def)
  qed
  with Cons have "(\<Sum>x\<leftarrow>write_all h k sz cs (v[?p := ?y]). f x) = (\<Sum>x\<leftarrow>v[?p := ?y]. f x) + (\<Sum>c\<leftarrow>cs. d c)" by simp
  also have "(\<Sum>x\<leftarrow>v[?p := ?y]. f x) = (\<Sum>x\<leftarrow>v. f x) + d c"
    using sum_update [OF p(1), of f ?y] p(2) Cons.prems(4) [of c] by simp
  finally show ?case by simp
qed simp

lemma write_all_nth:
  assumes "distinct (map (\<lambda>c. position sz (fst c)) cs)" and "\<forall>c \<in> set cs. placed sz v c" and "length v = Suc sz" and "m \<le> sz"
  shows "write_all h k sz cs v ! m = v ! m \<or>
    (\<exists>c \<in> set cs. v ! m = Some (snd c) \<and> write_all h k sz cs v ! m = Some (setMarker h (snd c) SellItemTag k))"
  using assms
proof (induction cs arbitrary: v)
  case (Cons c cs)
  let ?p = "position sz (fst c)" and ?y = "Some (setMarker h (snd c) SellItemTag k)"
  have other: "position sz (fst e) \<noteq> ?p" "placed sz v e" if "e \<in> set cs" for e
    using Cons.prems(1,2) that by auto (metis image_eqI)
  then have pl: "\<forall>e \<in> set cs. placed sz (v[?p := ?y]) e"
    using other(1) [THEN not_sym] by (simp add: placed_def)
  show ?case
  proof (cases "m = ?p")
    case True
    have notin: "?p \<notin> (\<lambda>e. position sz (fst e)) ` set cs" using Cons.prems(1) by simp
    have keep: "write_all h k sz es w ! ?p = w ! ?p" if "?p \<notin> (\<lambda>e. position sz (fst e)) ` set es" for es w
      using that by (induction es arbitrary: w) auto
    from keep [OF notin] Cons.prems placed_le [of sz v c] True show ?thesis by (auto simp: placed_def)
  next
    case False
    from Cons.IH [OF _ pl] Cons.prems False show ?thesis by auto
  qed
qed simp

section \<open>The outcome of tagging\<close>

definition tagged_as :: "host \<Rightarrow> ItemPrototype \<Rightarrow> Id \<Rightarrow> ItemStack option list \<Rightarrow> candidate list \<Rightarrow> TaggedSellItems \<Rightarrow>
    ItemStack option list \<Rightarrow> bool" where
  "tagged_as h prototype k v cs r v' \<longleftrightarrow>
    distinct (map (\<lambda>c. position (length v - 1) (fst c)) cs) \<and>
    (\<forall>c \<in> set cs. placed (length v - 1) v c \<and> sellable h prototype (snd c)) \<and>
    v' = write_all h k (length v - 1) cs v \<and>
    r = \<lparr>ts_quantity = (\<Sum>c\<leftarrow>cs. is_amount (snd c)), ts_stacks = int (length cs)\<rparr>"

lemma sum_list_perm: "mset xs = mset ys \<Longrightarrow> (\<Sum>x\<leftarrow>xs. f x) = (\<Sum>x\<leftarrow>ys. (f x :: int))"
  by (metis mset_map sum_mset_sum_list)

lemma tagSellItems_outcome:
  assumes laws: "inventory_laws api" and dec: "decoded_nbt h prototype = Inr nbt" and req: "0 < requested"
    and run: "tagSellItems h table api prototype requested k language name i = (res, i')"
  shows "if amounts (sellable h prototype) (inv_view api i) < requested then isl res \<and> i' = i
    else \<exists>r cs p. res = Inr r \<and> requested \<le> ts_quantity r \<and> tagged_as h prototype k (inv_view api i) cs p (inv_view api i') \<and>
      (prompt api \<longrightarrow> p = r)"
proof -
  let ?cs = "filter (\<lambda>c. sellable h prototype (snd c)) (slot_items api i)"
  obtain t where g: "gather h prototype (slot_items api i) \<lparr>g_same_type = 0, g_available = 0, g_candidates = []\<rparr> =
      Inr \<lparr>g_same_type = t, g_available = amounts (sellable h prototype) (inv_view api i), g_candidates = ?cs\<rparr>"
    using gather_eq [OF dec, of "slot_items api i" "\<lparr>g_same_type = 0, g_available = 0, g_candidates = []\<rparr>"]
    by (auto simp: slot_items_amounts)
  show ?thesis
  proof (cases "amounts (sellable h prototype) (inv_view api i) < requested")
    case True
    with run g req show ?thesis
      by (auto simp: tagSellItems_def bindS_def throwIf_def returnS_def queryS_def liftS_def throwS_def
          split: sum.splits if_splits)
  next
    case False
    let ?sorted = "sort_key (\<lambda>c. is_amount (snd c)) ?cs"
    have run': "tag_loop h api requested k ?sorted \<lparr>ts_quantity = 0, ts_stacks = 0\<rparr> i = (res, i')"
      using run g req False by (simp add: tagSellItems_def bindS_def throwIf_def returnS_def queryS_def liftS_def)
    have pl: "\<forall>c \<in> set ?sorted. placed (inv_size api i) (inv_view api i) c \<and> sellable h prototype (snd c)"
      using slot_items_placed by auto
    then have "\<forall>c \<in> set ?sorted. case fst c of None \<Rightarrow> True | Some n \<Rightarrow> n < inv_size api i"
      by (simp add: placed_def)
    from tag_loop_run [OF laws refl this, of h requested k "\<lparr>ts_quantity = 0, ts_stacks = 0\<rparr>"] run' obtain n ws where n:
      "n \<le> length ?sorted" "res = Inr \<lparr>ts_quantity = (\<Sum>c\<leftarrow>take n ?sorted. is_amount (snd c)), ts_stacks = int n\<rparr>"
      "n = length ?sorted \<or> requested \<le> (\<Sum>c\<leftarrow>take n ?sorted. is_amount (snd c))"
      "inv_view api i' = write_all h k (inv_size api i) ws (inv_view api i)"
      and ws: "subseq ws (take n ?sorted)" "prompt api \<longrightarrow> ws = take n ?sorted" by auto
    have "distinct (map (\<lambda>c. position (inv_size api i) (fst c)) ?sorted)"
      using slot_items_distinct [of api i] by (auto simp: distinct_map inj_on_def)
    then have "distinct (map (\<lambda>c. position (inv_size api i) (fst c)) (take n ?sorted))"
      unfolding take_map [symmetric] by (rule distinct_take)
    then have dist: "distinct (map (\<lambda>c. position (inv_size api i) (fst c)) ws)"
      by (rule subseq_facts(2) [OF subseq_map [OF ws(1)]])
    have enough: "requested \<le> (\<Sum>c\<leftarrow>take n ?sorted. is_amount (snd c))"
      using n(3)
    proof
      assume "n = length ?sorted"
      then have "(\<Sum>c\<leftarrow>take n ?sorted. is_amount (snd c)) = (\<Sum>c\<leftarrow>?sorted. is_amount (snd c))" by simp
      also have "\<dots> = (\<Sum>c\<leftarrow>?cs. is_amount (snd c))" by (rule sum_list_perm) simp
      also have "\<dots> = amounts (sellable h prototype) (inv_view api i)" by (rule slot_items_amounts)
      finally have "(\<Sum>c\<leftarrow>take n ?sorted. is_amount (snd c)) = amounts (sellable h prototype) (inv_view api i)" .
      with False show ?thesis by simp
    qed
    have sz: "length (inv_view api i) - 1 = inv_size api i" by simp
    have "set ws \<subseteq> set ?sorted" using subseq_facts(1) [OF ws(1)] set_take_subset [of n ?sorted] by blast
    then have ok: "\<forall>c \<in> set ws. placed (inv_size api i) (inv_view api i) c \<and> sellable h prototype (snd c)"
      using pl by blast
    have "tagged_as h prototype k (inv_view api i) ws
        \<lparr>ts_quantity = (\<Sum>c\<leftarrow>ws. is_amount (snd c)), ts_stacks = int (length ws)\<rparr> (inv_view api i')"
      unfolding tagged_as_def sz by (intro conjI dist ok n(4) refl)
    moreover have "prompt api \<longrightarrow> \<lparr>ts_quantity = (\<Sum>c\<leftarrow>ws. is_amount (snd c)), ts_stacks = int (length ws)\<rparr> =
        \<lparr>ts_quantity = (\<Sum>c\<leftarrow>take n ?sorted. is_amount (snd c)), ts_stacks = int n\<rparr>"
    proof
      assume "prompt api"
      with ws(2) have w: "ws = take n ?sorted" by blast
      from n(1) have "length (take n ?sorted) = n" by (simp only: length_take min_absorb2)
      then show "\<lparr>ts_quantity = (\<Sum>c\<leftarrow>ws. is_amount (snd c)), ts_stacks = int (length ws)\<rparr> =
        \<lparr>ts_quantity = (\<Sum>c\<leftarrow>take n ?sorted. is_amount (snd c)), ts_stacks = int n\<rparr>" unfolding w by simp
    qed
    ultimately show ?thesis unfolding if_not_P [OF False]
      by (intro exI [of _ "\<lparr>ts_quantity = (\<Sum>c\<leftarrow>take n ?sorted. is_amount (snd c)), ts_stacks = int n\<rparr>"] exI [of _ ws]
          exI [of _ "\<lparr>ts_quantity = (\<Sum>c\<leftarrow>ws. is_amount (snd c)), ts_stacks = int (length ws)\<rparr>"] conjI n(2))
        (use enough in simp, assumption+)
  qed
qed

text \<open>Two stacks are the same if they differ at most in equal NBT data.\<close>

definition same_stack :: "host \<Rightarrow> ItemStack option \<Rightarrow> ItemStack option \<Rightarrow> bool" where
  "same_stack h x y \<longleftrightarrow> (case (x, y) of (None, None) \<Rightarrow> True
   | (Some a, Some b) \<Rightarrow> is_type a = is_type b \<and> is_data a = is_data b \<and> is_amount a = is_amount b \<and>
       (is_nbt b = is_nbt a \<or> h_equal h (is_nbt a) (is_nbt b))
   | _ \<Rightarrow> False)"

definition unmarked :: "Id \<Rightarrow> ItemStack option list \<Rightarrow> bool" where
  "unmarked k v \<longleftrightarrow> (\<forall>item. Some item \<in> set v \<longrightarrow> sellItemEscrowId item \<noteq> Some k \<and> sellReceiptEscrowId item \<noteq> Some k)"

lemma tagged_as_facts:
  assumes h: "host_laws h" "k < 2 ^ 64" and dec: "decoded_nbt h prototype = Inr nbt"
    and t: "tagged_as h prototype k v cs r v'" and un: "unmarked k v" and v: "v \<noteq> []"
  shows "length v' = length v"
    "amounts (\<lambda>item. sellItemEscrowId item = Some k) v' = ts_quantity r"
    "stacks (\<lambda>item. sellItemEscrowId item = Some k) v' = ts_stacks r"
    "amounts (sellable h prototype) v' = amounts (sellable h prototype) v - ts_quantity r"
    "amounts (\<lambda>_. True) v' = amounts (\<lambda>_. True) v"
    "list_all2 (same_stack h) v (map_items (\<lambda>item. if sellItemEscrowId item = Some k then Some (item\<lparr>is_nbt := nbt\<rparr>) else Some item) v')"
    "list_all2 (\<lambda>x y. y = x \<or> (\<exists>item. x = Some item \<and> sellable h prototype item \<and> y = Some (setMarker h item SellItemTag k))) v v'"
    "stacks (\<lambda>item. sellReceiptEscrowId item = Some k) v' = 0"
proof -
  have cs: "distinct (map (\<lambda>c. position (length v - 1) (fst c)) cs)" "\<forall>c \<in> set cs. placed (length v - 1) v c"
    "\<And>c. c \<in> set cs \<Longrightarrow> sellable h prototype (snd c)" and v': "v' = write_all h k (length v - 1) cs v"
    and r: "ts_quantity r = (\<Sum>c\<leftarrow>cs. is_amount (snd c))" "ts_stacks r = int (length cs)"
    using t by (auto simp: tagged_as_def)
  have len: "length v = Suc (length v - 1)" using v by simp
  show l: "length v' = length v" by (simp add: v')
  have mk: "sellItemEscrowId (setMarker h item SellItemTag k) = Some k" "isInternalEscrowItem (setMarker h item SellItemTag k)"
    "sellReceiptEscrowId (setMarker h item SellItemTag k) = sellReceiptEscrowId item" for item
    by (simp_all add: sellItemEscrowId_def isInternalEscrowItem_def sellReceiptEscrowId_def markerId_setMarker [OF h]
        SellItemTag_def SellReceiptTag_def)
  have old: "sellItemEscrowId (snd c) \<noteq> Some k" if "c \<in> set cs" for c
    using cs(3) [OF that] by (auto simp: sellable_def isInternalEscrowItem_def)
  have sold: "\<not> sellable h prototype (setMarker h item SellItemTag k)" for item
    by (simp add: sellable_def mk)
  have negated: "(\<Sum>c\<leftarrow>es. - is_amount (snd c)) = - (\<Sum>c\<leftarrow>es. is_amount (snd c))" for es :: "candidate list"
    by (induction es) simp_all
  have none: "amounts (\<lambda>item. sellItemEscrowId item = Some k) v = 0" "stacks (\<lambda>item. sellItemEscrowId item = Some k) v = 0"
    "stacks (\<lambda>item. sellReceiptEscrowId item = Some k) v = 0"
    using un unfolding amounts_def stacks_def unmarked_def
    by (induction v) (auto split: option.splits)
  show "amounts (\<lambda>item. sellItemEscrowId item = Some k) v' = ts_quantity r"
    using write_all_sum [OF _ cs(1,2) len, where f = "\<lambda>x. case x of None \<Rightarrow> 0 | Some item \<Rightarrow>
        if sellItemEscrowId item = Some k then is_amount item else 0" and d = "\<lambda>c. is_amount (snd c)" and h = h and k = k]
      none(1) old by (simp add: mk amounts_def v' r)
  show "stacks (\<lambda>item. sellItemEscrowId item = Some k) v' = ts_stacks r"
    using write_all_sum [OF _ cs(1,2) len, where f = "\<lambda>x. case x of None \<Rightarrow> 0 | Some item \<Rightarrow>
        if sellItemEscrowId item = Some k then 1 else 0" and d = "\<lambda>c. 1" and h = h and k = k]
      none(2) old by (simp add: mk stacks_def v' r sum_list_triv)
  show "amounts (sellable h prototype) v' = amounts (sellable h prototype) v - ts_quantity r"
    using write_all_sum [OF _ cs(1,2) len, where f = "\<lambda>x. case x of None \<Rightarrow> 0 | Some item \<Rightarrow>
        if sellable h prototype item then is_amount item else 0" and d = "\<lambda>c. - is_amount (snd c)" and h = h and k = k]
      cs(3) by (simp add: sold amounts_def v' r negated)
  show "amounts (\<lambda>_. True) v' = amounts (\<lambda>_. True) v"
    using write_all_sum [OF _ cs(1,2) len, where f = "\<lambda>x. case x of None \<Rightarrow> 0 | Some item \<Rightarrow> is_amount item"
        and d = "\<lambda>c. 0" and h = h and k = k] by (simp add: amounts_def v' cong: option.case_cong)
  show "stacks (\<lambda>item. sellReceiptEscrowId item = Some k) v' = 0"
    using write_all_sum [OF _ cs(1,2) len, where f = "\<lambda>x. case x of None \<Rightarrow> 0 | Some item \<Rightarrow>
        if sellReceiptEscrowId item = Some k then 1 else 0" and d = "\<lambda>c. 0" and h = h and k = k]
      none(3) by (simp add: mk stacks_def v')
  have nth: "v' ! m = v ! m \<or> (\<exists>item. v ! m = Some item \<and> sellable h prototype item \<and> v' ! m = Some (setMarker h item SellItemTag k))"
    if "m < length v" for m
    using write_all_nth [OF cs(1,2) len, of m h k] that cs(3) v' by fastforce
  then show "list_all2 (\<lambda>x y. y = x \<or> (\<exists>item. x = Some item \<and> sellable h prototype item \<and> y = Some (setMarker h item SellItemTag k))) v v'"
    by (simp add: list_all2_conv_all_nth l)
  have "same_stack h (v ! m) (case v' ! m of None \<Rightarrow> None | Some item \<Rightarrow>
      if sellItemEscrowId item = Some k then Some (item\<lparr>is_nbt := nbt\<rparr>) else Some item)" if "m < length v" for m
    using nth [OF that]
  proof
    assume "v' ! m = v ! m"
    moreover have "sellItemEscrowId item \<noteq> Some k" if "v ! m = Some item" for item
      using un \<open>m < length v\<close> that nth_mem [of m v] by (auto simp: unmarked_def)
    ultimately show ?thesis by (auto simp: same_stack_def split: option.splits)
  next
    assume "\<exists>item. v ! m = Some item \<and> sellable h prototype item \<and> v' ! m = Some (setMarker h item SellItemTag k)"
    then show ?thesis
      by (auto simp: same_stack_def mk sellable_def item_matches_eq [OF dec])
  qed
  then show "list_all2 (same_stack h) v (map_items (\<lambda>item. if sellItemEscrowId item = Some k then Some (item\<lparr>is_nbt := nbt\<rparr>) else Some item) v')"
    by (simp add: list_all2_conv_all_nth l map_items_def)
qed

section \<open>Properties\<close>

text \<open>
  Offering items is all or nothing and can be undone: with too few sellable items \<open>tagSellItems\<close>
  throws and touches nothing; otherwise, in a prompt inventory, whole stacks of at least the requested quantity are marked,
  recounting the marked stacks gives exactly the reported quantity and number of stacks, just these
  stop being sellable, and \<open>restoreTaggedSellItems\<close> puts every stack back as it was.
\<close>

theorem tagSellItems_restorable:
  assumes "inventory_laws api" and "host_laws h" and "k < 2 ^ 64" and "decoded_nbt h prototype = Inr nbt"
    and "0 < requested" and "unmarked k (inv_view api i)" and "prompt api"
    and "tagSellItems h table api prototype requested k language name i = (res, i')"
  shows "case res of
      Inl e \<Rightarrow> i' = i \<and> (\<exists>n. sellableItemCount h api prototype i = Inr n \<and> n < requested)
    | Inr r \<Rightarrow> requested \<le> ts_quantity r \<and> taggedSellItems api k i' = r \<and>
        (\<exists>n. sellableItemCount h api prototype i = Inr n \<and> sellableItemCount h api prototype i' = Inr (n - ts_quantity r)) \<and>
        (\<exists>i''. restoreTaggedSellItems h api k prototype i' = (Inr (), i'') \<and>
          list_all2 (same_stack h) (inv_view api i) (inv_view api i''))"
proof -
  note O = tagSellItems_outcome [OF assms(1,4,5,8)] and count = sellableItemCount_view [OF assms(1,4)]
  show ?thesis
  proof (cases "amounts (sellable h prototype) (inv_view api i) < requested")
    case True
    with O count show ?thesis by (cases res) simp_all
  next
    case False
    with O assms(7) obtain r cs where r: "res = Inr r" "requested \<le> ts_quantity r"
      "tagged_as h prototype k (inv_view api i) cs r (inv_view api i')" by auto
    have "inv_view api i \<noteq> []" by (simp add: inv_view_def)
    note F = tagged_as_facts [OF assms(2-4) r(3) assms(6) this]
    have orig: "originalNbt h prototype = Inr nbt" using assms(4) by (simp add: originalNbt_def)
    obtain i'' where i'': "restoreTaggedSellItems h api k prototype i' = (Inr (), i'')" "inv_view api i'' =
        map_items (\<lambda>item. if sellItemEscrowId item = Some k then Some (item\<lparr>is_nbt := nbt\<rparr>) else Some item) (inv_view api i')"
      using restore_view_prompt [OF assms(7) orig, of k i'] by blast
    have "taggedSellItems api k i' = r" by (simp add: taggedSellItems_view [OF assms(1)] F(2,3))
    moreover have "list_all2 (same_stack h) (inv_view api i) (inv_view api i'')" using F(6) i''(2) by simp
    ultimately show ?thesis using r i''(1) count F(4) by auto
  qed
qed

text \<open>An inventory as a list of slots, for the examples.\<close>

type_synonym slots = "ItemStack option list \<times> ItemStack option"

text \<open>New stacks go to free slots; those without one are left over.\<close>

fun add_stacks :: "ItemStack list \<Rightarrow> ItemStack option list \<Rightarrow> (int \<times> ItemStack) list \<times> ItemStack option list" where
  "add_stacks [] v = ([], v)"
| "add_stacks (x # xs) [] = (zip [0..int (length xs)] (x # xs), [])"
| "add_stacks (x # xs) (None # v) = (case add_stacks xs v of (l, v') \<Rightarrow> (l, Some x # v'))"
| "add_stacks (x # xs) (Some y # v) = (case add_stacks (x # xs) v of (l, v') \<Rightarrow> (l, Some y # v'))"

definition slots_api :: "slots inventory_api" where
  "slots_api = \<lparr>inv_size = (\<lambda>i. length (fst i)), inv_item = (\<lambda>i n. if n < length (fst i) then fst i ! n else None),
     inv_contents = fst, inv_set = (\<lambda>n x i. ((fst i)[n := Some x], snd i)), inv_clear = (\<lambda>n i. ((fst i)[n := None], snd i)),
     inv_off = snd, inv_set_off = (\<lambda>x i. (fst i, x)),
     inv_add = (\<lambda>xs i. case add_stacks xs (fst i) of (l, v) \<Rightarrow> (l, (v, snd i))),
     item_stack_size = (\<lambda>x. 64), item_with_meta = (\<lambda>name lore item. Some item)\<rparr>"

lemma all_slots: "map (\<lambda>n. if n < length v then v ! n else None) [0..<length v] = v"
  by (rule nth_equalityI) simp_all

lemma slots_view: "inv_view slots_api i = fst i @ [snd i]"
  by (simp add: inv_view_def slots_api_def all_slots)

lemma slots_api_prompt: "prompt slots_api"
  unfolding prompt_def slots_view by (simp add: slots_api_def list_update_append)

lemma slots_api_laws: "inventory_laws slots_api"
  using promptD [OF slots_api_prompt] unfolding inventory_laws_def replaced_def slots_view
  by (simp add: slots_api_def all_slots list_update_append)

lemma map_of_assign_entry: "map_of (assign_entry k v c) = (map_of c)(k \<mapsto> v)"
  by (induction c) (auto simp: fun_eq_iff)

definition demo_host :: host where
  "demo_host = \<lparr>h_code = demo_code, h_assign = assign_entry, h_key_first = True, h_equal = (=),
     h_format_float = (\<lambda>w. []), h_format_double = (\<lambda>w. [])\<rparr>"

lemma demo_host_laws: "host_laws demo_host"
  by (simp add: host_laws_def demo_host_def map_of_assign_entry)

definition demo_stack :: "int \<Rightarrow> ItemStack" where
  "demo_stack n = \<lparr>is_type = ''minecraft:stone'', is_data = 0, is_amount = n, is_nbt = []\<rparr>"

definition demo_prototype :: ItemPrototype where
  "demo_prototype = \<lparr>item_type = ''minecraft:stone'', item_data = 0, item_nbt = [], item_name = ''Stone''\<rparr>"

definition demo_slots :: slots where
  "demo_slots = ([Some (demo_stack 10), None, Some (demo_stack 3)], Some (demo_stack 5))"

lemma demo_unmarked: "unmarked 7 (inv_view slots_api demo_slots)"
proof -
  have "list_all (\<lambda>x. case x of None \<Rightarrow> True | Some item \<Rightarrow> sellItemEscrowId item \<noteq> Some 7 \<and> sellReceiptEscrowId item \<noteq> Some 7)
    (inv_view slots_api demo_slots)" unfolding slots_view by code_simp
  then show ?thesis by (auto simp: unmarked_def list_all_iff split: option.splits)
qed

theorem tagSellItems_restorable_witness:
  "\<exists>r i' i''. tagSellItems demo_host [] slots_api demo_prototype 6 7 English [] demo_slots = (Inr r, i') \<and>
    taggedSellItems slots_api 7 i' = r \<and> restoreTaggedSellItems demo_host slots_api 7 demo_prototype i' = (Inr (), i'') \<and>
    list_all2 (same_stack demo_host) (inv_view slots_api demo_slots) (inv_view slots_api i'')"
proof -
  obtain res i' where run: "tagSellItems demo_host [] slots_api demo_prototype 6 7 English [] demo_slots = (res, i')"
    by (rule prod.exhaust)
  have dec: "decoded_nbt demo_host demo_prototype = Inr []" by (simp add: decoded_nbt_def demo_prototype_def)
  have "\<not> isl (fst (tagSellItems demo_host [] slots_api demo_prototype 6 7 English [] demo_slots))" by code_simp
  with run obtain r where r: "res = Inr r" by (auto simp: isl_def) (metis sum.exhaust_sel)
  from tagSellItems_restorable [OF slots_api_laws demo_host_laws _ dec _ demo_unmarked slots_api_prompt run] r run show ?thesis by auto
qed

end
