(* ===== verification/Frame_Listings.thy ===== *)
theory Frame_Listings
  imports Transfers
begin

text \<open>
  Single items sold out of an item frame (src/exchange_service.cpp): a listing is ACTIVE while it is
  offered, PAID once somebody bought it, DROPPED when the item left the frame, CLAIMED when the buyer
  has picked it up, CANCELED when the seller took it back. A target (the frame) is bound to at most
  one listing, from its creation until it is claimed or canceled.
\<close>

section \<open>Operations\<close>

definition frame_join :: "db \<Rightarrow> frame_binding_row \<Rightarrow> listing_row option" where
  "frame_join s b = listing_of s (fb_listing b)"

definition bound_listing :: "db \<Rightarrow> string \<Rightarrow> listing_row option" where
  "bound_listing s t = Option.bind (find (\<lambda>b. fb_target b = t) (frame_bindings s)) (frame_join s)"

definition findBoundFrameListing :: "string \<Rightarrow> FrameListing option dbm" where
  "findBoundFrameListing t = queryS (\<lambda>s. map_option listing_view (bound_listing s t))"

definition findFrameListing :: "Id \<Rightarrow> FrameListing option dbm" where
  "findFrameListing i = queryS (\<lambda>s. map_option listing_view (listing_of s i))"

definition boundFrameListings :: "FrameListing list dbm" where
  "boundFrameListings = queryS (\<lambda>s.
    map listing_view (sort_key f_id (List.map_filter (frame_join s) (frame_bindings s))))"

definition unsettledFrameListings :: "FrameListing list dbm" where
  "unsettledFrameListings = queryS (\<lambda>s. map listing_view (sort_key f_id
    (filter (\<lambda>f. f_status f = FramePaid \<or> f_status f = FrameDropped) (listings s))))"

definition updateListing :: "Id \<Rightarrow> (listing_row \<Rightarrow> listing_row) \<Rightarrow> unit dbm" where
  "updateListing i g = executeS (\<lambda>s. s\<lparr>listings := upd_where (\<lambda>f. f_id f = i) g (listings s)\<rparr>)"

definition unbindListing :: "Id \<Rightarrow> unit dbm" where
  "unbindListing i =
    executeS (\<lambda>s. s\<lparr>frame_bindings := del_where (\<lambda>b. fb_listing b = i) (frame_bindings s)\<rparr>)"

definition set_listing :: "FrameListingStatus \<Rightarrow> listing_row \<Rightarrow> listing_row" where
  "set_listing st f = f\<lparr>f_status := st\<rparr>"

definition new_listing :: "Id \<Rightarrow> FrameListing \<Rightarrow> listing_row" where
  "new_listing i l = \<lparr>f_id = i, f_target = fl_target_key l, f_dimension = fl_dimension l, f_x = fl_x l,
     f_y = fl_y l, f_z = fl_z l, f_seller = fl_seller_uuid l, f_seller_name = fl_seller_name l,
     f_price = fl_price l, f_item = fl_item l, f_status = FrameActive, f_buyer = None,
     f_buyer_name = None\<rparr>"

text \<open>The first half of \<open>upsertFrameListing\<close>'s transaction: take the frame's current listing down.\<close>

definition replaceListing :: "FrameListing \<Rightarrow> bool \<Rightarrow> unit dbm" where
  "replaceListing l administrator =
    bindS (queryS (\<lambda>s. bound_listing s (fl_target_key l))) (\<lambda>existing.
    case existing of None \<Rightarrow> returnS ()
    | Some f \<Rightarrow>
      bindS (throwIf (f_status f \<noteq> FrameActive)
        (Runtime_Error ''frame listing is already being settled'')) (\<lambda>_.
      bindS (throwIf (\<not> administrator \<and> f_seller f \<noteq> fl_seller_uuid l)
        (Runtime_Error ''frame listing belongs to another seller'')) (\<lambda>_.
      bindS (updateListing (f_id f) (set_listing FrameCanceled)) (\<lambda>_.
      unbindListing (f_id f)))))"

text \<open>Both columns of the bindings table are unique keys.\<close>

definition bindFrame :: "string \<Rightarrow> Id \<Rightarrow> unit dbm" where
  "bindFrame t i = executeIfS
    (\<lambda>s. t \<notin> fb_target ` set (frame_bindings s) \<and> i \<notin> fb_listing ` set (frame_bindings s)) duplicate_entry
    (\<lambda>s. s\<lparr>frame_bindings := frame_bindings s @ [\<lparr>fb_target = t, fb_listing = i\<rparr>]\<rparr>)"

definition upsertFrameListing :: "service_config \<Rightarrow> FrameListing \<Rightarrow> bool \<Rightarrow> FrameListing dbm" where
  "upsertFrameListing cfg l administrator =
    bindS (throwIf (fl_target_key l = [] \<or> fl_dimension l = [] \<or> fl_seller_uuid l = [] \<or>
        fl_seller_name l = [] \<or> fl_price l \<le> 0 \<or> item_type (fl_item l) = [])
      (Runtime_Error ''frame listing is incomplete'')) (\<lambda>_.
    bindS (ensureAccount cfg (fl_seller_uuid l) (fl_seller_name l)) (\<lambda>_.
    transactionS (
      bindS (replaceListing l administrator) (\<lambda>_.
      bindS (queryS (\<lambda>s. fresh_id f_id (listings s))) (\<lambda>i.
      bindS (executeS (\<lambda>s. s\<lparr>listings := listings s @ [new_listing i l]\<rparr>)) (\<lambda>_.
      bindS (bindFrame (fl_target_key l) i) (\<lambda>_.
      returnS (l\<lparr>fl_id := i, fl_status := FrameActive, fl_buyer_uuid := None,
        fl_buyer_name := None\<rparr>))))))))"

definition listing_missing :: error where
  "listing_missing = Runtime_Error ''frame listing does not exist''"

definition cancelFrameListing :: "Id \<Rightarrow> string \<Rightarrow> bool \<Rightarrow> unit dbm" where
  "cancelFrameListing i requester administrator = transactionS (
    bindS (queryS (\<lambda>s. listing_of s i)) (\<lambda>row.
    case row of None \<Rightarrow> throwS listing_missing
    | Some f \<Rightarrow>
      if f_status f = FrameCanceled then returnS ()
      else
        bindS (throwIf (f_status f \<noteq> FrameActive)
          (Runtime_Error ''paid frame listing cannot be canceled'')) (\<lambda>_.
        bindS (throwIf (\<not> administrator \<and> f_seller f \<noteq> requester)
          (Runtime_Error ''frame listing belongs to another seller'')) (\<lambda>_.
        bindS (updateListing i (set_listing FrameCanceled)) (\<lambda>_.
        unbindListing i)))))"

definition set_paid :: "string \<Rightarrow> string \<Rightarrow> listing_row \<Rightarrow> listing_row" where
  "set_paid u n f = f\<lparr>f_status := FramePaid, f_buyer := Some u, f_buyer_name := Some n\<rparr>"

text \<open>\<open>SELECT target_key ... WHERE listing_id=...\<close>, and the accounts of buyer and seller.\<close>

definition binding_target :: "db \<Rightarrow> Id \<Rightarrow> string option" where
  "binding_target s i = map_option fb_target (find (\<lambda>b. fb_listing b = i) (frame_bindings s))"

definition account_rows :: "db \<Rightarrow> string \<Rightarrow> string \<Rightarrow> nat" where
  "account_rows s u v = count_where (\<lambda>a. a_uuid a = u \<or> a_uuid a = v) (accounts s)"

definition purchaseFrameListing :: "service_config \<Rightarrow> Id \<Rightarrow> string \<Rightarrow> string \<Rightarrow> Cents \<Rightarrow> FramePurchaseResult dbm" where
  "purchaseFrameListing cfg i buyer buyer_name expected =
    bindS (throwIf (buyer = [] \<or> buyer_name = [] \<or> expected \<le> 0)
      (Runtime_Error ''frame purchase identity is incomplete'')) (\<lambda>_.
    bindS (ensureAccount cfg buyer buyer_name) (\<lambda>_.
    transactionS (
      bindS (queryS (\<lambda>s. listing_of s i)) (\<lambda>row.
      case row of None \<Rightarrow> throwS listing_missing
      | Some f \<Rightarrow>
        bindS (throwIf (f_status f \<noteq> FrameActive)
          (Runtime_Error ''frame listing is no longer available'')) (\<lambda>_.
        bindS (throwIf (f_price f \<noteq> expected) (Runtime_Error ''frame listing price changed'')) (\<lambda>_.
        bindS (throwIf (f_seller f = buyer)
          (Runtime_Error ''seller cannot buy their own frame listing'')) (\<lambda>_.
        bindS (queryS (\<lambda>s. binding_target s i)) (\<lambda>target.
        bindS (throwIf (target \<noteq> Some (f_target f))
          (Runtime_Error ''frame listing is no longer bound'')) (\<lambda>_.
        bindS (queryS (\<lambda>s. account_rows s buyer (f_seller f))) (\<lambda>n.
        bindS (throwIf (n \<noteq> 2) (Runtime_Error ''frame purchase account is missing'')) (\<lambda>_.
        bindS (debit buyer (f_price f) ''FRAME_PURCHASE'' ''FRAME_LISTING'' (Some (f_id f))) (\<lambda>_.
        bindS (credit (f_seller f) (f_price f) ''FRAME_SALE'' ''FRAME_LISTING'' (Some (f_id f))) (\<lambda>_.
        bindS (updateListing (f_id f) (set_paid buyer buyer_name)) (\<lambda>_.
        bindS (lockedBalance buyer) (\<lambda>b.
        bindS (lockedBalance (f_seller f)) (\<lambda>c.
        returnS \<lparr>fp_listing = (listing_view f)\<lparr>fl_status := FramePaid, fl_buyer_uuid := Some buyer,
            fl_buyer_name := Some buyer_name\<rparr>,
          fp_buyer_balance = b, fp_seller_balance = c\<rparr>))))))))))))))))"

definition markFrameListingDropped :: "Id \<Rightarrow> unit dbm" where
  "markFrameListingDropped i = transactionS (
    bindS (queryS (\<lambda>s. listing_of s i)) (\<lambda>row.
    case row of None \<Rightarrow> throwS listing_missing
    | Some f \<Rightarrow>
      if f_status f = FrameDropped \<or> f_status f = FrameClaimed then returnS ()
      else
        bindS (throwIf (f_status f \<noteq> FramePaid)
          (Runtime_Error ''unpaid frame listing cannot be dropped'')) (\<lambda>_.
        updateListing i (set_listing FrameDropped))))"

definition completeFrameListingPickup :: "Id \<Rightarrow> unit dbm" where
  "completeFrameListingPickup i = transactionS (
    bindS (queryS (\<lambda>s. listing_of s i)) (\<lambda>row.
    case row of None \<Rightarrow> throwS listing_missing
    | Some f \<Rightarrow>
      if f_status f = FrameClaimed then returnS ()
      else
        bindS (throwIf (f_status f \<noteq> FramePaid \<and> f_status f \<noteq> FrameDropped)
          (Runtime_Error ''frame listing is not awaiting pickup'')) (\<lambda>_.
        bindS (updateListing i (set_listing FrameClaimed)) (\<lambda>_.
        unbindListing i))))"

section \<open>The invariant\<close>

definition in_place :: "FrameListingStatus \<Rightarrow> bool" where
  "in_place st \<longleftrightarrow> st = FrameActive \<or> st = FramePaid \<or> st = FrameDropped"

definition sold_listing :: "FrameListingStatus \<Rightarrow> bool" where
  "sold_listing st \<longleftrightarrow> st = FramePaid \<or> st = FrameDropped \<or> st = FrameClaimed"

definition listing_ok :: "listing_row \<Rightarrow> bool" where
  "listing_ok f \<longleftrightarrow> 0 < f_price f \<and> f_buyer f \<noteq> Some (f_seller f) \<and>
    (sold_listing (f_status f) \<longleftrightarrow> f_buyer f \<noteq> None)"

definition bound_frame :: "db \<Rightarrow> string \<Rightarrow> Id \<Rightarrow> bool" where
  "bound_frame s t i \<longleftrightarrow> \<lparr>fb_target = t, fb_listing = i\<rparr> \<in> set (frame_bindings s)"

text \<open>
  Exactly the listings in place are bound, each to its own frame, and a frame to one listing only.
\<close>

definition listings_ok :: "db \<Rightarrow> bool" where
  "listings_ok s \<longleftrightarrow> distinct (map f_id (listings s)) \<and> distinct (map fb_target (frame_bindings s)) \<and>
    (\<forall>f \<in> set (listings s). listing_ok f \<and> account_of s (f_seller f) \<noteq> None \<and>
      (in_place (f_status f) \<longleftrightarrow> bound_frame s (f_target f) (f_id f))) \<and>
    (\<forall>b \<in> set (frame_bindings s). \<exists>f \<in> set (listings s). f_id f = fb_listing b \<and> f_target f = fb_target b)"

lemma listings_okD:
  assumes "listings_ok s"
  shows "distinct (map f_id (listings s))" "distinct (map fb_target (frame_bindings s))"
    "f \<in> set (listings s) \<Longrightarrow> listing_ok f" "f \<in> set (listings s) \<Longrightarrow> account_of s (f_seller f) \<noteq> None"
    "f \<in> set (listings s) \<Longrightarrow> in_place (f_status f) \<longleftrightarrow> bound_frame s (f_target f) (f_id f)"
    "b \<in> set (frame_bindings s) \<Longrightarrow> \<exists>f \<in> set (listings s). f_id f = fb_listing b \<and> f_target f = fb_target b"
  using assms unfolding listings_ok_def by blast+

lemma listing_of_Some: "listing_of s i = Some f \<Longrightarrow> f \<in> set (listings s) \<and> f_id f = i"
  unfolding listing_of_def by (rule find_key_in)

lemma listing_of_unique: "listings_ok s \<Longrightarrow> f \<in> set (listings s) \<Longrightarrow> listing_of s (f_id f) = Some f"
  unfolding listing_of_def by (rule find_key_distinct) (rule listings_okD(1))

lemma listings_only [simp]:
  "sale_ok (s\<lparr>listings := fs\<rparr>) = sale_ok s" "sale_ok (s\<lparr>frame_bindings := bs\<rparr>) = sale_ok s"
  "transfers_ok (s\<lparr>listings := fs\<rparr>) = transfers_ok s" "transfers_ok (s\<lparr>frame_bindings := bs\<rparr>) = transfers_ok s"
  "net_issue (s\<lparr>listings := fs\<rparr>) = net_issue s" "net_issue (s\<lparr>frame_bindings := bs\<rparr>) = net_issue s"
  by (simp_all add: sale_ok_def trading_ok_def orders_ok_def order_refs_def uncrossed_def trades_ok_def
      deliveries_ok_def escrows_ok_def escrow_refs_def transfers_ok_def net_issue_eq open_reserves_def)

lemma money_only_listings_ok: "money_only s s' \<Longrightarrow> listings_ok s \<Longrightarrow> listings_ok s'"
  using trade_frame_refs(1) [OF money_only_trade_frame, of s s'] money_onlyD(10,11) [of s s']
  unfolding listings_ok_def bound_frame_def by (simp del: not_None_eq)

text \<open>A status update of one listing, with or without unbinding it.\<close>

definition with_listing :: "Id \<Rightarrow> (listing_row \<Rightarrow> listing_row) \<Rightarrow> bool \<Rightarrow> db \<Rightarrow> db" where
  "with_listing i g unb s = s\<lparr>listings := upd_where (\<lambda>f. f_id f = i) g (listings s),
     frame_bindings := (if unb then del_where (\<lambda>b. fb_listing b = i) (frame_bindings s)
       else frame_bindings s)\<rparr>"

lemma bound_with:
  "bound_frame (with_listing i g unb s) t j \<longleftrightarrow> bound_frame s t j \<and> \<not> (unb \<and> j = i)"
  by (auto simp: bound_frame_def with_listing_def del_where_def)

locale listing_update = keyed_update f_id g for g :: "listing_row \<Rightarrow> listing_row" +
  assumes same: "f_target (g f) = f_target f" "f_seller (g f) = f_seller f" "f_price (g f) = f_price f"
    "f_item (g f) = f_item f"
begin

lemma with_row: "listing_of s i = Some f \<Longrightarrow>
    listing_of (with_listing i g unb s) j = (if j = i then Some (g f) else listing_of s j)"
  by (auto simp: listing_of_def with_listing_def find_upd)

lemma with_ok:
  assumes ok: "listings_ok s" and f: "listing_of s i = Some f" and g: "listing_ok (g f)"
    and st: "in_place (f_status (g f)) \<longleftrightarrow> in_place (f_status f) \<and> \<not> unb"
  shows "listings_ok (with_listing i g unb s)" (is "listings_ok ?s'")
proof -
  note F = listing_of_Some [OF f]
  have ls: "set (listings ?s') = insert (g f) (set (listings s) - {f})"
    using set_upd_key [OF listings_okD(1) [OF ok] conjunct1 [OF F]] F by (simp add: with_listing_def)
  have row: "listing_ok x \<and> account_of ?s' (f_seller x) \<noteq> None \<and>
      (in_place (f_status x) \<longleftrightarrow> bound_frame ?s' (f_target x) (f_id x))" if "x \<in> set (listings ?s')" for x
  proof (cases "x = g f")
    case True
    with g st listings_okD(4,5) [OF ok conjunct1 [OF F]] F show ?thesis
      by (simp add: bound_with same key_upd) (simp add: with_listing_def)
  next
    case False
    with that ls have x: "x \<in> set (listings s)" "x \<noteq> f" by auto
    then have "f_id x \<noteq> i" using distinct_key_eq [OF listings_okD(1) [OF ok] x(1), of f] F by auto
    with listings_okD(3-5) [OF ok x(1)] show ?thesis by (simp add: bound_with) (simp add: with_listing_def)
  qed
  have bnd: "\<exists>y \<in> set (listings ?s'). f_id y = fb_listing b \<and> f_target y = fb_target b"
    if "b \<in> set (frame_bindings ?s')" for b
  proof -
    from that have "b \<in> set (frame_bindings s)" by (auto simp: with_listing_def del_where_def split: if_splits)
    from listings_okD(6) [OF ok this] obtain y where y: "y \<in> set (listings s)" "f_id y = fb_listing b"
      "f_target y = fb_target b" by blast
    show ?thesis
    proof (cases "y = f")
      case True
      with y ls same(1) key_upd show ?thesis by (intro bexI [of _ "g f"]) simp_all
    qed (use y ls in blast)
  qed
  have "distinct (map fb_target (frame_bindings ?s'))"
    using listings_okD(2) [OF ok] by (simp add: with_listing_def del_where_def distinct_map_filter)
  moreover have "distinct (map f_id (listings ?s'))" using listings_okD(1) [OF ok] by (simp add: with_listing_def)
  ultimately show ?thesis using row bnd unfolding listings_ok_def by blast
qed

end

interpretation set_listing: listing_update "set_listing st" for st
  by unfold_locales (simp_all add: set_listing_def)

interpretation set_paid: listing_update "set_paid u n" for u n
  by unfold_locales (simp_all add: set_paid_def)

lemma set_listing_fields [simp]:
  "f_status (set_listing st f) = st" "f_buyer (set_listing st f) = f_buyer f"
  "f_status (set_paid u n f) = FramePaid" "f_buyer (set_paid u n f) = Some u"
  by (simp_all add: set_listing_def set_paid_def)

lemma with_listing_keeps [simp]:
  "sale_ok (with_listing i g unb s) = sale_ok s" "transfers_ok (with_listing i g unb s) = transfers_ok s"
  "net_issue (with_listing i g unb s) = net_issue s" "balance_of (with_listing i g unb s) = balance_of s"
  "account_of (with_listing i g unb s) = account_of s"
  by (simp_all add: with_listing_def)

section \<open>Taking down, dropping, picking up\<close>

lemma update_unbind:
  "bindS (updateListing i g) (\<lambda>_. unbindListing i) s = (Inr (), with_listing i g True s)"
  "updateListing i g s = (Inr (), with_listing i g False s)"
  by (simp_all add: updateListing_def unbindListing_def svc_evals with_listing_def)

lemma cancel_eq:
  assumes "listing_of s i = Some f"
  shows "if f_status f = FrameCanceled then cancelFrameListing i u adm s = (Inr (), s)
    else if f_status f = FrameActive \<and> (adm \<or> f_seller f = u)
    then cancelFrameListing i u adm s = (Inr (), with_listing i (set_listing FrameCanceled) True s)
    else isl (fst (cancelFrameListing i u adm s)) \<and> snd (cancelFrameListing i u adm s) = s"
  using assms update_unbind(1) [of i "set_listing FrameCanceled" s]
  by (auto simp: cancelFrameListing_def transactionS_def bindS_def queryS_def throwIf_def throwS_def returnS_def)

lemma dropped_eq:
  assumes "listing_of s i = Some f"
  shows "if f_status f = FrameDropped \<or> f_status f = FrameClaimed then markFrameListingDropped i s = (Inr (), s)
    else if f_status f = FramePaid
    then markFrameListingDropped i s = (Inr (), with_listing i (set_listing FrameDropped) False s)
    else isl (fst (markFrameListingDropped i s)) \<and> snd (markFrameListingDropped i s) = s"
  using assms by (auto simp: markFrameListingDropped_def svc_evals updateListing_def with_listing_def)

lemma pickup_eq:
  assumes "listing_of s i = Some f"
  shows "if f_status f = FrameClaimed then completeFrameListingPickup i s = (Inr (), s)
    else if f_status f = FramePaid \<or> f_status f = FrameDropped
    then completeFrameListingPickup i s = (Inr (), with_listing i (set_listing FrameClaimed) True s)
    else isl (fst (completeFrameListingPickup i s)) \<and> snd (completeFrameListingPickup i s) = s"
  using assms update_unbind(1) [of i "set_listing FrameClaimed" s]
  by (auto simp: completeFrameListingPickup_def transactionS_def bindS_def queryS_def throwIf_def throwS_def returnS_def)

lemma no_listing:
  assumes "listing_of s i = None"
  shows "cancelFrameListing i u adm s = (Inl listing_missing, s)"
    "markFrameListingDropped i s = (Inl listing_missing, s)"
    "completeFrameListingPickup i s = (Inl listing_missing, s)"
  using assms by (simp_all add: cancelFrameListing_def markFrameListingDropped_def completeFrameListingPickup_def svc_evals)

lemma status_change_ok:
  assumes ok: "listings_ok s" and f: "listing_of s i = Some f"
    and "sold_listing st \<longleftrightarrow> sold_listing (f_status f)" and "in_place st \<longleftrightarrow> in_place (f_status f) \<and> \<not> unb"
  shows "listings_ok (with_listing i (set_listing st) unb s)"
  by (rule set_listing.with_ok [OF ok f])
    (use assms(3,4) listings_okD(3) [OF ok conjunct1 [OF listing_of_Some [OF f]]] in
      \<open>simp_all add: listing_ok_def set_listing_def\<close>)

section \<open>Offering\<close>

lemma bound_listing_iff:
  assumes ok: "listings_ok s"
  shows "bound_listing s t = Some f \<longleftrightarrow> f \<in> set (listings s) \<and> f_target f = t \<and> in_place (f_status f)"
proof
  assume "bound_listing s t = Some f"
  then obtain b where b: "find (\<lambda>b. fb_target b = t) (frame_bindings s) = Some b" "listing_of s (fb_listing b) = Some f"
    by (auto simp: bound_listing_def frame_join_def bind_eq_Some_conv)
  note B = find_key_in [OF b(1)] and F = listing_of_Some [OF b(2)]
  from listings_okD(6) [OF ok conjunct1 [OF B]] obtain y where y: "y \<in> set (listings s)" "f_id y = fb_listing b"
    "f_target y = fb_target b" by blast
  then have yf: "y = f" using distinct_key_eq [OF listings_okD(1) [OF ok], of y f] F by simp
  have "b = \<lparr>fb_target = f_target f, fb_listing = f_id f\<rparr>" using y yf by (cases b) simp
  with B have "bound_frame s (f_target f) (f_id f)" unfolding bound_frame_def by metis
  with listings_okD(5) [OF ok conjunct1 [OF F]] F y yf B
  show "f \<in> set (listings s) \<and> f_target f = t \<and> in_place (f_status f)" by simp
next
  assume f: "f \<in> set (listings s) \<and> f_target f = t \<and> in_place (f_status f)"
  then have "\<lparr>fb_target = t, fb_listing = f_id f\<rparr> \<in> set (frame_bindings s)"
    using listings_okD(5) [OF ok, of f] by (simp add: bound_frame_def)
  from find_key_distinct [OF listings_okD(2) [OF ok] this]
  have "find (\<lambda>b. fb_target b = t) (frame_bindings s) = Some \<lparr>fb_target = t, fb_listing = f_id f\<rparr>" by simp
  with listing_of_unique [OF ok, of f] f show "bound_listing s t = Some f"
    by (simp add: bound_listing_def frame_join_def)
qed

lemma bound_listing_unique:
  assumes "listings_ok s" and "f \<in> set (listings s)" "in_place (f_status f)" and "f' \<in> set (listings s)"
    "in_place (f_status f')" and "f_target f = f_target f'"
  shows "f = f'"
  using bound_listing_iff [OF assms(1), of "f_target f" f] bound_listing_iff [OF assms(1), of "f_target f" f'] assms by simp

lemma bound_listing_None:
  assumes ok: "listings_ok s" and none: "bound_listing s t = None"
  shows "t \<notin> fb_target ` set (frame_bindings s)"
proof
  assume "t \<in> fb_target ` set (frame_bindings s)"
  then obtain b where b: "b \<in> set (frame_bindings s)" "fb_target b = t" by blast
  from listings_okD(6) [OF ok b(1)] obtain f where f: "f \<in> set (listings s)" "f_id f = fb_listing b"
    "f_target f = fb_target b" by blast
  have "b = \<lparr>fb_target = f_target f, fb_listing = f_id f\<rparr>" using f by (cases b) simp
  then have "in_place (f_status f)" using listings_okD(5) [OF ok f(1)] b(1) by (simp add: bound_frame_def)
  with bound_listing_iff [OF ok, of t f] f b none show False by simp
qed

text \<open>What replaces the current listing of a frame, when that is allowed.\<close>

definition replaceable :: "db \<Rightarrow> FrameListing \<Rightarrow> bool \<Rightarrow> bool" where
  "replaceable s l adm \<longleftrightarrow> (case bound_listing s (fl_target_key l) of None \<Rightarrow> True
     | Some f \<Rightarrow> f_status f = FrameActive \<and> (adm \<or> f_seller f = fl_seller_uuid l))"

definition cleared :: "FrameListing \<Rightarrow> db \<Rightarrow> db" where
  "cleared l s = (case bound_listing s (fl_target_key l) of None \<Rightarrow> s
     | Some f \<Rightarrow> with_listing (f_id f) (set_listing FrameCanceled) True s)"

lemma replaceListing_eq:
  "if replaceable s l adm then replaceListing l adm s = (Inr (), cleared l s) else isl (fst (replaceListing l adm s))"
proof (cases "bound_listing s (fl_target_key l)")
  case None
  then show ?thesis by (simp add: replaceListing_def replaceable_def cleared_def svc_evals)
next
  case (Some f)
  with update_unbind(1) [of "f_id f" "set_listing FrameCanceled" s] show ?thesis
    by (auto simp: replaceListing_def replaceable_def cleared_def bindS_def queryS_def throwIf_def throwS_def returnS_def)
qed

lemma cleared_facts:
  assumes ok: "listings_ok s" and r: "replaceable s l adm"
  shows "listings_ok (cleared l s)" "bound_listing (cleared l s) (fl_target_key l) = None"
    "bound_listing s (fl_target_key l) = Some f \<Longrightarrow>
      listing_of (cleared l s) (f_id f) = Some (set_listing FrameCanceled f)"
    "listing_of s i = Some f' \<Longrightarrow> bound_listing s (fl_target_key l) \<noteq> Some f' \<Longrightarrow> listing_of (cleared l s) i = Some f'"
    "set (map f_id (listings (cleared l s))) = set (map f_id (listings s))"
proof -
  have "listings_ok (cleared l s) \<and> bound_listing (cleared l s) (fl_target_key l) = None \<and>
    (bound_listing s (fl_target_key l) = Some f \<longrightarrow>
      listing_of (cleared l s) (f_id f) = Some (set_listing FrameCanceled f)) \<and>
    (listing_of s i = Some f' \<and> bound_listing s (fl_target_key l) \<noteq> Some f' \<longrightarrow> listing_of (cleared l s) i = Some f') \<and>
    set (map f_id (listings (cleared l s))) = set (map f_id (listings s))"
  proof (cases "bound_listing s (fl_target_key l)")
    case None
    with ok show ?thesis by (simp add: cleared_def)
  next
    case (Some x)
    note X = Some [unfolded bound_listing_iff [OF ok]]
    have row: "listing_of s (f_id x) = Some x" using listing_of_unique [OF ok] X by simp
    have c: "cleared l s = with_listing (f_id x) (set_listing FrameCanceled) True s" by (simp add: cleared_def Some)
    have st: "f_status x = FrameActive" using r Some by (simp add: replaceable_def)
    have ok': "listings_ok (cleared l s)" unfolding c
      by (rule status_change_ok [OF ok row]) (simp_all add: st sold_listing_def in_place_def)
    have "bound_listing (cleared l s) (fl_target_key l) \<noteq> Some y" for y
    proof
      assume "bound_listing (cleared l s) (fl_target_key l) = Some y"
      then have y: "y \<in> set (listings (cleared l s))" "f_target y = fl_target_key l" "in_place (f_status y)"
        unfolding bound_listing_iff [OF ok'] by blast+
      have "set (listings (cleared l s)) = insert (set_listing FrameCanceled x) (set (listings s) - {x})"
        using set_listing.set_upd_key [OF listings_okD(1) [OF ok], of x FrameCanceled] X by (simp add: c with_listing_def)
      moreover have "y \<noteq> set_listing FrameCanceled x" using y(3) by (auto simp: in_place_def)
      ultimately have "y \<in> set (listings s)" "y \<noteq> x" using y(1) by blast+
      with bound_listing_unique [OF ok, of y x] y X show False by simp
    qed
    moreover have "listing_of (cleared l s) j = (if j = f_id x then Some (set_listing FrameCanceled x) else listing_of s j)" for j
      unfolding c by (rule set_listing.with_row [OF row])
    moreover have "map f_id (listings (cleared l s)) = map f_id (listings s)" by (simp add: c with_listing_def)
    moreover have "f' = x" if "listing_of s (f_id x) = Some f'" using that row by simp
    ultimately show ?thesis using Some ok' by (auto simp del: not_Some_eq)
  qed
  then show "listings_ok (cleared l s)" "bound_listing (cleared l s) (fl_target_key l) = None"
    "bound_listing s (fl_target_key l) = Some f \<Longrightarrow>
      listing_of (cleared l s) (f_id f) = Some (set_listing FrameCanceled f)"
    "listing_of s i = Some f' \<Longrightarrow> bound_listing s (fl_target_key l) \<noteq> Some f' \<Longrightarrow> listing_of (cleared l s) i = Some f'"
    "set (map f_id (listings (cleared l s))) = set (map f_id (listings s))" by blast+
qed

text \<open>Inserting the new listing and binding it to the now free frame.\<close>

definition offered :: "FrameListing \<Rightarrow> Id \<Rightarrow> db \<Rightarrow> db" where
  "offered l i s = s\<lparr>listings := listings s @ [new_listing i l],
     frame_bindings := frame_bindings s @ [\<lparr>fb_target = fl_target_key l, fb_listing = i\<rparr>]\<rparr>"

definition offer_view :: "FrameListing \<Rightarrow> Id \<Rightarrow> FrameListing" where
  "offer_view l i = l\<lparr>fl_id := i, fl_status := FrameActive, fl_buyer_uuid := None, fl_buyer_name := None\<rparr>"

lemma new_listing_fields [simp]:
  "f_id (new_listing i l) = i" "f_target (new_listing i l) = fl_target_key l" "f_status (new_listing i l) = FrameActive"
  "f_seller (new_listing i l) = fl_seller_uuid l" "f_price (new_listing i l) = fl_price l"
  "f_buyer (new_listing i l) = None" "listing_view (new_listing i l) = offer_view l i"
  by (simp_all add: new_listing_def listing_view_def offer_view_def)

lemma binding_ids: "listings_ok s \<Longrightarrow> b \<in> set (frame_bindings s) \<Longrightarrow> fb_listing b \<in> f_id ` set (listings s)"
  using listings_okD(6) by force

lemma offered_ok:
  assumes ok: "listings_ok s" and free: "bound_listing s (fl_target_key l) = None" and p: "0 < fl_price l"
    and acc: "account_of s (fl_seller_uuid l) \<noteq> None" and i: "i = fresh_id f_id (listings s)"
  shows "listings_ok (offered l i s)" (is "listings_ok ?s'")
    and "listing_of (offered l i s) j = (if j = i then Some (new_listing i l) else listing_of s j)"
    and "bindFrame (fl_target_key l) i (s\<lparr>listings := listings s @ [new_listing i l]\<rparr>) = (Inr (), offered l i s)"
proof -
  have new: "i \<notin> f_id ` set (listings s)" by (simp add: i)
  have tf: "fl_target_key l \<notin> fb_target ` set (frame_bindings s)" by (rule bound_listing_None [OF ok free])
  have nb: "i \<notin> fb_listing ` set (frame_bindings s)" using binding_ids [OF ok] new by blast
  have b: "bound_frame ?s' t j \<longleftrightarrow> bound_frame s t j \<or> (t = fl_target_key l \<and> j = i)" for t j
    by (auto simp: bound_frame_def offered_def)
  have row: "listing_ok x \<and> account_of ?s' (f_seller x) \<noteq> None \<and>
      (in_place (f_status x) \<longleftrightarrow> bound_frame ?s' (f_target x) (f_id x))" if "x \<in> set (listings ?s')" for x
  proof (cases "x = new_listing i l")
    case True
    then show ?thesis using p acc by (simp add: b listing_ok_def sold_listing_def in_place_def) (simp add: offered_def)
  next
    case False
    with that have x: "x \<in> set (listings s)" by (auto simp: offered_def)
    then have "f_id x \<noteq> i" using new by blast
    with listings_okD(3-5) [OF ok x] show ?thesis by (simp add: b) (simp add: offered_def)
  qed
  have "\<exists>f \<in> set (listings ?s'). f_id f = fb_listing bd \<and> f_target f = fb_target bd"
    if "bd \<in> set (frame_bindings ?s')" for bd
    using that listings_okD(6) [OF ok, of bd] by (auto simp: offered_def)
  moreover have "distinct (map f_id (listings ?s'))" "distinct (map fb_target (frame_bindings ?s'))"
    using listings_okD(1,2) [OF ok] new tf by (auto simp: offered_def)
  ultimately show "listings_ok ?s'" using row unfolding listings_ok_def by blast
  have "find (\<lambda>f. f_id f = i) (listings s) = None" using new by (auto simp: find_None_iff)
  then show "listing_of ?s' j = (if j = i then Some (new_listing i l) else listing_of s j)"
    by (auto simp: listing_of_def offered_def find_append split: option.splits)
  show "bindFrame (fl_target_key l) i (s\<lparr>listings := listings s @ [new_listing i l]\<rparr>) = (Inr (), ?s')"
    using tf nb by (simp add: bindFrame_def executeIfS_def offered_def)
qed

definition complete_listing :: "FrameListing \<Rightarrow> bool" where
  "complete_listing l \<longleftrightarrow> fl_target_key l \<noteq> [] \<and> fl_dimension l \<noteq> [] \<and> fl_seller_uuid l \<noteq> [] \<and>
    fl_seller_name l \<noteq> [] \<and> 0 < fl_price l \<and> item_type (fl_item l) \<noteq> []"

lemma upsert_cases:
  assumes cfg: "config_ok cfg" and ok: "money_ok s" "listings_ok s"
    and run: "upsertFrameListing cfg l adm s = (r, s')"
  shows "(isl r \<and> (s' = s \<or> (\<exists>r1. ensureAccount cfg (fl_seller_uuid l) (fl_seller_name l) s = (r1, s')))) \<or>
    (\<exists>s1 i. complete_listing l \<and> ensureAccount cfg (fl_seller_uuid l) (fl_seller_name l) s = (Inr (), s1) \<and>
      replaceable s1 l adm \<and> i = fresh_id f_id (listings (cleared l s1)) \<and>
      s' = offered l i (cleared l s1) \<and> r = Inr (offer_view l i))"
proof (cases "complete_listing l")
  case False
  with run show ?thesis by (auto simp: upsertFrameListing_def complete_listing_def svc_evals split: if_splits)
next
  case True
  then have v: "\<not> (fl_target_key l = [] \<or> fl_dimension l = [] \<or> fl_seller_uuid l = [] \<or>
        fl_seller_name l = [] \<or> fl_price l \<le> 0 \<or> item_type (fl_item l) = [])" by (simp add: complete_listing_def)
  obtain r1 s1 where e: "ensureAccount cfg (fl_seller_uuid l) (fl_seller_name l) s = (r1, s1)" by fastforce
  show ?thesis
  proof (cases r1)
    case (Inl err)
    with v e run show ?thesis by (auto simp: upsertFrameListing_def svc_evals)
  next
    case (Inr z)
    then have e': "ensureAccount cfg (fl_seller_uuid l) (fl_seller_name l) s = (Inr (), s1)" using e by simp
    have ok1: "listings_ok s1"
      by (rule money_only_listings_ok [OF ensureAccount_facts(2) [OF cfg ok(1) e'] ok(2)])
    have acc: "account_of s1 (fl_seller_uuid l) \<noteq> None" by (rule ensureAccount_effect(3) [OF cfg ok(1) e' refl])
    show ?thesis
    proof (cases "replaceable s1 l adm")
      case False
      with replaceListing_eq [of s1 l adm] have "isl (fst (replaceListing l adm s1))" by simp
      with v e' run show ?thesis
        by (auto simp: upsertFrameListing_def bindS_def throwIf_def returnS_def transactionS_def isl_def
            split: prod.splits sum.splits)
    next
      case rep: True
      with replaceListing_eq [of s1 l adm] have rl: "replaceListing l adm s1 = (Inr (), cleared l s1)" by simp
      note C = cleared_facts [OF ok1 rep]
      have "account_of (cleared l s1) (fl_seller_uuid l) \<noteq> None" using acc by (simp add: cleared_def split: option.splits)
      from offered_ok(3) [OF C(1,2) _ this refl] True
      have "bindFrame (fl_target_key l) (fresh_id f_id (listings (cleared l s1)))
          ((cleared l s1)\<lparr>listings := listings (cleared l s1) @ [new_listing (fresh_id f_id (listings (cleared l s1))) l]\<rparr>) =
        (Inr (), offered l (fresh_id f_id (listings (cleared l s1))) (cleared l s1))"
        by (simp add: complete_listing_def)
      with v e' rl run True rep show ?thesis
        by (auto simp: upsertFrameListing_def svc_evals offer_view_def)
    qed
  qed
qed

section \<open>Buying\<close>

definition paid :: "Id \<Rightarrow> listing_row \<Rightarrow> string \<Rightarrow> string \<Rightarrow> db \<Rightarrow> db \<Rightarrow> bool" where
  "paid i f u n s s' \<longleftrightarrow> (\<exists>s1. money_only s s1 \<and> money_ok s1 \<and> total_balance s1 = total_balance s \<and>
     f_price f \<le> balance_of s u \<and>
     balance_of s1 = (balance_of s)(u := balance_of s u - f_price f,
       f_seller f := balance_of s (f_seller f) + f_price f) \<and>
     s' = with_listing i (set_paid u n) False s1)"

definition purchase_result :: "listing_row \<Rightarrow> string \<Rightarrow> string \<Rightarrow> db \<Rightarrow> FramePurchaseResult" where
  "purchase_result f u n s' = \<lparr>fp_listing = listing_view (set_paid u n f),
     fp_buyer_balance = balance_of s' u, fp_seller_balance = balance_of s' (f_seller f)\<rparr>"

lemma account_rows_two:
  assumes "accounts_ok s" and "u \<noteq> v" and "account_of s u \<noteq> None" and "account_of s v \<noteq> None"
  shows "account_rows s u v = 2"
proof -
  have dist: "distinct (map a_uuid (accounts s))" using assms(1) by (simp add: accounts_ok_def)
  have split: "count_where (\<lambda>a. a_uuid a = u \<or> a_uuid a = v) xs =
      count_where (\<lambda>a. a_uuid a = u) xs + count_where (\<lambda>a. a_uuid a = v) xs" for xs
    using assms(2) by (induction xs) (auto simp: count_where_def)
  show ?thesis
    using assms(3,4) by (simp add: account_rows_def split count_where_key [OF dist] account_of_def)
qed

lemma binding_target_in_place:
  assumes ok: "listings_ok s" and f: "listing_of s i = Some f" and st: "in_place (f_status f)"
  shows "binding_target s i = Some (f_target f)"
proof -
  note F = listing_of_Some [OF f]
  have "bound_frame s (f_target f) i" using listings_okD(5) [OF ok conjunct1 [OF F]] F st by simp
  then obtain b where b: "find (\<lambda>b. fb_listing b = i) (frame_bindings s) = Some b"
    unfolding bound_frame_def by (cases "find (\<lambda>b. fb_listing b = i) (frame_bindings s)") (auto simp: find_None_iff)
  note B = find_key_in [OF b]
  from listings_okD(6) [OF ok conjunct1 [OF B]] obtain y where "y \<in> set (listings s)" "f_id y = i"
    "f_target y = fb_target b" using B by auto
  then have "f_target f = fb_target b" using distinct_key_eq [OF listings_okD(1) [OF ok], of y f] F by simp
  with b show ?thesis by (simp add: binding_target_def)
qed

lemma purchase_Inr:
  assumes cfg: "config_ok cfg" and ok: "money_ok s"
    and run: "purchaseFrameListing cfg i u n p s = (Inr r, s')"
  obtains s1 f where "ensureAccount cfg u n s = (Inr (), s1)" "u \<noteq> []" "n \<noteq> []" "0 < p" "listing_of s1 i = Some f"
    "f_status f = FrameActive" "f_price f = p" "f_seller f \<noteq> u" "paid i f u n s1 s'" "r = purchase_result f u n s'"
proof -
  from run obtain s1 f s2 s3 where e: "ensureAccount cfg u n s = (Inr (), s1)"
    and c: "u \<noteq> []" "n \<noteq> []" "0 < p" and f: "listing_of s1 i = Some f" "f_status f = FrameActive" "f_price f = p"
      "f_seller f \<noteq> u"
    and d: "debit u (f_price f) ''FRAME_PURCHASE'' ''FRAME_LISTING'' (Some (f_id f)) s1 = (Inr (), s2)"
    and cr: "credit (f_seller f) (f_price f) ''FRAME_SALE'' ''FRAME_LISTING'' (Some (f_id f)) s2 = (Inr (), s3)"
    and s': "s' = with_listing (f_id f) (set_paid u n) False s3"
    and r: "fp_listing r = (listing_view f)\<lparr>fl_status := FramePaid, fl_buyer_uuid := Some u, fl_buyer_name := Some n\<rparr>"
      "fp_buyer_balance r = balance_of s' u" "fp_seller_balance r = balance_of s' (f_seller f)"
    by (auto simp: purchaseFrameListing_def svc_simps update_unbind lockedBalance_Inr simp del: not_None_eq
        split: option.splits)
  note mok = ensureAccount_facts(1) [OF cfg ok e]
  have pay: "bindS ((\<lambda>(r, rt, ri). debit u (f_price f) r rt ri) (''FRAME_PURCHASE'', ''FRAME_LISTING'', Some (f_id f)))
      (\<lambda>_. (\<lambda>(r, rt, ri). credit (f_seller f) (f_price f) r rt ri) (''FRAME_SALE'', ''FRAME_LISTING'', Some (f_id f))) s1 =
      (Inr (), s3)" using d cr by (simp add: bindS_Inr)
  note P = cash.payment [OF mok pay]
  have "f_id f = i" using listing_of_Some [OF f(1)] by simp
  then have "paid i f u n s1 s'"
    unfolding paid_def using P s' f(4) by (intro exI [of _ s3]) (auto simp: Let_def fun_eq_iff)
  moreover have "r = purchase_result f u n s'"
    using r by (simp add: purchase_result_def set_paid_def listing_view_def)
  ultimately show thesis using that e c f by blast
qed

lemma purchase_Inl:
  assumes "purchaseFrameListing cfg i u n p s = (Inl e, s')"
  shows "s' = s \<or> (\<exists>r1. ensureAccount cfg u n s = (r1, s'))"
proof (cases "u = [] \<or> n = [] \<or> p \<le> 0")
  case True
  with assms show ?thesis by (auto simp: purchaseFrameListing_def svc_evals split: if_splits)
next
  case False
  obtain r1 s1 where e: "ensureAccount cfg u n s = (r1, s1)" by fastforce
  with False assms have "s' = s1"
    by (cases r1) (auto simp: purchaseFrameListing_def bindS_def throwIf_def returnS_def transactionS_Inl)
  with e show ?thesis by blast
qed

definition purchasable :: "service_config \<Rightarrow> db \<Rightarrow> Id \<Rightarrow> string \<Rightarrow> string \<Rightarrow> Cents \<Rightarrow> bool" where
  "purchasable cfg s i u n p \<longleftrightarrow> u \<noteq> [] \<and> n \<noteq> [] \<and> 0 < p \<and>
    (case listing_of s i of None \<Rightarrow> False
     | Some f \<Rightarrow> f_status f = FrameActive \<and> f_price f = p \<and> f_seller f \<noteq> u) \<and>
    p \<le> opening_balance cfg s u"

lemma purchase_total:
  assumes cfg: "config_ok cfg" and ok: "money_ok s" "listings_ok s"
    and cap: "total_balance s + initial_balance_cents cfg \<le> int64_max"
  shows "(\<exists>r s'. purchaseFrameListing cfg i u n p s = (Inr r, s')) \<longleftrightarrow> purchasable cfg s i u n p"
proof
  assume "\<exists>r s'. purchaseFrameListing cfg i u n p s = (Inr r, s')"
  then obtain r s' where run: "purchaseFrameListing cfg i u n p s = (Inr r, s')" by blast
  from purchase_Inr [OF cfg ok(1) run] obtain s1 f where e: "ensureAccount cfg u n s = (Inr (), s1)"
    and c: "u \<noteq> []" "n \<noteq> []" "0 < p" "listing_of s1 i = Some f" "f_status f = FrameActive" "f_price f = p" "f_seller f \<noteq> u"
    and pd: "paid i f u n s1 s'" by metis
  note E = ensureAccount_facts [OF cfg ok(1) e]
  have "listing_of s i = Some f" using c(4) money_onlyD(10) [OF E(2)] by (simp add: listing_of_def)
  moreover have "p \<le> balance_of s1 u" using pd c(6) by (auto simp: paid_def)
  moreover have "balance_of s1 u = opening_balance cfg s u"
    using ensureAccount_effect(5) [OF cfg ok(1) e refl] by (simp add: opening_balance_def)
  ultimately show "purchasable cfg s i u n p" using c by (simp add: purchasable_def)
next
  assume pr: "purchasable cfg s i u n p"
  then obtain f where c: "u \<noteq> []" "n \<noteq> []" "0 < p" "listing_of s i = Some f" "f_status f = FrameActive" "f_price f = p"
    "f_seller f \<noteq> u" "p \<le> opening_balance cfg s u" by (auto simp: purchasable_def split: option.splits)
  obtain s1 where e: "ensureAccount cfg u n s = (Inr (), s1)" using c(1) by (simp add: ensureAccount_Inr)
  note E = ensureAccount_facts [OF cfg ok(1) e] and ini = ensureAccount_effect(3-5) [OF cfg ok(1) e refl]
  have ok1: "listings_ok s1" by (rule money_only_listings_ok [OF E(2) ok(2)])
  have f1: "listing_of s1 i = Some f" using c(4) money_onlyD(10) [OF E(2)] by (simp add: listing_of_def)
  note F = listing_of_Some [OF f1]
  have acc: "account_of s1 u \<noteq> None" "account_of s1 (f_seller f) \<noteq> None"
    using ini(1) listings_okD(4) [OF ok1 conjunct1 [OF F]] by simp_all
  have bt: "binding_target s1 i = Some (f_target f)"
    by (rule binding_target_in_place [OF ok1 f1]) (simp add: c in_place_def)
  have two: "account_rows s1 u (f_seller f) = 2"
    by (rule account_rows_two [OF money_ok_accounts_ok [OF E(1)] _ acc]) (use c(7) in simp)
  have "balance_of s1 u = opening_balance cfg s u" using ini(3) by (simp add: opening_balance_def)
  then have pb: "f_price f \<le> balance_of s1 u" using c by simp
  obtain s2 where d: "debit u (f_price f) ''FRAME_PURCHASE'' ''FRAME_LISTING'' (Some (f_id f)) s1 = (Inr (), s2)"
    using debit_total [OF E(1) acc(1) _ pb] c(3,6) by fastforce
  note D = debit_effect [OF E(1) d]
  have acc2: "account_of s2 v \<noteq> None" if "account_of s1 v \<noteq> None" for v
    by (rule trade_frame_refs(1) [OF money_only_trade_frame [OF D(4)] that])
  have "0 \<le> initial_balance_cents cfg" using cfg by (simp add: config_ok_def)
  then have "total_balance s2 + f_price f \<le> int64_max" using D(6) ini(2) cap by (simp split: if_splits)
  from credit_total [OF D(3) acc2 [OF acc(2)] _ this] c(3,6) obtain s3 where
    cr: "credit (f_seller f) (f_price f) ''FRAME_SALE'' ''FRAME_LISTING'' (Some (f_id f)) s2 = (Inr (), s3)" by fastforce
  note C = credit_effect [OF D(3) cr]
  have acc3: "account_of (with_listing (f_id f) (set_paid u n) False s3) v \<noteq> None" if "account_of s1 v \<noteq> None" for v
    using trade_frame_refs(1) [OF money_only_trade_frame [OF C(3)] acc2 [OF that]] by (simp del: not_None_eq)
  have "\<exists>r. purchaseFrameListing cfg i u n p s = (Inr r, with_listing (f_id f) (set_paid u n) False s3)"
    using c e f1 bt two d cr update_unbind(2) [of "f_id f" "set_paid u n" s3]
      lockedBalance_eq [OF acc3 [OF acc(1)]] lockedBalance_eq [OF acc3 [OF acc(2)]]
    by (simp add: purchaseFrameListing_def bindS_def queryS_def throwIf_def returnS_def transactionS_def)
  then show "\<exists>r s'. purchaseFrameListing cfg i u n p s = (Inr r, s')" by blast
qed

section \<open>The operations as one datatype\<close>

datatype listing_op =
    Upsert FrameListing bool
  | Take_Down Id string bool
  | Purchase Id string string Cents
  | Dropped Id
  | Picked_Up Id

fun run_listing :: "service_config \<Rightarrow> listing_op \<Rightarrow> unit dbm" where
  "run_listing cfg (Upsert l adm) = ignore (upsertFrameListing cfg l adm)"
| "run_listing cfg (Take_Down i u adm) = cancelFrameListing i u adm"
| "run_listing cfg (Purchase i u n p) = ignore (purchaseFrameListing cfg i u n p)"
| "run_listing cfg (Dropped i) = markFrameListingDropped i"
| "run_listing cfg (Picked_Up i) = completeFrameListingPickup i"

inductive listing_moves :: "FrameListingStatus \<Rightarrow> FrameListingStatus \<Rightarrow> bool" where
  "listing_moves st st"
| "listing_moves FrameActive FramePaid"
| "listing_moves FrameActive FrameCanceled"
| "listing_moves FramePaid FrameDropped"
| "listing_moves FramePaid FrameClaimed"
| "listing_moves FrameDropped FrameClaimed"

declare listing_moves.intros [intro]

inductive_cases ended_moves [elim!]: "listing_moves FrameClaimed st" "listing_moves FrameCanceled st"

text \<open>What stays of a listing, and the buyer once there is one.\<close>

definition listing_identity :: "listing_row \<Rightarrow> Id \<times> string \<times> string \<times> Cents \<times> ItemPrototype" where
  "listing_identity f = (f_id f, f_target f, f_seller f, f_price f, f_item f)"

definition listing_follows :: "listing_row \<Rightarrow> listing_row \<Rightarrow> bool" where
  "listing_follows f f' \<longleftrightarrow> listing_identity f' = listing_identity f \<and>
    listing_moves (f_status f) (f_status f') \<and> (f_buyer f \<noteq> None \<longrightarrow> f_buyer f' = f_buyer f)"

lemma listing_follows_refl [simp]: "listing_follows f f"
  by (auto simp: listing_follows_def)

definition shop_ok :: "db \<Rightarrow> bool" where
  "shop_ok s \<longleftrightarrow> sale_ok s \<and> transfers_ok s \<and> listings_ok s"

lemma shop_okD: "shop_ok s \<Longrightarrow> sale_ok s" "shop_ok s \<Longrightarrow> transfers_ok s" "shop_ok s \<Longrightarrow> listings_ok s"
    "shop_ok s \<Longrightarrow> money_ok s"
  by (simp_all add: shop_ok_def sale_ok_def trading_ok_def)

lemma money_only_shop_ok: "money_only s s' \<Longrightarrow> money_ok s' \<Longrightarrow> shop_ok s \<Longrightarrow> shop_ok s'"
  using money_only_sale_ok money_only_transfers_ok money_only_listings_ok by (auto simp: shop_ok_def)

definition listing_step :: "Cents \<Rightarrow> db \<Rightarrow> db \<Rightarrow> bool" where
  "listing_step d s s' \<longleftrightarrow> shop_ok s' \<and> net_issue s' = net_issue s + d \<and>
    (\<forall>j f. listing_of s j = Some f \<longrightarrow> (\<exists>f'. listing_of s' j = Some f' \<and> listing_follows f f'))"

lemma listing_step_refl: "shop_ok s \<Longrightarrow> listing_step 0 s s"
  by (auto simp: listing_step_def)

lemma listing_step_account:
  assumes cfg: "config_ok cfg" and ok: "shop_ok s" and e: "ensureAccount cfg u n s = (r, s')"
  shows "listing_step (grant cfg u s s') s s'"
proof -
  note E = ensureAccount_facts [OF cfg shop_okD(4) [OF ok] e]
  have "listing_of s' = listing_of s" using money_onlyD(10) [OF E(2)] by (simp add: listing_of_def fun_eq_iff)
  with money_only_shop_ok [OF E(2,1) ok] money_only_net_issue [OF E(2)] E(3) show ?thesis
    by (simp add: listing_step_def)
qed

context listing_update
begin

lemma with_listing_step:
  assumes ok: "shop_ok s" and f: "listing_of s i = Some f" and "listings_ok (with_listing i g unb s)"
    and "listing_moves (f_status f) (f_status (g f))" and "f_buyer f \<noteq> None \<longrightarrow> f_buyer (g f) = f_buyer f"
  shows "listing_step 0 s (with_listing i g unb s)"
  using with_row [OF f, of unb] shop_okD(1-2) [OF ok] assms(3-5) f
  by (auto simp: listing_step_def shop_ok_def listing_follows_def listing_identity_def same key_upd)

end

lemma status_step:
  assumes ok: "shop_ok s" and f: "listing_of s i = Some f"
    and "sold_listing st \<longleftrightarrow> sold_listing (f_status f)" and "in_place st \<longleftrightarrow> in_place (f_status f) \<and> \<not> unb"
    and "listing_moves (f_status f) st"
  shows "listing_step 0 s (with_listing i (set_listing st) unb s)"
  by (rule set_listing.with_listing_step [OF ok f status_change_ok [OF shop_okD(3) [OF ok] f assms(3,4)]])
    (simp_all add: assms(5))

lemma listing_step_trans:
  assumes "listing_step d s s1" and "shop_ok s2" and "net_issue s2 = net_issue s1"
    and "\<And>j f. listing_of s1 j = Some f \<Longrightarrow> \<exists>f'. listing_of s2 j = Some f' \<and> listing_follows f f'"
    and "\<And>j f. listing_of s j = Some f \<Longrightarrow> listing_of s1 j = Some f"
  shows "listing_step d s s2"
  using assms unfolding listing_step_def by fastforce

lemma ensure_listing_of:
  assumes "config_ok cfg" and "money_ok s" and "ensureAccount cfg u n s = (r, s1)"
  shows "listing_of s1 = listing_of s"
  using money_onlyD(10) [OF ensureAccount_facts(2) [OF assms]] by (simp add: listing_of_def fun_eq_iff)

lemma grant_cong: "account_of s1 u = account_of s2 u \<Longrightarrow> grant cfg u s s1 = grant cfg u s s2"
  by (simp add: grant_def)

lemma upsert_step:
  assumes cfg: "config_ok cfg" and ok: "shop_ok s" and run: "upsertFrameListing cfg l adm s = (r, s')"
  shows "listing_step (grant cfg (fl_seller_uuid l) s s') s s'"
  using upsert_cases [OF cfg shop_okD(4,3) [OF ok] run]
proof (elim disjE conjE exE)
  assume "s' = s"
  with ok show ?thesis by (auto simp: grant_def intro: listing_step_refl)
next
  fix r1 assume "ensureAccount cfg (fl_seller_uuid l) (fl_seller_name l) s = (r1, s')"
  then show ?thesis by (rule listing_step_account [OF cfg ok])
next
  fix s1 i assume cl: "complete_listing l" and e: "ensureAccount cfg (fl_seller_uuid l) (fl_seller_name l) s = (Inr (), s1)"
    and rep: "replaceable s1 l adm" and i: "i = fresh_id f_id (listings (cleared l s1))"
    and s': "s' = offered l i (cleared l s1)"
  note step1 = listing_step_account [OF cfg ok e]
  then have ok1: "shop_ok s1" by (simp add: listing_step_def)
  note C = cleared_facts [OF shop_okD(3) [OF ok1] rep]
  have keep: "sale_ok (cleared l s1)" "transfers_ok (cleared l s1)" "net_issue (cleared l s1) = net_issue s1"
    "account_of (cleared l s1) = account_of s1"
    using shop_okD(1,2) [OF ok1] by (simp_all add: cleared_def split: option.splits)
  have acc: "account_of (cleared l s1) (fl_seller_uuid l) \<noteq> None"
    using ensureAccount_effect(3) [OF cfg shop_okD(4) [OF ok] e refl] keep(4) by simp
  note O = offered_ok(1,2) [OF C(1,2) _ acc i]
  have "shop_ok s'" using O(1) cl keep by (simp add: s' shop_ok_def complete_listing_def) (simp add: offered_def)
  moreover have "net_issue s' = net_issue s1" using keep(3) by (simp add: s' offered_def)
  moreover have "\<exists>f'. listing_of s' j = Some f' \<and> listing_follows f f'" if f: "listing_of s1 j = Some f" for j f
  proof -
    have "f_id f = j" "f \<in> set (listings s1)" using listing_of_Some [OF f] by simp_all
    then have "j \<noteq> i" using C(5) unfolding i by (metis fresh_id_notin image_eqI set_map)
    then have same: "listing_of s' j = listing_of (cleared l s1) j"
      using O(2) [of j] cl by (simp add: s' complete_listing_def)
    show ?thesis
    proof (cases "bound_listing s1 (fl_target_key l) = Some f")
      case True
      then have "f_status f = FrameActive" using rep by (simp add: replaceable_def)
      moreover have "f_buyer f = None"
        using listings_okD(3) [OF shop_okD(3) [OF ok1] \<open>f \<in> set (listings s1)\<close>] calculation
        by (simp add: listing_ok_def sold_listing_def)
      ultimately show ?thesis using C(3) [OF True] same \<open>f_id f = j\<close>
        by (auto simp: listing_follows_def listing_identity_def set_listing_def)
    next
      case False
      with C(4) [OF f] same show ?thesis by simp
    qed
  qed
  moreover have "listing_of s1 = listing_of s" by (rule ensure_listing_of [OF cfg shop_okD(4) [OF ok] e])
  ultimately have "listing_step (grant cfg (fl_seller_uuid l) s s1) s s'"
    using listing_step_trans [OF step1, of s'] by simp
  moreover have "grant cfg (fl_seller_uuid l) s s1 = grant cfg (fl_seller_uuid l) s s'"
    by (rule grant_cong) (simp add: s' offered_def keep(4))
  ultimately show ?thesis by simp
qed

lemma paid_step:
  assumes ok: "shop_ok s" and f: "listing_of s i = Some f" "f_status f = FrameActive" "f_seller f \<noteq> u"
    and p: "paid i f u n s s'"
  shows "listing_step 0 s s'" "listing_of s' i = Some (set_paid u n f)"
    "listing_of s j = Some f' \<Longrightarrow> j \<noteq> i \<Longrightarrow> listing_of s' j = Some f'"
proof -
  from p obtain s1 where m: "money_only s s1" "money_ok s1" "total_balance s1 = total_balance s"
    and s': "s' = with_listing i (set_paid u n) False s1" unfolding paid_def by blast
  have ok1: "shop_ok s1" by (rule money_only_shop_ok [OF m(1,2) ok])
  have lo: "listing_of s1 = listing_of s" using money_onlyD(10) [OF m(1)] by (simp add: listing_of_def fun_eq_iff)
  have f1: "listing_of s1 i = Some f" using f(1) lo by simp
  have "listing_ok f" "f_buyer f = None"
    using listings_okD(3) [OF shop_okD(3) [OF ok1] conjunct1 [OF listing_of_Some [OF f1]]] f(2)
    by (simp_all add: listing_ok_def sold_listing_def)
  then have "listings_ok s'" unfolding s' using f(2,3)
    by (intro set_paid.with_ok [OF shop_okD(3) [OF ok1] f1])
      (simp_all add: listing_ok_def set_paid_def sold_listing_def in_place_def)
  then have "listing_step 0 s1 s'" unfolding s'
    using f(2) \<open>f_buyer f = None\<close> by (intro set_paid.with_listing_step [OF ok1 f1]) auto
  moreover have "net_issue s1 = net_issue s" using money_only_net_issue [OF m(1)] m(3) by simp
  ultimately show "listing_step 0 s s'" by (simp add: listing_step_def lo)
  show "listing_of s' i = Some (set_paid u n f)"
    "listing_of s j = Some f' \<Longrightarrow> j \<noteq> i \<Longrightarrow> listing_of s' j = Some f'"
    using set_paid.with_row [OF f1, of u n False] lo by (simp_all add: s')
qed

lemma purchase_step:
  assumes cfg: "config_ok cfg" and ok: "shop_ok s" and run: "purchaseFrameListing cfg i u n p s = (r, s')"
  shows "listing_step (grant cfg u s s') s s'"
proof (cases r)
  case (Inl e)
  with purchase_Inl run consider "s' = s" | r1 where "ensureAccount cfg u n s = (r1, s')" by metis
  then show ?thesis
  proof cases
    case 1
    with ok show ?thesis by (auto simp: grant_def intro: listing_step_refl)
  next
    case 2
    then show ?thesis by (rule listing_step_account [OF cfg ok])
  qed
next
  case (Inr x)
  from purchase_Inr [OF cfg shop_okD(4) [OF ok] run [unfolded Inr]] obtain s1 f where
    e: "ensureAccount cfg u n s = (Inr (), s1)" and f: "listing_of s1 i = Some f" "f_status f = FrameActive" "f_seller f \<noteq> u"
    and pd: "paid i f u n s1 s'" by metis
  note step1 = listing_step_account [OF cfg ok e]
  then have ok1: "shop_ok s1" by (simp add: listing_step_def)
  note step2 = paid_step(1) [OF ok1 f pd]
  have "listing_step (grant cfg u s s1) s s'"
    using step1 step2 ensure_listing_of [OF cfg shop_okD(4) [OF ok] e] by (simp add: listing_step_def)
  moreover have acc1: "account_of s1 u \<noteq> None" by (rule ensureAccount_effect(3) [OF cfg shop_okD(4) [OF ok] e refl])
  from pd obtain s2 where "money_only s1 s2" "account_of s' = account_of s2" by (auto simp: paid_def)
  with trade_frame_refs(1) [OF money_only_trade_frame acc1] have "account_of s' u \<noteq> None" by simp
  ultimately show ?thesis using acc1 by (simp add: grant_def)
qed

fun listing_grant :: "service_config \<Rightarrow> listing_op \<Rightarrow> db \<Rightarrow> db \<Rightarrow> Cents" where
  "listing_grant cfg (Upsert l adm) s s' = grant cfg (fl_seller_uuid l) s s'"
| "listing_grant cfg (Purchase i u n p) s s' = grant cfg u s s'"
| "listing_grant cfg op s s' = 0"

lemma run_listing_step:
  assumes cfg: "config_ok cfg" and ok: "shop_ok s" and run: "run_listing cfg op s = (r, s')"
  shows "listing_step (listing_grant cfg op s s') s s'"
proof (cases op)
  case (Upsert l adm)
  with run upsert_step [OF cfg ok] show ?thesis by (auto simp: ignore_state)
next
  case (Purchase i u n p)
  with run purchase_step [OF cfg ok] show ?thesis by (auto simp: ignore_state)
next
  case (Take_Down i u adm)
  show ?thesis
  proof (cases "listing_of s i")
    case None
    with run Take_Down ok no_listing(1) [OF None, of u adm] show ?thesis by (simp add: listing_step_refl)
  next
    case (Some f)
    have "listing_step 0 s (with_listing i (set_listing FrameCanceled) True s)" if "f_status f = FrameActive"
      by (rule status_step [OF ok Some]) (use that in \<open>auto simp: sold_listing_def in_place_def\<close>)
    with cancel_eq [OF Some, of u adm] run Take_Down ok show ?thesis
      by (auto simp: listing_step_refl split: if_splits)
  qed
next
  case (Dropped i)
  show ?thesis
  proof (cases "listing_of s i")
    case None
    with run Dropped ok no_listing(2) [OF None] show ?thesis by (simp add: listing_step_refl)
  next
    case (Some f)
    have "listing_step 0 s (with_listing i (set_listing FrameDropped) False s)" if "f_status f = FramePaid"
      by (rule status_step [OF ok Some]) (use that in \<open>auto simp: sold_listing_def in_place_def\<close>)
    with dropped_eq [OF Some] run Dropped ok show ?thesis by (auto simp: listing_step_refl split: if_splits)
  qed
next
  case (Picked_Up i)
  show ?thesis
  proof (cases "listing_of s i")
    case None
    with run Picked_Up ok no_listing(3) [OF None] show ?thesis by (simp add: listing_step_refl)
  next
    case (Some f)
    have "listing_step 0 s (with_listing i (set_listing FrameClaimed) True s)"
      if "f_status f = FramePaid \<or> f_status f = FrameDropped"
      by (rule status_step [OF ok Some]) (use that in \<open>auto simp: sold_listing_def in_place_def\<close>)
    with pickup_eq [OF Some] run Picked_Up ok show ?thesis by (auto simp: listing_step_refl split: if_splits)
  qed
qed

section \<open>Properties\<close>

definition demo_offer :: "Id \<Rightarrow> string \<Rightarrow> string \<Rightarrow> Cents \<Rightarrow> FrameListing" where
  "demo_offer i t u p = \<lparr>fl_id = i, fl_target_key = t, fl_dimension = ''Overworld'', fl_x = 5, fl_y = 64,
     fl_z = -3, fl_seller_uuid = u, fl_seller_name = u, fl_price = p, fl_item = demo_item,
     fl_status = FrameActive, fl_buyer_uuid = None, fl_buyer_name = None\<rparr>"

definition demo_shop :: db where
  "demo_shop = demo_transfers
    \<lparr>listings := [new_listing 1 (demo_offer 1 ''frame8'' ''bob'' 250),
       set_paid ''dave'' ''dave'' (new_listing 2 (demo_offer 2 ''frame9'' ''carol'' 40))],
     frame_bindings := [\<lparr>fb_target = ''frame8'', fb_listing = 1\<rparr>, \<lparr>fb_target = ''frame9'', fb_listing = 2\<rparr>]\<rparr>"

lemma demo_shop_ok: "shop_ok demo_shop"
proof -
  have "listings_ok demo_shop" unfolding listings_ok_def by code_simp
  with demo_transfers_ok show ?thesis by (simp add: shop_ok_def demo_shop_def)
qed

lemma demo_shop_row: "listing_of demo_shop 1 = Some (new_listing 1 (demo_offer 1 ''frame8'' ''bob'' 250))"
  by code_simp

text \<open>
  C21: Offering an item out of a frame succeeds only with complete data; afterwards the frame is bound
  to exactly the new, active listing, whose id is new. A listing the frame held before was active and
  belonged to the same seller (or an administrator replaced it) and is now canceled, and the
  invariants of the service hold again.
\<close>

theorem upsertFrameListing_replaces:
  assumes "config_ok cfg" and "shop_ok s" and "upsertFrameListing cfg l adm s = (Inr x, s')"
  shows "shop_ok s' \<and> findBoundFrameListing (fl_target_key l) s' = (Inr (Some x), s') \<and>
    x = offer_view l (fl_id x) \<and> listing_of s (fl_id x) = None \<and> 0 < fl_price x \<and>
    (case bound_listing s (fl_target_key l) of None \<Rightarrow> True
     | Some f \<Rightarrow> f_status f = FrameActive \<and> (adm \<or> f_seller f = fl_seller_uuid l) \<and>
         listing_of s' (f_id f) = Some (set_listing FrameCanceled f))"
proof -
  note mok = shop_okD(4) [OF assms(2)]
  from upsert_cases [OF assms(1) mok shop_okD(3) [OF assms(2)] assms(3)] obtain s1 i where
    cl: "complete_listing l" and e: "ensureAccount cfg (fl_seller_uuid l) (fl_seller_name l) s = (Inr (), s1)"
    and rep: "replaceable s1 l adm" and i: "i = fresh_id f_id (listings (cleared l s1))"
    and s': "s' = offered l i (cleared l s1)" and x: "x = offer_view l i" by auto
  have lo: "listing_of s1 = listing_of s" by (rule ensure_listing_of [OF assms(1) mok e])
  have bl: "bound_listing s1 = bound_listing s"
    using money_onlyD(11) [OF ensureAccount_facts(2) [OF assms(1) mok e]]
    by (simp add: bound_listing_def frame_join_def [abs_def] lo fun_eq_iff)
  have "listing_step (grant cfg (fl_seller_uuid l) s s1) s s1" by (rule listing_step_account [OF assms(1,2) e])
  then have ok1: "listings_ok s1" by (simp add: listing_step_def shop_ok_def)
  note C = cleared_facts [OF ok1 rep]
  have acc: "account_of (cleared l s1) (fl_seller_uuid l) \<noteq> None"
    using ensureAccount_effect(3) [OF assms(1) mok e refl] by (simp add: cleared_def split: option.splits)
  have p: "0 < fl_price l" using cl by (simp add: complete_listing_def)
  note O = offered_ok(1,2) [OF C(1,2) p acc i, folded s']
  have ok: "shop_ok s'" using upsert_step [OF assms] by (simp add: listing_step_def)
  have "bound_listing s' (fl_target_key l) = Some (new_listing i l)"
    unfolding bound_listing_iff [OF shop_okD(3) [OF ok]] by (simp add: s' offered_def in_place_def)
  then have fb: "findBoundFrameListing (fl_target_key l) s' = (Inr (Some x), s')"
    by (simp add: findBoundFrameListing_def queryS_def x)
  have new: "i \<notin> f_id ` set (listings s1)" using C(5) unfolding i by (metis fresh_id_notin set_map)
  have "listing_of s1 i = None"
    using new unfolding listing_of_def by (auto simp: find_None_iff)
  then have "listing_of s i = None" by (simp add: lo)
  note fb this
  moreover have "case bound_listing s (fl_target_key l) of None \<Rightarrow> True
     | Some f \<Rightarrow> f_status f = FrameActive \<and> (adm \<or> f_seller f = fl_seller_uuid l) \<and>
         listing_of s' (f_id f) = Some (set_listing FrameCanceled f)"
  proof (cases "bound_listing s (fl_target_key l)")
    case (Some f)
    then have b: "bound_listing s1 (fl_target_key l) = Some f" by (simp add: bl)
    then have "f \<in> set (listings s1)" unfolding bound_listing_iff [OF ok1] by blast
    then have "f_id f \<noteq> i" using new by blast
    with C(3) [OF b] O(2) rep Some b show ?thesis by (simp add: replaceable_def)
  qed simp
  ultimately show ?thesis using ok p by (simp add: x offer_view_def)
qed

theorem upsertFrameListing_replaces_witness:
  "\<exists>x s'. upsertFrameListing demo_cfg (demo_offer 0 ''frame8'' ''bob'' 300) False demo_shop = (Inr x, s') \<and>
    findBoundFrameListing ''frame8'' s' = (Inr (Some x), s') \<and> f_status (the (listing_of s' 1)) = FrameCanceled"
proof -
  let ?l = "demo_offer 0 ''frame8'' ''bob'' 300"
  have "\<not> isl (fst (upsertFrameListing demo_cfg ?l False demo_shop))" by code_simp
  then obtain x s' where run: "upsertFrameListing demo_cfg ?l False demo_shop = (Inr x, s')"
    unfolding not_isl_fst by blast
  have b: "bound_listing demo_shop ''frame8'' = Some (new_listing 1 (demo_offer 1 ''frame8'' ''bob'' 250))"
    by code_simp
  have t: "fl_target_key ?l = ''frame8''" by (simp add: demo_offer_def)
  from upsertFrameListing_replaces [OF demo_cfg_ok demo_shop_ok run, unfolded t b] run show ?thesis by auto
qed

text \<open>
  C22: A purchase that succeeds was of an active listing of another seller at the price the buyer had
  seen; exactly that price moves from the buyer to the seller and no other balance changes (a new
  buyer's account opens with the initial balance), the listing is paid and remembers its buyer, the
  returned balances are the current ones, and nobody can buy the listing a second time.
\<close>

theorem purchaseFrameListing_pays_once:
  assumes "config_ok cfg" and "shop_ok s" and "purchaseFrameListing cfg i u n p s = (Inr r, s')"
  shows "shop_ok s' \<and> (\<exists>f. listing_of s i = Some f \<and> f_status f = FrameActive \<and> f_price f = p \<and> f_seller f \<noteq> u \<and>
      balance_of s' = (balance_of s)(u := opening_balance cfg s u - p,
        f_seller f := balance_of s (f_seller f) + p) \<and> 0 \<le> balance_of s' u \<and>
      listing_of s' i = Some (set_paid u n f) \<and> r = purchase_result f u n s') \<and>
    isl (fst (purchaseFrameListing cfg i u' n' p' s'))"
proof -
  note mok = shop_okD(4) [OF assms(2)]
  from purchase_Inr [OF assms(1) mok assms(3)] obtain s1 f where
    e: "ensureAccount cfg u n s = (Inr (), s1)" and f: "listing_of s1 i = Some f" "f_status f = FrameActive"
      "f_price f = p" "f_seller f \<noteq> u" and pd: "paid i f u n s1 s'" and r: "r = purchase_result f u n s'" by metis
  have "listing_step (grant cfg u s s1) s s1" by (rule listing_step_account [OF assms(1,2) e])
  then have ok1: "shop_ok s1" by (simp add: listing_step_def)
  note P = paid_step(1,2) [OF ok1 f(1,2,4) pd]
  have ok: "shop_ok s'" using P(1) by (simp add: listing_step_def)
  have lo: "listing_of s i = Some f" using f(1) ensure_listing_of [OF assms(1) mok e] by simp
  have b1: "balance_of s1 = (balance_of s)(u := opening_balance cfg s u)"
    using ensureAccount_effect(5) [OF assms(1) mok e refl] by (auto simp: opening_balance_def fun_eq_iff)
  have "balance_of s' = (balance_of s1)(u := balance_of s1 u - f_price f,
       f_seller f := balance_of s1 (f_seller f) + f_price f)" "f_price f \<le> balance_of s1 u"
    using pd by (auto simp: paid_def)
  then have bal: "balance_of s' = (balance_of s)(u := opening_balance cfg s u - p,
        f_seller f := balance_of s (f_seller f) + p)" "0 \<le> balance_of s' u"
    using b1 f(3,4) by (auto simp: fun_eq_iff)
  have "isl (fst (purchaseFrameListing cfg i u' n' p' s'))"
  proof (rule ccontr)
    assume "\<not> isl (fst (purchaseFrameListing cfg i u' n' p' s'))"
    then obtain r' t where run: "purchaseFrameListing cfg i u' n' p' s' = (Inr r', t)"
      unfolding not_isl_fst by blast
    from purchase_Inr [OF assms(1) shop_okD(4) [OF ok] run] obtain s2 f2 where
      e2: "ensureAccount cfg u' n' s' = (Inr (), s2)" and "listing_of s2 i = Some f2" "f_status f2 = FrameActive"
      by metis
    with ensure_listing_of [OF assms(1) shop_okD(4) [OF ok] e2] P(2) show False by auto
  qed
  with ok lo f bal P(2) r show ?thesis by blast
qed

theorem purchaseFrameListing_pays_once_witness:
  "\<exists>r s'. purchaseFrameListing demo_cfg 1 ''carol'' ''carol'' 250 demo_shop = (Inr r, s') \<and>
    balance_of s' ''carol'' = 50 \<and> balance_of s' ''bob'' = 450 \<and>
    isl (fst (purchaseFrameListing demo_cfg 1 ''dave'' ''dave'' 250 s'))"
proof -
  let ?run = "purchaseFrameListing demo_cfg 1 ''carol'' ''carol'' 250 demo_shop"
  have "\<not> isl (fst ?run)" by code_simp
  then obtain r s' where run: "?run = (Inr r, s')" unfolding not_isl_fst by blast
  have b: "opening_balance demo_cfg demo_shop ''carol'' = 300" "balance_of demo_shop ''bob'' = 200" by code_simp+
  have sl: "f_seller (new_listing 1 (demo_offer 1 ''frame8'' ''bob'' 250)) = ''bob''" by (simp add: demo_offer_def)
  from purchaseFrameListing_pays_once [OF demo_cfg_ok demo_shop_ok run, of "''dave''" "''dave''" 250] demo_shop_row b sl run
  show ?thesis by auto
qed

text \<open>
  C23: A purchase succeeds on exactly the requests one expects to succeed: complete data, an active
  listing at the seen price, a buyer other than the seller who can pay; neither the binding nor the
  account check inside the transaction can refuse it. The bound says the money supply fits the
  BIGINT column.
\<close>

theorem purchaseFrameListing_succeeds_iff:
  assumes "config_ok cfg" and "shop_ok s" and "total_balance s + initial_balance_cents cfg \<le> int64_max"
  shows "\<not> isl (fst (purchaseFrameListing cfg i u n p s)) \<longleftrightarrow> purchasable cfg s i u n p"
  unfolding not_isl_fst by (rule purchase_total [OF assms(1) shop_okD(4,3) [OF assms(2)] assms(3)])

theorem purchaseFrameListing_succeeds_witness:
  "\<not> isl (fst (purchaseFrameListing demo_cfg 1 ''alice'' ''alice'' 250 demo_shop)) \<and>
    isl (fst (purchaseFrameListing demo_cfg 1 ''alice'' ''alice'' 249 demo_shop))"
proof -
  have "total_balance demo_shop + initial_balance_cents demo_cfg \<le> int64_max"
    "purchasable demo_cfg demo_shop 1 ''alice'' ''alice'' 250"
    "\<not> purchasable demo_cfg demo_shop 1 ''alice'' ''alice'' 249" by code_simp+
  with purchaseFrameListing_succeeds_iff [OF demo_cfg_ok demo_shop_ok] show ?thesis by blast
qed

text \<open>
  C24: The life of a listing under any of the five operations, whatever its outcome: it is never
  deleted, keeps target, seller, price and item, moves only along active to paid or canceled, paid to
  dropped or claimed and dropped to claimed, and keeps its buyer once it has one; the operation
  conserves money up to the opening balance of a new player.
\<close>

theorem listing_state_machine:
  assumes "config_ok cfg" and "shop_ok s" and "run_listing cfg op s = (r, s')" and "listing_of s i = Some f"
  shows "shop_ok s' \<and> net_issue s' = net_issue s + listing_grant cfg op s s' \<and>
    (\<exists>f'. listing_of s' i = Some f' \<and> listing_identity f' = listing_identity f \<and>
      listing_moves (f_status f) (f_status f') \<and> (f_buyer f = None \<or> f_buyer f' = f_buyer f))"
  using run_listing_step [OF assms(1-3)] assms(4) by (fastforce simp: listing_step_def listing_follows_def)

theorem listing_state_machine_witness:
  "\<exists>f'. listing_of (snd (run_listing demo_cfg (Picked_Up 2) demo_shop)) 2 = Some f' \<and>
    f_buyer f' = Some ''dave'' \<and> f_status f' \<noteq> FrameActive"
proof -
  have row: "listing_of demo_shop 2 =
      Some (set_paid ''dave'' ''dave'' (new_listing 2 (demo_offer 2 ''frame9'' ''carol'' 40)))" by code_simp
  from listing_state_machine [OF demo_cfg_ok demo_shop_ok prod.collapse [symmetric] row]
  obtain f' where "listing_of (snd (run_listing demo_cfg (Picked_Up 2) demo_shop)) 2 = Some f'"
    "listing_moves FramePaid (f_status f')" "f_buyer f' = Some ''dave''" by fastforce
  then show ?thesis by (auto elim: listing_moves.cases)
qed

end
