(* ===== verification/Inventory_Flows.thy ===== *)
theory Inventory_Flows
  imports Inventory_Escrow Sell_Escrow Frame_Listings
begin

text \<open>
  Where a player's inventory and the exchange meet (src/plugin.cpp): a sale takes items out of the
  inventory, a delivery puts items into it, and after an interruption the markers on the items tell what
  is still to be done. Every function works on the database and the inventory of one player; an
  exception leaves both as they are at that point.
\<close>

section \<open>The state\<close>

record 'i visit =
  v_db :: db
  v_inv :: 'i

text \<open>What the functions take from the plugin and the host: the configuration of the service, the NBT
  classes, the translations, the inventory's interface, the player with his language, and the host's
  name of an item (\<open>localizedItemName\<close>).\<close>

record 'i env =
  ev_cfg :: service_config
  ev_host :: host
  ev_table :: catalogue
  ev_api :: "'i inventory_api"
  ev_uuid :: string
  ev_language :: Language
  ev_item_name :: "ItemPrototype \<Rightarrow> Language \<Rightarrow> string"

definition on_shop :: "'a dbm \<Rightarrow> ('i visit, 'a) svc" where
  "on_shop m v = (case m (v_db v) of (r, s) \<Rightarrow> (r, v\<lparr>v_db := s\<rparr>))"

definition on_inv :: "('i, 'a) svc \<Rightarrow> ('i visit, 'a) svc" where
  "on_inv m v = (case m (v_inv v) of (r, i) \<Rightarrow> (r, v\<lparr>v_inv := i\<rparr>))"

definition ask_inv :: "('i \<Rightarrow> 'a) \<Rightarrow> ('i visit, 'a) svc" where
  "ask_inv f = queryS (\<lambda>v. f (v_inv v))"

section \<open>Clearing markers\<close>

text \<open>Both kinds of sell markers are gone, or it is an error.\<close>

definition markers_left :: "'i env \<Rightarrow> Id \<Rightarrow> string \<Rightarrow> ('i visit, unit) svc" where
  "markers_left env k message = bindS (ask_inv (\<lambda>i. ts_quantity (taggedSellItems (ev_api env) k i) \<noteq> 0 \<or>
     sellReceiptCount (ev_api env) k i \<noteq> 0)) (\<lambda>found. throwIf found (Runtime_Error message))"

definition removeSold :: "'i env \<Rightarrow> Id \<Rightarrow> string \<Rightarrow> ('i visit, unit) svc" where
  "removeSold env k message =
    bindS (on_inv (removeTaggedSellItems (ev_api env) k)) (\<lambda>_.
    bindS (on_inv (removeSellReceipts (ev_api env) k)) (\<lambda>_.
    markers_left env k message))"

section \<open>Selling\<close>

definition reconcile_prepared :: "'i env \<Rightarrow> SellEscrow \<Rightarrow> ('i visit, SellEscrow option) svc" where
  "reconcile_prepared env e =
    (if se_status e \<noteq> EscrowPrepared then returnS (Some e)
     else bindS (ask_inv (taggedSellItems (ev_api env) (se_id e))) (\<lambda>tagged.
       if ts_quantity tagged < se_requested e
       then bindS (whenS (ts_quantity tagged > 0)
           (on_inv (restoreTaggedSellItems (ev_host env) (ev_api env) (se_id e) (se_item e)))) (\<lambda>_.
         bindS (on_shop (cancelSellEscrow (se_id e))) (\<lambda>_. returnS None))
       else bindS (on_shop (markSellEscrowTagged (se_id e) (ts_quantity tagged) (ts_stacks tagged))) (\<lambda>_.
         returnS (Some (e\<lparr>se_tagged := ts_quantity tagged, se_receipts := ts_stacks tagged,
           se_status := EscrowTagged\<rparr>)))))"

definition reconcile_tagged :: "'i env \<Rightarrow> SellEscrow \<Rightarrow> ('i visit, SellEscrow) svc" where
  "reconcile_tagged env e =
    (if se_status e \<noteq> EscrowTagged then returnS e
     else
       bindS (on_inv (replaceTaggedSellItemsWithReceipts (ev_host env) (ev_table env) (ev_api env) (se_id e)
         (ev_language env))) (\<lambda>_.
       bindS (ask_inv (sellReceiptCount (ev_api env) (se_id e))) (\<lambda>receipts.
       bindS (throwIf (receipts \<noteq> se_receipts e)
         (Runtime_Error ''sell escrow receipts were not fully restored'')) (\<lambda>_.
       bindS (on_shop (executeSellEscrow (se_id e))) (\<lambda>_.
       returnS (e\<lparr>se_status := EscrowOrdered\<rparr>))))))"

definition reconcile_ordered :: "'i env \<Rightarrow> SellEscrow \<Rightarrow> ('i visit, unit) svc" where
  "reconcile_ordered env e = whenS (se_status e = EscrowOrdered)
    (bindS (removeSold env (se_id e) ''sell escrow markers were not fully removed'') (\<lambda>_.
     on_shop (markSellEscrowCleaned (se_id e))))"

definition reconcileSellEscrow :: "'i env \<Rightarrow> SellEscrow \<Rightarrow> ('i visit, unit) svc" where
  "reconcileSellEscrow env e =
    bindS (reconcile_prepared env e) (\<lambda>next_step. case next_step of None \<Rightarrow> returnS ()
    | Some e1 \<Rightarrow> bindS (reconcile_tagged env e1) (reconcile_ordered env))"

definition reconcileSellEscrows :: "'i env \<Rightarrow> ('i visit, unit) svc" where
  "reconcileSellEscrows env =
    bindS (on_shop (unfinishedSellEscrows (ev_uuid env))) (mapS (reconcileSellEscrow env))"

text \<open>The \<open>try\<close> block of \<open>submitSellEscrow\<close>, and the whole.\<close>

definition sell_prepared :: "'i env \<Rightarrow> SellEscrow \<Rightarrow> ('i visit, ExecutionResult) svc" where
  "sell_prepared env e =
    (let k = se_id e; api = ev_api env in
    bindS (on_inv (tagSellItems (ev_host env) (ev_table env) api (se_item e) (se_requested e) k (ev_language env)
      (ev_item_name env (se_item e) (ev_language env)))) (\<lambda>tagged.
    bindS (ask_inv (taggedSellItems api k)) (\<lambda>persisted.
    bindS (throwIf (ts_quantity persisted \<noteq> ts_quantity tagged \<or> ts_stacks persisted \<noteq> ts_stacks tagged)
      (Runtime_Error ''sell items were not fully tagged for escrow'')) (\<lambda>_.
    bindS (on_shop (markSellEscrowTagged k (ts_quantity tagged) (ts_stacks tagged))) (\<lambda>_.
    bindS (on_inv (replaceTaggedSellItemsWithReceipts (ev_host env) (ev_table env) api k (ev_language env))) (\<lambda>_.
    bindS (ask_inv (sellReceiptCount api k)) (\<lambda>receipts.
    bindS (throwIf (receipts \<noteq> ts_stacks tagged)
      (Runtime_Error ''sell escrow receipt count does not match tagged stacks'')) (\<lambda>_.
    bindS (on_shop (executeSellEscrow k)) (\<lambda>result.
    bindS (removeSold env k ''sell escrow markers were not fully cleared'') (\<lambda>_.
    bindS (on_shop (markSellEscrowCleaned k)) (\<lambda>_.
    returnS result)))))))))))"

definition player_facing :: "error \<Rightarrow> bool" where
  "player_facing e \<longleftrightarrow> (case e of User_Error _ \<Rightarrow> True | _ \<Rightarrow> False)"

definition submitSellEscrow :: "'i env \<Rightarrow> OrderRequest \<Rightarrow> ('i visit, ExecutionResult) svc" where
  "submitSellEscrow env request =
    bindS (on_shop (prepareSellEscrow (ev_cfg env) request)) (\<lambda>escrow.
    catchS (sell_prepared env escrow) (\<lambda>e.
      catchS (bindS (reconcileSellEscrows env) (\<lambda>_. on_shop (executeSellEscrow (se_id escrow)))) (\<lambda>_.
        throwS (if player_facing e then User_Error (what e) else Runtime_Error (what e)))))"

section \<open>Markers without their flow\<close>

definition reconcile_claim_marker :: "'i env \<Rightarrow> Id \<Rightarrow> ('i visit, unit) svc" where
  "reconcile_claim_marker env k =
    bindS (on_shop (findDeliveryClaim k (ev_uuid env))) (\<lambda>claim. case claim of
      None \<Rightarrow> on_inv (clearDeliveryClaimTag (ev_api env) k)
    | Some c \<Rightarrow>
      if dc_status c = ClaimApplied
      then bindS (on_inv (clearDeliveryClaimTag (ev_api env) k)) (\<lambda>_.
        bindS (ask_inv (taggedItemCount (ev_api env) k)) (\<lambda>remaining.
        whenS (remaining = 0 \<and> \<not> dc_cleaned c) (on_shop (markDeliveryClaimCleaned k))))
      else whenS (dc_status c = ClaimCanceled) (on_inv (removeDeliveryClaimItems (ev_api env) k)))"

definition reconcile_sell_marker :: "'i env \<Rightarrow> Id \<Rightarrow> ('i visit, unit) svc" where
  "reconcile_sell_marker env k =
    bindS (on_shop (findSellEscrow k (ev_uuid env))) (\<lambda>escrow. case escrow of
      None \<Rightarrow> returnS ()
    | Some e \<Rightarrow>
      if se_status e = EscrowOrdered
      then bindS (removeSold env k (''sell escrow marker '' @ dec (int k) @ '' was not cleared'')) (\<lambda>_.
        whenS (\<not> se_cleaned e) (on_shop (markSellEscrowCleaned k)))
      else whenS (se_status e = EscrowCanceled)
        (bindS (on_inv (restoreTaggedSellItems (ev_host env) (ev_api env) k (se_item e))) (\<lambda>_.
         bindS (on_inv (removeSellReceipts (ev_api env) k)) (\<lambda>_.
         markers_left env k (''canceled sell escrow marker '' @ dec (int k) @ '' was not cleared'')))))"

definition reconcileInternalEscrowMarkers :: "'i env \<Rightarrow> ('i visit, unit) svc" where
  "reconcileInternalEscrowMarkers env =
    bindS (ask_inv (internalEscrowMarkers (ev_api env))) (\<lambda>markers.
    bindS (mapS (reconcile_claim_marker env) (em_delivery_claim_ids markers)) (\<lambda>_.
    mapS (reconcile_sell_marker env)
      (sort (remdups (em_sell_item_escrow_ids markers @ em_sell_receipt_escrow_ids markers)))))"

section \<open>Handing over deliveries\<close>

text \<open>A claim that an earlier visit left unfinished; the result is what it adds to \<open>delivered_total\<close>.\<close>

definition finish_old_claim :: "'i env \<Rightarrow> DeliveryClaim \<Rightarrow> ('i visit, int) svc" where
  "finish_old_claim env c =
    (let k = dc_id c;
       clean = (\<lambda>tagged delivered.
         bindS (whenS (tagged > 0) (on_inv (clearDeliveryClaimTag (ev_api env) k))) (\<lambda>_.
         bindS (ask_inv (taggedItemCount (ev_api env) k)) (\<lambda>remaining.
         bindS (whenS (remaining = 0) (on_shop (markDeliveryClaimCleaned k))) (\<lambda>_.
         returnS delivered)))) in
    bindS (ask_inv (taggedItemCount (ev_api env) k)) (\<lambda>tagged.
    if dc_status c = ClaimPrepared
    then let delivered = min tagged (dc_quantity c) in
      bindS (on_shop (completeDeliveryClaim k delivered)) (\<lambda>_.
      if delivered = 0 then returnS 0 else clean tagged delivered)
    else clean tagged 0))"

text \<open>One delivery: its claim, its stacks, and whether some of them found no place.\<close>

definition hand_over :: "'i env \<Rightarrow> Delivery \<Rightarrow> int \<Rightarrow> ('i visit, int \<times> bool) svc" where
  "hand_over env d pending =
    bindS (on_shop (prepareDeliveryClaim (dv_id d) (ev_uuid env) pending)) (\<lambda>claim.
    let k = dc_id claim in
    bindS (liftS (splitStacks (ev_host env) (ev_api env) (dv_item d) (dc_quantity claim) (Some k))) (\<lambda>new_stacks.
    let attempted = (\<Sum>item\<leftarrow>new_stacks. is_amount item) in
    bindS (on_inv (\<lambda>i. case inv_add (ev_api env) new_stacks i of (l, i') \<Rightarrow> (Inr l, i'))) (\<lambda>leftovers.
    let delivered = attempted - itemCount leftovers in
    bindS (on_shop (completeDeliveryClaim k delivered)) (\<lambda>_.
    bindS (whenS (delivered > 0)
      (bindS (on_inv (clearDeliveryClaimTag (ev_api env) k)) (\<lambda>_.
       bindS (ask_inv (taggedItemCount (ev_api env) k)) (\<lambda>remaining.
       whenS (remaining = 0) (on_shop (markDeliveryClaimCleaned k)))))) (\<lambda>_.
    returnS (if delivered > 0 then delivered else 0, leftovers \<noteq> []))))))"

fun finish_old_claims :: "'i env \<Rightarrow> DeliveryClaim list \<Rightarrow> int \<Rightarrow> ('i visit, int) svc" where
  "finish_old_claims env [] delivered_total = returnS delivered_total"
| "finish_old_claims env (c # cs) delivered_total =
    bindS (finish_old_claim env c) (\<lambda>n. finish_old_claims env cs (delivered_total + n))"

fun hand_over_all :: "'i env \<Rightarrow> Delivery list \<Rightarrow> int \<Rightarrow> ('i visit, int) svc" where
  "hand_over_all env [] delivered_total = returnS delivered_total"
| "hand_over_all env (d # ds) delivered_total =
    (let pending = dv_quantity d - dv_claimed d - dv_reserved d in
     if pending \<le> 0 then hand_over_all env ds delivered_total
     else bindS (hand_over env d pending) (\<lambda>(n, stop).
       if stop then returnS (delivered_total + n) else hand_over_all env ds (delivered_total + n)))"

definition claimDeliveries :: "'i env \<Rightarrow> ('i visit, int) svc" where
  "claimDeliveries env =
    bindS (reconcileInternalEscrowMarkers env) (\<lambda>_.
    bindS (reconcileSellEscrows env) (\<lambda>_.
    bindS (on_shop (unfinishedDeliveryClaims (ev_uuid env))) (\<lambda>claims.
    bindS (finish_old_claims env claims 0) (\<lambda>delivered_total.
    bindS (on_shop (pendingDeliveries (ev_uuid env))) (\<lambda>deliveries.
    hand_over_all env deliveries delivered_total)))))"

section \<open>Items bought from frames\<close>

text \<open>The lambda \<open>reconcile\<close>: a marked item is the drop of a paid listing. The index of the plugin is
  only erased from here, so it is not part of the state.\<close>

definition settle_frame_item :: "ItemStack \<Rightarrow> Id \<Rightarrow> ('i visit, bool \<times> ItemStack) svc" where
  "settle_frame_item item k =
    bindS (on_shop (markFrameListingDropped k)) (\<lambda>_.
    bindS (on_shop (completeFrameListingPickup k)) (\<lambda>_.
    returnS (clear_item_marker FrameSaleTag item k)))"

definition reconcileFrameSaleItems :: "'i env \<Rightarrow> ('i visit, unit) svc" where
  "reconcileFrameSaleItems env =
    (let api = ev_api env in
    bindS (ask_inv (inv_size api)) (\<lambda>n.
    bindS (mapS (\<lambda>slot. bindS (ask_inv (\<lambda>i. inv_item api i slot)) (\<lambda>item.
        case Option.bind item (\<lambda>x. map_option (Pair x) (markerId (is_nbt x) FrameSaleTag)) of
          None \<Rightarrow> returnS ()
        | Some (x, k) \<Rightarrow> bindS (settle_frame_item x k) (\<lambda>(cleared, x').
            whenS cleared (on_inv (bindS (executeS (inv_clear api slot)) (\<lambda>_. executeS (inv_set api slot x')))))))
      [0..<n]) (\<lambda>_.
    bindS (ask_inv (inv_off api)) (\<lambda>item.
      case Option.bind item (\<lambda>x. map_option (Pair x) (markerId (is_nbt x) FrameSaleTag)) of
        None \<Rightarrow> returnS ()
      | Some (x, k) \<Rightarrow> bindS (settle_frame_item x k) (\<lambda>(cleared, x').
          whenS cleared (on_inv (bindS (executeS (inv_set_off api None)) (\<lambda>_. executeS (inv_set_off api (Some x'))))))))))"

end
