(* ===== verification/Inventory_Sales.thy ===== *)
theory Inventory_Sales
  imports Inventory_Flows
begin

text \<open>
  A sale moves items from the inventory to the exchange, all of them or none: the run of
  \<open>submitSellEscrow\<close> on both sides, the inventory (through its view, the list of its places) and the
  database.
\<close>

section \<open>The receipts\<close>

text \<open>Giving a stack a name and a lore can fail; a stack that has them keeps type, amount and markers.\<close>

definition meta_laws :: "'i inventory_api \<Rightarrow> bool" where
  "meta_laws api \<longleftrightarrow> (\<forall>name lore item r. item_with_meta api name lore item = Some r \<longrightarrow>
     is_type r = is_type item \<and> is_amount r = is_amount item \<and> (\<forall>m. markerId (is_nbt r) m = markerId (is_nbt item) m))"

abbreviation "receipt_made env k \<equiv> \<not> isl (sellReceipt (ev_host env) (ev_table env) (ev_api env) k (ev_language env))"

lemma sellReceipt_facts:
  assumes "meta_laws api" and "host_laws h" and "k < 2 ^ 64" and "sellReceipt h table api k language = Inr receipt"
  shows "is_type receipt = ''minecraft:barrier''" "is_amount receipt = 1" "sellReceiptEscrowId receipt = Some k"
    "sellItemEscrowId receipt = None"
proof -
  let ?blank = "\<lparr>is_type = ''minecraft:barrier'', is_data = 0, is_amount = 1, is_nbt = []\<rparr>"
  obtain r where r: "item_with_meta api (messageText table language ReceiptName) (messageText table language ReceiptLore) ?blank = Some r"
    and receipt: "receipt = setMarker h r SellReceiptTag k"
    using assms(4) by (auto simp: sellReceipt_def split: option.splits)
  have m: "is_type r = is_type ?blank" "is_amount r = is_amount ?blank" "markerId (is_nbt r) m = markerId (is_nbt ?blank) m" for m
    using assms(1) r unfolding meta_laws_def by blast+
  have "markerId [] m = None" for m by (simp add: markerId_def)
  with m markerId_setMarker [OF assms(2,3)] show "is_type receipt = ''minecraft:barrier''" "is_amount receipt = 1"
      "sellReceiptEscrowId receipt = Some k" "sellItemEscrowId receipt = None"
    by (simp_all add: receipt sellReceiptEscrowId_def sellItemEscrowId_def SellItemTag_def SellReceiptTag_def)
qed

lemma bindS_eq: "bindS m f v = (case m v of (Inl e, v') \<Rightarrow> (Inl e, v') | (Inr x, v') \<Rightarrow> f x v')"
  by (simp add: bindS_def)

text \<open>Where no receipt can be made, the first marked stack ends the loop, and nothing has changed.\<close>

lemma mapS_refuses:
  assumes "\<And>x. x \<in> set xs \<Longrightarrow> f x i = (if bad x then Inl e else Inr (), i)"
  shows "mapS f xs i = (if list_ex bad xs then Inl e else Inr (), i)"
  using assms by (induction xs) (auto simp: returnS_def bindS_def)

lemma replace_refused:
  assumes laws: "inventory_laws api" and r: "sellReceipt h table api k language = Inl e"
    and found: "0 < stacks (\<lambda>item. sellItemEscrowId item = Some k) (inv_view api i)"
  shows "replaceTaggedSellItemsWithReceipts h table api k language i = (Inl e, i)"
proof -
  let ?bad = "\<lambda>x. case x of None \<Rightarrow> False | Some item \<Rightarrow> sellItemEscrowId item = Some k"
  let ?body = "\<lambda>slot. bindS (queryS (\<lambda>i. inv_item api i slot)) (\<lambda>item. case item of None \<Rightarrow> returnS ()
      | Some item \<Rightarrow> whenS (sellItemEscrowId item = Some k)
          (bindS (liftS (sellReceipt h table api k language)) (\<lambda>receipt. executeS (inv_set api slot receipt))))"
  have body: "?body slot i = (if ?bad (inv_item api i slot) then Inl e else Inr (), i)" for slot
    by (auto simp: bindS_def queryS_def returnS_def whenS_def liftS_def r split: option.splits)
  have "\<exists>x \<in> set (inv_view api i). ?bad x"
  proof (rule ccontr)
    assume "\<not> ?thesis"
    then have "stacks (\<lambda>item. sellItemEscrowId item = Some k) v = 0" if "set v \<subseteq> set (inv_view api i)" for v
      using that by (induction v) (auto simp: stacks_def split: option.splits)
    then show False using found by simp
  qed
  then have one: "list_ex (\<lambda>slot. ?bad (inv_item api i slot)) [0..<inv_size api i] \<or> ?bad (inv_off api i)"
    by (auto simp: inv_view_def list_ex_iff)
  have loop: "mapS ?body [0..<inv_size api i] i =
      (if list_ex (\<lambda>slot. ?bad (inv_item api i slot)) [0..<inv_size api i] then Inl e else Inr (), i)"
    by (rule mapS_refuses) (rule body)
  let ?off = "bindS (queryS (inv_off api)) (\<lambda>item. case item of None \<Rightarrow> returnS ()
      | Some item \<Rightarrow> whenS (sellItemEscrowId item = Some k)
          (bindS (liftS (sellReceipt h table api k language)) (\<lambda>receipt. executeS (inv_set_off api (Some receipt)))))"
  have off: "?off i = (if ?bad (inv_off api i) then Inl e else Inr (), i)"
    by (auto simp: bindS_def queryS_def returnS_def whenS_def liftS_def r split: option.splits)
  have "replaceTaggedSellItemsWithReceipts h table api k language i = bindS (mapS ?body [0..<inv_size api i]) (\<lambda>_. ?off) i"
    by (simp add: replaceTaggedSellItemsWithReceipts_def for_items_def bindS_eq [of "queryS (inv_size api)"] queryS_def)
  also have "\<dots> = (Inl e, i)"
    unfolding bindS_eq [of "mapS ?body [0..<inv_size api i]"] loop using one off by auto
  finally show ?thesis .
qed

section \<open>Views\<close>

lemma amounts_none: "(\<And>item. Some item \<in> set v \<Longrightarrow> \<not> c item) \<Longrightarrow> amounts c v = 0"
  by (induction v) (auto simp: amounts_def split: option.splits)

lemma stacks_zero: "stacks c v = 0 \<longleftrightarrow> (\<forall>item. Some item \<in> set v \<longrightarrow> \<not> c item)"
proof (induction v)
  case (Cons x v)
  have "0 \<le> stacks c v" by (induction v) (auto simp: stacks_def split: option.splits)
  with Cons show ?case by (cases x) (auto simp: stacks_def)
qed (simp add: stacks_def)

lemma amounts_receipts:
  assumes "is_amount receipt = 1" and "sellReceiptEscrowId receipt = Some k"
    and "stacks (\<lambda>item. sellReceiptEscrowId item = Some k) v = 0"
  shows "amounts (\<lambda>item. sellReceiptEscrowId item = Some k)
      (map_items (\<lambda>item. if sellItemEscrowId item = Some k then Some receipt else Some item) v) =
    stacks (\<lambda>item. sellItemEscrowId item = Some k) v"
  using assms(3)
proof (induction v)
  case (Cons x v)
  then have v: "stacks (\<lambda>item. sellReceiptEscrowId item = Some k) v = 0"
    and x: "x = Some item \<Longrightarrow> sellReceiptEscrowId item \<noteq> Some k" for item
    by (simp_all only: stacks_zero) (auto simp: stacks_zero)
  from Cons.IH [OF v] x assms(1,2) show ?case
    by (cases x) (simp_all add: amounts_def stacks_def map_items_def)
qed (simp add: amounts_def stacks_def map_items_def)

text \<open>Replacing the tagged stacks by receipts, then removing tagged stacks and receipts, is removing the
  tagged stacks.\<close>

lemma removed_view:
  assumes "sellReceiptEscrowId receipt = Some k" and "sellItemEscrowId receipt = None"
    and "stacks (\<lambda>item. sellReceiptEscrowId item = Some k) v = 0"
  shows "without_marked sellReceiptEscrowId k (without_marked sellItemEscrowId k
      (map_items (\<lambda>item. if sellItemEscrowId item = Some k then Some receipt else Some item) v)) =
    without_marked sellItemEscrowId k v"
  using assms(3) unfolding stacks_zero
  by (induction v) (auto simp: without_marked_def map_items_def assms(1,2) split: option.splits)

lemma amounts_without:
  "amounts c (without_marked marker k v) = amounts c v - amounts (\<lambda>item. c item \<and> marker item = Some k) v"
  by (induction v) (auto simp: amounts_def without_marked_def map_items_def split: option.splits)

lemma without_marked_set: "Some item \<in> set (without_marked marker k v) \<Longrightarrow> Some item \<in> set v \<and> marker item \<noteq> Some k"
  by (induction v) (auto simp: without_marked_def map_items_def split: option.splits if_splits)

definition stocked :: "'i inventory_api \<Rightarrow> 'i \<Rightarrow> bool" where
  "stocked api i \<longleftrightarrow> list_all (\<lambda>x. case x of None \<Rightarrow> True | Some item \<Rightarrow> 0 < is_amount item) (inv_view api i)"

lemma amounts_mono:
  assumes "list_all (\<lambda>x. case x of None \<Rightarrow> True | Some item \<Rightarrow> 0 < is_amount item) v"
    and "\<And>item. c item \<Longrightarrow> d item"
  shows "0 \<le> amounts c v" "amounts c v \<le> amounts d v"
  using assms(1) by (induction v) (auto simp: amounts_def assms(2) split: option.splits)

section \<open>The run\<close>

lemma visit_steps:
  "on_inv m \<lparr>v_db = s, v_inv = i\<rparr> = (case m i of (r, i') \<Rightarrow> (r, \<lparr>v_db = s, v_inv = i'\<rparr>))"
  "on_shop m' \<lparr>v_db = s, v_inv = i\<rparr> = (case m' s of (r', s') \<Rightarrow> (r', \<lparr>v_db = s', v_inv = i\<rparr>))"
  "ask_inv g \<lparr>v_db = s, v_inv = i\<rparr> = (Inr (g i), \<lparr>v_db = s, v_inv = i\<rparr>)"
  by (simp_all add: on_inv_def on_shop_def ask_inv_def queryS_def)

lemmas visit_run = bindS_eq visit_steps throwIf_def returnS_def whenS_def

text \<open>Both removals, with their check, on any inventory.\<close>

lemma removeSold_run:
  assumes "inventory_laws (ev_api env)"
  obtains i' where "removeSold env k message \<lparr>v_db = s, v_inv = i\<rparr> = (Inr (), \<lparr>v_db = s, v_inv = i'\<rparr>)"
    "inv_view (ev_api env) i' =
      without_marked sellReceiptEscrowId k (without_marked sellItemEscrowId k (inv_view (ev_api env) i))"
proof -
  obtain i1 where i1: "removeTaggedSellItems (ev_api env) k i = (Inr (), i1)"
    "inv_view (ev_api env) i1 = without_marked sellItemEscrowId k (inv_view (ev_api env) i)"
    using removeMarked_view [OF assms] unfolding removeTaggedSellItems_def by blast
  obtain i2 where i2: "removeSellReceipts (ev_api env) k i1 = (Inr (), i2)"
    "inv_view (ev_api env) i2 = without_marked sellReceiptEscrowId k (inv_view (ev_api env) i1)"
    using removeMarked_view [OF assms] unfolding removeSellReceipts_def by blast
  have none: "amounts (\<lambda>item. sellItemEscrowId item = Some k) (inv_view (ev_api env) i2) = 0"
    "amounts (\<lambda>item. sellReceiptEscrowId item = Some k) (inv_view (ev_api env) i2) = 0"
    unfolding i2(2) i1(2) by (rule amounts_none, auto dest!: without_marked_set)+
  then have "markers_left env k message \<lparr>v_db = s, v_inv = i2\<rparr> = (Inr (), \<lparr>v_db = s, v_inv = i2\<rparr>)"
    by (simp add: markers_left_def visit_run taggedSellItems_view [OF assms] sellReceiptCount_def marked_count_view [OF assms])
  then show thesis using that i1 i2
    by (simp add: removeSold_def visit_run)
qed

text \<open>What a sale needs on the side of the inventory. Receipts are barriers, so barriers are not sold.\<close>

definition sale_inventory :: "'i env \<Rightarrow> ItemPrototype \<Rightarrow> Id \<Rightarrow> 'i \<Rightarrow> bool" where
  "sale_inventory env item k i \<longleftrightarrow> inventory_laws (ev_api env) \<and> host_laws (ev_host env) \<and> meta_laws (ev_api env) \<and>
     item_type item \<noteq> ''minecraft:barrier'' \<and> \<not> isl (decoded_nbt (ev_host env) item) \<and> k < 2 ^ 64 \<and>
     unmarked k (inv_view (ev_api env) i) \<and> stocked (ev_api env) i \<and>
     amounts (\<lambda>_. True) (inv_view (ev_api env) i) \<le> int32_max"

lemma sale_inventoryD:
  assumes "sale_inventory env item k i"
  shows "inventory_laws (ev_api env)" "host_laws (ev_host env)" "meta_laws (ev_api env)" "item_type item \<noteq> ''minecraft:barrier''"
    "k < 2 ^ 64" "unmarked k (inv_view (ev_api env) i)" "\<exists>nbt. decoded_nbt (ev_host env) item = Inr nbt"
    "list_all (\<lambda>x. case x of None \<Rightarrow> True | Some item \<Rightarrow> 0 < is_amount item) (inv_view (ev_api env) i)"
    "amounts (\<lambda>_. True) (inv_view (ev_api env) i) \<le> int32_max"
  using assms by (auto simp: sale_inventory_def stocked_def isl_def) (metis sum.exhaust_sel)

section \<open>The inventory of a sale\<close>

abbreviation "sold_or_kept h item \<equiv>
  list_all2 (\<lambda>x y. y = x \<or> (\<exists>stack. x = Some stack \<and> sellable h item stack \<and> y = None))"

abbreviation "marked_or_kept h item k \<equiv>
  list_all2 (\<lambda>x y. y = x \<or> (\<exists>stack. x = Some stack \<and> sellable h item stack \<and> y = Some (setMarker h stack SellItemTag k)))"

text \<open>What a place holds once a sale has failed: what it held, or the stack that was to be sold, with the NBT data
  of the market or, where restoring it was ignored, still marked.\<close>

definition offered_back :: "host \<Rightarrow> ItemPrototype \<Rightarrow> Id \<Rightarrow> ItemStack option \<Rightarrow> ItemStack option \<Rightarrow> bool" where
  "offered_back h item k x y \<longleftrightarrow> y = x \<or> (\<exists>stack. x = Some stack \<and> sellable h item stack \<and>
     (y = Some (setMarker h stack SellItemTag k) \<or> (\<exists>nbt. decoded_nbt h item = Inr nbt \<and> y = Some (stack\<lparr>is_nbt := nbt\<rparr>))))"

text \<open>The inventory \<open>i1\<close> after tagging, where \<open>p\<close> is marked.\<close>

definition offered :: "'i env \<Rightarrow> ItemPrototype \<Rightarrow> Id \<Rightarrow> 'i \<Rightarrow> 'i \<Rightarrow> TaggedSellItems \<Rightarrow> bool" where
  "offered env item k i i1 p \<longleftrightarrow> taggedSellItems (ev_api env) k i1 = p \<and> 0 \<le> ts_quantity p \<and> ts_quantity p \<le> int32_max \<and>
     (0 < ts_quantity p \<longrightarrow> 0 < ts_stacks p) \<and>
     amounts (sellable (ev_host env) item) (inv_view (ev_api env) i1) =
       amounts (sellable (ev_host env) item) (inv_view (ev_api env) i) - ts_quantity p \<and>
     stacks (\<lambda>item. sellReceiptEscrowId item = Some k) (inv_view (ev_api env) i1) = 0 \<and>
     marked_or_kept (ev_host env) item k (inv_view (ev_api env) i) (inv_view (ev_api env) i1)"

lemma offeredD:
  assumes "offered env item k i i1 p"
  shows "taggedSellItems (ev_api env) k i1 = p" "0 \<le> ts_quantity p" "ts_quantity p \<le> int32_max"
    "0 < ts_quantity p \<Longrightarrow> 0 < ts_stacks p"
    "amounts (sellable (ev_host env) item) (inv_view (ev_api env) i1) =
       amounts (sellable (ev_host env) item) (inv_view (ev_api env) i) - ts_quantity p"
    "stacks (\<lambda>item. sellReceiptEscrowId item = Some k) (inv_view (ev_api env) i1) = 0"
    "marked_or_kept (ev_host env) item k (inv_view (ev_api env) i) (inv_view (ev_api env) i1)"
  using assms unfolding offered_def by blast+

lemma tagged_offered:
  assumes inv: "sale_inventory env item k i" and req: "0 < q"
    and run: "tagSellItems (ev_host env) (ev_table env) (ev_api env) item q k language name i = (out, i1)"
  shows "if amounts (sellable (ev_host env) item) (inv_view (ev_api env) i) < q then isl out \<and> i1 = i
    else \<exists>tg p. out = Inr tg \<and> q \<le> ts_quantity tg \<and> offered env item k i i1 p \<and> (prompt (ev_api env) \<longrightarrow> p = tg)"
proof (cases "amounts (sellable (ev_host env) item) (inv_view (ev_api env) i) < q")
  case False
  let ?api = "ev_api env"
  note I = sale_inventoryD [OF inv]
  obtain nbt where dec: "decoded_nbt (ev_host env) item = Inr nbt" using I(7) by blast
  from tagSellItems_outcome [OF I(1) dec req run] False obtain tg cs p where tg: "out = Inr tg" "q \<le> ts_quantity tg"
    and as: "tagged_as (ev_host env) item k (inv_view ?api i) cs p (inv_view ?api i1)" and pr: "prompt ?api \<longrightarrow> p = tg"
    by auto
  have "inv_view ?api i \<noteq> []" by (simp add: inv_view_def)
  note F = tagged_as_facts [OF I(2,5) dec as I(6) this]
  have pos: "list_all (\<lambda>x. case x of None \<Rightarrow> True | Some item \<Rightarrow> 0 < is_amount item) (inv_view ?api i1)"
    unfolding list_all_iff
  proof
    fix y assume "y \<in> set (inv_view ?api i1)"
    then obtain m where m: "m < length (inv_view ?api i)" "y = inv_view ?api i1 ! m"
      using F(1) by (auto simp: in_set_conv_nth)
    from list_all2_nthD [OF F(7) m(1)] m(2) I(8) m(1) show "case y of None \<Rightarrow> True | Some item \<Rightarrow> 0 < is_amount item"
      by (auto simp: list_all_length split: option.splits)
  qed
  from amounts_mono [OF pos, of "\<lambda>item. sellItemEscrowId item = Some k" "\<lambda>_. True"]
  have t: "0 \<le> ts_quantity p" "ts_quantity p \<le> int32_max" using F(2,5) I(9) by simp_all
  have n: "0 < ts_quantity p \<Longrightarrow> 0 < ts_stacks p"
    using as by (cases cs) (auto simp: tagged_as_def)
  have "taggedSellItems ?api k i1 = p" using F(2,3) by (simp add: taggedSellItems_view [OF I(1)])
  then have "offered env item k i i1 p" unfolding offered_def using t n F(4,7,8) by blast
  with False tg pr show ?thesis by auto
next
  case True
  from sale_inventoryD(7) [OF inv] obtain nbt where dec: "decoded_nbt (ev_host env) item = Inr nbt" by blast
  from tagSellItems_outcome [OF sale_inventoryD(1) [OF inv] dec req run] True show ?thesis by simp
qed

text \<open>If receipts can be made, they replace the marked stacks, and both are removed in the end.\<close>

lemma offered_done:
  assumes inv: "sale_inventory env item k i" and off: "offered env item k i i1 p" and made: "receipt_made env k"
  obtains i2 where
    "replaceTaggedSellItemsWithReceipts (ev_host env) (ev_table env) (ev_api env) k (ev_language env) i1 = (Inr (), i2)"
    "sellReceiptCount (ev_api env) k i2 = ts_stacks p"
    "\<forall>s message. \<exists>i3. removeSold env k message \<lparr>v_db = s, v_inv = i2\<rparr> = (Inr (), \<lparr>v_db = s, v_inv = i3\<rparr>) \<and>
      amounts (sellable (ev_host env) item) (inv_view (ev_api env) i3) =
        amounts (sellable (ev_host env) item) (inv_view (ev_api env) i) - ts_quantity p \<and>
      sold_or_kept (ev_host env) item (inv_view (ev_api env) i) (inv_view (ev_api env) i3)"
proof -
  let ?api = "ev_api env" and ?h = "ev_host env"
  note I = sale_inventoryD [OF inv] and O = offeredD [OF off]
  obtain nbt where dec: "decoded_nbt ?h item = Inr nbt" using I(7) by blast
  obtain receipt where r: "sellReceipt ?h (ev_table env) ?api k (ev_language env) = Inr receipt"
    using made by (auto simp: isl_def) (metis sum.exhaust_sel)
  note R = sellReceipt_facts [OF I(3,2,5) r]
  have mk: "sellItemEscrowId (setMarker ?h stack SellItemTag k) = Some k" for stack
    by (simp add: sellItemEscrowId_def markerId_setMarker [OF I(2,5)])
  have old: "sellItemEscrowId stack \<noteq> Some k" if "Some stack \<in> set (inv_view ?api i)" for stack
    using I(6) that by (auto simp: unmarked_def)
  have kind: "is_type stack \<noteq> is_type receipt"
    if stack: "Some stack \<in> set (inv_view ?api i1)" "sellItemEscrowId stack = Some k" for stack
  proof -
    obtain m where m: "m < length (inv_view ?api i1)" "inv_view ?api i1 ! m = Some stack"
      using stack(1) by (auto simp: in_set_conv_nth)
    have len: "length (inv_view ?api i) = length (inv_view ?api i1)" by (rule list_all2_lengthD [OF O(7)])
    from list_all2_nthD2 [OF O(7) m(1)] m old [of stack] stack(2) len nth_mem [of m "inv_view ?api i"]
    obtain a where "sellable ?h item a" "stack = setMarker ?h a SellItemTag k" by auto
    then show ?thesis using I(4) R(1) by (auto simp: sellable_def item_matches_eq [OF dec])
  qed
  obtain i2 where i2: "replaceTaggedSellItemsWithReceipts ?h (ev_table env) ?api k (ev_language env) i1 = (Inr (), i2)"
    "inv_view ?api i2 = map_items (\<lambda>item. if sellItemEscrowId item = Some k then Some receipt else Some item) (inv_view ?api i1)"
    using replace_view [OF I(1) r kind] by blast
  have p: "ts_stacks p = stacks (\<lambda>item. sellItemEscrowId item = Some k) (inv_view ?api i1)"
    using O(1) by (auto simp: taggedSellItems_view [OF I(1)])
  have count: "sellReceiptCount ?api k i2 = ts_stacks p"
    using amounts_receipts [OF R(2,3) O(6)] by (simp add: sellReceiptCount_def marked_count_view [OF I(1)] i2(2) p)
  have "\<exists>i3. removeSold env k message \<lparr>v_db = s, v_inv = i2\<rparr> = (Inr (), \<lparr>v_db = s, v_inv = i3\<rparr>) \<and>
      amounts (sellable ?h item) (inv_view ?api i3) = amounts (sellable ?h item) (inv_view ?api i) - ts_quantity p \<and>
      sold_or_kept ?h item (inv_view ?api i) (inv_view ?api i3)" for s message
  proof -
    obtain i3 where i3: "removeSold env k message \<lparr>v_db = s, v_inv = i2\<rparr> = (Inr (), \<lparr>v_db = s, v_inv = i3\<rparr>)"
      "inv_view ?api i3 = without_marked sellReceiptEscrowId k (without_marked sellItemEscrowId k (inv_view ?api i2))"
      by (rule removeSold_run [OF I(1)])
    have v3: "inv_view ?api i3 = without_marked sellItemEscrowId k (inv_view ?api i1)"
      unfolding i3(2) i2(2) by (rule removed_view [OF R(3,4) O(6)])
    have "amounts (\<lambda>stack. sellable ?h item stack \<and> sellItemEscrowId stack = Some k) (inv_view ?api i1) = 0"
      by (rule amounts_none) (auto simp: sellable_def isInternalEscrowItem_def)
    then have am: "amounts (sellable ?h item) (inv_view ?api i3) = amounts (sellable ?h item) (inv_view ?api i) - ts_quantity p"
      using O(5) by (simp add: v3 amounts_without)
    have "y = without_marked sellItemEscrowId k [y1] ! 0 \<Longrightarrow>
        y1 = x \<or> (\<exists>stack. x = Some stack \<and> sellable ?h item stack \<and> y1 = Some (setMarker ?h stack SellItemTag k)) \<Longrightarrow>
        x \<in> set (inv_view ?api i) \<Longrightarrow> y = x \<or> (\<exists>stack. x = Some stack \<and> sellable ?h item stack \<and> y = None)" for x y1 y
      using old by (auto simp: without_marked_def map_items_def mk split: option.splits)
    then have "sold_or_kept ?h item (inv_view ?api i) (map (\<lambda>y1. without_marked sellItemEscrowId k [y1] ! 0) (inv_view ?api i1))"
      unfolding list_all2_map2 by (rule list.rel_mono_strong [OF O(7)]) blast+
    moreover have "map (\<lambda>y1. without_marked sellItemEscrowId k [y1] ! 0) v = without_marked sellItemEscrowId k v" for v
      by (simp add: without_marked_def map_items_def)
    ultimately have "sold_or_kept ?h item (inv_view ?api i) (inv_view ?api i3)" by (simp add: v3)
    with am i3(1) show ?thesis by blast
  qed
  with i2(1) count that show thesis by blast
qed

lemma offered_refused:
  assumes "sale_inventory env item k i" and off: "offered env item k i i1 p" and "\<not> receipt_made env k" and "0 < ts_quantity p"
  obtains e where "replaceTaggedSellItemsWithReceipts (ev_host env) (ev_table env) (ev_api env) k (ev_language env) i1 = (Inl e, i1)"
proof -
  note I = sale_inventoryD [OF assms(1)] and O = offeredD [OF off]
  obtain e where e: "sellReceipt (ev_host env) (ev_table env) (ev_api env) k (ev_language env) = Inl e"
    using assms(3) by (auto simp: isl_def)
  have "0 < stacks (\<lambda>item. sellItemEscrowId item = Some k) (inv_view (ev_api env) i1)"
    using O(1) O(4) [OF assms(4)] by (auto simp: taggedSellItems_view [OF I(1)])
  from that replace_refused [OF I(1) e this] show thesis by blast
qed

text \<open>Restoring brings every place back, but for writes that are ignored.\<close>

lemma offered_restored:
  assumes "sale_inventory env item k i" and off: "offered env item k i i1 p"
  obtains i' where "whenS (ts_quantity p > 0) (on_inv (restoreTaggedSellItems (ev_host env) (ev_api env) k item))
      \<lparr>v_db = s, v_inv = i1\<rparr> = (Inr (), \<lparr>v_db = s, v_inv = i'\<rparr>)"
    "list_all2 (offered_back (ev_host env) item k) (inv_view (ev_api env) i) (inv_view (ev_api env) i')"
proof -
  let ?api = "ev_api env" and ?h = "ev_host env"
  note I = sale_inventoryD [OF assms(1)] and O = offeredD [OF off]
  obtain nbt where dec: "decoded_nbt ?h item = Inr nbt" using I(7) by blast
  then have orig: "originalNbt ?h item = Inr nbt" by (simp add: originalNbt_def)
  have marked: "list_all2 (offered_back ?h item k) (inv_view ?api i) (inv_view ?api i1)"
    by (rule list.rel_mono_strong [OF O(7)]) (auto simp: offered_back_def)
  show thesis
  proof (cases "ts_quantity p > 0")
    case False
    with marked that [of i1] show thesis by (simp add: whenS_def returnS_def)
  next
    case True
    obtain i' where i': "restoreTaggedSellItems ?h ?api k item i1 = (Inr (), i')" "list_all2 (becomes (\<lambda>stack y.
        if sellItemEscrowId stack = Some k then y = Some (stack\<lparr>is_nbt := nbt\<rparr>) \<or> y = Some stack else y = Some stack))
        (inv_view ?api i1) (inv_view ?api i')"
      using restore_view [OF I(1) orig] by blast
    have "list_all2 (offered_back ?h item k) (inv_view ?api i) (inv_view ?api i')"
    proof (rule list_all2_all_nthI)
      show len: "length (inv_view ?api i) = length (inv_view ?api i')"
        using list_all2_lengthD [OF O(7)] list_all2_lengthD [OF i'(2)] by simp
      fix m assume m: "m < length (inv_view ?api i)"
      then have m1: "m < length (inv_view ?api i1)" using list_all2_lengthD [OF O(7)] by simp
      have old: "sellItemEscrowId stack \<noteq> Some k" if "inv_view ?api i ! m = Some stack" for stack
        using I(6) nth_mem [OF m] that by (auto simp: unmarked_def)
      from list_all2_nthD [OF O(7) m] list_all2_nthD [OF i'(2) m1] old
      show "offered_back ?h item k (inv_view ?api i ! m) (inv_view ?api i' ! m)"
        by (cases "inv_view ?api i ! m") (auto simp: offered_back_def dec setMarker_def split: if_splits)
    qed
    with True i'(1) that [of i'] show thesis by (simp add: whenS_def visit_steps)
  qed
qed

section \<open>The ends of a sale\<close>

text \<open>Sold: at least \<open>q\<close> items have moved from the inventory to the exchange, and nothing is left to do.\<close>

definition sold :: "'i env \<Rightarrow> ItemPrototype \<Rightarrow> Id \<Rightarrow> Id \<Rightarrow> int \<Rightarrow> 'i visit \<Rightarrow> 'i visit \<Rightarrow> bool" where
  "sold env item k b q w w' \<longleftrightarrow> sale_ok (v_db w') \<and> money_supply (v_db w') = money_supply (v_db w) \<and>
     (\<forall>u l. unfinishedSellEscrows u (v_db w') = (Inr l, v_db w') \<longrightarrow> k \<notin> se_id ` set l) \<and>
     (\<exists>t\<ge>q. items_held (v_db w') b = items_held (v_db w) b + t \<and>
       amounts (sellable (ev_host env) item) (inv_view (ev_api env) (v_inv w')) =
         amounts (sellable (ev_host env) item) (inv_view (ev_api env) (v_inv w)) - t) \<and>
     sold_or_kept (ev_host env) item (inv_view (ev_api env) (v_inv w)) (inv_view (ev_api env) (v_inv w'))"

text \<open>Not sold: the exchange holds what it held, and the items are back or still marked; the escrow is finished
  unless there are no receipts.\<close>

definition kept_back :: "'i env \<Rightarrow> ItemPrototype \<Rightarrow> Id \<Rightarrow> Id \<Rightarrow> 'i visit \<Rightarrow> 'i visit \<Rightarrow> bool" where
  "kept_back env item k b w w' \<longleftrightarrow> sale_ok (v_db w') \<and> money_supply (v_db w') = money_supply (v_db w) \<and>
     items_held (v_db w') b = items_held (v_db w) b \<and>
     list_all2 (offered_back (ev_host env) item k) (inv_view (ev_api env) (v_inv w)) (inv_view (ev_api env) (v_inv w')) \<and>
     (\<forall>u l. unfinishedSellEscrows u (v_db w') = (Inr l, v_db w') \<longrightarrow> k \<in> se_id ` set l \<longrightarrow> \<not> receipt_made env k)"

lemma marked_sale_done:
  assumes inv: "sale_inventory env item k i" and off: "offered env item k i i1 p" and made: "receipt_made env k"
    and ok: "sale_ok s" and e: "escrow_of s k = Some (new_escrow k r)" and q: "request_ok r"
    and lk: "lockActiveBook (rq_market r) s = (Inr b, s)" and cap: "money_supply s \<le> int64_max"
    and enough: "rq_quantity r \<le> ts_quantity p"
  obtains s2 i2 res s3 s4 where "markSellEscrowTagged k (ts_quantity p) (ts_stacks p) s = (Inr (), s2)"
    "replaceTaggedSellItemsWithReceipts (ev_host env) (ev_table env) (ev_api env) k (ev_language env) i1 = (Inr (), i2)"
    "sellReceiptCount (ev_api env) k i2 = ts_stacks p" "executeSellEscrow k s2 = (Inr res, s3)"
    "markSellEscrowCleaned k s3 = (Inr (), s4)" "executeSellEscrow k s4 = (Inr res, s4)"
    "\<forall>message. \<exists>i3. removeSold env k message \<lparr>v_db = s3, v_inv = i2\<rparr> = (Inr (), \<lparr>v_db = s3, v_inv = i3\<rparr>) \<and>
      sold env item k b (rq_quantity r) \<lparr>v_db = s, v_inv = i\<rparr> \<lparr>v_db = s4, v_inv = i3\<rparr>"
proof -
  note O = offeredD [OF off]
  have n: "0 < ts_stacks p" using O(4) enough q by (simp add: request_ok_def)
  obtain s2 res s3 s4 where D: "markSellEscrowTagged k (ts_quantity p) (ts_stacks p) s = (Inr (), s2)"
    "executeSellEscrow k s2 = (Inr res, s3)" "markSellEscrowCleaned k s3 = (Inr (), s4)"
    "sale_ok s4" "items_held s4 b = items_held s b + ts_quantity p" "money_supply s4 = money_supply s"
    "\<forall>u l. unfinishedSellEscrows u s4 = (Inr l, s4) \<longrightarrow> k \<notin> se_id ` set l"
    by (rule sale_steps [OF ok e q lk cap enough O(3) n])
  note T = sale_tagged [OF ok e q enough O(3) n]
  have s2: "s2 = with_escrow k (set_tagged (ts_quantity p) (ts_stacks p)) s" using D(1) T(1) by simp
  have again: "executeSellEscrow k s4 = (Inr res, s4)"
    by (rule sale_replays [OF T(2,3) _ D(2) [unfolded s2] D(3)]) (simp add: set_tagged_def)
  obtain i2 where R: "replaceTaggedSellItemsWithReceipts (ev_host env) (ev_table env) (ev_api env) k (ev_language env) i1 = (Inr (), i2)"
    "sellReceiptCount (ev_api env) k i2 = ts_stacks p"
    "\<forall>s message. \<exists>i3. removeSold env k message \<lparr>v_db = s, v_inv = i2\<rparr> = (Inr (), \<lparr>v_db = s, v_inv = i3\<rparr>) \<and>
      amounts (sellable (ev_host env) item) (inv_view (ev_api env) i3) =
        amounts (sellable (ev_host env) item) (inv_view (ev_api env) i) - ts_quantity p \<and>
      sold_or_kept (ev_host env) item (inv_view (ev_api env) i) (inv_view (ev_api env) i3)"
    by (rule offered_done [OF inv off made])
  have "\<exists>i3. removeSold env k message \<lparr>v_db = s3, v_inv = i2\<rparr> = (Inr (), \<lparr>v_db = s3, v_inv = i3\<rparr>) \<and>
      sold env item k b (rq_quantity r) \<lparr>v_db = s, v_inv = i\<rparr> \<lparr>v_db = s4, v_inv = i3\<rparr>" for message
    using R(3) [rule_format, of message s3] D(4-7) enough unfolding sold_def visit.simps by blast
  with D(1-3) again R(1,2) that show thesis by blast
qed

lemma sale_stuck:
  assumes inv: "sale_inventory env item k i" and off: "offered env item k i i1 p" and made: "\<not> receipt_made env k"
    and ok: "sale_ok s" and e: "escrow_of s k = Some (new_escrow k r)" and q: "request_ok r"
    and enough: "rq_quantity r \<le> ts_quantity p"
  defines "s2 \<equiv> with_escrow k (set_tagged (ts_quantity p) (ts_stacks p)) s"
  obtains err where "markSellEscrowTagged k (ts_quantity p) (ts_stacks p) s = (Inr (), s2)"
    "replaceTaggedSellItemsWithReceipts (ev_host env) (ev_table env) (ev_api env) k (ev_language env) i1 = (Inl err, i1)"
    "kept_back env item k b \<lparr>v_db = s, v_inv = i\<rparr> \<lparr>v_db = s2, v_inv = i1\<rparr>"
proof -
  note O = offeredD [OF off]
  have pos: "0 < ts_quantity p" using enough q by (simp add: request_ok_def)
  note T = sale_tagged [OF ok e q enough O(3) O(4) [OF pos], folded s2_def]
  have "list_all2 (offered_back (ev_host env) item k) (inv_view (ev_api env) i) (inv_view (ev_api env) i1)"
    by (rule list.rel_mono_strong [OF O(7)]) (auto simp: offered_back_def)
  with T(2,4,5) made have "kept_back env item k b \<lparr>v_db = s, v_inv = i\<rparr> \<lparr>v_db = s2, v_inv = i1\<rparr>"
    by (simp add: kept_back_def)
  with T(1) that show thesis by (auto intro: offered_refused [OF inv off made pos])
qed

text \<open>Where too little is marked, the handler restores it and cancels the escrow.\<close>

lemma canceled_sale:
  assumes ok: "sale_ok s" and x: "se_status x = EscrowPrepared"
    and e: "escrow_of s (se_id x) = Some e" "e_status e = EscrowPrepared"
    and l: "unfinishedSellEscrows (ev_uuid env) s = (Inr [x], s)"
    and few: "ts_quantity (taggedSellItems (ev_api env) (se_id x) i1) < se_requested x"
    and restored: "whenS (ts_quantity (taggedSellItems (ev_api env) (se_id x) i1) > 0)
        (on_inv (restoreTaggedSellItems (ev_host env) (ev_api env) (se_id x) (se_item x))) \<lparr>v_db = s, v_inv = i1\<rparr> =
      (Inr (), \<lparr>v_db = s, v_inv = i'\<rparr>)"
  defines "s' \<equiv> with_escrow (se_id x) set_canceled s"
  shows "bindS (reconcileSellEscrows env) (\<lambda>_. on_shop (executeSellEscrow (se_id x))) \<lparr>v_db = s, v_inv = i1\<rparr> =
      (Inl (Runtime_Error ''sell escrow is not ready to become an order''), \<lparr>v_db = s', v_inv = i'\<rparr>)"
    and "sale_ok s'" and "items_held s' b = items_held s b" and "money_supply s' = money_supply s"
    and "\<forall>u ys. unfinishedSellEscrows u s' = (Inr ys, s') \<longrightarrow> se_id x \<notin> se_id ` set ys"
proof -
  let ?k = "se_id x"
  have c: "cancelSellEscrow ?k s = (Inr (), s')"
    using cancelSellEscrow_eq [OF e(1)] e(2) by (simp add: s'_def)
  have e': "escrow_of s' ?k = Some (set_canceled e)"
    unfolding s'_def by (rule escrow_of_with [OF _ e(1)]) (simp add: set_canceled_def)
  have st: "e_status (set_canceled e) = EscrowCanceled" by (simp add: set_canceled_def)
  show "bindS (reconcileSellEscrows env) (\<lambda>_. on_shop (executeSellEscrow ?k)) \<lparr>v_db = s, v_inv = i1\<rparr> =
      (Inl (Runtime_Error ''sell escrow is not ready to become an order''), \<lparr>v_db = s', v_inv = i'\<rparr>)"
    by (simp add: reconcileSellEscrows_def bindS_eq visit_steps returnS_def l reconcileSellEscrow_def reconcile_prepared_def
        x few restored c executeSellEscrow_canceled [OF e' st])
  show ok': "sale_ok s'"
    unfolding s'_def by (rule with_escrow_sale(1) [OF canceled_ok [OF sale_okD(4) [OF ok] e] ok])
  show "items_held s' b = items_held s b" "money_supply s' = money_supply s"
    by (simp_all add: s'_def with_escrow_sale)
  show "\<forall>u ys. unfinishedSellEscrows u s' = (Inr ys, s') \<longrightarrow> ?k \<notin> se_id ` set ys"
    using listed_iff [OF sale_okD(4) [OF ok'] e'] st by (auto simp: unfinished_escrow_def)
qed

section \<open>The runs of a sale\<close>

abbreviation "retry env k \<equiv> bindS (reconcileSellEscrows env) (\<lambda>_. on_shop (executeSellEscrow k))"

lemmas run_eqs = bindS_eq visit_steps throwIf_def returnS_def

text \<open>Everything that was offered is marked: the \<open>try\<close> block succeeds, unless there are no receipts.\<close>

lemma sell_all_marked:
  assumes inv: "sale_inventory env item k i" and off: "offered env item k i i1 p"
    and ok: "sale_ok s" and e: "escrow_of s k = Some (new_escrow k r)" and q: "request_ok r"
    and lk: "lockActiveBook (rq_market r) s = (Inr b, s)" and cap: "money_supply s \<le> int64_max"
    and x: "se_id x = k" "se_item x = item" "se_requested x = rq_quantity r"
    and run: "tagSellItems (ev_host env) (ev_table env) (ev_api env) item (rq_quantity r) k (ev_language env)
      (ev_item_name env item (ev_language env)) i = (Inr p, i1)" and enough: "rq_quantity r \<le> ts_quantity p"
  defines "s2 \<equiv> with_escrow k (set_tagged (ts_quantity p) (ts_stacks p)) s"
  shows "receipt_made env k \<Longrightarrow> \<exists>res s' i'. sell_prepared env x \<lparr>v_db = s, v_inv = i\<rparr> = (Inr res, \<lparr>v_db = s', v_inv = i'\<rparr>) \<and>
      sold env item k b (rq_quantity r) \<lparr>v_db = s, v_inv = i\<rparr> \<lparr>v_db = s', v_inv = i'\<rparr>"
    and "\<not> receipt_made env k \<Longrightarrow> \<exists>err. sell_prepared env x \<lparr>v_db = s, v_inv = i\<rparr> = (Inl err, \<lparr>v_db = s2, v_inv = i1\<rparr>)"
proof -
  note O = offeredD [OF off]
  {
    assume made: "receipt_made env k"
    obtain s2 i2 res s3 s4 where D: "markSellEscrowTagged k (ts_quantity p) (ts_stacks p) s = (Inr (), s2)"
      "replaceTaggedSellItemsWithReceipts (ev_host env) (ev_table env) (ev_api env) k (ev_language env) i1 = (Inr (), i2)"
      "sellReceiptCount (ev_api env) k i2 = ts_stacks p" "executeSellEscrow k s2 = (Inr res, s3)"
      "markSellEscrowCleaned k s3 = (Inr (), s4)" "executeSellEscrow k s4 = (Inr res, s4)"
      "\<forall>message. \<exists>i3. removeSold env k message \<lparr>v_db = s3, v_inv = i2\<rparr> = (Inr (), \<lparr>v_db = s3, v_inv = i3\<rparr>) \<and>
        sold env item k b (rq_quantity r) \<lparr>v_db = s, v_inv = i\<rparr> \<lparr>v_db = s4, v_inv = i3\<rparr>"
      by (rule marked_sale_done [OF inv off made ok e q lk cap enough])
    from D(7) obtain i3 where i3: "removeSold env k ''sell escrow markers were not fully cleared'' \<lparr>v_db = s3, v_inv = i2\<rparr> =
        (Inr (), \<lparr>v_db = s3, v_inv = i3\<rparr>)"
      "sold env item k b (rq_quantity r) \<lparr>v_db = s, v_inv = i\<rparr> \<lparr>v_db = s4, v_inv = i3\<rparr>" by blast
    have "sell_prepared env x \<lparr>v_db = s, v_inv = i\<rparr> = (Inr res, \<lparr>v_db = s4, v_inv = i3\<rparr>)"
      by (simp add: sell_prepared_def Let_def run_eqs x run O(1) D(1-5) i3(1))
    with i3(2) show "\<exists>res s' i'. sell_prepared env x \<lparr>v_db = s, v_inv = i\<rparr> = (Inr res, \<lparr>v_db = s', v_inv = i'\<rparr>) \<and>
        sold env item k b (rq_quantity r) \<lparr>v_db = s, v_inv = i\<rparr> \<lparr>v_db = s', v_inv = i'\<rparr>" by blast
  next
    assume made: "\<not> receipt_made env k"
    obtain err where D: "markSellEscrowTagged k (ts_quantity p) (ts_stacks p) s = (Inr (), s2)"
      "replaceTaggedSellItemsWithReceipts (ev_host env) (ev_table env) (ev_api env) k (ev_language env) i1 = (Inl err, i1)"
      unfolding s2_def by (rule sale_stuck [OF inv off made ok e q enough])
    then show "\<exists>err. sell_prepared env x \<lparr>v_db = s, v_inv = i\<rparr> = (Inl err, \<lparr>v_db = s2, v_inv = i1\<rparr>)"
      by (simp add: sell_prepared_def Let_def run_eqs x run O(1))
  }
qed

text \<open>The handler completes a sale of which enough is marked, unless there are no receipts.\<close>

lemma retry_marked:
  assumes inv: "sale_inventory env item k i" and off: "offered env item k i i1 p"
    and ok: "sale_ok s" and e: "escrow_of s k = Some (new_escrow k r)" and q: "request_ok r"
    and lk: "lockActiveBook (rq_market r) s = (Inr b, s)" and cap: "money_supply s \<le> int64_max"
    and x: "se_id x = k" "se_item x = item" "se_requested x = rq_quantity r" "se_status x = EscrowPrepared"
    and l: "unfinishedSellEscrows (ev_uuid env) s = (Inr [x], s)" and enough: "rq_quantity r \<le> ts_quantity p"
  defines "s2 \<equiv> with_escrow k (set_tagged (ts_quantity p) (ts_stacks p)) s"
  shows "receipt_made env k \<Longrightarrow> \<exists>res s' i'. retry env k \<lparr>v_db = s, v_inv = i1\<rparr> = (Inr res, \<lparr>v_db = s', v_inv = i'\<rparr>) \<and>
      sold env item k b (rq_quantity r) \<lparr>v_db = s, v_inv = i\<rparr> \<lparr>v_db = s', v_inv = i'\<rparr>"
    and "\<not> receipt_made env k \<Longrightarrow> \<exists>err. retry env k \<lparr>v_db = s, v_inv = i1\<rparr> = (Inl err, \<lparr>v_db = s2, v_inv = i1\<rparr>)"
    and "\<not> receipt_made env k \<Longrightarrow> \<exists>err. retry env k \<lparr>v_db = s2, v_inv = i1\<rparr> = (Inl err, \<lparr>v_db = s2, v_inv = i1\<rparr>)"
proof -
  note O = offeredD [OF off]
  have few: "\<not> ts_quantity p < rq_quantity r" using enough by simp
  {
    assume made: "receipt_made env k"
    obtain s2 i2 res s3 s4 where D: "markSellEscrowTagged k (ts_quantity p) (ts_stacks p) s = (Inr (), s2)"
      "replaceTaggedSellItemsWithReceipts (ev_host env) (ev_table env) (ev_api env) k (ev_language env) i1 = (Inr (), i2)"
      "sellReceiptCount (ev_api env) k i2 = ts_stacks p" "executeSellEscrow k s2 = (Inr res, s3)"
      "markSellEscrowCleaned k s3 = (Inr (), s4)" "executeSellEscrow k s4 = (Inr res, s4)"
      "\<forall>message. \<exists>i3. removeSold env k message \<lparr>v_db = s3, v_inv = i2\<rparr> = (Inr (), \<lparr>v_db = s3, v_inv = i3\<rparr>) \<and>
        sold env item k b (rq_quantity r) \<lparr>v_db = s, v_inv = i\<rparr> \<lparr>v_db = s4, v_inv = i3\<rparr>"
      by (rule marked_sale_done [OF inv off made ok e q lk cap enough])
    from D(7) obtain i3 where i3: "removeSold env k ''sell escrow markers were not fully removed'' \<lparr>v_db = s3, v_inv = i2\<rparr> =
        (Inr (), \<lparr>v_db = s3, v_inv = i3\<rparr>)"
      "sold env item k b (rq_quantity r) \<lparr>v_db = s, v_inv = i\<rparr> \<lparr>v_db = s4, v_inv = i3\<rparr>" by blast
    have "retry env k \<lparr>v_db = s, v_inv = i1\<rparr> = (Inr res, \<lparr>v_db = s4, v_inv = i3\<rparr>)"
      by (simp add: reconcileSellEscrows_def reconcileSellEscrow_def reconcile_prepared_def reconcile_tagged_def
          reconcile_ordered_def whenS_def run_eqs l x O(1) few D(1-6) i3(1))
    with i3(2) show "\<exists>res s' i'. retry env k \<lparr>v_db = s, v_inv = i1\<rparr> = (Inr res, \<lparr>v_db = s', v_inv = i'\<rparr>) \<and>
        sold env item k b (rq_quantity r) \<lparr>v_db = s, v_inv = i\<rparr> \<lparr>v_db = s', v_inv = i'\<rparr>" by blast
  next
    assume made: "\<not> receipt_made env k"
    obtain err where D: "markSellEscrowTagged k (ts_quantity p) (ts_stacks p) s = (Inr (), s2)"
      "replaceTaggedSellItemsWithReceipts (ev_host env) (ev_table env) (ev_api env) k (ev_language env) i1 = (Inl err, i1)"
      unfolding s2_def by (rule sale_stuck [OF inv off made ok e q enough])
    show "\<exists>err. retry env k \<lparr>v_db = s, v_inv = i1\<rparr> = (Inl err, \<lparr>v_db = s2, v_inv = i1\<rparr>)"
      by (simp add: reconcileSellEscrows_def reconcileSellEscrow_def reconcile_prepared_def reconcile_tagged_def
          run_eqs l x O(1) few D)
    have u: "unfinished_escrow (set_tagged (ts_quantity p) (ts_stacks p) (new_escrow k r))"
      by (simp add: unfinished_escrow_def set_tagged_def new_escrow_def)
    have g: "e_id (set_tagged t n e) = e_id e" "e_player (set_tagged t n e) = e_player e"
      "e_market (set_tagged t n e) = e_market e" for t n e by (simp_all add: set_tagged_def)
    from listed_one [OF sale_okD(4) [OF ok] l, unfolded x(1),
        where g = "set_tagged (ts_quantity p) (ts_stacks p)", OF e g u] obtain m :: market_row where m: "unfinishedSellEscrows (ev_uuid env) s2 =
        (Inr [escrow_view (set_tagged (ts_quantity p) (ts_stacks p) (new_escrow k r)) (mk_item m)], s2)"
      unfolding s2_def by blast
    show "\<exists>err. retry env k \<lparr>v_db = s2, v_inv = i1\<rparr> = (Inl err, \<lparr>v_db = s2, v_inv = i1\<rparr>)"
      by (simp add: reconcileSellEscrows_def reconcileSellEscrow_def reconcile_prepared_def reconcile_tagged_def
          run_eqs m escrow_view_def set_tagged_def new_escrow_def D(2))
  }
qed

text \<open>The whole: the \<open>try\<close> block with its handler.\<close>

definition sale_end :: "'i env \<Rightarrow> ItemPrototype \<Rightarrow> Id \<Rightarrow> Id \<Rightarrow> int \<Rightarrow> 'i visit \<Rightarrow> error + ExecutionResult \<Rightarrow> 'i visit \<Rightarrow> bool" where
  "sale_end env item k b q w res w' \<longleftrightarrow>
     (case res of Inr _ \<Rightarrow> sold env item k b q w w' | Inl _ \<Rightarrow> kept_back env item k b w w') \<and>
     (amounts (sellable (ev_host env) item) (inv_view (ev_api env) (v_inv w)) < q \<longrightarrow> isl res \<and> v_inv w' = v_inv w \<and>
       (\<forall>u l. unfinishedSellEscrows u (v_db w') = (Inr l, v_db w') \<longrightarrow> k \<notin> se_id ` set l)) \<and>
     (q \<le> amounts (sellable (ev_host env) item) (inv_view (ev_api env) (v_inv w)) \<and> prompt (ev_api env) \<and> receipt_made env k \<longrightarrow>
       \<not> isl res)"

lemma submit_end:
  assumes inv: "sale_inventory env item k i"
    and ok: "sale_ok s" and e: "escrow_of s k = Some (new_escrow k r)" and q: "request_ok r"
    and lk: "lockActiveBook (rq_market r) s = (Inr b, s)" and cap: "money_supply s \<le> int64_max"
    and x: "se_id x = k" "se_item x = item" "se_requested x = rq_quantity r" "se_status x = EscrowPrepared"
    and l: "unfinishedSellEscrows (ev_uuid env) s = (Inr [x], s)"
  shows "\<exists>res w'. catchS (sell_prepared env x) (\<lambda>e. catchS (retry env k) (\<lambda>_. throwS (err e))) \<lparr>v_db = s, v_inv = i\<rparr> = (res, w') \<and>
    sale_end env item k b (rq_quantity r) \<lparr>v_db = s, v_inv = i\<rparr> res w'"
proof -
  let ?w = "\<lparr>v_db = s, v_inv = i\<rparr>" and ?n = "amounts (sellable (ev_host env) item) (inv_view (ev_api env) i)"
  note I = sale_inventoryD [OF inv]
  have req: "0 < rq_quantity r" using q by (simp add: request_ok_def)
  obtain out i1 where run: "tagSellItems (ev_host env) (ev_table env) (ev_api env) item (rq_quantity r) k (ev_language env)
      (ev_item_name env item (ev_language env)) i = (out, i1)" by (rule prod.exhaust)
  note T = tagged_offered [OF inv req run]
  have es: "escrow_of s (se_id x) = Some (new_escrow k r)" "e_status (new_escrow k r) = EscrowPrepared"
    using e x(1) by (simp_all add: new_escrow_def)
  note canceled = canceled_sale [OF ok x(4) es l, of i1, unfolded x(1-3)]
  let ?s' = "with_escrow k set_canceled s"
  show ?thesis
  proof (cases "?n < rq_quantity r")
    case True
    with T obtain e1 where out: "out = Inl e1" "i1 = i" by (auto simp: isl_def)
    have none: "ts_quantity (taggedSellItems (ev_api env) k i1) = 0"
      using I(6) out(2) by (auto simp: taggedSellItems_view [OF I(1)] unmarked_def intro!: amounts_none)
    have "sell_prepared env x ?w = (Inl e1, ?w)"
      using run out by (simp add: sell_prepared_def Let_def run_eqs x)
    moreover note C = canceled [of i]
    have C: "retry env k \<lparr>v_db = s, v_inv = i\<rparr> = (Inl (Runtime_Error ''sell escrow is not ready to become an order''),
        \<lparr>v_db = ?s', v_inv = i\<rparr>)" "sale_ok ?s'" "items_held ?s' b = items_held s b" "money_supply ?s' = money_supply s"
      "\<forall>u ys. unfinishedSellEscrows u ?s' = (Inr ys, ?s') \<longrightarrow> k \<notin> se_id ` set ys"
      using canceled [of i] none req out(2) by (simp_all add: whenS_def returnS_def)
    ultimately have "catchS (sell_prepared env x) (\<lambda>e. catchS (retry env k) (\<lambda>_. throwS (err e))) ?w =
        (Inl (err e1), \<lparr>v_db = ?s', v_inv = i\<rparr>)" by (simp add: catchS_def throwS_def)
    moreover have "kept_back env item k b ?w \<lparr>v_db = ?s', v_inv = i\<rparr>"
      using C(2-5) by (auto simp: kept_back_def offered_back_def list.rel_refl)
    ultimately show ?thesis using True C(5) req
      by (intro exI [of _ "Inl (err e1)"] exI [of _ "\<lparr>v_db = ?s', v_inv = i\<rparr>"]) (simp add: sale_end_def)
  next
    case False
    with T obtain tg p where tg: "out = Inr tg" "rq_quantity r \<le> ts_quantity tg" and off: "offered env item k i i1 p"
      and pr: "prompt (ev_api env) \<longrightarrow> p = tg" by auto
    note O = offeredD [OF off]
    let ?s2 = "with_escrow k (set_tagged (ts_quantity p) (ts_stacks p)) s"
    have stuck: "kept_back env item k b ?w \<lparr>v_db = ?s2, v_inv = i1\<rparr>" if "\<not> receipt_made env k" "rq_quantity r \<le> ts_quantity p"
      by (rule sale_stuck [OF inv off that(1) ok e q that(2)])
    have ends: "sale_end env item k b (rq_quantity r) ?w (Inr res) w'" if "sold env item k b (rq_quantity r) ?w w'" for res w'
      using that False by (simp add: sale_end_def)
    have fails: "sale_end env item k b (rq_quantity r) ?w (Inl e) w'"
      if "kept_back env item k b ?w w'" "\<not> (prompt (ev_api env) \<and> receipt_made env k)" for e w'
      using that False by (simp add: sale_end_def)
    show ?thesis
    proof (cases "p = tg")
      case True
      note A = sell_all_marked [OF inv off ok e q lk cap x(1-3) run [unfolded tg(1) True [symmetric]] tg(2) [folded True]]
      show ?thesis
      proof (cases "receipt_made env k")
        case True
        from A(1) [OF True] obtain res s' i' where "sell_prepared env x ?w = (Inr res, \<lparr>v_db = s', v_inv = i'\<rparr>)"
          "sold env item k b (rq_quantity r) ?w \<lparr>v_db = s', v_inv = i'\<rparr>" by blast
        with ends show ?thesis by (auto simp: catchS_def)
      next
        case no: False
        from A(2) [OF no] obtain e1 where e1: "sell_prepared env x ?w = (Inl e1, \<lparr>v_db = ?s2, v_inv = i1\<rparr>)" by blast
        from retry_marked(3) [OF inv off ok e q lk cap x l tg(2) [folded True] no] obtain e2 where
          "retry env k \<lparr>v_db = ?s2, v_inv = i1\<rparr> = (Inl e2, \<lparr>v_db = ?s2, v_inv = i1\<rparr>)" by blast
        with e1 fails [OF stuck [OF no tg(2) [folded True]]] no show ?thesis by (simp add: catchS_def throwS_def)
      qed
    next
      case other: False
      have "sell_prepared env x ?w = (Inl (Runtime_Error ''sell items were not fully tagged for escrow''), \<lparr>v_db = s, v_inv = i1\<rparr>)"
        using other run [unfolded tg(1)] by (cases p; cases tg) (simp add: sell_prepared_def Let_def run_eqs x O(1) throwS_def)
      note first = this
      show ?thesis
      proof (cases "ts_quantity p < rq_quantity r")
        case True
        obtain i' where i': "whenS (ts_quantity p > 0) (on_inv (restoreTaggedSellItems (ev_host env) (ev_api env) k item))
            \<lparr>v_db = s, v_inv = i1\<rparr> = (Inr (), \<lparr>v_db = s, v_inv = i'\<rparr>)"
          "list_all2 (offered_back (ev_host env) item k) (inv_view (ev_api env) i) (inv_view (ev_api env) i')"
          by (rule offered_restored [OF inv off])
        note C = canceled [of i', unfolded O(1), OF True i'(1)]
        have "kept_back env item k b ?w \<lparr>v_db = ?s', v_inv = i'\<rparr>"
          using C(2-5) i'(2) by (auto simp: kept_back_def)
        from fails [OF this] pr other C(1) first show ?thesis by (simp add: catchS_def throwS_def)
      next
        case False
        then have many: "rq_quantity r \<le> ts_quantity p" by simp
        note B = retry_marked [OF inv off ok e q lk cap x l many]
        show ?thesis
        proof (cases "receipt_made env k")
          case True
          from B(1) [OF True] obtain res s' i' where "retry env k \<lparr>v_db = s, v_inv = i1\<rparr> = (Inr res, \<lparr>v_db = s', v_inv = i'\<rparr>)"
            "sold env item k b (rq_quantity r) ?w \<lparr>v_db = s', v_inv = i'\<rparr>" by blast
          with ends first show ?thesis by (auto simp: catchS_def)
        next
          case no: False
          from B(2) [OF no] obtain e2 where "retry env k \<lparr>v_db = s, v_inv = i1\<rparr> = (Inl e2, \<lparr>v_db = ?s2, v_inv = i1\<rparr>)" by blast
          with first fails [OF stuck [OF no many]] no show ?thesis by (simp add: catchS_def throwS_def)
        qed
      qed
    qed
  qed
qed

section \<open>Properties\<close>

text \<open>
  C32: A sale moves items from the inventory to the exchange, or fails without moving any, also where the
  inventory ignores writes that change nothing but NBT data and where receipts cannot be made. The request is a valid
  one to sell, of a player without an unfinished escrow, the market is open and its stored NBT data can be decoded, and
  the inventory holds at most 2147483647 items, in positive stacks, none with a marker of the new escrow. If
  \<open>submitSellEscrow\<close> returns, whole stacks of sellable items, at least the quantity ordered, have left the
  inventory, every other place of it is as before, exactly what is gone is held by the exchange for the
  book of the market, and the escrow is finished. If it throws, the exchange holds what it held, and every
  place holds what it held, or the stack offered for sale with the NBT data of the market, or that stack
  with the escrow's marker on it (where the inventory ignored the restoring, or the escrow is still open); what
  stays in the database is the row of the escrow, canceled, or still open if receipts cannot be made, and
  the account of a new player. It throws with too few sellable items, and then the inventory is untouched; it
  returns if there are enough, receipts can be made and the inventory ignores no write. The money is as before
  but for the opening balance of a new account. Barriers, the item of the receipts, are not considered.
\<close>

theorem sale_moves_items:
  assumes "config_ok (ev_cfg env)" and "sale_ok s" and "validateRequest (ev_cfg env) r = Inr ()" and "rq_side r = Sell"
    and "rq_uuid r = ev_uuid env" and "lockActiveBook (rq_market r) s = (Inr b, s)"
    and "map_option mk_item (market_of s (rq_market r)) = Some item"
    and "money_supply s + initial_balance_cents (ev_cfg env) \<le> int64_max"
    and "unfinishedSellEscrows (ev_uuid env) s = (Inr [], s)"
    and "sale_inventory env item (fresh_id e_id (escrows s)) i"
  shows "\<exists>n res s' i' l. sellableItemCount (ev_host env) (ev_api env) item i = Inr n \<and>
    submitSellEscrow env r \<lparr>v_db = s, v_inv = i\<rparr> = (res, \<lparr>v_db = s', v_inv = i'\<rparr>) \<and> sale_ok s' \<and>
    money_supply s' = money_supply s +
      (if account_of s (rq_uuid r) = None then initial_balance_cents (ev_cfg env) else 0) \<and>
    unfinishedSellEscrows (ev_uuid env) s' = (Inr l, s') \<and>
    (case res of
       Inr _ \<Rightarrow> fresh_id e_id (escrows s) \<notin> se_id ` set l \<and>
         (\<exists>t. rq_quantity r \<le> t \<and> items_held s' b = items_held s b + t \<and>
           sellableItemCount (ev_host env) (ev_api env) item i' = Inr (n - t)) \<and>
         sold_or_kept (ev_host env) item (inv_view (ev_api env) i) (inv_view (ev_api env) i')
     | Inl _ \<Rightarrow> items_held s' b = items_held s b \<and>
         list_all2 (offered_back (ev_host env) item (fresh_id e_id (escrows s)))
           (inv_view (ev_api env) i) (inv_view (ev_api env) i') \<and>
         (fresh_id e_id (escrows s) \<in> se_id ` set l \<longrightarrow> \<not> receipt_made env (fresh_id e_id (escrows s)))) \<and>
    (n < rq_quantity r \<longrightarrow> isl res \<and> i' = i \<and> fresh_id e_id (escrows s) \<notin> se_id ` set l) \<and>
    (rq_quantity r \<le> n \<and> prompt (ev_api env) \<and> receipt_made env (fresh_id e_id (escrows s)) \<longrightarrow> \<not> isl res)"
proof -
  let ?cfg = "ev_cfg env" and ?api = "ev_api env" and ?h = "ev_host env"
  let ?k = "fresh_id e_id (escrows s)" and ?n = "amounts (sellable ?h item) (inv_view ?api i)"
  note I = sale_inventoryD [OF assms(10)]
  obtain nbt where dec: "decoded_nbt ?h item = Inr nbt" using I(7) by blast
  note count = sellableItemCount_view [OF I(1) dec]
  have ini: "0 \<le> initial_balance_cents ?cfg" using assms(1) by (simp add: config_ok_def)
  from assms(6) have mk: "map_option mk_active (market_of s (rq_market r)) = Some True" "market_of s (rq_market r) \<noteq> None"
    by (auto simp: lockActiveBook_Inr)
  obtain s0 where "ensureAccount ?cfg (rq_uuid r) (rq_name r) s = (Inr (), s0)"
    using validateRequest_ok(2) [OF assms(1,3)] by (simp add: ensureAccount_Inr)
  then obtain x s1 where ps: "prepared_sale ?cfg r s x s1" unfolding prepared_sale_def by blast
  have prep: "prepareSellEscrow ?cfg r s = (Inr x, s1)"
    using prepareSellEscrow_Inr [OF assms(1) trading_okD(1) [OF sale_okD(1) [OF assms(2)]]] assms(3,4) mk(1) ps
    by blast
  note P = prepared_sale_facts(1-4,6) [OF assms(1,2,3) mk(2) ps] prepared_sale_facts(5,7) [OF assms(1,2,3) mk(2) ps, of b]
  note X = prepared_sale_view [OF assms(1,2) ps]
  have item: "se_item x = item" using X(2) assms(7) by auto
  have q: "request_ok r" by (rule validateRequest_ok(1) [OF assms(1,3)])
  have lk: "lockActiveBook (rq_market r) s1 = (Inr b, s1)" using P(7) assms(6) by blast
  have cap: "money_supply s1 \<le> int64_max" using P(4) assms(8) ini by (simp split: if_splits)
  have listed: "unfinishedSellEscrows (ev_uuid env) s1 = (Inr [x], s1)"
    using prepared_listed [OF assms(1,2) ps mk(2)] assms(5,9) by simp
  obtain res w' where run: "catchS (sell_prepared env x) (\<lambda>e. catchS (retry env ?k)
      (\<lambda>_. throwS (if player_facing e then User_Error (what e) else Runtime_Error (what e)))) \<lparr>v_db = s1, v_inv = i\<rparr> = (res, w')"
    and fin: "sale_end env item ?k b (rq_quantity r) \<lparr>v_db = s1, v_inv = i\<rparr> res w'"
    using submit_end [OF assms(10) P(1) P(2) [unfolded X(1)] q lk cap X(1) item X(3,4) listed,
        of "\<lambda>e. if player_facing e then User_Error (what e) else Runtime_Error (what e)"] by blast
  obtain s' i' where w': "w' = \<lparr>v_db = s', v_inv = i'\<rparr>" by (cases w')
  have sub: "submitSellEscrow env r \<lparr>v_db = s, v_inv = i\<rparr> = (res, \<lparr>v_db = s', v_inv = i'\<rparr>)"
    using run w' X(1) by (simp add: submitSellEscrow_def bindS_eq [of "on_shop (prepareSellEscrow (ev_cfg env) r)"] visit_steps prep)
  have ok': "sale_ok s'" "money_supply s' = money_supply s1"
    using fin w' by (auto simp: sale_end_def sold_def kept_back_def split: sum.splits)
  obtain l where l: "unfinishedSellEscrows (ev_uuid env) s' = (Inr l, s')"
    by (rule escrow_unfinished_mem [OF sale_okD(4) [OF ok'(1)]])
  have cases: "case res of
       Inr _ \<Rightarrow> ?k \<notin> se_id ` set l \<and> (\<exists>t. rq_quantity r \<le> t \<and> items_held s' b = items_held s b + t \<and>
           sellableItemCount ?h ?api item i' = Inr (?n - t)) \<and> sold_or_kept ?h item (inv_view ?api i) (inv_view ?api i')
     | Inl _ \<Rightarrow> items_held s' b = items_held s b \<and> list_all2 (offered_back ?h item ?k) (inv_view ?api i) (inv_view ?api i') \<and>
         (?k \<in> se_id ` set l \<longrightarrow> \<not> receipt_made env ?k)"
    using fin l P(6) by (auto simp: w' sale_end_def sold_def kept_back_def sellableItemCount_view [OF I(1) dec] split: sum.splits)
  have few: "?n < rq_quantity r \<longrightarrow> isl res \<and> i' = i \<and> ?k \<notin> se_id ` set l"
    using fin l by (auto simp: w' sale_end_def)
  have many: "rq_quantity r \<le> ?n \<and> prompt ?api \<and> receipt_made env ?k \<longrightarrow> \<not> isl res"
    using fin by (simp add: sale_end_def)
  show ?thesis
    by (intro exI [of _ ?n] exI [of _ res] exI [of _ s'] exI [of _ i'] exI [of _ l] conjI count sub ok'(1) l cases few many)
      (simp add: ok'(2) P(4))
qed

definition demo_env :: "string \<Rightarrow> slots env" where
  "demo_env u = \<lparr>ev_cfg = demo_cfg, ev_host = demo_host, ev_table = [], ev_api = slots_api, ev_uuid = u, ev_language = English,
     ev_item_name = (\<lambda>item language. [])\<rparr>"

lemma slots_meta: "meta_laws slots_api"
  by (simp add: meta_laws_def slots_api_def)

lemma demo_owed_sale: "sale_ok demo_owed"
proof -
  have "demo_owed = demo_sale\<lparr>escrows := []\<rparr>" by (simp add: demo_sale_def demo_owed_def demo_db_def empty_db_def)
  moreover have "sale_ok (demo_sale\<lparr>escrows := []\<rparr>)"
    using demo_sale_ok by (simp add: sale_ok_def escrows_ok_def escrow_unique_def)
  ultimately show ?thesis by simp
qed

lemma demo_sale_inventory: "sale_inventory (demo_env u) demo_item 1 demo_slots"
proof -
  have "list_all (\<lambda>x. case x of None \<Rightarrow> True | Some item \<Rightarrow> sellItemEscrowId item \<noteq> Some 1 \<and> sellReceiptEscrowId item \<noteq> Some 1)
    (inv_view slots_api demo_slots)" unfolding slots_view by code_simp
  then have "unmarked 1 (inv_view slots_api demo_slots)"
    by (auto simp: unmarked_def list_all_iff split: option.splits)
  moreover have "stocked slots_api demo_slots" "amounts (\<lambda>_. True) (inv_view slots_api demo_slots) \<le> int32_max"
    by (simp_all add: stocked_def slots_view demo_slots_def demo_stack_def amounts_def int32_max_def)
  ultimately show ?thesis
    by (simp add: sale_inventory_def demo_env_def slots_api_laws demo_host_laws slots_meta decoded_nbt_def demo_item_def)
qed

theorem sale_moves_items_witness:
  "\<exists>res s' i' t. submitSellEscrow (demo_env ''carol'') demo_sell \<lparr>v_db = demo_owed, v_inv = demo_slots\<rparr> =
      (Inr res, \<lparr>v_db = s', v_inv = i'\<rparr>) \<and> 6 \<le> t \<and> items_held s' 1 = items_held demo_owed 1 + t"
proof -
  let ?env = "demo_env ''carol''"
  have E: "ev_cfg ?env = demo_cfg" "ev_host ?env = demo_host" "ev_api ?env = slots_api" "ev_uuid ?env = ''carol''"
    by (simp_all add: demo_env_def)
  have F: "fresh_id e_id (escrows demo_owed) = 1" "rq_quantity demo_sell = 6" by code_simp+
  have "validateRequest demo_cfg demo_sell = Inr ()" "rq_side demo_sell = Sell" "rq_uuid demo_sell = ''carol''"
    by code_simp+
  note A = demo_cfg_ok demo_owed_sale this
  have lk: "lockActiveBook (rq_market demo_sell) demo_owed = (Inr 1, demo_owed)"
  proof -
    have "case market_of demo_owed (rq_market demo_sell) of None \<Rightarrow> False
      | Some m \<Rightarrow> mk_active m \<and> mk_book m = 1 \<and> book_of demo_owed 1 \<noteq> None" by code_simp
    then show ?thesis by (auto simp: lockActiveBook_Inr split: option.splits)
  qed
  have "map_option mk_item (market_of demo_owed (rq_market demo_sell)) = Some demo_item"
    "money_supply demo_owed + initial_balance_cents demo_cfg \<le> int64_max" by code_simp+
  moreover have "unfinishedSellEscrows ''carol'' demo_owed = (Inr [], demo_owed)"
    by (simp add: unfinishedSellEscrows_def queryS_def demo_owed_def demo_db_def empty_db_def List.map_filter_simps)
  ultimately have T: "\<exists>n res s' i' l. sellableItemCount demo_host slots_api demo_item demo_slots = Inr n \<and>
    submitSellEscrow ?env demo_sell \<lparr>v_db = demo_owed, v_inv = demo_slots\<rparr> = (res, \<lparr>v_db = s', v_inv = i'\<rparr>) \<and> sale_ok s' \<and>
    money_supply s' = money_supply demo_owed +
      (if account_of demo_owed (rq_uuid demo_sell) = None then initial_balance_cents demo_cfg else 0) \<and>
    unfinishedSellEscrows ''carol'' s' = (Inr l, s') \<and>
    (case res of
       Inr _ \<Rightarrow> 1 \<notin> se_id ` set l \<and>
         (\<exists>t. 6 \<le> t \<and> items_held s' 1 = items_held demo_owed 1 + t \<and>
           sellableItemCount demo_host slots_api demo_item i' = Inr (n - t)) \<and>
         sold_or_kept demo_host demo_item (inv_view slots_api demo_slots) (inv_view slots_api i')
     | Inl _ \<Rightarrow> items_held s' 1 = items_held demo_owed 1 \<and>
         list_all2 (offered_back demo_host demo_item 1) (inv_view slots_api demo_slots) (inv_view slots_api i') \<and>
         (1 \<in> se_id ` set l \<longrightarrow> \<not> receipt_made ?env 1)) \<and>
    (n < 6 \<longrightarrow> isl res \<and> i' = demo_slots \<and> 1 \<notin> se_id ` set l) \<and>
    (6 \<le> n \<and> prompt slots_api \<and> receipt_made ?env 1 \<longrightarrow> \<not> isl res)"
    using sale_moves_items [of ?env demo_owed demo_sell 1 demo_item demo_slots, unfolded E F, OF A(1-5) lk]
      demo_sale_inventory [of "''carol''"] by (simp only: E)
  have "sellableItemCount demo_host slots_api demo_item demo_slots = Inr 18" by code_simp
  moreover have "receipt_made ?env 1" by (simp add: demo_env_def sellReceipt_def slots_api_def)
  ultimately show ?thesis using T slots_api_prompt
  proof (elim exE conjE)
    fix n res s' i' and l :: "SellEscrow list"
    assume sub: "submitSellEscrow ?env demo_sell \<lparr>v_db = demo_owed, v_inv = demo_slots\<rparr> = (res, \<lparr>v_db = s', v_inv = i'\<rparr>)"
      and n: "sellableItemCount demo_host slots_api demo_item demo_slots = Inr 18"
        "sellableItemCount demo_host slots_api demo_item demo_slots = Inr n"
      and made: "receipt_made ?env 1" "prompt slots_api" "6 \<le> n \<and> prompt slots_api \<and> receipt_made ?env 1 \<longrightarrow> \<not> isl res"
      and res: "case res of
         Inr _ \<Rightarrow> 1 \<notin> se_id ` set l \<and>
           (\<exists>t. 6 \<le> t \<and> items_held s' 1 = items_held demo_owed 1 + t \<and>
             sellableItemCount demo_host slots_api demo_item i' = Inr (n - t)) \<and>
           sold_or_kept demo_host demo_item (inv_view slots_api demo_slots) (inv_view slots_api i')
       | Inl _ \<Rightarrow> items_held s' 1 = items_held demo_owed 1 \<and>
           list_all2 (offered_back demo_host demo_item 1) (inv_view slots_api demo_slots) (inv_view slots_api i') \<and>
           (1 \<in> se_id ` set l \<longrightarrow> \<not> receipt_made ?env 1)"
    from n have "n = 18" by simp
    with made have "\<not> isl res" by simp
    with res sub show ?thesis by (cases res) auto
  qed
qed

end
