(* ===== verification/Inventory_Claims.thy ===== *)
theory Inventory_Claims
  imports Inventory_Sales
begin

text \<open>
  Handing over what the exchange owes: what \<open>claimDeliveries\<close> books as claimed is exactly what arrives in
  the player's inventory, kind of item by kind of item, for any number of deliveries and however many of
  the items find a place.
\<close>

section \<open>The database side of one delivery\<close>

definition add_claimed :: "int \<Rightarrow> delivery_row \<Rightarrow> delivery_row" where
  "add_claimed n d = d\<lparr>d_claimed := d_claimed d + n\<rparr>"

interpretation add_claimed: keyed_update d_id "add_claimed n" for n
  by unfold_locales (simp add: add_claimed_def)

text \<open>The claim of one delivery, completed with \<open>n\<close> items and cleaned.\<close>

definition done_claim :: "Id \<Rightarrow> Id \<Rightarrow> string \<Rightarrow> int \<Rightarrow> int \<Rightarrow> claim_row" where
  "done_claim k i u q n = \<lparr>c_id = k, c_delivery = i, c_player = u, c_quantity = q, c_applied = n,
     c_status = (if n = 0 then ClaimCanceled else ClaimApplied), c_cleaned = True\<rparr>"

definition handed_over :: "Id \<Rightarrow> string \<Rightarrow> int \<Rightarrow> int \<Rightarrow> db \<Rightarrow> db" where
  "handed_over i u q n s = s\<lparr>claims := claims s @ [done_claim (fresh_id c_id (claims s)) i u q n],
     deliveries := upd_where (\<lambda>d. d_id d = i) (add_claimed n) (deliveries s)\<rparr>"

lemma upd_where_twice: "(\<And>x. P (g x) \<longleftrightarrow> P x) \<Longrightarrow> upd_where P f (upd_where P g xs) = upd_where P (\<lambda>x. f (g x)) xs"
  by (induction xs) auto

lemma settled_reserve: "settle_reserve n q (reserve_more q d) = add_claimed n d"
  by (simp add: settle_reserve_def reserve_more_def add_claimed_def)

lemma claim_cycle:
  assumes ok: "deliveries_ok s" and d: "delivery_of s i = Some d" "d_player d = u" and u: "u \<noteq> []"
    and q: "0 < unreserved d" and n: "0 \<le> n" "n \<le> unreserved d"
  obtains claim s1 s2 where
    "prepareDeliveryClaim i u (unreserved d) s = (Inr claim, s1)" "dc_id claim = fresh_id c_id (claims s)"
    "dc_quantity claim = unreserved d" "deliveries_ok s1"
    "completeDeliveryClaim (dc_id claim) n s1 = (Inr (), s2)"
    "if n = 0 then s2 = handed_over i u (unreserved d) n s
     else markDeliveryClaimCleaned (dc_id claim) s2 = (Inr (), handed_over i u (unreserved d) n s)"
    "deliveries_ok (handed_over i u (unreserved d) n s)"
proof -
  let ?q = "unreserved d" and ?k = "fresh_id c_id (claims s)"
  let ?c = "new_claim ?k i u ?q" and ?s1 = "prepared_state i u ?q s"
  let ?claim = "\<lparr>dc_id = ?k, dc_delivery = i, dc_item = mk_item (the (market_of s (d_market d))), dc_quantity = ?q,
      dc_applied = 0, dc_status = ClaimPrepared, dc_cleaned = False\<rparr>"
  have p: "prepareDeliveryClaim i u ?q s = (Inr ?claim, ?s1)"
    using prepareDeliveryClaim_eq [OF ok, of i u ?q] d u q by (simp add: claimable_def)
  have ok1: "deliveries_ok ?s1" by (rule prepared_state_ok(1) [OF ok d q]) simp
  have fresh: "c_id x \<noteq> ?k" if "x \<in> set (claims s)" for x using that by (rule fresh_id_neq)
  then have missing: "find (\<lambda>c. c_id c = ?k) (claims s) = None" by (auto simp: find_None_iff)
  have c1: "claims ?s1 = claims s @ [?c]" by (simp add: prepared_state_def)
  have c: "?c \<in> set (claims ?s1)" "c_status ?c = ClaimPrepared" "claim_of ?s1 ?k = Some ?c" "c_id ?c = ?k"
    "c_quantity ?c = ?q" "c_delivery ?c = i"
    using missing by (simp_all add: c1 new_claim_def claim_of_def find_append)
  have comp: "completeDeliveryClaim ?k n ?s1 = (Inr (), completed_state ?c n ?s1)"
    using completeDeliveryClaim_prepared [OF ok1 c(3,2), of n] n c(5) by simp
  have del: "delivery_of ?s1 (c_delivery ?c) = Some (reserve_more ?q d)"
    using d(1) by (simp add: c(6) delivery_of_def prepared_state_def reserve_more.find_upd)
  have le: "n \<le> c_quantity ?c" using n(2) by (simp only: c(5))
  note C = completed_state_ok(1,3) [OF ok1 c(1,2) n(1) le del]
  have old: "upd_where (\<lambda>x. c_id x = ?k) f (claims s) = claims s" for f
    by (rule upd_where_no_match) (rule fresh)
  have ds: "deliveries (completed_state ?c n ?s1) = upd_where (\<lambda>d. d_id d = i) (add_claimed n) (deliveries s)"
    by (simp add: completed_state_def prepared_state_def c(5,6) upd_where_twice settled_reserve)
  have cs: "claims (completed_state ?c n ?s1) = claims s @ [finish_claim n ?c]"
    by (simp add: completed_state_def c1 c(4) old)
  have rest: "completed_state ?c n ?s1 = s\<lparr>claims := claims (completed_state ?c n ?s1),
      deliveries := deliveries (completed_state ?c n ?s1)\<rparr>"
    by (simp add: completed_state_def prepared_state_def)
  note full = rest [unfolded cs ds]
  show thesis
  proof (cases "n = 0")
    case True
    then have "completed_state ?c n ?s1 = handed_over i u ?q n s"
      unfolding full by (simp add: handed_over_def done_claim_def finish_claim_def new_claim_def)
    with that [OF p _ _ ok1] comp C(1) True show thesis by simp
  next
    case False
    have a: "c_status (finish_claim n ?c) = ClaimApplied" using False by (simp add: finish_claim_def)
    have cl: "claim_of (completed_state ?c n ?s1) ?k = Some (finish_claim n ?c)" using C(2) c(4) by simp
    have m: "markDeliveryClaimCleaned ?k (completed_state ?c n ?s1) = (Inr (), handed_over i u ?q n s)"
      using markDeliveryClaimCleaned_eq [OF C(1), of ?k] cl a False unfolding full
      by (simp add: old handed_over_def done_claim_def finish_claim_def new_claim_def clean_claim_def)
    moreover have "deliveries_ok (handed_over i u ?q n s)"
      using cleaned_ok [OF C(1) cl a] markDeliveryClaimCleaned_eq [OF C(1), of ?k] cl a m by simp
    ultimately show thesis using that [OF p _ _ ok1] comp False by simp
  qed
qed

section \<open>Kinds of items\<close>

type_synonym kind = "string \<times> int \<times> compound"

definition kind_of :: "ItemStack \<Rightarrow> kind" where
  "kind_of item = (is_type item, is_data item, is_nbt item)"

definition holding :: "kind \<Rightarrow> ItemStack option list \<Rightarrow> int" where
  "holding K v = amounts (\<lambda>item. kind_of item = K) v"

definition no_internal :: "ItemStack option list \<Rightarrow> bool" where
  "no_internal v \<longleftrightarrow> list_all (\<lambda>x. case x of None \<Rightarrow> True | Some item \<Rightarrow> \<not> isInternalEscrowItem item) v"

definition plain_nbt :: "compound \<Rightarrow> bool" where
  "plain_nbt nbt \<longleftrightarrow> map_of nbt DeliveryClaimTag = None \<and> map_of nbt SellItemTag = None \<and> map_of nbt SellReceiptTag = None"

text \<open>
  What the host promises about \<open>addItem\<close>: of every kind there is afterwards, in the inventory and left
  over, what there was before, in the inventory and handed in; leftovers are of the kinds handed in,
  and no place is left with nothing in it.
\<close>

definition add_laws :: "'i inventory_api \<Rightarrow> bool" where
  "add_laws api \<longleftrightarrow> (\<forall>xs i l i'. list_all (\<lambda>x. 0 < is_amount x) xs \<longrightarrow> stocked api i \<longrightarrow> inv_add api xs i = (l, i') \<longrightarrow>
    stocked api i' \<and> list_all (\<lambda>y. 0 < is_amount (snd y) \<and> kind_of (snd y) \<in> kind_of ` set xs) l \<and>
    (\<forall>K. holding K (inv_view api i') + holding K (map (\<lambda>y. Some (snd y)) l) =
       holding K (inv_view api i) + holding K (map Some xs)))"

text \<open>Taking a new entry out of a compound again gives the compound.\<close>

definition insert_erase :: "host \<Rightarrow> bool" where
  "insert_erase h \<longleftrightarrow> (\<forall>k v c. map_of c k = None \<longrightarrow> erase_key k (h_assign h k v c) = c)"

lemma no_internalD: "no_internal v \<Longrightarrow> Some item \<in> set v \<Longrightarrow> \<not> isInternalEscrowItem item"
  by (fastforce simp: no_internal_def list_all_iff)

lemma internal_kind: "kind_of x = kind_of y \<Longrightarrow> isInternalEscrowItem x = isInternalEscrowItem y"
  by (simp add: kind_of_def isInternalEscrowItem_def deliveryClaimId_def sellItemEscrowId_def sellReceiptEscrowId_def)

lemma holding_pos:
  assumes "list_all (\<lambda>x. case x of None \<Rightarrow> True | Some item \<Rightarrow> 0 < is_amount item) v"
  shows "0 \<le> holding K v" "0 < holding K v \<longleftrightarrow> (\<exists>item. Some item \<in> set v \<and> kind_of item = K)"
proof -
  have "0 \<le> holding K v \<and> (0 < holding K v \<longleftrightarrow> (\<exists>item. Some item \<in> set v \<and> kind_of item = K))"
    using assms by (induction v) (auto simp: holding_def amounts_def split: option.splits)
  then show "0 \<le> holding K v" "0 < holding K v \<longleftrightarrow> (\<exists>item. Some item \<in> set v \<and> kind_of item = K)" by auto
qed

lemma holding_one_kind:
  "list_all (\<lambda>x. kind_of x = K') xs \<Longrightarrow> holding K (map Some xs) = (if K = K' then \<Sum>x\<leftarrow>xs. is_amount x else 0)"
  by (induction xs) (auto simp: holding_def amounts_def)

lemma holding_leftovers:
  "list_all (\<lambda>y. kind_of (snd y) = K') l \<Longrightarrow> holding K (map (\<lambda>y. Some (snd y)) l) = (if K = K' then itemCount l else 0)"
  by (induction l) (auto simp: holding_def amounts_def itemCount_def)

section \<open>The inventory side of one delivery\<close>

lemma split_loop_stacks:
  assumes "0 < size'"
  shows "(\<Sum>x\<leftarrow>split_loop sample size' q. is_amount x) = max 0 q"
    "list_all (\<lambda>x. 0 < is_amount x) (split_loop sample size' q)"
    "list_all (\<lambda>x. kind_of x = kind_of sample) (split_loop sample size' q)"
proof -
  have "(\<Sum>x\<leftarrow>split_loop sample size' q. is_amount x) = max 0 q \<and> list_all (\<lambda>x. 0 < is_amount x) (split_loop sample size' q) \<and>
      list_all (\<lambda>x. kind_of x = kind_of sample) (split_loop sample size' q)"
    using assms
  proof (induction sample size' q rule: split_loop.induct)
    case (1 sample size' q)
    show ?case
    proof (cases "q \<le> 0")
      case True
      then show ?thesis by (simp add: split_loop.simps [of sample size' q])
    next
      case False
      with 1 have "\<not> (q \<le> 0 \<or> size' \<le> 0)" by simp
      from 1(1) [OF this refl "1.prems"] this show ?thesis
        by (subst (1 2 3) split_loop.simps) (auto simp: Let_def kind_of_def)
    qed
  qed
  then show "(\<Sum>x\<leftarrow>split_loop sample size' q. is_amount x) = max 0 q"
    "list_all (\<lambda>x. 0 < is_amount x) (split_loop sample size' q)"
    "list_all (\<lambda>x. kind_of x = kind_of sample) (split_loop sample size' q)" by blast+
qed

text \<open>Clearing the marker turns the marked kind into the plain one.\<close>

lemma holding_cleared:
  assumes "\<And>item. Some item \<in> set v \<Longrightarrow> kind_of item = K1 \<or> deliveryClaimId item \<noteq> Some k"
    and "\<And>item. kind_of item = K1 \<Longrightarrow> deliveryClaimId item = Some k \<and>
      kind_of (item\<lparr>is_nbt := erase_key DeliveryClaimTag (is_nbt item)\<rparr>) = K0"
    and "K0 \<noteq> K1"
  shows "holding K (map_items (\<lambda>item. if deliveryClaimId item = Some k
      then Some (item\<lparr>is_nbt := erase_key DeliveryClaimTag (is_nbt item)\<rparr>) else Some item) v) =
    (if K = K0 then holding K0 v + holding K1 v else if K = K1 then 0 else holding K v)"
  using assms(1)
proof (induction v)
  case (Cons x v)
  have IH: "holding K (map_items (\<lambda>item. if deliveryClaimId item = Some k
      then Some (item\<lparr>is_nbt := erase_key DeliveryClaimTag (is_nbt item)\<rparr>) else Some item) v) =
    (if K = K0 then holding K0 v + holding K1 v else if K = K1 then 0 else holding K v)"
    by (rule Cons.IH) (use Cons.prems in fastforce)
  show ?case
  proof (cases x)
    case None
    with IH show ?thesis by (simp add: holding_def amounts_def map_items_def)
  next
    case (Some item)
    with Cons.prems [of item] IH assms(2) [of item] assms(3) show ?thesis
      by (auto simp: holding_def amounts_def map_items_def)
  qed
qed (simp add: holding_def amounts_def map_items_def)

definition item_kind :: "ItemPrototype \<Rightarrow> compound \<Rightarrow> kind" where
  "item_kind item nbt = (item_type item, item_data item, nbt)"

lemma plain_markers: "plain_nbt nbt \<Longrightarrow> markerId nbt DeliveryClaimTag = None \<and> markerId nbt SellItemTag = None \<and>
    markerId nbt SellReceiptTag = None"
  by (simp add: plain_nbt_def markerId_def)

lemma tags_distinct [simp]: "DeliveryClaimTag \<noteq> SellItemTag" "DeliveryClaimTag \<noteq> SellReceiptTag" "SellItemTag \<noteq> SellReceiptTag"
  "SellItemTag \<noteq> DeliveryClaimTag" "SellReceiptTag \<noteq> DeliveryClaimTag" "SellReceiptTag \<noteq> SellItemTag"
  by (simp_all add: DeliveryClaimTag_def SellItemTag_def SellReceiptTag_def)

lemma delivered_inventory:
  assumes laws: "inventory_laws api" "host_laws h" "insert_erase h" "add_laws api" and k: "k < 2 ^ 64"
    and dec: "decoded_nbt h item = Inr nbt" "plain_nbt nbt"
    and inv: "no_internal (inv_view api i)" "stocked api i" and q: "0 < q"
  obtains xs l i1 i2 where "splitStacks h api item q (Some k) = Inr xs" "(\<Sum>x\<leftarrow>xs. is_amount x) = q"
    "inv_add api xs i = (l, i1)" "0 \<le> itemCount l" "itemCount l \<le> q"
    "clearDeliveryClaimTag api k i1 = (Inr (), i2)" "taggedItemCount api k i2 = 0"
    "no_internal (inv_view api (if itemCount l = q then i1 else i2))"
    "stocked api (if itemCount l = q then i1 else i2)"
    "\<forall>K. holding K (inv_view api (if itemCount l = q then i1 else i2)) =
      holding K (inv_view api i) + (if K = item_kind item nbt then q - itemCount l else 0)"
proof -
  let ?sample = "\<lparr>is_type = item_type item, is_data = item_data item, is_amount = 1, is_nbt = nbt\<rparr>"
  let ?marked = "setMarker h ?sample DeliveryClaimTag k"
  let ?K0 = "item_kind item nbt" and ?K1 = "kind_of ?marked"
  define xs where "xs = split_loop ?marked (max 1 (item_stack_size api ?marked)) q"
  have split: "splitStacks h api item q (Some k) = Inr xs"
    using dec(1) by (simp add: splitStacks_def sampleItem_def originalNbt_def xs_def Let_def)
  have X: "(\<Sum>x\<leftarrow>xs. is_amount x) = q" "list_all (\<lambda>x. 0 < is_amount x) xs" "list_all (\<lambda>x. kind_of x = ?K1) xs"
    using split_loop_stacks [of "max 1 (item_stack_size api ?marked)" ?marked q] q unfolding xs_def by simp_all
  obtain l i1 where add: "inv_add api xs i = (l, i1)" by (rule prod.exhaust)
  have A: "stocked api i1" "list_all (\<lambda>y. 0 < is_amount (snd y) \<and> kind_of (snd y) \<in> kind_of ` set xs) l"
    "holding K (inv_view api i1) + holding K (map (\<lambda>y. Some (snd y)) l) = holding K (inv_view api i) + holding K (map Some xs)" for K
    using laws(4) X(2) inv(2) add unfolding add_laws_def by blast+
  have kinds: "list_all (\<lambda>y. kind_of (snd y) = ?K1) l" using A(2) X(3) by (auto simp: list_all_iff)
  have sums: "holding K (inv_view api i1) = holding K (inv_view api i) + (if K = ?K1 then q - itemCount l else 0)" for K
    using A(3) [of K] holding_leftovers [OF kinds] holding_one_kind [OF X(3)] X(1) by (simp split: if_splits)
  have mk: "deliveryClaimId x = Some k" if "kind_of x = ?K1" for x
    using that markerId_setMarker [OF laws(2) k, of ?sample DeliveryClaimTag DeliveryClaimTag]
    by (simp add: kind_of_def deliveryClaimId_def)
  have cleared: "kind_of (x\<lparr>is_nbt := erase_key DeliveryClaimTag (is_nbt x)\<rparr>) = ?K0" if "kind_of x = ?K1" for x
    using that laws(3) dec(2) by (simp add: kind_of_def setMarker_def item_kind_def insert_erase_def plain_nbt_def)
  have internal: "isInternalEscrowItem x" if "kind_of x = ?K1" for x
    using mk [OF that] by (simp add: isInternalEscrowItem_def)
  have plain: "\<not> isInternalEscrowItem x" if "kind_of x = ?K0" for x
    using that plain_markers [OF dec(2)]
    by (simp add: kind_of_def item_kind_def isInternalEscrowItem_def deliveryClaimId_def sellItemEscrowId_def sellReceiptEscrowId_def)
  have differ: "?K0 \<noteq> ?K1"
  proof
    assume "?K0 = ?K1"
    then have "kind_of ?marked = ?K0" by simp
    from plain [OF this] internal [OF refl] show False by simp
  qed
  note pos = inv(2) [unfolded stocked_def] A(1) [unfolded stocked_def]
  have none: "holding ?K1 (inv_view api i) = 0"
    using holding_pos [OF pos(1), of ?K1] no_internalD [OF inv(1)] internal by fastforce
  have count: "holding ?K1 (inv_view api i1) = q - itemCount l" using sums [of ?K1] none by simp
  have items: "kind_of x = ?K1 \<or> \<not> isInternalEscrowItem x" if "Some x \<in> set (inv_view api i1)" for x
  proof (cases "kind_of x = ?K1")
    case False
    have "0 < holding (kind_of x) (inv_view api i1)" using holding_pos(2) [OF pos(2)] that by blast
    then have "0 < holding (kind_of x) (inv_view api i)" using sums [of "kind_of x"] False by simp
    then obtain y where "Some y \<in> set (inv_view api i)" "kind_of y = kind_of x" using holding_pos(2) [OF pos(1)] by blast
    then show ?thesis using no_internalD [OF inv(1)] internal_kind [of y x] by simp
  qed simp
  obtain i2 where i2: "clearDeliveryClaimTag api k i1 = (Inr (), i2)" "inv_view api i2 = map_items
      (\<lambda>item. if deliveryClaimId item = Some k then Some (item\<lparr>is_nbt := erase_key DeliveryClaimTag (is_nbt item)\<rparr>) else Some item)
      (inv_view api i1)"
    using clear_claim_view [OF laws(1)] by blast
  have others: "kind_of x = ?K1 \<or> deliveryClaimId x \<noteq> Some k" if "Some x \<in> set (inv_view api i1)" for x
    using items [OF that] by (auto simp: isInternalEscrowItem_def)
  have hold2: "holding K (inv_view api i2) = holding K (inv_view api i) + (if K = ?K0 then q - itemCount l else 0)" for K
    unfolding i2(2) by (subst holding_cleared [where ?K1.0 = ?K1 and ?K0.0 = ?K0])
      (use others mk cleared differ sums count none in auto)
  have from1: "\<exists>y. Some y \<in> set (inv_view api i1) \<and> is_amount x = is_amount y \<and> (if kind_of y = ?K1 then kind_of x = ?K0 else x = y)"
    if "Some x \<in> set (inv_view api i2)" for x
  proof -
    from that obtain y where y: "Some y \<in> set (inv_view api i1)"
      "Some x = (if deliveryClaimId y = Some k then Some (y\<lparr>is_nbt := erase_key DeliveryClaimTag (is_nbt y)\<rparr>) else Some y)"
      by (auto simp: i2(2) map_items_def split: option.splits)
    with others [OF y(1)] mk [of y] cleared [of y] show ?thesis by (intro exI [of _ y]) auto
  qed
  have clean2: "no_internal (inv_view api i2)"
    unfolding no_internal_def list_all_iff
  proof
    fix z assume z: "z \<in> set (inv_view api i2)"
    show "case z of None \<Rightarrow> True | Some x \<Rightarrow> \<not> isInternalEscrowItem x"
    proof (cases z)
      case (Some x)
      with z obtain y where "Some y \<in> set (inv_view api i1)" "if kind_of y = ?K1 then kind_of x = ?K0 else x = y"
        using from1 by blast
      then show ?thesis using items plain Some by (auto split: if_splits)
    qed simp
  qed
  have stocked2: "stocked api i2"
    unfolding stocked_def list_all_iff
  proof
    fix z assume z: "z \<in> set (inv_view api i2)"
    show "case z of None \<Rightarrow> True | Some x \<Rightarrow> 0 < is_amount x"
    proof (cases z)
      case (Some x)
      with z obtain y where "Some y \<in> set (inv_view api i1)" "is_amount x = is_amount y" using from1 by blast
      then show ?thesis using pos(2) Some by (fastforce simp: list_all_iff)
    qed simp
  qed
  have tagged: "taggedItemCount api k i2 = 0"
    unfolding taggedItemCount_def marked_count_view [OF laws(1)]
    by (rule amounts_none) (use no_internalD [OF clean2] in \<open>auto simp: isInternalEscrowItem_def\<close>)
  have "0 \<le> itemCount l" using A(2) unfolding itemCount_def by (induction l) auto
  moreover have "itemCount l \<le> q" using holding_pos(1) [OF pos(2), of ?K1] count by simp
  ultimately have le: "0 \<le> itemCount l" "itemCount l \<le> q" by simp_all
  have none1: "no_internal (inv_view api i1)" if "itemCount l = q"
  proof -
    have "\<nexists>x. Some x \<in> set (inv_view api i1) \<and> kind_of x = ?K1"
      using holding_pos(2) [OF pos(2), of ?K1] count that by simp
    then show ?thesis using items unfolding no_internal_def list_all_iff by (auto split: option.splits)
  qed
  have hold1: "holding K (inv_view api i1) = holding K (inv_view api i)" if "itemCount l = q" for K
    using sums [of K] that by simp
  show thesis
    by (rule that [OF split X(1) add le i2(1) tagged]) (use clean2 none1 A(1) stocked2 hold1 hold2 in auto)
qed

section \<open>One delivery\<close>

text \<open>How many items of a kind players have received of what they were owed.\<close>

definition claimed_of :: "host \<Rightarrow> db \<Rightarrow> kind \<Rightarrow> delivery_row \<Rightarrow> int" where
  "claimed_of h s K d = (case market_of s (d_market d) of None \<Rightarrow> 0
     | Some m \<Rightarrow> (case decoded_nbt h (mk_item m) of Inl _ \<Rightarrow> 0
       | Inr nbt \<Rightarrow> if item_kind (mk_item m) nbt = K then d_claimed d else 0))"

definition taken :: "host \<Rightarrow> db \<Rightarrow> kind \<Rightarrow> int" where
  "taken h s K = (\<Sum>d\<leftarrow>deliveries s. claimed_of h s K d)"

definition claimed_total :: "db \<Rightarrow> int" where
  "claimed_total s = (\<Sum>d\<leftarrow>deliveries s. d_claimed d)"

definition plain_markets :: "host \<Rightarrow> db \<Rightarrow> bool" where
  "plain_markets h s \<longleftrightarrow> list_all (\<lambda>m. case decoded_nbt h (mk_item m) of Inl _ \<Rightarrow> True | Inr nbt \<Rightarrow> plain_nbt nbt) (markets s)"

text \<open>A delivery of the player with something free, as \<open>pendingDeliveries\<close> lists it.\<close>

definition pending_row :: "db \<Rightarrow> string \<Rightarrow> Delivery \<Rightarrow> delivery_row \<Rightarrow> market_row \<Rightarrow> bool" where
  "pending_row s u dv d m \<longleftrightarrow> delivery_of s (dv_id dv) = Some d \<and> d_player d = u \<and> 0 < unreserved d \<and>
     market_of s (d_market d) = Some m \<and> dv = delivery_view d (mk_item m)"

definition hand_over_laws :: "'i env \<Rightarrow> bool" where
  "hand_over_laws env \<longleftrightarrow> inventory_laws (ev_api env) \<and> host_laws (ev_host env) \<and> insert_erase (ev_host env) \<and>
     add_laws (ev_api env) \<and> ev_uuid env \<noteq> []"

lemma handed_over_fields [simp]:
  "markets (handed_over i u q n s) = markets s"
  "claims (handed_over i u q n s) = claims s @ [done_claim (fresh_id c_id (claims s)) i u q n]"
  "deliveries (handed_over i u q n s) = upd_where (\<lambda>d. d_id d = i) (add_claimed n) (deliveries s)"
  "escrows (handed_over i u q n s) = escrows s"
  by (simp_all add: handed_over_def)

lemma handed_over_taken:
  assumes ok: "deliveries_ok s" and d: "delivery_of s i = Some d" and m: "market_of s (d_market d) = Some m"
    and dec: "decoded_nbt h (mk_item m) = Inr nbt"
  shows "taken h (handed_over i u q n s) K = taken h s K + (if K = item_kind (mk_item m) nbt then n else 0)"
    "claimed_total (handed_over i u q n s) = claimed_total s + n"
proof -
  note D = delivery_of_Some [OF d]
  have "market_of (handed_over i u q n s) = market_of s" by (simp add: market_of_def fun_eq_iff)
  then have "claimed_of h (handed_over i u q n s) K x = claimed_of h s K x" for x
    by (simp add: claimed_of_def)
  moreover have "claimed_of h s K (add_claimed n d) = claimed_of h s K d + (if K = item_kind (mk_item m) nbt then n else 0)"
    using m dec by (simp add: claimed_of_def add_claimed_def)
  ultimately show "taken h (handed_over i u q n s) K = taken h s K + (if K = item_kind (mk_item m) nbt then n else 0)"
    using sum_list_upd_key [OF deliveries_okD(1) [OF ok] conjunct1 [OF D] conjunct2 [OF D], of "claimed_of h s K" "add_claimed n"]
    by (simp add: taken_def)
  show "claimed_total (handed_over i u q n s) = claimed_total s + n"
    using sum_list_upd_key [OF deliveries_okD(1) [OF ok] conjunct1 [OF D] conjunct2 [OF D], of d_claimed "add_claimed n"]
    by (simp add: claimed_total_def add_claimed_def)
qed

lemma prepared_taken:
  assumes "deliveries_ok s"
  shows "taken h (prepared_state i u q s) K = taken h s K" "claimed_total (prepared_state i u q s) = claimed_total s"
proof -
  have "claimed_of h (prepared_state i u q s) K x = claimed_of h s K x" for x
    by (simp add: claimed_of_def prepared_state_def market_of_def)
  moreover have "claimed_of h s K (reserve_more q x) = claimed_of h s K x" for x
    by (simp add: claimed_of_def reserve_more_def split: option.split sum.split)
  ultimately show "taken h (prepared_state i u q s) K = taken h s K"
    by (simp add: taken_def) (simp add: prepared_state_def sum_list_upd_where_same)
  show "claimed_total (prepared_state i u q s) = claimed_total s"
    by (simp add: claimed_total_def prepared_state_def sum_list_upd_where_same reserve_more_def)
qed

text \<open>What holds of both sides after any part of the flow, compared with before.\<close>

definition moved :: "'i env \<Rightarrow> 'i visit \<Rightarrow> 'i visit \<Rightarrow> bool" where
  "moved env v v' \<longleftrightarrow> deliveries_ok (v_db v') \<and> markets (v_db v') = markets (v_db v) \<and>
     no_internal (inv_view (ev_api env) (v_inv v')) \<and> stocked (ev_api env) (v_inv v') \<and>
     (\<forall>K. holding K (inv_view (ev_api env) (v_inv v')) - holding K (inv_view (ev_api env) (v_inv v)) =
       taken (ev_host env) (v_db v') K - taken (ev_host env) (v_db v) K)"

lemma moved_trans: "moved env v1 v2 \<Longrightarrow> moved env v2 v3 \<Longrightarrow> moved env v1 v3"
  unfolding moved_def by (metis (no_types, opaque_lifting) add_diff_eq diff_add_cancel)

lemma hand_over_run:
  assumes laws: "hand_over_laws env" and ok: "deliveries_ok s" and p: "pending_row s (ev_uuid env) dv d m"
    and k: "fresh_id c_id (claims s) < 2 ^ 64" and plain: "plain_markets (ev_host env) s"
    and inv: "no_internal (inv_view (ev_api env) i)" "stocked (ev_api env) i"
  defines "v \<equiv> \<lparr>v_db = s, v_inv = i\<rparr>"
  shows "case decoded_nbt (ev_host env) (mk_item m) of
      Inl e \<Rightarrow> \<exists>v'. hand_over env dv (unreserved d) v = (Inl e, v') \<and> moved env v v'
    | Inr nbt \<Rightarrow> \<exists>n stop i'. 0 \<le> n \<and>
        hand_over env dv (unreserved d) v = (Inr (n, stop), \<lparr>v_db = handed_over (dv_id dv) (ev_uuid env) (unreserved d) n s, v_inv = i'\<rparr>) \<and>
        moved env v \<lparr>v_db = handed_over (dv_id dv) (ev_uuid env) (unreserved d) n s, v_inv = i'\<rparr>"
proof -
  let ?api = "ev_api env" and ?h = "ev_host env" and ?u = "ev_uuid env" and ?q = "unreserved d" and ?k = "fresh_id c_id (claims s)"
  from laws have L: "inventory_laws ?api" "host_laws ?h" "insert_erase ?h" "add_laws ?api" and u: "?u \<noteq> []"
    by (simp_all add: hand_over_laws_def)
  from p have d: "delivery_of s (dv_id dv) = Some d" "d_player d = ?u" and q: "0 < ?q" and m: "market_of s (d_market d) = Some m"
    and item: "dv_item dv = mk_item m" by (auto simp: pending_row_def delivery_view_def)
  have mk: "m \<in> set (markets s)" using m by (auto simp: market_of_def dest: find_key_in)
  have q0: "0 \<le> ?q" using q by simp
  show ?thesis
  proof (cases "decoded_nbt ?h (mk_item m)")
    case (Inl e)
    obtain claim s1 where c: "prepareDeliveryClaim (dv_id dv) ?u ?q s = (Inr claim, s1)" "deliveries_ok s1"
      by (rule claim_cycle [OF ok d u q order_refl q0])
    have s1: "s1 = prepared_state (dv_id dv) ?u ?q s"
      using prepareDeliveryClaim_eq [OF ok, of "dv_id dv" ?u ?q] c(1) d u q by (simp add: claimable_def)
    have "splitStacks ?h ?api (dv_item dv) (dc_quantity claim) (Some (dc_id claim)) = Inl e"
      using Inl by (simp add: splitStacks_def sampleItem_def originalNbt_def item)
    then have "hand_over env dv ?q v = (Inl e, \<lparr>v_db = s1, v_inv = i\<rparr>)"
      by (simp add: hand_over_def v_def visit_run c(1) Let_def liftS_def)
    moreover have "moved env v \<lparr>v_db = s1, v_inv = i\<rparr>"
      using c(2) inv prepared_taken(1) [OF ok, of ?h "dv_id dv" ?u ?q]
      by (simp add: moved_def v_def s1 prepared_state_def)
    ultimately show ?thesis using Inl by auto
  next
    case (Inr nbt)
    have "plain_nbt nbt" using plain mk Inr by (auto simp: plain_markets_def list_all_iff)
    obtain xs l i1 i2 where I: "splitStacks ?h ?api (mk_item m) ?q (Some ?k) = Inr xs" "(\<Sum>x\<leftarrow>xs. is_amount x) = ?q"
      "inv_add ?api xs i = (l, i1)" "0 \<le> itemCount l" "itemCount l \<le> ?q"
      "clearDeliveryClaimTag ?api ?k i1 = (Inr (), i2)" "taggedItemCount ?api ?k i2 = 0"
      "no_internal (inv_view ?api (if itemCount l = ?q then i1 else i2))"
      "stocked ?api (if itemCount l = ?q then i1 else i2)"
      "\<forall>K. holding K (inv_view ?api (if itemCount l = ?q then i1 else i2)) =
        holding K (inv_view ?api i) + (if K = item_kind (mk_item m) nbt then ?q - itemCount l else 0)"
      by (rule delivered_inventory [OF L k Inr \<open>plain_nbt nbt\<close> inv q])
    let ?n = "?q - itemCount l" and ?i' = "if itemCount l = ?q then i1 else i2"
    have n: "0 \<le> ?n" "?n \<le> ?q" using I(4,5) by simp_all
    obtain claim s1 s2 where C: "prepareDeliveryClaim (dv_id dv) ?u ?q s = (Inr claim, s1)" "dc_id claim = ?k"
      "dc_quantity claim = ?q" "completeDeliveryClaim (dc_id claim) ?n s1 = (Inr (), s2)"
      "if ?n = 0 then s2 = handed_over (dv_id dv) ?u ?q ?n s
       else markDeliveryClaimCleaned (dc_id claim) s2 = (Inr (), handed_over (dv_id dv) ?u ?q ?n s)"
      "deliveries_ok (handed_over (dv_id dv) ?u ?q ?n s)"
      by (rule claim_cycle [OF ok d u q n])
    let ?v' = "\<lparr>v_db = handed_over (dv_id dv) ?u ?q ?n s, v_inv = ?i'\<rparr>"
    have run: "hand_over env dv ?q v = (Inr (?n, l \<noteq> []), ?v')"
    proof (cases "itemCount l = ?q")
      case True
      then show ?thesis using C I(1,3)
        by (simp add: hand_over_def v_def visit_run Let_def liftS_def item I(2))
    next
      case False
      then have "0 < ?n" using I(5) by simp
      then show ?thesis using C I(1,3,6,7)
        by (simp add: hand_over_def v_def visit_run Let_def liftS_def item I(2))
    qed
    have "moved env v ?v'"
      using C(6) I(8-10) handed_over_taken(1) [OF ok d(1) m Inr]
      by (simp add: moved_def v_def)
    with run n(1) Inr show ?thesis by (simp only: sum.case) blast
  qed
qed

section \<open>All deliveries\<close>

lemma fresh_id_snoc: "key x = fresh_id key xs \<Longrightarrow> fresh_id key (xs @ [x]) = Suc (fresh_id key xs)"
proof -
  have f: "foldr (\<lambda>r m. max (key r) m) ys n = max (foldr (\<lambda>r m. max (key r) m) ys 0) n" for ys :: "'a list" and n :: nat
    by (induction ys) (auto simp: max.assoc)
  assume "key x = fresh_id key xs"
  then show ?thesis using f [of xs "key x"] by (simp add: fresh_id_def)
qed

lemma done_not_unfinished: "\<not> unfinished_claim (done_claim k i u q n)"
  by (simp add: done_claim_def unfinished_claim_def)

lemma pending_row_other:
  assumes "pending_row s u dv d m" and "dv_id dv \<noteq> i"
  shows "pending_row (handed_over i u q n s) u dv d m"
proof -
  have "delivery_of (handed_over i u q n s) (dv_id dv) = delivery_of s (dv_id dv)"
    using assms(2) by (simp add: delivery_of_def add_claimed.find_upd)
  moreover have "market_of (handed_over i u q n s) = market_of s" by (simp add: market_of_def fun_eq_iff)
  ultimately show ?thesis using assms(1) unfolding pending_row_def by metis
qed

lemma hand_over_all_run:
  assumes "hand_over_laws env" and "deliveries_ok s" and "plain_markets (ev_host env) s"
    and "fresh_id c_id (claims s) + length ds \<le> 2 ^ 64"
    and "no_internal (inv_view (ev_api env) i)" and "stocked (ev_api env) i"
    and "distinct (map dv_id ds)" and "\<forall>dv \<in> set ds. \<exists>d m. pending_row s (ev_uuid env) dv d m"
  shows "\<exists>res v'. hand_over_all env ds baseline \<lparr>v_db = s, v_inv = i\<rparr> = (res, v') \<and>
    moved env \<lparr>v_db = s, v_inv = i\<rparr> v' \<and>
    (case res of
       Inl e \<Rightarrow> \<exists>m \<in> set (markets s). decoded_nbt (ev_host env) (mk_item m) = Inl e
     | Inr n \<Rightarrow> n - baseline = claimed_total (v_db v') - claimed_total s \<and>
         filter unfinished_claim (claims (v_db v')) = filter unfinished_claim (claims s))"
  using assms(2-8)
proof (induction ds arbitrary: s i baseline)
  case Nil
  then show ?case by (simp add: returnS_def moved_def)
next
  case (Cons dv ds)
  let ?u = "ev_uuid env" and ?v = "\<lparr>v_db = s, v_inv = i\<rparr>"
  from Cons.prems(7) obtain d m where p: "pending_row s ?u dv d m" by auto
  have pend: "dv_quantity dv - dv_claimed dv - dv_reserved dv = unreserved d" and q: "\<not> unreserved d \<le> 0"
    and D: "delivery_of s (dv_id dv) = Some d" and m: "market_of s (d_market d) = Some m"
    using p by (auto simp: pending_row_def delivery_view_def unreserved_def)
  have k: "fresh_id c_id (claims s) < 2 ^ 64" using Cons.prems(3) by simp
  note H = hand_over_run [OF assms(1) Cons.prems(1) p k Cons.prems(2,4,5)]
  show ?case
  proof (cases "decoded_nbt (ev_host env) (mk_item m)")
    case (Inl e)
    with H obtain v' where r: "hand_over env dv (unreserved d) ?v = (Inl e, v')" "moved env ?v v'" by auto
    have "m \<in> set (markets s)" using m by (auto simp: market_of_def dest: find_key_in)
    with r Inl q show ?thesis by (auto simp: pend bindS_eq Let_def)
  next
    case (Inr nbt)
    let ?s1 = "\<lambda>n. handed_over (dv_id dv) ?u (unreserved d) n s"
    from H Inr obtain n stop i1 where n: "0 \<le> n"
      and r: "hand_over env dv (unreserved d) ?v = (Inr (n, stop), \<lparr>v_db = ?s1 n, v_inv = i1\<rparr>)"
      and mv: "moved env ?v \<lparr>v_db = ?s1 n, v_inv = i1\<rparr>" by auto
    have tot: "claimed_total (?s1 n) = claimed_total s + n"
      by (rule handed_over_taken(2) [OF Cons.prems(1) D m Inr])
    have unf: "filter unfinished_claim (claims (?s1 n)) = filter unfinished_claim (claims s)"
      by (simp add: done_not_unfinished)
    show ?thesis
    proof (cases stop)
      case True
      with r mv tot unf q show ?thesis by (auto simp: pend bindS_eq Let_def returnS_def)
    next
      case False
      have ok1: "deliveries_ok (?s1 n)" "no_internal (inv_view (ev_api env) i1)" "stocked (ev_api env) i1"
        using mv by (simp_all add: moved_def)
      have fresh: "fresh_id c_id (claims (?s1 n)) + length ds \<le> 2 ^ 64"
        using Cons.prems(3) by (simp add: fresh_id_snoc done_claim_def)
      have plain: "plain_markets (ev_host env) (?s1 n)" using Cons.prems(2) by (simp add: plain_markets_def)
      have "\<forall>dw \<in> set ds. \<exists>d m. pending_row (?s1 n) ?u dw d m"
      proof
        fix dw assume dw: "dw \<in> set ds"
        then obtain d' m' where "pending_row s ?u dw d' m'" using Cons.prems(7) by auto
        moreover have "dv_id dw \<noteq> dv_id dv" using Cons.prems(6) dw by (auto simp: image_iff)
        ultimately show "\<exists>d m. pending_row (?s1 n) ?u dw d m" using pending_row_other by blast
      qed
      from Cons.IH [OF ok1(1) plain fresh ok1(2,3) _ this, of "baseline + n"] Cons.prems(6)
      obtain res v' where IH: "hand_over_all env ds (baseline + n) \<lparr>v_db = ?s1 n, v_inv = i1\<rparr> = (res, v')"
        "moved env \<lparr>v_db = ?s1 n, v_inv = i1\<rparr> v'"
        "case res of Inl e \<Rightarrow> \<exists>m \<in> set (markets (?s1 n)). decoded_nbt (ev_host env) (mk_item m) = Inl e
         | Inr x \<Rightarrow> x - (baseline + n) = claimed_total (v_db v') - claimed_total (?s1 n) \<and>
             filter unfinished_claim (claims (v_db v')) = filter unfinished_claim (claims (?s1 n))" by auto
      have "hand_over_all env (dv # ds) baseline ?v = (res, v')"
        using r q False IH(1) by (simp add: pend bindS_eq Let_def)
      moreover have "moved env ?v v'" by (rule moved_trans [OF mv IH(2)])
      ultimately show ?thesis using IH(3) tot unf by (cases res) auto
    qed
  qed
qed

text \<open>The list the loop runs over.\<close>

lemma pendingDeliveries_rows:
  assumes ok: "deliveries_ok s"
  obtains ds where "pendingDeliveries u s = (Inr ds, s)" "distinct (map dv_id ds)"
    "\<forall>dv \<in> set ds. \<exists>d m. pending_row s u dv d m" "length ds \<le> length (deliveries s)"
proof -
  let ?rows = "sort_key d_id (filter (\<lambda>d. d_player d = u \<and> d_claimed d + d_reserved d < d_quantity d) (deliveries s))"
  let ?joined = "List.map_filter (delivery_join s) ?rows"
  have join: "\<exists>m. delivery_join s d = Some (d, m)" if "d \<in> set ?rows" for d
    using delivery_joined [OF ok, of d] that by auto
  have fsts: "map fst ?joined = ?rows" by (rule map_filter_join) (rule join)
  let ?ds = "map (\<lambda>(d, m). delivery_view d (mk_item m)) ?joined"
  have run: "pendingDeliveries u s = (Inr ?ds, s)" by (simp add: pendingDeliveries_def queryS_def)
  have "map dv_id ?ds = map d_id (map fst ?joined)" by (simp add: delivery_view_def case_prod_unfold)
  then have ids: "map dv_id ?ds = map d_id ?rows" by (simp only: fsts)
  have "mset (map d_id ?rows) = mset (map d_id (filter (\<lambda>d. d_player d = u \<and> d_claimed d + d_reserved d < d_quantity d) (deliveries s)))"
    by simp
  then have dist: "distinct (map dv_id ?ds)"
    unfolding ids using mset_eq_imp_distinct_iff List.distinct_map_filter [OF deliveries_okD(1) [OF ok]] by blast
  have rows: "\<forall>dv \<in> set ?ds. \<exists>d m. pending_row s u dv d m"
  proof
    fix dv assume "dv \<in> set ?ds"
    then obtain d m where dm: "(d, m) \<in> set ?joined" "dv = delivery_view d (mk_item m)" by auto
    then obtain d0 where "d0 \<in> set ?rows" "delivery_join s d0 = Some (d, m)" by (auto simp: List.map_filter_def)
    then have d: "d \<in> set (deliveries s)" "d_player d = u" "0 < unreserved d" "market_of s (d_market d) = Some m"
      by (auto simp: delivery_join_def unreserved_def)
    then have "delivery_of s (d_id d) = Some d" by (intro delivery_of_unique [OF ok])
    with d dm(2) show "\<exists>d m. pending_row s u dv d m"
      by (auto simp: pending_row_def delivery_view_def)
  qed
  have "length ?ds = length ?rows" using arg_cong [OF ids, of length] by simp
  then have "length ?ds \<le> length (deliveries s)" by simp
  then show thesis by (rule that [OF run dist rows])
qed

lemma no_internal_markers:
  assumes "inventory_laws api" and "no_internal (inv_view api i)"
  shows "internalEscrowMarkers api i = \<lparr>em_delivery_claim_ids = [], em_sell_item_escrow_ids = [], em_sell_receipt_escrow_ids = []\<rparr>"
proof -
  have "List.map_filter f (List.map_filter id v) = []" if "no_internal v" "\<And>x. \<not> isInternalEscrowItem x \<Longrightarrow> f x = None"
    for f :: "ItemStack \<Rightarrow> Id option" and v
    using that by (induction v) (auto simp: List.map_filter_simps no_internal_def split: option.splits)
  from this [OF assms(2)] show ?thesis
    by (simp add: internalEscrowMarkers_def marker_ids_def inv_items_view [OF assms(1)] isInternalEscrowItem_def)
qed

section \<open>Properties\<close>

text \<open>
  C33: Every item owed to a player that is booked as claimed has arrived in the inventory, and nothing else
  has: \<open>claimDeliveries\<close> adds to the inventory, kind of item by
  kind of item, exactly what it adds to the claimed quantities of the deliveries, returns the number of
  items, and leaves no marker and no unfinished claim behind, however many items find a place. It can only
  fail on an item whose stored NBT data cannot be decoded, and even then nothing is lost or doubled. The conditions:
  no sale and no hand-over of the player was interrupted (no unfinished escrow, no unfinished claim, no marked item
  in the inventory; claims and sales left over are finished first and book what had arrived before), the stored
  NBT data of the markets carries no markers, the ids of the new claims fit 64 bits, and the inventory keeps
  the laws of \<open>hand_over_laws\<close>.
\<close>

theorem claims_reach_inventory:
  assumes "hand_over_laws env" and "deliveries_ok s" and "plain_markets (ev_host env) s"
    and "fresh_id c_id (claims s) + length (deliveries s) \<le> 2 ^ 64"
    and "no_internal (inv_view (ev_api env) i)" and "stocked (ev_api env) i"
    and "unfinishedSellEscrows (ev_uuid env) s = (Inr [], s)" and "unfinishedDeliveryClaims (ev_uuid env) s = (Inr [], s)"
  shows "\<exists>res s' i'. claimDeliveries env \<lparr>v_db = s, v_inv = i\<rparr> = (res, \<lparr>v_db = s', v_inv = i'\<rparr>) \<and> deliveries_ok s' \<and>
    (\<forall>K. holding K (inv_view (ev_api env) i') - holding K (inv_view (ev_api env) i) =
      taken (ev_host env) s' K - taken (ev_host env) s K) \<and>
    no_internal (inv_view (ev_api env) i') \<and>
    (case res of
       Inl e \<Rightarrow> \<exists>m \<in> set (markets s). decoded_nbt (ev_host env) (mk_item m) = Inl e
     | Inr n \<Rightarrow> n = claimed_total s' - claimed_total s \<and> unfinishedDeliveryClaims (ev_uuid env) s' = (Inr [], s'))"
proof -
  let ?v = "\<lparr>v_db = s, v_inv = i\<rparr>" and ?u = "ev_uuid env"
  obtain ds where ds: "pendingDeliveries ?u s = (Inr ds, s)" "distinct (map dv_id ds)"
    "\<forall>dv \<in> set ds. \<exists>d m. pending_row s ?u dv d m" "length ds \<le> length (deliveries s)"
    by (rule pendingDeliveries_rows [OF assms(2)])
  have fresh: "fresh_id c_id (claims s) + length ds \<le> 2 ^ 64" using assms(4) ds(4) by simp
  obtain res v' where H: "hand_over_all env ds 0 ?v = (res, v')" "moved env ?v v'"
    "case res of Inl e \<Rightarrow> \<exists>m \<in> set (markets s). decoded_nbt (ev_host env) (mk_item m) = Inl e
     | Inr n \<Rightarrow> n - 0 = claimed_total (v_db v') - claimed_total s \<and>
         filter unfinished_claim (claims (v_db v')) = filter unfinished_claim (claims s)"
    using hand_over_all_run [OF assms(1-3) fresh assms(5,6) ds(2,3), of 0] by blast
  have laws: "inventory_laws (ev_api env)" using assms(1) by (simp add: hand_over_laws_def)
  have none: "reconcileInternalEscrowMarkers env ?v = (Inr (), ?v)" "reconcileSellEscrows env ?v = (Inr (), ?v)"
    by (simp_all add: reconcileInternalEscrowMarkers_def reconcileSellEscrows_def visit_run
        no_internal_markers [OF laws assms(5)] assms(7))
  have run: "claimDeliveries env ?v = (res, v')"
    using H(1) by (simp add: claimDeliveries_def visit_run none assms(8) ds(1))
  obtain s' i' where v': "v' = \<lparr>v_db = s', v_inv = i'\<rparr>" by (cases v') simp
  have ok': "deliveries_ok s'" using H(2) by (simp add: moved_def v')
  have "unfinishedDeliveryClaims ?u s' = (Inr [], s')" if same: "filter unfinished_claim (claims s') = filter unfinished_claim (claims s)"
  proof -
    have sub: "filter (\<lambda>c. c_player c = ?u \<and> unfinished_claim c) cs = filter (\<lambda>c. c_player c = ?u) (filter unfinished_claim cs)" for cs
      by (simp add: conj_commute)
    from unfinished_ids [OF assms(2), of ?u] assms(8)
    have "sort_key c_id (filter (\<lambda>c. c_player c = ?u \<and> unfinished_claim c) (claims s)) = []" by auto
    then have "length (sort_key c_id (filter (\<lambda>c. c_player c = ?u \<and> unfinished_claim c) (claims s))) = 0" by simp
    then have "filter (\<lambda>c. c_player c = ?u \<and> unfinished_claim c) (claims s') = []"
      by (simp only: length_sort sub same length_0_conv)
    then show ?thesis by (simp add: unfinishedDeliveryClaims_def queryS_def List.map_filter_simps)
  qed
  with run H(2,3) ok' show ?thesis by (cases res) (auto simp: moved_def v')
qed

text \<open>The example: seven stones are due to a player whose inventory has three places free.\<close>

definition demo_due :: db where
  "demo_due = demo_db\<lparr>deliveries := [\<lparr>d_id = 1, d_player = ''alice'', d_market = 2, d_quantity = 9,
       d_claimed = 2, d_reserved = 0, d_reason = ''TRADE_BUY''\<rparr>],
     claims := [\<lparr>c_id = 1, c_delivery = 1, c_player = ''alice'', c_quantity = 5, c_applied = 2,
         c_status = ClaimApplied, c_cleaned = True\<rparr>]\<rparr>"

lemma demo_due_ok: "deliveries_ok demo_due"
proof -
  have "distinct (map d_id (deliveries demo_due)) \<and> distinct (map c_id (claims demo_due))" by code_simp
  moreover have "list_all (\<lambda>d. delivery_ok d \<and> market_of demo_due (d_market d) \<noteq> None \<and> accounted (claims demo_due) d)
      (deliveries demo_due)"
    "list_all (\<lambda>c. claim_ok c \<and> claim_owned (deliveries demo_due) c) (claims demo_due)" by code_simp+
  ultimately show ?thesis by (auto simp: deliveries_ok_def list_all_iff simp del: not_None_eq)
qed

lemma holding_simps [simp]:
  "holding K [] = 0" "holding K (x # v) = (case x of None \<Rightarrow> 0 | Some y \<Rightarrow> if kind_of y = K then is_amount y else 0) + holding K v"
  "holding K (v @ w) = holding K v + holding K w"
  by (simp_all add: holding_def amounts_def)

lemma add_stacks_laws:
  assumes "list_all (\<lambda>x. 0 < is_amount x) xs" and "list_all (\<lambda>x. case x of None \<Rightarrow> True | Some y \<Rightarrow> 0 < is_amount y) v"
    and "add_stacks xs v = (l, v')"
  shows "list_all (\<lambda>x. case x of None \<Rightarrow> True | Some y \<Rightarrow> 0 < is_amount y) v' \<and>
    list_all (\<lambda>y. 0 < is_amount (snd y) \<and> kind_of (snd y) \<in> kind_of ` set xs) l \<and>
    (\<forall>K. holding K v' + holding K (map (\<lambda>y. Some (snd y)) l) = holding K v + holding K (map Some xs))"
  using assms
proof (induction xs v arbitrary: l v' rule: add_stacks.induct)
  case (2 x xs)
  have z: "map (\<lambda>y. Some (snd y)) l = map Some (map snd l)" by simp
  have "l = zip [0..int (length xs)] (x # xs)" "length [0..int (length xs)] = length (x # xs)" using 2 by simp_all
  then have "map snd l = x # xs" by (simp only: map_snd_zip)
  moreover from this have "snd y \<in> set (x # xs)" if "y \<in> set l" for y using that by (metis image_eqI list.set_map)
  ultimately show ?case using 2 unfolding z by (auto simp: list_all_iff simp del: list.set set_simps)
next
  case (3 x xs v)
  obtain l1 v1 where a: "add_stacks xs v = (l1, v1)" by (rule prod.exhaust)
  with 3 have "l = l1" "v' = Some x # v1" by simp_all
  with 3 a show ?case by (auto simp: list_all_iff)
next
  case (4 x xs y v)
  obtain l1 v1 where a: "add_stacks (x # xs) v = (l1, v1)" by (rule prod.exhaust)
  with 4 have "l = l1" "v' = Some y # v1" by simp_all
  with 4 a show ?case by (auto simp: list_all_iff)
qed simp

lemma slots_add_laws: "add_laws slots_api"
  unfolding add_laws_def
proof (intro allI impI)
  fix xs i l i'
  assume xs: "list_all (\<lambda>x. 0 < is_amount x) xs" and i: "stocked slots_api i" and a: "inv_add slots_api xs i = (l, i')"
  obtain l1 v1 where s: "add_stacks xs (fst i) = (l1, v1)" by (rule prod.exhaust)
  with a have "l = l1" "i' = (v1, snd i)" by (simp_all add: slots_api_def)
  moreover have "list_all (\<lambda>x. case x of None \<Rightarrow> True | Some y \<Rightarrow> 0 < is_amount y) (fst i)"
    using i by (simp add: stocked_def slots_view)
  note A = add_stacks_laws [OF xs this s]
  ultimately show "stocked slots_api i' \<and> list_all (\<lambda>y. 0 < is_amount (snd y) \<and> kind_of (snd y) \<in> kind_of ` set xs) l \<and>
      (\<forall>K. holding K (inv_view slots_api i') + holding K (map (\<lambda>y. Some (snd y)) l) =
        holding K (inv_view slots_api i) + holding K (map Some xs))"
    using i A by (simp add: stocked_def slots_view)
qed

lemma erase_absent: "map_of c k = None \<Longrightarrow> erase_key k c = c"
  by (induction c) (auto simp: erase_key_def split: if_splits)

lemma demo_insert_erase: "insert_erase demo_host"
proof -
  have "erase_key k (assign_entry k v c) = c" if "map_of c k = None" for k v c
    using that by (induction c) (auto simp: erase_key_def split: if_splits)
  then show ?thesis by (simp add: insert_erase_def demo_host_def)
qed

theorem claims_reach_inventory_witness:
  "\<exists>n s' i'. claimDeliveries (demo_env ''alice'') \<lparr>v_db = demo_due, v_inv = demo_slots\<rparr> = (Inr n, \<lparr>v_db = s', v_inv = i'\<rparr>) \<and>
    n = claimed_total s' - claimed_total demo_due \<and> internalEscrowMarkers slots_api i' =
      \<lparr>em_delivery_claim_ids = [], em_sell_item_escrow_ids = [], em_sell_receipt_escrow_ids = []\<rparr>"
proof -
  let ?env = "demo_env ''alice''"
  have env: "ev_host ?env = demo_host" "ev_api ?env = slots_api" "ev_uuid ?env = ''alice''"
    by (simp_all add: demo_env_def)
  have laws: "hand_over_laws ?env"
    by (simp add: hand_over_laws_def env slots_api_laws demo_host_laws demo_insert_erase slots_add_laws)
  have empty: "decoded_nbt demo_host demo_item = Inr []" by (simp add: decoded_nbt_def demo_item_def)
  have mk: "map mk_item (markets demo_due) = [demo_item, demo_item]" by code_simp
  have items: "mk_item m = demo_item" if "m \<in> set (markets demo_due)" for m
  proof -
    from that have "mk_item m \<in> set (map mk_item (markets demo_due))" by simp
    then show ?thesis unfolding mk by simp
  qed
  have plain: "plain_markets demo_host demo_due"
    unfolding plain_markets_def list_all_iff by (simp add: items empty plain_nbt_def)
  have "fresh_id c_id (claims demo_due) = 2" "length (deliveries demo_due) = 1" by code_simp+
  then have fresh: "fresh_id c_id (claims demo_due) + length (deliveries demo_due) \<le> 2 ^ 64" by simp
  have slots: "no_internal (inv_view slots_api demo_slots)" "stocked slots_api demo_slots"
    unfolding no_internal_def stocked_def slots_view by code_simp+
  have none: "unfinishedSellEscrows ''alice'' demo_due = (Inr [], demo_due)"
    "unfinishedDeliveryClaims ''alice'' demo_due = (Inr [], demo_due)"
    by (simp_all add: unfinishedSellEscrows_def unfinishedDeliveryClaims_def queryS_def demo_due_def demo_db_def empty_db_def
        List.map_filter_simps unfinished_claim_def)
  from claims_reach_inventory [OF laws demo_due_ok, unfolded env, OF plain fresh slots none] obtain res s' i' where
    R: "claimDeliveries ?env \<lparr>v_db = demo_due, v_inv = demo_slots\<rparr> = (res, \<lparr>v_db = s', v_inv = i'\<rparr>)"
    "no_internal (inv_view slots_api i')" "case res of Inl e \<Rightarrow> \<exists>m \<in> set (markets demo_due). decoded_nbt demo_host (mk_item m) = Inl e
      | Inr n \<Rightarrow> n = claimed_total s' - claimed_total demo_due \<and> unfinishedDeliveryClaims ''alice'' s' = (Inr [], s')"
    by blast
  from R(3) items empty obtain n where "res = Inr n" "n = claimed_total s' - claimed_total demo_due"
    by (cases res) auto
  with R(1) no_internal_markers [OF slots_api_laws R(2)] show ?thesis by blast
qed

end
