(* ===== verification/Row_Types.thy ===== *)
theory Row_Types
  imports Frame_Listings
begin

text \<open>
  The conversions of result rows at the types of the columns (src/database.cpp): ids are BIGINT UNSIGNED and
  \<open>attempt_count\<close> is INT UNSIGNED, all other numbers are BIGINT and INT. The code reads ids as
  \<open>std::int64_t\<close> and counts as \<open>int\<close>, so a row within these narrower ranges converts to the typed
  value the other theories read directly (\<open>market_view\<close>, \<open>claim_view\<close> and so on), and a legal row
  outside them throws. Flags are stored as 0 and 1, as the service writes them.
\<close>

section \<open>The columns\<close>

definition id_column :: "Id \<Rightarrow> bool" where
  "id_column i \<longleftrightarrow> i < 2 ^ 64"

definition market_columns :: "market_row \<Rightarrow> bool" where
  "market_columns m \<longleftrightarrow> id_column (mk_id m) \<and> id_column (mk_book m) \<and> in_int32 (item_data (mk_item m)) \<and>
    pred_option in_int32 (mk_x m) \<and> pred_option in_int32 (mk_y m) \<and> pred_option in_int32 (mk_z m) \<and>
    pred_option in_int64 (mk_actor m)"

definition claim_columns :: "claim_row \<Rightarrow> bool" where
  "claim_columns c \<longleftrightarrow> id_column (c_id c) \<and> id_column (c_delivery c) \<and> in_int32 (c_quantity c) \<and> in_int32 (c_applied c)"

definition escrow_columns :: "escrow_row \<Rightarrow> bool" where
  "escrow_columns e \<longleftrightarrow> id_column (e_id e) \<and> id_column (e_market e) \<and> pred_option id_column (e_order e) \<and>
    in_int64 (e_price e) \<and> in_int32 (e_requested e) \<and> in_int32 (e_tagged e) \<and> in_int32 (e_receipts e)"

definition transfer_columns :: "transfer_row \<Rightarrow> bool" where
  "transfer_columns x \<longleftrightarrow> id_column (x_id x) \<and> in_int64 (x_cents x) \<and> in_int64 (x_units x) \<and>
    pred_option in_int64 (x_before x) \<and> pred_option in_int64 (x_after x) \<and> 0 \<le> x_attempts x \<and> x_attempts x < 2 ^ 32"

definition listing_columns :: "listing_row \<Rightarrow> bool" where
  "listing_columns f \<longleftrightarrow> id_column (f_id f) \<and> in_int32 (f_x f) \<and> in_int32 (f_y f) \<and> in_int32 (f_z f) \<and>
    in_int64 (f_price f) \<and> in_int32 (item_data (f_item f))"

section \<open>Numbers the code does not read\<close>

abbreviation "too_large \<equiv> Inl (Overflow_Error ''stoll'')"

abbreviation "no_int \<equiv> Inl (Database_Error ''database integer is outside int range'')"

lemma stoll_large: "int64_max < n \<Longrightarrow> stoll (dec n) = too_large"
  by (auto simp: stoll_def dec_def signed_part_dec_nat Let_def int64_max_def)

lemma id_large: "i < length row \<Longrightarrow> row ! i = id_cell k \<Longrightarrow> \<not> id_ok k \<Longrightarrow> cellInt64 row i = too_large"
  by (simp add: cellInt64_def cellString_at id_cell_def id_ok_def stoll_large)

lemma optional_id_large:
  "i < length row \<Longrightarrow> row ! i = map_option (\<lambda>k. dec (int k)) v \<Longrightarrow> \<not> pred_option id_ok v \<Longrightarrow> optionalInt64 row i = too_large"
  by (cases v) (simp_all add: optionalInt64_def id_large id_cell_def)

lemma optional_id: "i < length row \<Longrightarrow> row ! i = map_option (\<lambda>k. dec (int k)) v \<Longrightarrow> pred_option id_ok v \<Longrightarrow>
    optionalInt64 row i = Inr (map_option int v)"
  by (rule optionalInt64_at) (auto simp: option.map_comp o_def id_ok_def in_int64_def int64_min_def)

lemma cellInt_large: "i < length row \<Longrightarrow> row ! i = int_cell v \<Longrightarrow> in_int64 v \<Longrightarrow> \<not> in_int32 v \<Longrightarrow> cellInt row i = no_int"
  by (simp add: cellInt_def cellInt64_at) (auto simp: cellInt_of_def in_int32_def)

section \<open>The conversions\<close>

lemma market_converted:
  assumes "market_columns m"
  shows "marketFromRow (market_cells m) = (if id_ok (mk_id m) \<and> id_ok (mk_book m) then Inr (market_view m) else too_large)"
proof (cases "id_ok (mk_id m) \<and> id_ok (mk_book m)")
  case True
  with assms have "market_row_ok m" by (simp add: market_row_ok_def market_columns_def)
  with True show ?thesis by (simp add: marketFromRow_cells)
next
  case False
  let ?row = "market_cells m"
  have "cellInt64 ?row 0 = (if id_ok (mk_id m) then Inr (int (mk_id m)) else too_large)"
    "cellInt64 ?row 1 = (if id_ok (mk_book m) then Inr (int (mk_book m)) else too_large)"
    by (auto intro!: id_at id_large simp: market_cells_def)
  with False show ?thesis by (auto simp: marketFromRow_def)
qed

lemma claim_converted:
  assumes "claim_columns c" and "in_int32 (item_data item)"
  shows "deliveryClaimFromRow (claim_cells c item) =
    (if id_ok (c_id c) \<and> id_ok (c_delivery c) then Inr (claim_view c item) else too_large)"
proof (cases "id_ok (c_id c) \<and> id_ok (c_delivery c)")
  case True
  with assms(1) have "claim_row_ok c" by (simp add: claim_row_ok_def claim_columns_def)
  with True assms(2) show ?thesis by (simp add: deliveryClaimFromRow_cells)
next
  case False
  let ?row = "claim_cells c item"
  have "cellInt64 ?row 0 = (if id_ok (c_id c) then Inr (int (c_id c)) else too_large)"
    "cellInt64 ?row 1 = (if id_ok (c_delivery c) then Inr (int (c_delivery c)) else too_large)"
    by (auto intro!: id_at id_large simp: claim_cells_def)
  with False show ?thesis by (auto simp: deliveryClaimFromRow_def)
qed

lemma escrow_converted:
  assumes "escrow_columns e" and "in_int32 (item_data item)"
  shows "sellEscrowFromRow (escrow_cells e item) =
    (if id_ok (e_id e) \<and> id_ok (e_market e) \<and> pred_option id_ok (e_order e) then Inr (escrow_view e item) else too_large)"
proof (cases "id_ok (e_id e) \<and> id_ok (e_market e) \<and> pred_option id_ok (e_order e)")
  case True
  with assms(1) have "escrow_row_ok e" by (simp add: escrow_row_ok_def escrow_columns_def)
  with True assms(2) show ?thesis by (simp add: sellEscrowFromRow_cells)
next
  case False
  let ?row = "escrow_cells e item"
  have at: "14 < length ?row" "?row ! 14 = map_option (\<lambda>k. dec (int k)) (e_order e)"
    by (simp_all add: escrow_cells_def item_cells_def)
  have "optionalInt64 ?row 14 = (if pred_option id_ok (e_order e) then Inr (map_option int (e_order e)) else too_large)"
    using optional_id [OF at] optional_id_large [OF at] by simp
  moreover have "cellInt64 ?row 0 = (if id_ok (e_id e) then Inr (int (e_id e)) else too_large)"
    "cellInt64 ?row 1 = (if id_ok (e_market e) then Inr (int (e_market e)) else too_large)"
    by (auto intro!: id_at id_large simp: escrow_cells_def)
  ultimately show ?thesis using False by (auto simp: sellEscrowFromRow_def)
qed

lemma transfer_converted:
  assumes "transfer_columns x"
  shows "economyTransferFromRow (transfer_cells x) = (if \<not> id_ok (x_id x) then too_large
    else if x_attempts x > int32_max then no_int else Inr (transfer_view x))"
proof -
  let ?row = "transfer_cells x"
  note C = assms [unfolded transfer_columns_def]
  have small: "in_int32 (x_attempts x) \<longleftrightarrow> x_attempts x \<le> int32_max" using C by (auto simp: in_int32_def int32_min_def)
  have id: "cellInt64 ?row 0 = (if id_ok (x_id x) then Inr (int (x_id x)) else too_large)"
    by (auto intro!: id_at id_large simp: transfer_cells_def)
  show ?thesis
  proof (cases "id_ok (x_id x) \<and> in_int32 (x_attempts x)")
    case True
    then have "transfer_row_ok x" using C by (simp add: transfer_row_ok_def)
    with True small show ?thesis by (simp add: economyTransferFromRow_cells)
  next
    case False
    have "in_int64 (x_attempts x)" using C by (simp add: in_int64_def int64_min_def int64_max_def)
    then have "cellInt ?row 10 = no_int" if "\<not> in_int32 (x_attempts x)"
      using that by (auto intro!: cellInt_large simp: transfer_cells_def)
    moreover have "cellInt64 ?row 5 = Inr (x_cents x)" "cellInt64 ?row 6 = Inr (x_units x)"
      using C by (auto intro!: cellInt64_at simp: transfer_cells_def)
    moreover have "cellString ?row 1 = Inr (x_key x)" "cellString ?row 2 = Inr (x_player x)"
      "cellString ?row 3 = Inr (x_name x)" "cellString ?row 4 = Inr (toSql_Direction (x_direction x))"
      "cellString ?row 7 = Inr (transfer_status_sql (x_status x))"
      by (simp_all add: cellString_def transfer_cells_def)
    moreover have "optionalInt64 ?row 8 = Inr (x_before x)" "optionalInt64 ?row 9 = Inr (x_after x)"
      using C by (auto intro!: optionalInt64_at simp: transfer_cells_def)
    ultimately show ?thesis using False id small by (auto simp: economyTransferFromRow_def)
  qed
qed

lemma listing_converted:
  assumes "listing_columns f"
  shows "frameListingFromRow (listing_cells f) = (if id_ok (f_id f) then Inr (listing_view f) else too_large)"
proof (cases "id_ok (f_id f)")
  case True
  with assms have "listing_row_ok f" by (simp add: listing_row_ok_def listing_columns_def)
  with True show ?thesis by (simp add: frameListingFromRow_cells)
next
  case False
  have "cellInt64 (listing_cells f) 0 = too_large" using False by (auto intro!: id_large simp: listing_cells_def)
  with False show ?thesis by (simp add: frameListingFromRow_def)
qed

section \<open>Properties\<close>

text \<open>
  C36: The five row conversions of the service on every row the columns of the schema can hold, with flags of 0
  and 1: they return exactly the market, claim, escrow, transfer or listing of that row,
  enumerations and optional columns included, provided its ids are below $2^{63}$ and, for a transfer, its number of
  attempts is at most 2147483647; a row with a larger id throws the overflow of \<open>std::stoll\<close>, and
  a transfer with more attempts the range error of \<open>cellInt\<close>, although both fit their unsigned columns.
\<close>

theorem rows_typed:
  assumes "market_columns m" and "claim_columns c" and "escrow_columns e" and "transfer_columns x" and "listing_columns f"
    and "in_int32 (item_data item)"
  shows "marketFromRow (market_cells m) = (if id_ok (mk_id m) \<and> id_ok (mk_book m) then Inr (market_view m) else too_large) \<and>
    deliveryClaimFromRow (claim_cells c item) =
      (if id_ok (c_id c) \<and> id_ok (c_delivery c) then Inr (claim_view c item) else too_large) \<and>
    sellEscrowFromRow (escrow_cells e item) =
      (if id_ok (e_id e) \<and> id_ok (e_market e) \<and> pred_option id_ok (e_order e) then Inr (escrow_view e item) else too_large) \<and>
    economyTransferFromRow (transfer_cells x) = (if \<not> id_ok (x_id x) then too_large
      else if x_attempts x > int32_max then no_int else Inr (transfer_view x)) \<and>
    frameListingFromRow (listing_cells f) = (if id_ok (f_id f) then Inr (listing_view f) else too_large)"
  using market_converted [OF assms(1)] claim_converted [OF assms(2,6)] escrow_converted [OF assms(3,6)]
    transfer_converted [OF assms(4)] listing_converted [OF assms(5)] by blast

text \<open>A transfer after 2147483648 attempts, which its column can hold.\<close>

lemma demo_rows_ok:
  "market_columns (demo_market 1)" "claim_columns (new_claim (2 ^ 63) 1 ''alice'' 3)" "escrow_columns demo_sale_row"
  "transfer_columns (demo_withdrawal\<lparr>x_attempts := 2147483648\<rparr>)"
  "listing_columns (new_listing 1 (demo_offer 7 ''frame'' ''alice'' 250))" "in_int32 (item_data demo_item)"
  by (simp_all add: market_columns_def claim_columns_def escrow_columns_def transfer_columns_def listing_columns_def
      id_column_def in_int32_def in_int64_def int32_min_def int32_max_def int64_min_def int64_max_def demo_market_def
      demo_item_def new_claim_def demo_sale_row_def demo_withdrawal_def new_transfer_def new_listing_def demo_offer_def)

theorem rows_typed_witness:
  "marketFromRow (market_cells (demo_market 1)) = Inr (market_view (demo_market 1)) \<and>
    deliveryClaimFromRow (claim_cells (new_claim (2 ^ 63) 1 ''alice'' 3) demo_item) = too_large \<and>
    economyTransferFromRow (transfer_cells (demo_withdrawal\<lparr>x_attempts := 2147483648\<rparr>)) = no_int"
proof -
  have "id_ok (mk_id (demo_market 1))" "id_ok (mk_book (demo_market 1))" "\<not> id_ok (c_id (new_claim (2 ^ 63) 1 ''alice'' 3))"
    "id_ok (x_id (demo_withdrawal\<lparr>x_attempts := 2147483648\<rparr>))"
    "x_attempts (demo_withdrawal\<lparr>x_attempts := 2147483648\<rparr>) > int32_max"
    by (simp_all add: id_ok_def int64_max_def int32_max_def demo_market_def new_claim_def demo_withdrawal_def new_transfer_def)
  then show ?thesis using rows_typed [OF demo_rows_ok] by simp
qed

end
