(* ===== verification/Service.thy ===== *)
theory Service
  imports Frame_Listings
begin

text \<open>
  The service as a whole: every operation of ExchangeService that changes the database as one step of
  a system, the states that any sequence of calls can reach, and the invariant that holds in all of
  them, whatever the calls return.
\<close>

section \<open>What a step may do\<close>

definition service_ok :: "(string \<Rightarrow> string) \<Rightarrow> db \<Rightarrow> bool" where
  "service_ok sha s \<longleftrightarrow> shop_ok s \<and> markets_ok sha s"

definition service_step :: "(string \<Rightarrow> string) \<Rightarrow> Cents \<Rightarrow> db \<Rightarrow> db \<Rightarrow> bool" where
  "service_step sha d s s' \<longleftrightarrow> service_ok sha s' \<and> net_issue s' = net_issue s + d"

lemma service_okD:
  assumes "service_ok sha s"
  shows "shop_ok s" "markets_ok sha s" "sale_ok s" "transfers_ok s" "listings_ok s" "trading_ok s" "money_ok s"
    "orders_ok s" "deliveries_ok s" "escrows_ok s"
  using assms by (simp_all add: service_ok_def shop_ok_def sale_ok_def trading_ok_def)

lemma service_step_refl: "service_ok sha s \<Longrightarrow> service_step sha 0 s s"
  by (simp add: service_step_def)

lemma service_step_trans:
  "service_step sha d s s1 \<Longrightarrow> service_step sha d' s1 s' \<Longrightarrow> service_step sha (d + d') s s'"
  by (simp add: service_step_def)

lemma markets_ok_same:
  assumes "books s' = books s" and "markets s' = markets s" and "bindings s' = bindings s"
  shows "markets_ok sha s' = markets_ok sha s"
  using assms by (simp add: markets_ok_def books_ok_def market_booked_def bindings_ok_def bound_to_def live_unique_def)

section \<open>The kinds of steps\<close>

text \<open>A step of the order book: it keeps every table but accounts, ledger, orders, trades and deliveries.\<close>

lemma trade_frame_step:
  assumes ok: "service_ok sha s" and fr: "trade_frame s s'" and s': "sale_ok s'"
  shows "service_step sha (money_supply s' - money_supply s) s s'"
proof -
  note O = service_okD [OF ok]
  have acc: "account_of s u \<noteq> None \<Longrightarrow> account_of s' u \<noteq> None" for u by (rule trade_frame_refs(1) [OF fr])
  have "transfers_ok s'" using O(4) fr acc unfolding transfers_ok_def by (simp add: trade_frame_def del: not_None_eq)
  moreover have "listings_ok s'"
    using O(5) fr acc unfolding listings_ok_def bound_frame_def by (simp add: trade_frame_def del: not_None_eq)
  moreover have "markets_ok sha s'" using O(2) fr markets_ok_same [of s' s sha] by (simp add: trade_frame_def)
  moreover have "orders_ok s'" using trading_okD(2) [OF sale_okD(1) [OF s']] .
  then have "net_issue s' = net_issue s + (money_supply s' - money_supply s)"
    using open_reserves_eq [OF O(8)] open_reserves_eq [of s'] fr
    by (simp add: net_issue_eq money_supply_def trade_frame_def)
  ultimately show ?thesis using s' by (simp add: service_step_def service_ok_def shop_ok_def)
qed

lemma logged_step:
  assumes ok: "service_ok sha s" and "logged s s'" and "trading_ok s'"
  shows "service_step sha (money_supply s' - money_supply s) s s'"
  using trade_frame_step [OF ok _ sale_ok_logged [OF service_okD(3) [OF ok] assms(2,3)]] assms(2)
  by (simp add: logged_def)

lemma money_only_step:
  assumes ok: "service_ok sha s" and m: "money_only s s'" "money_ok s'"
  shows "service_step sha (total_balance s' - total_balance s) s s'"
  using logged_step [OF ok logged_money_only [OF m(1)] money_only_trading [OF m service_okD(6) [OF ok]]]
    money_only_supply(1) [OF m(1)] by simp

lemma account_step:
  assumes "config_ok cfg" and ok: "service_ok sha s" and "ensureAccount cfg u n s = (r, s')"
  shows "service_step sha (grant cfg u s s') s s'"
proof -
  note E = ensureAccount_facts [OF assms(1) service_okD(7) [OF ok] assms(3)]
  from money_only_step [OF ok E(2,1)] E(3) show ?thesis by simp
qed

text \<open>A step of the market tables.\<close>

lemma market_frame_step:
  assumes ok: "service_ok sha s" and fr: "market_frame s s'" and mk: "markets_ok sha s'"
  shows "service_step sha 0 s s'"
proof -
  note O = service_okD [OF ok]
  have same: "accounts s' = accounts s" "orders s' = orders s" "trades s' = trades s" "deliveries s' = deliveries s"
    "claims s' = claims s" "escrows s' = escrows s" "transfers s' = transfers s" "listings s' = listings s"
    "frame_bindings s' = frame_bindings s" using fr by (simp_all add: market_frame_def)
  have acc: "account_of s' = account_of s" using same(1) by (simp add: account_of_def fun_eq_iff)
  have mks: "market_of s' i \<noteq> None" if "market_of s i \<noteq> None" for i
    using fr that unfolding market_frame_def by blast
  have "deliveries_ok s'" using O(9) mks unfolding deliveries_ok_def same by blast
  moreover have "escrows_ok s'" using O(10) mks unfolding escrows_ok_def escrow_refs_def same acc by blast
  moreover have "trades_ok s'" using sale_okD(2) [OF O(3)] by (simp add: trades_ok_def same)
  moreover have "transfers_ok s'" using O(4) by (simp add: transfers_ok_def same acc)
  moreover have "listings_ok s'" using O(5) by (simp add: listings_ok_def bound_frame_def same acc)
  moreover have "net_issue s' = net_issue s"
    using same by (simp add: net_issue_eq total_balance_def open_reserves_def)
  ultimately show ?thesis using market_frame_trading(1) [OF fr O(6)] mk
    by (simp add: service_step_def service_ok_def shop_ok_def sale_ok_def)
qed

text \<open>A step of deliveries, claims and escrows alone.\<close>

definition goods_only :: "db \<Rightarrow> db \<Rightarrow> bool" where
  "goods_only s s' \<longleftrightarrow> s' = s\<lparr>deliveries := deliveries s', claims := claims s', escrows := escrows s'\<rparr>"

lemma goods_step:
  assumes ok: "service_ok sha s" and g: "goods_only s s'" and "deliveries_ok s'" and "escrows_ok s'"
  shows "service_step sha 0 s s'"
proof -
  obtain ds cs es where s': "s' = s\<lparr>deliveries := ds, claims := cs, escrows := es\<rparr>"
    using g unfolding goods_only_def by blast
  note O = service_okD [OF ok]
  have "markets_ok sha s'" using O(2) markets_ok_same [of s' s sha] by (simp add: s')
  moreover have "trading_ok s'"
    using O(6) by (simp add: s' trading_ok_def orders_ok_def order_refs_def uncrossed_def)
  moreover have "trades_ok s'" using sale_okD(2) [OF O(3)] by (simp add: trades_ok_def s')
  moreover have "transfers_ok s'" "listings_ok s'"
    using O(4,5) by (simp_all add: s' transfers_ok_def listings_ok_def bound_frame_def)
  moreover have "net_issue s' = net_issue s" by (simp add: s' net_issue_eq total_balance_def open_reserves_def)
  ultimately show ?thesis using assms(3,4) by (simp add: service_step_def service_ok_def shop_ok_def sale_ok_def)
qed

lemma claims_step:
  assumes ok: "service_ok sha s" and s': "s' = s\<lparr>deliveries := ds, claims := cs\<rparr>" and "deliveries_ok s'"
  shows "service_step sha 0 s s'"
proof (rule goods_step [OF ok _ assms(3)])
  show "escrows_ok s'" using service_okD(10) [OF ok] by (simp add: escrows_ok_def escrow_refs_def s')
qed (simp add: goods_only_def s')

lemma escrow_step:
  assumes ok: "service_ok sha s" and "escrows_ok (with_escrow i g s)"
  shows "service_step sha 0 s (with_escrow i g s)"
proof (rule goods_step [OF ok _ _ assms(2)])
  show "deliveries_ok (with_escrow i g s)"
    using service_okD(9) [OF ok] by (simp add: deliveries_ok_def with_escrow_def)
qed (simp add: goods_only_def with_escrow_def)

section \<open>The operations\<close>

lemma grant_same [simp]: "grant cfg u s s = 0"
  by (simp add: grant_def del: not_None_eq)

lemma grant_later:
  assumes "trade_frame s1 s'" and "account_of s1 u \<noteq> None"
  shows "grant cfg u s s' = grant cfg u s s1"
  using trade_frame_refs(1) [OF assms] assms(2) by (simp add: grant_def)

lemma placeBuy_logged:
  assumes ok: "trading_ok s" and r: "request_ok r" and run: "placeBuy r s = (Inr res, s')"
  shows "logged s s'"
proof -
  have q: "0 < rq_quantity r" using r by (simp add: request_ok_def)
  from placeBuy_effect [OF trading_okD(1,2) [OF ok] q run] obtain b where
    b: "lockActiveBook (rq_market r) s = (Inr b, s)" and E: "bought r (buy_plan_of s b r) s s' res" by blast
  from bought_logged [OF trading_okD(2) [OF ok] r E] lockActiveBook_on_book [OF b] show ?thesis by simp
qed

lemma place_step:
  assumes cfg: "config_ok cfg" and ok: "service_ok sha s" and run: "placeOrder cfg r s = (q, s')"
  shows "service_step sha (grant cfg (rq_uuid r) s s') s s'"
proof (cases q)
  case (Inl e)
  from placeOrder_refused_state [OF run [unfolded Inl]] show ?thesis
    using account_step [OF cfg ok] service_step_refl [OF ok] by auto
next
  case (Inr res)
  let ?u = "rq_uuid r"
  obtain s1 where r: "request_ok r" and e: "ensureAccount cfg ?u (rq_name r) s = (Inr (), s1)"
    and ok1: "trading_ok s1" and acc: "account_of s1 ?u \<noteq> None"
    and pl: "if rq_side r = Buy then placeBuy r s1 = (Inr res, s') else placeSellLocked r s1 = (Inr res, s')"
    by (rule placeOrder_run [OF cfg service_okD(6) [OF ok] run [unfolded Inr]])
  have L: "logged s1 s'" "trading_ok s'" "money_supply s' = money_supply s1"
    using pl placeBuy_logged [OF ok1 r] placeSellLocked_logged [OF ok1 r] placeBuy_trading [OF ok1 r]
      placeSellLocked_trading [OF ok1 r] by (auto split: if_splits)
  note A = account_step [OF cfg ok e]
  then have "service_ok sha s1" by (simp add: service_step_def)
  from logged_step [OF this L(1,2)] L(3) have "service_step sha 0 s1 s'" by simp
  from service_step_trans [OF A this] grant_later [OF _ acc, of s' cfg s] L(1) show ?thesis by (simp add: logged_def)
qed

lemma cancel_step:
  assumes ok: "service_ok sha s" and run: "cancelOrder i u administrator s = (q, s')"
  shows "service_step sha 0 s s'"
proof (cases q)
  case (Inl e)
  with run cancelOrder_Inl service_step_refl [OF ok] show ?thesis by blast
next
  case (Inr z)
  note O = service_okD [OF ok]
  obtain x where x: "x \<in> set (orders s)" and C: "closed x ''ORDER_CANCELED'' s s'"
    by (rule cancelOrder_effect [OF O(7,8) run [unfolded Inr]])
  from logged_step [OF ok closed_logged [OF O(8) x C]] cancelOrder_trading [OF O(6) run [unfolded Inr]]
  show ?thesis by simp
qed

lemma close_all_logged:
  assumes "trading_ok s" and "set rows \<subseteq> set (orders s)" and "distinct (map o_id rows)"
    and "mapS (\<lambda>x. close_order x refund reason) rows s = (Inr u, s')"
  shows "logged s s'"
  using assms
proof (induction rows arbitrary: s)
  case Nil
  then show ?case by (simp add: returnS_Inr logged_def orders_extend_same)
next
  case (Cons x rows)
  from Cons.prems(4) obtain z s1 where c: "close_order x refund reason s = (Inr z, s1)"
    and rest: "mapS (\<lambda>x. close_order x refund reason) rows s1 = (Inr u, s')"
    by (auto simp: bindS_Inr)
  note T = trading_okD [OF Cons.prems(1)]
  have x: "x \<in> set (orders s)" using Cons.prems(2) by simp
  have C: "closed x reason s s1" by (rule close_order_effect [OF T(1) orders_okD(2) [OF T(2) x] c])
  have one: "mapS (\<lambda>x. close_order x refund reason) [x] s = (Inr (), s1)" using c by (simp add: bindS_Inr returnS_Inr)
  from close_all_effect [OF Cons.prems(1) _ _ one] x have ok1: "trading_ok s1"
    and os1: "orders s1 = closes [o_id x] (orders s)" by simp_all
  have "set rows \<subseteq> set (orders s1)"
  proof
    fix y assume y: "y \<in> set rows"
    then have "o_id y \<noteq> o_id x" "y \<in> set (orders s)" using Cons.prems(2,3) by (auto simp: image_iff)
    then show "y \<in> set (orders s1)" by (force simp: os1 closes_def)
  qed
  from Cons.IH [OF ok1 this _ rest] Cons.prems(3) logged_trans [OF closed_logged [OF T(2) x C]] show ?case by simp
qed

lemma close_market_step:
  assumes ok: "service_ok sha s" and run: "closeMarket i s = (q, s')"
  shows "service_step sha 0 s s'"
proof (cases q)
  case (Inl e)
  with run have "s' = s" by (simp add: closeMarket_def transactionS_Inl)
  with service_step_refl [OF ok] show ?thesis by simp
next
  case (Inr z)
  note O = service_okD [OF ok]
  obtain m where m: "market_of s i = Some m" and s': "s' = (if mk_active m then deactivated m True s else s)"
    by (rule closeMarket_Inr [OF O(2) run [unfolded Inr]])
  show ?thesis
  proof (cases "mk_active m")
    case True
    with deactivated_ok(1,2) [OF O(2) conjunct1 [OF market_of_Some [OF m]], of True] s' show ?thesis
      using market_frame_step [OF ok] by simp
  qed (use s' service_step_refl [OF ok] in simp)
qed

lemma retire_step:
  assumes ok: "service_ok sha s" and run: "retireMarket i s = (q, s')"
  shows "service_step sha 0 s s'"
proof (cases q)
  case (Inl e)
  with run have "s' = s" by (simp add: retireMarket_def transactionS_Inl)
  with service_step_refl [OF ok] show ?thesis by simp
next
  case (Inr z)
  note O = service_okD [OF ok]
  let ?rows = "filter (\<lambda>x. o_market x = i \<and> resting x) (orders s)"
  obtain m rows s1 where m: "market_of s i = Some m" and rows: "rows = ?rows"
    and c: "mapS (\<lambda>x. close_order x ''MARKET_CLOSE_REFUND'' ''MARKET_CLOSED'') rows s = (Inr (), s1)"
    and s': "s' = deactivated m False s1" by (rule retireMarket_Inr [OF run [unfolded Inr]])
  have d: "set rows \<subseteq> set (orders s)" "distinct (map o_id rows)"
    using orders_okD(1) [OF O(8)] by (auto simp: rows distinct_map inj_on_def)
  note E = close_all_effect [OF O(6) d c]
  have S: "service_step sha 0 s s1"
    using logged_step [OF ok close_all_logged [OF O(6) d c]] E by simp
  then have ok1: "service_ok sha s1" by (simp add: service_step_def)
  have "m \<in> set (markets s1)" using market_of_Some [OF m] E by (simp add: trade_frame_def)
  from market_frame_step [OF ok1 deactivated_ok(2,1) [OF service_okD(2) [OF ok1] this, of False]]
  have "service_step sha 0 s1 s'" by (simp add: s')
  from service_step_trans [OF S this] show ?thesis by simp
qed

lemma activate_step:
  assumes ok: "service_ok sha s" and run: "activateMarket sha m s = (q, s')"
  shows "service_step sha 0 s s'"
proof -
  note O = service_okD [OF ok]
  have A: "service_step sha 0 s s1" if b: "activate_body sha m s = (Inr i, s1)" for i s1
  proof -
    from activate_body_effect [OF markets_okD(2) [OF O(2)] b] have act: "activated m i s s1" "books_ok sha s1" by simp_all
    from market_frame_step [OF ok activated_effect(2,1) [OF O(2) act]] show ?thesis .
  qed
  from run have "s' = s \<or> (\<exists>i. activate_body sha m s = (Inr i, s'))"
    by (auto simp: activateMarket_def svc_evals findMarket_def split: if_splits option.splits sum.splits prod.splits)
  with A service_step_refl [OF ok] show ?thesis by blast
qed

lemma prepare_claim_step:
  assumes ok: "service_ok sha s" and run: "prepareDeliveryClaim i u n s = (q, s')"
  shows "service_step sha 0 s s'"
proof (cases q)
  case (Inl e)
  with run prepareDeliveryClaim_Inl service_step_refl [OF ok] show ?thesis by blast
next
  case (Inr c)
  note O = service_okD [OF ok]
  have cl: "claimable s i u n" by (rule prepareDeliveryClaim_Inr [OF run [unfolded Inr]])
  then obtain d where d: "delivery_of s i = Some d" "d_player d = u" "0 < n" "0 < unreserved d"
    by (auto simp: claimable_def split: option.splits)
  have s': "s' = prepared_state i u (min n (unreserved d)) s"
    using prepareDeliveryClaim_eq [OF O(9), of i u n] run d(1) cl by simp
  have "deliveries_ok s'" unfolding s' by (rule prepared_state_ok(1) [OF O(9) d(1,2)]) (use d in auto)
  from claims_step [OF ok _ this, of "claims s'" "deliveries s'"] show ?thesis by (simp add: s' prepared_state_def)
qed

lemma complete_claim_step:
  assumes ok: "service_ok sha s" and run: "completeDeliveryClaim i n s = (q, s')"
  shows "service_step sha 0 s s'"
proof (cases "claim_of s i")
  case None
  with run completeDeliveryClaim_missing [OF None] service_step_refl [OF ok] show ?thesis by simp
next
  case (Some c)
  note O = service_okD [OF ok] and C = claim_of_Some [OF Some]
  show ?thesis
  proof (cases "c_status c = ClaimPrepared \<and> 0 \<le> n \<and> n \<le> c_quantity c")
    case True
    then have s': "s' = completed_state c n s" using completeDeliveryClaim_prepared [OF O(9) Some] run by simp
    obtain d where "delivery_of s (c_delivery c) = Some d"
      using prepared_claim_facts [OF O(9) conjunct1 [OF C]] True by blast
    from completed_state_ok(1) [OF O(9) conjunct1 [OF C] _ _ _ this] True have "deliveries_ok s'" by (simp add: s')
    from claims_step [OF ok _ this, of "claims s'" "deliveries s'"] show ?thesis by (simp add: s' completed_state_def)
  next
    case False
    then have "s' = s"
      using completeDeliveryClaim_prepared [OF O(9) Some, of n] completeDeliveryClaim_done [OF Some, of n] run
      by (cases "c_status c = ClaimPrepared") (auto split: if_splits)
    with service_step_refl [OF ok] show ?thesis by simp
  qed
qed

lemma clean_claim_step:
  assumes ok: "service_ok sha s" and run: "markDeliveryClaimCleaned i s = (q, s')"
  shows "service_step sha 0 s s'"
proof -
  note O = service_okD [OF ok]
  have "service_step sha 0 s (s\<lparr>claims := upd_where (\<lambda>x. c_id x = i) clean_claim (claims s)\<rparr>)"
    if "claim_of s i = Some c" "c_status c = ClaimApplied" for c
    by (rule claims_step [OF ok _ cleaned_ok [OF O(9) that], where ds = "deliveries s"]) simp
  with markDeliveryClaimCleaned_eq [OF O(9), of i] run service_step_refl [OF ok] show ?thesis
    by (auto split: option.splits if_splits)
qed

lemma prepare_sale_step:
  assumes cfg: "config_ok cfg" and ok: "service_ok sha s" and run: "prepareSellEscrow cfg r s = (q, s')"
  shows "service_step sha (grant cfg (rq_uuid r) s s') s s'"
proof (cases q)
  case (Inl e)
  have "s' = s \<or> (\<exists>r1. ensureAccount cfg (rq_uuid r) (rq_name r) s = (r1, s'))"
    using run [unfolded Inl]
    by (cases "validateRequest cfg r")
      (auto simp: prepareSellEscrow_def bindS_def liftS_def throwIf_def throwS_def returnS_def transactionS_Inl
        split: if_splits sum.splits prod.splits)
  with account_step [OF cfg ok] service_step_refl [OF ok] show ?thesis by auto
next
  case (Inr x)
  note O = service_okD [OF ok]
  from prepareSellEscrow_Inr [OF cfg O(7)] run Inr have v: "validateRequest cfg r = Inr ()"
    and mk: "market_of s (rq_market r) \<noteq> None" and p: "prepared_sale cfg r s x s'" by auto
  from p obtain s1 where e: "ensureAccount cfg (rq_uuid r) (rq_name r) s = (Inr (), s1)"
    and s': "s' = s1\<lparr>escrows := escrows s1 @ [new_escrow (fresh_id e_id (escrows s1)) r]\<rparr>"
    by (auto simp: prepared_sale_def)
  have "sale_ok s'" by (rule prepared_sale_facts(1) [OF cfg O(3) v mk p])
  then have "service_step sha 0 s1 s'"
    using goods_step [of sha s1 s'] account_step [OF cfg ok e] sale_okD(3,4) [of s']
    by (simp add: goods_only_def service_step_def s')
  from service_step_trans [OF account_step [OF cfg ok e] this] grant_cong [of s1 "rq_uuid r" s' cfg s]
  show ?thesis by (simp add: s' account_of_def)
qed

lemma tag_sale_step:
  assumes ok: "service_ok sha s" and t: "t \<le> int32_max" and run: "markSellEscrowTagged i t n s = (q, s')"
  shows "service_step sha 0 s s'"
proof (cases "escrow_of s i")
  case None
  with run have "s' = s" by (auto simp: markSellEscrowTagged_def svc_evals split: if_splits)
  with service_step_refl [OF ok] show ?thesis by simp
next
  case (Some e)
  note O = service_okD [OF ok]
  from markSellEscrowTagged_eq [OF O(10) Some, of t n] escrow_step [OF ok tagged_ok [OF O(10) Some _ t]] run
    service_step_refl [OF ok] show ?thesis by (auto split: if_splits)
qed

lemma cancel_sale_step:
  assumes ok: "service_ok sha s" and run: "cancelSellEscrow i s = (q, s')"
  shows "service_step sha 0 s s'"
proof (cases "escrow_of s i")
  case None
  with run have "s' = s" by (auto simp: cancelSellEscrow_def svc_evals)
  with service_step_refl [OF ok] show ?thesis by simp
next
  case (Some e)
  note O = service_okD [OF ok]
  from cancelSellEscrow_eq [OF Some] escrow_step [OF ok canceled_ok [OF O(10) Some]] run
    service_step_refl [OF ok] show ?thesis by (auto split: if_splits)
qed

lemma clean_sale_step:
  assumes ok: "service_ok sha s" and run: "markSellEscrowCleaned i s = (q, s')"
  shows "service_step sha 0 s s'"
proof (cases "escrow_of s i")
  case None
  with run upd_where_key_missing [OF None [unfolded escrow_of_def], where Q = "\<lambda>e. e_status e = EscrowOrdered"]
  have "s' = s" by (simp add: markSellEscrowCleaned_def svc_evals)
  with service_step_refl [OF ok] show ?thesis by simp
next
  case (Some e)
  note O = service_okD [OF ok]
  from markSellEscrowCleaned_eq [OF O(10) Some] escrow_step [OF ok cleaned_escrow_ok [OF O(10) Some]] run
    service_step_refl [OF ok] show ?thesis by (auto split: if_splits)
qed

lemma execute_sale_step:
  assumes ok: "service_ok sha s" and run: "executeSellEscrow i s = (q, s')"
  shows "service_step sha 0 s s'"
proof (cases "\<exists>res e. q = Inr res \<and> escrow_of s i = Some e \<and> e_status e = EscrowTagged")
  case False
  have "s' = s"
  proof (cases q)
    case (Inl err)
    with run show ?thesis by (simp add: executeSellEscrow_def transactionS_Inl)
  next
    case (Inr res)
    with run False show ?thesis
      by (auto simp: executeSellEscrow_def replay_order_def svc_simps split: if_splits option.splits)
  qed
  with service_step_refl [OF ok] show ?thesis by simp
next
  case True
  then obtain res e where run': "executeSellEscrow i s = (Inr res, s')" and e: "escrow_of s i = Some e"
    "e_status e = EscrowTagged" using run by blast
  note O = service_okD [OF ok]
  note T = escrow_tagged_facts [OF O(10) e]
  let ?r = "escrow_request e"
  from executeSellEscrow_tagged [OF e run'] obtain s1 s2 where p: "placeSellLocked ?r s = (Inr res, s1)"
    and a: "addDelivery (e_player e) (e_market e) (e_tagged e - e_requested e) ''ESCROW_EXCESS'' s1 = (Inr (), s2)"
    and s': "s' = s2\<lparr>escrows := upd_where (\<lambda>x. e_id x = i) (set_ordered (ex_order res)) (escrows s2)\<rparr>" .
  note L = placeSellLocked_logged [OF O(6) T(1) p] and P = placeSellLocked_trading [OF O(6) T(1) p]
  have mk1: "market_of s1 (e_market e) \<noteq> None"
    using T(7) trade_frame_refs(2) [of s s1] L by (simp add: escrow_refs_def logged_def)
  have "0 < e_requested e" using T(1) by (simp add: request_ok_def escrow_request_def)
  then have "e_tagged e - e_requested e \<le> int32_max" using T(3) by simp
  note A = addDelivery_logged [OF a mk1 this]
  have S: "service_step sha 0 s s2"
    using logged_step [OF ok logged_trans [OF L A(1)] A(2) [OF P(1)]] A(3) P(2) by simp
  moreover have "sale_ok s'" by (rule executed_escrow(1) [OF O(3) e run'])
  then have "service_step sha 0 s2 s'"
    using goods_step [of sha s2 s'] S sale_okD(3,4) [of s'] by (simp add: service_step_def goods_only_def s')
  ultimately show ?thesis using service_step_trans by fastforce
qed

section \<open>What transfers and frame listings leave alone\<close>

text \<open>The market tables, the accounts' keys and, unless listings are at stake, the listings.\<close>

definition off_market :: "bool \<Rightarrow> db \<Rightarrow> db \<Rightarrow> bool" where
  "off_market frames s0 s \<longleftrightarrow> books s = books s0 \<and> markets s = markets s0 \<and> bindings s = bindings s0 \<and>
    (frames \<longrightarrow> listings s = listings s0 \<and> frame_bindings s = frame_bindings s0) \<and>
    a_uuid ` set (accounts s0) \<subseteq> a_uuid ` set (accounts s)"

lemma off_market_refl [simp]: "off_market frames s s"
  by (simp add: off_market_def)

lemma keeps_option:
  "keeps I m \<Longrightarrow> (\<And>x. keeps I (f x)) \<Longrightarrow> keeps I (case z of None \<Rightarrow> m | Some x \<Rightarrow> f x)"
  by (cases z) simp_all

lemma keeps_if: "keeps I m \<Longrightarrow> keeps I m' \<Longrightarrow> keeps I (if b then m else m')"
  by simp

lemma keeps_whenS: "keeps I m \<Longrightarrow> keeps I (whenS b m)"
  by (simp add: whenS_def keeps_returnS)

lemma keeps_ignore: "keeps I m \<Longrightarrow> keeps I (ignore m)"
  unfolding ignore_def by (intro keeps_bindS keeps_returnS)

lemma keeps_write:
  "(\<And>s. I s \<Longrightarrow> I (g s)) \<Longrightarrow> keeps I (executeS g)"
  "(\<And>s. I s \<Longrightarrow> I (g s)) \<Longrightarrow> keeps I (executeIfS ok e g)"
  "(\<And>s. I s \<Longrightarrow> I (g s)) \<Longrightarrow> keeps I (updateS ok e cnt g)"
  by (simp_all add: keeps_def executeS_def executeIfS_def updateS_def)

lemma keeps_tx: "keeps I m \<Longrightarrow> keeps I (transactionS m)"
  by (rule keeps_transactionS) (auto dest: keepsD)

lemmas keeps_walk = keeps_intros keeps_tx keeps_option keeps_if keeps_whenS keeps_ignore

lemma uuid_upd:
  "(\<And>a. a_uuid (g a) = a_uuid a) \<Longrightarrow> a_uuid ` set (upd_where P g as) = a_uuid ` set as"
  by (auto simp: in_upd_where image_iff) (metis in_upd_where)+

lemma off_market_writes:
  assumes "off_market frames s0 s"
  shows "off_market frames s0 (s\<lparr>ledger := l\<rparr>)" "off_market frames s0 (s\<lparr>transfers := ts\<rparr>)"
    "off_market False s0 (s\<lparr>listings := ls\<rparr>)" "off_market False s0 (s\<lparr>frame_bindings := bs\<rparr>)"
    "off_market frames s0 (s\<lparr>accounts := upd_where P (add_to_balance now d) (accounts s)\<rparr>)"
    "off_market frames s0 (s\<lparr>accounts := upd_where P (rename_account now n) (accounts s)\<rparr>)"
    "off_market frames s0 (s\<lparr>accounts := accounts s @ more_accounts\<rparr>)"
  using assms by (auto simp: off_market_def uuid_upd add_to_balance_def rename_account_def)

lemma keeps_accounts:
  "keeps (off_market frames s0) (recordBalanceChange u d reason t i)"
  "keeps (off_market frames s0) (lockedBalance u)"
  "keeps (off_market frames s0) (credit u d reason t i)"
  "keeps (off_market frames s0) (debit u d reason t i)"
  "keeps (off_market frames s0) (ensureAccount cfg u n)"
proof -
  show r: "keeps (off_market frames s0) (recordBalanceChange u d reason t i)" for d reason t i
    unfolding recordBalanceChange_def by (intro keeps_walk keeps_write off_market_writes)
  show "keeps (off_market frames s0) (lockedBalance u)"
    unfolding lockedBalance_def by (intro keeps_walk)
  show "keeps (off_market frames s0) (credit u d reason t i)" "keeps (off_market frames s0) (debit u d reason t i)"
    unfolding credit_def debit_def by (intro keeps_walk keeps_write off_market_writes r; assumption)+
  show "keeps (off_market frames s0) (ensureAccount cfg u n)"
    unfolding ensureAccount_def
    by (intro keeps_walk keeps_write r) (auto intro: off_market_writes)
qed

lemma keeps_transfer: "keeps (off_market True s0) (run_transfer cfg op)"
  by (cases op)
    (simp_all only: run_transfer.simps prepareEconomyTransfer_def reserveTransfer_def findEconomyTransfer_def
      recordEconomyTransferAttempt_def markEconomyTransferExternalApplied_def completeEconomyTransfer_def
      failEconomyTransfer_def blockEconomyTransfer_def updateTransfer_def,
     (intro keeps_walk keeps_write keeps_accounts off_market_writes; assumption)+)

lemma keeps_listing: "keeps (off_market False s0) (run_listing cfg op)"
  by (cases op)
    (simp_all only: run_listing.simps upsertFrameListing_def replaceListing_def bindFrame_def cancelFrameListing_def
      purchaseFrameListing_def markFrameListingDropped_def completeFrameListingPickup_def updateListing_def
      unbindListing_def,
     (intro keeps_walk keeps_write keeps_accounts off_market_writes; assumption)+)

lemma transfer_step:
  assumes cfg: "config_ok cfg" and ok: "service_ok sha s" and run: "run_transfer cfg op s = (q, s')"
  shows "service_step sha (op_grant cfg op s s') s s'"
proof -
  note O = service_okD [OF ok]
  have T: "step_ok (op_grant cfg op s s') s s'" by (rule run_transfer_step [OF cfg O(3,4) run])
  have F: "off_market True s s'" by (rule keepsD [OF keeps_transfer off_market_refl run])
  have acc: "account_of s' u \<noteq> None" if "account_of s u \<noteq> None" for u
    using F that account_exists_iff [of s u] account_exists_iff [of s' u] by (auto simp: off_market_def)
  have "listings_ok s'" using O(5) F acc unfolding listings_ok_def bound_frame_def
    by (simp add: off_market_def del: not_None_eq)
  moreover have "markets_ok sha s'" using O(2) F markets_ok_same [of s' s sha] by (simp add: off_market_def)
  ultimately show ?thesis using T by (simp add: step_ok_def service_step_def service_ok_def shop_ok_def)
qed

lemma listing_op_step:
  assumes cfg: "config_ok cfg" and ok: "service_ok sha s" and run: "run_listing cfg op s = (q, s')"
  shows "service_step sha (listing_grant cfg op s s') s s'"
proof -
  have "off_market False s s'" by (rule keepsD [OF keeps_listing off_market_refl run])
  with run_listing_step [OF cfg service_okD(1) [OF ok] run] service_okD(2) [OF ok] markets_ok_same [of s' s sha]
  show ?thesis by (simp add: listing_step_def service_step_def service_ok_def off_market_def)
qed

lemma adjust_step:
  assumes cfg: "config_ok cfg" and ok: "service_ok sha s" and run: "addBalance cfg u n delta s = (q, s')"
  shows "service_step sha (grant cfg u s s' + (if isl q then 0 else delta)) s s'"
proof -
  obtain r1 s1 where e: "ensureAccount cfg u n s = (r1, s1)" by (rule prod.exhaust)
  note E = ensureAccount_facts [OF cfg service_okD(7) [OF ok] e] and A = account_step [OF cfg ok e]
  show ?thesis
  proof (cases q)
    case (Inl err)
    from run [unfolded Inl] e have "s' = s1"
      by (cases r1) (auto simp: addBalance_def bindS_def transactionS_Inl)
    with A Inl show ?thesis by simp
  next
    case (Inr b)
    from run [unfolded Inr] e obtain b' where "bindS (lockedBalance u) (\<lambda>current.
      bindS (throwIf (delta < - current) (Runtime_Error ''balance cannot become negative'')) (\<lambda>_.
      bindS (throwIf (delta > 0 \<and> current > int64_max - delta)
        (Runtime_Error ''balance is too large'')) (\<lambda>_.
      bindS (executeS (\<lambda>s. s\<lparr>accounts :=
        upd_where (\<lambda>a. a_uuid a = u) (add_to_balance (db_now s) delta) (accounts s)\<rparr>)) (\<lambda>_.
      bindS (recordBalanceChange u delta ''ADMIN_ADJUSTMENT'' [] None) (\<lambda>_.
      returnS (current + delta)))))) s1 = (Inr b', s')" and r1: "r1 = Inr ()"
      by (auto simp: addBalance_def bindS_Inr transactionS_Inr)
    note B = addBalance_body_Inr [OF E(1) this(1)]
    have acc: "account_of s1 u \<noteq> None" by (rule ensureAccount_effect(3) [OF cfg service_okD(7) [OF ok] e r1])
    from A have "service_ok sha s1" by (simp add: service_step_def)
    from service_step_trans [OF A money_only_step [OF this B(2,1)]] B(7) Inr
      grant_later [OF money_only_trade_frame [OF B(2)] acc, of cfg s] show ?thesis by simp
  qed
qed

section \<open>The system\<close>

datatype service_op =
    Open_Account string string
  | Adjust string string Cents
  | Place OrderRequest
  | Cancel_Order Id string bool
  | Activate Domain.Market
  | Close_Market Id
  | Retire Id
  | Prepare_Claim Id string int
  | Complete_Claim Id int
  | Clean_Claim Id
  | Prepare_Sale OrderRequest
  | Tag_Sale Id int int
  | Execute_Sale Id
  | Cancel_Sale Id
  | Clean_Sale Id
  | Transfer transfer_op
  | Listing listing_op

fun run_service :: "service_config \<Rightarrow> (string \<Rightarrow> string) \<Rightarrow> service_op \<Rightarrow> unit dbm" where
  "run_service cfg sha (Open_Account u n) = ensureAccount cfg u n"
| "run_service cfg sha (Adjust u n delta) = ignore (addBalance cfg u n delta)"
| "run_service cfg sha (Place r) = ignore (placeOrder cfg r)"
| "run_service cfg sha (Cancel_Order i u administrator) = ignore (cancelOrder i u administrator)"
| "run_service cfg sha (Activate m) = ignore (activateMarket sha m)"
| "run_service cfg sha (Close_Market i) = closeMarket i"
| "run_service cfg sha (Retire i) = retireMarket i"
| "run_service cfg sha (Prepare_Claim i u n) = ignore (prepareDeliveryClaim i u n)"
| "run_service cfg sha (Complete_Claim i n) = completeDeliveryClaim i n"
| "run_service cfg sha (Clean_Claim i) = markDeliveryClaimCleaned i"
| "run_service cfg sha (Prepare_Sale r) = ignore (prepareSellEscrow cfg r)"
| "run_service cfg sha (Tag_Sale i t n) = markSellEscrowTagged i t n"
| "run_service cfg sha (Execute_Sale i) = ignore (executeSellEscrow i)"
| "run_service cfg sha (Cancel_Sale i) = cancelSellEscrow i"
| "run_service cfg sha (Clean_Sale i) = markSellEscrowCleaned i"
| "run_service cfg sha (Transfer op) = run_transfer cfg op"
| "run_service cfg sha (Listing op) = run_listing cfg op"

text \<open>The money a call brings into the exchange: the opening balance of an account it creates, and
  what an administrator adds. The quantity of a tag is an \<open>int\<close>.\<close>

fun issued :: "service_config \<Rightarrow> service_op \<Rightarrow> unit result \<Rightarrow> db \<Rightarrow> db \<Rightarrow> Cents" where
  "issued cfg (Open_Account u n) q s s' = grant cfg u s s'"
| "issued cfg (Adjust u n delta) q s s' = grant cfg u s s' + (if isl q then 0 else delta)"
| "issued cfg (Place r) q s s' = grant cfg (rq_uuid r) s s'"
| "issued cfg (Prepare_Sale r) q s s' = grant cfg (rq_uuid r) s s'"
| "issued cfg (Transfer op) q s s' = op_grant cfg op s s'"
| "issued cfg (Listing op) q s s' = listing_grant cfg op s s'"
| "issued cfg op q s s' = 0"

fun call_typed :: "service_op \<Rightarrow> bool" where
  "call_typed (Tag_Sale i t n) = (t \<le> int32_max)"
| "call_typed op = True"

text \<open>The states that calls can reach from the empty database, with the money issued on the way; time
  passes between calls.\<close>

inductive reachable :: "service_config \<Rightarrow> (string \<Rightarrow> string) \<Rightarrow> db \<Rightarrow> Cents \<Rightarrow> bool"
  for cfg :: service_config and sha :: "string \<Rightarrow> string" where
  fresh: "reachable cfg sha empty_db 0"
| call: "reachable cfg sha s g \<Longrightarrow> call_typed op \<Longrightarrow> run_service cfg sha op s = (q, s') \<Longrightarrow>
    reachable cfg sha s' (g + issued cfg op q s s')"
| tick: "reachable cfg sha s g \<Longrightarrow> db_now s \<le> now \<Longrightarrow> reachable cfg sha (s\<lparr>db_now := now\<rparr>) g"

lemma ignore_isl: "ignore m s = (r, s') \<longleftrightarrow> (\<exists>q. m s = (q, s') \<and> isl q = isl r \<and> r = map_sum id (\<lambda>_. ()) q)"
  unfolding ignore_state by (metis (no_types, lifting) isl_map_sum)

lemma run_service_step:
  assumes cfg: "config_ok cfg" and ok: "service_ok sha s" and ty: "call_typed op"
    and run: "run_service cfg sha op s = (q, s')"
  shows "service_step sha (issued cfg op q s s') s s'"
proof (cases op)
  case (Adjust u n delta)
  with run obtain r where "addBalance cfg u n delta s = (r, s')" "isl r = isl q" by (auto simp: ignore_isl)
  from adjust_step [OF cfg ok this(1)] this(2) Adjust show ?thesis by simp
qed (use run ty in \<open>auto simp: ignore_isl intro: account_step [OF cfg ok] place_step [OF cfg ok] cancel_step [OF ok]
    activate_step [OF ok] close_market_step [OF ok] retire_step [OF ok] prepare_claim_step [OF ok]
    complete_claim_step [OF ok] clean_claim_step [OF ok] prepare_sale_step [OF cfg ok] tag_sale_step [OF ok]
    execute_sale_step [OF ok] cancel_sale_step [OF ok] clean_sale_step [OF ok] transfer_step [OF cfg ok]
    listing_op_step [OF cfg ok]\<close>)

lemma empty_service_ok: "service_ok sha empty_db"
  by (simp add: service_ok_def shop_ok_def sale_ok_def trading_ok_def money_ok_def accounts_ok_def ledger_ok_def
      ledger_sum_def balance_of_def account_of_def orders_ok_def uncrossed_def trades_ok_def deliveries_ok_def
      escrows_ok_def escrow_unique_def transfers_ok_def listings_ok_def markets_ok_def books_ok_def bindings_ok_def
      live_unique_def empty_db_def)

lemma now_tables [simp]:
  "market_of (s\<lparr>db_now := now\<rparr>) = market_of s" "on_book (s\<lparr>db_now := now\<rparr>) = on_book s"
  "account_of (s\<lparr>db_now := now\<rparr>) = account_of s"
  by (simp_all add: market_of_def account_of_def on_book_def book_id_of_def fun_eq_iff)

lemma now_step: "service_ok sha s \<Longrightarrow> service_step sha 0 s (s\<lparr>db_now := now\<rparr>)"
  unfolding service_step_def service_ok_def shop_ok_def sale_ok_def trading_ok_def money_ok_def
  by (simp add: accounts_ok_def ledger_ok_def ledger_sum_def balance_of_def orders_ok_def
      order_refs_def uncrossed_def trades_ok_def deliveries_ok_def escrows_ok_def escrow_refs_def transfers_ok_def
      listings_ok_def bound_frame_def markets_ok_same [of "s\<lparr>db_now := now\<rparr>" s] net_issue_eq total_balance_def
      open_reserves_def)

lemma reachable_service:
  assumes "config_ok cfg" and "reachable cfg sha s g"
  shows "service_ok sha s" "net_issue s = g"
  using assms(2)
proof (induction rule: reachable.induct)
  case fresh
  case 1 show ?case by (rule empty_service_ok)
  case 2 show ?case by (simp add: net_issue_eq total_balance_def open_reserves_def empty_db_def)
next
  case (call s g op q s')
  case 1 show ?case using run_service_step [OF assms(1) call.IH(1) call.hyps(2,3)] by (simp add: service_step_def)
  case 2 show ?case using run_service_step [OF assms(1) call.IH(1) call.hyps(2,3)] call.IH(2)
    by (simp add: service_step_def)
next
  case (tick s g now)
  case 1 show ?case using now_step [OF tick.IH(1)] by (simp add: service_step_def)
  case 2 show ?case using now_step [OF tick.IH(1)] tick.IH(2) by (simp add: service_step_def)
qed

section \<open>Properties\<close>

text \<open>
  C4: Whatever sequence of calls the plugin makes, in whatever order, whether they succeed or throw, the
  service stays consistent: ledger sums equal balances, no book is crossed, orders, trades, deliveries
  and claims account for one another, every escrow, transfer and listing is in a legal state with its
  references intact, and the markets, bindings and books agree. The value in the exchange, counted as
  \<open>economyBackingDeficit\<close> counts it plus the deposits in flight, is exactly what opening balances and
  administrators have issued.
\<close>

theorem service_invariant:
  assumes "config_ok cfg" and "reachable cfg sha s g"
  shows "service_ok sha s \<and> backing_deficit s + in_flight s = g \<and> 0 \<le> balance_of s u \<and> balance_of s u \<le> int64_max"
proof -
  note R = reachable_service [OF assms]
  from balance_of_range [OF money_ok_accounts_ok [OF service_okD(7) [OF R(1)]], of u] R show ?thesis
    by (simp add: net_issue_def)
qed

definition demo_opened_account :: db where
  "demo_opened_account = snd (run_service demo_cfg demo_sha (Open_Account ''bob'' ''bob'') empty_db)"

definition demo_leaving :: db where
  "demo_leaving = snd (run_service demo_cfg demo_sha
     (Transfer (Prepare ''k'' ''bob'' ''bob'' Withdraw 300 3 (Some 5))) demo_opened_account)"

lemma demo_leaving_reachable: "reachable demo_cfg demo_sha demo_leaving 1000"
proof -
  let ?op = "Open_Account ''bob'' ''bob''" and ?op' = "Transfer (Prepare ''k'' ''bob'' ''bob'' Withdraw 300 3 (Some 5))"
  have i: "issued demo_cfg ?op q empty_db demo_opened_account = 1000" for q by code_simp
  have i': "issued demo_cfg ?op' q demo_opened_account demo_leaving = 0" for q by code_simp
  have "reachable demo_cfg demo_sha demo_opened_account 1000"
    using reachable.call [OF reachable.fresh, of ?op demo_cfg demo_sha _ demo_opened_account] i
    by (auto simp: demo_opened_account_def intro: prod.collapse [symmetric])
  then show ?thesis
    using reachable.call [of demo_cfg demo_sha demo_opened_account 1000 ?op' _ demo_leaving] i'
    by (auto simp: demo_leaving_def intro: prod.collapse [symmetric])
qed

theorem service_invariant_witness:
  "service_ok demo_sha demo_leaving \<and> backing_deficit demo_leaving + in_flight demo_leaving = 1000 \<and>
    balance_of demo_leaving ''bob'' = 700"
proof -
  have "balance_of demo_leaving ''bob'' = 700" by code_simp
  with service_invariant [OF demo_cfg_ok demo_leaving_reachable, of "''bob''"] show ?thesis by simp
qed

end
