(* ===== verification/Plugin_Helpers.thy ===== *)
theory Plugin_Helpers
  imports Inventory_Escrow Hologram
begin

text \<open>
  The small functions src/plugin.cpp is built on: names and keys of blocks, actors, chunks and markers,
  the recognition of the plugin's own items, and the prototype of the item a block or an actor stands
  for. Blocks, actors and items are seen as the values the host's getters return.
\<close>

section \<open>Names\<close>

definition TargetTagPrefix :: string where "TargetTagPrefix = ''exchange_target_''"
definition HologramTagPrefix :: string where "HologramTagPrefix = ''exchange_hologram_''"
definition FrameSaleDropTagPrefix :: string where "FrameSaleDropTagPrefix = ''exchange_frame_sale_''"
definition PriceStickName :: string where "PriceStickName = ''price''"

definition isItemFrameBlock :: "string \<Rightarrow> bool" where
  "isItemFrameBlock block_type \<longleftrightarrow> block_type = ''minecraft:frame'' \<or> block_type = ''minecraft:glow_frame'' \<or>
    block_type = ''minecraft:item_frame'' \<or> block_type = ''minecraft:glow_item_frame''"

definition lower :: "string \<Rightarrow> string" where
  "lower v = map to_lower v"

text \<open>The loop looks at bytes: \<open>C2 A7\<close> is the section sign in UTF-8, a lone \<open>A7\<close> the one of Latin-1.\<close>

fun strip_codes :: "string \<Rightarrow> string" where
  "strip_codes [] = []"
| "strip_codes [a] = [a]"
| "strip_codes [a, b] = (if char_code a = 0xA7 then [] else a # strip_codes [b])"
| "strip_codes (a # b # c # cs) =
    (if char_code a = 0xC2 \<and> char_code b = 0xA7 then strip_codes cs
     else if char_code a = 0xA7 then strip_codes (c # cs)
     else a # strip_codes (b # c # cs))"

definition stripFormatting :: "string \<Rightarrow> string" where
  "stripFormatting v = trim (strip_codes v)"

text \<open>\<open>shown\<close> is the display name of an item's metadata, where it has one.\<close>

definition friendlyItemName :: "(ItemStack \<Rightarrow> string option) \<Rightarrow> ItemStack \<Rightarrow> string" where
  "friendlyItemName shown item =
    (let name = (case shown item of None \<Rightarrow> [] | Some t \<Rightarrow> stripFormatting t);
       id = is_type item;
       bare = (if CHR '':'' \<in> set id then tl (dropWhile (\<lambda>c. c \<noteq> CHR '':'') id) else id) in
     if name \<noteq> [] then name else map (\<lambda>c. if c = CHR ''_'' then CHR '' '' else c) bare)"

section \<open>What a player is told\<close>

definition frameSaleUserError :: "catalogue \<Rightarrow> Language \<Rightarrow> error \<Rightarrow> Cents \<Rightarrow> string result" where
  "frameSaleUserError table language err price_cents =
    (let message = what err in
     case err of User_Error t \<Rightarrow> Inr t
     | _ \<Rightarrow>
       if message = ''insufficient exchange balance''
       then tr table language FrameSaleInsufficient [formatCurrency price_cents]
       else if message = ''frame listing price changed'' then Inr (messageText table language FrameSaleChanged)
       else if message = ''frame listing is no longer available'' \<or> message = ''frame listing is no longer bound'' \<or>
         message = ''frame listing does not exist''
       then Inr (messageText table language FrameSaleUnavailable)
       else if message = ''frame listing belongs to another seller''
       then Inr (messageText table language FrameSaleOwnedByOther)
       else if message = ''frame listing is already being settled'' \<or> message = ''paid frame listing cannot be canceled''
       then Inr (messageText table language FrameSaleSettling)
       else if message = ''seller cannot buy their own frame listing''
       then Inr (messageText table language FrameSaleSelfPurchase)
       else userFacingError table language err)"

section \<open>The plugin's own items\<close>

definition named_stick :: "(ItemStack \<Rightarrow> string option) \<Rightarrow> string \<Rightarrow> ItemStack option \<Rightarrow> bool" where
  "named_stick shown name item = (case item of None \<Rightarrow> False
   | Some x \<Rightarrow> is_type x = ''minecraft:stick'' \<and>
       (case shown x of None \<Rightarrow> False | Some t \<Rightarrow> lower (stripFormatting t) = name))"

definition isExchanger :: "(ItemStack \<Rightarrow> string option) \<Rightarrow> ItemStack option \<Rightarrow> bool" where
  "isExchanger shown item = named_stick shown ''exchanger'' item"

definition isPriceStick :: "(ItemStack \<Rightarrow> string option) \<Rightarrow> ItemStack option \<Rightarrow> bool" where
  "isPriceStick shown item = named_stick shown PriceStickName item"

section \<open>Keys\<close>

record WorldBlock =
  blk_type :: string
  blk_dimension :: string
  blk_x :: int
  blk_y :: int
  blk_z :: int

record WorldActor =
  ac_id :: int
  ac_type :: string
  ac_dimension :: string
  ac_tags :: "string list"
  ac_item :: "ItemStack option"

record FrameAddress =
  fa_target_key :: string
  fa_dimension :: string
  fa_x :: int
  fa_y :: int
  fa_z :: int

definition blockTargetKey :: "WorldBlock \<Rightarrow> string" where
  "blockTargetKey b = ''block|'' @ blk_dimension b @ ''|'' @ dec (blk_x b) @ ''|'' @ dec (blk_y b) @ ''|'' @ dec (blk_z b)"

definition actorTargetKey :: "WorldActor \<Rightarrow> string" where
  "actorTargetKey a = ''actor|'' @ ac_dimension a @ ''|'' @ dec (ac_id a)"

definition frameAddress :: "WorldBlock \<Rightarrow> FrameAddress" where
  "frameAddress b = \<lparr>fa_target_key = blockTargetKey b, fa_dimension = blk_dimension b, fa_x = blk_x b, fa_y = blk_y b,
     fa_z = blk_z b\<rparr>"

definition sameItem :: "ItemPrototype \<Rightarrow> ItemPrototype \<Rightarrow> bool" where
  "sameItem l r \<longleftrightarrow> item_type l = item_type r \<and> item_data l = item_data r \<and> item_nbt l = item_nbt r"

definition targetTag :: "Id \<Rightarrow> string" where
  "targetTag i = TargetTagPrefix @ dec_nat i"

definition hologramTag :: "Id \<Rightarrow> string" where
  "hologramTag i = HologramTagPrefix @ dec_nat i"

definition chunkKey :: "string \<Rightarrow> int \<Rightarrow> int \<Rightarrow> string" where
  "chunkKey dimension chunk_x chunk_z = lower dimension @ ''|'' @ dec chunk_x @ ''|'' @ dec chunk_z"

definition marketIdFromHologramTag :: "string \<Rightarrow> Id option" where
  "marketIdFromHologramTag tag =
    (if \<not> starts_with tag HologramTagPrefix then None
     else case from_chars False 0 (2 ^ 64 - 1) (drop (length HologramTagPrefix) tag) of
       Inl _ \<Rightarrow> None
     | Inr (i, rest) \<Rightarrow> if rest \<noteq> [] \<or> i \<le> 0 then None else Some (nat i))"

definition hasTag :: "WorldActor \<Rightarrow> string \<Rightarrow> bool" where
  "hasTag a tag \<longleftrightarrow> tag \<in> set (ac_tags a)"

text \<open>The markets the plugin has loaded, in the order the hash map yields them.\<close>

fun marketIdForActor :: "(Id \<times> Domain.Market) list \<Rightarrow> WorldActor \<Rightarrow> Id option" where
  "marketIdForActor [] a = None"
| "marketIdForActor ((i, m) # ms) a =
    (if m_target_kind m = Actor \<and> hasTag a (targetTag i) then Some i
     else if hasTag a (hologramTag i) then Some i
     else marketIdForActor ms a)"

section \<open>The item something stands for\<close>

text \<open>\<open>registry\<close> is \<open>ItemType::get\<close> with \<open>createItemStack(1)\<close>.\<close>

definition prototypeOf :: "host \<Rightarrow> (ItemStack \<Rightarrow> string option) \<Rightarrow> string \<Rightarrow> ItemStack \<Rightarrow> ItemPrototype result" where
  "prototypeOf h shown type_name item = bindR (encode (h_code h) (is_nbt item)) (\<lambda>nbt.
     Inr \<lparr>item_type = type_name, item_data = is_data item, item_nbt = nbt, item_name = friendlyItemName shown item\<rparr>)"

fun first_candidate :: "host \<Rightarrow> (ItemStack \<Rightarrow> string option) \<Rightarrow> (string \<Rightarrow> ItemStack option) \<Rightarrow> string list \<Rightarrow>
    ItemPrototype option result" where
  "first_candidate h shown registry [] = Inr None"
| "first_candidate h shown registry (candidate # rest) = (case registry candidate of
     None \<Rightarrow> first_candidate h shown registry rest
   | Some item \<Rightarrow> map_sum id Some (prototypeOf h shown candidate item))"

definition prototypeForBlock :: "host \<Rightarrow> (ItemStack \<Rightarrow> string option) \<Rightarrow> (string \<Rightarrow> ItemStack option) \<Rightarrow> WorldBlock \<Rightarrow>
    ItemPrototype option result" where
  "prototypeForBlock h shown registry b = first_candidate h shown registry (blk_type b #
     (if blk_type b = ''minecraft:frame'' then [''minecraft:item_frame'']
      else if blk_type b = ''minecraft:glow_frame'' then [''minecraft:glow_item_frame''] else []))"

definition prototypeForActor :: "host \<Rightarrow> (ItemStack \<Rightarrow> string option) \<Rightarrow> (string \<Rightarrow> ItemStack option) \<Rightarrow> WorldActor \<Rightarrow>
    ItemPrototype option result" where
  "prototypeForActor h shown registry a = (case ac_item a of
     Some item \<Rightarrow> map_sum id Some (prototypeOf h shown (is_type item) item)
   | None \<Rightarrow>
     let key = (if CHR '':'' \<in> set (ac_type a) then tl (dropWhile (\<lambda>c. c \<noteq> CHR '':'') (ac_type a)) else ac_type a) in
     first_candidate h shown registry [ac_type a, ''minecraft:'' @ key @ ''_spawn_egg''])"

section \<open>Keys identify\<close>

lemma dec_no_bar: "CHR ''|'' \<notin> set (dec n)"
proof
  assume "CHR ''|'' \<in> set (dec n)"
  from dec_chars [OF this] show False by (simp add: is_digit_def char_code_def)
qed

text \<open>The last field of a text is unique when it has no bar.\<close>

lemma last_field:
  assumes "a @ ''|'' @ x = b @ ''|'' @ y" and "CHR ''|'' \<notin> set x" and "CHR ''|'' \<notin> set y"
  shows "a = b \<and> x = y"
proof -
  have tw: "takeWhile (\<lambda>c. c \<noteq> CHR ''|'') (rev u @ CHR ''|'' # zs) = rev u" if "CHR ''|'' \<notin> set u" for u zs
    using that by (subst takeWhile_append2) auto
  have "x = rev (takeWhile (\<lambda>c. c \<noteq> CHR ''|'') (rev (a @ ''|'' @ x)))"
    "y = rev (takeWhile (\<lambda>c. c \<noteq> CHR ''|'') (rev (b @ ''|'' @ y)))"
    using tw [OF assms(2)] tw [OF assms(3)] by simp_all
  with assms(1) show ?thesis by simp
qed

lemma blockTargetKey_inj:
  "blockTargetKey b = blockTargetKey b' \<longleftrightarrow> blk_dimension b = blk_dimension b' \<and> blk_x b = blk_x b' \<and>
    blk_y b = blk_y b' \<and> blk_z b = blk_z b'"
proof
  assume eq: "blockTargetKey b = blockTargetKey b'"
  have z: "(''block|'' @ blk_dimension b @ ''|'' @ dec (blk_x b) @ ''|'' @ dec (blk_y b)) @ ''|'' @ dec (blk_z b) =
      (''block|'' @ blk_dimension b' @ ''|'' @ dec (blk_x b') @ ''|'' @ dec (blk_y b')) @ ''|'' @ dec (blk_z b')"
    using eq by (simp add: blockTargetKey_def)
  have y: "(''block|'' @ blk_dimension b @ ''|'' @ dec (blk_x b)) @ ''|'' @ dec (blk_y b) =
      (''block|'' @ blk_dimension b' @ ''|'' @ dec (blk_x b')) @ ''|'' @ dec (blk_y b')"
    using last_field [OF z dec_no_bar dec_no_bar] by simp
  have x: "(''block|'' @ blk_dimension b) @ ''|'' @ dec (blk_x b) = (''block|'' @ blk_dimension b') @ ''|'' @ dec (blk_x b')"
    using last_field [OF y dec_no_bar dec_no_bar] by simp
  from last_field [OF x dec_no_bar dec_no_bar] last_field [OF y dec_no_bar dec_no_bar] last_field [OF z dec_no_bar dec_no_bar]
  show "blk_dimension b = blk_dimension b' \<and> blk_x b = blk_x b' \<and> blk_y b = blk_y b' \<and> blk_z b = blk_z b'"
    by (auto dest: dec_inj)
qed (simp add: blockTargetKey_def)

lemma chunkKey_inj:
  assumes "chunkKey d x z = chunkKey d' x' z'"
  shows "lower d = lower d' \<and> x = x' \<and> z = z'"
proof -
  have e: "(lower d @ ''|'' @ dec x) @ ''|'' @ dec z = (lower d' @ ''|'' @ dec x') @ ''|'' @ dec z'"
    using assms by (simp add: chunkKey_def)
  have e': "lower d @ ''|'' @ dec x = lower d' @ ''|'' @ dec x'" using last_field [OF e dec_no_bar dec_no_bar] by simp
  from last_field [OF e dec_no_bar dec_no_bar] last_field [OF e' dec_no_bar dec_no_bar] show ?thesis by (auto dest: dec_inj)
qed

lemma hologramTag_read:
  assumes "0 < i" and "i < 2 ^ 64"
  shows "marketIdFromHologramTag (hologramTag i) = Some i"
proof -
  have "dec (int i) = dec_nat i" by (simp add: dec_def)
  moreover have "from_chars False 0 (2 ^ 64 - 1) (dec (int i) @ []) = Inr (int i, [])"
    by (rule from_chars_dec) (use assms in auto)
  ultimately show ?thesis using assms by (simp add: marketIdFromHologramTag_def hologramTag_def starts_with_def)
qed

text \<open>A block's tag is never taken for another kind of tag.\<close>

lemma tags_apart: "targetTag i \<noteq> hologramTag j"
  by (simp add: targetTag_def hologramTag_def TargetTagPrefix_def HologramTagPrefix_def)

lemma hologramTag_inj: "hologramTag i = hologramTag j \<longleftrightarrow> i = j"
  by (auto simp: hologramTag_def dest: dec_nat_inj)

section \<open>What stripping does to other text\<close>

text \<open>Text without the two bytes is only trimmed; but the byte \<open>A7\<close> also occurs inside other characters,
  which lose it and the byte that follows. The character U+59CB is \<open>E5 A7 8B\<close>.\<close>

lemma strip_codes_plain: "(\<And>c. c \<in> set t \<Longrightarrow> char_code c \<noteq> 0xA7) \<Longrightarrow> strip_codes t = t"
  by (induction t rule: strip_codes.induct) auto

lemma stripFormatting_plain: "(\<And>c. c \<in> set t \<Longrightarrow> char_code c \<noteq> 0xA7) \<Longrightarrow> stripFormatting t = trim t"
  by (simp add: stripFormatting_def strip_codes_plain)

lemma stripFormatting_cuts: "stripFormatting (utf8 [0x59CB]) = [CHR 0xE5]"
  by code_simp

lemma stripFormatting_color: "stripFormatting (utf8 [0xA7] @ ''6exchanger'') = ''exchanger''"
  by code_simp

end
