(* ===== verification/Frame_Settlement.thy ===== *)
theory Frame_Settlement
  imports Plugin_Helpers Frame_Listings Level_Db "HOL-Library.AList"
begin

text \<open>
  How the item of a paid frame listing leaves the frame (src/plugin.cpp): \<open>settleFrameListing\<close>, the capture of
  the frame's content with its callbacks, \<open>verifyFrameClearedAndDrop\<close>, \<open>spawnFrameSaleDrop\<close>, and the
  pickup of the drop. The world is what the host shows the plugin: loaded chunks, the blocks, and the item
  actors of the loaded chunks. A capture is answered by a later task, so the waiting tasks are part
  of the state and run in any order.
\<close>

section \<open>The world\<close>

record ItemDrop =
  dp_item :: ItemStack
  dp_tags :: "string list"
  dp_unlimited :: bool

text \<open>A capture under way: which callback it has, for which listing, the name of the structure it saves, and the
  number of the attempt.\<close>

datatype capture_kind = Settle_Capture | Verify_Capture

record waiting =
  wt_kind :: capture_kind
  wt_listing :: FrameListing
  wt_name :: string
  wt_attempt :: int

text \<open>\<open>fw_captures\<close> has the structure being saved for each frame, \<open>fw_clock\<close> is what the steady clock shows.\<close>

record frame_world =
  fw_db :: db
  fw_ready :: bool
  fw_index :: "(string \<times> Id) list"
  fw_pending :: "Id list"
  fw_captures :: "(string \<times> string) list"
  fw_clock :: int
  fw_waiting :: "waiting list"
  fw_chunks :: "string list"
  fw_level :: bool
  fw_dimensions :: "string list"
  fw_blocks :: "string \<times> int \<times> int \<times> int \<Rightarrow> string option"
  fw_command :: bool
  fw_drops :: "ItemDrop list"

text \<open>What the plugin gets from the host: the NBT classes, the translations, the display names, and the stack built for
  an item that was read, which can fail.\<close>

record frame_env =
  fe_host :: host
  fe_table :: catalogue
  fe_shown :: "ItemStack \<Rightarrow> string option"
  fe_stack :: "CapturedFrameItem \<Rightarrow> ItemStack result"

type_synonym 'a frames = "(frame_world, 'a) svc"

definition on_service :: "'a dbm \<Rightarrow> 'a frames" where
  "on_service m w = (case m (fw_db w) of (r, s) \<Rightarrow> (r, w\<lparr>fw_db := s\<rparr>))"

definition index_put :: "string \<Rightarrow> Id \<Rightarrow> unit frames" where
  "index_put key i = executeS (\<lambda>w. w\<lparr>fw_index := AList.update key i (fw_index w)\<rparr>)"

definition index_erase :: "string \<Rightarrow> unit frames" where
  "index_erase key = executeS (\<lambda>w. w\<lparr>fw_index := AList.delete key (fw_index w)\<rparr>)"

definition pending_insert :: "Id \<Rightarrow> unit frames" where
  "pending_insert i = executeS (\<lambda>w. w\<lparr>fw_pending := List.insert i (fw_pending w)\<rparr>)"

definition pending_erase :: "Id \<Rightarrow> unit frames" where
  "pending_erase i = executeS (\<lambda>w. w\<lparr>fw_pending := removeAll i (fw_pending w)\<rparr>)"

definition captures_erase :: "string \<Rightarrow> unit frames" where
  "captures_erase key = executeS (\<lambda>w. w\<lparr>fw_captures := AList.delete key (fw_captures w)\<rparr>)"

definition frame_there :: "FrameListing \<Rightarrow> frame_world \<Rightarrow> bool" where
  "frame_there l w \<longleftrightarrow> fw_level w \<and> fl_dimension l \<in> set (fw_dimensions w) \<and>
    (case fw_blocks w (fl_dimension l, fl_x l, fl_y l, fl_z l) of None \<Rightarrow> False | Some ty \<Rightarrow> isItemFrameBlock ty)"

section \<open>The drop\<close>

definition drop_tag :: "Id \<Rightarrow> string" where
  "drop_tag i = FrameSaleDropTagPrefix @ dec_nat i"

definition drop_is :: "Id \<Rightarrow> ItemDrop \<Rightarrow> bool" where
  "drop_is i d \<longleftrightarrow> frameSaleItemId (is_nbt (dp_item d)) = Some i \<or> drop_tag i \<in> set (dp_tags d)"

text \<open>The item actor, by its position among the actors.\<close>

definition findFrameSaleDrop :: "Id \<Rightarrow> frame_world \<Rightarrow> nat option" where
  "findFrameSaleDrop i w = (if \<not> fw_level w then None
     else find (\<lambda>n. drop_is i (fw_drops w ! n)) [0..<length (fw_drops w)])"

definition adopt_drop :: "host \<Rightarrow> Id \<Rightarrow> ItemDrop \<Rightarrow> ItemDrop" where
  "adopt_drop h i d = d\<lparr>
     dp_item := (if frameSaleItemId (is_nbt (dp_item d)) \<noteq> Some i then setMarker h (dp_item d) FrameSaleTag i else dp_item d),
     dp_tags := List.insert (drop_tag i) (dp_tags d), dp_unlimited := True\<rparr>"

definition new_drop :: "host \<Rightarrow> Id \<Rightarrow> ItemStack \<Rightarrow> ItemDrop" where
  "new_drop h i item = \<lparr>dp_item = setMarker h item FrameSaleTag i, dp_tags = [drop_tag i], dp_unlimited = True\<rparr>"

definition spawnFrameSaleDrop :: "frame_env \<Rightarrow> FrameListing \<Rightarrow> unit frames" where
  "spawnFrameSaleDrop env l =
    (let i = fl_id l in
    catchS
      (bindS (queryS (findFrameSaleDrop i)) (\<lambda>existing.
       if existing \<noteq> None
       then bindS (on_service (markFrameListingDropped i)) (\<lambda>_. pending_erase i)
       else
         bindS (queryS (\<lambda>w. fw_level w \<and> fl_dimension l \<in> set (fw_dimensions w))) (\<lambda>loaded.
         bindS (throwIf (\<not> loaded) (Runtime_Error ''frame-sale dimension is not loaded'')) (\<lambda>_.
         bindS (liftS (sampleItem (fe_host env) (fl_item l))) (\<lambda>item.
         bindS (executeS (\<lambda>w. w\<lparr>fw_drops := fw_drops w @ [new_drop (fe_host env) i item]\<rparr>)) (\<lambda>_.
         bindS (on_service (markFrameListingDropped i)) (\<lambda>_. pending_erase i)))))))
      (\<lambda>_. pending_erase i))"

section \<open>Captures\<close>

definition structure_name :: "int \<Rightarrow> int \<Rightarrow> int \<Rightarrow> int \<Rightarrow> string" where
  "structure_name x y z serial =
    ''exchange:frame_'' @ dec x @ ''_'' @ dec y @ ''_'' @ dec z @ ''_'' @ dec serial"

text \<open>\<open>queueItemFrameCapture\<close> without a player: \<open>failed\<close> is the callback, called at once with a failure.\<close>

definition queueItemFrameCapture :: "frame_env \<Rightarrow> capture_kind \<Rightarrow> FrameListing \<Rightarrow> (error \<Rightarrow> unit frames) \<Rightarrow> unit frames" where
  "queueItemFrameCapture env kind l failed =
    (let message = (\<lambda>m. userError (tr (fe_table env) SimplifiedChinese m [])); key = fl_target_key l in
    bindS (queryS (\<lambda>w. (map_of (fw_captures w) key \<noteq> None, fw_level w, fw_command w))) (\<lambda>(busy, level, command).
    if busy then failed (message FrameSaleBusy)
    else if \<not> level then failed (message WorldNotLoaded)
    else if \<not> command then failed (message FrameReadFailed)
    else executeS (\<lambda>w. let name = structure_name (fl_x l) (fl_y l) (fl_z l) (fw_clock w) in
      w\<lparr>fw_captures := AList.update key name (fw_captures w),
        fw_waiting := fw_waiting w @ [\<lparr>wt_kind = kind, wt_listing = l, wt_name = name, wt_attempt = 1\<rparr>]\<rparr>)))"

definition FrameCaptureMaxAttempts :: int where
  "FrameCaptureMaxAttempts = 3"

text \<open>The two callbacks, each with the item that was read, if any, or the failure.\<close>

definition verify_callback :: "frame_env \<Rightarrow> FrameListing \<Rightarrow> ItemPrototype option result \<Rightarrow> unit frames" where
  "verify_callback env l answer = (case answer of
     Inl _ \<Rightarrow> bindS (queryS (frame_there l)) (\<lambda>there.
       if \<not> there then spawnFrameSaleDrop env l else pending_erase (fl_id l))
   | Inr current_item \<Rightarrow>
       if current_item \<noteq> None \<and> sameItem (fl_item l) (the current_item) then pending_erase (fl_id l)
       else spawnFrameSaleDrop env l)"

definition verifyFrameClearedAndDrop :: "frame_env \<Rightarrow> FrameListing \<Rightarrow> unit frames" where
  "verifyFrameClearedAndDrop env l =
    queueItemFrameCapture env Verify_Capture l (\<lambda>e. verify_callback env l (Inl e))"

text \<open>\<open>reset\<close> is what becomes of reading the frame's block data and setting the block anew.\<close>

definition settle_callback :: "frame_env \<Rightarrow> unit result \<Rightarrow> FrameListing \<Rightarrow> ItemPrototype option result \<Rightarrow> unit frames" where
  "settle_callback env reset l answer = (case answer of
     Inl _ \<Rightarrow> pending_erase (fl_id l)
   | Inr current_item \<Rightarrow>
       if current_item = None \<or> \<not> sameItem (fl_item l) (the current_item) then spawnFrameSaleDrop env l
       else catchS
         (bindS (queryS (frame_there l)) (\<lambda>there.
          if \<not> there then spawnFrameSaleDrop env l
          else bindS (liftS reset) (\<lambda>_. verifyFrameClearedAndDrop env l)))
         (\<lambda>_. pending_erase (fl_id l)))"

definition callback :: "frame_env \<Rightarrow> unit result \<Rightarrow> waiting \<Rightarrow> ItemPrototype option result \<Rightarrow> unit frames" where
  "callback env reset wt answer = (case wt_kind wt of
     Settle_Capture \<Rightarrow> settle_callback env reset (wt_listing wt) answer
   | Verify_Capture \<Rightarrow> verify_callback env (wt_listing wt) answer)"

definition captured_prototype :: "frame_env \<Rightarrow> CapturedFrameItem \<Rightarrow> ItemPrototype result" where
  "captured_prototype env c = bindR (fe_stack env c) (\<lambda>item.
     bindR (encode (h_code (fe_host env)) (cf_nbt c)) (\<lambda>nbt.
     Inr \<lparr>item_type = cf_type c, item_data = cf_data c, item_nbt = nbt, item_name = friendlyItemName (fe_shown env) item\<rparr>))"

text \<open>\<open>captured\<close> is what \<open>readItemFrameFromLevelDbLogs\<close> returns or throws.\<close>

definition completeItemFrameCapture :: "frame_env \<Rightarrow> unit result \<Rightarrow> CapturedFrameItem option result \<Rightarrow> waiting \<Rightarrow> unit frames" where
  "completeItemFrameCapture env reset captured wt =
    (let l = wt_listing wt; key = fl_target_key l in
    bindS (queryS (\<lambda>w. (map_of (fw_captures w) key, fw_ready w, fw_command w))) (\<lambda>(pending, ready, command).
    if pending \<noteq> Some (wt_name wt) then returnS ()
    else if \<not> ready then captures_erase key
    else case captured of
      Inl e \<Rightarrow>
        if wt_attempt wt < FrameCaptureMaxAttempts \<and> command
        then executeS (\<lambda>w. w\<lparr>fw_waiting := fw_waiting w @ [wt\<lparr>wt_attempt := wt_attempt wt + 1\<rparr>]\<rparr>)
        else bindS (captures_erase key) (\<lambda>_. callback env reset wt (Inl e))
    | Inr item \<Rightarrow>
        bindS (captures_erase key) (\<lambda>_.
        bindS (queryS (frame_there l)) (\<lambda>there.
        callback env reset wt
          (if \<not> there then Inl (userError (tr (fe_table env) SimplifiedChinese FrameMissing []))
           else case item of None \<Rightarrow> Inr None | Some c \<Rightarrow> map_sum id Some (captured_prototype env c))))))"

section \<open>Settling\<close>

definition adoptFrameSaleDrop :: "frame_env \<Rightarrow> Id \<Rightarrow> nat \<Rightarrow> unit frames" where
  "adoptFrameSaleDrop env i n =
    bindS (catchS
      (bindS (executeS (\<lambda>w. w\<lparr>fw_drops := (fw_drops w)[n := adopt_drop (fe_host env) i (fw_drops w ! n)]\<rparr>)) (\<lambda>_.
       on_service (markFrameListingDropped i)))
      (\<lambda>_. returnS ())) (\<lambda>_. pending_erase i)"

definition listing_chunk :: "FrameListing \<Rightarrow> string result" where
  "listing_chunk l = bindR (blockToChunk (fl_x l)) (\<lambda>x. bindR (blockToChunk (fl_z l)) (\<lambda>z.
     Inr (chunkKey (fl_dimension l) x z)))"

definition settleFrameListing :: "frame_env \<Rightarrow> FrameListing \<Rightarrow> unit frames" where
  "settleFrameListing env l =
    (let i = fl_id l in
    bindS (queryS fw_ready) (\<lambda>ready.
    if \<not> ready then returnS ()
    else if fl_status l = FrameClaimed \<or> fl_status l = FrameCanceled then index_erase (fl_target_key l)
    else if fl_status l \<noteq> FramePaid \<and> fl_status l \<noteq> FrameDropped then returnS ()
    else bindS (queryS (findFrameSaleDrop i)) (\<lambda>existing. case existing of
      Some n \<Rightarrow> adoptFrameSaleDrop env i n
    | None \<Rightarrow>
      bindS (queryS (\<lambda>w. i \<in> set (fw_pending w))) (\<lambda>pending.
      if pending then returnS ()
      else bindS (liftS (listing_chunk l)) (\<lambda>chunk.
      bindS (queryS (\<lambda>w. chunk \<in> set (fw_chunks w))) (\<lambda>loaded.
      if \<not> loaded then returnS ()
      else bindS (queryS (frame_there l)) (\<lambda>there.
      if \<not> there then spawnFrameSaleDrop env l
      else bindS (pending_insert i) (\<lambda>_.
        queueItemFrameCapture env Settle_Capture l (\<lambda>e. settle_callback env (Inr ()) l (Inl e)))))))))) "

definition recoverFrameListings :: "frame_env \<Rightarrow> unit frames" where
  "recoverFrameListings env = bindS (queryS fw_ready) (\<lambda>ready. whenS ready
    (logged_only (bindS (on_service unsettledFrameListings) (mapS (\<lambda>l.
      bindS (index_put (fl_target_key l) (fl_id l)) (\<lambda>_. settleFrameListing env l))))))"

definition restoreFrameListingIndex :: "unit frames" where
  "restoreFrameListingIndex =
    bindS (executeS (\<lambda>w. w\<lparr>fw_index := []\<rparr>)) (\<lambda>_.
    bindS (on_service boundFrameListings) (mapS (\<lambda>l. index_put (fl_target_key l) (fl_id l))))"

section \<open>Picking up\<close>

text \<open>\<open>onPlayerPickupItem\<close> for the \<open>n\<close>-th drop: whether the event is let through. The item the player
  gets is the one the handler left in the drop.\<close>

definition onPlayerPickupItem :: "nat \<Rightarrow> bool frames" where
  "onPlayerPickupItem n =
    bindS (queryS (\<lambda>w. (fw_ready w, dp_item (fw_drops w ! n)))) (\<lambda>(ready, item).
    if \<not> ready then returnS True
    else case frameSaleItemId (is_nbt item) of None \<Rightarrow> returnS True
    | Some i \<Rightarrow> catchS
        (bindS (on_service (markFrameListingDropped i)) (\<lambda>_.
         bindS (on_service (completeFrameListingPickup i)) (\<lambda>_.
         bindS (on_service (findFrameListing i)) (\<lambda>listing.
         bindS (case listing of None \<Rightarrow> returnS () | Some l \<Rightarrow> index_erase (fl_target_key l)) (\<lambda>_.
         let (reset, item') = clearFrameSaleItemTag_item item i in
         bindS (throwIf (\<not> reset) (Runtime_Error ''could not clear the frame-sale recovery marker'')) (\<lambda>_.
         bindS (executeS (\<lambda>w. w\<lparr>fw_drops := (fw_drops w)[n := (fw_drops w ! n)\<lparr>dp_item := item'\<rparr>]\<rparr>)) (\<lambda>_.
         returnS True)))))))
        (\<lambda>_. returnS False))"

definition protectListedFrames :: "WorldBlock list \<Rightarrow> frame_world \<Rightarrow> WorldBlock list" where
  "protectListedFrames blocks w = filter (\<lambda>b. map_of (fw_index w) (blockTargetKey b) = None) blocks"

end
