(* ===== verification/Frame_Custody.thy ===== *)
theory Frame_Custody
  imports Frame_Settlement
begin

text \<open>
  What becomes of sold items over any sequence of settlements, callbacks, pickups and listing
  operations: a sold item is at most once in the world or handed out.
\<close>

section \<open>Custody\<close>

definition drop_marker :: "ItemDrop \<Rightarrow> Id option" where
  "drop_marker d = frameSaleItemId (is_nbt (dp_item d))"

definition drop_ids :: "frame_world \<Rightarrow> Id list" where
  "drop_ids w = List.map_filter drop_marker (fw_drops w)"

definition wait_ids :: "frame_world \<Rightarrow> Id list" where
  "wait_ids w = map (\<lambda>t. fl_id (wt_listing t)) (fw_waiting w)"

text \<open>The buyer has paid and not yet received the item.\<close>

definition owed :: "db \<Rightarrow> Id \<Rightarrow> bool" where
  "owed s i \<longleftrightarrow> (\<exists>f. listing_of s i = Some f \<and> (f_status f = FramePaid \<or> f_status f = FrameDropped))"

definition claimed :: "db \<Rightarrow> Id \<Rightarrow> bool" where
  "claimed s i \<longleftrightarrow> (\<exists>f. listing_of s i = Some f \<and> f_status f = FrameClaimed)"

definition tags_honest :: "ItemDrop \<Rightarrow> bool" where
  "tags_honest d \<longleftrightarrow> (\<forall>i. drop_tag i \<in> set (dp_tags d) \<longrightarrow> drop_marker d = Some i)"

text \<open>\<open>taken\<close> lists the sold items handed to players.\<close>

definition custody :: "frame_world \<Rightarrow> Id list \<Rightarrow> bool" where
  "custody w taken \<longleftrightarrow> shop_ok (fw_db w) \<and>
     distinct (drop_ids w) \<and> (\<forall>i \<in> set (drop_ids w). i < 2 ^ 64 \<and> owed (fw_db w) i) \<and>
     (\<forall>d \<in> set (fw_drops w). tags_honest d) \<and>
     distinct (wait_ids w) \<and>
     (\<forall>i \<in> set (wait_ids w). i < 2 ^ 64 \<and> owed (fw_db w) i \<and> i \<in> set (fw_pending w) \<and> i \<notin> set (drop_ids w)) \<and>
     distinct taken \<and> (\<forall>i \<in> set taken. claimed (fw_db w) i)"

lemma custodyD:
  assumes "custody w taken"
  shows "shop_ok (fw_db w)" "distinct (drop_ids w)" "i \<in> set (drop_ids w) \<Longrightarrow> i < 2 ^ 64"
    "i \<in> set (drop_ids w) \<Longrightarrow> owed (fw_db w) i" "d \<in> set (fw_drops w) \<Longrightarrow> tags_honest d"
    "distinct (wait_ids w)" "i \<in> set (wait_ids w) \<Longrightarrow> i < 2 ^ 64" "i \<in> set (wait_ids w) \<Longrightarrow> owed (fw_db w) i"
    "i \<in> set (wait_ids w) \<Longrightarrow> i \<in> set (fw_pending w)" "i \<in> set (wait_ids w) \<Longrightarrow> i \<notin> set (drop_ids w)"
    "distinct taken" "i \<in> set taken \<Longrightarrow> claimed (fw_db w) i"
  using assms unfolding custody_def by blast+

lemma owed_not_claimed: "owed s i \<Longrightarrow> \<not> claimed s i"
  by (auto simp: owed_def claimed_def)

lemma custody_apart: "custody w taken \<Longrightarrow> distinct (drop_ids w @ taken)"
  using custodyD(4,12) owed_not_claimed custodyD(2,11) by fastforce

lemma drop_ids_append [simp]: "List.map_filter drop_marker (ds @ es) = List.map_filter drop_marker ds @ List.map_filter drop_marker es"
  by (induction ds) (auto simp: List.map_filter_simps split: option.splits)

lemma map_filter_map: "List.map_filter f xs = List.map_filter id (map f xs)"
  by (induction xs) (auto simp: List.map_filter_simps split: option.splits)

lemma drop_ids_iff: "i \<in> set (drop_ids w) \<longleftrightarrow> (\<exists>d \<in> set (fw_drops w). drop_marker d = Some i)"
  by (auto simp: drop_ids_def List.map_filter_def) force

section \<open>Marking a listing as dropped\<close>

definition mark :: "Id \<Rightarrow> db \<Rightarrow> db" where
  "mark i s = snd (markFrameListingDropped i s)"

lemma mark_facts:
  assumes ok: "shop_ok s" and "owed s i"
  shows "markFrameListingDropped i s = (Inr (), mark i s)" "shop_ok (mark i s)"
    "owed (mark i s) j = owed s j" "claimed (mark i s) j = claimed s j"
    "\<exists>f. listing_of (mark i s) i = Some f \<and> f_status f = FrameDropped"
proof -
  from assms(2) obtain f where f: "listing_of s i = Some f" "f_status f = FramePaid \<or> f_status f = FrameDropped"
    by (auto simp: owed_def)
  have step: "listing_step 0 s (with_listing i (set_listing FrameDropped) False s)" if "f_status f = FramePaid"
    by (rule status_step [OF ok f(1)]) (use that in \<open>auto simp: sold_listing_def in_place_def\<close>)
  have row: "listing_of (with_listing i (set_listing FrameDropped) False s) j =
      (if j = i then Some (set_listing FrameDropped f) else listing_of s j)" for j
    by (rule set_listing.with_row [OF f(1)])
  have "markFrameListingDropped i s = (Inr (), mark i s) \<and> shop_ok (mark i s) \<and>
    owed (mark i s) j = owed s j \<and> claimed (mark i s) j = claimed s j \<and>
    (\<exists>f. listing_of (mark i s) i = Some f \<and> f_status f = FrameDropped)"
  proof (cases "f_status f = FramePaid")
    case True
    with dropped_eq [OF f(1)] have "markFrameListingDropped i s = (Inr (), with_listing i (set_listing FrameDropped) False s)"
      by simp
    with step [OF True] True f show ?thesis by (simp add: mark_def listing_step_def row owed_def claimed_def)
  next
    case False
    with dropped_eq [OF f(1)] f ok show ?thesis by (simp add: mark_def)
  qed
  then show "markFrameListingDropped i s = (Inr (), mark i s)" "shop_ok (mark i s)"
    "owed (mark i s) j = owed s j" "claimed (mark i s) j = claimed s j"
    "\<exists>f. listing_of (mark i s) i = Some f \<and> f_status f = FrameDropped" by blast+
qed

section \<open>The parts of a step\<close>

lemma ids_simps [simp]:
  "drop_ids (w\<lparr>fw_db := s\<rparr>) = drop_ids w" "wait_ids (w\<lparr>fw_db := s\<rparr>) = wait_ids w"
  "drop_ids (w\<lparr>fw_pending := p\<rparr>) = drop_ids w" "wait_ids (w\<lparr>fw_pending := p\<rparr>) = wait_ids w"
  "drop_ids (w\<lparr>fw_index := x\<rparr>) = drop_ids w" "wait_ids (w\<lparr>fw_index := x\<rparr>) = wait_ids w"
  "drop_ids (w\<lparr>fw_captures := c\<rparr>) = drop_ids w" "wait_ids (w\<lparr>fw_captures := c\<rparr>) = wait_ids w"
  "drop_ids (w\<lparr>fw_waiting := q\<rparr>) = drop_ids w" "wait_ids (w\<lparr>fw_drops := ds\<rparr>) = wait_ids w"
  "drop_ids (w\<lparr>fw_drops := ds @ es\<rparr>) = drop_ids (w\<lparr>fw_drops := ds\<rparr>) @ drop_ids (w\<lparr>fw_drops := es\<rparr>)"
  "wait_ids (w\<lparr>fw_waiting := q @ r\<rparr>) = wait_ids (w\<lparr>fw_waiting := q\<rparr>) @ wait_ids (w\<lparr>fw_waiting := r\<rparr>)"
  "drop_ids (w\<lparr>fw_drops := fw_drops w\<rparr>) = drop_ids w" "wait_ids (w\<lparr>fw_waiting := fw_waiting w\<rparr>) = wait_ids w"
  by (simp_all add: drop_ids_def wait_ids_def)

lemma custody_mark: "custody w taken \<Longrightarrow> owed (fw_db w) i \<Longrightarrow> custody (w\<lparr>fw_db := mark i (fw_db w)\<rparr>) taken"
  using mark_facts [of "fw_db w" i] by (simp add: custody_def)

lemma custody_erase: "custody w taken \<Longrightarrow> i \<notin> set (wait_ids w) \<Longrightarrow> custody (w\<lparr>fw_pending := removeAll i (fw_pending w)\<rparr>) taken"
  by (auto simp: custody_def)

lemma custody_other [simp]:
  "custody (w\<lparr>fw_index := x\<rparr>) taken = custody w taken" "custody (w\<lparr>fw_captures := c\<rparr>) taken = custody w taken"
  by (simp_all add: custody_def)

lemma drop_tag_inj: "drop_tag i = drop_tag j \<longleftrightarrow> i = j"
  by (auto simp: drop_tag_def dest: dec_nat_inj)

lemma new_drop_facts:
  assumes "host_laws h" and "i < 2 ^ 64"
  shows "drop_marker (new_drop h i item) = Some i" "tags_honest (new_drop h i item)"
  using assms by (auto simp: drop_marker_def tags_honest_def new_drop_def frameSaleItemId_def markerId_setMarker drop_tag_inj)

lemma custody_spawn:
  assumes "host_laws h" and c: "custody w taken" and i: "owed (fw_db w) i" "i < 2 ^ 64" "i \<notin> set (wait_ids w)"
    and none: "i \<notin> set (drop_ids w)"
  shows "custody (w\<lparr>fw_drops := fw_drops w @ [new_drop h i item]\<rparr>) taken"
proof -
  have "drop_ids (w\<lparr>fw_drops := [new_drop h i item]\<rparr>) = [i]"
    using new_drop_facts(1) [OF assms(1) i(2)] by (simp add: drop_ids_def List.map_filter_simps)
  then show ?thesis using c i none new_drop_facts(2) [OF assms(1) i(2), of item] by (auto simp: custody_def)
qed

lemma drop_is_marker: "custody w taken \<Longrightarrow> d \<in> set (fw_drops w) \<Longrightarrow> drop_is i d \<longleftrightarrow> drop_marker d = Some i"
  using custodyD(5) by (auto simp: drop_is_def drop_marker_def tags_honest_def)

lemma found_drop:
  assumes c: "custody w taken" and "findFrameSaleDrop i w = Some n"
  shows "n < length (fw_drops w)" "drop_marker (fw_drops w ! n) = Some i" "i \<in> set (drop_ids w)"
proof -
  from assms(2) have n: "n < length (fw_drops w)" "drop_is i (fw_drops w ! n)"
    by (auto simp: findFrameSaleDrop_def find_Some_iff split: if_splits)
  then show "n < length (fw_drops w)" "drop_marker (fw_drops w ! n) = Some i"
    using drop_is_marker [OF c, of "fw_drops w ! n"] by simp_all
  then show "i \<in> set (drop_ids w)" by (auto simp: drop_ids_iff)
qed

lemma no_drop:
  assumes c: "custody w taken" and "findFrameSaleDrop i w = None" and "fw_level w"
  shows "i \<notin> set (drop_ids w)"
proof
  assume "i \<in> set (drop_ids w)"
  then obtain d where d: "d \<in> set (fw_drops w)" "drop_marker d = Some i" by (auto simp: drop_ids_iff)
  then obtain n where "n < length (fw_drops w)" "fw_drops w ! n = d" by (auto simp: in_set_conv_nth)
  with assms(2,3) d drop_is_marker [OF c d(1), of i] show False
    by (auto simp: findFrameSaleDrop_def find_None_iff)
qed

lemma adopted_same:
  assumes "drop_marker d = Some i"
  shows "drop_marker (adopt_drop h i d) = Some i" "tags_honest d \<Longrightarrow> tags_honest (adopt_drop h i d)"
  using assms by (auto simp: adopt_drop_def drop_marker_def tags_honest_def drop_tag_inj)

lemma custody_adopt:
  assumes c: "custody w taken" and f: "findFrameSaleDrop i w = Some n"
  shows "custody (w\<lparr>fw_drops := (fw_drops w)[n := adopt_drop h i (fw_drops w ! n)]\<rparr>) taken"
proof -
  note F = found_drop [OF c f]
  let ?ds = "(fw_drops w)[n := adopt_drop h i (fw_drops w ! n)]"
  have "map drop_marker ?ds = map drop_marker (fw_drops w)"
    by (rule nth_equalityI) (use F adopted_same(1) [OF F(2), of h] in \<open>auto simp: nth_list_update\<close>)
  then have "drop_ids (w\<lparr>fw_drops := ?ds\<rparr>) = drop_ids w" unfolding drop_ids_def map_filter_map [of drop_marker] by simp
  moreover have "tags_honest d" if "d \<in> set ?ds" for d
  proof -
    have "d \<in> set (fw_drops w) \<or> d = adopt_drop h i (fw_drops w ! n)" using set_update_subset_insert that by fastforce
    with custodyD(5) [OF c] adopted_same(2) [OF F(2)] F(1) show ?thesis by auto
  qed
  ultimately show ?thesis using c by (simp add: custody_def)
qed

section \<open>The operations keep custody\<close>

definition served :: "unit frames \<Rightarrow> frame_world \<Rightarrow> Id list \<Rightarrow> bool" where
  "served m w taken \<longleftrightarrow> fst (m w) = Inr () \<and> custody (snd (m w)) taken \<and> owed (fw_db (snd (m w))) = owed (fw_db w)"

definition settling :: "frame_world \<Rightarrow> Id \<Rightarrow> bool" where
  "settling w i \<longleftrightarrow> owed (fw_db w) i \<and> i < 2 ^ 64 \<and> i \<notin> set (wait_ids w)"

lemma settling_other [simp]:
  "settling (w\<lparr>fw_captures := c\<rparr>) i = settling w i" "settling (w\<lparr>fw_pending := p\<rparr>) i = settling w i"
  by (simp_all add: settling_def)

lemma served_erase: "custody w taken \<Longrightarrow> settling w i \<Longrightarrow> served (pending_erase i) w taken"
  by (simp add: served_def pending_erase_def executeS_def custody_erase settling_def)

lemma served_marked:
  assumes c: "custody w taken" and i: "settling w i"
  shows "bindS (on_service (markFrameListingDropped i)) (\<lambda>_. pending_erase i) w =
      (Inr (), w\<lparr>fw_db := mark i (fw_db w), fw_pending := removeAll i (fw_pending w)\<rparr>)"
    "custody (w\<lparr>fw_db := mark i (fw_db w), fw_pending := removeAll i (fw_pending w)\<rparr>) taken"
    "owed (mark i (fw_db w)) = owed (fw_db w)"
proof -
  note M = mark_facts [OF custodyD(1) [OF c], of i]
  show "bindS (on_service (markFrameListingDropped i)) (\<lambda>_. pending_erase i) w =
      (Inr (), w\<lparr>fw_db := mark i (fw_db w), fw_pending := removeAll i (fw_pending w)\<rparr>)"
    using M(1) i by (simp add: bindS_def on_service_def pending_erase_def executeS_def settling_def)
  show "custody (w\<lparr>fw_db := mark i (fw_db w), fw_pending := removeAll i (fw_pending w)\<rparr>) taken"
    using custody_erase [OF custody_mark [OF c], of i i] i by (simp add: settling_def)
  show "owed (mark i (fw_db w)) = owed (fw_db w)" using M(3) i by (auto simp: settling_def)
qed

lemma spawn_cases:
  assumes h: "host_laws (fe_host env)" and c: "custody w taken" and i: "settling w (fl_id l)"
  shows "served (spawnFrameSaleDrop env l) w taken"
    and "findFrameSaleDrop (fl_id l) w = None \<Longrightarrow> fw_level w \<Longrightarrow> fl_dimension l \<in> set (fw_dimensions w) \<Longrightarrow>
      sampleItem (fe_host env) (fl_item l) = Inr item \<Longrightarrow>
      spawnFrameSaleDrop env l w = (Inr (), w\<lparr>fw_drops := fw_drops w @ [new_drop (fe_host env) (fl_id l) item],
        fw_db := mark (fl_id l) (fw_db w), fw_pending := removeAll (fl_id l) (fw_pending w)\<rparr>)"
proof -
  let ?i = "fl_id l"
  note E = served_erase [OF c i]
  note M = served_marked [OF c i]
  have spawn: "bindS (on_service (markFrameListingDropped ?i)) (\<lambda>_. pending_erase ?i)
      (w\<lparr>fw_drops := fw_drops w @ [new_drop (fe_host env) ?i item]\<rparr>) =
      (Inr (), w\<lparr>fw_drops := fw_drops w @ [new_drop (fe_host env) ?i item],
        fw_db := mark ?i (fw_db w), fw_pending := removeAll ?i (fw_pending w)\<rparr>) \<and>
    custody (w\<lparr>fw_drops := fw_drops w @ [new_drop (fe_host env) ?i item],
        fw_db := mark ?i (fw_db w), fw_pending := removeAll ?i (fw_pending w)\<rparr>) taken"
    if none: "findFrameSaleDrop ?i w = None" "fw_level w" for item
  proof -
    have "custody (w\<lparr>fw_drops := fw_drops w @ [new_drop (fe_host env) ?i item]\<rparr>) taken"
      using i no_drop [OF c none] by (intro custody_spawn [OF h c]) (simp_all add: settling_def)
    moreover have "settling (w\<lparr>fw_drops := fw_drops w @ [new_drop (fe_host env) ?i item]\<rparr>) ?i"
      using i by (simp add: settling_def)
    ultimately show ?thesis using served_marked(1,2) by fastforce
  qed
  show "served (spawnFrameSaleDrop env l) w taken"
  proof (cases "findFrameSaleDrop ?i w")
    case (Some n)
    then show ?thesis using M
      by (simp add: spawnFrameSaleDrop_def served_def catchS_def svc_runs Let_def)
  next
    case None
    show ?thesis
    proof (cases "fw_level w \<and> fl_dimension l \<in> set (fw_dimensions w)")
      case False
      with None E show ?thesis
        by (auto simp: spawnFrameSaleDrop_def served_def catchS_def svc_runs Let_def pending_erase_def executeS_def)
    next
      case loaded: True
      show ?thesis
      proof (cases "sampleItem (fe_host env) (fl_item l)")
        case (Inl e)
        with None loaded E show ?thesis
          by (simp add: spawnFrameSaleDrop_def served_def catchS_def svc_runs Let_def pending_erase_def executeS_def)
      next
        case (Inr item)
        with None loaded spawn [of item] M(3) show ?thesis
          by (simp add: spawnFrameSaleDrop_def served_def catchS_def Let_def svc_runs)
      qed
    qed
  qed
  show "spawnFrameSaleDrop env l w = (Inr (), w\<lparr>fw_drops := fw_drops w @ [new_drop (fe_host env) ?i item],
        fw_db := mark ?i (fw_db w), fw_pending := removeAll ?i (fw_pending w)\<rparr>)"
    if "findFrameSaleDrop ?i w = None" "fw_level w" "fl_dimension l \<in> set (fw_dimensions w)"
      "sampleItem (fe_host env) (fl_item l) = Inr item"
    using that spawn [of item]
    by (simp add: spawnFrameSaleDrop_def catchS_def Let_def svc_runs)
qed

lemma served_spawn:
  "host_laws (fe_host env) \<Longrightarrow> custody w taken \<Longrightarrow> settling w (fl_id l) \<Longrightarrow> served (spawnFrameSaleDrop env l) w taken"
  using spawn_cases(1) by blast

lemma served_verify_callback:
  assumes "host_laws (fe_host env)" and "custody w taken" and "settling w (fl_id l)"
  shows "served (verify_callback env l answer) w taken"
  using served_spawn [OF assms] served_erase [OF assms(2,3)]
  by (cases answer) (simp_all add: verify_callback_def served_def svc_runs)

text \<open>A capture is started for a listing that is marked as pending, or its callback is called at once.\<close>

lemma served_queue:
  assumes c: "custody w taken" and i: "settling w (fl_id l)" and p: "fl_id l \<in> set (fw_pending w)"
    and none: "fl_id l \<notin> set (drop_ids w)" and failed: "\<And>e. served (failed e) w taken"
  shows "served (queueItemFrameCapture env kind l failed) w taken"
proof -
  have "wait_ids (w\<lparr>fw_waiting := [\<lparr>wt_kind = kind, wt_listing = l, wt_name = name, wt_attempt = 1\<rparr>]\<rparr>) = [fl_id l]" for name
    by (simp add: wait_ids_def)
  then have "custody (w\<lparr>fw_captures := x, fw_waiting := fw_waiting w @ [\<lparr>wt_kind = kind, wt_listing = l, wt_name = name, wt_attempt = 1\<rparr>]\<rparr>) taken"
    for x name
    using c i p none by (auto simp: custody_def settling_def wait_ids_def)
  then show ?thesis using failed
    by (auto simp: queueItemFrameCapture_def served_def svc_runs executeS_def Let_def)
qed

definition in_capture :: "frame_world \<Rightarrow> Id \<Rightarrow> bool" where
  "in_capture w i \<longleftrightarrow> settling w i \<and> i \<in> set (fw_pending w) \<and> i \<notin> set (drop_ids w)"

lemma in_capture_other [simp]: "in_capture (w\<lparr>fw_captures := c\<rparr>) i = in_capture w i"
  by (simp add: in_capture_def)

lemma served_catch: "served m w taken \<Longrightarrow> served (catchS m g) w taken"
  by (cases "m w") (simp add: served_def catchS_def)

lemma served_settle_callback:
  assumes h: "host_laws (fe_host env)" and c: "custody w taken" and i: "in_capture w (fl_id l)"
  shows "served (settle_callback env reset l answer) w taken"
proof -
  have s: "settling w (fl_id l)" using i by (simp add: in_capture_def)
  note E = served_erase [OF c s] and S = served_spawn [OF h c s]
  have "served (verifyFrameClearedAndDrop env l) w taken"
    unfolding verifyFrameClearedAndDrop_def
    by (rule served_queue [OF c s]) (use i in \<open>simp_all add: in_capture_def served_verify_callback [OF h c s]\<close>)
  then have "served (catchS (bindS (queryS (frame_there l)) (\<lambda>there.
          if \<not> there then spawnFrameSaleDrop env l
          else bindS (liftS reset) (\<lambda>_. verifyFrameClearedAndDrop env l))) (\<lambda>_. pending_erase (fl_id l))) w taken"
  proof (cases reset)
    case (Inl e)
    with S E show ?thesis
      by (cases "frame_there l w"; cases "spawnFrameSaleDrop env l w") (simp_all add: served_def catchS_def svc_runs)
  next
    case (Inr u)
    assume "served (verifyFrameClearedAndDrop env l) w taken"
    with S Inr show ?thesis by (intro served_catch) (simp add: served_def svc_runs)
  qed
  with S E show ?thesis by (cases answer) (simp_all add: settle_callback_def)
qed

lemma served_callback:
  assumes "host_laws (fe_host env)" and "custody w taken" and "in_capture w (fl_id (wt_listing wt))"
  shows "served (callback env reset wt answer) w taken"
  using served_settle_callback [OF assms] served_verify_callback [OF assms(1,2)] assms(3)
  by (simp add: callback_def in_capture_def split: capture_kind.split)

lemma served_complete:
  assumes h: "host_laws (fe_host env)" and c: "custody w taken" and i: "in_capture w (fl_id (wt_listing wt))"
  shows "served (completeItemFrameCapture env reset captured wt) w taken"
proof -
  have cb: "served (callback env reset wt answer) (w\<lparr>fw_captures := x\<rparr>) taken" for answer x
    by (rule served_callback [OF h]) (simp_all add: c i)
  then have cb': "fst (callback env reset wt answer (w\<lparr>fw_captures := x\<rparr>)) = Inr ()"
    "custody (snd (callback env reset wt answer (w\<lparr>fw_captures := x\<rparr>))) taken"
    "owed (fw_db (snd (callback env reset wt answer (w\<lparr>fw_captures := x\<rparr>)))) = owed (fw_db w)" for answer x
    by (simp_all add: served_def)
  have "custody (w\<lparr>fw_waiting := fw_waiting w @ [wt\<lparr>wt_attempt := a\<rparr>]\<rparr>) taken" for a
    using c i by (auto simp: custody_def in_capture_def settling_def wait_ids_def)
  with c cb' show ?thesis
    by (auto simp: completeItemFrameCapture_def served_def Let_def svc_runs captures_erase_def executeS_def returnS_def
        split: sum.split option.split)
qed

lemma take_task:
  assumes c: "custody w taken" and n: "n < length (fw_waiting w)"
  defines "w0 \<equiv> w\<lparr>fw_waiting := take n (fw_waiting w) @ drop (Suc n) (fw_waiting w)\<rparr>"
  shows "custody w0 taken" "in_capture w0 (fl_id (wt_listing (fw_waiting w ! n)))"
proof -
  let ?f = "\<lambda>t. fl_id (wt_listing t)"
  let ?i = "?f (fw_waiting w ! n)"
  have w: "wait_ids w = map ?f (take n (fw_waiting w)) @ ?i # map ?f (drop (Suc n) (fw_waiting w))"
    using arg_cong [OF id_take_nth_drop [OF n], of "map ?f"] by (simp add: wait_ids_def)
  have w0: "wait_ids w0 = map ?f (take n (fw_waiting w)) @ map ?f (drop (Suc n) (fw_waiting w))"
    by (simp add: w0_def wait_ids_def)
  have in_w: "?i \<in> set (wait_ids w)" and out: "?i \<notin> set (wait_ids w0)" and dist: "distinct (wait_ids w0)"
    and sub: "set (wait_ids w0) \<subseteq> set (wait_ids w)"
    using custodyD(6) [OF c] unfolding w w0 by auto
  have same: "fw_db w0 = fw_db w" "fw_pending w0 = fw_pending w" "drop_ids w0 = drop_ids w" "fw_drops w0 = fw_drops w"
    by (simp_all add: w0_def)
  show "custody w0 taken" using c dist sub unfolding custody_def same by blast
  show "in_capture w0 ?i" using custodyD(7-10) [OF c in_w] out by (simp add: in_capture_def settling_def same)
qed

section \<open>Settling keeps custody\<close>

lemma served_adopt:
  assumes c: "custody w taken" and i: "settling w i" and f: "findFrameSaleDrop i w = Some n"
  shows "served (adoptFrameSaleDrop env i n) w taken"
proof -
  let ?w = "w\<lparr>fw_drops := (fw_drops w)[n := adopt_drop (fe_host env) i (fw_drops w ! n)]\<rparr>"
  have c': "custody ?w taken" by (rule custody_adopt [OF c f])
  have i': "settling ?w i" using i by (simp add: settling_def)
  note M = mark_facts(1) [OF custodyD(1) [OF c], of i]
  show ?thesis using served_marked(2,3) [OF c' i'] M i
    by (simp add: adoptFrameSaleDrop_def served_def catchS_def svc_runs bindS_def [of "catchS _ _"] on_service_def
        pending_erase_def executeS_def settling_def)
qed

text \<open>A view of a listing that asks for settling only if the listing does.\<close>

definition due :: "frame_world \<Rightarrow> FrameListing \<Rightarrow> bool" where
  "due w l \<longleftrightarrow> fl_id l < 2 ^ 64 \<and> (fl_status l = FramePaid \<or> fl_status l = FrameDropped \<longrightarrow> owed (fw_db w) (fl_id l))"

definition steady :: "unit frames \<Rightarrow> frame_world \<Rightarrow> Id list \<Rightarrow> bool" where
  "steady m w taken \<longleftrightarrow> custody (snd (m w)) taken \<and> owed (fw_db (snd (m w))) = owed (fw_db w)"

lemma served_steady: "served m w taken \<Longrightarrow> steady m w taken"
  by (simp add: served_def steady_def)

lemma steady_settle:
  assumes h: "host_laws (fe_host env)" and c: "custody w taken" and d: "due w l"
  shows "steady (settleFrameListing env l) w taken"
proof -
  let ?i = "fl_id l"
  have still: "steady (returnS ()) w taken" "steady (index_erase k) w taken" for k
    using c by (simp_all add: steady_def returnS_def index_erase_def executeS_def)
  show ?thesis
  proof (cases "fw_ready w \<and> (fl_status l = FramePaid \<or> fl_status l = FrameDropped)")
    case False
    with still show ?thesis by (auto simp: settleFrameListing_def steady_def svc_runs Let_def)
  next
    case due: True
    then have o: "owed (fw_db w) ?i" "?i < 2 ^ 64" using d by (simp_all add: due_def)
    show ?thesis
    proof (cases "findFrameSaleDrop ?i w")
      case (Some n)
      with found_drop(3) [OF c Some] custodyD(10) [OF c] o have "settling w ?i" by (auto simp: settling_def)
      from served_steady [OF served_adopt [OF c this Some]] due Some show ?thesis
        by (auto simp: settleFrameListing_def steady_def svc_runs Let_def)
    next
      case None
      show ?thesis
      proof (cases "?i \<in> set (fw_pending w)")
        case True
        with None due still show ?thesis by (auto simp: settleFrameListing_def steady_def svc_runs Let_def)
      next
        case False
        then have s: "settling w ?i" using o custodyD(9) [OF c] by (auto simp: settling_def)
        let ?p = "w\<lparr>fw_pending := List.insert ?i (fw_pending w)\<rparr>"
        have cp: "custody ?p taken" using c by (auto simp: custody_def)
        have q: "steady (queueItemFrameCapture env Settle_Capture l (\<lambda>e. settle_callback env (Inr ()) l (Inl e))) ?p taken"
          if "fw_level w"
        proof (rule served_steady [OF served_queue [OF cp]])
          show "settling ?p ?i" using s by simp
          show "?i \<notin> set (drop_ids ?p)" using no_drop [OF c None that] by simp
          then show "served (settle_callback env (Inr ()) l (Inl e)) ?p taken" for e
            using s by (intro served_settle_callback [OF h cp]) (simp add: in_capture_def)
        qed simp
        have lvl: "frame_there l w \<Longrightarrow> fw_level w" by (simp add: frame_there_def)
        show ?thesis
          using None due False q lvl still(1) served_steady [OF served_spawn [OF h c s]] c
          by (auto simp: settleFrameListing_def steady_def svc_runs Let_def pending_insert_def split: sum.split)
      qed
    qed
  qed
qed

lemma steady_settles:
  assumes h: "host_laws (fe_host env)"
  shows "custody w taken \<Longrightarrow> (\<And>l. l \<in> set ls \<Longrightarrow> due w l) \<Longrightarrow>
    steady (mapS (\<lambda>l. bindS (index_put (fl_target_key l) (fl_id l)) (\<lambda>_. settleFrameListing env l)) ls) w taken"
proof (induction ls arbitrary: w)
  case Nil
  then show ?case by (simp add: steady_def returnS_def)
next
  case (Cons l ls)
  let ?w = "w\<lparr>fw_index := AList.update (fl_target_key l) (fl_id l) (fw_index w)\<rparr>"
  obtain r w' where run: "settleFrameListing env l ?w = (r, w')" by fastforce
  have "due ?w l" using Cons.prems(2) [of l] by (simp add: due_def)
  from steady_settle [OF h _ this, of taken] Cons.prems(1) run have c: "custody w' taken" "owed (fw_db w') = owed (fw_db w)"
    by (simp_all add: steady_def)
  have "due w' x" if "x \<in> set ls" for x using Cons.prems(2) [of x] that c(2) by (simp add: due_def)
  note I = Cons.IH [OF c(1) this]
  have "bindS (index_put (fl_target_key l) (fl_id l)) (\<lambda>_. settleFrameListing env l) w = (r, w')"
    using run by (simp add: index_put_def svc_runs)
  with I c show ?case by (cases r) (simp_all add: steady_def bindS_def [of "bindS _ _"])
qed

definition ids_fit :: "db \<Rightarrow> bool" where
  "ids_fit s \<longleftrightarrow> (\<forall>f \<in> set (listings s). f_id f < 2 ^ 64)"

lemma view_due:
  assumes "shop_ok (fw_db w)" and "ids_fit (fw_db w)" and "f \<in> set (listings (fw_db w))"
  shows "due w (listing_view f)"
  using assms listing_of_unique [OF shop_okD(3) [OF assms(1)] assms(3)]
  by (auto simp: due_def ids_fit_def owed_def listing_view_def)

lemma steady_recover:
  assumes h: "host_laws (fe_host env)" and c: "custody w taken" and fit: "ids_fit (fw_db w)"
  shows "steady (recoverFrameListings env) w taken"
proof -
  let ?ls = "map listing_view (sort_key f_id (filter (\<lambda>f. f_status f = FramePaid \<or> f_status f = FrameDropped) (listings (fw_db w))))"
  have due: "due w l" if "l \<in> set ?ls" for l
    using view_due [OF custodyD(1) [OF c] fit] that by auto
  have S: "steady (mapS (\<lambda>l. bindS (index_put (fl_target_key l) (fl_id l)) (\<lambda>_. settleFrameListing env l)) ?ls) w taken"
    by (rule steady_settles [OF h c]) (rule due)
  obtain r w' where run: "mapS (\<lambda>l. bindS (index_put (fl_target_key l) (fl_id l)) (\<lambda>_. settleFrameListing env l)) ?ls w = (r, w')"
    by fastforce
  have "on_service unsettledFrameListings w = (Inr ?ls, w)"
    by (simp add: on_service_def unsettledFrameListings_def queryS_def)
  with S [unfolded steady_def run] c run show ?thesis
    by (cases r) (simp_all add: recoverFrameListings_def steady_def whenS_def svc_runs logged_only_def catchS_def ignore_def
        returnS_def bindS_def [of "bindS _ _"] bindS_def [of "on_service _"])
qed

section \<open>Handing out\<close>

definition hand_over :: "Id \<Rightarrow> db \<Rightarrow> db" where
  "hand_over i s = snd (completeFrameListingPickup i (mark i s))"

lemma hand_over_facts:
  assumes ok: "shop_ok s" and "owed s i"
  shows "completeFrameListingPickup i (mark i s) = (Inr (), hand_over i s)" "shop_ok (hand_over i s)"
    "owed (hand_over i s) j \<longleftrightarrow> owed s j \<and> j \<noteq> i" "claimed (hand_over i s) j \<longleftrightarrow> claimed s j \<or> j = i"
proof -
  note M = mark_facts [OF assms]
  from M(5) obtain f where f: "listing_of (mark i s) i = Some f" "f_status f = FrameDropped" by blast
  have step: "listing_step 0 (mark i s) (with_listing i (set_listing FrameClaimed) True (mark i s))"
    by (rule status_step [OF M(2) f(1)]) (use f in \<open>auto simp: sold_listing_def in_place_def\<close>)
  have run: "completeFrameListingPickup i (mark i s) = (Inr (), with_listing i (set_listing FrameClaimed) True (mark i s))"
    using pickup_eq [OF f(1)] f(2) by simp
  have row: "listing_of (with_listing i (set_listing FrameClaimed) True (mark i s)) j =
      (if j = i then Some (set_listing FrameClaimed f) else listing_of (mark i s) j)" for j
    by (rule set_listing.with_row [OF f(1)])
  show "completeFrameListingPickup i (mark i s) = (Inr (), hand_over i s)" "shop_ok (hand_over i s)"
    using run step by (simp_all add: hand_over_def listing_step_def)
  show "owed (hand_over i s) j \<longleftrightarrow> owed s j \<and> j \<noteq> i" "claimed (hand_over i s) j \<longleftrightarrow> claimed s j \<or> j = i"
    using M(3,4) [of j] run by (auto simp: hand_over_def owed_def claimed_def row)
qed

definition without :: "nat \<Rightarrow> frame_world \<Rightarrow> frame_world" where
  "without n w = w\<lparr>fw_drops := take n (fw_drops w) @ drop (Suc n) (fw_drops w)\<rparr>"

definition handed :: "ItemDrop \<Rightarrow> Id list" where
  "handed d = (case drop_marker d of None \<Rightarrow> [] | Some i \<Rightarrow> [i])"

lemma drops_split:
  "n < length (fw_drops w) \<Longrightarrow> drop_ids w = List.map_filter drop_marker (take n (fw_drops w)) @ handed (fw_drops w ! n) @
    List.map_filter drop_marker (drop (Suc n) (fw_drops w))"
  using arg_cong [OF id_take_nth_drop [of n "fw_drops w"], of "List.map_filter drop_marker"]
  by (simp add: drop_ids_def handed_def List.map_filter_simps split: option.splits)

lemma drop_ids_without:
  "drop_ids (without n w) = List.map_filter drop_marker (take n (fw_drops w)) @ List.map_filter drop_marker (drop (Suc n) (fw_drops w))"
  by (simp add: drop_ids_def without_def)

lemma custody_pickup:
  assumes c: "custody w taken" and n: "n < length (fw_drops w)" and ready: "fw_ready w"
  shows "\<exists>w'. onPlayerPickupItem n w = (Inr True, w') \<and> custody (without n w') (handed (fw_drops w ! n) @ taken)"
proof (cases "drop_marker (fw_drops w ! n)")
  case None
  with ready have "onPlayerPickupItem n w = (Inr True, w)" by (simp add: onPlayerPickupItem_def svc_runs drop_marker_def returnS_def)
  moreover have "custody (without n w) taken"
    using c drops_split [OF n] None unfolding custody_def drop_ids_without
    by (auto simp: handed_def without_def wait_ids_def dest: in_set_takeD in_set_dropD)
  ultimately show ?thesis using None by (simp add: handed_def)
next
  case (Some i)
  let ?d = "fw_drops w ! n" and ?s = "hand_over i (fw_db w)"
  have i: "i \<in> set (drop_ids w)" using Some n by (auto simp: drop_ids_iff)
  note o = custodyD(4) [OF c i] and H = hand_over_facts [OF custodyD(1) [OF c] custodyD(4) [OF c i]]
  note M = mark_facts(1) [OF custodyD(1) [OF c] o]
  have nw: "i \<notin> set (wait_ids w)" using custodyD(10) [OF c] i by blast
  have clear: "\<exists>item'. clearFrameSaleItemTag_item (dp_item ?d) i = (True, item')"
    using Some by (simp add: clear_item_marker_def clear_nbt_marker_def markerId_erase drop_marker_def frameSaleItemId_def)
  then obtain item' where cl: "clearFrameSaleItemTag_item (dp_item ?d) i = (True, item')" by blast
  have "\<exists>x. onPlayerPickupItem n w = (Inr True, w\<lparr>fw_db := ?s, fw_index := x, fw_drops := (fw_drops w)[n := ?d\<lparr>dp_item := item'\<rparr>]\<rparr>)"
    using ready Some M H(1) cl
    by (intro exI [of _ "case listing_of ?s i of None \<Rightarrow> fw_index w | Some f \<Rightarrow> AList.delete (fl_target_key (listing_view f)) (fw_index w)"])
      (cases "listing_of ?s i", simp_all add: onPlayerPickupItem_def svc_runs drop_marker_def catchS_def
        bindS_def [of "on_service _"] bindS_def [of "index_erase _"] on_service_def findFrameListing_def queryS_def
        index_erase_def executeS_def returnS_def)
  then obtain x w' where r: "onPlayerPickupItem n w = (Inr True, w')" and
    w': "w' = w\<lparr>fw_db := ?s, fw_index := x, fw_drops := (fw_drops w)[n := ?d\<lparr>dp_item := item'\<rparr>]\<rparr>" by blast
  have fields: "fw_db (without n w') = ?s" "fw_pending (without n w') = fw_pending w" "wait_ids (without n w') = wait_ids w"
    "fw_drops (without n w') = take n (fw_drops w) @ drop (Suc n) (fw_drops w)" "drop_ids (without n w') = drop_ids (without n w)"
    using n by (simp_all add: w' without_def wait_ids_def drop_ids_def)
  have ds: "distinct (drop_ids (without n w))" "i \<notin> set (drop_ids (without n w))" "set (drop_ids (without n w)) \<subseteq> set (drop_ids w)"
    using custodyD(2) [OF c] drops_split [OF n] Some unfolding drop_ids_without by (auto simp: handed_def)
  have tk: "i \<notin> set taken" using custodyD(12) [OF c] owed_not_claimed [OF o] by blast
  have "custody (without n w') (i # taken)"
    unfolding custody_def fields
  proof (intro conjI)
    show "\<forall>j \<in> set (drop_ids (without n w)). j < 2 ^ 64 \<and> owed ?s j"
      using ds custodyD(3,4) [OF c] H(3) by blast
    show "\<forall>d \<in> set (take n (fw_drops w) @ drop (Suc n) (fw_drops w)). tags_honest d"
      using custodyD(5) [OF c] by (auto dest: in_set_takeD in_set_dropD)
    show "\<forall>j \<in> set (wait_ids w). j < 2 ^ 64 \<and> owed ?s j \<and> j \<in> set (fw_pending w) \<and> j \<notin> set (drop_ids (without n w))"
      using custodyD(7-10) [OF c] nw ds(3) H(3) by blast
    show "\<forall>j \<in> set (i # taken). claimed ?s j" using custodyD(12) [OF c] H(4) by auto
  qed (use H(2) ds custodyD(6,11) [OF c] tk in simp_all)
  then show ?thesis using r Some by (simp add: handed_def)
qed

section \<open>Listing operations leave sold rows alone\<close>

fun offer_op :: "listing_op \<Rightarrow> bool" where
  "offer_op (Dropped i) = False"
| "offer_op (Picked_Up i) = False"
| "offer_op _ = True"

lemma offer_keeps:
  assumes cfg: "config_ok cfg" and ok: "shop_ok s" and op: "offer_op op" and run: "run_listing cfg op s = (r, s')"
    and f: "listing_of s j = Some f" "sold_listing (f_status f)"
  shows "listing_of s' j = Some f"
proof (cases op)
  case (Take_Down i u adm)
  show ?thesis
  proof (cases "listing_of s i")
    case None
    with run Take_Down no_listing(1) [OF None, of u adm] f show ?thesis by simp
  next
    case (Some g)
    have "j \<noteq> i \<or> f_status g \<noteq> FrameActive" using Some f by (auto simp: sold_listing_def)
    with cancel_eq [OF Some, of u adm] run Take_Down f set_listing.with_row [OF Some, of FrameCanceled True j] show ?thesis
      by (auto split: if_splits)
  qed
next
  case (Upsert l adm)
  then obtain r' where "upsertFrameListing cfg l adm s = (r', s')" using run by (auto simp: ignore_state)
  from upsert_cases [OF cfg shop_okD(4,3) [OF ok] this] show ?thesis
  proof (elim disjE conjE exE)
    fix r1 assume "ensureAccount cfg (fl_seller_uuid l) (fl_seller_name l) s = (r1, s')"
    from ensure_listing_of [OF cfg shop_okD(4) [OF ok] this] f show ?thesis by simp
  next
    fix s1 i assume cl: "complete_listing l" and e: "ensureAccount cfg (fl_seller_uuid l) (fl_seller_name l) s = (Inr (), s1)"
      and rep: "replaceable s1 l adm" and i: "i = fresh_id f_id (listings (cleared l s1))" and s': "s' = offered l i (cleared l s1)"
    have ok1: "shop_ok s1" using listing_step_account [OF cfg ok e] by (simp add: listing_step_def)
    have f1: "listing_of s1 j = Some f" using f ensure_listing_of [OF cfg shop_okD(4) [OF ok] e] by simp
    note C = cleared_facts [OF shop_okD(3) [OF ok1] rep]
    have acc: "account_of (cleared l s1) (fl_seller_uuid l) \<noteq> None"
      using ensureAccount_effect(3) [OF cfg shop_okD(4) [OF ok] e refl] by (simp add: cleared_def split: option.splits)
    have "0 < fl_price l" using cl by (simp add: complete_listing_def)
    note O = offered_ok(2) [OF C(1,2) this acc i, of j]
    have "bound_listing s1 (fl_target_key l) \<noteq> Some f" using rep f(2) by (auto simp: replaceable_def sold_listing_def)
    with C(4) [OF f1] have "listing_of (cleared l s1) j = Some f" by blast
    moreover have "j \<noteq> i" using listing_of_Some [OF f1] C(5) unfolding i by (metis fresh_id_notin image_eqI set_map)
    ultimately show ?thesis using O by (simp add: s')
  qed (use f in simp)
next
  case (Purchase i u n p)
  then obtain r' where r': "purchaseFrameListing cfg i u n p s = (r', s')" using run by (auto simp: ignore_state)
  show ?thesis
  proof (cases r')
    case (Inl e)
    from purchase_Inl [OF r' [unfolded Inl]] f ensure_listing_of [OF cfg shop_okD(4) [OF ok]] show ?thesis by auto
  next
    case (Inr x)
    from purchase_Inr [OF cfg shop_okD(4) [OF ok] r' [unfolded Inr]] obtain s1 g where
      e: "ensureAccount cfg u n s = (Inr (), s1)" and g: "listing_of s1 i = Some g" "f_status g = FrameActive" "f_seller g \<noteq> u"
      and pd: "paid i g u n s1 s'" by metis
    have ok1: "shop_ok s1" using listing_step_account [OF cfg ok e] by (simp add: listing_step_def)
    have f1: "listing_of s1 j = Some f" using f ensure_listing_of [OF cfg shop_okD(4) [OF ok] e] by simp
    have "j \<noteq> i" using g f f1 by (auto simp: sold_listing_def)
    from paid_step(3) [OF ok1 g pd f1 this] show ?thesis .
  qed
qed (use op in simp_all)

lemma custody_follow:
  assumes c: "custody w taken" and ok: "shop_ok s'"
    and keep: "\<And>j f. listing_of (fw_db w) j = Some f \<Longrightarrow> sold_listing (f_status f) \<Longrightarrow> listing_of s' j = Some f"
  shows "custody (w\<lparr>fw_db := s'\<rparr>) taken"
proof -
  have "owed s' i" if "owed (fw_db w) i" for i using that keep by (auto simp: owed_def sold_listing_def)
  moreover have "claimed s' i" if "claimed (fw_db w) i" for i using that keep by (auto simp: claimed_def sold_listing_def)
  ultimately show ?thesis using c ok by (simp add: custody_def)
qed

section \<open>Runs\<close>

text \<open>
  One step of the server: a recovery pass, the settlement of one listing, a waiting task (with whatever
  reading the capture gives), a pickup, an operation on listings, a restart of the server, which
  forgets what the plugin has in memory, or anything else that changes the world but neither sold listings, marked items nor captures. This
  describes the world as long as every marked drop stays among the loaded actors until a player picks it up while the
  plugin is ready: a pickup before that (the handler returns at once then), a drop whose chunk is unloaded, one that is destroyed and one
  that goes into a hopper are no steps; \<open>dropped_again\<close> shows what becomes of them.
\<close>

definition world_changes :: "frame_world \<Rightarrow> frame_world \<Rightarrow> bool" where
  "world_changes w w' \<longleftrightarrow> shop_ok (fw_db w') \<and> listing_of (fw_db w') = listing_of (fw_db w) \<and>
     fw_pending w' = fw_pending w \<and> fw_waiting w' = fw_waiting w \<and>
     (\<exists>ds. fw_drops w' = fw_drops w @ ds \<and> (\<forall>d \<in> set ds. drop_marker d = None \<and> tags_honest d))"

inductive frame_step :: "service_config \<Rightarrow> frame_env \<Rightarrow> frame_world \<times> Id list \<Rightarrow> frame_world \<times> Id list \<Rightarrow> bool" for cfg env where
  recovery: "ids_fit (fw_db w) \<Longrightarrow> recoverFrameListings env w = (r, w') \<Longrightarrow> frame_step cfg env (w, taken) (w', taken)"
| settlement: "ids_fit (fw_db w) \<Longrightarrow> f \<in> set (listings (fw_db w)) \<Longrightarrow> settleFrameListing env (listing_view f) w = (r, w') \<Longrightarrow>
    frame_step cfg env (w, taken) (w', taken)"
| task: "n < length (fw_waiting w) \<Longrightarrow>
    completeItemFrameCapture env reset captured (fw_waiting w ! n)
      (w\<lparr>fw_waiting := take n (fw_waiting w) @ drop (Suc n) (fw_waiting w)\<rparr>) = (r, w') \<Longrightarrow>
    frame_step cfg env (w, taken) (w', taken)"
| pickup: "fw_ready w \<Longrightarrow> n < length (fw_drops w) \<Longrightarrow> onPlayerPickupItem n w = (Inr True, w') \<Longrightarrow>
    frame_step cfg env (w, taken) (without n w', handed (fw_drops w ! n) @ taken)"
| refused: "fw_ready w \<Longrightarrow> n < length (fw_drops w) \<Longrightarrow> onPlayerPickupItem n w = (Inr False, w') \<Longrightarrow>
    frame_step cfg env (w, taken) (w', taken)"
| listing: "offer_op op \<Longrightarrow> run_listing cfg op (fw_db w) = (r, s') \<Longrightarrow> frame_step cfg env (w, taken) (w\<lparr>fw_db := s'\<rparr>, taken)"
| restart: "frame_step cfg env (w, taken) (w\<lparr>fw_captures := [], fw_pending := [], fw_index := [], fw_waiting := []\<rparr>, taken)"
| world: "world_changes w w' \<Longrightarrow> frame_step cfg env (w, taken) (w', taken)"

lemma custody_world:
  assumes c: "custody w taken" and w: "world_changes w w'"
  shows "custody w' taken"
proof -
  from w obtain ds where w': "shop_ok (fw_db w')" "listing_of (fw_db w') = listing_of (fw_db w)" "fw_pending w' = fw_pending w"
    "fw_waiting w' = fw_waiting w" "fw_drops w' = fw_drops w @ ds" and ds: "\<And>d. d \<in> set ds \<Longrightarrow> drop_marker d = None \<and> tags_honest d"
    unfolding world_changes_def by blast
  have "List.map_filter drop_marker ds = []" using ds by (induction ds) (simp_all add: List.map_filter_simps)
  then have "drop_ids w' = drop_ids w" "wait_ids w' = wait_ids w" using w' by (simp_all add: drop_ids_def wait_ids_def)
  moreover have "owed (fw_db w') = owed (fw_db w)" "claimed (fw_db w') = claimed (fw_db w)"
    using w'(2) by (auto simp: owed_def claimed_def)
  ultimately show ?thesis using c w' ds unfolding custody_def by auto
qed

lemma frame_step_custody:
  assumes step: "frame_step cfg env p q" and cfg: "config_ok cfg" and h: "host_laws (fe_host env)"
    and c: "custody (fst p) (snd p)"
  shows "custody (fst q) (snd q)"
  using step c
proof cases
  case (recovery w r w' taken)
  with steady_recover [OF h, of w taken] c show ?thesis by (simp add: steady_def)
next
  case (settlement w f r w' taken)
  with steady_settle [OF h _ view_due, of w taken f] c custodyD(1) [of w taken] show ?thesis by (simp add: steady_def)
next
  case (task n w reset captured r w' taken)
  let ?w = "w\<lparr>fw_waiting := take n (fw_waiting w) @ drop (Suc n) (fw_waiting w)\<rparr>"
  have w: "custody w taken" using task c by simp
  have "served (completeItemFrameCapture env reset captured (fw_waiting w ! n)) ?w taken"
    by (rule served_complete [OF h take_task [OF w task(3)]])
  with task show ?thesis by (simp add: served_def)
next
  case (pickup w n w' taken)
  with c custody_pickup [of w taken n] show ?thesis by auto
next
  case (refused w n w' taken)
  with c custody_pickup [of w taken n] show ?thesis by auto
next
  case (listing op w r s' taken)
  have w: "custody w taken" using listing c by simp
  have "listing_step (listing_grant cfg op (fw_db w) s') (fw_db w) s'"
    by (rule run_listing_step [OF cfg custodyD(1) [OF w] listing(4)])
  then have "shop_ok s'" by (simp add: listing_step_def)
  with custody_follow [OF w this offer_keeps [OF cfg custodyD(1) [OF w] listing(3,4)]] listing show ?thesis by simp
next
  case (restart w taken)
  have "custody w taken \<Longrightarrow> custody (w\<lparr>fw_captures := [], fw_pending := [], fw_index := [], fw_waiting := []\<rparr>) taken"
    by (auto simp: custody_def wait_ids_def)
  with restart c show ?thesis by simp
next
  case (world w w' taken)
  with c custody_world show ?thesis by simp
qed

lemma frame_steps_custody:
  assumes "(frame_step cfg env)\<^sup>*\<^sup>* p q" and "config_ok cfg" and "host_laws (fe_host env)" and "custody (fst p) (snd p)"
  shows "custody (fst q) (snd q)"
  using assms by (induction rule: rtranclp_induct) (blast intro: frame_step_custody)+

section \<open>The way of a sold item out of its frame\<close>

definition popped :: "frame_world \<Rightarrow> frame_world" where
  "popped w = w\<lparr>fw_waiting := butlast (fw_waiting w)\<rparr>"

text \<open>The three tasks in a row: settle, clear the frame, verify and drop.\<close>

definition settle_in_row :: "frame_env \<Rightarrow> CapturedFrameItem \<Rightarrow> FrameListing \<Rightarrow> frame_world \<Rightarrow> frame_world" where
  "settle_in_row env c l w =
    (let w1 = snd (settleFrameListing env l w);
       w2 = snd (completeItemFrameCapture env (Inr ()) (Inr (Some c)) (last (fw_waiting w1)) (popped w1)) in
     snd (completeItemFrameCapture env (Inr ()) (Inr None) (last (fw_waiting w2)) (popped w2)))"

definition capture_name :: "FrameListing \<Rightarrow> frame_world \<Rightarrow> string" where
  "capture_name l w = structure_name (fl_x l) (fl_y l) (fl_z l) (fw_clock w)"

definition capturing :: "capture_kind \<Rightarrow> FrameListing \<Rightarrow> frame_world \<Rightarrow> frame_world" where
  "capturing kind l w = w\<lparr>fw_pending := fl_id l # fw_pending w,
     fw_captures := AList.update (fl_target_key l) (capture_name l w) (fw_captures w),
     fw_waiting := fw_waiting w @ [\<lparr>wt_kind = kind, wt_listing = l, wt_name = capture_name l w, wt_attempt = 1\<rparr>]\<rparr>"

lemma popped_capturing: "popped (capturing kind l w) = w\<lparr>fw_pending := fl_id l # fw_pending w,
    fw_captures := AList.update (fl_target_key l) (capture_name l w) (fw_captures w)\<rparr>"
  "last (fw_waiting (capturing kind l w)) = \<lparr>wt_kind = kind, wt_listing = l, wt_name = capture_name l w, wt_attempt = 1\<rparr>"
  by (simp_all add: popped_def capturing_def)

lemma delete_fresh: "map_of xs k = None \<Longrightarrow> AList.delete k xs = xs" "map_of xs k = None \<Longrightarrow> AList.delete k (AList.update k v xs) = xs"
  by (induction xs) (auto simp: AList.delete_eq split: if_splits)

lemma settle_stages:
  assumes h: "host_laws (fe_host env)" and c: "custody w taken" and d: "due w l" "fl_status l = FramePaid"
    and ready: "fw_ready w" "fw_command w" and new: "findFrameSaleDrop (fl_id l) w = None" "fl_id l \<notin> set (fw_pending w)"
      "map_of (fw_captures w) (fl_target_key l) = None"
    and there: "listing_chunk l = Inr chunk" "chunk \<in> set (fw_chunks w)" "frame_there l w"
    and item: "sampleItem (fe_host env) (fl_item l) = Inr item"
    and seen: "captured_prototype env cap = Inr it" "sameItem (fl_item l) it"
  shows "snd (settleFrameListing env l w) = capturing Settle_Capture l w" (is ?A)
    "snd (completeItemFrameCapture env (Inr ()) (Inr (Some cap)) (last (fw_waiting (capturing Settle_Capture l w)))
      (popped (capturing Settle_Capture l w))) = capturing Verify_Capture l w" (is ?B)
    "snd (completeItemFrameCapture env (Inr ()) (Inr None) (last (fw_waiting (capturing Verify_Capture l w)))
      (popped (capturing Verify_Capture l w))) =
      w\<lparr>fw_drops := fw_drops w @ [new_drop (fe_host env) (fl_id l) item], fw_db := mark (fl_id l) (fw_db w)\<rparr>" (is ?C)
    "settle_in_row env cap l w = w\<lparr>fw_drops := fw_drops w @ [new_drop (fe_host env) (fl_id l) item],
      fw_db := mark (fl_id l) (fw_db w)\<rparr>"
proof -
  let ?i = "fl_id l" and ?k = "fl_target_key l"
  have lvl: "fw_level w" "fl_dimension l \<in> set (fw_dimensions w)" using there(3) by (simp_all add: frame_there_def)
  let ?p = "w\<lparr>fw_pending := ?i # fw_pending w\<rparr>"
  have there': "frame_there l (w\<lparr>fw_pending := p, fw_captures := cs\<rparr>)" "frame_there l (w\<lparr>fw_pending := p\<rparr>)" for p cs
    using there(3) by (simp_all add: frame_there_def)
  have erased: "AList.delete ?k (AList.update ?k n (fw_captures w)) = fw_captures w" "removeAll ?i (fw_pending w) = fw_pending w" for n
    using new by (simp_all add: delete_fresh)
  have known: "map_of (AList.update ?k n (fw_captures w)) ?k = Some n" for n by (simp add: update_conv')
  show w1: ?A
    using d ready new there lvl by (simp add: settleFrameListing_def svc_runs Let_def pending_insert_def
        queueItemFrameCapture_def executeS_def capturing_def capture_name_def)
  show w2: ?B unfolding popped_capturing unfolding capturing_def capture_name_def
    using ready new(3) there' seen lvl erased known
    by (simp add: completeItemFrameCapture_def svc_runs captures_erase_def callback_def settle_callback_def
        catchS_def verifyFrameClearedAndDrop_def queueItemFrameCapture_def executeS_def Let_def)
  have o: "owed (fw_db w) ?i" "?i < 2 ^ 64" using d by (simp_all add: due_def)
  then have st: "settling ?p ?i" using new(2) custodyD(9) [OF c] by (auto simp: settling_def)
  have cp: "custody ?p taken" using c by (auto simp: custody_def)
  have none: "findFrameSaleDrop ?i ?p = None" using new(1) by (simp add: findFrameSaleDrop_def split: if_splits)
  have spawn: "spawnFrameSaleDrop env l ?p = (Inr (), w\<lparr>fw_drops := fw_drops w @ [new_drop (fe_host env) ?i item],
      fw_db := mark ?i (fw_db w)\<rparr>)"
    using spawn_cases(2) [OF h cp st none _ _ item] lvl erased(2) by simp
  show w3: ?C unfolding popped_capturing
    using ready there' spawn erased known
    by (simp add: completeItemFrameCapture_def svc_runs captures_erase_def callback_def verify_callback_def Let_def)
  show "settle_in_row env cap l w = w\<lparr>fw_drops := fw_drops w @ [new_drop (fe_host env) (fl_id l) item],
      fw_db := mark (fl_id l) (fw_db w)\<rparr>"
    by (simp only: settle_in_row_def w1 w2 w3 Let_def)
qed

text \<open>
  A listing recorded as dropped is dropped again when no drop of it is among the loaded actors, also
  when the first one only left the loaded chunks or went into a hopper.
\<close>

lemma dropped_again:
  assumes h: "host_laws (fe_host env)" and c: "custody w taken" and d: "due w l" "fl_status l = FrameDropped"
    and w: "fw_ready w" "fw_level w" "fl_dimension l \<in> set (fw_dimensions w)" "findFrameSaleDrop (fl_id l) w = None"
      "fl_id l \<notin> set (fw_pending w)" "listing_chunk l = Inr chunk" "chunk \<in> set (fw_chunks w)" "\<not> frame_there l w"
    and item: "sampleItem (fe_host env) (fl_item l) = Inr item"
  shows "fw_drops (snd (settleFrameListing env l w)) = fw_drops w @ [new_drop (fe_host env) (fl_id l) item]"
proof -
  have "settling w (fl_id l)" using d w custodyD(9) [OF c] by (auto simp: settling_def due_def)
  from spawn_cases(2) [OF h c this w(4,2,3) item] d w show ?thesis
    by (simp add: settleFrameListing_def svc_runs Let_def)
qed

section \<open>Properties\<close>

definition demo_frame_env :: frame_env where
  "demo_frame_env = \<lparr>fe_host = demo_host, fe_table = [], fe_shown = (\<lambda>item. Some (is_type item)),
     fe_stack = (\<lambda>c. Inr \<lparr>is_type = cf_type c, is_data = cf_data c, is_amount = 1, is_nbt = cf_nbt c\<rparr>)\<rparr>"

definition demo_capture :: CapturedFrameItem where
  "demo_capture = \<lparr>cf_type = ''minecraft:stone'', cf_data = 0, cf_nbt = []\<rparr>"

definition demo_captured :: ItemPrototype where
  "demo_captured = projr (captured_prototype demo_frame_env demo_capture)"

definition demo_row2 :: listing_row where
  "demo_row2 = set_paid ''dave'' ''dave'' (new_listing 2 ((demo_offer 2 ''frame9'' ''carol'' 40)\<lparr>fl_item := demo_captured\<rparr>))"

definition demo_frames :: db where
  "demo_frames = demo_shop\<lparr>listings := [new_listing 1 (demo_offer 1 ''frame8'' ''bob'' 250), demo_row2]\<rparr>"

definition demo_world :: frame_world where
  "demo_world = \<lparr>fw_db = demo_frames, fw_ready = True, fw_index = [(''frame9'', 2)], fw_pending = [], fw_captures = [], fw_clock = 0,
     fw_waiting = [], fw_chunks = [chunkKey ''Overworld'' 0 (- 1)], fw_level = True, fw_dimensions = [''Overworld''],
     fw_blocks = (\<lambda>p. Some ''minecraft:frame''), fw_command = True, fw_drops = []\<rparr>"

definition demo_sold_frame :: FrameListing where
  "demo_sold_frame = listing_view demo_row2"

lemma demo_frames_ok: "shop_ok demo_frames"
proof -
  have "listings_ok demo_frames" unfolding listings_ok_def by code_simp
  with demo_shop_ok show ?thesis by (simp add: shop_ok_def demo_frames_def)
qed

lemma demo_custody: "custody demo_world []"
  using demo_frames_ok by (simp add: custody_def demo_world_def drop_ids_def wait_ids_def List.map_filter_simps)

lemma demo_row: "listing_of demo_frames 2 = Some demo_row2" "f_status demo_row2 = FramePaid"
  by code_simp+

lemma demo_sold_frame_fields:
  "fl_id demo_sold_frame = 2" "fl_status demo_sold_frame = FramePaid" "fl_target_key demo_sold_frame = ''frame9''"
  "fl_dimension demo_sold_frame = ''Overworld''" "fl_x demo_sold_frame = 5" "fl_y demo_sold_frame = 64" "fl_z demo_sold_frame = - 3"
  "fl_item demo_sold_frame = demo_captured"
  by code_simp+

text \<open>
  C37: However settlements, recovery passes, capture callbacks, pickups, listing operations and restarts of the
  server are interleaved, whatever the captures read and whenever clearing a frame fails, a sold item is at most
  once among the drops in the world and the items handed to players: the items in the world belong to
  listings whose buyer still waits for the item, those handed out to claimed listings. This holds as long as
  marked drops leave the world only by pickups that the ready plugin handles. A drop that is picked up before the
  plugin is ready, unloaded with its chunk, destroyed or taken by a hopper is not found again, and
  the next recovery drops the item a second time.
\<close>

theorem sold_item_handed_out_once:
  assumes "config_ok cfg" and "host_laws (fe_host env)" and "custody w taken"
    and "(frame_step cfg env)\<^sup>*\<^sup>* (w, taken) (w', taken')"
  shows "distinct (drop_ids w' @ taken') \<and> set (drop_ids w') \<subseteq> Collect (owed (fw_db w')) \<and>
    set taken' \<subseteq> Collect (claimed (fw_db w'))"
proof -
  from frame_steps_custody [OF assms(4,1,2)] assms(3) have c: "custody w' taken'" by simp
  from custody_apart [OF this] custodyD(4,12) [OF this] show ?thesis by blast
qed

definition demo_settled :: frame_world where
  "demo_settled = settle_in_row demo_frame_env demo_capture demo_sold_frame demo_world"

text \<open>The demo listing is settled, dropped and picked up.\<close>

lemma demo_due: "due demo_world demo_sold_frame"
  using demo_row by (simp add: due_def demo_sold_frame_fields owed_def demo_world_def)

lemma demo_ready:
  "fw_ready demo_world" "fw_command demo_world" "findFrameSaleDrop (fl_id demo_sold_frame) demo_world = None"
  "fl_id demo_sold_frame \<notin> set (fw_pending demo_world)" "map_of (fw_captures demo_world) (fl_target_key demo_sold_frame) = None"
  "listing_chunk demo_sold_frame = Inr (chunkKey ''Overworld'' 0 (- 1))"
  "chunkKey ''Overworld'' 0 (- 1) \<in> set (fw_chunks demo_world)" "frame_there demo_sold_frame demo_world"
  by (simp_all add: demo_world_def findFrameSaleDrop_def frame_there_def demo_sold_frame_fields isItemFrameBlock_def)
    (code_simp)

lemma demo_capture_read:
  "sampleItem (fe_host demo_frame_env) (fl_item demo_sold_frame) =
    Inr \<lparr>is_type = ''minecraft:stone'', is_data = 0, is_amount = 1, is_nbt = []\<rparr>"
  "captured_prototype demo_frame_env demo_capture = Inr demo_captured" "sameItem (fl_item demo_sold_frame) demo_captured"
proof -
  show "sampleItem (fe_host demo_frame_env) (fl_item demo_sold_frame) =
    Inr \<lparr>is_type = ''minecraft:stone'', is_data = 0, is_amount = 1, is_nbt = []\<rparr>" by code_simp
  have "\<not> isl (captured_prototype demo_frame_env demo_capture)" by code_simp
  then show "captured_prototype demo_frame_env demo_capture = Inr demo_captured"
    unfolding demo_captured_def by (cases "captured_prototype demo_frame_env demo_capture") simp_all
  show "sameItem (fl_item demo_sold_frame) demo_captured" by (simp add: demo_sold_frame_fields sameItem_def)
qed

lemma demo_host_ok: "host_laws (fe_host demo_frame_env)"
  by (simp add: demo_frame_env_def demo_host_laws)

lemmas demo_stages = settle_stages [OF demo_host_ok demo_custody demo_due demo_sold_frame_fields(2) demo_ready demo_capture_read]

theorem sold_item_handed_out_once_witness:
  "\<exists>w'. (frame_step demo_cfg demo_frame_env)\<^sup>*\<^sup>* (demo_world, []) (w', [2]) \<and> 2 \<notin> set (drop_ids w') \<and>
    claimed (fw_db w') 2"
proof -
  let ?step = "frame_step demo_cfg demo_frame_env"
  have fit: "ids_fit (fw_db demo_world)"
    by (simp add: ids_fit_def demo_world_def demo_frames_def demo_row2_def set_paid_def)
  have row: "demo_row2 \<in> set (listings (fw_db demo_world))" using listing_of_Some [OF demo_row(1)] by (simp add: demo_world_def)
  have s1: "?step (demo_world, []) (capturing Settle_Capture demo_sold_frame demo_world, [])"
    by (rule frame_step.settlement [OF fit row, of _ "fst (settleFrameListing demo_frame_env demo_sold_frame demo_world)"])
      (use demo_stages(1) in \<open>simp add: demo_sold_frame_def prod_eq_iff\<close>)
  have task: "?step (capturing k demo_sold_frame demo_world, []) (w, [])"
    if "snd (completeItemFrameCapture demo_frame_env (Inr ()) (Inr c) (last (fw_waiting (capturing k demo_sold_frame demo_world)))
      (popped (capturing k demo_sold_frame demo_world))) = w" for k c w
    by (rule frame_step.task [of 0])
      (use that in \<open>auto simp: capturing_def popped_def demo_world_def prod_eq_iff\<close>)
  let ?w3 = "demo_world\<lparr>fw_drops := fw_drops demo_world @ [new_drop (fe_host demo_frame_env) (fl_id demo_sold_frame)
        \<lparr>is_type = ''minecraft:stone'', is_data = 0, is_amount = 1, is_nbt = []\<rparr>], fw_db := mark (fl_id demo_sold_frame) (fw_db demo_world)\<rparr>"
  have run3: "?step\<^sup>*\<^sup>* (demo_world, []) (?w3, [])"
    by (rule converse_rtranclp_into_rtranclp [of ?step, OF s1], rule converse_rtranclp_into_rtranclp [of ?step, OF task [OF demo_stages(2)]],
        rule r_into_rtranclp [of ?step, OF task [OF demo_stages(3)]])
  from frame_steps_custody [OF run3 demo_cfg_ok demo_host_ok] demo_custody have c3: "custody ?w3 []" by simp
  have n: "0 < length (fw_drops ?w3)" and r: "fw_ready ?w3" by (simp_all add: demo_world_def)
  from custody_pickup [OF c3 n r] obtain w' where p: "onPlayerPickupItem 0 ?w3 = (Inr True, w')" by blast
  have "handed (fw_drops ?w3 ! 0) = [2]"
    using new_drop_facts(1) [OF demo_host_ok, of 2] by (simp add: demo_world_def demo_sold_frame_fields handed_def)
  with rtranclp.rtrancl_into_rtrancl [of ?step, OF run3 frame_step.pickup [OF r n p]]
  have run: "?step\<^sup>*\<^sup>* (demo_world, []) (without 0 w', [2])" by simp
  from sold_item_handed_out_once [OF demo_cfg_ok demo_host_ok demo_custody run] run show ?thesis by auto
qed

text \<open>
  C38: In the undisturbed case a paid listing is settled in three tasks. The case is: the plugin is ready, no drop of
  the listing is among the loaded actors and nothing is pending for it or its frame, the frame stands in a loaded chunk, commands are
  carried out, the first capture reads the sold item, setting the block anew succeeds, the second capture finds
  the frame empty, and the sold item can be built. Then exactly one drop with the sold item, marked with the listing, appears, the listing is recorded
  as dropped, and nothing is pending any more. (With the frame gone the item drops at once, with another item
  in it after the first capture.)
\<close>

theorem paid_frame_is_settled:
  assumes "host_laws (fe_host env)" and "custody w taken" and "due w l" and "fl_status l = FramePaid"
    and "fw_ready w" and "fw_command w" and "findFrameSaleDrop (fl_id l) w = None" and "fl_id l \<notin> set (fw_pending w)"
    and "map_of (fw_captures w) (fl_target_key l) = None" and "listing_chunk l = Inr chunk" and "chunk \<in> set (fw_chunks w)"
    and "frame_there l w" and "sampleItem (fe_host env) (fl_item l) = Inr item"
    and "captured_prototype env cap = Inr it" and "sameItem (fl_item l) it"
  shows "settle_in_row env cap l w = w\<lparr>fw_drops := fw_drops w @ [new_drop (fe_host env) (fl_id l) item],
      fw_db := snd (markFrameListingDropped (fl_id l) (fw_db w))\<rparr> \<and>
    drop_ids (settle_in_row env cap l w) = drop_ids w @ [fl_id l] \<and>
    map_option f_status (listing_of (fw_db (settle_in_row env cap l w)) (fl_id l)) = Some FrameDropped"
proof -
  let ?w = "w\<lparr>fw_drops := fw_drops w @ [new_drop (fe_host env) (fl_id l) item], fw_db := mark (fl_id l) (fw_db w)\<rparr>"
  have r: "settle_in_row env cap l w = ?w" by (rule settle_stages(4)) (rule assms)+
  have "owed (fw_db w) (fl_id l)" "fl_id l < 2 ^ 64" using assms(3,4) by (simp_all add: due_def)
  with mark_facts(5) [OF custodyD(1) [OF assms(2)]] new_drop_facts(1) [OF assms(1)] show ?thesis
    unfolding r by (auto simp: mark_def drop_ids_def List.map_filter_simps)
qed

theorem paid_frame_is_settled_witness:
  "drop_ids (settle_in_row demo_frame_env demo_capture demo_sold_frame demo_world) = [2]"
proof -
  have "drop_ids demo_world = []" by (simp add: demo_world_def drop_ids_def List.map_filter_simps)
  with conjunct1 [OF conjunct2 [OF paid_frame_is_settled [OF demo_host_ok demo_custody demo_due demo_sold_frame_fields(2)
    demo_ready demo_capture_read]]] show ?thesis by (simp only: demo_sold_frame_fields append_Nil)
qed

end
