(* ===== verification/Plugin_Steps.thy ===== *)
theory Plugin_Steps
  imports Service Inventory_Flows Umoney_Bridge Frame_Settlement
begin

text \<open>
  Everything the plugin does to the database is a sequence of service calls: each flow of src/plugin.cpp
  keeps the database among the states that calls can reach, whatever it returns or throws. The rules walk
  through a flow statement by statement, as those of theory Service do for transactions.
\<close>

section \<open>Walking through a flow\<close>

abbreviation in_reach :: "(db \<Rightarrow> bool) \<Rightarrow> ('w \<Rightarrow> db) \<Rightarrow> 'w \<Rightarrow> bool" where
  "in_reach R get w \<equiv> R (get w)"

lemma keeps_catchS: "keeps I m \<Longrightarrow> (\<And>e. keeps I (h e)) \<Longrightarrow> keeps I (catchS m h)"
  by (fastforce simp: keeps_def catchS_def split: prod.splits sum.splits)

lemma keeps_mapS: "(\<And>x. keeps I (f x)) \<Longrightarrow> keeps I (mapS f xs)"
  by (induction xs) (auto intro: keeps_intros)

lemma keeps_logged_only: "keeps I m \<Longrightarrow> keeps I (logged_only m)"
  unfolding logged_only_def by (intro keeps_catchS keeps_ignore keeps_returnS)

lemma keeps_prod: "(\<And>x y. keeps I (f x y)) \<Longrightarrow> keeps I (case z of (x, y) \<Rightarrow> f x y)"
  by (cases z) simp

lemma keeps_sum: "(\<And>x. keeps I (f x)) \<Longrightarrow> (\<And>y. keeps I (g y)) \<Longrightarrow> keeps I (case z of Inl x \<Rightarrow> f x | Inr y \<Rightarrow> g y)"
  by (cases z) simp_all

lemma keeps_let: "(\<And>x. keeps I (f x)) \<Longrightarrow> keeps I (let x = y in f x)"
  by simp

lemma keeps_same: "(\<And>w. I (g w) = I w) \<Longrightarrow> keeps I (executeS g)"
  by (simp add: keeps_def executeS_def)

lemmas flow_walk = keeps_intros keeps_option keeps_if keeps_whenS keeps_ignore keeps_catchS keeps_mapS keeps_logged_only
  keeps_prod keeps_sum keeps_let

text \<open>A computation on a part of the state.\<close>

lemma keeps_part:
  assumes "\<And>w. lifted w = (case m (part w) of (r, x) \<Rightarrow> (r, back x w))" and "\<And>w. I' w = I (part w)"
    and "\<And>x w. I' (back x w) = I x" and "keeps I m"
  shows "keeps I' lifted"
  using assms by (auto simp: keeps_def split: prod.splits)

lemma keeps_split:
  assumes "\<And>w. lifted w = (case m (part w) of (r, x) \<Rightarrow> (r, back x w))" and "\<And>w. I' w = I (tag w) (part w)"
    and "\<And>x w. I' (back x w) = I (tag w) x" and "\<And>t. keeps (I t) m"
  shows "keeps I' lifted"
proof (rule keepsI)
  fix w r w' assume "I' w" and run: "lifted w = (r, w')"
  obtain r' x where m: "m (part w) = (r', x)" by fastforce
  have "I (tag w) x" by (rule keepsD [OF assms(4) _ m]) (use \<open>I' w\<close> assms(2) in simp)
  then show "I' w'" using run m by (auto simp: assms(1,3))
qed

lemma keeps_aside:
  assumes "\<And>w. lifted w = (case m (part w) of (r, x) \<Rightarrow> (r, back x w))" and "\<And>x w. I' (back x w) = I' w"
  shows "keeps I' lifted"
  using assms by (auto simp: keeps_def split: prod.splits)

section \<open>Calls that only read\<close>

lemma live_reads:
  "keeps I (balance u)" "keeps I (positiveBalances k)" "keeps I (orderBook i depth)" "keeps I (openOrders u)"
  "keeps I (findMarket i)" "keeps I (findMarketByTarget t)" "keeps I activeMarkets" "keeps I (pendingDeliveries u)"
  "keeps I (unfinishedDeliveryClaims u)" "keeps I (findDeliveryClaim i u)" "keeps I (unfinishedSellEscrows u)"
  "keeps I (findSellEscrow i u)" "keeps I (pendingEconomyTransfers k)" "keeps I (findEconomyTransfer i)"
  "keeps I (findBoundFrameListing t)" "keeps I (findFrameListing i)" "keeps I boundFrameListings"
  "keeps I unsettledFrameListings" "keeps I pendingEconomyTransferCount" "keeps I (buyFundingRequired cfg r)"
  unfolding balance_def positiveBalances_def orderBook_def openOrders_def findMarket_def findMarketByTarget_def
    activeMarkets_def pendingDeliveries_def unfinishedDeliveryClaims_def findDeliveryClaim_def unfinishedSellEscrows_def
    findSellEscrow_def pendingEconomyTransfers_def findEconomyTransfer_def findBoundFrameListing_def
    findFrameListing_def boundFrameListings_def unsettledFrameListings_def pendingEconomyTransferCount_def buyFundingRequired_def
  by (intro flow_walk)+

section \<open>The rule of calls\<close>

text \<open>The number of items of an inventory fits the code's \<open>int\<close>.\<close>

definition countable :: "'i inventory_api \<Rightarrow> bool" where
  "countable api \<longleftrightarrow> (\<forall>i k. ts_quantity (taggedSellItems api k i) \<le> int32_max)"

lemma keeps_of_ignore: "keeps I (ignore m) = keeps I m"
proof -
  have "snd (ignore m s) = snd (m s)" for s
    by (simp add: ignore_def bindS_def returnS_def split: prod.split sum.split)
  then show ?thesis by (simp add: keeps_def)
qed

text \<open>The calls of the service that neither open or close a market nor are an administrator's.\<close>

fun ordinary :: "service_op \<Rightarrow> bool" where
  "ordinary (Adjust u n delta) = False"
| "ordinary (Activate m) = False"
| "ordinary (Close_Market i) = False"
| "ordinary (Retire i) = False"
| "ordinary op = True"

text \<open>
  A property \<open>R mem\<close> of databases, which may depend on something \<open>mem\<close> that the flows below do not change,
  and which every ordinary call and the passing of time keep: every flow keeps it.
\<close>

locale service_rule =
  fixes cfg :: service_config and sha :: "string \<Rightarrow> string" and R :: "'m \<Rightarrow> db \<Rightarrow> bool"
  assumes ordinary_call: "R mem s \<Longrightarrow> call_typed op \<Longrightarrow> ordinary op \<Longrightarrow> run_service cfg sha op s = (q, s') \<Longrightarrow> R mem s'"
    and later: "R mem s \<Longrightarrow> db_now s \<le> now \<Longrightarrow> R mem (s\<lparr>db_now := now\<rparr>)"
begin

lemma live_call:
  assumes "call_typed op" and "ordinary op"
  shows "keeps (in_reach (R mem) (\<lambda>s. s)) (run_service cfg sha op)"
  by (rule keepsI) (rule ordinary_call [OF _ assms])

lemma live_calls:
  "keeps (in_reach (R mem) (\<lambda>s. s)) (ensureAccount cfg u n)"
  "keeps (in_reach (R mem) (\<lambda>s. s)) (placeOrder cfg r)"
  "keeps (in_reach (R mem) (\<lambda>s. s)) (cancelOrder i u administrator)"
  "keeps (in_reach (R mem) (\<lambda>s. s)) (prepareDeliveryClaim i u k)"
  "keeps (in_reach (R mem) (\<lambda>s. s)) (completeDeliveryClaim i k)"
  "keeps (in_reach (R mem) (\<lambda>s. s)) (markDeliveryClaimCleaned i)"
  "keeps (in_reach (R mem) (\<lambda>s. s)) (prepareSellEscrow cfg r)"
  "t \<le> int32_max \<Longrightarrow> keeps (in_reach (R mem) (\<lambda>s. s)) (markSellEscrowTagged i t k)"
  "keeps (in_reach (R mem) (\<lambda>s. s)) (executeSellEscrow i)"
  "keeps (in_reach (R mem) (\<lambda>s. s)) (cancelSellEscrow i)"
  "keeps (in_reach (R mem) (\<lambda>s. s)) (markSellEscrowCleaned i)"
  using live_call [of "Open_Account u n"] live_call [of "Place r"]
    live_call [of "Cancel_Order i u administrator"] live_call [of "Prepare_Claim i u k"]
    live_call [of "Complete_Claim i k"] live_call [of "Clean_Claim i"] live_call [of "Prepare_Sale r"]
    live_call [of "Tag_Sale i t k"] live_call [of "Execute_Sale i"] live_call [of "Cancel_Sale i"]
    live_call [of "Clean_Sale i"]
  by (simp_all add: keeps_of_ignore)

lemma live_transfers:
  "keeps (in_reach (R mem) (\<lambda>s. s)) (prepareEconomyTransfer cfg key u n dir cents units baseline)"
  "keeps (in_reach (R mem) (\<lambda>s. s)) (recordEconomyTransferAttempt i e)"
  "keeps (in_reach (R mem) (\<lambda>s. s)) (markEconomyTransferExternalApplied i m)"
  "keeps (in_reach (R mem) (\<lambda>s. s)) (completeEconomyTransfer i)"
  "keeps (in_reach (R mem) (\<lambda>s. s)) (failEconomyTransfer i e)"
  "keeps (in_reach (R mem) (\<lambda>s. s)) (blockEconomyTransfer i e)"
  using live_call [of "Transfer (Prepare key u n dir cents units baseline)"] live_call [of "Transfer (Attempt i e)"]
    live_call [of "Transfer (Applied i m)"] live_call [of "Transfer (Complete i)"]
    live_call [of "Transfer (Fail i e)"] live_call [of "Transfer (Block_Transfer i e)"]
  by (simp_all add: keeps_of_ignore)

lemma live_listings:
  "keeps (in_reach (R mem) (\<lambda>s. s)) (upsertFrameListing cfg l administrator)"
  "keeps (in_reach (R mem) (\<lambda>s. s)) (cancelFrameListing i u administrator)"
  "keeps (in_reach (R mem) (\<lambda>s. s)) (purchaseFrameListing cfg i u n p)"
  "keeps (in_reach (R mem) (\<lambda>s. s)) (markFrameListingDropped i)"
  "keeps (in_reach (R mem) (\<lambda>s. s)) (completeFrameListingPickup i)"
  using live_call [of "Listing (Upsert l administrator)"] live_call [of "Listing (Take_Down i u administrator)"]
    live_call [of "Listing (Purchase i u n p)"] live_call [of "Listing (Dropped i)"]
    live_call [of "Listing (Picked_Up i)"]
  by (simp_all add: keeps_of_ignore)

lemmas live_service = live_calls live_transfers live_listings

section \<open>Inventories\<close>

lemma live_shop: "keeps (in_reach (R mem) (\<lambda>s. s)) m \<Longrightarrow> keeps (in_reach (R mem) v_db) (on_shop m)"
  by (rule keeps_part [of _ "\<lambda>s v. v\<lparr>v_db := s\<rparr>" m v_db]) (simp_all add: on_shop_def)

lemma live_inv: "keeps (in_reach (R mem) v_db) (on_inv m)"
  by (rule keeps_aside [of _ "\<lambda>s v. v\<lparr>v_inv := s\<rparr>" m v_inv]) (simp_all add: on_inv_def)

lemmas shop_walk = flow_walk live_shop live_inv live_service live_reads

lemma live_reconcile:
  assumes env: "ev_cfg env = cfg" "countable (ev_api env)"
  shows "keeps (in_reach (R mem) v_db) (reconcileSellEscrows env)"
proof -
  have r: "keeps (in_reach (R mem) v_db) (removeSold env k m)" for k m
    unfolding removeSold_def markers_left_def ask_inv_def by (intro shop_walk)
  have p: "keeps (in_reach (R mem) v_db) (reconcile_prepared env e)" for e
  proof (rule keepsI)
    fix v q v' assume ok: "in_reach (R mem) v_db v" and run: "reconcile_prepared env e v = (q, v')"
    let ?t = "taggedSellItems (ev_api env) (se_id e) (v_inv v)"
    have "ts_quantity ?t \<le> int32_max" using env(2) by (simp add: countable_def)
    then have k: "keeps (in_reach (R mem) v_db) (bindS (on_shop (markSellEscrowTagged (se_id e) (ts_quantity ?t) (ts_stacks ?t)))
        (\<lambda>_. returnS (Some (e\<lparr>se_tagged := ts_quantity ?t, se_receipts := ts_stacks ?t, se_status := EscrowTagged\<rparr>))))"
      by (intro shop_walk)
    have c: "keeps (in_reach (R mem) v_db) (bindS (whenS (ts_quantity ?t > 0)
        (on_inv (restoreTaggedSellItems (ev_host env) (ev_api env) (se_id e) (se_item e)))) (\<lambda>_.
         bindS (on_shop (cancelSellEscrow (se_id e))) (\<lambda>_. returnS None)))" by (intro shop_walk)
    show "in_reach (R mem) v_db v'"
      using run ok keepsD [OF k ok] keepsD [OF c ok]
      by (auto simp: reconcile_prepared_def ask_inv_def svc_runs returnS_def split: if_splits)
  qed
  show ?thesis
    unfolding reconcileSellEscrows_def reconcileSellEscrow_def reconcile_tagged_def reconcile_ordered_def ask_inv_def
    by (intro shop_walk p r)
qed

lemma live_sale:
  assumes env: "ev_cfg env = cfg" "countable (ev_api env)"
  shows "keeps (in_reach (R mem) v_db) (submitSellEscrow env r)"
proof -
  have rem: "keeps (in_reach (R mem) v_db) (removeSold env k m)" for k m
    unfolding removeSold_def markers_left_def ask_inv_def by (intro shop_walk)
  have p: "keeps (in_reach (R mem) v_db) (sell_prepared env e)" for e
  proof (rule keepsI)
    fix v q v' assume ok: "in_reach (R mem) v_db v" and run: "sell_prepared env e v = (q, v')"
    let ?tag = "on_inv (tagSellItems (ev_host env) (ev_table env) (ev_api env) (se_item e) (se_requested e) (se_id e)
      (ev_language env) (ev_item_name env (se_item e) (ev_language env)))"
    obtain q1 v1 where t: "?tag v = (q1, v1)" by fastforce
    have ok1: "in_reach (R mem) v_db v1" by (rule keepsD [OF live_inv ok t])
    show "in_reach (R mem) v_db v'"
    proof (cases q1)
      case (Inl x)
      with run t ok1 show ?thesis by (simp add: sell_prepared_def bindS_def [of ?tag] Let_def)
    next
      case (Inr tagged)
      let ?n = "taggedSellItems (ev_api env) (se_id e) (v_inv v1)"
      have "ts_quantity ?n \<le> int32_max" using env(2) by (simp add: countable_def)
      then have "keeps (in_reach (R mem) v_db) (on_shop (markSellEscrowTagged (se_id e) (ts_quantity ?n) (ts_stacks ?n)))"
        by (intro shop_walk)
      note walk = shop_walk this rem
      have k: "keeps (in_reach (R mem) v_db)
        (bindS (on_shop (markSellEscrowTagged (se_id e) (ts_quantity ?n) (ts_stacks ?n))) (\<lambda>_.
         bindS (on_inv (replaceTaggedSellItemsWithReceipts (ev_host env) (ev_table env) (ev_api env) (se_id e) (ev_language env))) (\<lambda>_.
         bindS (ask_inv (sellReceiptCount (ev_api env) (se_id e))) (\<lambda>receipts.
         bindS (throwIf (receipts \<noteq> ts_stacks ?n)
           (Runtime_Error ''sell escrow receipt count does not match tagged stacks'')) (\<lambda>_.
         bindS (on_shop (executeSellEscrow (se_id e))) (\<lambda>result.
         bindS (removeSold env (se_id e) ''sell escrow markers were not fully cleared'') (\<lambda>_.
         bindS (on_shop (markSellEscrowCleaned (se_id e))) (\<lambda>_. returnS result))))))))"
        unfolding ask_inv_def by (intro walk)
      show ?thesis
        using run t ok1 Inr keepsD [OF k ok1]
        by (auto simp: sell_prepared_def bindS_def [of ?tag] Let_def ask_inv_def svc_runs split: if_splits)
    qed
  qed
  show ?thesis
    unfolding submitSellEscrow_def env(1) by (intro shop_walk p live_reconcile env)
qed

lemma live_claims:
  assumes env: "ev_cfg env = cfg" "countable (ev_api env)"
  shows "keeps (in_reach (R mem) v_db) (claimDeliveries env)"
proof -
  have rem: "keeps (in_reach (R mem) v_db) (removeSold env k m)" "keeps (in_reach (R mem) v_db) (markers_left env k m)" for k m
    unfolding removeSold_def markers_left_def ask_inv_def by (intro shop_walk)+
  have c: "keeps (in_reach (R mem) v_db) (finish_old_claim env c)" for c
    unfolding finish_old_claim_def ask_inv_def Let_def by (intro shop_walk)
  have cs: "keeps (in_reach (R mem) v_db) (finish_old_claims env cs n)" for cs n
    by (induction cs arbitrary: n) (simp_all add: keeps_returnS keeps_bindS c)
  have h: "keeps (in_reach (R mem) v_db) (hand_over env d n)" for d n
    unfolding hand_over_def ask_inv_def Let_def by (intro shop_walk)
  have hs: "keeps (in_reach (R mem) v_db) (hand_over_all env ds n)" for ds n
    by (induction ds arbitrary: n) (auto simp: Let_def intro: flow_walk h)
  show ?thesis
    unfolding claimDeliveries_def reconcileInternalEscrowMarkers_def reconcile_claim_marker_def reconcile_sell_marker_def
      ask_inv_def by (intro shop_walk c cs h hs rem live_reconcile env)
qed

lemma live_frame_items: "keeps (in_reach (R mem) v_db) (reconcileFrameSaleItems env)"
  unfolding reconcileFrameSaleItems_def settle_frame_item_def ask_inv_def Let_def by (intro shop_walk)

section \<open>UMoney\<close>

lemma live_db: "keeps (in_reach (R mem) (\<lambda>s. s)) m \<Longrightarrow> keeps (in_reach (R mem) pl_db) (on_db m)"
  by (rule keeps_part [of _ "\<lambda>s p. p\<lparr>pl_db := s\<rparr>" m pl_db]) (simp_all add: on_db_def)

lemma live_world: "keeps (in_reach (R mem) pl_db) (on_world m)"
  by (rule keeps_aside [of _ "\<lambda>s p. p\<lparr>pl_world := s\<rparr>" m pl_world]) (simp_all add: on_world_def)

lemmas plug_walk = flow_walk live_db live_world live_service live_reads

lemma live_process: "keeps (in_reach (R mem) pl_db) (processEconomyTransfer um throw_on_failure t)"
  unfolding processEconomyTransfer_def settle_transfer_def apply_delta_def retry_later_def give_up_def Let_def
  by (intro plug_walk)

lemma live_prepare_transfer: "keeps (in_reach (R mem) pl_db) (prepare_transfer cfg uuid u n direction units external)"
  unfolding prepare_transfer_def
  by (rule live_db) (rule keepsI, rule keepsD [OF live_transfers(1)])

lemmas transfer_walk = plug_walk live_process live_prepare_transfer

lemma live_umoney:
  "keeps (in_reach (R mem) pl_db) (spendableBalance um u n)"
  "keeps (in_reach (R mem) pl_db) (fundDirectBalance cfg table uuid um u n required language)"
  "keeps (in_reach (R mem) pl_db) (processEconomyTransfers cfg uuid um)"
  unfolding spendableBalance_def fundDirectBalance_def processEconomyTransfers_def sweepDirectBalances_def
    sweep_account_def Let_def
  by (intro transfer_walk keeps_same; simp)+

section \<open>Frames\<close>

lemma live_frame: "keeps (in_reach (R mem) (\<lambda>s. s)) m \<Longrightarrow> keeps (in_reach (R mem) fw_db) (on_service m)"
  by (rule keeps_part [of _ "\<lambda>s w. w\<lparr>fw_db := s\<rparr>" m fw_db]) (simp_all add: on_service_def)

lemma live_world_part:
  "keeps (in_reach (R mem) fw_db) (index_put key i)" "keeps (in_reach (R mem) fw_db) (index_erase key)"
  "keeps (in_reach (R mem) fw_db) (pending_insert i)" "keeps (in_reach (R mem) fw_db) (pending_erase i)"
  "keeps (in_reach (R mem) fw_db) (captures_erase key)"
  by (simp_all add: index_put_def index_erase_def pending_insert_def pending_erase_def captures_erase_def keeps_same)

lemmas frame_walk = flow_walk live_frame live_world_part live_service live_reads

lemma live_spawn: "keeps (in_reach (R mem) fw_db) (spawnFrameSaleDrop env l)"
  unfolding spawnFrameSaleDrop_def Let_def by (intro frame_walk keeps_same) simp

lemma live_queue:
  "(\<And>e. keeps (in_reach (R mem) fw_db) (failed e)) \<Longrightarrow> keeps (in_reach (R mem) fw_db) (queueItemFrameCapture env kind l failed)"
  unfolding queueItemFrameCapture_def Let_def by (intro frame_walk keeps_same) simp_all

lemma live_verify:
  "keeps (in_reach (R mem) fw_db) (verify_callback env l answer)" "keeps (in_reach (R mem) fw_db) (verifyFrameClearedAndDrop env l)"
proof -
  show "keeps (in_reach (R mem) fw_db) (verify_callback env l answer)" for answer
    unfolding verify_callback_def by (intro frame_walk live_spawn)
  then show "keeps (in_reach (R mem) fw_db) (verifyFrameClearedAndDrop env l)"
    unfolding verifyFrameClearedAndDrop_def by (intro live_queue)
qed

lemma live_settle_callback: "keeps (in_reach (R mem) fw_db) (settle_callback env reset l answer)"
  unfolding settle_callback_def by (intro frame_walk live_spawn live_verify)

lemma live_complete: "keeps (in_reach (R mem) fw_db) (completeItemFrameCapture env reset captured wt)"
proof -
  have "keeps (in_reach (R mem) fw_db) (callback env reset wt answer)" for answer
    unfolding callback_def by (cases "wt_kind wt") (simp_all add: live_settle_callback live_verify)
  then show ?thesis
    unfolding completeItemFrameCapture_def Let_def by (intro frame_walk keeps_same; simp)
qed

lemma live_settle: "keeps (in_reach (R mem) fw_db) (settleFrameListing env l)"
  unfolding settleFrameListing_def adoptFrameSaleDrop_def Let_def
  by (intro frame_walk live_spawn live_queue live_settle_callback keeps_same; simp)

lemma live_recover:
  "keeps (in_reach (R mem) fw_db) (recoverFrameListings env)" "keeps (in_reach (R mem) fw_db) restoreFrameListingIndex"
  unfolding recoverFrameListings_def restoreFrameListingIndex_def by (intro frame_walk live_settle keeps_same; simp)+

lemma live_pickup: "keeps (in_reach (R mem) fw_db) (onPlayerPickupItem n)"
  unfolding onPlayerPickupItem_def Let_def by (intro frame_walk keeps_same; simp)

end

end
