(* ===== verification/Plugin_State.thy ===== *)
theory Plugin_State
  imports Plugin_Steps Interaction_Gate Trade_Form Config Item_Identity
begin

text \<open>
  The state of the plugin object (include/endstone_exchange/plugin.hpp) as the handlers of src/plugin.cpp see
  it: its members, the database and UMoney behind it, the inventories of the players, the tasks it has
  handed to the scheduler and the forms that are on a screen. Tasks and forms carry what their closures
  capture, so running a task or answering a form is a step of its own, at any later time.
\<close>

section \<open>Players and settings\<close>

record player =
  who_uuid :: string
  who_name :: string
  who_language :: Language
  who_op :: bool
  who_admin :: bool

text \<open>The configuration, and what the host and third parties provide. \<open>st_stick\<close> is the stick named exchanger with
  the lore, if the host can make it, \<open>st_lore\<close> an item with its lore replaced; \<open>st_amount\<close> reads an amount of money: \<open>None\<close> for what is no finite number,
  \<open>Some None\<close> for one whose cents are out of range.\<close>

record ('i, 'w) setting =
  st_cfg :: service_config
  st_market :: MarketConfig
  st_provider :: string
  st_host :: host
  st_table :: catalogue
  st_api :: "'i inventory_api"
  st_shown :: "ItemStack \<Rightarrow> string option"
  st_stack :: "CapturedFrameItem \<Rightarrow> ItemStack result"
  st_key :: "ItemStack \<Rightarrow> string"
  st_translate :: "string \<Rightarrow> string \<Rightarrow> string"
  st_registry :: "string \<Rightarrow> ItemStack option"
  st_money :: "Cents \<Rightarrow> string"
  st_sha :: "string \<Rightarrow> string"
  st_uuid :: "db \<Rightarrow> string"
  st_umoney :: "'w umoney"
  st_stick :: "string \<Rightarrow> ItemStack option"
  st_lore :: "string \<Rightarrow> ItemStack \<Rightarrow> ItemStack option"
  st_amount :: "string \<Rightarrow> Cents option option"
  st_version :: string

definition canAdmin :: "player \<Rightarrow> bool" where
  "canAdmin p = who_op p"

definition localizedItemName :: "('i, 'w) setting \<Rightarrow> ItemPrototype \<Rightarrow> Language \<Rightarrow> string" where
  "localizedItemName st item language = (case sampleItem (st_host st) item of
     Inl _ \<Rightarrow> item_name item
   | Inr sample \<Rightarrow>
       if st_shown st sample \<noteq> None then item_name item
       else let key = st_key st sample; translated = st_translate st key (localeCode language) in
         if translated \<noteq> [] \<and> translated \<noteq> key then translated else item_name item)"

definition visit_env :: "('i, 'w) setting \<Rightarrow> player \<Rightarrow> 'i env" where
  "visit_env st p = \<lparr>ev_cfg = st_cfg st, ev_host = st_host st, ev_table = st_table st, ev_api = st_api st,
     ev_uuid = who_uuid p, ev_language = who_language p, ev_item_name = localizedItemName st\<rparr>"

definition frame_settings :: "('i, 'w) setting \<Rightarrow> frame_env" where
  "frame_settings st = \<lparr>fe_host = st_host st, fe_table = st_table st, fe_shown = st_shown st, fe_stack = st_stack st\<rparr>"

section \<open>Tasks, forms, messages\<close>

datatype task =
    Open_Trade Id
  | Open_Input Id TradeDraft
  | Open_Review Id TradeDraft
  | Submit_Draft Id TradeDraft
  | Resync
  | Manage_Frame FrameListing
  | Economy_Pass
  | Price_Again FrameAddress ItemPrototype "FrameListing option"

datatype form =
    Trade_Form Id string string "TradeAction list" Cents
  | Input_Form Id TradeDraft string "(string \<times> string \<times> string) list"
  | Review_Form Id TradeDraft string string
  | Orders_Form "(Id \<times> string) list"
  | Manage_Form FrameAddress FrameListing string string
  | Price_Form FrameAddress ItemPrototype "FrameListing option" string "string \<times> string \<times> string"
  | Purchase_Form FrameListing string string

datatype said = Said string | Warned string

text \<open>A capture a player waits for: the address, the player, and what the callback does with the item.\<close>

datatype request =
    Toggle_Request
  | Price_Request "FrameListing option"
  | Save_Request ItemPrototype "FrameListing option" string string Cents
  | Review_Request FrameListing
  | Buy_Request FrameListing

text \<open>What the holograms are asked for; theory Hologram_World does it.\<close>

datatype label_order = Refresh_Label Domain.Market | Remove_Label Id

record player_capture =
  pc_address :: FrameAddress
  pc_player :: string
  pc_name :: string
  pc_request :: request
  pc_structure :: string
  pc_attempt :: int

section \<open>The state\<close>

record ('i, 'w) plugin =
  p_plug :: "'w plug"
  p_inv :: "string \<Rightarrow> 'i"
  p_markets :: "(Id \<times> Domain.Market) list"
  p_targets :: "(string \<times> Id) list"
  p_frames :: frame_world
  p_gate :: gate
  p_trade_forms :: "string list"
  p_frame_forms :: "string list"
  p_tasks :: "(string \<times> task) list"
  p_shown :: "(string \<times> form) list"
  p_waiting :: "player_capture list"
  p_actors :: "WorldActor list"
  p_labels :: "label_order list"
  p_said :: "(string \<times> said) list"

type_synonym ('i, 'w, 'a) action = "(('i, 'w) plugin, 'a) svc"

text \<open>The database and \<open>ready_\<close> are those of \<open>p_plug\<close>; the frames see copies of them.\<close>

definition on_plug :: "('w plug, 'a) svc \<Rightarrow> ('i, 'w, 'a) action" where
  "on_plug m s = (case m (p_plug s) of (r, x) \<Rightarrow> (r, s\<lparr>p_plug := x\<rparr>))"

definition serve :: "'a dbm \<Rightarrow> ('i, 'w, 'a) action" where
  "serve m = on_plug (on_db m)"

definition visiting :: "player \<Rightarrow> ('i visit, 'a) svc \<Rightarrow> ('i, 'w, 'a) action" where
  "visiting p m s = (case m \<lparr>v_db = pl_db (p_plug s), v_inv = p_inv s (who_uuid p)\<rparr> of
     (r, v) \<Rightarrow> (r, s\<lparr>p_plug := (p_plug s)\<lparr>pl_db := v_db v\<rparr>, p_inv := (p_inv s)(who_uuid p := v_inv v)\<rparr>))"

definition frame_view :: "('i, 'w) plugin \<Rightarrow> frame_world" where
  "frame_view s = (p_frames s)\<lparr>fw_db := pl_db (p_plug s), fw_ready := pl_ready (p_plug s)\<rparr>"

definition on_frames :: "'a frames \<Rightarrow> ('i, 'w, 'a) action" where
  "on_frames m s = (case m (frame_view s) of
     (r, w) \<Rightarrow> (r, s\<lparr>p_frames := w, p_plug := (p_plug s)\<lparr>pl_db := fw_db w\<rparr>\<rparr>))"

definition ready :: "('i, 'w) plugin \<Rightarrow> bool" where
  "ready s = pl_ready (p_plug s)"

definition say :: "player \<Rightarrow> string result \<Rightarrow> ('i, 'w, unit) action" where
  "say p t = bindS (liftS t) (\<lambda>t. executeS (\<lambda>s. s\<lparr>p_said := p_said s @ [(who_uuid p, Said t)]\<rparr>))"

definition warn :: "player \<Rightarrow> string result \<Rightarrow> ('i, 'w, unit) action" where
  "warn p t = bindS (liftS t) (\<lambda>t. executeS (\<lambda>s. s\<lparr>p_said := p_said s @ [(who_uuid p, Warned t)]\<rparr>))"

definition schedule :: "player \<Rightarrow> task \<Rightarrow> ('i, 'w, unit) action" where
  "schedule p t = executeS (\<lambda>s. s\<lparr>p_tasks := p_tasks s @ [(who_uuid p, t)]\<rparr>)"

definition show_form :: "player \<Rightarrow> form \<Rightarrow> ('i, 'w, unit) action" where
  "show_form p f = executeS (\<lambda>s. s\<lparr>p_shown := p_shown s @ [(who_uuid p, f)]\<rparr>)"

definition label :: "label_order \<Rightarrow> ('i, 'w, unit) action" where
  "label x = executeS (\<lambda>s. s\<lparr>p_labels := p_labels s @ [x]\<rparr>)"

section \<open>What the flows of the plugin keep\<close>

abbreviation plugin_db :: "('i, 'w) plugin \<Rightarrow> db" where
  "plugin_db s \<equiv> pl_db (p_plug s)"

text \<open>A property of the database and of the plugin's index of the markets.\<close>

type_synonym memory = "(Id \<times> Domain.Market) list \<times> (string \<times> Id) list"

abbreviation in_plugin :: "(memory \<Rightarrow> db \<Rightarrow> bool) \<Rightarrow> ('i, 'w) plugin \<Rightarrow> bool" where
  "in_plugin R s \<equiv> R (p_markets s, p_targets s) (plugin_db s)"

text \<open>The items an inventory of the setting holds fit the code's \<open>int\<close> wherever the property holds.\<close>

locale plugin_rule = service_rule "st_cfg st" "st_sha st" R
  for st :: "('i, 'w) setting" and R :: "memory \<Rightarrow> db \<Rightarrow> bool" +
  assumes countable_items: "R mem s \<Longrightarrow> countable (st_api st)"
begin

lemma where_countable:
  assumes "countable (st_api st) \<Longrightarrow> keeps (in_reach (R mem) v_db) m"
  shows "keeps (in_reach (R mem) v_db) m"
  using assms countable_items [of mem] unfolding keeps_def by blast

lemma visit_claims: "keeps (in_reach (R mem) v_db) (claimDeliveries (visit_env st p))"
  by (rule where_countable) (simp add: live_claims visit_env_def)

lemma visit_sale: "keeps (in_reach (R mem) v_db) (submitSellEscrow (visit_env st p) r)"
  by (rule where_countable) (simp add: live_sale visit_env_def)

lemma reach_plug: "(\<And>mem. keeps (in_reach (R mem) pl_db) m) \<Longrightarrow> keeps (in_plugin R) (on_plug m)"
  by (rule keeps_split [of _ "\<lambda>x s. s\<lparr>p_plug := x\<rparr>" m p_plug _ "\<lambda>mem. in_reach (R mem) pl_db"
        "\<lambda>s. (p_markets s, p_targets s)"]) (simp_all add: on_plug_def)

lemma reach_serve: "(\<And>mem. keeps (in_reach (R mem) (\<lambda>s. s)) m) \<Longrightarrow> keeps (in_plugin R) (serve m)"
  unfolding serve_def by (intro reach_plug live_db)

lemma reach_visit: "(\<And>mem. keeps (in_reach (R mem) v_db) m) \<Longrightarrow> keeps (in_plugin R) (visiting p m)"
  by (rule keeps_split [of _ "\<lambda>v s. s\<lparr>p_plug := (p_plug s)\<lparr>pl_db := v_db v\<rparr>, p_inv := (p_inv s)(who_uuid p := v_inv v)\<rparr>"
        m "\<lambda>s. \<lparr>v_db = plugin_db s, v_inv = p_inv s (who_uuid p)\<rparr>" _
        "\<lambda>mem. in_reach (R mem) v_db" "\<lambda>s. (p_markets s, p_targets s)"]) (simp_all add: visiting_def)

lemma reach_frames: "(\<And>mem. keeps (in_reach (R mem) fw_db) m) \<Longrightarrow> keeps (in_plugin R) (on_frames m)"
  by (rule keeps_split [of _ "\<lambda>w s. s\<lparr>p_frames := w, p_plug := (p_plug s)\<lparr>pl_db := fw_db w\<rparr>\<rparr>" m frame_view _
        "\<lambda>mem. in_reach (R mem) fw_db" "\<lambda>s. (p_markets s, p_targets s)"])
    (simp_all add: on_frames_def frame_view_def)

lemma reach_effects:
  "keeps (in_plugin R) (say p t)" "keeps (in_plugin R) (warn p t)" "keeps (in_plugin R) (schedule p k)"
  "keeps (in_plugin R) (show_form p f)" "keeps (in_plugin R) (label x)"
  unfolding say_def warn_def schedule_def show_form_def label_def by (intro flow_walk keeps_same; simp)+

lemmas plugin_walk = flow_walk reach_plug reach_serve reach_visit reach_frames reach_effects live_service live_reads
  live_umoney visit_claims visit_sale

end

end
