(* ===== verification/Trade_Desk.thy ===== *)
theory Trade_Desk
  imports Plugin_State
begin

text \<open>
  The dialogue in which a player trades at a market, and the list of the open orders (src/plugin.cpp): the
  overview with its actions, the input of quantity and price, the review, the submission of the draft.
  The names of the definitions are those of the functions; a callback of a form is a definition of its
  own, \<open>q\<close> being the player the host passes to it.
\<close>

section \<open>Small parts\<close>

definition enter_trade :: "player \<Rightarrow> ('i, 'w, unit) action" where
  "enter_trade p = executeS (\<lambda>s. s\<lparr>p_trade_forms := List.insert (who_uuid p) (p_trade_forms s)\<rparr>)"

definition leave_trade :: "string \<Rightarrow> ('i, 'w, unit) action" where
  "leave_trade u = executeS (\<lambda>s. s\<lparr>p_trade_forms := removeAll u (p_trade_forms s)\<rparr>)"

text \<open>\<open>form_player == nullptr || !ready_ || form_player->getUniqueId().str() != player_uuid\<close>, negated.\<close>

definition answered_by :: "string \<Rightarrow> player option \<Rightarrow> (player \<Rightarrow> ('i, 'w, unit) action) \<Rightarrow> ('i, 'w, unit) action" where
  "answered_by u q f = bindS (queryS ready) (\<lambda>ok. case q of None \<Rightarrow> returnS ()
     | Some p \<Rightarrow> if \<not> ok \<or> who_uuid p \<noteq> u then returnS () else f p)"

definition text_of :: "('i, 'w) setting \<Rightarrow> player \<Rightarrow> Message \<Rightarrow> string" where
  "text_of st p message = messageText (st_table st) (who_language p) message"

definition tr_for :: "('i, 'w) setting \<Rightarrow> player \<Rightarrow> Message \<Rightarrow> string list \<Rightarrow> string result" where
  "tr_for st p message args = tr (st_table st) (who_language p) message args"

definition failure_text :: "('i, 'w) setting \<Rightarrow> player \<Rightarrow> Message \<Rightarrow> error \<Rightarrow> string result" where
  "failure_text st p message e = bindR (userFacingError (st_table st) (who_language p) e) (\<lambda>t. tr_for st p message [t])"

definition processTransfers :: "('i, 'w) setting \<Rightarrow> ('i, 'w, unit) action" where
  "processTransfers st = on_plug (processEconomyTransfers (st_cfg st) (st_uuid st) (st_umoney st))"

definition spendable :: "('i, 'w) setting \<Rightarrow> string \<Rightarrow> string \<Rightarrow> ('i, 'w, Cents) action" where
  "spendable st u n = on_plug (spendableBalance (st_umoney st) u n)"

definition claim_and_tell :: "('i, 'w) setting \<Rightarrow> player \<Rightarrow> ('i, 'w, unit) action" where
  "claim_and_tell st p = bindS (visiting p (claimDeliveries (visit_env st p))) (\<lambda>n.
     whenS (n > 0) (say p (tr_for st p ClaimedItems [dec n])))"

definition book_actions :: "OrderBook \<Rightarrow> TradeAction list" where
  "book_actions book = availableTradeActions (bids book \<noteq> []) (asks book \<noteq> [])"

definition midpoint :: "int \<Rightarrow> int \<Rightarrow> int" where
  "midpoint a b = a + (b - a) sdiv 2"

definition reference_price :: "OrderBook \<Rightarrow> Cents" where
  "reference_price book = (case (bids book, asks book) of
     (b # _, a # _) \<Rightarrow> midpoint (level_price b) (level_price a)
   | (b # _, []) \<Rightarrow> level_price b
   | ([], a # _) \<Rightarrow> level_price a
   | ([], []) \<Rightarrow> (case last_price book of None \<Rightarrow> 1000 | Some c \<Rightarrow> c))"

section \<open>Forms\<close>

text \<open>The forms of a market share their frame: only one form at a time, a closed market is reported, and an
  exception is reported with the given message.\<close>

definition trade_form :: "('i, 'w) setting \<Rightarrow> player \<Rightarrow> Id \<Rightarrow> Message \<Rightarrow> (Domain.Market \<Rightarrow> ('i, 'w, unit) action) \<Rightarrow> ('i, 'w, unit) action" where
  "trade_form st p mid message body =
    bindS (queryS (\<lambda>s. who_uuid p \<in> set (p_trade_forms s))) (\<lambda>busy.
    if busy then returnS ()
    else bindS (enter_trade p) (\<lambda>_.
      catchS (bindS (queryS (\<lambda>s. map_of (p_markets s) mid)) (\<lambda>market. case market of
          None \<Rightarrow> bindS (leave_trade (who_uuid p)) (\<lambda>_. warn p (Inr (text_of st p TradePointClosed)))
        | Some m \<Rightarrow> body m))
        (\<lambda>e. bindS (leave_trade (who_uuid p)) (\<lambda>_. warn p (failure_text st p message e)))))"

definition openTradeForm :: "('i, 'w) setting \<Rightarrow> player \<Rightarrow> Id \<Rightarrow> ('i, 'w, unit) action" where
  "openTradeForm st p mid = trade_form st p mid OpenTradeFailed (\<lambda>m.
    (let mc = st_market st; language = who_language p; item_name = localizedItemName st (m_item m) language in
    bindS (serve (ensureAccount (st_cfg st) (who_uuid p) (who_name p))) (\<lambda>_.
    bindS (claim_and_tell st p) (\<lambda>_.
    bindS (schedule p Resync) (\<lambda>_.
    bindS (serve (orderBook mid (mc_order_book_depth mc))) (\<lambda>book.
    bindS (spendable st (who_uuid p) (who_name p)) (\<lambda>account_balance.
    bindS (queryS (\<lambda>s. sellableItemCount (st_host st) (st_api st) (m_item m) (p_inv s (who_uuid p)))) (\<lambda>counted.
    bindS (liftS counted) (\<lambda>sellable.
    bindS (liftS (defaultTradePrice (mc_price_min_cents mc) (mc_price_max_cents mc) (mc_price_step_cents mc)
      (reference_price book))) (\<lambda>default_price.
    bindS (liftS (describeItemRequirements (st_host st) (st_table st) (m_item m) language)) (\<lambda>requirements.
    bindS (liftS (tr_for st p TradeTitle [item_name])) (\<lambda>title.
    bindS (liftS (tradeOverviewText (st_table st) book (formatCurrency account_balance) sellable requirements language 2)) (\<lambda>content.
    show_form p (Trade_Form mid title content (book_actions book) default_price))))))))))))))"

text \<open>Both later forms first look whether the draft's action is still available.\<close>

definition still_offered :: "('i, 'w) setting \<Rightarrow> player \<Rightarrow> Id \<Rightarrow> TradeDraft \<Rightarrow> ('i, 'w, unit) action \<Rightarrow> ('i, 'w, unit) action" where
  "still_offered st p mid draft body =
    bindS (serve (orderBook mid 1)) (\<lambda>book.
    if td_action draft \<notin> set (book_actions book)
    then bindS (leave_trade (who_uuid p)) (\<lambda>_.
      bindS (warn p (Inr (text_of st p MatchingOrderGone))) (\<lambda>_. schedule p (Open_Trade mid)))
    else body)"

definition openTradeInputForm :: "('i, 'w) setting \<Rightarrow> player \<Rightarrow> Id \<Rightarrow> TradeDraft \<Rightarrow> ('i, 'w, unit) action" where
  "openTradeInputForm st p mid draft = trade_form st p mid OpenInputFailed (\<lambda>m. still_offered st p mid draft
    (let mc = st_market st; item_name = localizedItemName st (m_item m) (who_language p);
       title = tradeActionLabel (st_table st) (td_action draft) (who_language p) @ '' '' @ middle_dot @ '' '' @ item_name in
    bindS (liftS (tr_for st p QuantityInput [dec (mc_max_order_quantity mc)])) (\<lambda>quantity_label.
    let quantity = (quantity_label, text_of st p IntegerPlaceholder, dec (td_quantity draft)) in
    if tradeActionUsesPrice (td_action draft)
    then bindS (liftS (tr_for st p UnitPriceInput [formatUnitPrice (mc_price_min_cents mc), formatUnitPrice (mc_price_max_cents mc)])) (\<lambda>price_label.
      show_form p (Input_Form mid draft title
        [quantity, (price_label, text_of st p PricePlaceholder, dec (td_price draft sdiv 100))]))
    else show_form p (Input_Form mid draft title [quantity]))))"

definition openTradeReviewForm :: "('i, 'w) setting \<Rightarrow> player \<Rightarrow> Id \<Rightarrow> TradeDraft \<Rightarrow> ('i, 'w, unit) action" where
  "openTradeReviewForm st p mid draft = trade_form st p mid OpenReviewFailed (\<lambda>m. still_offered st p mid draft
    (bindS (liftS (tr_for st p ConfirmTitle [localizedItemName st (m_item m) (who_language p)])) (\<lambda>title.
     bindS (liftS (tradeReviewText (st_table st) draft (who_language p))) (\<lambda>content.
     show_form p (Review_Form mid draft title content)))))"

section \<open>Answers\<close>

definition trade_closed :: "string \<Rightarrow> ('i, 'w, unit) action" where
  "trade_closed u = leave_trade u"

definition trade_pressed :: "string \<Rightarrow> Id \<Rightarrow> Cents \<Rightarrow> TradeAction \<Rightarrow> player option \<Rightarrow> ('i, 'w, unit) action" where
  "trade_pressed u mid default_price act q =
    bindS (leave_trade u) (\<lambda>_. answered_by u q (\<lambda>p.
      schedule p (Open_Input mid \<lparr>td_action = act, td_quantity = 1,
        td_price = (if tradeActionUsesPrice act then default_price else 0)\<rparr>)))"

definition read_draft :: "('i, 'w) setting \<Rightarrow> player \<Rightarrow> TradeDraft \<Rightarrow> string \<Rightarrow> TradeDraft result" where
  "read_draft st p draft response =
    (let mc = st_market st; language = who_language p in
    bindR (textFormValues (st_table st) response language) (\<lambda>values.
    if length values \<noteq> (if tradeActionUsesPrice (td_action draft) then 2 else 1)
    then Inl (userError (tr_for st p InvalidFormData []))
    else
      bindR (parseTradeQuantity (st_table st) (values ! 0) (mc_max_order_quantity mc) language) (\<lambda>quantity.
      if \<not> tradeActionUsesPrice (td_action draft) then Inr (draft\<lparr>td_quantity := quantity\<rparr>)
      else bindR (parseTradePrice (st_table st) (values ! 1) (mc_price_min_cents mc) (mc_price_max_cents mc)
          (mc_price_step_cents mc) language) (\<lambda>price.
        Inr (draft\<lparr>td_quantity := quantity, td_price := price\<rparr>)))))"

definition input_submitted :: "('i, 'w) setting \<Rightarrow> string \<Rightarrow> Id \<Rightarrow> TradeDraft \<Rightarrow> string \<Rightarrow> player option \<Rightarrow> ('i, 'w, unit) action" where
  "input_submitted st u mid draft response q =
    bindS (leave_trade u) (\<lambda>_. answered_by u q (\<lambda>p.
      catchS (bindS (liftS (read_draft st p draft response)) (\<lambda>updated. schedule p (Open_Review mid updated)))
        (\<lambda>e. bindS (warn p (failure_text st p InputInvalid e)) (\<lambda>_. schedule p (Open_Input mid draft)))))"

definition review_answered :: "string \<Rightarrow> Id \<Rightarrow> TradeDraft \<Rightarrow> int \<Rightarrow> player option \<Rightarrow> ('i, 'w, unit) action" where
  "review_answered u mid draft selection q =
    bindS (leave_trade u) (\<lambda>_. answered_by u q (\<lambda>p.
      schedule p (if selection = 0 then Submit_Draft mid draft else Open_Input mid draft)))"

section \<open>The submission\<close>

definition draft_checked :: "('i, 'w) setting \<Rightarrow> player \<Rightarrow> TradeDraft \<Rightarrow> unit result" where
  "draft_checked st p draft = (let mc = st_market st in
     if td_quantity draft < 1 \<or> td_quantity draft > mc_max_order_quantity mc
     then Inl (userError (tr_for st p QuantityRangeInvalid []))
     else if tradeActionUsesPrice (td_action draft) \<and>
       (td_price draft < mc_price_min_cents mc \<or> td_price draft > mc_price_max_cents mc \<or>
        (td_price draft - mc_price_min_cents mc) smod mc_price_step_cents mc \<noteq> 0 \<or> td_price draft smod 100 \<noteq> 0)
     then Inl (userError (tr_for st p PriceRangeInvalid []))
     else Inr ())"

definition draft_request :: "player \<Rightarrow> Id \<Rightarrow> TradeDraft \<Rightarrow> OrderRequest" where
  "draft_request p mid draft = \<lparr>rq_market = mid, rq_uuid = who_uuid p, rq_name = who_name p,
     rq_side = tradeActionSide (td_action draft), rq_type = tradeActionOrderType (td_action draft),
     rq_price = (if tradeActionUsesPrice (td_action draft) then td_price draft else 0), rq_quantity = td_quantity draft\<rparr>"

text \<open>The part that trades: money for a purchase, then the order or the sale out of the inventory.\<close>

definition trade_draft :: "('i, 'w) setting \<Rightarrow> player \<Rightarrow> OrderRequest \<Rightarrow> ('i, 'w, ExecutionResult) action" where
  "trade_draft st p r =
    bindS (if rq_side r = Buy
      then bindS (serve (buyFundingRequired (st_cfg st) r)) (\<lambda>required.
        on_plug (fundDirectBalance (st_cfg st) (st_table st) (st_uuid st) (st_umoney st) (rq_uuid r) (rq_name r) required
          (who_language p)))
      else returnS ()) (\<lambda>_.
    if rq_side r = Sell then visiting p (submitSellEscrow (visit_env st p) r) else serve (placeOrder (st_cfg st) r))"

definition delivery_note :: "('i, 'w) setting \<Rightarrow> player \<Rightarrow> Side \<Rightarrow> int \<times> bool \<Rightarrow> string result" where
  "delivery_note st p side d = (case d of (delivered, pending) \<Rightarrow>
     bindR (if delivered > 0 then tr_for st p (if side = Buy then DeliveryReceived else DeliveryReturned) [dec delivered]
       else Inr []) (\<lambda>note.
     Inr (if pending then note @ text_of st p DeliveryPending else note)))"

definition trade_outcome :: "('i, 'w) setting \<Rightarrow> player \<Rightarrow> OrderRequest \<Rightarrow> ExecutionResult \<Rightarrow> string \<Rightarrow> Cents \<Rightarrow> string result" where
  "trade_outcome st p r res note account_balance =
    (let order = dec (int (ex_order res)); money = st_money st account_balance; gross = st_money st (ex_gross res) in
     if ex_filled res = 0 \<and> ex_open res = 0
     then tr_for st p OrderNoFill [order, text_of st p (if rq_side r = Buy then OtherPlayerSelling else OtherPlayerBuying), note, money]
     else if ex_filled res = 0
     then tr_for st p OrderSaved [order, formatUnitPrice (rq_price r), text_of st p (if rq_side r = Buy then BuyVerb else SellVerb),
       dec (ex_open res), note, money]
     else if ex_open res > 0
     then tr_for st p OrderPartiallyFilled [order, dec (ex_filled res), dec (ex_open res), gross, note, money]
     else if ex_filled res = ex_requested res
     then tr_for st p TradeCompleted [order, dec (ex_filled res), gross, note, money]
     else tr_for st p OrderEnded [order, dec (ex_filled res), dec (ex_requested res), gross, note, money])"

definition after_trade :: "('i, 'w) setting \<Rightarrow> player \<Rightarrow> Domain.Market \<Rightarrow> OrderRequest \<Rightarrow> ExecutionResult \<Rightarrow> ('i, 'w, unit) action" where
  "after_trade st p m r res =
    bindS (catchS (bindS (visiting p (claimDeliveries (visit_env st p))) (\<lambda>n. returnS (n, False)))
      (\<lambda>_. returnS (0, True))) (\<lambda>delivery.
    bindS (label (Refresh_Label m)) (\<lambda>_.
    bindS (liftS (delivery_note st p (rq_side r) delivery)) (\<lambda>note.
    bindS (processTransfers st) (\<lambda>_.
    bindS (catchS (spendable st (rq_uuid r) (rq_name r)) (\<lambda>_. returnS (ex_balance res))) (\<lambda>account_balance.
    bindS (say p (trade_outcome st p r res note account_balance)) (\<lambda>_.
    schedule p Resync))))))"

definition submitTradeDraft :: "('i, 'w) setting \<Rightarrow> player \<Rightarrow> Id \<Rightarrow> TradeDraft \<Rightarrow> ('i, 'w, unit) action" where
  "submitTradeDraft st p mid draft =
    catchS
      (bindS (liftS (draft_checked st p draft)) (\<lambda>_.
       bindS (queryS (\<lambda>s. map_of (p_markets s) mid)) (\<lambda>market. case market of
         None \<Rightarrow> throwS (userError (tr_for st p TradePointClosed []))
       | Some m \<Rightarrow>
         bindS (if tradeActionUsesPrice (td_action draft) then returnS ()
           else bindS (serve (orderBook mid 1)) (\<lambda>book.
             throwIf (td_action draft \<notin> set (book_actions book)) (userError (tr_for st p MatchingOrderGone [])))) (\<lambda>_.
         let r = draft_request p mid draft in
         bindS (trade_draft st p r) (after_trade st p m r)))))
      (\<lambda>e. bindS (processTransfers st) (\<lambda>_.
        bindS (warn p (failure_text st p TradeFailed e)) (\<lambda>_.
        schedule p Resync)))"

section \<open>Open orders\<close>

definition order_label :: "('i, 'w) setting \<Rightarrow> player \<Rightarrow> OpenOrder \<Rightarrow> (Id \<times> string) result" where
  "order_label st p x = bindR (tr_for st p OrderButton [dec (int (oo_id x)),
     text_of st p (if oo_side x = Buy then BuyColored else SellColored), localizedItemName st (oo_item x) (who_language p),
     dec (oo_remaining x)]) (\<lambda>t. Inr (oo_id x, t))"

definition openOrdersForm :: "('i, 'w) setting \<Rightarrow> player \<Rightarrow> ('i, 'w, unit) action" where
  "openOrdersForm st p = catchS
     (bindS (serve (openOrders (who_uuid p))) (\<lambda>orders.
      bindS (liftS (collect (map (order_label st p) orders))) (\<lambda>buttons.
      show_form p (Orders_Form buttons))))
     (\<lambda>e. warn p (failure_text st p ReadOrdersFailed e))"

definition order_pressed :: "('i, 'w) setting \<Rightarrow> string \<Rightarrow> Id \<Rightarrow> player option \<Rightarrow> ('i, 'w, unit) action" where
  "order_pressed st u i q = answered_by u q (\<lambda>p. catchS
     (bindS (serve (cancelOrder i u False)) (\<lambda>_.
      bindS (processTransfers st) (\<lambda>_.
      bindS (claim_and_tell st p) (\<lambda>_.
      bindS (schedule p Resync) (\<lambda>_.
      say p (tr_for st p Message_OrderCanceled [dec (int i)]))))))
     (\<lambda>e. warn p (failure_text st p CancelOrderFailed e)))"

text \<open>The task of \<open>queueInventoryResync\<close>; writing the contents back as they are changes nothing here.\<close>

definition resync_inventory :: "('i, 'w) setting \<Rightarrow> player \<Rightarrow> ('i, 'w, unit) action" where
  "resync_inventory st p = logged_only (visiting p (claimDeliveries (visit_env st p)))"

section \<open>What the dialogue keeps\<close>

context plugin_rule
begin

lemma desk_parts:
  "keeps (in_plugin R) (enter_trade p)" "keeps (in_plugin R) (leave_trade u)"
  unfolding enter_trade_def leave_trade_def by (intro keeps_same; simp)+

lemma reach_answered:
  "(\<And>p. keeps (in_plugin R) (f p)) \<Longrightarrow> keeps (in_plugin R) (answered_by u q f)"
  unfolding answered_by_def by (intro flow_walk)

lemma reach_desk:
  shows "keeps (in_plugin R) (processTransfers st)" "keeps (in_plugin R) (spendable st u n)"
    "keeps (in_plugin R) (claim_and_tell st p)" "keeps (in_plugin R) (resync_inventory st p)"
  unfolding processTransfers_def spendable_def claim_and_tell_def resync_inventory_def
  by (intro plugin_walk)+

lemmas desk_walk = plugin_walk desk_parts reach_answered

lemma reach_forms:
  shows "keeps (in_plugin R) (openTradeForm st p mid)"
    "keeps (in_plugin R) (openTradeInputForm st p mid draft)"
    "keeps (in_plugin R) (openTradeReviewForm st p mid draft)"
    "keeps (in_plugin R) (openOrdersForm st p)"
    "keeps (in_plugin R) (order_pressed st u i q)"
    "keeps (in_plugin R) (trade_pressed u mid default_price act q)"
    "keeps (in_plugin R) (input_submitted st u mid draft response q)"
    "keeps (in_plugin R) (review_answered u mid draft selection q)"
  unfolding openTradeForm_def openTradeInputForm_def openTradeReviewForm_def trade_form_def still_offered_def Let_def
    openOrdersForm_def order_pressed_def trade_pressed_def input_submitted_def review_answered_def
  by (intro desk_walk reach_desk)+

lemma reach_submit:
  shows "keeps (in_plugin R) (submitTradeDraft st p mid draft)"
proof -
  have t: "keeps (in_plugin R) (trade_draft st p r)" for r
    unfolding trade_draft_def by (intro desk_walk)
  have a: "keeps (in_plugin R) (after_trade st p m r res)" for m r res
    unfolding after_trade_def by (intro desk_walk reach_desk)
  show ?thesis unfolding submitTradeDraft_def Let_def by (intro desk_walk reach_desk t a)
qed

end

end
