(* ===== verification/Market_Desk.thy ===== *)
theory Market_Desk
  imports Trade_Desk
begin

text \<open>
  Opening and closing trade points (src/plugin.cpp): an administrator turns a block, an item frame or an
  actor into a market or closes it; the plugin keeps the active markets and the index of their targets
  in memory. With it goes the capture of a frame's item for a player.
\<close>

section \<open>The index\<close>

definition indexMarket :: "Domain.Market \<Rightarrow> ('i, 'w, unit) action" where
  "indexMarket m = executeS (\<lambda>s. s\<lparr>p_markets := AList.update (m_id m) m (p_markets s),
     p_targets := AList.update (m_target_key m) (m_id m) (p_targets s)\<rparr>)"

definition unindexMarket :: "Id \<Rightarrow> ('i, 'w, unit) action" where
  "unindexMarket i = executeS (\<lambda>s. case map_of (p_markets s) i of None \<Rightarrow> s
     | Some m \<Rightarrow> s\<lparr>p_targets := AList.delete (m_target_key m) (p_targets s), p_markets := AList.delete i (p_markets s)\<rparr>)"

definition restoreMarkets :: "('i, 'w, unit) action" where
  "restoreMarkets =
    bindS (executeS (\<lambda>s. s\<lparr>p_markets := [], p_targets := []\<rparr>)) (\<lambda>_.
    bindS (serve activeMarkets) (mapS indexMarket))"

section \<open>Actors\<close>

definition findActorByTag :: "string \<Rightarrow> ('i, 'w) plugin \<Rightarrow> WorldActor option" where
  "findActorByTag tag s = (if \<not> fw_level (p_frames s) then None else find (\<lambda>a. hasTag a tag) (p_actors s))"

definition change_tags :: "int \<Rightarrow> (string list \<Rightarrow> string list) \<Rightarrow> ('i, 'w, unit) action" where
  "change_tags i f = executeS (\<lambda>s. s\<lparr>p_actors := map (\<lambda>a. if ac_id a = i then a\<lparr>ac_tags := f (ac_tags a)\<rparr> else a) (p_actors s)\<rparr>)"

section \<open>Closing\<close>

definition deactivate :: "('i, 'w) setting \<Rightarrow> player option \<Rightarrow> Id \<Rightarrow> bool \<Rightarrow> ('i, 'w, unit) action" where
  "deactivate st p i preserve_orders = catchS
     (bindS (queryS (\<lambda>s. map_of (p_markets s) i)) (\<lambda>market. case market of None \<Rightarrow> returnS ()
      | Some m \<Rightarrow>
        bindS (queryS (findActorByTag (targetTag i))) (\<lambda>target.
        bindS (case target of None \<Rightarrow> returnS ()
          | Some a \<Rightarrow> whenS (m_target_kind m = Actor) (change_tags (ac_id a) (removeAll (targetTag i)))) (\<lambda>_.
        bindS (serve (if preserve_orders then closeMarket i else retireMarket i)) (\<lambda>_.
        bindS (label (Remove_Label i)) (\<lambda>_.
        bindS (unindexMarket i) (\<lambda>_.
        bindS (processTransfers st) (\<lambda>_.
        case p of None \<Rightarrow> returnS ()
        | Some p \<Rightarrow> say p (Inr (text_of st p (if preserve_orders then MarketClosedPreserved else MarketRemoved)))))))))))
     (\<lambda>e. case p of None \<Rightarrow> returnS () | Some p \<Rightarrow> warn p (failure_text st p MarketCloseFailed e))"

section \<open>Captures for a player\<close>

text \<open>\<open>queueItemFrameCapture\<close> with a player and an announcement; \<open>failed\<close> is the callback, called at once.\<close>

definition queue_player_capture ::
  "('i, 'w) setting \<Rightarrow> player \<Rightarrow> FrameAddress \<Rightarrow> request \<Rightarrow> (error \<Rightarrow> ('i, 'w, unit) action) \<Rightarrow> ('i, 'w, unit) action"
where
  "queue_player_capture st p a request failed =
    (let message = (\<lambda>m. userError (tr_for st p m [])); key = fa_target_key a in
    bindS (queryS (\<lambda>s. (map_of (fw_captures (p_frames s)) key \<noteq> None, fw_level (p_frames s), fw_command (p_frames s)))) (\<lambda>(busy, level, command).
    if busy then failed (message FrameSaleBusy)
    else if \<not> level then failed (message WorldNotLoaded)
    else if \<not> command then failed (message FrameReadFailed)
    else
      bindS (queryS (\<lambda>s. structure_name (fa_x a) (fa_y a) (fa_z a) (fw_clock (p_frames s)))) (\<lambda>name.
      bindS (executeS (\<lambda>s. s\<lparr>p_frames := (p_frames s)\<lparr>fw_captures := AList.update key name (fw_captures (p_frames s))\<rparr>\<rparr>)) (\<lambda>_.
      bindS (say p (Inr (text_of st p FrameSaleReading))) (\<lambda>_.
      executeS (\<lambda>s. s\<lparr>p_waiting := p_waiting s @
        [\<lparr>pc_address = a, pc_player = who_uuid p, pc_name = who_name p, pc_request = request, pc_structure = name, pc_attempt = 1\<rparr>]\<rparr>))))))"

section \<open>Opening\<close>

definition block_market :: "player \<Rightarrow> FrameAddress \<Rightarrow> ItemPrototype \<Rightarrow> Domain.Market" where
  "block_market p a item = \<lparr>m_id = 0, m_book_id = 0, m_target_key = fa_target_key a, m_target_kind = Block,
     m_dimension = fa_dimension a, m_block_x = Some (fa_x a), m_block_y = Some (fa_y a), m_block_z = Some (fa_z a),
     m_actor_id = None, m_item = item, m_active = True, m_created_by = who_uuid p\<rparr>"

definition actor_market :: "player \<Rightarrow> WorldActor \<Rightarrow> ItemPrototype \<Rightarrow> Domain.Market" where
  "actor_market p a item = \<lparr>m_id = 0, m_book_id = 0, m_target_key = actorTargetKey a, m_target_kind = Actor,
     m_dimension = ac_dimension a, m_block_x = None, m_block_y = None, m_block_z = None,
     m_actor_id = Some (ac_id a), m_item = item, m_active = True, m_created_by = who_uuid p\<rparr>"

definition opened_market :: "('i, 'w) setting \<Rightarrow> player \<Rightarrow> Message \<Rightarrow> Domain.Market \<Rightarrow> ('i, 'w, unit) action" where
  "opened_market st p message m =
    bindS (indexMarket m) (\<lambda>_.
    bindS (label (Refresh_Label m)) (\<lambda>_.
    say p (tr_for st p message [localizedItemName st (m_item m) (who_language p)])))"

text \<open>The callback of \<open>queueItemFrameToggle\<close>; \<open>current\<close> is the block at the address by then, where there is one.\<close>

definition toggle_callback ::
  "('i, 'w) setting \<Rightarrow> player \<Rightarrow> FrameAddress \<Rightarrow> WorldBlock option \<Rightarrow> ItemPrototype option result \<Rightarrow> ('i, 'w, unit) action"
where
  "toggle_callback st p a current answer = catchS
     (bindS (liftS answer) (\<lambda>captured.
      bindS (queryS (\<lambda>s. map_of (p_targets s) (fa_target_key a))) (\<lambda>known.
      if known \<noteq> None then returnS ()
      else
        bindS (case captured of Some item \<Rightarrow> returnS captured
          | None \<Rightarrow> (case current of None \<Rightarrow> throwS (userError (tr_for st p FrameMissing []))
            | Some b \<Rightarrow> if \<not> isItemFrameBlock (blk_type b) then throwS (userError (tr_for st p FrameMissing []))
              else liftS (prototypeForBlock (st_host st) (st_shown st) (st_registry st) b))) (\<lambda>prototype.
        case prototype of None \<Rightarrow> throwS (userError (tr_for st p FrameNoItem []))
        | Some item \<Rightarrow>
          bindS (serve (activateMarket (st_sha st) (block_market p a item))) (opened_market st p FrameEnabled)))))
     (\<lambda>e. warn p (failure_text st p FrameActivationFailed e))"

definition queueItemFrameToggle :: "('i, 'w) setting \<Rightarrow> player \<Rightarrow> WorldBlock \<Rightarrow> ('i, 'w, unit) action" where
  "queueItemFrameToggle st p b = (let a = frameAddress b in
     queue_player_capture st p a Toggle_Request (\<lambda>e. toggle_callback st p a (Some b) (Inl e)))"

definition toggleBlock :: "('i, 'w) setting \<Rightarrow> player \<Rightarrow> WorldBlock \<Rightarrow> ('i, 'w, unit) action" where
  "toggleBlock st p b =
    (if \<not> canAdmin p then warn p (Inr (text_of st p NoMarketPermission))
     else bindS (queryS (\<lambda>s. map_of (p_targets s) (blockTargetKey b))) (\<lambda>known. case known of
       Some i \<Rightarrow> deactivate st (Some p) i True
     | None \<Rightarrow>
       if isItemFrameBlock (blk_type b) then queueItemFrameToggle st p b
       else catchS
         (bindS (liftS (prototypeForBlock (st_host st) (st_shown st) (st_registry st) b)) (\<lambda>prototype. case prototype of
            None \<Rightarrow> warn p (Inr (text_of st p BlockNoItem))
          | Some item \<Rightarrow>
            bindS (serve (activateMarket (st_sha st) (block_market p (frameAddress b) item))) (opened_market st p ObjectEnabled)))
         (\<lambda>e. warn p (failure_text st p ActivationFailed e))))"

definition toggleActor :: "('i, 'w) setting \<Rightarrow> player \<Rightarrow> WorldActor \<Rightarrow> ('i, 'w, unit) action" where
  "toggleActor st p a =
    (if \<not> canAdmin p then warn p (Inr (text_of st p NoMarketPermission))
     else bindS (queryS (\<lambda>s. marketIdForActor (p_markets s) a)) (\<lambda>known. case known of
       Some i \<Rightarrow> deactivate st (Some p) i True
     | None \<Rightarrow> catchS
       (bindS (liftS (prototypeForActor (st_host st) (st_shown st) (st_registry st) a)) (\<lambda>prototype. case prototype of
          None \<Rightarrow> warn p (Inr (text_of st p ActorNoItem))
        | Some item \<Rightarrow>
          bindS (serve (activateMarket (st_sha st) (actor_market p a item))) (\<lambda>m.
          bindS (change_tags (ac_id a) (List.insert (targetTag (m_id m)))) (\<lambda>_.
          opened_market st p ActorEnabled m))))
       (\<lambda>e. warn p (failure_text st p ActivationFailed e))))"

section \<open>What opening and closing keep\<close>

text \<open>What the flows of the other parts need of the handlers that open and close markets.\<close>

locale market_rule = plugin_rule st R
  for st :: "('i, 'w) setting" and R :: "memory \<Rightarrow> db \<Rightarrow> bool" +
  assumes deactivates: "keeps (in_plugin R) (deactivate st q i preserve_orders)"
    and toggles: "keeps (in_plugin R) (toggle_callback st p a current answer)"
      "keeps (in_plugin R) (toggleBlock st p b)" "keeps (in_plugin R) (toggleActor st p x)"
    and restores: "keeps (in_plugin R :: ('i, 'w) plugin \<Rightarrow> bool) restoreMarkets"
    and forgets: "R mem s \<Longrightarrow> R ([], []) s"
    and adjusts: "st_provider st = ''umoney'' \<or> keeps (in_reach (R mem) (\<lambda>s. s)) (addBalance (st_cfg st) u n delta)"

context plugin_rule
begin

lemma reach_capture:
  "(\<And>e. keeps (in_plugin R) (failed e)) \<Longrightarrow> keeps (in_plugin R) (queue_player_capture st p a request failed)"
  unfolding queue_player_capture_def Let_def by (intro desk_walk keeps_same; simp)

end

text \<open>A property of the database alone that every call keeps.\<close>

locale free_rule = plugin_rule st R
  for st :: "('i, 'w) setting" and R :: "memory \<Rightarrow> db \<Rightarrow> bool" +
  assumes any_memory: "R mem s \<Longrightarrow> R mem' s"
    and market_calls: "keeps (R mem) (activateMarket (st_sha st) m)" "keeps (R mem) (closeMarket i)" "keeps (R mem) (retireMarket i)"
    and adjust_call: "st_provider st = ''umoney'' \<or> keeps (R mem) (addBalance (st_cfg st) u n delta)"
begin

lemma any_executes: "(\<And>s. plugin_db (g s) = plugin_db s) \<Longrightarrow> keeps (in_plugin R) (executeS g)"
  by (auto simp: keeps_def executeS_def intro: any_memory)

lemma market_parts:
  "keeps (in_plugin R) (indexMarket m)" "keeps (in_plugin R) (unindexMarket i)" "keeps (in_plugin R) (change_tags k f)"
  unfolding indexMarket_def unindexMarket_def change_tags_def by (intro any_executes; simp split: option.split)+

lemmas market_walk = desk_walk market_parts market_calls reach_capture

lemma reach_markets:
  shows "keeps (in_plugin R) (deactivate st q i preserve_orders)"
    "keeps (in_plugin R) restoreMarkets"
    "keeps (in_plugin R) (toggle_callback st p a current answer)"
    "keeps (in_plugin R) (toggleBlock st p b)"
    "keeps (in_plugin R) (toggleActor st p x)"
proof -
  have o: "keeps (in_plugin R) (opened_market st p message m)" for p message m
    unfolding opened_market_def by (intro market_walk)
  show d: "keeps (in_plugin R) (deactivate st q i preserve_orders)" for q i preserve_orders
    unfolding deactivate_def by (cases preserve_orders; simp; intro market_walk reach_desk)
  show "keeps (in_plugin R) restoreMarkets"
    unfolding restoreMarkets_def by (intro market_walk any_executes; simp)
  show t: "keeps (in_plugin R) (toggle_callback st p a current answer)" for a current answer
    unfolding toggle_callback_def by (intro market_walk o)
  show "keeps (in_plugin R) (toggleBlock st p b)"
    unfolding toggleBlock_def queueItemFrameToggle_def Let_def by (intro market_walk o d t)
  show "keeps (in_plugin R) (toggleActor st p x)"
    unfolding toggleActor_def by (intro market_walk o d)
qed

end

sublocale free_rule \<subseteq> market_rule
  by unfold_locales (rule reach_markets any_memory adjust_call, assumption?)+

end
