(* ===== verification/Frame_Desk.thy ===== *)
theory Frame_Desk
  imports Market_Desk
begin

text \<open>
  Offering and buying the item of a frame (src/plugin.cpp): the price stick, the management form, the price
  form, the review and the purchase. Before anything is saved or paid, the frame is read anew, by a
  capture whose callback compares the item; each callback is a definition with the answer as an argument.
\<close>

section \<open>Small parts\<close>

definition enter_frame :: "player \<Rightarrow> ('i, 'w, unit) action" where
  "enter_frame p = executeS (\<lambda>s. s\<lparr>p_frame_forms := List.insert (who_uuid p) (p_frame_forms s)\<rparr>)"

definition leave_frame :: "string \<Rightarrow> ('i, 'w, unit) action" where
  "leave_frame u = executeS (\<lambda>s. s\<lparr>p_frame_forms := removeAll u (p_frame_forms s)\<rparr>)"

definition frame_error :: "('i, 'w) setting \<Rightarrow> player \<Rightarrow> Message \<Rightarrow> Cents \<Rightarrow> error \<Rightarrow> string result" where
  "frame_error st p message c e =
    bindR (frameSaleUserError (st_table st) (who_language p) e c) (\<lambda>t. tr_for st p message [t])"

definition frame_failed :: "('i, 'w) setting \<Rightarrow> player \<Rightarrow> Cents \<Rightarrow> error \<Rightarrow> ('i, 'w, unit) action" where
  "frame_failed st p c e = warn p (frame_error st p FrameSaleFailed c e)"

definition refuse :: "('i, 'w) setting \<Rightarrow> player \<Rightarrow> Message \<Rightarrow> ('i, 'w, 'a) action" where
  "refuse st p message = throwS (userError (tr_for st p message []))"

definition settle_now :: "('i, 'w) setting \<Rightarrow> FrameListing \<Rightarrow> ('i, 'w, unit) action" where
  "settle_now st l = on_frames (settleFrameListing (frame_settings st) l)"

definition listing_address :: "FrameListing \<Rightarrow> FrameAddress" where
  "listing_address l = \<lparr>fa_target_key = fl_target_key l, fa_dimension = fl_dimension l,
     fa_x = fl_x l, fa_y = fl_y l, fa_z = fl_z l\<rparr>"

text \<open>The forms of frames share their frame: one at a time, and an exception is reported.\<close>

definition frame_form :: "('i, 'w) setting \<Rightarrow> player \<Rightarrow> Cents \<Rightarrow> ('i, 'w, unit) action \<Rightarrow> ('i, 'w, unit) action" where
  "frame_form st p c body =
    bindS (queryS (\<lambda>s. who_uuid p \<in> set (p_frame_forms s))) (\<lambda>busy.
    if busy then returnS ()
    else bindS (enter_frame p) (\<lambda>_.
      catchS body (\<lambda>e. bindS (leave_frame (who_uuid p)) (\<lambda>_. frame_failed st p c e))))"

section \<open>The price\<close>

definition openFramePriceForm ::
  "('i, 'w) setting \<Rightarrow> player \<Rightarrow> FrameAddress \<Rightarrow> ItemPrototype \<Rightarrow> FrameListing option \<Rightarrow> ('i, 'w, unit) action"
where
  "openFramePriceForm st p a item existing = frame_form st p 0
    (let mc = st_market st; item_name = localizedItemName st item (who_language p);
       default_price = (case existing of Some l \<Rightarrow> fl_price l | None \<Rightarrow> mc_price_min_cents mc) in
     bindS (liftS (tr_for st p FrameSalePricePrompt
       [item_name, formatUnitPrice (mc_price_min_cents mc), formatUnitPrice (mc_price_max_cents mc)])) (\<lambda>prompt.
     show_form p (Price_Form a item existing (text_of st p FrameSalePriceTitle)
       (prompt, text_of st p PricePlaceholder, dec (default_price sdiv 100)))))"

definition price_callback ::
  "('i, 'w) setting \<Rightarrow> player \<Rightarrow> FrameAddress \<Rightarrow> FrameListing option \<Rightarrow> ItemPrototype option result \<Rightarrow> ('i, 'w, unit) action"
where
  "price_callback st p a existing answer = catchS
     (bindS (liftS answer) (\<lambda>captured. case captured of
        None \<Rightarrow> refuse st p FrameNoItem
      | Some item \<Rightarrow>
          if existing \<noteq> None \<and> \<not> sameItem (fl_item (the existing)) item then refuse st p FrameSaleChanged
          else openFramePriceForm st p a item existing))
     (frame_failed st p 0)"

definition queueFramePriceCapture ::
  "('i, 'w) setting \<Rightarrow> player \<Rightarrow> FrameAddress \<Rightarrow> FrameListing option \<Rightarrow> ('i, 'w, unit) action"
where
  "queueFramePriceCapture st p a existing =
    queue_player_capture st p a (Price_Request existing) (\<lambda>e. price_callback st p a existing (Inl e))"

definition handlePriceStick :: "('i, 'w) setting \<Rightarrow> player \<Rightarrow> WorldBlock \<Rightarrow> ('i, 'w, unit) action" where
  "handlePriceStick st p b = (let a = frameAddress b; key = fa_target_key a in catchS
     (bindS (queryS (\<lambda>s. map_of (p_targets s) key)) (\<lambda>market.
      if market \<noteq> None then warn p (Inr (text_of st p FrameSaleMarketConflict))
      else bindS (serve (findBoundFrameListing key)) (\<lambda>listing. case listing of
        None \<Rightarrow> bindS (on_frames (index_erase key)) (\<lambda>_. queueFramePriceCapture st p a None)
      | Some l \<Rightarrow>
          bindS (on_frames (index_put key (fl_id l))) (\<lambda>_.
          if fl_status l \<noteq> FrameActive
          then bindS (say p (Inr (text_of st p FrameSaleSettling))) (\<lambda>_. settle_now st l)
          else if fl_seller_uuid l \<noteq> who_uuid p \<and> \<not> who_op p
          then warn p (Inr (text_of st p FrameSaleOwnedByOther))
          else schedule p (Manage_Frame l)))))
     (frame_failed st p 0))"

section \<open>Saving a listing\<close>

definition listing_draft :: "FrameAddress \<Rightarrow> ItemPrototype \<Rightarrow> string \<Rightarrow> string \<Rightarrow> Cents \<Rightarrow> FrameListing" where
  "listing_draft a item seller_uuid seller_name price = \<lparr>fl_id = 0, fl_target_key = fa_target_key a,
     fl_dimension = fa_dimension a, fl_x = fa_x a, fl_y = fa_y a, fl_z = fa_z a, fl_seller_uuid = seller_uuid,
     fl_seller_name = seller_name, fl_price = price, fl_item = item, fl_status = FrameActive,
     fl_buyer_uuid = None, fl_buyer_name = None\<rparr>"

definition save_callback ::
  "('i, 'w) setting \<Rightarrow> player \<Rightarrow> FrameAddress \<Rightarrow> ItemPrototype \<Rightarrow> string \<Rightarrow> string \<Rightarrow> Cents \<Rightarrow>
    ItemPrototype option result \<Rightarrow> ('i, 'w, unit) action"
where
  "save_callback st p a item seller_uuid seller_name price answer = catchS
     (bindS (liftS answer) (\<lambda>current.
      if current = None \<or> \<not> sameItem item (the current) then refuse st p FrameSaleChanged
      else bindS (queryS (\<lambda>s. map_of (p_targets s) (fa_target_key a))) (\<lambda>market.
      if market \<noteq> None then refuse st p FrameSaleMarketConflict
      else
        bindS (serve (upsertFrameListing (st_cfg st) (listing_draft a item seller_uuid seller_name price) (who_op p))) (\<lambda>saved.
        bindS (on_frames (index_put (fl_target_key saved) (fl_id saved))) (\<lambda>_.
        say p (tr_for st p FrameSaleListed
          [localizedItemName st (fl_item saved) (who_language p), formatCurrency (fl_price saved)]))))))
     (frame_failed st p price)"

definition price_submitted ::
  "('i, 'w) setting \<Rightarrow> string \<Rightarrow> FrameAddress \<Rightarrow> ItemPrototype \<Rightarrow> FrameListing option \<Rightarrow> string \<Rightarrow> player option \<Rightarrow> ('i, 'w, unit) action"
where
  "price_submitted st u a item existing response q =
    bindS (leave_frame u) (\<lambda>_. answered_by u q (\<lambda>p. let mc = st_market st; language = who_language p in
      catchS
        (bindS (liftS (textFormValues (st_table st) response language)) (\<lambda>values.
         if length values \<noteq> 1 then refuse st p InvalidFormData
         else bindS (liftS (parseTradePrice (st_table st) (hd values) (mc_price_min_cents mc) (mc_price_max_cents mc)
             (mc_price_step_cents mc) language)) (\<lambda>price.
           let seller_uuid = (case existing of Some l \<Rightarrow> fl_seller_uuid l | None \<Rightarrow> u);
             seller_name = (case existing of Some l \<Rightarrow> fl_seller_name l | None \<Rightarrow> who_name p) in
           queue_player_capture st p a (Save_Request item existing seller_uuid seller_name price)
             (\<lambda>e. save_callback st p a item seller_uuid seller_name price (Inl e)))))
        (\<lambda>e. bindS (warn p (frame_error st p InputInvalid 0 e)) (\<lambda>_. schedule p (Price_Again a item existing)))))"

section \<open>Managing a listing\<close>

definition openFrameManagementForm :: "('i, 'w) setting \<Rightarrow> player \<Rightarrow> FrameListing \<Rightarrow> ('i, 'w, unit) action" where
  "openFrameManagementForm st p l = frame_form st p 0
    (bindS (serve (findBoundFrameListing (fl_target_key l))) (\<lambda>bound. case bound of
       None \<Rightarrow> refuse st p FrameSaleUnavailable
     | Some current \<Rightarrow>
         if fl_id current \<noteq> fl_id l \<or> fl_status current \<noteq> FrameActive then refuse st p FrameSaleUnavailable
         else if fl_seller_uuid current \<noteq> who_uuid p \<and> \<not> who_op p then refuse st p FrameSaleOwnedByOther
         else bindS (liftS (tr_for st p FrameSaleManageContent [localizedItemName st (fl_item current) (who_language p),
             formatCurrency (fl_price current), fl_seller_name current])) (\<lambda>content.
           show_form p (Manage_Form (listing_address current) current (text_of st p FrameSaleManageTitle) content))))"

definition change_price_pressed ::
  "('i, 'w) setting \<Rightarrow> string \<Rightarrow> FrameAddress \<Rightarrow> FrameListing \<Rightarrow> player option \<Rightarrow> ('i, 'w, unit) action"
where
  "change_price_pressed st u a l q =
    bindS (leave_frame u) (\<lambda>_. answered_by u q (\<lambda>p. queueFramePriceCapture st p a (Some l)))"

definition cancel_listing_pressed :: "('i, 'w) setting \<Rightarrow> string \<Rightarrow> FrameListing \<Rightarrow> player option \<Rightarrow> ('i, 'w, unit) action" where
  "cancel_listing_pressed st u l q =
    bindS (leave_frame u) (\<lambda>_. answered_by u q (\<lambda>p. catchS
      (bindS (serve (cancelFrameListing (fl_id l) u (who_op p))) (\<lambda>_.
       bindS (on_frames (index_erase (fl_target_key l))) (\<lambda>_.
       say p (Inr (text_of st p FrameSaleCanceled)))))
      (frame_failed st p 0)))"

section \<open>Buying\<close>

text \<open>\<open>!current || current->id != listing.id || current->status != Active || current->price_cents != listing.price_cents\<close>, negated.\<close>

definition unchanged :: "FrameListing \<Rightarrow> FrameListing option \<Rightarrow> bool" where
  "unchanged l current = (case current of None \<Rightarrow> False
     | Some c \<Rightarrow> fl_id c = fl_id l \<and> fl_status c = FrameActive \<and> fl_price c = fl_price l)"

definition item_unchanged :: "FrameListing \<Rightarrow> ItemPrototype option \<Rightarrow> bool" where
  "item_unchanged l current_item = (case current_item of None \<Rightarrow> False | Some item \<Rightarrow> sameItem (fl_item l) item)"

definition openFramePurchaseReview :: "('i, 'w) setting \<Rightarrow> player \<Rightarrow> FrameListing \<Rightarrow> ('i, 'w, unit) action" where
  "openFramePurchaseReview st p l = frame_form st p (fl_price l)
    (bindS (serve (findBoundFrameListing (fl_target_key l))) (\<lambda>bound.
     if \<not> unchanged l bound then refuse st p FrameSaleChanged
     else let current = the bound in
       bindS (serve (ensureAccount (st_cfg st) (who_uuid p) (who_name p))) (\<lambda>_.
       bindS (spendable st (who_uuid p) (who_name p)) (\<lambda>account_balance.
       bindS (liftS (tr_for st p FrameSaleConfirmTitle [localizedItemName st (fl_item current) (who_language p)])) (\<lambda>title.
       bindS (liftS (tr_for st p FrameSaleConfirmContent
         [fl_seller_name current, formatCurrency (fl_price current), formatCurrency account_balance])) (\<lambda>content.
       show_form p (Purchase_Form current title content)))))))"

definition review_callback ::
  "('i, 'w) setting \<Rightarrow> player \<Rightarrow> FrameListing \<Rightarrow> ItemPrototype option result \<Rightarrow> ('i, 'w, unit) action"
where
  "review_callback st p l answer = catchS
     (bindS (liftS answer) (\<lambda>current_item.
      bindS (serve (findBoundFrameListing (fl_target_key l))) (\<lambda>bound.
      if \<not> unchanged l bound \<or> \<not> item_unchanged l current_item then refuse st p FrameSaleChanged
      else openFramePurchaseReview st p (the bound))))
     (frame_failed st p (fl_price l))"

definition queueFramePurchaseReview :: "('i, 'w) setting \<Rightarrow> player \<Rightarrow> FrameListing \<Rightarrow> ('i, 'w, unit) action" where
  "queueFramePurchaseReview st p l =
    queue_player_capture st p (listing_address l) (Review_Request l) (\<lambda>e. review_callback st p l (Inl e))"

text \<open>After the payment: the balances as the players will see them, the messages, the settlement.\<close>

definition balances_after ::
  "('i, 'w) setting \<Rightarrow> player \<Rightarrow> FramePurchaseResult \<Rightarrow> ('i, 'w, Cents \<times> Cents) action"
where
  "balances_after st p res s = (let l = fp_listing res in
    (case spendable st (who_uuid p) (who_name p) s of
       (Inl _, s') \<Rightarrow> (Inr (fp_buyer_balance res, fp_seller_balance res), s')
     | (Inr buyer, s') \<Rightarrow>
         (case spendable st (fl_seller_uuid l) (fl_seller_name l) s' of
            (Inl _, s'') \<Rightarrow> (Inr (buyer, fp_seller_balance res), s'')
          | (Inr seller, s'') \<Rightarrow> (Inr (buyer, seller), s''))))"

definition purchase_callback ::
  "('i, 'w) setting \<Rightarrow> (string \<Rightarrow> player option) \<Rightarrow> player \<Rightarrow> FrameListing \<Rightarrow> ItemPrototype option result \<Rightarrow> ('i, 'w, unit) action"
where
  "purchase_callback st server p l answer = catchS
     (bindS (liftS answer) (\<lambda>current_item.
      bindS (serve (findBoundFrameListing (fl_target_key l))) (\<lambda>bound.
      if \<not> unchanged l bound \<or> \<not> item_unchanged l current_item then refuse st p FrameSaleChanged
      else let current = the bound in
        bindS (on_plug (fundDirectBalance (st_cfg st) (st_table st) (st_uuid st) (st_umoney st) (who_uuid p) (who_name p)
          (fl_price current) (who_language p))) (\<lambda>_.
        bindS (serve (purchaseFrameListing (st_cfg st) (fl_id current) (who_uuid p) (who_name p) (fl_price l))) (\<lambda>res.
        let sold = fp_listing res in
        bindS (on_frames (index_put (fl_target_key sold) (fl_id sold))) (\<lambda>_.
        bindS (processTransfers st) (\<lambda>_.
        bindS (balances_after st p res) (\<lambda>(buyer_balance, seller_balance).
        bindS (say p (tr_for st p FrameSalePaidBuyer [formatCurrency (fl_price sold), formatCurrency buyer_balance])) (\<lambda>_.
        bindS (case server (fl_seller_name sold) of None \<Rightarrow> returnS ()
          | Some seller \<Rightarrow> whenS (who_uuid seller = fl_seller_uuid sold)
              (say seller (tr_for st seller FrameSalePaidSeller [who_name p,
                localizedItemName st (fl_item sold) (who_language seller), formatCurrency (fl_price sold),
                formatCurrency seller_balance]))) (\<lambda>_.
        settle_now st sold))))))))))
     (\<lambda>e. bindS (processTransfers st) (\<lambda>_. frame_failed st p (fl_price l) e))"

definition queueFramePurchase ::
  "('i, 'w) setting \<Rightarrow> (string \<Rightarrow> player option) \<Rightarrow> player \<Rightarrow> FrameListing \<Rightarrow> ('i, 'w, unit) action"
where
  "queueFramePurchase st server p l =
    queue_player_capture st p (listing_address l) (Buy_Request l) (\<lambda>e. purchase_callback st server p l (Inl e))"

definition purchase_answered ::
  "('i, 'w) setting \<Rightarrow> (string \<Rightarrow> player option) \<Rightarrow> string \<Rightarrow> FrameListing \<Rightarrow> int \<Rightarrow> player option \<Rightarrow> ('i, 'w, unit) action"
where
  "purchase_answered st server u l selection q =
    bindS (leave_frame u) (\<lambda>_. answered_by u q (\<lambda>p. whenS (selection = 0) (queueFramePurchase st server p l)))"

section \<open>The capture for a player comes back\<close>

definition request_callback ::
  "('i, 'w) setting \<Rightarrow> (string \<Rightarrow> player option) \<Rightarrow> WorldBlock option \<Rightarrow> player_capture \<Rightarrow> player \<Rightarrow>
    ItemPrototype option result \<Rightarrow> ('i, 'w, unit) action"
where
  "request_callback st server current pc p answer = (let a = pc_address pc in case pc_request pc of
     Toggle_Request \<Rightarrow> toggle_callback st p a current answer
   | Price_Request existing \<Rightarrow> price_callback st p a existing answer
   | Save_Request item existing seller_uuid seller_name price \<Rightarrow> save_callback st p a item seller_uuid seller_name price answer
   | Review_Request l \<Rightarrow> review_callback st p l answer
   | Buy_Request l \<Rightarrow> purchase_callback st server p l answer)"

text \<open>\<open>completeItemFrameCapture\<close>; \<open>current\<close> is the block at the address, \<open>captured\<close> what the reader returns. A
  player who has left, or whose name another player has now, is not told, and the callbacks do nothing then.\<close>

definition told :: "(string \<Rightarrow> player option) \<Rightarrow> player_capture \<Rightarrow> player option" where
  "told server pc = (if pc_name pc = [] then None
     else case server (pc_name pc) of None \<Rightarrow> None | Some p \<Rightarrow> if who_uuid p = pc_player pc then Some p else None)"

definition complete_player_capture ::
  "('i, 'w) setting \<Rightarrow> (string \<Rightarrow> player option) \<Rightarrow> WorldBlock option \<Rightarrow> CapturedFrameItem option result \<Rightarrow>
    player_capture \<Rightarrow> ('i, 'w, unit) action"
where
  "complete_player_capture st server current captured pc =
    (let key = fa_target_key (pc_address pc);
       erase = on_frames (captures_erase key);
       answer = (\<lambda>r. case told server pc of None \<Rightarrow> returnS () | Some p \<Rightarrow> request_callback st server current pc p (r p)) in
    bindS (queryS (\<lambda>s. (map_of (fw_captures (p_frames s)) key, ready s, fw_command (p_frames s)))) (\<lambda>(pending, ok, command).
    if pending \<noteq> Some (pc_structure pc) then returnS ()
    else if \<not> ok then erase
    else case captured of
      Inl e \<Rightarrow>
        if pc_attempt pc < FrameCaptureMaxAttempts \<and> command
        then executeS (\<lambda>s. s\<lparr>p_waiting := p_waiting s @ [pc\<lparr>pc_attempt := pc_attempt pc + 1\<rparr>]\<rparr>)
        else bindS erase (\<lambda>_. answer (\<lambda>_. Inl e))
    | Inr item \<Rightarrow>
        bindS erase (\<lambda>_. answer (\<lambda>p.
          if (case current of None \<Rightarrow> True | Some b \<Rightarrow> \<not> isItemFrameBlock (blk_type b))
          then Inl (userError (tr_for st p FrameMissing []))
          else case item of None \<Rightarrow> Inr None | Some c \<Rightarrow> map_sum id Some (captured_prototype (frame_settings st) c)))))"

section \<open>What offering and buying keep\<close>

context market_rule
begin

lemma frame_parts:
  "keeps (in_plugin R) (enter_frame p)" "keeps (in_plugin R) (leave_frame u)"
  "keeps I (refuse st p message)"
  unfolding enter_frame_def leave_frame_def refuse_def by (intro keeps_same; simp)+ (intro flow_walk)

lemma reach_frame_failed: "keeps (in_plugin R) (frame_failed st p c e)"
  unfolding frame_failed_def by (intro desk_walk)

lemma reach_settle_now: "keeps (in_plugin R) (settle_now st l)"
  unfolding settle_now_def by (intro desk_walk live_settle)

lemma reach_frame_form:
  "keeps (in_plugin R) body \<Longrightarrow> keeps (in_plugin R) (frame_form st p c body)"
  unfolding frame_form_def by (intro desk_walk frame_parts reach_frame_failed)

lemmas frames_walk = desk_walk frame_parts reach_frame_failed reach_settle_now reach_frame_form reach_capture
  live_world_part

lemma reach_price:
  "keeps (in_plugin R) (openFramePriceForm st p a item existing)"
  "keeps (in_plugin R) (price_callback st p a existing answer)"
  "keeps (in_plugin R) (queueFramePriceCapture st p a existing)"
proof -
  show o: "keeps (in_plugin R) (openFramePriceForm st p a item existing)" for item existing
    unfolding openFramePriceForm_def Let_def by (intro frames_walk)
  show c: "keeps (in_plugin R) (price_callback st p a existing answer)" for answer
    unfolding price_callback_def by (intro frames_walk o)
  show "keeps (in_plugin R) (queueFramePriceCapture st p a existing)"
    unfolding queueFramePriceCapture_def by (intro frames_walk c)
qed

lemma reach_offers:
  shows "keeps (in_plugin R) (handlePriceStick st p b)"
    "keeps (in_plugin R) (save_callback st p a item su sn price answer)"
    "keeps (in_plugin R) (price_submitted st u a item existing response q)"
    "keeps (in_plugin R) (openFrameManagementForm st p l)"
    "keeps (in_plugin R) (change_price_pressed st u a l q)"
    "keeps (in_plugin R) (cancel_listing_pressed st u l q)"
proof -
  show "keeps (in_plugin R) (handlePriceStick st p b)"
    unfolding handlePriceStick_def Let_def by (intro frames_walk reach_price)
  show s: "keeps (in_plugin R) (save_callback st p a item su sn price answer)" for p a item su sn price answer
    unfolding save_callback_def by (intro frames_walk)
  show "keeps (in_plugin R) (price_submitted st u a item existing response q)"
    unfolding price_submitted_def Let_def by (intro frames_walk s)
  show "keeps (in_plugin R) (openFrameManagementForm st p l)"
    unfolding openFrameManagementForm_def by (intro frames_walk)
  show "keeps (in_plugin R) (change_price_pressed st u a l q)"
    unfolding change_price_pressed_def by (intro frames_walk reach_price)
  show "keeps (in_plugin R) (cancel_listing_pressed st u l q)"
    unfolding cancel_listing_pressed_def by (intro frames_walk)
qed

lemma reach_balances:
  shows "keeps (in_plugin R) (balances_after st p res)"
proof (rule keepsI)
  fix s q s' assume ok: "in_plugin R s" and run: "balances_after st p res s = (q, s')"
  note sp = keepsD [OF reach_desk(2)]
  obtain q1 s1 where 1: "spendable st (who_uuid p) (who_name p) s = (q1, s1)" by fastforce
  have ok1: "in_plugin R s1" by (rule sp [OF ok 1])
  obtain q2 s2 where 2: "spendable st (fl_seller_uuid (fp_listing res)) (fl_seller_name (fp_listing res)) s1 = (q2, s2)"
    by fastforce
  have ok2: "in_plugin R s2" by (rule sp [OF ok1 2])
  show "in_plugin R s'"
    using run 1 2 ok1 ok2 by (auto simp: balances_after_def Let_def split: sum.splits)
qed

lemma reach_buying:
  shows "keeps (in_plugin R) (openFramePurchaseReview st p l)"
    "keeps (in_plugin R) (review_callback st p l answer)"
    "keeps (in_plugin R) (queueFramePurchaseReview st p l)"
    "keeps (in_plugin R) (purchase_callback st server p l answer)"
    "keeps (in_plugin R) (queueFramePurchase st server p l)"
    "keeps (in_plugin R) (purchase_answered st server u l selection q)"
proof -
  note walk = frames_walk reach_desk
  show o: "keeps (in_plugin R) (openFramePurchaseReview st p l)" for l
    unfolding openFramePurchaseReview_def Let_def by (intro walk)
  show r: "keeps (in_plugin R) (review_callback st p l answer)" for answer
    unfolding review_callback_def by (intro walk o)
  show "keeps (in_plugin R) (queueFramePurchaseReview st p l)"
    unfolding queueFramePurchaseReview_def by (intro walk r)
  show c: "keeps (in_plugin R) (purchase_callback st server p l answer)" for p answer
    unfolding purchase_callback_def Let_def by (intro walk reach_balances)
  show b: "keeps (in_plugin R) (queueFramePurchase st server p l)" for p
    unfolding queueFramePurchase_def by (intro walk c)
  show "keeps (in_plugin R) (purchase_answered st server u l selection q)"
    unfolding purchase_answered_def by (intro walk b)
qed

lemma reach_player_capture:
  shows "keeps (in_plugin R) (complete_player_capture st server current captured pc)"
proof -
  have "keeps (in_plugin R) (request_callback st server current pc p answer)" for p answer
    unfolding request_callback_def Let_def
    by (cases "pc_request pc") (simp_all add: toggles reach_price reach_offers reach_buying)
  then show ?thesis
    unfolding complete_player_capture_def Let_def by (intro frames_walk keeps_same; simp)
qed

end

end
