(* ===== verification/Hologram_World.thy ===== *)
theory Hologram_World
  imports Plugin_Steps Hologram
begin

text \<open>
  The labels above the markets (src/plugin.cpp): where a label belongs, the one armor stand that carries it,
  its removal, and the chunks that come and go. The world is what the host shows the plugin: the valid
  actors of the level, the blocks, the dimensions. Positions are the bits of the host's floats; the float
  operations and the host's reading of a position are parameters.
\<close>

section \<open>The world of the labels\<close>

record label_actor =
  la_id :: int
  la_runtime :: "64 word"
  la_tags :: "string list"
  la_at :: HologramAnchor
  la_name :: string
  la_visible :: bool

record label_world =
  lw_level :: bool
  lw_dimensions :: "string list"
  lw_blocks :: "string \<times> int \<times> int \<times> int \<Rightarrow> (string \<times> int option) option"
  lw_actors :: "label_actor list"
  lw_ids :: "(Id \<times> int) list"
  lw_anchors :: "(Id \<times> HologramAnchor) list"
  lw_books :: "(Id \<times> OrderBook) list"
  lw_loaded :: "string list"
  lw_ready_chunks :: "string list"
  lw_recreates :: "Id list"
  lw_sent :: "(string \<times> byte list) list"
  lw_again :: "Id list"
  lw_snapshot :: "(Id \<times> OrderBook) list option"
  lw_asked :: "Id list option"
  lw_chunk_tasks :: "(string \<times> int \<times> int \<times> bool) list"
  lw_recreate_tasks :: "Id list"
  lw_join_pending :: "string list"
  lw_joined :: "(string \<times> string list) list"
  lw_syncs :: "(string \<times> bool \<times> int) list"

type_synonym 'a labels = "(label_world, 'a) svc"

text \<open>\<open>le_add\<close> and \<open>le_float\<close> are the float sum and the conversion from \<open>int\<close>, \<open>le_block\<close> the block a
  coordinate lies in, \<open>le_near\<close> the comparison of \<open>sameHologramAnchor\<close>; \<open>le_spawn\<close> is the armor stand the host
  puts up, if it does; \<open>le_dimension\<close> and \<open>le_within\<close> tell where a player is and whether the square of the
  distance to him is at most the number.\<close>

record label_env =
  le_table :: catalogue
  le_item_name :: "ItemPrototype \<Rightarrow> Language \<Rightarrow> string"
  le_near :: "32 word \<Rightarrow> 32 word \<Rightarrow> bool"
  le_add :: "32 word \<Rightarrow> 32 word \<Rightarrow> 32 word"
  le_float :: "int \<Rightarrow> 32 word"
  le_block :: "32 word \<Rightarrow> int"
  le_spawn :: "label_world \<Rightarrow> HologramAnchor \<Rightarrow> label_actor option"
  le_players :: "(string \<times> Language) list"
  le_dimension :: "string \<Rightarrow> string"
  le_within :: "string \<Rightarrow> 32 word \<Rightarrow> HologramAnchor \<Rightarrow> bool"

definition tagged :: "string \<Rightarrow> label_actor \<Rightarrow> bool" where
  "tagged tag a \<longleftrightarrow> tag \<in> set (la_tags a)"

section \<open>Where a label belongs\<close>

definition actor_by_id :: "int \<Rightarrow> label_world \<Rightarrow> label_actor option" where
  "actor_by_id i w = (if \<not> lw_level w then None else find (\<lambda>a. la_id a = i) (lw_actors w))"

definition actor_by_tag :: "string \<Rightarrow> label_world \<Rightarrow> label_actor option" where
  "actor_by_tag tag w = (if \<not> lw_level w then None else find (tagged tag) (lw_actors w))"

text \<open>The block that carries the frame, or the frame's own block when its direction cannot be read.\<close>

definition frame_support :: "label_world \<Rightarrow> string \<times> int \<times> int \<times> int \<Rightarrow> BlockOffset option \<times> bool" where
  "frame_support w at = (case lw_blocks w at of
     Some (ty, facing) \<Rightarrow>
       if isItemFrameBlock ty
       then (case facing of None \<Rightarrow> (None, True)
         | Some f \<Rightarrow> (case itemFrameSupportOffset f of None \<Rightarrow> (None, True) | Some offset \<Rightarrow> (Some offset, False)))
       else (None, False)
   | None \<Rightarrow> (None, False))"

definition block_label :: "label_env \<Rightarrow> label_world \<Rightarrow> string \<Rightarrow> int \<Rightarrow> int \<Rightarrow> int \<Rightarrow> HologramAnchor result" where
  "block_label env w dimension x y z = (case frame_support w (dimension, x, y, z) of (support, unresolved) \<Rightarrow>
     let shift = (\<lambda>c d. case support of None \<Rightarrow> Inr c | Some offset \<Rightarrow> checked32 (c + d offset)) in
     bindR (shift x bo_x) (\<lambda>anchor_x. bindR (shift y bo_y) (\<lambda>anchor_y. bindR (shift z bo_z) (\<lambda>anchor_z.
     Inr \<lparr>ha_dimension = dimension, ha_x = le_add env (le_float env anchor_x) 0x3F000000,
       ha_y = le_add env (le_float env anchor_y) (if unresolved then 0x40000000 else 0x3F800000),
       ha_z = le_add env (le_float env anchor_z) 0x3F000000\<rparr>))))"

definition targetLocation :: "label_env \<Rightarrow> Domain.Market \<Rightarrow> label_world \<Rightarrow> HologramAnchor option result" where
  "targetLocation env m w =
    (if \<not> lw_level w then Inr None
     else if m_target_kind m = Block
     then (case (m_block_x m, m_block_y m, m_block_z m) of
         (Some x, Some y, Some z) \<Rightarrow>
           if m_dimension m \<notin> set (lw_dimensions w) then Inr None
           else map_sum id Some (block_label env w (m_dimension m) x y z)
       | _ \<Rightarrow> Inr None)
     else (case actor_by_tag (targetTag (m_id m)) w of
         Some a \<Rightarrow> Inr (Some (la_at a))
       | None \<Rightarrow> (case m_actor_id m of None \<Rightarrow> Inr None
           | Some i \<Rightarrow> Inr (map_option la_at (actor_by_id i w)))))"

definition chunk_of :: "label_env \<Rightarrow> HologramAnchor \<Rightarrow> (int \<times> int) result" where
  "chunk_of env at = bindR (blockToChunk (le_block env (ha_x at))) (\<lambda>x.
     bindR (blockToChunk (le_block env (ha_z at))) (\<lambda>z. Inr (x, z)))"

definition market_chunk :: "label_env \<Rightarrow> Domain.Market \<Rightarrow> label_world \<Rightarrow> (string \<times> int \<times> int) option result" where
  "market_chunk env m w =
    (if m_target_kind m = Block
     then (case (m_block_x m, m_block_z m) of
         (Some x, Some z) \<Rightarrow> bindR (blockToChunk x) (\<lambda>x. bindR (blockToChunk z) (\<lambda>z. Inr (Some (m_dimension m, x, z))))
       | _ \<Rightarrow> Inr None)
     else bindR (targetLocation env m w) (\<lambda>location. case location of None \<Rightarrow> Inr None
       | Some at \<Rightarrow> map_sum id (\<lambda>(x, z). Some (ha_dimension at, x, z)) (chunk_of env at)))"

definition isTargetChunkLoaded :: "label_env \<Rightarrow> Domain.Market \<Rightarrow> label_world \<Rightarrow> bool result" where
  "isTargetChunkLoaded env m w = map_sum id (\<lambda>c. case c of None \<Rightarrow> False
     | Some (dimension, x, z) \<Rightarrow> chunkKey dimension x z \<in> set (lw_loaded w)) (market_chunk env m w)"

definition isTargetChunkSpawnReady :: "label_env \<Rightarrow> Domain.Market \<Rightarrow> label_world \<Rightarrow> bool result" where
  "isTargetChunkSpawnReady env m w = map_sum id (\<lambda>c. case c of None \<Rightarrow> False
     | Some (dimension, x, z) \<Rightarrow> chunkKey dimension x z \<in> set (lw_ready_chunks w)) (market_chunk env m w)"

text \<open>The code compares the dimension first and leaves out the chunk then, so an overflow there goes unseen.\<close>

definition marketTargetsChunk :: "label_env \<Rightarrow> Domain.Market \<Rightarrow> string \<Rightarrow> int \<Rightarrow> int \<Rightarrow> label_world \<Rightarrow> bool result" where
  "marketTargetsChunk env m dimension chunk_x chunk_z w =
    (let here = (\<lambda>name bx bz. if lower name \<noteq> lower dimension then Inr False
       else bindR (blockToChunk bx) (\<lambda>x. if x \<noteq> chunk_x then Inr False
         else bindR (blockToChunk bz) (\<lambda>z. Inr (z = chunk_z)))) in
     if m_target_kind m = Block
     then (case (m_block_x m, m_block_z m) of (Some x, Some z) \<Rightarrow> here (m_dimension m) x z | _ \<Rightarrow> Inr False)
     else bindR (targetLocation env m w) (\<lambda>location. case location of None \<Rightarrow> Inr False
       | Some at \<Rightarrow> here (ha_dimension at) (le_block env (ha_x at)) (le_block env (ha_z at))))"

section \<open>The label\<close>

definition label_text :: "label_env \<Rightarrow> Domain.Market \<Rightarrow> OrderBook \<Rightarrow> Language \<Rightarrow> string" where
  "label_text env m book language =
    marketHologramText (le_table env) m book language (le_item_name env (m_item m) language)"

text \<open>To the given players.\<close>

definition sendHologramAppearance ::
  "label_env \<Rightarrow> (string \<times> Language) list \<Rightarrow> 64 word \<Rightarrow> Domain.Market \<Rightarrow> OrderBook \<Rightarrow> unit labels"
where
  "sendHologramAppearance env players runtime m book = executeS (\<lambda>w. w\<lparr>lw_sent := lw_sent w @
     map (\<lambda>(u, language). (u, hologramAppearancePacket runtime (Some (label_text env m book language)))) players\<rparr>)"

definition book_shown :: "Id \<Rightarrow> label_world \<Rightarrow> OrderBook" where
  "book_shown i w = (case map_of (lw_books w) i of None \<Rightarrow> empty_book | Some b \<Rightarrow> b)"

text \<open>The actor found is changed in place; the host shows it under its identity.\<close>

definition change_actor :: "int \<Rightarrow> (label_actor \<Rightarrow> label_actor) \<Rightarrow> unit labels" where
  "change_actor i f = executeS (\<lambda>w. w\<lparr>lw_actors := map (\<lambda>a. if la_id a = i then f a else a) (lw_actors w)\<rparr>)"

definition chosen_label :: "int option \<Rightarrow> label_actor list \<Rightarrow> label_actor option" where
  "chosen_label remembered matches = (case filter (\<lambda>a. Some (la_id a) = remembered) matches of
     a # as \<Rightarrow> Some (last (a # as))
   | [] \<Rightarrow> (case matches of [] \<Rightarrow> None | a # _ \<Rightarrow> Some a))"

definition dress_label :: "label_env \<Rightarrow> Domain.Market \<Rightarrow> OrderBook \<Rightarrow> HologramAnchor \<Rightarrow> label_actor \<Rightarrow> unit labels" where
  "dress_label env m book at a =
    (let name = label_text env m book SimplifiedChinese in
    bindS (executeS (\<lambda>w. w\<lparr>lw_ids := AList.update (m_id m) (la_id a) (lw_ids w),
      lw_anchors := AList.update (m_id m) at (lw_anchors w)\<rparr>)) (\<lambda>_.
    bindS (change_actor (la_id a) (\<lambda>a. a\<lparr>la_name := name, la_visible := True\<rparr>)) (\<lambda>_.
    bindS (sendHologramAppearance env (le_players env) (la_runtime a) m book) (\<lambda>_.
    whenS (la_name a \<noteq> name) (executeS (\<lambda>w. w\<lparr>lw_again := lw_again w @ [m_id m]\<rparr>))))))"

definition new_label :: "label_env \<Rightarrow> Domain.Market \<Rightarrow> OrderBook \<Rightarrow> HologramAnchor \<Rightarrow> unit labels" where
  "new_label env m book at =
    bindS (queryS (isTargetChunkSpawnReady env m)) (\<lambda>ready. bindS (liftS ready) (\<lambda>ready.
    bindS (queryS (\<lambda>w. (m_id m \<in> set (lw_recreates w), le_spawn env w at))) (\<lambda>(pending, spawned).
    if \<not> ready \<or> pending then returnS ()
    else case spawned of None \<Rightarrow> returnS ()
    | Some a \<Rightarrow> let a = a\<lparr>la_tags := List.insert (hologramTag (m_id m)) (la_tags a)\<rparr> in
        bindS (executeS (\<lambda>w. w\<lparr>lw_actors := lw_actors w @ [a]\<rparr>)) (\<lambda>_. dress_label env m book at a))))"

definition old_label ::
  "label_env \<Rightarrow> Domain.Market \<Rightarrow> OrderBook \<Rightarrow> HologramAnchor \<Rightarrow> label_actor \<Rightarrow> unit labels"
where
  "old_label env m book at a =
    bindS (queryS (\<lambda>w. case map_of (lw_anchors w) (m_id m) of None \<Rightarrow> la_at a | Some anchor \<Rightarrow> anchor)) (\<lambda>previous.
    bindS (whenS (shouldRepositionHologram (le_near env) (m_target_kind m) (Some previous) at)
      (change_actor (la_id a) (\<lambda>a. a\<lparr>la_at := at\<rparr>))) (\<lambda>_.
    dress_label env m book at a))"

definition label_place :: "label_env \<Rightarrow> Domain.Market \<Rightarrow> HologramAnchor \<Rightarrow> HologramAnchor" where
  "label_place env m location =
    (if m_target_kind m = Actor then location\<lparr>ha_y := le_add env (ha_y location) 0x40100000\<rparr> else location)"

definition refreshHologram :: "label_env \<Rightarrow> Domain.Market \<Rightarrow> OrderBook \<Rightarrow> unit labels" where
  "refreshHologram env m book =
    bindS (queryS (isTargetChunkLoaded env m)) (\<lambda>loaded. bindS (liftS loaded) (\<lambda>loaded.
    if \<not> loaded then returnS ()
    else bindS (queryS (targetLocation env m)) (\<lambda>location. bindS (liftS location) (\<lambda>location. case location of
      None \<Rightarrow> returnS ()
    | Some location \<Rightarrow>
        let at = label_place env m location; tag = hologramTag (m_id m) in
        bindS (queryS (\<lambda>w. chosen_label (map_of (lw_ids w) (m_id m)) (filter (tagged tag) (lw_actors w)))) (\<lambda>chosen.
        bindS (executeS (\<lambda>w. w\<lparr>lw_actors := filter (\<lambda>a. tagged tag a \<longrightarrow> Some (la_id a) = map_option la_id chosen)
          (lw_actors w)\<rparr>)) (\<lambda>_.
        case chosen of None \<Rightarrow> new_label env m book at | Some a \<Rightarrow> old_label env m book at a))))))"

definition refresh_shown :: "label_env \<Rightarrow> Domain.Market \<Rightarrow> unit labels" where
  "refresh_shown env m = bindS (queryS (book_shown (m_id m))) (refreshHologram env m)"

definition removeHologram :: "Id \<Rightarrow> unit labels" where
  "removeHologram i = executeS (\<lambda>w. let remembered = map_of (lw_ids w) i in
     w\<lparr>lw_ids := AList.delete i (lw_ids w), lw_anchors := AList.delete i (lw_anchors w),
       lw_actors := (if \<not> lw_level w then lw_actors w
         else filter (\<lambda>a. \<not> tagged (hologramTag i) a \<and> remembered \<noteq> Some (la_id a)) (lw_actors w))\<rparr>)"

definition is_label :: "label_actor \<Rightarrow> bool" where
  "is_label a \<longleftrightarrow> (\<exists>tag\<in>set (la_tags a). starts_with tag HologramTagPrefix)"

definition removeAllHolograms :: "unit labels" where
  "removeAllHolograms = executeS (\<lambda>w. w\<lparr>lw_ids := [], lw_anchors := [],
     lw_actors := (if \<not> lw_level w then lw_actors w else filter (\<lambda>a. \<not> is_label a) (lw_actors w))\<rparr>)"

section \<open>The snapshot of the books\<close>

text \<open>The main thread's part of \<open>refreshHolograms\<close>: it takes over a snapshot that has arrived and asks for the
  next one, unless a query is under way; the worker thread ends with \<open>snapshot_done\<close>.\<close>

definition refreshHolograms :: "label_env \<Rightarrow> (Id \<times> Domain.Market) list \<Rightarrow> unit labels" where
  "refreshHolograms env ms = logged_only
    (bindS (queryS lw_snapshot) (\<lambda>snapshot.
     bindS (executeS (\<lambda>w. w\<lparr>lw_snapshot := None\<rparr>)) (\<lambda>_.
     bindS (case snapshot of None \<Rightarrow> returnS ()
       | Some new_books \<Rightarrow> bindS (executeS (\<lambda>w. w\<lparr>lw_books := new_books\<rparr>)) (\<lambda>_.
           mapS (\<lambda>(i, m). case map_of new_books i of None \<Rightarrow> returnS () | Some b \<Rightarrow> refreshHologram env m b) ms)) (\<lambda>_.
     bindS (queryS lw_asked) (\<lambda>asked.
     whenS (ms \<noteq> [] \<and> asked = None) (executeS (\<lambda>w. w\<lparr>lw_asked := Some (map fst ms)\<rparr>)))))))"

definition snapshot_done :: "(Id \<rightharpoonup> OrderBook) result \<Rightarrow> unit labels" where
  "snapshot_done answer = executeS (\<lambda>w. case lw_asked w of None \<Rightarrow> w
     | Some ids \<Rightarrow> (case answer of Inl _ \<Rightarrow> w\<lparr>lw_asked := None\<rparr>
         | Inr shown \<Rightarrow> w\<lparr>lw_asked := None,
             lw_snapshot := Some (List.map_filter (\<lambda>i. map_option (Pair i) (shown i)) ids)\<rparr>))"

text \<open>\<open>refreshHologram\<close> with the market alone.\<close>

definition refresh_and_ask :: "label_env \<Rightarrow> (Id \<times> Domain.Market) list \<Rightarrow> Domain.Market \<Rightarrow> unit labels" where
  "refresh_and_ask env ms m = bindS (refresh_shown env m) (\<lambda>_. refreshHolograms env ms)"

text \<open>The task after a name has changed.\<close>

definition show_again :: "label_env \<Rightarrow> (Id \<times> Domain.Market) list \<Rightarrow> Id \<Rightarrow> unit labels" where
  "show_again env ms i = (case map_of ms i of None \<Rightarrow> returnS ()
     | Some m \<Rightarrow> bindS (queryS (\<lambda>w. (actor_by_tag (hologramTag i) w, book_shown i w))) (\<lambda>(found, book).
         case found of None \<Rightarrow> returnS () | Some a \<Rightarrow> sendHologramAppearance env (le_players env) (la_runtime a) m book))"

section \<open>Chunks\<close>

definition in_chunk :: "label_env \<Rightarrow> string \<Rightarrow> int \<Rightarrow> int \<Rightarrow> HologramAnchor \<Rightarrow> bool result" where
  "in_chunk env dimension chunk_x chunk_z at =
    (if lower (ha_dimension at) \<noteq> lower dimension then Inr False
     else bindR (blockToChunk (le_block env (ha_x at))) (\<lambda>x. if x \<noteq> chunk_x then Inr False
       else bindR (blockToChunk (le_block env (ha_z at))) (\<lambda>z. Inr (z = chunk_z))))"

definition stray_label ::
  "label_env \<Rightarrow> (Id \<times> Domain.Market) list \<Rightarrow> string \<Rightarrow> int \<Rightarrow> int \<Rightarrow> label_actor \<Rightarrow> label_world \<Rightarrow> bool result"
where
  "stray_label env ms dimension chunk_x chunk_z a w =
    bindR (in_chunk env dimension chunk_x chunk_z (la_at a)) (\<lambda>here.
    if \<not> here then Inr False
    else case find (\<lambda>tag. starts_with tag HologramTagPrefix) (la_tags a) of None \<Rightarrow> Inr False
    | Some tag \<Rightarrow> (case marketIdFromHologramTag tag of None \<Rightarrow> Inr True
        | Some i \<Rightarrow> (case map_of ms i of None \<Rightarrow> Inr True
            | Some m \<Rightarrow> if m_target_kind m = Block
                then map_sum id Not (marketTargetsChunk env m dimension chunk_x chunk_z w) else Inr False)))"

definition reconcileLoadedChunk ::
  "label_env \<Rightarrow> (Id \<times> Domain.Market) list \<Rightarrow> string \<Rightarrow> int \<Rightarrow> int \<Rightarrow> unit labels"
where
  "reconcileLoadedChunk env ms dimension chunk_x chunk_z =
    bindS (queryS (\<lambda>w. if lw_level w then lw_actors w else [])) (\<lambda>actors.
    bindS (mapS (\<lambda>a. bindS (queryS (stray_label env ms dimension chunk_x chunk_z a)) (\<lambda>stray.
      bindS (liftS stray) (\<lambda>stray. whenS stray
        (executeS (\<lambda>w. w\<lparr>lw_actors := filter (\<lambda>b. la_id b \<noteq> la_id a) (lw_actors w)\<rparr>))))) actors) (\<lambda>_.
    mapS (\<lambda>(i, m). bindS (queryS (marketTargetsChunk env m dimension chunk_x chunk_z)) (\<lambda>here.
      bindS (liftS here) (\<lambda>here. whenS here (refresh_shown env m)))) ms))"

definition queueLoadedChunkReconcile :: "string \<Rightarrow> int \<Rightarrow> int \<Rightarrow> unit labels" where
  "queueLoadedChunkReconcile dimension chunk_x chunk_z = executeS (\<lambda>w. w\<lparr>lw_chunk_tasks := lw_chunk_tasks w @
     [(dimension, chunk_x, chunk_z, False), (dimension, chunk_x, chunk_z, True)]\<rparr>)"

text \<open>The two tasks: the later one, with \<open>grace_over\<close>, lets labels be put up in the chunk.\<close>

definition chunk_task ::
  "label_env \<Rightarrow> (Id \<times> Domain.Market) list \<Rightarrow> string \<times> int \<times> int \<times> bool \<Rightarrow> unit labels"
where
  "chunk_task env ms task = (case task of (dimension, chunk_x, chunk_z, grace_over) \<Rightarrow>
     let key = chunkKey dimension chunk_x chunk_z in
     bindS (queryS (\<lambda>w. key \<in> set (lw_loaded w))) (\<lambda>loaded. whenS loaded
       (bindS (whenS grace_over (executeS (\<lambda>w. w\<lparr>lw_ready_chunks := List.insert key (lw_ready_chunks w)\<rparr>))) (\<lambda>_.
        reconcileLoadedChunk env ms dimension chunk_x chunk_z))))"

definition onChunkLoad :: "string \<Rightarrow> int \<Rightarrow> int \<Rightarrow> unit labels" where
  "onChunkLoad dimension chunk_x chunk_z = (let key = chunkKey dimension chunk_x chunk_z in
     bindS (executeS (\<lambda>w. w\<lparr>lw_loaded := List.insert key (lw_loaded w),
       lw_ready_chunks := removeAll key (lw_ready_chunks w)\<rparr>)) (\<lambda>_.
     queueLoadedChunkReconcile dimension chunk_x chunk_z))"

fun chunk_markets ::
  "label_env \<Rightarrow> string \<Rightarrow> int \<Rightarrow> int \<Rightarrow> label_world \<Rightarrow> (Id \<times> Domain.Market) list \<Rightarrow> Id list result"
where
  "chunk_markets env dimension chunk_x chunk_z w [] = Inr []"
| "chunk_markets env dimension chunk_x chunk_z w ((i, m) # ms) =
    bindR (marketTargetsChunk env m dimension chunk_x chunk_z w) (\<lambda>here.
    bindR (chunk_markets env dimension chunk_x chunk_z w ms) (\<lambda>ids. Inr (if here then i # ids else ids)))"

definition onChunkUnload ::
  "label_env \<Rightarrow> (Id \<times> Domain.Market) list \<Rightarrow> string \<Rightarrow> int \<Rightarrow> int \<Rightarrow> unit labels"
where
  "onChunkUnload env ms dimension chunk_x chunk_z = (let key = chunkKey dimension chunk_x chunk_z in
     bindS (queryS (\<lambda>w. chunk_markets env dimension chunk_x chunk_z w ms)) (\<lambda>ids. bindS (liftS ids) (\<lambda>ids.
     bindS (mapS (\<lambda>i. bindS (executeS (\<lambda>w. w\<lparr>lw_recreates := removeAll i (lw_recreates w)\<rparr>)) (\<lambda>_. removeHologram i)) ids) (\<lambda>_.
     executeS (\<lambda>w. w\<lparr>lw_loaded := removeAll key (lw_loaded w),
       lw_ready_chunks := removeAll key (lw_ready_chunks w)\<rparr>)))))"

text \<open>What \<open>restoreMarkets\<close> does to the labels when the plugin starts; \<open>chunks\<close> are the loaded ones.\<close>

definition restore_labels :: "(string \<times> int \<times> int) list \<Rightarrow> unit labels" where
  "restore_labels chunks =
    bindS (executeS (\<lambda>w. w\<lparr>lw_ids := [], lw_books := [], lw_anchors := [], lw_loaded := [], lw_ready_chunks := [],
      lw_recreates := []\<rparr>)) (\<lambda>_.
    bindS (queryS lw_level) (\<lambda>level. whenS level
      (bindS (mapS (\<lambda>(dimension, x, z). bindS (executeS (\<lambda>w. w\<lparr>lw_loaded := List.insert (chunkKey dimension x z) (lw_loaded w)\<rparr>))
         (\<lambda>_. queueLoadedChunkReconcile dimension x z)) chunks) (\<lambda>_.
       executeS (\<lambda>w. w\<lparr>lw_actors := filter (\<lambda>a. \<not> is_label a) (lw_actors w)\<rparr>)))))"

section \<open>Actors\<close>

text \<open>Whether the event is canceled.\<close>

definition onActorDamage :: "string list \<Rightarrow> int \<Rightarrow> label_world \<Rightarrow> bool" where
  "onActorDamage tags i w \<longleftrightarrow>
    list_ex (\<lambda>tag. starts_with tag HologramTagPrefix) tags \<or> list_ex (\<lambda>(_, k). k = i) (lw_ids w)"

text \<open>The removal of an actor that is remembered as a label; the answer is whether it was one.\<close>

definition label_removed :: "int \<Rightarrow> bool labels" where
  "label_removed i =
    bindS (queryS (\<lambda>w. find (\<lambda>(_, k). k = i) (lw_ids w))) (\<lambda>found. case found of None \<Rightarrow> returnS False
    | Some (market, _) \<Rightarrow> bindS (executeS (\<lambda>w. w\<lparr>lw_ids := AList.delete market (lw_ids w)\<rparr>)) (\<lambda>_. returnS True))"

section \<open>Players\<close>

definition RecreateRangeSquared :: "32 word" where
  "RecreateRangeSquared = 0x45800000"

definition AppearanceRangeSquared :: "32 word" where
  "AppearanceRangeSquared = 0x46C80000"

definition queuePlayerHologramSync :: "string \<Rightarrow> bool \<Rightarrow> unit labels" where
  "queuePlayerHologramSync u recreate_if_pending = executeS (\<lambda>w. w\<lparr>lw_syncs := lw_syncs w @
     map (\<lambda>delay. (u, recreate_if_pending, delay)) [1, 20, 60, 120]\<rparr>)"

definition market_nearby ::
  "label_env \<Rightarrow> string \<Rightarrow> string list \<Rightarrow> Domain.Market \<Rightarrow> label_world \<Rightarrow> bool result"
where
  "market_nearby env u joined m w =
    bindR (isTargetChunkLoaded env m w) (\<lambda>loaded. if \<not> loaded then Inr False
    else bindR (isTargetChunkSpawnReady env m w) (\<lambda>ok. if \<not> ok then Inr False
    else bindR (targetLocation env m w) (\<lambda>location. case location of None \<Rightarrow> Inr False
      | Some at \<Rightarrow> if ha_dimension at \<noteq> le_dimension env u \<or> \<not> le_within env u RecreateRangeSquared at then Inr False
          else map_sum id (\<lambda>(x, z). chunkKey (ha_dimension at) x z \<in> set joined) (chunk_of env at))))"

fun markets_nearby ::
  "label_env \<Rightarrow> string \<Rightarrow> string list \<Rightarrow> label_world \<Rightarrow> (Id \<times> Domain.Market) list \<Rightarrow> Id list result"
where
  "markets_nearby env u joined w [] = Inr []"
| "markets_nearby env u joined w ((i, m) # ms) =
    bindR (market_nearby env u joined m w) (\<lambda>near.
    bindR (markets_nearby env u joined w ms) (\<lambda>ids. Inr (if near then i # ids else ids)))"

definition recreate_label :: "Id \<Rightarrow> unit labels" where
  "recreate_label i = bindS (queryS (\<lambda>w. i \<in> set (lw_recreates w))) (\<lambda>pending. if pending then returnS ()
     else bindS (executeS (\<lambda>w. w\<lparr>lw_recreates := List.insert i (lw_recreates w)\<rparr>)) (\<lambda>_.
       bindS (removeHologram i) (\<lambda>_.
       executeS (\<lambda>w. w\<lparr>lw_recreate_tasks := lw_recreate_tasks w @ [i]\<rparr>))))"

definition recreateHologramsNearPlayer :: "label_env \<Rightarrow> (Id \<times> Domain.Market) list \<Rightarrow> string \<Rightarrow> bool labels" where
  "recreateHologramsNearPlayer env ms u =
    bindS (queryS (\<lambda>w. map_of (lw_joined w) u)) (\<lambda>joined. case joined of None \<Rightarrow> returnS False
    | Some joined \<Rightarrow>
        bindS (queryS (\<lambda>w. markets_nearby env u joined w ms)) (\<lambda>ids. bindS (liftS ids) (\<lambda>ids.
        bindS (mapS recreate_label ids) (\<lambda>_. returnS (ids \<noteq> [])))))"

definition recreate_task :: "label_env \<Rightarrow> (Id \<times> Domain.Market) list \<Rightarrow> Id \<Rightarrow> unit labels" where
  "recreate_task env ms i =
    bindS (executeS (\<lambda>w. w\<lparr>lw_recreates := removeAll i (lw_recreates w)\<rparr>)) (\<lambda>_.
    case map_of ms i of None \<Rightarrow> returnS ()
    | Some m \<Rightarrow>
        bindS (queryS (isTargetChunkLoaded env m)) (\<lambda>loaded. bindS (liftS loaded) (\<lambda>loaded. whenS loaded
        (bindS (queryS (isTargetChunkSpawnReady env m)) (\<lambda>ok. bindS (liftS ok) (\<lambda>ok. whenS ok (refresh_shown env m)))))))"

definition syncHologramsForPlayer :: "label_env \<Rightarrow> (Id \<times> Domain.Market) list \<Rightarrow> string \<times> Language \<Rightarrow> unit labels" where
  "syncHologramsForPlayer env ms p = mapS (\<lambda>(i, m).
     bindS (queryS (\<lambda>w. (case Option.bind (map_of (lw_ids w) i) (\<lambda>k. actor_by_id k w) of
         Some a \<Rightarrow> Some a | None \<Rightarrow> actor_by_tag (hologramTag i) w, book_shown i w))) (\<lambda>(found, book).
     case found of None \<Rightarrow> returnS ()
     | Some a \<Rightarrow> whenS (ha_dimension (la_at a) = le_dimension env (fst p) \<and>
           le_within env (fst p) AppearanceRangeSquared (la_at a))
         (sendHologramAppearance env [p] (la_runtime a) m book))) ms"

definition sync_task ::
  "label_env \<Rightarrow> (Id \<times> Domain.Market) list \<Rightarrow> string \<times> Language \<Rightarrow> bool \<Rightarrow> int \<Rightarrow> unit labels"
where
  "sync_task env ms p recreate_if_pending delay = (let u = fst p in
     bindS (queryS (\<lambda>w. u \<in> set (lw_join_pending w))) (\<lambda>pending.
     bindS (if recreate_if_pending \<and> delay \<ge> 60 \<and> pending then recreateHologramsNearPlayer env ms u else returnS False) (\<lambda>again.
     bindS (whenS again (executeS (\<lambda>w. w\<lparr>lw_join_pending := removeAll u (lw_join_pending w),
       lw_joined := AList.delete u (lw_joined w)\<rparr>))) (\<lambda>_.
     syncHologramsForPlayer env ms p))))"

definition joined_labels :: "string \<Rightarrow> unit labels" where
  "joined_labels u = bindS (executeS (\<lambda>w. w\<lparr>lw_join_pending := List.insert u (lw_join_pending w),
     lw_joined := AList.update u (lw_loaded w) (lw_joined w)\<rparr>)) (\<lambda>_. queuePlayerHologramSync u True)"

definition quit_labels :: "string \<Rightarrow> unit labels" where
  "quit_labels u = executeS (\<lambda>w. w\<lparr>lw_join_pending := removeAll u (lw_join_pending w),
     lw_joined := AList.delete u (lw_joined w)\<rparr>)"

definition onPlayerMove :: "string \<Rightarrow> string \<times> int \<times> int \<Rightarrow> string \<times> int \<times> int \<Rightarrow> unit labels" where
  "onPlayerMove u source target = (case (source, target) of ((dimension, x, z), (dimension', x', z')) \<Rightarrow>
     bindS (liftS (if dimension \<noteq> dimension' then Inr False
       else bindR (blockToChunk x) (\<lambda>a. bindR (blockToChunk x') (\<lambda>a'. if a \<noteq> a' then Inr False
         else bindR (blockToChunk z) (\<lambda>b. bindR (blockToChunk z') (\<lambda>b'. Inr (b = b'))))))) (\<lambda>same.
     if same then returnS ()
     else bindS (queryS (\<lambda>w. u \<in> set (lw_join_pending w))) (queuePlayerHologramSync u)))"

section \<open>One label at a market\<close>

lemma dress_label_run:
  "\<exists>w'. dress_label env m book at a w = (Inr (), w') \<and>
    lw_actors w' = map (\<lambda>b. if la_id b = la_id a then b\<lparr>la_name := label_text env m book SimplifiedChinese, la_visible := True\<rparr>
      else b) (lw_actors w) \<and>
    lw_ids w' = AList.update (m_id m) (la_id a) (lw_ids w) \<and> lw_anchors w' = AList.update (m_id m) at (lw_anchors w) \<and>
    lw_again w' = lw_again w @ (if la_name a = label_text env m book SimplifiedChinese then [] else [m_id m]) \<and>
    lw_level w' = lw_level w \<and> lw_dimensions w' = lw_dimensions w \<and> lw_blocks w' = lw_blocks w \<and>
    lw_loaded w' = lw_loaded w"
  by (simp add: dress_label_def change_actor_def sendHologramAppearance_def Let_def bindS_def executeS_def whenS_def
      returnS_def)

lemma chosen_label_in:
  assumes "chosen_label remembered matches = Some a"
  shows "a \<in> set matches"
proof (cases "filter (\<lambda>a. Some (la_id a) = remembered) matches")
  case Nil
  with assms show ?thesis by (auto simp: chosen_label_def split: list.splits)
next
  case (Cons x xs)
  with assms have "a = last (x # xs)" by (simp add: chosen_label_def)
  then have "a \<in> set (filter (\<lambda>a. Some (la_id a) = remembered) matches)"
    unfolding Cons using last_in_set [of "x # xs"] by blast
  then show ?thesis by simp
qed

lemma chosen_label_None: "chosen_label remembered matches = None \<longleftrightarrow> matches = []"
  by (auto simp: chosen_label_def split: list.splits)

lemma change_tagged:
  "filter P (map (\<lambda>b. if la_id b = i then b\<lparr>la_name := n, la_visible := v\<rparr> else b) as) =
     map (\<lambda>b. if la_id b = i then b\<lparr>la_name := n, la_visible := v\<rparr> else b) (filter P as)"
  if "\<And>b. P (b\<lparr>la_name := n, la_visible := v\<rparr>) = P b" for as :: "label_actor list"
  using that by (induction as) auto

text \<open>What a refresh does once the place is known.\<close>

lemma refresh_cases:
  assumes "isTargetChunkLoaded env m w = Inr True" and "targetLocation env m w = Inr (Some location)"
  shows "refreshHologram env m book w =
    (let at = label_place env m location; tag = hologramTag (m_id m);
       chosen = chosen_label (map_of (lw_ids w) (m_id m)) (filter (tagged tag) (lw_actors w));
       w1 = w\<lparr>lw_actors := filter (\<lambda>a. tagged tag a \<longrightarrow> Some (la_id a) = map_option la_id chosen) (lw_actors w)\<rparr> in
     (case chosen of None \<Rightarrow> new_label env m book at w1 | Some a \<Rightarrow> old_label env m book at a w1))"
  by (simp add: refreshHologram_def svc_runs assms Let_def split: option.split)

lemma old_label_run:
  obtains w' where "old_label env m book at a w = (Inr (), w')"
    "\<exists>f. (\<forall>b. la_id (f b) = la_id b \<and> la_tags (f b) = la_tags b) \<and> la_name (f a) = label_text env m book SimplifiedChinese \<and>
      la_visible (f a) \<and> la_at (f a) = (if shouldRepositionHologram (le_near env) (m_target_kind m)
          (Some (case map_of (lw_anchors w) (m_id m) of None \<Rightarrow> la_at a | Some anchor \<Rightarrow> anchor)) at then at else la_at a) \<and>
      lw_actors w' = map (\<lambda>b. if la_id b = la_id a then f b else b) (lw_actors w)"
    "lw_ids w' = AList.update (m_id m) (la_id a) (lw_ids w)" "lw_anchors w' = AList.update (m_id m) at (lw_anchors w)"
proof -
  define move where "move = shouldRepositionHologram (le_near env) (m_target_kind m)
    (Some (case map_of (lw_anchors w) (m_id m) of None \<Rightarrow> la_at a | Some anchor \<Rightarrow> anchor)) at"
  define g where "g = (if move then (\<lambda>b :: label_actor. b\<lparr>la_at := at\<rparr>) else id)"
  define w1 where "w1 = (if move
    then w\<lparr>lw_actors := map (\<lambda>b. if la_id b = la_id a then b\<lparr>la_at := at\<rparr> else b) (lw_actors w)\<rparr> else w)"
  have w1: "lw_actors w1 = map (\<lambda>b. if la_id b = la_id a then g b else b) (lw_actors w)" "lw_ids w1 = lw_ids w"
    "lw_anchors w1 = lw_anchors w"
    by (auto simp: w1_def g_def intro!: map_idI [symmetric])
  obtain w' where r: "dress_label env m book at a w1 = (Inr (), w')"
    and acts: "lw_actors w' = map (\<lambda>b. if la_id b = la_id a
        then b\<lparr>la_name := label_text env m book SimplifiedChinese, la_visible := True\<rparr> else b) (lw_actors w1)"
    and ids: "lw_ids w' = AList.update (m_id m) (la_id a) (lw_ids w1)"
      "lw_anchors w' = AList.update (m_id m) at (lw_anchors w1)"
    using dress_label_run [of env m book at a w1] by blast
  have "old_label env m book at a w = (Inr (), w')"
    using r by (simp add: old_label_def svc_runs move_def [symmetric] w1_def change_actor_def bindS_def [of "whenS _ _"]
        whenS_def executeS_def returnS_def split: if_splits)
  moreover have "lw_actors w' = map (\<lambda>b. if la_id b = la_id a
      then (g b)\<lparr>la_name := label_text env m book SimplifiedChinese, la_visible := True\<rparr> else b) (lw_actors w)"
    by (auto simp: acts w1 g_def)
  ultimately show thesis
    by (intro that [of w']) (auto simp: ids w1 g_def move_def [symmetric] intro!: exI [of _ "\<lambda>b. (g b)\<lparr>la_name := label_text env m book SimplifiedChinese, la_visible := True\<rparr>"])
qed

definition one_labelled :: "label_env \<Rightarrow> Domain.Market \<Rightarrow> OrderBook \<Rightarrow> HologramAnchor \<Rightarrow> label_world \<Rightarrow> bool" where
  "one_labelled env m book at w \<longleftrightarrow> (case filter (tagged (hologramTag (m_id m))) (lw_actors w) of
     [a] \<Rightarrow> map_of (lw_ids w) (m_id m) = Some (la_id a) \<and> map_of (lw_anchors w) (m_id m) = Some at \<and>
       la_name a = label_text env m book SimplifiedChinese \<and> la_visible a
   | _ \<Rightarrow> False)"

text \<open>Where the stand is afterwards: in the market's place, or where it was before, if the place noted for it (its own,
  if none was noted) is the market's place up to the tolerance of the comparison.\<close>

definition well_placed :: "label_env \<Rightarrow> Domain.Market \<Rightarrow> HologramAnchor \<Rightarrow> label_world \<Rightarrow> label_world \<Rightarrow> bool" where
  "well_placed env m at w w' \<longleftrightarrow> (case filter (tagged (hologramTag (m_id m))) (lw_actors w') of
     [a] \<Rightarrow> la_at a = at \<or> (\<exists>b \<in> set (lw_actors w). tagged (hologramTag (m_id m)) b \<and> la_id b = la_id a \<and> la_at a = la_at b \<and>
       sameHologramAnchor (le_near env) (case map_of (lw_anchors w) (m_id m) of None \<Rightarrow> la_at b | Some anchor \<Rightarrow> anchor) at)
   | _ \<Rightarrow> False)"

definition others :: "Id \<Rightarrow> label_world \<Rightarrow> label_actor list" where
  "others i w = filter (\<lambda>a. \<not> tagged (hologramTag i) a) (lw_actors w)"

text \<open>The label dressed, and nobody else.\<close>

lemma dressed:
  assumes acts: "lw_actors w' = map (\<lambda>b. if la_id b = la_id a then f b else b) as"
    and f: "\<forall>b. la_id (f b) = la_id b \<and> la_tags (f b) = la_tags b" "la_name (f a) = label_text env m book SimplifiedChinese"
      "la_visible (f a)"
    and ids: "lw_ids w' = AList.update (m_id m) (la_id a) ids" "lw_anchors w' = AList.update (m_id m) at anchors"
    and a: "filter (tagged (hologramTag (m_id m))) as = [a]" "distinct (map la_id as)"
  shows "one_labelled env m book at w' \<and> others (m_id m) w' = filter (\<lambda>a. \<not> tagged (hologramTag (m_id m)) a) as \<and>
    distinct (map la_id (lw_actors w')) \<and> filter (tagged (hologramTag (m_id m))) (lw_actors w') = [f a]"
proof -
  let ?g = "\<lambda>b. if la_id b = la_id a then f b else b" and ?t = "tagged (hologramTag (m_id m))"
  have t: "?t (?g b) = ?t b" for b using f(1) by (simp add: tagged_def)
  have "filter ?t (map ?g as) = map ?g (filter ?t as)" by (simp add: filter_map comp_def t)
  then have one: "filter ?t (lw_actors w') = [f a]" by (simp add: acts a(1))
  have mem: "a \<in> set as" using a(1) by (metis filter_eq_ConsD in_set_conv_decomp)
  have "la_id b \<noteq> la_id a" if "b \<in> set as" "\<not> ?t b" for b
  proof
    assume "la_id b = la_id a"
    then have "b = a" using a(2) mem that(1) by (auto simp: distinct_map dest: inj_onD)
    then show False using a(1) that by (metis filter_eq_Cons_iff)
  qed
  then have "map ?g (filter (\<lambda>a. \<not> ?t a) as) = filter (\<lambda>a. \<not> ?t a) as" by (intro map_idI) auto
  then have "filter (\<lambda>a. \<not> ?t a) (lw_actors w') = filter (\<lambda>a. \<not> ?t a) as" by (simp add: acts filter_map comp_def t)
  moreover have "map la_id (lw_actors w') = map la_id as" by (simp add: acts comp_def f(1) if_distrib cong: if_cong)
  ultimately show ?thesis using one f a(2) by (simp add: one_labelled_def others_def ids update_conv')
qed

lemma new_label_run:
  assumes "new_label env m book at w = (Inr (), w')"
  obtains "w' = w" | a where "le_spawn env w at = Some a"
    "lw_actors w' = map (\<lambda>b. if la_id b = la_id a then b\<lparr>la_name := label_text env m book SimplifiedChinese, la_visible := True\<rparr>
      else b) (lw_actors w @ [a\<lparr>la_tags := List.insert (hologramTag (m_id m)) (la_tags a)\<rparr>])"
    "lw_ids w' = AList.update (m_id m) (la_id a) (lw_ids w)" "lw_anchors w' = AList.update (m_id m) at (lw_anchors w)"
proof -
  from assms consider "w' = w" | a where "le_spawn env w at = Some a"
      "dress_label env m book at (a\<lparr>la_tags := List.insert (hologramTag (m_id m)) (la_tags a)\<rparr>)
        (w\<lparr>lw_actors := lw_actors w @ [a\<lparr>la_tags := List.insert (hologramTag (m_id m)) (la_tags a)\<rparr>]\<rparr>) = (Inr (), w')"
    by (auto simp: new_label_def svc_runs liftS_def returnS_def throwS_def Let_def bindS_def [of "liftS _"]
        split: if_splits option.splits sum.splits)
  then show thesis
  proof cases
    case 1
    then show ?thesis by (rule that(1))
  next
    case (2 a)
    then show ?thesis
      using dress_label_run [of env m book at "a\<lparr>la_tags := List.insert (hologramTag (m_id m)) (la_tags a)\<rparr>"
          "w\<lparr>lw_actors := lw_actors w @ [a\<lparr>la_tags := List.insert (hologramTag (m_id m)) (la_tags a)\<rparr>]\<rparr>"]
      by (intro that(2) [of a]) auto
  qed
qed

text \<open>A new stand has an identity of its own and is where it was asked for.\<close>

definition fresh_spawns :: "label_env \<Rightarrow> bool" where
  "fresh_spawns env \<longleftrightarrow> (\<forall>w at a. le_spawn env w at = Some a \<longrightarrow> la_id a \<notin> la_id ` set (lw_actors w) \<and> la_at a = at)"

lemma refresh_one:
  assumes ids: "distinct (map la_id (lw_actors w))" and new: "fresh_spawns env"
    and "isTargetChunkLoaded env m w = Inr True" "targetLocation env m w = Inr (Some location)"
    and run: "refreshHologram env m book w = (Inr (), w')"
  shows "others (m_id m) w' = others (m_id m) w \<and> distinct (map la_id (lw_actors w')) \<and>
    (one_labelled env m book (label_place env m location) w' \<and> well_placed env m (label_place env m location) w w' \<or>
      filter (tagged (hologramTag (m_id m))) (lw_actors w) = [] \<and> w' = w)"
proof -
  let ?t = "tagged (hologramTag (m_id m))" and ?at = "label_place env m location"
  define chosen where "chosen = chosen_label (map_of (lw_ids w) (m_id m)) (filter ?t (lw_actors w))"
  define w1 where "w1 = w\<lparr>lw_actors := filter (\<lambda>a. ?t a \<longrightarrow> Some (la_id a) = map_option la_id chosen) (lw_actors w)\<rparr>"
  have go: "(case chosen of None \<Rightarrow> new_label env m book ?at w1 | Some a \<Rightarrow> old_label env m book ?at a w1) = (Inr (), w')"
    using run unfolding refresh_cases [OF assms(3,4)] Let_def w1_def chosen_def .
  show ?thesis
  proof (cases chosen)
    case None
    then have none: "filter ?t (lw_actors w) = []" by (simp add: chosen_def chosen_label_None)
    then have same: "w1 = w" using None by (auto simp: w1_def filter_empty_conv intro!: label_world.equality filter_True)
    have "new_label env m book ?at w = (Inr (), w')" using go None same by simp
    then show ?thesis
    proof (cases rule: new_label_run)
      case 1
      then show ?thesis using none ids by simp
    next
      case (2 a)
      let ?a = "a\<lparr>la_tags := List.insert (hologramTag (m_id m)) (la_tags a)\<rparr>"
      have "la_id a \<notin> la_id ` set (lw_actors w)" and at: "la_at a = ?at" using new 2(1) by (simp_all add: fresh_spawns_def)
      then have "distinct (map la_id (lw_actors w @ [?a]))" using ids by auto
      moreover have "filter ?t (lw_actors w @ [?a]) = [?a]" by (simp add: none) (simp add: tagged_def)
      ultimately have "one_labelled env m book ?at w' \<and> others (m_id m) w' = filter (\<lambda>a. \<not> ?t a) (lw_actors w @ [?a]) \<and>
        distinct (map la_id (lw_actors w')) \<and> filter ?t (lw_actors w') =
          [?a\<lparr>la_name := label_text env m book SimplifiedChinese, la_visible := True\<rparr>]"
        by (intro dressed [of w' ?a "\<lambda>b. b\<lparr>la_name := label_text env m book SimplifiedChinese, la_visible := True\<rparr>" _ env m book "lw_ids w" _ "lw_anchors w"])
          (simp_all add: 2)
      then show ?thesis using at by (simp add: others_def well_placed_def) (simp add: tagged_def)
    qed
  next
    case (Some a)
    have a: "a \<in> set (filter ?t (lw_actors w))" using Some by (auto simp: chosen_def dest: chosen_label_in)
    have left: "filter ?t (lw_actors w1) = [a]"
    proof -
      have "filter ?t (lw_actors w1) = filter (\<lambda>x. la_id x = la_id a) (filter ?t (lw_actors w))"
        by (auto simp: w1_def Some filter_filter intro!: filter_cong)
      also have "\<dots> = [a]" using a ids by (intro filter_key) (simp_all add: List.distinct_map_filter)
      finally show ?thesis .
    qed
    have d: "distinct (map la_id (lw_actors w1))" using ids by (simp add: w1_def List.distinct_map_filter)
    have rest: "filter (\<lambda>a. \<not> ?t a) (lw_actors w1) = others (m_id m) w"
      by (auto simp: w1_def others_def filter_filter intro: filter_cong)
    obtain w2 f where w2: "old_label env m book ?at a w1 = (Inr (), w2)"
      "\<forall>b. la_id (f b) = la_id b \<and> la_tags (f b) = la_tags b" "la_name (f a) = label_text env m book SimplifiedChinese"
      "la_visible (f a)" and at: "la_at (f a) = (if shouldRepositionHologram (le_near env) (m_target_kind m)
          (Some (case map_of (lw_anchors w1) (m_id m) of None \<Rightarrow> la_at a | Some anchor \<Rightarrow> anchor)) ?at then ?at else la_at a)"
      and w2': "lw_actors w2 = map (\<lambda>b. if la_id b = la_id a then f b else b) (lw_actors w1)"
      "lw_ids w2 = AList.update (m_id m) (la_id a) (lw_ids w1)" "lw_anchors w2 = AList.update (m_id m) ?at (lw_anchors w1)"
      by (rule old_label_run [of env m book ?at a w1]) blast
    then have "w2 = w'" using go Some by simp
    note D = dressed [OF w2'(1) w2(2,3,4) w2'(2,3) left d]
    have "la_id (f a) = la_id a" using w2(2) by blast
    with a at D have "well_placed env m ?at w w2"
      by (auto simp: well_placed_def shouldRepositionHologram_def w1_def)
    with D rest \<open>w2 = w'\<close> show ?thesis by simp
  qed
qed

text \<open>A label in its place is left alone: the refresh shows it to the players again, nothing else.\<close>

lemma refresh_settled:
  assumes ids: "distinct (map la_id (lw_actors w))" and near: "\<And>x. le_near env x x"
    and place: "isTargetChunkLoaded env m w = Inr True" "targetLocation env m w = Inr (Some location)"
    and one: "one_labelled env m book (label_place env m location) w"
  obtains w' where "refreshHologram env m book w = (Inr (), w')" "lw_actors w' = lw_actors w" "lw_again w' = lw_again w"
    "map_of (lw_ids w') = map_of (lw_ids w)" "map_of (lw_anchors w') = map_of (lw_anchors w)"
proof -
  let ?t = "tagged (hologramTag (m_id m))" and ?at = "label_place env m location"
  obtain a where a: "filter ?t (lw_actors w) = [a]" "map_of (lw_ids w) (m_id m) = Some (la_id a)"
    "map_of (lw_anchors w) (m_id m) = Some ?at" "la_name a = label_text env m book SimplifiedChinese" "la_visible a"
    using one by (auto simp: one_labelled_def split: list.splits)
  have mem: "a \<in> set (lw_actors w)" using a(1) by (metis filter_eq_ConsD in_set_conv_decomp)
  have chosen: "chosen_label (map_of (lw_ids w) (m_id m)) (filter ?t (lw_actors w)) = Some a"
    by (simp add: a(1,2) chosen_label_def)
  have "filter (\<lambda>b. ?t b \<longrightarrow> Some (la_id b) = map_option la_id (Some a)) (lw_actors w) = lw_actors w"
  proof (rule filter_True, rule ballI)
    fix b assume "b \<in> set (lw_actors w)"
    then have "?t b \<Longrightarrow> b \<in> set (filter ?t (lw_actors w))" by simp
    then show "?t b \<longrightarrow> Some (la_id b) = map_option la_id (Some a)" by (simp add: a(1))
  qed
  then have go: "refreshHologram env m book w = old_label env m book ?at a w"
    unfolding refresh_cases [OF place] Let_def chosen by simp
  have stay: "\<not> shouldRepositionHologram (le_near env) (m_target_kind m) (Some ?at) ?at" by (rule no_reposition) (rule near)
  obtain w' where w': "dress_label env m book ?at a w = (Inr (), w')"
    "lw_actors w' = map (\<lambda>b. if la_id b = la_id a then b\<lparr>la_name := label_text env m book SimplifiedChinese, la_visible := True\<rparr>
      else b) (lw_actors w)"
    "lw_ids w' = AList.update (m_id m) (la_id a) (lw_ids w)" "lw_anchors w' = AList.update (m_id m) ?at (lw_anchors w)"
    "lw_again w' = lw_again w"
    using dress_label_run [of env m book ?at a w] a(4) by auto
  have "b = a" if "b \<in> set (lw_actors w)" "la_id b = la_id a" for b
    using ids mem that by (auto simp: distinct_map dest: inj_onD)
  moreover have "a\<lparr>la_name := label_text env m book SimplifiedChinese, la_visible := True\<rparr> = a"
    by (rule label_actor.equality) (simp_all add: a)
  ultimately have "lw_actors w' = lw_actors w" unfolding w'(2) by (intro map_idI) metis
  moreover have "old_label env m book ?at a w = (Inr (), w')"
    using w'(1) stay by (simp add: old_label_def svc_runs a(3) bindS_def [of "whenS _ _"] whenS_def returnS_def)
  ultimately show thesis using that w' a by (simp add: go update_conv' map_upd_triv)
qed

lemma keeps_execute: "(\<And>w. I w \<Longrightarrow> I (g w)) \<Longrightarrow> keeps I (executeS g)"
  by (simp add: keeps_def executeS_def)

text \<open>The part of the world a block market's place depends on.\<close>

definition surroundings :: "label_world \<Rightarrow> bool \<times> string list \<times> (string \<times> int \<times> int \<times> int \<Rightarrow> (string \<times> int option) option) \<times> string list" where
  "surroundings w = (lw_level w, lw_dimensions w, lw_blocks w, lw_loaded w)"

lemma refresh_surroundings: "keeps (\<lambda>w. surroundings w = x) (refreshHologram env m book)"
  unfolding refreshHologram_def new_label_def old_label_def dress_label_def change_actor_def sendHologramAppearance_def Let_def
  by (intro flow_walk keeps_execute; simp add: surroundings_def)

lemma block_place:
  assumes "m_target_kind m = Block" and "surroundings w' = surroundings w"
  shows "isTargetChunkLoaded env m w' = isTargetChunkLoaded env m w" "targetLocation env m w' = targetLocation env m w"
  using assms by (simp_all add: surroundings_def isTargetChunkLoaded_def market_chunk_def targetLocation_def block_label_def
      frame_support_def split: option.split)

text \<open>
  C39: With actors that have identities of their own, a refresh of the label of a market, at a block or an actor,
  whose chunk is loaded leaves every other actor
  alone and ends with exactly one actor that carries the market's tag, remembered, visible, with the
  text of the book and the market's place noted for it, whatever duplicates there were. The stand is in the market's
  place: a new one is put up there, one that was there before is moved there, unless the place noted for it earlier, or
  its own if none was noted, is the market's place up to the tolerance of the code's comparison; then it stays where
  it is, even if something else has moved it since. Only where there was no stand and none may be put up now,
  the refresh changes nothing. Refreshing again, with the market still there, changes no actor and schedules nothing.
\<close>
theorem one_label:
  assumes "distinct (map la_id (lw_actors w))" and "fresh_spawns env" and "\<And>x. le_near env x x"
    and "isTargetChunkLoaded env m w = Inr True" and "targetLocation env m w = Inr (Some location)"
    and "refreshHologram env m book w = (Inr (), w')"
  shows "others (m_id m) w' = others (m_id m) w \<and>
    (one_labelled env m book (label_place env m location) w' \<and> well_placed env m (label_place env m location) w w' \<or>
      filter (tagged (hologramTag (m_id m))) (lw_actors w) = [] \<and> w' = w) \<and>
    (m_target_kind m = Block \<or> isTargetChunkLoaded env m w' = Inr True \<and> targetLocation env m w' = Inr (Some location) \<longrightarrow>
      fst (refreshHologram env m book w') = Inr () \<and>
      lw_actors (snd (refreshHologram env m book w')) = lw_actors w' \<and>
      lw_again (snd (refreshHologram env m book w')) = lw_again w')"
proof -
  have same: "surroundings w' = surroundings w"
    using keepsD [OF refresh_surroundings [of "surroundings w"] refl assms(6)] .
  note one = refresh_one [OF assms(1,2,4,5,6)]
  have d: "distinct (map la_id (lw_actors w'))" using one by blast
  show ?thesis
  proof (cases "w' = w")
    case True
    then show ?thesis using one assms(6) by auto
  next
    case False
    then have l: "one_labelled env m book (label_place env m location) w'" using one by blast
    have "\<exists>w2. refreshHologram env m book w' = (Inr (), w2) \<and> lw_actors w2 = lw_actors w' \<and> lw_again w2 = lw_again w'"
      if "isTargetChunkLoaded env m w' = Inr True" "targetLocation env m w' = Inr (Some location)"
      by (rule refresh_settled [OF d assms(3) that l]) blast
    moreover have "isTargetChunkLoaded env m w' = Inr True \<and> targetLocation env m w' = Inr (Some location)"
      if "m_target_kind m = Block" using block_place [OF that same] assms(4,5) by simp
    ultimately show ?thesis using one l by auto
  qed
qed

section \<open>An example\<close>

fun above :: "int list \<Rightarrow> int" where
  "above [] = 0"
| "above (x # xs) = max (x + 1) (above xs)"

lemma above_fresh: "x \<in> set xs \<Longrightarrow> x < above xs"
  by (induction xs) auto

definition demo_label_env :: label_env where
  "demo_label_env = \<lparr>le_table = [], le_item_name = \<lambda>item language. ''Item'', le_near = (=), le_add = (+), le_float = word_of_int,
     le_block = sint, le_spawn = \<lambda>w at. Some \<lparr>la_id = above (map la_id (lw_actors w)), la_runtime = 9, la_tags = [],
       la_at = at, la_name = [], la_visible = False\<rparr>, le_players = [(''ann'', English)],
     le_dimension = \<lambda>u. ''Overworld'', le_within = \<lambda>u d at. True\<rparr>"

lemma demo_label_env_fresh: "fresh_spawns demo_label_env"
proof -
  have "above (map la_id as) \<notin> la_id ` set as" for as :: "label_actor list" using above_fresh [of _ "map la_id as"] by fastforce
  then show ?thesis by (simp add: fresh_spawns_def demo_label_env_def)
qed

definition demo_labelled_market :: Domain.Market where
  "demo_labelled_market = demo_activation\<lparr>m_id := 7, m_target_kind := Block, m_dimension := ''Overworld'',
     m_block_x := Some 3, m_block_y := Some 64, m_block_z := Some 5\<rparr>"

definition demo_stand :: "int \<Rightarrow> string \<Rightarrow> label_actor" where
  "demo_stand i tag = \<lparr>la_id = i, la_runtime = 4, la_tags = [tag], la_at = \<lparr>ha_dimension = ''Overworld'', ha_x = 0, ha_y = 0, ha_z = 0\<rparr>,
     la_name = ''old'', la_visible = False\<rparr>"

text \<open>Two labels of the market, from an old save, and a label of another one.\<close>

definition demo_labels :: label_world where
  "demo_labels = \<lparr>lw_level = True, lw_dimensions = [''Overworld''], lw_blocks = \<lambda>_. None,
     lw_actors = [demo_stand 1 (hologramTag 7), demo_stand 2 (hologramTag 8), demo_stand 3 (hologramTag 7)],
     lw_ids = [(7, 3)], lw_anchors = [], lw_books = [], lw_loaded = [chunkKey ''Overworld'' 0 0],
     lw_ready_chunks = [], lw_recreates = [], lw_sent = [], lw_again = [], lw_snapshot = None, lw_asked = None,
     lw_chunk_tasks = [], lw_recreate_tasks = [], lw_join_pending = [], lw_joined = [], lw_syncs = []\<rparr>"

definition demo_relabelled :: label_world where
  "demo_relabelled = snd (refreshHologram demo_label_env demo_labelled_market empty_book demo_labels)"

lemma one_label_witness:
  "others 7 demo_relabelled = [demo_stand 2 (hologramTag 8)] \<and> length (lw_actors demo_relabelled) = 2 \<and>
    well_placed demo_label_env demo_labelled_market
      \<lparr>ha_dimension = ''Overworld'', ha_x = 0x3F000003, ha_y = 0x3F800040, ha_z = 0x3F000005\<rparr> demo_labels demo_relabelled \<and>
    lw_actors (snd (refreshHologram demo_label_env demo_labelled_market empty_book demo_relabelled)) = lw_actors demo_relabelled"
proof -
  have 1: "isTargetChunkLoaded demo_label_env demo_labelled_market demo_labels = Inr True" by code_simp
  have 2: "targetLocation demo_label_env demo_labelled_market demo_labels =
    Inr (Some \<lparr>ha_dimension = ''Overworld'', ha_x = 0x3F000003, ha_y = 0x3F800040, ha_z = 0x3F000005\<rparr>)" by code_simp
  have "\<not> isl (fst (refreshHologram demo_label_env demo_labelled_market empty_book demo_labels))" by code_simp
  then have 3: "refreshHologram demo_label_env demo_labelled_market empty_book demo_labels = (Inr (), demo_relabelled)"
    by (auto simp: not_isl_fst demo_relabelled_def)
  have 4: "length (lw_actors demo_relabelled) = 2" by code_simp
  have 5: "others 7 demo_labels = [demo_stand 2 (hologramTag 8)]" by code_simp
  have 6: "m_id demo_labelled_market = 7" "m_target_kind demo_labelled_market = Block" by (simp_all add: demo_labelled_market_def)
  have 8: "le_near demo_label_env x x" for x by (simp add: demo_label_env_def)
  have 9: "filter (tagged (hologramTag 7)) (lw_actors demo_labels) \<noteq> []" by code_simp
  have 7: "distinct (map la_id (lw_actors demo_labels))" by (simp add: demo_labels_def demo_stand_def)
  show ?thesis
    using one_label [OF 7 demo_label_env_fresh _ 1 2 3] 4 5 6 8 9 by (auto simp: label_place_def)
qed

end
