(* ===== verification/Plugin_Events.thy ===== *)
theory Plugin_Events
  imports Frame_Desk Hologram_World
begin

text \<open>
  The handlers the plugin registers and the tasks it hands to the scheduler (src/plugin.cpp): clicks on blocks
  and actors, broken targets, joining and leaving, dropping items, the commands, starting and stopping. A
  handler of an event that can be canceled answers whether it cancels. The labels are in theory
  Hologram_World; what a handler does to them is the second half of the handler's definition there.
\<close>

section \<open>Clicks\<close>

datatype click = LeftClickBlock | RightClickBlock | Other_Click

definition acceptInteraction :: "player \<Rightarrow> int \<Rightarrow> ('i, 'w, bool) action" where
  "acceptInteraction p now s = (case accept (who_uuid p) now (p_gate s) of (ok, g) \<Rightarrow> (Inr ok, s\<lparr>p_gate := g\<rparr>))"

text \<open>A click that is canceled in any case and does something when the gate lets it through.\<close>

definition gated :: "player \<Rightarrow> int \<Rightarrow> ('i, 'w, unit) action \<Rightarrow> ('i, 'w, bool) action" where
  "gated p now body = bindS (acceptInteraction p now) (\<lambda>ok. bindS (whenS ok body) (\<lambda>_. returnS True))"

definition click_listing :: "('i, 'w) setting \<Rightarrow> player \<Rightarrow> string \<Rightarrow> Id \<Rightarrow> ('i, 'w, unit) action" where
  "click_listing st p key i = catchS
     (bindS (serve (findFrameListing i)) (\<lambda>listing.
      let closed = bindS (on_frames (index_erase key)) (\<lambda>_. warn p (Inr (text_of st p FrameSaleUnavailable))) in
      case listing of None \<Rightarrow> closed
      | Some l \<Rightarrow>
          if fl_status l = FrameClaimed \<or> fl_status l = FrameCanceled then closed
          else if fl_status l \<noteq> FrameActive
          then bindS (say p (Inr (text_of st p FrameSaleSettling))) (\<lambda>_. settle_now st l)
          else if fl_seller_uuid l = who_uuid p then warn p (Inr (text_of st p FrameSaleSelfPurchase))
          else queueFramePurchaseReview st p l))
     (\<lambda>e. warn p (failure_text st p FrameSaleFailed e))"

definition left_click ::
  "('i, 'w) setting \<Rightarrow> player \<Rightarrow> int \<Rightarrow> WorldBlock \<Rightarrow> Id option \<Rightarrow> Id option \<Rightarrow> ('i, 'w, bool) action"
where
  "left_click st p now b listing market = (case listing of
     Some i \<Rightarrow> gated p now (click_listing st p (blockTargetKey b) i)
   | None \<Rightarrow> (case market of None \<Rightarrow> returnS False
       | Some m \<Rightarrow> if isItemFrameBlock (blk_type b) then gated p now (schedule p (Open_Trade m)) else returnS False))"

definition hint_listing :: "('i, 'w) setting \<Rightarrow> player \<Rightarrow> Id \<Rightarrow> ('i, 'w, unit) action" where
  "hint_listing st p i =
    bindS (serve (findFrameListing i)) (\<lambda>listing. case listing of
      None \<Rightarrow> say p (Inr (text_of st p FrameSaleSettling))
    | Some l \<Rightarrow> if fl_status l = FrameActive then say p (tr_for st p FrameSaleBuyHint [formatCurrency (fl_price l)])
        else bindS (say p (Inr (text_of st p FrameSaleSettling))) (\<lambda>_. settle_now st l))"

definition right_click ::
  "('i, 'w) setting \<Rightarrow> player \<Rightarrow> int \<Rightarrow> ItemStack option \<Rightarrow> WorldBlock \<Rightarrow> Id option \<Rightarrow> Id option \<Rightarrow> ('i, 'w, bool) action"
where
  "right_click st p now item b listing market =
    (let exchanger = isExchanger (st_shown st) item in
     if isPriceStick (st_shown st) item \<and> isItemFrameBlock (blk_type b) then gated p now (handlePriceStick st p b)
     else case listing of Some i \<Rightarrow> gated p now (hint_listing st p i)
     | None \<Rightarrow>
         if exchanger then gated p now (toggleBlock st p b)
         else case market of None \<Rightarrow> returnS False | Some m \<Rightarrow> gated p now (schedule p (Open_Trade m)))"

definition onPlayerInteract ::
  "('i, 'w) setting \<Rightarrow> player \<Rightarrow> int \<Rightarrow> click \<Rightarrow> ItemStack option \<Rightarrow> WorldBlock option \<Rightarrow> ('i, 'w, bool) action"
where
  "onPlayerInteract st p now click item block =
    bindS (queryS ready) (\<lambda>ok. case block of None \<Rightarrow> returnS False
    | Some b \<Rightarrow>
        if \<not> ok then returnS False
        else if (case item of None \<Rightarrow> False | Some x \<Rightarrow> isInternalEscrowItem x)
        then bindS (warn p (Inr (text_of st p RecoveryCannotUse))) (\<lambda>_. returnS True)
        else
          bindS (queryS (\<lambda>s. (map_of (fw_index (p_frames s)) (blockTargetKey b), map_of (p_targets s) (blockTargetKey b))))
            (\<lambda>(listing, market). case click of
              LeftClickBlock \<Rightarrow> left_click st p now b listing market
            | RightClickBlock \<Rightarrow> right_click st p now item b listing market
            | Other_Click \<Rightarrow> returnS False))"

definition onPlayerInteractActor ::
  "('i, 'w) setting \<Rightarrow> player \<Rightarrow> int \<Rightarrow> ItemStack option \<Rightarrow> WorldActor \<Rightarrow> ('i, 'w, bool) action"
where
  "onPlayerInteractActor st p now item a =
    bindS (queryS ready) (\<lambda>ok.
    if \<not> ok then returnS False
    else if (case item of None \<Rightarrow> False | Some x \<Rightarrow> isInternalEscrowItem x)
    then bindS (warn p (Inr (text_of st p RecoveryCannotUse))) (\<lambda>_. returnS True)
    else
      bindS (queryS (\<lambda>s. marketIdForActor (p_markets s) a)) (\<lambda>market.
      if isExchanger (st_shown st) item
      then gated p now (case market of
          Some m \<Rightarrow> if hasTag a (hologramTag m) then warn p (Inr (text_of st p HologramNotTarget)) else toggleActor st p a
        | None \<Rightarrow> toggleActor st p a)
      else case market of None \<Rightarrow> returnS False | Some m \<Rightarrow> gated p now (schedule p (Open_Trade m))))"

section \<open>Targets that vanish\<close>

definition onBlockBreak :: "('i, 'w) setting \<Rightarrow> player \<Rightarrow> WorldBlock \<Rightarrow> ('i, 'w, unit) action" where
  "onBlockBreak st p b =
    bindS (queryS (\<lambda>s. if ready s then map_of (p_targets s) (blockTargetKey b) else None)) (\<lambda>market.
    case market of None \<Rightarrow> returnS () | Some i \<Rightarrow> deactivate st (Some p) i False)"

definition onListedFrameBreak :: "('i, 'w) setting \<Rightarrow> player \<Rightarrow> WorldBlock \<Rightarrow> ('i, 'w, bool) action" where
  "onListedFrameBreak st p b =
    bindS (queryS (\<lambda>s. ready s \<and> map_of (fw_index (p_frames s)) (blockTargetKey b) \<noteq> None)) (\<lambda>listed.
    if \<not> listed then returnS False
    else bindS (warn p (Inr (text_of st p FrameSaleProtected))) (\<lambda>_. returnS True))"

text \<open>The blocks an explosion still destroys.\<close>

definition onExplode :: "WorldBlock list \<Rightarrow> ('i, 'w) plugin \<Rightarrow> WorldBlock list" where
  "onExplode blocks s = (if ready s then protectListedFrames blocks (p_frames s) else blocks)"

text \<open>\<open>was_label\<close> is the answer of \<open>label_removed\<close>.\<close>

definition onActorRemove :: "('i, 'w) setting \<Rightarrow> bool \<Rightarrow> WorldActor \<Rightarrow> ('i, 'w, unit) action" where
  "onActorRemove st was_label a =
    bindS (queryS (\<lambda>s. if ready s \<and> \<not> was_label
      then find (\<lambda>(i, m). m_target_kind m = Actor \<and> hasTag a (targetTag i)) (p_markets s) else None)) (\<lambda>target.
    case target of None \<Rightarrow> returnS () | Some (i, _) \<Rightarrow> deactivate st None i False)"

section \<open>Players come and go\<close>

definition marked_listings :: "'i inventory_api \<Rightarrow> 'i \<Rightarrow> Id list" where
  "marked_listings api i = List.map_filter (\<lambda>x. frameSaleItemId (is_nbt x))
     (List.map_filter (inv_item api i) [0..<inv_size api i] @ (case inv_off api i of None \<Rightarrow> [] | Some x \<Rightarrow> [x]))"

text \<open>\<open>reconcileFrameSaleItems\<close> with its effect on the index: the entry of every marked item goes whose listing
  could be completed.\<close>

definition settle_frame_items :: "('i, 'w) setting \<Rightarrow> player \<Rightarrow> ('i, 'w, unit) action" where
  "settle_frame_items st p =
    (let forget = (\<lambda>ids. mapS (\<lambda>i. bindS (serve (findFrameListing i)) (\<lambda>listing. case listing of None \<Rightarrow> returnS ()
       | Some l \<Rightarrow> whenS (fl_status l = FrameClaimed) (on_frames (index_erase (fl_target_key l))))) ids) in
    bindS (queryS (\<lambda>s. marked_listings (st_api st) (p_inv s (who_uuid p)))) (\<lambda>ids.
    catchS (bindS (visiting p (reconcileFrameSaleItems (visit_env st p))) (\<lambda>_. forget ids))
      (\<lambda>e. bindS (forget ids) (\<lambda>_. throwS e))))"

text \<open>The lore of the exchangers in the inventory, in the player's language.\<close>

definition localizeExchangers :: "('i, 'w) setting \<Rightarrow> player \<Rightarrow> 'i \<Rightarrow> 'i" where
  "localizeExchangers st p i =
    (let api = st_api st;
       update = (\<lambda>item. case item of None \<Rightarrow> None
         | Some x \<Rightarrow> if isExchanger (st_shown st) item then st_lore st (text_of st p ExchangerLore) x else None);
       i' = fold (\<lambda>slot i. case update (inv_item api i slot) of None \<Rightarrow> i | Some x \<Rightarrow> inv_set api slot x i)
         [0..<inv_size api i] i in
     case update (inv_off api i') of None \<Rightarrow> i' | Some x \<Rightarrow> inv_set_off api (Some x) i')"

definition onPlayerJoin :: "('i, 'w) setting \<Rightarrow> player \<Rightarrow> ('i, 'w, unit) action" where
  "onPlayerJoin st p = bindS (queryS ready) (\<lambda>ok. whenS ok (logged_only
     (bindS (leave_trade (who_uuid p)) (\<lambda>_.
      bindS (leave_frame (who_uuid p)) (\<lambda>_.
      bindS (executeS (\<lambda>s. s\<lparr>p_inv := (p_inv s)(who_uuid p := localizeExchangers st p (p_inv s (who_uuid p)))\<rparr>)) (\<lambda>_.
      bindS (serve (ensureAccount (st_cfg st) (who_uuid p) (who_name p))) (\<lambda>_.
      bindS (settle_frame_items st p) (\<lambda>_.
      bindS (claim_and_tell st p) (\<lambda>_.
      bindS (schedule p Resync) (\<lambda>_.
      bindS (queryS (\<lambda>s. pl_gateway (p_plug s))) (\<lambda>gateway. whenS gateway (schedule p Economy_Pass))))))))))))"

definition onPlayerQuit :: "player \<Rightarrow> ('i, 'w, unit) action" where
  "onPlayerQuit p = bindS (leave_trade (who_uuid p)) (\<lambda>_. leave_frame (who_uuid p))"

definition onPlayerDropItem :: "('i, 'w) setting \<Rightarrow> player \<Rightarrow> ItemStack \<Rightarrow> ('i, 'w, bool) action" where
  "onPlayerDropItem st p item =
    (if isInternalEscrowItem item then bindS (warn p (Inr (text_of st p RecoveryCannotDrop))) (\<lambda>_. returnS True)
     else returnS False)"

text \<open>The \<open>n\<close>-th drop of the world; a refused pickup is reported.\<close>

definition pick_up :: "nat \<Rightarrow> ('i, 'w, bool) action" where
  "pick_up n = on_frames (onPlayerPickupItem n)"

section \<open>Tasks\<close>

definition run_task :: "('i, 'w) setting \<Rightarrow> player \<Rightarrow> task \<Rightarrow> ('i, 'w, unit) action" where
  "run_task st p t = (case t of
     Open_Trade m \<Rightarrow> openTradeForm st p m
   | Open_Input m draft \<Rightarrow> openTradeInputForm st p m draft
   | Open_Review m draft \<Rightarrow> openTradeReviewForm st p m draft
   | Submit_Draft m draft \<Rightarrow> submitTradeDraft st p m draft
   | Resync \<Rightarrow> resync_inventory st p
   | Manage_Frame l \<Rightarrow> openFrameManagementForm st p l
   | Economy_Pass \<Rightarrow> processTransfers st
   | Price_Again a item existing \<Rightarrow> openFramePriceForm st p a item existing)"

text \<open>The task a player is captured in runs when he is there: \<open>current\<close> is whoever has his name now.\<close>

definition task_due :: "('i, 'w) setting \<Rightarrow> player option \<Rightarrow> string \<times> task \<Rightarrow> ('i, 'w, unit) action" where
  "task_due st current scheduled = (case scheduled of (u, t) \<Rightarrow>
     if t = Economy_Pass then processTransfers st
     else bindS (queryS ready) (\<lambda>ok. case current of None \<Rightarrow> returnS ()
       | Some p \<Rightarrow> whenS (ok \<and> who_uuid p = u) (run_task st p t)))"

section \<open>Commands\<close>

text \<open>The sender is the player, or for the console a record with the console's language and rights.\<close>

definition tell_balance :: "('i, 'w) setting \<Rightarrow> player \<Rightarrow> ('i, 'w, unit) action" where
  "tell_balance st p =
    bindS (serve (ensureAccount (st_cfg st) (who_uuid p) (who_name p))) (\<lambda>_.
    bindS (spendable st (who_uuid p) (who_name p)) (\<lambda>cents.
    say p (tr_for st p Balance [st_money st cents])))"

definition giveExchanger :: "('i, 'w) setting \<Rightarrow> player \<Rightarrow> ('i, 'w, unit) action" where
  "giveExchanger st p = (case st_stick st (text_of st p ExchangerLore) of
     None \<Rightarrow> refuse st p ExchangerMetaFailed
   | Some stick \<Rightarrow>
       bindS (executeS (\<lambda>s. case inv_add (st_api st) [stick] (p_inv s (who_uuid p)) of (leftovers, i) \<Rightarrow>
         s\<lparr>p_inv := (p_inv s)(who_uuid p := i), p_frames := (p_frames s)\<lparr>fw_drops := fw_drops (p_frames s) @
           map (\<lambda>(slot, item). \<lparr>dp_item = item, dp_tags = [], dp_unlimited = False\<rparr>) leftovers\<rparr>\<rparr>)) (\<lambda>_.
       say p (Inr (text_of st p ExchangerReceived))))"

definition command_give ::
  "('i, 'w) setting \<Rightarrow> (string \<Rightarrow> player option) \<Rightarrow> player \<Rightarrow> bool \<Rightarrow> string list \<Rightarrow> ('i, 'w, unit) action"
where
  "command_give st server sender is_player args =
    (let give = (\<lambda>target own.
       if \<not> canAdmin target \<and> own then warn sender (Inr (text_of st sender NoMarketPermission))
       else bindS (giveExchanger st target) (\<lambda>_.
         whenS (\<not> own) (say sender (tr_for st sender GaveExchanger [who_name target])))) in
     if \<not> who_admin sender then warn sender (Inr (text_of st sender NoGivePermission))
     else if length args = 2
     then (case server (args ! 1) of None \<Rightarrow> warn sender (Inr (text_of st sender PlayerOffline))
       | Some target \<Rightarrow> give target (is_player \<and> who_uuid target = who_uuid sender))
     else if length args \<noteq> 1 \<or> \<not> is_player then warn sender (Inr (text_of st sender GiveUsage))
     else give sender True)"

definition command_addbalance ::
  "('i, 'w) setting \<Rightarrow> (string \<Rightarrow> player option) \<Rightarrow> player \<Rightarrow> string list \<Rightarrow> ('i, 'w, unit) action"
where
  "command_addbalance st server sender args =
    (if st_provider st = ''umoney'' then warn sender (Inr (text_of st sender EconomyAdminBalanceDisabled))
     else if \<not> who_admin sender \<or> length args \<noteq> 3 then warn sender (Inr (text_of st sender AddBalanceUsage))
     else case server (args ! 1) of None \<Rightarrow> warn sender (Inr (text_of st sender PlayerOffline))
     | Some target \<Rightarrow>
         bindS (case st_amount st (args ! 2) of
             None \<Rightarrow> refuse st sender InvalidAmount
           | Some None \<Rightarrow> refuse st sender AmountOutOfRange
           | Some (Some cents) \<Rightarrow> returnS cents) (\<lambda>cents.
         bindS (serve (addBalance (st_cfg st) (who_uuid target) (who_name target) cents)) (\<lambda>balance_cents.
         bindS (say sender (tr_for st sender PlayerBalanceNow [who_name target, st_money st balance_cents])) (\<lambda>_.
         say target (tr_for st target BalanceAdjusted [st_money st balance_cents])))))"

definition command_status :: "('i, 'w) setting \<Rightarrow> unit result \<Rightarrow> player \<Rightarrow> ('i, 'w, unit) action" where
  "command_status st ping sender =
    bindS (liftS ping) (\<lambda>_.
    bindS (queryS (\<lambda>s. length (p_markets s))) (\<lambda>n.
    bindS (say sender (tr_for st sender StatusOk [st_version st, dec (int n)])) (\<lambda>_.
    bindS (serve pendingEconomyTransferCount) (\<lambda>pending.
    say sender (tr_for st sender EconomyStatus [st_provider st, dec pending])))))"

definition onCommand ::
  "('i, 'w) setting \<Rightarrow> (string \<Rightarrow> player option) \<Rightarrow> unit result \<Rightarrow> player \<Rightarrow> bool \<Rightarrow> string \<Rightarrow> string list \<Rightarrow> ('i, 'w, bool) action"
where
  "onCommand st server ping sender is_player command args =
    (if command \<noteq> ''exchange'' then returnS False
     else bindS (queryS ready) (\<lambda>ok.
       bindS (if \<not> ok then warn sender (Inr (text_of st sender PluginNotReady))
         else catchS
           (let player_only = (\<lambda>message body. if \<not> is_player then warn sender (Inr (text_of st sender message)) else body) in
            case args of
              [] \<Rightarrow> bindS (whenS is_player (tell_balance st sender)) (\<lambda>_. say sender (Inr (text_of st sender CommandHelp)))
            | name # _ \<Rightarrow> let subcommand = lower name in
                if subcommand = ''give'' then command_give st server sender is_player args
                else if subcommand = ''balance'' then player_only ConsoleHint (tell_balance st sender)
                else if subcommand = ''orders'' then player_only PlayerFormOnly (openOrdersForm st sender)
                else if subcommand = ''claim''
                then player_only PlayerClaimOnly (bindS (claim_and_tell st sender) (\<lambda>_. schedule sender Resync))
                else if subcommand = ''addbalance'' then command_addbalance st server sender args
                else if subcommand = ''status'' then command_status st ping sender
                else warn sender (Inr (text_of st sender UnknownSubcommand)))
           (\<lambda>e. warn sender (failure_text st sender CommandFailed e))) (\<lambda>_. returnS True)))"

section \<open>Starting and stopping\<close>

text \<open>\<open>config\<close> is the file read, if there is one; \<open>connected\<close> what connecting and migrating come to, \<open>valid\<close> what the
  check of UMoney comes to. The setting is the one made of the configuration.\<close>

definition onEnable :: "('i, 'w) setting \<Rightarrow> Config.Config result option \<Rightarrow> unit result \<Rightarrow> unit result \<Rightarrow> ('i, 'w, unit) action" where
  "onEnable st config connected valid = (case config of None \<Rightarrow> returnS ()
   | Some c \<Rightarrow> catchS
       (bindS (liftS c) (\<lambda>c.
        let umoney = usesUmoney (economy_config c) in
        if db_password (database_config c) = [] then returnS ()
        else
          bindS (liftS connected) (\<lambda>_.
          bindS (on_plug (executeS (\<lambda>p. p\<lparr>pl_service := True\<rparr>))) (\<lambda>_.
          bindS (whenS umoney (bindS (serve economyBackingDeficit) (\<lambda>deficit. throwIf (deficit > 0)
            (Runtime_Error (''UMoney mode refused '' @ dec deficit @ '' cents of unbacked legacy exchange value; '' @
              ''migrate or reset existing balances and funded orders first''))))) (\<lambda>_.
          bindS (whenS umoney (bindS (on_plug (executeS (\<lambda>p. p\<lparr>pl_gateway := True\<rparr>))) (\<lambda>_. liftS valid))) (\<lambda>_.
          bindS (on_plug (executeS (\<lambda>p. p\<lparr>pl_ready := True\<rparr>))) (\<lambda>_.
          bindS restoreMarkets (\<lambda>_.
          bindS (on_frames restoreFrameListingIndex) (\<lambda>_.
          whenS umoney (processTransfers st))))))))))
       (\<lambda>_. on_plug (executeS (\<lambda>p. p\<lparr>pl_ready := False, pl_gateway := False\<rparr>))))"

definition onDisable :: "('i, 'w) setting \<Rightarrow> ('i, 'w, unit) action" where
  "onDisable st =
    bindS (queryS (\<lambda>s. ready s \<and> pl_gateway (p_plug s))) (\<lambda>last.
    bindS (whenS last (processTransfers st)) (\<lambda>_.
    executeS (\<lambda>s. s\<lparr>p_plug := (p_plug s)\<lparr>pl_ready := False, pl_gateway := False, pl_service := False\<rparr>,
      p_frames := (p_frames s)\<lparr>fw_captures := [], fw_pending := [], fw_index := []\<rparr>,
      p_markets := [], p_targets := [], p_gate := clear_gate (p_gate s), p_trade_forms := [], p_frame_forms := []\<rparr>)))"

end
