(* ===== verification/Plugin_Run.thy ===== *)
theory Plugin_Run
  imports Plugin_Events Umoney_Funding
begin

text \<open>
  The plugin as a whole (src/plugin.cpp): everything that can happen to it, as one type, and what it does
  then. The scheduler may run a waiting task, a player answer a form, a capture come back, at any time and in any
  order, and the world outside may change between; the database is only changed by the service.
\<close>

section \<open>Everything that happens\<close>

datatype answer = Closed | Chosen nat | Entered string

text \<open>The server's list of players by name goes with what needs it.\<close>

datatype ('i, 'w) happening =
    Clicked player int click "ItemStack option" "WorldBlock option"
  | Clicked_Actor player int "ItemStack option" WorldActor
  | Broke player WorldBlock
  | Broke_Frame player WorldBlock
  | Actor_Gone bool WorldActor
  | Joined player
  | Left player
  | Dropped_Item player ItemStack
  | Picked_Item nat
  | Task_Due nat "player option"
  | Answered nat answer "player option" "string \<Rightarrow> player option"
  | Player_Capture nat "string \<Rightarrow> player option" "WorldBlock option" "CapturedFrameItem option result"
  | Frame_Capture nat "unit result" "CapturedFrameItem option result"
  | Recovery_Pass
  | Timed_Economy_Pass
  | Command_Given "string \<Rightarrow> player option" "unit result" player bool string "string list"
  | Enabled "Config.Config result option" "unit result" "unit result"
  | Disabled
  | Clock_Tick nat
  | World_Change "('i, 'w) plugin \<Rightarrow> ('i, 'w) plugin"

text \<open>The answer to a form, by the client it was shown to; \<open>q\<close> is the player the host passes to the callback.\<close>

definition answer_form ::
  "('i, 'w) setting \<Rightarrow> (string \<Rightarrow> player option) \<Rightarrow> player option \<Rightarrow> answer \<Rightarrow> string \<times> form \<Rightarrow> ('i, 'w, unit) action"
where
  "answer_form st server q a shown = (case shown of (u, f) \<Rightarrow> (case f of
     Trade_Form m title content actions default_price \<Rightarrow> (case a of
         Closed \<Rightarrow> trade_closed u
       | Chosen k \<Rightarrow> if k < length actions then trade_pressed u m default_price (actions ! k) q else returnS ()
       | Entered _ \<Rightarrow> returnS ())
   | Input_Form m draft title controls \<Rightarrow> (case a of
         Closed \<Rightarrow> trade_closed u | Entered response \<Rightarrow> input_submitted st u m draft response q | Chosen _ \<Rightarrow> returnS ())
   | Review_Form m draft title content \<Rightarrow> (case a of
         Closed \<Rightarrow> trade_closed u | Chosen k \<Rightarrow> review_answered u m draft (int k) q | Entered _ \<Rightarrow> returnS ())
   | Orders_Form buttons \<Rightarrow> (case a of
         Chosen k \<Rightarrow> if k < length buttons then order_pressed st u (fst (buttons ! k)) q else returnS () | _ \<Rightarrow> returnS ())
   | Manage_Form address l title content \<Rightarrow> (case a of
         Closed \<Rightarrow> leave_frame u
       | Chosen k \<Rightarrow> if k = 0 then change_price_pressed st u address l q
           else if k = 1 then cancel_listing_pressed st u l q else returnS ()
       | Entered _ \<Rightarrow> returnS ())
   | Price_Form address item existing title control \<Rightarrow> (case a of
         Closed \<Rightarrow> leave_frame u | Entered response \<Rightarrow> price_submitted st u address item existing response q
       | Chosen _ \<Rightarrow> returnS ())
   | Purchase_Form l title content \<Rightarrow> (case a of
         Closed \<Rightarrow> leave_frame u | Chosen k \<Rightarrow> purchase_answered st server u l (int k) q | Entered _ \<Rightarrow> returnS ())))"

definition without :: "nat \<Rightarrow> 'a list \<Rightarrow> 'a list" where
  "without n xs = take n xs @ drop (Suc n) xs"

text \<open>What waits is taken out of its list and done; a number beyond the list is nothing that waits.\<close>

definition take_out ::
  "(('i, 'w) plugin \<Rightarrow> 'a list) \<Rightarrow> ('a list \<Rightarrow> ('i, 'w) plugin \<Rightarrow> ('i, 'w) plugin) \<Rightarrow> nat \<Rightarrow>
    ('a \<Rightarrow> ('i, 'w, unit) action) \<Rightarrow> ('i, 'w, unit) action"
where
  "take_out get back n f = bindS (queryS (\<lambda>s. if n < length (get s) then Some (get s ! n) else None)) (\<lambda>x. case x of
     None \<Rightarrow> returnS ()
   | Some x \<Rightarrow> bindS (executeS (\<lambda>s. back (without n (get s)) s)) (\<lambda>_. f x))"

definition changed_world :: "('i, 'w) plugin \<Rightarrow> ('i, 'w) plugin \<Rightarrow> ('i, 'w) plugin" where
  "changed_world now s = s\<lparr>p_inv := p_inv now, p_actors := p_actors now,
     p_plug := (p_plug s)\<lparr>pl_world := pl_world (p_plug now)\<rparr>,
     p_frames := (p_frames s)\<lparr>fw_chunks := fw_chunks (p_frames now), fw_level := fw_level (p_frames now),
       fw_dimensions := fw_dimensions (p_frames now), fw_blocks := fw_blocks (p_frames now),
       fw_command := fw_command (p_frames now), fw_drops := fw_drops (p_frames now), fw_clock := fw_clock (p_frames now)\<rparr>\<rparr>"

fun react :: "('i, 'w) setting \<Rightarrow> ('i, 'w) happening \<Rightarrow> ('i, 'w, unit) action" where
  "react st (Clicked p now click item block) = ignore (onPlayerInteract st p now click item block)"
| "react st (Clicked_Actor p now item a) = ignore (onPlayerInteractActor st p now item a)"
| "react st (Broke p b) = onBlockBreak st p b"
| "react st (Broke_Frame p b) = ignore (onListedFrameBreak st p b)"
| "react st (Actor_Gone was_label a) = onActorRemove st was_label a"
| "react st (Joined p) = onPlayerJoin st p"
| "react st (Left p) = onPlayerQuit p"
| "react st (Dropped_Item p item) = ignore (onPlayerDropItem st p item)"
| "react st (Picked_Item n) = ignore (pick_up n)"
| "react st (Task_Due n current) = take_out p_tasks (\<lambda>xs s. s\<lparr>p_tasks := xs\<rparr>) n (task_due st current)"
| "react st (Answered n a q server) = take_out p_shown (\<lambda>xs s. s\<lparr>p_shown := xs\<rparr>) n (answer_form st server q a)"
| "react st (Player_Capture n server current captured) =
    take_out p_waiting (\<lambda>xs s. s\<lparr>p_waiting := xs\<rparr>) n (complete_player_capture st server current captured)"
| "react st (Frame_Capture n reset captured) =
    take_out (\<lambda>s. fw_waiting (p_frames s)) (\<lambda>xs s. s\<lparr>p_frames := (p_frames s)\<lparr>fw_waiting := xs\<rparr>\<rparr>) n
      (\<lambda>wt. on_frames (completeItemFrameCapture (frame_settings st) reset captured wt))"
| "react st Recovery_Pass = on_frames (recoverFrameListings (frame_settings st))"
| "react st Timed_Economy_Pass = processTransfers st"
| "react st (Command_Given server ping sender is_player command args) =
    ignore (onCommand st server ping sender is_player command args)"
| "react st (Enabled config connected valid) = onEnable st config connected valid"
| "react st Disabled = onDisable st"
| "react st (Clock_Tick now) = on_plug (executeS (\<lambda>p. p\<lparr>pl_db := (pl_db p)\<lparr>db_now := max now (db_now (pl_db p))\<rparr>\<rparr>))"
| "react st (World_Change g) = executeS (\<lambda>s. changed_world (g s) s)"

text \<open>An exception ends the handler it comes from, never the plugin.\<close>

definition react_all :: "('i, 'w) setting \<Rightarrow> ('i, 'w) happening list \<Rightarrow> ('i, 'w) plugin \<Rightarrow> ('i, 'w) plugin" where
  "react_all st hs s = fold (\<lambda>h s. snd (react st h s)) hs s"

section \<open>What the handlers keep\<close>

context market_rule
begin

lemma reach_ignore: "keeps I m \<Longrightarrow> keeps I (ignore m)"
  by (rule keeps_ignore)

lemma reach_accept: "keeps (in_plugin R) (acceptInteraction p now)"
  by (auto simp: keeps_def acceptInteraction_def split: prod.splits)

lemma reach_gated: "keeps (in_plugin R) body \<Longrightarrow> keeps (in_plugin R) (gated p now body)"
  unfolding gated_def by (intro frames_walk reach_accept)

lemma keeps_click:
  "keeps I f \<Longrightarrow> keeps I g \<Longrightarrow> keeps I h \<Longrightarrow>
    keeps I (case click of LeftClickBlock \<Rightarrow> f | RightClickBlock \<Rightarrow> g | Other_Click \<Rightarrow> h)"
  by (cases click) simp_all

lemma keeps_list: "keeps I f \<Longrightarrow> (\<And>x xs. keeps I (g x xs)) \<Longrightarrow> keeps I (case l of [] \<Rightarrow> f | x # xs \<Rightarrow> g x xs)"
  by (cases l) simp_all

lemmas events_walk = frames_walk reach_gated keeps_click keeps_list

lemma reach_clicks:
  shows "keeps (in_plugin R) (onPlayerInteract st p now click item block)"
    "keeps (in_plugin R) (onPlayerInteractActor st p now item a)"
proof -
  have l: "keeps (in_plugin R) (click_listing st p key i)" for key i
    unfolding click_listing_def Let_def by (intro events_walk reach_buying)
  have h: "keeps (in_plugin R) (hint_listing st p i)" for i
    unfolding hint_listing_def by (intro events_walk)
  have lc: "keeps (in_plugin R) (left_click st p now b listing market)" for b listing market
    unfolding left_click_def by (intro events_walk l)
  have rc: "keeps (in_plugin R) (right_click st p now item b listing market)" for b listing market
    unfolding right_click_def Let_def by (intro events_walk h reach_offers deactivates toggles)
  show "keeps (in_plugin R) (onPlayerInteract st p now click item block)"
    unfolding onPlayerInteract_def by (intro events_walk lc rc)
  show "keeps (in_plugin R) (onPlayerInteractActor st p now item a)"
    unfolding onPlayerInteractActor_def by (intro events_walk deactivates toggles)
qed

lemma reach_events:
  shows "keeps (in_plugin R) (onBlockBreak st p b)"
    "keeps (in_plugin R) (onListedFrameBreak st p b)"
    "keeps (in_plugin R) (onActorRemove st was_label a)"
    "keeps (in_plugin R) (onPlayerJoin st p)"
    "keeps (in_plugin R) (onPlayerQuit p)"
    "keeps (in_plugin R) (onPlayerDropItem st p item)"
    "keeps (in_plugin R) (pick_up n)"
proof -
  show "keeps (in_plugin R) (onBlockBreak st p b)"
    unfolding onBlockBreak_def by (intro events_walk deactivates toggles)
  show "keeps (in_plugin R) (onListedFrameBreak st p b)"
    unfolding onListedFrameBreak_def by (intro events_walk)
  show "keeps (in_plugin R) (onActorRemove st was_label a)"
    unfolding onActorRemove_def by (intro events_walk deactivates toggles)
  have "keeps (in_plugin R) (settle_frame_items st p)"
    unfolding settle_frame_items_def Let_def by (intro events_walk live_frame_items)
  then show "keeps (in_plugin R) (onPlayerJoin st p)"
    unfolding onPlayerJoin_def by (intro events_walk reach_desk keeps_same; simp)
  show "keeps (in_plugin R) (onPlayerQuit p)"
    unfolding onPlayerQuit_def by (intro events_walk)
  show "keeps (in_plugin R) (onPlayerDropItem st p item)"
    unfolding onPlayerDropItem_def by (intro events_walk)
  show "keeps (in_plugin R) (pick_up n)"
    unfolding pick_up_def by (intro events_walk live_pickup)
qed

lemma reach_tasks:
  shows "keeps (in_plugin R) (task_due st current scheduled)"
    "keeps (in_plugin R) (answer_form st server q a shown)"
proof -
  note all = reach_forms reach_submit reach_desk reach_offers reach_price reach_buying
    desk_parts frame_parts keeps_returnS
  have "keeps (in_plugin R) (run_task st p t)" for p t
    unfolding run_task_def by (cases t) (simp_all add: all)
  then show "keeps (in_plugin R) (task_due st current scheduled)"
    unfolding task_due_def by (intro events_walk reach_desk)
  obtain u f where "shown = (u, f)" by fastforce
  then show "keeps (in_plugin R) (answer_form st server q a shown)"
    unfolding answer_form_def trade_closed_def by (cases f; cases a) (simp_all add: all)
qed

lemma reach_commands:
  shows "keeps (in_plugin R) (onCommand st server ping sender is_player command args)"
proof -
  have g: "keeps (in_plugin R) (giveExchanger st p)" for p
    unfolding giveExchanger_def by (intro events_walk keeps_same; simp split: prod.split)
  have give: "keeps (in_plugin R) (command_give st server sender is_player args)"
    unfolding command_give_def Let_def by (intro events_walk g)
  have add: "keeps (in_plugin R) (command_addbalance st server sender args)"
  proof (cases "st_provider st = ''umoney''")
    case True
    then show ?thesis unfolding command_addbalance_def by (simp add: reach_effects)
  next
    case False
    then have "keeps (in_reach (R mem) (\<lambda>s. s)) (addBalance (st_cfg st) u n delta)" for mem u n delta
      using adjusts by blast
    then show ?thesis unfolding command_addbalance_def by (intro events_walk)
  qed
  have stat: "keeps (in_plugin R) (command_status st ping sender)"
    unfolding command_status_def by (intro events_walk)
  have bal: "keeps (in_plugin R) (tell_balance st p)" for p
    unfolding tell_balance_def by (intro events_walk reach_desk)
  show ?thesis
    unfolding onCommand_def Let_def
    by (intro events_walk reach_desk reach_forms give add stat bal)
qed

lemma reach_power:
  "keeps (in_plugin R) (onEnable st config connected valid)"
  "keeps (in_plugin R) (onDisable st)"
proof -
  have flag: "keeps (in_plugin R) (on_plug (executeS g))" if "\<And>p. pl_db (g p) = pl_db p" for g
    by (intro reach_plug keeps_same) (simp add: that)
  have deficit: "keeps I economyBackingDeficit" for I unfolding economyBackingDeficit_def by (intro flow_walk)
  show "keeps (in_plugin R) (onEnable st config connected valid)"
    unfolding onEnable_def Let_def by (intro events_walk reach_desk restores live_recover deficit flag; simp)
  have "keeps (in_plugin R) (executeS (\<lambda>s. s\<lparr>p_plug := (p_plug s)\<lparr>pl_ready := False, pl_gateway := False, pl_service := False\<rparr>,
      p_frames := (p_frames s)\<lparr>fw_captures := [], fw_pending := [], fw_index := []\<rparr>,
      p_markets := [], p_targets := [], p_gate := clear_gate (p_gate s), p_trade_forms := [], p_frame_forms := []\<rparr>))"
    by (rule keeps_execute) (simp add: forgets)
  then show "keeps (in_plugin R) (onDisable st)"
    unfolding onDisable_def by (intro events_walk reach_desk)
qed

lemma reach_take_out:
  assumes "\<And>xs s. in_plugin R (back xs s) = in_plugin R s" and "\<And>x. keeps (in_plugin R) (f x)"
  shows "keeps (in_plugin R) (take_out get back n f)"
  unfolding take_out_def by (intro events_walk keeps_same assms(2)) (rule assms(1))

lemma reach_react: "keeps (in_plugin R) (react st h)"
proof (cases h)
  case (Clock_Tick now)
  have "keeps (in_reach (R mem) pl_db) (executeS (\<lambda>p. p\<lparr>pl_db := (pl_db p)\<lparr>db_now := max now (db_now (pl_db p))\<rparr>\<rparr>))" for mem
    by (rule keeps_execute) (simp add: later)
  then show ?thesis unfolding Clock_Tick react.simps by (rule reach_plug)
next
  case (World_Change g)
  then show ?thesis by (simp add: keeps_same changed_world_def)
qed (simp_all, (intro reach_ignore reach_clicks reach_events reach_tasks reach_commands reach_power reach_desk reach_frames
      live_recover reach_take_out reach_player_capture live_complete; simp)+)

lemma reach_all: "in_plugin R s \<Longrightarrow> in_plugin R (react_all st hs s)"
  unfolding react_all_def
proof (induction hs arbitrary: s)
  case (Cons h hs)
  have "in_plugin R (snd (react st h s))" by (rule keepsD [OF reach_react [of h] Cons.prems prod.collapse [symmetric]])
  then show ?case using Cons.IH [of "snd (react st h s)"] by simp
qed simp

end

section \<open>The service stays consistent\<close>

text \<open>
  The databases calls can reach; where UMoney is the money and accounts open empty, nothing was ever issued.
\<close>

definition sound_db :: "('i, 'w) setting \<Rightarrow> memory \<Rightarrow> db \<Rightarrow> bool" where
  "sound_db st mem s \<longleftrightarrow> config_ok (st_cfg st) \<and> countable (st_api st) \<and>
    (\<exists>g. reachable (st_cfg st) (st_sha st) s g \<and>
      (st_provider st = ''umoney'' \<and> initial_balance_cents (st_cfg st) = 0 \<longrightarrow> g = 0))"

lemma issues_nothing:
  assumes "initial_balance_cents cfg = 0" and "\<And>u n d. op \<noteq> Adjust u n d"
  shows "issued cfg op q s s' = 0"
proof -
  have none: "grant cfg u s s' = 0" for u by (simp add: grant_def assms(1))
  have transfer: "op_grant cfg t s s' = 0" for t by (cases t) (simp_all add: none)
  have listing: "listing_grant cfg l s s' = 0" for l by (cases l) (simp_all add: none)
  show ?thesis
  proof (cases op)
    case (Adjust u n d)
    with assms(2) show ?thesis by blast
  qed (simp_all add: none transfer listing)
qed

lemma sound_call:
  assumes "sound_db st mem s" and "call_typed op" and "st_provider st = ''umoney'' \<Longrightarrow> (\<And>u n d. op \<noteq> Adjust u n d)"
    and "run_service (st_cfg st) (st_sha st) op s = (q, s')"
  shows "sound_db st mem s'"
proof -
  obtain g where g: "reachable (st_cfg st) (st_sha st) s g"
    "st_provider st = ''umoney'' \<and> initial_balance_cents (st_cfg st) = 0 \<longrightarrow> g = 0"
    using assms(1) unfolding sound_db_def by blast
  have "reachable (st_cfg st) (st_sha st) s' (g + issued (st_cfg st) op q s s')"
    by (rule reachable.call [OF g(1) assms(2,4)])
  moreover have "st_provider st = ''umoney'' \<and> initial_balance_cents (st_cfg st) = 0 \<longrightarrow> g + issued (st_cfg st) op q s s' = 0"
    using g(2) issues_nothing [of "st_cfg st" op] assms(3) by simp
  ultimately show ?thesis using assms(1) unfolding sound_db_def by blast
qed

lemma sound_runs:
  assumes "call_typed op" and "st_provider st = ''umoney'' \<Longrightarrow> (\<And>u n d. op \<noteq> Adjust u n d)"
  shows "keeps (sound_db st mem) (run_service (st_cfg st) (st_sha st) op)"
  by (rule keepsI) (rule sound_call [OF _ assms], assumption+)

interpretation sound: free_rule st "sound_db st" for st :: "('i, 'w) setting"
proof unfold_locales
  fix mem s op q s' assume "sound_db st mem s" "call_typed op" "ordinary op"
    and "run_service (st_cfg st) (st_sha st) op s = (q, s')"
  then show "sound_db st mem s'" by (intro sound_call [of st mem s op q s']) auto
next
  fix mem s now assume "sound_db st mem s" "db_now s \<le> now"
  then show "sound_db st mem (s\<lparr>db_now := now\<rparr>)" unfolding sound_db_def by (blast intro: reachable.tick)
next
  fix mem s assume "sound_db st mem s"
  then show "countable (st_api st)" by (simp add: sound_db_def)
next
  fix mem mem' s assume "sound_db st mem s"
  then show "sound_db st mem' s" by (simp add: sound_db_def)
next
  fix mem m show "keeps (sound_db st mem) (activateMarket (st_sha st) m)"
    using sound_runs [of "Activate m" st mem] by (simp add: keeps_of_ignore)
next
  fix mem i show "keeps (sound_db st mem) (closeMarket i)" using sound_runs [of "Close_Market i" st mem] by simp
next
  fix mem i show "keeps (sound_db st mem) (retireMarket i)" using sound_runs [of "Retire i" st mem] by simp
next
  fix mem u n delta show "st_provider st = ''umoney'' \<or> keeps (sound_db st mem) (addBalance (st_cfg st) u n delta)"
    using sound_runs [of "Adjust u n delta" st mem] by (auto simp: keeps_of_ignore)
qed

text \<open>
  C5: Whatever happens to the plugin, in whatever order - clicks, forms, captures, commands, tasks, restarts,
  failures in the middle of a handler, any change of the world outside - the database stays consistent in every
  respect the service is responsible for, and no balance is negative or overflows. With UMoney as the money
  and accounts that open empty, all value in the exchange, with the deposits in flight, stays backed to the
  cent by what came from UMoney.
\<close>

theorem plugin_keeps_service:
  assumes "config_ok (st_cfg st)" and "countable (st_api st)" and "plugin_db s = empty_db"
  shows "service_ok (st_sha st) (plugin_db (react_all st hs s)) \<and>
    0 \<le> balance_of (plugin_db (react_all st hs s)) u \<and> balance_of (plugin_db (react_all st hs s)) u \<le> int64_max \<and>
    (st_provider st \<noteq> ''umoney'' \<or> initial_balance_cents (st_cfg st) \<noteq> 0 \<or>
      backing_deficit (plugin_db (react_all st hs s)) + in_flight (plugin_db (react_all st hs s)) = 0)"
proof -
  have "in_plugin (sound_db st) s" using assms by (auto simp: sound_db_def intro!: exI [of _ 0] reachable.fresh)
  from sound.reach_all [OF this, of hs] obtain g where g: "reachable (st_cfg st) (st_sha st) (plugin_db (react_all st hs s)) g"
    "st_provider st = ''umoney'' \<and> initial_balance_cents (st_cfg st) = 0 \<longrightarrow> g = 0" unfolding sound_db_def by blast
  note R = reachable_service [OF assms(1) g(1)]
  from balance_of_range [OF money_ok_accounts_ok [OF service_okD(7) [OF R(1)]], of u] R g(2) show ?thesis
    by (auto simp: net_issue_def)
qed

text \<open>An inventory of at most 36 slots and a hand, with at most 64 items in each.\<close>

definition capped :: "ItemStack \<Rightarrow> ItemStack" where
  "capped x = x\<lparr>is_amount := min 64 (is_amount x)\<rparr>"

definition pocket_api :: "slots inventory_api" where
  "pocket_api = slots_api\<lparr>inv_size := \<lambda>i. min 36 (length (fst i)),
     inv_item := \<lambda>i n. if n < length (fst i) then map_option capped (fst i ! n) else None,
     inv_contents := \<lambda>i. map (map_option capped) (take 36 (fst i)), inv_off := \<lambda>i. map_option capped (snd i)\<rparr>"

lemma pocket_countable: "countable pocket_api"
proof -
  have few: "sum_list (map is_amount xs) \<le> 64 * int (length xs)" if "\<And>x. x \<in> set xs \<Longrightarrow> is_amount x \<le> 64" for xs
    using that by (induction xs) force+
  have "marked_count marker pocket_api k i \<le> int32_max" for marker k i
  proof -
    let ?items = "filter (\<lambda>item. marker item = Some k) (inv_items pocket_api i)"
    have small: "is_amount x \<le> 64" if "x \<in> set (inv_items pocket_api i)" for x
      using that by (auto simp: inv_items_def pocket_api_def capped_def List.map_filter_def split: if_splits option.splits)
    have "length (inv_items pocket_api i) \<le> 37"
      by (auto simp: inv_items_def pocket_api_def List.map_filter_def split: option.split intro: order_trans [OF length_filter_le])
    then have "length ?items \<le> 37" using length_filter_le order_trans by blast
    with few [of ?items] small have "sum_list (map is_amount ?items) \<le> 64 * 37" by fastforce
    then show ?thesis by (simp add: marked_count_def int32_max_def)
  qed
  then show ?thesis by (simp add: countable_def taggedSellItems_def)
qed

text \<open>A server with one player, who has 50 units of UMoney, and nothing in the database.\<close>

definition demo_setting :: "(slots, demo_world) setting" where
  "demo_setting = \<lparr>st_cfg = \<lparr>initial_balance_cents = 0, max_order_quantity = 640\<rparr>, st_market = default_market,
     st_provider = ''umoney'', st_host = demo_host, st_table = [], st_api = pocket_api, st_shown = \<lambda>x. Some ''Exchanger'',
     st_stack = \<lambda>c. Inr \<lparr>is_type = cf_type c, is_data = cf_data c, is_amount = 1, is_nbt = cf_nbt c\<rparr>,
     st_key = \<lambda>x. [], st_translate = \<lambda>k l. [], st_registry = \<lambda>ty. Some (demo_stack 1), st_money = formatCurrency,
     st_sha = demo_sha, st_uuid = demo_uuid, st_umoney = demo_umoney_up, st_stick = \<lambda>lore. None, st_lore = \<lambda>lore x. None,
     st_amount = \<lambda>t. None,
     st_version = ''1''\<rparr>"

definition demo_ann :: player where
  "demo_ann = \<lparr>who_uuid = ''ann'', who_name = ''ann'', who_language = English, who_op = True, who_admin = True\<rparr>"

definition demo_server :: "(slots, demo_world) plugin" where
  "demo_server = \<lparr>p_plug = \<lparr>pl_ready = False, pl_service = False, pl_gateway = False, pl_processing = False, pl_db = empty_db,
       pl_world = ([(''ann'', 50)], 0)\<rparr>,
     p_inv = \<lambda>u. ([None, None], None), p_markets = [], p_targets = [],
     p_frames = \<lparr>fw_db = empty_db, fw_ready = False, fw_index = [], fw_pending = [], fw_captures = [], fw_clock = 0, fw_waiting = [],
       fw_chunks = [], fw_level = True, fw_dimensions = [''Overworld''], fw_blocks = \<lambda>p. None, fw_command = True, fw_drops = []\<rparr>,
     p_gate = \<lparr>cooldown = 10, accepted_at = []\<rparr>, p_trade_forms = [], p_frame_forms = [], p_tasks = [], p_shown = [],
     p_waiting = [], p_actors = [], p_labels = [], p_said = []\<rparr>"

definition demo_config :: Config.Config where
  "demo_config = \<lparr>database_config = default_database\<lparr>db_password := ''x''\<rparr>, market_config = default_market\<lparr>mc_initial_balance_cents := 0\<rparr>,
     economy_config = default_economy\<lparr>ec_provider := ''umoney''\<rparr>\<rparr>"

text \<open>She turns a block into a trade point with the exchanger and clicks on it.\<close>

definition demo_history :: "(slots, demo_world) happening list" where
  "demo_history = (let block = Some \<lparr>blk_type = ''minecraft:stone'', blk_dimension = ''Overworld'', blk_x = 3, blk_y = 64, blk_z = 5\<rparr>;
     stick = Some ((demo_stack 1)\<lparr>is_type := ''minecraft:stick''\<rparr>) in
   [Enabled (Some (Inr demo_config)) (Inr ()) (Inr ()), Clicked demo_ann 0 RightClickBlock stick block,
    Clicked demo_ann 20 RightClickBlock None block])"

definition demo_clicked :: "(slots, demo_world) plugin" where
  "demo_clicked = react_all demo_setting demo_history demo_server"

lemma plugin_keeps_service_witness:
  "length (p_tasks demo_clicked) = 1 \<and> service_ok demo_sha (plugin_db demo_clicked) \<and>
    backing_deficit (plugin_db demo_clicked) + in_flight (plugin_db demo_clicked) = 0"
proof -
  have h: "config_ok (st_cfg demo_setting)" "countable (st_api demo_setting)" "plugin_db demo_server = empty_db"
    "st_provider demo_setting = ''umoney''" "initial_balance_cents (st_cfg demo_setting) = 0" "st_sha demo_setting = demo_sha"
    by (simp_all add: demo_setting_def demo_server_def config_ok_def int64_max_def int32_max_def pocket_countable)
  have "length (p_tasks demo_clicked) = 1" by code_simp
  with plugin_keeps_service [OF h(1-3), of demo_history] h(4-6) show ?thesis by (simp add: demo_clicked_def)
qed

end
