(* ===== verification/Market_Index.thy ===== *)
theory Market_Index
  imports Plugin_Run
begin

text \<open>
  The plugin keeps the active markets and an index of their targets in memory (src/plugin.cpp), beside the
  tables of the service. Only opening and closing a market changes those tables, and the handlers
  that do so keep the memory in step with them, whatever else goes on and whatever fails.
\<close>

section \<open>Calls that leave the markets alone\<close>

definition same_markets :: "db \<Rightarrow> db \<Rightarrow> bool" where
  "same_markets s0 s \<longleftrightarrow> markets s = markets s0"

lemma same_markets_refl [simp]: "same_markets s s"
  by (simp add: same_markets_def)

lemma off_same: "off_market b s0 s \<Longrightarrow> same_markets s0 s"
  by (simp add: off_market_def same_markets_def)

lemma same_writes:
  "keeps (same_markets s0) (executeS (\<lambda>s. s\<lparr>orders := f1 s\<rparr>))" "keeps (same_markets s0) (executeS (\<lambda>s. s\<lparr>trades := f2 s\<rparr>))"
  "keeps (same_markets s0) (executeS (\<lambda>s. s\<lparr>deliveries := f3 s\<rparr>))" "keeps (same_markets s0) (executeS (\<lambda>s. s\<lparr>claims := f4 s\<rparr>))"
  "keeps (same_markets s0) (executeS (\<lambda>s. s\<lparr>escrows := f5 s\<rparr>))"
  "keeps (same_markets s0) (executeIfS ok e (\<lambda>s. s\<lparr>deliveries := f6 s\<rparr>))"
  "keeps (same_markets s0) (executeIfS ok e (\<lambda>s. s\<lparr>claims := f7 s\<rparr>))"
  "keeps (same_markets s0) (executeIfS ok e (\<lambda>s. s\<lparr>escrows := f8 s\<rparr>))"
  "keeps (same_markets s0) (updateS ok e cnt (\<lambda>s. s\<lparr>deliveries := f9 s\<rparr>))"
  "keeps (same_markets s0) (updateS ok e cnt (\<lambda>s. s\<lparr>claims := f10 s\<rparr>))"
  "keeps (same_markets s0) (updateS ok e cnt (\<lambda>s. s\<lparr>escrows := f11 s\<rparr>))"
  by (rule keeps_write; simp add: same_markets_def)+

lemma keeps_through: "(\<And>s0. keeps (off_market b s0) m) \<Longrightarrow> keeps (same_markets s0) m"
  unfolding keeps_def same_markets_def using off_market_refl off_same unfolding same_markets_def by metis

lemma same_accounts:
  "keeps (same_markets s0) (credit u d reason t i)" "keeps (same_markets s0) (debit u d reason t i)"
  "keeps (same_markets s0) (lockedBalance u)" "keeps (same_markets s0) (ensureAccount cfg u n)"
  by (rule keeps_through, rule keeps_accounts)+

lemmas same_walk = keeps_walk keeps_let keeps_prod keeps_mapS same_writes same_accounts

lemma same_orders:
  "keeps (same_markets s0) (lockActiveBook i)" "keeps (same_markets s0) (addDelivery u i n reason)"
  "keeps (same_markets s0) (insertOrder r side reserved)" "keeps (same_markets s0) (updateOrder k g)"
  "keeps (same_markets s0) (insertTrade i buy sell buyer seller price n)"
  unfolding lockActiveBook_def addDelivery_def insertOrder_def updateOrder_def insertTrade_def by (intro same_walk)+

lemma same_loops:
  "keeps (same_markets s0) (buy_loop r oid xs remaining filled gross avail)"
  "keeps (same_markets s0) (sell_loop r oid ys remaining filled gross)"
proof -
  have a: "keeps (same_markets s0) (fill_ask r oid ask fill)" for ask fill
    unfolding fill_ask_def by (intro same_walk same_orders)
  have b: "keeps (same_markets s0) (fill_bid r oid bid fill)" for bid fill
    unfolding fill_bid_def by (intro same_walk same_orders)
  show "keeps (same_markets s0) (buy_loop r oid xs remaining filled gross avail)"
    by (induction xs arbitrary: remaining filled gross avail)
      (simp_all only: buy_loop.simps, (intro same_walk a; assumption?)+)
  show "keeps (same_markets s0) (sell_loop r oid ys remaining filled gross)"
    by (induction ys arbitrary: remaining filled gross)
      (simp_all only: sell_loop.simps, (intro same_walk b; assumption?)+)
qed

lemma same_place:
  "keeps (same_markets s0) (placeSellLocked r)" "keeps (same_markets s0) (placeOrder cfg r)"
  "keeps (same_markets s0) (cancelOrder i u administrator)"
proof -
  show s: "keeps (same_markets s0) (placeSellLocked r)"
    unfolding placeSellLocked_def by (intro same_walk same_orders same_loops)
  show "keeps (same_markets s0) (placeOrder cfg r)"
    unfolding placeOrder_def placeSell_def placeBuy_def by (intro same_walk same_orders same_loops s)
  show "keeps (same_markets s0) (cancelOrder i u administrator)"
    unfolding cancelOrder_def close_order_def by (intro same_walk same_orders)
qed

lemma same_goods:
  "keeps (same_markets s0) (prepareDeliveryClaim i u n)" "keeps (same_markets s0) (completeDeliveryClaim i n)"
  "keeps (same_markets s0) (markDeliveryClaimCleaned i)" "keeps (same_markets s0) (prepareSellEscrow cfg r)"
  "keeps (same_markets s0) (markSellEscrowTagged i t n)" "keeps (same_markets s0) (executeSellEscrow i)"
  "keeps (same_markets s0) (cancelSellEscrow i)" "keeps (same_markets s0) (markSellEscrowCleaned i)"
  unfolding prepareDeliveryClaim_def updateDelivery_def completeDeliveryClaim_def updateClaim_def markDeliveryClaimCleaned_def
    prepareSellEscrow_def markSellEscrowTagged_def updateEscrow_def executeSellEscrow_def replay_order_def
    cancelSellEscrow_def markSellEscrowCleaned_def
  by (intro same_walk same_orders same_place)+

lemma same_call: "ordinary op \<Longrightarrow> keeps (same_markets s0) (run_service cfg sha op)"
  by (cases op) (simp_all add: keeps_ignore same_goods same_place same_accounts
      keeps_through [OF keeps_transfer] keeps_through [OF keeps_listing])

lemma same_adjust: "keeps (same_markets s0) (addBalance cfg u n delta)"
  unfolding addBalance_def
  by (intro same_walk keeps_through keeps_accounts keeps_write off_market_writes; assumption?)

section \<open>The active markets\<close>

definition active_view :: "db \<Rightarrow> Id \<Rightarrow> Domain.Market option" where
  "active_view s i = (case market_of s i of None \<Rightarrow> None | Some r \<Rightarrow> if mk_active r then Some (market_view r) else None)"

lemma active_viewD:
  assumes "active_view s i = Some m"
  obtains r where "market_of s i = Some r" "r \<in> set (markets s)" "mk_id r = i" "mk_active r" "m = market_view r"
  using assms market_of_Some [of s i] by (auto simp: active_view_def split: option.splits if_splits)

lemma active_view_id: "active_view s i = Some m \<Longrightarrow> m_id m = i"
  by (elim active_viewD) (simp add: market_view_def)

lemma active_view_same: "same_markets s0 s \<Longrightarrow> active_view s = active_view s0"
  by (simp add: active_view_def same_markets_def market_of_def fun_eq_iff)

text \<open>Two active markets have two targets.\<close>

lemma active_targets:
  assumes ok: "markets_ok sha s" and "active_view s i = Some x" "active_view s j = Some y" "m_target_key x = m_target_key y"
  shows "i = j"
proof -
  obtain a where a: "a \<in> set (markets s)" "mk_id a = i" "mk_active a" "x = market_view a" by (rule active_viewD [OF assms(2)])
  obtain b where b: "b \<in> set (markets s)" "mk_id b = j" "mk_active b" "y = market_view b" by (rule active_viewD [OF assms(3)])
  have B: "distinct (map bd_target (bindings s))" "bound_to s (mk_target a) i" "bound_to s (mk_target b) j"
    using markets_okD(3) [OF ok] a b by (auto simp: bindings_ok_def)
  moreover have "mk_target a = mk_target b" using assms(4) a(4) b(4) by (simp add: market_view_def)
  ultimately show ?thesis
    using distinct_key_eq [of bd_target "bindings s"] by (fastforce simp: bound_to_def)
qed

section \<open>Opening and closing\<close>

lemma activate_active:
  assumes ok: "markets_ok sha s" and run: "activateMarket sha m s = (Inr a, s')"
  shows "active_view s \<subseteq>\<^sub>m active_view s'" "active_view s' (m_id a) = Some a" "markets_ok sha s'"
proof -
  obtain i x where act: "activated m i s s'" "books_ok sha s'" and x: "market_of s' i = Some x" "a = market_view x"
    by (rule activateMarket_run [OF ok run])
  note E = activated_effect [OF ok act]
  show "markets_ok sha s'" by (rule E(1))
  show "active_view s' (m_id a) = Some a"
    using E(3) x market_of_Some [OF x(1)] by (simp add: active_view_def market_view_def)
  have "active_view s' j = Some y" if h: "active_view s j = Some y" for j y
  proof -
    obtain r where r: "market_of s j = Some r" "r \<in> set (markets s)" "mk_id r = j" "mk_active r" "y = market_view r"
      by (rule active_viewD [OF h])
    have "market_of s' j = Some r"
      using act(1) r(1,4) market_of_unique [OF markets_okD(1) [OF ok]]
      by (auto simp: activated_def market_of_def resumable_markets_def find_append market_update.find_upd split: if_splits)
    then show ?thesis using r(4,5) by (simp add: active_view_def)
  qed
  then show "active_view s \<subseteq>\<^sub>m active_view s'" by (auto simp: map_le_def)
qed

lemma activate_refused:
  assumes ok: "markets_ok sha s" and run: "activateMarket sha m s = (Inl e, s')"
  shows "s' = s"
proof (rule ccontr)
  assume "s' \<noteq> s"
  with run obtain i where body: "activate_body sha m s = (Inr i, s')" and "market_of s' i = None"
    by (auto simp: activateMarket_def bindS_def throwIf_def transactionS_def findMarket_def queryS_def throwS_def returnS_def
        split: if_splits prod.splits sum.splits option.splits)
  with activate_body_effect [OF markets_okD(2) [OF ok] body] activated_effect(3) [OF ok] show False by fastforce
qed

lemma deactivated_active: "active_view (deactivated m reopen s) = (active_view s)(mk_id m := None)"
  by (rule ext) (simp add: active_view_def deactivated_def market_of_def market_update.find_upd set_active_def
      split: option.split)

text \<open>What a closing call leaves of the active markets.\<close>

definition closed_at :: "Id \<Rightarrow> db \<Rightarrow> unit result \<Rightarrow> db \<Rightarrow> bool" where
  "closed_at i s q s' \<longleftrightarrow> (case q of Inl _ \<Rightarrow> s' = s | Inr _ \<Rightarrow> active_view s' = (active_view s)(i := None))"

lemma close_active:
  assumes ok: "markets_ok sha s" and run: "closeMarket i s = (q, s')"
  shows "closed_at i s q s'"
proof (cases q)
  case (Inl e)
  then show ?thesis using run by (auto simp: closed_at_def closeMarket_def transactionS_Inl)
next
  case (Inr x)
  obtain m where m: "market_of s i = Some m" "s' = (if mk_active m then deactivated m True s else s)"
    by (rule closeMarket_Inr [OF ok run [unfolded Inr]])
  then show ?thesis
    using deactivated_active [of m True s] market_of_Some [OF m(1)]
    by (auto simp: closed_at_def Inr active_view_def fun_eq_iff)
qed

lemma retire_active:
  assumes run: "retireMarket i s = (q, s')"
  shows "closed_at i s q s'"
proof (cases q)
  case (Inl e)
  then show ?thesis using run by (auto simp: closed_at_def retireMarket_def transactionS_Inl)
next
  case (Inr x)
  obtain m rows s1 where m: "market_of s i = Some m" "s' = deactivated m False s1"
    and c: "mapS (\<lambda>x. close_order x ''MARKET_CLOSE_REFUND'' ''MARKET_CLOSED'') rows s = (Inr (), s1)"
    by (rule retireMarket_Inr [OF run [unfolded Inr]])
  have "keeps (same_markets s) (mapS (\<lambda>x. close_order x ''MARKET_CLOSE_REFUND'' ''MARKET_CLOSED'') rows)"
    unfolding close_order_def by (intro same_walk same_orders)
  from keepsD [OF this same_markets_refl c] have "active_view s1 = active_view s" by (rule active_view_same)
  then show ?thesis
    using deactivated_active [of m False s1] market_of_Some [OF m(1)] m(2) by (simp add: closed_at_def Inr)
qed

section \<open>In step\<close>

definition inverse_of :: "('m \<Rightarrow> 'k) \<Rightarrow> ('i \<rightharpoonup> 'm) \<Rightarrow> ('k \<rightharpoonup> 'i) \<Rightarrow> bool" where
  "inverse_of key M T \<longleftrightarrow> (\<forall>k i. T k = Some i \<longleftrightarrow> (\<exists>m. M i = Some m \<and> key m = k))"

lemma inverse_ofD: "inverse_of key M T \<Longrightarrow> T k = Some i \<longleftrightarrow> (\<exists>m. M i = Some m \<and> key m = k)"
  by (simp add: inverse_of_def)

lemma inverse_insert:
  assumes iv: "inverse_of key M T" and one: "\<And>j x. M j = Some x \<Longrightarrow> key x = key m \<Longrightarrow> j = i"
    and same: "\<And>x. M i = Some x \<Longrightarrow> x = m"
  shows "inverse_of key (M(i \<mapsto> m)) (T(key m \<mapsto> i))"
  unfolding inverse_of_def
proof (intro allI)
  fix k j
  note at = inverse_ofD [OF iv, of k j]
  show "(T(key m \<mapsto> i)) k = Some j \<longleftrightarrow> (\<exists>x. (M(i \<mapsto> m)) j = Some x \<and> key x = k)"
  proof (cases "j = i")
    case True
    then have "T k \<noteq> Some j" if "k \<noteq> key m" using at same that by metis
    then show ?thesis using True by (cases "k = key m") simp_all
  next
    case False
    then have "\<not> (\<exists>x. M j = Some x \<and> key x = key m)" using one by blast
    then show ?thesis using False at by (cases "k = key m") simp_all
  qed
qed

lemma inverse_delete:
  assumes iv: "inverse_of key M T" and m: "M i = Some m"
  shows "inverse_of key (M(i := None)) (T(key m := None))"
  unfolding inverse_of_def
proof (intro allI)
  fix k j
  note at = inverse_ofD [OF iv, of k j]
  have one: "j = i" if "M j = Some x" "key x = key m" for x
    using inverse_ofD [OF iv, of "key m" j] inverse_ofD [OF iv, of "key m" i] m that by (metis option.inject)
  show "(T(key m := None)) k = Some j \<longleftrightarrow> (\<exists>x. (M(i := None)) j = Some x \<and> key x = k)"
  proof (cases "j = i")
    case True
    then show ?thesis using at m by (cases "k = key m") auto
  next
    case False
    then have "\<not> (\<exists>x. M j = Some x \<and> key x = key m)" using one by blast
    then show ?thesis using False at by (cases "k = key m") simp_all
  qed
qed

text \<open>What is in memory is active, with the data of the database, and the target index is its inverse.\<close>

definition in_step :: "memory \<Rightarrow> db \<Rightarrow> bool" where
  "in_step mem s \<longleftrightarrow> (case mem of (ms, ts) \<Rightarrow>
     map_of ms \<subseteq>\<^sub>m active_view s \<and> inverse_of m_target_key (map_of ms) (map_of ts))"

lemma in_step_mono: "in_step mem s \<Longrightarrow> active_view s \<subseteq>\<^sub>m active_view s' \<Longrightarrow> in_step mem s'"
  unfolding in_step_def by (auto split: prod.splits intro: map_le_trans)

lemma in_step_index:
  assumes ok: "markets_ok sha s" and mem: "in_step (ms, ts) s" and m: "active_view s (m_id m) = Some m"
  shows "in_step (AList.update (m_id m) m ms, AList.update (m_target_key m) (m_id m) ts) s"
proof -
  have le: "map_of ms \<subseteq>\<^sub>m active_view s" and iv: "inverse_of m_target_key (map_of ms) (map_of ts)"
    using mem by (auto simp: in_step_def)
  have old: "active_view s i = Some x" if "map_of ms i = Some x" for i x using le that by (auto simp: map_le_def dom_def)
  have "inverse_of m_target_key ((map_of ms)(m_id m \<mapsto> m)) ((map_of ts)(m_target_key m \<mapsto> m_id m))"
  proof (rule inverse_insert [OF iv])
    fix j x assume "map_of ms j = Some x" "m_target_key x = m_target_key m"
    then show "j = m_id m" using active_targets [OF ok old m] by blast
  next
    fix x assume "map_of ms (m_id m) = Some x"
    then show "x = m" using old m by fastforce
  qed
  moreover have "(map_of ms)(m_id m \<mapsto> m) \<subseteq>\<^sub>m active_view s" using le m by (simp add: map_le_def)
  ultimately show ?thesis by (simp add: in_step_def update_conv')
qed

lemma in_step_unindex:
  assumes mem: "in_step (ms, ts) s" and gone: "active_view s' = (active_view s)(i := None)"
  shows "case map_of ms i of None \<Rightarrow> in_step (ms, ts) s'
    | Some m \<Rightarrow> in_step (AList.delete i ms, AList.delete (m_target_key m) ts) s'"
proof -
  have le: "map_of ms \<subseteq>\<^sub>m active_view s" and iv: "inverse_of m_target_key (map_of ms) (map_of ts)"
    using mem by (auto simp: in_step_def)
  show ?thesis
  proof (cases "map_of ms i")
    case None
    then have "map_of ms \<subseteq>\<^sub>m active_view s'" using le by (auto simp: gone map_le_def)
    then show ?thesis using iv None by (simp add: in_step_def)
  next
    case (Some m)
    have "(map_of ms)(i := None) \<subseteq>\<^sub>m active_view s'" using le by (auto simp: gone map_le_def)
    with inverse_delete [OF iv Some] show ?thesis by (simp add: in_step_def Some delete_conv')
  qed
qed

section \<open>The handlers keep memory and tables in step\<close>

definition stepping :: "('i, 'w) setting \<Rightarrow> memory \<Rightarrow> db \<Rightarrow> bool" where
  "stepping st mem s \<longleftrightarrow> sound_db st mem s \<and> in_step mem s"

lemma sound_markets: "sound_db st mem s \<Longrightarrow> markets_ok (st_sha st) s"
  unfolding sound_db_def by (elim conjE exE) (rule service_okD(2) [OF reachable_service(1)])

lemma keeps_stepping:
  assumes "keeps (sound_db st mem) m" and "\<And>s0. keeps (same_markets s0) m"
  shows "keeps (stepping st mem) m"
proof (rule keepsI)
  fix s q s' assume "stepping st mem s" and run: "m s = (q, s')"
  then show "stepping st mem s'"
    using keepsD [OF assms(1) _ run] active_view_same [OF keepsD [OF assms(2) same_markets_refl run]]
      in_step_mono [of mem s s'] by (simp add: stepping_def)
qed

interpretation stepping: plugin_rule st "stepping st" for st :: "('i, 'w) setting"
proof unfold_locales
  fix mem s op q s' assume s: "stepping st mem s" and op: "call_typed op" "ordinary op"
    and run: "run_service (st_cfg st) (st_sha st) op s = (q, s')"
  have "keeps (stepping st mem) (run_service (st_cfg st) (st_sha st) op)"
    by (rule keeps_stepping [OF sound.live_call [OF op] same_call [OF op(2)]])
  from keepsD [OF this s run] show "stepping st mem s'" .
next
  fix mem s now assume "stepping st mem s" "db_now s \<le> now"
  then show "stepping st mem (s\<lparr>db_now := now\<rparr>)"
    using sound.later [of st mem s now] in_step_mono [of mem s "s\<lparr>db_now := now\<rparr>"] active_view_same [of s "s\<lparr>db_now := now\<rparr>"]
    by (simp add: stepping_def same_markets_def)
next
  fix mem s assume "stepping st mem s"
  then show "countable (st_api st)" by (simp add: stepping_def sound_db_def)
qed

lemma serve_run: "serve m s = (case m (plugin_db s) of (r, d) \<Rightarrow> (r, s\<lparr>p_plug := (p_plug s)\<lparr>pl_db := d\<rparr>\<rparr>))"
  by (simp add: serve_def on_plug_def on_db_def split: prod.split)

lemma closing_step:
  assumes f: "keeps (in_plugin (stepping st)) f"
  shows "keeps (in_plugin (stepping st)) (bindS (serve (if preserve_orders then closeMarket i else retireMarket i)) (\<lambda>_.
    bindS (label x) (\<lambda>_. bindS (unindexMarket i) (\<lambda>_. f))))"
proof (rule keepsI)
  let ?c = "if preserve_orders then closeMarket i else retireMarket i" and ?mem = "\<lambda>s. (p_markets s, p_targets s)"
  fix s q s' assume ok: "in_plugin (stepping st) s"
    and run: "bindS (serve ?c) (\<lambda>_. bindS (label x) (\<lambda>_. bindS (unindexMarket i) (\<lambda>_. f))) s = (q, s')"
  obtain r d where c: "?c (plugin_db s) = (r, d)" by fastforce
  have old: "sound_db st (?mem s) (plugin_db s)" "in_step (?mem s) (plugin_db s)" using ok by (simp_all add: stepping_def)
  have "keeps (sound_db st (?mem s)) ?c" by (simp add: sound.market_calls)
  from keepsD [OF this old(1) c] have new: "sound_db st (?mem s) d" .
  have at: "closed_at i (plugin_db s) r d"
    using c close_active [OF sound_markets [OF old(1)]] retire_active by (cases preserve_orders) simp_all
  let ?t = "s\<lparr>p_plug := (p_plug s)\<lparr>pl_db := d\<rparr>, p_labels := p_labels s @ [x]\<rparr>"
  show "in_plugin (stepping st) s'"
  proof (cases r)
    case (Inl e)
    then show ?thesis using run c at ok by (auto simp: serve_run bindS_def closed_at_def)
  next
    case (Inr y)
    let ?u = "case map_of (p_markets s) i of None \<Rightarrow> ?t | Some m \<Rightarrow> ?t\<lparr>p_targets := AList.delete (m_target_key m) (p_targets s),
      p_markets := AList.delete i (p_markets s)\<rparr>"
    have "in_plugin (stepping st) ?u"
      using in_step_unindex [OF old(2), of d i] at new sound.any_memory [OF new]
      by (auto simp: closed_at_def Inr stepping_def split: option.splits)
    moreover have "f ?u = (q, s')"
      using run c by (simp add: bindS_def [of "serve _"] serve_run Inr svc_runs label_def unindexMarket_def split: option.splits)
    ultimately show ?thesis by (rule keepsD [OF f])
  qed
qed

definition just_opened :: "('i, 'w) setting \<Rightarrow> Domain.Market \<Rightarrow> ('j, 'v) plugin \<Rightarrow> bool" where
  "just_opened st a s \<longleftrightarrow> in_plugin (stepping st) s \<and> active_view (plugin_db s) (m_id a) = Some a"

lemma opening_step:
  assumes f: "\<And>a s q s'. just_opened st a s \<Longrightarrow> f a s = (q, s') \<Longrightarrow> in_plugin (stepping st) s'"
  shows "keeps (in_plugin (stepping st)) (bindS (serve (activateMarket (st_sha st) m)) f)"
proof (rule keepsI)
  let ?mem = "\<lambda>s. (p_markets s, p_targets s)"
  fix s q s' assume ok: "in_plugin (stepping st) s" and run: "bindS (serve (activateMarket (st_sha st) m)) f s = (q, s')"
  obtain r d where c: "activateMarket (st_sha st) m (plugin_db s) = (r, d)" by fastforce
  have old: "sound_db st (?mem s) (plugin_db s)" "in_step (?mem s) (plugin_db s)" using ok by (simp_all add: stepping_def)
  note mok = sound_markets [OF old(1)]
  have new: "sound_db st (?mem s) d" by (rule keepsD [OF sound.market_calls(1) old(1) c])
  show "in_plugin (stepping st) s'"
  proof (cases r)
    case (Inl e)
    then show ?thesis using run c activate_refused [OF mok c [unfolded Inl]] ok by (auto simp: serve_run bindS_def)
  next
    case (Inr a)
    note act = activate_active [OF mok c [unfolded Inr]]
    have "just_opened st a (s\<lparr>p_plug := (p_plug s)\<lparr>pl_db := d\<rparr>\<rparr>)"
      using in_step_mono [OF old(2) act(1)] act(2) new by (simp add: just_opened_def stepping_def)
    then show ?thesis by (rule f) (use run c in \<open>simp add: bindS_def [of "serve _"] serve_run Inr\<close>)
  qed
qed

lemma index_opened:
  assumes "just_opened st a s" and "indexMarket a s = (q, s')"
  shows "in_plugin (stepping st) s'" "plugin_db s' = plugin_db s"
  using assms in_step_index [OF sound_markets] sound.any_memory
  by (auto simp: just_opened_def indexMarket_def executeS_def stepping_def)

lemma opened_opened:
  assumes "just_opened st a s" and run: "opened_market st p message a s = (q, s')"
  shows "in_plugin (stepping st) s'"
proof -
  have rest: "keeps (in_plugin (stepping st)) (bindS (label (Refresh_Label a)) (\<lambda>_.
      say p (tr_for st p message [localizedItemName st (m_item a) (who_language p)])))"
    by (intro stepping.desk_walk)
  obtain q1 s1 where i: "indexMarket a s = (q1, s1)" by fastforce
  have "q1 = Inr ()" using i by (simp add: indexMarket_def executeS_def)
  with run i have "bindS (label (Refresh_Label a)) (\<lambda>_.
      say p (tr_for st p message [localizedItemName st (m_item a) (who_language p)])) s1 = (q, s')"
    by (simp add: opened_market_def bindS_def [of "indexMarket a"])
  then show ?thesis by (rule keepsD [OF rest index_opened(1) [OF assms(1) i]])
qed

lemma active_listed:
  assumes "activeMarkets s = (Inr xs, s')" and "a \<in> set xs"
  shows "active_view s (m_id a) = Some a"
proof -
  obtain b :: binding_row and y where y: "market_of s (bd_market b) = Some y" "mk_active y" "a = market_view y"
    using assms by (auto simp: activeMarkets_def queryS_def bound_markets_def List.map_filter_def)
  then show ?thesis using market_of_Some [OF y(1)] by (simp add: active_view_def market_view_def)
qed

lemma index_all:
  assumes "in_plugin (stepping st) s" and "\<And>a. a \<in> set xs \<Longrightarrow> active_view (plugin_db s) (m_id a) = Some a"
    and "mapS indexMarket xs s = (q, s')"
  shows "in_plugin (stepping st) s'"
  using assms
proof (induction xs arbitrary: s)
  case (Cons a xs)
  obtain q1 s1 where i: "indexMarket a s = (q1, s1)" by fastforce
  have q1: "q1 = Inr ()" using i by (simp add: indexMarket_def executeS_def)
  have "just_opened st a s" using Cons.prems by (simp add: just_opened_def)
  note io = index_opened [OF this i]
  show ?case
    by (rule Cons.IH [OF io(1)]) (use Cons.prems io(2) i q1 in \<open>simp_all add: bindS_def [of "indexMarket a"]\<close>)
qed (simp add: returnS_def)

lemma stepping_markets:
  shows "keeps (in_plugin (stepping st)) (deactivate st q i preserve_orders)"
    "keeps (in_plugin (stepping st)) restoreMarkets"
    "keeps (in_plugin (stepping st)) (toggle_callback st p a current answer)"
    "keeps (in_plugin (stepping st)) (toggleBlock st p b)"
    "keeps (in_plugin (stepping st)) (toggleActor st p x)"
proof -
  show d: "keeps (in_plugin (stepping st)) (deactivate st q i preserve_orders)" for q i preserve_orders
    unfolding deactivate_def change_tags_def
    by (intro closing_step stepping.desk_walk stepping.reach_desk keeps_same; simp)
  have opened: "keeps (in_plugin (stepping st)) (bindS (serve (activateMarket (st_sha st) m)) (opened_market st p message))"
    for p message m by (rule opening_step) (rule opened_opened)
  show t: "keeps (in_plugin (stepping st)) (toggle_callback st p a current answer)" for a current answer
    unfolding toggle_callback_def by (intro opened stepping.desk_walk)
  show "keeps (in_plugin (stepping st)) (toggleBlock st p b)"
    unfolding toggleBlock_def queueItemFrameToggle_def Let_def
    by (intro opened stepping.desk_walk stepping.reach_capture d t)
  have tag: "keeps (in_plugin (stepping st)) (bindS (serve (activateMarket (st_sha st) m)) (\<lambda>m.
      bindS (change_tags k (f m)) (\<lambda>_. opened_market st p message m)))" for m k f message
  proof (rule opening_step)
    fix a s q s' assume "just_opened st a s"
      and run: "bindS (change_tags k (f a)) (\<lambda>_. opened_market st p message a) s = (q, s')"
    then have "just_opened st a (snd (change_tags k (f a) s))" by (simp add: just_opened_def change_tags_def executeS_def)
    moreover have "opened_market st p message a (snd (change_tags k (f a) s)) = (q, s')"
      using run by (simp add: change_tags_def svc_runs executeS_def)
    ultimately show "in_plugin (stepping st) s'" by (rule opened_opened)
  qed
  show "keeps (in_plugin (stepping st)) (toggleActor st p x)"
    unfolding toggleActor_def by (intro tag stepping.desk_walk d)
  show "keeps (in_plugin (stepping st)) restoreMarkets"
  proof (rule keepsI)
    fix s q s' assume ok: "in_plugin (stepping st) s" and run: "restoreMarkets s = (q, s')"
    let ?s = "s\<lparr>p_markets := [], p_targets := []\<rparr>"
    obtain xs where l: "activeMarkets (plugin_db s) = (Inr xs, plugin_db s)" by (simp add: activeMarkets_def queryS_def)
    have empty: "in_plugin (stepping st) ?s"
      using ok sound.any_memory by (auto simp: stepping_def in_step_def inverse_of_def)
    have "mapS indexMarket xs ?s = (q, s')"
      using run l by (simp add: restoreMarkets_def svc_runs bindS_def [of "serve _"] serve_run)
    from index_all [OF empty _ this] active_listed [OF l] show "in_plugin (stepping st) s'" by simp
  qed
qed

interpretation steps: market_rule st "stepping st" for st :: "('i, 'w) setting"
proof (unfold_locales, goal_cases)
  case (1 q i preserve_orders) show ?case by (rule stepping_markets)
next
  case (2 p a current answer) show ?case by (rule stepping_markets)
next
  case (3 p b) show ?case by (rule stepping_markets)
next
  case (4 p x) show ?case by (rule stepping_markets)
next
  case 5 show ?case by (rule stepping_markets)
next
  case (6 mem s)
  then show ?case using sound.any_memory by (auto simp: stepping_def in_step_def inverse_of_def)
next
  case (7 mem u n delta)
  show ?case using sound.adjust_call keeps_stepping [OF _ same_adjust] by blast
qed

section \<open>A restart\<close>

lemma indexed:
  assumes "\<And>a. a \<in> set xs \<Longrightarrow> A (m_id a) = Some a"
  shows "map_of (p_markets (snd (mapS indexMarket xs s))) = (\<lambda>i. if i \<in> m_id ` set xs then A i else map_of (p_markets s) i)"
  using assms
proof (induction xs arbitrary: s)
  case (Cons a xs)
  have "mapS indexMarket (a # xs) s = mapS indexMarket xs (snd (indexMarket a s))"
    by (simp add: bindS_def indexMarket_def executeS_def)
  moreover have "map_of (p_markets (snd (indexMarket a s))) = (map_of (p_markets s))(m_id a \<mapsto> a)"
    by (simp add: indexMarket_def executeS_def update_conv')
  ultimately show ?case
    using Cons.IH [of "snd (indexMarket a s)"] Cons.prems by (auto simp: fun_eq_iff simp del: mapS.simps)
qed (simp add: returnS_def)

text \<open>A restart reads all active markets.\<close>

lemma restored:
  assumes ok: "markets_ok sha (plugin_db s)"
  shows "map_of (p_markets (snd (restoreMarkets s))) = active_view (plugin_db s)"
proof -
  let ?d = "plugin_db s" and ?s = "s\<lparr>p_markets := [], p_targets := []\<rparr>"
  obtain xs where l: "activeMarkets ?d = (Inr xs, ?d)" by (simp add: activeMarkets_def queryS_def)
  have run: "restoreMarkets s = mapS indexMarket xs ?s"
    using l by (simp add: restoreMarkets_def svc_runs bindS_def [of "serve _"] serve_run)
  have all: "i \<in> m_id ` set xs" if h: "active_view ?d i = Some m" for i m
  proof -
    obtain r where r: "market_of ?d i = Some r" "r \<in> set (markets ?d)" "mk_id r = i" "mk_active r" "m = market_view r"
      by (rule active_viewD [OF h])
    then have "\<lparr>bd_target = mk_target r, bd_market = i\<rparr> \<in> set (bindings ?d)"
      using markets_okD(3) [OF ok] by (auto simp: bindings_ok_def bound_to_def)
    then have "(\<lparr>bd_target = mk_target r, bd_market = i\<rparr>, r) \<in> set (bound_markets ?d)" using r(1) by (simp add: bound_markets_mem)
    then have "m \<in> set xs" using l r(4,5) by (force simp: activeMarkets_def queryS_def)
    moreover have "m_id m = i" using r(3,5) by (simp add: market_view_def)
    ultimately show ?thesis by blast
  qed
  show ?thesis
    using indexed [of xs "active_view ?d" ?s, OF active_listed [OF l]] all
    by (auto simp: run fun_eq_iff) (metis option.exhaust)
qed

text \<open>
  C40: Whatever happens to the plugin, from the first start on, the markets it holds in memory are active
  markets of the database, with exactly their data, and the index by which a click finds a market is the
  inverse of their targets: the market a click leads to is the one the database has at that target. A restart
  at any time brings all active markets back into memory, and no other.
\<close>

theorem index_in_step:
  assumes "config_ok (st_cfg st)" and "countable (st_api st)" and "plugin_db s = empty_db"
    and "p_markets s = []" and "p_targets s = []"
  shows "map_of (p_markets (react_all st hs s)) \<subseteq>\<^sub>m active_view (plugin_db (react_all st hs s)) \<and>
    (map_of (p_targets (react_all st hs s)) k = Some i \<longleftrightarrow>
      (\<exists>m. map_of (p_markets (react_all st hs s)) i = Some m \<and> m_target_key m = k)) \<and>
    (map_of (p_targets (react_all st hs s)) k = Some i \<longrightarrow>
      fst (findMarketByTarget k (plugin_db (react_all st hs s))) = Inr (map_of (p_markets (react_all st hs s)) i)) \<and>
    map_of (p_markets (snd (restoreMarkets (react_all st hs s)))) = active_view (plugin_db (react_all st hs s))"
proof -
  let ?s = "react_all st hs s"
  have "in_plugin (stepping st) s"
    using assms by (auto simp: stepping_def sound_db_def in_step_def inverse_of_def intro!: exI [of _ 0] reachable.fresh)
  from steps.reach_all [OF this, of hs]
  have R: "sound_db st (p_markets ?s, p_targets ?s) (plugin_db ?s)" "map_of (p_markets ?s) \<subseteq>\<^sub>m active_view (plugin_db ?s)"
    "inverse_of m_target_key (map_of (p_markets ?s)) (map_of (p_targets ?s))" by (simp_all add: stepping_def in_step_def)
  note ok = sound_markets [OF R(1)] and iv = inverse_ofD [OF R(3), of k i]
  have "fst (findMarketByTarget k (plugin_db ?s)) = Inr (map_of (p_markets ?s) i)" if h: "map_of (p_targets ?s) k = Some i"
  proof -
    obtain m where m: "map_of (p_markets ?s) i = Some m" "m_target_key m = k" using iv h by blast
    then have "active_view (plugin_db ?s) i = Some m" using R(2) by (auto simp: map_le_def dom_def)
    then obtain r where r: "market_of (plugin_db ?s) i = Some r" "r \<in> set (markets (plugin_db ?s))" "mk_id r = i"
      "mk_active r" "m = market_view r" by (rule active_viewD)
    then have "bound_to (plugin_db ?s) k i" using markets_okD(3) [OF ok] m(2) by (auto simp: bindings_ok_def market_view_def)
    from findMarketByTarget_bound [OF ok this r(1)] m(1) r(5) show ?thesis by simp
  qed
  with R(2) iv restored [OF ok] show ?thesis by blast
qed

text \<open>Ann's click leads to the market the database has at the stone.\<close>

lemma index_in_step_witness:
  "map_of (p_targets demo_clicked) ''block|Overworld|3|64|5'' = Some 1 \<and>
    fst (findMarketByTarget ''block|Overworld|3|64|5'' (plugin_db demo_clicked)) = Inr (map_of (p_markets demo_clicked) 1)"
proof -
  have h: "config_ok (st_cfg demo_setting)" "countable (st_api demo_setting)" "plugin_db demo_server = empty_db"
    "p_markets demo_server = []" "p_targets demo_server = []"
    by (simp_all add: demo_setting_def demo_server_def config_ok_def int64_max_def int32_max_def pocket_countable)
  have "map_of (p_targets demo_clicked) ''block|Overworld|3|64|5'' = Some 1" by code_simp
  with index_in_step [OF h, of demo_history "''block|Overworld|3|64|5''" 1] show ?thesis
    unfolding demo_clicked_def [symmetric] by blast
qed

end
