(* ===== verification/Translation_Table.thy ===== *)
theory Translation_Table
  imports Localization
begin

text \<open>
  The table of the translations of src/localization.cpp, and what its texts are worth: the compile-time check
  of the table holds, and since every text has its braces in pairs, formatting a message fails in no language
  in which the arguments are enough. A byte outside ASCII is given by the code point it belongs to.
\<close>

section \<open>The table\<close>

definition translations_1 :: catalogue where
  "translations_1 = [
   (PluginNotReady, [utf8 [0x4EA4, 0x6613, 0x529F, 0x80FD, 0x5C1A, 0x672A, 0x5C31, 0x7EEA, 0xFF0C, 0x8BF7, 0x67E5,
     0x770B, 0x670D, 0x52A1, 0x7AEF, 0x65E5, 0x5FD7, 0x3002], ''The exchange is not ready. Check the server log.'',
     utf8 [0x4EA4, 0x6613, 0x529F, 0x80FD, 0x5C1A, 0x672A, 0x5C31, 0x7DD2, 0xFF0C, 0x8ACB, 0x67E5, 0x770B, 0x4F3A,
     0x670D, 0x5668, 0x65E5, 0x8A8C, 0x3002], utf8 [0x53D6, 0x5F15, 0x6A5F, 0x80FD, 0x306F, 0x307E, 0x3060, 0x6E96,
     0x5099, 0x3067, 0x304D, 0x3066, 0x3044, 0x307E, 0x305B, 0x3093, 0x3002, 0x30B5, 0x30FC, 0x30D0, 0x30FC, 0x30ED,
     0x30B0, 0x3092, 0x78BA, 0x8A8D, 0x3057, 0x3066, 0x304F, 0x3060, 0x3055, 0x3044, 0x3002]]),
   (CommandHelp, [''/exchange give | balance | orders | claim | addbalance <'' @ utf8 [0x73A9, 0x5BB6] @ ''> <'' @
     utf8 [0x91D1, 0x989D] @ ''> | status'',
     ''/exchange give | balance | orders | claim | addbalance <player> <amount> | status'',
     ''/exchange give | balance | orders | claim | addbalance <'' @ utf8 [0x73A9, 0x5BB6] @ ''> <'' @ utf8 [0x91D1,
     0x984D] @ ''> | status'', ''/exchange give | balance | orders | claim | addbalance <'' @ utf8 [0x30D7, 0x30EC,
     0x30A4, 0x30E4, 0x30FC] @ ''> <'' @ utf8 [0x91D1, 0x984D] @ ''> | status'']),
   (Balance, [utf8 [0xA7] @ ''6'' @ utf8 [0x53EF, 0x7528, 0x4F59, 0x989D, 0xFF1A, 0xA7] @ ''e{}'' @ utf8 [0xA7] @
     ''r'', utf8 [0xA7] @ ''6Available balance: '' @ utf8 [0xA7] @ ''e{}'' @ utf8 [0xA7] @ ''r'', utf8 [0xA7] @ ''6''
     @ utf8 [0x53EF, 0x7528, 0x9918, 0x984D, 0xFF1A, 0xA7] @ ''e{}'' @ utf8 [0xA7] @ ''r'', utf8 [0xA7] @ ''6'' @ utf8
     [0x5229, 0x7528, 0x53EF, 0x80FD, 0x6B8B, 0x9AD8, 0xFF1A, 0xA7] @ ''e{}'' @ utf8 [0xA7] @ ''r'']),
   (EconomyInsufficient, [''UMoney '' @ utf8 [0x4F59, 0x989D, 0x4E0D, 0x8DB3, 0x3002],
     ''Insufficient UMoney balance.'', ''UMoney '' @ utf8 [0x9918, 0x984D, 0x4E0D, 0x8DB3, 0x3002], ''UMoney '' @ utf8
     [0x6B8B, 0x9AD8, 0x304C, 0x4E0D, 0x8DB3, 0x3057, 0x3066, 0x3044, 0x307E, 0x3059, 0x3002]]),
   (EconomyAdminBalanceDisabled, [''UMoney '' @ utf8 [0x6A21, 0x5F0F, 0x7981, 0x6B62, 0x4F7F, 0x7528] @
     '' addbalance'' @ utf8 [0xFF1B, 0x8BF7, 0x76F4, 0x63A5, 0x4F7F, 0x7528] @ '' UMoney '' @ utf8 [0x7BA1, 0x7406,
     0x529F, 0x80FD, 0x3002], ''addbalance is disabled in UMoney mode; use UMoney administration directly.'',
     ''UMoney '' @ utf8 [0x6A21, 0x5F0F, 0x7981, 0x6B62, 0x4F7F, 0x7528] @ '' addbalance'' @ utf8 [0xFF1B, 0x8ACB,
     0x76F4, 0x63A5, 0x4F7F, 0x7528] @ '' UMoney '' @ utf8 [0x7BA1, 0x7406, 0x529F, 0x80FD, 0x3002], ''UMoney '' @
     utf8 [0x30E2, 0x30FC, 0x30C9, 0x3067, 0x306F] @ '' addbalance '' @ utf8 [0x306F, 0x7121, 0x52B9, 0x3067, 0x3059,
     0x3002] @ ''UMoney '' @ utf8 [0x306E, 0x7BA1, 0x7406, 0x6A5F, 0x80FD, 0x3092, 0x76F4, 0x63A5, 0x4F7F, 0x7528,
     0x3057, 0x3066, 0x304F, 0x3060, 0x3055, 0x3044, 0x3002]]),
   (EconomyPlayerMissing, [''UMoney '' @ utf8 [0x4E2D, 0x6CA1, 0x6709, 0x8BE5, 0x73A9, 0x5BB6, 0x8D26, 0x6237, 0xFF1B,
     0x8BF7, 0x5148, 0x52A0, 0x5165, 0x670D, 0x52A1, 0x5668, 0x4E00, 0x6B21, 0x3002],
     ''UMoney has no account for this player. Join the server once first.'', ''UMoney '' @ utf8 [0x4E2D, 0x6C92,
     0x6709, 0x8A72, 0x73A9, 0x5BB6, 0x5E33, 0x6236, 0xFF1B, 0x8ACB, 0x5148, 0x52A0, 0x5165, 0x4F3A, 0x670D, 0x5668,
     0x4E00, 0x6B21, 0x3002], ''UMoney '' @ utf8 [0x306B, 0x3053, 0x306E, 0x30D7, 0x30EC, 0x30A4, 0x30E4, 0x30FC,
     0x306E, 0x53E3, 0x5EA7, 0x304C, 0x3042, 0x308A, 0x307E, 0x305B, 0x3093, 0x3002, 0x5148, 0x306B, 0x4E00, 0x5EA6,
     0x30B5, 0x30FC, 0x30D0, 0x30FC, 0x3078, 0x53C2, 0x52A0, 0x3057, 0x3066, 0x304F, 0x3060, 0x3055, 0x3044, 0x3002]]),
   (EconomyStatus, [utf8 [0x7ECF, 0x6D4E, 0x6765, 0x6E90] @ ''={}'' @ utf8 [0xFF0C, 0x672A, 0x5B8C, 0x6210] @ ''/'' @
     utf8 [0x5F85, 0x6838, 0x5BF9, 0x76F4, 0x63A5, 0x8F6C, 0x8D26] @ ''={}'',
     ''Economy provider={}, unfinished/review direct transfers={}'', utf8 [0x7D93, 0x6FDF, 0x4F86, 0x6E90] @ ''={}'' @
     utf8 [0xFF0C, 0x672A, 0x5B8C, 0x6210] @ ''/'' @ utf8 [0x5F85, 0x6838, 0x5C0D, 0x76F4, 0x63A5, 0x8F49, 0x5E33] @
     ''={}'', utf8 [0x7D4C, 0x6E08, 0x30D7, 0x30ED, 0x30D0, 0x30A4, 0x30C0, 0x30FC] @ ''={}'' @ utf8 [0x3001, 0x672A,
     0x5B8C, 0x4E86] @ ''/'' @ utf8 [0x78BA, 0x8A8D, 0x5F85, 0x3061, 0x76F4, 0x63A5, 0x8EE2, 0x9001] @ ''={}'']),
   (NoGivePermission, [utf8 [0x4F60, 0x6CA1, 0x6709, 0x53D1, 0x653E] @ '' exchanger '' @ utf8 [0x7684, 0x6743, 0x9650,
     0x3002], ''You do not have permission to give an exchanger.'', utf8 [0x4F60, 0x6C92, 0x6709, 0x767C, 0x653E] @
     '' exchanger '' @ utf8 [0x7684, 0x6B0A, 0x9650, 0x3002], ''exchanger '' @ utf8 [0x3092, 0x914D, 0x5E03, 0x3059,
     0x308B, 0x6A29, 0x9650, 0x304C, 0x3042, 0x308A, 0x307E, 0x305B, 0x3093, 0x3002]]),
   (PlayerOffline, [utf8 [0x76EE, 0x6807, 0x73A9, 0x5BB6, 0x4E0D, 0x5728, 0x7EBF, 0x3002],
     ''The target player is offline.'', utf8 [0x76EE, 0x6A19, 0x73A9, 0x5BB6, 0x4E0D, 0x5728, 0x7DDA, 0x3002], utf8
     [0x5BFE, 0x8C61, 0x30D7, 0x30EC, 0x30A4, 0x30E4, 0x30FC, 0x306F, 0x30AA, 0x30D5, 0x30E9, 0x30A4, 0x30F3, 0x3067,
     0x3059, 0x3002]]),
   (GiveUsage, [utf8 [0x7528, 0x6CD5, 0xFF1A] @ ''/exchange give ['' @ utf8 [0x5728, 0x7EBF, 0x73A9, 0x5BB6] @ '']'',
     ''Usage: /exchange give [online player]'', utf8 [0x7528, 0x6CD5, 0xFF1A] @ ''/exchange give ['' @ utf8 [0x5728,
     0x7DDA, 0x73A9, 0x5BB6] @ '']'', utf8 [0x4F7F, 0x3044, 0x65B9, 0xFF1A] @ ''/exchange give ['' @ utf8 [0x30AA,
     0x30F3, 0x30E9, 0x30A4, 0x30F3, 0x30D7, 0x30EC, 0x30A4, 0x30E4, 0x30FC] @ '']'']),
   (NoMarketPermission, [utf8 [0x4F60, 0x6CA1, 0x6709, 0x4F7F, 0x7528] @ '' exchanger '' @ utf8 [0x5F00, 0x542F,
     0x4EA4, 0x6613, 0x7684, 0x6743, 0x9650, 0x3002], ''You do not have permission to create an exchange point.'',
     utf8 [0x4F60, 0x6C92, 0x6709, 0x4F7F, 0x7528] @ '' exchanger '' @ utf8 [0x958B, 0x555F, 0x4EA4, 0x6613, 0x7684,
     0x6B0A, 0x9650, 0x3002], ''exchanger '' @ utf8 [0x3067, 0x53D6, 0x5F15, 0x5730, 0x70B9, 0x3092, 0x4F5C, 0x6210,
     0x3059, 0x308B, 0x6A29, 0x9650, 0x304C, 0x3042, 0x308A, 0x307E, 0x305B, 0x3093, 0x3002]]),
   (GaveExchanger, [utf8 [0x5DF2, 0x5411] @ '' {} '' @ utf8 [0x53D1, 0x653E] @ '' exchanger'' @ utf8 [0x3002],
     ''Gave an exchanger to {}.'', utf8 [0x5DF2, 0x5411] @ '' {} '' @ utf8 [0x767C, 0x653E] @ '' exchanger'' @ utf8
     [0x3002], ''{} '' @ utf8 [0x306B] @ '' exchanger '' @ utf8 [0x3092, 0x6E21, 0x3057, 0x307E, 0x3057, 0x305F,
     0x3002]]),
   (ConsoleHint, [utf8 [0x63A7, 0x5236, 0x53F0, 0x8BF7, 0x4F7F, 0x7528] @ '' addbalance '' @ utf8 [0x6216] @
     '' status'' @ utf8 [0x3002], ''Use addbalance or status from the console.'', utf8 [0x63A7, 0x5236, 0x53F0,
     0x8ACB, 0x4F7F, 0x7528] @ '' addbalance '' @ utf8 [0x6216] @ '' status'' @ utf8 [0x3002], utf8 [0x30B3, 0x30F3,
     0x30BD, 0x30FC, 0x30EB, 0x3067, 0x306F] @ '' addbalance '' @ utf8 [0x307E, 0x305F, 0x306F] @ '' status '' @ utf8
     [0x3092, 0x4F7F, 0x7528, 0x3057, 0x3066, 0x304F, 0x3060, 0x3055, 0x3044, 0x3002]]),
   (PlayerFormOnly, [utf8 [0x8BE5, 0x754C, 0x9762, 0x53EA, 0x80FD, 0x7531, 0x73A9, 0x5BB6, 0x6253, 0x5F00, 0x3002],
     ''Only a player can open this screen.'', utf8 [0x8A72, 0x4ECB, 0x9762, 0x53EA, 0x80FD, 0x7531, 0x73A9, 0x5BB6,
     0x958B, 0x555F, 0x3002], utf8 [0x3053, 0x306E, 0x753B, 0x9762, 0x306F, 0x30D7, 0x30EC, 0x30A4, 0x30E4, 0x30FC,
     0x306E, 0x307F, 0x958B, 0x3051, 0x307E, 0x3059, 0x3002]])]"

definition translations_2 :: catalogue where
  "translations_2 = [
   (PlayerClaimOnly, [utf8 [0x53EA, 0x6709, 0x73A9, 0x5BB6, 0x53EF, 0x4EE5, 0x9886, 0x53D6, 0x7269, 0x54C1, 0x3002],
     ''Only a player can claim items.'', utf8 [0x53EA, 0x6709, 0x73A9, 0x5BB6, 0x53EF, 0x4EE5, 0x9818, 0x53D6, 0x7269,
     0x54C1, 0x3002], utf8 [0x30A2, 0x30A4, 0x30C6, 0x30E0, 0x3092, 0x53D7, 0x3051, 0x53D6, 0x308C, 0x308B, 0x306E,
     0x306F, 0x30D7, 0x30EC, 0x30A4, 0x30E4, 0x30FC, 0x3060, 0x3051, 0x3067, 0x3059, 0x3002]]),
   (AddBalanceUsage, [utf8 [0x7528, 0x6CD5, 0xFF1A] @ ''/exchange addbalance <'' @ utf8 [0x5728, 0x7EBF, 0x73A9,
     0x5BB6] @ ''> <'' @ utf8 [0x91D1, 0x989D] @ ''>'', ''Usage: /exchange addbalance <online player> <amount>'', utf8
     [0x7528, 0x6CD5, 0xFF1A] @ ''/exchange addbalance <'' @ utf8 [0x5728, 0x7DDA, 0x73A9, 0x5BB6] @ ''> <'' @ utf8
     [0x91D1, 0x984D] @ ''>'', utf8 [0x4F7F, 0x3044, 0x65B9, 0xFF1A] @ ''/exchange addbalance <'' @ utf8 [0x30AA,
     0x30F3, 0x30E9, 0x30A4, 0x30F3, 0x30D7, 0x30EC, 0x30A4, 0x30E4, 0x30FC] @ ''> <'' @ utf8 [0x91D1, 0x984D] @
     ''>'']),
   (InvalidAmount, [utf8 [0x91D1, 0x989D, 0x683C, 0x5F0F, 0x65E0, 0x6548, 0x3002], ''The amount is invalid.'', utf8
     [0x91D1, 0x984D, 0x683C, 0x5F0F, 0x7121, 0x6548, 0x3002], utf8 [0x91D1, 0x984D, 0x306E, 0x5F62, 0x5F0F, 0x304C,
     0x6B63, 0x3057, 0x304F, 0x3042, 0x308A, 0x307E, 0x305B, 0x3093, 0x3002]]),
   (AmountOutOfRange, [utf8 [0x91D1, 0x989D, 0x8D85, 0x51FA, 0x5141, 0x8BB8, 0x8303, 0x56F4, 0x3002],
     ''The amount is outside the allowed range.'', utf8 [0x91D1, 0x984D, 0x8D85, 0x51FA, 0x5141, 0x8A31, 0x7BC4,
     0x570D, 0x3002], utf8 [0x91D1, 0x984D, 0x304C, 0x8A31, 0x53EF, 0x7BC4, 0x56F2, 0x3092, 0x8D85, 0x3048, 0x3066,
     0x3044, 0x307E, 0x3059, 0x3002]]),
   (PlayerBalanceNow, [''{} '' @ utf8 [0x7684, 0x4EA4, 0x6613, 0x4F59, 0x989D, 0x73B0, 0x5728, 0x662F] @ '' {}'' @
     utf8 [0x3002], ''{} now has an exchange balance of {}.'', ''{} '' @ utf8 [0x7684, 0x4EA4, 0x6613, 0x9918, 0x984D,
     0x73FE, 0x5728, 0x662F] @ '' {}'' @ utf8 [0x3002], ''{} '' @ utf8 [0x306E, 0x53D6, 0x5F15, 0x6B8B, 0x9AD8,
     0x306F] @ '' {} '' @ utf8 [0x306B, 0x306A, 0x308A, 0x307E, 0x3057, 0x305F, 0x3002]]),
   (BalanceAdjusted, [utf8 [0xA7] @ ''6'' @ utf8 [0x4EA4, 0x6613, 0x4F59, 0x989D, 0x5DF2, 0x8C03, 0x6574, 0x4E3A,
     0xFF1A, 0xA7] @ ''e{}'' @ utf8 [0xA7] @ ''r'', utf8 [0xA7] @ ''6Your exchange balance is now: '' @ utf8 [0xA7] @
     ''e{}'' @ utf8 [0xA7] @ ''r'', utf8 [0xA7] @ ''6'' @ utf8 [0x4EA4, 0x6613, 0x9918, 0x984D, 0x5DF2, 0x8ABF,
     0x6574, 0x70BA, 0xFF1A, 0xA7] @ ''e{}'' @ utf8 [0xA7] @ ''r'', utf8 [0xA7] @ ''6'' @ utf8 [0x53D6, 0x5F15,
     0x6B8B, 0x9AD8, 0x304C, 0x6B21, 0x306E, 0x91D1, 0x984D, 0x306B, 0x5909, 0x66F4, 0x3055, 0x308C, 0x307E, 0x3057,
     0x305F, 0xFF1A, 0xA7] @ ''e{}'' @ utf8 [0xA7] @ ''r'']),
   (StatusOk, [''Exchange {}'' @ utf8 [0xFF1A, 0x6570, 0x636E, 0x5E93, 0x6B63, 0x5E38, 0xFF0C, 0x6D3B, 0x8DC3, 0x4EA4,
     0x6613, 0x70B9] @ '' {} '' @ utf8 [0x4E2A], ''Exchange {}: database OK, {} active exchange points'',
     ''Exchange {}'' @ utf8 [0xFF1A, 0x8CC7, 0x6599, 0x5EAB, 0x6B63, 0x5E38, 0xFF0C, 0x6D3B, 0x8E8D, 0x4EA4, 0x6613,
     0x9EDE] @ '' {} '' @ utf8 [0x500B], ''Exchange {}'' @ utf8 [0xFF1A, 0x30C7, 0x30FC, 0x30BF, 0x30D9, 0x30FC,
     0x30B9, 0x6B63, 0x5E38, 0x3001, 0x6709, 0x52B9, 0x306A, 0x53D6, 0x5F15, 0x5730, 0x70B9] @ '' {} '' @ utf8
     [0x4EF6]]),
   (UnknownSubcommand, [utf8 [0x672A, 0x77E5, 0x5B50, 0x547D, 0x4EE4, 0x3002], ''Unknown subcommand.'', utf8 [0x672A,
     0x77E5, 0x5B50, 0x547D, 0x4EE4, 0x3002], utf8 [0x4E0D, 0x660E, 0x306A, 0x30B5, 0x30D6, 0x30B3, 0x30DE, 0x30F3,
     0x30C9, 0x3067, 0x3059, 0x3002]]),
   (CommandFailed, [utf8 [0x4EA4, 0x6613, 0x64CD, 0x4F5C, 0x5931, 0x8D25, 0xFF1A] @ ''{}'',
     ''Exchange operation failed: {}'', utf8 [0x4EA4, 0x6613, 0x64CD, 0x4F5C, 0x5931, 0x6557, 0xFF1A] @ ''{}'', utf8
     [0x53D6, 0x5F15, 0x64CD, 0x4F5C, 0x306B, 0x5931, 0x6557, 0x3057, 0x307E, 0x3057, 0x305F, 0xFF1A] @ ''{}'']),
   (UnexpectedError, [utf8 [0x53D1, 0x751F, 0x5185, 0x90E8, 0x9519, 0x8BEF, 0xFF0C, 0x8BF7, 0x7A0D, 0x540E, 0x91CD,
     0x8BD5, 0x6216, 0x8054, 0x7CFB, 0x7BA1, 0x7406, 0x5458, 0x3002],
     ''An internal error occurred. Try again later or contact an administrator.'', utf8 [0x767C, 0x751F, 0x5167,
     0x90E8, 0x932F, 0x8AA4, 0xFF0C, 0x8ACB, 0x7A0D, 0x5F8C, 0x91CD, 0x8A66, 0x6216, 0x806F, 0x7D61, 0x7BA1, 0x7406,
     0x54E1, 0x3002], utf8 [0x5185, 0x90E8, 0x30A8, 0x30E9, 0x30FC, 0x304C, 0x767A, 0x751F, 0x3057, 0x307E, 0x3057,
     0x305F, 0x3002, 0x5F8C, 0x3067, 0x3082, 0x3046, 0x4E00, 0x5EA6, 0x8A66, 0x3059, 0x304B, 0x3001, 0x7BA1, 0x7406,
     0x8005, 0x306B, 0x9023, 0x7D61, 0x3057, 0x3066, 0x304F, 0x3060, 0x3055, 0x3044, 0x3002]]),
   (RecoveryCannotUse, [utf8 [0x8BE5, 0x7269, 0x54C1, 0x6B63, 0x5728, 0x6062, 0x590D, 0xFF0C, 0x6682, 0x65F6, 0x4E0D,
     0x80FD, 0x4F7F, 0x7528, 0x3002], ''This item is being recovered and cannot be used yet.'', utf8 [0x8A72, 0x7269,
     0x54C1, 0x6B63, 0x5728, 0x6062, 0x5FA9, 0xFF0C, 0x66AB, 0x6642, 0x4E0D, 0x80FD, 0x4F7F, 0x7528, 0x3002], utf8
     [0x3053, 0x306E, 0x30A2, 0x30A4, 0x30C6, 0x30E0, 0x306F, 0x5FA9, 0x5143, 0x4E2D, 0x306E, 0x305F, 0x3081, 0x3001,
     0x307E, 0x3060, 0x4F7F, 0x7528, 0x3067, 0x304D, 0x307E, 0x305B, 0x3093, 0x3002]]),
   (RecoveryCannotDrop, [utf8 [0x8BE5, 0x7269, 0x54C1, 0x6B63, 0x5728, 0x6062, 0x590D, 0xFF0C, 0x6682, 0x65F6, 0x4E0D,
     0x80FD, 0x4E22, 0x5F03, 0x3002], ''This item is being recovered and cannot be dropped yet.'', utf8 [0x8A72,
     0x7269, 0x54C1, 0x6B63, 0x5728, 0x6062, 0x5FA9, 0xFF0C, 0x66AB, 0x6642, 0x4E0D, 0x80FD, 0x4E1F, 0x68C4, 0x3002],
     utf8 [0x3053, 0x306E, 0x30A2, 0x30A4, 0x30C6, 0x30E0, 0x306F, 0x5FA9, 0x5143, 0x4E2D, 0x306E, 0x305F, 0x3081,
     0x3001, 0x307E, 0x3060, 0x6368, 0x3066, 0x3089, 0x308C, 0x307E, 0x305B, 0x3093, 0x3002]]),
   (HologramNotTarget, [utf8 [0x4EA4, 0x6613, 0x63D0, 0x793A, 0x4E0D, 0x662F, 0x53EF, 0x4EA4, 0x6613, 0x76EE, 0x6807,
     0x3002], ''The exchange label is not a trade target.'', utf8 [0x4EA4, 0x6613, 0x63D0, 0x793A, 0x4E0D, 0x662F,
     0x53EF, 0x4EA4, 0x6613, 0x76EE, 0x6A19, 0x3002], utf8 [0x53D6, 0x5F15, 0x8868, 0x793A, 0x305D, 0x306E, 0x3082,
     0x306E, 0x306F, 0x53D6, 0x5F15, 0x5BFE, 0x8C61, 0x3067, 0x306F, 0x3042, 0x308A, 0x307E, 0x305B, 0x3093, 0x3002]]),
   (BlockNoItem, [utf8 [0x8BE5, 0x65B9, 0x5757, 0x6CA1, 0x6709, 0x53EF, 0x4EA4, 0x4ED8, 0x7684, 0x5BF9, 0x5E94,
     0x7269, 0x54C1, 0xFF0C, 0x4E0D, 0x80FD, 0x8BBE, 0x4E3A, 0x53EF, 0x4EA4, 0x6613, 0x3002],
     ''This block has no deliverable item and cannot become an exchange point.'', utf8 [0x8A72, 0x65B9, 0x584A,
     0x6C92, 0x6709, 0x53EF, 0x4EA4, 0x4ED8, 0x7684, 0x5C0D, 0x61C9, 0x7269, 0x54C1, 0xFF0C, 0x4E0D, 0x80FD, 0x8A2D,
     0x70BA, 0x53EF, 0x4EA4, 0x6613, 0x3002], utf8 [0x3053, 0x306E, 0x30D6, 0x30ED, 0x30C3, 0x30AF, 0x306B, 0x306F,
     0x6E21, 0x305B, 0x308B, 0x5BFE, 0x5FDC, 0x30A2, 0x30A4, 0x30C6, 0x30E0, 0x304C, 0x306A, 0x3044, 0x305F, 0x3081,
     0x3001, 0x53D6, 0x5F15, 0x5730, 0x70B9, 0x306B, 0x3067, 0x304D, 0x307E, 0x305B, 0x3093, 0x3002]]),
   (ObjectEnabled, [utf8 [0xA7] @ ''a'' @ utf8 [0x5DF2, 0x5C06, 0x8BE5, 0x7269, 0x4F53, 0x8BBE, 0x4E3A, 0x53EF,
     0x4EA4, 0x6613, 0xFF1A, 0xA7] @ ''f{}'' @ utf8 [0xA7] @ ''r'', utf8 [0xA7] @ ''aThis object is now tradable: '' @
     utf8 [0xA7] @ ''f{}'' @ utf8 [0xA7] @ ''r'', utf8 [0xA7] @ ''a'' @ utf8 [0x5DF2, 0x5C07, 0x8A72, 0x7269, 0x9AD4,
     0x8A2D, 0x70BA, 0x53EF, 0x4EA4, 0x6613, 0xFF1A, 0xA7] @ ''f{}'' @ utf8 [0xA7] @ ''r'', utf8 [0xA7] @ ''a'' @ utf8
     [0x3053, 0x306E, 0x5BFE, 0x8C61, 0x3092, 0x53D6, 0x5F15, 0x53EF, 0x80FD, 0x306B, 0x3057, 0x307E, 0x3057, 0x305F,
     0xFF1A, 0xA7] @ ''f{}'' @ utf8 [0xA7] @ ''r'']),
   (ActivationFailed, [utf8 [0x5F00, 0x542F, 0x4EA4, 0x6613, 0x5931, 0x8D25, 0xFF1A] @ ''{}'',
     ''Could not create the exchange point: {}'', utf8 [0x958B, 0x555F, 0x4EA4, 0x6613, 0x5931, 0x6557, 0xFF1A] @
     ''{}'', utf8 [0x53D6, 0x5F15, 0x5730, 0x70B9, 0x3092, 0x4F5C, 0x6210, 0x3067, 0x304D, 0x307E, 0x305B, 0x3093,
     0x3067, 0x3057, 0x305F, 0xFF1A] @ ''{}''])]"

definition translations_3 :: catalogue where
  "translations_3 = [
   (Message_FrameCanceled, [utf8 [0xA7] @ ''e'' @ utf8 [0x5DF2, 0x53D6, 0x6D88, 0x5C55, 0x793A, 0x6846, 0x7684,
     0x53EF, 0x4EA4, 0x6613, 0x8BBE, 0x7F6E, 0x3002, 0xA7] @ ''r'', utf8 [0xA7] @
     ''eCanceled the item-frame exchange setup.'' @ utf8 [0xA7] @ ''r'', utf8 [0xA7] @ ''e'' @ utf8 [0x5DF2, 0x53D6,
     0x6D88, 0x5C55, 0x793A, 0x6846, 0x7684, 0x53EF, 0x4EA4, 0x6613, 0x8A2D, 0x5B9A, 0x3002, 0xA7] @ ''r'', utf8
     [0xA7] @ ''e'' @ utf8 [0x984D, 0x7E01, 0x306E, 0x53D6, 0x5F15, 0x8A2D, 0x5B9A, 0x3092, 0x30AD, 0x30E3, 0x30F3,
     0x30BB, 0x30EB, 0x3057, 0x307E, 0x3057, 0x305F, 0x3002, 0xA7] @ ''r'']),
   (WorldNotLoaded, [utf8 [0x4E16, 0x754C, 0x5C1A, 0x672A, 0x52A0, 0x8F7D, 0x3002], ''The world is not loaded yet.'',
     utf8 [0x4E16, 0x754C, 0x5C1A, 0x672A, 0x8F09, 0x5165, 0x3002], utf8 [0x30EF, 0x30FC, 0x30EB, 0x30C9, 0x306F,
     0x307E, 0x3060, 0x8AAD, 0x307F, 0x8FBC, 0x307E, 0x308C, 0x3066, 0x3044, 0x307E, 0x305B, 0x3093, 0x3002]]),
   (FrameReadFailed, [utf8 [0x65E0, 0x6CD5, 0x8BFB, 0x53D6, 0x5C55, 0x793A, 0x6846, 0x5185, 0x5BB9, 0x3002],
     ''Could not read the item frame.'', utf8 [0x7121, 0x6CD5, 0x8B80, 0x53D6, 0x5C55, 0x793A, 0x6846, 0x5167, 0x5BB9,
     0x3002], utf8 [0x984D, 0x7E01, 0x306E, 0x5185, 0x5BB9, 0x3092, 0x8AAD, 0x307F, 0x53D6, 0x308C, 0x307E, 0x305B,
     0x3093, 0x3067, 0x3057, 0x305F, 0x3002]]),
   (FrameReading, [utf8 [0xA7] @ ''e'' @ utf8 [0x6B63, 0x5728, 0x8BFB, 0x53D6, 0x5C55, 0x793A, 0x6846, 0x5185, 0x5BB9,
     0xFF0C, 0x7EA6] @ '' 4 '' @ utf8 [0x79D2, 0x540E, 0x5B8C, 0x6210, 0x8BBE, 0x7F6E, 0xFF1B, 0x518D, 0x6B21, 0x53F3,
     0x51FB, 0x53EF, 0x53D6, 0x6D88, 0x3002, 0xA7] @ ''r'', utf8 [0xA7] @
     ''eReading the item frame. Setup takes about 4 seconds; right-click again to cancel.'' @ utf8 [0xA7] @ ''r'',
     utf8 [0xA7] @ ''e'' @ utf8 [0x6B63, 0x5728, 0x8B80, 0x53D6, 0x5C55, 0x793A, 0x6846, 0x5167, 0x5BB9, 0xFF0C,
     0x7D04] @ '' 4 '' @ utf8 [0x79D2, 0x5F8C, 0x5B8C, 0x6210, 0x8A2D, 0x5B9A, 0xFF1B, 0x518D, 0x6B21, 0x53F3, 0x64CA,
     0x53EF, 0x53D6, 0x6D88, 0x3002, 0xA7] @ ''r'', utf8 [0xA7] @ ''e'' @ utf8 [0x984D, 0x7E01, 0x3092, 0x8AAD,
     0x307F, 0x53D6, 0x3063, 0x3066, 0x3044, 0x307E, 0x3059, 0x3002, 0x7D04] @ ''4'' @ utf8 [0x79D2, 0x3067, 0x8A2D,
     0x5B9A, 0x3055, 0x308C, 0x307E, 0x3059, 0x3002, 0x3082, 0x3046, 0x4E00, 0x5EA6, 0x53F3, 0x30AF, 0x30EA, 0x30C3,
     0x30AF, 0x3059, 0x308B, 0x3068, 0x30AD, 0x30E3, 0x30F3, 0x30BB, 0x30EB, 0x3067, 0x304D, 0x307E, 0x3059, 0x3002,
     0xA7] @ ''r'']),
   (FrameMissing, [utf8 [0x5C55, 0x793A, 0x6846, 0x5DF2, 0x4E0D, 0x5B58, 0x5728, 0x3002],
     ''The item frame no longer exists.'', utf8 [0x5C55, 0x793A, 0x6846, 0x5DF2, 0x4E0D, 0x5B58, 0x5728, 0x3002], utf8
     [0x984D, 0x7E01, 0x306F, 0x3059, 0x3067, 0x306B, 0x5B58, 0x5728, 0x3057, 0x307E, 0x305B, 0x3093, 0x3002]]),
   (FrameNoItem, [utf8 [0x5C55, 0x793A, 0x6846, 0x6CA1, 0x6709, 0x53EF, 0x4EA4, 0x4ED8, 0x7684, 0x5BF9, 0x5E94,
     0x7269, 0x54C1, 0x3002], ''The item frame has no deliverable item.'', utf8 [0x5C55, 0x793A, 0x6846, 0x6C92,
     0x6709, 0x53EF, 0x4EA4, 0x4ED8, 0x7684, 0x5C0D, 0x61C9, 0x7269, 0x54C1, 0x3002], utf8 [0x984D, 0x7E01, 0x306B,
     0x306F, 0x6E21, 0x305B, 0x308B, 0x5BFE, 0x5FDC, 0x30A2, 0x30A4, 0x30C6, 0x30E0, 0x304C, 0x3042, 0x308A, 0x307E,
     0x305B, 0x3093, 0x3002]]),
   (FrameEnabled, [utf8 [0xA7] @ ''a'' @ utf8 [0x5DF2, 0x5C06, 0x5C55, 0x793A, 0x6846, 0x8BBE, 0x4E3A, 0x53EF, 0x4EA4,
     0x6613, 0xFF1A, 0xA7] @ ''f{}'' @ utf8 [0xA7] @ ''r'', utf8 [0xA7] @ ''aThe item frame is now tradable: '' @ utf8
     [0xA7] @ ''f{}'' @ utf8 [0xA7] @ ''r'', utf8 [0xA7] @ ''a'' @ utf8 [0x5DF2, 0x5C07, 0x5C55, 0x793A, 0x6846,
     0x8A2D, 0x70BA, 0x53EF, 0x4EA4, 0x6613, 0xFF1A, 0xA7] @ ''f{}'' @ utf8 [0xA7] @ ''r'', utf8 [0xA7] @ ''a'' @ utf8
     [0x984D, 0x7E01, 0x3092, 0x53D6, 0x5F15, 0x53EF, 0x80FD, 0x306B, 0x3057, 0x307E, 0x3057, 0x305F, 0xFF1A, 0xA7] @
     ''f{}'' @ utf8 [0xA7] @ ''r'']),
   (FrameActivationFailed, [utf8 [0x5F00, 0x542F, 0x5C55, 0x793A, 0x6846, 0x4EA4, 0x6613, 0x5931, 0x8D25, 0xFF1A] @
     ''{}'', ''Could not create the item-frame exchange point: {}'', utf8 [0x958B, 0x555F, 0x5C55, 0x793A, 0x6846,
     0x4EA4, 0x6613, 0x5931, 0x6557, 0xFF1A] @ ''{}'', utf8 [0x984D, 0x7E01, 0x306E, 0x53D6, 0x5F15, 0x5730, 0x70B9,
     0x3092, 0x4F5C, 0x6210, 0x3067, 0x304D, 0x307E, 0x305B, 0x3093, 0x3067, 0x3057, 0x305F, 0xFF1A] @ ''{}'']),
   (FrameSaleBusy, [utf8 [0x8FD9, 0x4E2A, 0x5C55, 0x793A, 0x6846, 0x6B63, 0x5728, 0x5904, 0x7406, 0x4E2D, 0xFF0C,
     0x8BF7, 0x7A0D, 0x540E, 0x518D, 0x8BD5, 0x3002], ''This item frame is busy. Try again shortly.'', utf8 [0x9019,
     0x500B, 0x5C55, 0x793A, 0x6846, 0x6B63, 0x5728, 0x8655, 0x7406, 0x4E2D, 0xFF0C, 0x8ACB, 0x7A0D, 0x5F8C, 0x518D,
     0x8A66, 0x3002], utf8 [0x3053, 0x306E, 0x984D, 0x7E01, 0x306F, 0x51E6, 0x7406, 0x4E2D, 0x3067, 0x3059, 0x3002,
     0x5C11, 0x3057, 0x5F85, 0x3063, 0x3066, 0x304B, 0x3089, 0x518D, 0x8A66, 0x884C, 0x3057, 0x3066, 0x304F, 0x3060,
     0x3055, 0x3044, 0x3002]]),
   (FrameSaleReading, [utf8 [0xA7] @ ''e'' @ utf8 [0x6B63, 0x5728, 0x6838, 0x5BF9, 0x5C55, 0x793A, 0x6846, 0x4E2D,
     0x7684, 0x7269, 0x54C1, 0xFF0C, 0x8BF7, 0x7A0D, 0x5019, 0x3002, 0xA7] @ ''r'', utf8 [0xA7] @
     ''eChecking the item in the frame. Please wait.'' @ utf8 [0xA7] @ ''r'', utf8 [0xA7] @ ''e'' @ utf8 [0x6B63,
     0x5728, 0x6838, 0x5C0D, 0x5C55, 0x793A, 0x6846, 0x4E2D, 0x7684, 0x7269, 0x54C1, 0xFF0C, 0x8ACB, 0x7A0D, 0x5019,
     0x3002, 0xA7] @ ''r'', utf8 [0xA7] @ ''e'' @ utf8 [0x984D, 0x7E01, 0x5185, 0x306E, 0x30A2, 0x30A4, 0x30C6,
     0x30E0, 0x3092, 0x78BA, 0x8A8D, 0x3057, 0x3066, 0x3044, 0x307E, 0x3059, 0x3002, 0xA7] @ ''r'']),
   (FrameSaleMarketConflict, [utf8 [0x8BE5, 0x5C55, 0x793A, 0x6846, 0x5DF2, 0x7ECF, 0x662F] @ '' exchanger '' @ utf8
     [0x4EA4, 0x6613, 0x70B9, 0xFF0C, 0x4E0D, 0x80FD, 0x540C, 0x65F6, 0x6302, 0x724C, 0x51FA, 0x552E, 0x3002],
     ''This frame is already an exchanger market and cannot also be listed for sale.'', utf8 [0x8A72, 0x5C55, 0x793A,
     0x6846, 0x5DF2, 0x7D93, 0x662F] @ '' exchanger '' @ utf8 [0x4EA4, 0x6613, 0x9EDE, 0xFF0C, 0x4E0D, 0x80FD, 0x540C,
     0x6642, 0x639B, 0x724C, 0x51FA, 0x552E, 0x3002], utf8 [0x3053, 0x306E, 0x984D, 0x7E01, 0x306F, 0x3059, 0x3067,
     0x306B] @ '' exchanger '' @ utf8 [0x53D6, 0x5F15, 0x5730, 0x70B9, 0x306E, 0x305F, 0x3081, 0x3001, 0x540C, 0x6642,
     0x306B, 0x51FA, 0x54C1, 0x3067, 0x304D, 0x307E, 0x305B, 0x3093, 0x3002]]),
   (FrameSaleOwnedByOther, [utf8 [0x8BE5, 0x7269, 0x54C1, 0x7531, 0x5176, 0x4ED6, 0x73A9, 0x5BB6, 0x6302, 0x724C,
     0xFF0C, 0x53EA, 0x6709, 0x5356, 0x5BB6, 0x6216] @ '' OP '' @ utf8 [0x53EF, 0x4EE5, 0x4FEE, 0x6539, 0x3002],
     ''Another player owns this listing; only the seller or an operator can change it.'', utf8 [0x8A72, 0x7269,
     0x54C1, 0x7531, 0x5176, 0x4ED6, 0x73A9, 0x5BB6, 0x639B, 0x724C, 0xFF0C, 0x53EA, 0x6709, 0x8CE3, 0x5BB6, 0x6216] @
     '' OP '' @ utf8 [0x53EF, 0x4EE5, 0x4FEE, 0x6539, 0x3002], utf8 [0x3053, 0x306E, 0x51FA, 0x54C1, 0x306F, 0x5225,
     0x306E, 0x30D7, 0x30EC, 0x30A4, 0x30E4, 0x30FC, 0x306E, 0x3082, 0x306E, 0x3067, 0x3059, 0x3002, 0x5909, 0x66F4,
     0x3067, 0x304D, 0x308B, 0x306E, 0x306F, 0x51FA, 0x54C1, 0x8005, 0x304B] @ '' OP '' @ utf8 [0x3060, 0x3051,
     0x3067, 0x3059, 0x3002]]),
   (FrameSaleManageTitle, [utf8 [0x7BA1, 0x7406, 0x5C55, 0x793A, 0x6846, 0x6302, 0x724C], ''Manage frame listing'',
     utf8 [0x7BA1, 0x7406, 0x5C55, 0x793A, 0x6846, 0x639B, 0x724C], utf8 [0x984D, 0x7E01, 0x51FA, 0x54C1, 0x306E,
     0x7BA1, 0x7406]]),
   (FrameSaleManageContent, [utf8 [0x7269, 0x54C1, 0xFF1A] @ ''{}'' @ [CHR 0x0A] @ utf8 [0x5F53, 0x524D, 0x4EF7,
     0x683C, 0xFF1A] @ ''{}'' @ [CHR 0x0A] @ utf8 [0x5356, 0x5BB6, 0xFF1A] @ ''{}'', ''Item: {}'' @ [CHR 0x0A] @
     ''Current price: {}'' @ [CHR 0x0A] @ ''Seller: {}'', utf8 [0x7269, 0x54C1, 0xFF1A] @ ''{}'' @ [CHR 0x0A] @ utf8
     [0x76EE, 0x524D, 0x50F9, 0x683C, 0xFF1A] @ ''{}'' @ [CHR 0x0A] @ utf8 [0x8CE3, 0x5BB6, 0xFF1A] @ ''{}'', utf8
     [0x30A2, 0x30A4, 0x30C6, 0x30E0, 0xFF1A] @ ''{}'' @ [CHR 0x0A] @ utf8 [0x73FE, 0x5728, 0x4FA1, 0x683C, 0xFF1A] @
     ''{}'' @ [CHR 0x0A] @ utf8 [0x51FA, 0x54C1, 0x8005, 0xFF1A] @ ''{}'']),
   (FrameSaleChangePrice, [utf8 [0x4FEE, 0x6539, 0x4EF7, 0x683C], ''Change price'', utf8 [0x4FEE, 0x6539, 0x50F9,
     0x683C], utf8 [0x4FA1, 0x683C, 0x3092, 0x5909, 0x66F4]]),
   (FrameSaleCancelButton, [utf8 [0x53D6, 0x6D88, 0x6302, 0x724C], ''Cancel listing'', utf8 [0x53D6, 0x6D88, 0x639B,
     0x724C], utf8 [0x51FA, 0x54C1, 0x3092, 0x53D6, 0x308A, 0x6D88, 0x3059]])]"

definition translations_4 :: catalogue where
  "translations_4 = [
   (FrameSaleCanceled, [utf8 [0xA7] @ ''e'' @ utf8 [0x5DF2, 0x53D6, 0x6D88, 0x8BE5, 0x5C55, 0x793A, 0x6846, 0x7684,
     0x6302, 0x724C, 0x3002, 0xA7] @ ''r'', utf8 [0xA7] @ ''eThe frame listing was canceled.'' @ utf8 [0xA7] @ ''r'',
     utf8 [0xA7] @ ''e'' @ utf8 [0x5DF2, 0x53D6, 0x6D88, 0x8A72, 0x5C55, 0x793A, 0x6846, 0x7684, 0x639B, 0x724C,
     0x3002, 0xA7] @ ''r'', utf8 [0xA7] @ ''e'' @ utf8 [0x984D, 0x7E01, 0x306E, 0x51FA, 0x54C1, 0x3092, 0x53D6,
     0x308A, 0x6D88, 0x3057, 0x307E, 0x3057, 0x305F, 0x3002, 0xA7] @ ''r'']),
   (FrameSalePriceTitle, [utf8 [0x8BBE, 0x7F6E, 0x5C55, 0x793A, 0x6846, 0x4EF7, 0x683C], ''Set frame price'', utf8
     [0x8A2D, 0x5B9A, 0x5C55, 0x793A, 0x6846, 0x50F9, 0x683C], utf8 [0x984D, 0x7E01, 0x306E, 0x4FA1, 0x683C, 0x8A2D,
     0x5B9A]]),
   (FrameSalePricePrompt, [''{}'' @ [CHR 0x0A] @ utf8 [0x8F93, 0x5165, 0x6574, 0x6570, 0x4EF7, 0x683C, 0xFF08] @
     ''{}'' @ utf8 [0xFF5E] @ ''{}'' @ utf8 [0xFF09, 0xFF1A], ''{}'' @ [CHR 0x0A] @ ''Enter a whole-number price ({}''
     @ utf8 [0x2013] @ ''{}):'', ''{}'' @ [CHR 0x0A] @ utf8 [0x8F38, 0x5165, 0x6574, 0x6578, 0x50F9, 0x683C, 0xFF08] @
     ''{}'' @ utf8 [0xFF5E] @ ''{}'' @ utf8 [0xFF09, 0xFF1A], ''{}'' @ [CHR 0x0A] @ utf8 [0x6574, 0x6570, 0x4FA1,
     0x683C, 0x3092, 0x5165, 0x529B, 0x3057, 0x3066, 0x304F, 0x3060, 0x3055, 0x3044, 0xFF08] @ ''{}'' @ utf8 [0xFF5E]
     @ ''{}'' @ utf8 [0xFF09, 0xFF1A]]),
   (FrameSaleListed, [utf8 [0xA7] @ ''a'' @ utf8 [0x5DF2, 0x6302, 0x724C, 0xFF1A, 0xA7] @ ''f{} '' @ utf8 [0xA7] @
     ''a'' @ utf8 [0xFF0C, 0x4EF7, 0x683C] @ '' '' @ utf8 [0xA7] @ ''f{}'' @ utf8 [0xA7] @ ''r'', utf8 [0xA7] @
     ''aListed '' @ utf8 [0xA7] @ ''f{} '' @ utf8 [0xA7] @ ''afor '' @ utf8 [0xA7] @ ''f{}'' @ utf8 [0xA7] @ ''r'',
     utf8 [0xA7] @ ''a'' @ utf8 [0x5DF2, 0x639B, 0x724C, 0xFF1A, 0xA7] @ ''f{} '' @ utf8 [0xA7] @ ''a'' @ utf8
     [0xFF0C, 0x50F9, 0x683C] @ '' '' @ utf8 [0xA7] @ ''f{}'' @ utf8 [0xA7] @ ''r'', utf8 [0xA7] @ ''a'' @ utf8 [0xA7]
     @ ''f{} '' @ utf8 [0xA7] @ ''a'' @ utf8 [0x3092] @ '' '' @ utf8 [0xA7] @ ''f{} '' @ utf8 [0xA7] @ ''a'' @ utf8
     [0x3067, 0x51FA, 0x54C1, 0x3057, 0x307E, 0x3057, 0x305F, 0x3002, 0xA7] @ ''r'']),
   (FrameSaleBuyHint, [utf8 [0xA7] @ ''e'' @ utf8 [0x8BE5, 0x7269, 0x54C1, 0x552E, 0x4EF7] @ '' {}'' @ utf8 [0xFF1B,
     0x5DE6, 0x51FB, 0x5C55, 0x793A, 0x6846, 0x53EF, 0x786E, 0x8BA4, 0x8D2D, 0x4E70, 0x3002, 0xA7] @ ''r'', utf8
     [0xA7] @ ''eThis item costs {}. Left-click the frame to confirm purchase.'' @ utf8 [0xA7] @ ''r'', utf8 [0xA7] @
     ''e'' @ utf8 [0x8A72, 0x7269, 0x54C1, 0x552E, 0x50F9] @ '' {}'' @ utf8 [0xFF1B, 0x5DE6, 0x64CA, 0x5C55, 0x793A,
     0x6846, 0x53EF, 0x78BA, 0x8A8D, 0x8CFC, 0x8CB7, 0x3002, 0xA7] @ ''r'', utf8 [0xA7] @ ''e'' @ utf8 [0x4FA1,
     0x683C, 0x306F] @ '' {} '' @ utf8 [0x3067, 0x3059, 0x3002, 0x984D, 0x7E01, 0x3092, 0x5DE6, 0x30AF, 0x30EA,
     0x30C3, 0x30AF, 0x3057, 0x3066, 0x8CFC, 0x5165, 0x3092, 0x78BA, 0x8A8D, 0x3057, 0x3066, 0x304F, 0x3060, 0x3055,
     0x3044, 0x3002, 0xA7] @ ''r'']),
   (FrameSaleConfirmTitle, [utf8 [0x786E, 0x8BA4, 0x8D2D, 0x4E70] @ '' {}'', ''Buy {}?'', utf8 [0x78BA, 0x8A8D,
     0x8CFC, 0x8CB7] @ '' {}'', ''{} '' @ utf8 [0x3092, 0x8CFC, 0x5165, 0x3057, 0x307E, 0x3059, 0x304B, 0xFF1F]]),
   (FrameSaleConfirmContent, [utf8 [0x5356, 0x5BB6, 0xFF1A] @ ''{}'' @ [CHR 0x0A] @ utf8 [0x4EF7, 0x683C, 0xFF1A] @
     ''{}'' @ [CHR 0x0A] @ utf8 [0x4F60, 0x7684, 0x4F59, 0x989D, 0xFF1A] @ ''{}'' @ [CHR 0x0A] @ [CHR 0x0A] @ utf8
     [0x786E, 0x8BA4, 0x540E, 0x5C06, 0x7ACB, 0x5373, 0x6263, 0x6B3E, 0xFF0C, 0x7269, 0x54C1, 0x4F1A, 0x4ECE, 0x5C55,
     0x793A, 0x6846, 0x6389, 0x843D, 0x3002], ''Seller: {}'' @ [CHR 0x0A] @ ''Price: {}'' @ [CHR 0x0A] @
     ''Your balance: {}'' @ [CHR 0x0A] @ [CHR 0x0A] @ ''Confirmation charges immediately and drops the framed item.'',
     utf8 [0x8CE3, 0x5BB6, 0xFF1A] @ ''{}'' @ [CHR 0x0A] @ utf8 [0x50F9, 0x683C, 0xFF1A] @ ''{}'' @ [CHR 0x0A] @ utf8
     [0x4F60, 0x7684, 0x9918, 0x984D, 0xFF1A] @ ''{}'' @ [CHR 0x0A] @ [CHR 0x0A] @ utf8 [0x78BA, 0x8A8D, 0x5F8C,
     0x5C07, 0x7ACB, 0x5373, 0x6263, 0x6B3E, 0xFF0C, 0x7269, 0x54C1, 0x6703, 0x5F9E, 0x5C55, 0x793A, 0x6846, 0x6389,
     0x843D, 0x3002], utf8 [0x51FA, 0x54C1, 0x8005, 0xFF1A] @ ''{}'' @ [CHR 0x0A] @ utf8 [0x4FA1, 0x683C, 0xFF1A] @
     ''{}'' @ [CHR 0x0A] @ utf8 [0x6B8B, 0x9AD8, 0xFF1A] @ ''{}'' @ [CHR 0x0A] @ [CHR 0x0A] @ utf8 [0x78BA, 0x5B9A,
     0x3059, 0x308B, 0x3068, 0x5373, 0x6642, 0x306B, 0x652F, 0x6255, 0x3044, 0x3001, 0x984D, 0x7E01, 0x304B, 0x3089,
     0x30A2, 0x30A4, 0x30C6, 0x30E0, 0x304C, 0x30C9, 0x30ED, 0x30C3, 0x30D7, 0x3057, 0x307E, 0x3059, 0x3002]]),
   (FrameSaleConfirmButton, [utf8 [0xA7] @ ''a'' @ utf8 [0x786E, 0x8BA4, 0x652F, 0x4ED8, 0xA7] @ ''r'', utf8 [0xA7] @
     ''aConfirm payment'' @ utf8 [0xA7] @ ''r'', utf8 [0xA7] @ ''a'' @ utf8 [0x78BA, 0x8A8D, 0x652F, 0x4ED8, 0xA7] @
     ''r'', utf8 [0xA7] @ ''a'' @ utf8 [0x652F, 0x6255, 0x3044, 0x3092, 0x78BA, 0x5B9A, 0xA7] @ ''r'']),
   (FrameSaleDeclineButton, [utf8 [0x8FD4, 0x56DE], ''Back'', utf8 [0x8FD4, 0x56DE], utf8 [0x623B, 0x308B]]),
   (FrameSaleSelfPurchase, [utf8 [0x4E0D, 0x80FD, 0x8D2D, 0x4E70, 0x81EA, 0x5DF1, 0x6302, 0x724C, 0x7684, 0x7269,
     0x54C1, 0xFF1B, 0x8BF7, 0x7528] @ '' price '' @ utf8 [0x53F3, 0x51FB, 0x540E, 0x53D6, 0x6D88, 0x6302, 0x724C,
     0x3002], ''You cannot buy your own listing. Right-click it with price to cancel instead.'', utf8 [0x4E0D, 0x80FD,
     0x8CFC, 0x8CB7, 0x81EA, 0x5DF1, 0x639B, 0x724C, 0x7684, 0x7269, 0x54C1, 0xFF1B, 0x8ACB, 0x7528] @ '' price '' @
     utf8 [0x53F3, 0x64CA, 0x5F8C, 0x53D6, 0x6D88, 0x639B, 0x724C, 0x3002], utf8 [0x81EA, 0x5206, 0x306E, 0x51FA,
     0x54C1, 0x306F, 0x8CFC, 0x5165, 0x3067, 0x304D, 0x307E, 0x305B, 0x3093, 0x3002] @ ''price '' @ utf8 [0x3067,
     0x53F3, 0x30AF, 0x30EA, 0x30C3, 0x30AF, 0x3057, 0x3066, 0x53D6, 0x308A, 0x6D88, 0x3057, 0x3066, 0x304F, 0x3060,
     0x3055, 0x3044, 0x3002]]),
   (FrameSaleChanged, [utf8 [0x5C55, 0x793A, 0x6846, 0x4E2D, 0x7684, 0x7269, 0x54C1, 0x6216, 0x6302, 0x724C, 0x4EF7,
     0x683C, 0x5DF2, 0x7ECF, 0x53D8, 0x5316, 0xFF0C, 0x8BF7, 0x91CD, 0x65B0, 0x64CD, 0x4F5C, 0x3002],
     ''The framed item or listing price changed. Start again.'', utf8 [0x5C55, 0x793A, 0x6846, 0x4E2D, 0x7684, 0x7269,
     0x54C1, 0x6216, 0x639B, 0x724C, 0x50F9, 0x683C, 0x5DF2, 0x7D93, 0x8B8A, 0x5316, 0xFF0C, 0x8ACB, 0x91CD, 0x65B0,
     0x64CD, 0x4F5C, 0x3002], utf8 [0x984D, 0x7E01, 0x306E, 0x30A2, 0x30A4, 0x30C6, 0x30E0, 0x307E, 0x305F, 0x306F,
     0x4FA1, 0x683C, 0x304C, 0x5909, 0x66F4, 0x3055, 0x308C, 0x307E, 0x3057, 0x305F, 0x3002, 0x6700, 0x521D, 0x304B,
     0x3089, 0x3084, 0x308A, 0x76F4, 0x3057, 0x3066, 0x304F, 0x3060, 0x3055, 0x3044, 0x3002]]),
   (FrameSaleUnavailable, [utf8 [0x8BE5, 0x6302, 0x724C, 0x5DF2, 0x88AB, 0x53D6, 0x6D88, 0x6216, 0x552E, 0x51FA,
     0x3002], ''This listing was canceled or sold.'', utf8 [0x8A72, 0x639B, 0x724C, 0x5DF2, 0x88AB, 0x53D6, 0x6D88,
     0x6216, 0x552E, 0x51FA, 0x3002], utf8 [0x3053, 0x306E, 0x51FA, 0x54C1, 0x306F, 0x53D6, 0x308A, 0x6D88, 0x3055,
     0x308C, 0x305F, 0x304B, 0x3001, 0x3059, 0x3067, 0x306B, 0x58F2, 0x308C, 0x3066, 0x3044, 0x307E, 0x3059, 0x3002]]),
   (FrameSaleInsufficient, [''Exchange '' @ utf8 [0x4F59, 0x989D, 0x4E0D, 0x8DB3, 0xFF0C, 0x65E0, 0x6CD5, 0x652F,
     0x4ED8] @ '' {}'' @ utf8 [0x3002], ''Your Exchange balance is too low to pay {}.'', ''Exchange '' @ utf8 [0x9918,
     0x984D, 0x4E0D, 0x8DB3, 0xFF0C, 0x7121, 0x6CD5, 0x652F, 0x4ED8] @ '' {}'' @ utf8 [0x3002], ''Exchange '' @ utf8
     [0x6B8B, 0x9AD8, 0x304C, 0x4E0D, 0x8DB3, 0x3057, 0x3066, 0x3044, 0x308B, 0x305F, 0x3081] @ '' {} '' @ utf8
     [0x3092, 0x652F, 0x6255, 0x3048, 0x307E, 0x305B, 0x3093, 0x3002]]),
   (FrameSalePaidBuyer, [utf8 [0xA7] @ ''a'' @ utf8 [0x652F, 0x4ED8, 0x6210, 0x529F, 0xFF1A, 0xA7] @ ''f{} '' @ utf8
     [0xA7] @ ''a'' @ utf8 [0xFF0C, 0x7269, 0x54C1, 0x6B63, 0x5728, 0x6389, 0x843D, 0x3002, 0x5269, 0x4F59, 0x4F59,
     0x989D, 0xFF1A, 0xA7] @ ''f{}'' @ utf8 [0xA7] @ ''r'', utf8 [0xA7] @ ''aPayment complete: '' @ utf8 [0xA7] @
     ''f{}'' @ utf8 [0xA7] @ ''a. The item is dropping. Balance: '' @ utf8 [0xA7] @ ''f{}'' @ utf8 [0xA7] @ ''r'',
     utf8 [0xA7] @ ''a'' @ utf8 [0x652F, 0x4ED8, 0x6210, 0x529F, 0xFF1A, 0xA7] @ ''f{} '' @ utf8 [0xA7] @ ''a'' @ utf8
     [0xFF0C, 0x7269, 0x54C1, 0x6B63, 0x5728, 0x6389, 0x843D, 0x3002, 0x5269, 0x9918, 0x9918, 0x984D, 0xFF1A, 0xA7] @
     ''f{}'' @ utf8 [0xA7] @ ''r'', utf8 [0xA7] @ ''a'' @ utf8 [0xA7] @ ''f{} '' @ utf8 [0xA7] @ ''a'' @ utf8 [0x306E,
     0x652F, 0x6255, 0x3044, 0x304C, 0x5B8C, 0x4E86, 0x3057, 0x307E, 0x3057, 0x305F, 0x3002, 0x30A2, 0x30A4, 0x30C6,
     0x30E0, 0x3092, 0x30C9, 0x30ED, 0x30C3, 0x30D7, 0x4E2D, 0x3067, 0x3059, 0x3002, 0x6B8B, 0x9AD8, 0xFF1A, 0xA7] @
     ''f{}'' @ utf8 [0xA7] @ ''r''])]"

definition translations_5 :: catalogue where
  "translations_5 = [
   (FrameSalePaidSeller, [utf8 [0xA7] @ ''a{} '' @ utf8 [0x8D2D, 0x4E70, 0x4E86, 0x4F60, 0x7684] @ '' {}'' @ utf8
     [0xFF0C, 0x6536, 0x5165] @ '' {}'' @ utf8 [0x3002, 0x5F53, 0x524D, 0x4F59, 0x989D, 0xFF1A] @ ''{}'' @ utf8 [0xA7]
     @ ''r'', utf8 [0xA7] @ ''a{} bought your {} for {}. Your balance is now {}.'' @ utf8 [0xA7] @ ''r'', utf8 [0xA7]
     @ ''a{} '' @ utf8 [0x8CFC, 0x8CB7, 0x4E86, 0x4F60, 0x7684] @ '' {}'' @ utf8 [0xFF0C, 0x6536, 0x5165] @ '' {}'' @
     utf8 [0x3002, 0x76EE, 0x524D, 0x9918, 0x984D, 0xFF1A] @ ''{}'' @ utf8 [0xA7] @ ''r'', utf8 [0xA7] @ ''a{} '' @
     utf8 [0x304C, 0x3042, 0x306A, 0x305F, 0x306E] @ '' {} '' @ utf8 [0x3092] @ '' {} '' @ utf8 [0x3067, 0x8CFC,
     0x5165, 0x3057, 0x307E, 0x3057, 0x305F, 0x3002, 0x73FE, 0x5728, 0x6B8B, 0x9AD8, 0xFF1A] @ ''{}'' @ utf8 [0xA7] @
     ''r'']),
   (FrameSaleSettling, [utf8 [0xA7] @ ''e'' @ utf8 [0x8BE5, 0x7269, 0x54C1, 0x5DF2, 0x4ED8, 0x6B3E, 0xFF0C, 0x6B63,
     0x5728, 0x5B8C, 0x6210, 0x5B89, 0x5168, 0x6389, 0x843D, 0xFF0C, 0x8BF7, 0x7A0D, 0x5019, 0x3002, 0xA7] @ ''r'',
     utf8 [0xA7] @ ''eThis item is paid for and its safe drop is being completed.'' @ utf8 [0xA7] @ ''r'', utf8 [0xA7]
     @ ''e'' @ utf8 [0x8A72, 0x7269, 0x54C1, 0x5DF2, 0x4ED8, 0x6B3E, 0xFF0C, 0x6B63, 0x5728, 0x5B8C, 0x6210, 0x5B89,
     0x5168, 0x6389, 0x843D, 0xFF0C, 0x8ACB, 0x7A0D, 0x5019, 0x3002, 0xA7] @ ''r'', utf8 [0xA7] @ ''e'' @ utf8
     [0x652F, 0x6255, 0x3044, 0x6E08, 0x307F, 0x3067, 0x3059, 0x3002, 0x5B89, 0x5168, 0x306A, 0x30C9, 0x30ED, 0x30C3,
     0x30D7, 0x51E6, 0x7406, 0x3092, 0x5B8C, 0x4E86, 0x3057, 0x3066, 0x3044, 0x307E, 0x3059, 0x3002, 0xA7] @ ''r'']),
   (FrameSaleProtected, [utf8 [0x5DF2, 0x6302, 0x724C, 0x7684, 0x5C55, 0x793A, 0x6846, 0x53D7, 0x4FDD, 0x62A4, 0xFF1B,
     0x5DE6, 0x51FB, 0x53EF, 0x8D2D, 0x4E70, 0xFF0C, 0x5356, 0x5BB6, 0x53EF, 0x7528] @ '' price '' @ utf8 [0x53F3,
     0x51FB, 0x7BA1, 0x7406, 0x3002],
     ''Listed frames are protected. Left-click to buy; the seller can manage one with price.'', utf8 [0x5DF2, 0x639B,
     0x724C, 0x7684, 0x5C55, 0x793A, 0x6846, 0x53D7, 0x4FDD, 0x8B77, 0xFF1B, 0x5DE6, 0x64CA, 0x53EF, 0x8CFC, 0x8CB7,
     0xFF0C, 0x8CE3, 0x5BB6, 0x53EF, 0x7528] @ '' price '' @ utf8 [0x53F3, 0x64CA, 0x7BA1, 0x7406, 0x3002], utf8
     [0x51FA, 0x54C1, 0x4E2D, 0x306E, 0x984D, 0x7E01, 0x306F, 0x4FDD, 0x8B77, 0x3055, 0x308C, 0x3066, 0x3044, 0x307E,
     0x3059, 0x3002, 0x5DE6, 0x30AF, 0x30EA, 0x30C3, 0x30AF, 0x3067, 0x8CFC, 0x5165, 0x3001, 0x51FA, 0x54C1, 0x8005,
     0x306F] @ '' price '' @ utf8 [0x3067, 0x7BA1, 0x7406, 0x3067, 0x304D, 0x307E, 0x3059, 0x3002]]),
   (FrameSaleFailed, [utf8 [0x5C55, 0x793A, 0x6846, 0x4EA4, 0x6613, 0x5931, 0x8D25, 0xFF1A] @ ''{}'',
     ''Frame sale failed: {}'', utf8 [0x5C55, 0x793A, 0x6846, 0x4EA4, 0x6613, 0x5931, 0x6557, 0xFF1A] @ ''{}'', utf8
     [0x984D, 0x7E01, 0x53D6, 0x5F15, 0x306B, 0x5931, 0x6557, 0x3057, 0x307E, 0x3057, 0x305F, 0xFF1A] @ ''{}'']),
   (ActorNoItem, [utf8 [0x8BE5, 0x5B9E, 0x4F53, 0x6CA1, 0x6709, 0x53EF, 0x4EA4, 0x4ED8, 0x7684, 0x7269, 0x54C1,
     0x6216, 0x5237, 0x602A, 0x86CB, 0xFF0C, 0x4E0D, 0x80FD, 0x8BBE, 0x4E3A, 0x53EF, 0x4EA4, 0x6613, 0x3002],
     ''This entity has no deliverable item or spawn egg and cannot become an exchange point.'', utf8 [0x8A72, 0x5BE6,
     0x9AD4, 0x6C92, 0x6709, 0x53EF, 0x4EA4, 0x4ED8, 0x7684, 0x7269, 0x54C1, 0x6216, 0x751F, 0x602A, 0x86CB, 0xFF0C,
     0x4E0D, 0x80FD, 0x8A2D, 0x70BA, 0x53EF, 0x4EA4, 0x6613, 0x3002], utf8 [0x3053, 0x306E, 0x30A8, 0x30F3, 0x30C6,
     0x30A3, 0x30C6, 0x30A3, 0x306B, 0x306F, 0x6E21, 0x305B, 0x308B, 0x30A2, 0x30A4, 0x30C6, 0x30E0, 0x3084, 0x30B9,
     0x30DD, 0x30FC, 0x30F3, 0x30A8, 0x30C3, 0x30B0, 0x304C, 0x306A, 0x3044, 0x305F, 0x3081, 0x3001, 0x53D6, 0x5F15,
     0x5730, 0x70B9, 0x306B, 0x3067, 0x304D, 0x307E, 0x305B, 0x3093, 0x3002]]),
   (ActorEnabled, [utf8 [0xA7] @ ''a'' @ utf8 [0x5DF2, 0x5C06, 0x8BE5, 0x5B9E, 0x4F53, 0x8BBE, 0x4E3A, 0x53EF, 0x4EA4,
     0x6613, 0xFF1A, 0xA7] @ ''f{}'' @ utf8 [0xA7] @ ''r'', utf8 [0xA7] @ ''aThis entity is now tradable: '' @ utf8
     [0xA7] @ ''f{}'' @ utf8 [0xA7] @ ''r'', utf8 [0xA7] @ ''a'' @ utf8 [0x5DF2, 0x5C07, 0x8A72, 0x5BE6, 0x9AD4,
     0x8A2D, 0x70BA, 0x53EF, 0x4EA4, 0x6613, 0xFF1A, 0xA7] @ ''f{}'' @ utf8 [0xA7] @ ''r'', utf8 [0xA7] @ ''a'' @ utf8
     [0x3053, 0x306E, 0x30A8, 0x30F3, 0x30C6, 0x30A3, 0x30C6, 0x30A3, 0x3092, 0x53D6, 0x5F15, 0x53EF, 0x80FD, 0x306B,
     0x3057, 0x307E, 0x3057, 0x305F, 0xFF1A, 0xA7] @ ''f{}'' @ utf8 [0xA7] @ ''r'']),
   (MarketClosedPreserved, [utf8 [0xA7] @ ''e'' @ utf8 [0x4EA4, 0x6613, 0x70B9, 0x5DF2, 0x5173, 0x95ED, 0xFF1B,
     0x672A, 0x5B8C, 0x6210, 0x8BA2, 0x5355, 0x548C, 0x6682, 0x5B58, 0x7684, 0x4F59, 0x989D, 0x3001, 0x7269, 0x54C1,
     0x4FDD, 0x6301, 0x4E0D, 0x53D8, 0xFF0C, 0x91CD, 0x65B0, 0x5F00, 0x542F, 0x540C, 0x4E00, 0x79CD, 0x7269, 0x54C1,
     0x540E, 0x7EE7, 0x7EED, 0x4EA4, 0x6613, 0x3002, 0xA7] @ ''r'', utf8 [0xA7] @
     ''eThe exchange point is closed. Open orders, reserved balance, and stored items are preserved and resume when the same item is enabled again.''
     @ utf8 [0xA7] @ ''r'', utf8 [0xA7] @ ''e'' @ utf8 [0x4EA4, 0x6613, 0x9EDE, 0x5DF2, 0x95DC, 0x9589, 0xFF1B,
     0x672A, 0x5B8C, 0x6210, 0x8A02, 0x55AE, 0x548C, 0x66AB, 0x5B58, 0x7684, 0x9918, 0x984D, 0x3001, 0x7269, 0x54C1,
     0x4FDD, 0x6301, 0x4E0D, 0x8B8A, 0xFF0C, 0x91CD, 0x65B0, 0x958B, 0x555F, 0x540C, 0x4E00, 0x7A2E, 0x7269, 0x54C1,
     0x5F8C, 0x7E7C, 0x7E8C, 0x4EA4, 0x6613, 0x3002, 0xA7] @ ''r'', utf8 [0xA7] @ ''e'' @ utf8 [0x53D6, 0x5F15,
     0x5730, 0x70B9, 0x3092, 0x9589, 0x3058, 0x307E, 0x3057, 0x305F, 0x3002, 0x672A, 0x5B8C, 0x4E86, 0x306E, 0x6CE8,
     0x6587, 0x3001, 0x78BA, 0x4FDD, 0x6E08, 0x307F, 0x6B8B, 0x9AD8, 0x3001, 0x4FDD, 0x7BA1, 0x30A2, 0x30A4, 0x30C6,
     0x30E0, 0x306F, 0x4FDD, 0x6301, 0x3055, 0x308C, 0x3001, 0x540C, 0x3058, 0x30A2, 0x30A4, 0x30C6, 0x30E0, 0x3067,
     0x518D, 0x958B, 0x3059, 0x308B, 0x3068, 0x53D6, 0x5F15, 0x3092, 0x7D9A, 0x3051, 0x307E, 0x3059, 0x3002, 0xA7] @
     ''r'']),
   (MarketRemoved, [utf8 [0xA7] @ ''e'' @ utf8 [0x4EA4, 0x6613, 0x70B9, 0x5DF2, 0x79FB, 0x9664, 0xFF1B, 0x672A,
     0x5B8C, 0x6210, 0x8BA2, 0x5355, 0x5DF2, 0x53D6, 0x6D88, 0xFF0C, 0x4F59, 0x989D, 0x548C, 0x7269, 0x54C1, 0x5DF2,
     0x9000, 0x56DE, 0x6216, 0x7B49, 0x5F85, 0x9886, 0x53D6, 0x3002, 0xA7] @ ''r'', utf8 [0xA7] @
     ''eThe exchange point was removed. Open orders were canceled; balance and items were returned or are waiting to be claimed.''
     @ utf8 [0xA7] @ ''r'', utf8 [0xA7] @ ''e'' @ utf8 [0x4EA4, 0x6613, 0x9EDE, 0x5DF2, 0x79FB, 0x9664, 0xFF1B,
     0x672A, 0x5B8C, 0x6210, 0x8A02, 0x55AE, 0x5DF2, 0x53D6, 0x6D88, 0xFF0C, 0x9918, 0x984D, 0x548C, 0x7269, 0x54C1,
     0x5DF2, 0x9000, 0x56DE, 0x6216, 0x7B49, 0x5F85, 0x9818, 0x53D6, 0x3002, 0xA7] @ ''r'', utf8 [0xA7] @ ''e'' @ utf8
     [0x53D6, 0x5F15, 0x5730, 0x70B9, 0x3092, 0x524A, 0x9664, 0x3057, 0x307E, 0x3057, 0x305F, 0x3002, 0x672A, 0x5B8C,
     0x4E86, 0x306E, 0x6CE8, 0x6587, 0x306F, 0x53D6, 0x308A, 0x6D88, 0x3055, 0x308C, 0x3001, 0x6B8B, 0x9AD8, 0x3068,
     0x30A2, 0x30A4, 0x30C6, 0x30E0, 0x306F, 0x8FD4, 0x5374, 0x6E08, 0x307F, 0x3001, 0x307E, 0x305F, 0x306F, 0x53D7,
     0x3051, 0x53D6, 0x308A, 0x5F85, 0x3061, 0x3067, 0x3059, 0x3002, 0xA7] @ ''r'']),
   (MarketCloseFailed, [utf8 [0x5173, 0x95ED, 0x4EA4, 0x6613, 0x5931, 0x8D25, 0xFF1A] @ ''{}'',
     ''Could not close the exchange point: {}'', utf8 [0x95DC, 0x9589, 0x4EA4, 0x6613, 0x5931, 0x6557, 0xFF1A] @
     ''{}'', utf8 [0x53D6, 0x5F15, 0x5730, 0x70B9, 0x3092, 0x9589, 0x3058, 0x3089, 0x308C, 0x307E, 0x305B, 0x3093,
     0x3067, 0x3057, 0x305F, 0xFF1A] @ ''{}'']),
   (TradePointClosed, [utf8 [0x8FD9, 0x4E2A, 0x4EA4, 0x6613, 0x70B9, 0x5DF2, 0x7ECF, 0x5173, 0x95ED, 0x3002],
     ''This exchange point is closed.'', utf8 [0x9019, 0x500B, 0x4EA4, 0x6613, 0x9EDE, 0x5DF2, 0x7D93, 0x95DC, 0x9589,
     0x3002], utf8 [0x3053, 0x306E, 0x53D6, 0x5F15, 0x5730, 0x70B9, 0x306F, 0x9589, 0x3058, 0x3089, 0x308C, 0x3066,
     0x3044, 0x307E, 0x3059, 0x3002]]),
   (MatchingOrderGone, [utf8 [0x5BF9, 0x5E94, 0x7684, 0x8BA2, 0x5355, 0x5DF2, 0x7ECF, 0x6CA1, 0x6709, 0x4E86, 0xFF0C,
     0x8BF7, 0x91CD, 0x65B0, 0x9009, 0x62E9, 0x4EA4, 0x6613, 0x65B9, 0x5F0F, 0x3002],
     ''The matching orders are gone. Choose a trade method again.'', utf8 [0x5C0D, 0x61C9, 0x7684, 0x8A02, 0x55AE,
     0x5DF2, 0x7D93, 0x6C92, 0x6709, 0x4E86, 0xFF0C, 0x8ACB, 0x91CD, 0x65B0, 0x9078, 0x64C7, 0x4EA4, 0x6613, 0x65B9,
     0x5F0F, 0x3002], utf8 [0x5BFE, 0x5FDC, 0x3059, 0x308B, 0x6CE8, 0x6587, 0x304C, 0x306A, 0x304F, 0x306A, 0x308A,
     0x307E, 0x3057, 0x305F, 0x3002, 0x53D6, 0x5F15, 0x65B9, 0x6CD5, 0x3092, 0x9078, 0x3073, 0x76F4, 0x3057, 0x3066,
     0x304F, 0x3060, 0x3055, 0x3044, 0x3002]]),
   (BookWanted, [utf8 [0xA7] @ ''a'' @ utf8 [0x6709, 0x4EBA, 0x8981, 0x4E70, 0xA7] @ ''r'' @ [CHR 0x0A], utf8 [0xA7] @
     ''aPlayers want to buy'' @ utf8 [0xA7] @ ''r'' @ [CHR 0x0A], utf8 [0xA7] @ ''a'' @ utf8 [0x6709, 0x4EBA, 0x8981,
     0x8CB7, 0xA7] @ ''r'' @ [CHR 0x0A], utf8 [0xA7] @ ''a'' @ utf8 [0x8CFC, 0x5165, 0x5E0C, 0x671B, 0xA7] @ ''r'' @
     [CHR 0x0A]]),
   (BookForSale, [utf8 [0xA7] @ ''c'' @ utf8 [0x6709, 0x4EBA, 0x5728, 0x5356, 0xA7] @ ''r'' @ [CHR 0x0A], utf8 [0xA7]
     @ ''cPlayers are selling'' @ utf8 [0xA7] @ ''r'' @ [CHR 0x0A], utf8 [0xA7] @ ''c'' @ utf8 [0x6709, 0x4EBA,
     0x5728, 0x8CE3, 0xA7] @ ''r'' @ [CHR 0x0A], utf8 [0xA7] @ ''c'' @ utf8 [0x8CA9, 0x58F2, 0x4E2D, 0xA7] @ ''r'' @
     [CHR 0x0A]])]"

definition translations_6 :: catalogue where
  "translations_6 = [
   (TradeTitle, [utf8 [0x4EA4, 0x6613] @ '' '' @ utf8 [0xB7] @ '' {}'', ''Exchange '' @ utf8 [0xB7] @ '' {}'', utf8
     [0x4EA4, 0x6613] @ '' '' @ utf8 [0xB7] @ '' {}'', utf8 [0x53D6, 0x5F15] @ '' '' @ utf8 [0xB7] @ '' {}'']),
   (CurrentTrade, [utf8 [0x5F53, 0x524D, 0x4EA4, 0x6613], ''Available orders'', utf8 [0x76EE, 0x524D, 0x4EA4, 0x6613],
     utf8 [0x73FE, 0x5728, 0x306E, 0x6CE8, 0x6587]]),
   (BalanceLabel, [utf8 [0xA7] @ ''6'' @ utf8 [0x4F59, 0x989D, 0xFF1A, 0xA7] @ ''e{}'' @ utf8 [0xA7] @ ''r'', utf8
     [0xA7] @ ''6Balance: '' @ utf8 [0xA7] @ ''e{}'' @ utf8 [0xA7] @ ''r'', utf8 [0xA7] @ ''6'' @ utf8 [0x9918,
     0x984D, 0xFF1A, 0xA7] @ ''e{}'' @ utf8 [0xA7] @ ''r'', utf8 [0xA7] @ ''6'' @ utf8 [0x6B8B, 0x9AD8, 0xFF1A, 0xA7]
     @ ''e{}'' @ utf8 [0xA7] @ ''r'']),
   (SellableRequirements, [utf8 [0xA7] @ ''6'' @ utf8 [0x53EF, 0x51FA, 0x552E, 0xFF1A, 0xA7] @ ''e{} '' @ utf8
     [0x4EF6, 0xA7] @ ''r'' @ [CHR 0x0A] @ utf8 [0xA7] @ ''6'' @ utf8 [0x51FA, 0x552E, 0x8981, 0x6C42, 0xA7] @ ''r'' @
     [CHR 0x0A] @ ''{}'', utf8 [0xA7] @ ''6You can sell: '' @ utf8 [0xA7] @ ''e{}'' @ utf8 [0xA7] @ ''r'' @ [CHR 0x0A]
     @ utf8 [0xA7] @ ''6Item requirements'' @ utf8 [0xA7] @ ''r'' @ [CHR 0x0A] @ ''{}'', utf8 [0xA7] @ ''6'' @ utf8
     [0x53EF, 0x51FA, 0x552E, 0xFF1A, 0xA7] @ ''e{} '' @ utf8 [0x4EF6, 0xA7] @ ''r'' @ [CHR 0x0A] @ utf8 [0xA7] @
     ''6'' @ utf8 [0x51FA, 0x552E, 0x8981, 0x6C42, 0xA7] @ ''r'' @ [CHR 0x0A] @ ''{}'', utf8 [0xA7] @ ''6'' @ utf8
     [0x8CA9, 0x58F2, 0x53EF, 0x80FD, 0xFF1A, 0xA7] @ ''e{} '' @ utf8 [0x500B, 0xA7] @ ''r'' @ [CHR 0x0A] @ utf8
     [0xA7] @ ''6'' @ utf8 [0x30A2, 0x30A4, 0x30C6, 0x30E0, 0x6761, 0x4EF6, 0xA7] @ ''r'' @ [CHR 0x0A] @ ''{}'']),
   (TradeOverviewAccount, [utf8 [0xA7] @ ''6'' @ utf8 [0x4F59, 0x989D, 0xA7] @ ''r '' @ utf8 [0xA7] @ ''e{}'' @ utf8
     [0xA7] @ ''r  '' @ utf8 [0xB7] @ ''  '' @ utf8 [0xA7] @ ''6'' @ utf8 [0x53EF, 0x5356, 0xA7] @ ''r '' @ utf8
     [0xA7] @ ''e{} '' @ utf8 [0x4EF6, 0xA7] @ ''r'', utf8 [0xA7] @ ''6Balance'' @ utf8 [0xA7] @ ''r '' @ utf8 [0xA7]
     @ ''e{}'' @ utf8 [0xA7] @ ''r  '' @ utf8 [0xB7] @ ''  '' @ utf8 [0xA7] @ ''6Sellable'' @ utf8 [0xA7] @ ''r '' @
     utf8 [0xA7] @ ''e{}'' @ utf8 [0xA7] @ ''r'', utf8 [0xA7] @ ''6'' @ utf8 [0x9918, 0x984D, 0xA7] @ ''r '' @ utf8
     [0xA7] @ ''e{}'' @ utf8 [0xA7] @ ''r  '' @ utf8 [0xB7] @ ''  '' @ utf8 [0xA7] @ ''6'' @ utf8 [0x53EF, 0x8CE3,
     0xA7] @ ''r '' @ utf8 [0xA7] @ ''e{} '' @ utf8 [0x4EF6, 0xA7] @ ''r'', utf8 [0xA7] @ ''6'' @ utf8 [0x6B8B,
     0x9AD8, 0xA7] @ ''r '' @ utf8 [0xA7] @ ''e{}'' @ utf8 [0xA7] @ ''r  '' @ utf8 [0xB7] @ ''  '' @ utf8 [0xA7] @
     ''6'' @ utf8 [0x8CA9, 0x58F2, 0x53EF, 0x80FD, 0xA7] @ ''r '' @ utf8 [0xA7] @ ''e{} '' @ utf8 [0x500B, 0xA7] @
     ''r'']),
   (TradeOverviewRequirements, [utf8 [0xA7] @ ''6'' @ utf8 [0x7279, 0x6B8A, 0x8981, 0x6C42, 0xA7] @ ''r'', utf8 [0xA7]
     @ ''6Special requirements'' @ utf8 [0xA7] @ ''r'', utf8 [0xA7] @ ''6'' @ utf8 [0x7279, 0x6B8A, 0x8981, 0x6C42,
     0xA7] @ ''r'', utf8 [0xA7] @ ''6'' @ utf8 [0x7279, 0x5225, 0x306A, 0x6761, 0x4EF6, 0xA7] @ ''r'']),
   (ChooseTradeAction, [utf8 [0x9009, 0x62E9, 0x4EA4, 0x6613, 0x65B9, 0x5F0F], ''Choose how to trade'', utf8 [0x9078,
     0x64C7, 0x4EA4, 0x6613, 0x65B9, 0x5F0F], utf8 [0x53D6, 0x5F15, 0x65B9, 0x6CD5, 0x3092, 0x9078, 0x629E]]),
   (DirectBuySubtitle, [[CHR 0x0A] @ utf8 [0x6309, 0x5F53, 0x524D, 0x51FA, 0x552E, 0x4EF7, 0x683C, 0x8D2D, 0x4E70],
     [CHR 0x0A] @ ''Buy at current selling prices'', [CHR 0x0A] @ utf8 [0x6309, 0x76EE, 0x524D, 0x51FA, 0x552E,
     0x50F9, 0x683C, 0x8CFC, 0x8CB7], [CHR 0x0A] @ utf8 [0x73FE, 0x5728, 0x306E, 0x8CA9, 0x58F2, 0x4FA1, 0x683C,
     0x3067, 0x8CFC, 0x5165]]),
   (DirectSellSubtitle, [[CHR 0x0A] @ utf8 [0x6309, 0x5F53, 0x524D, 0x6536, 0x8D2D, 0x4EF7, 0x683C, 0x51FA, 0x552E],
     [CHR 0x0A] @ ''Sell at current buying prices'', [CHR 0x0A] @ utf8 [0x6309, 0x76EE, 0x524D, 0x6536, 0x8CFC,
     0x50F9, 0x683C, 0x51FA, 0x552E], [CHR 0x0A] @ utf8 [0x73FE, 0x5728, 0x306E, 0x8CFC, 0x5165, 0x4FA1, 0x683C,
     0x3067, 0x8CA9, 0x58F2]]),
   (NoDirectBuy, [utf8 [0x5F53, 0x524D, 0x6CA1, 0x6709, 0x4EBA, 0x5728, 0x51FA, 0x552E, 0xFF0C, 0x6682, 0x4E0D,
     0x663E, 0x793A, 0x76F4, 0x63A5, 0x8D2D, 0x4E70, 0x3002], ''Nobody is selling now, so Buy now is hidden.'', utf8
     [0x76EE, 0x524D, 0x6C92, 0x6709, 0x4EBA, 0x5728, 0x51FA, 0x552E, 0xFF0C, 0x66AB, 0x4E0D, 0x986F, 0x793A, 0x76F4,
     0x63A5, 0x8CFC, 0x8CB7, 0x3002], utf8 [0x73FE, 0x5728, 0x8CA9, 0x58F2, 0x4E2D, 0x306E, 0x4EBA, 0x304C, 0x3044,
     0x306A, 0x3044, 0x305F, 0x3081, 0x3001, 0x300C, 0x3059, 0x3050, 0x8CFC, 0x5165, 0x300D, 0x306F, 0x8868, 0x793A,
     0x3055, 0x308C, 0x307E, 0x305B, 0x3093, 0x3002]]),
   (NoDirectSell, [utf8 [0x5F53, 0x524D, 0x6CA1, 0x6709, 0x4EBA, 0x5728, 0x6536, 0x8D2D, 0xFF0C, 0x6682, 0x4E0D,
     0x663E, 0x793A, 0x76F4, 0x63A5, 0x51FA, 0x552E, 0x3002], ''Nobody is buying now, so Sell now is hidden.'', utf8
     [0x76EE, 0x524D, 0x6C92, 0x6709, 0x4EBA, 0x5728, 0x6536, 0x8CFC, 0xFF0C, 0x66AB, 0x4E0D, 0x986F, 0x793A, 0x76F4,
     0x63A5, 0x51FA, 0x552E, 0x3002], utf8 [0x73FE, 0x5728, 0x8CFC, 0x5165, 0x5E0C, 0x671B, 0x8005, 0x304C, 0x3044,
     0x306A, 0x3044, 0x305F, 0x3081, 0x3001, 0x300C, 0x3059, 0x3050, 0x8CA9, 0x58F2, 0x300D, 0x306F, 0x8868, 0x793A,
     0x3055, 0x308C, 0x307E, 0x305B, 0x3093, 0x3002]]),
   (OpenTradeFailed, [utf8 [0x6253, 0x5F00, 0x4EA4, 0x6613, 0x754C, 0x9762, 0x5931, 0x8D25, 0xFF1A] @ ''{}'',
     ''Could not open the exchange screen: {}'', utf8 [0x958B, 0x555F, 0x4EA4, 0x6613, 0x4ECB, 0x9762, 0x5931, 0x6557,
     0xFF1A] @ ''{}'', utf8 [0x53D6, 0x5F15, 0x753B, 0x9762, 0x3092, 0x958B, 0x3051, 0x307E, 0x305B, 0x3093, 0x3067,
     0x3057, 0x305F, 0xFF1A] @ ''{}'']),
   (QuantityInput, [utf8 [0x6570, 0x91CF, 0xFF08] @ ''1 '' @ utf8 [0x81F3] @ '' {}'' @ utf8 [0xFF09],
     ''Quantity (1 to {})'', utf8 [0x6578, 0x91CF, 0xFF08] @ ''1 '' @ utf8 [0x81F3] @ '' {}'' @ utf8 [0xFF09], utf8
     [0x6570, 0x91CF, 0xFF08] @ ''1'' @ utf8 [0xFF5E] @ ''{}'' @ utf8 [0xFF09]]),
   (IntegerPlaceholder, [utf8 [0x8BF7, 0x8F93, 0x5165, 0x6574, 0x6570], ''Enter a whole number'', utf8 [0x8ACB,
     0x8F38, 0x5165, 0x6574, 0x6578], utf8 [0x6574, 0x6570, 0x3092, 0x5165, 0x529B]]),
   (UnitPriceInput, [utf8 [0x6BCF, 0x4EF6, 0x4EF7, 0x683C, 0xFF08] @ ''{} '' @ utf8 [0x81F3] @ '' {}'' @ utf8 [0xFF0C,
     0x53EA, 0x586B, 0x6574, 0x6570, 0xFF09], ''Price per item ({} to {}, whole numbers only)'', utf8 [0x6BCF, 0x4EF6,
     0x50F9, 0x683C, 0xFF08] @ ''{} '' @ utf8 [0x81F3] @ '' {}'' @ utf8 [0xFF0C, 0x53EA, 0x586B, 0x6574, 0x6578,
     0xFF09], ''1'' @ utf8 [0x500B, 0x306E, 0x4FA1, 0x683C, 0xFF08] @ ''{}'' @ utf8 [0xFF5E] @ ''{}'' @ utf8 [0x3001,
     0x6574, 0x6570, 0x306E, 0x307F, 0xFF09]]),
   (PricePlaceholder, [utf8 [0x4F8B, 0x5982] @ '' 10'', ''For example, 10'', utf8 [0x4F8B, 0x5982] @ '' 10'', utf8
     [0x4F8B, 0xFF1A] @ ''10'']),
   (ContinueButton, [utf8 [0x7EE7, 0x7EED], ''Continue'', utf8 [0x7E7C, 0x7E8C], utf8 [0x7D9A, 0x3051, 0x308B]]),
   (InvalidFormData, [utf8 [0x5BA2, 0x6237, 0x7AEF, 0x8FD4, 0x56DE, 0x4E86, 0x65E0, 0x6548, 0x8868, 0x5355, 0x6570,
     0x636E], ''The client returned invalid form data'', utf8 [0x5BA2, 0x6236, 0x7AEF, 0x8FD4, 0x56DE, 0x4E86, 0x7121,
     0x6548, 0x8868, 0x55AE, 0x8CC7, 0x6599], utf8 [0x30AF, 0x30E9, 0x30A4, 0x30A2, 0x30F3, 0x30C8, 0x304B, 0x3089,
     0x7121, 0x52B9, 0x306A, 0x30D5, 0x30A9, 0x30FC, 0x30E0, 0x30C7, 0x30FC, 0x30BF, 0x304C, 0x8FD4, 0x3055, 0x308C,
     0x307E, 0x3057, 0x305F]]),
   (InputInvalid, [utf8 [0x586B, 0x5199, 0x6709, 0x8BEF, 0xFF1A] @ ''{}'' @ utf8 [0x3002], ''Invalid entry: {}.'',
     utf8 [0x586B, 0x5BEB, 0x6709, 0x8AA4, 0xFF1A] @ ''{}'' @ utf8 [0x3002], utf8 [0x5165, 0x529B, 0x304C, 0x6B63,
     0x3057, 0x304F, 0x3042, 0x308A, 0x307E, 0x305B, 0x3093, 0xFF1A] @ ''{}'' @ utf8 [0x3002]])]"

definition translations_7 :: catalogue where
  "translations_7 = [
   (OpenInputFailed, [utf8 [0x6253, 0x5F00, 0x4EA4, 0x6613, 0x586B, 0x5199, 0x754C, 0x9762, 0x5931, 0x8D25, 0xFF1A] @
     ''{}'', ''Could not open the trade entry screen: {}'', utf8 [0x958B, 0x555F, 0x4EA4, 0x6613, 0x586B, 0x5BEB,
     0x4ECB, 0x9762, 0x5931, 0x6557, 0xFF1A] @ ''{}'', utf8 [0x53D6, 0x5F15, 0x5165, 0x529B, 0x753B, 0x9762, 0x3092,
     0x958B, 0x3051, 0x307E, 0x305B, 0x3093, 0x3067, 0x3057, 0x305F, 0xFF1A] @ ''{}'']),
   (ConfirmTitle, [utf8 [0x786E, 0x8BA4, 0x4EA4, 0x6613] @ '' '' @ utf8 [0xB7] @ '' {}'', ''Confirm trade '' @ utf8
     [0xB7] @ '' {}'', utf8 [0x78BA, 0x8A8D, 0x4EA4, 0x6613] @ '' '' @ utf8 [0xB7] @ '' {}'', utf8 [0x53D6, 0x5F15,
     0x78BA, 0x8A8D] @ '' '' @ utf8 [0xB7] @ '' {}'']),
   (QuantityValue, [utf8 [0x6570, 0x91CF, 0xFF1A] @ ''{} '' @ utf8 [0x4EF6], ''Quantity: {}'', utf8 [0x6578, 0x91CF,
     0xFF1A] @ ''{} '' @ utf8 [0x4EF6], utf8 [0x6570, 0x91CF, 0xFF1A] @ ''{} '' @ utf8 [0x500B]]),
   (UnitPriceValue, [utf8 [0x6BCF, 0x4EF6, 0x4EF7, 0x683C, 0xFF1A] @ ''{}'', ''Price per item: {}'', utf8 [0x6BCF,
     0x4EF6, 0x50F9, 0x683C, 0xFF1A] @ ''{}'', ''1'' @ utf8 [0x500B, 0x306E, 0x4FA1, 0x683C, 0xFF1A] @ ''{}'']),
   (MarketBuyExplanation, [utf8 [0x5C06, 0x4ECE, 0x5F53, 0x524D, 0x6700, 0x4F4E, 0x51FA, 0x552E, 0x4EF7, 0x683C,
     0x5F00, 0x59CB, 0x8D2D, 0x4E70, 0xFF0C, 0x76F4, 0x5230, 0x6570, 0x91CF, 0x5B8C, 0x6210, 0x6216, 0x6CA1, 0x6709,
     0x53EF, 0x4E70, 0x7269, 0x54C1, 0x3002],
     ''Buys from the lowest current selling price until the quantity is filled or nothing remains for sale.'', utf8
     [0x5C07, 0x5F9E, 0x76EE, 0x524D, 0x6700, 0x4F4E, 0x51FA, 0x552E, 0x50F9, 0x683C, 0x958B, 0x59CB, 0x8CFC, 0x8CB7,
     0xFF0C, 0x76F4, 0x5230, 0x6578, 0x91CF, 0x5B8C, 0x6210, 0x6216, 0x6C92, 0x6709, 0x53EF, 0x8CB7, 0x7269, 0x54C1,
     0x3002], utf8 [0x73FE, 0x5728, 0x306E, 0x6700, 0x5B89, 0x8CA9, 0x58F2, 0x4FA1, 0x683C, 0x304B, 0x3089, 0x3001,
     0x6307, 0x5B9A, 0x6570, 0x91CF, 0x306B, 0x9054, 0x3059, 0x308B, 0x304B, 0x8CA9, 0x58F2, 0x54C1, 0x304C, 0x306A,
     0x304F, 0x306A, 0x308B, 0x307E, 0x3067, 0x8CFC, 0x5165, 0x3057, 0x307E, 0x3059, 0x3002]]),
   (MarketSellExplanation, [utf8 [0x5C06, 0x4ECE, 0x5F53, 0x524D, 0x6700, 0x9AD8, 0x6536, 0x8D2D, 0x4EF7, 0x683C,
     0x5F00, 0x59CB, 0x51FA, 0x552E, 0xFF0C, 0x76F4, 0x5230, 0x6570, 0x91CF, 0x5B8C, 0x6210, 0x6216, 0x6CA1, 0x6709,
     0x4EBA, 0x7EE7, 0x7EED, 0x6536, 0x8D2D, 0x3002],
     ''Sells to the highest current buying price until the quantity is filled or nobody remains to buy.'', utf8
     [0x5C07, 0x5F9E, 0x76EE, 0x524D, 0x6700, 0x9AD8, 0x6536, 0x8CFC, 0x50F9, 0x683C, 0x958B, 0x59CB, 0x51FA, 0x552E,
     0xFF0C, 0x76F4, 0x5230, 0x6578, 0x91CF, 0x5B8C, 0x6210, 0x6216, 0x6C92, 0x6709, 0x4EBA, 0x7E7C, 0x7E8C, 0x6536,
     0x8CFC, 0x3002], utf8 [0x73FE, 0x5728, 0x306E, 0x6700, 0x9AD8, 0x8CFC, 0x5165, 0x4FA1, 0x683C, 0x304B, 0x3089,
     0x3001, 0x6307, 0x5B9A, 0x6570, 0x91CF, 0x306B, 0x9054, 0x3059, 0x308B, 0x304B, 0x8CFC, 0x5165, 0x5E0C, 0x671B,
     0x304C, 0x306A, 0x304F, 0x306A, 0x308B, 0x307E, 0x3067, 0x8CA9, 0x58F2, 0x3057, 0x307E, 0x3059, 0x3002]]),
   (ReviewMaximumPayment, [utf8 [0x6700, 0x591A, 0x652F, 0x4ED8, 0xFF1A] @ ''{}'', ''Maximum payment: {}'', utf8
     [0x6700, 0x591A, 0x652F, 0x4ED8, 0xFF1A] @ ''{}'', utf8 [0x652F, 0x6255, 0x3044, 0x4E0A, 0x9650, 0xFF1A] @
     ''{}'']),
   (ReviewExpectedIncome, [utf8 [0x9884, 0x8BA1, 0x6536, 0x5165, 0xFF1A] @ ''{}'', ''Expected income: {}'', utf8
     [0x9810, 0x8A08, 0x6536, 0x5165, 0xFF1A] @ ''{}'', utf8 [0x53D7, 0x53D6, 0x4E88, 0x5B9A, 0xFF1A] @ ''{}'']),
   (ReviewDirectBuy, [utf8 [0x6309, 0x5F53, 0x524D, 0x6700, 0x4F4E, 0x51FA, 0x552E, 0x4EF7, 0x683C, 0x4F9D, 0x6B21,
     0x8D2D, 0x4E70, 0xFF0C, 0x6700, 0x591A, 0x4E70, 0x5165, 0x6240, 0x586B, 0x6570, 0x91CF, 0x3002],
     ''Buys from the lowest current selling price, up to the entered quantity.'', utf8 [0x6309, 0x76EE, 0x524D,
     0x6700, 0x4F4E, 0x51FA, 0x552E, 0x50F9, 0x683C, 0x4F9D, 0x6B21, 0x8CFC, 0x8CB7, 0xFF0C, 0x6700, 0x591A, 0x8CB7,
     0x5165, 0x6240, 0x586B, 0x6578, 0x91CF, 0x3002], utf8 [0x73FE, 0x5728, 0x306E, 0x6700, 0x5B89, 0x8CA9, 0x58F2,
     0x4FA1, 0x683C, 0x304B, 0x3089, 0x3001, 0x5165, 0x529B, 0x3057, 0x305F, 0x6570, 0x91CF, 0x307E, 0x3067, 0x8CFC,
     0x5165, 0x3057, 0x307E, 0x3059, 0x3002]]),
   (ReviewDirectSell, [utf8 [0x6309, 0x5F53, 0x524D, 0x6700, 0x9AD8, 0x6536, 0x8D2D, 0x4EF7, 0x683C, 0x4F9D, 0x6B21,
     0x51FA, 0x552E, 0xFF0C, 0x6700, 0x591A, 0x5356, 0x51FA, 0x6240, 0x586B, 0x6570, 0x91CF, 0x3002],
     ''Sells to the highest current buying price, up to the entered quantity.'', utf8 [0x6309, 0x76EE, 0x524D, 0x6700,
     0x9AD8, 0x6536, 0x8CFC, 0x50F9, 0x683C, 0x4F9D, 0x6B21, 0x51FA, 0x552E, 0xFF0C, 0x6700, 0x591A, 0x8CE3, 0x51FA,
     0x6240, 0x586B, 0x6578, 0x91CF, 0x3002], utf8 [0x73FE, 0x5728, 0x306E, 0x6700, 0x9AD8, 0x8CFC, 0x5165, 0x4FA1,
     0x683C, 0x304B, 0x3089, 0x3001, 0x5165, 0x529B, 0x3057, 0x305F, 0x6570, 0x91CF, 0x307E, 0x3067, 0x8CA9, 0x58F2,
     0x3057, 0x307E, 0x3059, 0x3002]]),
   (AdjustQuantity, [utf8 [0x8C03, 0x6574, 0x6570, 0x91CF, 0xFF08] @ ''1 '' @ utf8 [0x81F3] @ '' {}'' @ utf8 [0xFF09],
     ''Adjust quantity (1 to {})'', utf8 [0x8ABF, 0x6574, 0x6578, 0x91CF, 0xFF08] @ ''1 '' @ utf8 [0x81F3] @ '' {}'' @
     utf8 [0xFF09], utf8 [0x6570, 0x91CF, 0x3092, 0x8ABF, 0x6574, 0xFF08] @ ''1'' @ utf8 [0xFF5E] @ ''{}'' @ utf8
     [0xFF09]]),
   (ReenterQuantity, [utf8 [0x586B, 0x5199, 0x6570, 0x91CF, 0xFF08, 0x5F53, 0x524D] @ '' {}'' @ utf8 [0xFF09],
     ''Enter quantity (currently {})'', utf8 [0x586B, 0x5BEB, 0x6578, 0x91CF, 0xFF08, 0x76EE, 0x524D] @ '' {}'' @ utf8
     [0xFF09], utf8 [0x6570, 0x91CF, 0x3092, 0x5165, 0x529B, 0xFF08, 0x73FE, 0x5728] @ '' {}'' @ utf8 [0xFF09]]),
   (AdjustPrice, [utf8 [0x8C03, 0x6574, 0x6BCF, 0x4EF6, 0x4EF7, 0x683C, 0xFF08] @ ''{} '' @ utf8 [0x81F3] @ '' {}'' @
     utf8 [0xFF09], ''Adjust price per item ({} to {})'', utf8 [0x8ABF, 0x6574, 0x6BCF, 0x4EF6, 0x50F9, 0x683C,
     0xFF08] @ ''{} '' @ utf8 [0x81F3] @ '' {}'' @ utf8 [0xFF09], ''1'' @ utf8 [0x500B, 0x306E, 0x4FA1, 0x683C,
     0x3092, 0x8ABF, 0x6574, 0xFF08] @ ''{}'' @ utf8 [0xFF5E] @ ''{}'' @ utf8 [0xFF09]]),
   (ReenterPrice, [utf8 [0x586B, 0x5199, 0x4EF7, 0x683C, 0xFF08, 0x5F53, 0x524D] @ '' {}'' @ utf8 [0xFF09],
     ''Enter price (currently {})'', utf8 [0x586B, 0x5BEB, 0x50F9, 0x683C, 0xFF08, 0x76EE, 0x524D] @ '' {}'' @ utf8
     [0xFF09], utf8 [0x4FA1, 0x683C, 0x3092, 0x5165, 0x529B, 0xFF08, 0x73FE, 0x5728] @ '' {}'' @ utf8 [0xFF09]]),
   (ConfirmButton, [utf8 [0xA7] @ ''a'' @ utf8 [0x786E, 0x8BA4, 0x4EA4, 0x6613, 0xA7] @ ''r'', utf8 [0xA7] @
     ''aConfirm trade'' @ utf8 [0xA7] @ ''r'', utf8 [0xA7] @ ''a'' @ utf8 [0x78BA, 0x8A8D, 0x4EA4, 0x6613, 0xA7] @
     ''r'', utf8 [0xA7] @ ''a'' @ utf8 [0x53D6, 0x5F15, 0x3092, 0x78BA, 0x5B9A, 0xA7] @ ''r'']),
   (EditTradeButton, [utf8 [0x4FEE, 0x6539, 0x586B, 0x5199], ''Edit entries'', utf8 [0x4FEE, 0x6539, 0x586B, 0x5BEB],
     utf8 [0x5165, 0x529B, 0x3092, 0x4FEE, 0x6B63]]),
   (BackActions, [utf8 [0x8FD4, 0x56DE, 0x9009, 0x62E9, 0x4EA4, 0x6613, 0x65B9, 0x5F0F], ''Back to trade methods'',
     utf8 [0x8FD4, 0x56DE, 0x9078, 0x64C7, 0x4EA4, 0x6613, 0x65B9, 0x5F0F], utf8 [0x53D6, 0x5F15, 0x65B9, 0x6CD5,
     0x306E, 0x9078, 0x629E, 0x306B, 0x623B, 0x308B]])]"

definition translations_8 :: catalogue where
  "translations_8 = [
   (OpenReviewFailed, [utf8 [0x6253, 0x5F00, 0x4EA4, 0x6613, 0x786E, 0x8BA4, 0x754C, 0x9762, 0x5931, 0x8D25, 0xFF1A] @
     ''{}'', ''Could not open the confirmation screen: {}'', utf8 [0x958B, 0x555F, 0x4EA4, 0x6613, 0x78BA, 0x8A8D,
     0x4ECB, 0x9762, 0x5931, 0x6557, 0xFF1A] @ ''{}'', utf8 [0x53D6, 0x5F15, 0x78BA, 0x8A8D, 0x753B, 0x9762, 0x3092,
     0x958B, 0x3051, 0x307E, 0x305B, 0x3093, 0x3067, 0x3057, 0x305F, 0xFF1A] @ ''{}'']),
   (QuantityRangeInvalid, [utf8 [0x4EA4, 0x6613, 0x6570, 0x91CF, 0x8D85, 0x51FA, 0x5141, 0x8BB8, 0x8303, 0x56F4],
     ''The trade quantity is outside the allowed range'', utf8 [0x4EA4, 0x6613, 0x6578, 0x91CF, 0x8D85, 0x51FA,
     0x5141, 0x8A31, 0x7BC4, 0x570D], utf8 [0x53D6, 0x5F15, 0x6570, 0x91CF, 0x304C, 0x8A31, 0x53EF, 0x7BC4, 0x56F2,
     0x3092, 0x8D85, 0x3048, 0x3066, 0x3044, 0x307E, 0x3059]]),
   (PriceRangeInvalid, [utf8 [0x4EA4, 0x6613, 0x4EF7, 0x683C, 0x8D85, 0x51FA, 0x5141, 0x8BB8, 0x8303, 0x56F4, 0xFF0C,
     0x6216, 0x4E0D, 0x662F, 0x6574, 0x6570],
     ''The trade price is outside the allowed range or is not a whole number'', utf8 [0x4EA4, 0x6613, 0x50F9, 0x683C,
     0x8D85, 0x51FA, 0x5141, 0x8A31, 0x7BC4, 0x570D, 0xFF0C, 0x6216, 0x4E0D, 0x662F, 0x6574, 0x6578], utf8 [0x53D6,
     0x5F15, 0x4FA1, 0x683C, 0x304C, 0x8A31, 0x53EF, 0x7BC4, 0x56F2, 0x5916, 0x3001, 0x307E, 0x305F, 0x306F, 0x6574,
     0x6570, 0x3067, 0x306F, 0x3042, 0x308A, 0x307E, 0x305B, 0x3093]]),
   (QuantityField, [utf8 [0x6570, 0x91CF], ''Quantity'', utf8 [0x6578, 0x91CF], utf8 [0x6570, 0x91CF]]),
   (UnitPriceField, [utf8 [0x6BCF, 0x4EF6, 0x4EF7, 0x683C], ''Price per item'', utf8 [0x6BCF, 0x4EF6, 0x50F9, 0x683C],
     ''1'' @ utf8 [0x500B, 0x306E, 0x4FA1, 0x683C]]),
   (WholeNumberRange, [''{}'' @ utf8 [0x5FC5, 0x987B, 0x662F] @ '' {} '' @ utf8 [0x81F3] @ '' {} '' @ utf8 [0x7684,
     0x6574, 0x6570], ''{} must be a whole number from {} to {}'', ''{}'' @ utf8 [0x5FC5, 0x9808, 0x662F] @ '' {} '' @
     utf8 [0x81F3] @ '' {} '' @ utf8 [0x7684, 0x6574, 0x6578], ''{}'' @ utf8 [0x306F] @ '' {}'' @ utf8 [0xFF5E] @
     ''{} '' @ utf8 [0x306E, 0x6574, 0x6570, 0x3067, 0x5165, 0x529B, 0x3057, 0x3066, 0x304F, 0x3060, 0x3055, 0x3044]]),
   (PriceTooLarge, [utf8 [0x6BCF, 0x4EF6, 0x4EF7, 0x683C, 0x8D85, 0x51FA, 0x5141, 0x8BB8, 0x8303, 0x56F4],
     ''The price per item is outside the allowed range'', utf8 [0x6BCF, 0x4EF6, 0x50F9, 0x683C, 0x8D85, 0x51FA,
     0x5141, 0x8A31, 0x7BC4, 0x570D], ''1'' @ utf8 [0x500B, 0x306E, 0x4FA1, 0x683C, 0x304C, 0x8A31, 0x53EF, 0x7BC4,
     0x56F2, 0x3092, 0x8D85, 0x3048, 0x3066, 0x3044, 0x307E, 0x3059]]),
   (PriceStep, [utf8 [0x6BCF, 0x4EF6, 0x4EF7, 0x683C, 0x5FC5, 0x987B, 0x6309] @ '' {}u '' @ utf8 [0x8C03, 0x6574],
     ''The price per item must change in steps of {}u'', utf8 [0x6BCF, 0x4EF6, 0x50F9, 0x683C, 0x5FC5, 0x9808, 0x6309]
     @ '' {}u '' @ utf8 [0x8ABF, 0x6574], ''1'' @ utf8 [0x500B, 0x306E, 0x4FA1, 0x683C, 0x306F] @ '' {}u '' @ utf8
     [0x5358, 0x4F4D, 0x3067, 0x8ABF, 0x6574, 0x3057, 0x3066, 0x304F, 0x3060, 0x3055, 0x3044]]),
   (DeliveryReceived, [utf8 [0xFF0C, 0x5DF2, 0x5230, 0x8D26] @ '' {} '' @ utf8 [0x4EF6], '', {} item(s) received'',
     utf8 [0xFF0C, 0x5DF2, 0x5230, 0x5E33] @ '' {} '' @ utf8 [0x4EF6], utf8 [0x3001] @ ''{} '' @ utf8 [0x500B, 0x3092,
     0x53D7, 0x3051, 0x53D6, 0x308A, 0x307E, 0x3057, 0x305F]]),
   (DeliveryReturned, [utf8 [0xFF0C, 0x5DF2, 0x8FD4, 0x8FD8] @ '' {} '' @ utf8 [0x4EF6], '', {} item(s) returned'',
     utf8 [0xFF0C, 0x5DF2, 0x8FD4, 0x9084] @ '' {} '' @ utf8 [0x4EF6], utf8 [0x3001] @ ''{} '' @ utf8 [0x500B, 0x304C,
     0x8FD4, 0x5374, 0x3055, 0x308C, 0x307E, 0x3057, 0x305F]]),
   (DeliveryPending, [utf8 [0xFF0C, 0x53E6, 0x6709, 0x7269, 0x54C1, 0x5F85] @ '' /exchange claim '' @ utf8 [0x9886,
     0x53D6], '', more items are waiting for /exchange claim'', utf8 [0xFF0C, 0x53E6, 0x6709, 0x7269, 0x54C1, 0x5F85]
     @ '' /exchange claim '' @ utf8 [0x9818, 0x53D6], utf8 [0x3001, 0x307B, 0x304B, 0x306E, 0x30A2, 0x30A4, 0x30C6,
     0x30E0, 0x306F] @ '' /exchange claim '' @ utf8 [0x3067, 0x53D7, 0x3051, 0x53D6, 0x308C, 0x307E, 0x3059]]),
   (OtherPlayerSelling, [utf8 [0x51FA, 0x552E, 0x8FD9, 0x79CD, 0x7269, 0x54C1], ''selling this item'', utf8 [0x51FA,
     0x552E, 0x9019, 0x7A2E, 0x7269, 0x54C1], utf8 [0x3053, 0x306E, 0x30A2, 0x30A4, 0x30C6, 0x30E0, 0x3092, 0x8CA9,
     0x58F2, 0x3057, 0x3066, 0x3044, 0x308B, 0x4EBA]]),
   (OtherPlayerBuying, [utf8 [0x6536, 0x8D2D, 0x8FD9, 0x79CD, 0x7269, 0x54C1], ''buying this item'', utf8 [0x6536,
     0x8CFC, 0x9019, 0x7A2E, 0x7269, 0x54C1], utf8 [0x3053, 0x306E, 0x30A2, 0x30A4, 0x30C6, 0x30E0, 0x3092, 0x8CFC,
     0x5165, 0x5E0C, 0x671B, 0x306E, 0x4EBA]]),
   (OrderNoFill, [utf8 [0xA7] @ ''e'' @ utf8 [0x8BA2, 0x5355] @ '' #{} '' @ utf8 [0x672A, 0x5B8C, 0x6210, 0xFF1A,
     0x5F53, 0x524D, 0x6CA1, 0x6709, 0x5176, 0x4ED6, 0x73A9, 0x5BB6] @ ''{}'' @ utf8 [0xFF1B, 0x81EA, 0x5DF1, 0x7684,
     0x8BA2, 0x5355, 0x4E0D, 0x4F1A, 0x548C, 0x81EA, 0x5DF1, 0x4EA4, 0x6613] @ ''{}'' @ utf8 [0x3002, 0x4F59, 0x989D]
     @ '' {}'' @ utf8 [0x3002, 0xA7] @ ''r'', utf8 [0xA7] @
     ''eOrder #{} was not filled: no other player is currently {}; your own orders cannot trade with each other{}. Balance {}.''
     @ utf8 [0xA7] @ ''r'', utf8 [0xA7] @ ''e'' @ utf8 [0x8A02, 0x55AE] @ '' #{} '' @ utf8 [0x672A, 0x5B8C, 0x6210,
     0xFF1A, 0x76EE, 0x524D, 0x6C92, 0x6709, 0x5176, 0x4ED6, 0x73A9, 0x5BB6] @ ''{}'' @ utf8 [0xFF1B, 0x81EA, 0x5DF1,
     0x7684, 0x8A02, 0x55AE, 0x4E0D, 0x6703, 0x548C, 0x81EA, 0x5DF1, 0x4EA4, 0x6613] @ ''{}'' @ utf8 [0x3002, 0x9918,
     0x984D] @ '' {}'' @ utf8 [0x3002, 0xA7] @ ''r'', utf8 [0xA7] @ ''e'' @ utf8 [0x6CE8, 0x6587] @ '' #{} '' @ utf8
     [0x306F, 0x6210, 0x7ACB, 0x3057, 0x307E, 0x305B, 0x3093, 0x3067, 0x3057, 0x305F, 0x3002, 0x73FE, 0x5728, 0x3001,
     0x4ED6, 0x306E, 0x30D7, 0x30EC, 0x30A4, 0x30E4, 0x30FC, 0x3067] @ ''{}'' @ utf8 [0x306F, 0x3044, 0x307E, 0x305B,
     0x3093, 0x3002, 0x81EA, 0x5206, 0x306E, 0x6CE8, 0x6587, 0x540C, 0x58EB, 0x306F, 0x53D6, 0x5F15, 0x3055, 0x308C,
     0x307E, 0x305B, 0x3093] @ ''{}'' @ utf8 [0x3002, 0x6B8B, 0x9AD8] @ '' {}'' @ utf8 [0x3002, 0xA7] @ ''r'']),
   (BuyVerb, [utf8 [0x8D2D, 0x4E70], ''buy'', utf8 [0x8CFC, 0x8CB7], utf8 [0x8CFC, 0x5165]]),
   (SellVerb, [utf8 [0x51FA, 0x552E], ''sell'', utf8 [0x51FA, 0x552E], utf8 [0x8CA9, 0x58F2]]),
   (OrderSaved, [utf8 [0xA7] @ ''a'' @ utf8 [0x8BA2, 0x5355] @ '' #{} '' @ utf8 [0x5DF2, 0x4FDD, 0x5B58, 0xFF1A,
     0x7B49, 0x5F85, 0x6309, 0x6BCF, 0x4EF6] @ '' {} {} {} '' @ utf8 [0x4EF6] @ ''{}'' @ utf8 [0x3002, 0x4F59, 0x989D]
     @ '' {}'' @ utf8 [0x3002, 0xA7] @ ''r'', utf8 [0xA7] @
     ''aOrder #{} saved: waiting at {} each to {} {} item(s){}. Balance {}.'' @ utf8 [0xA7] @ ''r'', utf8 [0xA7] @
     ''a'' @ utf8 [0x8A02, 0x55AE] @ '' #{} '' @ utf8 [0x5DF2, 0x5132, 0x5B58, 0xFF1A, 0x7B49, 0x5F85, 0x6309, 0x6BCF,
     0x4EF6] @ '' {} {} {} '' @ utf8 [0x4EF6] @ ''{}'' @ utf8 [0x3002, 0x9918, 0x984D] @ '' {}'' @ utf8 [0x3002, 0xA7]
     @ ''r'', utf8 [0xA7] @ ''a'' @ utf8 [0x6CE8, 0x6587] @ '' #{} '' @ utf8 [0x3092, 0x4FDD, 0x5B58, 0x3057, 0x307E,
     0x3057, 0x305F, 0xFF1A] @ ''1'' @ utf8 [0x500B] @ '' {} '' @ utf8 [0x3067] @ '' {} '' @ utf8 [0x3092] @ '' {} ''
     @ utf8 [0x500B, 0x5F85, 0x6A5F, 0x4E2D] @ ''{}'' @ utf8 [0x3002, 0x6B8B, 0x9AD8] @ '' {}'' @ utf8 [0x3002, 0xA7]
     @ ''r'']),
   (OrderPartiallyFilled, [utf8 [0xA7] @ ''a'' @ utf8 [0x8BA2, 0x5355] @ '' #{} '' @ utf8 [0x5DF2, 0x5B8C, 0x6210] @
     '' {} '' @ utf8 [0x4EF6, 0xFF0C, 0x5269, 0x4F59] @ '' {} '' @ utf8 [0x4EF6, 0x7EE7, 0x7EED, 0x7B49, 0x5F85,
     0xFF0C, 0x603B, 0x91D1, 0x989D] @ '' {}{}'' @ utf8 [0x3002, 0x4F59, 0x989D] @ '' {}'' @ utf8 [0x3002, 0xA7] @
     ''r'', utf8 [0xA7] @ ''aOrder #{} filled {} item(s); {} remain open. Total {}{}. Balance {}.'' @ utf8 [0xA7] @
     ''r'', utf8 [0xA7] @ ''a'' @ utf8 [0x8A02, 0x55AE] @ '' #{} '' @ utf8 [0x5DF2, 0x5B8C, 0x6210] @ '' {} '' @ utf8
     [0x4EF6, 0xFF0C, 0x5269, 0x9918] @ '' {} '' @ utf8 [0x4EF6, 0x7E7C, 0x7E8C, 0x7B49, 0x5F85, 0xFF0C, 0x7E3D,
     0x91D1, 0x984D] @ '' {}{}'' @ utf8 [0x3002, 0x9918, 0x984D] @ '' {}'' @ utf8 [0x3002, 0xA7] @ ''r'', utf8 [0xA7]
     @ ''a'' @ utf8 [0x6CE8, 0x6587] @ '' #{} '' @ utf8 [0x306F] @ '' {} '' @ utf8 [0x500B, 0x6210, 0x7ACB, 0x3057,
     0x3001, 0x6B8B, 0x308A] @ '' {} '' @ utf8 [0x500B, 0x306F, 0x7D99, 0x7D9A, 0x5F85, 0x6A5F, 0x3067, 0x3059,
     0x3002, 0x5408, 0x8A08] @ '' {}{}'' @ utf8 [0x3002, 0x6B8B, 0x9AD8] @ '' {}'' @ utf8 [0x3002, 0xA7] @ ''r''])]"

definition translations_9 :: catalogue where
  "translations_9 = [
   (TradeCompleted, [utf8 [0xA7] @ ''a'' @ utf8 [0x4EA4, 0x6613, 0x5B8C, 0x6210, 0xFF1A, 0x8BA2, 0x5355] @ '' #{} '' @
     utf8 [0x5171] @ '' {} '' @ utf8 [0x4EF6, 0xFF0C, 0x603B, 0x91D1, 0x989D] @ '' {}{}'' @ utf8 [0x3002, 0x4F59,
     0x989D] @ '' {}'' @ utf8 [0x3002, 0xA7] @ ''r'', utf8 [0xA7] @
     ''aTrade complete: order #{} filled {} item(s), total {}{}. Balance {}.'' @ utf8 [0xA7] @ ''r'', utf8 [0xA7] @
     ''a'' @ utf8 [0x4EA4, 0x6613, 0x5B8C, 0x6210, 0xFF1A, 0x8A02, 0x55AE] @ '' #{} '' @ utf8 [0x5171] @ '' {} '' @
     utf8 [0x4EF6, 0xFF0C, 0x7E3D, 0x91D1, 0x984D] @ '' {}{}'' @ utf8 [0x3002, 0x9918, 0x984D] @ '' {}'' @ utf8
     [0x3002, 0xA7] @ ''r'', utf8 [0xA7] @ ''a'' @ utf8 [0x53D6, 0x5F15, 0x5B8C, 0x4E86, 0xFF1A, 0x6CE8, 0x6587] @
     '' #{}'' @ utf8 [0x3001] @ ''{} '' @ utf8 [0x500B, 0x3001, 0x5408, 0x8A08] @ '' {}{}'' @ utf8 [0x3002, 0x6B8B,
     0x9AD8] @ '' {}'' @ utf8 [0x3002, 0xA7] @ ''r'']),
   (OrderEnded, [utf8 [0xA7] @ ''a'' @ utf8 [0x8BA2, 0x5355] @ '' #{} '' @ utf8 [0x5DF2, 0x7ED3, 0x675F, 0xFF1A,
     0x5B8C, 0x6210] @ '' {}/{} '' @ utf8 [0x4EF6, 0xFF0C, 0x603B, 0x91D1, 0x989D] @ '' {}{}'' @ utf8 [0x3002, 0x4F59,
     0x989D] @ '' {}'' @ utf8 [0x3002, 0xA7] @ ''r'', utf8 [0xA7] @
     ''aOrder #{} ended: {}/{} item(s) filled, total {}{}. Balance {}.'' @ utf8 [0xA7] @ ''r'', utf8 [0xA7] @ ''a'' @
     utf8 [0x8A02, 0x55AE] @ '' #{} '' @ utf8 [0x5DF2, 0x7D50, 0x675F, 0xFF1A, 0x5B8C, 0x6210] @ '' {}/{} '' @ utf8
     [0x4EF6, 0xFF0C, 0x7E3D, 0x91D1, 0x984D] @ '' {}{}'' @ utf8 [0x3002, 0x9918, 0x984D] @ '' {}'' @ utf8 [0x3002,
     0xA7] @ ''r'', utf8 [0xA7] @ ''a'' @ utf8 [0x6CE8, 0x6587] @ '' #{} '' @ utf8 [0x306F, 0x7D42, 0x4E86, 0x3057,
     0x307E, 0x3057, 0x305F, 0xFF1A] @ ''{}/{} '' @ utf8 [0x500B, 0x6210, 0x7ACB, 0x3001, 0x5408, 0x8A08] @ '' {}{}''
     @ utf8 [0x3002, 0x6B8B, 0x9AD8] @ '' {}'' @ utf8 [0x3002, 0xA7] @ ''r'']),
   (TradeFailed, [utf8 [0x4EA4, 0x6613, 0x5931, 0x8D25, 0xFF1A] @ ''{}'', ''Trade failed: {}'', utf8 [0x4EA4, 0x6613,
     0x5931, 0x6557, 0xFF1A] @ ''{}'', utf8 [0x53D6, 0x5F15, 0x306B, 0x5931, 0x6557, 0x3057, 0x307E, 0x3057, 0x305F,
     0xFF1A] @ ''{}'']),
   (OrdersTitle, [utf8 [0x6211, 0x7684, 0x672A, 0x5B8C, 0x6210, 0x8BA2, 0x5355], ''My open orders'', utf8 [0x6211,
     0x7684, 0x672A, 0x5B8C, 0x6210, 0x8A02, 0x55AE], utf8 [0x81EA, 0x5206, 0x306E, 0x672A, 0x5B8C, 0x4E86, 0x6CE8,
     0x6587]]),
   (OrdersHeader, [utf8 [0x70B9, 0x51FB, 0x8BA2, 0x5355, 0x5373, 0x53EF, 0x53D6, 0x6D88],
     ''Select an order to cancel it'', utf8 [0x9EDE, 0x64CA, 0x8A02, 0x55AE, 0x5373, 0x53EF, 0x53D6, 0x6D88], utf8
     [0x6CE8, 0x6587, 0x3092, 0x9078, 0x3076, 0x3068, 0x30AD, 0x30E3, 0x30F3, 0x30BB, 0x30EB, 0x3067, 0x304D, 0x307E,
     0x3059]]),
   (NoOpenOrders, [utf8 [0x5F53, 0x524D, 0x6CA1, 0x6709, 0x672A, 0x5B8C, 0x6210, 0x8BA2, 0x5355, 0x3002],
     ''You have no open orders.'', utf8 [0x76EE, 0x524D, 0x6C92, 0x6709, 0x672A, 0x5B8C, 0x6210, 0x8A02, 0x55AE,
     0x3002], utf8 [0x672A, 0x5B8C, 0x4E86, 0x306E, 0x6CE8, 0x6587, 0x306F, 0x3042, 0x308A, 0x307E, 0x305B, 0x3093,
     0x3002]]),
   (OrderButton, [''#{} {} {} '' @ utf8 [0xD7] @ '' {}'' @ [CHR 0x0A] @ utf8 [0x70B9, 0x51FB, 0x53D6, 0x6D88],
     ''#{} {} {} '' @ utf8 [0xD7] @ '' {}'' @ [CHR 0x0A] @ ''Select to cancel'', ''#{} {} {} '' @ utf8 [0xD7] @
     '' {}'' @ [CHR 0x0A] @ utf8 [0x9EDE, 0x64CA, 0x53D6, 0x6D88], ''#{} {} {} '' @ utf8 [0xD7] @ '' {}'' @ [CHR 0x0A]
     @ utf8 [0x9078, 0x629E, 0x3057, 0x3066, 0x30AD, 0x30E3, 0x30F3, 0x30BB, 0x30EB]]),
   (BuyColored, [utf8 [0xA7] @ ''a'' @ utf8 [0x8D2D, 0x4E70, 0xA7] @ ''r'', utf8 [0xA7] @ ''aBuy'' @ utf8 [0xA7] @
     ''r'', utf8 [0xA7] @ ''a'' @ utf8 [0x8CFC, 0x8CB7, 0xA7] @ ''r'', utf8 [0xA7] @ ''a'' @ utf8 [0x8CFC, 0x5165,
     0xA7] @ ''r'']),
   (SellColored, [utf8 [0xA7] @ ''c'' @ utf8 [0x51FA, 0x552E, 0xA7] @ ''r'', utf8 [0xA7] @ ''cSell'' @ utf8 [0xA7] @
     ''r'', utf8 [0xA7] @ ''c'' @ utf8 [0x51FA, 0x552E, 0xA7] @ ''r'', utf8 [0xA7] @ ''c'' @ utf8 [0x8CA9, 0x58F2,
     0xA7] @ ''r'']),
   (Message_OrderCanceled, [utf8 [0xA7] @ ''a'' @ utf8 [0x8BA2, 0x5355] @ '' #{} '' @ utf8 [0x5DF2, 0x53D6, 0x6D88,
     0x3002, 0xA7] @ ''r'', utf8 [0xA7] @ ''aOrder #{} canceled.'' @ utf8 [0xA7] @ ''r'', utf8 [0xA7] @ ''a'' @ utf8
     [0x8A02, 0x55AE] @ '' #{} '' @ utf8 [0x5DF2, 0x53D6, 0x6D88, 0x3002, 0xA7] @ ''r'', utf8 [0xA7] @ ''a'' @ utf8
     [0x6CE8, 0x6587] @ '' #{} '' @ utf8 [0x3092, 0x30AD, 0x30E3, 0x30F3, 0x30BB, 0x30EB, 0x3057, 0x307E, 0x3057,
     0x305F, 0x3002, 0xA7] @ ''r'']),
   (CancelOrderFailed, [utf8 [0x53D6, 0x6D88, 0x8BA2, 0x5355, 0x5931, 0x8D25, 0xFF1A] @ ''{}'',
     ''Could not cancel the order: {}'', utf8 [0x53D6, 0x6D88, 0x8A02, 0x55AE, 0x5931, 0x6557, 0xFF1A] @ ''{}'', utf8
     [0x6CE8, 0x6587, 0x3092, 0x30AD, 0x30E3, 0x30F3, 0x30BB, 0x30EB, 0x3067, 0x304D, 0x307E, 0x305B, 0x3093, 0x3067,
     0x3057, 0x305F, 0xFF1A] @ ''{}'']),
   (ReadOrdersFailed, [utf8 [0x8BFB, 0x53D6, 0x8BA2, 0x5355, 0x5931, 0x8D25, 0xFF1A] @ ''{}'',
     ''Could not load orders: {}'', utf8 [0x8B80, 0x53D6, 0x8A02, 0x55AE, 0x5931, 0x6557, 0xFF1A] @ ''{}'', utf8
     [0x6CE8, 0x6587, 0x3092, 0x8AAD, 0x307F, 0x8FBC, 0x3081, 0x307E, 0x305B, 0x3093, 0x3067, 0x3057, 0x305F, 0xFF1A]
     @ ''{}'']),
   (ClaimedItems, [utf8 [0xA7] @ ''a'' @ utf8 [0x5DF2, 0x9886, 0x53D6] @ '' {} '' @ utf8 [0x4EF6, 0x4EA4, 0x6613,
     0x7269, 0x54C1, 0x3002, 0xA7] @ ''r'', utf8 [0xA7] @ ''aClaimed {} exchange item(s).'' @ utf8 [0xA7] @ ''r'',
     utf8 [0xA7] @ ''a'' @ utf8 [0x5DF2, 0x9818, 0x53D6] @ '' {} '' @ utf8 [0x4EF6, 0x4EA4, 0x6613, 0x7269, 0x54C1,
     0x3002, 0xA7] @ ''r'', utf8 [0xA7] @ ''a'' @ utf8 [0x53D6, 0x5F15, 0x30A2, 0x30A4, 0x30C6, 0x30E0, 0x3092] @
     '' {} '' @ utf8 [0x500B, 0x53D7, 0x3051, 0x53D6, 0x308A, 0x307E, 0x3057, 0x305F, 0x3002, 0xA7] @ ''r'']),
   (ExchangerLore, [utf8 [0xA7] @ ''7'' @ utf8 [0x53F3, 0x51FB, 0x7269, 0x4F53, 0xFF1A, 0x5F00, 0x542F] @ ''/'' @ utf8
     [0x5173, 0x95ED, 0x4EA4, 0x6613], utf8 [0xA7] @ ''7Right-click an object: enable/disable exchange'', utf8 [0xA7]
     @ ''7'' @ utf8 [0x53F3, 0x64CA, 0x7269, 0x9AD4, 0xFF1A, 0x958B, 0x555F] @ ''/'' @ utf8 [0x95DC, 0x9589, 0x4EA4,
     0x6613], utf8 [0xA7] @ ''7'' @ utf8 [0x5BFE, 0x8C61, 0x3092, 0x53F3, 0x30AF, 0x30EA, 0x30C3, 0x30AF, 0xFF1A,
     0x53D6, 0x5F15, 0x3092, 0x958B, 0x59CB] @ ''/'' @ utf8 [0x7D42, 0x4E86]]),
   (ExchangerMetaFailed, [utf8 [0x65E0, 0x6CD5, 0x8BBE, 0x7F6E] @ '' exchanger '' @ utf8 [0x7269, 0x54C1, 0x540D,
     0x79F0], ''Could not set the exchanger item name'', utf8 [0x7121, 0x6CD5, 0x8A2D, 0x5B9A] @ '' exchanger '' @
     utf8 [0x7269, 0x54C1, 0x540D, 0x7A31], ''exchanger '' @ utf8 [0x306E, 0x30A2, 0x30A4, 0x30C6, 0x30E0, 0x540D,
     0x3092, 0x8A2D, 0x5B9A, 0x3067, 0x304D, 0x307E, 0x305B, 0x3093, 0x3067, 0x3057, 0x305F]]),
   (ExchangerReceived, [utf8 [0xA7] @ ''a'' @ utf8 [0x5DF2, 0x83B7, 0x5F97] @ '' exchanger'' @ utf8 [0x3002, 0xA7] @
     ''r'', utf8 [0xA7] @ ''aYou received an exchanger.'' @ utf8 [0xA7] @ ''r'', utf8 [0xA7] @ ''a'' @ utf8 [0x5DF2,
     0x7372, 0x5F97] @ '' exchanger'' @ utf8 [0x3002, 0xA7] @ ''r'', utf8 [0xA7] @ ''aexchanger '' @ utf8 [0x3092,
     0x53D7, 0x3051, 0x53D6, 0x308A, 0x307E, 0x3057, 0x305F, 0x3002, 0xA7] @ ''r'']),
   (ReceiptName, [utf8 [0xA7] @ ''r'' @ utf8 [0x4EA4, 0x6613, 0x6682, 0x5B58, 0x8BB0, 0x5F55], utf8 [0xA7] @
     ''rExchange recovery record'', utf8 [0xA7] @ ''r'' @ utf8 [0x4EA4, 0x6613, 0x66AB, 0x5B58, 0x8A18, 0x9304], utf8
     [0xA7] @ ''r'' @ utf8 [0x53D6, 0x5F15, 0x5FA9, 0x5143, 0x8A18, 0x9332]]),
   (ReceiptLore, [utf8 [0xA7] @ ''7'' @ utf8 [0x8BF7, 0x52FF, 0x79FB, 0x52A8, 0xFF1B, 0x7CFB, 0x7EDF, 0x5C06, 0x81EA,
     0x52A8, 0x56DE, 0x6536], utf8 [0xA7] @ ''7Do not move; the system will recover it automatically'', utf8 [0xA7] @
     ''7'' @ utf8 [0x8ACB, 0x52FF, 0x79FB, 0x52D5, 0xFF1B, 0x7CFB, 0x7D71, 0x5C07, 0x81EA, 0x52D5, 0x56DE, 0x6536],
     utf8 [0xA7] @ ''7'' @ utf8 [0x79FB, 0x52D5, 0x3057, 0x306A, 0x3044, 0x3067, 0x304F, 0x3060, 0x3055, 0x3044,
     0x3002, 0x30B7, 0x30B9, 0x30C6, 0x30E0, 0x304C, 0x81EA, 0x52D5, 0x7684, 0x306B, 0x56DE, 0x53CE, 0x3057, 0x307E,
     0x3059]]),
   (HologramWanted, [utf8 [0x6709, 0x4EBA, 0x6536, 0x8D2D], ''Someone wants to buy'', utf8 [0x6709, 0x4EBA, 0x6536,
     0x8CFC], utf8 [0x8CFC, 0x5165, 0x5E0C, 0x671B, 0x8005]])]"

definition translations_10 :: catalogue where
  "translations_10 = [
   (HologramForSale, [utf8 [0x6709, 0x4EBA, 0x51FA, 0x552E], ''Someone wants to sell'', utf8 [0x6709, 0x4EBA, 0x51FA,
     0x552E], utf8 [0x8CA9, 0x58F2, 0x5E0C, 0x671B, 0x8005]]),
   (TradeActionLimitBuy, [utf8 [0x6309, 0x6211, 0x7684, 0x4EF7, 0x683C, 0x8D2D, 0x4E70], ''Buy at my price'', utf8
     [0x6309, 0x6211, 0x7684, 0x50F9, 0x683C, 0x8CFC, 0x8CB7], utf8 [0x5E0C, 0x671B, 0x4FA1, 0x683C, 0x3067, 0x8CFC,
     0x5165]]),
   (TradeActionLimitSell, [utf8 [0x6309, 0x6211, 0x7684, 0x4EF7, 0x683C, 0x51FA, 0x552E], ''Sell at my price'', utf8
     [0x6309, 0x6211, 0x7684, 0x50F9, 0x683C, 0x51FA, 0x552E], utf8 [0x5E0C, 0x671B, 0x4FA1, 0x683C, 0x3067, 0x8CA9,
     0x58F2]]),
   (TradeActionMarketBuy, [utf8 [0x76F4, 0x63A5, 0x8D2D, 0x4E70], ''Buy now'', utf8 [0x76F4, 0x63A5, 0x8CFC, 0x8CB7],
     utf8 [0x3059, 0x3050, 0x8CFC, 0x5165]]),
   (TradeActionMarketSell, [utf8 [0x76F4, 0x63A5, 0x51FA, 0x552E], ''Sell now'', utf8 [0x76F4, 0x63A5, 0x51FA,
     0x552E], utf8 [0x3059, 0x3050, 0x8CA9, 0x58F2]]),
   (TradeActionFallback, [utf8 [0x4EA4, 0x6613], ''Trade'', utf8 [0x4EA4, 0x6613], utf8 [0x53D6, 0x5F15]]),
   (ItemEmptyText, [utf8 [0x7A7A, 0x6587, 0x672C], ''empty text'', utf8 [0x7A7A, 0x6587, 0x5B57], utf8 [0x7A7A,
     0x306E, 0x30C6, 0x30AD, 0x30B9, 0x30C8]]),
   (ItemEmpty, [utf8 [0x7A7A], ''empty'', utf8 [0x7A7A], utf8 [0x7A7A]]),
   (ItemCountSuffix, [utf8 [0xFF0C, 0x5171] @ '' {} '' @ utf8 [0x9879], '', {} entries total'', utf8 [0xFF0C, 0x5171]
     @ '' {} '' @ utf8 [0x9805], utf8 [0x3001, 0x5168] @ '' {} '' @ utf8 [0x9805, 0x76EE]]),
   (ItemDeepValue, [''{}'' @ utf8 [0xFF1A, 0x5185, 0x5BB9, 0x5C42, 0x7EA7, 0x8F83, 0x6DF1, 0xFF0C, 0x8BF7, 0x4F7F,
     0x7528, 0x540C, 0x6765, 0x6E90, 0x7269, 0x54C1], ''{}: nested data is deep; use an item from the same source'',
     ''{}'' @ utf8 [0xFF1A, 0x5167, 0x5BB9, 0x5C64, 0x7D1A, 0x8F03, 0x6DF1, 0xFF0C, 0x8ACB, 0x4F7F, 0x7528, 0x540C,
     0x4F86, 0x6E90, 0x7269, 0x54C1], ''{}'' @ utf8 [0xFF1A, 0x30C7, 0x30FC, 0x30BF, 0x968E, 0x5C64, 0x304C, 0x6DF1,
     0x3044, 0x305F, 0x3081, 0x3001, 0x540C, 0x3058, 0x5165, 0x624B, 0x5143, 0x306E, 0x30A2, 0x30A4, 0x30C6, 0x30E0,
     0x3092, 0x4F7F, 0x7528, 0x3057, 0x3066, 0x304F, 0x3060, 0x3055, 0x3044]]),
   (ItemListEntry, [''{} '' @ utf8 [0x7B2C] @ '' {} '' @ utf8 [0x9879], ''{} entry {}'', ''{} '' @ utf8 [0x7B2C] @
     '' {} '' @ utf8 [0x9805], ''{} '' @ utf8 [0x306E, 0x7B2C] @ '' {} '' @ utf8 [0x9805, 0x76EE]]),
   (ItemLabel, [utf8 [0x7269, 0x54C1, 0xFF1A] @ ''{}'', ''Item: {}'', utf8 [0x7269, 0x54C1, 0xFF1A] @ ''{}'', utf8
     [0x30A2, 0x30A4, 0x30C6, 0x30E0, 0xFF1A] @ ''{}'']),
   (ItemData, [utf8 [0x6570, 0x636E, 0x503C, 0xFF1A] @ ''{}'', ''Data value: {}'', utf8 [0x8CC7, 0x6599, 0x503C,
     0xFF1A] @ ''{}'', utf8 [0x30C7, 0x30FC, 0x30BF, 0x5024, 0xFF1A] @ ''{}'']),
   (NoneValue, [utf8 [0x65E0], ''none'', utf8 [0x7121], utf8 [0x306A, 0x3057]]),
   (ItemCustomName, [utf8 [0x81EA, 0x5B9A, 0x4E49, 0x540D, 0x79F0, 0xFF1A] @ ''{}'', ''Custom name: {}'', utf8
     [0x81EA, 0x8A02, 0x540D, 0x7A31, 0xFF1A] @ ''{}'', utf8 [0x30AB, 0x30B9, 0x30BF, 0x30E0, 0x540D, 0xFF1A] @
     ''{}'']),
   (ItemLore, [utf8 [0x7269, 0x54C1, 0x8BF4, 0x660E, 0xFF1A] @ ''{}'', ''Description: {}'', utf8 [0x7269, 0x54C1,
     0x8AAA, 0x660E, 0xFF1A] @ ''{}'', utf8 [0x8AAC, 0x660E, 0xFF1A] @ ''{}'']),
   (ItemEnchantments, [utf8 [0x9644, 0x9B54, 0xFF1A] @ ''{}'', ''Enchantments: {}'', utf8 [0x9644, 0x9B54, 0xFF1A] @
     ''{}'', utf8 [0x30A8, 0x30F3, 0x30C1, 0x30E3, 0x30F3, 0x30C8, 0xFF1A] @ ''{}'']),
   (ItemDurabilityDamage, [utf8 [0x8010, 0x4E45, 0x635F, 0x8017, 0xFF1A] @ ''{}'', ''Durability damage: {}'', utf8
     [0x8010, 0x4E45, 0x640D, 0x8017, 0xFF1A] @ ''{}'', utf8 [0x8010, 0x4E45, 0x5024, 0x306E, 0x6D88, 0x8017, 0xFF1A]
     @ ''{}'']),
   (ItemRepairCost, [utf8 [0x94C1, 0x7827, 0x4FEE, 0x590D, 0x4EE3, 0x4EF7, 0xFF1A] @ ''{}'',
     ''Anvil repair cost: {}'', utf8 [0x9435, 0x7827, 0x4FEE, 0x5FA9, 0x4EE3, 0x50F9, 0xFF1A] @ ''{}'', utf8 [0x91D1,
     0x5E8A, 0x4FEE, 0x7406, 0x30B3, 0x30B9, 0x30C8, 0xFF1A] @ ''{}'']),
   (ItemUnbreakable, [utf8 [0x4E0D, 0x4F1A, 0x635F, 0x574F, 0xFF1A] @ ''{}'', ''Unbreakable: {}'', utf8 [0x4E0D,
     0x6703, 0x640D, 0x58DE, 0xFF1A] @ ''{}'', utf8 [0x7834, 0x58CA, 0x4E0D, 0x80FD, 0xFF1A] @ ''{}'']),
   (NoValue, [utf8 [0x5426], ''no'', utf8 [0x5426], utf8 [0x3044, 0x3044, 0x3048]]),
   (YesValue, [utf8 [0x662F], ''yes'', utf8 [0x662F], utf8 [0x306F, 0x3044]]),
   (ItemOtherNone, [utf8 [0x5176, 0x4ED6, 0x5C5E, 0x6027, 0xFF1A, 0x65E0], ''Other properties: none'', utf8 [0x5176,
     0x4ED6, 0x5C6C, 0x6027, 0xFF1A, 0x7121], utf8 [0x305D, 0x306E, 0x4ED6, 0x306E, 0x5C5E, 0x6027, 0xFF1A, 0x306A,
     0x3057]]),
   (ItemOtherHeader, [utf8 [0x5176, 0x4ED6, 0x5C5E, 0x6027, 0xFF1A], ''Other properties:'', utf8 [0x5176, 0x4ED6,
     0x5C6C, 0x6027, 0xFF1A], utf8 [0x305D, 0x306E, 0x4ED6, 0x306E, 0x5C5E, 0x6027, 0xFF1A]]),
   (ItemOtherMany, [''- '' @ utf8 [0x5C5E, 0x6027, 0x5185, 0x5BB9, 0x5F88, 0x591A, 0xFF1B, 0x672A, 0x5217, 0x51FA,
     0x7684, 0x90E8, 0x5206, 0x4E5F, 0x5FC5, 0x987B, 0x76F8, 0x540C],
     ''- There are many properties; unlisted properties must also match'', ''- '' @ utf8 [0x5C6C, 0x6027, 0x5167,
     0x5BB9, 0x5F88, 0x591A, 0xFF1B, 0x672A, 0x5217, 0x51FA, 0x7684, 0x90E8, 0x5206, 0x4E5F, 0x5FC5, 0x9808, 0x76F8,
     0x540C], ''- '' @ utf8 [0x5C5E, 0x6027, 0x304C, 0x591A, 0x3044, 0x305F, 0x3081, 0x3001, 0x8868, 0x793A, 0x3055,
     0x308C, 0x3066, 0x3044, 0x306A, 0x3044, 0x90E8, 0x5206, 0x3082, 0x540C, 0x3058, 0x3067, 0x3042, 0x308B, 0x5FC5,
     0x8981, 0x304C, 0x3042, 0x308A, 0x307E, 0x3059]]),
   (UnknownEnchantment, [utf8 [0x672A, 0x77E5, 0x9644, 0x9B54, 0x7F16, 0x53F7] @ '' {}'',
     ''Unknown enchantment ID {}'', utf8 [0x672A, 0x77E5, 0x9644, 0x9B54, 0x7DE8, 0x865F] @ '' {}'', utf8 [0x4E0D,
     0x660E, 0x306A, 0x30A8, 0x30F3, 0x30C1, 0x30E3, 0x30F3, 0x30C8] @ ''ID {}'']),
   (InventoryInsufficient, [utf8 [0x80CC, 0x5305, 0x4E2D, 0x6709] @ '' {} '' @ utf8 [0x4EF6] @ '' {}'' @ utf8 [0x3002,
     0x7B26, 0x5408, 0x51FA, 0x552E, 0x8981, 0x6C42, 0x7684, 0x6709] @ '' {} '' @ utf8 [0x4EF6, 0xFF0C, 0x672C,
     0x6B21, 0x9700, 0x8981] @ '' {} '' @ utf8 [0x4EF6, 0x3002] @ ''{}'',
     ''Your inventory contains {} {} item(s). {} match the selling requirements; {} are needed.{}'', utf8 [0x80CC,
     0x5305, 0x4E2D, 0x6709] @ '' {} '' @ utf8 [0x4EF6] @ '' {}'' @ utf8 [0x3002, 0x7B26, 0x5408, 0x51FA, 0x552E,
     0x8981, 0x6C42, 0x7684, 0x6709] @ '' {} '' @ utf8 [0x4EF6, 0xFF0C, 0x672C, 0x6B21, 0x9700, 0x8981] @ '' {} '' @
     utf8 [0x4EF6, 0x3002] @ ''{}'', utf8 [0x30A4, 0x30F3, 0x30D9, 0x30F3, 0x30C8, 0x30EA, 0x306B, 0x306F] @ '' {} ''
     @ utf8 [0x500B, 0x306E] @ '' {} '' @ utf8 [0x304C, 0x3042, 0x308A, 0x307E, 0x3059, 0x3002, 0x8CA9, 0x58F2,
     0x6761, 0x4EF6, 0x306B, 0x5408, 0x3046, 0x3082, 0x306E, 0x306F] @ '' {} '' @ utf8 [0x500B, 0x3067, 0x3001,
     0x4ECA, 0x56DE, 0x306F] @ '' {} '' @ utf8 [0x500B, 0x5FC5, 0x8981, 0x3067, 0x3059, 0x3002] @ ''{}''])]"

definition Translations :: catalogue where
  "Translations = translations_1 @ translations_2 @ translations_3 @ translations_4 @ translations_5 @ translations_6
    @ translations_7 @ translations_8 @ translations_9 @ translations_10"

section \<open>Braces\<close>

text \<open>One pass over a text: after an open brace (1), after a closed one (2), or after neither (0).\<close>

fun fields_at :: "nat \<Rightarrow> nat \<Rightarrow> string \<Rightarrow> nat option" where
  "fields_at st n [] = (if st = 0 then Some n else None)"
| "fields_at st n (c # cs) =
    (if st = 0 then if c = CHR ''{'' then fields_at 1 n cs else if c = CHR ''}'' then fields_at 2 n cs else fields_at 0 n cs
     else if st = 1 then if c = CHR ''{'' then fields_at 0 n cs else if c = CHR ''}'' then fields_at 0 (Suc n) cs else None
     else if c = CHR ''}'' then fields_at 0 n cs else None)"

lemma fields_at_fields:
  "fields_at 0 n t = Some k \<Longrightarrow> plain_fields t \<and> placeholderCount t + n = k"
proof (induction t arbitrary: n rule: plain_fields.induct)
  case (3 c d cs)
  have skip: "placeholderCount (CHR ''}'' # cs) = placeholderCount cs" by (cases cs) simp_all
  show ?case
    using "3.prems" "3.IH"(1) [of n] "3.IH"(1) [of "Suc n"] "3.IH"(2) [of n] "3.IH"(3) [of n]
    by (auto simp: skip split: if_splits)
qed (auto split: if_splits)

definition wide :: "int \<Rightarrow> bool" where
  "wide c \<longleftrightarrow> 128 \<le> c \<and> c < 65536"

lemma no_brace:
  assumes "128 \<le> n" "n < 256"
  shows "char_of (n :: int) \<noteq> CHR ''{''" "char_of n \<noteq> CHR ''}''"
proof -
  have n: "of_char (char_of n) = n" using assms by simp
  have "of_char (CHR ''{'') < (128 :: int)" "of_char (CHR ''}'') < (128 :: int)" by simp_all
  then show "char_of n \<noteq> CHR ''{''" "char_of n \<noteq> CHR ''}''" using n assms(1) by (metis linorder_not_le)+
qed

lemma fields_wide_char: "wide c \<Longrightarrow> fields_at 0 n (utf8_char c @ t) = fields_at 0 n t"
  by (auto simp: wide_def utf8_char_def no_brace)

lemma fields_wide:
  "list_all wide cs \<Longrightarrow> fields_at 0 n (utf8 cs @ t) = fields_at 0 n t"
  "list_all wide cs \<Longrightarrow> fields_at 0 n (utf8 cs) = Some n"
proof -
  show w: "list_all wide cs \<Longrightarrow> fields_at 0 n (utf8 cs @ t) = fields_at 0 n t" for t
    by (induction cs) (simp_all add: utf8_def fields_wide_char)
  show "list_all wide cs \<Longrightarrow> fields_at 0 n (utf8 cs) = Some n" using w [of "[]"] by simp
qed

lemma utf8_nonempty: "utf8 (c # cs) \<noteq> []" "utf8 (c # cs) @ t \<noteq> []"
  by (simp_all add: utf8_def utf8_char_def)

definition row_ok :: "Message \<times> string list \<Rightarrow> bool" where
  "row_ok row \<longleftrightarrow> fst row < Message_Count \<and> (case snd row of [a, b, c, d] \<Rightarrow>
     (case fields_at 0 0 a of None \<Rightarrow> False | Some n \<Rightarrow> a \<noteq> [] \<and> b \<noteq> [] \<and> c \<noteq> [] \<and> d \<noteq> [] \<and>
       fields_at 0 0 b = Some n \<and> fields_at 0 0 c = Some n \<and> fields_at 0 0 d = Some n) | _ \<Rightarrow> False)"

lemmas row_checks = row_ok_def Message_Count_def fields_wide wide_def utf8_nonempty

lemma rows_1: "list_all row_ok translations_1"
  by (simp add: translations_1_def row_checks)

lemma rows_2: "list_all row_ok translations_2"
  by (simp add: translations_2_def row_checks)

lemma rows_3: "list_all row_ok translations_3"
  by (simp add: translations_3_def row_checks)

lemma rows_4: "list_all row_ok translations_4"
  by (simp add: translations_4_def row_checks)

lemma rows_5: "list_all row_ok translations_5"
  by (simp add: translations_5_def row_checks)

lemma rows_6: "list_all row_ok translations_6"
  by (simp add: translations_6_def row_checks)

lemma rows_7: "list_all row_ok translations_7"
  by (simp add: translations_7_def row_checks)

lemma rows_8: "list_all row_ok translations_8"
  by (simp add: translations_8_def row_checks)

lemma rows_9: "list_all row_ok translations_9"
  by (simp add: translations_9_def row_checks)

lemma rows_10: "list_all row_ok translations_10"
  by (simp add: translations_10_def row_checks)

lemma row_ok_facts:
  assumes "row_ok (message, texts)"
  shows "message < Message_Count" "length texts = 4"
    "t \<in> set texts \<Longrightarrow> t \<noteq> [] \<and> plain_fields t \<and> placeholderCount t = placeholderCount (hd texts)"
proof -
  from assms obtain a b c d n where t: "texts = [a, b, c, d]" "message < Message_Count"
    "a \<noteq> []" "b \<noteq> []" "c \<noteq> []" "d \<noteq> []"
    "fields_at 0 0 a = Some n" "fields_at 0 0 b = Some n" "fields_at 0 0 c = Some n" "fields_at 0 0 d = Some n"
    by (auto simp: row_ok_def split: list.splits option.splits)
  then show "message < Message_Count" "length texts = 4" by simp_all
  show "t \<noteq> [] \<and> plain_fields t \<and> placeholderCount t = placeholderCount (hd texts)" if "t \<in> set texts"
    using that t fields_at_fields [of 0 _ n] by auto
qed

lemma all_rows: "list_all row_ok Translations"
  unfolding Translations_def list_all_append by (intro conjI rows_1 rows_2 rows_3 rows_4 rows_5 rows_6 rows_7 rows_8 rows_9 rows_10)

lemma all_messages: "map fst Translations = [0..<Message_Count]"
proof -
  have "[0..<Message_Count] = [0, 1, 2, 3, 4, 5, 6, 7, 8, 9, 10, 11, 12, 13, 14, 15, 16, 17, 18, 19, 20, 21, 22, 23, 24, 25, 26, 27, 28, 29,
    30, 31, 32, 33, 34, 35, 36, 37, 38, 39, 40, 41, 42, 43, 44, 45, 46, 47, 48, 49, 50, 51, 52, 53, 54, 55, 56,
    57, 58, 59, 60, 61, 62, 63, 64, 65, 66, 67, 68, 69, 70, 71, 72, 73, 74, 75, 76, 77, 78, 79, 80, 81, 82, 83,
    84, 85, 86, 87, 88, 89, 90, 91, 92, 93, 94, 95, 96, 97, 98, 99, 100, 101, 102, 103, 104, 105, 106, 107, 108,
    109, 110, 111, 112, 113, 114, 115, 116, 117, 118, 119, 120, 121, 122, 123, 124, 125, 126, 127, 128, 129, 130,
    131, 132, 133, 134, 135, 136, 137, 138, 139, 140, 141, 142, 143, 144, 145, 146, 147, 148, 149, 150, 151, 152,
    153, 154, 155, 156, 157, 158, 159, 160, 161, 162, 163, 164, 165, 166, 167, 168, 169, 170, 171, 172]"
    by (simp add: Message_Count_def upt_rec)
  then show ?thesis
    by (simp add: Translations_def translations_1_def translations_2_def translations_3_def translations_4_def translations_5_def translations_6_def translations_7_def translations_8_def translations_9_def translations_10_def)
qed

lemma catalogue_complete: "complete Translations"
proof -
  have ids: "distinct (map fst Translations)" "set (map fst Translations) = {..<Message_Count}"
    by (simp_all only: all_messages distinct_upt set_upt) auto
  have "length (filter (\<lambda>entry. fst entry = message) Translations) = 1" if "message < Message_Count" for message
  proof -
    have "message \<in> set (map fst Translations)" using ids(2) that by simp
    then obtain entry where "entry \<in> set Translations" "fst entry = message" by auto
    then show ?thesis using filter_key [OF ids(1), of entry] by simp
  qed
  then show ?thesis
    using all_rows row_ok_facts by (fastforce simp: complete_def list_all_iff)
qed

text \<open>
  C29: The table passes the compile-time check: every message has four texts, none empty, with the same number
  of fields. Beyond that check, no message can fail to be formatted in one language only: in every language
  the formatting succeeds exactly when the arguments are at least as many as the fields of the English text.
\<close>

theorem messages_format:
  assumes "message < Message_Count"
  shows "complete Translations \<and> messageText Translations l message \<noteq> [] \<and>
    ((\<exists>s. tr Translations l message args = Inr s) \<longleftrightarrow>
      placeholderCount (messageText Translations English message) \<le> length args)"
proof -
  obtain texts where f: "find (\<lambda>entry. fst entry = message) Translations = Some (message, texts)" "length texts = 4"
    by (rule complete_entry [OF catalogue_complete assms]) blast
  then have "row_ok (message, texts)" using all_rows by (auto simp: list_all_iff find_Some_iff)
  then have "plain_fields (texts ! languageIndex l)" using row_ok_facts(3) f(2) by simp
  then have "plain_fields (messageText Translations l message)" by (simp add: messageText_def f(1))
  with complete_text [OF catalogue_complete assms, of l] catalogue_complete vformat_succeeds
  show ?thesis unfolding tr_def by metis
qed

lemma messages_format_witness:
  "(\<exists>s. tr Translations Japanese Balance [''5.00''] = Inr s) \<and> (\<nexists>s. tr Translations Japanese Balance [] = Inr s)"
proof -
  have "messageText Translations English Balance = utf8 [0xA7] @ ''6Available balance: '' @ utf8 [0xA7] @ ''e{}'' @ utf8 [0xA7] @ ''r''"
    by (simp add: messageText_def Translations_def translations_1_def find_append)
  also have "fields_at 0 0 \<dots> = Some 1" by (simp add: fields_wide wide_def)
  then have "placeholderCount (utf8 [0xA7] @ ''6Available balance: '' @ utf8 [0xA7] @ ''e{}'' @ utf8 [0xA7] @ ''r'') = 1"
    using fields_at_fields [of 0 _ 1] by simp
  finally have "placeholderCount (messageText Translations English Balance) = 1" .
  then show ?thesis
    using messages_format [of Balance Japanese "[''5.00'']"] messages_format [of Balance Japanese "[]"]
    by (simp add: Message_Count_def)
qed

end
