(* ===== verification/Spec2Isabelle.thy ===== *)
theory Spec2Isabelle
  imports Market_Data Level_Db Umoney_Funding Hologram Interaction_Gate Inventory_Claims Row_Types Service Frame_Custody Market_Index Translation_Table
begin

text \<open>
  Verification library of the Endstone exchange plugin, a C++ plugin for a Bedrock server in which players
  trade items for money at blocks, item frames and actors, with orders, accounts and escrows in MySQL.

  \<^bold>\<open>The program and the theories\<close>

  \<^item> The service (src/exchange_service.cpp, include/endstone_exchange/domain.hpp, the tables of
    src/database.cpp): the theories Exchange_Prelude, Domain, Store, Text, Rows and Row_Types (errors and
    computations, structs and enumerations, tables, conversion of result rows); Accounts (accounts and
    ledger); Orders, with its correctness in Matching, Placement, Conservation, Trading, Progress and
    Market_Data (order entry, matching, cancellation, the book, the funding of a purchase); Markets; Deliveries,
    Trade_Log, Sell_Escrow; Transfers; Frame_Listings; Service (all operations as one system).
  \<^item> Byte formats: Bytes, Nbt_Codec (src/nbt_codec.cpp), Structure_Reader and Level_Db
    (src/structure_reader.cpp).
  \<^item> Texts and forms: Localization and Translation_Table (src/localization.cpp), Trade_Form
    (src/trade_form.cpp), Config (src/config.cpp), Hologram (src/market_display.cpp, src/hologram_packet.cpp),
    Interaction_Gate (src/interaction_gate.cpp).
  \<^item> Items: Item_Identity (src/item_identity.cpp), Inventory_Escrow (src/inventory_escrow.cpp), and the
    flows of src/plugin.cpp between inventory and database in Inventory_Flows, Inventory_Sales,
    Inventory_Claims.
  \<^item> UMoney: Umoney_Bridge and Umoney_Funding (src/umoney_gateway.cpp and the settlement of transfers in
    src/plugin.cpp).
  \<^item> The plugin object (src/plugin.cpp, include/endstone_exchange/plugin.hpp): Plugin_Helpers,
    Plugin_State (its members), Trade_Desk (the dialogue of a trade), Market_Desk (opening and closing trade
    points), Frame_Desk, Frame_Settlement and Frame_Custody (selling the item of a frame), Hologram_World (the
    labels), Plugin_Events (handlers, tasks, commands, starting and stopping), Plugin_Run (everything that can
    happen, in any order), Market_Index (the markets in memory against those of the database). Plugin_Steps
    has the rules by which all of it is seen to change the database only through the service.

  A theory's definitions stand in the order of the code and carry the names of its functions; a part of
  a function that became a definition of its own (a loop, a callback, a button of a form) is named
  after what it does, and the map of the project names its lines.

  \<^bold>\<open>How the code is modelled\<close>

  A member function that changes state is a computation of type \<open>('s, 'a) svc\<close>: from a state to
  an exception or a result, and the state it leaves. Exceptions do not undo effects; only
  \<open>transactionS\<close>, the RAII class of src/database.cpp, rolls back. The state is the database
  \<open>db\<close> for the service, database and inventory (\<open>visit\<close>) for the inventory flows,
  database, flags and the world of UMoney (\<open>plug\<close>) for the settlement, database and world of the
  frames (\<open>frame_world\<close>) for the frame sales, the level with its actors
  (\<open>label_world\<close>) for the labels, and the record \<open>plugin\<close> for the handlers, which
  embeds the smaller ones (\<open>on_plug\<close>, \<open>visiting\<close>, \<open>on_frames\<close>). SQL
  tables are lists of rows in the order of their keys; AUTO_INCREMENT, CHECK constraints and foreign keys are
  modelled as fresh keys and as proved invariants. Hash maps are association lists. C++ \<open>int\<close> and
  \<open>int64_t\<close> are \<open>int\<close> with the bounds checked where the code checks them, and an
  error \<open>signed_overflow\<close> where it does not; bytes, floats of the packets and wire integers are
  words. A callback handed to the scheduler, to a form or to a capture is data in the state
  (\<open>task\<close>, \<open>form\<close>, \<open>request\<close>), with what the closure captures, and
  running it is a step of its own; so any interleaving of ticks, clicks, answers and captures is a list of
  happenings (\<open>react_all\<close>).

  Recursion ends by structure or by the measure given. The reader of NBT has fuel, \<open>Suc\<close> of the
  number of bytes, which is enough because every tag consumes a byte (\<open>decode_returns\<close>); the
  loops of the LevelDB reader have the length of what is left. Nothing is only partially correct.

  \<^bold>\<open>Parameters\<close>

  Code that is not in the repository is an argument: SHA-256 and the UUID source; the inventory of the host
  (\<open>inventory_api\<close> with \<open>inventory_laws\<close>: a write takes effect, except that one that
  replaces a stack by the same stack with other NBT data can be ignored, as the source notes at
  \<open>clearDeliveryClaimTag\<close>; \<open>prompt\<close> is an inventory that ignores none;
  \<open>add_laws\<close> and \<open>countable\<close>); the item metadata (setting a name and a lore can
  fail, \<open>meta_laws\<close>) and registry (\<open>host\<close>, \<open>st_stack\<close>,
  \<open>st_shown\<close>, \<open>st_key\<close>, \<open>st_translate\<close>, \<open>st_registry\<close>,
  \<open>st_stick\<close>, \<open>st_lore\<close>); the numbering of NBT tags and the insertion into
  compounds; UMoney with the Python interpreter and the files (\<open>umoney\<close>, with
  \<open>umoney_laws\<close> where money is counted); the structure captured from a frame, the outcome of
  console commands and of the database connection; float arithmetic of the host. The table of the translations
  is an argument of the operations that speak to a player, so that what they do is proved for any table; the
  table of the source is \<open>Translations\<close>.

  \<^bold>\<open>What the lemmas show\<close>

  The interfaces are locales. \<open>keyed_update\<close> (an UPDATE by primary key), with
  \<open>listing_update\<close> on top of it, and \<open>transfer_update\<close> are interpreted for every
  update the service makes; \<open>cash_book\<close> for the ledger; \<open>wire\<close> (a writer and a
  reader that invert each other) for bytes, integers, strings and variable-length integers;
  \<open>service_rule\<close>, \<open>plugin_rule\<close>, \<open>market_rule\<close> and
  \<open>free_rule\<close> (a property of the database, or of database and market index, that the service
  calls keep, hence every flow keeps, hence the plugin keeps), once for the consistency of the whole database
  and once for the agreement of the market index with it.

  The properties go from the service outwards. Trading keeps ledger, balances, order table and book
  consistent, conserves money and items, follows price-time priority, and accepts exactly what it should.
  Markets, claims, escrows, transfers and listings follow their state machines, do what they do once, and can
  be repeated after a crash. Any sequence of service calls keeps the whole database consistent with the money
  issued (\<open>service_invariant\<close>). Sales and deliveries move items between inventory and exchange
  one for one; transfers neither make nor lose UMoney; a sold frame item is handed out once, as long as its
  drop leaves the world only by pickups that the ready plugin handles. Codecs round-trip and refuse damage,
  but for an encoding cut down to nothing; a message can be formatted in one language exactly when in all;
  forms and configuration accept exactly what the service is safe with. Finally all of the plugin, under any
  history of events, keeps the service consistent (\<open>plugin_keeps_service\<close>) and its index of the
  markets true (\<open>index_in_step\<close>), and its labels stay one for a market
  (\<open>one_label\<close>).

  \<^bold>\<open>Not modelled\<close>

  Connecting, authenticating and migrating (\<open>Database::connect\<close>, \<open>migrate\<close>,
  \<open>escape\<close>: calls into the MySQL client library, whose outcome is an input of
  \<open>onEnable\<close>), and concurrent connections: the worker that reads the books for the labels only
  reads, and its answer is an input (\<open>snapshot_done\<close>). Log messages. Sending packets and forms,
  beyond their contents. The deletion of the structures of finished captures. Column widths and the collation
  utf8mb4_unicode_ci: uuids, names and keys are strings of any length, compared exactly, which
  agrees with MySQL for keys that differ in more than case or accents. The stack that \<open>sampleItem\<close> builds for a
  stored item is taken to be built, as far as its NBT data can be decoded; the one built for an item read from
  a frame can fail (\<open>st_stack\<close>). The refreshes of all labels after a canceled order, which only
  ask for a new snapshot, are left to the timer. The parsing of a decimal amount by \<open>std::stod\<close>
  in addbalance is the parameter \<open>st_amount\<close>. Writing the contents of an inventory back unchanged
  in \<open>queueInventoryResync\<close> is left out. The ENDSTONE_PLUGIN block is data for the host.
\<close>

end
